(* ===== verification/Muxe_Prelude.thy ===== *)
theory Muxe_Prelude
  imports Main "HOL-Library.Word"
begin

text \<open>
  Shared vocabulary of the development: Rust results as sums with their \<open>?\<close> operator,
  checked arithmetic on machine words, text as a list of Unicode scalar values, and one
  interface that every event-driven component of the program is an instance of.
\<close>

unbundle bit_operations_syntax

section \<open>Collections used by the component theories\<close>

named_theorems result_simps \<open>rewriting of results (\<open>?\<close>, guards, loops that stop at an error)\<close>

section \<open>Machine types\<close>

type_synonym u8 = "8 word"
type_synonym u16 = "16 word"
type_synonym u32 = "32 word"
type_synonym u64 = "64 word"

text \<open>An \<open>i64\<close> is the same 64 bits read through \<open>sint\<close>.\<close>

type_synonym i64 = "64 word"

definition checked_add_u32 :: "u32 \<Rightarrow> u32 \<Rightarrow> u32 option" where
  "checked_add_u32 a b = (if unat a + unat b < 2 ^ 32 then Some (a + b) else None)"

definition checked_mul_u32 :: "u32 \<Rightarrow> u32 \<Rightarrow> u32 option" where
  "checked_mul_u32 a b = (if unat a * unat b < 2 ^ 32 then Some (a * b) else None)"

lemma checked_add_u32_Some:
  "checked_add_u32 a b = Some c \<Longrightarrow> unat c = unat a + unat b"
  by (auto simp: checked_add_u32_def unat_word_ariths split: if_splits)

lemma checked_mul_u32_Some:
  "checked_mul_u32 a b = Some c \<Longrightarrow> unat c = unat a * unat b"
  by (auto simp: checked_mul_u32_def unat_word_ariths split: if_splits)

section \<open>Results\<close>

text \<open>
  Rust's \<open>Result<T, E>\<close> is the sum \<open>'e + 't\<close>: \<open>Inl\<close> is \<open>Err\<close>, \<open>Inr\<close> is \<open>Ok\<close>. \<open>rbind\<close> is the
  \<open>?\<close> operator, \<open>ensure\<close> is \<open>cond.then_some(()).ok_or(err)\<close>, \<open>ok_or\<close> is the method of
  \<open>Option\<close>, and \<open>each_ok\<close> is a \<open>for\<close> loop whose body ends in \<open>?\<close>.
\<close>

fun rbind :: "'e + 'a \<Rightarrow> ('a \<Rightarrow> 'e + 'b) \<Rightarrow> 'e + 'b" where
  "rbind (Inl e) f = Inl e"
| "rbind (Inr a) f = f a"

definition ensure :: "bool \<Rightarrow> 'e \<Rightarrow> 'e + unit" where
  "ensure c e = (if c then Inr () else Inl e)"

fun ok_or :: "'a option \<Rightarrow> 'e \<Rightarrow> 'e + 'a" where
  "ok_or None e = Inl e"
| "ok_or (Some a) e = Inr a"

fun each_ok :: "('a \<Rightarrow> 'e + unit) \<Rightarrow> 'a list \<Rightarrow> 'e + unit" where
  "each_ok f [] = Inr ()"
| "each_ok f (x # xs) = rbind (f x) (\<lambda>_. each_ok f xs)"

fun opt_ok :: "('a \<Rightarrow> 'e + unit) \<Rightarrow> 'a option \<Rightarrow> 'e + unit" where
  "opt_ok f None = Inr ()"
| "opt_ok f (Some x) = f x"

lemma rbind_cong [fundef_cong]:
  "m = m' \<Longrightarrow> (\<And>a. m' = Inr a \<Longrightarrow> f a = g a) \<Longrightarrow> rbind m f = rbind m' g"
  by (cases m') auto

lemma rbind_assoc: "rbind (rbind m f) g = rbind m (\<lambda>a. rbind (f a) g)"
  by (cases m) simp_all

lemma rbind_Inr_iff [result_simps]: "rbind m f = Inr b \<longleftrightarrow> (\<exists>a. m = Inr a \<and> f a = Inr b)"
  by (cases m) auto

lemma rbind_Inl_iff [result_simps]:
  "rbind m f = Inl e \<longleftrightarrow> m = Inl e \<or> (\<exists>a. m = Inr a \<and> f a = Inl e)"
  by (cases m) auto

lemma ensure_Inr_iff [result_simps]: "ensure c e = Inr u \<longleftrightarrow> c"
  by (simp add: ensure_def)

lemma ensure_Inl_iff [result_simps]: "ensure c e = Inl e' \<longleftrightarrow> \<not> c \<and> e' = e"
  by (auto simp: ensure_def)

lemma ok_or_Inr_iff [result_simps]: "ok_or m e = Inr a \<longleftrightarrow> m = Some a"
  by (cases m) auto

lemma ok_or_Inl_iff [result_simps]: "ok_or m e = Inl e' \<longleftrightarrow> m = None \<and> e' = e"
  by (cases m) auto

lemma each_ok_Inr_iff [result_simps]: "each_ok f xs = Inr u \<longleftrightarrow> (\<forall>x \<in> set xs. f x = Inr ())"
  by (induction xs) (auto simp: rbind_Inr_iff)

lemma opt_ok_Inr_iff [result_simps]: "opt_ok f m = Inr u \<longleftrightarrow> (\<forall>x. m = Some x \<longrightarrow> f x = Inr ())"
  by (cases m) auto

section \<open>Characters and text\<close>

text \<open>
  A Rust \<open>char\<close> is a Unicode scalar value. Text is the list of its scalar values; \<open>str_len\<close> is
  the byte length \<open>str::len\<close> reports, the length of the UTF-8 encoding.
\<close>

type_synonym scalar = u32
type_synonym str = "scalar list"

definition is_scalar :: "u32 \<Rightarrow> bool" where
  "is_scalar v \<longleftrightarrow> v < 0xD800 \<or> (0xE000 \<le> v \<and> v < 0x110000)"

definition char_from_u32 :: "u32 \<Rightarrow> scalar option" where
  "char_from_u32 v = (if is_scalar v then Some v else None)"

definition is_control :: "scalar \<Rightarrow> bool" where
  "is_control c \<longleftrightarrow> c < 0x20 \<or> (0x7F \<le> c \<and> c \<le> 0x9F)"

definition is_whitespace :: "scalar \<Rightarrow> bool" where
  "is_whitespace c \<longleftrightarrow>
     (0x09 \<le> c \<and> c \<le> 0x0D) \<or> c = 0x20 \<or> c = 0x85 \<or> c = 0xA0 \<or> c = 0x1680
     \<or> (0x2000 \<le> c \<and> c \<le> 0x200A) \<or> c = 0x2028 \<or> c = 0x2029 \<or> c = 0x202F
     \<or> c = 0x205F \<or> c = 0x3000"

text \<open>The standard library's UTF-8 encoder (\<open>char::encode_utf8\<close>).\<close>

definition utf8_cont :: "u32 \<Rightarrow> u8" where
  "utf8_cont v = ucast (v AND 0x3F) OR 0x80"

definition encode_utf8 :: "scalar \<Rightarrow> u8 list" where
  "encode_utf8 c =
     (if c < 0x80 then [ucast c]
      else if c < 0x800 then [ucast (drop_bit 6 c) OR 0xC0, utf8_cont c]
      else if c < 0x10000 then
        [ucast (drop_bit 12 c) OR 0xE0, utf8_cont (drop_bit 6 c), utf8_cont c]
      else [ucast (drop_bit 18 c) OR 0xF0, utf8_cont (drop_bit 12 c),
            utf8_cont (drop_bit 6 c), utf8_cont c])"

definition str_len :: "str \<Rightarrow> nat" where
  "str_len t = (\<Sum>c \<leftarrow> t. length (encode_utf8 c))"

text \<open>ASCII literals of the source, as text.\<close>

definition lit :: "string \<Rightarrow> str" where
  "lit s = map of_char s"

text \<open>The pieces between separators (\<open>str::split\<close>); there is always one more piece than separators.\<close>

fun split_by :: "(scalar \<Rightarrow> bool) \<Rightarrow> str \<Rightarrow> str list" where
  "split_by sep [] = [[]]"
| "split_by sep (c # cs) =
     (if sep c then [] # split_by sep cs
      else case split_by sep cs of [] \<Rightarrow> [[c]] | w # ws \<Rightarrow> (c # w) # ws)"

section \<open>Bits of words\<close>

lemma or_disjoint:
  fixes a b :: "'a::len word"
  assumes "\<And>n. bit a n \<Longrightarrow> \<not> bit b n"
  shows "a OR b = a + b"
proof -
  have "a AND b = 0" using assms by (auto simp: bit_eq_iff bit_simps)
  then show ?thesis by (simp add: disjunctive_add_eq_or)
qed

lemma or_push_bit:
  fixes x h :: "'a::len word"
  assumes "take_bit k x = x"
  shows "x OR push_bit k h = x + push_bit k h"
proof (rule or_disjoint)
  fix n assume "bit x n"
  then have "n < k" using assms by (metis bit_take_bit_iff)
  then show "\<not> bit (push_bit k h) n" by (simp add: bit_push_bit_iff)
qed

lemma take_bit_small:
  fixes x :: "'a::len word"
  assumes "x < 2 ^ k" and "k < LENGTH('a)"
  shows "take_bit k x = x"
proof (rule word_unat_eq_iff [THEN iffD2])
  have "unat (2 ^ k :: 'a word) = 2 ^ k"
    using assms(2) unsigned_of_nat [where ?'a = nat and ?'b = 'a, of "2 ^ k"]
    by (simp add: take_bit_nat_eq_self)
  then have "unat x < 2 ^ k" using assms(1) by (simp add: word_less_nat_alt)
  then show "unat (take_bit k x) = unat x"
    by (simp add: unsigned_take_bit_eq take_bit_nat_eq_self)
qed

lemma unat_take_bit: "unat (take_bit k (w :: 'a::len word)) = take_bit k (unat w)"
  by (rule unsigned_take_bit_eq)

lemma and_mask6: "v AND 0x3F = take_bit 6 (v :: 'a::len word)"
  by (simp add: take_bit_eq_mask mask_eq_exp_minus_1)

lemma unat_and_mask6: "unat (v AND 0x3F :: 32 word) = unat v mod 64" "unat (b AND 0x3F :: 8 word) = unat b mod 64"
  unfolding and_mask6 unat_take_bit by (simp_all add: take_bit_eq_mod)

lemma or_0x80: "(x::8 word) < 0x40 \<Longrightarrow> unat (x OR 0x80) = unat x + 128"
  using or_push_bit [of 7 x 1] take_bit_small [of x 7]
  by (simp add: unat_word_ariths word_less_nat_alt)
lemma or_0xC0: "(x::8 word) < 0x20 \<Longrightarrow> unat (x OR 0xC0) = unat x + 0xC0"
  using or_push_bit [of 6 x 3] take_bit_small [of x 6]
  by (simp add: unat_word_ariths word_less_nat_alt)
lemma or_0xE0: "(x::8 word) < 0x10 \<Longrightarrow> unat (x OR 0xE0) = unat x + 0xE0"
  using or_push_bit [of 5 x 7] take_bit_small [of x 5]
  by (simp add: unat_word_ariths word_less_nat_alt)
lemma or_0xF0: "(x::8 word) < 8 \<Longrightarrow> unat (x OR 0xF0) = unat x + 0xF0"
  using or_push_bit [of 4 x 15] take_bit_small [of x 4]
  by (simp add: unat_word_ariths word_less_nat_alt)

lemma unat_ucast_small: "unat v < 256 \<Longrightarrow> unat (ucast (v :: 32 word) :: 8 word) = unat v"
  by (simp add: unsigned_ucast_eq take_bit_nat_eq_self)

lemma unat_utf8_cont: "unat (utf8_cont v) = 128 + unat v mod 64"
proof -
  have u: "unat (ucast (v AND 0x3F) :: 8 word) = unat v mod 64"
    using unat_and_mask6(1) [of v] by (subst unat_ucast_small) simp_all
  then have "(ucast (v AND 0x3F) :: 8 word) < 0x40" by (simp add: word_less_nat_alt)
  then show ?thesis by (simp add: utf8_cont_def or_0x80 u)
qed

section \<open>Event-driven components\<close>

text \<open>
  A component is a state, a step that consumes one input and produces outputs, and an
  invariant every step keeps. \<open>run\<close> feeds a list of inputs and collects the outputs in order.
\<close>

fun run :: "('s \<Rightarrow> 'i \<Rightarrow> 's \<times> 'o list) \<Rightarrow> 's \<Rightarrow> 'i list \<Rightarrow> 's \<times> 'o list" where
  "run step s [] = (s, [])"
| "run step s (x # xs) =
     (let (s', out) = step s x; (s'', outs) = run step s' xs in (s'', out @ outs))"

lemma run_Cons:
  "run step s (x # xs) =
     (fst (run step (fst (step s x)) xs), snd (step s x) @ snd (run step (fst (step s x)) xs))"
  by (simp add: case_prod_beta Let_def)

lemma run_append:
  "run step s (xs @ ys) =
     (fst (run step (fst (run step s xs)) ys),
      snd (run step s xs) @ snd (run step (fst (run step s xs)) ys))"
  by (induction xs arbitrary: s) (simp_all add: run_Cons del: run.simps(2))

locale event_machine =
  fixes step :: "'s \<Rightarrow> 'i \<Rightarrow> 's \<times> 'o list"
    and inv :: "'s \<Rightarrow> bool"
    and good :: "'o \<Rightarrow> bool"
  assumes step_inv: "inv s \<Longrightarrow> inv (fst (step s x))"
    and step_good: "inv s \<Longrightarrow> list_all good (snd (step s x))"
begin

lemma run_inv: "inv s \<Longrightarrow> inv (fst (run step s xs))"
  by (induction xs arbitrary: s) (simp_all add: run_Cons step_inv del: run.simps(2))

lemma run_good: "inv s \<Longrightarrow> list_all good (snd (run step s xs))"
  by (induction xs arbitrary: s) (simp_all add: run_Cons step_inv step_good del: run.simps(2))

end

end
