(* ===== verification/Condition.thy ===== *)
theory Condition
  imports Muxe_Prelude "HOL-Library.Signed_Division"
begin

text \<open>
  \<open>muxe-condition\<close>: the IR of pager conditions, the one evaluator and the one type checker,
  both written once over a borrowed view of a node (the trait \<open>ConditionNode\<close>), with its two
  implementors, the owned \<open>ConditionIr\<close> and the archived wire form.
\<close>

section \<open>Nodes\<close>

record pages_context =
  pg_count :: u64
  pg_current :: u64

datatype condition_ir =
    CBool bool
  | CInteger i64
  | CPagesCount
  | CPagesCurrent
  | CNot condition_ir
  | CAnd condition_ir condition_ir
  | COr condition_ir condition_ir
  | CEqual condition_ir condition_ir
  | CNotEqual condition_ir condition_ir
  | CLess condition_ir condition_ir
  | CLessEqual condition_ir condition_ir
  | CGreater condition_ir condition_ir
  | CGreaterEqual condition_ir condition_ir
  | CAdd condition_ir condition_ir
  | CSubtract condition_ir condition_ir
  | CMultiply condition_ir condition_ir
  | CDivide condition_ir condition_ir
  | CModulo condition_ir condition_ir
  | CNegate condition_ir
  | CConditional condition_ir condition_ir condition_ir

datatype 'v node_ref =
    NBool bool
  | NInteger i64
  | NPagesCount
  | NPagesCurrent
  | NNot 'v
  | NAnd 'v 'v
  | NOr 'v 'v
  | NEqual 'v 'v
  | NNotEqual 'v 'v
  | NLess 'v 'v
  | NLessEqual 'v 'v
  | NGreater 'v 'v
  | NGreaterEqual 'v 'v
  | NAdd 'v 'v
  | NSubtract 'v 'v
  | NMultiply 'v 'v
  | NDivide 'v 'v
  | NModulo 'v 'v
  | NNegate 'v
  | NConditional 'v 'v 'v

fun view_ir :: "condition_ir \<Rightarrow> condition_ir node_ref" where
  "view_ir (CBool v) = NBool v"
| "view_ir (CInteger v) = NInteger v"
| "view_ir CPagesCount = NPagesCount"
| "view_ir CPagesCurrent = NPagesCurrent"
| "view_ir (CNot v) = NNot v"
| "view_ir (CAnd l r) = NAnd l r"
| "view_ir (COr l r) = NOr l r"
| "view_ir (CEqual l r) = NEqual l r"
| "view_ir (CNotEqual l r) = NNotEqual l r"
| "view_ir (CLess l r) = NLess l r"
| "view_ir (CLessEqual l r) = NLessEqual l r"
| "view_ir (CGreater l r) = NGreater l r"
| "view_ir (CGreaterEqual l r) = NGreaterEqual l r"
| "view_ir (CAdd l r) = NAdd l r"
| "view_ir (CSubtract l r) = NSubtract l r"
| "view_ir (CMultiply l r) = NMultiply l r"
| "view_ir (CDivide l r) = NDivide l r"
| "view_ir (CModulo l r) = NModulo l r"
| "view_ir (CNegate v) = NNegate v"
| "view_ir (CConditional c l r) = NConditional c l r"

section \<open>Values, errors and checked arithmetic\<close>

datatype condition_value = VBool bool | VInteger i64

datatype condition_error = TypeMismatch | NonBooleanResult | DivisionByZero | ArithmeticOverflow

type_synonym value_result = "condition_error + condition_value"

fun boolean :: "condition_value \<Rightarrow> condition_error + bool" where
  "boolean (VBool v) = Inr v"
| "boolean (VInteger _) = Inl TypeMismatch"

fun integer :: "condition_value \<Rightarrow> condition_error + i64" where
  "integer (VInteger v) = Inr v"
| "integer (VBool _) = Inl TypeMismatch"

text \<open>\<open>fits_i64\<close> is the range of \<open>i64\<close>; the standard library's \<open>checked_*\<close> methods succeed on it.\<close>

definition fits_i64 :: "int \<Rightarrow> bool" where
  "fits_i64 k \<longleftrightarrow> - (2 ^ 63) \<le> k \<and> k < 2 ^ 63"

definition u64_to_i64 :: "u64 \<Rightarrow> condition_error + i64" where
  "u64_to_i64 v = (if unat v < 2 ^ 63 then Inr v else Inl ArithmeticOverflow)"

definition pages_count :: "pages_context \<Rightarrow> condition_error + i64" where
  "pages_count p = u64_to_i64 (pg_count p)"

definition pages_current :: "pages_context \<Rightarrow> condition_error + i64" where
  "pages_current p = u64_to_i64 (pg_current p)"

definition checked_add :: "i64 \<Rightarrow> i64 \<Rightarrow> condition_error + i64" where
  "checked_add l r = (if fits_i64 (sint l + sint r) then Inr (l + r) else Inl ArithmeticOverflow)"

definition checked_sub :: "i64 \<Rightarrow> i64 \<Rightarrow> condition_error + i64" where
  "checked_sub l r = (if fits_i64 (sint l - sint r) then Inr (l - r) else Inl ArithmeticOverflow)"

definition checked_mul :: "i64 \<Rightarrow> i64 \<Rightarrow> condition_error + i64" where
  "checked_mul l r = (if fits_i64 (sint l * sint r) then Inr (l * r) else Inl ArithmeticOverflow)"

definition checked_div :: "i64 \<Rightarrow> i64 \<Rightarrow> condition_error + i64" where
  "checked_div l r =
     (if r = 0 then Inl DivisionByZero
      else if fits_i64 (sint l sdiv sint r) then Inr (word_of_int (sint l sdiv sint r))
      else Inl ArithmeticOverflow)"

text \<open>
  \<open>i64::checked_rem\<close> fails where the division overflows (\<open>i64::MIN % -1\<close>), although the
  mathematical remainder is 0 there.
\<close>

definition checked_rem :: "i64 \<Rightarrow> i64 \<Rightarrow> condition_error + i64" where
  "checked_rem l r =
     (if r = 0 then Inl DivisionByZero
      else if fits_i64 (sint l sdiv sint r) then Inr (word_of_int (sint l smod sint r))
      else Inl ArithmeticOverflow)"

definition checked_neg :: "i64 \<Rightarrow> condition_error + i64" where
  "checked_neg v = (if fits_i64 (- sint v) then Inr (- v) else Inl ArithmeticOverflow)"

section \<open>The evaluator\<close>

text \<open>
  \<open>eval_node\<close> is the body of \<open>evaluate_value\<close>, a \<open>match\<close> on the view whose children stand for
  their evaluations. A child that the match does not look at is not evaluated in the code; in
  HOL its value has no effect.
\<close>

fun bool_of :: "value_result \<Rightarrow> condition_error + bool" where
  "bool_of m = rbind m boolean"

fun int_of :: "value_result \<Rightarrow> condition_error + i64" where
  "int_of m = rbind m integer"

fun compare_with :: "(i64 \<Rightarrow> i64 \<Rightarrow> bool) \<Rightarrow> value_result \<Rightarrow> value_result \<Rightarrow> value_result" where
  "compare_with predicate l r =
     rbind (int_of l) (\<lambda>a. rbind (int_of r) (\<lambda>b. Inr (VBool (predicate a b))))"

fun arith_with ::
  "(i64 \<Rightarrow> i64 \<Rightarrow> condition_error + i64) \<Rightarrow> value_result \<Rightarrow> value_result \<Rightarrow> value_result" where
  "arith_with checked l r =
     rbind (int_of l) (\<lambda>a. rbind (int_of r) (\<lambda>b. rbind (checked a b) (\<lambda>c. Inr (VInteger c))))"

fun eval_node :: "pages_context \<Rightarrow> value_result node_ref \<Rightarrow> value_result" where
  "eval_node p (NBool v) = Inr (VBool v)"
| "eval_node p (NInteger v) = Inr (VInteger v)"
| "eval_node p NPagesCount = rbind (pages_count p) (\<lambda>v. Inr (VInteger v))"
| "eval_node p NPagesCurrent = rbind (pages_current p) (\<lambda>v. Inr (VInteger v))"
| "eval_node p (NNot v) = rbind (bool_of v) (\<lambda>b. Inr (VBool (\<not> b)))"
| "eval_node p (NNegate v) =
     rbind (int_of v) (\<lambda>a. rbind (checked_neg a) (\<lambda>c. Inr (VInteger c)))"
| "eval_node p (NAnd l r) =
     rbind (bool_of l) (\<lambda>a. if \<not> a then Inr (VBool False)
                              else rbind (bool_of r) (\<lambda>b. Inr (VBool b)))"
| "eval_node p (NOr l r) =
     rbind (bool_of l) (\<lambda>a. if a then Inr (VBool True)
                              else rbind (bool_of r) (\<lambda>b. Inr (VBool b)))"
| "eval_node p (NEqual l r) = rbind l (\<lambda>a. rbind r (\<lambda>b. Inr (VBool (a = b))))"
| "eval_node p (NNotEqual l r) = rbind l (\<lambda>a. rbind r (\<lambda>b. Inr (VBool (a \<noteq> b))))"
| "eval_node p (NLess l r) = compare_with (\<lambda>a b. sint a < sint b) l r"
| "eval_node p (NLessEqual l r) = compare_with (\<lambda>a b. sint a \<le> sint b) l r"
| "eval_node p (NGreater l r) = compare_with (\<lambda>a b. sint a > sint b) l r"
| "eval_node p (NGreaterEqual l r) = compare_with (\<lambda>a b. sint a \<ge> sint b) l r"
| "eval_node p (NAdd l r) = arith_with checked_add l r"
| "eval_node p (NSubtract l r) = arith_with checked_sub l r"
| "eval_node p (NMultiply l r) = arith_with checked_mul l r"
| "eval_node p (NDivide l r) = arith_with checked_div l r"
| "eval_node p (NModulo l r) = arith_with checked_rem l r"
| "eval_node p (NConditional c l r) = rbind (bool_of c) (\<lambda>b. if b then l else r)"

lemma view_ir_smaller: "c \<in> set_node_ref (view_ir n) \<Longrightarrow> size c < size n"
  by (cases n) auto

function evaluate_value :: "condition_ir \<Rightarrow> pages_context \<Rightarrow> value_result" where
  "evaluate_value n p = eval_node p (map_node_ref (\<lambda>c. evaluate_value c p) (view_ir n))"
  by pat_completeness auto
termination
  by (relation "measure (\<lambda>(n, p). size n)") (auto simp: view_ir_smaller)

declare evaluate_value.simps [simp del]

text \<open>The public entry points: \<open>evaluate\<close> adds the Boolean gate at the root.\<close>

definition root_boolean :: "value_result \<Rightarrow> condition_error + bool" where
  "root_boolean m = rbind m (\<lambda>v. case v of VBool b \<Rightarrow> Inr b | VInteger _ \<Rightarrow> Inl NonBooleanResult)"

definition evaluate :: "condition_ir \<Rightarrow> pages_context \<Rightarrow> condition_error + bool" where
  "evaluate n p = root_boolean (evaluate_value n p)"

definition evaluate_typed :: "condition_ir \<Rightarrow> pages_context \<Rightarrow> value_result" where
  "evaluate_typed n p = evaluate_value n p"

section \<open>The type checker\<close>

datatype condition_type = TBoolean | TInteger

text \<open>A \<open>TypeError\<close> carries the message of the rejected operator.\<close>

type_synonym type_error = string

type_synonym type_result = "type_error + condition_type"

definition require_boolean :: "condition_type \<Rightarrow> string \<Rightarrow> type_error + unit" where
  "require_boolean actual message = (if actual = TBoolean then Inr () else Inl message)"

definition require_integer :: "condition_type \<Rightarrow> string \<Rightarrow> type_error + unit" where
  "require_integer actual message = (if actual = TInteger then Inr () else Inl message)"

definition check_logical :: "string \<Rightarrow> type_result \<Rightarrow> type_result \<Rightarrow> type_result" where
  "check_logical message l r =
     rbind l (\<lambda>a. rbind (require_boolean a message) (\<lambda>_.
     rbind r (\<lambda>b. rbind (require_boolean b message) (\<lambda>_. Inr TBoolean))))"

definition check_equality :: "type_result \<Rightarrow> type_result \<Rightarrow> type_result" where
  "check_equality l r =
     rbind l (\<lambda>a. rbind r (\<lambda>b.
       if a \<noteq> b then Inl ''comparison `==`/`!=` requires both sides to have the same type''
       else Inr TBoolean))"

definition check_ordering :: "type_result \<Rightarrow> type_result \<Rightarrow> type_result" where
  "check_ordering l r =
     rbind l (\<lambda>a. rbind (require_integer a ''ordering comparison requires integer operands'') (\<lambda>_.
     rbind r (\<lambda>b. rbind (require_integer b ''ordering comparison requires integer operands'')
       (\<lambda>_. Inr TBoolean))))"

definition check_arithmetic :: "type_result \<Rightarrow> type_result \<Rightarrow> type_result" where
  "check_arithmetic l r =
     rbind l (\<lambda>a. rbind (require_integer a ''arithmetic requires integer operands'') (\<lambda>_.
     rbind r (\<lambda>b. rbind (require_integer b ''arithmetic requires integer operands'')
       (\<lambda>_. Inr TInteger))))"

fun check_node :: "type_result node_ref \<Rightarrow> type_result" where
  "check_node (NBool _) = Inr TBoolean"
| "check_node (NInteger _) = Inr TInteger"
| "check_node NPagesCount = Inr TInteger"
| "check_node NPagesCurrent = Inr TInteger"
| "check_node (NNot v) =
     rbind v (\<lambda>t. rbind (require_boolean t ''operator `!` requires a boolean operand'')
       (\<lambda>_. Inr TBoolean))"
| "check_node (NNegate v) =
     rbind v (\<lambda>t. rbind (require_integer t ''unary `-` requires an integer operand'')
       (\<lambda>_. Inr TInteger))"
| "check_node (NAnd l r) = check_logical ''operator `&&` requires boolean operands'' l r"
| "check_node (NOr l r) = check_logical ''operator `||` requires boolean operands'' l r"
| "check_node (NEqual l r) = check_equality l r"
| "check_node (NNotEqual l r) = check_equality l r"
| "check_node (NLess l r) = check_ordering l r"
| "check_node (NLessEqual l r) = check_ordering l r"
| "check_node (NGreater l r) = check_ordering l r"
| "check_node (NGreaterEqual l r) = check_ordering l r"
| "check_node (NAdd l r) = check_arithmetic l r"
| "check_node (NSubtract l r) = check_arithmetic l r"
| "check_node (NMultiply l r) = check_arithmetic l r"
| "check_node (NDivide l r) = check_arithmetic l r"
| "check_node (NModulo l r) = check_arithmetic l r"
| "check_node (NConditional c l r) =
     rbind c (\<lambda>t. rbind (require_boolean t ''the `?:` condition must be boolean'') (\<lambda>_.
     rbind l (\<lambda>a. rbind r (\<lambda>b.
       if a \<noteq> b then Inl ''the `?:` branches must both be boolean or both be integer''
       else Inr a))))"

function type_check :: "condition_ir \<Rightarrow> type_result" where
  "type_check n = check_node (map_node_ref type_check (view_ir n))"
  by pat_completeness auto
termination
  by (relation "measure size") (auto simp: view_ir_smaller)

declare type_check.simps [simp del]

section \<open>Dependence on the pager\<close>

fun uses_pages_node :: "bool node_ref \<Rightarrow> bool" where
  "uses_pages_node NPagesCount = True"
| "uses_pages_node NPagesCurrent = True"
| "uses_pages_node (NBool _) = False"
| "uses_pages_node (NInteger _) = False"
| "uses_pages_node (NNot v) = v"
| "uses_pages_node (NNegate v) = v"
| "uses_pages_node (NAnd l r) = (l \<or> r)"
| "uses_pages_node (NOr l r) = (l \<or> r)"
| "uses_pages_node (NEqual l r) = (l \<or> r)"
| "uses_pages_node (NNotEqual l r) = (l \<or> r)"
| "uses_pages_node (NLess l r) = (l \<or> r)"
| "uses_pages_node (NLessEqual l r) = (l \<or> r)"
| "uses_pages_node (NGreater l r) = (l \<or> r)"
| "uses_pages_node (NGreaterEqual l r) = (l \<or> r)"
| "uses_pages_node (NAdd l r) = (l \<or> r)"
| "uses_pages_node (NSubtract l r) = (l \<or> r)"
| "uses_pages_node (NMultiply l r) = (l \<or> r)"
| "uses_pages_node (NDivide l r) = (l \<or> r)"
| "uses_pages_node (NModulo l r) = (l \<or> r)"
| "uses_pages_node (NConditional c l r) = (c \<or> l \<or> r)"

function uses_pages :: "condition_ir \<Rightarrow> bool" where
  "uses_pages n = uses_pages_node (map_node_ref uses_pages (view_ir n))"
  by pat_completeness auto
termination
  by (relation "measure size") (auto simp: view_ir_smaller)

declare uses_pages.simps [simp del]

section \<open>What one node contributes\<close>

text \<open>
  \<open>agrees m t\<close>: an evaluation that a checked type predicts. It returns a value of that type, or
  one of the two run-time failures the documentation leaves open.
\<close>

fun value_type :: "condition_value \<Rightarrow> condition_type" where
  "value_type (VBool _) = TBoolean"
| "value_type (VInteger _) = TInteger"

definition agrees :: "value_result \<Rightarrow> condition_type \<Rightarrow> bool" where
  "agrees m t = (case m of Inr v \<Rightarrow> value_type v = t
                 | Inl e \<Rightarrow> e = DivisionByZero \<or> e = ArithmeticOverflow)"

lemma value_type_Boolean [simp]: "value_type v = TBoolean \<longleftrightarrow> (\<exists>b. v = VBool b)"
  by (cases v) auto

lemma value_type_Integer [simp]: "value_type v = TInteger \<longleftrightarrow> (\<exists>i. v = VInteger i)"
  by (cases v) auto

lemma agrees_Boolean: "agrees m TBoolean \<longleftrightarrow> (\<exists>b. m = Inr (VBool b)) \<or> m = Inl DivisionByZero \<or> m = Inl ArithmeticOverflow"
  by (cases m) (auto simp: agrees_def)

lemma agrees_Integer: "agrees m TInteger \<longleftrightarrow> (\<exists>i. m = Inr (VInteger i)) \<or> m = Inl DivisionByZero \<or> m = Inl ArithmeticOverflow"
  by (cases m) (auto simp: agrees_def)

lemmas agrees_simps = agrees_Boolean agrees_Integer

lemma checked_errors:
  "checked_add l r = Inl e \<Longrightarrow> e = ArithmeticOverflow"
  "checked_sub l r = Inl e \<Longrightarrow> e = ArithmeticOverflow"
  "checked_mul l r = Inl e \<Longrightarrow> e = ArithmeticOverflow"
  "checked_div l r = Inl e \<Longrightarrow> e = DivisionByZero \<or> e = ArithmeticOverflow"
  "checked_rem l r = Inl e \<Longrightarrow> e = DivisionByZero \<or> e = ArithmeticOverflow"
  "checked_neg l = Inl e \<Longrightarrow> e = ArithmeticOverflow"
  "u64_to_i64 u = Inl e \<Longrightarrow> e = ArithmeticOverflow"
  by (auto simp: checked_add_def checked_sub_def checked_mul_def checked_div_def checked_rem_def
      checked_neg_def u64_to_i64_def split: if_splits)

lemma agrees_bind_int [intro]:
  "agrees m TInteger \<Longrightarrow> (\<And>i. agrees (f i) t) \<Longrightarrow> agrees (rbind (int_of m) f) t"
  by (auto simp: agrees_Integer agrees_def [of "Inl _"])

lemma agrees_bind_bool [intro]:
  "agrees m TBoolean \<Longrightarrow> (\<And>b. agrees (f b) t) \<Longrightarrow> agrees (rbind (bool_of m) f) t"
  by (auto simp: agrees_Boolean agrees_def [of "Inl _"])

lemma agrees_bind [intro]:
  "agrees m a \<Longrightarrow> (\<And>v. agrees (f v) t) \<Longrightarrow> agrees (rbind m f) t"
  by (cases m) (auto simp: agrees_def [of "Inl _"])

lemma agrees_Inr [simp]:
  "agrees (Inr (VBool b)) t \<longleftrightarrow> t = TBoolean"
  "agrees (Inr (VInteger i)) t \<longleftrightarrow> t = TInteger"
  by (auto simp: agrees_def)

lemma agrees_value [intro]: "agrees (Inr (VBool b)) TBoolean" "agrees (Inr (VInteger i)) TInteger"
  by simp_all

lemma agrees_if [intro!]: "agrees m t \<Longrightarrow> agrees n t \<Longrightarrow> agrees (if b then m else n) t"
  by simp

lemma agrees_checked [intro]:
  "agrees (rbind (checked_add l r) (\<lambda>c. Inr (VInteger c))) TInteger"
  "agrees (rbind (checked_sub l r) (\<lambda>c. Inr (VInteger c))) TInteger"
  "agrees (rbind (checked_mul l r) (\<lambda>c. Inr (VInteger c))) TInteger"
  "agrees (rbind (checked_div l r) (\<lambda>c. Inr (VInteger c))) TInteger"
  "agrees (rbind (checked_rem l r) (\<lambda>c. Inr (VInteger c))) TInteger"
  "agrees (rbind (checked_neg l) (\<lambda>c. Inr (VInteger c))) TInteger"
  "agrees (rbind (u64_to_i64 u) (\<lambda>c. Inr (VInteger c))) TInteger"
  by (auto simp: agrees_def checked_add_def checked_sub_def checked_mul_def checked_div_def
      checked_rem_def checked_neg_def u64_to_i64_def)

text \<open>
  The link between the two sides of a node: \<open>f\<close> types the children, \<open>g\<close> evaluates them.
\<close>

lemma require_iff [result_simps]:
  "require_boolean t msg = Inr u \<longleftrightarrow> t = TBoolean"
  "require_integer t msg = Inr u \<longleftrightarrow> t = TInteger"
  by (auto simp: require_boolean_def require_integer_def)

lemma check_logical_Inr [result_simps]:
  "check_logical msg l r = Inr t \<longleftrightarrow> l = Inr TBoolean \<and> r = Inr TBoolean \<and> t = TBoolean"
  by (auto simp: check_logical_def result_simps)

lemma check_ordering_Inr [result_simps]:
  "check_ordering l r = Inr t \<longleftrightarrow> l = Inr TInteger \<and> r = Inr TInteger \<and> t = TBoolean"
  by (auto simp: check_ordering_def result_simps)

lemma check_arithmetic_Inr [result_simps]:
  "check_arithmetic l r = Inr t \<longleftrightarrow> l = Inr TInteger \<and> r = Inr TInteger \<and> t = TInteger"
  by (auto simp: check_arithmetic_def result_simps)

lemma check_equality_Inr [result_simps]:
  "check_equality l r = Inr t \<longleftrightarrow> (\<exists>a. l = Inr a \<and> r = Inr a \<and> t = TBoolean)"
  by (auto simp: check_equality_def result_simps split: if_splits)

lemma eval_node_agrees:
  assumes "check_node (map_node_ref f nd) = Inr t"
    and "\<And>c t. c \<in> set_node_ref nd \<Longrightarrow> f c = Inr t \<Longrightarrow> agrees (g c) t"
  shows "agrees (eval_node p (map_node_ref g nd)) t"
  using assms
  by (cases nd) (auto simp: result_simps pages_count_def pages_current_def
      simp del: int_of.simps bool_of.simps split: if_splits)

lemma eval_node_not_NonBoolean:
  assumes "\<And>c. c \<in> set_node_ref nd \<Longrightarrow> g c \<noteq> Inl NonBooleanResult"
  shows "eval_node p (map_node_ref g nd) \<noteq> Inl NonBooleanResult"
  using assms
  by (cases nd) (auto simp: result_simps pages_count_def pages_current_def dest!: checked_errors
      elim!: boolean.elims integer.elims split: if_splits)

lemma eval_node_pages:
  assumes "\<not> uses_pages_node (map_node_ref u nd)"
    and "\<And>c. c \<in> set_node_ref nd \<Longrightarrow> \<not> u c \<Longrightarrow> g c = h c"
  shows "eval_node p (map_node_ref g nd) = eval_node q (map_node_ref h nd)"
  using assms by (cases nd) auto

section \<open>The interface \<open>ConditionNode\<close>\<close>

text \<open>
  What the trait promises of an implementor: evaluation, checking and \<open>uses_pages\<close> are the
  shared bodies applied through \<open>view\<close>, and following \<open>view\<close> reaches a leaf. Every client
  lemma is proved once here, for the owned IR and the archived form alike.
\<close>

locale condition_node =
  fixes view :: "'n \<Rightarrow> 'n node_ref"
    and eval :: "'n \<Rightarrow> pages_context \<Rightarrow> value_result"
    and check :: "'n \<Rightarrow> type_result"
    and pages :: "'n \<Rightarrow> bool"
  assumes eval_view: "eval n p = eval_node p (map_node_ref (\<lambda>c. eval c p) (view n))"
    and check_view: "check n = check_node (map_node_ref check (view n))"
    and pages_view: "pages n = uses_pages_node (map_node_ref pages (view n))"
    and view_induct: "(\<And>n. (\<And>c. c \<in> set_node_ref (view n) \<Longrightarrow> P c) \<Longrightarrow> P n) \<Longrightarrow> P n"
begin

lemma check_sound: "check n = Inr t \<Longrightarrow> agrees (eval n p) t"
proof (induction n arbitrary: t rule: view_induct)
  case (1 n)
  have "check_node (map_node_ref check (view n)) = Inr t"
    using "1.prems" by (simp add: check_view [symmetric])
  then show ?case
    unfolding eval_view [of n p] by (rule eval_node_agrees) (rule "1.IH")
qed

lemma never_NonBoolean: "eval n p \<noteq> Inl NonBooleanResult"
proof (induction n rule: view_induct)
  case (1 n)
  then show ?case
    unfolding eval_view [of n p] by (rule eval_node_not_NonBoolean)
qed

lemma pages_irrelevant: "\<not> pages n \<Longrightarrow> eval n p = eval n q"
proof (induction n rule: view_induct)
  case (1 n)
  have "\<not> uses_pages_node (map_node_ref pages (view n))"
    using "1.prems" by (simp add: pages_view [symmetric])
  then show ?case
    unfolding eval_view [of n p] eval_view [of n q]
    by (rule eval_node_pages) (rule "1.IH")
qed

end

lemma condition_ir_view_induct:
  fixes n :: condition_ir
  assumes "\<And>n. (\<And>c. c \<in> set_node_ref (view_ir n) \<Longrightarrow> P c) \<Longrightarrow> P n"
  shows "P n"
  by (induction n rule: measure_induct_rule [where f = size]) (blast intro: assms dest: view_ir_smaller)

interpretation owned: condition_node view_ir evaluate_value type_check uses_pages
  by unfold_locales
    (fact evaluate_value.simps, fact type_check.simps, fact uses_pages.simps,
     rule condition_ir_view_induct, blast)

section \<open>The meaning of a condition without machine integers\<close>

text \<open>
  \<open>denote\<close> reads a condition over unbounded integers. It fails only where the operators have
  no value (a division by zero, an operand of the wrong type), never by overflow.
\<close>

datatype math_value = MBool bool | MInt int

fun math_value_of :: "condition_value \<Rightarrow> math_value" where
  "math_value_of (VBool b) = MBool b"
| "math_value_of (VInteger i) = MInt (sint i)"

definition math_bool :: "math_value option \<Rightarrow> bool option" where
  "math_bool m = Option.bind m (\<lambda>v. case v of MBool b \<Rightarrow> Some b | MInt _ \<Rightarrow> None)"

definition math_int :: "math_value option \<Rightarrow> int option" where
  "math_int m = Option.bind m (\<lambda>v. case v of MInt i \<Rightarrow> Some i | MBool _ \<Rightarrow> None)"

definition math_compare :: "(int \<Rightarrow> int \<Rightarrow> bool) \<Rightarrow> math_value option \<Rightarrow> math_value option \<Rightarrow> math_value option" where
  "math_compare f l r =
     Option.bind (math_int l) (\<lambda>a. Option.bind (math_int r) (\<lambda>b. Some (MBool (f a b))))"

definition math_arith :: "(int \<Rightarrow> int \<Rightarrow> int option) \<Rightarrow> math_value option \<Rightarrow> math_value option \<Rightarrow> math_value option" where
  "math_arith f l r =
     Option.bind (math_int l) (\<lambda>a. Option.bind (math_int r) (\<lambda>b. map_option MInt (f a b)))"

fun denote :: "pages_context \<Rightarrow> condition_ir \<Rightarrow> math_value option" where
  "denote p (CBool b) = Some (MBool b)"
| "denote p (CInteger i) = Some (MInt (sint i))"
| "denote p CPagesCount = Some (MInt (uint (pg_count p)))"
| "denote p CPagesCurrent = Some (MInt (uint (pg_current p)))"
| "denote p (CNot v) = map_option (\<lambda>b. MBool (\<not> b)) (math_bool (denote p v))"
| "denote p (CNegate v) = map_option (\<lambda>i. MInt (- i)) (math_int (denote p v))"
| "denote p (CAnd l r) =
     Option.bind (math_bool (denote p l))
       (\<lambda>a. if a then map_option MBool (math_bool (denote p r)) else Some (MBool False))"
| "denote p (COr l r) =
     Option.bind (math_bool (denote p l))
       (\<lambda>a. if a then Some (MBool True) else map_option MBool (math_bool (denote p r)))"
| "denote p (CEqual l r) =
     Option.bind (denote p l) (\<lambda>a. Option.bind (denote p r) (\<lambda>b. Some (MBool (a = b))))"
| "denote p (CNotEqual l r) =
     Option.bind (denote p l) (\<lambda>a. Option.bind (denote p r) (\<lambda>b. Some (MBool (a \<noteq> b))))"
| "denote p (CLess l r) = math_compare (<) (denote p l) (denote p r)"
| "denote p (CLessEqual l r) = math_compare (\<le>) (denote p l) (denote p r)"
| "denote p (CGreater l r) = math_compare (>) (denote p l) (denote p r)"
| "denote p (CGreaterEqual l r) = math_compare (\<ge>) (denote p l) (denote p r)"
| "denote p (CAdd l r) = math_arith (\<lambda>a b. Some (a + b)) (denote p l) (denote p r)"
| "denote p (CSubtract l r) = math_arith (\<lambda>a b. Some (a - b)) (denote p l) (denote p r)"
| "denote p (CMultiply l r) = math_arith (\<lambda>a b. Some (a * b)) (denote p l) (denote p r)"
| "denote p (CDivide l r) =
     math_arith (\<lambda>a b. if b = 0 then None else Some (a sdiv b)) (denote p l) (denote p r)"
| "denote p (CModulo l r) =
     math_arith (\<lambda>a b. if b = 0 then None else Some (a smod b)) (denote p l) (denote p r)"
| "denote p (CConditional c l r) =
     Option.bind (math_bool (denote p c)) (\<lambda>b. if b then denote p l else denote p r)"

lemma fits_signed_take_bit: "fits_i64 k \<Longrightarrow> signed_take_bit 63 k = k"
  by (rule signed_take_bit_int_eq_self) (auto simp: fits_i64_def)

lemma sint_word_of_int_fits: "fits_i64 k \<Longrightarrow> sint (word_of_int k :: i64) = k"
  by (simp add: sint_sbintrunc' fits_signed_take_bit)

lemma sint_fits: "fits_i64 (sint (w :: i64))"
  using sint_ge [of w] sint_lt [of w] by (simp add: fits_i64_def)

lemma checked_exact:
  "checked_add l r = Inr c \<Longrightarrow> sint c = sint l + sint r"
  "checked_sub l r = Inr c \<Longrightarrow> sint c = sint l - sint r"
  "checked_mul l r = Inr c \<Longrightarrow> sint c = sint l * sint r"
  "checked_neg l = Inr c \<Longrightarrow> sint c = - sint l"
  by (auto simp: checked_add_def checked_sub_def checked_mul_def checked_neg_def
      sint_word_ariths fits_signed_take_bit split: if_splits)

lemma fits_smod: "fits_i64 a \<Longrightarrow> fits_i64 b \<Longrightarrow> b \<noteq> 0 \<Longrightarrow> fits_i64 (a smod b)"
proof -
  assume ab: "fits_i64 a" "fits_i64 b" "b \<noteq> 0"
  have "\<bar>a smod b\<bar> < \<bar>b\<bar>"
    using ab(3) by (auto simp: signed_modulo_int_def abs_mult)
  moreover have "\<bar>b\<bar> \<le> 2 ^ 63" using ab(2) by (auto simp: fits_i64_def)
  ultimately show ?thesis unfolding fits_i64_def by linarith
qed

lemma sint_eq_0: "sint (w :: i64) = 0 \<longleftrightarrow> w = 0"
  by (metis sint_0 signed_word_eqI)

lemma checked_exact_division:
  "checked_div l r = Inr c \<Longrightarrow> sint r \<noteq> 0 \<and> sint c = sint l sdiv sint r"
  "checked_rem l r = Inr c \<Longrightarrow> sint r \<noteq> 0 \<and> sint c = sint l smod sint r"
  by (auto simp: checked_div_def checked_rem_def sint_word_of_int_fits sint_eq_0
      fits_smod sint_fits split: if_splits)

lemma u64_to_i64_exact: "u64_to_i64 u = Inr c \<Longrightarrow> sint c = uint u"
proof -
  assume a: "u64_to_i64 u = Inr c"
  then have c: "c = u" and "unat u < 2 ^ 63"
    by (auto simp: u64_to_i64_def split: if_splits)
  then have "fits_i64 (uint u)"
    unfolding fits_i64_def by (simp add: uint_nat del: of_nat_unat)
  then have "sint (word_of_int (uint u) :: i64) = uint u"
    by (rule sint_word_of_int_fits)
  then show ?thesis by (simp add: c)
qed

lemma bool_of_Inr [result_simps]: "bool_of m = Inr b \<longleftrightarrow> m = Inr (VBool b)"
  by (auto simp: rbind_Inr_iff elim: boolean.elims)

lemma int_of_Inr [result_simps]: "int_of m = Inr i \<longleftrightarrow> m = Inr (VInteger i)"
  by (auto simp: rbind_Inr_iff elim: integer.elims)

lemma math_value_of_inject [simp]: "math_value_of a = math_value_of b \<longleftrightarrow> a = b"
  by (cases a; cases b) (auto simp: signed_word_eqI)

lemma math_views [simp]:
  "math_bool (Some (MBool b)) = Some b" "math_int (Some (MInt i)) = Some i"
  by (auto simp: math_bool_def math_int_def)

text \<open>The defining equations, one per constructor: these rewrite, the general ones would loop.\<close>

lemmas evaluate_value_eqs =
  evaluate_value.simps [of "CBool v" p for v p]
  evaluate_value.simps [of "CInteger v" p for v p]
  evaluate_value.simps [of CPagesCount p for p]
  evaluate_value.simps [of CPagesCurrent p for p]
  evaluate_value.simps [of "CNot v" p for v p]
  evaluate_value.simps [of "CNegate v" p for v p]
  evaluate_value.simps [of "CAnd l r" p for l r p]
  evaluate_value.simps [of "COr l r" p for l r p]
  evaluate_value.simps [of "CEqual l r" p for l r p]
  evaluate_value.simps [of "CNotEqual l r" p for l r p]
  evaluate_value.simps [of "CLess l r" p for l r p]
  evaluate_value.simps [of "CLessEqual l r" p for l r p]
  evaluate_value.simps [of "CGreater l r" p for l r p]
  evaluate_value.simps [of "CGreaterEqual l r" p for l r p]
  evaluate_value.simps [of "CAdd l r" p for l r p]
  evaluate_value.simps [of "CSubtract l r" p for l r p]
  evaluate_value.simps [of "CMultiply l r" p for l r p]
  evaluate_value.simps [of "CDivide l r" p for l r p]
  evaluate_value.simps [of "CModulo l r" p for l r p]
  evaluate_value.simps [of "CConditional c l r" p for c l r p]

lemmas type_check_eqs =
  type_check.simps [of "CBool v" for v]
  type_check.simps [of "CInteger v" for v]
  type_check.simps [of CPagesCount]
  type_check.simps [of CPagesCurrent]
  type_check.simps [of "CNot v" for v]
  type_check.simps [of "CNegate v" for v]
  type_check.simps [of "CAnd l r" for l r]
  type_check.simps [of "COr l r" for l r]
  type_check.simps [of "CEqual l r" for l r]
  type_check.simps [of "CNotEqual l r" for l r]
  type_check.simps [of "CLess l r" for l r]
  type_check.simps [of "CLessEqual l r" for l r]
  type_check.simps [of "CGreater l r" for l r]
  type_check.simps [of "CGreaterEqual l r" for l r]
  type_check.simps [of "CAdd l r" for l r]
  type_check.simps [of "CSubtract l r" for l r]
  type_check.simps [of "CMultiply l r" for l r]
  type_check.simps [of "CDivide l r" for l r]
  type_check.simps [of "CModulo l r" for l r]
  type_check.simps [of "CConditional c l r" for c l r]

lemma evaluate_value_denotes:
  "evaluate_value n p = Inr v \<Longrightarrow> denote p n = Some (math_value_of v)"
proof (induction n arbitrary: v)
  case (CConditional c l r)
  then show ?case
    by (auto simp: evaluate_value_eqs result_simps simp del: bool_of.simps split: if_splits)
qed (auto simp: evaluate_value_eqs result_simps math_compare_def math_arith_def
      pages_count_def pages_current_def checked_exact checked_exact_division u64_to_i64_exact
      simp del: bool_of.simps int_of.simps split: if_splits)

lemma root_boolean_Inr: "root_boolean m = Inr b \<longleftrightarrow> m = Inr (VBool b)"
  by (cases m) (auto simp: root_boolean_def split: condition_value.splits)

section \<open>Properties\<close>

text \<open>
  C6: type soundness. A condition the checker accepts at a type never fails with a type mismatch:
  for every pager state it evaluates to a value of that type, or stops with a division by zero or
  an arithmetic overflow; and a condition accepted as Boolean passes the root gate of \<open>evaluate\<close>
  with exactly that value.
\<close>

theorem type_check_sound:
  assumes "type_check n = Inr t"
  shows "agrees (evaluate_value n p) t
    \<and> (t = TBoolean \<longrightarrow> evaluate n p \<in> range Inr \<union> {Inl DivisionByZero, Inl ArithmeticOverflow})"
proof -
  have a: "agrees (evaluate_value n p) t" by (rule owned.check_sound [OF assms])
  then show ?thesis
    by (auto simp: agrees_Boolean evaluate_def root_boolean_def)
qed

definition sample_condition :: condition_ir where
  "sample_condition =
     CAnd (CLess CPagesCurrent CPagesCount) (CEqual (CModulo CPagesCurrent (CInteger 2)) (CInteger 1))"

theorem type_check_sound_witness:
  "type_check sample_condition = Inr TBoolean
   \<and> agrees (evaluate_value sample_condition \<lparr>pg_count = 5, pg_current = 3\<rparr>) TBoolean"
proof -
  have t: "type_check sample_condition = Inr TBoolean"
    by (simp add: sample_condition_def type_check_eqs check_logical_def check_ordering_def
        check_equality_def check_arithmetic_def require_boolean_def require_integer_def)
  then show ?thesis using type_check_sound [OF t] by simp
qed

text \<open>
  C5: refinement of the unbounded meaning. When the evaluator returns a Boolean, the same formula
  read over unbounded integers has that value: no wrapped intermediate result can flip a
  condition. The only other outcomes are errors.
\<close>

theorem evaluate_exact:
  "evaluate n p = Inr b \<Longrightarrow> denote p n = Some (MBool b)"
  by (auto simp: evaluate_def root_boolean_Inr dest!: evaluate_value_denotes)

theorem evaluate_exact_witness:
  "evaluate sample_condition \<lparr>pg_count = 5, pg_current = 3\<rparr> = Inr True
   \<and> denote \<lparr>pg_count = 5, pg_current = 3\<rparr> sample_condition = Some (MBool True)"
proof -
  have "evaluate sample_condition \<lparr>pg_count = 5, pg_current = 3\<rparr> = Inr True"
    by (simp add: evaluate_def root_boolean_def sample_condition_def evaluate_value_eqs
        pages_count_def pages_current_def u64_to_i64_def checked_rem_def fits_i64_def)
  then show ?thesis using evaluate_exact by blast
qed

text \<open>
  A condition that does not mention the pager has one value. When \<open>uses_pages\<close> is false, the
  evaluations at any two pager states, successes and errors alike, are equal.
\<close>

theorem evaluate_pages_irrelevant:
  "\<not> uses_pages n \<Longrightarrow> evaluate n p = evaluate n q"
  using owned.pages_irrelevant [of n p q] by (simp add: evaluate_def)

theorem evaluate_pages_irrelevant_witness:
  "evaluate (CLess (CInteger 1) (CInteger 2)) \<lparr>pg_count = 0, pg_current = 0\<rparr>
   = evaluate (CLess (CInteger 1) (CInteger 2)) \<lparr>pg_count = 9, pg_current = 2\<rparr>"
proof -
  have "\<not> uses_pages (CLess (CInteger 1) (CInteger 2))"
    by (simp add: uses_pages.simps [of "CLess l r" for l r] uses_pages.simps [of "CInteger i" for i])
  then show ?thesis by (rule evaluate_pages_irrelevant)
qed

end
