(* ===== verification/Condition_Wire.thy ===== *)
theory Condition_Wire
  imports Condition
begin

text \<open>
  Conditions on the wire: \<open>ConditionIrWire\<close> and its archived view (\<open>muxe-protocol\<close>), the
  broker's lowering \<open>condition_to_wire\<close>, the UI's reconstruction \<open>compact_condition\<close>, and the
  pager state of one binding. An archived node holds the variant and the children of the wire
  enum; the byte layout belongs to rkyv.
\<close>

section \<open>The wire form\<close>

datatype condition_ir_wire =
    WBool bool
  | WInteger i64
  | WPagesCount
  | WPagesCurrent
  | WNot condition_ir_wire
  | WAnd condition_ir_wire condition_ir_wire
  | WOr condition_ir_wire condition_ir_wire
  | WEqual condition_ir_wire condition_ir_wire
  | WNotEqual condition_ir_wire condition_ir_wire
  | WLess condition_ir_wire condition_ir_wire
  | WLessEqual condition_ir_wire condition_ir_wire
  | WGreater condition_ir_wire condition_ir_wire
  | WGreaterEqual condition_ir_wire condition_ir_wire
  | WAdd condition_ir_wire condition_ir_wire
  | WSubtract condition_ir_wire condition_ir_wire
  | WMultiply condition_ir_wire condition_ir_wire
  | WDivide condition_ir_wire condition_ir_wire
  | WModulo condition_ir_wire condition_ir_wire
  | WNegate condition_ir_wire
  | WConditional condition_ir_wire condition_ir_wire condition_ir_wire

fun view_wire :: "condition_ir_wire \<Rightarrow> condition_ir_wire node_ref" where
  "view_wire (WBool v) = NBool v"
| "view_wire (WInteger v) = NInteger v"
| "view_wire WPagesCount = NPagesCount"
| "view_wire WPagesCurrent = NPagesCurrent"
| "view_wire (WNot v) = NNot v"
| "view_wire (WAnd l r) = NAnd l r"
| "view_wire (WOr l r) = NOr l r"
| "view_wire (WEqual l r) = NEqual l r"
| "view_wire (WNotEqual l r) = NNotEqual l r"
| "view_wire (WLess l r) = NLess l r"
| "view_wire (WLessEqual l r) = NLessEqual l r"
| "view_wire (WGreater l r) = NGreater l r"
| "view_wire (WGreaterEqual l r) = NGreaterEqual l r"
| "view_wire (WAdd l r) = NAdd l r"
| "view_wire (WSubtract l r) = NSubtract l r"
| "view_wire (WMultiply l r) = NMultiply l r"
| "view_wire (WDivide l r) = NDivide l r"
| "view_wire (WModulo l r) = NModulo l r"
| "view_wire (WNegate v) = NNegate v"
| "view_wire (WConditional c l r) = NConditional c l r"

fun condition_to_wire :: "condition_ir \<Rightarrow> condition_ir_wire" where
  "condition_to_wire (CBool v) = WBool v"
| "condition_to_wire (CInteger v) = WInteger v"
| "condition_to_wire CPagesCount = WPagesCount"
| "condition_to_wire CPagesCurrent = WPagesCurrent"
| "condition_to_wire (CNot v) = WNot (condition_to_wire v)"
| "condition_to_wire (CAnd l r) = WAnd (condition_to_wire l) (condition_to_wire r)"
| "condition_to_wire (COr l r) = WOr (condition_to_wire l) (condition_to_wire r)"
| "condition_to_wire (CEqual l r) = WEqual (condition_to_wire l) (condition_to_wire r)"
| "condition_to_wire (CNotEqual l r) = WNotEqual (condition_to_wire l) (condition_to_wire r)"
| "condition_to_wire (CLess l r) = WLess (condition_to_wire l) (condition_to_wire r)"
| "condition_to_wire (CLessEqual l r) = WLessEqual (condition_to_wire l) (condition_to_wire r)"
| "condition_to_wire (CGreater l r) = WGreater (condition_to_wire l) (condition_to_wire r)"
| "condition_to_wire (CGreaterEqual l r) = WGreaterEqual (condition_to_wire l) (condition_to_wire r)"
| "condition_to_wire (CAdd l r) = WAdd (condition_to_wire l) (condition_to_wire r)"
| "condition_to_wire (CSubtract l r) = WSubtract (condition_to_wire l) (condition_to_wire r)"
| "condition_to_wire (CMultiply l r) = WMultiply (condition_to_wire l) (condition_to_wire r)"
| "condition_to_wire (CDivide l r) = WDivide (condition_to_wire l) (condition_to_wire r)"
| "condition_to_wire (CModulo l r) = WModulo (condition_to_wire l) (condition_to_wire r)"
| "condition_to_wire (CNegate v) = WNegate (condition_to_wire v)"
| "condition_to_wire (CConditional c l r) = WConditional (condition_to_wire c) (condition_to_wire l) (condition_to_wire r)"

fun compact_condition :: "condition_ir_wire \<Rightarrow> condition_ir" where
  "compact_condition (WBool v) = CBool v"
| "compact_condition (WInteger v) = CInteger v"
| "compact_condition WPagesCount = CPagesCount"
| "compact_condition WPagesCurrent = CPagesCurrent"
| "compact_condition (WNot v) = CNot (compact_condition v)"
| "compact_condition (WAnd l r) = CAnd (compact_condition l) (compact_condition r)"
| "compact_condition (WOr l r) = COr (compact_condition l) (compact_condition r)"
| "compact_condition (WEqual l r) = CEqual (compact_condition l) (compact_condition r)"
| "compact_condition (WNotEqual l r) = CNotEqual (compact_condition l) (compact_condition r)"
| "compact_condition (WLess l r) = CLess (compact_condition l) (compact_condition r)"
| "compact_condition (WLessEqual l r) = CLessEqual (compact_condition l) (compact_condition r)"
| "compact_condition (WGreater l r) = CGreater (compact_condition l) (compact_condition r)"
| "compact_condition (WGreaterEqual l r) = CGreaterEqual (compact_condition l) (compact_condition r)"
| "compact_condition (WAdd l r) = CAdd (compact_condition l) (compact_condition r)"
| "compact_condition (WSubtract l r) = CSubtract (compact_condition l) (compact_condition r)"
| "compact_condition (WMultiply l r) = CMultiply (compact_condition l) (compact_condition r)"
| "compact_condition (WDivide l r) = CDivide (compact_condition l) (compact_condition r)"
| "compact_condition (WModulo l r) = CModulo (compact_condition l) (compact_condition r)"
| "compact_condition (WNegate v) = CNegate (compact_condition v)"
| "compact_condition (WConditional c l r) = CConditional (compact_condition c) (compact_condition l) (compact_condition r)"

section \<open>The evaluator on archived nodes\<close>

lemma view_wire_smaller: "c \<in> set_node_ref (view_wire n) \<Longrightarrow> size c < size n"
  by (cases n) auto

function evaluate_archived_value :: "condition_ir_wire \<Rightarrow> pages_context \<Rightarrow> value_result" where
  "evaluate_archived_value n p =
     eval_node p (map_node_ref (\<lambda>c. evaluate_archived_value c p) (view_wire n))"
  by pat_completeness auto
termination
  by (relation "measure (\<lambda>(n, p). size n)") (auto simp: view_wire_smaller)

declare evaluate_archived_value.simps [simp del]

function type_check_archived :: "condition_ir_wire \<Rightarrow> type_result" where
  "type_check_archived n = check_node (map_node_ref type_check_archived (view_wire n))"
  by pat_completeness auto
termination
  by (relation "measure size") (auto simp: view_wire_smaller)

declare type_check_archived.simps [simp del]

function uses_pages_archived :: "condition_ir_wire \<Rightarrow> bool" where
  "uses_pages_archived n = uses_pages_node (map_node_ref uses_pages_archived (view_wire n))"
  by pat_completeness auto
termination
  by (relation "measure size") (auto simp: view_wire_smaller)

declare uses_pages_archived.simps [simp del]

lemma condition_wire_view_induct:
  fixes n :: condition_ir_wire
  assumes "\<And>n. (\<And>c. c \<in> set_node_ref (view_wire n) \<Longrightarrow> P c) \<Longrightarrow> P n"
  shows "P n"
  by (induction n rule: measure_induct_rule [where f = size]) (blast intro: assms dest: view_wire_smaller)

interpretation archived: condition_node view_wire evaluate_archived_value type_check_archived
  uses_pages_archived
  by unfold_locales
    (fact evaluate_archived_value.simps, fact type_check_archived.simps,
     fact uses_pages_archived.simps, rule condition_wire_view_induct, blast)

text \<open>\<open>PagesContextWire\<close> has the fields of \<open>PagesContext\<close>; \<open>shared_pages\<close> copies them.\<close>

record pages_context_wire =
  wire_count :: u64
  wire_current :: u64

definition shared_pages :: "pages_context_wire \<Rightarrow> pages_context" where
  "shared_pages p = \<lparr>pg_count = wire_count p, pg_current = wire_current p\<rparr>"

definition evaluate_archived_condition ::
  "condition_ir_wire \<Rightarrow> pages_context_wire \<Rightarrow> condition_error + bool" where
  "evaluate_archived_condition c p = root_boolean (evaluate_archived_value c (shared_pages p))"

text \<open>Views commute with the two conversions.\<close>

lemma view_condition_to_wire:
  "view_wire (condition_to_wire n) = map_node_ref condition_to_wire (view_ir n)"
  by (cases n) simp_all

lemma compact_condition_to_wire: "compact_condition (condition_to_wire n) = n"
  by (induction n) simp_all

lemma condition_to_wire_compact: "condition_to_wire (compact_condition n) = n"
  by (induction n) simp_all

lemma evaluate_archived_to_wire:
  "evaluate_archived_value (condition_to_wire n) p = evaluate_value n p"
proof (induction n rule: condition_ir_view_induct)
  case (1 n)
  then show ?case
    by (simp add: evaluate_archived_value.simps [of "condition_to_wire n" p]
        evaluate_value.simps [of n p] view_condition_to_wire node_ref.map_comp comp_def
        cong: node_ref.map_cong)
qed

lemma type_check_archived_to_wire: "type_check_archived (condition_to_wire n) = type_check n"
proof (induction n rule: condition_ir_view_induct)
  case (1 n)
  then show ?case
    by (simp add: type_check_archived.simps [of "condition_to_wire n"]
        type_check.simps [of n] view_condition_to_wire node_ref.map_comp comp_def
        cong: node_ref.map_cong)
qed

lemma evaluate_compact: "evaluate_value (compact_condition n) p = evaluate_archived_value n p"
  by (metis condition_to_wire_compact evaluate_archived_to_wire)

section \<open>Properties\<close>

text \<open>
  C29: transport keeps the meaning. The broker's lowering followed by evaluation of the archived
  form gives the result of evaluating the original at the shared pager state, the checker accepts
  the archived form at the same type or rejects it with the same message, and the UI's
  reconstruction gives back the condition the broker started from.
\<close>

theorem condition_transport:
  "evaluate_archived_condition (condition_to_wire n) wp = evaluate n (shared_pages wp)
   \<and> type_check_archived (condition_to_wire n) = type_check n
   \<and> compact_condition (condition_to_wire n) = n"
  by (simp add: evaluate_archived_condition_def evaluate_def evaluate_archived_to_wire
      type_check_archived_to_wire compact_condition_to_wire)

end
