(* ===== verification/Terminal_Types.thy ===== *)
theory Terminal_Types
  imports Muxe_Prelude
begin

text \<open>
  \<open>muxe-terminal-input\<close>, part one: the events the parser reports, the fields of a CSI sequence
  and the pure decoding of one complete sequence (legacy, Kitty and tilde forms).
\<close>

section \<open>Keys and events\<close>

definition MAX_CSI_SEQUENCE_BYTES :: nat where "MAX_CSI_SEQUENCE_BYTES = 96"
definition MAX_CSI_PARAMETERS :: nat where "MAX_CSI_PARAMETERS = 3"
definition MAX_ASSOCIATED_TEXT_SCALARS :: nat where "MAX_ASSOCIATED_TEXT_SCALARS = 16"

lemmas csi_limits = MAX_CSI_SEQUENCE_BYTES_def MAX_CSI_PARAMETERS_def MAX_ASSOCIATED_TEXT_SCALARS_def

datatype media_key =
    MPlay | MPause | MPlayPause | MReverse | MStop | MFastForward | MRewind | MTrackNext
  | MTrackPrevious | MRecord | MLowerVolume | MRaiseVolume | MMuteVolume

datatype modifier_key =
    LeftShift | LeftControl | LeftAlt | LeftSuper | LeftHyper | LeftMeta
  | RightShift | RightControl | RightAlt | RightSuper | RightHyper | RightMeta
  | IsoLevel3Shift | IsoLevel5Shift

datatype keypad_key =
    KpDigit u8 | KpDecimal | KpDivide | KpMultiply | KpSubtract | KpAdd | KpEnter | KpEqual
  | KpSeparator | KpLeft | KpRight | KpUp | KpDown | KpPageUp | KpPageDown | KpHome | KpEnd
  | KpInsert | KpDelete | KpBegin

datatype functional_key =
    FEscape | FEnter | FTab | FBackspace | FInsert | FDelete | FLeft | FRight | FUp | FDown
  | FPageUp | FPageDown | FHome | FEnd | FBegin | FCapsLock | FScrollLock | FNumLock
  | FPrintScreen | FPause | FMenu
  | FFunction u8 | FKeypad keypad_key | FMedia media_key | FModifier modifier_key

datatype key_identity =
    Unicode scalar | Functional functional_key | UnknownFunctional u32 | Unidentified

type_synonym modifiers = u8

definition MOD_NONE :: modifiers where "MOD_NONE = 0"
definition MOD_SHIFT :: modifiers where "MOD_SHIFT = 0b000001"
definition MOD_ALT :: modifiers where "MOD_ALT = 0b000010"

lemmas modifier_defs = MOD_NONE_def MOD_SHIFT_def MOD_ALT_def

record lock_state =
  caps_lock :: bool
  num_lock :: bool

definition LOCKS_NONE :: lock_state where
  "LOCKS_NONE = \<lparr>caps_lock = False, num_lock = False\<rparr>"

datatype event_kind = Press | Repeat | Release

datatype sequence_class = SeqEscape | SeqCsi | SeqSs3 | SeqUtf8

datatype malformed_reason =
    InvalidUtf8 | InvalidSyntax | InvalidScalar | InvalidModifier | InvalidEventKind
  | InvalidAssociatedText | NumericOverflow | TooManyParameters | SequenceTooLong
  | IncompleteAtEof

record raw_key_event =
  primary :: key_identity
  shifted :: "key_identity option"
  base :: "key_identity option"
  modifiers :: modifiers
  kind :: event_kind
  locks :: lock_state
  keypad :: "keypad_key option"

record unknown_sequence =
  us_class :: sequence_class
  us_final_byte :: u8
  us_parameter_bytes :: u8

record malformed_input =
  mi_class :: sequence_class
  mi_reason :: malformed_reason
  mi_observed_bytes :: u8

datatype protocol_response = KittyKeyboardFlags u32

datatype input_event =
    Key raw_key_event
  | ProtocolResponse protocol_response
  | Unknown unknown_sequence
  | Malformed malformed_input

definition with_modifiers :: "key_identity \<Rightarrow> modifiers \<Rightarrow> raw_key_event" where
  "with_modifiers p m =
     \<lparr>primary = p, shifted = None, base = None, modifiers = m, kind = Press,
      locks = LOCKS_NONE, keypad = None\<rparr>"

definition plain :: "key_identity \<Rightarrow> raw_key_event" where
  "plain p =
     \<lparr>primary = p, shifted = None, base = None, modifiers = MOD_NONE, kind = Press,
      locks = LOCKS_NONE, keypad = None\<rparr>"

definition saturating_u8 :: "nat \<Rightarrow> u8" where
  "saturating_u8 n = (if n < 256 then of_nat n else 255)"

definition malformed :: "sequence_class \<Rightarrow> malformed_reason \<Rightarrow> u8 \<Rightarrow> input_event" where
  "malformed c r n = Malformed \<lparr>mi_class = c, mi_reason = r, mi_observed_bytes = n\<rparr>"

definition unknown_csi :: "u8 \<Rightarrow> nat \<Rightarrow> input_event" where
  "unknown_csi final_byte bytes =
     Unknown \<lparr>us_class = SeqCsi, us_final_byte = final_byte,
              us_parameter_bytes = saturating_u8 bytes\<rparr>"

definition is_csi_final :: "u8 \<Rightarrow> bool" where
  "is_csi_final b \<longleftrightarrow> 0x40 \<le> b \<and> b \<le> 0x7e"

definition is_csi_body :: "u8 \<Rightarrow> bool" where
  "is_csi_body b \<longleftrightarrow> 0x20 \<le> b \<and> b \<le> 0x3f"

definition is_intermediate :: "u8 \<Rightarrow> bool" where
  "is_intermediate b \<longleftrightarrow> 0x20 \<le> b \<and> b \<le> 0x2f"

end
