(* ===== verification/Terminal_Csi.thy ===== *)
theory Terminal_Csi
  imports Terminal_Types
begin

text \<open>
  \<open>muxe-terminal-input\<close>, part two: the bounded parameters of a CSI sequence and the decoding of
  one complete sequence, \<open>decode_csi\<close>. Arrays keep their length as lists of that length; an
  index the code computes is an index into the list.
\<close>

section \<open>Parameters\<close>

record csi_parameter =
  cp_values :: "u32 option list"
  cp_len :: nat

definition EMPTY_PARAMETER :: csi_parameter where
  "EMPTY_PARAMETER = \<lparr>cp_values = replicate MAX_ASSOCIATED_TEXT_SCALARS None, cp_len = 0\<rparr>"

definition cp_first :: "csi_parameter \<Rightarrow> u32 option" where
  "cp_first q = (if cp_len q = 0 then None else cp_values q ! 0)"

record csi_parameters =
  ps_prefix :: "u8 option"
  ps_values :: "csi_parameter list"
  ps_len :: nat

definition EMPTY_PARAMETERS :: csi_parameters where
  "EMPTY_PARAMETERS =
     \<lparr>ps_prefix = None, ps_values = replicate MAX_CSI_PARAMETERS EMPTY_PARAMETER, ps_len = 0\<rparr>"

text \<open>Assignments into \<open>parsed.values[pi]\<close>.\<close>

definition set_component :: "nat \<Rightarrow> nat \<Rightarrow> u32 \<Rightarrow> csi_parameters \<Rightarrow> csi_parameters" where
  "set_component pi ci v ps =
     ps\<lparr>ps_values := (ps_values ps)[pi := (ps_values ps ! pi)
          \<lparr>cp_values := (cp_values (ps_values ps ! pi))[ci := Some v]\<rparr>]\<rparr>"

definition set_cp_len :: "nat \<Rightarrow> nat \<Rightarrow> csi_parameters \<Rightarrow> csi_parameters" where
  "set_cp_len pi n ps = ps\<lparr>ps_values := (ps_values ps)[pi := (ps_values ps ! pi)\<lparr>cp_len := n\<rparr>]\<rparr>"

definition is_digit :: "u8 \<Rightarrow> bool" where
  "is_digit b \<longleftrightarrow> 0x30 \<le> b \<and> b \<le> 0x39"

text \<open>\<open>u8::try_from\<close> on a length.\<close>

definition try_u8 :: "nat \<Rightarrow> nat option" where
  "try_u8 n = (if n < 256 then Some n else None)"

definition push_digit :: "u32 \<Rightarrow> u8 \<Rightarrow> malformed_reason + u32" where
  "push_digit current digit =
     ok_or (Option.bind (checked_mul_u32 current 10)
              (\<lambda>v. checked_add_u32 v (ucast (digit - 0x30)))) NumericOverflow"

fun parse_fields :: "u8 list \<Rightarrow> nat \<Rightarrow> nat \<Rightarrow> csi_parameters \<Rightarrow> malformed_reason + csi_parameters" where
  "parse_fields [] pi ci ps = Inr ps"
| "parse_fields (b # bs) pi ci ps =
     (if is_digit b then
        (let current = (case cp_values (ps_values ps ! pi) ! ci of None \<Rightarrow> 0 | Some v \<Rightarrow> v)
         in rbind (push_digit current b)
              (\<lambda>v. parse_fields bs pi ci (set_component pi ci v ps)))
      else if b = 0x3a then
        (if ci + 1 = MAX_ASSOCIATED_TEXT_SCALARS then Inl TooManyParameters
         else rbind (ok_or (try_u8 (ci + 1 + 1)) TooManyParameters)
                (\<lambda>n. parse_fields bs pi (ci + 1) (set_cp_len pi n ps)))
      else if b = 0x3b then
        (if pi + 1 = MAX_CSI_PARAMETERS then Inl TooManyParameters
         else rbind (ok_or (try_u8 (pi + 1 + 1)) TooManyParameters)
                (\<lambda>n. parse_fields bs (pi + 1) 0 (set_cp_len (pi + 1) 1 (ps\<lparr>ps_len := n\<rparr>))))
      else Inl InvalidSyntax)"

definition is_prefix_byte :: "u8 \<Rightarrow> bool" where
  "is_prefix_byte b \<longleftrightarrow> b = 0x3c \<or> b = 0x3d \<or> b = 0x3e \<or> b = 0x3f"

text \<open>The part after the optional prefix: parameter bytes, then intermediates.\<close>

definition parse_tail :: "u8 list \<Rightarrow> csi_parameters \<Rightarrow> malformed_reason + csi_parameters" where
  "parse_tail tail ps =
     (let parameter_bytes = takeWhile (\<lambda>b. \<not> is_intermediate b) tail;
          intermediates = dropWhile (\<lambda>b. \<not> is_intermediate b) tail
      in if \<exists>b \<in> set intermediates. \<not> is_intermediate b then Inl InvalidSyntax
         else if parameter_bytes = [] then Inr ps
         else parse_fields parameter_bytes 0 0 (set_cp_len 0 1 (ps\<lparr>ps_len := 1\<rparr>)))"

definition parse_csi_parameters :: "u8 list \<Rightarrow> malformed_reason + csi_parameters" where
  "parse_csi_parameters bytes =
     (case bytes of
        [] \<Rightarrow> Inr EMPTY_PARAMETERS
      | b # rest \<Rightarrow>
          if is_prefix_byte b then
            (let parsed = EMPTY_PARAMETERS\<lparr>ps_prefix := Some b\<rparr>
             in if rest = [] then Inr parsed else parse_tail rest parsed)
          else parse_tail bytes EMPTY_PARAMETERS)"

section \<open>Key identities\<close>

fun named_functional_identity :: "u32 \<Rightarrow> (functional_key \<times> keypad_key option) option" where
  "named_functional_identity v =
     map_option (\<lambda>k. (k, None))
     (if v = 9 \<or> v = 57346 then Some FTab
      else if v = 13 \<or> v = 57345 then Some FEnter
      else if v = 27 \<or> v = 57344 then Some FEscape
      else if v = 127 \<or> v = 57347 then Some FBackspace
      else if v = 57348 then Some FInsert
      else if v = 57349 then Some FDelete
      else if v = 57350 then Some FLeft
      else if v = 57351 then Some FRight
      else if v = 57352 then Some FUp
      else if v = 57353 then Some FDown
      else if v = 57354 then Some FPageUp
      else if v = 57355 then Some FPageDown
      else if v = 57356 then Some FHome
      else if v = 57357 then Some FEnd
      else if v = 57358 then Some FCapsLock
      else if v = 57359 then Some FScrollLock
      else if v = 57360 then Some FNumLock
      else if v = 57361 then Some FPrintScreen
      else if v = 57362 then Some FPause
      else if v = 57363 then Some FMenu
      else None)"

text \<open>\<open>value.checked_sub(57363)\<close>, then \<open>u8::try_from\<close>, then the range test.\<close>

definition function_key_identity :: "u32 \<Rightarrow> (functional_key \<times> keypad_key option) option" where
  "function_key_identity v =
     (if v < 57363 then None
      else let d = v - 57363
           in if d < 256 \<and> 1 \<le> d \<and> d \<le> 35 then Some (FFunction (ucast d), None) else None)"

definition keypad_functional_identity :: "u32 \<Rightarrow> (functional_key \<times> keypad_key option) option" where
  "keypad_functional_identity v =
     map_option (\<lambda>k. (FKeypad k, Some k))
     (if 57399 \<le> v \<and> v \<le> 57408 then Some (KpDigit (ucast (v - 57399)))
      else if v = 57409 then Some KpDecimal
      else if v = 57410 then Some KpDivide
      else if v = 57411 then Some KpMultiply
      else if v = 57412 then Some KpSubtract
      else if v = 57413 then Some KpAdd
      else if v = 57414 then Some KpEnter
      else if v = 57415 then Some KpEqual
      else if v = 57416 then Some KpSeparator
      else if v = 57417 then Some KpLeft
      else if v = 57418 then Some KpRight
      else if v = 57419 then Some KpUp
      else if v = 57420 then Some KpDown
      else if v = 57421 then Some KpPageUp
      else if v = 57422 then Some KpPageDown
      else if v = 57423 then Some KpHome
      else if v = 57424 then Some KpEnd
      else if v = 57425 then Some KpInsert
      else if v = 57426 then Some KpDelete
      else if v = 57427 then Some KpBegin
      else None)"

definition media_functional_identity :: "u32 \<Rightarrow> (functional_key \<times> keypad_key option) option" where
  "media_functional_identity v =
     map_option (\<lambda>k. (FMedia k, None))
     (if v = 57428 then Some MPlay
      else if v = 57429 then Some MPause
      else if v = 57430 then Some MPlayPause
      else if v = 57431 then Some MReverse
      else if v = 57432 then Some MStop
      else if v = 57433 then Some MFastForward
      else if v = 57434 then Some MRewind
      else if v = 57435 then Some MTrackNext
      else if v = 57436 then Some MTrackPrevious
      else if v = 57437 then Some MRecord
      else if v = 57438 then Some MLowerVolume
      else if v = 57439 then Some MRaiseVolume
      else if v = 57440 then Some MMuteVolume
      else None)"

definition modifier_functional_identity :: "u32 \<Rightarrow> (functional_key \<times> keypad_key option) option" where
  "modifier_functional_identity v =
     map_option (\<lambda>k. (FModifier k, None))
     (if v = 57441 then Some LeftShift
      else if v = 57442 then Some LeftControl
      else if v = 57443 then Some LeftAlt
      else if v = 57444 then Some LeftSuper
      else if v = 57445 then Some LeftHyper
      else if v = 57446 then Some LeftMeta
      else if v = 57447 then Some RightShift
      else if v = 57448 then Some RightControl
      else if v = 57449 then Some RightAlt
      else if v = 57450 then Some RightSuper
      else if v = 57451 then Some RightHyper
      else if v = 57452 then Some RightMeta
      else if v = 57453 then Some IsoLevel3Shift
      else if v = 57454 then Some IsoLevel5Shift
      else None)"

fun or_else :: "'a option \<Rightarrow> 'a option \<Rightarrow> 'a option" where
  "or_else None m = m"
| "or_else (Some a) m = Some a"

definition functional_identity :: "u32 \<Rightarrow> (functional_key \<times> keypad_key option) option" where
  "functional_identity v =
     or_else (or_else (or_else (or_else (named_functional_identity v) (function_key_identity v))
       (keypad_functional_identity v)) (media_functional_identity v)) (modifier_functional_identity v)"

definition reported_identity :: "u32 \<Rightarrow> malformed_reason + key_identity" where
  "reported_identity v =
     (if v = 0 then Inr Unidentified
      else case functional_identity v of
        Some (p, _) \<Rightarrow> Inr (Functional p)
      | None \<Rightarrow>
          rbind (ok_or (char_from_u32 v) InvalidScalar)
            (\<lambda>c. if 0xe000 \<le> v \<and> v \<le> 0xf8ff then Inr (UnknownFunctional v)
                 else Inr (Unicode c)))"

definition primary_identity :: "u32 \<Rightarrow> malformed_reason + (key_identity \<times> keypad_key option)" where
  "primary_identity v =
     rbind (reported_identity v)
       (\<lambda>p. Inr (p, Option.bind (functional_identity v) snd))"

fun optional_alternate_identity :: "u32 option \<Rightarrow> malformed_reason + key_identity option" where
  "optional_alternate_identity None = Inr None"
| "optional_alternate_identity (Some v) = rbind (reported_identity v) (\<lambda>k. Inr (Some k))"

definition tilde_identity :: "u32 \<Rightarrow> (key_identity \<times> keypad_key option) option" where
  "tilde_identity v =
     map_option (\<lambda>f. (Functional f, if v = 57427 then Some KpBegin else None))
     (if v = 2 then Some FInsert
      else if v = 3 then Some FDelete
      else if v = 5 then Some FPageUp
      else if v = 6 then Some FPageDown
      else if v = 7 then Some FHome
      else if v = 8 then Some FEnd
      else if v = 11 then Some (FFunction 1)
      else if v = 12 then Some (FFunction 2)
      else if v = 13 then Some (FFunction 3)
      else if v = 14 then Some (FFunction 4)
      else if v = 15 then Some (FFunction 5)
      else if v = 17 then Some (FFunction 6)
      else if v = 18 then Some (FFunction 7)
      else if v = 19 then Some (FFunction 8)
      else if v = 20 then Some (FFunction 9)
      else if v = 21 then Some (FFunction 10)
      else if v = 23 then Some (FFunction 11)
      else if v = 24 then Some (FFunction 12)
      else if v = 29 then Some FMenu
      else if v = 57427 then Some FBegin
      else None)"

section \<open>Modifiers, kinds and associated text\<close>

definition kitty_modifiers :: "u32 \<Rightarrow> malformed_reason + (modifiers \<times> lock_state)" where
  "kitty_modifiers v =
     (if \<not> (1 \<le> v \<and> v \<le> 256) then Inl InvalidModifier
      else rbind (if v - 1 < 256 then Inr (ucast (v - 1) :: u8) else Inl InvalidModifier)
        (\<lambda>bits. Inr (bits AND 0b00111111,
           \<lparr>caps_lock = (bits AND 0b01000000 \<noteq> 0), num_lock = (bits AND 0b10000000 \<noteq> 0)\<rparr>)))"

type_synonym details = "modifiers \<times> lock_state \<times> event_kind"

definition no_modifiers :: details where
  "no_modifiers = (MOD_NONE, LOCKS_NONE, Press)"

definition event_kind_of :: "u32 option \<Rightarrow> malformed_reason + event_kind" where
  "event_kind_of v =
     (case v of
        None \<Rightarrow> Inr Press
      | Some k \<Rightarrow> if k = 1 then Inr Press
                  else if k = 2 then Inr Repeat
                  else if k = 3 then Inr Release
                  else Inl InvalidEventKind)"

definition kitty_modifier_and_kind :: "csi_parameter \<Rightarrow> malformed_reason + details" where
  "kitty_modifier_and_kind q =
     (if cp_len q = 0 \<or> 2 < cp_len q then Inl InvalidSyntax
      else let modifier_value = (case cp_values q ! 0 of None \<Rightarrow> 1 | Some v \<Rightarrow> v)
           in if cp_len q = 2 \<and> cp_values q ! 0 = None then Inl InvalidSyntax
              else rbind (kitty_modifiers modifier_value)
                (\<lambda>(modifier_set, locks). rbind (event_kind_of (cp_values q ! 1))
                   (\<lambda>kind. Inr (modifier_set, locks, kind))))"

definition kitty_event_details :: "csi_parameters \<Rightarrow> malformed_reason + details" where
  "kitty_event_details ps =
     (if ps_len ps < 2 then Inr no_modifiers
      else kitty_modifier_and_kind (ps_values ps ! 1))"

definition valid_text_scalar :: "u32 option \<Rightarrow> malformed_reason + unit" where
  "valid_text_scalar value =
     rbind (ok_or value InvalidAssociatedText) (\<lambda>v.
     rbind (ok_or (char_from_u32 v) InvalidScalar) (\<lambda>c.
       if is_control c \<or> (0x7f \<le> v \<and> v \<le> 0x9f) then Inl InvalidAssociatedText else Inr ()))"

definition validate_associated_text :: "csi_parameters \<Rightarrow> malformed_reason + unit" where
  "validate_associated_text ps =
     (if ps_len ps < 3 then Inr ()
      else let t = ps_values ps ! 2
           in if cp_len t = 0 then Inl InvalidAssociatedText
              else each_ok valid_text_scalar (take (cp_len t) (cp_values t)))"

section \<open>Decoding one sequence\<close>

text \<open>The \<open>match ... Err(reason) => return malformed(...)\<close> of the decoders.\<close>

fun or_malformed :: "nat \<Rightarrow> malformed_reason + 'a \<Rightarrow> ('a \<Rightarrow> input_event) \<Rightarrow> input_event" where
  "or_malformed bytes (Inl reason) f = malformed SeqCsi reason (saturating_u8 bytes)"
| "or_malformed bytes (Inr a) f = f a"

text \<open>In the legacy forms a syntax error of the shared component is an unknown sequence.\<close>

fun or_unknown :: "u8 \<Rightarrow> nat \<Rightarrow> malformed_reason + 'a \<Rightarrow> ('a \<Rightarrow> input_event) \<Rightarrow> input_event" where
  "or_unknown final_byte bytes (Inl reason) f =
     (if reason = InvalidSyntax then unknown_csi final_byte bytes
      else malformed SeqCsi reason (saturating_u8 bytes))"
| "or_unknown final_byte bytes (Inr a) f = f a"

definition decode_kitty :: "csi_parameters \<Rightarrow> u8 \<Rightarrow> nat \<Rightarrow> input_event" where
  "decode_kitty ps final_byte bytes =
     (if ps_len ps = 0 then unknown_csi final_byte bytes
      else let fields = ps_values ps ! 0
      in if cp_len fields = 0 \<or> 3 < cp_len fields \<or> cp_first fields = None
         then malformed SeqCsi InvalidSyntax (saturating_u8 bytes)
      else if 1 < ps_len ps \<and> 2 < cp_len (ps_values ps ! 1)
         then malformed SeqCsi TooManyParameters (saturating_u8 bytes)
      else or_malformed bytes (kitty_event_details ps) (\<lambda>(m, l, k).
           or_malformed bytes (validate_associated_text ps) (\<lambda>_.
           or_malformed bytes (primary_identity (the (cp_values fields ! 0))) (\<lambda>(prim, kp).
           or_malformed bytes
             (if cp_len fields \<le> 1 then Inr None
              else optional_alternate_identity (cp_values fields ! 1)) (\<lambda>sh.
           or_malformed bytes
             (if cp_len fields \<le> 2 then Inr None
              else optional_alternate_identity (cp_values fields ! 2)) (\<lambda>bs.
           Key \<lparr>primary = prim, shifted = sh, base = bs, modifiers = m,
                kind = k, locks = l, keypad = kp\<rparr>))))))"

definition decode_tilde :: "csi_parameters \<Rightarrow> u8 \<Rightarrow> nat \<Rightarrow> input_event" where
  "decode_tilde ps final_byte bytes =
     (if ps_len ps = 0 \<or> 2 < ps_len ps \<or> cp_len (ps_values ps ! 0) \<noteq> 1
      then unknown_csi final_byte bytes
      else case cp_first (ps_values ps ! 0) of
        None \<Rightarrow> unknown_csi final_byte bytes
      | Some number \<Rightarrow>
          (case tilde_identity number of
             None \<Rightarrow> unknown_csi final_byte bytes
           | Some (prim, kp) \<Rightarrow>
               or_unknown final_byte bytes
                 (if ps_len ps = 1 then Inr no_modifiers
                  else kitty_modifier_and_kind (ps_values ps ! 1))
                 (\<lambda>(m, l, k).
                   Key \<lparr>primary = prim, shifted = None, base = None, modifiers = m,
                        kind = k, locks = l, keypad = kp\<rparr>)))"

definition decode_direct_event :: "csi_parameters \<Rightarrow> raw_key_event \<Rightarrow> u8 \<Rightarrow> nat \<Rightarrow> input_event" where
  "decode_direct_event ps event final_byte bytes =
     (let finish = (\<lambda>(m, l, k). Key (event\<lparr>modifiers := m, locks := l, kind := k\<rparr>))
      in if ps_len ps = 0 then finish no_modifiers
         else if ps_len ps = 1 \<and> cp_len (ps_values ps ! 0) = 1
                 \<and> cp_first (ps_values ps ! 0) = Some 1 then finish no_modifiers
         else if ps_len ps = 2 \<and> cp_len (ps_values ps ! 0) = 1
                 \<and> cp_first (ps_values ps ! 0) \<noteq> None then
           or_unknown final_byte bytes (kitty_modifier_and_kind (ps_values ps ! 1)) finish
         else unknown_csi final_byte bytes)"

definition decode_direct :: "csi_parameters \<Rightarrow> functional_key \<Rightarrow> u8 \<Rightarrow> nat \<Rightarrow> input_event" where
  "decode_direct ps key final_byte bytes =
     decode_direct_event ps (plain (Functional key)) final_byte bytes"

definition decode_shift_tab :: "csi_parameters \<Rightarrow> u8 \<Rightarrow> nat \<Rightarrow> input_event" where
  "decode_shift_tab ps final_byte bytes =
     (let event = (plain (Functional FTab))\<lparr>modifiers := MOD_SHIFT\<rparr>
      in if ps_len ps = 0 then Key event
         else if ps_len ps = 2 \<and> cp_first (ps_values ps ! 0) = Some 1 then
           or_unknown final_byte bytes (kitty_modifier_and_kind (ps_values ps ! 1))
             (\<lambda>(m, l, k). Key (event\<lparr>modifiers := m, locks := l, kind := k\<rparr>))
         else unknown_csi final_byte bytes)"

definition decode_protocol_response :: "csi_parameters \<Rightarrow> u8 \<Rightarrow> protocol_response option" where
  "decode_protocol_response ps final_byte =
     (if ps_prefix ps \<noteq> Some 0x3f \<or> final_byte \<noteq> 0x75 \<or> ps_len ps \<noteq> 1
         \<or> cp_len (ps_values ps ! 0) \<noteq> 1
      then None
      else map_option KittyKeyboardFlags (cp_first (ps_values ps ! 0)))"

definition begin_event :: raw_key_event where
  "begin_event =
     \<lparr>primary = Functional FBegin, shifted = None, base = None, modifiers = MOD_NONE,
      kind = Press, locks = LOCKS_NONE, keypad = Some KpBegin\<rparr>"

text \<open>The \<open>match\<close> on the final byte.\<close>

definition decode_final :: "csi_parameters \<Rightarrow> u8 \<Rightarrow> nat \<Rightarrow> input_event" where
  "decode_final ps final_byte n =
     (if final_byte = 0x75 then decode_kitty ps final_byte n
      else if final_byte = 0x7e then decode_tilde ps final_byte n
      else if final_byte = 0x41 then decode_direct ps FUp final_byte n
      else if final_byte = 0x42 then decode_direct ps FDown final_byte n
      else if final_byte = 0x43 then decode_direct ps FRight final_byte n
      else if final_byte = 0x44 then decode_direct ps FLeft final_byte n
      else if final_byte = 0x48 then decode_direct ps FHome final_byte n
      else if final_byte = 0x46 then decode_direct ps FEnd final_byte n
      else if final_byte = 0x50 then decode_direct ps (FFunction 1) final_byte n
      else if final_byte = 0x51 then decode_direct ps (FFunction 2) final_byte n
      else if final_byte = 0x52 then decode_direct ps (FFunction 3) final_byte n
      else if final_byte = 0x53 then decode_direct ps (FFunction 4) final_byte n
      else if final_byte = 0x45 then decode_direct_event ps begin_event final_byte n
      else if final_byte = 0x5a then decode_shift_tab ps final_byte n
      else unknown_csi final_byte n)"

definition decode_csi :: "u8 list \<Rightarrow> u8 \<Rightarrow> input_event" where
  "decode_csi bytes final_byte =
     (case parse_csi_parameters bytes of
        Inl reason \<Rightarrow> malformed SeqCsi reason (saturating_u8 (length bytes))
      | Inr ps \<Rightarrow>
          (case decode_protocol_response ps final_byte of
             Some response \<Rightarrow> ProtocolResponse response
           | None \<Rightarrow>
               if ps_prefix ps \<noteq> None \<or> (\<exists>b \<in> set bytes. is_intermediate b)
               then unknown_csi final_byte (length bytes)
               else decode_final ps final_byte (length bytes)))"

end
