(* ===== verification/Terminal_Parser.thy ===== *)
theory Terminal_Parser
  imports Terminal_Csi
begin

text \<open>
  \<open>muxe-terminal-input\<close>, part three: the streaming parser. The \<open>emit\<close> closure is the list of
  emitted events; \<open>push\<close> is the byte loop, with the \<open>continue\<close> that reprocesses the byte which
  broke a UTF-8 sequence.
\<close>

section \<open>State\<close>

record utf8_pending =
  up_bytes :: "u8 list"
  up_len :: nat
  up_expected :: nat
  up_modifiers :: modifiers

datatype parser_state = StGround | StEscape | StUtf8 utf8_pending | StCsi | StSs3 | StDiscardCsi

record parser =
  state :: parser_state
  csi :: "u8 list"
  csi_len :: nat

definition new_parser :: parser where
  "new_parser = \<lparr>state = StGround, csi = replicate MAX_CSI_SEQUENCE_BYTES 0, csi_len = 0\<rparr>"

definition reset :: "parser \<Rightarrow> parser" where
  "reset p = p\<lparr>state := StGround, csi_len := 0\<rparr>"

section \<open>UTF-8\<close>

definition utf8_initial_mask :: "nat \<Rightarrow> u8" where
  "utf8_initial_mask expected =
     (if expected = 2 then 0b00011111
      else if expected = 3 then 0b00001111
      else if expected = 4 then 0b00000111
      else 0)"

definition is_overlong_utf8 :: "u32 \<Rightarrow> nat \<Rightarrow> bool" where
  "is_overlong_utf8 value expected =
     (if expected = 2 then value < 0x80
      else if expected = 3 then value < 0x800
      else if expected = 4 then value < 0x10000
      else True)"

definition is_continuation :: "u8 \<Rightarrow> bool" where
  "is_continuation b \<longleftrightarrow> b AND 0b11000000 = 0b10000000"

definition utf8_shift :: "u32 \<Rightarrow> u8 \<Rightarrow> u32" where
  "utf8_shift value continuation = push_bit 6 value OR ucast (continuation AND 0b00111111)"

text \<open>The accumulation over \<open>pending.bytes[..expected]\<close>.\<close>

definition utf8_value :: "utf8_pending \<Rightarrow> u32" where
  "utf8_value q =
     foldl utf8_shift (ucast (up_bytes q ! 0 AND utf8_initial_mask (up_expected q)))
       (drop 1 (take (up_expected q) (up_bytes q)))"

definition begin_utf8 :: "u8 \<Rightarrow> modifiers \<Rightarrow> parser \<Rightarrow> parser \<times> input_event list" where
  "begin_utf8 byte m p =
     (let start = (\<lambda>n. (p\<lparr>state := StUtf8 \<lparr>up_bytes = [byte, 0, 0, 0], up_len = 1,
                           up_expected = n, up_modifiers = m\<rparr>\<rparr>, []))
      in if 0xc2 \<le> byte \<and> byte \<le> 0xdf then start 2
         else if 0xe0 \<le> byte \<and> byte \<le> 0xef then start 3
         else if 0xf0 \<le> byte \<and> byte \<le> 0xf4 then start 4
         else (p\<lparr>state := StGround\<rparr>, [malformed SeqUtf8 InvalidUtf8 1]))"

text \<open>A continuation byte in the UTF-8 state.\<close>

definition consume_utf8 :: "u8 \<Rightarrow> utf8_pending \<Rightarrow> parser \<Rightarrow> parser \<times> input_event list" where
  "consume_utf8 byte q p =
     (let q' = q\<lparr>up_bytes := (up_bytes q)[up_len q := byte], up_len := up_len q + 1\<rparr>
      in if up_len q' = up_expected q' then
           (let value = utf8_value q'
            in (p\<lparr>state := StGround\<rparr>,
                [if is_scalar value \<and> \<not> is_overlong_utf8 value (up_expected q')
                 then Key (with_modifiers (Unicode value) (up_modifiers q'))
                 else malformed SeqUtf8 InvalidUtf8 (of_nat (up_len q'))]))
         else (p\<lparr>state := StUtf8 q'\<rparr>, []))"

section \<open>One byte in each state\<close>

definition key_event :: "functional_key \<Rightarrow> input_event" where
  "key_event k = Key (plain (Functional k))"

definition consume_ground :: "u8 \<Rightarrow> parser \<Rightarrow> parser \<times> input_event list" where
  "consume_ground byte p =
     (if byte = 0x1b then (p\<lparr>state := StEscape\<rparr>, [])
      else if byte = 0x08 \<or> byte = 0x7f then (p, [key_event FBackspace])
      else if byte = 0x09 then (p, [key_event FTab])
      else if byte = 0x0d \<or> byte = 0x0a then (p, [key_event FEnter])
      else if byte < 0x80 then (p, [Key (plain (Unicode (ucast byte)))])
      else begin_utf8 byte MOD_NONE p)"

definition alt_event :: "key_identity \<Rightarrow> input_event" where
  "alt_event k = Key (with_modifiers k MOD_ALT)"

definition consume_after_escape :: "u8 \<Rightarrow> parser \<Rightarrow> parser \<times> input_event list" where
  "consume_after_escape byte p =
     (if byte = 0x5b then (p\<lparr>csi_len := 0, state := StCsi\<rparr>, [])
      else if byte = 0x4f then (p\<lparr>state := StSs3\<rparr>, [])
      else if byte = 0x08 \<or> byte = 0x7f then
        (p\<lparr>state := StGround\<rparr>, [alt_event (Functional FBackspace)])
      else if byte = 0x09 then (p\<lparr>state := StGround\<rparr>, [alt_event (Functional FTab)])
      else if byte = 0x0d \<or> byte = 0x0a then
        (p\<lparr>state := StGround\<rparr>, [alt_event (Functional FEnter)])
      else if byte = 0x1b then (p\<lparr>state := StGround\<rparr>, [alt_event (Functional FEscape)])
      else if byte < 0x80 then (p\<lparr>state := StGround\<rparr>, [alt_event (Unicode (ucast byte))])
      else begin_utf8 byte MOD_ALT p)"

definition consume_csi :: "u8 \<Rightarrow> parser \<Rightarrow> parser \<times> input_event list" where
  "consume_csi byte p =
     (if is_csi_final byte then (reset p, [decode_csi (take (csi_len p) (csi p)) byte])
      else if \<not> is_csi_body byte then
        (reset p, [malformed SeqCsi InvalidSyntax (saturating_u8 (csi_len p + 1))])
      else if csi_len p = MAX_CSI_SEQUENCE_BYTES then
        (p\<lparr>state := StDiscardCsi\<rparr>, [malformed SeqCsi SequenceTooLong (saturating_u8 (csi_len p))])
      else (p\<lparr>csi := (csi p)[csi_len p := byte], csi_len := csi_len p + 1\<rparr>, []))"

definition ss3_key :: "u8 \<Rightarrow> functional_key option" where
  "ss3_key byte =
     (if byte = 0x41 then Some FUp
      else if byte = 0x42 then Some FDown
      else if byte = 0x43 then Some FRight
      else if byte = 0x44 then Some FLeft
      else if byte = 0x48 then Some FHome
      else if byte = 0x46 then Some FEnd
      else if byte = 0x50 then Some (FFunction 1)
      else if byte = 0x51 then Some (FFunction 2)
      else if byte = 0x52 then Some (FFunction 3)
      else if byte = 0x53 then Some (FFunction 4)
      else None)"

definition consume_ss3 :: "u8 \<Rightarrow> parser \<Rightarrow> parser \<times> input_event list" where
  "consume_ss3 byte p =
     (p\<lparr>state := StGround\<rparr>,
      [case ss3_key byte of
         Some k \<Rightarrow> key_event k
       | None \<Rightarrow>
           if is_csi_final byte
           then Unknown \<lparr>us_class = SeqSs3, us_final_byte = byte, us_parameter_bytes = 0\<rparr>
           else malformed SeqSs3 InvalidSyntax 1])"

section \<open>The byte loop\<close>

fun in_utf8 :: "parser_state \<Rightarrow> bool" where
  "in_utf8 (StUtf8 _) = True"
| "in_utf8 _ = False"

text \<open>Events already emitted come before those of the rest of the loop.\<close>

definition emit_then :: "input_event list \<Rightarrow> parser \<times> input_event list \<Rightarrow> parser \<times> input_event list" where
  "emit_then events r = (fst r, events @ snd r)"

lemma emit_then_cong [fundef_cong]:
  "e = e' \<Longrightarrow> r = r' \<Longrightarrow> emit_then e r = emit_then e' r'"
  by simp

definition consume_other :: "u8 \<Rightarrow> parser \<Rightarrow> parser \<times> input_event list" where
  "consume_other byte p =
     (case state p of
        StGround \<Rightarrow> consume_ground byte p
      | StEscape \<Rightarrow> consume_after_escape byte p
      | StUtf8 q \<Rightarrow> consume_utf8 byte q p
      | StCsi \<Rightarrow> consume_csi byte p
      | StSs3 \<Rightarrow> consume_ss3 byte p
      | StDiscardCsi \<Rightarrow> (if is_csi_final byte then p\<lparr>state := StGround\<rparr> else p, []))"

function push :: "parser \<Rightarrow> u8 list \<Rightarrow> parser \<times> input_event list" where
  "push p [] = (p, [])"
| "push p (byte # rest) =
     (case state p of
        StUtf8 q \<Rightarrow>
          if \<not> is_continuation byte then
            emit_then [malformed SeqUtf8 InvalidUtf8 (of_nat (up_len q))]
              (push (p\<lparr>state := StGround\<rparr>) (byte # rest))
          else emit_then (snd (consume_other byte p)) (push (fst (consume_other byte p)) rest)
      | _ \<Rightarrow> emit_then (snd (consume_other byte p)) (push (fst (consume_other byte p)) rest))"
  by pat_completeness auto
termination
  by (relation "measure (\<lambda>(p, bytes). 2 * length bytes + (if in_utf8 (state p) then 1 else 0))")
    auto

definition flush_pending_escape :: "parser \<Rightarrow> bool \<times> parser \<times> input_event list" where
  "flush_pending_escape p =
     (if state p \<noteq> StEscape then (False, p, [])
      else (True, p\<lparr>state := StGround\<rparr>, [key_event FEscape]))"

definition finish :: "parser \<Rightarrow> parser \<times> input_event list" where
  "finish p =
     (reset p,
      case state p of
        StGround \<Rightarrow> []
      | StDiscardCsi \<Rightarrow> []
      | StEscape \<Rightarrow> [key_event FEscape]
      | StUtf8 q \<Rightarrow> [malformed SeqUtf8 IncompleteAtEof (of_nat (up_len q))]
      | StCsi \<Rightarrow> [malformed SeqCsi IncompleteAtEof (saturating_u8 (csi_len p))]
      | StSs3 \<Rightarrow> [malformed SeqSs3 IncompleteAtEof 0])"

definition has_pending_escape :: "parser \<Rightarrow> bool" where
  "has_pending_escape p \<longleftrightarrow> state p = StEscape"

end
