(* ===== verification/Terminal_Facts.thy ===== *)
theory Terminal_Facts
  imports Terminal_Parser
begin

text \<open>
  Facts about the terminal parser: the byte loop as a fold of one step, the bounds of the
  parameter arrays, well-formed events, and the invariant that every byte keeps.
\<close>

section \<open>The loop as a sequence of byte steps\<close>

text \<open>One turn of the loop, with the byte that ends a UTF-8 sequence reprocessed in place.\<close>

definition step_byte :: "parser \<Rightarrow> u8 \<Rightarrow> parser \<times> input_event list" where
  "step_byte p byte =
     (case state p of
        StUtf8 q \<Rightarrow>
          if \<not> is_continuation byte then
            emit_then [malformed SeqUtf8 InvalidUtf8 (of_nat (up_len q))]
              (consume_ground byte (p\<lparr>state := StGround\<rparr>))
          else consume_utf8 byte q p
      | _ \<Rightarrow> consume_other byte p)"

lemma emit_then_run:
  "emit_then (snd (step s x)) (run step (fst (step s x)) xs) = run step s (x # xs)"
  by (simp add: emit_then_def run_Cons del: run.simps(2))

lemma emit_then_emit_then: "emit_then a (emit_then b r) = emit_then (a @ b) r"
  by (simp add: emit_then_def)

lemma emit_then_simps [simp]:
  "fst (emit_then es r) = fst r" "snd (emit_then es r) = es @ snd r"
  by (simp_all add: emit_then_def)

lemma push_ground:
  "state p = StGround \<Longrightarrow> push p (b # bs) = emit_then (snd (consume_ground b p)) (push (fst (consume_ground b p)) bs)"
  by (simp add: consume_other_def)

lemma push_Cons:
  "push p (b # bs) = emit_then (snd (step_byte p b)) (push (fst (step_byte p b)) bs)"
  by (cases "state p")
    (simp_all add: step_byte_def consume_other_def emit_then_emit_then)

lemma push_run: "push p bs = run step_byte p bs"
proof (induction bs arbitrary: p)
  case (Cons b bs)
  show ?case by (simp only: push_Cons Cons.IH emit_then_run)
qed simp

lemma push_append:
  "push p (xs @ ys) = emit_then (snd (push p xs)) (push (fst (push p xs)) ys)"
  by (simp add: push_run run_append emit_then_def)

section \<open>The parameter arrays are never left\<close>

definition parameter_wf :: "csi_parameter \<Rightarrow> bool" where
  "parameter_wf q \<longleftrightarrow> length (cp_values q) = 16 \<and> cp_len q \<le> 16"
definition parameters_wf :: "csi_parameters \<Rightarrow> bool" where
  "parameters_wf ps \<longleftrightarrow> length (ps_values ps) = 3 \<and> ps_len ps \<le> 3 \<and> (\<forall>q \<in> set (ps_values ps). parameter_wf q)"

lemma parameters_wf_EMPTY: "parameters_wf (EMPTY_PARAMETERS\<lparr>ps_prefix := x\<rparr>)" "parameters_wf EMPTY_PARAMETERS"
  by (auto simp: parameters_wf_def EMPTY_PARAMETERS_def EMPTY_PARAMETER_def parameter_wf_def csi_limits)

lemma parameters_wf_set_component:
  "parameters_wf ps \<Longrightarrow> pi < 3 \<Longrightarrow> parameters_wf (set_component pi ci v ps)"
  by (auto simp: parameters_wf_def set_component_def parameter_wf_def dest!: set_update_subset_insert [THEN subsetD])

lemma parameters_wf_set_cp_len:
  "parameters_wf ps \<Longrightarrow> pi < 3 \<Longrightarrow> n \<le> 16 \<Longrightarrow> parameters_wf (set_cp_len pi n ps)"
  by (auto simp: parameters_wf_def set_cp_len_def parameter_wf_def dest!: set_update_subset_insert [THEN subsetD])

lemma parameters_wf_ps_len: "parameters_wf ps \<Longrightarrow> n \<le> 3 \<Longrightarrow> parameters_wf (ps\<lparr>ps_len := n\<rparr>)"
  by (simp add: parameters_wf_def)

lemmas parameters_wf_intros = parameters_wf_EMPTY parameters_wf_set_component parameters_wf_set_cp_len parameters_wf_ps_len

lemma parse_fields_wf:
  "parse_fields bs pi ci ps = Inr r \<Longrightarrow> parameters_wf ps \<Longrightarrow> pi < 3 \<Longrightarrow> ci < 16 \<Longrightarrow> parameters_wf r"
  by (induction bs pi ci ps rule: parse_fields.induct)
    (auto simp: result_simps Let_def csi_limits try_u8_def parameters_wf_intros split: if_splits)

lemma parse_tail_wf:
  assumes "parse_tail bs ps = Inr r" and wf: "parameters_wf ps"
  shows "parameters_wf r"
proof -
  have "r = ps \<or> parse_fields (takeWhile (\<lambda>b. \<not> is_intermediate b) bs) 0 0
          (set_cp_len 0 1 (ps\<lparr>ps_len := 1\<rparr>)) = Inr r"
    using assms(1) unfolding parse_tail_def Let_def
    by (simp only: split: if_split_asm) (simp_all only: sum.inject sum.distinct simp_thms)
  then show ?thesis
    using wf by (elim disjE) (simp_all add: parse_fields_wf parameters_wf_intros)
qed

lemma parse_csi_parameters_wf: "parse_csi_parameters bs = Inr ps \<Longrightarrow> parameters_wf ps"
  by (cases bs) (auto simp: parse_csi_parameters_def Let_def parameters_wf_EMPTY
      elim!: parse_tail_wf split: if_splits)

section \<open>Well-formed events\<close>

fun functional_ok :: "functional_key \<Rightarrow> bool" where
  "functional_ok (FFunction n) = (1 \<le> n \<and> n \<le> 35)"
| "functional_ok (FKeypad (KpDigit d)) = (d \<le> 9)"
| "functional_ok k = True"

fun identity_ok :: "key_identity \<Rightarrow> bool" where
  "identity_ok (Unicode c) = is_scalar c"
| "identity_ok (Functional k) = functional_ok k"
| "identity_ok (UnknownFunctional v) = (0xe000 \<le> v \<and> v \<le> 0xf8ff)"
| "identity_ok Unidentified = True"

definition keypad_ok :: "raw_key_event \<Rightarrow> bool" where
  "keypad_ok e = (\<forall>k. keypad e = Some k \<longrightarrow>
     primary e = Functional (FKeypad k) \<or> (k = KpBegin \<and> primary e = Functional FBegin))"

definition key_ok :: "raw_key_event \<Rightarrow> bool" where
  "key_ok e \<longleftrightarrow> identity_ok (primary e) \<and> pred_option identity_ok (shifted e)
     \<and> pred_option identity_ok (base e) \<and> modifiers e < 64 \<and> keypad_ok e"

fun event_ok :: "input_event \<Rightarrow> bool" where
  "event_ok (Key e) = key_ok e"
| "event_ok (ProtocolResponse r) = True"
| "event_ok (Unknown u) = (us_parameter_bytes u \<le> 96)"
| "event_ok (Malformed m) = (mi_observed_bytes m \<le> 97)"

lemma named_functional_ok: "named_functional_identity v = Some (k, kp) \<Longrightarrow> functional_ok k \<and> kp = None"
  by (auto split: if_splits)

lemma function_key_ok: "function_key_identity v = Some (k, kp) \<Longrightarrow> functional_ok k \<and> kp = None"
proof -
  assume "function_key_identity v = Some (k, kp)"
  then have d: "1 \<le> v - 57363" "v - 57363 \<le> 35" and k: "k = FFunction (ucast (v - 57363))" "kp = None"
    by (auto simp: function_key_identity_def Let_def split: if_splits)
  have "unat (ucast (v - 57363) :: 8 word) = unat (v - 57363)"
    using d(2) by (simp add: unsigned_ucast_eq take_bit_nat_eq_self word_le_nat_alt del: unat_sub)
  then show ?thesis using d k by (simp add: word_le_nat_alt)
qed

lemma keypad_functional_ok:
  assumes "keypad_functional_identity v = Some (k, kp)"
  shows "functional_ok k \<and> (\<exists>q. kp = Some q \<and> k = FKeypad q)"
proof (cases "57399 \<le> v \<and> v \<le> 57408")
  case True
  then have v: "unat v - 57399 \<le> 9" "57399 \<le> unat v" by (auto simp: word_le_nat_alt)
  have "unat (v - 57399) = unat v - 57399" using True by (simp add: unat_sub)
  then have "unat (ucast (v - 57399) :: 8 word) \<le> 9"
    using v by (simp add: unsigned_ucast_eq take_bit_nat_eq_self)
  then show ?thesis
    using assms True by (auto simp: keypad_functional_identity_def word_le_nat_alt)
next
  case False
  then show ?thesis using assms by (simp add: keypad_functional_identity_def del: de_Morgan_conj) (auto split: if_splits)
qed

lemma media_functional_ok: "media_functional_identity v = Some (k, kp) \<Longrightarrow> functional_ok k \<and> kp = None"
  by (simp add: media_functional_identity_def split: if_split_asm) auto

lemma modifier_functional_ok: "modifier_functional_identity v = Some (k, kp) \<Longrightarrow> functional_ok k \<and> kp = None"
  by (simp add: modifier_functional_identity_def split: if_split_asm) auto

lemma or_else_Some: "or_else a b = Some x \<longleftrightarrow> a = Some x \<or> (a = None \<and> b = Some x)"
  by (cases a) auto

lemma functional_identity_ok:
  "functional_identity v = Some (k, kp) \<Longrightarrow>
     functional_ok k \<and> (\<forall>q. kp = Some q \<longrightarrow> k = FKeypad q)"
  unfolding functional_identity_def or_else_Some
  by (elim disjE conjE;
      (drule named_functional_ok | drule function_key_ok | drule keypad_functional_ok
       | drule media_functional_ok | drule modifier_functional_ok); elim conjE exE; simp)

lemma reported_identity_ok: "reported_identity v = Inr k \<Longrightarrow> identity_ok k"
  by (auto simp: reported_identity_def result_simps char_from_u32_def
      dest: functional_identity_ok split: if_splits option.splits)

lemma optional_alternate_ok: "optional_alternate_identity v = Inr m \<Longrightarrow> pred_option identity_ok m"
  by (cases v) (auto simp: result_simps reported_identity_ok)

lemma primary_identity_ok:
  assumes "primary_identity v = Inr (k, kp)"
  shows "identity_ok k \<and> (\<forall>q. kp = Some q \<longrightarrow> k = Functional (FKeypad q))"
proof -
  have r: "reported_identity v = Inr k" and kp: "kp = Option.bind (functional_identity v) snd"
    using assms by (auto simp: primary_identity_def result_simps)
  have z: "functional_identity 0 = None"
    by (simp add: functional_identity_def function_key_identity_def keypad_functional_identity_def
        media_functional_identity_def modifier_functional_identity_def)
  show ?thesis
  proof (cases "functional_identity v")
    case None
    then show ?thesis using reported_identity_ok [OF r] kp by simp
  next
    case (Some x)
    then have "v \<noteq> 0" using z by auto
    then show ?thesis
      using reported_identity_ok [OF r] r kp Some functional_identity_ok [of v "fst x" "snd x"]
      by (auto simp: reported_identity_def split: prod.splits)
  qed
qed

lemma tilde_identity_ok:
  "tilde_identity v = Some (k, kp) \<Longrightarrow>
     identity_ok k \<and> (\<forall>q. kp = Some q \<longrightarrow> q = KpBegin \<and> k = Functional FBegin)"
  by (simp add: tilde_identity_def split: if_split_asm) auto

lemma kitty_modifiers_ok: "kitty_modifiers v = Inr (m, l) \<Longrightarrow> m < 64"
proof -
  assume "kitty_modifiers v = Inr (m, l)"
  then have "m = ucast (v - 1) AND 0x3F"
    by (auto simp: kitty_modifiers_def result_simps split: if_splits)
  then have "unat m = unat (ucast (v - 1) :: 8 word) mod 64"
    by (simp only: unat_and_mask6)
  then show ?thesis by (simp add: word_less_nat_alt)
qed

lemma kitty_modifier_and_kind_ok: "kitty_modifier_and_kind q = Inr (m, l, k) \<Longrightarrow> m < 64"
  by (auto simp: kitty_modifier_and_kind_def Let_def result_simps split: if_splits dest: kitty_modifiers_ok)

lemma kitty_event_details_ok: "kitty_event_details ps = Inr (m, l, k) \<Longrightarrow> m < 64"
  by (auto simp: kitty_event_details_def no_modifiers_def MOD_NONE_def dest: kitty_modifier_and_kind_ok split: if_splits)

section \<open>A decoded sequence is well-formed\<close>

lemma saturating_le: "n \<le> 96 \<Longrightarrow> saturating_u8 n \<le> 96" "n \<le> 97 \<Longrightarrow> saturating_u8 n \<le> 97"
  by (simp_all add: saturating_u8_def word_le_nat_alt unsigned_of_nat take_bit_nat_eq_self)

lemma event_ok_malformed: "n \<le> 97 \<Longrightarrow> event_ok (malformed c r (saturating_u8 n))"
  by (simp add: malformed_def saturating_le)

lemma event_ok_unknown: "n \<le> 96 \<Longrightarrow> event_ok (unknown_csi f n)"
  by (simp add: unknown_csi_def saturating_le)

lemma event_ok_or_malformed:
  "n \<le> 97 \<Longrightarrow> (\<And>a. m = Inr a \<Longrightarrow> event_ok (f a)) \<Longrightarrow> event_ok (or_malformed n m f)"
  by (cases m) (simp_all add: event_ok_malformed)

lemma event_ok_or_unknown:
  "n \<le> 96 \<Longrightarrow> (\<And>a. m = Inr a \<Longrightarrow> event_ok (f a)) \<Longrightarrow> event_ok (or_unknown b n m f)"
  by (cases m) (simp_all add: event_ok_malformed event_ok_unknown)

lemma key_ok_plain: "functional_ok k \<Longrightarrow> key_ok (plain (Functional k))"
  by (simp add: key_ok_def plain_def keypad_ok_def MOD_NONE_def)

lemma key_ok_begin: "key_ok begin_event"
  by (simp add: key_ok_def begin_event_def keypad_ok_def MOD_NONE_def)

lemma key_ok_update:
  "key_ok e \<Longrightarrow> m < 64 \<Longrightarrow> key_ok (e\<lparr>modifiers := m, locks := l, kind := k\<rparr>)"
  by (simp add: key_ok_def keypad_ok_def)

lemma no_modifiers_ok: "no_modifiers = (m, l, k) \<Longrightarrow> m < 64"
  by (auto simp: no_modifiers_def MOD_NONE_def)

lemma decode_kitty_ok: "n \<le> 96 \<Longrightarrow> event_ok (decode_kitty ps f n)"
  by (auto simp: decode_kitty_def Let_def event_ok_unknown event_ok_malformed key_ok_def keypad_ok_def
      dest!: kitty_event_details_ok primary_identity_ok optional_alternate_ok
      intro!: event_ok_or_malformed split: prod.splits if_splits)

lemma decode_tilde_ok: "n \<le> 96 \<Longrightarrow> event_ok (decode_tilde ps f n)"
  by (auto simp: decode_tilde_def event_ok_unknown key_ok_def keypad_ok_def
      dest!: kitty_modifier_and_kind_ok no_modifiers_ok tilde_identity_ok
      intro!: event_ok_or_unknown split: option.splits prod.splits if_splits)

lemma decode_direct_event_ok: "n \<le> 96 \<Longrightarrow> key_ok e \<Longrightarrow> event_ok (decode_direct_event ps e f n)"
  by (auto simp: decode_direct_event_def Let_def event_ok_unknown key_ok_update
      dest!: kitty_modifier_and_kind_ok no_modifiers_ok
      intro!: event_ok_or_unknown split: prod.splits)

lemma decode_shift_tab_ok: "n \<le> 96 \<Longrightarrow> event_ok (decode_shift_tab ps f n)"
  by (auto simp: decode_shift_tab_def Let_def event_ok_unknown key_ok_update key_ok_plain
      dest!: kitty_modifier_and_kind_ok
      intro!: event_ok_or_unknown split: prod.splits)
    (auto simp: key_ok_def plain_def keypad_ok_def MOD_SHIFT_def)

lemma decode_final_ok: "n \<le> 96 \<Longrightarrow> event_ok (decode_final ps f n)"
  by (auto simp: decode_final_def decode_kitty_ok decode_tilde_ok decode_shift_tab_ok
      decode_direct_def event_ok_unknown intro!: decode_direct_event_ok key_ok_plain key_ok_begin)

lemma decode_csi_ok: "length bs \<le> 96 \<Longrightarrow> event_ok (decode_csi bs f)"
  by (auto simp: decode_csi_def event_ok_malformed event_ok_unknown decode_final_ok
      split: sum.splits option.splits)

section \<open>The parser invariant\<close>

definition pending_ok :: "utf8_pending \<Rightarrow> bool" where
  "pending_ok q \<longleftrightarrow> length (up_bytes q) = 4 \<and> 1 \<le> up_len q \<and> up_len q < up_expected q
     \<and> up_expected q \<le> 4 \<and> up_modifiers q < 64"

definition parser_inv :: "parser \<Rightarrow> bool" where
  "parser_inv p \<longleftrightarrow> length (csi p) = MAX_CSI_SEQUENCE_BYTES \<and> csi_len p \<le> MAX_CSI_SEQUENCE_BYTES
     \<and> (\<forall>q. state p = StUtf8 q \<longrightarrow> pending_ok q)"

definition step_ok :: "parser \<times> input_event list \<Rightarrow> bool" where
  "step_ok r \<longleftrightarrow> parser_inv (fst r) \<and> list_all event_ok (snd r)"

lemma parser_inv_ground: "parser_inv p \<Longrightarrow> parser_inv (p\<lparr>state := StGround\<rparr>)"
  by (simp add: parser_inv_def)

lemma event_ok_keys:
  "functional_ok k \<Longrightarrow> event_ok (key_event k)"
  "functional_ok k \<Longrightarrow> event_ok (alt_event (Functional k))"
  "b < 0x80 \<Longrightarrow> key_ok (plain (Unicode (ucast (b :: u8))))"
  "b < 0x80 \<Longrightarrow> event_ok (alt_event (Unicode (ucast b)))"
  "is_scalar v \<Longrightarrow> m < 64 \<Longrightarrow> key_ok (with_modifiers (Unicode v) m)"
proof -
  have "b < 0x80 \<Longrightarrow> is_scalar (ucast b)"
    by (simp add: is_scalar_def word_less_nat_alt unsigned_ucast_eq take_bit_nat_eq_self)
  then show "b < 0x80 \<Longrightarrow> key_ok (plain (Unicode (ucast b)))"
    "b < 0x80 \<Longrightarrow> event_ok (alt_event (Unicode (ucast b)))"
    by (simp_all add: plain_def key_ok_def alt_event_def with_modifiers_def MOD_NONE_def MOD_ALT_def keypad_ok_def)
qed (simp_all add: key_event_def plain_def key_ok_def alt_event_def with_modifiers_def keypad_ok_def
      MOD_NONE_def MOD_ALT_def)

lemma malformed_small: "n \<le> 97 \<Longrightarrow> event_ok (malformed c r n)"
  by (simp add: malformed_def)

lemma begin_utf8_ok: "parser_inv p \<Longrightarrow> m < 64 \<Longrightarrow> step_ok (begin_utf8 b m p)"
  by (auto simp: begin_utf8_def Let_def step_ok_def parser_inv_def pending_ok_def malformed_small)

lemma consume_ground_ok: "parser_inv p \<Longrightarrow> step_ok (consume_ground b p)"
  unfolding consume_ground_def
  by (auto intro!: begin_utf8_ok simp: MOD_NONE_def) (auto simp: step_ok_def parser_inv_def event_ok_keys)

lemma consume_after_escape_ok: "parser_inv p \<Longrightarrow> step_ok (consume_after_escape b p)"
  unfolding consume_after_escape_def
  by (auto intro!: begin_utf8_ok simp: MOD_ALT_def) (auto simp: step_ok_def parser_inv_def event_ok_keys)

lemma consume_utf8_ok: "parser_inv p \<Longrightarrow> pending_ok q \<Longrightarrow> step_ok (consume_utf8 b q p)"
  by (auto simp: consume_utf8_def Let_def step_ok_def parser_inv_def pending_ok_def event_ok_keys
      intro!: malformed_small simp: word_le_nat_alt unsigned_of_nat take_bit_nat_eq_self)

lemma reset_ok: "parser_inv p \<Longrightarrow> parser_inv (reset p)"
  by (simp add: reset_def parser_inv_def)

lemma consume_csi_ok: "parser_inv p \<Longrightarrow> step_ok (consume_csi b p)"
  by (auto simp: consume_csi_def step_ok_def reset_def parser_inv_def csi_limits
      intro!: event_ok_malformed decode_csi_ok)

lemma consume_ss3_ok: "parser_inv p \<Longrightarrow> step_ok (consume_ss3 b p)"
  by (auto simp: consume_ss3_def step_ok_def parser_inv_def malformed_small ss3_key_def event_ok_keys
      split: option.splits if_splits)
 
lemma step_byte_ok:
  assumes "parser_inv p"
  shows "step_ok (step_byte p b)"
proof (cases "state p")
  case (StUtf8 q)
  then have q: "pending_ok q" using assms by (simp add: parser_inv_def)
  then have "event_ok (malformed SeqUtf8 InvalidUtf8 (of_nat (up_len q)))"
    by (auto intro!: malformed_small simp: pending_ok_def word_le_nat_alt unsigned_of_nat take_bit_nat_eq_self)
  then show ?thesis
    using StUtf8 q assms consume_ground_ok [OF parser_inv_ground [OF assms], of b]
    by (auto simp: step_byte_def consume_utf8_ok step_ok_def [of "emit_then _ _"])
      (auto simp: step_ok_def)
qed (use assms in \<open>auto simp: step_byte_def consume_other_def consume_ground_ok consume_after_escape_ok
      consume_csi_ok consume_ss3_ok, auto simp: step_ok_def parser_inv_ground\<close>)

interpretation terminal: event_machine step_byte parser_inv event_ok
  using step_byte_ok by unfold_locales (simp_all add: step_ok_def)

lemma new_parser_inv: "parser_inv new_parser"
  by (simp add: new_parser_def parser_inv_def)

end
