(* ===== verification/Terminal_Utf8.thy ===== *)
theory Terminal_Utf8
  imports Terminal_Facts
begin

text \<open>
  The parser on encoded text: the bytes the standard encoder produces for a scalar value, and the
  run of the parser over them.
\<close>

section \<open>Bytes of an encoded scalar value\<close>

lemma unat_utf8_shift:
  assumes "unat v < 2 ^ 26"
  shows "unat (utf8_shift v b) = unat v * 64 + unat b mod 64"
proof -
  have ub: "unat (ucast (b AND 0x3F) :: 32 word) = unat b mod 64"
    by (simp add: unsigned_ucast_eq unat_and_mask6 take_bit_nat_eq_self)
  have p: "push_bit 6 v = v * 64" by (simp add: push_bit_eq_mult)
  have "push_bit 6 v OR ucast (b AND 0x3F) = ucast (b AND 0x3F) OR push_bit 6 v"
    by (rule or.commute)
  also have "\<dots> = ucast (b AND 0x3F) + push_bit 6 v"
    by (rule or_push_bit, rule take_bit_small) (simp_all add: word_less_nat_alt ub)
  finally have "unat (utf8_shift v b) = (unat b mod 64 + unat (push_bit 6 v)) mod 2 ^ 32"
    by (simp add: utf8_shift_def unat_word_ariths ub)
  also have "unat (push_bit 6 v) = unat v * 64"
    using assms by (simp add: p unat_word_ariths)
  finally show ?thesis using assms by simp
qed

lemma take_push_disjoint: "k \<le> j \<Longrightarrow> take_bit k x AND push_bit j (y :: 'a::len word) = 0"
  by (auto simp: bit_eq_iff bit_simps)

lemma is_continuation_utf8_cont: "is_continuation (utf8_cont v)"
proof -
  let ?x = "ucast (v AND 0x3F) :: 8 word"
  have "unat (v AND 0x3F) < 64" by (simp only: unat_and_mask6)
  then have "?x < 2 ^ 6" by (simp add: word_less_nat_alt unat_ucast_small del: and_mask6)
  then have x: "take_bit 6 ?x = ?x" by (intro take_bit_small) simp_all
  then have "?x AND 0xC0 = 0" using take_push_disjoint [of 6 6 ?x 3] by simp
  then show ?thesis by (simp add: is_continuation_def utf8_cont_def bit.conj_disj_distrib2)
qed

lemma unat_mask_bits:
  "unat (ucast (b AND 0b00011111 :: u8) :: u32) = unat b mod 32"
  "unat (ucast (b AND 0b00001111 :: u8) :: u32) = unat b mod 16"
  "unat (ucast (b AND 0b00000111 :: u8) :: u32) = unat b mod 8"
proof -
  have "b AND 0b00011111 = take_bit 5 b" "b AND 0b00001111 = take_bit 4 b" "b AND 0b00000111 = take_bit 3 b"
    by (simp_all add: take_bit_eq_mask mask_eq_exp_minus_1)
  then show 
  "unat (ucast (b AND 0b00011111 :: u8) :: u32) = unat b mod 32"
  "unat (ucast (b AND 0b00001111 :: u8) :: u32) = unat b mod 16"
  "unat (ucast (b AND 0b00000111 :: u8) :: u32) = unat b mod 8"
   by (simp_all only: unsigned_ucast_eq unsigned_take_bit_eq) (simp_all add: take_bit_eq_mod mod_mod_cancel)
qed

lemma unat_drop_bit: "unat (drop_bit k (c :: u32)) = unat c div 2 ^ k"
  by (rule trans [OF unat_drop_bit_eq drop_bit_eq_div])

lemma unat_drop_bit_ucast:
  "unat c div 2 ^ k < 256 \<Longrightarrow> unat (ucast (drop_bit k (c :: u32)) :: u8) = unat c div 2 ^ k"
  by (metis unat_drop_bit unat_ucast_small)

lemma unat_utf8_cont_drop: "unat (utf8_cont (drop_bit k c)) = 128 + unat c div 2 ^ k mod 64"
  by (simp only: unat_utf8_cont unat_drop_bit)

lemma utf8_lead:
  "0x80 \<le> c \<Longrightarrow> c < 0x800 \<Longrightarrow> unat (ucast (drop_bit 6 c) OR 0xC0 :: u8) = 192 + unat c div 64"
  "0x800 \<le> c \<Longrightarrow> c < 0x10000 \<Longrightarrow> unat (ucast (drop_bit 12 c) OR 0xE0 :: u8) = 224 + unat c div 4096"
  "0x10000 \<le> c \<Longrightarrow> c < 0x110000 \<Longrightarrow> unat (ucast (drop_bit 18 c) OR 0xF0 :: u8) = 240 + unat c div 262144"
  for c :: u32
proof -
  show "0x80 \<le> c \<Longrightarrow> c < 0x800 \<Longrightarrow> unat (ucast (drop_bit 6 c) OR 0xC0 :: u8) = 192 + unat c div 64"
    using unat_drop_bit_ucast [of c 6] by (subst or_0xC0) (simp_all add: word_less_nat_alt word_le_nat_alt)
  show "0x800 \<le> c \<Longrightarrow> c < 0x10000 \<Longrightarrow> unat (ucast (drop_bit 12 c) OR 0xE0 :: u8) = 224 + unat c div 4096"
    using unat_drop_bit_ucast [of c 12] by (subst or_0xE0) (simp_all add: word_less_nat_alt word_le_nat_alt)
  show "0x10000 \<le> c \<Longrightarrow> c < 0x110000 \<Longrightarrow> unat (ucast (drop_bit 18 c) OR 0xF0 :: u8) = 240 + unat c div 262144"
    using unat_drop_bit_ucast [of c 18] by (subst or_0xF0) (simp_all add: word_less_nat_alt word_le_nat_alt)
qed


definition pending_first :: "u8 \<Rightarrow> nat \<Rightarrow> modifiers \<Rightarrow> utf8_pending" where
  "pending_first b n m = \<lparr>up_bytes = [b, 0, 0, 0], up_len = 1, up_expected = n, up_modifiers = m\<rparr>"

lemma begin_utf8_lead:
  "unat b = 192 + k \<Longrightarrow> 2 \<le> k \<Longrightarrow> k < 32 \<Longrightarrow> begin_utf8 b m p = (p\<lparr>state := StUtf8 (pending_first b 2 m)\<rparr>, [])"
  "unat b = 224 + k \<Longrightarrow> k < 16 \<Longrightarrow> begin_utf8 b m p = (p\<lparr>state := StUtf8 (pending_first b 3 m)\<rparr>, [])"
  "unat b = 240 + k \<Longrightarrow> k < 5 \<Longrightarrow> begin_utf8 b m p = (p\<lparr>state := StUtf8 (pending_first b 4 m)\<rparr>, [])"
  by (simp_all add: begin_utf8_def Let_def pending_first_def word_le_nat_alt)

lemma push_utf8_state:
  "state p = StUtf8 q \<Longrightarrow> is_continuation b \<Longrightarrow>
     push p (b # bs) = emit_then (snd (consume_utf8 b q p)) (push (fst (consume_utf8 b q p)) bs)"
  by (simp add: push_Cons step_byte_def del: push.simps)

lemma unat_utf8_value:
  "unat (utf8_value \<lparr>up_bytes = [a, b, x, y], up_len = n, up_expected = 2, up_modifiers = m\<rparr>)
     = unat a mod 32 * 64 + unat b mod 64"
  "unat (utf8_value \<lparr>up_bytes = [a, b, c, y], up_len = n, up_expected = 3, up_modifiers = m\<rparr>)
     = (unat a mod 16 * 64 + unat b mod 64) * 64 + unat c mod 64"
  "unat (utf8_value \<lparr>up_bytes = [a, b, c, d], up_len = n, up_expected = 4, up_modifiers = m\<rparr>)
     = ((unat a mod 8 * 64 + unat b mod 64) * 64 + unat c mod 64) * 64 + unat d mod 64"
  by (simp_all add: utf8_value_def utf8_initial_mask_def unat_mask_bits unat_utf8_shift
     del: mult.commute)

lemma emit_then_Nil [simp]: "emit_then [] r = r"
  by (simp add: emit_then_def)

lemma utf8_step_last:
  assumes "is_continuation b" and "up_len q + 1 = up_expected q"
    and "unat (utf8_value (q\<lparr>up_bytes := (up_bytes q)[up_len q := b], up_len := up_len q + 1\<rparr>)) = unat c"
    and "is_scalar c" and "\<not> is_overlong_utf8 c (up_expected q)"
  shows "push (p\<lparr>state := StUtf8 q\<rparr>) (b # bs)
    = emit_then [Key (with_modifiers (Unicode c) (up_modifiers q))] (push (p\<lparr>state := StGround\<rparr>) bs)"
proof -
  have "utf8_value (q\<lparr>up_bytes := (up_bytes q)[up_len q := b], up_len := up_expected q\<rparr>) = c"
    using assms(2,3) by (simp add: word_unat_eq_iff)
  then have "consume_utf8 b q (p\<lparr>state := StUtf8 q\<rparr>)
      = (p\<lparr>state := StGround\<rparr>, [Key (with_modifiers (Unicode c) (up_modifiers q))])"
    using assms(2,4,5) by (simp add: consume_utf8_def)
  then show ?thesis
    using push_utf8_state [of "p\<lparr>state := StUtf8 q\<rparr>" q b bs] assms(1) by simp
qed

lemma utf8_step_more:
  assumes "is_continuation b" and "up_len q + 1 \<noteq> up_expected q"
  shows "push (p\<lparr>state := StUtf8 q\<rparr>) (b # bs)
    = push (p\<lparr>state := StUtf8 (q\<lparr>up_bytes := (up_bytes q)[up_len q := b], up_len := up_len q + 1\<rparr>)\<rparr>) bs"
proof -
  have "consume_utf8 b q (p\<lparr>state := StUtf8 q\<rparr>)
    = (p\<lparr>state := StUtf8 (q\<lparr>up_bytes := (up_bytes q)[up_len q := b], up_len := up_len q + 1\<rparr>)\<rparr>, [])"
    using assms(2) by (simp add: consume_utf8_def)
  then show ?thesis
    using push_utf8_state [of "p\<lparr>state := StUtf8 q\<rparr>" q b bs] assms(1) by simp
qed

text \<open>The six-bit digits of a code point, with the tags of the encoded bytes.\<close>

lemma utf8_digits:
  fixes x :: nat
  shows "x < 2048 \<Longrightarrow> (192 + x div 64) mod 32 * 64 + (128 + x mod 64) mod 64 = x"
    and "x < 65536 \<Longrightarrow>
      ((224 + x div 4096) mod 16 * 64 + (128 + x div 64 mod 64) mod 64) * 64 + (128 + x mod 64) mod 64 = x"
    and "x < 2097152 \<Longrightarrow>
      (((240 + x div 262144) mod 8 * 64 + (128 + x div 4096 mod 64) mod 64) * 64
         + (128 + x div 64 mod 64) mod 64) * 64 + (128 + x mod 64) mod 64 = x"
proof -
  have t: "(128 + y mod 64) mod 64 = y mod 64" "(192 + y) mod 32 = y mod 32"
    "(224 + y) mod 16 = y mod 16" "(240 + y) mod 8 = y mod 8" for y :: nat
    using mod_add_left_eq [of 128 64 "y mod 64"] mod_add_left_eq [of 192 32 y]
      mod_add_left_eq [of 224 16 y] mod_add_left_eq [of 240 8 y] by simp_all
  have d: "x div 4096 = x div 64 div 64" "x div 262144 = x div 64 div 64 div 64"
    by (simp_all add: div_mult2_eq [symmetric])
  show "x < 2048 \<Longrightarrow> (192 + x div 64) mod 32 * 64 + (128 + x mod 64) mod 64 = x"
    unfolding t by simp
  show "x < 65536 \<Longrightarrow>
      ((224 + x div 4096) mod 16 * 64 + (128 + x div 64 mod 64) mod 64) * 64 + (128 + x mod 64) mod 64 = x"
    unfolding t d by simp
  show "x < 2097152 \<Longrightarrow>
      (((240 + x div 262144) mod 8 * 64 + (128 + x div 4096 mod 64) mod 64) * 64
         + (128 + x div 64 mod 64) mod 64) * 64 + (128 + x mod 64) mod 64 = x"
    unfolding t d by simp
qed

definition utf8_runs :: "u8 list \<Rightarrow> modifiers \<Rightarrow> scalar \<Rightarrow> bool" where
  "utf8_runs bs m c \<longleftrightarrow> (\<exists>b conts. bs = b # conts \<and> 0x80 \<le> b \<and> (\<forall>p rest. snd (begin_utf8 b m p) = []
     \<and> push (fst (begin_utf8 b m p)) (conts @ rest)
         = emit_then [Key (with_modifiers (Unicode c) m)] (push (p\<lparr>state := StGround\<rparr>) rest)))"


lemma utf8_runsI:
  assumes "\<And>p. begin_utf8 b m p = (p\<lparr>state := StUtf8 q\<rparr>, [])" and "0x80 \<le> b"
    and "\<And>p rest. push (p\<lparr>state := StUtf8 q\<rparr>) (conts @ rest)
      = emit_then [Key (with_modifiers (Unicode c) m)] (push (p\<lparr>state := StGround\<rparr>) rest)"
  shows "utf8_runs (b # conts) m c"
  unfolding utf8_runs_def using assms by simp

lemmas utf8_steps = pending_first_def unat_utf8_value is_overlong_utf8_def word_less_nat_alt

lemma utf8_runs2:
  assumes a: "unat a = 192 + unat c div 64" and b: "unat b = 128 + unat c mod 64"
    and cont: "is_continuation b" and v: "128 \<le> unat c" "unat c < 2048"
  shows "utf8_runs [a, b] m c"
proof (rule utf8_runsI)
  show "begin_utf8 a m p = (p\<lparr>state := StUtf8 (pending_first a 2 m)\<rparr>, [])" for p
    using v by (intro begin_utf8_lead(1) [OF a]) simp_all
  show "0x80 \<le> a" by (simp add: word_le_nat_alt a)
  have "is_scalar c" using v by (simp add: is_scalar_def word_less_nat_alt)
  then show "push (p\<lparr>state := StUtf8 (pending_first a 2 m)\<rparr>) ([b] @ rest)
      = emit_then [Key (with_modifiers (Unicode c) m)] (push (p\<lparr>state := StGround\<rparr>) rest)" for p rest
    using v utf8_digits(1) [OF v(2)] utf8_step_last [of b "pending_first a 2 m" c p rest]
    by (simp add: utf8_steps cont a b del: push.simps)
qed

lemma utf8_push_more:
  assumes "is_continuation b" and "n + 1 \<noteq> k"
  shows "push (p\<lparr>state := StUtf8 \<lparr>up_bytes = bs, up_len = n, up_expected = k, up_modifiers = m\<rparr>\<rparr>) (b # rest)
    = push (p\<lparr>state := StUtf8 \<lparr>up_bytes = bs[n := b], up_len = n + 1, up_expected = k, up_modifiers = m\<rparr>\<rparr>) rest"
  using utf8_step_more [OF assms(1), of "\<lparr>up_bytes = bs, up_len = n, up_expected = k, up_modifiers = m\<rparr>"] assms(2)
  by (simp del: push.simps)

lemma utf8_runs3:
  assumes a: "unat a = 224 + unat c div 4096" and b: "unat b = 128 + unat c div 64 mod 64"
    and d: "unat d = 128 + unat c mod 64"
    and cont: "is_continuation b" "is_continuation d"
    and v: "2048 \<le> unat c" "unat c < 65536" and sc: "is_scalar c"
  shows "utf8_runs [a, b, d] m c"
proof (rule utf8_runsI)
  let ?q = "\<lparr>up_bytes = [a, b, 0, 0], up_len = 2, up_expected = 3, up_modifiers = m\<rparr>"
  show "begin_utf8 a m p = (p\<lparr>state := StUtf8 (pending_first a 3 m)\<rparr>, [])" for p
    using v by (intro begin_utf8_lead(2) [OF a]) simp_all
  show "0x80 \<le> a" by (simp add: word_le_nat_alt a)
  show "push (p\<lparr>state := StUtf8 (pending_first a 3 m)\<rparr>) ([b, d] @ rest)
      = emit_then [Key (with_modifiers (Unicode c) m)] (push (p\<lparr>state := StGround\<rparr>) rest)" for p rest
  proof -
    have "push (p\<lparr>state := StUtf8 (pending_first a 3 m)\<rparr>) ([b, d] @ rest)
        = push (p\<lparr>state := StUtf8 ?q\<rparr>) (d # rest)"
      by (simp add: pending_first_def utf8_push_more cont(1) numeral_2_eq_2 del: push.simps)
    also have "\<dots> = emit_then [Key (with_modifiers (Unicode c) m)] (push (p\<lparr>state := StGround\<rparr>) rest)"
      using v utf8_digits(2) [OF v(2)] utf8_step_last [of d ?q c p rest]
      by (simp add: utf8_steps cont a b d sc del: push.simps)
    finally show ?thesis .
  qed
qed

lemma utf8_runs4:
  assumes a: "unat a = 240 + unat c div 262144" and b: "unat b = 128 + unat c div 4096 mod 64"
    and d: "unat d = 128 + unat c div 64 mod 64" and e: "unat e = 128 + unat c mod 64"
    and cont: "is_continuation b" "is_continuation d" "is_continuation e"
    and v: "65536 \<le> unat c" "unat c < 1114112"
  shows "utf8_runs [a, b, d, e] m c"
proof (rule utf8_runsI)
  let ?q = "\<lparr>up_bytes = [a, b, d, 0], up_len = 3, up_expected = 4, up_modifiers = m\<rparr>"
  have v': "unat c < 2097152" using v by simp
  have sc: "is_scalar c" using v by (simp add: is_scalar_def word_less_nat_alt word_le_nat_alt)
  show "begin_utf8 a m p = (p\<lparr>state := StUtf8 (pending_first a 4 m)\<rparr>, [])" for p
    using v by (intro begin_utf8_lead(3) [OF a]) simp_all
  show "0x80 \<le> a" by (simp add: word_le_nat_alt a)
  show "push (p\<lparr>state := StUtf8 (pending_first a 4 m)\<rparr>) ([b, d, e] @ rest)
      = emit_then [Key (with_modifiers (Unicode c) m)] (push (p\<lparr>state := StGround\<rparr>) rest)" for p rest
  proof -
    have "push (p\<lparr>state := StUtf8 (pending_first a 4 m)\<rparr>) ([b, d, e] @ rest)
        = push (p\<lparr>state := StUtf8 ?q\<rparr>) (e # rest)"
      by (simp add: pending_first_def utf8_push_more cont(1) cont(2)
          numeral_3_eq_3 del: push.simps)
    also have "\<dots> = emit_then [Key (with_modifiers (Unicode c) m)] (push (p\<lparr>state := StGround\<rparr>) rest)"
      using v utf8_digits(3) [OF v'] utf8_step_last [of e ?q c p rest]
      by (simp add: utf8_steps cont a b d e sc del: push.simps)
    finally show ?thesis .
  qed
qed

lemma encode_utf8_runs:
  assumes "is_scalar c" and "0x80 \<le> c"
  shows "utf8_runs (encode_utf8 c) m c"
proof -
  have u: "128 \<le> unat c" "unat c < 1114112"
    using assms by (auto simp: is_scalar_def word_less_nat_alt word_le_nat_alt)
  consider "c < 0x800" | "0x800 \<le> c" "c < 0x10000" | "0x10000 \<le> c"
    by (meson not_le)
  then show ?thesis
  proof cases
    case 1
    then show ?thesis
      using assms u utf8_runs2 [of "ucast (drop_bit 6 c) OR 0xC0" c "utf8_cont c" m]
      by (simp add: encode_utf8_def utf8_lead(1) [OF assms(2) 1] unat_utf8_cont
          is_continuation_utf8_cont word_less_nat_alt word_le_nat_alt del: drop_bit_eq_div)
  next
    case 2
    then show ?thesis
      using assms u utf8_lead(2) [OF 2] unat_utf8_cont_drop [of 6 c]
        utf8_runs3 [of "ucast (drop_bit 12 c) OR 0xE0" c "utf8_cont (drop_bit 6 c)" "utf8_cont c" m]
      by (simp add: encode_utf8_def unat_utf8_cont
          is_continuation_utf8_cont word_less_nat_alt word_le_nat_alt)
  next
    case 3
    have 4: "c < 0x110000" using u by (simp add: word_less_nat_alt)
    then show ?thesis
      using 3 u utf8_lead(3) [OF 3 4] unat_utf8_cont_drop [of 6 c] unat_utf8_cont_drop [of 12 c]
        utf8_runs4 [of "ucast (drop_bit 18 c) OR 0xF0" c "utf8_cont (drop_bit 12 c)"
          "utf8_cont (drop_bit 6 c)" "utf8_cont c" m]
      by (simp add: encode_utf8_def unat_utf8_cont
          is_continuation_utf8_cont word_less_nat_alt word_le_nat_alt)
  qed
qed
end
