(* ===== verification/Terminal_Kitty.thy ===== *)
theory Terminal_Kitty
  imports Terminal_Utf8
begin

text \<open>
  Numbers inside a CSI sequence, and the Kitty keyboard form written by a terminal: an encoder for
  \<open>code ; modifiers : kind u\<close> and the decoding of what it writes.
\<close>


section \<open>Decimal digits\<close>

fun digits :: "nat \<Rightarrow> u8 list" where
  "digits n = (if n < 10 then [0x30 + of_nat n] else digits (n div 10) @ [0x30 + of_nat (n mod 10)])"

declare digits.simps [simp del]

definition digit_value :: "u8 \<Rightarrow> nat" where
  "digit_value b = unat b - 48"

definition decimal :: "nat \<Rightarrow> u8 list \<Rightarrow> nat" where
  "decimal = foldl (\<lambda>a b. 10 * a + digit_value b)"

lemma decimal_simps [simp]:
  "decimal a [] = a" "decimal a (b # bs) = decimal (10 * a + digit_value b) bs"
  "decimal a (bs @ cs) = decimal (decimal a bs) cs"
  by (simp_all add: decimal_def)

lemma decimal_mono: "a \<le> decimal a bs"
proof (induction bs arbitrary: a)
  case (Cons b bs)
  have "a \<le> 10 * a + digit_value b" by simp
  also have "\<dots> \<le> decimal (10 * a + digit_value b) bs" by (rule Cons.IH)
  finally show ?case by simp
qed simp

lemma unat_digit: "n < 10 \<Longrightarrow> unat (0x30 + of_nat n :: u8) = 48 + n"
  by (simp add: unat_word_ariths unsigned_of_nat take_bit_nat_eq_self)

lemma digits_wf: "list_all is_digit (digits n) \<and> digits n \<noteq> [] \<and> decimal 0 (digits n) = n"
proof (induction n rule: digits.induct)
  case (1 n)
  then show ?case
    by (cases "n < 10") (auto simp: digits.simps [of n] is_digit_def digit_value_def word_le_nat_alt unat_digit)
qed

lemma length_digits: "n < 10 ^ k \<Longrightarrow> 0 < k \<Longrightarrow> length (digits n) \<le> k"
proof (induction k arbitrary: n)
  case (Suc k)
  then show ?case
    by (cases "n < 10"; cases k) (auto simp: digits.simps [of n])
qed simp

lemma is_digit_value: "is_digit b \<Longrightarrow> digit_value b \<le> 9 \<and> unat (ucast (b - 0x30) :: u32) = digit_value b"
proof -
  assume d: "is_digit b"
  then have u: "48 \<le> unat b" "unat b \<le> 57" by (auto simp: is_digit_def word_le_nat_alt)
  have s: "unat (b - 0x30) = unat b - 48" using d by (simp add: is_digit_def unat_sub)
  have "unat (b - 0x30) < 2 ^ 32" using u s by simp
  then have "unat (ucast (b - 0x30) :: u32) = unat b - 48"
    by (simp add: unsigned_ucast_eq s take_bit_nat_eq_self)
  then show ?thesis using u by (simp add: digit_value_def)
qed

lemma push_digit_exact:
  assumes "is_digit b" and that: "a < 2 ^ 32"
  shows "push_digit (of_nat a) b =
     (if 10 * a + digit_value b < 2 ^ 32 then Inr (of_nat (10 * a + digit_value b)) else Inl NumericOverflow)"
proof -
  have a: "unat (of_nat a :: u32) = a" using that by (simp add: unsigned_of_nat take_bit_nat_eq_self)
  note d = is_digit_value [OF assms(1)]
  have m: "10 * a < 2 ^ 32 \<Longrightarrow> unat (of_nat a * 10 :: u32) = 10 * a"
    by (simp add: unat_word_ariths a)
  have e: "ucast (b - 0x30) = (of_nat (digit_value b) :: u32)"
    by (metis d of_nat_unat ucast_id)
  have t: "unat (10 :: u32) = 10" by simp
  show ?thesis
  proof (cases "10 * a < 2 ^ 32")
    case True
    then have c: "checked_mul_u32 (of_nat a) 10 = Some (of_nat a * 10)"
      unfolding checked_mul_u32_def a t by simp
    have "checked_add_u32 (of_nat a * 10) (of_nat (digit_value b))
        = (if 10 * a + digit_value b < 2 ^ 32 then Some (of_nat a * 10 + of_nat (digit_value b)) else None)"
      unfolding checked_add_u32_def using m [OF True] d e by simp
    then show ?thesis by (simp add: push_digit_def c e mult.commute add.commute)
  next
    case False
    then have "checked_mul_u32 (of_nat a) 10 = None"
      unfolding checked_mul_u32_def a t by simp
    then show ?thesis using False by (simp add: push_digit_def)
  qed
qed

section \<open>Digits of one component\<close>

definition component :: "nat \<Rightarrow> nat \<Rightarrow> csi_parameters \<Rightarrow> u32 option" where
  "component pi ci ps = cp_values (ps_values ps ! pi) ! ci"

lemma component_set: "parameters_wf ps \<Longrightarrow> pi < 3 \<Longrightarrow> ci < 16 \<Longrightarrow> component pi ci (set_component pi ci v ps) = Some v"
  by (simp add: component_def set_component_def parameters_wf_def parameter_wf_def)

lemma set_component_twice: "parameters_wf ps \<Longrightarrow> pi < 3 \<Longrightarrow> ci < 16 \<Longrightarrow>
   set_component pi ci w (set_component pi ci v ps) = set_component pi ci w ps"
  by (simp add: set_component_def parameters_wf_def)

lemma parse_fields_digits_from:
  "list_all is_digit ds \<Longrightarrow> parameters_wf ps \<Longrightarrow> pi < 3 \<Longrightarrow> ci < 16 \<Longrightarrow>
   component pi ci ps = Some (of_nat a) \<Longrightarrow> a < 2 ^ 32 \<Longrightarrow>
   parse_fields (ds @ rest) pi ci ps =
     (if decimal a ds < 2 ^ 32 then parse_fields rest pi ci (set_component pi ci (of_nat (decimal a ds)) ps)
      else Inl NumericOverflow)"
proof (induction ds arbitrary: a ps)
  case Nil
  then have "(cp_values (ps_values ps ! pi))[ci := Some (of_nat a)] = cp_values (ps_values ps ! pi)"
    unfolding component_def by (metis list_update_id)
  then have "set_component pi ci (of_nat a) ps = ps"
    by (simp add: set_component_def)
  then show ?case using Nil by simp
next
  case (Cons b ds)
  let ?v = "10 * a + digit_value b"
  have p: "push_digit (of_nat a) b = (if ?v < 2 ^ 32 then Inr (of_nat ?v) else Inl NumericOverflow)"
    using Cons.prems by (intro push_digit_exact) simp_all
  show ?case
  proof (cases "?v < 2 ^ 32")
    case True
    then have "parse_fields ((b # ds) @ rest) pi ci ps
        = parse_fields (ds @ rest) pi ci (set_component pi ci (of_nat ?v) ps)"
      using Cons.prems p by (simp add: component_def)
    also have "\<dots> = (if decimal ?v ds < 2 ^ 32
        then parse_fields rest pi ci (set_component pi ci (of_nat (decimal ?v ds)) ps)
        else Inl NumericOverflow)"
      using Cons.prems True
      by (subst Cons.IH [of "set_component pi ci (of_nat ?v) ps" ?v])
        (simp_all only: parameters_wf_set_component component_set set_component_twice list.pred_inject)
    finally show ?thesis by simp
  next
    case False
    then have "\<not> decimal ?v ds < 2 ^ 32" using decimal_mono [of ?v ds] by linarith
    moreover have "parse_fields ((b # ds) @ rest) pi ci ps = Inl NumericOverflow"
      using Cons.prems p False by (simp add: component_def)
    ultimately show ?thesis by simp
  qed
qed

lemma parse_fields_digits:
  assumes "list_all is_digit ds" "ds \<noteq> []" "parameters_wf ps" "pi < 3" "ci < 16" "component pi ci ps = None"
  shows "parse_fields (ds @ rest) pi ci ps =
     (if decimal 0 ds < 2 ^ 32 then parse_fields rest pi ci (set_component pi ci (of_nat (decimal 0 ds)) ps)
      else Inl NumericOverflow)"
proof -
  obtain b bs where ds: "ds = b # bs" using assms(2) by (cases ds) auto
  have v: "digit_value b < 2 ^ 32" using is_digit_value [of b] assms(1) ds by auto
  have "push_digit 0 b = Inr (of_nat (digit_value b))"
    using push_digit_exact [of b 0] assms(1) ds v by simp
  then have "parse_fields (ds @ rest) pi ci ps
      = parse_fields (bs @ rest) pi ci (set_component pi ci (of_nat (digit_value b)) ps)"
    using assms(1,6) ds by (simp add: component_def)
  also have "\<dots> = (if decimal 0 ds < 2 ^ 32 then parse_fields rest pi ci (set_component pi ci (of_nat (decimal 0 ds)) ps)
      else Inl NumericOverflow)"
    using assms v ds
    by (subst parse_fields_digits_from [of bs _ pi ci "digit_value b"])
      (simp_all add: parameters_wf_set_component component_set set_component_twice)
  finally show ?thesis .
qed

section \<open>The Kitty form\<close>

definition kitty_bits :: "modifiers \<Rightarrow> lock_state \<Rightarrow> nat" where
  "kitty_bits m l = unat m + 64 * (of_bool (caps_lock l) + 2 * of_bool (num_lock l))"

fun kind_code :: "event_kind \<Rightarrow> nat" where
  "kind_code Press = 1"
| "kind_code Repeat = 2"
| "kind_code Release = 3"

definition kitty_body :: "u32 \<Rightarrow> modifiers \<Rightarrow> lock_state \<Rightarrow> event_kind \<Rightarrow> u8 list" where
  "kitty_body code m l k =
     digits (unat code) @ 0x3b # digits (1 + kitty_bits m l) @ 0x3a # digits (kind_code k)"

lemma kitty_bits_less: "m < 64 \<Longrightarrow> kitty_bits m l < 256"
  by (auto simp: kitty_bits_def word_less_nat_alt of_bool_def)

lemma kitty_modifiers_bits:
  assumes "m < 64"
  shows "kitty_modifiers (of_nat (1 + kitty_bits m l)) = Inr (m, l)"
proof -
  let ?b = "of_nat (kitty_bits m l) :: u8"
  have lt: "kitty_bits m l < 256" using kitty_bits_less [OF assms] .
  have m64: "unat m < 64" using assms by (simp add: word_less_nat_alt)
  have u: "unat ?b = kitty_bits m l" using lt by (simp add: unsigned_of_nat take_bit_nat_eq_self)
  have v: "unat (of_nat (1 + kitty_bits m l) :: u32) = 1 + kitty_bits m l"
    using lt unsigned_of_nat [where ?'b = 32 and ?'a = nat, of "1 + kitty_bits m l"]
    by (simp add: take_bit_nat_eq_self)
  have w: "ucast (of_nat (1 + kitty_bits m l) - 1 :: u32) = ?b"
    by (simp add: word_unat_eq_iff u unsigned_ucast_eq unsigned_of_nat)
  have low: "?b AND 0b00111111 = m"
    unfolding word_unat_eq_iff unat_and_mask6 u unfolding kitty_bits_def mod_mult_self2 by (rule mod_less [OF m64])
  have bit: "bit ?b n \<longleftrightarrow> odd (kitty_bits m l div 2 ^ n)" if "n < 8" for n
  proof -
    have "bit (unat ?b) n \<longleftrightarrow> bit ?b n" using that by (simp add: bit_unsigned_iff)
    then show ?thesis by (simp add: u bit_iff_odd)
  qed
  have d6: "kitty_bits m l div 2 ^ 6 = of_bool (caps_lock l) + 2 * of_bool (num_lock l)"
    using m64 by (simp add: kitty_bits_def)
  have "kitty_bits m l div 2 ^ 7 = kitty_bits m l div 2 ^ 6 div 2"
    by (simp add: div_mult2_eq [symmetric])
  also have "\<dots> = of_bool (num_lock l)" unfolding d6 by simp
  finally have d7: "kitty_bits m l div 2 ^ 7 = of_bool (num_lock l)" .
  have caps: "(?b AND 0b01000000 \<noteq> 0) = caps_lock l"
    using and_exp_eq_0_iff_not_bit [of ?b 6] bit [of 6] unfolding d6 by simp
  have num: "(?b AND 0b10000000 \<noteq> 0) = num_lock l"
    using and_exp_eq_0_iff_not_bit [of ?b 7] bit [of 7] unfolding d7 by simp
  show ?thesis
    using v lt w low caps num unat_sub [of 1 "of_nat (1 + kitty_bits m l) :: u32"]
    by (simp add: kitty_modifiers_def word_le_nat_alt word_less_nat_alt)
qed

lemma takeWhile_parameters:
  "list_all (\<lambda>b. \<not> is_intermediate b) bs \<Longrightarrow>
     parse_tail bs ps = (if bs = [] then Inr ps else parse_fields bs 0 0 (set_cp_len 0 1 (ps\<lparr>ps_len := 1\<rparr>)))"
proof -
  assume "list_all (\<lambda>b. \<not> is_intermediate b) bs"
  then have t: "takeWhile (\<lambda>b. \<not> is_intermediate b) bs = bs" "dropWhile (\<lambda>b. \<not> is_intermediate b) bs = []"
    by (auto simp: takeWhile_eq_all_conv list_all_iff)
  show ?thesis unfolding parse_tail_def Let_def t by simp
qed

lemma digit_class: "is_digit b \<Longrightarrow> \<not> is_intermediate b \<and> \<not> is_prefix_byte b \<and> is_csi_body b"
  by (auto simp: is_digit_def is_intermediate_def is_prefix_byte_def is_csi_body_def word_le_nat_alt)

lemma kitty_body_class:
  "list_all (\<lambda>b. \<not> is_intermediate b) (kitty_body c m l k)" "list_all is_csi_body (kitty_body c m l k)"
  using digits_wf digit_class
  by (auto simp: kitty_body_def list_all_iff is_intermediate_def is_csi_body_def)

lemma kitty_body_parse_tail: "parse_csi_parameters (kitty_body c m l k) = parse_tail (kitty_body c m l k) EMPTY_PARAMETERS"
proof -
  obtain d ds where d: "digits (unat c) = d # ds" "is_digit d"
    using digits_wf [of "unat c"] by (cases "digits (unat c)") auto
  then show ?thesis
    using digit_class [of d] by (simp add: parse_csi_parameters_def kitty_body_def)
qed

definition kitty_parameters :: "u32 \<Rightarrow> modifiers \<Rightarrow> lock_state \<Rightarrow> event_kind \<Rightarrow> csi_parameters" where
  "kitty_parameters c m l k =
    set_component 1 1 (of_nat (kind_code k)) (set_cp_len 1 2
    (set_component 1 0 (of_nat (1 + kitty_bits m l)) (set_cp_len 1 1
    ((set_component 0 0 c (set_cp_len 0 1 (EMPTY_PARAMETERS\<lparr>ps_len := 1\<rparr>)))\<lparr>ps_len := 2\<rparr>))))"

lemma component_other:
  assumes "pi \<noteq> i \<or> ci \<noteq> j"
  shows "component i j (set_component pi ci v ps) = component i j ps"
proof (cases "pi < length (ps_values ps) \<and> pi = i")
  case True
  then show ?thesis using assms by (simp add: component_def set_component_def)
next
  case False
  then show ?thesis by (cases "pi = i") (simp_all add: component_def set_component_def list_update_beyond)
qed

lemma component_frame:
  "parameters_wf ps \<Longrightarrow> pi < 3 \<Longrightarrow> component i j (set_cp_len pi n ps) = component i j ps"
  "component i j (ps\<lparr>ps_len := n\<rparr>) = component i j ps"
  "i < 3 \<Longrightarrow> j < 16 \<Longrightarrow> component i j EMPTY_PARAMETERS = None"
  by (simp_all add: component_def set_cp_len_def parameters_wf_def nth_list_update
      EMPTY_PARAMETERS_def EMPTY_PARAMETER_def csi_limits)

lemma kitty_body_parse:
  assumes "m < 64"
  shows "parse_csi_parameters (kitty_body c m l k) = Inr (kitty_parameters c m l k)"
proof -
  have b: "kitty_bits m l < 256" using kitty_bits_less [OF assms] .
  have b': "Suc (kitty_bits m l) < Suc (Suc 0) ^ 32"
    using b by (simp add: numeral_2_eq_2 [symmetric])
  have kc: "kind_code k < 2 ^ 32" by (cases k) simp_all
  have s: "\<not> is_digit 0x3a" "\<not> is_digit 0x3b" by (simp_all add: is_digit_def)
  note d = digits_wf [THEN conjunct1] digits_wf [THEN conjunct2, THEN conjunct1] digits_wf [THEN conjunct2, THEN conjunct2]
  have "unat c < 2 ^ LENGTH(32)" by (rule unsigned_less)
  then have u: "unat c < 2 ^ 32" by simp
  note c = component_frame component_other parameters_wf_intros
  have "kitty_body c m l k \<noteq> []" using d by (simp add: kitty_body_def)
  then have "parse_csi_parameters (kitty_body c m l k)
      = parse_fields (kitty_body c m l k) 0 0 (set_cp_len 0 1 (EMPTY_PARAMETERS\<lparr>ps_len := 1\<rparr>))"
    by (simp add: kitty_body_parse_tail takeWhile_parameters kitty_body_class)
  also have "\<dots> = parse_fields (digits (1 + kitty_bits m l) @ 0x3a # digits (kind_code k)) 1 0
      (set_cp_len 1 1 ((set_component 0 0 c (set_cp_len 0 1 (EMPTY_PARAMETERS\<lparr>ps_len := 1\<rparr>)))\<lparr>ps_len := 2\<rparr>))"
    unfolding kitty_body_def using s u
    by (subst parse_fields_digits) (simp_all add: d c csi_limits try_u8_def numeral_2_eq_2)
  also have "\<dots> = parse_fields (digits (kind_code k) @ []) 1 1
    (set_cp_len 1 2 (set_component 1 0 (of_nat (1 + kitty_bits m l)) (set_cp_len 1 1
    ((set_component 0 0 c (set_cp_len 0 1 (EMPTY_PARAMETERS\<lparr>ps_len := 1\<rparr>)))\<lparr>ps_len := 2\<rparr>))))"
    using s b' by (subst parse_fields_digits) (simp_all add: d c csi_limits try_u8_def numeral_2_eq_2)
  also have "\<dots> = Inr (kitty_parameters c m l k)"
    using kc by (subst parse_fields_digits) (simp_all add: d c kitty_parameters_def)
  finally show ?thesis .
qed

lemma kitty_parameters_shape:
  fixes c m l k
  defines "ps \<equiv> kitty_parameters c m l k"
  shows "ps_len ps = 2" "cp_len (ps_values ps ! 0) = 1" "cp_len (ps_values ps ! 1) = 2"
    "cp_values (ps_values ps ! 0) ! 0 = Some c"
    "cp_values (ps_values ps ! 1) ! 0 = Some (of_nat (1 + kitty_bits m l))"
    "cp_values (ps_values ps ! 1) ! 1 = Some (of_nat (kind_code k))"
    "ps_prefix ps = None"
  by (simp_all add: ps_def kitty_parameters_def set_component_def set_cp_len_def EMPTY_PARAMETERS_def
      EMPTY_PARAMETER_def csi_limits)

lemma decode_kitty_body:
  assumes "m < 64" and "primary_identity c = Inr (i, kp)"
  shows "decode_csi (kitty_body c m l k) 0x75 =
    Key \<lparr>primary = i, shifted = None, base = None, modifiers = m, kind = k, locks = l, keypad = kp\<rparr>"
proof -
  let ?ps = "kitty_parameters c m l k"
  note sh = kitty_parameters_shape [of c m l k]
  have "event_kind_of (Some (of_nat (kind_code k))) = Inr k"
    by (cases k) (simp_all add: event_kind_of_def)
  then have "kitty_event_details ?ps = Inr (m, l, k)"
    using sh kitty_modifiers_bits [OF assms(1), of l]
    by (simp add: kitty_event_details_def kitty_modifier_and_kind_def)
  then have "decode_kitty ?ps 0x75 n =
      Key \<lparr>primary = i, shifted = None, base = None, modifiers = m, kind = k, locks = l, keypad = kp\<rparr>" for n
    using sh assms(2) by (simp add: decode_kitty_def cp_first_def validate_associated_text_def)
  then show ?thesis
    using kitty_body_parse [OF assms(1), of c l k] sh kitty_body_class(1) [of c m l k]
    by (auto simp: decode_csi_def decode_final_def decode_protocol_response_def list_all_iff)
qed

lemma kind_code_digits: "length (digits (kind_code k)) \<le> 1"
  by (cases k) (simp_all add: digits.simps)

lemma kitty_body_length:
  assumes "m < 64"
  shows "length (kitty_body c m l k) \<le> 96"
proof -
  have "unat c < 2 ^ LENGTH(32)" by (rule unsigned_less)
  then have "length (digits (unat c)) \<le> 10" by (intro length_digits) simp_all
  moreover have "length (digits (1 + kitty_bits m l)) \<le> 3"
    using kitty_bits_less [OF assms, of l] by (intro length_digits) simp_all
  ultimately show ?thesis
    using kind_code_digits [of k] by (simp add: kitty_body_def)
qed

end
