(* ===== verification/Terminal_Stream.thy ===== *)
theory Terminal_Stream
  imports Terminal_Kitty
begin

text \<open>
  What the terminal parser does with a stream of bytes: text, sequences, overlong input, resynchronisation,
  and the end of input. The last section states the properties of the component.
\<close>

section \<open>Text\<close>

definition plain_text :: "scalar \<Rightarrow> bool" where
  "plain_text c \<longleftrightarrow> is_scalar c \<and> c \<notin> {0x1b, 0x08, 0x7f, 0x09, 0x0d, 0x0a}"

lemma emit_then_Pair [simp]: "emit_then es (p, fs) = (p, es @ fs)"
  by (simp add: emit_then_def)

lemma unat_ucast_up: "unat (ucast (x :: u8) :: u32) = unat x"
proof -
  have "unat x < 2 ^ LENGTH(8)" by (rule unsigned_less)
  then show ?thesis by (simp add: unsigned_ucast_eq take_bit_nat_eq_self)
qed

lemma ucast_ucast_ascii:
  assumes "c < 0x80"
  shows "ucast (ucast (c :: u32) :: u8) = c"
proof -
  have "unat (ucast c :: u8) = unat c"
    using assms by (simp add: unat_ucast_small word_less_nat_alt)
  then show ?thesis by (metis unat_ucast_up word_unat_eq_iff)
qed

lemma push_ascii:
  assumes "c < 0x80" "c \<notin> {0x1b, 0x08, 0x7f, 0x09, 0x0d, 0x0a}" "state p = StGround"
  shows "push p (ucast c # rest) = emit_then [Key (plain (Unicode c))] (push p rest)"
proof -
  have u: "unat (ucast c :: u8) = unat c"
    using assms(1) by (simp add: unat_ucast_small word_less_nat_alt)
  note uu = ucast_ucast_ascii [OF assms(1)]
  have "consume_ground (ucast c) p = (p, [Key (plain (Unicode c))])"
    using assms(1,2) by (auto simp: consume_ground_def word_unat_eq_iff u uu word_less_nat_alt)
  then show ?thesis using assms(3) by (simp add: push_ground del: push.simps)
qed

lemma plain_with_modifiers: "plain k = with_modifiers k MOD_NONE"
  by (simp add: plain_def with_modifiers_def)

lemma push_encoded:
  assumes "plain_text c" "state p = StGround"
  shows "push p (encode_utf8 c @ rest) = emit_then [Key (plain (Unicode c))] (push p rest)"
proof (cases "c < 0x80")
  case True
  then show ?thesis using assms push_ascii [of c p rest] by (simp add: encode_utf8_def plain_text_def)
next
  case False
  then have "utf8_runs (encode_utf8 c) MOD_NONE c"
    using assms by (intro encode_utf8_runs) (auto simp: plain_text_def)
  then obtain b conts where e: "encode_utf8 c = b # conts" "0x80 \<le> b"
    and r: "snd (begin_utf8 b MOD_NONE p) = []"
      "push (fst (begin_utf8 b MOD_NONE p)) (conts @ rest)
       = emit_then [Key (with_modifiers (Unicode c) MOD_NONE)] (push (p\<lparr>state := StGround\<rparr>) rest)"
    unfolding utf8_runs_def by blast
  have g: "consume_ground b p = begin_utf8 b MOD_NONE p"
    using e(2) by (auto simp: consume_ground_def)
  have p: "p\<lparr>state := StGround\<rparr> = p" using assms(2) by simp
  with g show ?thesis
    using assms(2) r [unfolded p] by (simp add: push_ground e(1) plain_with_modifiers del: push.simps)
qed

lemma csi_final_not_continuation: "is_csi_final b \<Longrightarrow> \<not> is_continuation b"
proof
  assume b: "is_csi_final b" "is_continuation b"
  then have "bit (b AND 0b11000000) 7" by (simp add: is_continuation_def bit_numeral_rec)
  then have "bit b 7" by (simp add: bit_and_iff)
  then have "\<not> b < 2 ^ 7"
    using take_bit_small [of b 7] bit_take_bit_iff [of 7 b 7] by auto
  then have "128 \<le> unat b" by (simp add: word_less_nat_alt)
  then show False using b(1) by (simp add: is_csi_final_def word_le_nat_alt)
qed

section \<open>Sequences\<close>

lemma csi_body_not_final: "is_csi_body b \<Longrightarrow> \<not> is_csi_final b"
  by (simp add: is_csi_body_def is_csi_final_def word_le_nat_alt)

lemma push_csi_body:
  "state p = StCsi \<Longrightarrow> list_all is_csi_body bs \<Longrightarrow> csi_len p + length bs \<le> 96 \<Longrightarrow> length (csi p) = 96 \<Longrightarrow>
   push p bs = (p\<lparr>csi := take (csi_len p) (csi p) @ bs @ drop (csi_len p + length bs) (csi p), csi_len := csi_len p + length bs\<rparr>, [])"
proof (induction bs arbitrary: p)
  case (Cons b bs)
  have "csi_len p < 96" using Cons.prems by simp
  moreover have "step_byte p b = (p\<lparr>csi := (csi p)[csi_len p := b], csi_len := csi_len p + 1\<rparr>, [])"
    using Cons.prems by (simp add: step_byte_def consume_other_def consume_csi_def csi_body_not_final csi_limits)
  ultimately show ?case
    using Cons.prems
    by (simp add: push_Cons Cons.IH take_Suc_conv_app_nth upd_conv_take_nth_drop add.commute [of "length bs"] del: push.simps(2))
qed simp

lemma push_csi_open:
  "state p = StGround \<Longrightarrow> push p (0x1b # 0x5b # bs) = push (p\<lparr>csi_len := 0, state := StCsi\<rparr>) bs"
  by (simp add: push_Cons step_byte_def consume_other_def consume_ground_def consume_after_escape_def del: push.simps)

lemma push_csi_final:
  "state p = StCsi \<Longrightarrow> is_csi_final f \<Longrightarrow> push p [f] = (reset p, [decode_csi (take (csi_len p) (csi p)) f])"
  by (simp add: consume_other_def consume_csi_def)

lemma push_csi_sequence:
  assumes "state p = StGround" "parser_inv p" "list_all is_csi_body bs" "length bs \<le> 96" "is_csi_final f"
  shows "snd (push p (0x1b # 0x5b # bs @ [f])) = [decode_csi bs f]
    \<and> state (fst (push p (0x1b # 0x5b # bs @ [f]))) = StGround"
proof -
  let ?p = "p\<lparr>csi_len := 0, state := StCsi\<rparr>"
  have 1: "push ?p bs = (?p\<lparr>csi := bs @ drop (length bs) (csi p), csi_len := length bs\<rparr>, [])"
    using assms by (subst push_csi_body) (simp_all add: parser_inv_def csi_limits)
  have "push p (0x1b # 0x5b # bs @ [f])
      = (reset (?p\<lparr>csi := bs @ drop (length bs) (csi p), csi_len := length bs\<rparr>), [decode_csi bs f])"
    unfolding push_csi_open [OF assms(1)] push_append [of _ bs] 1
    using assms(5) by (simp add: push_csi_final del: push.simps)
  then show ?thesis by (simp add: reset_def del: push.simps)
qed

lemma push_discard:
  "state p = StDiscardCsi \<Longrightarrow> list_all is_csi_body bs \<Longrightarrow> push p bs = (p, [])"
  by (induction bs) (simp_all add: push_Cons step_byte_def consume_other_def csi_body_not_final del: push.simps(2))

lemma push_overlong:
  assumes "state q = StCsi" "csi_len q = 96" "is_csi_body b" "list_all is_csi_body cs" "is_csi_final f"
  shows "push q (b # cs @ [f]) = (q\<lparr>state := StGround\<rparr>, [malformed SeqCsi SequenceTooLong 96])"
proof -
  have "push q [b] = (q\<lparr>state := StDiscardCsi\<rparr>, [malformed SeqCsi SequenceTooLong 96])"
    using assms by (simp add: consume_other_def consume_csi_def csi_body_not_final csi_limits saturating_u8_def)
  moreover have "push (q\<lparr>state := StDiscardCsi\<rparr>) (cs @ [f]) = (q\<lparr>state := StGround\<rparr>, [])"
    unfolding push_append using assms by (simp add: push_discard consume_other_def)
  ultimately show ?thesis
    using push_append [of q "[b]" "cs @ [f]"] by (simp del: push.simps)
qed

section \<open>Parsers that hold the same input\<close>

definition same_input :: "parser \<Rightarrow> parser \<Rightarrow> bool" where
  "same_input p q \<longleftrightarrow> state p = state q \<and> csi_len p = csi_len q
     \<and> take (csi_len p) (csi p) = take (csi_len q) (csi q) \<and> length (csi p) = length (csi q)"

lemma same_input_step:
  assumes "same_input p q" and "length (csi p) = 96"
  shows "same_input (fst (step_byte p b)) (fst (step_byte q b)) \<and> snd (step_byte p b) = snd (step_byte q b)
    \<and> length (csi (fst (step_byte p b))) = 96"
proof -
  obtain st c n where p: "p = \<lparr>state = st, csi = c, csi_len = n\<rparr>" by (cases p) auto
  obtain c' where q: "q = \<lparr>state = st, csi = c', csi_len = n\<rparr>"
    using assms by (cases q) (auto simp: p same_input_def)
  have t: "take n c = take n c'" "length c = 96" "length c' = 96"
    using assms by (auto simp: p q same_input_def)
  have g: "same_input (fst (consume_ground b p')) (fst (consume_ground b q')) \<and> snd (consume_ground b p') = snd (consume_ground b q')
      \<and> length (csi (fst (consume_ground b p'))) = 96"
    if "p' = \<lparr>state = StGround, csi = c, csi_len = n\<rparr>" "q' = \<lparr>state = StGround, csi = c', csi_len = n\<rparr>" for p' q'
    using t that by (auto simp: consume_ground_def begin_utf8_def same_input_def)
  have u: "take (Suc n) (c[n := b]) = take (Suc n) (c'[n := b])"
    using t by (cases "n < 96") (simp_all add: take_Suc_conv_app_nth)
  show ?thesis
  proof (cases st)
    case StGround
    then show ?thesis using g p q by (simp add: step_byte_def consume_other_def)
  next
    case StEscape
    then show ?thesis using t by (auto simp: p q step_byte_def consume_other_def
        consume_after_escape_def begin_utf8_def same_input_def)
  next
    case (StUtf8 u)
    show ?thesis
    proof (cases "is_continuation b")
      case True
      then show ?thesis
        using t StUtf8 by (simp add: p q step_byte_def consume_utf8_def same_input_def Let_def)
    next
      case False
      then show ?thesis
        using StUtf8 g [of "\<lparr>state = StGround, csi = c, csi_len = n\<rparr>" "\<lparr>state = StGround, csi = c', csi_len = n\<rparr>"]
        by (simp add: p q step_byte_def)
    qed
  next
    case StCsi
    then show ?thesis
      using t u by (auto simp: p q step_byte_def consume_other_def consume_csi_def same_input_def
          reset_def csi_limits)
  next
    case StSs3
    then show ?thesis using t by (simp add: p q step_byte_def consume_other_def consume_ss3_def same_input_def)
  next
    case StDiscardCsi
    then show ?thesis using t by (simp add: p q step_byte_def consume_other_def same_input_def)
  qed
qed

lemma same_input_push:
  "same_input p q \<Longrightarrow> length (csi p) = 96 \<Longrightarrow> snd (push p bs) = snd (push q bs)"
proof (induction bs arbitrary: p q)
  case (Cons b bs)
  then show ?case using same_input_step [OF Cons.prems, of b]
    by (simp add: push_Cons del: push.simps)
qed simp

section \<open>Properties\<close>

text \<open>
  C10: safety on arbitrary bytes. After any input the parser is in bounds (at most 96 buffered
  bytes, a pending UTF-8 sequence of one to three bytes) and every event it emitted is
  well-formed: characters are scalar values, modifiers fit six bits, function keys lie in 1..35,
  keypad keys agree with their identity, and the reported counts are at most 97.
\<close>

theorem push_safe: "step_ok (push new_parser bytes)"
  by (simp add: step_ok_def push_run terminal.run_inv terminal.run_good new_parser_inv)

text \<open>
  C31: UTF-8 round trip. A text of scalar values, none of them a control the parser reports as a
  named key, is decoded from its standard encoding to exactly its characters, in order, and the
  parser is back where it was.
\<close>

theorem push_text:
  "list_all plain_text cs \<Longrightarrow> state p = StGround \<Longrightarrow>
   push p (concat (map encode_utf8 cs)) = (p, map (\<lambda>c. Key (plain (Unicode c))) cs)"
  by (induction cs) (simp_all add: push_encoded del: push.simps(2))

theorem push_text_witness:
  "push new_parser (concat (map encode_utf8 [0x61, 0xE9, 0x20AC, 0x1F600]))
   = (new_parser, map (\<lambda>c. Key (plain (Unicode c))) [0x61, 0xE9, 0x20AC, 0x1F600])"
  by (rule push_text) (simp_all add: plain_text_def is_scalar_def new_parser_def)

text \<open>
  An escape before an encoded character is the Alt modifier. \<open>ESC\<close> followed by the encoding
  of any scalar value but the two introducers and the controls is one key event of that
  character with Alt, and the parser is back in its ground state.
\<close>

theorem push_alt:
  assumes "is_scalar c" "c \<notin> {0x5b, 0x4f, 0x1b, 0x08, 0x7f, 0x09, 0x0d, 0x0a}" "state p = StGround"
  shows "push p (0x1b # encode_utf8 c) = (p, [Key (with_modifiers (Unicode c) MOD_ALT)])"
proof -
  let ?p = "p\<lparr>state := StEscape\<rparr>"
  have p: "p\<lparr>state := StGround\<rparr> = p" using assms(3) by simp
  have "push p (0x1b # encode_utf8 c) = push ?p (encode_utf8 c)"
    using assms(3) by (simp add: push_ground consume_ground_def del: push.simps)
  also have "\<dots> = (p, [Key (with_modifiers (Unicode c) MOD_ALT)])"
  proof (cases "c < 0x80")
    case True
    have u: "unat (ucast c :: u8) = unat c"
      using True by (simp add: unat_ucast_small word_less_nat_alt)
    have "consume_after_escape (ucast c) ?p = (p, [Key (with_modifiers (Unicode c) MOD_ALT)])"
      using True assms(2) p
      by (auto simp: consume_after_escape_def word_unat_eq_iff u ucast_ucast_ascii [OF True]
          word_less_nat_alt alt_event_def)
    then show ?thesis using True by (simp add: encode_utf8_def consume_other_def)
  next
    case False
    then have "utf8_runs (encode_utf8 c) MOD_ALT c"
      using assms by (intro encode_utf8_runs) auto
    then obtain b conts where e: "encode_utf8 c = b # conts" "0x80 \<le> b"
      and r: "snd (begin_utf8 b MOD_ALT ?p) = []"
        "push (fst (begin_utf8 b MOD_ALT ?p)) (conts @ [])
         = emit_then [Key (with_modifiers (Unicode c) MOD_ALT)] (push (?p\<lparr>state := StGround\<rparr>) [])"
      unfolding utf8_runs_def by blast
    have "consume_after_escape b ?p = begin_utf8 b MOD_ALT ?p"
      using e(2) by (auto simp: consume_after_escape_def)
    then show ?thesis
      using r p by (simp add: e(1) push_Cons step_byte_def consume_other_def del: push.simps(2))
  qed
  finally show ?thesis .
qed

theorem push_alt_witness:
  "push new_parser (0x1b # encode_utf8 0x20AC)
   = (new_parser, [Key (with_modifiers (Unicode 0x20AC) MOD_ALT)])"
  by (rule push_alt) (simp_all add: is_scalar_def new_parser_def)

text \<open>
  C32: resynchronisation. Whatever state the parser is in, one byte of the CSI final class other
  than the two introducers ends the pending sequence: the parser is in its ground state after it.
\<close>

theorem push_resynchronises:
  assumes "is_csi_final b" "b \<noteq> 0x5b" "b \<noteq> 0x4f"
  shows "state (fst (push p [b])) = StGround"
proof -
  have g: "state (fst (consume_ground b q)) = StGround" if "state q = StGround" for q
    using assms that by (auto simp: consume_ground_def is_csi_final_def word_less_nat_alt word_le_nat_alt)
  have e: "state (fst (consume_after_escape b q)) = StGround" for q
    using assms by (auto simp: consume_after_escape_def is_csi_final_def word_less_nat_alt word_le_nat_alt)
  show ?thesis
    using assms g e csi_final_not_continuation [OF assms(1)]
    by (cases "state p") (simp_all add: push_Cons step_byte_def consume_other_def consume_csi_def
        consume_ss3_def reset_def del: push.simps(2))
qed

theorem push_resynchronises_witness:
  "state (fst (push (new_parser\<lparr>state := StDiscardCsi\<rparr>) [0x6d])) = StGround"
  by (rule push_resynchronises) (simp_all add: is_csi_final_def)

text \<open>
  The end of input leaves nothing behind. After \<open>finish\<close>, whatever was read before, the
  parser emits for every further input exactly the events a new parser emits.
\<close>

theorem finish_starts_fresh:
  "snd (push (fst (finish (fst (push new_parser before)))) bytes) = snd (push new_parser bytes)"
proof (rule same_input_push)
  have "parser_inv (fst (push new_parser before))"
    by (simp add: push_run terminal.run_inv new_parser_inv)
  then have l: "length (csi (fst (push new_parser before))) = 96"
    by (simp add: parser_inv_def csi_limits)
  then show "same_input (fst (finish (fst (push new_parser before)))) new_parser"
    "length (csi (fst (finish (fst (push new_parser before))))) = 96"
    by (simp_all add: same_input_def finish_def reset_def new_parser_def csi_limits)
qed

text \<open>
  Numbers are exact or refused. A parameter that is one run of digits is stored with its
  decimal value when that fits 32 bits and is \<open>NumericOverflow\<close> otherwise; no value wraps.
\<close>

theorem csi_number_exact:
  assumes "list_all is_digit ds" and "ds \<noteq> []"
  shows "parse_csi_parameters ds =
     (if decimal 0 ds < 2 ^ 32
      then Inr (set_component 0 0 (of_nat (decimal 0 ds)) (set_cp_len 0 1 (EMPTY_PARAMETERS\<lparr>ps_len := 1\<rparr>)))
      else Inl NumericOverflow)"
proof -
  obtain d es where ds: "ds = d # es" using assms(2) by (cases ds) auto
  have c: "list_all (\<lambda>b. \<not> is_intermediate b) ds" "\<not> is_prefix_byte d"
    using assms(1) ds digit_class by (auto simp: list_all_iff)
  have "parse_csi_parameters ds = parse_tail ds EMPTY_PARAMETERS"
    using c ds by (simp add: parse_csi_parameters_def)
  also have "\<dots> = parse_fields (ds @ []) 0 0 (set_cp_len 0 1 (EMPTY_PARAMETERS\<lparr>ps_len := 1\<rparr>))"
    using assms(2) by (simp add: takeWhile_parameters [OF c(1)])
  finally show ?thesis
    using assms by (subst (asm) parse_fields_digits)
      (simp_all add: parameters_wf_intros component_frame)
qed

theorem csi_number_exact_witness:
  "parse_csi_parameters [0x31, 0x32] =
     Inr (set_component 0 0 12 (set_cp_len 0 1 (EMPTY_PARAMETERS\<lparr>ps_len := 1\<rparr>)))"
  using csi_number_exact [of "[0x31, 0x32]"] by (simp add: is_digit_def digit_value_def)

text \<open>
  C30: Kitty round trip. The sequence a terminal writes for a key code with modifiers, lock state
  and event kind is decoded to one event with exactly those modifiers, locks and kind, and with
  the identity of the code.
\<close>

theorem kitty_round_trip:
  assumes "m < 64" "primary_identity c = Inr (i, kp)" "state p = StGround" "parser_inv p"
  shows "snd (push p (0x1b # 0x5b # kitty_body c m l k @ [0x75])) =
    [Key \<lparr>primary = i, shifted = None, base = None, modifiers = m, kind = k, locks = l, keypad = kp\<rparr>]"
proof -
  have "is_csi_final 0x75" by (simp add: is_csi_final_def)
  note this [THEN push_csi_sequence [OF assms(3,4) kitty_body_class(2) kitty_body_length [OF assms(1)]], THEN conjunct1, of c l k]
  then show ?thesis by (simp only: decode_kitty_body [OF assms(1,2)])
qed

theorem kitty_round_trip_witness:
  "snd (push new_parser (0x1b # 0x5b # kitty_body 97 5 \<lparr>caps_lock = True, num_lock = False\<rparr> Release @ [0x75])) =
    [Key \<lparr>primary = Unicode 97, shifted = None, base = None, modifiers = 5, kind = Release,
          locks = \<lparr>caps_lock = True, num_lock = False\<rparr>, keypad = None\<rparr>]"
proof (rule kitty_round_trip)
  have "functional_identity 97 = None"
    by (simp add: functional_identity_def function_key_identity_def keypad_functional_identity_def
        media_functional_identity_def modifier_functional_identity_def)
  then show "primary_identity 97 = Inr (Unicode 97, None)"
    by (simp add: primary_identity_def reported_identity_def char_from_u32_def is_scalar_def)
qed (simp_all add: new_parser_inv, simp add: new_parser_def)

text \<open>
  An overlong sequence costs one event. A CSI sequence with more than 96 body bytes is
  reported once as \<open>SequenceTooLong\<close>; the rest of it, up to and including its final byte, emits
  nothing, and the parser is back in its ground state.
\<close>

theorem overlong_csi:
  assumes "state p = StGround" "parser_inv p" "list_all is_csi_body bs" "96 < length bs" "is_csi_final f"
  shows "snd (push p (0x1b # 0x5b # bs @ [f])) = [malformed SeqCsi SequenceTooLong 96]
    \<and> state (fst (push p (0x1b # 0x5b # bs @ [f]))) = StGround"
proof -
  let ?p = "p\<lparr>csi_len := 0, state := StCsi\<rparr>"
  obtain b cs where bs: "bs = take 96 bs @ b # cs"
    using assms(4) by (metis append_take_drop_id drop_eq_Nil not_less list.exhaust)
  have cl: "list_all is_csi_body (take 96 bs)" "is_csi_body b" "list_all is_csi_body cs"
    using assms(3) by (subst (asm) bs, simp)+
  have lt: "length (take 96 bs) = 96" using assms(4) by simp
  have 1: "push ?p (take 96 bs) = (?p\<lparr>csi := take 96 bs, csi_len := 96\<rparr>, [])"
    using assms lt cl(1) by (subst push_csi_body) (simp_all add: parser_inv_def csi_limits)
  let ?q = "?p\<lparr>csi := take 96 bs, csi_len := 96\<rparr>"
  have 2: "push ?q (b # cs @ [f]) = (?q\<lparr>state := StGround\<rparr>, [malformed SeqCsi SequenceTooLong 96])"
    by (rule push_overlong) (use cl(2,3) assms(5) in simp_all)
  have "push p (0x1b # 0x5b # bs @ [f]) = push ?p (take 96 bs @ (b # cs @ [f]))"
    using assms(1) bs by (simp add: push_csi_open del: push.simps) (metis append_Cons append_assoc)
  also have "\<dots> = (?q\<lparr>state := StGround\<rparr>, [malformed SeqCsi SequenceTooLong 96])"
    unfolding push_append [of _ "take 96 bs"] 1 fst_conv snd_conv 2 by simp
  finally show ?thesis by simp
qed

theorem overlong_csi_witness:
  "snd (push new_parser (0x1b # 0x5b # replicate 97 0x31 @ [0x75])) = [malformed SeqCsi SequenceTooLong 96]
   \<and> state (fst (push new_parser (0x1b # 0x5b # replicate 97 0x31 @ [0x75]))) = StGround"
proof (rule overlong_csi)
  show "list_all is_csi_body (replicate 97 0x31)"
    by (simp add: list_all_iff is_csi_body_def)
qed (simp_all add: new_parser_inv is_csi_final_def, simp add: new_parser_def)

end
