(* ===== verification/Menu_Ids.thy ===== *)
theory Menu_Ids
  imports Muxe_Prelude
begin

text \<open>
  \<open>muxe-core\<close>, \<open>menu.rs\<close>: configuration generations, validated menu names, the identities of named
  and embedded menus with their display form, and binding identities.
\<close>

section \<open>Decimal text\<close>

text \<open>\<open>decimal_text n\<close> is what \<open>format!("{}", n)\<close> writes for an unsigned integer.\<close>

fun decimal_text :: "nat \<Rightarrow> str" where
  "decimal_text n =
     (if n < 10 then [0x30 + of_nat n] else decimal_text (n div 10) @ [0x30 + of_nat (n mod 10)])"

declare decimal_text.simps [simp del]

definition is_ascii_digit :: "scalar \<Rightarrow> bool" where
  "is_ascii_digit c \<longleftrightarrow> 0x30 \<le> c \<and> c \<le> 0x39"

definition scalar_digit :: "scalar \<Rightarrow> nat" where
  "scalar_digit c = unat c - 48"

definition decimal_value :: "nat \<Rightarrow> str \<Rightarrow> nat" where
  "decimal_value = foldl (\<lambda>a c. 10 * a + scalar_digit c)"

lemma decimal_value_simps [simp]:
  "decimal_value a [] = a" "decimal_value a (c # cs) = decimal_value (10 * a + scalar_digit c) cs"
  "decimal_value a (cs @ ds) = decimal_value (decimal_value a cs) ds"
  by (simp_all add: decimal_value_def)

lemma unat_digit_scalar: "n < 10 \<Longrightarrow> unat (0x30 + of_nat n :: u32) = 48 + n"
  by (simp add: unat_word_ariths unsigned_of_nat take_bit_nat_eq_self)

lemma decimal_text_wf:
  "list_all is_ascii_digit (decimal_text n) \<and> decimal_text n \<noteq> [] \<and> decimal_value 0 (decimal_text n) = n"
proof (induction n rule: decimal_text.induct)
  case (1 n)
  then show ?case
    by (cases "n < 10") (auto simp: decimal_text.simps [of n] is_ascii_digit_def scalar_digit_def
        word_le_nat_alt unat_digit_scalar)
qed

lemma decimal_text_inject [simp]: "decimal_text m = decimal_text n \<longleftrightarrow> m = n"
  by (metis decimal_text_wf)

section \<open>Identities\<close>

datatype compiled_generation = CompiledGeneration u64

datatype menu_name = MenuName str

datatype invalid_menu_name = InvalidMenuName string

definition parse_menu_name :: "str \<Rightarrow> invalid_menu_name + menu_name" where
  "parse_menu_name value =
     (if value = [] then Inl (InvalidMenuName ''empty'')
      else if 0 \<in> set value then Inl (InvalidMenuName ''nul'')
      else if \<exists>c \<in> set value. is_control c then Inl (InvalidMenuName ''control'')
      else Inr (MenuName value))"

fun menu_name_str :: "menu_name \<Rightarrow> str" where
  "menu_name_str (MenuName value) = value"

text \<open>There is no unchecked constructor: the names in use are the ones \<open>parse\<close> returned.\<close>

definition menu_name_ok :: "menu_name \<Rightarrow> bool" where
  "menu_name_ok n \<longleftrightarrow> parse_menu_name (menu_name_str n) = Inr n"

record inline_menu_id =
  im_owner :: menu_name
  im_ordinal :: u64

datatype menu_id = Named menu_name | Inline inline_menu_id

fun menu_id_name :: "menu_id \<Rightarrow> menu_name option" where
  "menu_id_name (Named n) = Some n"
| "menu_id_name (Inline _) = None"

fun menu_id_inline :: "menu_id \<Rightarrow> inline_menu_id option" where
  "menu_id_inline (Named _) = None"
| "menu_id_inline (Inline i) = Some i"

fun menu_id_display :: "menu_id \<Rightarrow> str" where
  "menu_id_display (Named n) = menu_name_str n"
| "menu_id_display (Inline i) =
     menu_name_str (im_owner i) @ 0x23 # decimal_text (unat (im_ordinal i))"

record binding_id =
  bi_generation :: compiled_generation
  bi_ordinal :: u64

section \<open>The display form\<close>

lemma hash_not_digit: "list_all is_ascii_digit ds \<Longrightarrow> 0x23 \<notin> set ds"
  by (auto simp: list_all_iff is_ascii_digit_def)

lemma split_last_hash:
  fixes a b x y :: str
  assumes "a @ 0x23 # x = b @ 0x23 # y" and "0x23 \<notin> set x" "0x23 \<notin> set y"
  shows "a = b \<and> x = y"
proof -
  have "rev x @ 0x23 # rev a = rev y @ 0x23 # rev b"
    using arg_cong [OF assms(1), of rev] by simp
  then have "takeWhile ((\<noteq>) 0x23) (rev x @ 0x23 # rev a) = takeWhile ((\<noteq>) 0x23) (rev y @ 0x23 # rev b)"
    by simp
  moreover have "takeWhile ((\<noteq>) 0x23) (rev z @ 0x23 # c) = rev z" if "0x23 \<notin> set z" for z c :: str
    using that by (subst takeWhile_append2) auto
  ultimately have "x = y" using assms(2,3) by simp
  then show ?thesis using assms(1) by simp
qed

lemma display_inline_inject:
  "menu_id_display (Inline i) = menu_id_display (Inline j) \<longleftrightarrow> i = j"
proof
  assume e: "menu_id_display (Inline i) = menu_id_display (Inline j)"
  have h: "0x23 \<notin> set (decimal_text n)" for n
    using hash_not_digit decimal_text_wf by blast
  have "menu_name_str (im_owner i) = menu_name_str (im_owner j)
      \<and> decimal_text (unat (im_ordinal i)) = decimal_text (unat (im_ordinal j))"
    using e unfolding menu_id_display.simps by (rule split_last_hash [OF _ h h])
  then have "menu_name_str (im_owner i) = menu_name_str (im_owner j)" "im_ordinal i = im_ordinal j"
    by (simp_all add: word_unat_eq_iff)
  moreover from this(1) have "im_owner i = im_owner j"
    by (cases "im_owner i"; cases "im_owner j") simp
  ultimately show "i = j" by simp
qed simp

lemma is_control_0: "is_control 0"
  by (simp add: is_control_def)

lemma parse_menu_name_Inr:
  "parse_menu_name v = Inr n \<longleftrightarrow> v \<noteq> [] \<and> \<not> list_ex is_control v \<and> n = MenuName v"
  using is_control_0 by (auto simp: parse_menu_name_def list_ex_iff)

section \<open>Properties\<close>

text \<open>
  A name is accepted exactly when it is non-empty and free of control characters, the
  accepted name is the text itself, and the reason of a rejection is the first that applies.
\<close>

theorem parse_menu_name_iff:
  "(parse_menu_name value = Inr n \<longleftrightarrow>
      value \<noteq> [] \<and> \<not> list_ex is_control value \<and> n = MenuName value)
   \<and> (parse_menu_name value = Inl (InvalidMenuName ''nul'') \<longleftrightarrow> 0 \<in> set value)"
  by (simp add: parse_menu_name_Inr) (auto simp: parse_menu_name_def)

text \<open>
  The display form of an embedded menu always reads as a menu name. For every embedded menu
  with a valid owner, \<open>owner#ordinal\<close> is itself accepted as a name, and the named menu of that
  name has the same display form. Displays are unique among embedded menus and among named menus.
\<close>

theorem display_not_lossless:
  "menu_name_ok (im_owner i) \<longrightarrow>
     (\<exists>n. parse_menu_name (menu_id_display (Inline i)) = Inr n
          \<and> menu_id_display (Named n) = menu_id_display (Inline i))
     \<and> (\<forall>j. menu_id_display (Inline j) = menu_id_display (Inline i) \<longrightarrow> j = i)"
proof (intro impI conjI allI)
  assume ok: "menu_name_ok (im_owner i)"
  obtain v where v: "im_owner i = MenuName v" by (cases "im_owner i")
  have c: "v \<noteq> []" "\<not> list_ex is_control v"
    using ok by (simp_all add: menu_name_ok_def v parse_menu_name_Inr)
  have d: "\<not> list_ex is_control (decimal_text k)" for k
    using decimal_text_wf [of k]
    by (fastforce simp: list_ex_iff list_all_iff is_ascii_digit_def is_control_def word_le_nat_alt word_less_nat_alt)
  let ?t = "menu_id_display (Inline i)"
  have "?t \<noteq> [] \<and> \<not> list_ex is_control ?t"
    using c d by (simp add: v is_control_def)
  then have "parse_menu_name ?t = Inr (MenuName ?t)"
    by (simp add: parse_menu_name_Inr)
  then show "\<exists>n. parse_menu_name ?t = Inr n \<and> menu_id_display (Named n) = ?t"
    by (intro exI [of _ "MenuName ?t"]) simp
qed (use display_inline_inject in blast)

theorem display_not_lossless_witness:
  "\<exists>n. parse_menu_name (lit ''main#0'') = Inr n
       \<and> menu_id_display (Named n)
         = menu_id_display (Inline \<lparr>im_owner = MenuName (lit ''main''), im_ordinal = 0\<rparr>)"
proof -
  let ?i = "\<lparr>im_owner = MenuName (lit ''main''), im_ordinal = 0\<rparr>"
  have "menu_name_ok (im_owner ?i)"
    by (simp add: menu_name_ok_def parse_menu_name_def lit_def is_control_def)
  moreover have "menu_id_display (Inline ?i) = lit ''main#0''"
    by (simp add: lit_def decimal_text.simps)
  ultimately show ?thesis
    using display_not_lossless [of ?i] by auto
qed

end
