(* ===== verification/Menu_Session.thy ===== *)
theory Menu_Session
  imports Menu_Ids
begin

text \<open>
  \<open>muxe-core\<close>, \<open>session.rs\<close>: the pure state machine of one open menu, its caller stack, the
  inactivity deadline, and the action that is pending. Times are the caller's; the machine never
  reads a clock.
\<close>

section \<open>Time\<close>

text \<open>
  A \<open>Duration\<close> is 64 bits of seconds and a nanosecond part below 10^9; it is modelled by its
  number of nanoseconds. \<open>checked_add\<close> fails when the seconds overflow.
\<close>

type_synonym duration = nat

definition DURATION_MAX :: duration where
  "DURATION_MAX = (2 ^ 64 - 1) * 1000000000 + 999999999"

datatype session_instant = SessionInstant duration

fun instant_nanos :: "session_instant \<Rightarrow> duration" where
  "instant_nanos (SessionInstant d) = d"

definition instant_checked_add :: "session_instant \<Rightarrow> duration \<Rightarrow> session_instant option" where
  "instant_checked_add t d =
     (if instant_nanos t + d \<le> DURATION_MAX then Some (SessionInstant (instant_nanos t + d)) else None)"

definition saturating_duration_since :: "session_instant \<Rightarrow> session_instant \<Rightarrow> duration" where
  "saturating_duration_since t earlier = instant_nanos t - instant_nanos earlier"

definition instant_ge :: "session_instant \<Rightarrow> session_instant \<Rightarrow> bool" where
  "instant_ge a b \<longleftrightarrow> instant_nanos b \<le> instant_nanos a"

section \<open>Identifiers, controls, events and outputs\<close>

text \<open>An execution identity is compared and copied only.\<close>

datatype execution_id = ExecutionId u64

datatype after_action = AfterQuit | AfterReturn | AfterStay
datatype menu_control = ControlQuit | ControlReturn

datatype menu_session_state =
    SessionActive
  | SessionPending execution_id "menu_control option"
  | SessionDismissed

datatype menu_session_input = InBinding binding_id | InUnknown | InControl menu_control

datatype menu_session_event =
    EvKey session_instant menu_session_input
  | EvActionPending session_instant execution_id
  | EvDetachedAccepted session_instant execution_id after_action
  | EvActionCompleted session_instant execution_id bool after_action
  | EvPendingControlCompleted session_instant execution_id menu_control
  | EvOpenSubmenu session_instant menu_id "duration option"
  | EvTick session_instant

datatype menu_session_output =
    OutInvokeBinding binding_id
  | OutUnknownKeySwallowed
  | OutPendingInputSwallowed
  | OutRequestPendingControl execution_id menu_control
  | OutNavigatedTo menu_id
  | OutReturnedTo menu_id
  | OutDismissed

record menu_frame =
  fr_menu :: menu_id
  fr_timeout :: "duration option"

text \<open>The stack is the \<open>Vec\<close> of the code: its last element is the visible level.\<close>

record menu_session =
  ms_stack :: "menu_frame list"
  ms_deadline :: "session_instant option"
  ms_paused :: "duration option"
  ms_state :: menu_session_state

section \<open>Operations\<close>

definition new_session :: "menu_id \<Rightarrow> duration option \<Rightarrow> session_instant \<Rightarrow> menu_session" where
  "new_session root timeout now =
     \<lparr>ms_stack = [\<lparr>fr_menu = root, fr_timeout = timeout\<rparr>],
      ms_deadline = Option.bind timeout (instant_checked_add now),
      ms_paused = None, ms_state = SessionActive\<rparr>"

fun last_frame :: "menu_frame list \<Rightarrow> menu_frame option" where
  "last_frame [] = None"
| "last_frame fs = Some (last fs)"

definition current_menu :: "menu_session \<Rightarrow> menu_id option" where
  "current_menu s = map_option fr_menu (last_frame (ms_stack s))"

definition reset_deadline :: "session_instant \<Rightarrow> menu_session \<Rightarrow> menu_session" where
  "reset_deadline at s =
     s\<lparr>ms_deadline := Option.bind (Option.bind (last_frame (ms_stack s)) fr_timeout)
                        (instant_checked_add at)\<rparr>"

definition reset_paused_timeout :: "menu_session \<Rightarrow> menu_session" where
  "reset_paused_timeout s =
     s\<lparr>ms_paused := Option.bind (last_frame (ms_stack s)) fr_timeout\<rparr>"

definition resume_deadline :: "session_instant \<Rightarrow> menu_session \<Rightarrow> menu_session" where
  "resume_deadline at s =
     s\<lparr>ms_deadline := Option.bind (ms_paused s) (instant_checked_add at), ms_paused := None\<rparr>"

type_synonym step_result = "menu_session \<times> menu_session_output option"

definition dismiss :: "menu_session \<Rightarrow> menu_session" where
  "dismiss s = s\<lparr>ms_deadline := None, ms_paused := None, ms_state := SessionDismissed\<rparr>"

text \<open>The \<open>expect\<close> after the pop is unreachable on a stack of two or more levels.\<close>

fun apply_control :: "menu_control \<Rightarrow> session_instant \<Rightarrow> menu_session \<Rightarrow> step_result" where
  "apply_control ControlQuit at s = (dismiss s, Some OutDismissed)"
| "apply_control ControlReturn at s =
     (if length (ms_stack s) = 1 then (dismiss s, Some OutDismissed)
      else let s' = reset_deadline at (s\<lparr>ms_stack := butlast (ms_stack s)\<rparr>)
           in (s', Some (OutReturnedTo (the (current_menu s')))))"

fun apply_after_action :: "after_action \<Rightarrow> session_instant \<Rightarrow> menu_session \<Rightarrow> step_result" where
  "apply_after_action AfterQuit at s = (dismiss s, Some OutDismissed)"
| "apply_after_action AfterReturn at s = apply_control ControlReturn at s"
| "apply_after_action AfterStay at s = (s, None)"

definition key :: "session_instant \<Rightarrow> menu_session_input \<Rightarrow> menu_session \<Rightarrow> step_result" where
  "key at input s =
     (case ms_state s of
        SessionDismissed \<Rightarrow> (s, None)
      | SessionPending execution requested \<Rightarrow>
          (let s' = reset_paused_timeout s
           in case (input, requested) of
                (InControl control, None) \<Rightarrow>
                  (s'\<lparr>ms_state := SessionPending execution (Some control)\<rparr>,
                   Some (OutRequestPendingControl execution control))
              | _ \<Rightarrow> (s', Some OutPendingInputSwallowed))
      | SessionActive \<Rightarrow>
          (let s' = reset_deadline at s
           in case input of
                InBinding binding \<Rightarrow> (s', Some (OutInvokeBinding binding))
              | InUnknown \<Rightarrow> (s', Some OutUnknownKeySwallowed)
              | InControl control \<Rightarrow> apply_control control at s'))"

definition action_pending :: "session_instant \<Rightarrow> execution_id \<Rightarrow> menu_session \<Rightarrow> step_result" where
  "action_pending at execution s =
     (if ms_state s \<noteq> SessionActive then (s, None)
      else (s\<lparr>ms_paused := map_option (\<lambda>d. saturating_duration_since d at) (ms_deadline s),
              ms_deadline := None, ms_state := SessionPending execution None\<rparr>, None))"

definition action_completed ::
  "session_instant \<Rightarrow> execution_id \<Rightarrow> bool \<Rightarrow> after_action \<Rightarrow> menu_session \<Rightarrow> step_result" where
  "action_completed at execution success after s =
     (case ms_state s of
        SessionPending current requested \<Rightarrow>
          if current \<noteq> execution then (s, None)
          else if requested \<noteq> None then (s, None)
          else (let s1 = s\<lparr>ms_state := SessionActive\<rparr>
                in if success then
                     (let s2 = (if after = AfterStay then resume_deadline at s1
                                else s1\<lparr>ms_paused := None\<rparr>)
                      in apply_after_action after at s2)
                   else (reset_deadline at (s1\<lparr>ms_paused := None\<rparr>), None))
      | _ \<Rightarrow> (s, None))"

definition pending_control_completed ::
  "session_instant \<Rightarrow> execution_id \<Rightarrow> menu_control \<Rightarrow> menu_session \<Rightarrow> step_result" where
  "pending_control_completed at execution control s =
     (case ms_state s of
        SessionPending current (Some requested) \<Rightarrow>
          if current \<noteq> execution \<or> requested \<noteq> control then (s, None)
          else apply_control control at (s\<lparr>ms_paused := None, ms_state := SessionActive\<rparr>)
      | _ \<Rightarrow> (s, None))"

definition open_submenu ::
  "session_instant \<Rightarrow> menu_id \<Rightarrow> duration option \<Rightarrow> menu_session \<Rightarrow> step_result" where
  "open_submenu at menu timeout s =
     (if ms_state s \<noteq> SessionActive then (s, None)
      else (reset_deadline at
              (s\<lparr>ms_stack := ms_stack s @ [\<lparr>fr_menu = menu, fr_timeout = timeout\<rparr>]\<rparr>),
            Some (OutNavigatedTo menu)))"

definition tick :: "session_instant \<Rightarrow> menu_session \<Rightarrow> step_result" where
  "tick at s =
     (if ms_state s = SessionActive
         \<and> (case ms_deadline s of None \<Rightarrow> False | Some d \<Rightarrow> instant_ge at d)
      then (dismiss s, Some OutDismissed) else (s, None))"

fun handle :: "menu_session \<Rightarrow> menu_session_event \<Rightarrow> step_result" where
  "handle s (EvKey at input) = key at input s"
| "handle s (EvActionPending at execution) = action_pending at execution s"
| "handle s (EvDetachedAccepted at execution after) =
     (if ms_state s = SessionActive then apply_after_action after at s else (s, None))"
| "handle s (EvActionCompleted at execution success after) =
     action_completed at execution success after s"
| "handle s (EvPendingControlCompleted at execution control) =
     pending_control_completed at execution control s"
| "handle s (EvOpenSubmenu at menu timeout) = open_submenu at menu timeout s"
| "handle s (EvTick at) = tick at s"

section \<open>One event as a step, and the invariant\<close>

definition session_step :: "menu_session \<Rightarrow> menu_session_event \<Rightarrow> menu_session \<times> menu_session_output list" where
  "session_step s e = (fst (handle s e), case snd (handle s e) of None \<Rightarrow> [] | Some out \<Rightarrow> [out])"

definition session_inv :: "menu_session \<Rightarrow> bool" where
  "session_inv s \<longleftrightarrow> ms_stack s \<noteq> [] \<and>
     (case ms_state s of
        SessionActive \<Rightarrow> ms_paused s = None
      | SessionPending _ _ \<Rightarrow> ms_deadline s = None
      | SessionDismissed \<Rightarrow> ms_paused s = None \<and> ms_deadline s = None)"

lemma last_frame_Some [simp]: "fs \<noteq> [] \<Longrightarrow> last_frame fs = Some (last fs)"
  by (cases fs) auto

lemma field_simps_session [simp]:
  "ms_stack (reset_deadline at s) = ms_stack s" "ms_state (reset_deadline at s) = ms_state s"
  "ms_paused (reset_deadline at s) = ms_paused s"
  "ms_stack (reset_paused_timeout s) = ms_stack s" "ms_state (reset_paused_timeout s) = ms_state s"
  "ms_deadline (reset_paused_timeout s) = ms_deadline s"
  "ms_stack (resume_deadline at s) = ms_stack s" "ms_state (resume_deadline at s) = ms_state s"
  "ms_paused (resume_deadline at s) = None"
  "ms_stack (dismiss s) = ms_stack s" "ms_state (dismiss s) = SessionDismissed"
  "ms_deadline (dismiss s) = None" "ms_paused (dismiss s) = None"
  by (simp_all add: reset_deadline_def reset_paused_timeout_def resume_deadline_def dismiss_def)

lemma butlast_level: "fs \<noteq> [] \<Longrightarrow> length fs \<noteq> Suc 0 \<Longrightarrow> butlast fs \<noteq> []"
  by (cases fs rule: rev_cases) auto

lemma inv_dismiss: "ms_stack s \<noteq> [] \<Longrightarrow> session_inv (dismiss s)"
  by (simp add: session_inv_def)

lemma inv_apply_control:
  "ms_stack s \<noteq> [] \<Longrightarrow> ms_state s = SessionActive \<Longrightarrow> ms_paused s = None \<Longrightarrow>
   session_inv (fst (apply_control c at s))"
  by (cases c) (auto simp: session_inv_def Let_def butlast_level)

lemma inv_apply_after_action:
  "ms_stack s \<noteq> [] \<Longrightarrow> ms_state s = SessionActive \<Longrightarrow> ms_paused s = None \<Longrightarrow>
   session_inv (fst (apply_after_action a at s))"
  by (cases a) (auto simp: inv_dismiss inv_apply_control simp del: apply_control.simps,
      simp add: session_inv_def)

lemma inv_key: "session_inv s \<Longrightarrow> session_inv (fst (key at i s))"
  by (auto simp: key_def Let_def session_inv_def [of s] intro!: inv_apply_control
      split: menu_session_state.splits menu_session_input.splits option.splits)
    (simp_all add: session_inv_def)

lemma inv_action_completed: "session_inv s \<Longrightarrow> session_inv (fst (action_completed at e ok a s))"
  by (auto simp: action_completed_def Let_def session_inv_def [of s] intro!: inv_apply_after_action
      split: menu_session_state.splits)
    (simp_all add: session_inv_def)

lemma inv_handle: "session_inv s \<Longrightarrow> session_inv (fst (handle s e))"
proof (induction s e rule: handle.induct)
  case (2 s at e)
  then show ?case by (auto simp: action_pending_def session_inv_def split: menu_session_state.splits)
next
  case (3 s at e a)
  then show ?case using inv_apply_after_action [of s a at] by (auto simp: session_inv_def [of s])
next
  case (5 s at e c)
  then show ?case
    by (auto simp: pending_control_completed_def session_inv_def [of s] intro!: inv_apply_control
        split: menu_session_state.splits option.splits)
next
  case (6 s at m t)
  then show ?case by (auto simp: open_submenu_def session_inv_def split: menu_session_state.splits)
next
  case (7 s at)
  then show ?case by (auto simp: tick_def session_inv_def split: menu_session_state.splits)
qed (simp_all add: inv_key inv_action_completed)

interpretation session: event_machine session_step session_inv "\<lambda>_. True"
  by unfold_locales (simp_all add: session_step_def inv_handle list_all_iff)

lemma new_session_inv: "session_inv (new_session root timeout now)"
  by (simp add: new_session_def session_inv_def)

section \<open>Mirroring the stack from the outputs\<close>

text \<open>
  What a client that sees only the outputs can know: it pushes on \<open>NavigatedTo\<close>, pops on
  \<open>ReturnedTo\<close>, and is told on each return the level it must then be showing.
\<close>

fun mirror :: "menu_id list option \<Rightarrow> menu_session_output \<Rightarrow> menu_id list option" where
  "mirror None out = None"
| "mirror (Some ms) (OutNavigatedTo m) = Some (ms @ [m])"
| "mirror (Some ms) (OutReturnedTo m) =
     (if 2 \<le> length ms \<and> last (butlast ms) = m then Some (butlast ms) else None)"
| "mirror (Some ms) _ = Some ms"

definition menus :: "menu_session \<Rightarrow> menu_id list" where
  "menus s = map fr_menu (ms_stack s)"

lemma menus_simps [simp]:
  "menus (reset_deadline at s) = menus s" "menus (reset_paused_timeout s) = menus s"
  "menus (resume_deadline at s) = menus s" "menus (dismiss s) = menus s"
  "menus (s\<lparr>ms_state := x\<rparr>) = menus s" "menus (s\<lparr>ms_paused := y\<rparr>) = menus s"
  "menus (s\<lparr>ms_deadline := z\<rparr>) = menus s"
  "menus (s\<lparr>ms_stack := fs\<rparr>) = map fr_menu fs"
  by (simp_all add: menus_def)

definition mirrors :: "menu_session \<Rightarrow> step_result \<Rightarrow> bool" where
  "mirrors s r \<longleftrightarrow>
     foldl mirror (Some (menus s)) (case snd r of None \<Rightarrow> [] | Some out \<Rightarrow> [out]) = Some (menus (fst r))"

lemma mirrors_silent [simp]: "mirrors s (s', None) \<longleftrightarrow> menus s = menus s'"
  by (auto simp: mirrors_def)

lemma last_butlast_map: "2 \<le> length fs \<Longrightarrow> last (butlast (map f fs)) = f (last (butlast fs))"
  by (cases fs rule: rev_cases) (auto simp: last_map Suc_le_eq)

lemma mirrors_control:
  assumes "ms_stack s \<noteq> []"
  shows "mirrors s (apply_control c at s)"
proof (cases c)
  case ControlReturn
  show ?thesis
  proof (cases "length (ms_stack s) = 1")
    case False
    then have "2 \<le> length (ms_stack s)" using assms by (cases "ms_stack s") (auto simp: Suc_le_eq)
    then show ?thesis
      using False assms
      by (simp add: ControlReturn mirrors_def Let_def current_menu_def butlast_level last_butlast_map
          menus_def map_butlast)
  qed (simp add: ControlReturn mirrors_def)
qed (simp add: mirrors_def)

lemma mirrors_from: "menus s = menus s' \<Longrightarrow> mirrors s r \<longleftrightarrow> mirrors s' r"
  by (simp add: mirrors_def)

lemma mirrors_control':
  "menus s = menus s' \<Longrightarrow> ms_stack s' \<noteq> [] \<Longrightarrow> mirrors s (apply_control c at s')"
  using mirrors_control mirrors_from by blast

lemma mirrors_after:
  "menus s = menus s' \<Longrightarrow> ms_stack s' \<noteq> [] \<Longrightarrow> mirrors s (apply_after_action a at s')"
  using mirrors_control' [of s s' ControlReturn at]
  by (cases a) (simp_all add: mirrors_def [of _ "(_, Some _)"] del: apply_control.simps)

lemma mirrors_handle: "session_inv s \<Longrightarrow> mirrors s (handle s e)"
  by (cases e)
    (auto simp: key_def action_pending_def action_completed_def pending_control_completed_def
      open_submenu_def tick_def Let_def session_inv_def mirrors_def [of _ "(_, Some _)"] menus_def [of s]
      intro!: mirrors_control' mirrors_after
      split: menu_session_state.splits menu_session_input.splits option.splits)

lemma mirror_run:
  "session_inv s \<Longrightarrow>
   foldl mirror (Some (menus s)) (snd (run session_step s es)) = Some (menus (fst (run session_step s es)))"
proof (induction es arbitrary: s)
  case (Cons e es)
  have "foldl mirror (Some (menus s)) (snd (session_step s e)) = Some (menus (fst (session_step s e)))"
    using mirrors_handle [OF Cons.prems, of e] by (simp add: mirrors_def session_step_def)
  moreover have "session_inv (fst (session_step s e))" by (rule session.step_inv [OF Cons.prems])
  ultimately show ?case using Cons.IH by (simp add: run_Cons del: run.simps)
qed simp

section \<open>Dismissal is final\<close>

lemma control_dismisses:
  "ms_state s = SessionActive \<Longrightarrow>
   (ms_state (fst (apply_control c at s)) = SessionDismissed) = (snd (apply_control c at s) = Some OutDismissed)"
  by (cases c) (simp_all add: Let_def)

lemma after_dismisses:
  "ms_state s = SessionActive \<Longrightarrow>
   (ms_state (fst (apply_after_action a at s)) = SessionDismissed) = (snd (apply_after_action a at s) = Some OutDismissed)"
  by (cases a) (simp_all add: control_dismisses del: apply_control.simps)

lemma handle_dismisses:
  "ms_state s \<noteq> SessionDismissed \<Longrightarrow>
   (ms_state (fst (handle s e)) = SessionDismissed) = (snd (handle s e) = Some OutDismissed)"
  by (cases e)
    (auto simp: key_def action_pending_def action_completed_def pending_control_completed_def
      open_submenu_def tick_def Let_def control_dismisses after_dismisses
      simp del: apply_control.simps apply_after_action.simps
      split: menu_session_state.splits menu_session_input.splits option.splits)

lemma dismissed_silent: "ms_state s = SessionDismissed \<Longrightarrow> handle s e = (s, None)"
  by (cases e) (simp_all add: key_def action_pending_def action_completed_def
      pending_control_completed_def open_submenu_def tick_def)

lemma dismissed_run: "ms_state s = SessionDismissed \<Longrightarrow> run session_step s es = (s, [])"
  by (induction es) (simp_all add: session_step_def dismissed_silent)

lemma run_dismissal:
  "ms_state s \<noteq> SessionDismissed \<Longrightarrow>
     (case run session_step s es of (s', outs) \<Rightarrow>
        OutDismissed \<notin> set (butlast outs)
        \<and> (ms_state s' = SessionDismissed \<longleftrightarrow> outs \<noteq> [] \<and> last outs = OutDismissed))"
proof (induction es arbitrary: s)
  case (Cons e es)
  obtain s1 out where h: "handle s e = (s1, out)" by (cases "handle s e")
  obtain s2 outs where r: "run session_step s1 es = (s2, outs)" by (cases "run session_step s1 es")
  have st: "session_step s e = (s1, case out of None \<Rightarrow> [] | Some o1 \<Rightarrow> [o1])"
    by (simp add: session_step_def h)
  have d: "(ms_state s1 = SessionDismissed) = (out = Some OutDismissed)"
    using handle_dismisses [OF Cons.prems, of e] h by simp
  show ?case
  proof (cases "out = Some OutDismissed")
    case True
    then have "s2 = s1 \<and> outs = []" using d dismissed_run [of s1 es] r by simp
    then show ?thesis using True d r by (simp add: st)
  next
    case False
    then have "OutDismissed \<notin> set (butlast outs)
        \<and> (ms_state s2 = SessionDismissed \<longleftrightarrow> outs \<noteq> [] \<and> last outs = OutDismissed)"
      using Cons.IH [of s1] d r by simp
    then show ?thesis using False r by (cases out) (auto simp: st)
  qed
qed simp

section \<open>A pending action is released by its own completion only\<close>

lemma control_state: "ms_state (fst (apply_control c at s)) = SessionDismissed \<or> ms_state (fst (apply_control c at s)) = ms_state s"
  by (cases c) (simp_all add: Let_def)

lemma pending_step:
  assumes "ms_state s = SessionPending e req"
  shows "(\<exists>at ok a. ev = EvActionCompleted at e ok a \<and> req = None)
    \<or> (\<exists>at c. ev = EvPendingControlCompleted at e c \<and> req = Some c)
    \<or> (\<exists>at c. ev = EvKey at (InControl c) \<and> req = None
         \<and> ms_state (fst (handle s ev)) = SessionPending e (Some c)
         \<and> snd (handle s ev) = Some (OutRequestPendingControl e c) \<and> menus (fst (handle s ev)) = menus s)
    \<or> (ms_state (fst (handle s ev)) = SessionPending e req \<and> menus (fst (handle s ev)) = menus s
         \<and> snd (handle s ev) \<in> {None, Some OutPendingInputSwallowed})"
  using assms
  by (cases ev; cases req)
    (auto simp: key_def action_pending_def action_completed_def pending_control_completed_def
      open_submenu_def tick_def Let_def
      split: menu_session_input.splits)

section \<open>Deadlines\<close>

fun event_nanos :: "menu_session_event \<Rightarrow> nat" where
  "event_nanos (EvKey at _) = instant_nanos at"
| "event_nanos (EvActionPending at _) = instant_nanos at"
| "event_nanos (EvDetachedAccepted at _ _) = instant_nanos at"
| "event_nanos (EvActionCompleted at _ _ _) = instant_nanos at"
| "event_nanos (EvPendingControlCompleted at _ _) = instant_nanos at"
| "event_nanos (EvOpenSubmenu at _ _) = instant_nanos at"
| "event_nanos (EvTick at) = instant_nanos at"

definition level_timeout :: "menu_session \<Rightarrow> duration option" where
  "level_timeout s = Option.bind (last_frame (ms_stack s)) fr_timeout"

text \<open>
  \<open>due_by T s\<close>: at time \<open>T\<close> the visible level has at most its own timeout left to wait, running
  or paused, unless the deadline is beyond the last instant a clock can show.
\<close>

definition due_by :: "nat \<Rightarrow> menu_session \<Rightarrow> bool" where
  "due_by T s \<longleftrightarrow> (\<forall>t. level_timeout s = Some t \<longrightarrow> T + t \<le> DURATION_MAX \<longrightarrow>
     (case ms_state s of
        SessionActive \<Rightarrow> (\<exists>d. ms_deadline s = Some d \<and> instant_nanos d \<le> T + t)
      | SessionPending _ _ \<Rightarrow> (\<exists>r. ms_paused s = Some r \<and> r \<le> t)
      | SessionDismissed \<Rightarrow> True))"

lemma due_by_mono: "due_by T s \<Longrightarrow> T \<le> T' \<Longrightarrow> due_by T' s"
  by (fastforce simp: due_by_def split: menu_session_state.splits)

lemma level_timeout_simps [simp]:
  "level_timeout (reset_deadline at s) = level_timeout s"
  "level_timeout (reset_paused_timeout s) = level_timeout s"
  "level_timeout (resume_deadline at s) = level_timeout s"
  "level_timeout (s\<lparr>ms_state := x\<rparr>) = level_timeout s"
  "level_timeout (s\<lparr>ms_paused := y\<rparr>) = level_timeout s"
  "level_timeout (s\<lparr>ms_deadline := z\<rparr>) = level_timeout s"
  by (simp_all add: level_timeout_def reset_deadline_def reset_paused_timeout_def resume_deadline_def)

lemma deadline_reset: "ms_deadline (reset_deadline at s) = Option.bind (level_timeout s) (instant_checked_add at)"
  by (simp add: reset_deadline_def level_timeout_def)

lemma paused_reset: "ms_paused (reset_paused_timeout s) = level_timeout s"
  by (simp add: reset_paused_timeout_def level_timeout_def)

lemma due_by_reset: "ms_state s = SessionActive \<Longrightarrow> due_by (instant_nanos at) (reset_deadline at s)"
  by (auto simp: due_by_def deadline_reset instant_checked_add_def)

lemma due_by_dismissed: "ms_state s = SessionDismissed \<Longrightarrow> due_by T s"
  by (simp add: due_by_def)

lemma due_by_control: "ms_state s = SessionActive \<Longrightarrow> due_by (instant_nanos at) (fst (apply_control c at s))"
  by (cases c) (simp_all add: due_by_dismissed due_by_reset Let_def)

lemma due_by_after:
  "ms_state s = SessionActive \<Longrightarrow> (a = AfterStay \<Longrightarrow> due_by (instant_nanos at) s) \<Longrightarrow>
   due_by (instant_nanos at) (fst (apply_after_action a at s))"
  by (cases a) (simp_all add: due_by_dismissed due_by_control del: apply_control.simps)

lemma due_by_pause:
  assumes "ms_state s = SessionActive" "due_by T s" "T \<le> instant_nanos at"
  shows "due_by (instant_nanos at) (fst (action_pending at e s))"
  unfolding due_by_def
proof (intro allI impI)
  fix t
  assume t: "level_timeout (fst (action_pending at e s)) = Some t" "instant_nanos at + t \<le> DURATION_MAX"
  then have "level_timeout s = Some t" "T + t \<le> DURATION_MAX"
    using assms by (simp_all add: action_pending_def)
  then obtain d where "ms_deadline s = Some d" "instant_nanos d \<le> T + t"
    using assms(1,2) by (auto simp: due_by_def)
  then show "case ms_state (fst (action_pending at e s)) of
        SessionActive \<Rightarrow> (\<exists>d. ms_deadline (fst (action_pending at e s)) = Some d \<and> instant_nanos d \<le> instant_nanos at + t)
      | SessionPending _ _ \<Rightarrow> (\<exists>r. ms_paused (fst (action_pending at e s)) = Some r \<and> r \<le> t)
      | SessionDismissed \<Rightarrow> True"
    using assms(1,3) by (simp add: action_pending_def saturating_duration_since_def)
qed

lemma due_by_resume:
  assumes "ms_state s = SessionPending e r" "due_by T s" "T \<le> instant_nanos at"
  shows "due_by (instant_nanos at) (resume_deadline at (s\<lparr>ms_state := SessionActive\<rparr>))"
  using assms
  by (auto simp: due_by_def resume_deadline_def level_timeout_def instant_checked_add_def)

lemma due_by_pending_key:
  "ms_state s = SessionPending e r \<Longrightarrow> due_by T (fst (key at i s))"
  by (auto simp: key_def Let_def due_by_def paused_reset split: menu_session_input.splits option.splits)

lemma due_by_handle:
  assumes "due_by T s" "T \<le> event_nanos ev"
  shows "due_by (event_nanos ev) (fst (handle s ev))"
proof -
  have keep: "due_by (event_nanos ev) s" by (rule due_by_mono [OF assms])
  show ?thesis
  proof (cases ev)
    case (EvKey at i)
    then show ?thesis
      using keep due_by_pending_key [of s]
      by (cases "ms_state s")
        (auto simp: key_def Let_def due_by_reset due_by_control simp del: apply_control.simps
          split: menu_session_input.splits)
  next
    case (EvActionPending at e)
    then show ?thesis
      using keep assms due_by_pause [of s T at e] by (cases "ms_state s = SessionActive") (auto simp: action_pending_def)
  next
    case (EvActionCompleted at e ok a)
    then show ?thesis
      using keep assms due_by_resume [of s e None T at]
      by (auto simp: action_completed_def Let_def due_by_reset
          intro!: due_by_after simp del: apply_after_action.simps split: menu_session_state.splits)
  next
    case (EvPendingControlCompleted at e c)
    then show ?thesis
      using keep by (auto simp: pending_control_completed_def intro!: due_by_control
          simp del: apply_control.simps split: menu_session_state.splits option.splits)
  next
    case (EvDetachedAccepted at e a)
    then show ?thesis using keep by (auto intro!: due_by_after simp del: apply_after_action.simps)
  next
    case (EvOpenSubmenu at m t)
    then show ?thesis using keep by (auto simp: open_submenu_def intro!: due_by_reset)
  next
    case (EvTick at)
    then show ?thesis using keep by (auto simp: tick_def due_by_dismissed)
  qed
qed

lemma due_by_run:
  "due_by T s \<Longrightarrow> sorted (T # map event_nanos es) \<Longrightarrow>
   due_by (last (T # map event_nanos es)) (fst (run session_step s es))"
proof (induction es arbitrary: s T)
  case (Cons e es)
  have "due_by (event_nanos e) (fst (session_step s e))"
    using due_by_handle [OF Cons.prems(1), of e] Cons.prems(2) by (simp add: session_step_def)
  then show ?case
    using Cons.IH [of "event_nanos e" "fst (session_step s e)"] Cons.prems(2)
    by (simp add: run_Cons del: run.simps)
qed simp

lemma ticks_before:
  "ms_state s = SessionActive \<Longrightarrow> list_all (\<lambda>u. \<forall>d. ms_deadline s = Some d \<longrightarrow> instant_nanos u < instant_nanos d) us \<Longrightarrow>
   run session_step s (map EvTick us) = (s, [])"
  by (induction us) (auto simp: session_step_def tick_def instant_ge_def split: option.splits)

lemma ticks_pending:
  "ms_state s = SessionPending e r \<Longrightarrow> run session_step s (map EvTick us) = (s, [])"
  by (induction us) (simp_all add: session_step_def tick_def)

section \<open>Properties\<close>

text \<open>
  C19: the outputs determine the stack. A client that starts with the root menu and follows
  \<open>NavigatedTo\<close> and \<open>ReturnedTo\<close> holds, after any sequence of events, exactly the caller stack of
  the session, and every \<open>ReturnedTo\<close> names the level it then shows.
\<close>

theorem outputs_mirror_stack:
  "foldl mirror (Some [root]) (snd (run session_step (new_session root timeout now) es))
   = Some (menus (fst (run session_step (new_session root timeout now) es)))"
  using mirror_run [OF new_session_inv, of root timeout now es]
  by (simp add: new_session_def menus_def)

text \<open>
  C20: a session is dismissed once and for good. \<open>Dismissed\<close> is never followed by another output,
  and the session ends in the dismissed state exactly when its last output is \<open>Dismissed\<close>.
\<close>

theorem dismissal_is_final:
  "case run session_step (new_session root timeout now) es of (s', outs) \<Rightarrow>
     OutDismissed \<notin> set (butlast outs)
     \<and> (ms_state s' = SessionDismissed \<longleftrightarrow> outs \<noteq> [] \<and> last outs = OutDismissed)"
  using run_dismissal [of "new_session root timeout now" es] by (simp add: new_session_def)

text \<open>
  C21: a pending action is released only by its own completion. While execution \<open>e\<close> is pending, the
  session leaves that state only through \<open>ActionCompleted\<close> for \<open>e\<close> with no control requested, or
  through \<open>PendingControlCompleted\<close> for \<open>e\<close> and the requested control. Every other event, a tick
  past the deadline or a completion of another execution included, leaves \<open>e\<close> pending and the
  stack as it is; the first control key is recorded and requested once.
\<close>

theorem pending_released_by_own_completion:
  assumes "ms_state s = SessionPending e req"
    and "\<nexists>at ok a. ev = EvActionCompleted at e ok a \<and> req = None"
    and "\<nexists>at c. ev = EvPendingControlCompleted at e c \<and> req = Some c"
  shows "\<exists>req'. ms_state (fst (handle s ev)) = SessionPending e req'
    \<and> menus (fst (handle s ev)) = menus s
    \<and> (req' = req \<and> snd (handle s ev) \<in> {None, Some OutPendingInputSwallowed}
       \<or> (\<exists>c. req = None \<and> req' = Some c \<and> snd (handle s ev) = Some (OutRequestPendingControl e c)))"
  using pending_step [OF assms(1), of ev] assms(2,3) by blast

theorem pending_released_by_own_completion_witness:
  "\<exists>req'. ms_state (fst (handle
      \<lparr>ms_stack = [\<lparr>fr_menu = Named (MenuName [0x61]), fr_timeout = Some 5\<rparr>], ms_deadline = None,
       ms_paused = Some 3, ms_state = SessionPending (ExecutionId 1) None\<rparr>
      (EvActionCompleted (SessionInstant 9) (ExecutionId 2) True AfterQuit)))
     = SessionPending (ExecutionId 1) req'"
  using pending_released_by_own_completion
    [of "\<lparr>ms_stack = [\<lparr>fr_menu = Named (MenuName [0x61]), fr_timeout = Some 5\<rparr>], ms_deadline = None,
       ms_paused = Some 3, ms_state = SessionPending (ExecutionId 1) None\<rparr>" "ExecutionId 1" None
      "EvActionCompleted (SessionInstant 9) (ExecutionId 2) True AfterQuit"]
  by auto

text \<open>
  C22: inactivity is bounded. After any events at non-decreasing times, when the session is active
  on a level with timeout \<open>t\<close> and no event arrives, the tick at the last event's time plus \<open>t\<close>
  dismisses it: neither navigation, returns, failures nor resumed actions stretch the wait.
\<close>

theorem inactivity_bounded:
  assumes "sorted (instant_nanos now # map event_nanos es)"
    and "fst (run session_step (new_session root timeout now) es) = s" and "ms_state s = SessionActive"
    and "level_timeout s = Some t" and "last (instant_nanos now # map event_nanos es) + t \<le> DURATION_MAX"
  shows "handle s (EvTick (SessionInstant (last (instant_nanos now # map event_nanos es) + t)))
    = (dismiss s, Some OutDismissed)"
proof -
  have "due_by (instant_nanos now) (new_session root timeout now)"
    by (auto simp: due_by_def new_session_def level_timeout_def instant_checked_add_def)
  then have "due_by (last (instant_nanos now # map event_nanos es)) s"
    using due_by_run assms(1,2) by blast
  then show ?thesis
    using assms(3-5) by (auto simp: due_by_def tick_def instant_ge_def)
qed

theorem inactivity_bounded_witness:
  "handle (new_session (Named (MenuName [0x61])) (Some 5) (SessionInstant 10)) (EvTick (SessionInstant 15))
   = (dismiss (new_session (Named (MenuName [0x61])) (Some 5) (SessionInstant 10)), Some OutDismissed)"
  using inactivity_bounded [of "SessionInstant 10" "[]" "Named (MenuName [0x61])" "Some 5" _ 5]
  by (simp add: new_session_def level_timeout_def DURATION_MAX_def)

text \<open>
  Any key restarts the wait exactly. On an active level with timeout \<open>t\<close>, after an unknown key
  at time \<open>a\<close> no tick before \<open>a + t\<close> has any effect and the first tick from \<open>a + t\<close> on dismisses.
\<close>

theorem key_restarts_wait:
  assumes "ms_state s = SessionActive" and "level_timeout s = Some t"
    and "instant_nanos a + t \<le> DURATION_MAX" and "list_all (\<lambda>u. instant_nanos u < instant_nanos a + t) us"
    and "instant_nanos a + t \<le> instant_nanos v"
  shows "snd (run session_step s (EvKey a InUnknown # map EvTick us @ [EvTick v]))
    = [OutUnknownKeySwallowed, OutDismissed]"
proof -
  let ?s = "reset_deadline a s"
  have d: "ms_deadline ?s = Some (SessionInstant (instant_nanos a + t))"
    using assms(2,3) by (simp add: deadline_reset instant_checked_add_def)
  have k: "session_step s (EvKey a InUnknown) = (?s, [OutUnknownKeySwallowed])"
    using assms(1) by (simp add: session_step_def key_def)
  have "run session_step ?s (map EvTick us) = (?s, [])"
    using assms(1,4) by (intro ticks_before) (simp_all add: d)
  moreover have "session_step ?s (EvTick v) = (dismiss ?s, [OutDismissed])"
    using assms(1,5) by (simp add: session_step_def tick_def d instant_ge_def)
  ultimately show ?thesis by (simp add: k run_append)
qed

theorem key_restarts_wait_witness:
  "snd (run session_step (new_session (Named (MenuName [0x61])) (Some 5) (SessionInstant 0))
     (EvKey (SessionInstant 3) InUnknown # map EvTick [SessionInstant 5, SessionInstant 7] @ [EvTick (SessionInstant 8)]))
   = [OutUnknownKeySwallowed, OutDismissed]"
  by (rule key_restarts_wait [where t = 5])
    (simp_all add: new_session_def level_timeout_def DURATION_MAX_def)

text \<open>
  Waiting for an action does not use up the wait. When an action becomes pending at time \<open>a\<close>
  with deadline \<open>d\<close> and completes at time \<open>b\<close> successfully with \<open>stay\<close>, the session is exactly as
  before with what was left at \<open>a\<close> still to run from \<open>b\<close>, whatever ticks came between.
\<close>

theorem pending_pauses_wait:
  assumes "ms_state s = SessionActive" and "ms_paused s = None" and "ms_deadline s = Some d"
  shows "run session_step s
      (EvActionPending a e # map EvTick us @ [EvActionCompleted b e True AfterStay])
    = (s\<lparr>ms_deadline := instant_checked_add b (instant_nanos d - instant_nanos a)\<rparr>, [])"
proof -
  let ?p = "s\<lparr>ms_paused := Some (instant_nanos d - instant_nanos a), ms_deadline := None, ms_state := SessionPending e None\<rparr>"
  have "session_step s (EvActionPending a e) = (?p, [])"
    using assms by (simp add: session_step_def action_pending_def saturating_duration_since_def)
  moreover have "run session_step ?p (map EvTick us) = (?p, [])"
    by (rule ticks_pending [of _ e None]) simp
  moreover have "session_step ?p (EvActionCompleted b e True AfterStay)
      = (s\<lparr>ms_deadline := instant_checked_add b (instant_nanos d - instant_nanos a)\<rparr>, [])"
    using assms(1,2) by (simp add: session_step_def action_completed_def resume_deadline_def)
  ultimately show ?thesis by (simp add: run_append)
qed

theorem pending_pauses_wait_witness:
  "run session_step (new_session (Named (MenuName [0x61])) (Some 5) (SessionInstant 10))
     (EvActionPending (SessionInstant 12) (ExecutionId 7) # map EvTick [SessionInstant 99]
      @ [EvActionCompleted (SessionInstant 100) (ExecutionId 7) True AfterStay])
   = (new_session (Named (MenuName [0x61])) (Some 5) (SessionInstant 98), [])"
proof -
  let ?s = "new_session (Named (MenuName [0x61])) (Some 5) (SessionInstant 10)"
  have "ms_state ?s = SessionActive" "ms_paused ?s = None" "ms_deadline ?s = Some (SessionInstant 15)"
    by (simp_all add: new_session_def instant_checked_add_def DURATION_MAX_def)
  from pending_pauses_wait [OF this, of "SessionInstant 12" "ExecutionId 7" "[SessionInstant 99]" "SessionInstant 100"]
  show ?thesis by (simp add: new_session_def instant_checked_add_def DURATION_MAX_def del: run.simps)
qed

end
