(* ===== verification/Wire_Ids.thy ===== *)
theory Wire_Ids
  imports Muxe_Prelude
begin

text \<open>
  Identities of the protocol (\<open>muxe-protocol\<close>, \<open>wire.rs\<close>): the string identities and the 16-byte
  nonces the two macros generate. A nonce is the 128-bit word of its bytes.
\<close>

datatype ui_session_id = UiSessionId str
datatype modal_scope_id = ModalScopeId str
datatype host_pane_id = HostPaneId str
datatype host_tab_id = HostTabId str
datatype host_client_id = HostClientId str
datatype host_session_id = HostSessionId str
datatype server_id = ServerId str
datatype workspace_id = WorkspaceId str
datatype worktree_id = WorktreeId str
datatype agent_id = AgentId str
datatype link_handler_id = LinkHandlerId str

text \<open>The wire form of a menu identity.\<close>

datatype wire_menu_id = WireNamed str | WireInline str u64

type_synonym nonce = "128 word"

datatype request_id = RequestId nonce
datatype event_id = EventId nonce
datatype pending_launch_token = PendingLaunchToken nonce
datatype wire_execution_id = WireExecutionId nonce
datatype capture_lease_id = CaptureLeaseId nonce

fun token_is_zero :: "pending_launch_token \<Rightarrow> bool" where
  "token_is_zero (PendingLaunchToken n) \<longleftrightarrow> n = 0"

end
