(* ===== verification/Launch_Gate.thy ===== *)
theory Launch_Gate
  imports Wire_Ids
begin

text \<open>
  \<open>muxe-broker\<close>, \<open>gate.rs\<close>: reservations of modal scopes. A scope is owned by at most one pending
  launch or one ready session; a pending launch becomes ready when its placement is committed and
  its session is published, in either order.

  The order in which a \<open>HashMap\<close> yields its values is not specified; operations that iterate take
  the enumeration of the keys as an argument. \<open>Instant::checked_add\<close> depends on the platform's
  clock and is an argument, and so is the answer of the token source.
\<close>

section \<open>State\<close>

type_synonym instant = nat

record pending_pane_lease =
  lease_id :: str
  lease_session :: str

record registered_pane =
  rp_pane :: host_pane_id
  rp_temporary_tab :: "host_tab_id option"
  rp_lease :: "pending_pane_lease option"

record pending_launch =
  pl_token :: pending_launch_token
  pl_scope :: modal_scope_id
  pl_root :: wire_menu_id
  pl_expires_at :: instant
  pl_registered_pane :: "registered_pane option"
  pl_attached_ui :: "ui_session_id option"
  pl_attached_pane :: "host_pane_id option"
  pl_placement_committed :: bool
  pl_session_published :: bool

datatype scope_owner = OwnerPending pending_launch_token | OwnerReady ui_session_id

record prepared_launch =
  pr_pending :: pending_launch
  pr_replaced :: "scope_owner option"
  pr_replaced_pending :: "pending_launch option"

datatype attach_disposition = AttachReady | WaitingForCommit pending_launch_token

datatype gate_error =
    EntropyUnavailable | ZeroLease | LeaseOverflow | DuplicateToken | UnknownToken | ScopeMismatch
  | ScopeOccupied | RegistrationInProgress | PaneMismatch | TokenAlreadyAttached
  | DuplicateSession | UiNotAttached

record launch_gate =
  g_pending :: "pending_launch_token \<rightharpoonup> pending_launch"
  g_scopes :: "modal_scope_id \<rightharpoonup> scope_owner"
  g_sessions :: "ui_session_id \<rightharpoonup> modal_scope_id"

definition empty_gate :: launch_gate where
  "empty_gate = \<lparr>g_pending = Map.empty, g_scopes = Map.empty, g_sessions = Map.empty\<rparr>"

text \<open>Updates of one map entry; \<open>None\<close> removes.\<close>

definition set_pending :: "pending_launch_token \<Rightarrow> pending_launch option \<Rightarrow> launch_gate \<Rightarrow> launch_gate" where
  "set_pending t p g = g\<lparr>g_pending := (g_pending g)(t := p)\<rparr>"

definition set_scope :: "modal_scope_id \<Rightarrow> scope_owner option \<Rightarrow> launch_gate \<Rightarrow> launch_gate" where
  "set_scope s owner g = g\<lparr>g_scopes := (g_scopes g)(s := owner)\<rparr>"

definition set_session :: "ui_session_id \<Rightarrow> modal_scope_id option \<Rightarrow> launch_gate \<Rightarrow> launch_gate" where
  "set_session u s g = g\<lparr>g_sessions := (g_sessions g)(u := s)\<rparr>"

lemma gate_fields [simp]:
  "g_pending (set_pending t p g) = (g_pending g)(t := p)" "g_scopes (set_pending t p g) = g_scopes g"
  "g_sessions (set_pending t p g) = g_sessions g"
  "g_pending (set_scope s owner g) = g_pending g" "g_scopes (set_scope s owner g) = (g_scopes g)(s := owner)"
  "g_sessions (set_scope s owner g) = g_sessions g"
  "g_pending (set_session u sc g) = g_pending g" "g_scopes (set_session u sc g) = g_scopes g"
  "g_sessions (set_session u sc g) = (g_sessions g)(u := sc)"
  by (simp_all add: set_pending_def set_scope_def set_session_def)

lemma set_pending_twice [simp]: "set_pending t x (set_pending t y g) = set_pending t x g"
  by (simp add: set_pending_def)

lemma gate_eqI:
  "g_pending g = g_pending h \<Longrightarrow> g_scopes g = g_scopes h \<Longrightarrow> g_sessions g = g_sessions h \<Longrightarrow> g = (h :: launch_gate)"
  by (cases g; cases h) simp

section \<open>Operations\<close>

type_synonym 'a gate_result = "launch_gate \<times> (gate_error + 'a)"

definition prepare ::
  "(instant \<Rightarrow> nat \<Rightarrow> instant option) \<Rightarrow> gate_error + pending_launch_token \<Rightarrow> modal_scope_id
   \<Rightarrow> wire_menu_id \<Rightarrow> instant \<Rightarrow> nat \<Rightarrow> launch_gate \<Rightarrow> prepared_launch gate_result" where
  "prepare checked_add minted scope root now lease g =
     (if lease = 0 then (g, Inl ZeroLease)
      else case minted of
        Inl e \<Rightarrow> (g, Inl e)
      | Inr token \<Rightarrow>
          if token_is_zero token \<or> g_pending g token \<noteq> None then (g, Inl DuplicateToken)
          else
            (let replaced = g_scopes g scope;
                 g1 = set_scope scope None g;
                 replaced_pending = (case replaced of
                     Some (OwnerPending previous) \<Rightarrow> g_pending g1 previous | _ \<Rightarrow> None);
                 g2 = (case replaced of
                     Some (OwnerPending previous) \<Rightarrow> set_pending previous None g1 | _ \<Rightarrow> g1)
             in case checked_add now lease of
                  None \<Rightarrow> (g2, Inl LeaseOverflow)
                | Some expires \<Rightarrow>
                    (let p = \<lparr>pl_token = token, pl_scope = scope, pl_root = root,
                              pl_expires_at = expires, pl_registered_pane = None,
                              pl_attached_ui = None, pl_attached_pane = None,
                              pl_placement_committed = False, pl_session_published = False\<rparr>
                     in (set_pending token (Some p) (set_scope scope (Some (OwnerPending token)) g2),
                         Inr \<lparr>pr_pending = p, pr_replaced = replaced,
                              pr_replaced_pending = replaced_pending\<rparr>))))"

definition register_pending_pane ::
  "pending_launch_token \<Rightarrow> registered_pane \<Rightarrow> launch_gate \<Rightarrow> unit gate_result" where
  "register_pending_pane token pane g =
     (case g_pending g token of
        None \<Rightarrow> (g, Inl UnknownToken)
      | Some p \<Rightarrow>
          if (case pl_attached_pane p of None \<Rightarrow> False | Some a \<Rightarrow> a \<noteq> rp_pane pane)
          then (g, Inl PaneMismatch)
          else case pl_registered_pane p of
            Some existing \<Rightarrow> if existing \<noteq> pane then (g, Inl PaneMismatch) else (g, Inr ())
          | None \<Rightarrow> (set_pending token (Some (p\<lparr>pl_registered_pane := Some pane\<rparr>)) g, Inr ()))"

definition bind_pending_lease ::
  "pending_launch_token \<Rightarrow> pending_pane_lease \<Rightarrow> launch_gate \<Rightarrow> unit gate_result" where
  "bind_pending_lease token lease g =
     (case g_pending g token of
        None \<Rightarrow> (g, Inl UnknownToken)
      | Some p \<Rightarrow>
          (case pl_registered_pane p of
             None \<Rightarrow> (g, Inl PaneMismatch)
           | Some r \<Rightarrow>
               if rp_lease r \<noteq> None \<and> rp_lease r \<noteq> Some lease then (g, Inl PaneMismatch)
               else (set_pending token
                       (Some (p\<lparr>pl_registered_pane := Some (r\<lparr>rp_lease := Some lease\<rparr>)\<rparr>)) g, Inr ())))"

definition registered_pane_of ::
  "pending_launch_token \<Rightarrow> launch_gate \<Rightarrow> gate_error + registered_pane option" where
  "registered_pane_of token g =
     rbind (ok_or (g_pending g token) UnknownToken) (\<lambda>p. Inr (pl_registered_pane p))"

definition attach ::
  "ui_session_id \<Rightarrow> modal_scope_id \<Rightarrow> host_pane_id \<Rightarrow> pending_launch_token option
   \<Rightarrow> launch_gate \<Rightarrow> attach_disposition gate_result" where
  "attach session scope pane token g =
     (if g_sessions g session \<noteq> None then (g, Inl DuplicateSession)
      else case token of
        Some token \<Rightarrow>
          (case g_pending g token of
             None \<Rightarrow> (g, Inl UnknownToken)
           | Some p \<Rightarrow>
               if pl_scope p \<noteq> scope then (g, Inl ScopeMismatch)
               else if (case pl_registered_pane p of None \<Rightarrow> False | Some r \<Rightarrow> rp_pane r \<noteq> pane)
               then (g, Inl PaneMismatch)
               else if (case pl_attached_ui p of None \<Rightarrow> False | Some ui \<Rightarrow> ui \<noteq> session)
               then (g, Inl TokenAlreadyAttached)
               else (set_session session (Some (pl_scope p))
                       (set_pending token
                          (Some (p\<lparr>pl_attached_ui := Some session, pl_attached_pane := Some pane\<rparr>)) g),
                     Inr (WaitingForCommit token)))
      | None \<Rightarrow>
          if g_scopes g scope \<noteq> None then (g, Inl ScopeOccupied)
          else (set_session session (Some scope) (set_scope scope (Some (OwnerReady session)) g),
                Inr AttachReady))"

definition commit ::
  "pending_launch_token \<Rightarrow> host_pane_id \<Rightarrow> launch_gate \<Rightarrow> ui_session_id option gate_result" where
  "commit token final_pane g =
     (case g_pending g token of
        None \<Rightarrow> (g, Inl UnknownToken)
      | Some p \<Rightarrow>
          (case pl_registered_pane p of
             None \<Rightarrow> (g, Inl PaneMismatch)
           | Some r \<Rightarrow>
               if rp_pane r \<noteq> final_pane
                  \<or> (case pl_attached_pane p of None \<Rightarrow> False | Some a \<Rightarrow> a \<noteq> final_pane)
               then (g, Inl PaneMismatch)
               else if g_scopes g (pl_scope p) \<noteq> Some (OwnerPending token) then (g, Inl ScopeMismatch)
               else
                 (let g1 = set_pending token (Some (p\<lparr>pl_placement_committed := True\<rparr>)) g
                  in if \<not> pl_session_published p then (g1, Inr None)
                     else case pl_attached_ui p of
                       None \<Rightarrow> (g1, Inl UiNotAttached)
                     | Some session \<Rightarrow>
                         (set_scope (pl_scope p) (Some (OwnerReady session))
                            (set_pending token None g1), Inr (Some session)))))"

definition publish_attached ::
  "pending_launch_token \<Rightarrow> ui_session_id \<Rightarrow> launch_gate \<Rightarrow> bool gate_result" where
  "publish_attached token session g =
     (case g_pending g token of
        None \<Rightarrow> (g, Inl UnknownToken)
      | Some p \<Rightarrow>
          if pl_attached_ui p \<noteq> Some session then (g, Inl TokenAlreadyAttached)
          else
            (let g1 = set_pending token (Some (p\<lparr>pl_session_published := True\<rparr>)) g
             in if \<not> pl_placement_committed p then (g1, Inr False)
                else if g_scopes g1 (pl_scope p) \<noteq> Some (OwnerPending token) then (g1, Inl ScopeMismatch)
                else (set_scope (pl_scope p) (Some (OwnerReady session)) (set_pending token None g1),
                      Inr True)))"

definition placement_committed :: "pending_launch_token \<Rightarrow> launch_gate \<Rightarrow> bool" where
  "placement_committed token g =
     (case g_pending g token of None \<Rightarrow> False | Some p \<Rightarrow> pl_placement_committed p)"

text \<open>What \<open>abort\<close> and \<open>expire\<close> do with one launch they remove.\<close>

definition forget_launch :: "pending_launch_token \<Rightarrow> pending_launch \<Rightarrow> launch_gate \<Rightarrow> launch_gate" where
  "forget_launch token p g =
     (let g1 = set_pending token None g;
          g2 = (if g_scopes g1 (pl_scope p) = Some (OwnerPending token)
                then set_scope (pl_scope p) None g1 else g1)
      in case pl_attached_ui p of Some session \<Rightarrow> set_session session None g2 | None \<Rightarrow> g2)"

definition abort :: "pending_launch_token \<Rightarrow> launch_gate \<Rightarrow> registered_pane option gate_result" where
  "abort token g =
     (case g_pending g token of
        None \<Rightarrow> (g, Inl UnknownToken)
      | Some p \<Rightarrow> (forget_launch token p g, Inr (pl_registered_pane p)))"

definition abort_if_uncommitted ::
  "pending_launch_token \<Rightarrow> launch_gate \<Rightarrow> registered_pane option gate_result" where
  "abort_if_uncommitted token g =
     (if placement_committed token g then (g, Inr None) else abort token g)"

definition pending_tokens_in_scope ::
  "pending_launch_token list \<Rightarrow> modal_scope_id \<Rightarrow> launch_gate \<Rightarrow> pending_launch_token list" where
  "pending_tokens_in_scope order scope g =
     map pl_token (filter (\<lambda>p. pl_scope p = scope) (map (\<lambda>t. the (g_pending g t)) order))"

definition release_dangling_owner :: "modal_scope_id \<Rightarrow> launch_gate \<Rightarrow> launch_gate" where
  "release_dangling_owner scope g =
     (let dangling = (case g_scopes g scope of
          Some (OwnerPending token) \<Rightarrow> g_pending g token = None
        | Some (OwnerReady session) \<Rightarrow> g_sessions g session = None
        | None \<Rightarrow> False)
      in if dangling then set_scope scope None g else g)"

definition expire ::
  "pending_launch_token list \<Rightarrow> instant \<Rightarrow> launch_gate \<Rightarrow> launch_gate \<times> pending_launch list" where
  "expire order now g =
     (let expired = filter (\<lambda>p. pl_expires_at p \<le> now) (map (\<lambda>t. the (g_pending g t)) order)
      in (foldl (\<lambda>g p. forget_launch (pl_token p) p g) g expired, expired))"

definition drain :: "pending_launch_token list \<Rightarrow> launch_gate \<Rightarrow> launch_gate \<times> pending_launch list" where
  "drain order g = (empty_gate, map (\<lambda>t. the (g_pending g t)) order)"

definition detach :: "ui_session_id \<Rightarrow> launch_gate \<Rightarrow> launch_gate \<times> modal_scope_id option" where
  "detach session g =
     (case g_sessions g session of
        None \<Rightarrow> (g, None)
      | Some scope \<Rightarrow>
          (let g1 = set_session session None g
           in (if g_scopes g1 scope = Some (OwnerReady session) then set_scope scope None g1 else g1,
               Some scope)))"

definition owner :: "modal_scope_id \<Rightarrow> launch_gate \<Rightarrow> scope_owner option" where
  "owner scope g = g_scopes g scope"

section \<open>Steps and reachable gates\<close>

text \<open>One call by the broker, with any arguments and any answers of its environment.\<close>

inductive gate_step :: "launch_gate \<Rightarrow> launch_gate \<Rightarrow> bool" where
  step_prepare: "gate_step g (fst (prepare add minted scope root now lease g))"
| step_register: "gate_step g (fst (register_pending_pane token pane g))"
| step_bind: "gate_step g (fst (bind_pending_lease token l g))"
| step_attach: "gate_step g (fst (attach session scope host_pane maybe_token g))"
| step_commit: "gate_step g (fst (commit token host_pane g))"
| step_publish: "gate_step g (fst (publish_attached token session g))"
| step_abort: "gate_step g (fst (abort token g))"
| step_abort_uncommitted: "gate_step g (fst (abort_if_uncommitted token g))"
| step_release: "gate_step g (release_dangling_owner scope g)"
| step_expire: "set order = dom (g_pending g) \<Longrightarrow> distinct order \<Longrightarrow> gate_step g (fst (expire order now g))"
| step_drain: "gate_step g (fst (drain order g))"
| step_detach: "gate_step g (fst (detach session g))"

inductive gate_reachable :: "launch_gate \<Rightarrow> bool" where
  reachable_start: "gate_reachable empty_gate"
| reachable_step: "gate_reachable g \<Longrightarrow> gate_step g h \<Longrightarrow> gate_reachable h"

section \<open>Invariant\<close>

definition launch_ok :: "pending_launch \<Rightarrow> bool" where
  "launch_ok p \<longleftrightarrow>
     (pl_session_published p \<longrightarrow> pl_attached_ui p \<noteq> None)
     \<and> (pl_attached_ui p = None \<longleftrightarrow> pl_attached_pane p = None)
     \<and> \<not> (pl_placement_committed p \<and> pl_session_published p)
     \<and> (pl_placement_committed p \<longrightarrow> pl_registered_pane p \<noteq> None)
     \<and> (\<forall>r a. pl_registered_pane p = Some r \<longrightarrow> pl_attached_pane p = Some a \<longrightarrow> rp_pane r = a)"

definition launches_own :: "launch_gate \<Rightarrow> bool" where
  "launches_own g \<longleftrightarrow> (\<forall>t p. g_pending g t = Some p \<longrightarrow>
     pl_token p = t \<and> \<not> token_is_zero t \<and> g_scopes g (pl_scope p) = Some (OwnerPending t) \<and> launch_ok p)"

definition owners_live :: "launch_gate \<Rightarrow> bool" where
  "owners_live g \<longleftrightarrow> (\<forall>s t. g_scopes g s = Some (OwnerPending t) \<longrightarrow>
     (\<exists>p. g_pending g t = Some p \<and> pl_scope p = s))"

definition gate_inv :: "launch_gate \<Rightarrow> bool" where
  "gate_inv g \<longleftrightarrow> launches_own g \<and> owners_live g"

lemma launch_ok_updates:
  "launch_ok p \<Longrightarrow> \<not> pl_session_published p \<Longrightarrow> pl_registered_pane p \<noteq> None \<Longrightarrow>
     launch_ok (p\<lparr>pl_placement_committed := True\<rparr>)"
  "launch_ok p \<Longrightarrow> \<not> pl_placement_committed p \<Longrightarrow> pl_attached_ui p \<noteq> None \<Longrightarrow>
     launch_ok (p\<lparr>pl_session_published := True\<rparr>)"
  "launch_ok p \<Longrightarrow> \<forall>r. pl_registered_pane p = Some r \<longrightarrow> rp_pane r = pane \<Longrightarrow>
     launch_ok (p\<lparr>pl_attached_ui := Some u, pl_attached_pane := Some pane\<rparr>)"
  "launch_ok p \<Longrightarrow> \<forall>a. pl_attached_pane p = Some a \<longrightarrow> a = rp_pane q \<Longrightarrow>
     launch_ok (p\<lparr>pl_registered_pane := Some q\<rparr>)"
  by (cases "pl_attached_ui p"; cases "pl_attached_pane p"; auto simp: launch_ok_def)+

lemma gate_invD:
  assumes "gate_inv g"
  shows "g_pending g t = Some p \<Longrightarrow> pl_token p = t"
    and "g_pending g t = Some p \<Longrightarrow> \<not> token_is_zero t"
    and "g_pending g t = Some p \<Longrightarrow> g_scopes g (pl_scope p) = Some (OwnerPending t)"
    and "g_pending g t = Some p \<Longrightarrow> launch_ok p"
    and "g_scopes g s = Some (OwnerPending t) \<Longrightarrow> \<exists>p. g_pending g t = Some p \<and> pl_scope p = s"
  using assms by (auto simp: gate_inv_def launches_own_def owners_live_def)

lemma inv_empty: "gate_inv empty_gate"
  by (simp add: gate_inv_def launches_own_def owners_live_def empty_gate_def)

lemma inv_set_session [simp]: "gate_inv (set_session u sc g) = gate_inv g"
  by (simp add: gate_inv_def launches_own_def owners_live_def)

lemma inv_update_launch:
  "gate_inv g \<Longrightarrow> g_pending g t = Some p \<Longrightarrow> pl_token p' = pl_token p \<Longrightarrow> pl_scope p' = pl_scope p \<Longrightarrow>
   launch_ok p' \<Longrightarrow> gate_inv (set_pending t (Some p') g)"
  by (fastforce simp: gate_inv_def launches_own_def owners_live_def)

lemma inv_clear_launch:
  assumes inv: "gate_inv g" and p: "g_pending g t = Some p" and x: "\<And>t. x \<noteq> Some (OwnerPending t)"
  shows "gate_inv (set_scope (pl_scope p) x (set_pending t None g))"
proof -
  have inj: "t' = t" if "g_pending g t' = Some p'" "pl_scope p' = pl_scope p" for t' p'
    using gate_invD(3) [OF inv p] gate_invD(3) [OF inv that(1)] that(2) by simp
  have "launches_own (set_scope (pl_scope p) x (set_pending t None g))"
    unfolding launches_own_def using gate_invD(1-4) [OF inv] inj by (fastforce split: if_splits)
  moreover have "owners_live (set_scope (pl_scope p) x (set_pending t None g))"
    unfolding owners_live_def using gate_invD(5) [OF inv] p x by (fastforce split: if_splits)
  ultimately show ?thesis by (simp add: gate_inv_def)
qed

lemma inv_become_ready:
  "gate_inv g \<Longrightarrow> g_pending g t = Some p \<Longrightarrow>
   gate_inv (set_scope (pl_scope p) (Some (OwnerReady u)) (set_pending t None g))"
  by (rule inv_clear_launch) simp_all

lemma forget_launch_eq:
  "gate_inv g \<Longrightarrow> g_pending g t = Some p \<Longrightarrow> forget_launch t p g =
     (case pl_attached_ui p of
        Some u \<Rightarrow> set_session u None (set_scope (pl_scope p) None (set_pending t None g))
      | None \<Rightarrow> set_scope (pl_scope p) None (set_pending t None g))"
  by (simp add: forget_launch_def Let_def gate_invD(3))

lemma inv_forget:
  "gate_inv g \<Longrightarrow> g_pending g t = Some p \<Longrightarrow> gate_inv (forget_launch t p g)"
  by (simp add: forget_launch_eq inv_clear_launch split: option.splits)

lemma inv_free_ready:
  "gate_inv g \<Longrightarrow> (\<forall>t. g_scopes g s \<noteq> Some (OwnerPending t)) \<Longrightarrow>
   \<forall>t. x \<noteq> Some (OwnerPending t) \<Longrightarrow> gate_inv (set_scope s x g)"
  by (fastforce simp: gate_inv_def launches_own_def owners_live_def)

lemma inv_replace:
  assumes inv: "gate_inv g"
  shows "gate_inv (case g_scopes g s of
      Some (OwnerPending previous) \<Rightarrow> set_pending previous None (set_scope s None g) | _ \<Rightarrow> set_scope s None g)"
proof (cases "\<exists>t. g_scopes g s = Some (OwnerPending t)")
  case True
  then obtain t p where t: "g_scopes g s = Some (OwnerPending t)" "g_pending g t = Some p" "pl_scope p = s"
    using gate_invD(5) [OF inv] by blast
  have "set_pending t None (set_scope s None g) = set_scope (pl_scope p) None (set_pending t None g)"
    by (rule gate_eqI) (simp_all add: t(3))
  then show ?thesis using inv_clear_launch [OF inv t(2), of None] by (simp add: t(1))
next
  case False
  then have "gate_inv (set_scope s None g)" by (intro inv_free_ready) (use inv in auto)
  then show ?thesis using False by (auto split: option.splits scope_owner.splits)
qed

lemma inv_new_launch:
  assumes "gate_inv g" "g_scopes g (pl_scope p) = None" "g_pending g t = None" "pl_token p = t"
    "\<not> token_is_zero t" "launch_ok p"
  shows "gate_inv (set_pending t (Some p) (set_scope (pl_scope p) (Some (OwnerPending t)) g))"
  using assms by (fastforce simp: gate_inv_def launches_own_def owners_live_def)

section \<open>Every operation keeps the invariant\<close>

lemma inv_prepare:
  assumes "gate_inv g"
  shows "gate_inv (fst (prepare add minted scope root now lease g))"
proof (cases "lease = 0 \<or> (\<exists>e. minted = Inl e)
    \<or> (\<exists>t. minted = Inr t \<and> (token_is_zero t \<or> g_pending g t \<noteq> None))")
  case True
  then show ?thesis using assms by (auto simp: prepare_def split: sum.splits)
next
  case False
  then obtain t where m: "minted = Inr t" "\<not> token_is_zero t" "g_pending g t = None" "lease \<noteq> 0"
    by (cases minted) auto
  let ?g = "case g_scopes g scope of
      Some (OwnerPending previous) \<Rightarrow> set_pending previous None (set_scope scope None g)
    | _ \<Rightarrow> set_scope scope None g"
  have i: "gate_inv ?g" by (rule inv_replace [OF assms])
  have n: "g_scopes ?g scope = None" "g_pending ?g t = None"
    using m(3) by (simp_all split: option.splits scope_owner.splits)
  show ?thesis
  proof (cases "add now lease")
    case None
    then show ?thesis using i m by (simp add: prepare_def Let_def)
  next
    case (Some e)
    let ?p = "\<lparr>pl_token = t, pl_scope = scope, pl_root = root, pl_expires_at = e,
      pl_registered_pane = None, pl_attached_ui = None, pl_attached_pane = None,
      pl_placement_committed = False, pl_session_published = False\<rparr>"
    have "gate_inv (set_pending t (Some ?p) (set_scope (pl_scope ?p) (Some (OwnerPending t)) ?g))"
      using n m(2) by (intro inv_new_launch i) (simp_all add: launch_ok_def)
    then show ?thesis using m Some by (simp add: prepare_def Let_def)
  qed
qed

lemma inv_register:
  assumes inv: "gate_inv g"
  shows "gate_inv (fst (register_pending_pane t pane g))"
proof (cases "g_pending g t")
  case (Some p)
  note ok = gate_invD(4) [OF inv Some]
  show ?thesis
  proof (cases "pl_registered_pane p = None \<and> pl_attached_pane p \<in> {None, Some (rp_pane pane)}")
    case True
    have "gate_inv (set_pending t (Some (p\<lparr>pl_registered_pane := Some pane\<rparr>)) g)"
      by (rule inv_update_launch [OF inv Some]) (use ok True in \<open>auto intro!: launch_ok_updates\<close>)
    then show ?thesis using True Some by (auto simp: register_pending_pane_def)
  next
    case False
    then show ?thesis using Some inv by (cases "pl_registered_pane p"; cases "pl_attached_pane p")
        (simp_all add: register_pending_pane_def)
  qed
qed (simp add: register_pending_pane_def inv)

lemma inv_bind:
  assumes inv: "gate_inv g"
  shows "gate_inv (fst (bind_pending_lease t l g))"
proof (cases "g_pending g t")
  case (Some p)
  note ok = gate_invD(4) [OF inv Some]
  have "gate_inv (set_pending t (Some (p\<lparr>pl_registered_pane := Some (r\<lparr>rp_lease := Some l\<rparr>)\<rparr>)) g)"
    if "pl_registered_pane p = Some r" for r
    by (rule inv_update_launch [OF inv Some])
      (use ok that in \<open>auto intro!: launch_ok_updates(4), simp add: launch_ok_def\<close>)
  then show ?thesis using Some inv by (simp add: bind_pending_lease_def split: option.splits)
qed (simp add: bind_pending_lease_def inv)

lemma inv_attach:
  assumes inv: "gate_inv g"
  shows "gate_inv (fst (attach u sc pane tok g))"
proof (cases tok)
  case None
  have "gate_inv (set_scope sc (Some (OwnerReady u)) g)" if "g_scopes g sc = None"
    by (rule inv_free_ready [OF inv]) (simp_all add: that)
  then show ?thesis using inv by (simp add: attach_def None)
next
  case (Some t)
  show ?thesis
  proof (cases "g_pending g t")
    case None
    then show ?thesis by (simp add: attach_def Some inv)
  next
    case (Some p)
    note ok = gate_invD(4) [OF inv Some]
    have "gate_inv (set_pending t (Some (p\<lparr>pl_attached_ui := Some u, pl_attached_pane := Some pane\<rparr>)) g)"
      if "\<forall>r. pl_registered_pane p = Some r \<longrightarrow> rp_pane r = pane"
      by (rule inv_update_launch [OF inv Some]) (use launch_ok_updates(3) [OF ok that] in simp_all)
    then show ?thesis
      using Some inv \<open>tok = Some t\<close>
      by (cases "pl_registered_pane p"; cases "pl_attached_ui p") (simp_all add: attach_def)
  qed
qed

lemma inv_commit:
  assumes inv: "gate_inv g"
  shows "gate_inv (fst (commit t pane g))"
proof (cases "g_pending g t")
  case (Some p)
  note ok = gate_invD(4) [OF inv Some]
  have "gate_inv (set_pending t (Some (p\<lparr>pl_placement_committed := True\<rparr>)) g)"
    if "\<not> pl_session_published p" "pl_registered_pane p = Some r" for r
    by (rule inv_update_launch [OF inv Some]) (use launch_ok_updates(1) [OF ok that(1)] that(2) in simp_all)
  moreover have "pl_session_published p \<Longrightarrow> pl_attached_ui p \<noteq> None" using ok by (auto simp: launch_ok_def)
  ultimately show ?thesis
    using Some inv inv_become_ready [OF inv Some] by (auto simp: commit_def Let_def split: option.splits)
qed (simp add: commit_def inv)

lemma inv_publish:
  assumes inv: "gate_inv g"
  shows "gate_inv (fst (publish_attached t u g))"
proof (cases "g_pending g t")
  case (Some p)
  note ok = gate_invD(4) [OF inv Some]
  have "gate_inv (set_pending t (Some (p\<lparr>pl_session_published := True\<rparr>)) g)"
    if "\<not> pl_placement_committed p" "pl_attached_ui p = Some u"
    by (rule inv_update_launch [OF inv Some]) (use launch_ok_updates(2) [OF ok that(1)] that(2) in simp_all)
  then show ?thesis
    using Some inv gate_invD(3) [OF inv Some] inv_become_ready [OF inv Some]
    by (simp add: publish_attached_def Let_def)
qed (simp add: publish_attached_def inv)

lemma inv_abort: "gate_inv g \<Longrightarrow> gate_inv (fst (abort t g))"
  by (auto simp: abort_def inv_forget split: option.splits)

lemma inv_abort_if_uncommitted: "gate_inv g \<Longrightarrow> gate_inv (fst (abort_if_uncommitted t g))"
  by (simp add: abort_if_uncommitted_def inv_abort)

lemma inv_release: "gate_inv g \<Longrightarrow> gate_inv (release_dangling_owner scope g)"
  by (auto simp: release_dangling_owner_def dest: gate_invD(5) intro!: inv_free_ready
      split: option.splits scope_owner.splits)

lemma inv_detach: "gate_inv g \<Longrightarrow> gate_inv (fst (detach u g))"
  by (auto simp: detach_def Let_def intro!: inv_free_ready split: option.splits)

text \<open>Forgetting several launches, in any order, forgets exactly those.\<close>

definition forget_all :: "pending_launch list \<Rightarrow> launch_gate \<Rightarrow> launch_gate" where
  "forget_all ps g = foldl (\<lambda>g p. forget_launch (pl_token p) p g) g ps"

definition without_launches :: "pending_launch set \<Rightarrow> launch_gate \<Rightarrow> launch_gate" where
  "without_launches P g = \<lparr>
     g_pending = (\<lambda>t. if \<exists>p \<in> P. pl_token p = t then None else g_pending g t),
     g_scopes = (\<lambda>s. if \<exists>p \<in> P. pl_scope p = s then None else g_scopes g s),
     g_sessions = (\<lambda>u. if \<exists>p \<in> P. pl_attached_ui p = Some u then None else g_sessions g u)\<rparr>"

lemma forget_all_Cons: "forget_all (p # ps) g = forget_all ps (forget_launch (pl_token p) p g)"
  by (simp add: forget_all_def)

lemma forget_all_spec:
  "gate_inv g \<Longrightarrow> distinct ps \<Longrightarrow> \<forall>p \<in> set ps. g_pending g (pl_token p) = Some p \<Longrightarrow>
   forget_all ps g = without_launches (set ps) g \<and> gate_inv (without_launches (set ps) g)"
proof (induction ps arbitrary: g)
  case Nil
  have "without_launches {} g = g" by (rule gate_eqI) (simp_all add: without_launches_def)
  then show ?case using Nil by (simp add: forget_all_def)
next
  case (Cons p ps)
  let ?h = "forget_launch (pl_token p) p g"
  have h: "g_pending g (pl_token p) = Some p" using Cons.prems by simp
  have i: "gate_inv ?h" by (rule inv_forget [OF Cons.prems(1) h])
  have pend: "g_pending ?h = (g_pending g)(pl_token p := None)"
    by (simp add: forget_launch_eq [OF Cons.prems(1) h] split: option.splits)
  have "g_pending ?h (pl_token q) = Some q" if "q \<in> set ps" for q
  proof -
    have "g_pending g (pl_token q) = Some q" "q \<noteq> p" using that Cons.prems(2,3) by auto
    then show ?thesis using h pend by auto
  qed
  then have ih: "forget_all ps ?h = without_launches (set ps) ?h \<and> gate_inv (without_launches (set ps) ?h)"
    using Cons.IH [OF i] Cons.prems(2) by simp
  have "without_launches (set ps) ?h = without_launches (set (p # ps)) g"
    by (rule gate_eqI)
      (auto simp: without_launches_def forget_launch_eq [OF Cons.prems(1) h] fun_eq_iff split: option.splits)
  with ih show ?case by (simp only: forget_all_Cons)
qed

definition expired_launches :: "instant \<Rightarrow> launch_gate \<Rightarrow> pending_launch set" where
  "expired_launches now g = {p. g_pending g (pl_token p) = Some p \<and> pl_expires_at p \<le> now}"

lemma expire_spec:
  assumes inv: "gate_inv g" and order: "set order = dom (g_pending g)" "distinct order"
  shows "fst (expire order now g) = without_launches (expired_launches now g) g"
    and "set (snd (expire order now g)) = expired_launches now g"
    and "distinct (snd (expire order now g))"
    and "gate_inv (fst (expire order now g))"
proof -
  let ?f = "\<lambda>t. the (g_pending g t)"
  let ?ps = "filter (\<lambda>p. pl_expires_at p \<le> now) (map ?f order)"
  have e: "expire order now g = (forget_all ?ps g, ?ps)"
    by (simp add: expire_def forget_all_def Let_def)
  have t: "pl_token p = t" if "g_pending g t = Some p" for t p using gate_invD(1) [OF inv that] .
  have f: "g_pending g k = Some (?f k)" if "k \<in> set order" for k
    using that order(1) by auto
  have all: "\<forall>p \<in> set ?ps. g_pending g (pl_token p) = Some p"
    using f t by auto
  have s: "set ?ps = expired_launches now g"
  proof (intro set_eqI iffI)
    fix p assume "p \<in> expired_launches now g"
    then have p: "g_pending g (pl_token p) = Some p" "pl_expires_at p \<le> now"
      by (simp_all add: expired_launches_def)
    then have "pl_token p \<in> set order" using order(1) by auto
    then have "p \<in> ?f ` set order" using p(1) by (metis image_eqI option.sel)
    then show "p \<in> set ?ps" using p(2) by simp
  qed (use all in \<open>simp add: expired_launches_def\<close>)
  have "inj_on ?f (set order)" by (rule inj_onI) (metis f t)
  then have d: "distinct ?ps" using order(2) by (simp add: distinct_map distinct_filter)
  from forget_all_spec [OF inv d all] s d show "fst (expire order now g) = without_launches (expired_launches now g) g"
    "set (snd (expire order now g)) = expired_launches now g" "distinct (snd (expire order now g))"
    "gate_inv (fst (expire order now g))"
    by (simp_all add: e)
qed

lemma inv_step: "gate_step g h \<Longrightarrow> gate_inv g \<Longrightarrow> gate_inv h"
  by (induction rule: gate_step.induct)
    (simp_all add: inv_prepare inv_register inv_bind inv_attach inv_commit inv_publish inv_abort
      inv_abort_if_uncommitted inv_release inv_detach expire_spec(4) drain_def inv_empty)

lemma reachable_inv: "gate_reachable g \<Longrightarrow> gate_inv g"
  by (induction rule: gate_reachable.induct) (auto simp: inv_empty inv_step)

lemma commit_then_publish:
  assumes inv: "gate_inv g" and p: "g_pending g t = Some p" and r: "pl_registered_pane p = Some r"
    and u: "pl_attached_ui p = Some u" and fresh: "\<not> pl_placement_committed p" "\<not> pl_session_published p"
  defines "final \<equiv> set_scope (pl_scope p) (Some (OwnerReady u)) (set_pending t None g)"
  shows "commit t (rp_pane r) g = (set_pending t (Some (p\<lparr>pl_placement_committed := True\<rparr>)) g, Inr None)"
    and "publish_attached t u (fst (commit t (rp_pane r) g)) = (final, Inr True)"
    and "publish_attached t u g = (set_pending t (Some (p\<lparr>pl_session_published := True\<rparr>)) g, Inr False)"
    and "commit t (rp_pane r) (fst (publish_attached t u g)) = (final, Inr (Some u))"
proof -
  note ok = gate_invD(4) [OF inv p] and own = gate_invD(3) [OF inv p]
  have a: "pl_attached_pane p = Some (rp_pane r)"
    using ok u r by (cases "pl_attached_pane p") (auto simp: launch_ok_def)
  show c: "commit t (rp_pane r) g = (set_pending t (Some (p\<lparr>pl_placement_committed := True\<rparr>)) g, Inr None)"
    using p r a own fresh by (simp add: commit_def Let_def)
  show "publish_attached t u (fst (commit t (rp_pane r) g)) = (final, Inr True)"
    using u own by (simp add: c publish_attached_def Let_def final_def)
  show q: "publish_attached t u g = (set_pending t (Some (p\<lparr>pl_session_published := True\<rparr>)) g, Inr False)"
    using p u fresh by (simp add: publish_attached_def Let_def)
  show "commit t (rp_pane r) (fst (publish_attached t u g)) = (final, Inr (Some u))"
    using u r a own by (simp add: q commit_def Let_def final_def)
qed

lemma ready_scope_not_pending:
  assumes "gate_inv g" "g_pending g t = Some p" "g_scopes g s = Some (OwnerReady u)"
  shows "pl_scope p \<noteq> s"
  using gate_invD(3) [OF assms(1,2)] assms(3) by auto

definition no_takeover :: "modal_scope_id \<Rightarrow> ui_session_id \<Rightarrow> launch_gate \<Rightarrow> bool" where
  "no_takeover s u h \<longleftrightarrow> (\<forall>v. g_scopes h s = Some (OwnerReady v) \<longrightarrow> v = u)"

lemma no_takeover_step:
  assumes step: "gate_step g h" and inv: "gate_inv g" and own: "g_scopes g s = Some (OwnerReady u)"
  shows "no_takeover s u h"
  using step
proof cases
  case (step_expire order now)
  then show ?thesis
    using own expire_spec(1) [OF inv] by (auto simp: no_takeover_def without_launches_def)
next
  case (step_commit t pane)
  then show ?thesis
    using own ready_scope_not_pending [OF inv _ own]
    by (auto simp: no_takeover_def commit_def Let_def split: option.splits)
next
  case (step_publish t v)
  then show ?thesis
    using own ready_scope_not_pending [OF inv _ own]
    by (auto simp: no_takeover_def publish_attached_def Let_def split: option.splits)
qed (use own in \<open>auto simp: no_takeover_def prepare_def register_pending_pane_def bind_pending_lease_def
      attach_def abort_def abort_if_uncommitted_def forget_launch_def release_dangling_owner_def
      drain_def empty_gate_def detach_def Let_def split: option.splits sum.splits scope_owner.splits if_splits\<close>)

section \<open>A gate for the witnesses\<close>

definition sample_launch :: pending_launch where
  "sample_launch = \<lparr>pl_token = PendingLaunchToken 7, pl_scope = ModalScopeId [0x73], pl_root = WireNamed [0x6d],
     pl_expires_at = 105,
     pl_registered_pane = Some \<lparr>rp_pane = HostPaneId [0x70], rp_temporary_tab = None, rp_lease = None\<rparr>,
     pl_attached_ui = Some (UiSessionId [0x75]), pl_attached_pane = Some (HostPaneId [0x70]),
     pl_placement_committed = False, pl_session_published = False\<rparr>"

definition sample_gate :: launch_gate where
  "sample_gate =
     fst (attach (UiSessionId [0x75]) (ModalScopeId [0x73]) (HostPaneId [0x70]) (Some (PendingLaunchToken 7))
       (fst (register_pending_pane (PendingLaunchToken 7)
          \<lparr>rp_pane = HostPaneId [0x70], rp_temporary_tab = None, rp_lease = None\<rparr>
          (fst (prepare (\<lambda>a b. Some (a + b)) (Inr (PendingLaunchToken 7)) (ModalScopeId [0x73])
             (WireNamed [0x6d]) 100 5 empty_gate)))))"

lemma sample_gate_reachable: "gate_reachable sample_gate"
  unfolding sample_gate_def
  by (rule reachable_step [OF _ step_attach], rule reachable_step [OF _ step_register],
      rule reachable_step [OF _ step_prepare], rule reachable_start)

lemma sample_gate_eq:
  "sample_gate = \<lparr>g_pending = [PendingLaunchToken 7 \<mapsto> sample_launch],
     g_scopes = [ModalScopeId [0x73] \<mapsto> OwnerPending (PendingLaunchToken 7)],
     g_sessions = [UiSessionId [0x75] \<mapsto> ModalScopeId [0x73]]\<rparr>"
  by (rule gate_eqI) (simp_all add: sample_gate_def sample_launch_def prepare_def register_pending_pane_def
      attach_def empty_gate_def Let_def)

section \<open>Properties\<close>

text \<open>
  C15: reservations and owners correspond. In every reachable gate each pending launch sits under
  its own nonzero token and owns its scope, each pending owner names a live launch of that scope,
  and no launch is both committed and published (it has left the pending table by then).
\<close>

theorem reservations_match_owners:
  assumes "gate_reachable g"
  shows "(g_pending g t = Some p \<longrightarrow>
       pl_token p = t \<and> \<not> token_is_zero t \<and> g_scopes g (pl_scope p) = Some (OwnerPending t)
       \<and> \<not> (pl_placement_committed p \<and> pl_session_published p))
    \<and> (g_scopes g s = Some (OwnerPending t) \<longrightarrow> (\<exists>p. g_pending g t = Some p \<and> pl_scope p = s))
    \<and> (g_pending g t = Some p \<and> g_pending g t' = Some p' \<and> pl_scope p = pl_scope p' \<longrightarrow> t = t')"
proof -
  note inv = reachable_inv [OF assms]
  have "t = t'" if "g_pending g t = Some p" "g_pending g t' = Some p'" "pl_scope p = pl_scope p'"
    using gate_invD(3) [OF inv that(1)] gate_invD(3) [OF inv that(2)] that(3) by simp
  then show ?thesis
    using gate_invD [OF inv] by (auto simp: launch_ok_def)
qed

theorem reservations_match_owners_witness:
  "g_pending sample_gate (PendingLaunchToken 7) = Some sample_launch
   \<and> g_scopes sample_gate (pl_scope sample_launch) = Some (OwnerPending (PendingLaunchToken 7))"
proof
  show p: "g_pending sample_gate (PendingLaunchToken 7) = Some sample_launch"
    by (simp add: sample_gate_eq)
  then show "g_scopes sample_gate (pl_scope sample_launch) = Some (OwnerPending (PendingLaunchToken 7))"
    using reservations_match_owners [OF sample_gate_reachable, of "PendingLaunchToken 7" sample_launch]
    by blast
qed

text \<open>
  C16: the defensive errors cannot happen. In a reachable gate neither \<open>commit\<close> nor
  \<open>publish_attached\<close> ever finds its scope owned by someone else, and \<open>commit\<close> never finds a
  published launch without a UI.
\<close>

theorem defensive_errors_unreachable:
  assumes "gate_reachable g"
  shows "snd (commit t pane g) \<noteq> Inl ScopeMismatch \<and> snd (commit t pane g) \<noteq> Inl UiNotAttached
    \<and> snd (publish_attached t u g) \<noteq> Inl ScopeMismatch"
proof -
  note inv = reachable_inv [OF assms]
  show ?thesis
    using gate_invD(3,4) [OF inv, of t]
    by (auto simp: commit_def publish_attached_def Let_def launch_ok_def split: option.splits)
qed

theorem defensive_errors_unreachable_witness:
  "snd (commit (PendingLaunchToken 7) (HostPaneId [0x70]) sample_gate) \<noteq> Inl ScopeMismatch"
  using defensive_errors_unreachable [OF sample_gate_reachable] by blast

text \<open>
  Committing and publishing commute. For a launch with a registered pane and an attached UI,
  the broker may learn of placement and of the session in either order: the first call waits, the
  second makes the scope ready for that UI and retires the token, and the gates are equal.
\<close>

theorem commit_publish_commute:
  assumes "gate_reachable g" and "g_pending g t = Some p" and "pl_registered_pane p = Some r"
    and "pl_attached_ui p = Some u" and "\<not> pl_placement_committed p" "\<not> pl_session_published p"
  shows "snd (commit t (rp_pane r) g) = Inr None \<and> snd (publish_attached t u g) = Inr False
    \<and> snd (publish_attached t u (fst (commit t (rp_pane r) g))) = Inr True
    \<and> snd (commit t (rp_pane r) (fst (publish_attached t u g))) = Inr (Some u)
    \<and> fst (publish_attached t u (fst (commit t (rp_pane r) g)))
      = fst (commit t (rp_pane r) (fst (publish_attached t u g)))
    \<and> owner (pl_scope p) (fst (commit t (rp_pane r) (fst (publish_attached t u g)))) = Some (OwnerReady u)
    \<and> g_pending (fst (commit t (rp_pane r) (fst (publish_attached t u g)))) t = None"
proof -
  note eqs = commit_then_publish [OF reachable_inv [OF assms(1)] assms(2-6)]
  show ?thesis
    using eqs(2,4) by (simp add: eqs(1,3) owner_def)
qed

theorem commit_publish_commute_witness:
  "fst (publish_attached (PendingLaunchToken 7) (UiSessionId [0x75])
     (fst (commit (PendingLaunchToken 7) (HostPaneId [0x70]) sample_gate)))
   = fst (commit (PendingLaunchToken 7) (HostPaneId [0x70])
     (fst (publish_attached (PendingLaunchToken 7) (UiSessionId [0x75]) sample_gate)))"
  using commit_publish_commute [OF sample_gate_reachable, of "PendingLaunchToken 7" sample_launch
      "\<lparr>rp_pane = HostPaneId [0x70], rp_temporary_tab = None, rp_lease = None\<rparr>" "UiSessionId [0x75]"]
  by (simp add: sample_gate_eq sample_launch_def)

text \<open>
  A ready menu is never taken over. In one call by the broker, whatever its arguments, a scope
  that one UI session owns does not become owned by another session: it stays, becomes free, or
  becomes reserved for a launch.
\<close>

theorem ready_scope_not_taken_over:
  assumes "gate_reachable g" and "gate_step g h" and "owner s g = Some (OwnerReady u)"
  shows "owner s h \<in> {Some (OwnerReady u), None} \<union> range (Some \<circ> OwnerPending)"
proof -
  have n: "no_takeover s u h"
    using no_takeover_step [OF assms(2) reachable_inv [OF assms(1)]] assms(3) by (simp add: owner_def)
  show ?thesis
  proof (cases "owner s h")
    case (Some x)
    then show ?thesis using n by (cases x) (auto simp: no_takeover_def owner_def)
  qed simp
qed

theorem ready_scope_not_taken_over_witness:
  "owner (ModalScopeId [0x73]) (fst (attach (UiSessionId [0x76]) (ModalScopeId [0x73]) (HostPaneId [0x71]) None
     (fst (attach (UiSessionId [0x75]) (ModalScopeId [0x73]) (HostPaneId [0x70]) None empty_gate))))
   \<in> {Some (OwnerReady (UiSessionId [0x75])), None} \<union> range (Some \<circ> OwnerPending)"
  by (rule ready_scope_not_taken_over [OF reachable_step [OF reachable_start step_attach] step_attach])
    (simp add: attach_def owner_def empty_gate_def)

text \<open>
  Expiry is exact and does not depend on the order of the table. Whatever order the launches
  are enumerated in, the returned launches are, each once, those whose deadline has passed, and the
  gate loses exactly these, their scopes and their attached sessions.
\<close>

theorem expire_exact:
  assumes "gate_reachable g" and "set order = dom (g_pending g)" and "distinct order"
  shows "set (snd (expire order now g)) = {p. g_pending g (pl_token p) = Some p \<and> pl_expires_at p \<le> now}
    \<and> distinct (snd (expire order now g))
    \<and> fst (expire order now g) = without_launches (set (snd (expire order now g))) g"
  using expire_spec [OF reachable_inv [OF assms(1)] assms(2,3), of now] by (simp add: expired_launches_def)

theorem expire_exact_witness:
  "set (snd (expire [PendingLaunchToken 7] 105 sample_gate)) = {sample_launch}"
proof -
  have "set (snd (expire [PendingLaunchToken 7] 105 sample_gate))
      = {p. g_pending sample_gate (pl_token p) = Some p \<and> pl_expires_at p \<le> 105}"
    using expire_exact [OF sample_gate_reachable, of "[PendingLaunchToken 7]" 105]
    by (simp add: sample_gate_eq)
  also have "\<dots> = {sample_launch}"
    by (auto simp: sample_gate_eq sample_launch_def split: if_splits)
  finally show ?thesis .
qed

text \<open>
  Errors change nothing, with one exception. In a reachable gate a failing call leaves the gate
  as it was, except \<open>prepare\<close> with \<open>LeaseOverflow\<close>: there the previous owner of the scope and its
  pending launch are already gone, and the caller is not told which they were.
\<close>

theorem errors_keep_gate:
  assumes "gate_reachable g"
  shows "(snd (register_pending_pane t pane g) = Inl e \<longrightarrow> fst (register_pending_pane t pane g) = g)
    \<and> (snd (bind_pending_lease t l g) = Inl e \<longrightarrow> fst (bind_pending_lease t l g) = g)
    \<and> (snd (attach u s hp mt g) = Inl e \<longrightarrow> fst (attach u s hp mt g) = g)
    \<and> (snd (commit t hp g) = Inl e \<longrightarrow> fst (commit t hp g) = g)
    \<and> (snd (publish_attached t u g) = Inl e \<longrightarrow> fst (publish_attached t u g) = g)
    \<and> (snd (abort t g) = Inl e \<longrightarrow> fst (abort t g) = g)
    \<and> (snd (prepare add minted s root now lease g) = Inl e \<longrightarrow>
        fst (prepare add minted s root now lease g) = g
        \<or> (e = LeaseOverflow \<and> add now lease = None
            \<and> owner s (fst (prepare add minted s root now lease g)) = None
            \<and> (\<forall>p. g_pending (fst (prepare add minted s root now lease g)) t = Some p \<longrightarrow> pl_scope p \<noteq> s)))"
proof -
  note inv = reachable_inv [OF assms]
  have pend: "pl_attached_ui p \<noteq> None" if "g_pending g t = Some p" "pl_session_published p" for p
    using gate_invD(4) [OF inv that(1)] that(2) by (auto simp: launch_ok_def)
  have pub: "snd (publish_attached t u g) = Inl e \<longrightarrow> fst (publish_attached t u g) = g"
    using gate_invD(3) [OF inv, of t] by (auto simp: publish_attached_def Let_def split: option.splits)
  have com: "snd (commit t hp g) = Inl e \<longrightarrow> fst (commit t hp g) = g"
    using pend by (auto simp: commit_def Let_def split: option.splits)
  have prep: "snd (prepare add minted s root now lease g) = Inl e \<longrightarrow>
        fst (prepare add minted s root now lease g) = g
        \<or> (e = LeaseOverflow \<and> add now lease = None \<and> owner s (fst (prepare add minted s root now lease g)) = None)"
    by (auto simp: prepare_def Let_def owner_def split: sum.splits option.splits scope_owner.splits)
  have lost: "owner s h = None \<longrightarrow> g_pending h t = Some p \<longrightarrow> pl_scope p \<noteq> s" if "gate_inv h" for h p
    using gate_invD(3) [OF that, of t p] by (auto simp: owner_def)
  have reg: "snd (register_pending_pane t pane g) = Inl e \<longrightarrow> fst (register_pending_pane t pane g) = g"
    by (simp add: register_pending_pane_def split: option.split)
  have bnd: "snd (bind_pending_lease t l g) = Inl e \<longrightarrow> fst (bind_pending_lease t l g) = g"
    by (simp add: bind_pending_lease_def split: option.split)
  have att: "snd (attach u s hp mt g) = Inl e \<longrightarrow> fst (attach u s hp mt g) = g"
    by (simp add: attach_def split: option.split)
  have abr: "snd (abort t g) = Inl e \<longrightarrow> fst (abort t g) = g"
    by (simp add: abort_def split: option.split)
  show ?thesis
    using reg bnd att com pub abr prep lost [OF inv_prepare [OF inv]] by blast
qed

theorem errors_keep_gate_witness:
  "snd (prepare (\<lambda>a b. None) (Inr (PendingLaunchToken 8)) (ModalScopeId [0x73]) (WireNamed []) 0 1 sample_gate)
     = Inl LeaseOverflow
   \<and> owner (ModalScopeId [0x73])
       (fst (prepare (\<lambda>a b. None) (Inr (PendingLaunchToken 8)) (ModalScopeId [0x73]) (WireNamed []) 0 1 sample_gate)) = None"
proof -
  let ?r = "prepare (\<lambda>a b. None) (Inr (PendingLaunchToken 8)) (ModalScopeId [0x73]) (WireNamed []) 0 1 sample_gate"
  have e: "snd ?r = Inl LeaseOverflow" "fst ?r \<noteq> sample_gate"
    by (simp_all add: prepare_def sample_gate_eq Let_def set_pending_def set_scope_def fun_eq_iff)
  then show ?thesis
    using errors_keep_gate [OF sample_gate_reachable] by blast
qed

text \<open>
  Detaching does not withdraw an attachment to a pending launch. When a UI attached to a
  pending launch is detached, the launch still names it: committing and publishing afterwards make
  the scope owned by that session although the gate no longer knows the session, the state
  \<open>release_dangling_owner\<close> then clears.
\<close>

theorem detach_keeps_attachment:
  assumes "gate_reachable g" and "g_pending g t = Some p" and "pl_registered_pane p = Some r"
    and "pl_attached_ui p = Some u" and "\<not> pl_placement_committed p" "\<not> pl_session_published p"
  defines "h \<equiv> fst (publish_attached t u (fst (commit t (rp_pane r) (fst (detach u g)))))"
  shows "owner (pl_scope p) h = Some (OwnerReady u) \<and> g_sessions h u = None
    \<and> owner (pl_scope p) (release_dangling_owner (pl_scope p) h) = None"
proof -
  note inv = reachable_inv [OF assms(1)]
  have p: "g_pending (fst (detach u g)) t = Some p"
    using assms(2) by (simp add: detach_def Let_def split: option.splits)
  have s: "g_sessions (fst (detach u g)) u = None"
    by (simp add: detach_def Let_def split: option.splits)
  have h: "h = set_scope (pl_scope p) (Some (OwnerReady u)) (set_pending t None (fst (detach u g)))"
    using commit_then_publish(2) [OF inv_detach [OF inv] p assms(3-6)] by (simp add: h_def)
  show ?thesis using s by (simp add: h owner_def release_dangling_owner_def)
qed

theorem detach_keeps_attachment_witness:
  "owner (ModalScopeId [0x73]) (fst (publish_attached (PendingLaunchToken 7) (UiSessionId [0x75])
     (fst (commit (PendingLaunchToken 7) (HostPaneId [0x70]) (fst (detach (UiSessionId [0x75]) sample_gate))))))
   = Some (OwnerReady (UiSessionId [0x75]))"
  using detach_keeps_attachment [OF sample_gate_reachable, of "PendingLaunchToken 7" sample_launch
      "\<lparr>rp_pane = HostPaneId [0x70], rp_temporary_tab = None, rp_lease = None\<rparr>" "UiSessionId [0x75]"]
  by (simp add: sample_gate_eq sample_launch_def)

end
