(* ===== verification/Wire_Types.thy ===== *)
theory Wire_Types
  imports Wire_Ids Condition_Wire
begin

text \<open>
  The messages of the broker protocol (\<open>muxe-protocol\<close>, \<open>wire.rs\<close>): the transfer types in the order
  of the source, the errors of validation, and the text checks the validators share. Types that
  the core defines under the same name carry the prefix \<open>wire\<close>.
\<close>

section \<open>Constants, roles and phases\<close>

definition PROTOCOL_VERSION :: u16 where "PROTOCOL_VERSION = 1"
definition MAX_FRAME_LEN :: u32 where "MAX_FRAME_LEN = 8 * 1024 * 1024"
definition MAX_CONTROL_FRAME_LEN :: u32 where "MAX_CONTROL_FRAME_LEN = 64 * 1024"
definition MAX_DIAGNOSTIC_LEN :: nat where "MAX_DIAGNOSTIC_LEN = 4 * 1024"

datatype codec = Rkyv | ControlJsonV1

definition codec_from_byte :: "u8 \<Rightarrow> codec option" where
  "codec_from_byte v = (if v = 1 then Some Rkyv else if v = 2 then Some ControlJsonV1 else None)"

fun codec_as_byte :: "codec \<Rightarrow> u8" where
  "codec_as_byte Rkyv = 1"
| "codec_as_byte ControlJsonV1 = 2"

datatype peer_role = RoleUi | RoleLauncher | RoleBridge | RoleActivationCoordinator | RoleBroker

definition role_from_byte :: "u8 \<Rightarrow> peer_role option" where
  "role_from_byte v =
     (if v = 1 then Some RoleUi
      else if v = 2 then Some RoleLauncher
      else if v = 3 then Some RoleBridge
      else if v = 4 then Some RoleActivationCoordinator
      else if v = 5 then Some RoleBroker
      else None)"

fun role_as_byte :: "peer_role \<Rightarrow> u8" where
  "role_as_byte RoleUi = 1"
| "role_as_byte RoleLauncher = 2"
| "role_as_byte RoleBridge = 3"
| "role_as_byte RoleActivationCoordinator = 4"
| "role_as_byte RoleBroker = 5"

datatype host_kind = HostZellij | HostHerdr

datatype message_direction = PeerToBroker | BrokerToPeer

datatype connection_phase = AwaitingHello | AwaitingWelcome | Ready

section \<open>Errors of validation\<close>

datatype semantic_error =
    SeEmpty string
  | SeTooLong string nat nat
  | SeNul string
  | SeControl string
  | SeWhitespace string
  | SeZeroNonce string
  | SeZeroGeneration
  | SeZeroLease
  | SeInvalidFrameLimit u32
  | SeZeroLayoutTitleLength
  | SeZeroEscapeTimeout
  | SeTooManyItems string nat nat
  | SeUnexpectedDiagnostic
  | SeMissingDiagnostic
  | SeMissingVisibleLabel
  | SeDuplicateMenu
  | SeMissingRootMenu
  | SeRelativePath string
  | SeBindingGenerationMismatch
  | SeUnknownMenuTarget
  | SeIllegalMessageForRole peer_role
  | SeIllegalSequence peer_role connection_phase

type_synonym check = "semantic_error + unit"

section \<open>Text checks\<close>

definition validate_text :: "string \<Rightarrow> str \<Rightarrow> check" where
  "validate_text field value =
     (if value = [] then Inl (SeEmpty field)
      else if 0 \<in> set value then Inl (SeNul field)
      else if \<exists>c \<in> set value. is_control c then Inl (SeControl field)
      else Inr ())"

definition validate_identifier :: "string \<Rightarrow> str \<Rightarrow> check" where
  "validate_identifier field value =
     rbind (validate_text field value)
       (\<lambda>_. if \<exists>c \<in> set value. is_whitespace c then Inl (SeWhitespace field) else Inr ())"

definition validate_menu_name :: "string \<Rightarrow> str \<Rightarrow> check" where
  "validate_menu_name field value = validate_text field value"

definition validate_clean_text :: "string \<Rightarrow> str \<Rightarrow> check" where
  "validate_clean_text field value =
     (if 0 \<in> set value then Inl (SeNul field)
      else if \<exists>c \<in> set value. is_control c then Inl (SeControl field)
      else Inr ())"

definition starts_with_slash :: "str \<Rightarrow> bool" where
  "starts_with_slash value = (case value of [] \<Rightarrow> False | c # _ \<Rightarrow> c = 0x2f)"

definition validate_absolute_path :: "string \<Rightarrow> str \<Rightarrow> check" where
  "validate_absolute_path field value =
     rbind (validate_text field value)
       (\<lambda>_. ensure (starts_with_slash value) (SeRelativePath field))"

definition validate_diagnostic :: "string \<Rightarrow> str \<Rightarrow> check" where
  "validate_diagnostic field value =
     (if MAX_DIAGNOSTIC_LEN < str_len value
      then Inl (SeTooLong field MAX_DIAGNOSTIC_LEN (str_len value))
      else validate_text field value)"

definition validate_generation :: "u64 \<Rightarrow> check" where
  "validate_generation g = (if g = 0 then Inl SeZeroGeneration else Inr ())"

definition validate_nonce :: "string \<Rightarrow> nonce \<Rightarrow> check" where
  "validate_nonce name n = (if n = 0 then Inl (SeZeroNonce name) else Inr ())"

section \<open>Transfer types\<close>

record wire_binding_id =
  wb_generation :: u64
  wb_ordinal :: u64

record live_server_identity =
  ls_host :: host_kind
  ls_discovery_key :: str
  ls_server_id :: server_id

record hello =
  he_process_version :: str
  he_live_server :: live_server_identity

record welcome_message =
  we_broker_version :: str
  we_live_server :: live_server_identity
  we_accepted_frame_len :: u32

datatype wire_menu_control = WireQuit | WireReturn
datatype wire_after_action = WireAfterQuit | WireAfterReturn | WireAfterStay
datatype wire_execution_mode = WireAwait | WireDetach
datatype wire_timeout_action = WireTimeoutDetach | WireTimeoutCancel
datatype wire_menu_control_action = WireControlDetach | WireControlCancel

record execution_policy_wire =
  ep_mode :: wire_execution_mode
  ep_timeout_millis :: "u64 option"
  ep_on_timeout :: wire_timeout_action
  ep_on_menu_control :: wire_menu_control_action

record binding_settings_wire =
  bs_after_action :: wire_after_action
  bs_execution :: execution_policy_wire
  bs_repeat :: "bool option"

record binding_state_wire =
  st_included :: bool
  st_enabled :: bool
  st_shown :: bool
  st_blocked :: bool

record binding_conditions_wire =
  bc_include :: "condition_ir_wire option"
  bc_enable :: "condition_ir_wire option"
  bc_show :: "condition_ir_wire option"

datatype binding_availability = AvailEnabled | AvailBlocked

datatype local_menu_action_wire =
    LocalOpen wire_menu_id
  | LocalControl wire_menu_control
  | LocalPagePrevious
  | LocalPageNext

datatype diagnostic_code =
    DcInvalidRequest | DcLaunchAborted | DcStaleGeneration | DcContextUnavailable | DcActionBlocked
  | DcActivationInProgress | DcHostUnavailable | DcOutcomeUnknown | DcProtocolViolation

record protocol_diagnostic =
  pd_code :: diagnostic_code
  pd_message :: str

record binding_view_wire =
  bv_id :: wire_binding_id
  bv_key :: str
  bv_label :: "str option"
  bv_hidden :: bool
  bv_state :: binding_state_wire
  bv_settings :: binding_settings_wire
  bv_conditions :: binding_conditions_wire
  bv_local_menu_action :: "local_menu_action_wire option"
  bv_diagnostic :: "protocol_diagnostic option"

record layout_padding_wire =
  lp_left :: u16
  lp_right :: u16
  lp_top :: u16
  lp_bottom :: u16
  lp_between_rows :: u16
  lp_between_columns :: u16

record layout_settings_wire =
  la_padding :: layout_padding_wire
  la_max_item_title_length :: u16

record menu_view_menu_wire =
  mv_id :: wire_menu_id
  mv_title :: "str option"
  mv_inactivity_timeout_millis :: "u64 option"
  mv_layout :: layout_settings_wire
  mv_bindings :: "binding_view_wire list"

record menu_view_wire =
  mw_generation :: u64
  mw_root :: wire_menu_id
  mw_menus :: "menu_view_menu_wire list"

record key_capabilities_wire =
  kc_event_types :: bool
  kc_alternate_keys :: bool
  kc_all_keys_as_escape_codes :: bool

datatype keyboard_profile_wire = ProfileVt100 u64 | ProfileKitty key_capabilities_wire

record named_string_wire =
  ns_name :: str
  ns_value :: str

record style_wire =
  sw_foreground :: "str option"
  sw_background :: "str option"
  sw_bold :: bool
  sw_dim :: bool
  sw_italic :: bool
  sw_underline :: bool
  sw_strikethrough :: bool

record named_style_wire =
  nst_name :: str
  nst_style :: style_wire

record theme_section_wire =
  ts_styles :: "named_style_wire list"
  ts_templates :: "named_string_wire list"

record color_scheme_wire =
  cs_title :: str
  cs_palette :: "named_string_wire list"
  cs_colors :: "named_string_wire list"

record compiled_theme_wire =
  ct_common :: theme_section_wire
  ct_menu :: theme_section_wire
  ct_settings :: "named_string_wire list"
  ct_scheme :: color_scheme_wire

record ui_attachment_wire =
  ua_menu :: menu_view_wire
  ua_keyboard :: keyboard_profile_wire
  ua_theme :: compiled_theme_wire

section \<open>Requests, responses and events\<close>

record prepare_ui_launch =
  pu_modal_scope :: modal_scope_id
  pu_root :: wire_menu_id
  pu_lease_millis :: u32

record register_pending_pane_request =
  rq_token :: pending_launch_token
  rq_pane :: host_pane_id
  rq_temporary_tab :: "host_tab_id option"

record ui_origin_bootstrap =
  uo_workspace :: workspace_id
  uo_tab :: host_tab_id
  uo_pane :: host_pane_id
  uo_cwd :: "str option"

record ui_caller_identity_wire =
  uc_workspace :: workspace_id
  uc_tab :: host_tab_id
  uc_pane :: host_pane_id
  uc_cwd :: str

record attach_ui =
  au_root :: wire_menu_id
  au_pane :: host_pane_id
  au_pending_launch :: "pending_launch_token option"
  au_origin :: "ui_origin_bootstrap option"
  au_caller_identity :: "ui_caller_identity_wire option"
  au_theme :: "str option"
  au_color_scheme :: "str option"

record commit_ui_launch =
  cu_token :: pending_launch_token
  cu_pane :: host_pane_id

record invoke_binding =
  ib_session :: ui_session_id
  ib_generation :: u64
  ib_binding :: wire_binding_id

datatype client_request =
    PrepareUiLaunch prepare_ui_launch
  | RegisterPendingPane register_pending_pane_request
  | WaitUiPlacement pending_launch_token
  | AttachUi attach_ui
  | CommitUiLaunch commit_ui_launch
  | AbortUiLaunch pending_launch_token
  | InvokeBinding invoke_binding
  | UiMenuControl ui_session_id wire_menu_control
  | DetachUi ui_session_id
  | Heartbeat

datatype invocation_disposition = Awaited | DispositionDetached | DispositionDismissed

datatype broker_response =
    LaunchPrepared pending_launch_token u32
  | PendingPaneRegistered
  | AttachPending
  | UiAttached ui_session_id ui_attachment_wire
  | InvocationAccepted wire_execution_id invocation_disposition
  | PendingControlCompleted wire_execution_id wire_menu_control
  | ResponseDetached
  | Acknowledged
  | ResponseError protocol_diagnostic

datatype execution_outcome =
    Succeeded | Failed | Cancelled | TimedOut | OutcomeDetached | OutcomeUnknown

datatype broker_event =
    ExecutionCompleted ui_session_id wire_execution_id execution_outcome "protocol_diagnostic option"
  | BindingAvailabilityChanged ui_session_id u64 wire_binding_id binding_availability "protocol_diagnostic option"
  | AdapterHealthChanged bool "protocol_diagnostic option"
  | BrokerRetiring
  | Fatal protocol_diagnostic

datatype wire_message =
    MsgHello request_id hello
  | MsgWelcome request_id welcome_message
  | MsgRequest request_id client_request
  | MsgResponse request_id broker_response
  | MsgEvent event_id broker_event

end
