(* ===== verification/Wire_Validate.thy ===== *)
theory Wire_Validate
  imports Wire_Types
begin

text \<open>
  \<open>muxe-protocol\<close>, \<open>wire.rs\<close>: the implementations of the trait \<open>Validate\<close> for owned messages, and
  \<open>validate_for_peer\<close>. Each returns the first violation, in the order of the source.
\<close>

section \<open>Identities\<close>

fun validate_ui_session_id :: "ui_session_id \<Rightarrow> check" where
  "validate_ui_session_id (UiSessionId v) = validate_identifier ''UiSessionId'' v"

fun validate_modal_scope_id :: "modal_scope_id \<Rightarrow> check" where
  "validate_modal_scope_id (ModalScopeId v) = validate_identifier ''ModalScopeId'' v"

fun validate_host_pane_id :: "host_pane_id \<Rightarrow> check" where
  "validate_host_pane_id (HostPaneId v) = validate_identifier ''HostPaneId'' v"

fun validate_host_tab_id :: "host_tab_id \<Rightarrow> check" where
  "validate_host_tab_id (HostTabId v) = validate_identifier ''HostTabId'' v"

fun validate_server_id :: "server_id \<Rightarrow> check" where
  "validate_server_id (ServerId v) = validate_identifier ''ServerId'' v"

fun validate_workspace_id :: "workspace_id \<Rightarrow> check" where
  "validate_workspace_id (WorkspaceId v) = validate_identifier ''WorkspaceId'' v"

fun validate_wire_menu_id :: "wire_menu_id \<Rightarrow> check" where
  "validate_wire_menu_id (WireNamed name) = validate_menu_name ''MenuId'' name"
| "validate_wire_menu_id (WireInline parent _) = validate_menu_name ''MenuId.parent'' parent"

fun validate_request_id :: "request_id \<Rightarrow> check" where
  "validate_request_id (RequestId n) = validate_nonce ''RequestId'' n"

fun validate_event_id :: "event_id \<Rightarrow> check" where
  "validate_event_id (EventId n) = validate_nonce ''EventId'' n"

fun validate_pending_launch_token :: "pending_launch_token \<Rightarrow> check" where
  "validate_pending_launch_token (PendingLaunchToken n) = validate_nonce ''PendingLaunchToken'' n"

fun validate_wire_execution_id :: "wire_execution_id \<Rightarrow> check" where
  "validate_wire_execution_id (WireExecutionId n) = validate_nonce ''ExecutionId'' n"

definition validate_wire_binding_id :: "wire_binding_id \<Rightarrow> check" where
  "validate_wire_binding_id b = validate_generation (wb_generation b)"

section \<open>Handshake\<close>

definition validate_live_server :: "live_server_identity \<Rightarrow> check" where
  "validate_live_server s =
     rbind (validate_text ''live server discovery key'' (ls_discovery_key s))
       (\<lambda>_. validate_server_id (ls_server_id s))"

definition validate_hello :: "hello \<Rightarrow> check" where
  "validate_hello h =
     rbind (validate_text ''process version'' (he_process_version h))
       (\<lambda>_. validate_live_server (he_live_server h))"

definition validate_welcome :: "welcome_message \<Rightarrow> check" where
  "validate_welcome w =
     rbind (validate_text ''broker version'' (we_broker_version w)) (\<lambda>_.
     rbind (validate_live_server (we_live_server w)) (\<lambda>_.
       if we_accepted_frame_len w = 0 \<or> MAX_FRAME_LEN < we_accepted_frame_len w
       then Inl (SeInvalidFrameLimit (we_accepted_frame_len w)) else Inr ()))"

section \<open>Menus\<close>

fun validate_condition :: "condition_ir_wire \<Rightarrow> check" where
  "validate_condition (WBool _) = Inr ()"
| "validate_condition (WInteger _) = Inr ()"
| "validate_condition WPagesCount = Inr ()"
| "validate_condition WPagesCurrent = Inr ()"
| "validate_condition (WNot v) = validate_condition v"
| "validate_condition (WNegate v) = validate_condition v"
| "validate_condition (WAnd l r) = rbind (validate_condition l) (\<lambda>_. validate_condition r)"
| "validate_condition (WOr l r) = rbind (validate_condition l) (\<lambda>_. validate_condition r)"
| "validate_condition (WEqual l r) = rbind (validate_condition l) (\<lambda>_. validate_condition r)"
| "validate_condition (WNotEqual l r) = rbind (validate_condition l) (\<lambda>_. validate_condition r)"
| "validate_condition (WLess l r) = rbind (validate_condition l) (\<lambda>_. validate_condition r)"
| "validate_condition (WLessEqual l r) = rbind (validate_condition l) (\<lambda>_. validate_condition r)"
| "validate_condition (WGreater l r) = rbind (validate_condition l) (\<lambda>_. validate_condition r)"
| "validate_condition (WGreaterEqual l r) = rbind (validate_condition l) (\<lambda>_. validate_condition r)"
| "validate_condition (WAdd l r) = rbind (validate_condition l) (\<lambda>_. validate_condition r)"
| "validate_condition (WSubtract l r) = rbind (validate_condition l) (\<lambda>_. validate_condition r)"
| "validate_condition (WMultiply l r) = rbind (validate_condition l) (\<lambda>_. validate_condition r)"
| "validate_condition (WDivide l r) = rbind (validate_condition l) (\<lambda>_. validate_condition r)"
| "validate_condition (WModulo l r) = rbind (validate_condition l) (\<lambda>_. validate_condition r)"
| "validate_condition (WConditional c l r) =
     rbind (validate_condition c) (\<lambda>_. rbind (validate_condition l) (\<lambda>_. validate_condition r))"

definition validate_binding_conditions :: "binding_conditions_wire \<Rightarrow> check" where
  "validate_binding_conditions c =
     each_ok (opt_ok validate_condition) [bc_include c, bc_enable c, bc_show c]"

definition validate_execution_policy :: "execution_policy_wire \<Rightarrow> check" where
  "validate_execution_policy p = Inr ()"

definition validate_binding_settings :: "binding_settings_wire \<Rightarrow> check" where
  "validate_binding_settings s = validate_execution_policy (bs_execution s)"

fun validate_local_menu_action :: "local_menu_action_wire \<Rightarrow> check" where
  "validate_local_menu_action (LocalOpen target) = validate_wire_menu_id target"
| "validate_local_menu_action (LocalControl _) = Inr ()"
| "validate_local_menu_action LocalPagePrevious = Inr ()"
| "validate_local_menu_action LocalPageNext = Inr ()"

definition validate_protocol_diagnostic :: "protocol_diagnostic \<Rightarrow> check" where
  "validate_protocol_diagnostic d = validate_diagnostic ''protocol diagnostic'' (pd_message d)"

definition validate_binding :: "binding_view_wire \<Rightarrow> check" where
  "validate_binding b =
     rbind (validate_wire_binding_id (bv_id b)) (\<lambda>_.
     rbind (validate_text ''binding key'' (bv_key b)) (\<lambda>_.
     rbind (opt_ok (validate_clean_text ''binding label'') (bv_label b)) (\<lambda>_.
     rbind (if st_included (bv_state b) \<and> st_shown (bv_state b) \<and> \<not> bv_hidden b
            then rbind (ok_or (bv_label b) SeMissingVisibleLabel)
                   (validate_text ''visible binding label'')
            else Inr ()) (\<lambda>_.
     rbind (validate_binding_settings (bv_settings b)) (\<lambda>_.
     rbind (validate_binding_conditions (bv_conditions b)) (\<lambda>_.
     rbind (opt_ok validate_local_menu_action (bv_local_menu_action b)) (\<lambda>_.
       case (st_blocked (bv_state b), bv_diagnostic b) of
         (False, Some _) \<Rightarrow> Inl SeUnexpectedDiagnostic
       | (True, None) \<Rightarrow> Inl SeMissingDiagnostic
       | (_, Some d) \<Rightarrow> validate_protocol_diagnostic d
       | (_, None) \<Rightarrow> Inr ())))))))"

definition validate_layout :: "layout_settings_wire \<Rightarrow> check" where
  "validate_layout l = ensure (0 < la_max_item_title_length l) SeZeroLayoutTitleLength"

definition validate_menu :: "menu_view_menu_wire \<Rightarrow> check" where
  "validate_menu m =
     rbind (validate_wire_menu_id (mv_id m)) (\<lambda>_.
     rbind (validate_layout (mv_layout m)) (\<lambda>_.
     rbind (opt_ok (validate_clean_text ''menu title'') (mv_title m)) (\<lambda>_.
       each_ok validate_binding (mv_bindings m))))"

text \<open>The body of the inner loop over the bindings of one menu.\<close>

definition check_graph_binding :: "menu_view_wire \<Rightarrow> binding_view_wire \<Rightarrow> check" where
  "check_graph_binding view b =
     (if wb_generation (bv_id b) \<noteq> mw_generation view then Inl SeBindingGenerationMismatch
      else case bv_local_menu_action b of
        Some (LocalOpen target) \<Rightarrow>
          if \<not> (\<exists>m \<in> set (mw_menus view). mv_id m = target) then Inl SeUnknownMenuTarget else Inr ()
      | _ \<Rightarrow> Inr ())"

text \<open>
  The outer loop: the menus already visited, those to come, and \<open>root_found\<close>; \<open>vm\<close> validates one
  menu.
\<close>

fun menu_loop ::
  "(menu_view_menu_wire \<Rightarrow> check) \<Rightarrow> menu_view_wire \<Rightarrow> menu_view_menu_wire list
   \<Rightarrow> menu_view_menu_wire list \<Rightarrow> bool \<Rightarrow> semantic_error + bool" where
  "menu_loop vm view prior [] root_found = Inr root_found"
| "menu_loop vm view prior (m # ms) root_found =
     rbind (vm m) (\<lambda>_.
       let root_found' = (if mv_id m = mw_root view then True else root_found)
       in if \<exists>p \<in> set prior. mv_id p = mv_id m then Inl SeDuplicateMenu
          else rbind (each_ok (check_graph_binding view) (mv_bindings m))
                 (\<lambda>_. menu_loop vm view (prior @ [m]) ms root_found'))"

definition validate_menu_view :: "menu_view_wire \<Rightarrow> check" where
  "validate_menu_view view =
     rbind (validate_generation (mw_generation view)) (\<lambda>_.
     rbind (validate_wire_menu_id (mw_root view)) (\<lambda>_.
     rbind (menu_loop validate_menu view [] (mw_menus view) False)
       (\<lambda>root_found. ensure root_found SeMissingRootMenu)))"

fun validate_keyboard :: "keyboard_profile_wire \<Rightarrow> check" where
  "validate_keyboard (ProfileVt100 t) = (if t = 0 then Inl SeZeroEscapeTimeout else Inr ())"
| "validate_keyboard (ProfileKitty _) = Inr ()"

definition validate_named_string :: "named_string_wire \<Rightarrow> check" where
  "validate_named_string n =
     rbind (validate_identifier ''render-model name'' (ns_name n))
       (\<lambda>_. validate_clean_text ''render-model value'' (ns_value n))"

definition validate_style :: "style_wire \<Rightarrow> check" where
  "validate_style s =
     each_ok (opt_ok (validate_clean_text ''style color'')) [sw_foreground s, sw_background s]"

definition validate_named_style :: "named_style_wire \<Rightarrow> check" where
  "validate_named_style n =
     rbind (validate_identifier ''style name'' (nst_name n)) (\<lambda>_. validate_style (nst_style n))"

definition validate_theme_section :: "theme_section_wire \<Rightarrow> check" where
  "validate_theme_section s =
     rbind (each_ok validate_named_style (ts_styles s))
       (\<lambda>_. each_ok validate_named_string (ts_templates s))"

definition validate_color_scheme :: "color_scheme_wire \<Rightarrow> check" where
  "validate_color_scheme s =
     rbind (validate_clean_text ''color-scheme title'' (cs_title s))
       (\<lambda>_. each_ok validate_named_string (cs_palette s @ cs_colors s))"

definition validate_theme :: "compiled_theme_wire \<Rightarrow> check" where
  "validate_theme t =
     rbind (validate_theme_section (ct_common t)) (\<lambda>_.
     rbind (validate_theme_section (ct_menu t)) (\<lambda>_.
     rbind (each_ok validate_named_string (ct_settings t)) (\<lambda>_.
       validate_color_scheme (ct_scheme t))))"

definition validate_attachment :: "ui_attachment_wire \<Rightarrow> check" where
  "validate_attachment a =
     rbind (validate_menu_view (ua_menu a)) (\<lambda>_.
     rbind (validate_keyboard (ua_keyboard a)) (\<lambda>_. validate_theme (ua_theme a)))"

section \<open>Requests\<close>

definition validate_prepare :: "prepare_ui_launch \<Rightarrow> check" where
  "validate_prepare p =
     rbind (validate_modal_scope_id (pu_modal_scope p)) (\<lambda>_.
     rbind (validate_wire_menu_id (pu_root p)) (\<lambda>_.
       if pu_lease_millis p = 0 then Inl SeZeroLease else Inr ()))"

definition validate_register :: "register_pending_pane_request \<Rightarrow> check" where
  "validate_register r =
     rbind (validate_pending_launch_token (rq_token r)) (\<lambda>_.
     rbind (validate_host_pane_id (rq_pane r)) (\<lambda>_.
       opt_ok validate_host_tab_id (rq_temporary_tab r)))"

definition validate_origin :: "ui_origin_bootstrap \<Rightarrow> check" where
  "validate_origin origin =
     rbind (validate_workspace_id (uo_workspace origin)) (\<lambda>_.
     rbind (validate_host_tab_id (uo_tab origin)) (\<lambda>_.
     rbind (validate_host_pane_id (uo_pane origin)) (\<lambda>_.
       opt_ok (validate_absolute_path ''origin cwd'') (uo_cwd origin))))"

definition validate_caller :: "ui_caller_identity_wire \<Rightarrow> check" where
  "validate_caller c =
     rbind (validate_workspace_id (uc_workspace c)) (\<lambda>_.
     rbind (validate_host_tab_id (uc_tab c)) (\<lambda>_.
     rbind (validate_host_pane_id (uc_pane c)) (\<lambda>_.
       validate_absolute_path ''caller cwd'' (uc_cwd c))))"

definition validate_attach :: "attach_ui \<Rightarrow> check" where
  "validate_attach a =
     rbind (validate_wire_menu_id (au_root a)) (\<lambda>_.
     rbind (validate_host_pane_id (au_pane a)) (\<lambda>_.
     rbind (opt_ok validate_pending_launch_token (au_pending_launch a)) (\<lambda>_.
     rbind (opt_ok validate_origin (au_origin a)) (\<lambda>_.
     rbind (opt_ok validate_caller (au_caller_identity a)) (\<lambda>_.
     rbind (opt_ok (validate_identifier ''theme override'') (au_theme a)) (\<lambda>_.
       opt_ok (validate_identifier ''color scheme override'') (au_color_scheme a)))))))"

definition validate_commit :: "commit_ui_launch \<Rightarrow> check" where
  "validate_commit c =
     rbind (validate_pending_launch_token (cu_token c)) (\<lambda>_. validate_host_pane_id (cu_pane c))"

definition validate_invoke :: "invoke_binding \<Rightarrow> check" where
  "validate_invoke i =
     rbind (validate_ui_session_id (ib_session i)) (\<lambda>_.
     rbind (validate_generation (ib_generation i)) (\<lambda>_.
     rbind (validate_wire_binding_id (ib_binding i)) (\<lambda>_.
       if wb_generation (ib_binding i) \<noteq> ib_generation i
       then Inl SeBindingGenerationMismatch else Inr ())))"

fun validate_request :: "client_request \<Rightarrow> check" where
  "validate_request (PrepareUiLaunch v) = validate_prepare v"
| "validate_request (RegisterPendingPane v) = validate_register v"
| "validate_request (AttachUi v) = validate_attach v"
| "validate_request (WaitUiPlacement t) = validate_pending_launch_token t"
| "validate_request (CommitUiLaunch v) = validate_commit v"
| "validate_request (AbortUiLaunch t) = validate_pending_launch_token t"
| "validate_request (InvokeBinding v) = validate_invoke v"
| "validate_request (UiMenuControl s _) = validate_ui_session_id s"
| "validate_request (DetachUi s) = validate_ui_session_id s"
| "validate_request Heartbeat = Inr ()"

fun allowed_for :: "client_request \<Rightarrow> peer_role \<Rightarrow> bool" where
  "allowed_for r RoleLauncher =
     (case r of PrepareUiLaunch _ \<Rightarrow> True | RegisterPendingPane _ \<Rightarrow> True | CommitUiLaunch _ \<Rightarrow> True
      | AbortUiLaunch _ \<Rightarrow> True | Heartbeat \<Rightarrow> True | _ \<Rightarrow> False)"
| "allowed_for r RoleUi =
     (case r of AttachUi _ \<Rightarrow> True | WaitUiPlacement _ \<Rightarrow> True | InvokeBinding _ \<Rightarrow> True
      | UiMenuControl _ _ \<Rightarrow> True | DetachUi _ \<Rightarrow> True | Heartbeat \<Rightarrow> True | _ \<Rightarrow> False)"
| "allowed_for r RoleBridge = False"
| "allowed_for r RoleActivationCoordinator = False"
| "allowed_for r RoleBroker = False"

section \<open>Responses and events\<close>

fun validate_response :: "broker_response \<Rightarrow> check" where
  "validate_response (LaunchPrepared token lease_millis) =
     rbind (validate_pending_launch_token token)
       (\<lambda>_. if lease_millis = 0 then Inl SeZeroLease else Inr ())"
| "validate_response (UiAttached session snapshot) =
     rbind (validate_ui_session_id session) (\<lambda>_. validate_attachment snapshot)"
| "validate_response (InvocationAccepted execution _) = validate_wire_execution_id execution"
| "validate_response (PendingControlCompleted execution _) = validate_wire_execution_id execution"
| "validate_response (ResponseError d) = validate_protocol_diagnostic d"
| "validate_response PendingPaneRegistered = Inr ()"
| "validate_response AttachPending = Inr ()"
| "validate_response ResponseDetached = Inr ()"
| "validate_response Acknowledged = Inr ()"

text \<open>The last \<open>match\<close> of an availability event.\<close>

fun availability_diagnostic :: "binding_availability \<Rightarrow> protocol_diagnostic option \<Rightarrow> check" where
  "availability_diagnostic AvailEnabled (Some _) = Inl SeUnexpectedDiagnostic"
| "availability_diagnostic AvailBlocked None = Inl SeMissingDiagnostic"
| "availability_diagnostic AvailBlocked (Some d) = validate_protocol_diagnostic d"
| "availability_diagnostic AvailEnabled None = Inr ()"

fun validate_event :: "broker_event \<Rightarrow> check" where
  "validate_event (ExecutionCompleted session execution _ d) =
     rbind (validate_ui_session_id session) (\<lambda>_.
     rbind (validate_wire_execution_id execution) (\<lambda>_. opt_ok validate_protocol_diagnostic d))"
| "validate_event (BindingAvailabilityChanged session generation binding availability d) =
     rbind (validate_ui_session_id session) (\<lambda>_.
     rbind (validate_generation generation) (\<lambda>_.
     rbind (validate_wire_binding_id binding) (\<lambda>_. availability_diagnostic availability d)))"
| "validate_event (AdapterHealthChanged _ d) = opt_ok validate_protocol_diagnostic d"
| "validate_event (Fatal d) = validate_protocol_diagnostic d"
| "validate_event BrokerRetiring = Inr ()"

section \<open>Messages\<close>

definition validate_for_peer ::
  "wire_message \<Rightarrow> peer_role \<Rightarrow> message_direction \<Rightarrow> connection_phase \<Rightarrow> semantic_error + connection_phase" where
  "validate_for_peer message role direction phase =
     (case (direction, phase, message) of
        (PeerToBroker, AwaitingHello, MsgHello request_id h) \<Rightarrow>
          rbind (validate_request_id request_id) (\<lambda>_. rbind (validate_hello h) (\<lambda>_. Inr Ready))
      | (BrokerToPeer, AwaitingWelcome, MsgWelcome request_id w) \<Rightarrow>
          rbind (validate_request_id request_id) (\<lambda>_. rbind (validate_welcome w) (\<lambda>_. Inr Ready))
      | (PeerToBroker, Ready, MsgRequest request_id request) \<Rightarrow>
          rbind (validate_request_id request_id) (\<lambda>_. rbind (validate_request request) (\<lambda>_.
            if \<not> allowed_for request role then Inl (SeIllegalMessageForRole role) else Inr Ready))
      | (BrokerToPeer, Ready, MsgResponse request_id response) \<Rightarrow>
          rbind (validate_request_id request_id) (\<lambda>_. rbind (validate_response response) (\<lambda>_. Inr Ready))
      | (BrokerToPeer, Ready, MsgEvent event_id event) \<Rightarrow>
          rbind (validate_event_id event_id) (\<lambda>_. rbind (validate_event event) (\<lambda>_. Inr Ready))
      | _ \<Rightarrow> Inl (SeIllegalSequence role phase))"

end
