(* ===== verification/Wire_Archived.thy ===== *)
theory Wire_Archived
  imports Wire_Validate
begin

text \<open>
  \<open>muxe-protocol\<close>, \<open>wire.rs\<close>: the twin validators that run on a checked archive without
  deserializing it, and \<open>validate_archived_wire_message\<close>, the gate every received frame passes. An
  archived value holds the fields of the wire value; the byte layout belongs to rkyv.
\<close>

section \<open>Scalars and text\<close>

definition validate_archived_nonce :: "nonce \<Rightarrow> string \<Rightarrow> check" where
  "validate_archived_nonce value name = ensure (value \<noteq> 0) (SeZeroNonce name)"

definition validate_archived_text :: "string \<Rightarrow> str \<Rightarrow> bool \<Rightarrow> check" where
  "validate_archived_text field value required =
     (if required \<and> value = [] then Inl (SeEmpty field)
      else if 0 \<in> set value then Inl (SeNul field)
      else if \<exists>c \<in> set value. is_control c then Inl (SeControl field)
      else Inr ())"

definition validate_archived_identifier :: "string \<Rightarrow> str \<Rightarrow> check" where
  "validate_archived_identifier field value =
     rbind (validate_archived_text field value True)
       (\<lambda>_. if \<exists>c \<in> set value. is_whitespace c then Inl (SeWhitespace field) else Inr ())"

definition validate_archived_menu_name :: "string \<Rightarrow> str \<Rightarrow> check" where
  "validate_archived_menu_name field value = validate_archived_text field value True"

fun validate_archived_menu_id :: "wire_menu_id \<Rightarrow> check" where
  "validate_archived_menu_id (WireNamed name) = validate_archived_menu_name ''MenuId'' name"
| "validate_archived_menu_id (WireInline parent _) =
     validate_archived_menu_name ''MenuId.parent'' parent"

fun archived_menu_id_eq :: "wire_menu_id \<Rightarrow> wire_menu_id \<Rightarrow> bool" where
  "archived_menu_id_eq (WireNamed l) (WireNamed r) = (l = r)"
| "archived_menu_id_eq (WireInline lp lo) (WireInline rp ro) = (lp = rp \<and> lo = ro)"
| "archived_menu_id_eq _ _ = False"

definition validate_archived_clean_text :: "string \<Rightarrow> str \<Rightarrow> check" where
  "validate_archived_clean_text field value = validate_archived_text field value False"

definition validate_archived_absolute_path :: "string \<Rightarrow> str \<Rightarrow> check" where
  "validate_archived_absolute_path field value =
     rbind (validate_archived_text field value True)
       (\<lambda>_. ensure (starts_with_slash value) (SeRelativePath field))"

definition validate_archived_generation :: "u64 \<Rightarrow> check" where
  "validate_archived_generation generation = ensure (0 < generation) SeZeroGeneration"

definition validate_archived_diagnostic :: "protocol_diagnostic \<Rightarrow> check" where
  "validate_archived_diagnostic d =
     (if MAX_DIAGNOSTIC_LEN < str_len (pd_message d)
      then Inl (SeTooLong ''protocol diagnostic'' MAX_DIAGNOSTIC_LEN (str_len (pd_message d)))
      else validate_archived_text ''protocol diagnostic'' (pd_message d) True)"

definition validate_archived_optional_diagnostic :: "protocol_diagnostic option \<Rightarrow> check" where
  "validate_archived_optional_diagnostic d = opt_ok validate_archived_diagnostic d"

text \<open>Access to the text of an identity and the word of a nonce.\<close>

fun server_text :: "server_id \<Rightarrow> str" where "server_text (ServerId v) = v"
fun session_text :: "ui_session_id \<Rightarrow> str" where "session_text (UiSessionId v) = v"
fun modal_scope_text :: "modal_scope_id \<Rightarrow> str" where "modal_scope_text (ModalScopeId v) = v"
fun pane_text :: "host_pane_id \<Rightarrow> str" where "pane_text (HostPaneId v) = v"
fun tab_text :: "host_tab_id \<Rightarrow> str" where "tab_text (HostTabId v) = v"
fun workspace_text :: "workspace_id \<Rightarrow> str" where "workspace_text (WorkspaceId v) = v"
fun request_nonce :: "request_id \<Rightarrow> nonce" where "request_nonce (RequestId n) = n"
fun event_nonce :: "event_id \<Rightarrow> nonce" where "event_nonce (EventId n) = n"
fun token_nonce :: "pending_launch_token \<Rightarrow> nonce" where "token_nonce (PendingLaunchToken n) = n"
fun execution_nonce :: "wire_execution_id \<Rightarrow> nonce" where "execution_nonce (WireExecutionId n) = n"

section \<open>Menus and themes\<close>

fun validate_archived_local_action :: "local_menu_action_wire \<Rightarrow> check" where
  "validate_archived_local_action (LocalOpen target) = validate_archived_menu_id target"
| "validate_archived_local_action (LocalControl _) = Inr ()"
| "validate_archived_local_action LocalPagePrevious = Inr ()"
| "validate_archived_local_action LocalPageNext = Inr ()"

definition validate_archived_binding :: "binding_view_wire \<Rightarrow> check" where
  "validate_archived_binding b =
     rbind (validate_archived_generation (wb_generation (bv_id b))) (\<lambda>_.
     rbind (validate_archived_text ''binding key'' (bv_key b) True) (\<lambda>_.
     rbind (opt_ok (validate_archived_clean_text ''binding label'') (bv_label b)) (\<lambda>_.
     rbind (if st_included (bv_state b) \<and> st_shown (bv_state b) \<and> \<not> bv_hidden b
            then rbind (ok_or (bv_label b) SeMissingVisibleLabel)
                   (\<lambda>label. validate_archived_text ''visible binding label'' label True)
            else Inr ()) (\<lambda>_.
     rbind (opt_ok validate_archived_local_action (bv_local_menu_action b)) (\<lambda>_.
       case (st_blocked (bv_state b), bv_diagnostic b) of
         (False, Some _) \<Rightarrow> Inl SeUnexpectedDiagnostic
       | (True, None) \<Rightarrow> Inl SeMissingDiagnostic
       | (_, Some d) \<Rightarrow> validate_archived_diagnostic d
       | (_, None) \<Rightarrow> Inr ())))))"

definition validate_archived_menu :: "menu_view_menu_wire \<Rightarrow> check" where
  "validate_archived_menu m =
     rbind (validate_archived_menu_id (mv_id m)) (\<lambda>_.
       if la_max_item_title_length (mv_layout m) = 0 then Inl SeZeroLayoutTitleLength
       else rbind (opt_ok (validate_archived_clean_text ''menu title'') (mv_title m))
              (\<lambda>_. each_ok validate_archived_binding (mv_bindings m)))"

definition check_archived_graph_binding :: "menu_view_wire \<Rightarrow> binding_view_wire \<Rightarrow> check" where
  "check_archived_graph_binding view b =
     (if wb_generation (bv_id b) \<noteq> mw_generation view then Inl SeBindingGenerationMismatch
      else case bv_local_menu_action b of
        Some (LocalOpen target) \<Rightarrow>
          if \<not> (\<exists>m \<in> set (mw_menus view). archived_menu_id_eq (mv_id m) target)
          then Inl SeUnknownMenuTarget else Inr ()
      | _ \<Rightarrow> Inr ())"

fun archived_menu_loop ::
  "menu_view_wire \<Rightarrow> menu_view_menu_wire list \<Rightarrow> menu_view_menu_wire list \<Rightarrow> bool
   \<Rightarrow> semantic_error + bool" where
  "archived_menu_loop view prior [] root_found = Inr root_found"
| "archived_menu_loop view prior (m # ms) root_found =
     rbind (validate_archived_menu m) (\<lambda>_.
       let root_found' = (if archived_menu_id_eq (mv_id m) (mw_root view) then True else root_found)
       in if \<exists>p \<in> set prior. archived_menu_id_eq (mv_id p) (mv_id m) then Inl SeDuplicateMenu
          else rbind (each_ok (check_archived_graph_binding view) (mv_bindings m))
                 (\<lambda>_. archived_menu_loop view (prior @ [m]) ms root_found'))"

definition validate_archived_menu_view :: "menu_view_wire \<Rightarrow> check" where
  "validate_archived_menu_view view =
     rbind (validate_archived_generation (mw_generation view)) (\<lambda>_.
     rbind (validate_archived_menu_id (mw_root view)) (\<lambda>_.
     rbind (archived_menu_loop view [] (mw_menus view) False)
       (\<lambda>root_found. ensure root_found SeMissingRootMenu)))"

fun validate_archived_keyboard :: "keyboard_profile_wire \<Rightarrow> check" where
  "validate_archived_keyboard (ProfileVt100 t) = (if t = 0 then Inl SeZeroEscapeTimeout else Inr ())"
| "validate_archived_keyboard (ProfileKitty _) = Inr ()"

definition validate_archived_named_string :: "named_string_wire \<Rightarrow> check" where
  "validate_archived_named_string n =
     rbind (validate_archived_identifier ''render-model name'' (ns_name n))
       (\<lambda>_. validate_archived_clean_text ''render-model value'' (ns_value n))"

definition validate_archived_named_style :: "named_style_wire \<Rightarrow> check" where
  "validate_archived_named_style n =
     rbind (validate_archived_identifier ''style name'' (nst_name n))
       (\<lambda>_. each_ok (opt_ok (validate_archived_clean_text ''style color''))
              [sw_foreground (nst_style n), sw_background (nst_style n)])"

definition validate_archived_theme_section :: "theme_section_wire \<Rightarrow> check" where
  "validate_archived_theme_section s =
     rbind (each_ok validate_archived_named_style (ts_styles s))
       (\<lambda>_. each_ok validate_archived_named_string (ts_templates s))"

definition validate_archived_color_scheme :: "color_scheme_wire \<Rightarrow> check" where
  "validate_archived_color_scheme s =
     rbind (validate_archived_clean_text ''color-scheme title'' (cs_title s))
       (\<lambda>_. each_ok validate_archived_named_string (cs_palette s @ cs_colors s))"

definition validate_archived_theme :: "compiled_theme_wire \<Rightarrow> check" where
  "validate_archived_theme t =
     rbind (validate_archived_theme_section (ct_common t)) (\<lambda>_.
     rbind (validate_archived_theme_section (ct_menu t)) (\<lambda>_.
     rbind (each_ok validate_archived_named_string (ct_settings t)) (\<lambda>_.
       validate_archived_color_scheme (ct_scheme t))))"

definition validate_archived_attachment :: "ui_attachment_wire \<Rightarrow> check" where
  "validate_archived_attachment a =
     rbind (validate_archived_menu_view (ua_menu a)) (\<lambda>_.
     rbind (validate_archived_keyboard (ua_keyboard a)) (\<lambda>_. validate_archived_theme (ua_theme a)))"

section \<open>Requests, responses and events\<close>

definition validate_archived_origin_bootstrap :: "ui_origin_bootstrap \<Rightarrow> check" where
  "validate_archived_origin_bootstrap origin =
     rbind (validate_archived_identifier ''WorkspaceId'' (workspace_text (uo_workspace origin))) (\<lambda>_.
     rbind (validate_archived_identifier ''HostTabId'' (tab_text (uo_tab origin))) (\<lambda>_.
     rbind (validate_archived_identifier ''HostPaneId'' (pane_text (uo_pane origin))) (\<lambda>_.
       opt_ok (validate_archived_absolute_path ''origin cwd'') (uo_cwd origin))))"

definition validate_archived_caller_identity :: "ui_caller_identity_wire \<Rightarrow> check" where
  "validate_archived_caller_identity c =
     rbind (validate_archived_identifier ''WorkspaceId'' (workspace_text (uc_workspace c))) (\<lambda>_.
     rbind (validate_archived_identifier ''HostTabId'' (tab_text (uc_tab c))) (\<lambda>_.
     rbind (validate_archived_identifier ''HostPaneId'' (pane_text (uc_pane c))) (\<lambda>_.
       validate_archived_absolute_path ''caller cwd'' (uc_cwd c))))"

fun validate_archived_request :: "client_request \<Rightarrow> check" where
  "validate_archived_request (PrepareUiLaunch v) =
     rbind (validate_archived_identifier ''ModalScopeId'' (modal_scope_text (pu_modal_scope v))) (\<lambda>_.
     rbind (validate_archived_menu_id (pu_root v)) (\<lambda>_. ensure (0 < pu_lease_millis v) SeZeroLease))"
| "validate_archived_request (RegisterPendingPane v) =
     rbind (validate_archived_nonce (token_nonce (rq_token v)) ''PendingLaunchToken'') (\<lambda>_.
     rbind (validate_archived_identifier ''HostPaneId'' (pane_text (rq_pane v))) (\<lambda>_.
       opt_ok (\<lambda>tab. validate_archived_identifier ''HostTabId'' (tab_text tab)) (rq_temporary_tab v)))"
| "validate_archived_request (AttachUi v) =
     rbind (validate_archived_menu_id (au_root v)) (\<lambda>_.
     rbind (validate_archived_identifier ''HostPaneId'' (pane_text (au_pane v))) (\<lambda>_.
     rbind (opt_ok (\<lambda>t. validate_archived_nonce (token_nonce t) ''PendingLaunchToken'')
              (au_pending_launch v)) (\<lambda>_.
     rbind (opt_ok validate_archived_origin_bootstrap (au_origin v)) (\<lambda>_.
     rbind (opt_ok validate_archived_caller_identity (au_caller_identity v)) (\<lambda>_.
     rbind (opt_ok (validate_archived_identifier ''theme override'') (au_theme v)) (\<lambda>_.
       opt_ok (validate_archived_identifier ''color scheme override'') (au_color_scheme v)))))))"
| "validate_archived_request (CommitUiLaunch v) =
     rbind (validate_archived_nonce (token_nonce (cu_token v)) ''PendingLaunchToken'') (\<lambda>_.
       validate_archived_identifier ''HostPaneId'' (pane_text (cu_pane v)))"
| "validate_archived_request (WaitUiPlacement t) =
     validate_archived_nonce (token_nonce t) ''PendingLaunchToken''"
| "validate_archived_request (AbortUiLaunch t) =
     validate_archived_nonce (token_nonce t) ''PendingLaunchToken''"
| "validate_archived_request (InvokeBinding v) =
     rbind (validate_archived_identifier ''UiSessionId'' (session_text (ib_session v))) (\<lambda>_.
     rbind (ensure (0 < ib_generation v) SeZeroGeneration) (\<lambda>_.
       ensure (wb_generation (ib_binding v) = ib_generation v) SeBindingGenerationMismatch))"
| "validate_archived_request (UiMenuControl s _) =
     validate_archived_identifier ''UiSessionId'' (session_text s)"
| "validate_archived_request (DetachUi s) =
     validate_archived_identifier ''UiSessionId'' (session_text s)"
| "validate_archived_request Heartbeat = Inr ()"

fun archived_request_allowed_for :: "client_request \<Rightarrow> peer_role \<Rightarrow> bool" where
  "archived_request_allowed_for r RoleLauncher =
     (case r of PrepareUiLaunch _ \<Rightarrow> True | RegisterPendingPane _ \<Rightarrow> True | CommitUiLaunch _ \<Rightarrow> True
      | AbortUiLaunch _ \<Rightarrow> True | Heartbeat \<Rightarrow> True | _ \<Rightarrow> False)"
| "archived_request_allowed_for r RoleUi =
     (case r of AttachUi _ \<Rightarrow> True | WaitUiPlacement _ \<Rightarrow> True | InvokeBinding _ \<Rightarrow> True
      | UiMenuControl _ _ \<Rightarrow> True | DetachUi _ \<Rightarrow> True | Heartbeat \<Rightarrow> True | _ \<Rightarrow> False)"
| "archived_request_allowed_for r RoleBridge = False"
| "archived_request_allowed_for r RoleActivationCoordinator = False"
| "archived_request_allowed_for r RoleBroker = False"

fun validate_archived_response :: "broker_response \<Rightarrow> check" where
  "validate_archived_response (LaunchPrepared token lease_millis) =
     rbind (validate_archived_nonce (token_nonce token) ''PendingLaunchToken'')
       (\<lambda>_. ensure (0 < lease_millis) SeZeroLease)"
| "validate_archived_response (UiAttached session snapshot) =
     rbind (validate_archived_identifier ''UiSessionId'' (session_text session))
       (\<lambda>_. validate_archived_attachment snapshot)"
| "validate_archived_response (InvocationAccepted execution _) =
     validate_archived_nonce (execution_nonce execution) ''ExecutionId''"
| "validate_archived_response (PendingControlCompleted execution _) =
     validate_archived_nonce (execution_nonce execution) ''ExecutionId''"
| "validate_archived_response (ResponseError d) = validate_archived_diagnostic d"
| "validate_archived_response PendingPaneRegistered = Inr ()"
| "validate_archived_response AttachPending = Inr ()"
| "validate_archived_response ResponseDetached = Inr ()"
| "validate_archived_response Acknowledged = Inr ()"

fun archived_availability_diagnostic :: "binding_availability \<Rightarrow> protocol_diagnostic option \<Rightarrow> check" where
  "archived_availability_diagnostic AvailEnabled (Some _) = Inl SeUnexpectedDiagnostic"
| "archived_availability_diagnostic AvailBlocked None = Inl SeMissingDiagnostic"
| "archived_availability_diagnostic AvailBlocked (Some d) = validate_archived_diagnostic d"
| "archived_availability_diagnostic AvailEnabled None = Inr ()"

fun validate_archived_event :: "broker_event \<Rightarrow> check" where
  "validate_archived_event (ExecutionCompleted session execution _ d) =
     rbind (validate_archived_identifier ''UiSessionId'' (session_text session)) (\<lambda>_.
     rbind (validate_archived_nonce (execution_nonce execution) ''ExecutionId'')
       (\<lambda>_. validate_archived_optional_diagnostic d))"
| "validate_archived_event (BindingAvailabilityChanged session generation binding availability d) =
     rbind (validate_archived_identifier ''UiSessionId'' (session_text session)) (\<lambda>_.
     rbind (validate_archived_generation generation) (\<lambda>_.
     rbind (validate_archived_generation (wb_generation binding)) (\<lambda>_.
       if wb_generation binding \<noteq> generation then Inl SeBindingGenerationMismatch
       else archived_availability_diagnostic availability d)))"
| "validate_archived_event (AdapterHealthChanged _ d) = validate_archived_optional_diagnostic d"
| "validate_archived_event (Fatal d) = validate_archived_diagnostic d"
| "validate_archived_event BrokerRetiring = Inr ()"

section \<open>Messages\<close>

definition validate_archived_wire_message ::
  "wire_message \<Rightarrow> peer_role \<Rightarrow> message_direction \<Rightarrow> connection_phase \<Rightarrow> semantic_error + connection_phase" where
  "validate_archived_wire_message message role direction phase =
     (case (direction, phase, message) of
        (PeerToBroker, AwaitingHello, MsgHello request_id h) \<Rightarrow>
          rbind (validate_archived_nonce (request_nonce request_id) ''RequestId'') (\<lambda>_.
          rbind (validate_archived_text ''process version'' (he_process_version h) True) (\<lambda>_.
          rbind (validate_archived_text ''live server discovery key''
                   (ls_discovery_key (he_live_server h)) True) (\<lambda>_.
          rbind (validate_archived_identifier ''ServerId'' (server_text (ls_server_id (he_live_server h))))
            (\<lambda>_. Inr Ready))))
      | (BrokerToPeer, AwaitingWelcome, MsgWelcome request_id w) \<Rightarrow>
          rbind (validate_archived_nonce (request_nonce request_id) ''RequestId'') (\<lambda>_.
          rbind (validate_archived_text ''broker version'' (we_broker_version w) True) (\<lambda>_.
          rbind (validate_archived_text ''live server discovery key''
                   (ls_discovery_key (we_live_server w)) True) (\<lambda>_.
          rbind (validate_archived_identifier ''ServerId'' (server_text (ls_server_id (we_live_server w)))) (\<lambda>_.
          rbind (ensure (0 < we_accepted_frame_len w \<and> we_accepted_frame_len w \<le> MAX_FRAME_LEN)
                   (SeInvalidFrameLimit (we_accepted_frame_len w)))
            (\<lambda>_. Inr Ready)))))
      | (PeerToBroker, Ready, MsgRequest request_id request) \<Rightarrow>
          if archived_request_allowed_for request role then
            rbind (validate_archived_nonce (request_nonce request_id) ''RequestId'') (\<lambda>_.
            rbind (validate_archived_request request) (\<lambda>_. Inr Ready))
          else Inl (SeIllegalMessageForRole role)
      | (BrokerToPeer, Ready, MsgResponse request_id response) \<Rightarrow>
          rbind (validate_archived_nonce (request_nonce request_id) ''RequestId'') (\<lambda>_.
          rbind (validate_archived_response response) (\<lambda>_. Inr Ready))
      | (BrokerToPeer, Ready, MsgEvent event_id event) \<Rightarrow>
          rbind (validate_archived_nonce (event_nonce event_id) ''EventId'') (\<lambda>_.
          rbind (validate_archived_event event) (\<lambda>_. Inr Ready))
      | _ \<Rightarrow> Inl (SeIllegalSequence role phase))"

end
