(* ===== verification/Wire_Twins.thy ===== *)
theory Wire_Twins
  imports Wire_Archived
begin

text \<open>
  The two validators of the wire protocol compared: the one a sender runs on an owned message and
  the one a receiver runs on the archive, what an accepted menu graph is, and what an accepted
  conversation looks like. Both validators are instances of one interface, \<open>message_gate\<close>.
\<close>

section \<open>The twins of scalars and text\<close>

named_theorems twin_simps \<open>an archived validator equals its owned twin\<close>

lemma archived_text_twin [twin_simps]:
  "validate_archived_text field v True = validate_text field v"
  "validate_archived_text field v False = validate_clean_text field v"
  by (simp_all add: validate_archived_text_def validate_text_def validate_clean_text_def)

lemma archived_scalar_twin [twin_simps]:
  "validate_archived_identifier field v = validate_identifier field v"
  "validate_archived_menu_name field v = validate_menu_name field v"
  "validate_archived_clean_text field v = validate_clean_text field v"
  "validate_archived_absolute_path field v = validate_absolute_path field v"
  "validate_archived_generation g = validate_generation g"
  "validate_archived_nonce n name = validate_nonce name n"
  by (simp_all add: validate_archived_identifier_def validate_identifier_def
      validate_archived_menu_name_def validate_menu_name_def validate_archived_clean_text_def
      validate_archived_absolute_path_def validate_absolute_path_def validate_archived_generation_def
      validate_generation_def validate_archived_nonce_def validate_nonce_def ensure_def twin_simps
      word_neq_0_conv)

lemma archived_menu_id_twin [twin_simps]:
  "validate_archived_menu_id i = validate_wire_menu_id i"
  by (cases i) (simp_all add: twin_simps)

lemma archived_menu_id_eq_iff [twin_simps]: "archived_menu_id_eq a b \<longleftrightarrow> a = b"
  by (cases a; cases b) auto

lemma archived_diagnostic_twin [twin_simps]:
  "validate_archived_diagnostic d = validate_protocol_diagnostic d"
  "validate_archived_optional_diagnostic o' = opt_ok validate_protocol_diagnostic o'"
  by (cases o'; simp add: validate_archived_diagnostic_def validate_protocol_diagnostic_def
      validate_diagnostic_def validate_archived_optional_diagnostic_def twin_simps)+

lemma identity_twin [twin_simps]:
  "validate_identifier ''ServerId'' (server_text a) = validate_server_id a"
  "validate_identifier ''UiSessionId'' (session_text b) = validate_ui_session_id b"
  "validate_identifier ''ModalScopeId'' (modal_scope_text c) = validate_modal_scope_id c"
  "validate_identifier ''HostPaneId'' (pane_text d) = validate_host_pane_id d"
  "validate_identifier ''HostTabId'' (tab_text e) = validate_host_tab_id e"
  "validate_identifier ''WorkspaceId'' (workspace_text f) = validate_workspace_id f"
  "validate_nonce ''RequestId'' (request_nonce g) = validate_request_id g"
  "validate_nonce ''EventId'' (event_nonce h) = validate_event_id h"
  "validate_nonce ''PendingLaunchToken'' (token_nonce i) = validate_pending_launch_token i"
  "validate_nonce ''ExecutionId'' (execution_nonce j) = validate_wire_execution_id j"
  by (cases a, simp) (cases b, simp, cases c, simp, cases d, simp, cases e, simp, cases f, simp,
      cases g, simp, cases h, simp, cases i, simp, cases j, simp)

section \<open>The twins of menus and themes\<close>

lemma validate_condition_ok [simp]: "validate_condition c = Inr ()"
  by (induction c) simp_all

lemma validate_binding_extras [simp]:
  "validate_binding_conditions c = Inr ()" "validate_binding_settings s = Inr ()"
  by (simp_all add: validate_binding_conditions_def validate_binding_settings_def
      validate_execution_policy_def result_simps)

lemma archived_local_action_twin [twin_simps]:
  "validate_archived_local_action = validate_local_menu_action"
proof
  show "validate_archived_local_action a = validate_local_menu_action a" for a
    by (cases a) (simp_all add: twin_simps)
qed

lemma archived_clean_text_eta [twin_simps]: "validate_archived_clean_text = validate_clean_text"
  by (intro ext) (simp add: twin_simps)

lemma archived_binding_twin [twin_simps]: "validate_archived_binding = validate_binding"
  by (intro ext) (simp add: validate_archived_binding_def validate_binding_def
      validate_wire_binding_id_def twin_simps split: option.splits bool.splits)

lemma archived_menu_twin [twin_simps]: "validate_archived_menu m = validate_menu m"
  by (simp add: validate_archived_menu_def validate_menu_def validate_layout_def ensure_def
      twin_simps word_neq_0_conv)

lemma archived_graph_binding_twin [twin_simps]:
  "check_archived_graph_binding = check_graph_binding"
  by (intro ext) (simp add: check_archived_graph_binding_def check_graph_binding_def twin_simps
      split: option.splits local_menu_action_wire.splits)

lemma archived_menu_loop_twin [twin_simps]:
  "archived_menu_loop view prior ms found = menu_loop validate_menu view prior ms found"
  by (induction ms arbitrary: prior found) (simp_all add: twin_simps Let_def)

lemma archived_menu_view_twin [twin_simps]:
  "validate_archived_menu_view view = validate_menu_view view"
  by (simp add: validate_archived_menu_view_def validate_menu_view_def twin_simps)

lemma archived_named_twin [twin_simps]:
  "validate_archived_named_string = validate_named_string"
  "validate_archived_named_style = validate_named_style"
  by (intro ext, simp add: validate_archived_named_string_def validate_named_string_def twin_simps)
    (intro ext, simp add: validate_archived_named_style_def validate_named_style_def
      validate_style_def twin_simps)

lemma archived_theme_twin [twin_simps]: "validate_archived_theme t = validate_theme t"
  by (simp add: validate_archived_theme_def validate_theme_def validate_archived_theme_section_def
      validate_theme_section_def validate_archived_color_scheme_def validate_color_scheme_def twin_simps)

lemma archived_attachment_twin [twin_simps]:
  "validate_archived_attachment a = validate_attachment a"
proof -
  have "validate_archived_keyboard k = validate_keyboard k" for k by (cases k) simp_all
  then show ?thesis by (simp add: validate_archived_attachment_def validate_attachment_def twin_simps)
qed

section \<open>The twins of messages\<close>

lemma archived_ids_twin [twin_simps]:
  "(\<lambda>tab. validate_identifier ''HostTabId'' (tab_text tab)) = validate_host_tab_id"
  "(\<lambda>t. validate_nonce ''PendingLaunchToken'' (token_nonce t)) = validate_pending_launch_token"
  "validate_archived_identifier = validate_identifier"
  "validate_archived_absolute_path = validate_absolute_path"
  by (intro ext, simp add: twin_simps)+

lemma archived_origin_twin [twin_simps]:
  "validate_archived_origin_bootstrap = validate_origin"
  "validate_archived_caller_identity = validate_caller"
  by (intro ext, simp add: validate_archived_origin_bootstrap_def validate_origin_def twin_simps)
    (intro ext, simp add: validate_archived_caller_identity_def validate_caller_def twin_simps)

lemma archived_allowed_twin [twin_simps]: "archived_request_allowed_for r p = allowed_for r p"
  by (cases p) simp_all

text \<open>On an invocation the receiver skips the zero check of the binding, so only the error differs.\<close>

lemma archived_request_twin:
  "validate_archived_request r = Inr () \<longleftrightarrow> validate_request r = Inr ()"
  by (cases r)
    (auto simp: validate_prepare_def validate_register_def validate_attach_def validate_commit_def
      validate_invoke_def validate_wire_binding_id_def validate_generation_def twin_simps result_simps
      word_neq_0_conv split: if_splits)

lemma archived_response_twin [twin_simps]: "validate_archived_response r = validate_response r"
  by (cases r) (simp_all add: twin_simps ensure_def word_neq_0_conv)

fun stale_availability :: "wire_message \<Rightarrow> bool" where
  "stale_availability (MsgEvent _ (BindingAvailabilityChanged _ g b _ _)) \<longleftrightarrow> wb_generation b \<noteq> g"
| "stale_availability _ \<longleftrightarrow> False"

lemma archived_availability_twin:
  "archived_availability_diagnostic a d = availability_diagnostic a d"
  by (cases a; cases d) (simp_all add: twin_simps)

lemma archived_event_twin:
  "validate_archived_event e =
     (case e of
        BindingAvailabilityChanged s g b a d \<Rightarrow>
          if wb_generation b = g then validate_event e
          else rbind (validate_ui_session_id s) (\<lambda>_. rbind (validate_generation g) (\<lambda>_.
               rbind (validate_wire_binding_id b) (\<lambda>_. Inl SeBindingGenerationMismatch)))
      | _ \<Rightarrow> validate_event e)"
  by (cases e) (simp_all add: twin_simps archived_availability_twin validate_wire_binding_id_def)

lemma archived_handshake_twin:
  "validate_archived_wire_message (MsgHello i h) r d p = validate_for_peer (MsgHello i h) r d p"
  "validate_archived_wire_message (MsgWelcome i w) r d p = validate_for_peer (MsgWelcome i w) r d p"
  by (cases d; cases p; simp add: validate_archived_wire_message_def validate_for_peer_def
      validate_hello_def validate_welcome_def validate_live_server_def twin_simps rbind_assoc
      ensure_def word_neq_0_conv de_Morgan_disj linorder_not_less flip: not_less)+

lemmas gate_defs = validate_archived_wire_message_def validate_for_peer_def

lemma archived_other_twin:
  "\<not> stale_availability m \<Longrightarrow> (\<And>i q. m \<noteq> MsgRequest i q)
   \<Longrightarrow> validate_archived_wire_message m r d p = validate_for_peer m r d p"
proof (cases m)
  case (MsgResponse i x)
  then show ?thesis by (cases d; cases p; simp add: gate_defs twin_simps)
next
  case (MsgEvent i e)
  moreover assume "\<not> stale_availability m"
  ultimately show ?thesis
    by (cases d; cases p; cases e; simp add: gate_defs twin_simps archived_event_twin)
qed (auto simp: archived_handshake_twin)

lemma archived_request_message_twin:
  "validate_archived_wire_message (MsgRequest i q) r d p = Inr ph
   \<longleftrightarrow> validate_for_peer (MsgRequest i q) r d p = Inr ph"
proof -
  have q: "validate_archived_request q = Inr u \<longleftrightarrow> validate_request q = Inr u" for u
    using archived_request_twin by simp
  show ?thesis by (cases d; cases p; auto simp: gate_defs twin_simps result_simps q)
qed

lemma archived_stale_refused:
  "stale_availability m \<Longrightarrow> validate_archived_wire_message m r d p \<noteq> Inr ph"
  by (cases m rule: stale_availability.cases; cases d; cases p)
    (auto simp: gate_defs archived_event_twin result_simps)

text \<open>
  C7: What a receiver accepts. The validator that runs on the archive accepts exactly the messages
  the owned validator accepts, with the same next phase, except that it refuses an availability
  event whose binding belongs to another generation, which the owned validator does not check. On
  every message that is neither a request nor such an event the two agree on the error as well (on
  a request they may report different errors, since the role is checked first on the archive).
\<close>
theorem receiver_agrees_with_sender:
  "(validate_archived_wire_message m r d p = Inr ph
      \<longleftrightarrow> validate_for_peer m r d p = Inr ph \<and> \<not> stale_availability m)
   \<and> (\<not> stale_availability m \<and> (\<forall>i q. m \<noteq> MsgRequest i q)
      \<longrightarrow> validate_archived_wire_message m r d p = validate_for_peer m r d p)"
proof (intro conjI impI)
  show "validate_archived_wire_message m r d p = Inr ph
      \<longleftrightarrow> validate_for_peer m r d p = Inr ph \<and> \<not> stale_availability m"
  proof (cases "\<exists>i q. m = MsgRequest i q")
    case True
    then show ?thesis using archived_request_message_twin by auto
  next
    case False
    then show ?thesis using archived_other_twin [of m] archived_stale_refused by (cases "stale_availability m") auto
  qed
qed (use archived_other_twin in blast)

definition sample_stale :: wire_message where
  "sample_stale = MsgEvent (EventId 1) (BindingAvailabilityChanged (UiSessionId [0x73]) 7
     \<lparr>wb_generation = 6, wb_ordinal = 0\<rparr> AvailEnabled None)"

lemma receiver_agrees_with_sender_witness:
  "validate_for_peer sample_stale RoleUi BrokerToPeer Ready = Inr Ready
   \<and> validate_archived_wire_message sample_stale RoleUi BrokerToPeer Ready
       = Inl SeBindingGenerationMismatch
   \<and> validate_archived_wire_message (MsgRequest (RequestId 1) Heartbeat) RoleUi PeerToBroker Ready = Inr Ready
   \<and> validate_archived_wire_message (MsgEvent (EventId 0) BrokerRetiring) RoleUi BrokerToPeer Ready
       = validate_for_peer (MsgEvent (EventId 0) BrokerRetiring) RoleUi BrokerToPeer Ready"
proof (intro conjI)
  show "validate_for_peer sample_stale RoleUi BrokerToPeer Ready = Inr Ready" by code_simp
  show "validate_archived_wire_message sample_stale RoleUi BrokerToPeer Ready
       = Inl SeBindingGenerationMismatch" by code_simp
  show "validate_archived_wire_message (MsgRequest (RequestId 1) Heartbeat) RoleUi PeerToBroker Ready = Inr Ready"
    by code_simp
  show "validate_archived_wire_message (MsgEvent (EventId 0) BrokerRetiring) RoleUi BrokerToPeer Ready
       = validate_for_peer (MsgEvent (EventId 0) BrokerRetiring) RoleUi BrokerToPeer Ready"
    using receiver_agrees_with_sender [of "MsgEvent (EventId 0) BrokerRetiring" RoleUi BrokerToPeer Ready Ready]
    by simp
qed

section \<open>Accepted menu graphs\<close>

text \<open>The contract of a menu view, stated without the order of the checks.\<close>

definition text_ok :: "str \<Rightarrow> bool" where
  "text_ok v \<longleftrightarrow> v \<noteq> [] \<and> (\<forall>c \<in> set v. \<not> is_control c)"

definition clean_ok :: "str \<Rightarrow> bool" where
  "clean_ok v \<longleftrightarrow> (\<forall>c \<in> set v. \<not> is_control c)"

fun menu_id_ok :: "wire_menu_id \<Rightarrow> bool" where
  "menu_id_ok (WireNamed name) \<longleftrightarrow> text_ok name"
| "menu_id_ok (WireInline parent _) \<longleftrightarrow> text_ok parent"

definition binding_ok :: "binding_view_wire \<Rightarrow> bool" where
  "binding_ok b \<longleftrightarrow>
     wb_generation (bv_id b) \<noteq> 0 \<and> text_ok (bv_key b)
     \<and> (\<forall>l. bv_label b = Some l \<longrightarrow> clean_ok l)
     \<and> (st_included (bv_state b) \<and> st_shown (bv_state b) \<and> \<not> bv_hidden b
         \<longrightarrow> (\<exists>l. bv_label b = Some l \<and> text_ok l))
     \<and> (\<forall>t. bv_local_menu_action b = Some (LocalOpen t) \<longrightarrow> menu_id_ok t)
     \<and> (st_blocked (bv_state b) \<longleftrightarrow> bv_diagnostic b \<noteq> None)
     \<and> (\<forall>d. bv_diagnostic b = Some d
          \<longrightarrow> text_ok (pd_message d) \<and> str_len (pd_message d) \<le> MAX_DIAGNOSTIC_LEN)"

definition menu_ok :: "menu_view_menu_wire \<Rightarrow> bool" where
  "menu_ok m \<longleftrightarrow> menu_id_ok (mv_id m) \<and> la_max_item_title_length (mv_layout m) \<noteq> 0
     \<and> (\<forall>t. mv_title m = Some t \<longrightarrow> clean_ok t) \<and> (\<forall>b \<in> set (mv_bindings m). binding_ok b)"

definition menu_graph_closed :: "menu_view_wire \<Rightarrow> bool" where
  "menu_graph_closed v \<longleftrightarrow>
     distinct (map mv_id (mw_menus v)) \<and> mw_root v \<in> mv_id ` set (mw_menus v)
     \<and> (\<forall>m \<in> set (mw_menus v). \<forall>b \<in> set (mv_bindings m).
          wb_generation (bv_id b) = mw_generation v
          \<and> (\<forall>t. bv_local_menu_action b = Some (LocalOpen t) \<longrightarrow> t \<in> mv_id ` set (mw_menus v)))"

lemma control_zero: "is_control 0"
  by (simp add: is_control_def)

lemma text_ok_iff [result_simps]:
  "validate_text field v = Inr u \<longleftrightarrow> text_ok v"
  "validate_clean_text field v = Inr u \<longleftrightarrow> clean_ok v"
  using control_zero by (auto simp: validate_text_def text_ok_def validate_clean_text_def clean_ok_def)

lemma menu_id_ok_iff [result_simps]: "validate_wire_menu_id i = Inr u \<longleftrightarrow> menu_id_ok i"
  by (cases i) (simp_all add: validate_menu_name_def result_simps)

lemma generation_ok_iff [result_simps]: "validate_generation g = Inr u \<longleftrightarrow> g \<noteq> 0"
  by (simp add: validate_generation_def)

lemma diagnostic_ok_iff [result_simps]:
  "validate_protocol_diagnostic d = Inr u
   \<longleftrightarrow> text_ok (pd_message d) \<and> str_len (pd_message d) \<le> MAX_DIAGNOSTIC_LEN"
  by (auto simp: validate_protocol_diagnostic_def validate_diagnostic_def result_simps)

lemma local_action_ok_iff [result_simps]:
  "validate_local_menu_action a = Inr u \<longleftrightarrow> (\<forall>t. a = LocalOpen t \<longrightarrow> menu_id_ok t)"
  by (cases a) (simp_all add: result_simps)

lemma binding_ok_iff [result_simps]: "validate_binding b = Inr u \<longleftrightarrow> binding_ok b"
  by (auto simp: validate_binding_def binding_ok_def validate_wire_binding_id_def result_simps
      split: option.splits bool.splits)

lemma menu_ok_iff [result_simps]: "validate_menu m = Inr u \<longleftrightarrow> menu_ok m"
  by (auto simp: validate_menu_def menu_ok_def validate_layout_def result_simps word_neq_0_conv)

lemma graph_binding_iff [result_simps]:
  "check_graph_binding v b = Inr u
   \<longleftrightarrow> wb_generation (bv_id b) = mw_generation v
       \<and> (\<forall>t. bv_local_menu_action b = Some (LocalOpen t) \<longrightarrow> t \<in> mv_id ` set (mw_menus v))"
  by (auto simp: check_graph_binding_def split: option.splits local_menu_action_wire.splits)

lemma menu_loop_iff:
  "menu_loop validate_menu v prior ms found = Inr r
   \<longleftrightarrow> (r \<longleftrightarrow> found \<or> mw_root v \<in> mv_id ` set ms)
       \<and> distinct (map mv_id ms) \<and> mv_id ` set prior \<inter> mv_id ` set ms = {}
       \<and> (\<forall>m \<in> set ms. menu_ok m \<and> (\<forall>b \<in> set (mv_bindings m). check_graph_binding v b = Inr ()))"
proof (induction ms arbitrary: prior found)
  case (Cons m ms)
  have e: "(\<exists>p \<in> set prior. mv_id p = mv_id m) \<longleftrightarrow> mv_id m \<in> mv_id ` set prior"
    by (metis image_iff)
  show ?case
    unfolding menu_loop.simps Let_def e Cons.IH rbind_Inr_iff by (auto simp: Cons.IH result_simps)
qed auto

text \<open>
  C35: The menu graph a UI receives. A menu view is accepted, by the sender's and by the receiver's
  validator, exactly when its generation is set, its menus have distinct identities, the root is
  one of them, every binding belongs to the generation of the view and opens only menus of the
  view, and every menu and binding is well formed: non-empty keys without control characters, a
  label on every binding that is drawn, a non-zero title width, and a diagnostic of at most 4 KiB
  exactly on the blocked bindings.
\<close>
theorem menu_view_accepted_iff:
  "(validate_menu_view v = Inr ()
     \<longleftrightarrow> mw_generation v \<noteq> 0 \<and> menu_graph_closed v \<and> list_all menu_ok (mw_menus v))
   \<and> validate_archived_menu_view v = validate_menu_view v"
  by (auto simp: validate_menu_view_def menu_loop_iff menu_graph_closed_def menu_ok_def
      list_all_iff result_simps twin_simps)

section \<open>Conversations\<close>

text \<open>
  A connection feeds every received message to the validator with the phase the previous one left;
  the first message starts from the initial phase of its direction.
\<close>

type_synonym gate =
  "wire_message \<Rightarrow> peer_role \<Rightarrow> message_direction \<Rightarrow> connection_phase \<Rightarrow> semantic_error + connection_phase"

fun initial_phase :: "message_direction \<Rightarrow> connection_phase" where
  "initial_phase PeerToBroker = AwaitingHello"
| "initial_phase BrokerToPeer = AwaitingWelcome"

fun converse_with ::
  "gate \<Rightarrow> peer_role \<Rightarrow> message_direction \<Rightarrow> connection_phase \<Rightarrow> wire_message list
   \<Rightarrow> semantic_error + connection_phase" where
  "converse_with gate r d p [] = Inr p"
| "converse_with gate r d p (m # ms) = rbind (gate m r d p) (\<lambda>q. converse_with gate r d q ms)"

lemma converse_with_append:
  "converse_with gate r d p (xs @ ys) =
     rbind (converse_with gate r d p xs) (\<lambda>q. converse_with gate r d q ys)"
  by (induction xs arbitrary: p) (simp_all add: rbind_assoc)

fun opens_with :: "message_direction \<Rightarrow> wire_message \<Rightarrow> bool" where
  "opens_with PeerToBroker (MsgHello _ _) \<longleftrightarrow> True"
| "opens_with BrokerToPeer (MsgWelcome _ _) \<longleftrightarrow> True"
| "opens_with _ _ \<longleftrightarrow> False"

fun in_session :: "peer_role \<Rightarrow> message_direction \<Rightarrow> wire_message \<Rightarrow> bool" where
  "in_session r PeerToBroker (MsgRequest _ q) \<longleftrightarrow> allowed_for q r"
| "in_session r BrokerToPeer (MsgResponse _ _) \<longleftrightarrow> True"
| "in_session r BrokerToPeer (MsgEvent _ _) \<longleftrightarrow> True"
| "in_session _ _ _ \<longleftrightarrow> False"

text \<open>What every validator of messages promises the connection that runs it.\<close>

locale message_gate =
  fixes gate :: gate
  assumes opens: "gate m r d (initial_phase d) = Inr q \<Longrightarrow> opens_with d m \<and> q = Ready"
    and serves: "gate m r d Ready = Inr q \<Longrightarrow> in_session r d m \<and> q = Ready"
begin

lemma in_session_all: "converse_with gate r d Ready ms = Inr q \<Longrightarrow> list_all (in_session r d) ms"
  by (induction ms) (auto simp: result_simps dest: serves)

lemma conversation:
  "converse_with gate r d (initial_phase d) ms = Inr q
   \<Longrightarrow> ms = [] \<or> (\<exists>m rest. ms = m # rest \<and> opens_with d m \<and> list_all (in_session r d) rest)"
  by (cases ms) (auto simp: result_simps dest: opens in_session_all)

end

interpretation owned: message_gate validate_for_peer
proof
  show "opens_with d m \<and> q = Ready" if "validate_for_peer m r d (initial_phase d) = Inr q" for m r d q
    using that by (cases d; cases m) (auto simp: validate_for_peer_def result_simps)
  show "in_session r d m \<and> q = Ready" if "validate_for_peer m r d Ready = Inr q" for m r d q
    using that by (cases d; cases m) (auto simp: validate_for_peer_def result_simps split: if_splits)
qed

lemma archived_accepts_owned:
  "validate_archived_wire_message m r d p = Inr q \<Longrightarrow> validate_for_peer m r d p = Inr q"
  using archived_request_message_twin archived_other_twin archived_stale_refused by metis

interpretation archived: message_gate validate_archived_wire_message
  by unfold_locales (blast dest: archived_accepts_owned owned.opens owned.serves)+

text \<open>
  C8: The shape of an accepted conversation. Whatever a peer sends, the messages the broker accepts
  on one connection are nothing at all, or one \<open>Hello\<close> followed by requests the peer's role is
  allowed to make; the messages a peer accepts from the broker are one \<open>Welcome\<close> followed by
  responses and events. A bridge or an activation coordinator can make no request at all.
\<close>
theorem accepted_conversation:
  assumes "converse_with validate_archived_wire_message r d (initial_phase d) ms = Inr q"
  shows "ms = [] \<or>
    (case d of
       PeerToBroker \<Rightarrow> (\<exists>i h rest. ms = MsgHello i h # rest
          \<and> list_all (\<lambda>m. \<exists>j a. m = MsgRequest j a \<and> allowed_for a r) rest
          \<and> (r \<in> {RoleBridge, RoleActivationCoordinator, RoleBroker} \<longrightarrow> rest = []))
     | BrokerToPeer \<Rightarrow> (\<exists>i w rest. ms = MsgWelcome i w # rest
          \<and> list_all (\<lambda>m. (\<exists>j a. m = MsgResponse j a) \<or> (\<exists>j e. m = MsgEvent j e)) rest))"
proof -
  have req: "in_session r PeerToBroker m \<longleftrightarrow> (\<exists>j a. m = MsgRequest j a \<and> allowed_for a r)"
    and srv: "in_session r BrokerToPeer m
      \<longleftrightarrow> (\<exists>j a. m = MsgResponse j a) \<or> (\<exists>j e. m = MsgEvent j e)"
    and hel: "opens_with PeerToBroker m \<longleftrightarrow> (\<exists>i h. m = MsgHello i h)"
    and wel: "opens_with BrokerToPeer m \<longleftrightarrow> (\<exists>i w. m = MsgWelcome i w)" for m
    by (cases m; simp)+
  have none: "r \<in> {RoleBridge, RoleActivationCoordinator, RoleBroker} \<Longrightarrow> \<not> allowed_for a r" for a
    by auto
  from archived.conversation [OF assms] show ?thesis
  proof (cases d)
    case PeerToBroker
    have "list_all (in_session r d) rest \<Longrightarrow> r \<in> {RoleBridge, RoleActivationCoordinator, RoleBroker}
        \<Longrightarrow> rest = []" for rest
      using none PeerToBroker by (cases rest) (auto simp: req)
    with archived.conversation [OF assms] PeerToBroker show ?thesis
      by (auto simp: hel req cong: list.pred_cong)
  next
    case BrokerToPeer
    with archived.conversation [OF assms] show ?thesis
      by (auto simp: wel srv cong: list.pred_cong)
  qed
qed

definition sample_live :: live_server_identity where
  "sample_live = \<lparr>ls_host = HostHerdr, ls_discovery_key = lit ''sock'', ls_server_id = ServerId (lit ''s1'')\<rparr>"

definition sample_conversation :: "wire_message list" where
  "sample_conversation =
     [MsgHello (RequestId 1) \<lparr>he_process_version = lit ''0.1'', he_live_server = sample_live\<rparr>,
      MsgRequest (RequestId 2) (DetachUi (UiSessionId (lit ''ui''))),
      MsgRequest (RequestId 3) Heartbeat]"

lemma accepted_conversation_witness:
  "converse_with validate_archived_wire_message RoleUi PeerToBroker AwaitingHello sample_conversation = Inr Ready
   \<and> (\<exists>i h rest. sample_conversation = MsgHello i h # rest
        \<and> list_all (\<lambda>m. \<exists>j a. m = MsgRequest j a \<and> allowed_for a RoleUi) rest)"
proof
  show c: "converse_with validate_archived_wire_message RoleUi PeerToBroker AwaitingHello sample_conversation = Inr Ready"
    by code_simp
  show "\<exists>i h rest. sample_conversation = MsgHello i h # rest
        \<and> list_all (\<lambda>m. \<exists>j a. m = MsgRequest j a \<and> allowed_for a RoleUi) rest"
    using accepted_conversation [of RoleUi PeerToBroker sample_conversation Ready] c
    by (auto simp: sample_conversation_def)
qed

end
