(* ===== verification/Frame.thy ===== *)
theory Frame
  imports Wire_Twins
begin

text \<open>
  \<open>muxe-protocol\<close>, \<open>frame.rs\<close>: the connection prelude, length-prefixed frames, and the streaming
  decoder that feeds every checked archive to the message validator. The serializer \<open>to_bytes\<close> and
  the depth-bounded checker \<open>access\<close> of rkyv are arguments.
\<close>

section \<open>Types\<close>

definition PRELUDE_LEN :: nat where "PRELUDE_LEN = 44"
definition MAGIC :: "u8 list" where "MAGIC = [0x4d, 0x55, 0x58, 0x45]"
definition LENGTH_PREFIX_LEN :: nat where "LENGTH_PREFIX_LEN = 4"

text \<open>A schema fingerprint is an array of 32 bytes.\<close>

type_synonym fingerprint = "u8 list"

record prelude =
  pr_protocol_version :: u16
  pr_codec :: codec
  pr_role :: peer_role
  pr_schema_fingerprint :: fingerprint
  pr_frame_limit :: u32

record connection_policy =
  po_role :: peer_role
  po_direction :: message_direction
  po_schema_fingerprint :: fingerprint

datatype truncation_stage =
    TruncPrelude nat
  | TruncLengthPrefix nat
  | TruncPayload u32 u32

datatype decode_error =
    DeBadMagic
  | DeUnknownCodec u8
  | DeUnknownPeerRole u8
  | DeProtocolVersionMismatch u16 u16
  | DeCodecMismatch codec codec
  | DePeerRoleMismatch peer_role peer_role
  | DeSchemaFingerprintMismatch
  | DeFrameLimitMismatch u32 u32
  | DeEmptyFrame
  | DeFrameTooLarge u32 u32
  | DeTruncated truncation_stage
  | DeInvalidArchive string
  | DeSemantic semantic_error
  | DeDecoderClosed

section \<open>Big-endian integers\<close>

definition be16 :: "u16 \<Rightarrow> u8 list" where
  "be16 v = [ucast (drop_bit 8 v), ucast v]"

definition be32 :: "u32 \<Rightarrow> u8 list" where
  "be32 v = [ucast (drop_bit 24 v), ucast (drop_bit 16 v), ucast (drop_bit 8 v), ucast v]"

fun from_be16 :: "u8 list \<Rightarrow> u16" where
  "from_be16 [a, b] = push_bit 8 (ucast a) OR ucast b"
| "from_be16 _ = 0"

fun from_be32 :: "u8 list \<Rightarrow> u32" where
  "from_be32 [a, b, c, d] =
     push_bit 24 (ucast a) OR push_bit 16 (ucast b) OR push_bit 8 (ucast c) OR ucast d"
| "from_be32 _ = 0"

section \<open>The prelude\<close>

definition prelude_rkyv :: "peer_role \<Rightarrow> fingerprint \<Rightarrow> prelude" where
  "prelude_rkyv role fp =
     \<lparr>pr_protocol_version = PROTOCOL_VERSION, pr_codec = Rkyv, pr_role = role,
      pr_schema_fingerprint = fp, pr_frame_limit = MAX_FRAME_LEN\<rparr>"

definition prelude_control :: "peer_role \<Rightarrow> prelude" where
  "prelude_control role =
     \<lparr>pr_protocol_version = PROTOCOL_VERSION, pr_codec = ControlJsonV1, pr_role = role,
      pr_schema_fingerprint = replicate 32 0, pr_frame_limit = MAX_CONTROL_FRAME_LEN\<rparr>"

definition prelude_encode :: "prelude \<Rightarrow> u8 list" where
  "prelude_encode p =
     MAGIC @ be16 (pr_protocol_version p) @ [codec_as_byte (pr_codec p), role_as_byte (pr_role p)]
     @ pr_schema_fingerprint p @ be32 (pr_frame_limit p)"

text \<open>The argument is an array of \<open>PRELUDE_LEN\<close> bytes.\<close>

definition prelude_decode :: "u8 list \<Rightarrow> decode_error + prelude" where
  "prelude_decode bytes =
     (if take 4 bytes \<noteq> MAGIC then Inl DeBadMagic
      else
        rbind (ok_or (codec_from_byte (bytes ! 6)) (DeUnknownCodec (bytes ! 6))) (\<lambda>codec.
        rbind (ok_or (role_from_byte (bytes ! 7)) (DeUnknownPeerRole (bytes ! 7))) (\<lambda>role.
          Inr \<lparr>pr_protocol_version = from_be16 (take 2 (drop 4 bytes)), pr_codec = codec,
               pr_role = role, pr_schema_fingerprint = take 32 (drop 8 bytes),
               pr_frame_limit = from_be32 (take 4 (drop 40 bytes))\<rparr>)))"

definition prelude_validate ::
  "prelude \<Rightarrow> codec \<Rightarrow> peer_role \<Rightarrow> fingerprint \<Rightarrow> u32 \<Rightarrow> decode_error + unit" where
  "prelude_validate p expected_codec expected_role expected_fingerprint expected_frame_limit =
     (if pr_protocol_version p \<noteq> PROTOCOL_VERSION
      then Inl (DeProtocolVersionMismatch PROTOCOL_VERSION (pr_protocol_version p))
      else if pr_codec p \<noteq> expected_codec then Inl (DeCodecMismatch expected_codec (pr_codec p))
      else if pr_role p \<noteq> expected_role then Inl (DePeerRoleMismatch expected_role (pr_role p))
      else if pr_schema_fingerprint p \<noteq> expected_fingerprint then Inl DeSchemaFingerprintMismatch
      else if pr_frame_limit p \<noteq> expected_frame_limit
      then Inl (DeFrameLimitMismatch expected_frame_limit (pr_frame_limit p))
      else Inr ())"

section \<open>Writing frames\<close>

record encoded_frame =
  ef_prefix :: "u8 list"
  ef_payload :: "u8 list"

text \<open>\<open>to_bytes\<close> is \<open>rkyv::to_bytes\<close>; its error is the text \<open>archive_error\<close> wraps.\<close>

definition encode_frame ::
  "(wire_message \<Rightarrow> string + u8 list) \<Rightarrow> wire_message \<Rightarrow> decode_error + encoded_frame" where
  "encode_frame to_bytes message =
     (case to_bytes message of
        Inl e \<Rightarrow> Inl (DeInvalidArchive e)
      | Inr payload \<Rightarrow>
          if 2 ^ 32 \<le> length payload then Inl (DeFrameTooLarge (-1) MAX_FRAME_LEN)
          else
            let payload_len = of_nat (length payload) :: u32
            in if payload_len = 0 then Inl DeEmptyFrame
               else if MAX_FRAME_LEN < payload_len then Inl (DeFrameTooLarge payload_len MAX_FRAME_LEN)
               else Inr \<lparr>ef_prefix = be32 payload_len, ef_payload = payload\<rparr>)"

section \<open>The streaming decoder\<close>

datatype decoder_state =
    DsPrelude "u8 list" nat
  | DsLengthPrefix "u8 list" nat
  | DsPayload u32 "u8 list"
  | DsFailed

record connection_decoder =
  cd_policy :: connection_policy
  cd_phase :: connection_phase
  cd_state :: decoder_state
  cd_prelude :: "prelude option"
  cd_failed :: bool

definition policy_broker :: "peer_role \<Rightarrow> fingerprint \<Rightarrow> connection_policy" where
  "policy_broker role fp =
     \<lparr>po_role = role, po_direction = PeerToBroker, po_schema_fingerprint = fp\<rparr>"

definition policy_client :: "peer_role \<Rightarrow> fingerprint \<Rightarrow> connection_policy" where
  "policy_client role fp =
     \<lparr>po_role = role, po_direction = BrokerToPeer, po_schema_fingerprint = fp\<rparr>"

definition new_decoder :: "connection_policy \<Rightarrow> connection_decoder" where
  "new_decoder policy =
     \<lparr>cd_policy = policy, cd_phase = initial_phase (po_direction policy),
      cd_state = DsPrelude (replicate PRELUDE_LEN 0) 0, cd_prelude = None, cd_failed = False\<rparr>"

text \<open>
  The length of the destination array, the array and its fill count; the result is the array, the
  fill count and the number of bytes copied.
\<close>

definition copy_from_input :: "nat \<Rightarrow> u8 list \<Rightarrow> nat \<Rightarrow> u8 list \<Rightarrow> u8 list \<times> nat \<times> nat" where
  "copy_from_input n destination filled input =
     (let copied = min (n - filled) (length input)
      in (take filled destination @ take copied input @ drop (filled + copied) destination,
          filled + copied, copied))"

definition fail_decoder :: "connection_decoder \<Rightarrow> connection_decoder" where
  "fail_decoder d = d\<lparr>cd_state := DsFailed, cd_failed := True\<rparr>"

type_synonym access = "u8 list \<Rightarrow> string + wire_message"

text \<open>
  One turn of the loop: the decoder, the rest of the input, the frames handed to \<open>on_frame\<close>, and
  the error \<open>push\<close> returns, if it returns.
\<close>

type_synonym turn = "connection_decoder \<times> u8 list \<times> u8 list list \<times> decode_error option"

definition turn_fail :: "connection_decoder \<Rightarrow> u8 list \<Rightarrow> decode_error \<Rightarrow> turn" where
  "turn_fail d input e = (fail_decoder d, input, [], Some e)"

definition turn_prelude ::
  "connection_decoder \<Rightarrow> u8 list \<Rightarrow> nat \<Rightarrow> u8 list \<Rightarrow> turn" where
  "turn_prelude d bytes filled input =
     (let (bytes, filled, copied) = copy_from_input PRELUDE_LEN bytes filled input;
          input = drop copied input
      in if filled \<noteq> PRELUDE_LEN then (d\<lparr>cd_state := DsPrelude bytes filled\<rparr>, input, [], None)
         else case rbind (prelude_decode bytes) (\<lambda>prelude.
                     rbind (prelude_validate prelude Rkyv (po_role (cd_policy d))
                              (po_schema_fingerprint (cd_policy d)) MAX_FRAME_LEN)
                       (\<lambda>_. Inr prelude)) of
             Inl e \<Rightarrow> turn_fail d input e
           | Inr prelude \<Rightarrow>
               (d\<lparr>cd_prelude := Some prelude,
                  cd_state := DsLengthPrefix (replicate LENGTH_PREFIX_LEN 0) 0\<rparr>, input, [], None))"

definition turn_length ::
  "connection_decoder \<Rightarrow> u8 list \<Rightarrow> nat \<Rightarrow> u8 list \<Rightarrow> turn" where
  "turn_length d bytes filled input =
     (let (bytes, filled, copied) = copy_from_input LENGTH_PREFIX_LEN bytes filled input;
          input = drop copied input
      in if filled \<noteq> LENGTH_PREFIX_LEN
         then (d\<lparr>cd_state := DsLengthPrefix bytes filled\<rparr>, input, [], None)
         else
           let declared_len = from_be32 bytes
           in if declared_len = 0 then turn_fail d input DeEmptyFrame
              else if MAX_FRAME_LEN < declared_len
              then turn_fail d input (DeFrameTooLarge declared_len MAX_FRAME_LEN)
              else (d\<lparr>cd_state := DsPayload declared_len []\<rparr>, input, [], None))"

definition turn_payload ::
  "access \<Rightarrow> connection_decoder \<Rightarrow> u32 \<Rightarrow> u8 list \<Rightarrow> u8 list \<Rightarrow> turn" where
  "turn_payload access d declared_len bytes input =
     (let remaining = unat declared_len - length bytes;
          copied = min remaining (length input);
          bytes = bytes @ take copied input;
          input = drop copied input
      in if length bytes \<noteq> unat declared_len
         then (d\<lparr>cd_state := DsPayload declared_len bytes\<rparr>, input, [], None)
         else case access bytes of
             Inl e \<Rightarrow> turn_fail d input (DeInvalidArchive e)
           | Inr archived \<Rightarrow>
               (case validate_archived_wire_message archived (po_role (cd_policy d))
                       (po_direction (cd_policy d)) (cd_phase d) of
                  Inl e \<Rightarrow> turn_fail d input (DeSemantic e)
                | Inr next_phase \<Rightarrow>
                    (d\<lparr>cd_phase := next_phase,
                       cd_state := DsLengthPrefix (replicate LENGTH_PREFIX_LEN 0) 0\<rparr>,
                     input, [bytes], None)))"

definition push_turn :: "access \<Rightarrow> connection_decoder \<Rightarrow> u8 list \<Rightarrow> turn" where
  "push_turn access d input =
     (case cd_state d of
        DsPrelude bytes filled \<Rightarrow> turn_prelude d bytes filled input
      | DsLengthPrefix bytes filled \<Rightarrow> turn_length d bytes filled input
      | DsPayload declared_len bytes \<Rightarrow> turn_payload access d declared_len bytes input
      | DsFailed \<Rightarrow> turn_fail d input DeDecoderClosed)"

text \<open>The \<open>while\<close> loop; \<open>None\<close> would be a loop that does not end.\<close>

partial_function (option) push_loop ::
  "access \<Rightarrow> connection_decoder \<Rightarrow> u8 list
   \<Rightarrow> (connection_decoder \<times> u8 list list \<times> (decode_error + unit)) option" where
  [code]: "push_loop access d input =
     (if input = [] then Some (d, [], Inr ())
      else case push_turn access d input of
          (d', _, frames, Some e) \<Rightarrow> Some (d', frames, Inl e)
        | (d', rest, frames, None) \<Rightarrow>
            Option.bind (push_loop access d' rest) (\<lambda>(d'', more, r). Some (d'', frames @ more, r)))"

definition push_bytes ::
  "access \<Rightarrow> connection_decoder \<Rightarrow> u8 list
   \<Rightarrow> (connection_decoder \<times> u8 list list \<times> (decode_error + unit)) option" where
  "push_bytes access d input =
     (if cd_failed d then Some (d, [], Inl DeDecoderClosed) else push_loop access d input)"

definition finish_decoder :: "connection_decoder \<Rightarrow> connection_decoder \<times> (decode_error + unit)" where
  "finish_decoder d =
     (if cd_failed d then (d, Inl DeDecoderClosed)
      else
        let truncated = (\<lambda>stage. (fail_decoder d, Inl (DeTruncated stage)))
        in case cd_state d of
             DsPrelude _ filled \<Rightarrow> truncated (TruncPrelude filled)
           | DsLengthPrefix _ filled \<Rightarrow>
               if filled = 0 \<and> cd_prelude d \<noteq> None then (d, Inr ())
               else truncated (TruncLengthPrefix filled)
           | DsPayload declared_len bytes \<Rightarrow>
               truncated (TruncPayload declared_len
                 (if length bytes < 2 ^ 32 then of_nat (length bytes) else -1))
           | DsFailed \<Rightarrow> (d, Inl DeDecoderClosed))"

end
