(* ===== verification/Frame_Stream.thy ===== *)
theory Frame_Stream
  imports Frame
begin

text \<open>
  The prelude codec and the frame decoder: exact inverse, independence of the chunks the stream
  arrives in, bounds, and the round trip of a whole connection.
\<close>

section \<open>Bytes\<close>

lemma no_high_bit: "\<not> bit (b :: u8) (8 + n)" "\<not> bit (b :: u8) (16 + n)" "\<not> bit (b :: u8) (24 + n)"
  using bit_imp_le_length [of b] by fastforce+

lemma from_be32_be32 [simp]: "from_be32 (be32 v) = v"
  unfolding be32_def from_be32.simps
proof (rule bit_word_eqI)
  fix n assume "n < LENGTH(32)"
  then show "bit (push_bit 24 (ucast (ucast (drop_bit 24 v) :: u8))
      OR push_bit 16 (ucast (ucast (drop_bit 16 v) :: u8))
      OR push_bit 8 (ucast (ucast (drop_bit 8 v) :: u8)) OR ucast (ucast v :: u8) :: u32) n = bit v n"
    by (cases "n < 8"; cases "n < 16"; cases "n < 24"; auto simp: bit_simps not_less)
qed

lemma from_be16_be16 [simp]: "from_be16 (be16 v) = v"
  unfolding be16_def from_be16.simps by (rule bit_word_eqI) (auto simp: bit_simps not_less)

lemma be32_from_be32: "length bs = 4 \<Longrightarrow> be32 (from_be32 bs) = bs"
proof -
  assume "length bs = 4"
  then obtain a b c d where "bs = [a, b, c, d]" by (auto simp: length_Suc_conv eval_nat_numeral)
  moreover have "be32 (from_be32 [a, b, c, d]) = [a, b, c, d]"
    unfolding be32_def from_be32.simps
    by (auto intro!: bit_word_eqI simp: bit_simps not_less no_high_bit)
  ultimately show ?thesis by simp
qed

lemma be16_from_be16: "length bs = 2 \<Longrightarrow> be16 (from_be16 bs) = bs"
proof -
  assume "length bs = 2"
  then obtain a b where "bs = [a, b]" by (auto simp: length_Suc_conv eval_nat_numeral)
  moreover have "be16 (from_be16 [a, b]) = [a, b]"
    unfolding be16_def from_be16.simps
    by (auto intro!: bit_word_eqI simp: bit_simps not_less no_high_bit)
  ultimately show ?thesis by simp
qed

lemma be_length [simp]: "length (be32 v) = 4" "length (be16 w) = 2"
  by (simp_all add: be32_def be16_def)

section \<open>The prelude codec\<close>

lemma codec_byte [simp]: "codec_from_byte (codec_as_byte c) = Some c"
  by (cases c) (simp_all add: codec_from_byte_def)

lemma codec_byte_inv: "codec_from_byte b = Some c \<Longrightarrow> codec_as_byte c = b"
  by (auto simp: codec_from_byte_def split: if_splits)

lemma role_byte [simp]: "role_from_byte (role_as_byte r) = Some r"
  by (cases r) (simp_all add: role_from_byte_def)

lemma role_byte_inv: "role_from_byte b = Some r \<Longrightarrow> role_as_byte r = b"
  by (auto simp: role_from_byte_def split: if_splits)

lemma prelude_encode_length [simp]:
  "length (prelude_encode p) = 12 + length (pr_schema_fingerprint p)"
  by (simp add: prelude_encode_def MAGIC_def)

lemma prelude_decode_encode:
  assumes "length (pr_schema_fingerprint p) = 32"
  shows "prelude_decode (prelude_encode p) = Inr p"
proof -
  obtain a b where ab: "be16 (pr_protocol_version p) = [a, b]" by (simp add: be16_def)
  have v: "from_be16 [a, b] = pr_protocol_version p" using from_be16_be16 ab by metis
  show ?thesis
    using assms by (simp add: prelude_decode_def prelude_encode_def MAGIC_def ab v del: from_be16.simps)
qed

lemma split_prelude:
  assumes "length bs = 44"
  shows "bs = take 4 bs @ take 2 (drop 4 bs) @ [bs ! 6, bs ! 7] @ take 32 (drop 8 bs) @ take 4 (drop 40 bs)"
proof -
  have "drop 6 bs = bs ! 6 # bs ! 7 # drop 8 bs"
    using assms Cons_nth_drop_Suc [of 6 bs] Cons_nth_drop_Suc [of 7 bs] by simp
  moreover have "drop 8 bs = take 32 (drop 8 bs) @ take 4 (drop 40 bs)"
    using assms append_take_drop_id [of 32 "drop 8 bs"] by (simp add: take_all)
  moreover have "bs = take 4 bs @ take 2 (drop 4 bs) @ drop 6 bs"
    using append_take_drop_id [of 4 bs] append_take_drop_id [of 2 "drop 4 bs"] by simp
  ultimately show ?thesis by simp
qed

lemma prelude_encode_decode:
  assumes "prelude_decode bs = Inr p" and "length bs = 44"
  shows "prelude_encode p = bs \<and> length (pr_schema_fingerprint p) = 32"
proof -
  have parts: "take 4 bs = MAGIC" "codec_from_byte (bs ! 6) = Some (pr_codec p)"
    "role_from_byte (bs ! 7) = Some (pr_role p)" "pr_protocol_version p = from_be16 (take 2 (drop 4 bs))"
    "pr_schema_fingerprint p = take 32 (drop 8 bs)" "pr_frame_limit p = from_be32 (take 4 (drop 40 bs))"
    using assms(1) by (auto simp: prelude_decode_def result_simps split: if_splits)
  have "be16 (pr_protocol_version p) = take 2 (drop 4 bs)" "be32 (pr_frame_limit p) = take 4 (drop 40 bs)"
    using assms(2) parts by (simp_all add: be16_from_be16 be32_from_be32)
  then have "prelude_encode p = bs"
    using split_prelude [OF assms(2)] parts codec_byte_inv role_byte_inv
    by (simp add: prelude_encode_def)
  then show ?thesis using parts assms(2) by simp
qed

lemma prelude_validate_iff:
  "prelude_validate p Rkyv role fp MAX_FRAME_LEN = Inr u \<longleftrightarrow> p = prelude_rkyv role fp"
  by (cases p) (auto simp: prelude_validate_def prelude_rkyv_def)

text \<open>
  C34: The prelude codec. On 44 bytes, decoding is the exact inverse of encoding: every prelude with
  a 32-byte fingerprint, of whatever protocol version, is recovered, and bytes that decode are the
  encoding of what they decode to. The check of a connection then accepts one prelude only: the
  bytes the peer's own \<open>Prelude::rkyv\<close> encodes for the expected role and fingerprint.
\<close>
theorem prelude_codec:
  assumes "length bs = 44" and "length fp = 32"
  shows "(prelude_decode bs = Inr p \<longleftrightarrow> length (pr_schema_fingerprint p) = 32 \<and> prelude_encode p = bs)
    \<and> (rbind (prelude_decode bs) (\<lambda>q. prelude_validate q Rkyv role fp MAX_FRAME_LEN) = Inr ()
       \<longleftrightarrow> bs = prelude_encode (prelude_rkyv role fp))"
proof
  show d: "prelude_decode bs = Inr p
      \<longleftrightarrow> length (pr_schema_fingerprint p) = 32 \<and> prelude_encode p = bs" for p
    using prelude_decode_encode prelude_encode_decode assms(1) by metis
  have "length (pr_schema_fingerprint (prelude_rkyv role fp)) = 32"
    using assms(2) by (simp add: prelude_rkyv_def)
  then show "rbind (prelude_decode bs) (\<lambda>q. prelude_validate q Rkyv role fp MAX_FRAME_LEN) = Inr ()
       \<longleftrightarrow> bs = prelude_encode (prelude_rkyv role fp)"
    by (auto simp: rbind_Inr_iff prelude_validate_iff d)
qed

definition sample_prelude :: prelude where
  "sample_prelude = (prelude_rkyv RoleUi (replicate 32 7)) \<lparr>pr_protocol_version := 9\<rparr>"

lemma prelude_codec_witness:
  "prelude_decode (prelude_encode sample_prelude) = Inr sample_prelude
   \<and> rbind (prelude_decode (prelude_encode sample_prelude))
       (\<lambda>q. prelude_validate q Rkyv RoleUi (replicate 32 7) MAX_FRAME_LEN) \<noteq> Inr ()"
proof -
  have l: "length (prelude_encode sample_prelude) = 44" by (simp add: sample_prelude_def prelude_rkyv_def)
  have f: "length (pr_schema_fingerprint sample_prelude) = 32"
    by (simp add: sample_prelude_def prelude_rkyv_def)
  have "prelude_encode sample_prelude \<noteq> prelude_encode (prelude_rkyv RoleUi (replicate 32 7))"
    by code_simp
  then show ?thesis
    using prelude_codec [OF l, of "replicate 32 7" sample_prelude RoleUi] f by (metis length_replicate)
qed

section \<open>Turns of the loop\<close>

text \<open>The states \<open>push\<close> leaves behind: a buffer is never full between calls.\<close>

definition dec_wf :: "connection_decoder \<Rightarrow> bool" where
  "dec_wf d \<longleftrightarrow>
     (cd_failed d \<longleftrightarrow> cd_state d = DsFailed)
     \<and> (case cd_state d of
          DsPrelude bytes filled \<Rightarrow> length bytes = PRELUDE_LEN \<and> filled < PRELUDE_LEN
        | DsLengthPrefix bytes filled \<Rightarrow> length bytes = LENGTH_PREFIX_LEN \<and> filled < LENGTH_PREFIX_LEN
            \<and> cd_prelude d = Some (prelude_rkyv (po_role (cd_policy d)) (po_schema_fingerprint (cd_policy d)))
        | DsPayload n bytes \<Rightarrow> n \<le> MAX_FRAME_LEN \<and> length bytes < unat n
            \<and> cd_prelude d = Some (prelude_rkyv (po_role (cd_policy d)) (po_schema_fingerprint (cd_policy d)))
        | DsFailed \<Rightarrow> True)"

text \<open>How many bytes the current state still waits for.\<close>

definition needed :: "connection_decoder \<Rightarrow> nat" where
  "needed d = (case cd_state d of
       DsPrelude _ filled \<Rightarrow> PRELUDE_LEN - filled
     | DsLengthPrefix _ filled \<Rightarrow> LENGTH_PREFIX_LEN - filled
     | DsPayload n bytes \<Rightarrow> unat n - length bytes
     | DsFailed \<Rightarrow> 0)"

fun kind :: "decoder_state \<Rightarrow> nat" where
  "kind (DsPrelude _ _) = 0"
| "kind (DsLengthPrefix _ _) = 1"
| "kind (DsPayload _ _) = 2"
| "kind DsFailed = 3"

lemma new_decoder_wf [simp]: "dec_wf (new_decoder policy)" "\<not> cd_failed (new_decoder policy)"
  by (simp_all add: dec_wf_def new_decoder_def PRELUDE_LEN_def)

lemma copy_short:
  "length input < n - filled \<Longrightarrow> copy_from_input n dest filled input =
     (take filled dest @ input @ drop (filled + length input) dest, filled + length input, length input)"
  by (simp add: copy_from_input_def Let_def)

lemma copy_full:
  "n - filled \<le> length input \<Longrightarrow> filled \<le> n \<Longrightarrow> length dest = n \<Longrightarrow>
   copy_from_input n dest filled input = (take filled dest @ take (n - filled) input, n, n - filled)"
  by (simp add: copy_from_input_def Let_def)

lemma copy_step:
  assumes "filled + 1 < n" "length dest = n"
  shows "copy_from_input n dest filled (b # rest) =
    (let (dest1, filled1, _) = copy_from_input n dest filled [b];
         (dest2, filled2, k) = copy_from_input n dest1 filled1 rest in (dest2, filled2, Suc k))"
proof -
  have 1: "copy_from_input n dest filled [b] = (take filled dest @ [b] @ drop (filled + 1) dest, filled + 1, 1)"
    using assms by (subst copy_short) auto
  have "min (n - filled) (Suc (length rest)) = Suc (min (n - (filled + 1)) (length rest))"
    using assms by auto
  then show ?thesis
    using assms unfolding 1 by (simp add: copy_from_input_def Let_def ac_simps)
qed

lemma turn_short:
  assumes "dec_wf d" "\<not> cd_failed d" "length input < needed d"
  obtains d' where "push_turn access d input = (d', [], [], None)" "dec_wf d'" "\<not> cd_failed d'"
    "needed d' = needed d - length input" "cd_policy d' = cd_policy d"
    "kind (cd_state d') = kind (cd_state d)"
proof (cases "cd_state d")
  case (DsPrelude bytes filled)
  show thesis
    by (rule that [of "d\<lparr>cd_state := DsPrelude (take filled bytes @ input @ drop (filled + length input) bytes)
         (filled + length input)\<rparr>"])
      (use DsPrelude assms in \<open>auto simp: push_turn_def turn_prelude_def needed_def dec_wf_def copy_short Let_def\<close>)
next
  case (DsLengthPrefix bytes filled)
  show thesis
    by (rule that [of "d\<lparr>cd_state := DsLengthPrefix (take filled bytes @ input @ drop (filled + length input) bytes)
         (filled + length input)\<rparr>"])
      (use DsLengthPrefix assms in \<open>auto simp: push_turn_def turn_length_def needed_def dec_wf_def copy_short Let_def\<close>)
next
  case (DsPayload n bytes)
  show thesis
    by (rule that [of "d\<lparr>cd_state := DsPayload n (bytes @ input)\<rparr>"])
      (use DsPayload assms in \<open>auto simp: push_turn_def turn_payload_def needed_def dec_wf_def Let_def\<close>)
qed (use assms in \<open>simp add: dec_wf_def\<close>)

text \<open>What a full buffer does with its bytes; the rest of the input is untouched.\<close>

lemma turn_full_prelude:
  assumes "cd_state d = DsPrelude bytes filled" "filled \<le> PRELUDE_LEN" "length bytes = PRELUDE_LEN"
    "PRELUDE_LEN - filled \<le> length input"
  shows "push_turn access d input = (case rbind (prelude_decode (take filled bytes @ take (PRELUDE_LEN - filled) input))
        (\<lambda>prelude. rbind (prelude_validate prelude Rkyv (po_role (cd_policy d))
           (po_schema_fingerprint (cd_policy d)) MAX_FRAME_LEN) (\<lambda>_. Inr prelude)) of
       Inl e \<Rightarrow> (fail_decoder d, drop (PRELUDE_LEN - filled) input, [], Some e)
     | Inr prelude \<Rightarrow> (d\<lparr>cd_prelude := Some prelude, cd_state := DsLengthPrefix (replicate LENGTH_PREFIX_LEN 0) 0\<rparr>,
          drop (PRELUDE_LEN - filled) input, [], None))"
  using assms by (simp add: push_turn_def turn_prelude_def turn_fail_def copy_full Let_def split: sum.split)

lemma turn_full_length:
  assumes "cd_state d = DsLengthPrefix bytes filled" "filled \<le> LENGTH_PREFIX_LEN"
    "length bytes = LENGTH_PREFIX_LEN" "LENGTH_PREFIX_LEN - filled \<le> length input"
  shows "push_turn access d input =
    (let n = from_be32 (take filled bytes @ take (LENGTH_PREFIX_LEN - filled) input);
         rest = drop (LENGTH_PREFIX_LEN - filled) input
     in if n = 0 then (fail_decoder d, rest, [], Some DeEmptyFrame)
        else if MAX_FRAME_LEN < n then (fail_decoder d, rest, [], Some (DeFrameTooLarge n MAX_FRAME_LEN))
        else (d\<lparr>cd_state := DsPayload n []\<rparr>, rest, [], None))"
  using assms by (simp add: push_turn_def turn_length_def turn_fail_def copy_full Let_def)

lemma turn_full_payload:
  assumes "cd_state d = DsPayload n bytes" "length bytes \<le> unat n" "unat n - length bytes \<le> length input"
  shows "push_turn access d input =
    (let payload = bytes @ take (unat n - length bytes) input; rest = drop (unat n - length bytes) input
     in case access payload of
          Inl e \<Rightarrow> (fail_decoder d, rest, [], Some (DeInvalidArchive e))
        | Inr m \<Rightarrow>
            (case validate_archived_wire_message m (po_role (cd_policy d)) (po_direction (cd_policy d)) (cd_phase d) of
               Inl e \<Rightarrow> (fail_decoder d, rest, [], Some (DeSemantic e))
             | Inr p \<Rightarrow> (d\<lparr>cd_phase := p, cd_state := DsLengthPrefix (replicate LENGTH_PREFIX_LEN 0) 0\<rparr>,
                  rest, [payload], None)))"
  using assms by (simp add: push_turn_def turn_payload_def turn_fail_def Let_def min_def split: sum.split)

lemma turn_full:
  assumes "dec_wf d" "\<not> cd_failed d" "needed d \<le> length input"
  shows "push_turn access d input =
    (let (d', _, fs, e) = push_turn access d (take (needed d) input) in (d', drop (needed d) input, fs, e))"
proof (cases "cd_state d")
  case (DsPrelude bytes filled)
  then have "filled \<le> PRELUDE_LEN" "length bytes = PRELUDE_LEN" "needed d = PRELUDE_LEN - filled"
    using assms by (auto simp: dec_wf_def needed_def)
  then show ?thesis using assms(3) DsPrelude by (simp add: turn_full_prelude split: sum.split)
next
  case (DsLengthPrefix bytes filled)
  then have "filled \<le> LENGTH_PREFIX_LEN" "length bytes = LENGTH_PREFIX_LEN" "needed d = LENGTH_PREFIX_LEN - filled"
    using assms by (auto simp: dec_wf_def needed_def)
  then show ?thesis using assms(3) DsLengthPrefix by (simp add: turn_full_length Let_def)
next
  case (DsPayload n bytes)
  then have "length bytes \<le> unat n" "needed d = unat n - length bytes"
    using assms by (auto simp: dec_wf_def needed_def)
  then show ?thesis using assms(3) DsPayload by (simp add: turn_full_payload Let_def split: sum.split)
qed (use assms in \<open>simp add: dec_wf_def\<close>)

lemma turn_step:
  assumes "dec_wf d" "\<not> cd_failed d" "1 < needed d"
  shows "push_turn access d (b # rest) = push_turn access (fst (push_turn access d [b])) rest"
proof (cases "cd_state d")
  case (DsPrelude bytes filled)
  then have n: "filled + 1 < PRELUDE_LEN" "length bytes = PRELUDE_LEN"
    using assms by (auto simp: dec_wf_def needed_def)
  have 1: "copy_from_input PRELUDE_LEN bytes filled [b] = (take filled bytes @ [b] @ drop (filled + 1) bytes, filled + 1, 1)"
    using n by (subst copy_short) auto
  obtain y k j where c: "copy_from_input PRELUDE_LEN (take filled bytes @ [b] @ drop (filled + 1) bytes) (filled + 1) rest = (y, k, j)"
    by (metis prod_cases3)
  show ?thesis using n c copy_step [OF n, of b rest] unfolding 1
    by (simp add: push_turn_def turn_prelude_def turn_fail_def fail_decoder_def DsPrelude 1
        Let_def split: sum.split)
next
  case (DsLengthPrefix bytes filled)
  then have n: "filled + 1 < LENGTH_PREFIX_LEN" "length bytes = LENGTH_PREFIX_LEN"
    using assms by (auto simp: dec_wf_def needed_def)
  have 1: "copy_from_input LENGTH_PREFIX_LEN bytes filled [b] = (take filled bytes @ [b] @ drop (filled + 1) bytes, filled + 1, 1)"
    using n by (subst copy_short) auto
  obtain y k j where c: "copy_from_input LENGTH_PREFIX_LEN (take filled bytes @ [b] @ drop (filled + 1) bytes) (filled + 1) rest = (y, k, j)"
    by (metis prod_cases3)
  show ?thesis using n c copy_step [OF n, of b rest] unfolding 1
    by (simp add: push_turn_def turn_length_def turn_fail_def fail_decoder_def DsLengthPrefix 1 Let_def)
next
  case (DsPayload n bytes)
  then have "length bytes + 1 < unat n" using assms by (auto simp: needed_def)
  moreover from this have "min (unat n - length bytes) (Suc (length rest)) = Suc (min (unat n - Suc (length bytes)) (length rest))"
    by auto
  ultimately show ?thesis
    by (simp add: push_turn_def turn_payload_def turn_fail_def fail_decoder_def DsPayload Let_def
        split: sum.split)
qed (use assms in \<open>simp add: dec_wf_def\<close>)

lemma turn_progress:
  assumes "dec_wf d" "\<not> cd_failed d" "input \<noteq> []" "push_turn access d input = (d', rest, fs, e)"
  shows "dec_wf d' \<and> length rest < length input \<and> (cd_failed d' \<longleftrightarrow> e \<noteq> None)
    \<and> cd_policy d' = cd_policy d"
proof (cases "length input < needed d")
  case True
  then obtain d'' where "push_turn access d input = (d'', [], [], None)" "dec_wf d''"
    "\<not> cd_failed d''" "cd_policy d'' = cd_policy d"
    using turn_short assms(1,2) by metis
  then show ?thesis using assms by auto
next
  case False
  have pos: "0 < needed d" using assms by (auto simp: dec_wf_def needed_def split: decoder_state.splits)
  have rest: "rest = drop (needed d) input"
    using turn_full [OF assms(1,2), of input access] False assms(4) by (auto split: prod.splits)
  have l: "length rest < length input" using rest pos assms(3) by simp
  show ?thesis
  proof (cases "cd_state d")
    case (DsPrelude bytes filled)
    then show ?thesis using assms False l
      by (subst (asm) turn_full_prelude [OF DsPrelude])
        (auto simp: needed_def dec_wf_def fail_decoder_def LENGTH_PREFIX_LEN_def rbind_Inr_iff
          prelude_validate_iff split: sum.splits)
  next
    case (DsLengthPrefix bytes filled)
    then show ?thesis using assms False l
      by (subst (asm) turn_full_length [OF DsLengthPrefix])
        (auto simp: needed_def dec_wf_def fail_decoder_def Let_def unat_gt_0 split: if_splits)
  next
    case (DsPayload n bytes)
    then show ?thesis using assms False l
      by (subst (asm) turn_full_payload [OF DsPayload])
        (auto simp: needed_def dec_wf_def fail_decoder_def Let_def LENGTH_PREFIX_LEN_def split: sum.splits)
  qed (use assms in \<open>simp add: dec_wf_def\<close>)
qed

section \<open>Bytes one at a time\<close>

text \<open>
  The reference the loop is compared with: a machine that takes one byte, and whose outputs are the
  frames and the error in the order they happen. A failed machine is silent.
\<close>

datatype frame_event = Received "u8 list" | Broke decode_error

definition events_of :: "u8 list list \<Rightarrow> decode_error option \<Rightarrow> frame_event list" where
  "events_of fs e = map Received fs @ (case e of None \<Rightarrow> [] | Some x \<Rightarrow> [Broke x])"

definition dec_byte :: "access \<Rightarrow> connection_decoder \<Rightarrow> u8 \<Rightarrow> connection_decoder \<times> frame_event list" where
  "dec_byte access d b =
     (if cd_failed d then (d, []) else let (d', _, fs, e) = push_turn access d [b] in (d', events_of fs e))"

abbreviation run_bytes :: "access \<Rightarrow> connection_decoder \<Rightarrow> u8 list \<Rightarrow> connection_decoder \<times> frame_event list" where
  "run_bytes access \<equiv> run (dec_byte access)"

lemma run_failed [simp]: "cd_failed d \<Longrightarrow> run_bytes access d bs = (d, [])"
  by (induction bs) (simp_all add: dec_byte_def)

lemma run_turn:
  assumes "dec_wf d" "\<not> cd_failed d" "input \<noteq> []" "push_turn access d input = (d', rest, fs, e)"
  shows "run_bytes access d input =
    (fst (run_bytes access d' rest), events_of fs e @ snd (run_bytes access d' rest))"
  using assms
proof (induction input arbitrary: d d' rest fs e)
  case (Cons b bs)
  obtain d1 r1 fs1 e1 where b: "push_turn access d [b] = (d1, r1, fs1, e1)" by (metis prod_cases4)
  have by_byte: "dec_byte access d b = (d1, events_of fs1 e1)"
    using Cons.prems(2) b by (simp add: dec_byte_def)
  have p1: "dec_wf d1" "r1 = []" "cd_failed d1 \<longleftrightarrow> e1 \<noteq> None"
    using turn_progress [OF Cons.prems(1,2) _ b] by auto
  have pos: "0 < needed d"
    using Cons.prems by (auto simp: dec_wf_def needed_def split: decoder_state.splits)
  show ?case
  proof (cases "needed d = 1")
    case True
    then have "push_turn access d (b # bs) = (d1, bs, fs1, e1)"
      using turn_full [OF Cons.prems(1,2), of "b # bs" access] b by simp
    then show ?thesis using Cons.prems(4) by_byte by (simp add: run_Cons del: run.simps(2))
  next
    case False
    then have gt: "1 < needed d" using pos by simp
    obtain d2 where "push_turn access d [b] = (d2, [], [], None)" "dec_wf d2" "\<not> cd_failed d2"
      using turn_short [of d "[b]"] Cons.prems(1,2) gt by (metis One_nat_def length_Cons list.size(3))
    then have s: "fs1 = []" "e1 = None" "dec_wf d1" "\<not> cd_failed d1" using b by auto
    have st: "push_turn access d1 bs = (d', rest, fs, e)"
      using turn_step [OF Cons.prems(1,2) gt, of access b bs] Cons.prems(4) b by simp
    show ?thesis
    proof (cases "bs = []")
      case True
      then show ?thesis using Cons.prems(4) b p1 by (simp add: run_Cons by_byte del: run.simps(2))
    next
      case False
      then show ?thesis using Cons.IH [OF s(3,4) False st] s
        by (simp add: run_Cons by_byte events_of_def del: run.simps(2))
    qed
  qed
qed simp

text \<open>The loop ends, and it is the byte machine.\<close>

lemma push_loop_run:
  assumes "dec_wf d" "\<not> cd_failed d"
  shows "\<exists>d' fs r. push_loop access d input = Some (d', fs, r) \<and> dec_wf d'
    \<and> (cd_failed d' \<longleftrightarrow> (\<exists>e. r = Inl e))
    \<and> run_bytes access d input = (d', events_of fs (case r of Inl e \<Rightarrow> Some e | Inr _ \<Rightarrow> None))"
  using assms
proof (induction "length input" arbitrary: d input rule: less_induct)
  case less
  show ?case
  proof (cases "input = []")
    case True
    then show ?thesis using less.prems by (subst push_loop.simps) (auto simp: events_of_def)
  next
    case False
    obtain d1 rest fs e where t: "push_turn access d input = (d1, rest, fs, e)" by (metis prod_cases4)
    note pr = turn_progress [OF less.prems False t]
    note rt = run_turn [OF less.prems False t]
    show ?thesis
    proof (cases e)
      case (Some x)
      then show ?thesis using False t pr rt by (subst push_loop.simps) auto
    next
      case None
      then obtain d' gs r where i: "push_loop access d1 rest = Some (d', gs, r)" "dec_wf d'"
        "cd_failed d' \<longleftrightarrow> (\<exists>e. r = Inl e)"
        "run_bytes access d1 rest = (d', events_of gs (case r of Inl e \<Rightarrow> Some e | Inr _ \<Rightarrow> None))"
        using less.hyps [of rest d1] pr by auto
      have "push_loop access d input = Some (d', fs @ gs, r)"
        using False t None i by (subst push_loop.simps) simp
      then show ?thesis using i rt None by (auto simp: events_of_def)
    qed
  qed
qed

section \<open>Chunks\<close>

text \<open>What a connection does with the chunks it reads: it stops at the first error.\<close>

fun push_stream ::
  "access \<Rightarrow> connection_decoder \<Rightarrow> u8 list list
   \<Rightarrow> (connection_decoder \<times> u8 list list \<times> (decode_error + unit)) option" where
  "push_stream access d [] = Some (d, [], Inr ())"
| "push_stream access d (c # cs) =
     (case push_bytes access d c of
        None \<Rightarrow> None
      | Some (d', fs, Inl e) \<Rightarrow> Some (d', fs, Inl e)
      | Some (d', fs, Inr _) \<Rightarrow>
          Option.bind (push_stream access d' cs) (\<lambda>(d'', gs, r). Some (d'', fs @ gs, r)))"

lemma events_of_inject:
  "events_of fs e = events_of gs e' \<longleftrightarrow> fs = gs \<and> e = e'"
proof -
  have r: "fs = map (\<lambda>x. case x of Received p \<Rightarrow> p | Broke _ \<Rightarrow> [])
      (filter (\<lambda>x. case x of Received p \<Rightarrow> True | Broke _ \<Rightarrow> False) (events_of fs e))" for fs e
    by (cases e) (simp_all add: events_of_def filter_map comp_def)
  have b: "(case e of None \<Rightarrow> [] | Some x \<Rightarrow> [Broke x]) =
      filter (\<lambda>x. case x of Received p \<Rightarrow> False | Broke _ \<Rightarrow> True) (events_of fs e)" for fs e
    by (cases e) (simp_all add: events_of_def filter_map comp_def)
  show ?thesis
  proof
    assume eq: "events_of fs e = events_of gs e'"
    then have "fs = gs" using r by metis
    moreover have "(case e of None \<Rightarrow> [] | Some x \<Rightarrow> [Broke x]) = (case e' of None \<Rightarrow> [] | Some x \<Rightarrow> [Broke x])"
      using eq b by metis
    ultimately show "fs = gs \<and> e = e'" by (auto split: option.splits)
  qed simp
qed

abbreviation err_of :: "decode_error + unit \<Rightarrow> decode_error option" where
  "err_of r \<equiv> (case r of Inl e \<Rightarrow> Some e | Inr _ \<Rightarrow> None)"

lemma push_bytes_run:
  assumes "dec_wf d" "\<not> cd_failed d"
  shows "push_bytes access d input = Some (d', fs, r)
    \<longleftrightarrow> run_bytes access d input = (d', events_of fs (err_of r))"
proof -
  obtain d1 gs r1 where p: "push_loop access d input = Some (d1, gs, r1)"
    "run_bytes access d input = (d1, events_of gs (err_of r1))"
    using push_loop_run [OF assms] by blast
  have "err_of r = err_of r1 \<longleftrightarrow> r = r1" by (auto split: sum.splits)
  then show ?thesis using p assms(2) by (auto simp: push_bytes_def events_of_inject)
qed

lemma push_bytes_turn_error:
  "\<not> cd_failed d \<Longrightarrow> input \<noteq> [] \<Longrightarrow> push_turn access d input = (d', rest, fs, Some e)
   \<Longrightarrow> push_bytes access d input = Some (d', fs, Inl e)"
  by (simp add: push_bytes_def push_loop.simps)

lemma push_bytes_ends:
  assumes "dec_wf d" "\<not> cd_failed d"
  obtains d' fs r where "push_bytes access d input = Some (d', fs, r)" "dec_wf d'"
    "cd_failed d' \<longleftrightarrow> (\<exists>e. r = Inl e)"
  using push_loop_run [OF assms, of access input] assms(2) by (auto simp: push_bytes_def)

lemma frame_chunk_independent_aux:
  assumes "dec_wf d" and "\<not> cd_failed d"
  shows "push_stream access d chunks = push_bytes access d (concat chunks)
    \<and> push_bytes access d (concat chunks) \<noteq> None"
  using assms
proof (induction chunks arbitrary: d)
  case Nil
  have "push_bytes access d [] = Some (d, [], Inr ())"
    using Nil.prems by (simp add: push_bytes_def push_loop.simps)
  then show ?case by simp
next
  case (Cons c cs)
  obtain d1 fs r where p: "push_bytes access d c = Some (d1, fs, r)" "dec_wf d1"
      "cd_failed d1 \<longleftrightarrow> (\<exists>e. r = Inl e)"
    using push_bytes_ends [OF Cons.prems] by metis
  then have rc: "run_bytes access d c = (d1, events_of fs (err_of r))"
    using push_bytes_run [OF Cons.prems] by simp
  show ?case
  proof (cases r)
    case (Inl e)
    then have "run_bytes access d (c @ concat cs) = (d1, events_of fs (Some e))"
      using rc p(3) by (simp add: run_append)
    then have "push_bytes access d (c @ concat cs) = Some (d1, fs, Inl e)"
      by (subst push_bytes_run [OF Cons.prems]) simp
    then show ?thesis using p Inl by simp
  next
    case (Inr u)
    then have nf: "\<not> cd_failed d1" using p by simp
    obtain d2 gs r2 where q: "push_bytes access d1 (concat cs) = Some (d2, gs, r2)"
      using push_bytes_ends [OF p(2) nf] by metis
    then have "run_bytes access d1 (concat cs) = (d2, events_of gs (err_of r2))"
      using push_bytes_run [OF p(2) nf] by simp
    then have "run_bytes access d (c @ concat cs) = (d2, events_of (fs @ gs) (err_of r2))"
      using rc Inr by (simp add: run_append events_of_def)
    then have "push_bytes access d (c @ concat cs) = Some (d2, fs @ gs, r2)"
      by (subst push_bytes_run [OF Cons.prems]) simp
    then show ?thesis using p Inr q Cons.IH [OF p(2) nf] by simp
  qed
qed

text \<open>
  C33: Chunks do not matter. From every state the decoder can be left in, reading a stream in chunks
  and stopping at the first error returns, and it hands out the same frames, reports the same error
  and ends in the same state as one call on the whole stream.
\<close>
theorem frame_chunk_independent:
  assumes "dec_wf d" and "\<not> cd_failed d"
  shows "push_stream access d chunks = push_bytes access d (concat chunks)
    \<and> push_bytes access d (concat chunks) \<noteq> None"
  by (rule frame_chunk_independent_aux [OF assms])

lemma frame_chunk_independent_witness:
  "push_stream (\<lambda>_. Inl ''unread'') (new_decoder (policy_broker RoleUi (replicate 32 0)))
     [[0x4d], [0x55, 0x59], replicate 40 0, [0x45, 0]]
   = Some (fail_decoder (new_decoder (policy_broker RoleUi (replicate 32 0))), [], Inl DeBadMagic)"
proof -
  let ?d = "new_decoder (policy_broker RoleUi (replicate 32 0))"
  let ?cs = "[[0x4d], [0x55, 0x59], replicate 40 0, [0x45, 0]]"
  have t: "push_turn (\<lambda>_. Inl ''unread'') ?d (concat ?cs) = (fail_decoder ?d, [0], [], Some DeBadMagic)"
    by code_simp
  have "push_bytes (\<lambda>_. Inl ''unread'') ?d (concat ?cs) = Some (fail_decoder ?d, [], Inl DeBadMagic)"
    by (rule push_bytes_turn_error [OF _ _ t]) simp_all
  then show ?thesis
    using frame_chunk_independent [of ?d "\<lambda>_. Inl ''unread''" ?cs] new_decoder_wf by metis
qed

end
