(* ===== verification/Frame_Language.thy ===== *)
theory Frame_Language
  imports Frame_Stream
begin

text \<open>
  The streams a connection accepts: what the decoder hands out is safe whatever arrives, and the
  complete streams are exactly a prelude followed by well-formed frames of an accepted conversation.
\<close>

section \<open>Safety of the byte machine\<close>

fun frame_event_ok :: "access \<Rightarrow> frame_event \<Rightarrow> bool" where
  "frame_event_ok access (Received p) \<longleftrightarrow>
     p \<noteq> [] \<and> length p \<le> unat MAX_FRAME_LEN \<and> (\<exists>m. access p = Inr m)"
| "frame_event_ok access (Broke _) \<longleftrightarrow> True"

text \<open>The messages of the frames, and the phase they leave.\<close>

definition talks :: "access \<Rightarrow> connection_decoder \<Rightarrow> u8 list list \<Rightarrow> connection_decoder \<Rightarrow> bool" where
  "talks access d fs d' \<longleftrightarrow>
     (\<exists>ms. map access fs = map Inr ms
        \<and> converse_with validate_archived_wire_message (po_role (cd_policy d)) (po_direction (cd_policy d))
            (cd_phase d) ms = Inr (cd_phase d'))
     \<and> cd_policy d' = cd_policy d"

lemma talks_refl: "cd_phase d' = cd_phase d \<Longrightarrow> cd_policy d' = cd_policy d \<Longrightarrow> talks access d [] d'"
  by (simp add: talks_def)

lemma talks_trans:
  assumes "talks access d fs d'" "talks access d' gs d''"
  shows "talks access d (fs @ gs) d''"
proof -
  obtain ms ns where m: "map access fs = map Inr ms" "map access gs = map Inr ns"
    "converse_with validate_archived_wire_message (po_role (cd_policy d)) (po_direction (cd_policy d))
       (cd_phase d) ms = Inr (cd_phase d')"
    "converse_with validate_archived_wire_message (po_role (cd_policy d)) (po_direction (cd_policy d))
       (cd_phase d') ns = Inr (cd_phase d'')"
    using assms by (auto simp: talks_def)
  then have "map access (fs @ gs) = map Inr (ms @ ns)" by simp
  moreover have "converse_with validate_archived_wire_message (po_role (cd_policy d)) (po_direction (cd_policy d))
       (cd_phase d) (ms @ ns) = Inr (cd_phase d'')"
    using m by (simp add: converse_with_append)
  ultimately show ?thesis using assms unfolding talks_def by metis
qed

lemma turn_talks:
  assumes "push_turn access d input = (d', rest, fs, e)"
  shows "talks access d fs d'"
proof (cases "cd_state d")
  case (DsPayload n bytes)
  let ?p = "bytes @ take (unat n - length bytes) input"
  show ?thesis
  proof (cases "fs = []")
    case True
    then show ?thesis using assms DsPayload
      by (auto simp: push_turn_def turn_payload_def turn_fail_def fail_decoder_def Let_def
          intro!: talks_refl split: if_splits sum.splits)
  next
    case False
    then obtain p m q where "fs = [p]" "access p = Inr m" "cd_phase d' = q" "cd_policy d' = cd_policy d"
      "validate_archived_wire_message m (po_role (cd_policy d)) (po_direction (cd_policy d)) (cd_phase d) = Inr q"
      using assms DsPayload
      by (auto simp: push_turn_def turn_payload_def turn_fail_def Let_def split: if_splits sum.splits)
    then show ?thesis unfolding talks_def by (intro conjI exI [of _ "[m]"]) simp_all
  qed
qed (use assms in \<open>auto simp: push_turn_def turn_prelude_def turn_length_def turn_fail_def
    fail_decoder_def Let_def intro!: talks_refl split: if_splits sum.splits prod.splits\<close>)

lemma turn_frames_ok:
  assumes "dec_wf d" "push_turn access d input = (d', rest, fs, e)"
  shows "list_all (frame_event_ok access) (events_of fs e)"
proof (cases "cd_state d")
  case (DsPayload n bytes)
  then have n: "0 < unat n" "unat n \<le> unat MAX_FRAME_LEN"
    using assms(1) by (auto simp: dec_wf_def word_le_nat_alt)
  then show ?thesis using assms(2) DsPayload
    by (auto simp: push_turn_def turn_payload_def turn_fail_def Let_def events_of_def
        split: if_splits sum.splits)
qed (use assms in \<open>auto simp: push_turn_def turn_prelude_def turn_length_def turn_fail_def
    Let_def events_of_def split: if_splits sum.splits prod.splits\<close>)

lemma dec_byte_wf: "dec_wf d \<Longrightarrow> dec_wf (fst (dec_byte access d b))"
proof (cases "cd_failed d")
  case False
  assume wf: "dec_wf d"
  obtain d1 r1 fs1 e1 where b: "push_turn access d [b] = (d1, r1, fs1, e1)" by (metis prod_cases4)
  then show ?thesis using turn_progress [OF wf False _ b] False by (simp add: dec_byte_def)
qed (simp add: dec_byte_def)

interpretation frames: event_machine "dec_byte access" dec_wf "frame_event_ok access" for access
proof
  show "dec_wf (fst (dec_byte access d b))" if "dec_wf d" for d b
    using dec_byte_wf that .
  show "list_all (frame_event_ok access) (snd (dec_byte access d b))" if "dec_wf d" for d b
    using turn_frames_ok [OF that, of access "[b]"] by (auto simp: dec_byte_def split: prod.splits)
qed

definition payloads :: "frame_event list \<Rightarrow> u8 list list" where
  "payloads es = concat (map (\<lambda>x. case x of Received p \<Rightarrow> [p] | Broke _ \<Rightarrow> []) es)"

lemma payloads_simps [simp]:
  "payloads [] = []" "payloads (xs @ ys) = payloads xs @ payloads ys"
  by (simp_all add: payloads_def)

lemma payloads_events [simp]: "payloads (events_of fs e) = fs"
proof -
  have "concat (map (\<lambda>x. case x of Received p \<Rightarrow> [p] | Broke _ \<Rightarrow> []) (map Received fs)) = fs"
    by (induction fs) simp_all
  then show ?thesis by (cases e) (simp_all add: payloads_def events_of_def)
qed

lemma run_talks: "talks access d (payloads (snd (run_bytes access d bs))) (fst (run_bytes access d bs))"
proof (induction bs arbitrary: d)
  case (Cons b bs)
  have "talks access d (payloads (snd (dec_byte access d b))) (fst (dec_byte access d b))"
  proof (cases "cd_failed d")
    case False
    obtain d1 r1 fs1 e1 where b: "push_turn access d [b] = (d1, r1, fs1, e1)" by (metis prod_cases4)
    then show ?thesis using turn_talks [OF b] False by (simp add: dec_byte_def)
  qed (simp add: dec_byte_def talks_refl)
  then show ?case using talks_trans Cons.IH by (simp add: run_Cons del: run.simps(2)) 
qed (simp add: talks_refl)

section \<open>The prelude comes first\<close>

lemma new_decoder_needed [simp]: "needed (new_decoder policy) = 44"
  by (simp add: needed_def new_decoder_def PRELUDE_LEN_def)

lemma new_decoder_fields [simp]:
  "cd_state (new_decoder policy) = DsPrelude (replicate PRELUDE_LEN 0) 0"
  "cd_policy (new_decoder policy) = policy"
  "cd_phase (new_decoder policy) = initial_phase (po_direction policy)"
  by (simp_all add: new_decoder_def)

text \<open>The decoder after the prelude of its policy.\<close>

definition opened :: "connection_policy \<Rightarrow> connection_decoder" where
  "opened policy = (new_decoder policy)
     \<lparr>cd_prelude := Some (prelude_rkyv (po_role policy) (po_schema_fingerprint policy)),
      cd_state := DsLengthPrefix (replicate LENGTH_PREFIX_LEN 0) 0\<rparr>"

lemma run_new_short:
  assumes "length bs < 44"
  shows "\<exists>d. run_bytes access (new_decoder policy) bs = (d, []) \<and> \<not> cd_failed d \<and> kind (cd_state d) = 0"
proof (cases "bs = []")
  case False
  obtain d where d: "push_turn access (new_decoder policy) bs = (d, [], [], None)" "\<not> cd_failed d"
    "kind (cd_state d) = kind (cd_state (new_decoder policy))"
    using turn_short [of "new_decoder policy" bs] assms by auto
  then show ?thesis using run_turn [OF new_decoder_wf False d(1)] by (simp add: events_of_def)
qed simp

lemma run_new_full:
  assumes "44 \<le> length bs" and fp: "length (po_schema_fingerprint policy) = 32"
  shows "(if take 44 bs = prelude_encode (prelude_rkyv (po_role policy) (po_schema_fingerprint policy))
      then run_bytes access (new_decoder policy) bs = run_bytes access (opened policy) (drop 44 bs)
      else \<exists>d e. run_bytes access (new_decoder policy) bs = (d, [Broke e]) \<and> cd_failed d)"
proof -
  let ?d = "new_decoder policy"
  let ?r = "prelude_rkyv (po_role policy) (po_schema_fingerprint policy)"
  let ?v = "rbind (prelude_decode (take 44 bs)) (\<lambda>prelude.
              rbind (prelude_validate prelude Rkyv (po_role policy) (po_schema_fingerprint policy) MAX_FRAME_LEN)
                (\<lambda>_. Inr prelude))"
  have t: "push_turn access ?d bs = (case ?v of
       Inl e \<Rightarrow> (fail_decoder ?d, drop 44 bs, [], Some e)
     | Inr prelude \<Rightarrow> (?d\<lparr>cd_prelude := Some prelude, cd_state := DsLengthPrefix (replicate LENGTH_PREFIX_LEN 0) 0\<rparr>,
          drop 44 bs, [], None))"
    using assms(1) by (subst turn_full_prelude [of _ "replicate 44 0" 0])
      (simp_all add: PRELUDE_LEN_def split: sum.split)
  have ne: "bs \<noteq> []" using assms(1) by auto
  have r32: "length (pr_schema_fingerprint ?r) = 32" using fp by (simp add: prelude_rkyv_def)
  have "(\<exists>p. ?v = Inr p) \<longleftrightarrow> prelude_decode (take 44 bs) = Inr ?r"
    unfolding rbind_Inr_iff prelude_validate_iff by blast
  also have "\<dots> \<longleftrightarrow> take 44 bs = prelude_encode ?r"
    using prelude_decode_encode [OF r32] prelude_encode_decode [of "take 44 bs" ?r] assms(1) by auto
  finally have codec: "(\<exists>p. ?v = Inr p) \<longleftrightarrow> take 44 bs = prelude_encode ?r" .
  show ?thesis
  proof (cases ?v)
    case (Inl e)
    then have "push_turn access ?d bs = (fail_decoder ?d, drop 44 bs, [], Some e)" using t by simp
    then show ?thesis using run_turn [OF new_decoder_wf ne] Inl codec
      by (auto simp: events_of_def fail_decoder_def)
  next
    case (Inr p)
    then have "p = ?r" unfolding rbind_Inr_iff prelude_validate_iff by blast
    then have "push_turn access ?d bs = (opened policy, drop 44 bs, [], None)"
      using t Inr by (simp add: opened_def)
    then show ?thesis using run_turn [OF new_decoder_wf ne] Inr codec by (auto simp: events_of_def)
  qed
qed

section \<open>Frames between boundaries\<close>

definition frame_bytes :: "u8 list \<Rightarrow> u8 list" where
  "frame_bytes p = be32 (of_nat (length p)) @ p"

definition at_boundary :: "connection_decoder \<Rightarrow> bool" where
  "at_boundary d \<longleftrightarrow> dec_wf d \<and> \<not> cd_failed d \<and> cd_state d = DsLengthPrefix (replicate LENGTH_PREFIX_LEN 0) 0"

lemma opened_boundary [simp]: "at_boundary (opened policy)"
  by (simp add: at_boundary_def opened_def dec_wf_def new_decoder_def LENGTH_PREFIX_LEN_def)

lemma opened_fields [simp]:
  "cd_policy (opened policy) = policy" "cd_phase (opened policy) = initial_phase (po_direction policy)"
  by (simp_all add: opened_def)

lemma boundary_phase [simp]: "at_boundary d \<Longrightarrow> at_boundary (d\<lparr>cd_phase := q\<rparr>)"
  by (auto simp: at_boundary_def dec_wf_def LENGTH_PREFIX_LEN_def)

lemma boundary_needed [simp]: "at_boundary d \<Longrightarrow> needed d = 4 \<and> kind (cd_state d) = 1"
  by (simp add: at_boundary_def needed_def LENGTH_PREFIX_LEN_def)

lemma finish_ok_iff:
  "dec_wf d \<Longrightarrow> snd (finish_decoder d) = Inr ()
     \<longleftrightarrow> \<not> cd_failed d \<and> kind (cd_state d) = 1 \<and> needed d = 4"
  by (cases "cd_state d")
    (auto simp: finish_decoder_def dec_wf_def needed_def LENGTH_PREFIX_LEN_def Let_def)

lemma unat_length: "length p \<le> unat MAX_FRAME_LEN \<Longrightarrow> unat (of_nat (length p) :: u32) = length p"
  by (simp add: unsigned_of_nat MAX_FRAME_LEN_def take_bit_nat_eq_self)

lemma boundary_length_turn:
  assumes "at_boundary d" "4 \<le> length bs"
  shows "push_turn access d bs =
    (let n = from_be32 (take 4 bs)
     in if n = 0 then (fail_decoder d, drop 4 bs, [], Some DeEmptyFrame)
        else if MAX_FRAME_LEN < n then (fail_decoder d, drop 4 bs, [], Some (DeFrameTooLarge n MAX_FRAME_LEN))
        else (d\<lparr>cd_state := DsPayload n []\<rparr>, drop 4 bs, [], None))"
  using assms by (subst turn_full_length) (auto simp: at_boundary_def LENGTH_PREFIX_LEN_def Let_def)

lemma boundary_payload_wf:
  "at_boundary d \<Longrightarrow> n \<noteq> 0 \<Longrightarrow> n \<le> MAX_FRAME_LEN \<Longrightarrow> dec_wf (d\<lparr>cd_state := DsPayload n []\<rparr>)"
  by (auto simp: at_boundary_def dec_wf_def unat_gt_0)

text \<open>One well-formed frame at a boundary leads to the next boundary.\<close>

lemma run_payload:
  assumes "at_boundary d" "n \<noteq> 0" "n \<le> MAX_FRAME_LEN" "unat n \<le> length bs"
  shows "run_bytes access (d\<lparr>cd_state := DsPayload n []\<rparr>) bs =
    (let p = take (unat n) bs in
     case access p of
       Inl e \<Rightarrow> (fail_decoder d, [Broke (DeInvalidArchive e)])
     | Inr m \<Rightarrow> (case validate_archived_wire_message m (po_role (cd_policy d)) (po_direction (cd_policy d)) (cd_phase d) of
           Inl e \<Rightarrow> (fail_decoder d, [Broke (DeSemantic e)])
         | Inr q \<Rightarrow> (fst (run_bytes access (d\<lparr>cd_phase := q\<rparr>) (drop (unat n) bs)),
              Received p # snd (run_bytes access (d\<lparr>cd_phase := q\<rparr>) (drop (unat n) bs)))))"
proof -
  let ?d = "d\<lparr>cd_state := DsPayload n []\<rparr>"
  have wf: "dec_wf ?d" "\<not> cd_failed ?d" using boundary_payload_wf assms by (auto simp: at_boundary_def)
  have ne: "bs \<noteq> []" using assms(2,4) by (auto simp: unat_eq_zero)
  have same: "d\<lparr>cd_state := DsLengthPrefix (replicate LENGTH_PREFIX_LEN 0) 0\<rparr> = d"
    using assms(1) by (cases d) (simp add: at_boundary_def)
  then have same': "d\<lparr>cd_phase := q, cd_state := DsLengthPrefix (replicate LENGTH_PREFIX_LEN 0) 0\<rparr>
      = d\<lparr>cd_phase := q\<rparr>" for q
    by (cases d) simp
  have t: "push_turn access ?d bs =
    (let p = take (unat n) bs; rest = drop (unat n) bs
     in case access p of
          Inl e \<Rightarrow> (fail_decoder d, rest, [], Some (DeInvalidArchive e))
        | Inr m \<Rightarrow> (case validate_archived_wire_message m (po_role (cd_policy d)) (po_direction (cd_policy d)) (cd_phase d) of
               Inl e \<Rightarrow> (fail_decoder d, rest, [], Some (DeSemantic e))
             | Inr q \<Rightarrow> (d\<lparr>cd_phase := q\<rparr>, rest, [p], None)))"
    using assms(4) by (subst turn_full_payload [of _ n "[]"])
      (auto simp: fail_decoder_def same' Let_def split: sum.split)
  have f: "cd_failed (fail_decoder d)" by (simp add: fail_decoder_def)
  show ?thesis
  proof (cases "access (take (unat n) bs)")
    case (Inl e)
    then show ?thesis using run_turn [OF wf ne, of access] t f by (simp add: Let_def events_of_def)
  next
    case (Inr m)
    then show ?thesis using run_turn [OF wf ne, of access] t f
      by (cases "validate_archived_wire_message m (po_role (cd_policy d)) (po_direction (cd_policy d)) (cd_phase d)")
        (simp_all add: Let_def events_of_def)
  qed
qed

lemma run_frame:
  assumes "at_boundary d" "p \<noteq> []" "length p \<le> unat MAX_FRAME_LEN" "access p = Inr m"
    "validate_archived_wire_message m (po_role (cd_policy d)) (po_direction (cd_policy d)) (cd_phase d) = Inr q"
  shows "run_bytes access d (frame_bytes p @ rest) =
    (fst (run_bytes access (d\<lparr>cd_phase := q\<rparr>) rest),
     Received p # snd (run_bytes access (d\<lparr>cd_phase := q\<rparr>) rest))"
proof -
  let ?n = "of_nat (length p) :: u32"
  have u: "unat ?n = length p" using unat_length assms(3) .
  then have n: "?n \<noteq> 0" "?n \<le> MAX_FRAME_LEN"
    using assms(2,3) by (auto simp: word_le_nat_alt simp flip: unat_eq_zero)
  have t: "push_turn access d (frame_bytes p @ rest) = (d\<lparr>cd_state := DsPayload ?n []\<rparr>, p @ rest, [], None)"
    using n by (subst boundary_length_turn [OF assms(1)]) (auto simp: frame_bytes_def not_less Let_def)
  have "run_bytes access d (frame_bytes p @ rest) = run_bytes access (d\<lparr>cd_state := DsPayload ?n []\<rparr>) (p @ rest)"
    using run_turn [OF _ _ _ t] assms(1,2) by (simp add: at_boundary_def frame_bytes_def events_of_def)
  then show ?thesis using run_payload [OF assms(1) n, of "p @ rest" access] u assms(4,5) by simp
qed

lemma run_frames:
  assumes "at_boundary d" "map access fs = map Inr ms"
    "list_all (\<lambda>p. p \<noteq> [] \<and> length p \<le> unat MAX_FRAME_LEN) fs"
    "converse_with validate_archived_wire_message (po_role (cd_policy d)) (po_direction (cd_policy d))
       (cd_phase d) ms = Inr q"
  shows "run_bytes access d (concat (map frame_bytes fs)) = (d\<lparr>cd_phase := q\<rparr>, map Received fs)"
  using assms
proof (induction fs arbitrary: d ms)
  case (Cons p fs)
  then obtain m ms' q1 where "ms = m # ms'" "access p = Inr m" "map access fs = map Inr ms'"
    "validate_archived_wire_message m (po_role (cd_policy d)) (po_direction (cd_policy d)) (cd_phase d) = Inr q1"
    "converse_with validate_archived_wire_message (po_role (cd_policy d)) (po_direction (cd_policy d))
       q1 ms' = Inr q"
    by (cases ms) (auto simp: rbind_Inr_iff)
  then show ?case
    using Cons.prems Cons.IH [of "d\<lparr>cd_phase := q1\<rparr>" ms'] run_frame [of d p access m q1]
    by simp
qed simp

text \<open>And only well-formed frames lead from a boundary to a boundary.\<close>

lemma run_frames_only:
  assumes "at_boundary d" "run_bytes access d bs = (d', map Received fs)" "\<not> cd_failed d'"
    "kind (cd_state d') = 1" "needed d' = 4"
  shows "bs = concat (map frame_bytes fs)"
  using assms
proof (induction "length bs" arbitrary: bs d fs rule: less_induct)
  case less
  have wf: "dec_wf d" "\<not> cd_failed d" using less.prems(1) by (auto simp: at_boundary_def)
  consider "bs = []" | "bs \<noteq> []" "length bs < 4" | "4 \<le> length bs" by linarith
  then show ?case
  proof cases
    case 1
    then show ?thesis using less.prems by simp
  next
    case 2
    obtain d1 where t: "push_turn access d bs = (d1, [], [], None)" "needed d1 = 4 - length bs"
      using turn_short [OF wf, of bs] 2 less.prems(1) by (metis boundary_needed)
    then have "d' = d1" using run_turn [OF wf 2(1) t(1)] less.prems(2) by (simp add: events_of_def)
    then have "4 - length bs = 4" using t(2) less.prems(5) by simp
    then show ?thesis using 2(1) by (cases bs) auto
  next
    case 3
    let ?n = "from_be32 (take 4 bs)"
    have ne: "bs \<noteq> []" using 3 by auto
    note t = boundary_length_turn [OF less.prems(1) 3, of access]
    have n: "?n \<noteq> 0" "?n \<le> MAX_FRAME_LEN"
      using run_turn [OF wf ne, of access] t less.prems(2,3)
      by (auto simp: Let_def fail_decoder_def not_less split: if_splits)
    let ?dp = "d\<lparr>cd_state := DsPayload ?n []\<rparr>"
    have r: "run_bytes access ?dp (drop 4 bs) = (d', map Received fs)"
    proof -
      have "push_turn access d bs = (?dp, drop 4 bs, [], None)" using t n by (simp add: Let_def not_less)
      then show ?thesis using run_turn [OF wf ne] less.prems(2) by (simp add: events_of_def prod_eq_iff)
    qed
    show ?thesis
    proof (cases "unat ?n \<le> length (drop 4 bs)")
      case False
      have wfp: "dec_wf ?dp" "\<not> cd_failed ?dp" using boundary_payload_wf less.prems(1) n wf by auto
      have "kind (cd_state d') = 2"
      proof (cases "drop 4 bs = []")
        case True
        then show ?thesis using r by auto
      next
        case ne4: False
        obtain d1 where "push_turn access ?dp (drop 4 bs) = (d1, [], [], None)" "kind (cd_state d1) = 2"
          using turn_short [OF wfp, of "drop 4 bs" access] False by (auto simp: needed_def)
        then show ?thesis using run_turn [OF wfp ne4] r by (auto simp: events_of_def)
      qed
      then show ?thesis using less.prems(4) by simp
    next
      case True
      let ?p = "take (unat ?n) (drop 4 bs)" and ?rest = "drop (unat ?n) (drop 4 bs)"
      obtain q gs where g: "fs = ?p # gs" "run_bytes access (d\<lparr>cd_phase := q\<rparr>) ?rest = (d', map Received gs)"
        using run_payload [OF less.prems(1) n True, of access] r
        by (auto simp: Let_def split: sum.splits)
      have "?rest = concat (map frame_bytes gs)"
        using less.hyps [of ?rest "d\<lparr>cd_phase := q\<rparr>" gs] less.prems g 3 by simp
      moreover have "frame_bytes ?p = take 4 bs @ ?p"
        using True 3 by (simp add: frame_bytes_def be32_from_be32)
      ultimately show ?thesis using g(1)
        using append_take_drop_id [of 4 bs] append_take_drop_id [of "unat ?n" "drop 4 bs"]
        by (simp del: drop_drop append_take_drop_id)
    qed
  qed
qed

text \<open>
  C3: Only checked frames reach the program. Whatever bytes arrive, in whatever chunks: every frame
  handed out has between 1 byte and 8 MiB and passed the archive check, the messages of the frames
  form a conversation the validator accepts for the connection's role and direction, no frame is
  handed out unless the stream opened with the one prelude the policy expects, and a decoder that
  reported an error never hands out anything again.
\<close>
theorem decoder_safe:
  assumes "push_stream access (new_decoder policy) chunks = Some (d, fs, r)"
    and "length (po_schema_fingerprint policy) = 32"
  shows "list_all (\<lambda>p. p \<noteq> [] \<and> length p \<le> 8 * 1024 * 1024) fs
    \<and> (\<exists>ms. map access fs = map Inr ms
         \<and> converse_with validate_archived_wire_message (po_role policy) (po_direction policy)
             (initial_phase (po_direction policy)) ms = Inr (cd_phase d))
    \<and> (fs = [] \<or> take 44 (concat chunks)
         = prelude_encode (prelude_rkyv (po_role policy) (po_schema_fingerprint policy)))
    \<and> ((\<exists>e. r = Inl e) = cd_failed d)
    \<and> (cd_failed d = (push_bytes access d = (\<lambda>more. Some (d, [], Inl DeDecoderClosed))))"
proof (intro conjI)
  let ?new = "new_decoder policy"
  have p: "push_bytes access ?new (concat chunks) = Some (d, fs, r)"
    using assms(1) frame_chunk_independent_aux [of ?new] by simp
  then have rn: "run_bytes access ?new (concat chunks) = (d, events_of fs (err_of r))"
    using push_bytes_run [of ?new] by simp
  have "list_all (frame_event_ok access) (events_of fs (err_of r))"
    using frames.run_good [of ?new access "concat chunks"] rn by simp
  then show "list_all (\<lambda>p. p \<noteq> [] \<and> length p \<le> 8 * 1024 * 1024) fs"
    by (simp add: events_of_def list.pred_map comp_def MAX_FRAME_LEN_def) (auto simp: list_all_iff)
  show "\<exists>ms. map access fs = map Inr ms
         \<and> converse_with validate_archived_wire_message (po_role policy) (po_direction policy)
             (initial_phase (po_direction policy)) ms = Inr (cd_phase d)"
    using run_talks [of access ?new "concat chunks"] rn by (simp add: talks_def new_decoder_def)
  show "fs = [] \<or> take 44 (concat chunks)
         = prelude_encode (prelude_rkyv (po_role policy) (po_schema_fingerprint policy))"
  proof (cases "length (concat chunks) < 44")
    case True
    then have "payloads (events_of fs (err_of r)) = []"
      using run_new_short [OF True, of access policy] rn by simp
    then show ?thesis by simp
  next
    case False
    then show ?thesis
      using run_new_full [of "concat chunks" policy access] assms(2) rn
      by (auto split: if_splits) (metis payloads_events list.simps(8) events_of_inject events_of_def append_Nil option.simps(5))
  qed
  show f: "(\<exists>e. r = Inl e) = cd_failed d"
    using push_bytes_ends [of ?new access "concat chunks"] p by auto
  have wf: "dec_wf d" using frames.run_inv [of ?new access "concat chunks"] rn by simp
  show "cd_failed d = (push_bytes access d = (\<lambda>more. Some (d, [], Inl DeDecoderClosed)))"
  proof
    assume e: "push_bytes access d = (\<lambda>more. Some (d, [], Inl DeDecoderClosed))"
    show "cd_failed d"
    proof (rule ccontr)
      assume "\<not> cd_failed d"
      then show False using fun_cong [OF e, of "[]"] by (simp add: push_bytes_def push_loop.simps)
    qed
  qed (auto simp: push_bytes_def)
qed

section \<open>Exact language\<close>

lemma conversation_of_run:
  assumes "run_bytes access (new_decoder policy) bs = (d, events_of fs e)"
  shows "\<exists>ms. map access fs = map Inr ms
    \<and> converse_with validate_archived_wire_message (po_role policy) (po_direction policy)
        (initial_phase (po_direction policy)) ms = Inr (cd_phase d)"
  using run_talks [of access "new_decoder policy" bs] assms by (simp add: talks_def)

lemma form_accepted:
  assumes fp: "length (po_schema_fingerprint policy) = 32"
    and "list_all (\<lambda>p. p \<noteq> [] \<and> length p \<le> unat MAX_FRAME_LEN) fs"
    and "map access fs = map Inr ms"
    and "converse_with validate_archived_wire_message (po_role policy) (po_direction policy)
           (initial_phase (po_direction policy)) ms = Inr q"
  shows "\<exists>d. push_bytes access (new_decoder policy)
           (prelude_encode (prelude_rkyv (po_role policy) (po_schema_fingerprint policy))
            @ concat (map frame_bytes fs)) = Some (d, fs, Inr ())
         \<and> snd (finish_decoder d) = Inr ()"
proof -
  let ?new = "new_decoder policy" and ?d = "(opened policy)\<lparr>cd_phase := q\<rparr>"
  let ?pre = "prelude_encode (prelude_rkyv (po_role policy) (po_schema_fingerprint policy))"
  let ?bs = "?pre @ concat (map frame_bytes fs)"
  have l: "length ?pre = 44" using fp by (simp add: prelude_rkyv_def)
  have "run_bytes access (opened policy) (concat (map frame_bytes fs)) = (?d, map Received fs)"
    using run_frames [OF opened_boundary assms(3,2)] assms(4) by simp
  then have "run_bytes access ?new ?bs = (?d, events_of fs None)"
    using run_new_full [of ?bs policy access] fp l by (simp add: events_of_def)
  then have "push_bytes access ?new ?bs = Some (?d, fs, Inr ())" by (simp add: push_bytes_run)
  moreover have "at_boundary ?d" by simp
  then have "snd (finish_decoder ?d) = Inr ()"
    using finish_ok_iff boundary_needed by (auto simp: at_boundary_def)
  ultimately show ?thesis by blast
qed

text \<open>
  C4: The streams a connection accepts. A complete stream, read and then closed without an error,
  hands out the frames \<open>fs\<close> exactly when it is the 44 bytes of the policy's prelude followed by
  each frame behind the four big-endian bytes of its length, every frame has between 1 byte and
  8 MiB, and the messages of the frames form an accepted conversation. So nothing else is accepted,
  no byte is lost or invented, a stream cut inside a prelude, a prefix or a payload is reported,
  and every stream a correct peer writes is read back.
\<close>
theorem accepted_streams:
  assumes fp: "length (po_schema_fingerprint policy) = 32"
  shows "(\<exists>d. push_bytes access (new_decoder policy) bs = Some (d, fs, Inr ())
            \<and> snd (finish_decoder d) = Inr ())
    \<longleftrightarrow> bs = prelude_encode (prelude_rkyv (po_role policy) (po_schema_fingerprint policy))
             @ concat (map frame_bytes fs)
       \<and> list_all (\<lambda>p. p \<noteq> [] \<and> length p \<le> unat MAX_FRAME_LEN) fs
       \<and> (\<exists>ms q. map access fs = map Inr ms
            \<and> converse_with validate_archived_wire_message (po_role policy) (po_direction policy)
                (initial_phase (po_direction policy)) ms = Inr q)"
    (is "?accepted \<longleftrightarrow> ?form \<and> ?sizes \<and> ?talk")
proof
  let ?new = "new_decoder policy"
  let ?pre = "prelude_encode (prelude_rkyv (po_role policy) (po_schema_fingerprint policy))"
  have l: "length ?pre = 44" using fp by (simp add: prelude_rkyv_def)
  assume ?accepted
  then obtain d where d: "push_bytes access ?new bs = Some (d, fs, Inr ())" "snd (finish_decoder d) = Inr ()"
    by blast
  then have rn: "run_bytes access ?new bs = (d, events_of fs None)" by (simp add: push_bytes_run)
  then have wf: "dec_wf d" using frames.run_inv [of ?new access bs] by simp
  have fin: "\<not> cd_failed d" "kind (cd_state d) = 1" "needed d = 4" using d(2) finish_ok_iff wf by auto
  have long: "44 \<le> length bs"
    using run_new_short [of bs access policy] rn fin(2) by (cases "length bs < 44") auto
  have pre: "take 44 bs = ?pre" "run_bytes access (opened policy) (drop 44 bs) = (d, map Received fs)"
    using run_new_full [OF long fp, of access] rn fin(1) by (auto simp: events_of_def split: if_splits)
  have "drop 44 bs = concat (map frame_bytes fs)"
    using run_frames_only [OF opened_boundary pre(2) fin] .
  then have ?form using pre(1) append_take_drop_id [of 44 bs] by metis
  moreover have ?sizes
    using frames.run_good [of ?new access bs] rn by (simp add: events_of_def list.pred_map comp_def list_all_iff)
  ultimately show "?form \<and> ?sizes \<and> ?talk" using conversation_of_run [OF rn] by blast
next
  assume a: "?form \<and> ?sizes \<and> ?talk"
  then have form: ?form and sizes: ?sizes by blast+
  from a obtain ms q where m: "map access fs = map Inr ms"
    "converse_with validate_archived_wire_message (po_role policy) (po_direction policy)
       (initial_phase (po_direction policy)) ms = Inr q" by blast
  show ?accepted unfolding form by (rule form_accepted [OF fp sizes m])
qed

text \<open>
  Writing a frame. A message becomes a frame exactly when its archive has between 1 byte and
  8 MiB; the frame is then the big-endian length followed by the archive, which is the form the
  decoder accepts, and the prefix reads back as the length. Otherwise the writer reports the
  archive error, an empty frame or a frame that is too large, and writes nothing.
\<close>
theorem encode_frame_iff:
  "(encode_frame to_bytes m = Inr f
     \<longleftrightarrow> (\<exists>p. to_bytes m = Inr p \<and> p \<noteq> [] \<and> length p \<le> unat MAX_FRAME_LEN
          \<and> f = \<lparr>ef_prefix = be32 (of_nat (length p)), ef_payload = p\<rparr>
          \<and> ef_prefix f @ ef_payload f = frame_bytes p
          \<and> unat (from_be32 (ef_prefix f)) = length p))
   \<and> (encode_frame to_bytes m = Inl e
     \<longleftrightarrow> (\<exists>t. to_bytes m = Inl t \<and> e = DeInvalidArchive t)
       \<or> (to_bytes m = Inr [] \<and> e = DeEmptyFrame)
       \<or> (\<exists>p. to_bytes m = Inr p \<and> unat MAX_FRAME_LEN < length p
            \<and> e = DeFrameTooLarge (if length p < 2 ^ 32 then of_nat (length p) else -1) MAX_FRAME_LEN))"
proof (cases "to_bytes m")
  case (Inr p)
  have max: "unat MAX_FRAME_LEN = 8388608" by (simp add: MAX_FRAME_LEN_def)
  have small: "length p < 2 ^ 32 \<Longrightarrow> unat (of_nat (length p) :: u32) = length p"
    by (simp add: unsigned_of_nat take_bit_nat_eq_self)
  then have zero: "length p < 2 ^ 32 \<Longrightarrow> (of_nat (length p) :: u32) = 0 \<longleftrightarrow> p = []"
    and big: "length p < 2 ^ 32 \<Longrightarrow> MAX_FRAME_LEN < (of_nat (length p) :: u32) \<longleftrightarrow> 8388608 < length p"
    by (auto simp: word_less_nat_alt max simp flip: unat_eq_zero)
  consider "2 ^ 32 \<le> length p" | "p = []" | "p \<noteq> []" "length p \<le> 8388608"
    | "8388608 < length p" "length p < 2 ^ 32" by linarith
  then show ?thesis
    using small zero big max Inr
    by cases (auto simp: encode_frame_def frame_bytes_def Let_def)
qed (auto simp: encode_frame_def)

section \<open>A sample connection\<close>

definition sample_policy :: connection_policy where
  "sample_policy = policy_broker RoleUi (replicate 32 0)"

definition sample_access :: access where
  "sample_access p = (if p = [1] then Inr (MsgHello (RequestId 1)
       \<lparr>he_process_version = lit ''0.1'', he_live_server = sample_live\<rparr>)
     else if p = [2] then Inr (MsgRequest (RequestId 2) Heartbeat) else Inl ''bad archive'')"

definition sample_stream :: "u8 list" where
  "sample_stream = prelude_encode (prelude_rkyv RoleUi (replicate 32 0)) @ [0, 0, 0, 1, 1, 0, 0, 0, 1, 2]"

lemma sample_policy_fields [simp]:
  "po_role sample_policy = RoleUi" "po_direction sample_policy = PeerToBroker"
  "po_schema_fingerprint sample_policy = replicate 32 0"
  by (simp_all add: sample_policy_def policy_broker_def)

definition sample_messages :: "wire_message list" where
  "sample_messages = [MsgHello (RequestId 1)
       \<lparr>he_process_version = lit ''0.1'', he_live_server = sample_live\<rparr>, MsgRequest (RequestId 2) Heartbeat]"

lemma sample_talk:
  "map sample_access [[1], [2]] = map Inr sample_messages"
  "converse_with validate_archived_wire_message RoleUi PeerToBroker AwaitingHello sample_messages = Inr Ready"
  by (simp add: sample_access_def sample_messages_def) code_simp

lemma sample_sizes: "list_all (\<lambda>p. p \<noteq> [] \<and> length p \<le> unat MAX_FRAME_LEN) [[1 :: u8], [2]]"
  by (simp add: MAX_FRAME_LEN_def)

lemma sample_form:
  "sample_stream = prelude_encode (prelude_rkyv RoleUi (replicate 32 0)) @ concat (map frame_bytes [[1], [2]])"
  by (simp add: sample_stream_def frame_bytes_def be32_def)

lemma accepted_streams_witness:
  "\<exists>d. push_bytes sample_access (new_decoder sample_policy) sample_stream = Some (d, [[1], [2]], Inr ())
     \<and> snd (finish_decoder d) = Inr ()"
  using accepted_streams [of sample_policy sample_access sample_stream "[[1], [2]]"]
    sample_talk sample_form sample_sizes by auto

lemma decoder_safe_witness:
  "\<exists>d. push_stream sample_access (new_decoder sample_policy) [take 50 sample_stream, drop 50 sample_stream]
       = Some (d, [[1], [2]], Inr ())
     \<and> \<not> cd_failed d \<and> (\<exists>ms. map sample_access [[1], [2]] = map Inr ms
         \<and> converse_with validate_archived_wire_message RoleUi PeerToBroker AwaitingHello ms = Inr (cd_phase d))"
proof -
  obtain d where "push_bytes sample_access (new_decoder sample_policy) sample_stream = Some (d, [[1], [2]], Inr ())"
    unfolding sample_form
    using form_accepted [OF _ sample_sizes sample_talk(1), of sample_policy Ready] sample_talk(2) by auto
  then have p: "push_stream sample_access (new_decoder sample_policy) [take 50 sample_stream, drop 50 sample_stream]
       = Some (d, [[1], [2]], Inr ())"
    using frame_chunk_independent_aux [of "new_decoder sample_policy" sample_access
        "[take 50 sample_stream, drop 50 sample_stream]"] by simp
  show ?thesis using decoder_safe [OF p] p by auto
qed

end
