(* ===== verification/Key.thy ===== *)
theory Key
  imports Menu_Ids
begin

text \<open>
  \<open>muxe-core\<close>, \<open>key.rs\<close>: the keys a configuration binds. Named keys and their spelling, modifiers,
  the canonical key syntax with its parser and printer, matching of terminal events, the
  capabilities a binding needs, and the projection to a VT100 terminal.
\<close>

section \<open>Modifiers and events\<close>

datatype core_event_kind = KindPress | KindRepeat | KindRelease

text \<open>\<open>Modifiers(u16)\<close>\<close>

type_synonym core_modifiers = u16

definition M_SHIFT :: core_modifiers where "M_SHIFT = 0x01"
definition M_ALT :: core_modifiers where "M_ALT = 0x02"
definition M_CTRL :: core_modifiers where "M_CTRL = 0x04"
definition M_SUPER :: core_modifiers where "M_SUPER = 0x08"
definition M_HYPER :: core_modifiers where "M_HYPER = 0x10"
definition M_META :: core_modifiers where "M_META = 0x20"
definition M_CAPS_LOCK :: core_modifiers where "M_CAPS_LOCK = 0x40"
definition M_NUM_LOCK :: core_modifiers where "M_NUM_LOCK = 0x80"

lemmas key_modifier_defs = M_SHIFT_def M_ALT_def M_CTRL_def M_SUPER_def M_HYPER_def M_META_def
  M_CAPS_LOCK_def M_NUM_LOCK_def

definition mods_contain :: "core_modifiers \<Rightarrow> core_modifiers \<Rightarrow> bool" where
  "mods_contain m flags \<longleftrightarrow> m AND flags \<noteq> 0"

definition mods_subset :: "core_modifiers \<Rightarrow> core_modifiers \<Rightarrow> bool" where
  "mods_subset m flags \<longleftrightarrow> m AND NOT flags = 0"

definition has_lock_modifier :: "core_modifiers \<Rightarrow> bool" where
  "has_lock_modifier m \<longleftrightarrow> mods_contain m M_CAPS_LOCK \<or> mods_contain m M_NUM_LOCK"

definition without_locks :: "core_modifiers \<Rightarrow> core_modifiers" where
  "without_locks m = m AND NOT (M_CAPS_LOCK OR M_NUM_LOCK)"

record lock_modifiers =
  lm_caps_lock :: bool
  lm_num_lock :: bool

definition LOCKS_DEFAULT :: lock_modifiers where
  "LOCKS_DEFAULT = \<lparr>lm_caps_lock = False, lm_num_lock = False\<rparr>"

definition matches_requirements :: "lock_modifiers \<Rightarrow> lock_modifiers \<Rightarrow> bool" where
  "matches_requirements l required \<longleftrightarrow>
     (\<not> lm_caps_lock required \<or> lm_caps_lock l) \<and> (\<not> lm_num_lock required \<or> lm_num_lock l)"

datatype identity_source = SourcePrimary | SourceAlternate | SourceBaseLayout

section \<open>Named keys\<close>

datatype named_key =
    NkEscape | NkEnter | NkTab | NkBackspace | NkInsert | NkDelete | NkLeft | NkRight | NkUp |
    NkDown | NkHome | NkEnd | NkPageUp | NkPageDown | NkPrintScreen | NkPause | NkMenu |
    NkCapsLock | NkScrollLock | NkNumLock | NkFunction u8 | NkKeypad u8 | NkKeypadDecimal |
    NkKeypadDivide | NkKeypadMultiply | NkKeypadSubtract | NkKeypadAdd | NkKeypadEnter |
    NkKeypadEqual | NkKeypadSeparator | NkKeypadLeft | NkKeypadRight | NkKeypadUp | NkKeypadDown |
    NkKeypadPageUp | NkKeypadPageDown | NkKeypadHome | NkKeypadEnd | NkKeypadInsert |
    NkKeypadDelete | NkKeypadBegin | NkMediaPlay | NkMediaPause | NkMediaPlayPause |
    NkMediaReverse | NkMediaStop | NkMediaFastForward | NkMediaRewind | NkMediaTrackNext |
    NkMediaTrackPrevious | NkMediaRecord | NkLowerVolume | NkRaiseVolume | NkMuteVolume |
    NkLeftShift | NkLeftControl | NkLeftAlt | NkLeftSuper | NkLeftHyper | NkLeftMeta |
    NkRightShift | NkRightControl | NkRightAlt | NkRightSuper | NkRightHyper | NkRightMeta |
    NkIsoLevel3Shift | NkIsoLevel5Shift

datatype core_identity = CoreText scalar | CoreNamed named_key

text \<open>The arms of the \<open>match\<close> of \<open>NamedKey::parse\<close>, in their order.\<close>

definition named_key_names :: "(string \<times> named_key) list" where
  "named_key_names =
     [(''esc'', NkEscape), (''enter'', NkEnter), (''tab'', NkTab), (''backspace'', NkBackspace),
      (''insert'', NkInsert), (''delete'', NkDelete), (''left'', NkLeft), (''right'', NkRight),
      (''up'', NkUp), (''down'', NkDown), (''home'', NkHome), (''end'', NkEnd),
      (''pgup'', NkPageUp), (''pgdn'', NkPageDown), (''print-screen'', NkPrintScreen),
      (''pause'', NkPause), (''menu'', NkMenu), (''caps-lock'', NkCapsLock),
      (''scroll-lock'', NkScrollLock), (''num-lock'', NkNumLock),
      (''keypad+decimal'', NkKeypadDecimal), (''keypad+divide'', NkKeypadDivide),
      (''keypad+multiply'', NkKeypadMultiply), (''keypad+subtract'', NkKeypadSubtract),
      (''keypad+add'', NkKeypadAdd), (''keypad+enter'', NkKeypadEnter),
      (''keypad+equal'', NkKeypadEqual), (''keypad+separator'', NkKeypadSeparator),
      (''keypad+left'', NkKeypadLeft), (''keypad+right'', NkKeypadRight),
      (''keypad+up'', NkKeypadUp), (''keypad+down'', NkKeypadDown),
      (''keypad+pgup'', NkKeypadPageUp), (''keypad+pgdn'', NkKeypadPageDown),
      (''keypad+home'', NkKeypadHome), (''keypad+end'', NkKeypadEnd),
      (''keypad+insert'', NkKeypadInsert), (''keypad+delete'', NkKeypadDelete),
      (''keypad+begin'', NkKeypadBegin), (''media-play'', NkMediaPlay),
      (''media-pause'', NkMediaPause), (''media-play-pause'', NkMediaPlayPause),
      (''media-reverse'', NkMediaReverse), (''media-stop'', NkMediaStop),
      (''media-fast-forward'', NkMediaFastForward), (''media-rewind'', NkMediaRewind),
      (''media-track-next'', NkMediaTrackNext), (''media-track-previous'', NkMediaTrackPrevious),
      (''media-record'', NkMediaRecord), (''lower-volume'', NkLowerVolume),
      (''raise-volume'', NkRaiseVolume), (''mute-volume'', NkMuteVolume),
      (''left-shift'', NkLeftShift), (''left-ctrl'', NkLeftControl), (''left-alt'', NkLeftAlt),
      (''left-super'', NkLeftSuper), (''left-hyper'', NkLeftHyper), (''left-meta'', NkLeftMeta),
      (''right-shift'', NkRightShift), (''right-ctrl'', NkRightControl),
      (''right-alt'', NkRightAlt), (''right-super'', NkRightSuper),
      (''right-hyper'', NkRightHyper), (''right-meta'', NkRightMeta),
      (''iso-level3-shift'', NkIsoLevel3Shift), (''iso-level5-shift'', NkIsoLevel5Shift)]"

text \<open>\<open>char::to_digit\<close> and \<open>from_str_radix\<close> of an unsigned type with the given maximum.\<close>

definition to_digit :: "nat \<Rightarrow> scalar \<Rightarrow> nat option" where
  "to_digit radix c =
     (let d = (if 0x30 \<le> c \<and> c \<le> 0x39 then unat c - 0x30
               else if 0x61 \<le> c \<and> c \<le> 0x7a then unat c - 0x61 + 10
               else if 0x41 \<le> c \<and> c \<le> 0x5a then unat c - 0x41 + 10
               else radix)
      in if d < radix then Some d else None)"

fun radix_digits :: "nat \<Rightarrow> nat \<Rightarrow> nat \<Rightarrow> str \<Rightarrow> nat option" where
  "radix_digits radix maximum value [] = Some value"
| "radix_digits radix maximum value (c # cs) =
     (case to_digit radix c of
        None \<Rightarrow> None
      | Some d \<Rightarrow>
          if maximum < value * radix + d then None
          else radix_digits radix maximum (value * radix + d) cs)"

definition from_str_radix :: "nat \<Rightarrow> nat \<Rightarrow> str \<Rightarrow> nat option" where
  "from_str_radix radix maximum src =
     (case src of
        [] \<Rightarrow> None
      | c # digits \<Rightarrow>
          if c = 0x2b then (if digits = [] then None else radix_digits radix maximum 0 digits)
          else radix_digits radix maximum 0 src)"

definition strip_prefix :: "str \<Rightarrow> str \<Rightarrow> str option" where
  "strip_prefix pre s = (if take (length pre) s = pre then Some (drop (length pre) s) else None)"

definition parse_u8 :: "str \<Rightarrow> u8 option" where
  "parse_u8 s = map_option of_nat (from_str_radix 10 255 s)"

definition parse_numbered :: "str \<Rightarrow> named_key option" where
  "parse_numbered value =
     (case strip_prefix (lit ''f'') value of
        Some f \<Rightarrow>
          Option.bind (parse_u8 f) (\<lambda>n. if 1 \<le> n \<and> n \<le> 35 then Some (NkFunction n) else None)
      | None \<Rightarrow>
          (case strip_prefix (lit ''keypad+'') value of
             Some k \<Rightarrow> Option.bind (parse_u8 k) (\<lambda>n. if n \<le> 9 then Some (NkKeypad n) else None)
           | None \<Rightarrow> None))"

definition named_parse :: "str \<Rightarrow> named_key option" where
  "named_parse value =
     (case find (\<lambda>(name, _). value = lit name) named_key_names of
        Some (_, named) \<Rightarrow> Some named
      | None \<Rightarrow> parse_numbered value)"

primrec named_as_str :: "named_key \<Rightarrow> str" where
  "named_as_str NkEscape = lit ''esc''"
| "named_as_str NkEnter = lit ''enter''"
| "named_as_str NkTab = lit ''tab''"
| "named_as_str NkBackspace = lit ''backspace''"
| "named_as_str NkInsert = lit ''insert''"
| "named_as_str NkDelete = lit ''delete''"
| "named_as_str NkLeft = lit ''left''"
| "named_as_str NkRight = lit ''right''"
| "named_as_str NkUp = lit ''up''"
| "named_as_str NkDown = lit ''down''"
| "named_as_str NkHome = lit ''home''"
| "named_as_str NkEnd = lit ''end''"
| "named_as_str NkPageUp = lit ''pgup''"
| "named_as_str NkPageDown = lit ''pgdn''"
| "named_as_str NkPrintScreen = lit ''print-screen''"
| "named_as_str NkPause = lit ''pause''"
| "named_as_str NkMenu = lit ''menu''"
| "named_as_str NkCapsLock = lit ''caps-lock''"
| "named_as_str NkScrollLock = lit ''scroll-lock''"
| "named_as_str NkNumLock = lit ''num-lock''"
| "named_as_str (NkFunction number) = lit ''f'' @ decimal_text (unat number)"
| "named_as_str (NkKeypad number) = lit ''keypad+'' @ decimal_text (unat number)"
| "named_as_str NkKeypadDecimal = lit ''keypad+decimal''"
| "named_as_str NkKeypadDivide = lit ''keypad+divide''"
| "named_as_str NkKeypadMultiply = lit ''keypad+multiply''"
| "named_as_str NkKeypadSubtract = lit ''keypad+subtract''"
| "named_as_str NkKeypadAdd = lit ''keypad+add''"
| "named_as_str NkKeypadEnter = lit ''keypad+enter''"
| "named_as_str NkKeypadEqual = lit ''keypad+equal''"
| "named_as_str NkKeypadSeparator = lit ''keypad+separator''"
| "named_as_str NkKeypadLeft = lit ''keypad+left''"
| "named_as_str NkKeypadRight = lit ''keypad+right''"
| "named_as_str NkKeypadUp = lit ''keypad+up''"
| "named_as_str NkKeypadDown = lit ''keypad+down''"
| "named_as_str NkKeypadPageUp = lit ''keypad+pgup''"
| "named_as_str NkKeypadPageDown = lit ''keypad+pgdn''"
| "named_as_str NkKeypadHome = lit ''keypad+home''"
| "named_as_str NkKeypadEnd = lit ''keypad+end''"
| "named_as_str NkKeypadInsert = lit ''keypad+insert''"
| "named_as_str NkKeypadDelete = lit ''keypad+delete''"
| "named_as_str NkKeypadBegin = lit ''keypad+begin''"
| "named_as_str NkMediaPlay = lit ''media-play''"
| "named_as_str NkMediaPause = lit ''media-pause''"
| "named_as_str NkMediaPlayPause = lit ''media-play-pause''"
| "named_as_str NkMediaReverse = lit ''media-reverse''"
| "named_as_str NkMediaStop = lit ''media-stop''"
| "named_as_str NkMediaFastForward = lit ''media-fast-forward''"
| "named_as_str NkMediaRewind = lit ''media-rewind''"
| "named_as_str NkMediaTrackNext = lit ''media-track-next''"
| "named_as_str NkMediaTrackPrevious = lit ''media-track-previous''"
| "named_as_str NkMediaRecord = lit ''media-record''"
| "named_as_str NkLowerVolume = lit ''lower-volume''"
| "named_as_str NkRaiseVolume = lit ''raise-volume''"
| "named_as_str NkMuteVolume = lit ''mute-volume''"
| "named_as_str NkLeftShift = lit ''left-shift''"
| "named_as_str NkLeftControl = lit ''left-ctrl''"
| "named_as_str NkLeftAlt = lit ''left-alt''"
| "named_as_str NkLeftSuper = lit ''left-super''"
| "named_as_str NkLeftHyper = lit ''left-hyper''"
| "named_as_str NkLeftMeta = lit ''left-meta''"
| "named_as_str NkRightShift = lit ''right-shift''"
| "named_as_str NkRightControl = lit ''right-ctrl''"
| "named_as_str NkRightAlt = lit ''right-alt''"
| "named_as_str NkRightSuper = lit ''right-super''"
| "named_as_str NkRightHyper = lit ''right-hyper''"
| "named_as_str NkRightMeta = lit ''right-meta''"
| "named_as_str NkIsoLevel3Shift = lit ''iso-level3-shift''"
| "named_as_str NkIsoLevel5Shift = lit ''iso-level5-shift''"

definition is_text_producing_keypad :: "named_key \<Rightarrow> bool" where
  "is_text_producing_keypad k =
     (case k of NkKeypad _ \<Rightarrow> True | NkKeypadDecimal \<Rightarrow> True | NkKeypadDivide \<Rightarrow> True
      | NkKeypadMultiply \<Rightarrow> True | NkKeypadSubtract \<Rightarrow> True | NkKeypadAdd \<Rightarrow> True | _ \<Rightarrow> False)"

definition is_modifier_key :: "named_key \<Rightarrow> bool" where
  "is_modifier_key k \<longleftrightarrow>
     k \<in> {NkLeftShift, NkLeftControl, NkLeftAlt, NkLeftSuper, NkLeftHyper, NkLeftMeta,
           NkRightShift, NkRightControl, NkRightAlt, NkRightSuper, NkRightHyper, NkRightMeta,
           NkIsoLevel3Shift, NkIsoLevel5Shift}"

definition requires_all_keys_for_event_type :: "named_key \<Rightarrow> bool" where
  "requires_all_keys_for_event_type k \<longleftrightarrow> k \<in> {NkEnter, NkTab, NkBackspace}"

section \<open>Canonical keys\<close>

record core_key_capabilities =
  kap_event_types :: bool
  kap_alternate_keys :: bool
  kap_all_keys_as_escape_codes :: bool

record core_key_event =
  ke_primary :: "core_identity option"
  ke_alternate :: "core_identity option"
  ke_base_layout :: "core_identity option"
  ke_modifiers :: core_modifiers
  ke_kind :: core_event_kind
  ke_locks :: lock_modifiers
  ke_keypad :: bool

record canonical_key =
  ck_source :: identity_source
  ck_modifiers :: core_modifiers
  ck_identity :: core_identity

datatype key_parse_error =
    KpEmpty
  | KpUnknownModifier str
  | KpDuplicateModifier str
  | KpNonCanonicalModifierOrder
  | KpMissingIdentity
  | KpInvalidUnicode str
  | KpUnknownNamedKey str
  | KpInvalidSelector str

definition CANONICAL_MODIFIERS :: "(string \<times> core_modifiers) list" where
  "CANONICAL_MODIFIERS =
     [(''ctrl'', M_CTRL), (''alt'', M_ALT), (''shift'', M_SHIFT), (''super'', M_SUPER),
      (''hyper'', M_HYPER), (''meta'', M_META), (''caps-lock'', M_CAPS_LOCK), (''num-lock'', M_NUM_LOCK)]"

definition modifier_flag :: "str \<Rightarrow> (nat \<times> core_modifiers) option" where
  "modifier_flag value =
     (case find (\<lambda>((name, _), _). lit name = value) (zip CANONICAL_MODIFIERS [0..<8]) of
        Some ((_, flag), index) \<Rightarrow> Some (index, flag)
      | None \<Rightarrow> None)"

text \<open>String searches of the standard library: \<open>split_once\<close>, \<open>rsplit_once\<close>, \<open>split\<close> and \<open>rfind\<close>.\<close>

fun split_once :: "scalar \<Rightarrow> str \<Rightarrow> (str \<times> str) option" where
  "split_once d [] = None"
| "split_once d (c # cs) =
     (if c = d then Some ([], cs) else map_option (\<lambda>(a, b). (c # a, b)) (split_once d cs))"

fun rsplit_once :: "scalar \<Rightarrow> str \<Rightarrow> (str \<times> str) option" where
  "rsplit_once d [] = None"
| "rsplit_once d (c # cs) =
     (case rsplit_once d cs of
        Some (a, b) \<Rightarrow> Some (c # a, b)
      | None \<Rightarrow> if c = d then Some ([], cs) else None)"

fun split_at :: "scalar \<Rightarrow> str \<Rightarrow> str list" where
  "split_at d [] = [[]]"
| "split_at d (c # cs) =
     (if c = d then [] # split_at d cs
      else case split_at d cs of [] \<Rightarrow> [[c]] | s # ss \<Rightarrow> (c # s) # ss)"

fun rfind :: "str \<Rightarrow> str \<Rightarrow> nat option" where
  "rfind pat [] = (if pat = [] then Some 0 else None)"
| "rfind pat (c # cs) =
     (case rfind pat cs of
        Some i \<Rightarrow> Some (Suc i)
      | None \<Rightarrow> if take (length pat) (c # cs) = pat then Some 0 else None)"

definition structured_start :: "str \<Rightarrow> nat option \<Rightarrow> str \<Rightarrow> nat option" where
  "structured_start key current marker =
     (case rfind marker key of
        None \<Rightarrow> current
      | Some start \<Rightarrow>
          if start = 0 \<or> key ! (start - 1) = 0x2b
          then Some (case current of None \<Rightarrow> start | Some c \<Rightarrow> max c start)
          else current)"

definition split_modifiers_and_identity :: "str \<Rightarrow> key_parse_error + str \<times> str" where
  "split_modifiers_and_identity key =
     (case foldl (structured_start key) None [lit ''unicode+'', lit ''keypad+''] of
        Some start \<Rightarrow> Inr (take (start - 1) key, drop start key)
      | None \<Rightarrow>
          (case rsplit_once 0x2b key of
             Some (modifiers, identity) \<Rightarrow>
               if identity \<noteq> [] then Inr (modifiers, identity) else Inl KpMissingIdentity
           | None \<Rightarrow> Inr ([], key)))"

definition parse_identity :: "str \<Rightarrow> key_parse_error + core_identity" where
  "parse_identity value =
     (case strip_prefix (lit ''unicode+'') value of
        Some codepoint \<Rightarrow>
          rbind (ok_or (from_str_radix 16 (2 ^ 32 - 1) codepoint) (KpInvalidUnicode codepoint)) (\<lambda>n.
          rbind (ok_or (char_from_u32 (of_nat n)) (KpInvalidUnicode codepoint)) (\<lambda>c.
            Inr (CoreText c)))
      | None \<Rightarrow>
          if length value = 1 \<and> \<not> is_control (hd value) then Inr (CoreText (hd value))
          else (case named_parse value of
                  Some named \<Rightarrow> Inr (CoreNamed named)
                | None \<Rightarrow> Inl (KpUnknownNamedKey value)))"

text \<open>The loop over the modifiers: the flags so far and the order of the previous one.\<close>

fun parse_modifiers ::
  "str list \<Rightarrow> core_modifiers \<Rightarrow> nat option \<Rightarrow> key_parse_error + core_modifiers" where
  "parse_modifiers [] modifiers previous_order = Inr modifiers"
| "parse_modifiers (m # ms) modifiers previous_order =
     rbind (ok_or (modifier_flag m) (KpUnknownModifier m)) (\<lambda>(order, flag).
       if (case previous_order of None \<Rightarrow> False | Some previous \<Rightarrow> order < previous)
       then Inl KpNonCanonicalModifierOrder
       else if mods_contain modifiers flag then Inl (KpDuplicateModifier m)
       else parse_modifiers ms (modifiers OR flag) (Some order))"

definition parse_selector :: "str \<Rightarrow> key_parse_error + identity_source \<times> str" where
  "parse_selector value =
     (case split_once 0x3a value of
        Some (selector, remainder) \<Rightarrow>
          if selector = lit ''alternate'' then Inr (SourceAlternate, remainder)
          else if selector = lit ''base'' then Inr (SourceBaseLayout, remainder)
          else if selector = lit ''primary'' then Inr (SourcePrimary, remainder)
          else Inl (KpInvalidSelector selector)
      | None \<Rightarrow> Inr (SourcePrimary, value))"

definition key_parse :: "str \<Rightarrow> key_parse_error + canonical_key" where
  "key_parse value =
     rbind (parse_selector value) (\<lambda>(source, key).
       if key = [] then Inl KpEmpty
       else
         rbind (split_modifiers_and_identity key) (\<lambda>(modifiers_text, identity).
         rbind (if modifiers_text = [] then Inr 0
                else parse_modifiers (split_at 0x2b modifiers_text) 0 None) (\<lambda>modifiers.
         rbind (parse_identity identity) (\<lambda>i.
           Inr \<lparr>ck_source = source, ck_modifiers = modifiers, ck_identity = i\<rparr>))))"

text \<open>\<open>write!("{:x}")\<close>\<close>

fun hex_text :: "nat \<Rightarrow> str" where
  "hex_text n =
     (let digit = (if n mod 16 < 10 then 0x30 + of_nat (n mod 16) else 0x57 + of_nat (n mod 16))
      in if n < 16 then [digit] else hex_text (n div 16) @ [digit])"

declare hex_text.simps [simp del]

definition is_ascii_graphic :: "scalar \<Rightarrow> bool" where
  "is_ascii_graphic c \<longleftrightarrow> 0x21 \<le> c \<and> c \<le> 0x7e"

fun source_text :: "identity_source \<Rightarrow> str" where
  "source_text SourcePrimary = []"
| "source_text SourceAlternate = lit ''alternate:''"
| "source_text SourceBaseLayout = lit ''base:''"

fun modifiers_text :: "(string \<times> core_modifiers) list \<Rightarrow> core_modifiers \<Rightarrow> str" where
  "modifiers_text [] m = []"
| "modifiers_text ((name, flag) # rest) m =
     (if mods_contain m flag then lit name @ [0x2b] else []) @ modifiers_text rest m"

fun identity_text :: "core_identity \<Rightarrow> str" where
  "identity_text (CoreText c) =
     (if is_ascii_graphic c \<and> c \<noteq> 0x2b \<and> c \<noteq> 0x3a then [c]
      else lit ''unicode+'' @ hex_text (unat c))"
| "identity_text (CoreNamed named) = named_as_str named"

definition canonical_string :: "canonical_key \<Rightarrow> str" where
  "canonical_string k =
     source_text (ck_source k) @ modifiers_text CANONICAL_MODIFIERS (ck_modifiers k)
     @ identity_text (ck_identity k)"

section \<open>Matching and capabilities\<close>

definition lock_requirements :: "canonical_key \<Rightarrow> lock_modifiers" where
  "lock_requirements k =
     \<lparr>lm_caps_lock = mods_contain (ck_modifiers k) M_CAPS_LOCK,
      lm_num_lock = mods_contain (ck_modifiers k) M_NUM_LOCK\<rparr>"

definition key_matches :: "canonical_key \<Rightarrow> core_key_event \<Rightarrow> bool" where
  "key_matches k e \<longleftrightarrow>
     (case ck_source k of
        SourcePrimary \<Rightarrow> ke_primary e
      | SourceAlternate \<Rightarrow> ke_alternate e
      | SourceBaseLayout \<Rightarrow> ke_base_layout e) = Some (ck_identity k)
     \<and> without_locks (ke_modifiers e) = without_locks (ck_modifiers k)
     \<and> matches_requirements (ke_locks e) (lock_requirements k)"

definition text_identity_generates_text :: "core_modifiers \<Rightarrow> bool" where
  "text_identity_generates_text m \<longleftrightarrow>
     \<not> mods_contain m M_CTRL \<and> \<not> mods_contain m M_ALT \<and> \<not> mods_contain m M_SUPER
     \<and> \<not> mods_contain m M_HYPER \<and> \<not> mods_contain m M_META"

definition required_capabilities :: "canonical_key \<Rightarrow> bool option \<Rightarrow> core_key_capabilities" where
  "required_capabilities k explicit_repeat =
     (let all_keys_identity =
            (case ck_identity k of
               CoreText _ \<Rightarrow> has_lock_modifier (ck_modifiers k)
             | CoreNamed named \<Rightarrow> is_modifier_key named \<or> is_text_producing_keypad named);
          event_type_all_keys =
            (case ck_identity k of
               CoreText _ \<Rightarrow> text_identity_generates_text (ck_modifiers k)
             | CoreNamed named \<Rightarrow> requires_all_keys_for_event_type named)
      in \<lparr>kap_event_types = explicit_repeat \<noteq> None,
          kap_alternate_keys = (ck_source k \<noteq> SourcePrimary),
          kap_all_keys_as_escape_codes =
            all_keys_identity \<or> (explicit_repeat \<noteq> None \<and> event_type_all_keys)\<rparr>)"

section \<open>The VT100 projection\<close>

datatype vt100_binding_key = ControlByte u8 | Exact canonical_key

definition to_ascii_uppercase :: "scalar \<Rightarrow> scalar" where
  "to_ascii_uppercase c = (if 0x61 \<le> c \<and> c \<le> 0x7a then c - 0x20 else c)"

definition legacy_control_text_code :: "scalar \<Rightarrow> u8 option" where
  "legacy_control_text_code c =
     (let u = to_ascii_uppercase c
      in if 0x41 \<le> u \<and> u \<le> 0x5a then Some (ucast u - 0x40)
         else if u = 0x5b then Some 0x1b
         else None)"

definition legacy_control_code :: "canonical_key \<Rightarrow> u8 option" where
  "legacy_control_code k =
     (if ck_source k \<noteq> SourcePrimary then None
      else case ck_identity k of
        CoreNamed named \<Rightarrow>
          if named = NkEscape \<and> ck_modifiers k = 0 then Some 0x1b
          else if named = NkEnter \<and> ck_modifiers k = 0 then Some 0x0d
          else if named = NkTab \<and> ck_modifiers k = 0 then Some 0x09
          else if named = NkBackspace \<and> ck_modifiers k = 0 then Some 0x08
          else None
      | CoreText c \<Rightarrow>
          if mods_contain (ck_modifiers k) M_CTRL \<and> mods_subset (ck_modifiers k) (M_CTRL OR M_SHIFT)
          then legacy_control_text_code c else None)"

definition legacy_event_control_code :: "core_key_event \<Rightarrow> u8 option" where
  "legacy_event_control_code e =
     (if ke_modifiers e \<noteq> 0 \<or> ke_locks e \<noteq> LOCKS_DEFAULT \<or> ke_keypad e then None
      else case ke_primary e of
        None \<Rightarrow> None
      | Some (CoreNamed named) \<Rightarrow>
          if named = NkEscape then Some 0x1b
          else if named = NkEnter then Some 0x0d
          else if named = NkTab then Some 0x09
          else if named = NkBackspace then Some 0x08
          else None
      | Some (CoreText c) \<Rightarrow>
          if is_control c then (if unat c < 256 then Some (ucast c) else None) else None)"

definition vt100_binding_key_of :: "canonical_key \<Rightarrow> vt100_binding_key" where
  "vt100_binding_key_of k =
     (case legacy_control_code k of None \<Rightarrow> Exact k | Some b \<Rightarrow> ControlByte b)"

definition matches_vt100 :: "canonical_key \<Rightarrow> core_key_event \<Rightarrow> bool" where
  "matches_vt100 k e =
     (case legacy_control_code k of
        Some expected \<Rightarrow> legacy_event_control_code e = Some expected
      | None \<Rightarrow> key_matches k e)"

end
