(* ===== verification/Key_Syntax.thy ===== *)
theory Key_Syntax
  imports Key
begin

text \<open>
  The canonical key syntax: the printer and the parser are inverse on every key the parser can
  return, named keys have distinct spellings, and the printed form is canonical.
\<close>

section \<open>Literals\<close>

lemma unat_of_char: "unat (of_char c :: u32) = of_char c"
proof -
  have "(of_char c :: nat) < 256" by simp
  then have "(of_char c :: nat) < 2 ^ 32" by (rule less_trans) simp
  then have "take_bit 32 (of_char c :: nat) = of_char c" by (rule take_bit_nat_eq_self)
  moreover have "(of_char c :: u32) = of_nat (of_char c)" by (simp only: of_nat_of_char)
  ultimately show ?thesis by (simp only: unsigned_of_nat) simp
qed

lemma lit_eq_iff [simp]: "lit s = lit t \<longleftrightarrow> s = t"
proof
  assume "lit s = lit t"
  then have "map unat (lit s) = map unat (lit t)" by simp
  then have "map of_char s = (map of_char t :: nat list)" by (simp add: lit_def comp_def unat_of_char)
  then show "s = t" by (metis inj_map_eq_map inj_of_char)
qed simp

lemma lit_simps [simp]: "lit [] = []" "lit (c # s) = [] \<longleftrightarrow> False"
  by (simp_all add: lit_def)

section \<open>Numbers\<close>

lemma to_digit_decimal: "d < 10 \<Longrightarrow> to_digit 10 (0x30 + of_nat d) = Some d"
  using unat_digit_scalar [of d]
  by (simp add: to_digit_def word_le_nat_alt Let_def)

lemma radix_digits_append:
  "radix_digits r mx v (xs @ ys) = Option.bind (radix_digits r mx v xs) (\<lambda>w. radix_digits r mx w ys)"
  by (induction xs arbitrary: v) (auto split: option.split)

lemma radix_decimal: "n \<le> mx \<Longrightarrow> radix_digits 10 mx 0 (decimal_text n) = Some n"
proof (induction n rule: decimal_text.induct)
  case (1 n)
  show ?case
  proof (cases "n < 10")
    case True
    then show ?thesis using "1.prems" by (simp add: decimal_text.simps [of n] to_digit_decimal)
  next
    case False
    then have "radix_digits 10 mx 0 (decimal_text (n div 10)) = Some (n div 10)"
      using 1 by simp
    then show ?thesis
      using False "1.prems" to_digit_decimal [of "n mod 10"]
      by (simp add: decimal_text.simps [of n] radix_digits_append)
  qed
qed

definition hex_digit :: "nat \<Rightarrow> scalar" where
  "hex_digit d = (if d < 10 then 0x30 + of_nat d else 0x57 + of_nat d)"

lemma hex_text_simps:
  "hex_text n = (if n < 16 then [hex_digit n] else hex_text (n div 16) @ [hex_digit (n mod 16)])"
  by (subst hex_text.simps) (auto simp: hex_digit_def Let_def)

lemma unat_hex_digit: "d < 16 \<Longrightarrow> unat (hex_digit d) = (if d < 10 then 48 + d else 87 + d)"
  by (simp add: hex_digit_def unat_word_ariths unsigned_of_nat take_bit_nat_eq_self)

lemma to_digit_hex: "d < 16 \<Longrightarrow> to_digit 16 (hex_digit d) = Some d"
  using unat_hex_digit [of d] by (auto simp: to_digit_def word_le_nat_alt Let_def split: if_splits)

lemma radix_hex: "n \<le> mx \<Longrightarrow> radix_digits 16 mx 0 (hex_text n) = Some n"
proof (induction n rule: hex_text.induct)
  case (1 n)
  show ?case
  proof (cases "n < 16")
    case True
    then show ?thesis using "1.prems" by (simp add: hex_text_simps [of n] to_digit_hex)
  next
    case False
    then have "radix_digits 16 mx 0 (hex_text (n div 16)) = Some (n div 16)"
      using 1 by (simp add: Let_def)
    then show ?thesis
      using False "1.prems" to_digit_hex [of "n mod 16"]
      by (simp add: hex_text_simps [of n] radix_digits_append)
  qed
qed

lemma radix_plus: "radix_digits r mx v (0x2b # s) = None"
  by (simp add: to_digit_def Let_def)

lemma from_str_radix_digits:
  "s \<noteq> [] \<Longrightarrow> radix_digits r mx 0 s = Some n \<Longrightarrow> from_str_radix r mx s = Some n"
  using radix_plus [of r mx 0] by (auto simp: from_str_radix_def split: list.split)

lemma decimal_text_nonempty [simp]: "decimal_text n \<noteq> []"
  using decimal_text_wf by blast

lemma hex_text_nonempty [simp]: "hex_text n \<noteq> []"
  by (subst hex_text_simps) simp

lemma parse_u8_decimal: "parse_u8 (decimal_text (unat b)) = Some (b :: u8)"
proof -
  have "unat b \<le> 255" using unsigned_less [of b, where ?'a = nat] by simp
  then have "from_str_radix 10 255 (decimal_text (unat b)) = Some (unat b)"
    by (intro from_str_radix_digits radix_decimal) simp_all
  then show ?thesis by (simp add: parse_u8_def)
qed

section \<open>Named keys\<close>

fun named_ok :: "named_key \<Rightarrow> bool" where
  "named_ok (NkFunction n) \<longleftrightarrow> 1 \<le> n \<and> n \<le> 35"
| "named_ok (NkKeypad n) \<longleftrightarrow> n \<le> 9"
| "named_ok _ \<longleftrightarrow> True"

lemma strip_prefix_append [simp]: "strip_prefix p (p @ s) = Some s"
  by (simp add: strip_prefix_def)

lemma strip_prefix_Some: "strip_prefix p v = Some s \<longleftrightarrow> v = p @ s"
  by (auto simp: strip_prefix_def) (metis append_take_drop_id)

lemma digits_first: "\<exists>d ds. decimal_text n = d # ds \<and> is_ascii_digit d"
  using decimal_text_wf [of n] by (cases "decimal_text n") auto

text \<open>No name of the table has a digit where the two numbered forms have their first digit.\<close>

lemma names_without_digit:
  "list_all (\<lambda>(s, _). \<not> (1 < length s \<and> is_ascii_digit (lit s ! 1)) \<and> \<not> (7 < length s \<and> is_ascii_digit (lit s ! 7)))
     named_key_names"
  by code_simp

lemma numbered_not_named:
  assumes "is_ascii_digit (v ! i)" "i < length v" "i \<in> {1, 7}"
  shows "find (\<lambda>(name, _). v = lit name) named_key_names = None"
  using names_without_digit assms by (fastforce simp: find_None_iff list_all_iff lit_def)

lemma name_not_function: "find (\<lambda>(name, _). lit ''f'' @ decimal_text n = lit name) named_key_names = None"
proof -
  obtain d ds where d: "decimal_text n = d # ds" "is_ascii_digit d" using digits_first by blast
  then show ?thesis by (intro numbered_not_named [of _ 1]) (simp_all add: lit_def)
qed

lemma name_not_keypad: "find (\<lambda>(name, _). lit ''keypad+'' @ decimal_text n = lit name) named_key_names = None"
proof -
  obtain d ds where d: "decimal_text n = d # ds" "is_ascii_digit d" using digits_first by blast
  then show ?thesis by (intro numbered_not_named [of _ 7]) (simp_all add: lit_def)
qed

lemma keypad_not_function: "strip_prefix (lit ''f'') (lit ''keypad+'' @ s) = None"
  by (simp add: strip_prefix_def lit_def)

lemma named_table:
  "list_all (\<lambda>(s, k). named_as_str k = lit s) named_key_names"
  by (simp add: named_key_names_def)

text \<open>Distinctness of the names, decided on their base-256 codes.\<close>

definition name_code :: "string \<Rightarrow> nat" where
  "name_code = foldl (\<lambda>a c. a * 256 + of_char c) 0"

lemma named_table_distinct: "distinct (map fst named_key_names)"
proof -
  have "distinct (map name_code (map fst named_key_names))"
    by (simp add: named_key_names_def name_code_def)
  then show ?thesis by (simp only: distinct_map)
qed

lemma named_keys:
  "map snd named_key_names =
      [NkEscape, NkEnter, NkTab, NkBackspace, NkInsert, NkDelete, NkLeft, NkRight, NkUp,
       NkDown, NkHome, NkEnd, NkPageUp, NkPageDown, NkPrintScreen, NkPause, NkMenu, NkCapsLock,
       NkScrollLock, NkNumLock, NkKeypadDecimal, NkKeypadDivide, NkKeypadMultiply,
       NkKeypadSubtract, NkKeypadAdd, NkKeypadEnter, NkKeypadEqual, NkKeypadSeparator,
       NkKeypadLeft, NkKeypadRight, NkKeypadUp, NkKeypadDown, NkKeypadPageUp, NkKeypadPageDown,
       NkKeypadHome, NkKeypadEnd, NkKeypadInsert, NkKeypadDelete, NkKeypadBegin, NkMediaPlay,
       NkMediaPause, NkMediaPlayPause, NkMediaReverse, NkMediaStop, NkMediaFastForward,
       NkMediaRewind, NkMediaTrackNext, NkMediaTrackPrevious, NkMediaRecord, NkLowerVolume,
       NkRaiseVolume, NkMuteVolume, NkLeftShift, NkLeftControl, NkLeftAlt, NkLeftSuper,
       NkLeftHyper, NkLeftMeta, NkRightShift, NkRightControl, NkRightAlt, NkRightSuper,
       NkRightHyper, NkRightMeta, NkIsoLevel3Shift, NkIsoLevel5Shift]"
  by (simp add: named_key_names_def)

lemma named_in_table:
  "(\<exists>b. k = NkFunction b) \<or> (\<exists>b. k = NkKeypad b) \<or> k \<in> set (map snd named_key_names)"
  unfolding named_keys by (cases k) simp_all

lemma find_name:
  assumes "(s, k) \<in> set table" "distinct (map fst table)"
  shows "find (\<lambda>(name, _). lit s = lit name) table = Some (s, k)"
  using assms by (induction table) force+

lemma named_round_trip: "named_ok n \<Longrightarrow> named_parse (named_as_str n) = Some n"
proof -
  assume ok: "named_ok n"
  consider b where "n = NkFunction b" | b where "n = NkKeypad b" | s where "(s, n) \<in> set named_key_names"
    using named_in_table [of n] by fastforce
  then show ?thesis
  proof cases
    case 1
    then show ?thesis using ok by (simp add: named_parse_def name_not_function parse_numbered_def parse_u8_decimal)
  next
    case 2
    then show ?thesis using ok
      by (simp add: named_parse_def name_not_keypad parse_numbered_def keypad_not_function parse_u8_decimal)
  next
    case 3
    then have "named_as_str n = lit s" using named_table by (auto simp: list_all_iff)
    then show ?thesis
      using find_name [OF 3 named_table_distinct] by (simp add: named_parse_def del: lit_eq_iff)
  qed
qed

lemma named_parse_ok: "named_parse v = Some n \<Longrightarrow> named_ok n"
proof -
  assume a: "named_parse v = Some n"
  have all: "list_all (named_ok \<circ> snd) named_key_names" by (simp add: named_key_names_def)
  show ?thesis
  proof (cases "find (\<lambda>(name, _). v = lit name) named_key_names")
    case None
    then show ?thesis using a
      by (auto simp: named_parse_def parse_numbered_def bind_eq_Some_conv split: option.splits if_splits)
  next
    case (Some p)
    then have "p \<in> set named_key_names" by (metis find_Some_iff nth_mem)
    then show ?thesis using a all Some by (auto simp: named_parse_def list_all_iff case_prod_beta)
  qed
qed

section \<open>Modifiers\<close>

text \<open>The names of the modifiers present, in canonical order, each followed by a plus sign.\<close>

definition mod_names :: "(string \<times> core_modifiers) list \<Rightarrow> core_modifiers \<Rightarrow> string list" where
  "mod_names table m = map fst (filter (\<lambda>(_, flag). mods_contain m flag) table)"

definition plus_all :: "string list \<Rightarrow> str" where
  "plus_all ns = concat (map (\<lambda>n. lit n @ [0x2b]) ns)"

definition plus_join :: "string list \<Rightarrow> str" where
  "plus_join ns = take (length (plus_all ns) - 1) (plus_all ns)"

lemma plus_all_simps [simp]: "plus_all [] = []" "plus_all (n # ns) = lit n @ 0x2b # plus_all ns"
  by (simp_all add: plus_all_def)

lemma modifiers_text_names: "modifiers_text table m = plus_all (mod_names table m)"
  by (induction table m rule: modifiers_text.induct) (simp_all add: mod_names_def)

lemma plus_all_join: "ns \<noteq> [] \<Longrightarrow> plus_all ns = plus_join ns @ [0x2b]"
proof -
  assume "ns \<noteq> []"
  then have "plus_all ns \<noteq> [] \<and> last (plus_all ns) = 0x2b"
    by (induction ns) (auto simp: plus_all_def)
  then show ?thesis by (metis append_butlast_last_id butlast_conv_take plus_join_def)
qed

definition modifier_names :: "string list" where
  "modifier_names = map fst CANONICAL_MODIFIERS"

lemma mod_names_subset: "set (mod_names CANONICAL_MODIFIERS m) \<subseteq> set modifier_names"
  by (auto simp: mod_names_def modifier_names_def)

lemma modifier_names_eq:
  "modifier_names = [''ctrl'', ''alt'', ''shift'', ''super'', ''hyper'', ''meta'', ''caps-lock'', ''num-lock'']"
  by (simp add: modifier_names_def CANONICAL_MODIFIERS_def)

lemma name_plain: "n \<in> set modifier_names \<Longrightarrow> 0x2b \<notin> set (lit n) \<and> 0x3a \<notin> set (lit n) \<and> lit n \<noteq> []"
  by (auto simp: modifier_names_eq lit_def)

lemma split_at_plain: "d \<notin> set s \<Longrightarrow> split_at d s = [s]"
  by (induction s) auto

lemma split_at_append: "d \<notin> set s \<Longrightarrow> split_at d (s @ d # t) = s # split_at d t"
  by (induction s) auto

lemma split_at_join:
  assumes "set ns \<subseteq> set modifier_names" "ns \<noteq> []"
  shows "split_at 0x2b (plus_join ns) = map lit ns"
  using assms
proof (induction ns)
  case (Cons n ns)
  show ?case
  proof (cases "ns = []")
    case True
    then show ?thesis using Cons.prems name_plain [of n]
      by (simp add: plus_join_def split_at_plain)
  next
    case False
    have "plus_join (n # ns) = lit n @ 0x2b # plus_join ns"
      using plus_all_join [OF False] plus_all_join [of "n # ns"] by simp
    then show ?thesis using Cons False name_plain [of n] by (simp add: split_at_append)
  qed
qed simp

lemma modifier_flag_at:
  "i < 8 \<Longrightarrow> modifier_flag (lit (fst (CANONICAL_MODIFIERS ! i))) = Some (i, snd (CANONICAL_MODIFIERS ! i))"
proof -
  have "list_all (\<lambda>i. modifier_flag (lit (fst (CANONICAL_MODIFIERS ! i))) = Some (i, snd (CANONICAL_MODIFIERS ! i))) [0..<8]"
    by (simp add: modifier_flag_def CANONICAL_MODIFIERS_def upt_rec)
  then show "i < 8 \<Longrightarrow> ?thesis" by (simp add: list_all_iff)
qed

lemma flag_at: "i < 8 \<Longrightarrow> snd (CANONICAL_MODIFIERS ! i) = 2 ^ [2, 1, 0, 3, 4, 5, 6, 7] ! i"
proof -
  have "list_all (\<lambda>i. snd (CANONICAL_MODIFIERS ! i) = 2 ^ [2, 1, 0, 3, 4, 5, 6, 7] ! i) [0..<8]"
    by (simp add: CANONICAL_MODIFIERS_def key_modifier_defs upt_rec)
  then show "i < 8 \<Longrightarrow> ?thesis" by (simp add: list_all_iff)
qed

text \<open>The eight bits of a modifier set.\<close>

lemma mods_contain_bit: "mods_contain m (2 ^ i) \<longleftrightarrow> bit m i"
  by (simp add: mods_contain_def and_exp_eq_0_iff_not_bit)

text \<open>
  Read the names of the flags of \<open>m\<close> from position \<open>i\<close> of the table on: the loop adds exactly the
  flags of \<open>m\<close> that the rest of the table holds.
\<close>

lemma parse_modifiers_drop:
  assumes "i \<le> 8" "\<forall>p. prev = Some p \<longrightarrow> p < i"
    and "\<forall>j. i \<le> j \<and> j < 8 \<longrightarrow> \<not> mods_contain acc (snd (CANONICAL_MODIFIERS ! j))"
  shows "parse_modifiers (map lit (mod_names (drop i CANONICAL_MODIFIERS) m)) acc prev
    = Inr (acc OR foldr (\<lambda>(_, f) w. (if mods_contain m f then f else 0) OR w) (drop i CANONICAL_MODIFIERS) 0)"
  using assms
proof (induction "8 - i" arbitrary: i acc prev)
  case 0
  then show ?case by (simp add: mod_names_def CANONICAL_MODIFIERS_def)
next
  case (Suc k)
  then have i: "i < 8" "length CANONICAL_MODIFIERS = 8" by (simp_all add: CANONICAL_MODIFIERS_def)
  obtain name flag where e: "CANONICAL_MODIFIERS ! i = (name, flag)" by fastforce
  have d: "drop i CANONICAL_MODIFIERS = (name, flag) # drop (Suc i) CANONICAL_MODIFIERS"
    using i e by (metis Cons_nth_drop_Suc)
  show ?case
  proof (cases "mods_contain m flag")
    case False
    then show ?thesis using Suc.hyps(1) [of "Suc i" prev acc] Suc.hyps(2) Suc.prems
      by (simp add: d mod_names_def less_Suc_eq)
  next
    case True
    have fresh: "\<not> mods_contain (acc OR flag) (snd (CANONICAL_MODIFIERS ! j))" if "Suc i \<le> j" "j < 8" for j
    proof -
      have idx: "[2, 1, 0, 3, 4, 5, 6, 7 :: nat] ! i \<noteq> [2, 1, 0, 3, 4, 5, 6, 7] ! j"
        using that i nth_eq_iff_index_eq [of "[2, 1, 0, 3, 4, 5, 6, 7 :: nat]" i j] by (simp del: nth_Cons' nth_Cons_numeral)
      have "flag = 2 ^ [2, 1, 0, 3, 4, 5, 6, 7] ! i" using flag_at [OF i(1)] e by simp
      moreover have "\<not> mods_contain acc (snd (CANONICAL_MODIFIERS ! j))" using Suc.prems that by auto
      ultimately show ?thesis using idx that
        by (auto simp: flag_at mods_contain_bit bit_or_iff bit_exp_iff)
    qed
    have "modifier_flag (lit name) = Some (i, flag)" using modifier_flag_at [OF i(1)] e by simp
    moreover have "\<not> mods_contain acc flag" using Suc.prems(3) i e by auto
    ultimately show ?thesis
      using Suc.hyps(1) [of "Suc i" "Some i" "acc OR flag"] Suc.hyps(2) Suc.prems(2) i True fresh
      by (auto simp: d mod_names_def or.assoc split: option.split)
  qed
qed

lemma flags_of_modifiers:
  assumes "m < (256 :: core_modifiers)"
  shows "foldr (\<lambda>(_, f) w. (if mods_contain m f then f else 0) OR w) CANONICAL_MODIFIERS 0 = m"
proof (rule bit_word_eqI)
  fix n assume "n < LENGTH(16)"
  have high: "\<not> bit m n" if "8 \<le> n" for n
  proof -
    have "take_bit 8 m = m" using assms take_bit_small [of m 8] by simp
    then show ?thesis using that by (metis bit_take_bit_iff not_less)
  qed
  have tab: "CANONICAL_MODIFIERS = [(''ctrl'', 2 ^ 2), (''alt'', 2 ^ 1), (''shift'', 2 ^ 0), (''super'', 2 ^ 3),
      (''hyper'', 2 ^ 4), (''meta'', 2 ^ 5), (''caps-lock'', 2 ^ 6), (''num-lock'', 2 ^ 7)]"
    by (simp add: CANONICAL_MODIFIERS_def key_modifier_defs)
  have one: "bit (if mods_contain m (2 ^ i) then 2 ^ i else 0 :: core_modifiers) n \<longleftrightarrow> bit m i \<and> n = i \<and> i < 16" for i
    by (auto simp: mods_contain_bit bit_exp_iff)
  consider "n = 0" | "n = 1" | "n = 2" | "n = 3" | "n = 4" | "n = 5" | "n = 6" | "n = 7" | "8 \<le> n"
    by linarith
  then show "bit (foldr (\<lambda>(_, f) w. (if mods_contain m f then f else 0) OR w) CANONICAL_MODIFIERS 0) n = bit m n"
    unfolding tab foldr.simps prod.case comp_def id_def bit_or_iff one
    by cases (use high in simp_all)
qed

lemma parse_modifiers_names:
  "m < 256 \<Longrightarrow> parse_modifiers (map lit (mod_names CANONICAL_MODIFIERS m)) 0 None = Inr m"
  using parse_modifiers_drop [of 0 None 0 m] flags_of_modifiers [of m] by (simp add: mods_contain_def)

section \<open>Splitting a printed key\<close>

lemma of_char_eq_u32: "(of_char c :: u32) = of_char d \<longleftrightarrow> c = d"
proof
  assume "(of_char c :: u32) = of_char d"
  then have "(of_char c :: nat) = of_char d" by (metis unat_of_char)
  then show "c = d" by simp
qed simp

lemma plus_in_lit: "0x2b \<in> set (lit s) \<longleftrightarrow> CHR ''+'' \<in> set s"
  and colon_in_lit: "0x3a \<in> set (lit s) \<longleftrightarrow> CHR '':'' \<in> set s"
proof -
  have "(of_char c :: u32) \<in> set (lit s) \<longleftrightarrow> c \<in> set s" for c
    by (auto simp: lit_def of_char_eq_u32)
  from this [of "CHR ''+''"] this [of "CHR '':''"]
  show "0x2b \<in> set (lit s) \<longleftrightarrow> CHR ''+'' \<in> set s" "0x3a \<in> set (lit s) \<longleftrightarrow> CHR '':'' \<in> set s" by simp_all
qed

lemma lit_append: "lit (s @ t) = lit s @ lit t"
  by (simp add: lit_def)

lemma rfind_Some_subset: "rfind pat s = Some i \<Longrightarrow> set pat \<subseteq> set s"
proof (induction s arbitrary: i)
  case (Cons c cs)
  show ?case
  proof (cases "rfind pat cs")
    case None
    then have "take (length pat) (c # cs) = pat" using Cons.prems by (auto split: if_splits)
    then show ?thesis by (metis set_take_subset)
  next
    case (Some j)
    then show ?thesis using Cons.IH by auto
  qed
qed (auto split: if_splits)

abbreviation unicode_mark :: str where "unicode_mark \<equiv> lit ''unicode+''"
abbreviation keypad_mark :: str where "keypad_mark \<equiv> lit ''keypad+''"

lemma rfind_plain: "0x2b \<notin> set t \<Longrightarrow> rfind unicode_mark t = None \<and> rfind keypad_mark t = None"
proof -
  assume "0x2b \<notin> set t"
  moreover have "0x2b \<in> set unicode_mark" "0x2b \<in> set keypad_mark" by (simp_all add: plus_in_lit)
  moreover have "rfind m t = None" if "0x2b \<in> set m" "0x2b \<notin> set t" for m
    using that rfind_Some_subset [of m t] by (cases "rfind m t") auto
  ultimately show ?thesis by simp
qed

lemma rfind_marked:
  assumes "0x2b \<notin> set h"
  shows "rfind unicode_mark (unicode_mark @ h) = Some 0" "rfind keypad_mark (unicode_mark @ h) = None"
    "rfind keypad_mark (keypad_mark @ h) = Some 0" "rfind unicode_mark (keypad_mark @ h) = None"
  using rfind_plain [OF assms] by (simp_all add: lit_def)

lemma rfind_modifier:
  assumes "n \<in> set modifier_names"
  shows "rfind unicode_mark (lit n @ 0x2b # s) = map_option (\<lambda>i. i + Suc (length n)) (rfind unicode_mark s)"
    and "rfind keypad_mark (lit n @ 0x2b # s) = map_option (\<lambda>i. i + Suc (length n)) (rfind keypad_mark s)"
  using assms unfolding modifier_names_eq
  by (auto simp: lit_def split: option.split)

lemma lit_length [simp]: "length (lit s) = length s"
  by (simp add: lit_def)

lemma rfind_plus_all:
  assumes "set ns \<subseteq> set modifier_names"
  shows "rfind unicode_mark (plus_all ns @ s) = map_option (\<lambda>i. i + length (plus_all ns)) (rfind unicode_mark s)
    \<and> rfind keypad_mark (plus_all ns @ s) = map_option (\<lambda>i. i + length (plus_all ns)) (rfind keypad_mark s)"
  using assms
  by (induction ns) (auto simp: rfind_modifier option.map_comp comp_def option.map_ident ac_simps)

lemma rsplit_once_plain: "d \<notin> set t \<Longrightarrow> rsplit_once d t = None"
  by (induction t) auto

lemma rsplit_once_last: "d \<notin> set t \<Longrightarrow> rsplit_once d (a @ d # t) = Some (a, t)"
  by (induction a) (auto simp: rsplit_once_plain)

text \<open>The shapes of a printed identity.\<close>

definition printed_shape :: "str \<Rightarrow> bool" where
  "printed_shape t \<longleftrightarrow> t \<noteq> [] \<and> 0x3a \<notin> set t
     \<and> (0x2b \<notin> set t \<or> (\<exists>h. 0x2b \<notin> set h \<and> (t = unicode_mark @ h \<or> t = keypad_mark @ h)))"

lemma plus_all_end: "ns \<noteq> [] \<Longrightarrow> (plus_all ns @ t) ! (length (plus_all ns) - 1) = 0x2b"
  using plus_all_join [of ns] by (simp add: nth_append)

lemma split_printed:
  assumes "set ns \<subseteq> set modifier_names" "printed_shape t"
  shows "split_modifiers_and_identity (plus_all ns @ t) = Inr (plus_join ns, t)"
proof -
  let ?key = "plus_all ns @ t" and ?n = "length (plus_all ns)"
  note rf = rfind_plus_all [OF assms(1), of t]
  have end_ok: "?n = 0 \<or> ?key ! (?n - 1) = 0x2b" using plus_all_end by (cases "ns = []") auto
  consider "0x2b \<notin> set t" | h where "0x2b \<notin> set h" "t = unicode_mark @ h"
    | h where "0x2b \<notin> set h" "t = keypad_mark @ h"
    using assms(2) by (auto simp: printed_shape_def)
  then show ?thesis
  proof cases
    case 1
    have "rsplit_once 0x2b ?key = (if ns = [] then None else Some (plus_join ns, t))"
      using 1 plus_all_join [of ns] by (simp add: rsplit_once_plain rsplit_once_last)
    then show ?thesis using rf rfind_plain [OF 1] assms(2)
      by (auto simp: split_modifiers_and_identity_def structured_start_def plus_join_def printed_shape_def)
  next
    case 2
    then have "rfind unicode_mark t = Some 0" "rfind keypad_mark t = None" using rfind_marked by simp_all
    then show ?thesis using rf end_ok
      by (auto simp: split_modifiers_and_identity_def structured_start_def plus_join_def)
  next
    case 3
    then have "rfind keypad_mark t = Some 0" "rfind unicode_mark t = None" using rfind_marked by simp_all
    then show ?thesis using rf end_ok
      by (auto simp: split_modifiers_and_identity_def structured_start_def plus_join_def)
  qed
qed

section \<open>Printed identities\<close>

fun core_identity_ok :: "core_identity \<Rightarrow> bool" where
  "core_identity_ok (CoreText c) \<longleftrightarrow> is_scalar c"
| "core_identity_ok (CoreNamed n) \<longleftrightarrow> named_ok n"

definition canonical_ok :: "canonical_key \<Rightarrow> bool" where
  "canonical_ok k \<longleftrightarrow> ck_modifiers k < 256 \<and> core_identity_ok (ck_identity k)"

lemma names_shape:
  "list_all (\<lambda>(s, _). 1 < length s \<and> CHR '':'' \<notin> set s \<and> take 8 s \<noteq> ''unicode+''
     \<and> (CHR ''+'' \<notin> set s \<or> (take 7 s = ''keypad+'' \<and> CHR ''+'' \<notin> set (drop 7 s)))) named_key_names"
  by (simp add: named_key_names_def)

lemma digit_plain: "is_ascii_digit d \<Longrightarrow> d \<noteq> 0x2b \<and> d \<noteq> 0x3a"
  by (auto simp: is_ascii_digit_def)

lemma decimal_plain: "0x2b \<notin> set (decimal_text n)" "0x3a \<notin> set (decimal_text n)"
  using decimal_text_wf [of n] digit_plain by (auto simp: list_all_iff)

lemma hex_plain: "0x2b \<notin> set (hex_text n) \<and> 0x3a \<notin> set (hex_text n)"
proof (induction n rule: hex_text.induct)
  case (1 n)
  have "hex_digit d \<noteq> 0x2b \<and> hex_digit d \<noteq> 0x3a" if "d < 16" for d
    using unat_hex_digit [OF that] by (auto split: if_splits)
  from this [of n] this [of "n mod 16"] show ?case
    using 1 by (subst (1 2) hex_text_simps) (auto simp: Let_def)
qed

lemma named_shape:
  "printed_shape (named_as_str n) \<and> strip_prefix unicode_mark (named_as_str n) = None
   \<and> length (named_as_str n) \<noteq> 1"
proof -
  consider b where "n = NkFunction b" | b where "n = NkKeypad b" | s where "(s, n) \<in> set named_key_names"
    using named_in_table [of n] by fastforce
  then show ?thesis
  proof cases
    case 1
    then show ?thesis using decimal_plain
      by (auto simp: printed_shape_def plus_in_lit colon_in_lit strip_prefix_def) (auto simp: lit_def)
  next
    case 2
    then show ?thesis using decimal_plain
      by (auto simp: printed_shape_def colon_in_lit strip_prefix_def) (auto simp: lit_def)
  next
    case 3
    have t: "named_as_str n = lit s" using 3 named_table by (auto simp: list_all_iff)
    have sh: "1 < length s" "CHR '':'' \<notin> set s" "take 8 s \<noteq> ''unicode+''"
      "CHR ''+'' \<notin> set s \<or> (take 7 s = ''keypad+'' \<and> CHR ''+'' \<notin> set (drop 7 s))"
      using 3 names_shape by (auto simp: list_all_iff)
    have "lit s = keypad_mark @ lit (drop 7 s)" if "take 7 s = ''keypad+''"
      using that append_take_drop_id [of 7 s] by (metis lit_append)
    moreover have "lit s \<noteq> []" using sh(1) by (cases s) auto
    ultimately have "printed_shape (lit s)"
      using sh by (auto simp: printed_shape_def plus_in_lit colon_in_lit intro: exI [of _ "lit (drop 7 s)"])
    moreover have "take (length unicode_mark) (lit s) = lit (take (length ''unicode+'') s)"
      by (simp add: lit_def take_map)
    then have "take (length unicode_mark) (lit s) \<noteq> unicode_mark"
      using sh(3) by (simp add: eval_nat_numeral)
    ultimately show ?thesis using sh(1) t by (auto simp: strip_prefix_def)
  qed
qed

lemma identity_shape: "core_identity_ok i \<Longrightarrow> printed_shape (identity_text i)"
proof (cases i)
  case (CoreText c)
  then show ?thesis using hex_plain [of "unat c"]
    by (auto simp: printed_shape_def colon_in_lit)
qed (use named_shape in simp)

lemma parse_identity_text: "core_identity_ok i \<Longrightarrow> parse_identity (identity_text i) = Inr i"
proof (cases i)
  case (CoreNamed n)
  moreover assume "core_identity_ok i"
  ultimately show ?thesis using named_shape [of n] named_round_trip [of n]
    by (simp add: parse_identity_def)
next
  case (CoreText c)
  assume ok: "core_identity_ok i"
  show ?thesis
  proof (cases "is_ascii_graphic c \<and> c \<noteq> 0x2b \<and> c \<noteq> 0x3a")
    case True
    then have "\<not> is_control c"
      by (auto simp: is_ascii_graphic_def is_control_def word_le_nat_alt word_less_nat_alt)
    then show ?thesis using True CoreText by (simp add: parse_identity_def strip_prefix_def lit_def)
  next
    case False
    have "unat c \<le> 2 ^ 32 - 1" using unsigned_less [of c, where ?'a = nat] by simp
    then have "from_str_radix 16 (2 ^ 32 - 1) (hex_text (unat c)) = Some (unat c)"
      by (intro from_str_radix_digits radix_hex) simp_all
    then show ?thesis using False CoreText ok
      by (auto simp: parse_identity_def char_from_u32_def)
  qed
qed

section \<open>Round trip\<close>

lemma split_once_plain: "d \<notin> set s \<Longrightarrow> split_once d s = None"
  by (induction s) auto

lemma split_once_first: "d \<notin> set a \<Longrightarrow> split_once d (a @ d # t) = Some (a, t)"
  by (induction a) auto

lemma parse_selector_text:
  assumes "0x3a \<notin> set key"
  shows "parse_selector (source_text src @ key) = Inr (src, key)"
proof (cases src)
  case SourcePrimary
  then show ?thesis using assms by (simp add: parse_selector_def split_once_plain)
next
  case SourceAlternate
  have "lit ''alternate:'' = lit ''alternate'' @ [0x3a]" by (simp add: lit_def)
  then show ?thesis using SourceAlternate split_once_first [of "0x3a" "lit ''alternate''" key]
    by (simp add: parse_selector_def colon_in_lit)
next
  case SourceBaseLayout
  have "lit ''base:'' = lit ''base'' @ [0x3a]" by (simp add: lit_def)
  then show ?thesis using SourceBaseLayout split_once_first [of "0x3a" "lit ''base''" key]
    by (simp add: parse_selector_def colon_in_lit)
qed

lemma plus_all_colon: "set ns \<subseteq> set modifier_names \<Longrightarrow> 0x3a \<notin> set (plus_all ns)"
  using name_plain by (induction ns) auto

lemma plus_join_empty: "set ns \<subseteq> set modifier_names \<Longrightarrow> plus_join ns = [] \<longleftrightarrow> ns = []"
proof
  assume n: "set ns \<subseteq> set modifier_names" and e: "plus_join ns = []"
  show "ns = []"
  proof (rule ccontr)
    assume "ns \<noteq> []"
    then obtain m ms where "ns = m # ms" by (cases ns) auto
    then have "plus_all ns = lit m @ 0x2b # plus_all ms" "lit m \<noteq> []" using n name_plain by auto
    then show False using e plus_all_join [OF \<open>ns \<noteq> []\<close>] by (cases "lit m") auto
  qed
qed (simp add: plus_join_def)

lemma key_parse_print:
  assumes "canonical_ok k"
  shows "key_parse (canonical_string k) = Inr k"
proof -
  let ?ns = "mod_names CANONICAL_MODIFIERS (ck_modifiers k)" and ?t = "identity_text (ck_identity k)"
  have ns: "set ?ns \<subseteq> set modifier_names" by (rule mod_names_subset)
  have sh: "printed_shape ?t" using assms identity_shape by (simp add: canonical_ok_def)
  have c: "canonical_string k = source_text (ck_source k) @ (plus_all ?ns @ ?t)"
    by (simp add: canonical_string_def modifiers_text_names)
  have "0x3a \<notin> set (plus_all ?ns @ ?t)" using plus_all_colon [OF ns] sh by (simp add: printed_shape_def)
  then have sel: "parse_selector (canonical_string k) = Inr (ck_source k, plus_all ?ns @ ?t)"
    unfolding c by (rule parse_selector_text)
  have mods: "(if plus_join ?ns = [] then Inr 0 else parse_modifiers (split_at 0x2b (plus_join ?ns)) 0 None)
      = Inr (ck_modifiers k)"
  proof (cases "?ns = []")
    case True
    then show ?thesis using parse_modifiers_names [of "ck_modifiers k"] assms
      by (simp add: canonical_ok_def plus_join_empty)
  next
    case False
    then show ?thesis using parse_modifiers_names [of "ck_modifiers k"] assms split_at_join [OF ns False]
      by (simp add: canonical_ok_def plus_join_empty [OF ns])
  qed
  have "?t \<noteq> []" using sh by (simp add: printed_shape_def)
  then show ?thesis
    using assms sel split_printed [OF ns sh] mods parse_identity_text [of "ck_identity k"]
    by (simp add: key_parse_def canonical_ok_def)
qed

section \<open>What the parser returns\<close>

lemma flag_small: "modifier_flag m = Some (i, f) \<Longrightarrow> take_bit 8 f = f"
proof -
  have all: "list_all (\<lambda>(_, f). take_bit 8 f = f) CANONICAL_MODIFIERS"
    by (simp add: CANONICAL_MODIFIERS_def key_modifier_defs)
  assume "modifier_flag m = Some (i, f)"
  then obtain n where "((n, f), i) \<in> set (zip CANONICAL_MODIFIERS [0..<8])"
    unfolding modifier_flag_def by (auto split: option.splits prod.splits) (metis find_Some_iff nth_mem)
  then have "(n, f) \<in> set CANONICAL_MODIFIERS" by (rule set_zip_leftD)
  then show ?thesis using all by (auto simp: list_all_iff)
qed

lemma parse_modifiers_small:
  "parse_modifiers ms acc prev = Inr m \<Longrightarrow> take_bit 8 acc = acc \<Longrightarrow> take_bit 8 m = m"
proof (induction ms acc prev rule: parse_modifiers.induct)
  case (2 m ms acc prev)
  from "2.prems"(1) obtain i f where f: "modifier_flag m = Some (i, f)"
    by (auto simp: rbind_Inr_iff ok_or_Inr_iff)
  show ?case using 2 f flag_small [OF f]
    by (auto simp: take_bit_or split: if_splits)
qed simp

lemma split_once_subset: "split_once d s = Some (a, b) \<Longrightarrow> set b \<subseteq> set s"
  by (induction s arbitrary: a) (auto split: if_splits)

lemma rsplit_once_subset: "rsplit_once d s = Some (a, b) \<Longrightarrow> set b \<subseteq> set s"
  by (induction s arbitrary: a) (auto split: if_splits option.splits)

lemma parse_selector_subset: "parse_selector v = Inr (src, key) \<Longrightarrow> set key \<subseteq> set v"
  using split_once_subset by (fastforce simp: parse_selector_def split: option.splits if_splits)

lemma split_identity_subset:
  "split_modifiers_and_identity key = Inr (mt, t) \<Longrightarrow> set t \<subseteq> set key"
  using rsplit_once_subset [of "0x2b" key] set_drop_subset [of _ key]
  by (auto simp: split_modifiers_and_identity_def split: option.splits if_splits prod.splits)

lemma parse_identity_ok:
  assumes "parse_identity t = Inr i" "list_all is_scalar t"
  shows "core_identity_ok i"
proof (cases "strip_prefix unicode_mark t")
  case (Some cp)
  then show ?thesis using assms
    by (auto simp: parse_identity_def rbind_Inr_iff ok_or_Inr_iff char_from_u32_def split: if_splits)
next
  case None
  have "is_scalar (hd t)" if "length t = 1" using that assms(2) by (cases t) auto
  then show ?thesis using assms None named_parse_ok
    by (auto simp: parse_identity_def split: if_splits option.splits)
qed

lemma key_parse_ok:
  assumes "key_parse v = Inr k" "list_all is_scalar v"
  shows "canonical_ok k"
proof -
  from assms(1) obtain src key mt t where p: "parse_selector v = Inr (src, key)"
    "split_modifiers_and_identity key = Inr (mt, t)"
    "(if mt = [] then Inr 0 else parse_modifiers (split_at 0x2b mt) 0 None) = Inr (ck_modifiers k)"
    "parse_identity t = Inr (ck_identity k)"
    by (auto simp: key_parse_def rbind_Inr_iff split: if_splits)
  have "take_bit 8 (ck_modifiers k) = ck_modifiers k"
    using p(3) parse_modifiers_small by (auto split: if_splits)
  then have "unat (ck_modifiers k) < 2 ^ 8" by (metis unat_take_bit take_bit_nat_less_exp)
  then have "ck_modifiers k < 256" by (simp add: word_less_nat_alt)
  moreover have "core_identity_ok (ck_identity k)"
  proof -
    have "set t \<subseteq> set v"
      using split_identity_subset [OF p(2)] parse_selector_subset [OF p(1)] by blast
    then have "list_all is_scalar t" using assms(2) by (auto simp: list_all_iff)
    then show ?thesis using parse_identity_ok [OF p(4)] by simp
  qed
  ultimately show ?thesis by (simp add: canonical_ok_def)
qed

text \<open>
  C24: Keys survive a round trip. Whatever text the parser accepts, the key it returns is printed
  to a text that parses back to the same key, so keys are equal exactly when they are printed the
  same; every key with valid modifiers and a representable identity is parsed from its printed form.
\<close>
theorem key_round_trip:
  assumes "key_parse v = Inr k" and "list_all is_scalar v"
  shows "key_parse (canonical_string k) = Inr k
    \<and> (canonical_ok k' \<longrightarrow> key_parse (canonical_string k') = Inr k'
        \<and> (canonical_string k' = canonical_string k \<longleftrightarrow> k' = k))"
  using key_parse_print [OF key_parse_ok [OF assms]] key_parse_print [of k'] by auto

definition spelled_keypad :: str where
  "spelled_keypad = lit ''base:ctrl+shift+keypad+05''"

definition spelled_key :: canonical_key where
  "spelled_key = \<lparr>ck_source = SourceBaseLayout, ck_modifiers = M_CTRL OR M_SHIFT,
     ck_identity = CoreNamed (NkKeypad 5)\<rparr>"

lemma key_round_trip_witness:
  "key_parse spelled_keypad = Inr spelled_key
   \<and> key_parse (canonical_string spelled_key) = Inr spelled_key
   \<and> canonical_string spelled_key = lit ''base:ctrl+shift+keypad+5''"
proof -
  have p: "key_parse spelled_keypad = Inr spelled_key" by code_simp
  moreover have "list_all is_scalar spelled_keypad" by code_simp
  ultimately have "key_parse (canonical_string spelled_key) = Inr spelled_key"
    using key_round_trip by blast
  moreover have "canonical_string spelled_key = lit ''base:ctrl+shift+keypad+5''" by code_simp
  ultimately show ?thesis using p by simp
qed

end
