(* ===== verification/Key_Input.thy ===== *)
theory Key_Input
  imports Key_Syntax Terminal_Stream
begin

text \<open>
  \<open>muxe-ui\<close>, \<open>input.rs\<close>: the conversion of parsed terminal events into the events bindings are
  matched against, and what follows for the path from terminal bytes to a matching binding.
\<close>

section \<open>Conversion\<close>

record converted_key_event =
  cv_raw :: raw_key_event
  cv_event :: core_key_event

datatype converted_input =
    ConvertedKey converted_key_event
  | ConvertedResponse protocol_response
  | ConvertedUnknown unknown_sequence
  | ConvertedMalformed malformed_input

fun convert_keypad :: "keypad_key \<Rightarrow> named_key option" where
  "convert_keypad (KpDigit number) = (if number \<le> 9 then Some (NkKeypad number) else None)"
| "convert_keypad KpDecimal = Some NkKeypadDecimal"
| "convert_keypad KpDivide = Some NkKeypadDivide"
| "convert_keypad KpMultiply = Some NkKeypadMultiply"
| "convert_keypad KpSubtract = Some NkKeypadSubtract"
| "convert_keypad KpAdd = Some NkKeypadAdd"
| "convert_keypad KpEnter = Some NkKeypadEnter"
| "convert_keypad KpEqual = Some NkKeypadEqual"
| "convert_keypad KpSeparator = Some NkKeypadSeparator"
| "convert_keypad KpLeft = Some NkKeypadLeft"
| "convert_keypad KpRight = Some NkKeypadRight"
| "convert_keypad KpUp = Some NkKeypadUp"
| "convert_keypad KpDown = Some NkKeypadDown"
| "convert_keypad KpPageUp = Some NkKeypadPageUp"
| "convert_keypad KpPageDown = Some NkKeypadPageDown"
| "convert_keypad KpHome = Some NkKeypadHome"
| "convert_keypad KpEnd = Some NkKeypadEnd"
| "convert_keypad KpInsert = Some NkKeypadInsert"
| "convert_keypad KpDelete = Some NkKeypadDelete"
| "convert_keypad KpBegin = Some NkKeypadBegin"

fun convert_media :: "media_key \<Rightarrow> named_key" where
  "convert_media MPlay = NkMediaPlay"
| "convert_media MPause = NkMediaPause"
| "convert_media MPlayPause = NkMediaPlayPause"
| "convert_media MReverse = NkMediaReverse"
| "convert_media MStop = NkMediaStop"
| "convert_media MFastForward = NkMediaFastForward"
| "convert_media MRewind = NkMediaRewind"
| "convert_media MTrackNext = NkMediaTrackNext"
| "convert_media MTrackPrevious = NkMediaTrackPrevious"
| "convert_media MRecord = NkMediaRecord"
| "convert_media MLowerVolume = NkLowerVolume"
| "convert_media MRaiseVolume = NkRaiseVolume"
| "convert_media MMuteVolume = NkMuteVolume"

fun convert_modifier_key :: "modifier_key \<Rightarrow> named_key" where
  "convert_modifier_key LeftShift = NkLeftShift"
| "convert_modifier_key LeftControl = NkLeftControl"
| "convert_modifier_key LeftAlt = NkLeftAlt"
| "convert_modifier_key LeftSuper = NkLeftSuper"
| "convert_modifier_key LeftHyper = NkLeftHyper"
| "convert_modifier_key LeftMeta = NkLeftMeta"
| "convert_modifier_key RightShift = NkRightShift"
| "convert_modifier_key RightControl = NkRightControl"
| "convert_modifier_key RightAlt = NkRightAlt"
| "convert_modifier_key RightSuper = NkRightSuper"
| "convert_modifier_key RightHyper = NkRightHyper"
| "convert_modifier_key RightMeta = NkRightMeta"
| "convert_modifier_key IsoLevel3Shift = NkIsoLevel3Shift"
| "convert_modifier_key IsoLevel5Shift = NkIsoLevel5Shift"

fun convert_functional :: "functional_key \<Rightarrow> named_key option" where
  "convert_functional FEscape = Some NkEscape"
| "convert_functional FEnter = Some NkEnter"
| "convert_functional FTab = Some NkTab"
| "convert_functional FBackspace = Some NkBackspace"
| "convert_functional FInsert = Some NkInsert"
| "convert_functional FDelete = Some NkDelete"
| "convert_functional FLeft = Some NkLeft"
| "convert_functional FRight = Some NkRight"
| "convert_functional FUp = Some NkUp"
| "convert_functional FDown = Some NkDown"
| "convert_functional FPageUp = Some NkPageUp"
| "convert_functional FPageDown = Some NkPageDown"
| "convert_functional FHome = Some NkHome"
| "convert_functional FEnd = Some NkEnd"
| "convert_functional FBegin = Some NkKeypadBegin"
| "convert_functional FCapsLock = Some NkCapsLock"
| "convert_functional FScrollLock = Some NkScrollLock"
| "convert_functional FNumLock = Some NkNumLock"
| "convert_functional FPrintScreen = Some NkPrintScreen"
| "convert_functional FPause = Some NkPause"
| "convert_functional FMenu = Some NkMenu"
| "convert_functional (FFunction number) = (if 1 \<le> number \<and> number \<le> 35 then Some (NkFunction number) else None)"
| "convert_functional (FKeypad key) = convert_keypad key"
| "convert_functional (FMedia key) = Some (convert_media key)"
| "convert_functional (FModifier key) = Some (convert_modifier_key key)"

fun convert_identity :: "key_identity \<Rightarrow> core_identity option" where
  "convert_identity (Unicode character) = Some (CoreText character)"
| "convert_identity (Functional key) = map_option CoreNamed (convert_functional key)"
| "convert_identity (UnknownFunctional _) = None"
| "convert_identity Unidentified = None"

text \<open>The pairs of the loop in \<open>convert_modifiers\<close>, in its order.\<close>

definition modifier_pairs :: "(modifiers \<times> core_modifiers) list" where
  "modifier_pairs = [(0x01, M_SHIFT), (0x02, M_ALT), (0x04, M_CTRL), (0x08, M_SUPER), (0x10, M_HYPER), (0x20, M_META)]"

definition convert_modifiers :: "modifiers \<Rightarrow> core_modifiers" where
  "convert_modifiers raw =
     foldl (\<lambda>converted (raw_flag, core_flag).
       if raw AND raw_flag = raw_flag then converted OR core_flag else converted) 0 modifier_pairs"

fun convert_event_kind :: "event_kind \<Rightarrow> core_event_kind" where
  "convert_event_kind Press = KindPress"
| "convert_event_kind Repeat = KindRepeat"
| "convert_event_kind Release = KindRelease"

definition convert_event :: "raw_key_event \<Rightarrow> core_key_event" where
  "convert_event raw =
     \<lparr>ke_primary = convert_identity (primary raw),
      ke_alternate = Option.bind (shifted raw) convert_identity,
      ke_base_layout = Option.bind (base raw) convert_identity,
      ke_modifiers = convert_modifiers (modifiers raw),
      ke_kind = convert_event_kind (kind raw),
      ke_locks = \<lparr>lm_caps_lock = caps_lock (locks raw), lm_num_lock = num_lock (locks raw)\<rparr>,
      ke_keypad = (keypad raw \<noteq> None)\<rparr>"

fun convert_input :: "input_event \<Rightarrow> converted_input" where
  "convert_input (Key raw) = ConvertedKey \<lparr>cv_raw = raw, cv_event = convert_event raw\<rparr>"
| "convert_input (ProtocolResponse r) = ConvertedResponse r"
| "convert_input (Unknown s) = ConvertedUnknown s"
| "convert_input (Malformed i) = ConvertedMalformed i"

definition is_matchable :: "converted_key_event \<Rightarrow> bool" where
  "is_matchable c \<longleftrightarrow> ke_primary (cv_event c) \<noteq> None \<or> ke_alternate (cv_event c) \<noteq> None
     \<or> ke_base_layout (cv_event c) \<noteq> None"

section \<open>Profiles (\<open>config.rs\<close>)\<close>

datatype keyboard_profile = Vt100 nat | Kitty core_key_capabilities

fun matches_binding :: "keyboard_profile \<Rightarrow> canonical_key \<Rightarrow> core_key_event \<Rightarrow> bool" where
  "matches_binding (Vt100 escape_timeout) binding event = matches_vt100 binding event"
| "matches_binding (Kitty _) binding event = key_matches binding event"

section \<open>Modifiers and locks\<close>

lemma and_exp_full: "(w :: 'a::len word) AND 2 ^ i = 2 ^ i \<longleftrightarrow> bit w i \<or> LENGTH('a) \<le> i"
proof -
  have "w AND 2 ^ i = 2 ^ i \<longleftrightarrow> (\<forall>n. n = i \<and> n < LENGTH('a) \<longrightarrow> bit w n)"
    by (auto simp: bit_eq_iff bit_and_iff bit_exp_iff)
  then show ?thesis by (auto simp: not_less)
qed

lemma modifier_pairs_exp:
  "modifier_pairs = [(2 ^ 0, 2 ^ 0), (2 ^ 1, 2 ^ 1), (2 ^ 2, 2 ^ 2), (2 ^ 3, 2 ^ 3), (2 ^ 4, 2 ^ 4), (2 ^ 5, 2 ^ 5)]"
  by (simp add: modifier_pairs_def key_modifier_defs)

lemma bit_convert_modifiers: "bit (convert_modifiers raw) n \<longleftrightarrow> n < 6 \<and> bit raw n"
proof -
  have step: "bit (if raw AND 2 ^ i = 2 ^ i then w OR 2 ^ i else w :: core_modifiers) n
      \<longleftrightarrow> bit w n \<or> (bit raw i \<and> n = i)" if "i < 8" for i w
    using that by (auto simp: and_exp_full bit_or_iff bit_exp_iff)
  show ?thesis
    unfolding convert_modifiers_def modifier_pairs_exp foldl.simps prod.case
    by (simp only: step) (auto simp: less_Suc_eq numeral_eq_Suc step)
qed

text \<open>The six modifiers keep their bits; the lock bits of the core are never set.\<close>

lemma convert_modifiers_ucast: "m < 64 \<Longrightarrow> convert_modifiers m = ucast m"
proof (rule bit_word_eqI)
  fix n assume m: "m < (64 :: u8)" and n: "n < LENGTH(16)"
  have "take_bit 6 m = m" using take_bit_small [of m 6] m by simp
  then have "bit m n \<Longrightarrow> n < 6" by (metis bit_take_bit_iff)
  then show "bit (convert_modifiers m) n = bit (ucast m :: core_modifiers) n"
    using n by (auto simp: bit_convert_modifiers bit_ucast_iff)
qed

lemma without_locks_convert [simp]: "without_locks (convert_modifiers m) = convert_modifiers m"
proof (rule bit_word_eqI)
  fix n assume "n < LENGTH(16)"
  have e: "(M_CAPS_LOCK OR M_NUM_LOCK :: core_modifiers) = 2 ^ 6 OR 2 ^ 7"
    by (simp add: key_modifier_defs)
  have "bit M_CAPS_LOCK n \<or> bit M_NUM_LOCK n \<longleftrightarrow> n = 6 \<or> n = 7"
    unfolding bit_or_iff [symmetric] e unfolding bit_or_iff bit_exp_iff using \<open>n < LENGTH(16)\<close> by auto
  then show "bit (without_locks (convert_modifiers m)) n = bit (convert_modifiers m) n"
    using \<open>n < LENGTH(16)\<close> by (auto simp: without_locks_def bit_and_iff bit_not_iff bit_convert_modifiers)
qed

section \<open>From bytes to bindings\<close>

lemma kitty_event:
  assumes "m < 64" "primary_identity c = Inr (i, kp)" "state p = StGround" "parser_inv p"
  shows "snd (push p (0x1b # 0x5b # kitty_body c m l k @ [0x75])) =
    [Key \<lparr>primary = i, shifted = None, base = None, modifiers = m, kind = k, locks = l, keypad = kp\<rparr>]"
proof -
  have "is_csi_final 0x75" by (simp add: is_csi_final_def)
  note this [THEN push_csi_sequence [OF assms(3,4) kitty_body_class(2) kitty_body_length [OF assms(1)]], THEN conjunct1, of c l k]
  then show ?thesis by (simp only: decode_kitty_body [OF assms(1,2)])
qed

text \<open>
  C23: A Kitty terminal reaches the right binding. The sequence a terminal writes for a key with
  modifiers, lock state and event kind is read as one event, and a binding of the primary identity
  matches it exactly when it names the same key, has the same six modifiers, and every lock the
  binding asks for is on. A lock the binding does not name does not matter.
\<close>
theorem kitty_binding_fires:
  assumes "m < 64" "primary_identity c = Inr (i, kp)" "state p = StGround" "parser_inv p"
    and "ck_source b = SourcePrimary"
  shows "\<exists>e. snd (push p (0x1b # 0x5b # kitty_body c m l k @ [0x75])) = [Key e]
    \<and> (matches_binding (Kitty caps) b (convert_event e)
       \<longleftrightarrow> convert_identity i = Some (ck_identity b) \<and> without_locks (ck_modifiers b) = ucast m
           \<and> (mods_contain (ck_modifiers b) M_CAPS_LOCK \<le> caps_lock l)
           \<and> (mods_contain (ck_modifiers b) M_NUM_LOCK \<le> num_lock l))"
  using kitty_event [OF assms(1-4), of l k] assms(1,5)
  by (auto simp: key_matches_def convert_event_def matches_requirements_def lock_requirements_def
      without_locks_convert [of m, unfolded convert_modifiers_ucast [OF assms(1)]]
      convert_modifiers_ucast)

lemma kitty_binding_fires_witness:
  "\<exists>e. snd (push new_parser (0x1b # 0x5b # kitty_body 97 5 \<lparr>caps_lock = True, num_lock = False\<rparr> Press @ [0x75])) = [Key e]
    \<and> matches_binding (Kitty \<lparr>kap_event_types = True, kap_alternate_keys = False, kap_all_keys_as_escape_codes = False\<rparr>)
        \<lparr>ck_source = SourcePrimary, ck_modifiers = M_CTRL OR M_SHIFT, ck_identity = CoreText 97\<rparr> (convert_event e)"
proof -
  have f: "functional_identity 97 = None"
    by (simp add: functional_identity_def function_key_identity_def keypad_functional_identity_def
        media_functional_identity_def modifier_functional_identity_def)
  have i: "primary_identity 97 = Inr (Unicode 97, None)"
    using f by (simp add: primary_identity_def reported_identity_def char_from_u32_def is_scalar_def)
  let ?b = "\<lparr>ck_source = SourcePrimary, ck_modifiers = M_CTRL OR M_SHIFT, ck_identity = CoreText 97\<rparr>"
  have g: "state new_parser = StGround" by (simp add: new_parser_def)
  show ?thesis
    using kitty_binding_fires [OF _ i g new_parser_inv, of 5 ?b "\<lparr>caps_lock = True, num_lock = False\<rparr>" Press]
    by (auto simp: mods_contain_def without_locks_def key_modifier_defs)
qed

section \<open>Control bytes of a VT100 terminal\<close>

text \<open>
  The code a control byte is matched by: line feed is read as Enter and delete as Backspace.
\<close>

definition control_code :: "u8 \<Rightarrow> u8" where
  "control_code b = (if b = 0x0a then 0x0d else if b = 0x7f then 0x08 else b)"

text \<open>What one byte produces when nothing follows it before the escape timeout.\<close>

definition lone_byte :: "parser \<Rightarrow> u8 \<Rightarrow> input_event list" where
  "lone_byte p b = snd (push p [b]) @ snd (snd (flush_pending_escape (fst (push p [b]))))"

lemma convert_none [simp]: "convert_modifiers MOD_NONE = 0"
  by (subst convert_modifiers_ucast) (simp_all add: MOD_NONE_def)

lemma legacy_plain:
  "legacy_event_control_code (convert_event (plain (Functional FEscape))) = Some 0x1b"
  "legacy_event_control_code (convert_event (plain (Functional FEnter))) = Some 0x0d"
  "legacy_event_control_code (convert_event (plain (Functional FTab))) = Some 0x09"
  "legacy_event_control_code (convert_event (plain (Functional FBackspace))) = Some 0x08"
  "is_control c \<Longrightarrow> unat c < 256 \<Longrightarrow>
     legacy_event_control_code (convert_event (plain (Unicode c))) = Some (ucast c)"
  by (simp_all add: legacy_event_control_code_def convert_event_def plain_def LOCKS_NONE_def LOCKS_DEFAULT_def)

lemma lone_control_byte:
  assumes "state p = StGround" "b < 0x20 \<or> b = 0x7f"
  shows "\<exists>e. lone_byte p b = [Key e] \<and> legacy_event_control_code (convert_event e) = Some (control_code b)"
proof -
  have g: "push p [b] = consume_ground b p" using assms(1) by (subst push_ground) (simp_all add: prod_eq_iff)
  consider "b = 0x1b" | "b = 0x08 \<or> b = 0x7f" | "b = 0x09" | "b = 0x0d \<or> b = 0x0a"
    | "b < 0x20" "b \<notin> {0x1b, 0x08, 0x7f, 0x09, 0x0d, 0x0a}" using assms(2) by auto
  then show ?thesis
  proof cases
    case 5
    then have "b < 0x80" by (auto intro: less_trans)
    then have "lone_byte p b = [Key (plain (Unicode (ucast b)))]"
      using 5 g assms(1) by (simp add: lone_byte_def consume_ground_def flush_pending_escape_def)
    moreover have "unat (ucast b :: u32) = unat b" by (rule unat_ucast_up)
    moreover from this have "is_control (ucast b)" "unat (ucast b :: u32) < 256"
      using 5(1) by (simp_all add: is_control_def word_less_nat_alt)
    moreover from this have "(ucast (ucast b :: u32) :: u8) = b"
      by (metis unat_ucast_small unat_ucast_up word_unat_eq_iff)
    ultimately show ?thesis using 5(2) legacy_plain(5) [of "ucast b"] by (simp add: control_code_def)
  qed (use g assms(1) legacy_plain in \<open>auto simp: lone_byte_def consume_ground_def flush_pending_escape_def
      key_event_def control_code_def\<close>)
qed

text \<open>
  What a control byte does on a VT100 terminal. A single control byte, or delete, read in the
  ground state with nothing behind it produces one key event, and a binding that has a control code
  matches it exactly when that code is the byte, where line feed counts as carriage return and
  delete as backspace. Therefore no control byte at all reaches a binding of the code 0x0a: the
  configuration accepts \<open>ctrl+j\<close>, but the byte a terminal sends for it triggers \<open>enter\<close>.
\<close>
theorem vt100_control_bytes:
  assumes "state p = StGround" and "b < 0x20 \<or> b = 0x7f" and "legacy_control_code k = Some code"
  shows "\<exists>e. lone_byte p b = [Key e]
    \<and> (matches_binding (Vt100 timeout) k (convert_event e) \<longleftrightarrow> code = control_code b)
    \<and> \<not> (code = 0x0a \<and> matches_binding (Vt100 timeout) k (convert_event e))"
  using lone_control_byte [OF assms(1,2)] assms(3)
  by (fastforce simp: matches_vt100_def control_code_def split: if_splits)

lemma vt100_control_bytes_witness:
  "\<exists>e. lone_byte new_parser 0x0a = [Key e]
    \<and> matches_binding (Vt100 25) \<lparr>ck_source = SourcePrimary, ck_modifiers = 0, ck_identity = CoreNamed NkEnter\<rparr>
        (convert_event e)
    \<and> key_parse (lit ''ctrl+j'') = Inr \<lparr>ck_source = SourcePrimary, ck_modifiers = M_CTRL, ck_identity = CoreText 0x6a\<rparr>
    \<and> \<not> matches_binding (Vt100 25) \<lparr>ck_source = SourcePrimary, ck_modifiers = M_CTRL, ck_identity = CoreText 0x6a\<rparr>
        (convert_event e)"
proof -
  let ?enter = "\<lparr>ck_source = SourcePrimary, ck_modifiers = 0, ck_identity = CoreNamed NkEnter\<rparr>"
  let ?j = "\<lparr>ck_source = SourcePrimary, ck_modifiers = M_CTRL, ck_identity = CoreText 0x6a\<rparr>"
  have g: "state new_parser = StGround" by (simp add: new_parser_def)
  have "legacy_control_code ?enter = Some 0x0d" "legacy_control_code ?j = Some 0x0a" by code_simp+
  moreover have "key_parse (lit ''ctrl+j'') = Inr ?j" by code_simp
  moreover obtain e where e: "lone_byte new_parser 0x0a = [Key e]"
    "matches_binding (Vt100 25) ?enter (convert_event e)"
    using vt100_control_bytes [OF g, of "0x0a" ?enter "0x0d" 25] calculation(1) by (auto simp: control_code_def)
  moreover have "\<not> matches_binding (Vt100 25) ?j (convert_event e)"
    using vt100_control_bytes [OF g, of "0x0a" ?j "0x0a" 25] calculation(2) e(1) by auto
  ultimately show ?thesis by blast
qed

section \<open>Ambiguous bindings\<close>

text \<open>An event of a VT100 terminal: it reports the primary identity only and no lock state.\<close>

definition vt100_event :: "core_key_event \<Rightarrow> bool" where
  "vt100_event e \<longleftrightarrow> ke_alternate e = None \<and> ke_base_layout e = None \<and> ke_locks e = LOCKS_DEFAULT \<and> \<not> ke_keypad e"

fun control_text :: "canonical_key \<Rightarrow> bool" where
  "control_text k = (case ck_identity k of CoreText c \<Rightarrow> is_control c | CoreNamed _ \<Rightarrow> False)"

lemma matches_unlocked:
  assumes "key_matches k e" "vt100_event e"
  shows "ck_source k = SourcePrimary \<and> ke_primary e = Some (ck_identity k)
    \<and> without_locks (ck_modifiers k) = ck_modifiers k \<and> without_locks (ke_modifiers e) = ck_modifiers k"
proof -
  have src: "ck_source k = SourcePrimary" "ke_primary e = Some (ck_identity k)"
    using assms by (auto simp: key_matches_def vt100_event_def split: identity_source.splits)
  have "\<not> mods_contain (ck_modifiers k) M_CAPS_LOCK" "\<not> mods_contain (ck_modifiers k) M_NUM_LOCK"
    using assms by (auto simp: key_matches_def vt100_event_def LOCKS_DEFAULT_def matches_requirements_def
        lock_requirements_def)
  then have z: "ck_modifiers k AND (M_CAPS_LOCK OR M_NUM_LOCK) = 0"
    by (simp add: mods_contain_def bit.conj_disj_distrib)
  have "without_locks (ck_modifiers k) = ck_modifiers k"
  proof -
    have "ck_modifiers k = (ck_modifiers k AND NOT (M_CAPS_LOCK OR M_NUM_LOCK)) OR (ck_modifiers k AND (M_CAPS_LOCK OR M_NUM_LOCK))"
      by (rule bit_word_eqI) (auto simp: bit_simps)
    then show ?thesis using z by (simp add: without_locks_def)
  qed
  then show ?thesis using src assms(1) by (simp add: key_matches_def)
qed

lemma legacy_named_unmodified:
  assumes "ck_source k = SourcePrimary" "ck_modifiers k = 0" "ck_identity k = CoreNamed n"
    "n \<in> {NkEscape, NkEnter, NkTab, NkBackspace}"
  shows "legacy_control_code k \<noteq> None"
  using assms by (auto simp: legacy_control_code_def)

text \<open>A binding that is matched exactly never catches an event another binding's code catches.\<close>

lemma exact_or_code:
  assumes "legacy_control_code k = None" "key_matches k e" "vt100_event e" "\<not> control_text k"
  shows "legacy_event_control_code e = None"
proof (rule ccontr)
  assume c: "legacy_event_control_code e \<noteq> None"
  note m = matches_unlocked [OF assms(2,3)]
  have "ke_modifiers e = 0" using c by (auto simp: legacy_event_control_code_def split: if_splits)
  then have "ck_modifiers k = 0" using m by (simp add: without_locks_def)
  then show False
    using c m assms(1,4) legacy_named_unmodified [of k]
    by (auto simp: legacy_event_control_code_def split: if_splits core_identity.splits)
qed

text \<open>
  C25: The collision check of the VT100 profile is complete. If two bindings match one event a VT100
  terminal can report, then they have the same projection, which is what the compiler rejects; the
  only escape is a binding written as a control character itself (\<open>unicode+1\<close>). Conversely two
  bindings with one projection match the same events.
\<close>
theorem vt100_collisions:
  assumes "vt100_event e" and "\<not> control_text k" and "\<not> control_text k'"
  shows "(matches_vt100 k e \<and> matches_vt100 k' e \<longrightarrow> vt100_binding_key_of k = vt100_binding_key_of k')
    \<and> (vt100_binding_key_of k = vt100_binding_key_of k' \<longrightarrow> matches_vt100 k e = matches_vt100 k' e)"
proof (intro conjI impI)
  assume m: "matches_vt100 k e \<and> matches_vt100 k' e"
  show "vt100_binding_key_of k = vt100_binding_key_of k'"
  proof (cases "legacy_control_code k"; cases "legacy_control_code k'")
    assume n: "legacy_control_code k = None" "legacy_control_code k' = None"
    then have "key_matches k e" "key_matches k' e" using m by (simp_all add: matches_vt100_def)
    then have "k = k'"
      using matches_unlocked [of k e] matches_unlocked [of k' e] assms(1) by (cases k; cases k') simp
    then show ?thesis by simp
  qed (use m exact_or_code [of k e] exact_or_code [of k' e] assms in
      \<open>auto simp: matches_vt100_def vt100_binding_key_of_def\<close>)
qed (auto simp: vt100_binding_key_of_def matches_vt100_def split: option.splits)

definition tab_event :: core_key_event where
  "tab_event = convert_event (plain (Functional FTab))"

definition tab_binding :: canonical_key where
  "tab_binding = \<lparr>ck_source = SourcePrimary, ck_modifiers = 0, ck_identity = CoreNamed NkTab\<rparr>"

definition ctrl_i_binding :: canonical_key where
  "ctrl_i_binding = \<lparr>ck_source = SourcePrimary, ck_modifiers = M_CTRL, ck_identity = CoreText 0x69\<rparr>"

lemma vt100_collisions_witness:
  "matches_vt100 tab_binding tab_event \<and> matches_vt100 ctrl_i_binding tab_event
   \<and> vt100_binding_key_of tab_binding = vt100_binding_key_of ctrl_i_binding
   \<and> matches_vt100 \<lparr>ck_source = SourcePrimary, ck_modifiers = 0, ck_identity = CoreText 1\<rparr>
       (convert_event (plain (Unicode 1)))
   \<and> matches_vt100 \<lparr>ck_source = SourcePrimary, ck_modifiers = M_CTRL, ck_identity = CoreText 0x61\<rparr>
       (convert_event (plain (Unicode 1)))
   \<and> vt100_binding_key_of \<lparr>ck_source = SourcePrimary, ck_modifiers = 0, ck_identity = CoreText 1\<rparr>
     \<noteq> vt100_binding_key_of \<lparr>ck_source = SourcePrimary, ck_modifiers = M_CTRL, ck_identity = CoreText 0x61\<rparr>"
proof -
  have m: "matches_vt100 tab_binding tab_event" "matches_vt100 ctrl_i_binding tab_event" by code_simp+
  have "vt100_event tab_event" "\<not> control_text tab_binding" "\<not> control_text ctrl_i_binding" by code_simp+
  then have "vt100_binding_key_of tab_binding = vt100_binding_key_of ctrl_i_binding"
    using vt100_collisions m by blast
  moreover have "matches_vt100 \<lparr>ck_source = SourcePrimary, ck_modifiers = 0, ck_identity = CoreText 1\<rparr>
       (convert_event (plain (Unicode 1)))"
    "matches_vt100 \<lparr>ck_source = SourcePrimary, ck_modifiers = M_CTRL, ck_identity = CoreText 0x61\<rparr>
       (convert_event (plain (Unicode 1)))" by code_simp+
  moreover have "vt100_binding_key_of \<lparr>ck_source = SourcePrimary, ck_modifiers = 0, ck_identity = CoreText 1\<rparr>
     \<noteq> vt100_binding_key_of \<lparr>ck_source = SourcePrimary, ck_modifiers = M_CTRL, ck_identity = CoreText 0x61\<rparr>"
    by code_simp
  ultimately show ?thesis using m by blast
qed

end
