(* ===== verification/Ordered_Table.thy ===== *)
theory Ordered_Table
  imports Muxe_Prelude "HOL-Library.Multiset" "HOL-Library.List_Lexorder"
begin

text \<open>
  The \<open>BTreeMap\<close> of Rust's standard library, as the list of its entries in ascending key order:
  \<open>insert\<close>, \<open>remove\<close>, \<open>get\<close>, \<open>contains_key\<close>, \<open>retain\<close> on values and \<open>values\<close>. What the clients
  rely on is the interface \<open>keyed_store\<close>, with the bookkeeping of outstanding values proved once
  inside it; the table is its interpretation. Rust orders strings by their UTF-8 bytes, which is
  the lexicographic order of their scalar values, the order \<open>List_Lexorder\<close> gives to lists.
\<close>

section \<open>The table\<close>

type_synonym ('k, 'v) table = "('k \<times> 'v) list"

definition tab_ok :: "('k::linorder, 'v) table \<Rightarrow> bool" where
  "tab_ok t \<longleftrightarrow> sorted_wrt (<) (map fst t)"

definition tab_get :: "('k, 'v) table \<Rightarrow> 'k \<Rightarrow> 'v option" where
  "tab_get t k = map_of t k"

definition tab_has :: "('k, 'v) table \<Rightarrow> 'k \<Rightarrow> bool" where
  "tab_has t k \<longleftrightarrow> tab_get t k \<noteq> None"

fun tab_insert :: "'k::linorder \<Rightarrow> 'v \<Rightarrow> ('k, 'v) table \<Rightarrow> ('k, 'v) table" where
  "tab_insert k v [] = [(k, v)]"
| "tab_insert k v ((k', v') # t) =
     (if k < k' then (k, v) # (k', v') # t
      else if k = k' then (k, v) # t
      else (k', v') # tab_insert k v t)"

definition tab_remove :: "'k \<Rightarrow> ('k, 'v) table \<Rightarrow> ('k, 'v) table" where
  "tab_remove k t = filter (\<lambda>e. fst e \<noteq> k) t"

definition tab_retain :: "('v \<Rightarrow> bool) \<Rightarrow> ('k, 'v) table \<Rightarrow> ('k, 'v) table" where
  "tab_retain f t = filter (\<lambda>e. f (snd e)) t"

definition tab_vals :: "('k, 'v) table \<Rightarrow> 'v list" where
  "tab_vals t = map snd t"

section \<open>Laws of the table\<close>

lemma tab_keys_insert: "fst ` set (tab_insert k v t) = insert k (fst ` set t)"
proof (induction t)
  case (Cons e t)
  then show ?case by (cases e) (simp add: insert_commute)
qed simp

lemma tab_ok_insert: "tab_ok t \<Longrightarrow> tab_ok (tab_insert k v t)"
proof (induction t)
  case (Cons e t)
  then show ?case
    using tab_keys_insert [of k v t] by (cases e) (fastforce simp: tab_ok_def)
qed (simp add: tab_ok_def)

lemma tab_ok_filter: "tab_ok t \<Longrightarrow> tab_ok (filter P t)"
  unfolding tab_ok_def by (induction t) auto

lemma tab_ok_remove: "tab_ok t \<Longrightarrow> tab_ok (tab_remove k t)"
  unfolding tab_remove_def by (rule tab_ok_filter)

lemma tab_ok_retain: "tab_ok t \<Longrightarrow> tab_ok (tab_retain f t)"
  unfolding tab_retain_def by (rule tab_ok_filter)

lemma tab_ok_Nil [simp]: "tab_ok []"
  by (simp add: tab_ok_def)

lemma tab_get_Nil [simp]: "tab_get [] k = None" "tab_has [] k = False" "tab_vals [] = []"
  by (simp_all add: tab_get_def tab_has_def tab_vals_def)

lemma tab_ok_distinct: "tab_ok t \<Longrightarrow> distinct (map fst t)"
  unfolding tab_ok_def by (simp add: strict_sorted_iff)

lemma tab_get_in_set: "tab_ok t \<Longrightarrow> tab_get t k = Some v \<longleftrightarrow> (k, v) \<in> set t"
  unfolding tab_get_def by (rule map_of_eq_Some_iff) (rule tab_ok_distinct)

lemma tab_get_insert: "tab_ok t \<Longrightarrow> tab_get (tab_insert k v t) k' = (if k' = k then Some v else tab_get t k')"
proof (induction t)
  case (Cons e t)
  obtain a b where e: "e = (a, b)" by (cases e)
  have "k < a \<Longrightarrow> map_of t k = None"
    using Cons.prems e by (auto simp: tab_ok_def map_of_eq_None_iff)
  then show ?case using Cons e by (auto simp: tab_get_def tab_ok_def)
qed (simp add: tab_get_def)

lemma tab_get_remove: "tab_get (tab_remove k t) k' = (if k' = k then None else tab_get t k')"
  unfolding tab_get_def tab_remove_def by (induction t) auto

lemma tab_get_retain:
  assumes "tab_ok t"
  shows "tab_get (tab_retain f t) k = (case tab_get t k of Some v \<Rightarrow> if f v then Some v else None | None \<Rightarrow> None)"
proof (cases "tab_get t k")
  case None
  then have "k \<notin> fst ` set t" by (simp add: tab_get_def map_of_eq_None_iff)
  then have "k \<notin> fst ` set (tab_retain f t)" by (auto simp: tab_retain_def)
  then have "tab_get (tab_retain f t) k = None" by (simp add: tab_get_def map_of_eq_None_iff)
  then show ?thesis using None by simp
next
  case (Some v)
  have "tab_get (tab_retain f t) k = Some w \<longleftrightarrow> tab_get t k = Some w \<and> f w" for w
    using assms tab_ok_retain [OF assms, of f] by (simp add: tab_get_in_set tab_retain_def)
  then have "tab_get (tab_retain f t) k = Some w \<longleftrightarrow> w = v \<and> f w" for w
    using Some by auto
  then show ?thesis using Some by (cases "tab_get (tab_retain f t) k") auto
qed

lemma tab_vals_get: "tab_ok t \<Longrightarrow> v \<in> set (tab_vals t) \<longleftrightarrow> (\<exists>k. tab_get t k = Some v)"
  unfolding tab_vals_def by (auto simp: tab_get_in_set) force

lemma mset_vals_insert: "tab_get t k = None \<Longrightarrow> mset (tab_vals (tab_insert k v t)) = add_mset v (mset (tab_vals t))"
  unfolding tab_vals_def tab_get_def by (induction t) (auto split: if_splits)

lemma tab_remove_absent: "tab_get t k = None \<Longrightarrow> tab_remove k t = t"
  unfolding tab_get_def tab_remove_def by (induction t) (auto split: if_splits)

lemma mset_vals_remove:
  "tab_ok t \<Longrightarrow> tab_get t k = Some v \<Longrightarrow> mset (tab_vals t) = add_mset v (mset (tab_vals (tab_remove k t)))"
proof (induction t)
  case (Cons e t)
  obtain a b where e: "e = (a, b)" by (cases e)
  have t: "tab_ok t" using Cons.prems by (simp add: tab_ok_def)
  show ?case
  proof (cases "a = k")
    case True
    have "tab_get t k = None"
      using Cons.prems(1) e True by (auto simp: tab_ok_def tab_get_def map_of_eq_None_iff)
    then have "tab_remove k t = t" by (rule tab_remove_absent)
    then show ?thesis using Cons.prems(2) e True by (simp add: tab_get_def tab_vals_def tab_remove_def)
  next
    case False
    then have "tab_get t k = Some v" using Cons.prems(2) e by (simp add: tab_get_def)
    from Cons.IH [OF t this] show ?thesis using False e by (simp add: tab_vals_def tab_remove_def)
  qed
qed simp

section \<open>The interface the bridge and the adapter rely on\<close>

locale keyed_store =
  fixes ok :: "'t \<Rightarrow> bool"
    and get :: "'t \<Rightarrow> 'k \<Rightarrow> 'v option"
    and put :: "'k \<Rightarrow> 'v \<Rightarrow> 't \<Rightarrow> 't"
    and drop_key :: "'k \<Rightarrow> 't \<Rightarrow> 't"
    and contents :: "'t \<Rightarrow> 'v list"
  assumes put_ok: "ok t \<Longrightarrow> ok (put k v t)"
    and drop_ok: "ok t \<Longrightarrow> ok (drop_key k t)"
    and get_put: "ok t \<Longrightarrow> get (put k v t) k' = (if k' = k then Some v else get t k')"
    and get_drop: "ok t \<Longrightarrow> get (drop_key k t) k' = (if k' = k then None else get t k')"
    and contents_put: "ok t \<Longrightarrow> get t k = None \<Longrightarrow> mset (contents (put k v t)) = add_mset v (mset (contents t))"
    and contents_drop: "ok t \<Longrightarrow> get t k = Some v
      \<Longrightarrow> mset (contents t) = add_mset v (mset (contents (drop_key k t)))"
begin

text \<open>Every entry filed under the key its value carries: the store is an index of its values.\<close>

definition indexed_by :: "('v \<Rightarrow> 'k) \<Rightarrow> 't \<Rightarrow> bool" where
  "indexed_by key t \<longleftrightarrow> (\<forall>k v. get t k = Some v \<longrightarrow> k = key v)"

lemma indexed_put: "ok t \<Longrightarrow> indexed_by key t \<Longrightarrow> key v = k \<Longrightarrow> indexed_by key (put k v t)"
  by (auto simp: indexed_by_def get_put split: if_splits)

lemma indexed_drop: "ok t \<Longrightarrow> indexed_by key t \<Longrightarrow> indexed_by key (drop_key k t)"
  by (auto simp: indexed_by_def get_drop split: if_splits)

text \<open>Filing a value and taking it back later leaves the contents as they were.\<close>

lemma put_then_drop:
  assumes "ok t" "get t k = None"
  shows "mset (contents (drop_key k (put k v t))) = mset (contents t)"
proof -
  have "get (put k v t) k = Some v" using assms(1) by (simp add: get_put)
  from contents_drop [OF put_ok [OF assms(1)] this] contents_put [OF assms]
  show ?thesis by simp
qed

end

interpretation btree: keyed_store tab_ok tab_get tab_insert tab_remove tab_vals
  by unfold_locales
    (simp_all add: tab_ok_insert tab_ok_remove tab_get_insert tab_get_remove mset_vals_insert
      mset_vals_remove)

end
