(* ===== verification/Bridge_Frame.thy ===== *)
theory Bridge_Frame
  imports Wire_Validate Menu_Ids
begin

text \<open>
  The frames of the Zellij bridge: the correlation scalars and generic envelopes of
  \<open>muxe-protocol/src/bridge.rs\<close>, the channel generation of \<open>muxe-zellij-protocol/src/ids.rs\<close>, the
  payloads, validators and line codec of \<open>muxe-zellij-protocol/src/pipe.rs\<close>, and the bounded
  texts of \<open>muxe-protocol/src/text.rs\<close>.

  The JSON serializer is third-party and an argument of the line codec, as are the decoded forms
  of the generated command inventory (the type variable \<open>'c\<close>). The uninhabited host extensions
  are the last type variable of the generic types; the validators refuse them, as in the source.
\<close>

section \<open>Bounded text\<close>

text \<open>\<open>str::is_char_boundary\<close>: a byte position between two encoded characters, or an end.\<close>

definition is_char_boundary :: "str \<Rightarrow> nat \<Rightarrow> bool" where
  "is_char_boundary t i \<longleftrightarrow> list_ex (\<lambda>n. str_len (take n t) = i) [0..<Suc (length t)]"

lemma str_len_simps [simp]:
  "str_len [] = 0" "str_len (c # t) = length (encode_utf8 c) + str_len t"
  "str_len (s @ t) = str_len s + str_len t"
  by (simp_all add: str_len_def)

lemma is_char_boundary_iff: "is_char_boundary t i \<longleftrightarrow> (\<exists>n \<le> length t. str_len (take n t) = i)"
  by (auto simp: is_char_boundary_def list_ex_iff less_Suc_eq_le simp del: upt_Suc)

lemma boundary_0: "is_char_boundary t 0"
  unfolding is_char_boundary_iff by (rule exI [of _ 0]) simp

function floor_boundary :: "str \<Rightarrow> nat \<Rightarrow> nat" where
  "floor_boundary t i = (if is_char_boundary t i then i else floor_boundary t (i - 1))"
  by auto
termination
proof (relation "measure snd")
  fix t i assume "\<not> is_char_boundary t i"
  then have "0 < i" using boundary_0 by (cases i) auto
  then show "((t, i - 1), t, i) \<in> measure snd" by simp
qed simp

declare floor_boundary.simps [simp del]

text \<open>\<open>String::truncate\<close> at a character boundary.\<close>

fun keep_bytes :: "nat \<Rightarrow> str \<Rightarrow> str" where
  "keep_bytes k [] = []"
| "keep_bytes k (c # t) =
     (if length (encode_utf8 c) \<le> k then c # keep_bytes (k - length (encode_utf8 c)) t else [])"

definition truncate_utf8 :: "str \<Rightarrow> nat \<Rightarrow> str" where
  "truncate_utf8 t cap = (if str_len t \<le> cap then t else keep_bytes (floor_boundary t cap) t)"

lemma encode_utf8_nonempty [simp]: "encode_utf8 c \<noteq> []"
  by (simp add: encode_utf8_def)

lemma keep_bytes_prefix: "\<exists>n \<le> length t. keep_bytes k t = take n t"
proof (induction t arbitrary: k)
  case (Cons c t)
  obtain n where "n \<le> length t" "keep_bytes (k - length (encode_utf8 c)) t = take n t"
    using Cons.IH by blast
  then show ?case by (cases "length (encode_utf8 c) \<le> k") (auto intro: exI [of _ "Suc n"] exI [of _ 0])
qed simp

lemma keep_bytes_len: "str_len (keep_bytes k t) \<le> k"
proof (induction t arbitrary: k)
  case (Cons c t)
  show ?case using Cons.IH [of "k - length (encode_utf8 c)"] by auto
qed simp

lemma keep_bytes_all: "str_len t \<le> k \<Longrightarrow> keep_bytes k t = t"
  by (induction t arbitrary: k) auto

text \<open>The kept prefix is the longest one within the bound.\<close>

lemma keep_bytes_longest: "str_len (take n t) \<le> k \<Longrightarrow> str_len (take n t) \<le> str_len (keep_bytes k t)"
proof (induction t arbitrary: n k)
  case (Cons c t)
  then show ?case
  proof (cases n)
    case (Suc m)
    then have c: "length (encode_utf8 c) + str_len (take m t) \<le> k" using Cons.prems by simp
    then have "str_len (take m t) \<le> str_len (keep_bytes (k - length (encode_utf8 c)) t)"
      by (intro Cons.IH) simp
    then show ?thesis using Suc c by simp
  qed simp
qed simp

lemma floor_boundary_keep: "floor_boundary t i = str_len (keep_bytes i t)"
proof (induction t i rule: floor_boundary.induct)
  case (1 t i)
  obtain n where n: "n \<le> length t" "keep_bytes i t = take n t" using keep_bytes_prefix by blast
  show ?case
  proof (cases "is_char_boundary t i")
    case True
    then obtain m where "str_len (take m t) = i" by (auto simp: is_char_boundary_iff)
    then have "i \<le> str_len (keep_bytes i t)" using keep_bytes_longest [of m t i] by simp
    then show ?thesis using True keep_bytes_len [of i t] by (simp add: floor_boundary.simps [of t i])
  next
    case False
    then have "str_len (keep_bytes i t) \<noteq> i"
      using n by (auto simp: is_char_boundary_iff)
    then have "str_len (keep_bytes i t) \<le> i - 1" using keep_bytes_len [of i t] by simp
    then have "str_len (keep_bytes i t) \<le> str_len (keep_bytes (i - 1) t)"
      using keep_bytes_longest [of n t "i - 1"] n by simp
    moreover obtain m where "keep_bytes (i - 1) t = take m t" using keep_bytes_prefix by blast
    then have "str_len (keep_bytes (i - 1) t) \<le> str_len (keep_bytes i t)"
      using keep_bytes_longest [of m t i] keep_bytes_len [of "i - 1" t] by simp
    ultimately show ?thesis using False 1 by (simp add: floor_boundary.simps [of t i])
  qed
qed

lemma keep_bytes_own_len: "keep_bytes (str_len (keep_bytes k t)) t = keep_bytes k t"
  by (induction t arbitrary: k) auto

lemma truncate_utf8_keep: "truncate_utf8 t cap = keep_bytes cap t"
  by (simp add: truncate_utf8_def floor_boundary_keep keep_bytes_own_len keep_bytes_all)

lemma truncate_utf8_len [simp]: "str_len (truncate_utf8 t cap) \<le> cap"
  unfolding truncate_utf8_keep by (rule keep_bytes_len)

lemma truncate_utf8_noop [simp]: "str_len t \<le> cap \<Longrightarrow> truncate_utf8 t cap = t"
  by (simp add: truncate_utf8_def)

section \<open>Correlation scalars\<close>

datatype scalar_error =
    ZeroRequestId | ZeroChannelGeneration | CounterExhausted string | NilRegistration
  | InvalidRegistration str

datatype protocol_version = ProtocolVersion u16
datatype bridge_request_id = BridgeRequestId u64
datatype registration_id = RegistrationId nonce
datatype channel_generation = ChannelGeneration u64

definition PROTOCOL_CURRENT :: protocol_version where
  "PROTOCOL_CURRENT = ProtocolVersion 1"

definition REQUEST_INITIAL :: bridge_request_id where
  "REQUEST_INITIAL = BridgeRequestId 1"

definition GENERATION_INITIAL :: channel_generation where
  "GENERATION_INITIAL = ChannelGeneration 1"

definition protocol_is_current :: "protocol_version \<Rightarrow> bool" where
  "protocol_is_current v \<longleftrightarrow> v = PROTOCOL_CURRENT"

definition request_id_try_from :: "u64 \<Rightarrow> scalar_error + bridge_request_id" where
  "request_id_try_from v = (if v = 0 then Inl ZeroRequestId else Inr (BridgeRequestId v))"

definition generation_try_from :: "u64 \<Rightarrow> scalar_error + channel_generation" where
  "generation_try_from v = (if v = 0 then Inl ZeroChannelGeneration else Inr (ChannelGeneration v))"

text \<open>\<open>checked_add(1)\<close>: the counters end at the largest value instead of wrapping.\<close>

fun request_id_next :: "bridge_request_id \<Rightarrow> scalar_error + bridge_request_id" where
  "request_id_next (BridgeRequestId n) =
     (if n = - 1 then Inl (CounterExhausted ''request ID'') else Inr (BridgeRequestId (n + 1)))"

fun generation_advance :: "channel_generation \<Rightarrow> scalar_error + channel_generation" where
  "generation_advance (ChannelGeneration n) =
     (if n = - 1 then Inl (CounterExhausted ''channel generation'') else Inr (ChannelGeneration (n + 1)))"

definition registration_from_random :: "nonce \<Rightarrow> scalar_error + registration_id" where
  "registration_from_random b = (if b = 0 then Inl NilRegistration else Inr (RegistrationId b))"

fun request_number :: "bridge_request_id \<Rightarrow> nat" where
  "request_number (BridgeRequestId n) = unat n"

lemma request_id_next_number: "request_id_next r = Inr r' \<Longrightarrow> request_number r' = Suc (request_number r)"
proof (cases r)
  case (BridgeRequestId n)
  assume "request_id_next r = Inr r'"
  then have "n \<noteq> - 1" "r' = BridgeRequestId (n + 1)" using BridgeRequestId by (auto split: if_splits)
  moreover from this have "1 + n \<noteq> 0" by (simp add: eq_neg_iff_add_eq_0 add.commute)
  ultimately show ?thesis using BridgeRequestId unatSuc [of n] by (simp add: add.commute)
qed

section \<open>Envelopes and payloads\<close>

datatype capture_end_reason =
    EndUiDismissed | EndReplaced | EndLeaseExpired | EndUserModeChanged | EndAdapterShutdown

datatype capture_lost_reason =
    LostUserModeChanged | LostBridgeUnloading | LostAdapterHealth | LostBrokerLeaseExpired

datatype ('d, 'o, 'h) bridge_request =
    BrDispatch wire_execution_id 'd
  | BrBeginCapture capture_lease_id ui_session_id
  | BrEndCapture capture_lease_id capture_end_reason
  | BrRequestOrigin ui_session_id 'o
  | BrRetire
  | BrShutdown
  | BrRenewCapture capture_lease_id
  | BrHost 'h

datatype ('d, 'o, 'c, 'h) bridge_response =
    RequestReleased
  | DispatchAccepted wire_execution_id
  | DispatchCompleted wire_execution_id 'd
  | OriginSnapshot ui_session_id 'o
  | OriginDeclined ui_session_id
  | CaptureReady capture_lease_id 'c
  | ResponseHost 'h

datatype ('r, 'h) bridge_event =
    EvRegister 'r
  | EvCaptureLost capture_lease_id capture_lost_reason
  | EvHeartbeat
  | EvHealth "str option"
  | EvHost 'h

record ('g, 't, 'p) request_envelope =
  rq_protocol :: protocol_version
  rq_request_id :: bridge_request_id
  rq_registration :: registration_id
  rq_generation :: 'g
  rq_target :: 't
  rq_payload :: 'p

record ('g, 'p) event_envelope =
  ev_protocol :: protocol_version
  ev_request_id :: "bridge_request_id option"
  ev_registration :: registration_id
  ev_generation :: 'g
  ev_event :: 'p

datatype ('r, 'e) bridge_output = OutResponse 'r | OutEvent 'e

text \<open>The Zellij instances of the generic types.\<close>

datatype neighbor_direction = DirLeft | DirRight | DirUp | DirDown

datatype 'c zellij_dispatch =
    DispatchCommand 'c
  | FocusPaneByIndex u32
  | FocusPaneNeighbor neighbor_direction
  | PostDismissalCreation str str 'c

text \<open>A 32-byte fingerprint is the word of its bytes.\<close>

type_synonym bytes32 = "256 word"

record bridge_identity =
  bi_muxe_version :: str
  bi_source_revision :: str
  bi_action_fingerprint :: bytes32
  bi_protocol_fingerprint :: bytes32
  bi_build_id :: "bytes32 option"

record zellij_registration =
  zr_client_id :: str
  zr_current_pane :: "str option"
  zr_plugin_id :: "u32 option"
  zr_identity :: bridge_identity

datatype command_status = StatusSucceeded | StatusFailed | StatusOutcomeUnknown

record command_outcome =
  oc_status :: command_status
  oc_detail :: str

record zellij_origin =
  zo_client_id :: str
  zo_session_name :: "str option"
  zo_active_tab_index :: "u64 option"
  zo_active_tab_id :: "u64 option"
  zo_prior_pane_id :: "str option"
  zo_ui_pane_id :: str
  zo_prior_pane_cwd :: "str option"
  zo_prior_pane_is_plugin :: "bool option"

text \<open>
  \<open>ZellijOriginRequest\<close> and \<open>ZellijCaptureState\<close> have one text field each and are that text, as
  is \<open>BridgeTarget\<close>.
\<close>

datatype origin_request = OriginRequest (origin_ui_pane: str)
datatype capture_state = CaptureState (prior_mode: str)
datatype bridge_target = BridgeTarget (target_client: str)

type_synonym ('c, 'h) zellij_request = "('c zellij_dispatch, origin_request, 'h) bridge_request"
type_synonym 'h zellij_response = "(command_outcome, zellij_origin, capture_state, 'h) bridge_response"
type_synonym 'h zellij_event = "(zellij_registration, 'h) bridge_event"
type_synonym ('c, 'h) pipe_request = "(channel_generation, bridge_target, ('c, 'h) zellij_request) request_envelope"
type_synonym 'h pipe_event_kind = "('h zellij_response, 'h zellij_event) bridge_output"
type_synonym 'h pipe_event = "(channel_generation, 'h pipe_event_kind) event_envelope"

record event_subscription =
  es_protocol :: protocol_version
  es_generation :: channel_generation

definition new_subscription :: "channel_generation \<Rightarrow> event_subscription" where
  "new_subscription g = \<lparr>es_protocol = PROTOCOL_CURRENT, es_generation = g\<rparr>"

definition MAX_PIPE_LINE_LEN :: nat where
  "MAX_PIPE_LINE_LEN = 64 * 1024"

definition MAX_DETAIL_LEN :: nat where
  "MAX_DETAIL_LEN = 4 * 1024"

definition outcome_succeeded :: command_outcome where
  "outcome_succeeded = \<lparr>oc_status = StatusSucceeded, oc_detail = []\<rparr>"

definition outcome_failed :: "str \<Rightarrow> command_outcome" where
  "outcome_failed detail = \<lparr>oc_status = StatusFailed, oc_detail = truncate_utf8 detail MAX_DETAIL_LEN\<rparr>"

definition outcome_unknown :: "str \<Rightarrow> command_outcome" where
  "outcome_unknown detail = (outcome_failed detail)\<lparr>oc_status := StatusOutcomeUnknown\<rparr>"

section \<open>Validation\<close>

text \<open>
  The reasons are values; the texts the source formats from them are presentation.
\<close>

datatype pipe_reason =
    UnsupportedProtocol protocol_version
  | FieldEmpty string
  | FieldTooLong string
  | CommonInvalid semantic_error
  | DetailTooLong
  | RelativeCwd
  | ZeroFingerprint
  | ZeroBuildId
  | MissingRequestId
  | UnexpectedRequestId
  | HealthNotPermitted
  | UnsupportedExtension string

datatype encode_reason = Serializer str | EncodedTooLong

datatype pipe_error =
    LineTooLong nat
  | InvalidFrame str
  | PipeValidation pipe_reason
  | PipeEncode encode_reason

type_synonym pipe_check = "pipe_error + unit"

definition invalid :: "pipe_reason \<Rightarrow> pipe_error + 'a" where
  "invalid r = Inl (PipeValidation r)"

definition require_non_empty :: "string \<Rightarrow> str \<Rightarrow> pipe_check" where
  "require_non_empty field v =
     (if v = [] then invalid (FieldEmpty field)
      else if MAX_DETAIL_LEN < str_len v then invalid (FieldTooLong field)
      else Inr ())"

definition validate_common :: "check \<Rightarrow> pipe_check" where
  "validate_common c = (case c of Inl e \<Rightarrow> invalid (CommonInvalid e) | Inr _ \<Rightarrow> Inr ())"

fun validate_execution :: "wire_execution_id \<Rightarrow> pipe_check" where
  "validate_execution (WireExecutionId n) = validate_common (validate_nonce ''ExecutionId'' n)"

fun validate_lease :: "capture_lease_id \<Rightarrow> pipe_check" where
  "validate_lease (CaptureLeaseId n) = validate_common (validate_nonce ''CaptureLeaseId'' n)"

definition validate_session :: "ui_session_id \<Rightarrow> pipe_check" where
  "validate_session u = validate_common (validate_ui_session_id u)"

fun validate_bridge_request :: "('c, 'h) zellij_request \<Rightarrow> pipe_check" where
  "validate_bridge_request (BrDispatch execution _) = validate_execution execution"
| "validate_bridge_request (BrBeginCapture lease ui) =
     rbind (validate_lease lease) (\<lambda>_. validate_session ui)"
| "validate_bridge_request (BrEndCapture lease _) = validate_lease lease"
| "validate_bridge_request (BrRenewCapture lease) = validate_lease lease"
| "validate_bridge_request (BrRequestOrigin ui request) =
     rbind (validate_session ui) (\<lambda>_. require_non_empty ''UI pane'' (origin_ui_pane request))"
| "validate_bridge_request BrRetire = Inr ()"
| "validate_bridge_request BrShutdown = Inr ()"
| "validate_bridge_request (BrHost _) = invalid (UnsupportedExtension ''request'')"

definition validate_pipe_request :: "('c, 'h) pipe_request \<Rightarrow> pipe_check" where
  "validate_pipe_request r =
     (if rq_protocol r \<noteq> PROTOCOL_CURRENT then invalid (UnsupportedProtocol (rq_protocol r))
      else rbind (require_non_empty ''target client ID'' (target_client (rq_target r)))
             (\<lambda>_. validate_bridge_request (rq_payload r)))"

definition validate_identity :: "bridge_identity \<Rightarrow> pipe_check" where
  "validate_identity i =
     rbind (require_non_empty ''Muxe version'' (bi_muxe_version i)) (\<lambda>_.
     rbind (require_non_empty ''Zellij source revision'' (bi_source_revision i)) (\<lambda>_.
       if bi_action_fingerprint i = 0 \<or> bi_protocol_fingerprint i = 0 then invalid ZeroFingerprint
       else if bi_build_id i = Some 0 then invalid ZeroBuildId
       else Inr ()))"

definition validate_origin_snapshot :: "zellij_origin \<Rightarrow> pipe_check" where
  "validate_origin_snapshot z =
     rbind (require_non_empty ''origin client ID'' (zo_client_id z)) (\<lambda>_.
     rbind (require_non_empty ''UI pane ID'' (zo_ui_pane_id z)) (\<lambda>_.
       case zo_prior_pane_cwd z of
         Some cwd \<Rightarrow> if starts_with_slash cwd then Inr () else invalid RelativeCwd
       | None \<Rightarrow> Inr ()))"

fun validate_bridge_response :: "'h zellij_response \<Rightarrow> pipe_check" where
  "validate_bridge_response RequestReleased = Inr ()"
| "validate_bridge_response (DispatchAccepted execution) = validate_execution execution"
| "validate_bridge_response (DispatchCompleted execution oc) =
     rbind (validate_execution execution)
       (\<lambda>_. if MAX_DETAIL_LEN < str_len (oc_detail oc) then invalid DetailTooLong else Inr ())"
| "validate_bridge_response (OriginSnapshot ui z) =
     rbind (validate_session ui) (\<lambda>_. validate_origin_snapshot z)"
| "validate_bridge_response (OriginDeclined ui) = validate_session ui"
| "validate_bridge_response (CaptureReady lease state) =
     rbind (validate_lease lease) (\<lambda>_. require_non_empty ''prior input mode'' (prior_mode state))"
| "validate_bridge_response (ResponseHost _) = invalid (UnsupportedExtension ''response'')"

fun validate_bridge_event :: "'h zellij_event \<Rightarrow> pipe_check" where
  "validate_bridge_event (EvRegister registration) =
     rbind (require_non_empty ''client ID'' (zr_client_id registration))
       (\<lambda>_. validate_identity (zr_identity registration))"
| "validate_bridge_event (EvCaptureLost lease _) = validate_lease lease"
| "validate_bridge_event EvHeartbeat = Inr ()"
| "validate_bridge_event (EvHealth _) = invalid HealthNotPermitted"
| "validate_bridge_event (EvHost _) = invalid (UnsupportedExtension ''event'')"

definition validate_pipe_event :: "'h pipe_event \<Rightarrow> pipe_check" where
  "validate_pipe_event f =
     (if ev_protocol f \<noteq> PROTOCOL_CURRENT then invalid (UnsupportedProtocol (ev_protocol f))
      else case ev_event f of
        OutResponse response \<Rightarrow>
          if ev_request_id f = None then invalid MissingRequestId
          else validate_bridge_response response
      | OutEvent event \<Rightarrow>
          if ev_request_id f \<noteq> None then invalid UnexpectedRequestId
          else validate_bridge_event event)"

section \<open>Lines\<close>

definition bounded_reason :: "str \<Rightarrow> str" where
  "bounded_reason message = truncate_utf8 message MAX_DETAIL_LEN"

definition encode_line :: "('f \<Rightarrow> str + str) \<Rightarrow> 'f \<Rightarrow> pipe_error + str" where
  "encode_line to_json frame =
     (case to_json frame of
        Inl error \<Rightarrow> Inl (PipeEncode (Serializer (bounded_reason error)))
      | Inr json \<Rightarrow>
          (let line = json @ [0x0a] in
           if MAX_PIPE_LINE_LEN < str_len line then Inl (PipeEncode EncodedTooLong) else Inr line))"

definition check_line_bound :: "str \<Rightarrow> pipe_check" where
  "check_line_bound line =
     (if MAX_PIPE_LINE_LEN < str_len line then Inl (LineTooLong (str_len line)) else Inr ())"

definition decode_line :: "(str \<Rightarrow> str + 'f) \<Rightarrow> ('f \<Rightarrow> pipe_check) \<Rightarrow> str \<Rightarrow> pipe_error + 'f" where
  "decode_line from_json validate line =
     rbind (check_line_bound line) (\<lambda>_.
       case from_json line of
         Inl error \<Rightarrow> Inl (InvalidFrame (bounded_reason error))
       | Inr frame \<Rightarrow> rbind (validate frame) (\<lambda>_. Inr frame))"

definition decode_request_line ::
  "(str \<Rightarrow> str + ('c, 'h) pipe_request) \<Rightarrow> str \<Rightarrow> pipe_error + ('c, 'h) pipe_request" where
  "decode_request_line from_json = decode_line from_json validate_pipe_request"

definition decode_event_line ::
  "(str \<Rightarrow> str + 'h pipe_event) \<Rightarrow> str \<Rightarrow> pipe_error + 'h pipe_event" where
  "decode_event_line from_json = decode_line from_json validate_pipe_event"

definition decode_event_subscription ::
  "(str \<Rightarrow> str + event_subscription) \<Rightarrow> str \<Rightarrow> pipe_error + event_subscription" where
  "decode_event_subscription from_json payload =
     (case from_json payload of
        Inl error \<Rightarrow> Inl (InvalidFrame (bounded_reason error))
      | Inr s \<Rightarrow> if protocol_is_current (es_protocol s) then Inr s
                else invalid (UnsupportedProtocol (es_protocol s)))"

end
