(* ===== verification/Bridge_Focus.thy ===== *)
theory Bridge_Focus
  imports Ordered_Table Bridge_Frame "HOL-Library.Product_Lexorder"
begin

text \<open>
  \<open>muxe-zellij-wasm/src/focus.rs\<close>: the tracked panes of the tabs and the two focus operations the
  bridge resolves itself. The bridge is a \<open>wasm32\<close> plugin, so \<open>usize\<close> is a 32-bit word; sums
  written with \<open>+\<close> wrap, as in the release build, and the others saturate.
\<close>

section \<open>Panes and their geometry\<close>

datatype pane_id = TerminalPane u32 | PluginPane u32

type_synonym usize = u32

definition usize_max :: usize where
  "usize_max = - 1"

definition saturating_add :: "usize \<Rightarrow> usize \<Rightarrow> usize" where
  "saturating_add a b = (if unat a + unat b < 2 ^ 32 then a + b else usize_max)"

definition saturating_sub :: "usize \<Rightarrow> usize \<Rightarrow> usize" where
  "saturating_sub a b = (if b \<le> a then a - b else 0)"

definition saturating_mul :: "usize \<Rightarrow> usize \<Rightarrow> usize" where
  "saturating_mul a b = (if unat a * unat b < 2 ^ 32 then a * b else usize_max)"

definition abs_diff :: "usize \<Rightarrow> usize \<Rightarrow> usize" where
  "abs_diff a b = (if a \<le> b then b - a else a - b)"

text \<open>\<open>TabPosition\<close> and \<open>StableTabId\<close> both hold a \<open>usize\<close> and are kept apart by their types.\<close>

datatype tab_position = TabPosition (position_index: usize)
datatype stable_tab_id = StableTabId (tab_number: usize)

instantiation tab_position :: linorder
begin

definition less_eq_tab_position :: "tab_position \<Rightarrow> tab_position \<Rightarrow> bool" where
  "a \<le> b \<longleftrightarrow> position_index a \<le> position_index b"

definition less_tab_position :: "tab_position \<Rightarrow> tab_position \<Rightarrow> bool" where
  "a < b \<longleftrightarrow> position_index a < position_index b"

instance
  by intro_classes (auto simp: less_eq_tab_position_def less_tab_position_def tab_position.expand)

end

text \<open>\<open>u64::try_from\<close> of a \<open>usize\<close> succeeds on every platform of at most 64 bits.\<close>

definition wire_index :: "tab_position \<Rightarrow> u64 option" where
  "wire_index t = Some (ucast (position_index t))"

definition wire_tab_id :: "stable_tab_id \<Rightarrow> u64 option" where
  "wire_tab_id t = Some (ucast (tab_number t))"

record pane_geometry =
  pg_id :: pane_id
  pg_x :: usize
  pg_y :: usize
  pg_columns :: usize
  pg_rows :: usize

definition pg_right :: "pane_geometry \<Rightarrow> usize" where
  "pg_right p = saturating_add (pg_x p) (pg_columns p)"

definition pg_bottom :: "pane_geometry \<Rightarrow> usize" where
  "pg_bottom p = saturating_add (pg_y p) (pg_rows p)"

definition overlap_y :: "pane_geometry \<Rightarrow> pane_geometry \<Rightarrow> usize" where
  "overlap_y p q = saturating_sub (min (pg_bottom p) (pg_bottom q)) (max (pg_y p) (pg_y q))"

definition overlap_x :: "pane_geometry \<Rightarrow> pane_geometry \<Rightarrow> usize" where
  "overlap_x p q = saturating_sub (min (pg_right p) (pg_right q)) (max (pg_x p) (pg_x q))"

definition distance2 :: "pane_geometry \<Rightarrow> pane_geometry \<Rightarrow> usize" where
  "distance2 p q =
     (let dx = abs_diff (saturating_add (pg_x p) (pg_columns p div 2)) (pg_x q + pg_columns q div 2);
          dy = abs_diff (saturating_add (pg_y p) (pg_rows p div 2)) (pg_y q + pg_rows q div 2)
      in saturating_add (saturating_mul dx dx) (saturating_mul dy dy))"

section \<open>The inventory\<close>

record pane_inventory =
  pi_panes :: "(tab_position, pane_geometry list) table"
  pi_active_tab :: "tab_position option"
  pi_active_tab_id :: "stable_tab_id option"

definition new_inventory :: pane_inventory where
  "new_inventory = \<lparr>pi_panes = [], pi_active_tab = None, pi_active_tab_id = None\<rparr>"

definition set_manifest :: "(tab_position, pane_geometry list) table \<Rightarrow> pane_inventory \<Rightarrow> pane_inventory" where
  "set_manifest panes iv = iv\<lparr>pi_panes := panes\<rparr>"

definition set_active_tab_with_id ::
  "tab_position option \<Rightarrow> stable_tab_id option \<Rightarrow> pane_inventory \<Rightarrow> pane_inventory" where
  "set_active_tab_with_id position tab iv = iv\<lparr>pi_active_tab := position, pi_active_tab_id := tab\<rparr>"

definition has_manifest :: "pane_inventory \<Rightarrow> bool" where
  "has_manifest iv \<longleftrightarrow> pi_panes iv \<noteq> []"

definition active_panes :: "pane_inventory \<Rightarrow> pane_geometry list option" where
  "active_panes iv = Option.bind (pi_active_tab iv) (tab_get (pi_panes iv))"

definition origin_tab :: "pane_inventory \<Rightarrow> pane_geometry \<Rightarrow> pane_geometry list option" where
  "origin_tab iv origin = find (\<lambda>panes. origin \<in> set panes) (tab_vals (pi_panes iv))"

definition nth_opt :: "'a list \<Rightarrow> nat \<Rightarrow> 'a option" where
  "nth_opt xs n = (if n < length xs then Some (xs ! n) else None)"

definition pane_at :: "pane_inventory \<Rightarrow> u32 \<Rightarrow> (pane_geometry \<Rightarrow> bool) \<Rightarrow> pane_geometry option" where
  "pane_at iv index eligible =
     Option.bind (active_panes iv) (\<lambda>panes. nth_opt (filter eligible panes) (unat index))"

definition find_pane :: "pane_inventory \<Rightarrow> pane_id \<Rightarrow> pane_geometry option" where
  "find_pane iv p = find (\<lambda>g. pg_id g = p) (concat (tab_vals (pi_panes iv)))"

definition contains_pane :: "pane_inventory \<Rightarrow> pane_id \<Rightarrow> bool" where
  "contains_pane iv p \<longleftrightarrow> find_pane iv p \<noteq> None"

section \<open>The nearest neighbor\<close>

text \<open>Ranks are pairs and compare lexicographically, as tuples do in Rust.\<close>

fun separated :: "neighbor_direction \<Rightarrow> pane_geometry \<Rightarrow> pane_geometry \<Rightarrow> bool" where
  "separated DirLeft base c \<longleftrightarrow> pg_right c \<le> pg_x base"
| "separated DirRight base c \<longleftrightarrow> pg_right base \<le> pg_x c"
| "separated DirUp base c \<longleftrightarrow> pg_bottom c \<le> pg_y base"
| "separated DirDown base c \<longleftrightarrow> pg_bottom base \<le> pg_y c"

fun edge_overlap :: "neighbor_direction \<Rightarrow> pane_geometry \<Rightarrow> pane_geometry \<Rightarrow> usize" where
  "edge_overlap DirLeft base c = overlap_y base c"
| "edge_overlap DirRight base c = overlap_y base c"
| "edge_overlap DirUp base c = overlap_x base c"
| "edge_overlap DirDown base c = overlap_x base c"

type_synonym rank = "usize \<times> usize"

definition rank_of :: "neighbor_direction \<Rightarrow> pane_geometry \<Rightarrow> pane_geometry \<Rightarrow> rank" where
  "rank_of d base c = (edge_overlap d base c, usize_max - distance2 base c)"

definition neighbor_step ::
  "neighbor_direction \<Rightarrow> pane_geometry \<Rightarrow> (rank \<times> pane_geometry) option \<Rightarrow> pane_geometry
   \<Rightarrow> (rank \<times> pane_geometry) option" where
  "neighbor_step d base best c =
     (if pg_id c = pg_id base then best
      else if \<not> separated d base c then best
      else (let r = rank_of d base c in
            case best of
              None \<Rightarrow> Some (r, c)
            | Some (b, _) \<Rightarrow> if b < r then Some (r, c) else best))"

definition neighbor ::
  "pane_inventory \<Rightarrow> pane_geometry \<Rightarrow> neighbor_direction \<Rightarrow> (pane_geometry \<Rightarrow> bool) \<Rightarrow> pane_geometry option" where
  "neighbor iv base d eligible =
     Option.bind (origin_tab iv base) (\<lambda>panes.
       map_option snd (foldl (neighbor_step d base) None (filter eligible panes)))"

section \<open>The chosen neighbor is the best candidate\<close>

definition candidate :: "neighbor_direction \<Rightarrow> pane_geometry \<Rightarrow> (pane_geometry \<Rightarrow> bool) \<Rightarrow> pane_geometry \<Rightarrow> bool" where
  "candidate d base eligible c \<longleftrightarrow> eligible c \<and> pg_id c \<noteq> pg_id base \<and> separated d base c"

text \<open>Keeping the first of the largest elements.\<close>

definition keep_best :: "('a \<Rightarrow> 'r::linorder) \<Rightarrow> 'a option \<Rightarrow> 'a \<Rightarrow> 'a option" where
  "keep_best f best c =
     (case best of None \<Rightarrow> Some c | Some p \<Rightarrow> if f p < f c then Some c else best)"

lemma keep_best_None: "foldl (keep_best f) None cs = None \<longleftrightarrow> cs = []"
proof (cases cs rule: rev_cases)
  case (snoc cs c)
  then show ?thesis by (simp add: keep_best_def split: option.splits)
qed simp

definition first_best :: "('a \<Rightarrow> 'r::linorder) \<Rightarrow> 'a list \<Rightarrow> 'a \<Rightarrow> bool" where
  "first_best f cs p \<longleftrightarrow> (\<exists>before after. cs = before @ p # after
     \<and> list_all (\<lambda>c. f c < f p) before \<and> list_all (\<lambda>c. f c \<le> f p) after)"

lemma first_best_snoc:
  "first_best f (cs @ [c]) p \<longleftrightarrow>
     first_best f cs p \<and> f c \<le> f p \<or> p = c \<and> list_all (\<lambda>x. f x < f c) cs"
proof
  assume "first_best f (cs @ [c]) p"
  then obtain before after where *: "cs @ [c] = before @ p # after"
    "list_all (\<lambda>c. f c < f p) before" "list_all (\<lambda>c. f c \<le> f p) after"
    unfolding first_best_def by blast
  show "first_best f cs p \<and> f c \<le> f p \<or> p = c \<and> list_all (\<lambda>x. f x < f c) cs"
  proof (cases after rule: rev_cases)
    case Nil
    then show ?thesis using * by simp
  next
    case (snoc after' c')
    then have "cs = before @ p # after'" "c' = c" using *(1) by simp_all
    then show ?thesis using * snoc by (auto simp: first_best_def)
  qed
next
  assume "first_best f cs p \<and> f c \<le> f p \<or> p = c \<and> list_all (\<lambda>x. f x < f c) cs"
  then show "first_best f (cs @ [c]) p"
  proof
    assume "first_best f cs p \<and> f c \<le> f p"
    then obtain before after where *: "cs = before @ p # after" "f c \<le> f p"
      "list_all (\<lambda>c. f c < f p) before" "list_all (\<lambda>c. f c \<le> f p) after"
      unfolding first_best_def by blast
    then show ?thesis unfolding first_best_def by (intro exI [of _ before] exI [of _ "after @ [c]"]) simp
  next
    assume "p = c \<and> list_all (\<lambda>x. f x < f c) cs"
    then show ?thesis unfolding first_best_def by (intro exI [of _ cs] exI [of _ "[]"]) simp
  qed
qed

lemma first_best_le: "first_best f cs p \<Longrightarrow> c \<in> set cs \<Longrightarrow> f c \<le> f p"
  by (auto simp: first_best_def list_all_iff less_imp_le)

lemma first_best_mem: "first_best f cs p \<Longrightarrow> p \<in> set cs"
  by (auto simp: first_best_def)

lemma first_best_unique: "first_best f cs p \<Longrightarrow> first_best f cs q \<Longrightarrow> p = q"
proof (induction cs rule: rev_induct)
  case (snoc c cs)
  then show ?case
    by (auto simp: first_best_snoc list_all_iff dest: first_best_mem leD)
qed (simp add: first_best_def)

lemma keep_best_iff: "foldl (keep_best f) None cs = Some p \<longleftrightarrow> first_best f cs p"
proof -
  have best: "first_best f cs p" if "foldl (keep_best f) None cs = Some p" for p
    using that
  proof (induction cs arbitrary: p rule: rev_induct)
    case (snoc c cs)
    show ?case
    proof (cases "foldl (keep_best f) None cs")
      case None
      then have "cs = []" by (simp add: keep_best_None)
      moreover from this have "p = c" using snoc.prems by (simp add: keep_best_def)
      ultimately show ?thesis using first_best_snoc [of f "[]" c c] by simp
    next
      case (Some q)
      then have q: "first_best f cs q" by (rule snoc.IH)
      have st: "keep_best f (Some q) c = Some p" using snoc.prems Some by simp
      show ?thesis
      proof (cases "f q < f c")
        case True
        then have "p = c" using st by (simp add: keep_best_def)
        moreover have "list_all (\<lambda>x. f x < f c) cs"
          using first_best_le [OF q] True by (auto simp: list_all_iff intro: le_less_trans)
        ultimately show ?thesis by (simp add: first_best_snoc)
      next
        case False
        then have "p = q" using st by (simp add: keep_best_def)
        moreover have "f c \<le> f q" using False by (rule leI)
        ultimately show ?thesis using q by (simp add: first_best_snoc)
      qed
    qed
  qed simp
  show ?thesis
  proof
    assume p: "first_best f cs p"
    then have "cs \<noteq> []" using first_best_mem [OF p] by auto
    then obtain q where q: "foldl (keep_best f) None cs = Some q" using keep_best_None [of f cs] by blast
    then show "foldl (keep_best f) None cs = Some p" using first_best_unique [OF p best [OF q]] by simp
  qed (rule best)
qed

lemma neighbor_fold:
  "map_option snd (foldl (neighbor_step d base) (map_option (\<lambda>p. (rank_of d base p, p)) best) (filter eligible cs))
   = foldl (keep_best (rank_of d base)) best (filter (candidate d base eligible) cs)"
proof (induction cs arbitrary: best)
  case (Cons c cs)
  have "neighbor_step d base (map_option (\<lambda>p. (rank_of d base p, p)) best) c =
      map_option (\<lambda>p. (rank_of d base p, p))
        (if pg_id c \<noteq> pg_id base \<and> separated d base c then keep_best (rank_of d base) best c else best)"
    by (cases best) (simp_all add: neighbor_step_def keep_best_def Let_def)
  then show ?case using Cons.IH by (simp add: candidate_def)
qed (simp add: option.map_comp comp_def option.map_ident)

lemma neighbor_iff:
  "neighbor iv base d eligible = Some p \<longleftrightarrow>
     (\<exists>panes. origin_tab iv base = Some panes
        \<and> first_best (rank_of d base) (filter (candidate d base eligible) panes) p)"
  using neighbor_fold [of d base None eligible]
  by (auto simp: neighbor_def bind_eq_Some_conv keep_best_iff)

section \<open>The geometry in cells\<close>

text \<open>
  On screens of up to \<open>2 ^ 14 - 1\<close> cells no sum saturates or wraps, and the ranks are those of
  the unbounded geometry: the cells two panes share along an edge, then the squared distance of
  their centers.
\<close>

definition CELLS :: int where
  "CELLS = 2 ^ 14"

definition small_pane :: "pane_geometry \<Rightarrow> bool" where
  "small_pane p \<longleftrightarrow> uint (pg_x p) < CELLS \<and> uint (pg_y p) < CELLS
     \<and> uint (pg_columns p) < CELLS \<and> uint (pg_rows p) < CELLS"

definition cells_right :: "pane_geometry \<Rightarrow> int" where
  "cells_right p = uint (pg_x p) + uint (pg_columns p)"

definition cells_bottom :: "pane_geometry \<Rightarrow> int" where
  "cells_bottom p = uint (pg_y p) + uint (pg_rows p)"

fun beyond :: "neighbor_direction \<Rightarrow> pane_geometry \<Rightarrow> pane_geometry \<Rightarrow> bool" where
  "beyond DirLeft base c \<longleftrightarrow> cells_right c \<le> uint (pg_x base)"
| "beyond DirRight base c \<longleftrightarrow> cells_right base \<le> uint (pg_x c)"
| "beyond DirUp base c \<longleftrightarrow> cells_bottom c \<le> uint (pg_y base)"
| "beyond DirDown base c \<longleftrightarrow> cells_bottom base \<le> uint (pg_y c)"

definition shared_rows :: "pane_geometry \<Rightarrow> pane_geometry \<Rightarrow> int" where
  "shared_rows p q = max 0 (min (cells_bottom p) (cells_bottom q) - max (uint (pg_y p)) (uint (pg_y q)))"

definition shared_columns :: "pane_geometry \<Rightarrow> pane_geometry \<Rightarrow> int" where
  "shared_columns p q = max 0 (min (cells_right p) (cells_right q) - max (uint (pg_x p)) (uint (pg_x q)))"

fun shared_edge :: "neighbor_direction \<Rightarrow> pane_geometry \<Rightarrow> pane_geometry \<Rightarrow> int" where
  "shared_edge DirLeft base c = shared_rows base c"
| "shared_edge DirRight base c = shared_rows base c"
| "shared_edge DirUp base c = shared_columns base c"
| "shared_edge DirDown base c = shared_columns base c"

definition center_x :: "pane_geometry \<Rightarrow> int" where
  "center_x p = uint (pg_x p) + uint (pg_columns p) div 2"

definition center_y :: "pane_geometry \<Rightarrow> int" where
  "center_y p = uint (pg_y p) + uint (pg_rows p) div 2"

definition center_distance :: "pane_geometry \<Rightarrow> pane_geometry \<Rightarrow> int" where
  "center_distance p q = (center_x p - center_x q)\<^sup>2 + (center_y p - center_y q)\<^sup>2"

lemma int_less_iff: "m < n \<longleftrightarrow> int m < int n"
  by simp

lemma uint_small_sum: "uint a + uint b < 2 ^ 32 \<Longrightarrow> uint (a + b :: usize) = uint a + uint b"
  using uint_plus_simple_iff uint_add_ge0 by (simp add: uint_word_ariths)

lemma uint_saturating_add: "uint a + uint b < 2 ^ 32 \<Longrightarrow> uint (saturating_add a b) = uint a + uint b"
  unfolding saturating_add_def int_less_iff of_nat_add of_nat_unat of_nat_power of_nat_numeral
  by (simp add: uint_word_ariths)

lemma uint_saturating_mul: "uint a * uint b < 2 ^ 32 \<Longrightarrow> uint (saturating_mul a b) = uint a * uint b"
  unfolding saturating_mul_def int_less_iff of_nat_mult of_nat_unat of_nat_power of_nat_numeral
  by (simp add: uint_word_ariths)

lemma uint_word_diff: "b \<le> a \<Longrightarrow> uint (a - b :: usize) = uint a - uint b"
  using uint_minus_simple_alt by blast

lemma uint_saturating_sub: "uint (saturating_sub a b) = max 0 (uint a - uint b)"
  by (auto simp: saturating_sub_def uint_word_diff word_le_def)

lemma uint_abs_diff: "uint (abs_diff a b) = \<bar>uint a - uint b\<bar>"
  by (auto simp: abs_diff_def uint_word_diff) (auto simp: word_le_def)

lemma uint_half: "uint (w div 2 :: usize) = uint w div 2"
  by (simp add: uint_div)

lemma small_fields:
  assumes "small_pane p"
  shows "uint (pg_right p) = cells_right p" "uint (pg_bottom p) = cells_bottom p"
    "uint (saturating_add (pg_x p) (pg_columns p div 2)) = center_x p"
    "uint (saturating_add (pg_y p) (pg_rows p div 2)) = center_y p"
    "uint (pg_x p + pg_columns p div 2) = center_x p"
    "uint (pg_y p + pg_rows p div 2) = center_y p"
    "0 \<le> center_x p" "center_x p < 24576" "0 \<le> center_y p" "center_y p < 24576"
proof -
  have b: "uint (pg_x p) < 16384" "uint (pg_y p) < 16384" "uint (pg_columns p) < 16384" "uint (pg_rows p) < 16384"
    using assms by (simp_all add: small_pane_def CELLS_def)
  have n: "0 \<le> uint (pg_x p)" "0 \<le> uint (pg_y p)" "0 \<le> uint (pg_columns p)" "0 \<le> uint (pg_rows p)"
    by simp_all
  show "uint (pg_right p) = cells_right p" "uint (pg_bottom p) = cells_bottom p"
    using b by (simp_all add: pg_right_def pg_bottom_def cells_right_def cells_bottom_def uint_saturating_add)
  show c: "0 \<le> center_x p" "center_x p < 24576" "0 \<le> center_y p" "center_y p < 24576"
    using b n unfolding center_x_def center_y_def by linarith+
  show "uint (saturating_add (pg_x p) (pg_columns p div 2)) = center_x p"
    "uint (saturating_add (pg_y p) (pg_rows p div 2)) = center_y p"
    "uint (pg_x p + pg_columns p div 2) = center_x p" "uint (pg_y p + pg_rows p div 2) = center_y p"
    using c by (simp_all add: center_x_def center_y_def uint_saturating_add uint_small_sum uint_half)
qed

lemma square_small:
  fixes a b :: int
  assumes "0 \<le> a" "a < 24576" "0 \<le> b" "b < 24576"
  shows "(a - b)\<^sup>2 < 2 ^ 30"
proof -
  have "\<bar>a - b\<bar> \<le> \<bar>24576\<bar>" using assms by linarith
  then have "(a - b)\<^sup>2 \<le> 24576\<^sup>2" by (simp only: abs_le_square_iff)
  then show ?thesis by simp
qed

lemma distance2_exact:
  assumes "small_pane p" "small_pane q"
  shows "uint (distance2 p q) = center_distance p q" "center_distance p q < 2 ^ 31"
proof -
  define dx where "dx = abs_diff (saturating_add (pg_x p) (pg_columns p div 2)) (pg_x q + pg_columns q div 2)"
  define dy where "dy = abs_diff (saturating_add (pg_y p) (pg_rows p div 2)) (pg_y q + pg_rows q div 2)"
  have d: "uint dx = \<bar>center_x p - center_x q\<bar>" "uint dy = \<bar>center_y p - center_y q\<bar>"
    by (simp_all add: dx_def dy_def uint_abs_diff small_fields assms)
  then have i: "uint dx * uint dx = (center_x p - center_x q)\<^sup>2" "uint dy * uint dy = (center_y p - center_y q)\<^sup>2"
    by (simp_all flip: power2_eq_square)
  have s: "(center_x p - center_x q)\<^sup>2 < 2 ^ 30" "(center_y p - center_y q)\<^sup>2 < 2 ^ 30"
    using square_small small_fields(7-10) [OF assms(1)] small_fields(7-10) [OF assms(2)] by blast+
  then show "center_distance p q < 2 ^ 31" by (simp add: center_distance_def)
  have m: "uint (saturating_mul dx dx) = (center_x p - center_x q)\<^sup>2"
    "uint (saturating_mul dy dy) = (center_y p - center_y q)\<^sup>2"
    using s by (simp_all add: uint_saturating_mul i)
  show "uint (distance2 p q) = center_distance p q"
    unfolding distance2_def Let_def dx_def [symmetric] dy_def [symmetric]
    using s by (simp add: uint_saturating_add m center_distance_def)
qed

lemma rank_exact:
  assumes "small_pane base" "small_pane c" "small_pane p"
  shows "separated d base c \<longleftrightarrow> beyond d base c"
    "uint (edge_overlap d base c) = shared_edge d base c"
    "rank_of d base c < rank_of d base p \<longleftrightarrow>
       shared_edge d base c < shared_edge d base p
       \<or> shared_edge d base c = shared_edge d base p \<and> center_distance base p < center_distance base c"
proof -
  have o: "uint (edge_overlap d base q) = shared_edge d base q" if "small_pane q" for q
    using that assms(1)
    by (cases d) (simp_all add: overlap_y_def overlap_x_def uint_saturating_sub shared_rows_def
        shared_columns_def min_def max_def word_le_def small_fields)
  show "separated d base c \<longleftrightarrow> beyond d base c"
    using assms by (cases d) (simp_all add: word_le_def small_fields)
  show "uint (edge_overlap d base c) = shared_edge d base c" by (rule o) (rule assms)
  have i: "uint (usize_max - distance2 base q) = 2 ^ 32 - 1 - center_distance base q" if "small_pane q" for q
  proof -
    have "distance2 base q \<le> usize_max" by (simp add: usize_max_def)
    then have "uint (usize_max - distance2 base q) = uint usize_max - uint (distance2 base q)"
      by (rule uint_word_diff)
    then show ?thesis using distance2_exact(1) [OF assms(1) that] by (simp add: usize_max_def unsigned_minus_1_eq_mask mask_eq_exp_minus_1)
  qed
  show "rank_of d base c < rank_of d base p \<longleftrightarrow>
       shared_edge d base c < shared_edge d base p
       \<or> shared_edge d base c = shared_edge d base p \<and> center_distance base p < center_distance base c"
    using o [OF assms(2)] o [OF assms(3)] i [OF assms(2)] i [OF assms(3)]
    by (auto simp: rank_of_def less_prod_def' word_less_def word_uint_eq_iff)
qed

definition nearer :: "neighbor_direction \<Rightarrow> pane_geometry \<Rightarrow> pane_geometry \<Rightarrow> pane_geometry \<Rightarrow> bool" where
  "nearer d base p c \<longleftrightarrow> shared_edge d base c < shared_edge d base p
     \<or> shared_edge d base c = shared_edge d base p \<and> center_distance base p < center_distance base c"

definition small_screen :: "pane_inventory \<Rightarrow> bool" where
  "small_screen iv \<longleftrightarrow> list_all (list_all small_pane) (tab_vals (pi_panes iv))"

lemma origin_tab_small:
  "small_screen iv \<Longrightarrow> origin_tab iv base = Some panes \<Longrightarrow> base \<in> set panes \<and> list_all small_pane panes"
  unfolding small_screen_def origin_tab_def find_Some_iff list_all_iff by auto

text \<open>
  C37: on a screen of up to 2^14 - 1 cells a side, the neighbor the bridge focuses in a direction is
  exactly the first best pane of the tab holding the base pane, among the eligible panes that lie
  wholly beyond the base edge in that direction: best is the longest edge shared with the base,
  then the smallest distance of the centers, measured over unbounded integers. When there is no
  such pane, and only then, there is no neighbor.
\<close>

theorem neighbor_nearest:
  assumes "small_screen iv"
  shows "neighbor iv base d eligible = Some p \<longleftrightarrow>
    (\<exists>panes before after. origin_tab iv base = Some panes
       \<and> filter (\<lambda>c. eligible c \<and> pg_id c \<noteq> pg_id base \<and> beyond d base c) panes = before @ p # after
       \<and> list_all (nearer d base p) before \<and> list_all (\<lambda>c. \<not> nearer d base c p) after)"
proof -
  have "first_best (rank_of d base) (filter (candidate d base eligible) panes) p \<longleftrightarrow>
      (\<exists>before after. filter (\<lambda>c. eligible c \<and> pg_id c \<noteq> pg_id base \<and> beyond d base c) panes = before @ p # after
         \<and> list_all (nearer d base p) before \<and> list_all (\<lambda>c. \<not> nearer d base c p) after)"
    if tab: "origin_tab iv base = Some panes" for panes
  proof -
    have sm: "small_pane base" "\<And>c. c \<in> set panes \<Longrightarrow> small_pane c"
      using origin_tab_small [OF assms tab] by (auto simp: list_all_iff)
    have f: "filter (candidate d base eligible) panes =
        filter (\<lambda>c. eligible c \<and> pg_id c \<noteq> pg_id base \<and> beyond d base c) panes"
      using sm rank_exact(1) [OF sm(1)] by (intro filter_cong) (auto simp: candidate_def)
    have r: "rank_of d base c < rank_of d base q \<longleftrightarrow> nearer d base q c" if "c \<in> set panes" "q \<in> set panes" for c q
      using rank_exact(3) [OF sm(1) sm(2) [OF that(1)] sm(2) [OF that(2)]] by (simp add: nearer_def)
    have "list_all (\<lambda>c. rank_of d base c < rank_of d base p) before \<and> list_all (\<lambda>c. rank_of d base c \<le> rank_of d base p) after
        \<longleftrightarrow> list_all (nearer d base p) before \<and> list_all (\<lambda>c. \<not> nearer d base c p) after"
      if "filter Q panes = before @ p # after" for before after Q
    proof -
      have m: "set (before @ p # after) \<subseteq> set panes" using that [symmetric] by (metis filter_is_subset)
      have "list_all (\<lambda>c. rank_of d base c < rank_of d base p) before = list_all (nearer d base p) before"
        using m r by (intro list.pred_cong) auto
      moreover have "list_all (\<lambda>c. rank_of d base c \<le> rank_of d base p) after = list_all (\<lambda>c. \<not> nearer d base c p) after"
        using m r by (intro list.pred_cong) (auto simp: not_less [symmetric])
      ultimately show ?thesis by simp
    qed
    then show ?thesis unfolding first_best_def f by blast
  qed
  then show ?thesis unfolding neighbor_iff by (metis (no_types, lifting) option.inject)
qed

definition sample_panes :: "pane_geometry list" where
  "sample_panes = map (\<lambda>(n, x, y, c, r). \<lparr>pg_id = TerminalPane n, pg_x = x, pg_y = y, pg_columns = c, pg_rows = r\<rparr>)
     [(1, 0, 0, 80, 24), (2, 80, 0, 40, 12), (3, 80, 12, 40, 12), (4, 120, 0, 40, 24)]"

definition sample_inventory :: pane_inventory where
  "sample_inventory = \<lparr>pi_panes = [(TabPosition 0, sample_panes)], pi_active_tab = Some (TabPosition 0),
     pi_active_tab_id = Some (StableTabId 7)\<rparr>"

lemmas sample_simps = sample_inventory_def sample_panes_def tab_vals_def origin_tab_def cells_right_def
  cells_bottom_def shared_rows_def shared_columns_def center_distance_def center_x_def center_y_def

theorem neighbor_nearest_witness:
  "small_screen sample_inventory
   \<and> neighbor sample_inventory (sample_panes ! 0) DirRight (\<lambda>g. pg_id g \<noteq> TerminalPane 4) = Some (sample_panes ! 1)"
proof -
  have s: "small_screen sample_inventory"
    by (simp add: small_screen_def sample_simps small_pane_def CELLS_def)
  have "neighbor sample_inventory (sample_panes ! 0) DirRight (\<lambda>g. pg_id g \<noteq> TerminalPane 4) = Some (sample_panes ! 1)"
  proof (subst neighbor_nearest [OF s], intro exI conjI)
    show "origin_tab sample_inventory (sample_panes ! 0) = Some sample_panes" by (simp add: sample_simps)
    show "filter (\<lambda>c. pg_id c \<noteq> TerminalPane 4 \<and> pg_id c \<noteq> pg_id (sample_panes ! 0)
        \<and> beyond DirRight (sample_panes ! 0) c) sample_panes = [] @ sample_panes ! 1 # [sample_panes ! 2]"
      by (simp add: sample_simps)
    show "list_all (\<lambda>c. \<not> nearer DirRight (sample_panes ! 0) c (sample_panes ! 1)) [sample_panes ! 2]"
      by (simp add: nearer_def sample_simps)
  qed simp
  then show ?thesis using s by simp
qed

end
