(* ===== verification/Bridge_State.thy ===== *)
theory Bridge_State
  imports Bridge_Focus
begin

text \<open>
  The state of the Zellij bridge plugin (\<open>muxe-zellij-wasm/src/bridge.rs\<close>), what the host tells it,
  what it asks of the host, and the pieces its handlers share: the classified origin, the capture
  exclusions, command preparation (\<open>dispatcher.rs\<close>) and the frames it emits.

  A handler maps the state to a state and the host calls it makes, in order; \<open>fx_then\<close> runs two
  handlers in sequence. The host's answers to queries, the JSON decoders, the generated command
  conversion and the texts of identifiers are arguments: the records \<open>host_answers\<close> and
  \<open>bridge_api\<close>. The type variable \<open>'c\<close> is the raw command of the generated inventory, \<open>'a\<close> its
  validated action and \<open>'k\<close> the floating coordinates taken from it.
\<close>

section \<open>What the host says\<close>

datatype input_mode =
    ModeNormal | ModeLocked | ModeResize | ModePane | ModeTab | ModeScroll | ModeEnterSearch
  | ModeSearch | ModeRenameTab | ModeRenamePane | ModeSession | ModeMove | ModePrompt | ModeTmux

text \<open>The derived \<open>Debug\<close> text.\<close>

fun mode_text :: "input_mode \<Rightarrow> str" where
  "mode_text ModeNormal = lit ''Normal''"
| "mode_text ModeLocked = lit ''Locked''"
| "mode_text ModeResize = lit ''Resize''"
| "mode_text ModePane = lit ''Pane''"
| "mode_text ModeTab = lit ''Tab''"
| "mode_text ModeScroll = lit ''Scroll''"
| "mode_text ModeEnterSearch = lit ''EnterSearch''"
| "mode_text ModeSearch = lit ''Search''"
| "mode_text ModeRenameTab = lit ''RenameTab''"
| "mode_text ModeRenamePane = lit ''RenamePane''"
| "mode_text ModeSession = lit ''Session''"
| "mode_text ModeMove = lit ''Move''"
| "mode_text ModePrompt = lit ''Prompt''"
| "mode_text ModeTmux = lit ''Tmux''"

record client_info =
  ci_client_id :: u32
  ci_pane :: pane_id
  ci_running_command :: str
  ci_is_current :: bool

record pane_info =
  pf_id :: u32
  pf_is_plugin :: bool
  pf_is_focused :: bool
  pf_x :: usize
  pf_y :: usize
  pf_columns :: usize
  pf_rows :: usize

record tab_info =
  tf_position :: usize
  tf_tab_id :: usize
  tf_active :: bool

record session_info =
  sf_name :: str
  sf_current :: bool

datatype permission_status = PermissionGranted | PermissionDenied

text \<open>
  A pane manifest is a map from tab positions; it is the list of its entries, each position once.
  \<open>ActionComplete\<close> says whether the completed action created a floating pane.
\<close>

datatype host_event =
    ListClients "client_info list"
  | ModeUpdate input_mode
  | PaneUpdate "(usize \<times> pane_info list) list"
  | TabUpdate "tab_info list"
  | SessionUpdate "session_info list"
  | ActionComplete bool "pane_id option" "(str, str) table"
  | TimerEvent
  | PermissionResult permission_status
  | BeforeClose
  | OtherEvent

datatype pipe_source = CliSource str | PluginSource u32 | KeybindSource

record pipe_message =
  pm_source :: pipe_source
  pm_name :: str
  pm_payload :: "str option"

datatype bridge_input =
    LoadPlugin u32 u32
  | HostEvent host_event
  | PipeInput pipe_message

section \<open>Commands and their preparation\<close>

datatype 'a validated_command = ValidRunAction 'a "(str, str) table" | ValidOther 'a
datatype 'a dispatch = RunAction 'a "(str, str) table" | OtherDispatch 'a

datatype ('a, 'k) ready_dispatch =
    ReadySync "'a dispatch"
  | ReadyAsync "'a dispatch" str "'k option"

text \<open>
  The generated return inventory has two kinds of entry: plain values, and the eight results whose
  error text is reported.
\<close>

datatype native_return = ReturnsValue | ReturnsResult "str + unit"

fun outcome_of :: "native_return \<Rightarrow> command_outcome" where
  "outcome_of ReturnsValue = outcome_succeeded"
| "outcome_of (ReturnsResult (Inr _)) = outcome_succeeded"
| "outcome_of (ReturnsResult (Inl message)) = outcome_failed message"

record ('c, 'a, 'k) bridge_api =
  api_request_json :: "str \<Rightarrow> str + ('c, unit) pipe_request"
  api_subscription_json :: "str \<Rightarrow> str + event_subscription"
  api_registration_text :: "registration_id \<Rightarrow> str"
  api_pane_text :: "pane_id \<Rightarrow> str"
  api_pane_parse :: "str \<Rightarrow> pane_id option"
  api_validate :: "'c \<Rightarrow> str + 'a validated_command"
  api_take_coordinates :: "'a \<Rightarrow> 'a \<times> 'k option"
  api_identity :: bridge_identity

record 'a host_answers =
  an_random :: "nonce option"
  an_cwd :: "pane_id \<Rightarrow> str option"
  an_return :: "'a dispatch \<Rightarrow> native_return"

definition EXECUTION_CONTEXT_KEY :: str where
  "EXECUTION_CONTEXT_KEY = lit ''muxe_execution''"

definition prepare_command ::
  "('c, 'a, 'k) bridge_api \<Rightarrow> 'c \<Rightarrow> str \<Rightarrow> str + ('a, 'k) ready_dispatch" where
  "prepare_command api command execution =
     (case api_validate api command of
        Inl message \<Rightarrow> Inl message
      | Inr (ValidRunAction action context) \<Rightarrow>
          (case api_take_coordinates api action of
             (action', coordinates) \<Rightarrow>
               Inr (ReadyAsync (RunAction action' (tab_insert EXECUTION_CONTEXT_KEY execution context))
                      execution coordinates))
      | Inr (ValidOther action) \<Rightarrow> Inr (ReadySync (OtherDispatch action)))"

definition completion_execution :: "(str, str) table \<Rightarrow> str option" where
  "completion_execution context = tab_get context EXECUTION_CONTEXT_KEY"

section \<open>What the bridge asks of the host\<close>

text \<open>
  \<open>FxEmit\<close> is the frame the bridge writes to the event child; \<open>render_effect\<close> below encodes it.
\<close>

datatype ('a, 'k) host_effect =
    FxSubscribe "string list"
  | FxRequestPermissions "string list"
  | FxListClients
  | FxEmit str "unit pipe_event"
  | FxBlockPipe str
  | FxUnblockPipe str
  | FxSwitchMode input_mode
  | FxFocusPane pane_id
  | FxPlaceFloating pane_id 'k
  | FxDispatch "'a dispatch"
  | FxArmTimer
  | FxWarnSequence bridge_request_id bridge_request_id registration_id

datatype ('a, 'k) host_call = CallOutput str str | CallEffect "('a, 'k) host_effect"

text \<open>The line is written only when the frame encodes within the line bound.\<close>

fun render_effect :: "(unit pipe_event \<Rightarrow> str + str) \<Rightarrow> ('a, 'k) host_effect \<Rightarrow> ('a, 'k) host_call list" where
  "render_effect to_json (FxEmit cli frame) =
     (case encode_line to_json frame of Inl _ \<Rightarrow> [] | Inr line \<Rightarrow> [CallOutput cli line])"
| "render_effect to_json fx = [CallEffect fx]"

section \<open>The classified origin\<close>

record classified_origin =
  co_confirmed :: "pane_id option"
  co_candidate :: "pane_id option"
  co_focus_base :: "pane_id option"

definition no_origin :: classified_origin where
  "no_origin = \<lparr>co_confirmed = None, co_candidate = None, co_focus_base = None\<rparr>"

definition observe :: "pane_id \<Rightarrow> bool \<Rightarrow> classified_origin \<Rightarrow> classified_origin" where
  "observe focused proven_muxe_ui o1 =
     (if proven_muxe_ui then
        (let o2 = (if co_candidate o1 = Some focused then o1\<lparr>co_candidate := None\<rparr> else o1) in
         if co_confirmed o2 = Some focused then
           (let o3 = o2\<lparr>co_confirmed := None\<rparr> in
            if co_focus_base o3 = Some focused then o3\<lparr>co_focus_base := None\<rparr> else o3)
         else o2)
      else if co_confirmed o1 = None \<and> co_candidate o1 = None then
        o1\<lparr>co_confirmed := Some focused, co_focus_base := Some focused\<rparr>
      else o1\<lparr>co_candidate := Some focused\<rparr>)"

definition confirm :: "pane_id \<Rightarrow> classified_origin \<Rightarrow> classified_origin" where
  "confirm pane o1 =
     (if co_candidate o1 \<noteq> Some pane then o1
      else o1\<lparr>co_candidate := None, co_confirmed := Some pane, co_focus_base := Some pane\<rparr>)"

definition drop_ui :: "pane_id \<Rightarrow> classified_origin \<Rightarrow> classified_origin" where
  "drop_ui pane o1 = (if co_candidate o1 = Some pane then o1\<lparr>co_candidate := None\<rparr> else o1)"

text \<open>
  \<open>str::split_whitespace\<close> and \<open>Path::file_name\<close> on a Unix path: the last component that is not
  empty or \<open>.\<close>, unless it is \<open>..\<close>.
\<close>

definition split_whitespace :: "str \<Rightarrow> str list" where
  "split_whitespace t = filter (\<lambda>w. w \<noteq> []) (split_by is_whitespace t)"

definition path_file_name :: "str \<Rightarrow> str option" where
  "path_file_name p =
     (case rev (filter (\<lambda>w. w \<noteq> [] \<and> w \<noteq> lit ''.'') (split_by (\<lambda>c. c = 0x2f) p)) of
        [] \<Rightarrow> None
      | w # _ \<Rightarrow> if w = lit ''..'' then None else Some w)"

definition is_muxe_running_command :: "str \<Rightarrow> bool" where
  "is_muxe_running_command running =
     (case split_whitespace running of
        program # first # second # _ \<Rightarrow>
          path_file_name program = Some (lit ''muxe'') \<and> first = lit ''ui'' \<and> second = lit ''menu''
      | _ \<Rightarrow> False)"

section \<open>State\<close>

record pending_capture =
  pc_lease :: capture_lease_id
  pc_request_id :: bridge_request_id
  pc_generation :: channel_generation
  pc_prior :: "input_mode option"
  pc_requested :: bool

record active_capture =
  ac_lease :: capture_lease_id
  ac_prior :: input_mode
  ac_ticks :: u32

text \<open>The barrier says whether the Locked mode it waits for has been observed.\<close>

datatype restore_barrier = RestoreBarrier (locked_observed: bool)

datatype permission_gate = GatePending | GateGranted | GateDenied

record 'k pending_action =
  pa_request_id :: bridge_request_id
  pa_execution :: wire_execution_id
  pa_generation :: channel_generation
  pa_coordinates :: "'k option"

record 'c post_dismissal =
  pd_request_id :: bridge_request_id
  pd_generation :: channel_generation
  pd_execution :: wire_execution_id
  pd_ui_pane :: "pane_id option"
  pd_origin_pane :: "pane_id option"
  pd_command :: 'c

text \<open>Leases are ordered by their bytes, as the derived order of the source.\<close>

instantiation capture_lease_id :: linorder
begin

fun lease_nonce :: "capture_lease_id \<Rightarrow> nonce" where
  "lease_nonce (CaptureLeaseId n) = n"

definition less_eq_capture_lease_id :: "capture_lease_id \<Rightarrow> capture_lease_id \<Rightarrow> bool" where
  "a \<le> b \<longleftrightarrow> lease_nonce a \<le> lease_nonce b"

definition less_capture_lease_id :: "capture_lease_id \<Rightarrow> capture_lease_id \<Rightarrow> bool" where
  "a < b \<longleftrightarrow> lease_nonce a < lease_nonce b"

instance
proof
  fix a b :: capture_lease_id
  show "a \<le> b \<Longrightarrow> b \<le> a \<Longrightarrow> a = b"
    by (cases a; cases b) (simp add: less_eq_capture_lease_id_def)
qed (auto simp: less_eq_capture_lease_id_def less_capture_lease_id_def)

end

record ('c, 'k) bridge =
  b_client_id :: "host_client_id option"
  b_session_name :: "str option"
  b_plugin_id :: "u32 option"
  b_plugin_client :: "u32 option"
  b_focused :: "pane_id option"
  b_gate :: permission_gate
  b_event_cli :: "str option"
  b_pending_subscribe :: bool
  b_registration :: "registration_id option"
  b_generation :: "channel_generation option"
  b_last_request :: "bridge_request_id option"
  b_mode :: "input_mode option"
  b_pending :: "pending_capture option"
  b_active :: "active_capture option"
  b_restoring :: "restore_barrier option"
  b_pending_ui :: "pane_id option"
  b_capture_panes :: "(capture_lease_id, pane_id) table"
  b_origin :: classified_origin
  b_inventory :: pane_inventory
  b_actions :: "(str, 'k pending_action) table"
  b_post :: "'c post_dismissal list"

definition new_bridge :: "('c, 'k) bridge" where
  "new_bridge = \<lparr>b_client_id = None, b_session_name = None, b_plugin_id = None,
     b_plugin_client = None, b_focused = None, b_gate = GatePending, b_event_cli = None,
     b_pending_subscribe = False, b_registration = None, b_generation = None,
     b_last_request = None, b_mode = None, b_pending = None, b_active = None,
     b_restoring = None, b_pending_ui = None, b_capture_panes = [], b_origin = no_origin,
     b_inventory = new_inventory, b_actions = [], b_post = []\<rparr>"

definition CAPTURE_LEASE_TICKS :: u32 where
  "CAPTURE_LEASE_TICKS = 3"

type_synonym ('c, 'a, 'k) bridge_result = "('c, 'k) bridge \<times> ('a, 'k) host_effect list"

definition fx_then ::
  "('c, 'a, 'k) bridge_result \<Rightarrow> (('c, 'k) bridge \<Rightarrow> ('c, 'a, 'k) bridge_result) \<Rightarrow> ('c, 'a, 'k) bridge_result" where
  "fx_then m f = (case m of (s, fx) \<Rightarrow> case f s of (s', fx') \<Rightarrow> (s', fx @ fx'))"

lemma fx_then_simps [simp]:
  "fst (fx_then m f) = fst (f (fst m))" "snd (fx_then m f) = snd m @ snd (f (fst m))"
  by (simp_all add: fx_then_def case_prod_beta)

section \<open>Frames\<close>

definition emit ::
  "bridge_request_id option \<Rightarrow> channel_generation option \<Rightarrow> unit pipe_event_kind \<Rightarrow> ('c, 'k) bridge
   \<Rightarrow> ('a, 'k) host_effect list" where
  "emit request_id generation event s =
     (case (b_event_cli s, generation, b_registration s) of
        (Some cli, Some g, Some registration) \<Rightarrow>
          [FxEmit cli \<lparr>ev_protocol = PROTOCOL_CURRENT, ev_request_id = request_id,
             ev_registration = registration, ev_generation = g, ev_event = event\<rparr>]
      | _ \<Rightarrow> [])"

definition emit_unsolicited :: "unit zellij_event \<Rightarrow> ('c, 'k) bridge \<Rightarrow> ('a, 'k) host_effect list" where
  "emit_unsolicited event s = emit None (b_generation s) (OutEvent event) s"

definition emit_for_request ::
  "bridge_request_id \<Rightarrow> channel_generation \<Rightarrow> unit zellij_response \<Rightarrow> ('c, 'k) bridge
   \<Rightarrow> ('a, 'k) host_effect list" where
  "emit_for_request request_id generation response s =
     emit (Some request_id) (Some generation) (OutResponse response) s"

definition release ::
  "str \<Rightarrow> bridge_request_id \<Rightarrow> channel_generation \<Rightarrow> ('c, 'k) bridge \<Rightarrow> ('a, 'k) host_effect list" where
  "release cli request_id generation s =
     FxUnblockPipe cli # emit_for_request request_id generation RequestReleased s"

definition emit_completion ::
  "bridge_request_id \<Rightarrow> channel_generation \<Rightarrow> wire_execution_id \<Rightarrow> command_outcome \<Rightarrow> ('c, 'k) bridge
   \<Rightarrow> ('a, 'k) host_effect list" where
  "emit_completion request_id generation execution result s =
     emit_for_request request_id generation (DispatchCompleted execution result) s"

end
