(* ===== verification/Zellij_Bridge.thy ===== *)
theory Zellij_Bridge
  imports Bridge_State
begin

text \<open>
  The handlers of the Zellij bridge plugin, \<open>muxe-zellij-wasm/src/bridge.rs\<close>, in the order of the
  source: the host events, the capture lease, the event channel, and the requests of the broker.
  \<open>bridge_step\<close> is the plugin: one input, the new state and the host calls in order.
\<close>

section \<open>Capture exclusions\<close>

definition release_capture_ui :: "capture_lease_id \<Rightarrow> ('c, 'k) bridge \<Rightarrow> ('c, 'k) bridge" where
  "release_capture_ui lease s = s\<lparr>b_capture_panes := tab_remove lease (b_capture_panes s)\<rparr>"

definition bind_capture_ui :: "capture_lease_id \<Rightarrow> ('c, 'k) bridge \<Rightarrow> ('c, 'k) bridge" where
  "bind_capture_ui lease s =
     (if tab_has (b_capture_panes s) lease then s
      else case b_pending_ui s of
        None \<Rightarrow> s
      | Some pane \<Rightarrow>
          (let s1 = s\<lparr>b_pending_ui := None\<rparr> in
           if b_focused s1 \<noteq> Some pane then s1
           else s1\<lparr>b_capture_panes :=
             tab_insert lease pane (tab_retain (\<lambda>excluded. excluded \<noteq> pane) (b_capture_panes s1))\<rparr>))"

definition clear_capture_ui :: "('c, 'k) bridge \<Rightarrow> ('c, 'k) bridge" where
  "clear_capture_ui s = s\<lparr>b_capture_panes := [], b_pending_ui := None\<rparr>"

definition is_focus_excluded :: "('c, 'k) bridge \<Rightarrow> pane_id \<Rightarrow> bool" where
  "is_focus_excluded s pane \<longleftrightarrow>
     pane \<in> set (tab_vals (b_capture_panes s))
     \<or> (b_capture_panes s \<noteq> [] \<and> co_focus_base (b_origin s) = Some pane)"

section \<open>Commands waiting for the menu to close\<close>

definition correlation_of ::
  "('c, 'a, 'k) bridge_api \<Rightarrow> registration_id \<Rightarrow> bridge_request_id \<Rightarrow> str" where
  "correlation_of api registration request_id =
     api_registration_text api registration @ lit '':'' @ decimal_text (request_number request_id)"

definition dispatch_post_dismissal ::
  "('c, 'a, 'k) bridge_api \<Rightarrow> 'a host_answers \<Rightarrow> 'c post_dismissal \<Rightarrow> ('c, 'k) bridge
   \<Rightarrow> ('c, 'a, 'k) bridge_result" where
  "dispatch_post_dismissal api ans p s =
     (case b_registration s of
        None \<Rightarrow>
          (s, emit_completion (pd_request_id p) (pd_generation p) (pd_execution p)
             (outcome_failed (lit ''cannot execute the command queued for UI dismissal: this bridge is no longer registered'')) s)
      | Some registration \<Rightarrow>
          (case prepare_command api (pd_command p) (correlation_of api registration (pd_request_id p)) of
             Inl message \<Rightarrow>
               (s, emit_completion (pd_request_id p) (pd_generation p) (pd_execution p)
                  (outcome_failed (lit ''invalid command: '' @ message)) s)
           | Inr (ReadySync dispatch) \<Rightarrow>
               (s, FxDispatch dispatch #
                  emit_completion (pd_request_id p) (pd_generation p) (pd_execution p)
                    (outcome_of (an_return ans dispatch)) s)
           | Inr (ReadyAsync dispatch correlated coordinates) \<Rightarrow>
               (s\<lparr>b_actions := tab_insert correlated
                    \<lparr>pa_request_id = pd_request_id p, pa_execution = pd_execution p,
                     pa_generation = pd_generation p, pa_coordinates = coordinates\<rparr> (b_actions s)\<rparr>,
                [FxDispatch dispatch])))"

text \<open>The loop returns the commands kept, and whether a census is wanted, beside its effects.\<close>

definition ui_is_live :: "('c, 'k) bridge \<Rightarrow> 'c post_dismissal \<Rightarrow> bool" where
  "ui_is_live s p =
     (case pd_ui_pane p of None \<Rightarrow> False | Some pane \<Rightarrow> contains_pane (b_inventory s) pane)"

fun post_loop ::
  "('c, 'a, 'k) bridge_api \<Rightarrow> 'a host_answers \<Rightarrow> 'c post_dismissal list \<Rightarrow> ('c, 'k) bridge
   \<Rightarrow> ('c, 'k) bridge \<times> 'c post_dismissal list \<times> bool \<times> ('a, 'k) host_effect list" where
  "post_loop api ans [] s = (s, [], False, [])"
| "post_loop api ans (p # ps) s =
     (if \<not> has_manifest (b_inventory s) \<or> ui_is_live s p then
        (case post_loop api ans ps s of (s', kept, refresh, fx) \<Rightarrow> (s', p # kept, refresh, fx))
      else if pd_origin_pane p \<noteq> b_focused s then
        (case post_loop api ans ps s of (s', kept, refresh, fx) \<Rightarrow> (s', p # kept, True, fx))
      else
        (case dispatch_post_dismissal api ans p s of
           (s1, fx1) \<Rightarrow>
             (case post_loop api ans ps s1 of
                (s', kept, refresh, fx) \<Rightarrow> (s', kept, refresh, fx1 @ fx))))"

definition try_post_dismissals ::
  "('c, 'a, 'k) bridge_api \<Rightarrow> 'a host_answers \<Rightarrow> ('c, 'k) bridge \<Rightarrow> ('c, 'a, 'k) bridge_result" where
  "try_post_dismissals api ans s =
     (case post_loop api ans (b_post s) (s\<lparr>b_post := []\<rparr>) of
        (s', kept, refresh, fx) \<Rightarrow>
          (s'\<lparr>b_post := kept\<rparr>, fx @ (if refresh then [FxListClients] else [])))"

section \<open>Registration and the client census\<close>

definition try_register ::
  "('c, 'a, 'k) bridge_api \<Rightarrow> 'a host_answers \<Rightarrow> ('c, 'k) bridge \<Rightarrow> ('c, 'a, 'k) bridge_result" where
  "try_register api ans s =
     (if \<not> b_pending_subscribe s \<or> b_gate s \<noteq> GateGranted then (s, [])
      else case b_client_id s of
        None \<Rightarrow> (s, [])
      | Some (HostClientId client) \<Rightarrow>
          (case an_random ans of
             None \<Rightarrow> (s, [])
           | Some bytes \<Rightarrow>
               (case registration_from_random bytes of
                  Inl _ \<Rightarrow> (s, [])
                | Inr registration \<Rightarrow>
                    (let s1 = s\<lparr>b_registration := Some registration, b_pending_subscribe := False\<rparr> in
                     (s1, emit_unsolicited (EvRegister
                        \<lparr>zr_client_id = client,
                         zr_current_pane = map_option (api_pane_text api) (b_focused s1),
                         zr_plugin_id = b_plugin_id s1, zr_identity = api_identity api\<rparr>) s1)))))"

definition capture_idle :: "('c, 'k) bridge \<Rightarrow> bool" where
  "capture_idle s \<longleftrightarrow> b_active s = None \<and> b_pending s = None"

definition census :: "client_info \<Rightarrow> ('c, 'k) bridge \<Rightarrow> ('c, 'k) bridge" where
  "census client s =
     (let focused = ci_pane client;
          proven = is_muxe_running_command (ci_running_command client);
          s1 = s\<lparr>b_client_id := Some (HostClientId (decimal_text (unat (ci_client_id client))))\<rparr>;
          s2 = (if capture_idle s1 \<and> b_focused s1 \<noteq> Some focused then
                  s1\<lparr>b_origin := observe focused proven
                       (case b_focused s1 of None \<Rightarrow> b_origin s1
                        | Some leaving \<Rightarrow> confirm leaving (b_origin s1))\<rparr>
                else if capture_idle s1 \<and> b_restoring s1 = None
                     \<and> co_candidate (b_origin s1) = Some focused \<and> \<not> proven then
                  s1\<lparr>b_origin := confirm focused (b_origin s1)\<rparr>
                else s1)
      in s2\<lparr>b_focused := Some focused\<rparr>)"

definition own_client :: "('c, 'k) bridge \<Rightarrow> client_info list \<Rightarrow> client_info option" where
  "own_client s clients =
     (case b_plugin_client s of
        None \<Rightarrow> None
      | Some anchor \<Rightarrow> find (\<lambda>c. ci_is_current c \<and> ci_client_id c = anchor) clients)"

definition on_list_clients ::
  "('c, 'a, 'k) bridge_api \<Rightarrow> 'a host_answers \<Rightarrow> client_info list \<Rightarrow> ('c, 'k) bridge
   \<Rightarrow> ('c, 'a, 'k) bridge_result" where
  "on_list_clients api ans clients s =
     fx_then
       (case own_client s clients of
          None \<Rightarrow> (s, [])
        | Some client \<Rightarrow> try_register api ans ((census client s)\<lparr>b_gate := GateGranted\<rparr>))
       (try_post_dismissals api ans)"

section \<open>Mode, pane, tab and session updates\<close>

definition mode_settled :: "input_mode \<Rightarrow> ('c, 'k) bridge \<Rightarrow> ('c, 'a, 'k) bridge_result" where
  "mode_settled mode s =
     (if mode = ModeLocked then
        (case b_pending s of
           None \<Rightarrow> (s, [])
         | Some p \<Rightarrow>
             (let prior = (case pc_prior p of None \<Rightarrow> ModeLocked | Some m \<Rightarrow> m);
                  s1 = s\<lparr>b_pending := None,
                         b_active := Some \<lparr>ac_lease = pc_lease p, ac_prior = prior,
                                           ac_ticks = CAPTURE_LEASE_TICKS\<rparr>\<rparr>
              in (s1, emit_for_request (pc_request_id p) (pc_generation p)
                        (CaptureReady (pc_lease p) (CaptureState (mode_text prior))) s1)))
      else
        fx_then
          (case b_pending s of
             None \<Rightarrow> (s, [])
           | Some p \<Rightarrow>
               (s\<lparr>b_pending := Some (p\<lparr>pc_prior := Some mode, pc_requested := True\<rparr>)\<rparr>,
                if pc_requested p then [] else [FxSwitchMode ModeLocked]))
          (\<lambda>s1. case b_active s1 of
             None \<Rightarrow> (s1, [])
           | Some a \<Rightarrow>
               (let s2 = release_capture_ui (ac_lease a) (s1\<lparr>b_active := None\<rparr>) in
                (s2, emit_unsolicited (EvCaptureLost (ac_lease a) LostUserModeChanged) s2))))"

definition on_mode_update :: "input_mode \<Rightarrow> ('c, 'k) bridge \<Rightarrow> ('c, 'a, 'k) bridge_result" where
  "on_mode_update mode s0 =
     (let s = s0\<lparr>b_mode := Some mode\<rparr> in
      case b_restoring s of
        Some barrier \<Rightarrow>
          if mode = ModeLocked then (s\<lparr>b_restoring := Some (RestoreBarrier True)\<rparr>, [])
          else if \<not> locked_observed barrier then (s, [])
          else mode_settled mode (s\<lparr>b_restoring := None\<rparr>)
      | None \<Rightarrow> mode_settled mode s)"

definition info_pane :: "pane_info \<Rightarrow> pane_id" where
  "info_pane i = (if pf_is_plugin i then PluginPane (pf_id i) else TerminalPane (pf_id i))"

definition info_geometry :: "pane_info \<Rightarrow> pane_geometry" where
  "info_geometry i = \<lparr>pg_id = info_pane i, pg_x = pf_x i, pg_y = pf_y i,
     pg_columns = pf_columns i, pg_rows = pf_rows i\<rparr>"

fun manifest_table :: "(usize \<times> pane_info list) list \<Rightarrow> (tab_position, pane_geometry list) table" where
  "manifest_table [] = []"
| "manifest_table ((position, infos) # rest) =
     tab_insert (TabPosition position) (map info_geometry infos) (manifest_table rest)"

text \<open>The last focused pane the loop meets in the active tab.\<close>

definition focused_hint :: "tab_position option \<Rightarrow> (usize \<times> pane_info list) list \<Rightarrow> pane_id option" where
  "focused_hint active manifest =
     map_option info_pane
       (find pf_is_focused
         (rev (concat (map snd (filter (\<lambda>e. active = Some (TabPosition (fst e))) manifest)))))"

definition manifest_has :: "pane_id option \<Rightarrow> (usize \<times> pane_info list) list \<Rightarrow> bool" where
  "manifest_has pane manifest \<longleftrightarrow>
     list_ex (\<lambda>e. list_ex (\<lambda>i. pane = Some (info_pane i)) (snd e)) manifest"

definition on_pane_update ::
  "('c, 'a, 'k) bridge_api \<Rightarrow> 'a host_answers \<Rightarrow> (usize \<times> pane_info list) list \<Rightarrow> ('c, 'k) bridge
   \<Rightarrow> ('c, 'a, 'k) bridge_result" where
  "on_pane_update api ans manifest s =
     (let hint = focused_hint (pi_active_tab (b_inventory s)) manifest;
          s1 = s\<lparr>b_inventory := set_manifest (manifest_table manifest) (b_inventory s)\<rparr>;
          stale = b_gate s1 = GateGranted \<and> capture_idle s1 \<and> b_restoring s1 = None
            \<and> (b_focused s1 \<noteq> None \<and> \<not> manifest_has (b_focused s1) manifest
               \<or> co_confirmed (b_origin s1) \<noteq> None \<and> \<not> manifest_has (co_confirmed (b_origin s1)) manifest
               \<or> hint \<noteq> None \<and> b_focused s1 \<noteq> hint)
      in fx_then (s1, if stale then [FxListClients] else []) (try_post_dismissals api ans))"

definition on_session_update :: "session_info list \<Rightarrow> ('c, 'k) bridge \<Rightarrow> ('c, 'k) bridge" where
  "on_session_update sessions s =
     (case find sf_current sessions of
        None \<Rightarrow> s
      | Some session \<Rightarrow> s\<lparr>b_session_name := Some (sf_name session)\<rparr>)"

definition on_tab_update :: "tab_info list \<Rightarrow> ('c, 'k) bridge \<Rightarrow> ('c, 'k) bridge" where
  "on_tab_update tabs s =
     (let active = find tf_active tabs in
      s\<lparr>b_inventory := set_active_tab_with_id (map_option (\<lambda>t. TabPosition (tf_position t)) active)
           (map_option (\<lambda>t. StableTabId (tf_tab_id t)) active) (b_inventory s)\<rparr>)"

section \<open>Completion of asynchronous actions\<close>

fun is_terminal :: "pane_id option \<Rightarrow> bool" where
  "is_terminal (Some (TerminalPane _)) = True"
| "is_terminal _ = False"

definition completion_outcome ::
  "bool \<Rightarrow> pane_id option \<Rightarrow> 'k option \<Rightarrow> command_outcome \<times> ('a, 'k) host_effect list" where
  "completion_outcome floating_creation pane coordinates =
     (case (coordinates, pane) of
        (Some placement, Some created) \<Rightarrow>
          if is_terminal pane \<and> floating_creation
          then (outcome_succeeded, [FxPlaceFloating created placement])
          else (outcome_unknown (lit ''Zellij did not confirm which floating terminal was created; Muxe did not request its size and position. Check existing panes before repeating the command.''), [])
      | (Some _, None) \<Rightarrow>
          (outcome_unknown (lit ''Zellij did not confirm which floating terminal was created; Muxe did not request its size and position. Check existing panes before repeating the command.''), [])
      | (None, _) \<Rightarrow> (outcome_succeeded, []))"

definition on_action_complete ::
  "bool \<Rightarrow> pane_id option \<Rightarrow> (str, str) table \<Rightarrow> ('c, 'k) bridge \<Rightarrow> ('c, 'a, 'k) bridge_result" where
  "on_action_complete floating_creation pane context s =
     (case completion_execution context of
        None \<Rightarrow> (s, [])
      | Some correlation \<Rightarrow>
          (case tab_get (b_actions s) correlation of
             None \<Rightarrow> (s, [])
           | Some p \<Rightarrow>
               (let s1 = s\<lparr>b_actions := tab_remove correlation (b_actions s)\<rparr> in
                case completion_outcome floating_creation pane (pa_coordinates p) of
                  (result, fx) \<Rightarrow>
                    (s1, fx @ emit_completion (pa_request_id p) (pa_generation p) (pa_execution p) result s1))))"

section \<open>The capture lease\<close>

text \<open>
  The cancellation of matching capture state: a requested pending capture, then the active one.
  The third component is the active capture taken.
\<close>

definition lease_matches :: "capture_lease_id option \<Rightarrow> capture_lease_id \<Rightarrow> bool" where
  "lease_matches wanted l \<longleftrightarrow> (case wanted of None \<Rightarrow> True | Some w \<Rightarrow> l = w)"

definition cancel_pending ::
  "capture_lease_id option \<Rightarrow> ('c, 'k) bridge \<Rightarrow> ('c, 'a, 'k) bridge_result" where
  "cancel_pending wanted s =
     (case b_pending s of
        None \<Rightarrow> (s, [])
      | Some p \<Rightarrow>
          if \<not> lease_matches wanted (pc_lease p) then (s, [])
          else
            (let s1 = release_capture_ui (pc_lease p) (s\<lparr>b_pending := None\<rparr>) in
             case pc_prior p of
               Some prior \<Rightarrow>
                 if pc_requested p
                 then (s1\<lparr>b_restoring := Some (RestoreBarrier False)\<rparr>, [FxSwitchMode prior])
                 else (s1, [])
             | None \<Rightarrow> (s1, [])))"

definition cancel_active ::
  "capture_lease_id option \<Rightarrow> ('c, 'k) bridge
   \<Rightarrow> ('c, 'k) bridge \<times> ('a, 'k) host_effect list \<times> active_capture option" where
  "cancel_active wanted s =
     (case b_active s of
        None \<Rightarrow> (s, [], None)
      | Some a \<Rightarrow>
          if \<not> lease_matches wanted (ac_lease a) then (s, [], None)
          else
            (let s1 = s\<lparr>b_active := None\<rparr>;
                 s2 = (if b_mode s1 = Some ModeLocked \<and> ac_prior a \<noteq> ModeLocked
                       then s1\<lparr>b_restoring := Some (RestoreBarrier True)\<rparr> else s1);
                 fx = (if b_mode s1 = Some ModeLocked then [FxSwitchMode (ac_prior a)] else [])
             in (release_capture_ui (ac_lease a) s2, fx, Some a)))"

definition cancel_capture_for_restore ::
  "capture_lease_id option \<Rightarrow> ('c, 'k) bridge
   \<Rightarrow> ('c, 'k) bridge \<times> ('a, 'k) host_effect list \<times> active_capture option" where
  "cancel_capture_for_restore wanted s =
     (case cancel_pending wanted s of
        (s1, fx1) \<Rightarrow> case cancel_active wanted s1 of (s2, fx2, taken) \<Rightarrow> (s2, fx1 @ fx2, taken))"

definition cancel_capture ::
  "capture_lease_id option \<Rightarrow> ('c, 'k) bridge \<Rightarrow> ('c, 'a, 'k) bridge_result" where
  "cancel_capture wanted s =
     (case cancel_capture_for_restore wanted s of (s', fx, _) \<Rightarrow> (s', fx))"

definition expire_capture_lease :: "('c, 'k) bridge \<Rightarrow> ('c, 'a, 'k) bridge_result" where
  "expire_capture_lease s =
     (case b_active s of
        None \<Rightarrow> (s, [])
      | Some a \<Rightarrow>
          (case cancel_capture_for_restore (Some (ac_lease a)) s of
             (s', fx, taken) \<Rightarrow>
               (s', fx @ (if taken = None then []
                          else emit_unsolicited (EvCaptureLost (ac_lease a) LostBrokerLeaseExpired) s'))))"

definition saturating_dec :: "u32 \<Rightarrow> u32" where
  "saturating_dec n = (if n = 0 then 0 else n - 1)"

definition on_timer :: "('c, 'k) bridge \<Rightarrow> ('c, 'a, 'k) bridge_result" where
  "on_timer s =
     fx_then
       (fx_then
          (s, (if b_pending_subscribe s \<and> b_gate s = GateGranted then [FxListClients] else [])
              @ emit_unsolicited EvHeartbeat s)
          (\<lambda>s. case b_active s of
             None \<Rightarrow> (s, [])
           | Some a \<Rightarrow>
               (let a' = a\<lparr>ac_ticks := saturating_dec (ac_ticks a)\<rparr>;
                    s1 = s\<lparr>b_active := Some a'\<rparr>
                in if ac_ticks a' = 0 then expire_capture_lease s1 else (s1, []))))
       (\<lambda>s. (s, [FxArmTimer]))"

section \<open>Ending the bridge and replacing its channel\<close>

definition complete_actions :: "str \<Rightarrow> ('c, 'k) bridge \<Rightarrow> 'k pending_action list \<Rightarrow> ('a, 'k) host_effect list" where
  "complete_actions detail s actions =
     concat (map (\<lambda>p. emit_completion (pa_request_id p) (pa_generation p) (pa_execution p)
       (outcome_unknown detail) s) actions)"

definition fail_post_dismissals :: "str \<Rightarrow> ('c, 'k) bridge \<Rightarrow> ('c, 'a, 'k) bridge_result" where
  "fail_post_dismissals reason s =
     (let s1 = s\<lparr>b_post := []\<rparr> in
      (s1, concat (map (\<lambda>p. emit_completion (pd_request_id p) (pd_generation p) (pd_execution p)
             (outcome_failed reason) s1) (b_post s))))"

definition unload_capture :: "('c, 'k) bridge \<Rightarrow> ('c, 'a, 'k) bridge_result" where
  "unload_capture s =
     (let restore = (b_mode s = Some ModeLocked) in
      case cancel_capture_for_restore None s of
        (s1, fx, taken) \<Rightarrow>
          (s1, fx @ (case taken of
             Some a \<Rightarrow> if restore
                       then emit_unsolicited (EvCaptureLost (ac_lease a) LostBridgeUnloading) s1 else []
           | None \<Rightarrow> [])))"

definition on_before_close :: "('c, 'k) bridge \<Rightarrow> ('c, 'a, 'k) bridge_result" where
  "on_before_close s =
      fx_then (unload_capture s)
        (\<lambda>s1.
           let s2 = (clear_capture_ui (s1\<lparr>b_pending := None\<rparr>))\<lparr>b_restoring := None\<rparr>;
               s3 = s2\<lparr>b_actions := []\<rparr>
           in fx_then
                (s3, complete_actions (lit ''Zellij bridge unloaded before command completion was confirmed; the command may have executed. Check its effects before repeating it.'') s3
                       (tab_vals (b_actions s2)))
                (fail_post_dismissals
                   (lit ''cannot execute the command queued for menu dismissal: the Zellij bridge is unloading'')))"

definition retire ::
  "str \<Rightarrow> bridge_request_id \<Rightarrow> channel_generation \<Rightarrow> ('c, 'k) bridge \<Rightarrow> ('c, 'a, 'k) bridge_result" where
  "retire cli request_id generation s =
     fx_then (cancel_capture None s)
       (\<lambda>s1.
          let s2 = clear_capture_ui s1;
              s3 = s2\<lparr>b_actions := []\<rparr>
          in fx_then
               (s3, release cli request_id generation s3
                    @ complete_actions (lit ''Zellij bridge stopped accepting requests before command completion was confirmed; the command may have executed. Check its effects before repeating it.'') s3
                        (tab_vals (b_actions s2)))
               (fail_post_dismissals
                  (lit ''cannot execute the command queued for menu dismissal: the Zellij bridge stopped accepting requests'')))"

definition subscribe ::
  "('c, 'a, 'k) bridge_api \<Rightarrow> str \<Rightarrow> str option \<Rightarrow> ('c, 'k) bridge \<Rightarrow> ('c, 'a, 'k) bridge_result" where
  "subscribe api cli payload s =
     (case Option.bind payload (\<lambda>v. case decode_event_subscription (api_subscription_json api) v of
             Inl _ \<Rightarrow> None | Inr sub \<Rightarrow> Some sub) of
        None \<Rightarrow> (s, [])
      | Some sub \<Rightarrow>
          fx_then (cancel_capture None s)
            (\<lambda>s1. ((clear_capture_ui s1)\<lparr>b_actions := [], b_post := [], b_registration := None,
                      b_generation := Some (es_generation sub), b_last_request := None,
                      b_event_cli := Some cli, b_pending_subscribe := True\<rparr>,
                   FxBlockPipe cli # (if b_gate s1 = GateGranted then [FxListClients] else []))))"

section \<open>Requests of the broker\<close>

definition dispatch_command ::
  "('c, 'a, 'k) bridge_api \<Rightarrow> 'a host_answers \<Rightarrow> str \<Rightarrow> bridge_request_id \<Rightarrow> channel_generation
   \<Rightarrow> wire_execution_id \<Rightarrow> 'c \<Rightarrow> ('c, 'k) bridge \<Rightarrow> ('c, 'a, 'k) bridge_result" where
  "dispatch_command api ans cli request_id generation execution command s =
     (case b_registration s of
        None \<Rightarrow> (s, [])
      | Some registration \<Rightarrow>
          (case prepare_command api command (correlation_of api registration request_id) of
             Inl message \<Rightarrow>
               (s, release cli request_id generation s
                   @ emit_for_request request_id generation (DispatchAccepted execution) s
                   @ emit_completion request_id generation execution
                       (outcome_failed (lit ''invalid command: '' @ message)) s)
           | Inr (ReadySync dispatch) \<Rightarrow>
               (s, FxDispatch dispatch # release cli request_id generation s
                   @ emit_for_request request_id generation (DispatchAccepted execution) s
                   @ emit_completion request_id generation execution (outcome_of (an_return ans dispatch)) s)
           | Inr (ReadyAsync dispatch correlated coordinates) \<Rightarrow>
               (let s1 = s\<lparr>b_actions := tab_insert correlated
                      \<lparr>pa_request_id = request_id, pa_execution = execution,
                       pa_generation = generation, pa_coordinates = coordinates\<rparr> (b_actions s)\<rparr>
                in (s1, FxDispatch dispatch # release cli request_id generation s1
                        @ emit_for_request request_id generation (DispatchAccepted execution) s1))))"

definition defer_post_dismissal ::
  "('c, 'a, 'k) bridge_api \<Rightarrow> 'a host_answers \<Rightarrow> str \<Rightarrow> bridge_request_id \<Rightarrow> channel_generation
   \<Rightarrow> wire_execution_id \<Rightarrow> pane_id option \<Rightarrow> pane_id option \<Rightarrow> 'c \<Rightarrow> ('c, 'k) bridge
   \<Rightarrow> ('c, 'a, 'k) bridge_result" where
  "defer_post_dismissal api ans cli request_id generation execution ui_pane origin_pane command s =
     fx_then
       (s\<lparr>b_post := b_post s @ [\<lparr>pd_request_id = request_id, pd_generation = generation,
            pd_execution = execution, pd_ui_pane = ui_pane, pd_origin_pane = origin_pane,
            pd_command = command\<rparr>]\<rparr>,
        release cli request_id generation s
        @ emit_for_request request_id generation (DispatchAccepted execution) s)
       (try_post_dismissals api ans)"

definition focus_replies ::
  "str \<Rightarrow> bridge_request_id \<Rightarrow> channel_generation \<Rightarrow> wire_execution_id \<Rightarrow> command_outcome
   \<Rightarrow> ('c, 'k) bridge \<Rightarrow> ('a, 'k) host_effect list" where
  "focus_replies cli request_id generation execution result s =
     release cli request_id generation s
     @ emit_for_request request_id generation (DispatchAccepted execution) s
     @ emit_completion request_id generation execution result s"

definition focus_by_index ::
  "str \<Rightarrow> bridge_request_id \<Rightarrow> channel_generation \<Rightarrow> wire_execution_id \<Rightarrow> u32 \<Rightarrow> ('c, 'k) bridge
   \<Rightarrow> ('c, 'a, 'k) bridge_result" where
  "focus_by_index cli request_id generation execution index s =
     (case pane_at (b_inventory s) index (\<lambda>g. \<not> is_focus_excluded s (pg_id g)) of
        Some pane \<Rightarrow>
          (s, FxFocusPane (pg_id pane)
              # focus_replies cli request_id generation execution outcome_succeeded s)
      | None \<Rightarrow>
          (s, focus_replies cli request_id generation execution
                (outcome_failed (lit ''cannot focus pane at index '' @ decimal_text (unat index)
                   @ lit '': the active tab has no eligible pane at that index'')) s))"

definition focus_neighbor ::
  "str \<Rightarrow> bridge_request_id \<Rightarrow> channel_generation \<Rightarrow> wire_execution_id \<Rightarrow> neighbor_direction
   \<Rightarrow> ('c, 'k) bridge \<Rightarrow> ('c, 'a, 'k) bridge_result" where
  "focus_neighbor cli request_id generation execution direction s =
     (case Option.bind (Option.bind (co_focus_base (b_origin s)) (find_pane (b_inventory s)))
             (\<lambda>base. neighbor (b_inventory s) base direction (\<lambda>g. \<not> is_focus_excluded s (pg_id g))) of
        Some pane \<Rightarrow>
          (s, FxFocusPane (pg_id pane)
              # focus_replies cli request_id generation execution outcome_succeeded s)
      | None \<Rightarrow>
          (s, focus_replies cli request_id generation execution
                (outcome_failed (lit ''cannot focus a neighboring pane: the bridge has no known origin pane or eligible neighbor in that direction'')) s))"

definition begin_capture ::
  "str \<Rightarrow> bridge_request_id \<Rightarrow> channel_generation \<Rightarrow> capture_lease_id \<Rightarrow> ('c, 'k) bridge
   \<Rightarrow> ('c, 'a, 'k) bridge_result" where
  "begin_capture cli request_id generation lease s0 =
     (let s = bind_capture_ui lease s0;
          ready = (\<lambda>prior s. release cli request_id generation s
             @ emit_for_request request_id generation (CaptureReady lease (CaptureState (mode_text prior))) s);
          fresh =
            (if b_restoring s = None \<and> b_mode s = Some ModeLocked then
               (let s1 = s\<lparr>b_active := Some \<lparr>ac_lease = lease, ac_prior = ModeLocked,
                                               ac_ticks = CAPTURE_LEASE_TICKS\<rparr>\<rparr>
                in (s1, ready ModeLocked s1))
             else
               (let requested = (b_restoring s = None \<and> b_mode s \<noteq> None);
                    s1 = s\<lparr>b_pending := Some \<lparr>pc_lease = lease, pc_request_id = request_id,
                             pc_generation = generation, pc_prior = b_mode s, pc_requested = requested\<rparr>\<rparr>
                in (s1, (if requested then [FxSwitchMode ModeLocked] else [])
                        @ release cli request_id generation s1)));
          retry_pending =
            (case b_pending s of
               Some p \<Rightarrow>
                 if pc_lease p = lease then
                   (let s1 = s\<lparr>b_pending := Some (p\<lparr>pc_request_id := request_id, pc_generation := generation\<rparr>)\<rparr>
                    in (s1, release cli request_id generation s1))
                 else fresh
             | None \<Rightarrow> fresh)
      in case b_active s of
           Some a \<Rightarrow> if ac_lease a = lease then (s, ready (ac_prior a) s) else retry_pending
         | None \<Rightarrow> retry_pending)"

definition end_capture ::
  "str \<Rightarrow> bridge_request_id \<Rightarrow> channel_generation \<Rightarrow> capture_lease_id \<Rightarrow> ('c, 'k) bridge
   \<Rightarrow> ('c, 'a, 'k) bridge_result" where
  "end_capture cli request_id generation lease s =
     fx_then (cancel_capture (Some lease) (release_capture_ui lease s))
       (\<lambda>s1. (s1, release cli request_id generation s1))"

definition renew_capture ::
  "str \<Rightarrow> bridge_request_id \<Rightarrow> channel_generation \<Rightarrow> capture_lease_id \<Rightarrow> ('c, 'k) bridge
   \<Rightarrow> ('c, 'a, 'k) bridge_result" where
  "renew_capture cli request_id generation lease s =
     (let s1 = (case b_active s of
                  Some a \<Rightarrow> if ac_lease a = lease
                            then s\<lparr>b_active := Some (a\<lparr>ac_ticks := CAPTURE_LEASE_TICKS\<rparr>)\<rparr> else s
                | None \<Rightarrow> s)
      in (s1, release cli request_id generation s1))"

definition request_origin ::
  "('c, 'a, 'k) bridge_api \<Rightarrow> 'a host_answers \<Rightarrow> str \<Rightarrow> bridge_request_id \<Rightarrow> channel_generation
   \<Rightarrow> ui_session_id \<Rightarrow> str \<Rightarrow> ('c, 'k) bridge \<Rightarrow> ('c, 'a, 'k) bridge_result" where
  "request_origin api ans cli request_id generation ui_session ui_pane s =
     (let declined = (s, release cli request_id generation s
                         @ emit_for_request request_id generation (OriginDeclined ui_session) s)
      in case api_pane_parse api ui_pane of
           None \<Rightarrow> declined
         | Some ui \<Rightarrow>
             if b_focused s \<noteq> Some ui then declined
             else
               (let s1 = s\<lparr>b_pending_ui := Some ui, b_origin := drop_ui ui (b_origin s)\<rparr>;
                    prior = (if co_confirmed (b_origin s1) = Some ui then None
                             else co_confirmed (b_origin s1));
                    snapshot = \<lparr>zo_client_id = (case b_client_id s1 of None \<Rightarrow> [] | Some (HostClientId c) \<Rightarrow> c),
                       zo_session_name = b_session_name s1,
                       zo_active_tab_index = Option.bind (pi_active_tab (b_inventory s1)) wire_index,
                       zo_active_tab_id = Option.bind (pi_active_tab_id (b_inventory s1)) wire_tab_id,
                       zo_prior_pane_id = map_option (api_pane_text api) prior,
                       zo_ui_pane_id = ui_pane,
                       zo_prior_pane_cwd = Option.bind prior (an_cwd ans),
                       zo_prior_pane_is_plugin = map_option (\<lambda>p. case p of PluginPane _ \<Rightarrow> True | TerminalPane _ \<Rightarrow> False) prior\<rparr>
                in (s1, release cli request_id generation s1
                        @ emit_for_request request_id generation (OriginSnapshot ui_session snapshot) s1)))"

text \<open>The handler of one admitted frame.\<close>

definition handle_request ::
  "('c, 'a, 'k) bridge_api \<Rightarrow> 'a host_answers \<Rightarrow> str \<Rightarrow> ('c, unit) pipe_request \<Rightarrow> ('c, 'k) bridge
   \<Rightarrow> ('c, 'a, 'k) bridge_result" where
  "handle_request api ans cli r s =
     (let rid = rq_request_id r; g = rq_generation r in
      case rq_payload r of
        BrDispatch execution (DispatchCommand command) \<Rightarrow>
          dispatch_command api ans cli rid g execution command s
      | BrDispatch execution (PostDismissalCreation ui_pane origin_pane command) \<Rightarrow>
          defer_post_dismissal api ans cli rid g execution (api_pane_parse api ui_pane)
            (api_pane_parse api origin_pane) command s
      | BrDispatch execution (FocusPaneByIndex index) \<Rightarrow> focus_by_index cli rid g execution index s
      | BrDispatch execution (FocusPaneNeighbor direction) \<Rightarrow> focus_neighbor cli rid g execution direction s
      | BrBeginCapture lease _ \<Rightarrow> begin_capture cli rid g lease s
      | BrEndCapture lease _ \<Rightarrow> end_capture cli rid g lease s
      | BrRenewCapture lease \<Rightarrow> renew_capture cli rid g lease s
      | BrRequestOrigin ui_session request \<Rightarrow>
          request_origin api ans cli rid g ui_session (origin_ui_pane request) s
      | BrRetire \<Rightarrow> retire cli rid g s
      | BrShutdown \<Rightarrow> retire cli rid g s
      | BrHost _ \<Rightarrow> (s, []))"

definition admitted :: "('c, unit) pipe_request \<Rightarrow> ('c, 'k) bridge \<Rightarrow> bool" where
  "admitted r s \<longleftrightarrow>
     (case b_client_id s of None \<Rightarrow> False | Some (HostClientId c) \<Rightarrow> target_client (rq_target r) = c)
     \<and> Some (rq_registration r) = b_registration s
     \<and> Some (rq_generation r) = b_generation s"

definition sequence_warning ::
  "('c, unit) pipe_request \<Rightarrow> ('c, 'k) bridge \<Rightarrow> ('a, 'k) host_effect list" where
  "sequence_warning r s =
     (case b_last_request s of
        None \<Rightarrow> []
      | Some previous \<Rightarrow>
          if request_id_next previous \<noteq> Inr (rq_request_id r)
          then [FxWarnSequence (rq_request_id r) previous (rq_registration r)] else [])"

definition on_request ::
  "('c, 'a, 'k) bridge_api \<Rightarrow> 'a host_answers \<Rightarrow> str \<Rightarrow> str option \<Rightarrow> ('c, 'k) bridge
   \<Rightarrow> ('c, 'a, 'k) bridge_result" where
  "on_request api ans cli payload s =
     (case payload of
        None \<Rightarrow> (s, [])
      | Some line \<Rightarrow>
          (case decode_request_line (api_request_json api) line of
             Inl _ \<Rightarrow> (s, [])
           | Inr r \<Rightarrow>
               if \<not> admitted r s then (s, [])
               else fx_then (s\<lparr>b_last_request := Some (rq_request_id r)\<rparr>, sequence_warning r s)
                      (handle_request api ans cli r)))"

section \<open>The plugin\<close>

definition REQUEST_PREFIX :: str where
  "REQUEST_PREFIX = lit ''muxe-request-''"

definition EVENT_PREFIX :: str where
  "EVENT_PREFIX = lit ''muxe-event-''"

definition starts_with :: "str \<Rightarrow> str \<Rightarrow> bool" where
  "starts_with p t \<longleftrightarrow> take (length p) t = p"

definition pipe_in ::
  "('c, 'a, 'k) bridge_api \<Rightarrow> 'a host_answers \<Rightarrow> pipe_message \<Rightarrow> ('c, 'k) bridge \<Rightarrow> ('c, 'a, 'k) bridge_result" where
  "pipe_in api ans message s =
     (case pm_source message of
        CliSource cli \<Rightarrow>
          if starts_with EVENT_PREFIX (pm_name message) then subscribe api cli (pm_payload message) s
          else if starts_with REQUEST_PREFIX (pm_name message) then
            on_request api ans cli (pm_payload message) s
          else (s, [])
      | PluginSource _ \<Rightarrow> (s, [])
      | KeybindSource \<Rightarrow> (s, []))"

definition load :: "u32 \<Rightarrow> u32 \<Rightarrow> ('c, 'k) bridge \<Rightarrow> ('c, 'a, 'k) bridge_result" where
  "load plugin client s =
     (s\<lparr>b_plugin_id := Some plugin, b_plugin_client := Some client\<rparr>,
      [FxSubscribe [''PermissionRequestResult'', ''ListClients'', ''ModeUpdate'', ''PaneUpdate'',
         ''TabUpdate'', ''SessionUpdate'', ''ActionComplete'', ''Timer''],
       FxRequestPermissions [''ReadApplicationState'', ''ChangeApplicationState'', ''RunActionsAsUser'',
         ''OpenFiles'', ''OpenTerminalsOrPlugins'', ''RunCommands'', ''WriteToStdin'',
         ''WriteToClipboard'', ''Reconfigure'', ''FullHdAccess'', ''ReadCliPipes''],
       FxArmTimer])"

definition permission_result :: "permission_status \<Rightarrow> ('c, 'k) bridge \<Rightarrow> ('c, 'a, 'k) bridge_result" where
  "permission_result status s =
     (case status of
        PermissionGranted \<Rightarrow>
          (s\<lparr>b_gate := GateGranted\<rparr>, if b_client_id s = None then [FxListClients] else [])
      | PermissionDenied \<Rightarrow>
          (if b_client_id s = None then s\<lparr>b_gate := GateDenied\<rparr> else s, []))"

definition update_host ::
  "('c, 'a, 'k) bridge_api \<Rightarrow> 'a host_answers \<Rightarrow> host_event \<Rightarrow> ('c, 'k) bridge \<Rightarrow> ('c, 'a, 'k) bridge_result" where
  "update_host api ans event s =
     (case event of
        ListClients clients \<Rightarrow> on_list_clients api ans clients s
      | ModeUpdate mode \<Rightarrow> on_mode_update mode s
      | PaneUpdate manifest \<Rightarrow> on_pane_update api ans manifest s
      | TabUpdate tabs \<Rightarrow> (on_tab_update tabs s, [])
      | SessionUpdate sessions \<Rightarrow> (on_session_update sessions s, [])
      | ActionComplete floating pane context \<Rightarrow> on_action_complete floating pane context s
      | TimerEvent \<Rightarrow> on_timer s
      | PermissionResult status \<Rightarrow> permission_result status s
      | BeforeClose \<Rightarrow> on_before_close s
      | OtherEvent \<Rightarrow> (s, []))"

definition bridge_step ::
  "('c, 'a, 'k) bridge_api \<Rightarrow> ('c, 'k) bridge \<Rightarrow> bridge_input \<times> 'a host_answers \<Rightarrow> ('c, 'a, 'k) bridge_result" where
  "bridge_step api s inp =
     (case inp of (input, ans) \<Rightarrow>
        (case input of
           LoadPlugin plugin client \<Rightarrow> load plugin client s
         | HostEvent event \<Rightarrow> update_host api ans event s
         | PipeInput message \<Rightarrow> pipe_in api ans message s))"

end
