(* ===== verification/Bridge_Capture.thy ===== *)
theory Bridge_Capture
  imports Zellij_Bridge
begin

text \<open>
  Input capture by the Zellij bridge: the invariants of the capture and registration state, the
  obligation to give the host its input mode back, and the broker-renewed lease.
\<close>

section \<open>What the helpers leave alone\<close>

lemma dispatch_post_state:
  "\<exists>t. fst (dispatch_post_dismissal api ans p s) = s\<lparr>b_actions := t\<rparr>"
  unfolding dispatch_post_dismissal_def
  by (auto split: option.split sum.split ready_dispatch.split intro: exI [of _ "b_actions s"])

lemma post_loop_state: "\<exists>t. fst (post_loop api ans ps s) = s\<lparr>b_actions := t\<rparr>"
proof (induction ps arbitrary: s)
  case Nil
  show ?case by (auto intro: exI [of _ "b_actions s"])
next
  case (Cons p ps)
  obtain t where t: "fst (dispatch_post_dismissal api ans p s) = s\<lparr>b_actions := t\<rparr>"
    using dispatch_post_state by blast
  obtain t' where t': "fst (post_loop api ans ps (s\<lparr>b_actions := t\<rparr>)) = s\<lparr>b_actions := t\<rparr>\<lparr>b_actions := t'\<rparr>"
    using Cons.IH by blast
  show ?case using Cons.IH [of s] t t' by (auto simp: split_def)
qed

lemma try_post_state:
  "\<exists>t ps. fst (try_post_dismissals api ans s) = s\<lparr>b_actions := t, b_post := ps\<rparr>"
proof -
  obtain t where "fst (post_loop api ans (b_post s) (s\<lparr>b_post := []\<rparr>)) = s\<lparr>b_post := [], b_actions := t\<rparr>"
    using post_loop_state by blast
  then show ?thesis by (auto simp: try_post_dismissals_def split_def)
qed

lemma try_post_fields [simp]:
  fixes s :: "('c, 'k) bridge" and api :: "('c, 'a, 'k) bridge_api"
  shows "b_client_id (fst (try_post_dismissals api ans s)) = b_client_id s"
    "b_focused (fst (try_post_dismissals api ans s)) = b_focused s"
    "b_gate (fst (try_post_dismissals api ans s)) = b_gate s"
    "b_event_cli (fst (try_post_dismissals api ans s)) = b_event_cli s"
    "b_pending_subscribe (fst (try_post_dismissals api ans s)) = b_pending_subscribe s"
    "b_registration (fst (try_post_dismissals api ans s)) = b_registration s"
    "b_generation (fst (try_post_dismissals api ans s)) = b_generation s"
    "b_last_request (fst (try_post_dismissals api ans s)) = b_last_request s"
    "b_mode (fst (try_post_dismissals api ans s)) = b_mode s"
    "b_pending (fst (try_post_dismissals api ans s)) = b_pending s"
    "b_active (fst (try_post_dismissals api ans s)) = b_active s"
    "b_restoring (fst (try_post_dismissals api ans s)) = b_restoring s"
    "b_pending_ui (fst (try_post_dismissals api ans s)) = b_pending_ui s"
    "b_capture_panes (fst (try_post_dismissals api ans s)) = b_capture_panes s"
    "b_origin (fst (try_post_dismissals api ans s)) = b_origin s"
    "b_inventory (fst (try_post_dismissals api ans s)) = b_inventory s"
proof -
  obtain t ps where "fst (try_post_dismissals api ans s) = s\<lparr>b_actions := t, b_post := ps\<rparr>"
    using try_post_state by blast
  then show "b_client_id (fst (try_post_dismissals api ans s)) = b_client_id s"
    "b_focused (fst (try_post_dismissals api ans s)) = b_focused s"
    "b_gate (fst (try_post_dismissals api ans s)) = b_gate s"
    "b_event_cli (fst (try_post_dismissals api ans s)) = b_event_cli s"
    "b_pending_subscribe (fst (try_post_dismissals api ans s)) = b_pending_subscribe s"
    "b_registration (fst (try_post_dismissals api ans s)) = b_registration s"
    "b_generation (fst (try_post_dismissals api ans s)) = b_generation s"
    "b_last_request (fst (try_post_dismissals api ans s)) = b_last_request s"
    "b_mode (fst (try_post_dismissals api ans s)) = b_mode s"
    "b_pending (fst (try_post_dismissals api ans s)) = b_pending s"
    "b_active (fst (try_post_dismissals api ans s)) = b_active s"
    "b_restoring (fst (try_post_dismissals api ans s)) = b_restoring s"
    "b_pending_ui (fst (try_post_dismissals api ans s)) = b_pending_ui s"
    "b_capture_panes (fst (try_post_dismissals api ans s)) = b_capture_panes s"
    "b_origin (fst (try_post_dismissals api ans s)) = b_origin s"
    "b_inventory (fst (try_post_dismissals api ans s)) = b_inventory s"
    by simp_all
qed

text \<open>The four fields that decide who owns the input mode.\<close>

definition capture_view :: "('c, 'k) bridge \<Rightarrow>
    input_mode option \<times> restore_barrier option \<times> pending_capture option \<times> active_capture option" where
  "capture_view s = (b_mode s, b_restoring s, b_pending s, b_active s)"

lemma census_view [simp]: "capture_view (census c s) = capture_view s"
  by (simp add: census_def capture_view_def Let_def)

lemma try_register_view [simp]: "capture_view (fst (try_register api ans s)) = capture_view s"
  by (simp add: try_register_def capture_view_def Let_def split: option.split host_client_id.split sum.split)

lemma try_post_view [simp]: "capture_view (fst (try_post_dismissals api ans s)) = capture_view s"
  by (simp add: capture_view_def)

lemma on_list_clients_view [simp]: "capture_view (fst (on_list_clients api ans cs s)) = capture_view s"
proof -
  have "capture_view (census c s\<lparr>b_gate := g\<rparr>) = capture_view s" for c g
    using census_view [of c s] by (simp add: capture_view_def)
  then show ?thesis by (simp add: on_list_clients_def split: option.split)
qed

lemma bind_ui_view [simp]: "capture_view (bind_capture_ui l s) = capture_view s"
  by (simp add: bind_capture_ui_def capture_view_def Let_def split: option.split)

lemma release_ui_fields [simp]:
  "capture_view (release_capture_ui l s) = capture_view s"
  "b_mode (release_capture_ui l s) = b_mode s" "b_restoring (release_capture_ui l s) = b_restoring s"
  "b_pending (release_capture_ui l s) = b_pending s" "b_active (release_capture_ui l s) = b_active s"
  "b_registration (release_capture_ui l s) = b_registration s"
  by (simp_all add: release_capture_ui_def capture_view_def)

lemma clear_ui_fields [simp]:
  "capture_view (clear_capture_ui s) = capture_view s"
  "b_registration (clear_capture_ui s) = b_registration s" "b_mode (clear_capture_ui s) = b_mode s"
  by (simp_all add: clear_capture_ui_def capture_view_def)

section \<open>Who owns the input mode\<close>

text \<open>
  An active capture has observed the Locked mode it asked for, nothing else is pending or being
  restored, and its lease has one to three ticks left. A pending capture has asked for Locked
  exactly when a mode has been observed and no restoration is awaited, and then it remembers the
  mode the host is in.
\<close>

fun capture_ok ::
  "input_mode option \<times> restore_barrier option \<times> pending_capture option \<times> active_capture option \<Rightarrow> bool" where
  "capture_ok (mode, restoring, pending, active) \<longleftrightarrow>
     (case active of None \<Rightarrow> True
      | Some a \<Rightarrow> mode = Some ModeLocked \<and> restoring = None \<and> pending = None
                 \<and> 0 < ac_ticks a \<and> ac_ticks a \<le> CAPTURE_LEASE_TICKS)
     \<and> (case pending of None \<Rightarrow> True
        | Some p \<Rightarrow> pc_requested p = (restoring = None \<and> mode \<noteq> None)
                   \<and> (restoring = None \<longrightarrow> pc_prior p = mode \<and> mode \<noteq> Some ModeLocked))"

definition capture_inv :: "('c, 'k) bridge \<Rightarrow> bool" where
  "capture_inv s \<longleftrightarrow> capture_ok (capture_view s)"

lemma ticks_bounds [simp]: "(0::u32) < CAPTURE_LEASE_TICKS" "CAPTURE_LEASE_TICKS \<le> (3::u32)"
  by (simp_all add: CAPTURE_LEASE_TICKS_def)

lemma capture_inv_new: "capture_inv new_bridge"
  by (simp add: capture_inv_def new_bridge_def capture_view_def)

lemma mode_update_inv: "capture_inv s \<Longrightarrow> capture_inv (fst (on_mode_update mode s))"
  by (cases "b_pending s"; cases "b_active s"; cases "b_restoring s")
    (auto simp: on_mode_update_def mode_settled_def capture_inv_def capture_view_def Let_def
      release_capture_ui_def)

lemma cancel_inv:
  assumes "capture_inv s"
  shows "capture_inv (fst (cancel_capture_for_restore w s))"
  using assms
  by (cases "b_pending s"; cases "b_active s")
    (auto simp: cancel_capture_for_restore_def cancel_pending_def cancel_active_def capture_inv_def
      capture_view_def Let_def release_capture_ui_def split: option.splits)

lemma cancel_capture_fst:
  fixes s :: "('c, 'k) bridge"
  shows "fst (cancel_capture w s :: ('c, 'a, 'k) bridge_result) = fst (cancel_capture_for_restore w s
    :: ('c, 'k) bridge \<times> ('a, 'k) host_effect list \<times> active_capture option)"
    "snd (cancel_capture w s :: ('c, 'a, 'k) bridge_result) = fst (snd (cancel_capture_for_restore w s))"
  by (simp_all add: cancel_capture_def split_def)

lemma cancel_capture_inv: "capture_inv s \<Longrightarrow> capture_inv (fst (cancel_capture w s))"
  by (simp add: cancel_capture_fst cancel_inv)

lemma capture_inv_cong: "capture_view s = capture_view t \<Longrightarrow> capture_inv s = capture_inv t"
  by (simp add: capture_inv_def)

lemma unat_dec: "unat (saturating_dec n) = unat n - 1"
  by (simp add: saturating_dec_def unat_minus_one)

lemma dec_ticks:
  "n \<le> m \<Longrightarrow> saturating_dec n \<le> m" "saturating_dec n = 0 \<longleftrightarrow> unat n \<le> 1"
  using unat_dec [of n] by (auto simp: word_le_nat_alt unat_eq_0 [symmetric])

lemma timer_inv: "capture_inv s \<Longrightarrow> capture_inv (fst (on_timer s))"
  by (cases "b_pending s"; cases "b_active s")
    (auto simp: on_timer_def expire_capture_lease_def cancel_capture_for_restore_def cancel_pending_def
      cancel_active_def capture_inv_def capture_view_def Let_def release_capture_ui_def lease_matches_def
      word_gt_0 dec_ticks)

lemma begin_capture_inv: "capture_inv s \<Longrightarrow> capture_inv (fst (begin_capture cli r g l s))"
proof -
  assume "capture_inv s"
  then have "capture_inv (bind_capture_ui l s)" by (simp add: capture_inv_def)
  then show ?thesis unfolding begin_capture_def Let_def
    by (cases "b_pending (bind_capture_ui l s)"; cases "b_active (bind_capture_ui l s)")
      (auto simp: capture_inv_def capture_view_def)
qed

lemma end_capture_inv: "capture_inv s \<Longrightarrow> capture_inv (fst (end_capture cli r g l s))"
  by (simp add: end_capture_def cancel_capture_inv capture_inv_cong [of "release_capture_ui l s" s])

lemma renew_capture_inv: "capture_inv s \<Longrightarrow> capture_inv (fst (renew_capture cli r g l s))"
  by (auto simp: renew_capture_def capture_inv_def capture_view_def Let_def split: option.splits)

lemma fail_post_state: "fst (fail_post_dismissals reason s) = s\<lparr>b_post := []\<rparr>"
  by (simp add: fail_post_dismissals_def Let_def)

lemma retire_inv: "capture_inv s \<Longrightarrow> capture_inv (fst (retire cli r g s))"
  unfolding retire_def fx_then_simps Let_def fail_post_state fst_conv
  by (rule capture_inv_cong [THEN iffD1, OF _ cancel_capture_inv])
    (simp add: capture_view_def clear_capture_ui_def)

lemma subscribe_inv: "capture_inv s \<Longrightarrow> capture_inv (fst (subscribe api cli payload s))"
  unfolding subscribe_def
  by (auto split: option.split
      intro: capture_inv_cong [THEN iffD1, OF _ cancel_capture_inv]
      simp: capture_view_def clear_capture_ui_def)

lemma cancel_all_done:
  "b_pending (fst (cancel_capture_for_restore None s)) = None"
  "b_active (fst (cancel_capture_for_restore None s)) = None"
  by (cases "b_pending s"; cases "b_active s";
      auto simp: cancel_capture_for_restore_def cancel_pending_def cancel_active_def Let_def
        lease_matches_def release_capture_ui_def split: option.splits)+

lemma unload_capture_fst:
  fixes s :: "('c, 'k) bridge"
  shows "fst (unload_capture s :: ('c, 'a, 'k) bridge_result) = fst (cancel_capture_for_restore None s
    :: ('c, 'k) bridge \<times> ('a, 'k) host_effect list \<times> active_capture option)"
  by (simp add: unload_capture_def Let_def split_def)

lemma before_close_inv: "capture_inv (fst (on_before_close s))"
  by (simp add: on_before_close_def Let_def fail_post_state capture_inv_def capture_view_def
      clear_capture_ui_def unload_capture_fst cancel_all_done)

text \<open>The other handlers leave the four fields alone.\<close>

lemma handler_views [simp]:
  "capture_view (fst (on_pane_update api ans m s)) = capture_view s"
  "capture_view (on_tab_update tabs s) = capture_view s"
  "capture_view (on_session_update sessions s) = capture_view s"
  "capture_view (fst (on_action_complete fl pane ctx s)) = capture_view s"
  "capture_view (fst (load p c s)) = capture_view s"
  "capture_view (fst (permission_result status s)) = capture_view s"
  "capture_view (fst (dispatch_command api ans cli r g e c0 s)) = capture_view s"
  "capture_view (fst (defer_post_dismissal api ans cli r g e up op c0 s)) = capture_view s"
  "capture_view (fst (focus_by_index cli r g e i s)) = capture_view s"
  "capture_view (fst (focus_neighbor cli r g e d s)) = capture_view s"
  "capture_view (fst (request_origin api ans cli r g u pane_text s)) = capture_view s"
  by (simp_all add: capture_view_def on_pane_update_def on_tab_update_def on_session_update_def
      on_action_complete_def load_def permission_result_def dispatch_command_def
      defer_post_dismissal_def focus_by_index_def focus_neighbor_def request_origin_def Let_def
      split: option.split permission_status.split sum.split ready_dispatch.split prod.split)

lemmas handler_invs [simp] = handler_views [THEN capture_inv_cong]
  on_list_clients_view [THEN capture_inv_cong]

lemma handle_request_inv: "capture_inv s \<Longrightarrow> capture_inv (fst (handle_request api ans cli r s))"
  by (simp add: handle_request_def Let_def begin_capture_inv end_capture_inv renew_capture_inv
      retire_inv split: bridge_request.split zellij_dispatch.split)

lemma pipe_in_inv: "capture_inv s \<Longrightarrow> capture_inv (fst (pipe_in api ans m s))"
proof -
  assume "capture_inv s"
  moreover from this have "capture_inv (s\<lparr>b_last_request := x\<rparr>)" for x
    by (simp add: capture_inv_def capture_view_def)
  ultimately show ?thesis
    by (simp add: pipe_in_def on_request_def subscribe_inv handle_request_inv
        split: pipe_source.split option.split sum.split)
qed

lemma update_host_inv: "capture_inv s \<Longrightarrow> capture_inv (fst (update_host api ans e s))"
  by (cases e) (simp_all add: update_host_def mode_update_inv timer_inv before_close_inv)

lemma capture_inv_step: "capture_inv s \<Longrightarrow> capture_inv (fst (bridge_step api s x))"
  by (cases x) (simp add: bridge_step_def update_host_inv pipe_in_inv split: bridge_input.split)

lemma reachable_capture_inv: "capture_inv (fst (run (bridge_step api) new_bridge xs))"
  by (rule event_machine.run_inv [where inv = capture_inv and good = "\<lambda>_. True"])
    (unfold_locales, simp_all add: capture_inv_step capture_inv_new list_all_iff)

section \<open>The requests of a step\<close>

text \<open>The frame a pipe message carries, and whether this bridge acts on it.\<close>

definition request_of ::
  "('c, 'a, 'k) bridge_api \<Rightarrow> bridge_input \<Rightarrow> (str \<times> ('c, unit) pipe_request) option" where
  "request_of api input =
     (case input of
        PipeInput m \<Rightarrow>
          (case (pm_source m, pm_payload m) of
             (CliSource cli, Some line) \<Rightarrow>
               if \<not> starts_with EVENT_PREFIX (pm_name m) \<and> starts_with REQUEST_PREFIX (pm_name m)
               then (case decode_request_line (api_request_json api) line of
                       Inl _ \<Rightarrow> None | Inr r \<Rightarrow> Some (cli, r))
               else None
           | _ \<Rightarrow> None)
      | _ \<Rightarrow> None)"

definition admitted_request ::
  "('c, 'a, 'k) bridge_api \<Rightarrow> ('c, 'k) bridge \<Rightarrow> bridge_input \<Rightarrow> (str \<times> ('c, unit) pipe_request) option" where
  "admitted_request api s input =
     (case request_of api input of
        None \<Rightarrow> None
      | Some (cli, r) \<Rightarrow> if admitted r s then Some (cli, r) else None)"

text \<open>A subscription that installs a new event channel.\<close>

definition subscription_of ::
  "('c, 'a, 'k) bridge_api \<Rightarrow> bridge_input \<Rightarrow> (str \<times> event_subscription) option" where
  "subscription_of api input =
     (case input of
        PipeInput m \<Rightarrow>
          (case (pm_source m, pm_payload m) of
             (CliSource cli, Some line) \<Rightarrow>
               if starts_with EVENT_PREFIX (pm_name m)
               then (case decode_event_subscription (api_subscription_json api) line of
                       Inl _ \<Rightarrow> None | Inr sub \<Rightarrow> Some (cli, sub))
               else None
           | _ \<Rightarrow> None)
      | _ \<Rightarrow> None)"

definition note_request :: "('c, unit) pipe_request \<Rightarrow> ('c, 'k) bridge \<Rightarrow> ('c, 'k) bridge" where
  "note_request r s = s\<lparr>b_last_request := Some (rq_request_id r)\<rparr>"

lemma step_request:
  "admitted_request api s input = Some (cli, r) \<Longrightarrow>
   bridge_step api s (input, ans) =
     fx_then (note_request r s, sequence_warning r s) (handle_request api ans cli r)"
  by (cases input)
    (auto simp: admitted_request_def request_of_def bridge_step_def pipe_in_def on_request_def note_request_def
      split: option.splits pipe_source.splits sum.splits if_splits)

lemma step_pipe_ignored:
  "input = PipeInput m \<Longrightarrow> admitted_request api s input = None \<Longrightarrow> subscription_of api input = None
   \<Longrightarrow> bridge_step api s (input, ans) = (s, [])"
  by (auto simp: admitted_request_def request_of_def subscription_of_def bridge_step_def pipe_in_def
      on_request_def subscribe_def
      split: option.splits pipe_source.splits sum.splits if_splits)

lemma step_subscription:
  "subscription_of api input = Some (cli, sub) \<Longrightarrow>
   \<exists>payload. bridge_step api s (input, ans) = subscribe api cli (Some payload) s
     \<and> decode_event_subscription (api_subscription_json api) payload = Inr sub"
  by (cases input)
    (auto simp: subscription_of_def bridge_step_def pipe_in_def
      split: option.splits pipe_source.splits sum.splits if_splits)

text \<open>Every step is one of: an admitted request, a subscription, an ignored message, a host event.\<close>

lemma step_cases:
  obtains (request) cli r where "admitted_request api s input = Some (cli, r)"
    "bridge_step api s (input, ans) = fx_then (note_request r s, sequence_warning r s) (handle_request api ans cli r)"
  | (subscription) cli sub payload where "subscription_of api input = Some (cli, sub)"
    "bridge_step api s (input, ans) = subscribe api cli (Some payload) s"
    "decode_event_subscription (api_subscription_json api) payload = Inr sub"
  | (ignored) m where "input = PipeInput m" "admitted_request api s input = None"
    "subscription_of api input = None" "bridge_step api s (input, ans) = (s, [])"
  | (host) e where "input = HostEvent e" "bridge_step api s (input, ans) = update_host api ans e s"
  | (load) p c where "input = LoadPlugin p c" "bridge_step api s (input, ans) = load p c s"
proof (cases input)
  case (PipeInput m)
  show ?thesis
  proof (cases "admitted_request api s input")
    case (Some q)
    then show ?thesis using request step_request [of api s input] by (cases q) blast
  next
    case none: None
    show ?thesis
    proof (cases "subscription_of api input")
      case (Some q)
      then show ?thesis using subscription step_subscription [of api input] by (cases q) blast
    next
      case None
      then show ?thesis using ignored PipeInput none step_pipe_ignored [OF PipeInput none None] by blast
    qed
  qed
qed (auto simp: bridge_step_def intro: host load)

section \<open>The obligation to give the mode back\<close>

text \<open>
  The mode the bridge owes the host: the mode it replaced by Locked, or has asked to replace.
\<close>

definition owed :: "('c, 'k) bridge \<Rightarrow> input_mode option" where
  "owed s =
     (case b_active s of
        Some a \<Rightarrow> if ac_prior a = ModeLocked then None else Some (ac_prior a)
      | None \<Rightarrow>
          (case b_pending s of
             Some p \<Rightarrow> if pc_requested p then pc_prior p else None
           | None \<Rightarrow> None))"

lemma owed_view: "capture_view s = capture_view t \<Longrightarrow> owed s = owed t"
  by (simp add: owed_def capture_view_def split: option.split)

lemmas owed_views [simp] = handler_views [THEN owed_view] on_list_clients_view [THEN owed_view]
  release_ui_fields(1) [THEN owed_view] clear_ui_fields(1) [THEN owed_view] bind_ui_view [THEN owed_view]

lemma owed_note [simp]: "owed (note_request r s) = owed s" "b_active (note_request r s) = b_active s"
  "capture_inv (note_request r s) = capture_inv s"
  by (simp_all add: owed_def note_request_def capture_inv_def capture_view_def split: option.split)

lemma cancel_pays:
  assumes "capture_inv s" "owed s = Some m"
  shows "owed (fst (cancel_capture_for_restore w s)) = Some m
    \<or> FxSwitchMode m \<in> set (fst (snd (cancel_capture_for_restore w s)))"
  using assms
  by (cases "b_pending s"; cases "b_active s")
    (auto simp: cancel_capture_for_restore_def cancel_pending_def cancel_active_def capture_inv_def
      capture_view_def Let_def release_capture_ui_def owed_def split: option.splits if_splits)

lemma timer_pays:
  assumes "capture_inv s" "owed s = Some m"
  shows "owed (fst (on_timer s)) = Some m \<or> FxSwitchMode m \<in> set (snd (on_timer s))"
  using assms
  by (cases "b_pending s"; cases "b_active s")
    (auto simp: on_timer_def expire_capture_lease_def cancel_capture_for_restore_def cancel_pending_def
      cancel_active_def capture_inv_def capture_view_def Let_def release_capture_ui_def lease_matches_def
      owed_def split: if_splits)

lemma begin_keeps:
  assumes "capture_inv s" "owed s = Some m"
  shows "owed (fst (begin_capture cli r g l s)) = Some m
    \<or> (\<exists>a. b_active s = Some a \<and> ac_lease a \<noteq> l)"
proof -
  let ?b = "bind_capture_ui l s"
  have "capture_view ?b = capture_view s" by simp
  then have f: "b_mode ?b = b_mode s" "b_restoring ?b = b_restoring s" "b_pending ?b = b_pending s"
    "b_active ?b = b_active s" by (simp_all add: capture_view_def)
  show ?thesis using assms unfolding begin_capture_def Let_def f
    by (cases "b_pending s"; cases "b_active s")
      (auto simp: capture_inv_def capture_view_def owed_def f split: if_splits)
qed

lemma mode_update_pays:
  assumes "capture_inv s" "owed s = Some m"
  shows "owed (fst (on_mode_update n s)) = Some m \<or> n \<noteq> ModeLocked"
  using assms
  by (cases "b_pending s"; cases "b_active s"; cases "b_restoring s")
    (auto simp: on_mode_update_def mode_settled_def capture_inv_def capture_view_def Let_def owed_def)

lemma owed_cancelled: "owed (fst (cancel_capture_for_restore None s)) = None"
  by (simp add: owed_def cancel_all_done)

lemma cancel_all_pays:
  "capture_inv s \<Longrightarrow> owed s = Some m \<Longrightarrow> FxSwitchMode m \<in> set (snd (cancel_capture None s))"
  using cancel_pays [of s m None] by (simp add: cancel_capture_fst owed_cancelled)

lemma request_pays:
  assumes "capture_inv s" "owed s = Some m"
  shows "owed (fst (handle_request api ans cli r s)) = Some m
    \<or> FxSwitchMode m \<in> set (snd (handle_request api ans cli r s))
    \<or> (\<exists>l u a. rq_payload r = BrBeginCapture l u \<and> b_active s = Some a \<and> ac_lease a \<noteq> l)"
proof (cases "rq_payload r")
  case (BrDispatch e d)
  then show ?thesis using assms by (cases d) (simp_all add: handle_request_def Let_def)
next
  case (BrBeginCapture l u)
  then show ?thesis
    using begin_keeps [OF assms, where l = l] by (auto simp: handle_request_def Let_def)
next
  case (BrEndCapture l reason)
  have "capture_inv (release_capture_ui l s)" "owed (release_capture_ui l s) = Some m"
    using assms by (simp_all add: capture_inv_cong [of "release_capture_ui l s" s])
  from cancel_pays [OF this, of "Some l"] show ?thesis
    using BrEndCapture by (auto simp: handle_request_def Let_def end_capture_def cancel_capture_fst)
next
  case (BrRenewCapture l)
  then show ?thesis using assms
    by (auto simp: handle_request_def Let_def renew_capture_def owed_def split: option.splits if_splits)
next
  case BrRetire
  then show ?thesis by (simp add: handle_request_def Let_def retire_def cancel_all_pays [OF assms])
next
  case BrShutdown
  then show ?thesis by (simp add: handle_request_def Let_def retire_def cancel_all_pays [OF assms])
qed (use assms in \<open>simp_all add: handle_request_def Let_def\<close>)

lemma unload_pays:
  assumes "capture_inv s" "owed s = Some m"
  shows "FxSwitchMode m \<in> set (snd (on_before_close s))"
  using cancel_pays [OF assms, of None]
  by (auto simp: on_before_close_def unload_capture_def owed_cancelled split_def Let_def)

lemma host_pays:
  assumes "capture_inv s" "owed s = Some m" "\<And>n. e = ModeUpdate n \<Longrightarrow> n = ModeLocked"
  shows "owed (fst (update_host api ans e s)) = Some m
    \<or> FxSwitchMode m \<in> set (snd (update_host api ans e s))"
proof (cases e)
  case (ModeUpdate n)
  then show ?thesis using mode_update_pays [OF assms(1,2), of n] assms(3) by (auto simp: update_host_def)
next
  case TimerEvent
  then show ?thesis using timer_pays [OF assms(1,2)] by (auto simp: update_host_def)
next
  case BeforeClose
  then show ?thesis using unload_pays [OF assms(1,2)] by (auto simp: update_host_def)
qed (use assms in \<open>simp_all add: update_host_def\<close>)

text \<open>
  C13: the bridge never forgets that it replaced the host's input mode. In every reachable state in
  which it owes the host a mode (a capture is active, or has asked for Locked), each step either
  keeps the debt or asks the host for exactly that mode. The only exceptions are a later change of
  mode by the user, and the start of a capture under another lease while one is active, which the
  adapter's single-owner table is there to prevent.
\<close>

theorem mode_given_back:
  assumes "s = fst (run (bridge_step api) new_bridge xs)" and "owed s = Some m"
    and "bridge_step api s (input, ans) = (s', fx)"
  shows "owed s' = Some m \<or> FxSwitchMode m \<in> set fx
    \<or> (\<exists>n. input = HostEvent (ModeUpdate n) \<and> n \<noteq> ModeLocked)
    \<or> (\<exists>cli r l u a. admitted_request api s input = Some (cli, r) \<and> rq_payload r = BrBeginCapture l u
         \<and> b_active s = Some a \<and> ac_lease a \<noteq> l)"
proof -
  have iv: "capture_inv s" unfolding assms(1) by (rule reachable_capture_inv)
  have e: "s' = fst (bridge_step api s (input, ans))" "fx = snd (bridge_step api s (input, ans))"
    using assms(3) by simp_all
  show ?thesis
  proof (cases rule: step_cases [where api = api and s = s and input = input and ans = ans])
    case (request cli r)
    then show ?thesis using request_pays [of "note_request r s" m api ans cli r] iv assms(2)
      unfolding e by (auto simp: request(1))
  next
    case (subscription cli sub payload)
    then show ?thesis unfolding e by (simp add: subscribe_def cancel_all_pays [OF iv assms(2)])
  next
    case (host ev)
    then show ?thesis using host_pays [OF iv assms(2), of ev api ans] unfolding e by auto
  qed (use assms(2) in \<open>simp_all add: e\<close>)
qed

text \<open>The last exception is real: the new capture takes Locked for the mode to give back.\<close>

lemma replaced_capture_forgets:
  assumes "capture_inv s" "b_active s = Some a" "ac_lease a \<noteq> l"
  shows "owed (fst (begin_capture cli r g l s)) = None"
    and "b_active (fst (begin_capture cli r g l s)) =
      Some \<lparr>ac_lease = l, ac_prior = ModeLocked, ac_ticks = CAPTURE_LEASE_TICKS\<rparr>"
proof -
  let ?b = "bind_capture_ui l s"
  have "capture_view ?b = capture_view s" by simp
  then have f: "b_mode ?b = b_mode s" "b_restoring ?b = b_restoring s" "b_pending ?b = b_pending s"
    "b_active ?b = b_active s" by (simp_all add: capture_view_def)
  show "owed (fst (begin_capture cli r g l s)) = None"
    "b_active (fst (begin_capture cli r g l s)) =
      Some \<lparr>ac_lease = l, ac_prior = ModeLocked, ac_ticks = CAPTURE_LEASE_TICKS\<rparr>"
    using assms unfolding begin_capture_def Let_def f
    by (auto simp: capture_inv_def capture_view_def owed_def f)
qed

section \<open>A broker that falls silent\<close>

text \<open>The lease is held with at most \<open>n\<close> ticks left, or not at all.\<close>

definition held_at_most :: "capture_lease_id \<Rightarrow> nat \<Rightarrow> ('c, 'k) bridge \<Rightarrow> bool" where
  "held_at_most l n s \<longleftrightarrow>
     (case b_active s of None \<Rightarrow> True | Some a \<Rightarrow> ac_lease a = l \<longrightarrow> unat (ac_ticks a) \<le> n)
     \<and> (case b_pending s of None \<Rightarrow> True | Some p \<Rightarrow> pc_lease p \<noteq> l)"

definition captured_by :: "capture_lease_id \<Rightarrow> ('c, 'k) bridge \<Rightarrow> bool" where
  "captured_by l s \<longleftrightarrow> (case b_active s of None \<Rightarrow> False | Some a \<Rightarrow> ac_lease a = l)"

text \<open>A message that renews or begins the capture of the lease.\<close>

definition speaks_for :: "('c, 'a, 'k) bridge_api \<Rightarrow> capture_lease_id \<Rightarrow> bridge_input \<Rightarrow> bool" where
  "speaks_for api l input =
     (case request_of api input of
        None \<Rightarrow> False
      | Some (_, r) \<Rightarrow>
          (case rq_payload r of
             BrRenewCapture l' \<Rightarrow> l' = l
           | BrBeginCapture l' _ \<Rightarrow> l' = l
           | _ \<Rightarrow> False))"

lemma held_view: "capture_view s = capture_view t \<Longrightarrow> held_at_most l n s = held_at_most l n t"
  by (simp add: held_at_most_def capture_view_def split: option.split)

lemmas held_views [simp] = handler_views [THEN held_view] on_list_clients_view [THEN held_view]
  release_ui_fields(1) [THEN held_view] clear_ui_fields(1) [THEN held_view] bind_ui_view [THEN held_view]

lemma cancel_held: "held_at_most l n s \<Longrightarrow> held_at_most l n (fst (cancel_capture_for_restore w s))"
  by (cases "b_pending s"; cases "b_active s")
    (auto simp: cancel_capture_for_restore_def cancel_pending_def cancel_active_def Let_def
      release_capture_ui_def held_at_most_def split: option.splits)

lemma cancel_all_held: "held_at_most l n (fst (cancel_capture_for_restore None s))"
  by (simp add: held_at_most_def cancel_all_done)

lemma request_held:
  assumes "held_at_most l n s"
    and "case rq_payload r of BrRenewCapture l' \<Rightarrow> l' \<noteq> l | BrBeginCapture l' _ \<Rightarrow> l' \<noteq> l | _ \<Rightarrow> True"
  shows "held_at_most l n (fst (handle_request api ans cli r s))"
proof (cases "rq_payload r")
  case (BrDispatch e d)
  then show ?thesis using assms(1) by (cases d) (simp_all add: handle_request_def Let_def)
next
  case (BrBeginCapture l' u)
  let ?b = "bind_capture_ui l' s"
  have "capture_view ?b = capture_view s" by simp
  then have f: "b_mode ?b = b_mode s" "b_restoring ?b = b_restoring s" "b_pending ?b = b_pending s"
    "b_active ?b = b_active s" by (simp_all add: capture_view_def)
  show ?thesis using BrBeginCapture assms unfolding handle_request_def begin_capture_def Let_def
    by (auto simp: f held_at_most_def split: option.splits)
next
  case (BrEndCapture l' reason)
  have "held_at_most l n (release_capture_ui l' s)" using assms(1) by simp
  then show ?thesis
    using BrEndCapture by (auto simp: handle_request_def Let_def end_capture_def cancel_capture_fst cancel_held)
next
  case (BrRenewCapture l')
  then show ?thesis using assms
    by (auto simp: handle_request_def Let_def renew_capture_def held_at_most_def split: option.splits)
next
  case BrRetire
  then show ?thesis
    by (simp add: handle_request_def Let_def retire_def held_at_most_def fail_post_state
        cancel_capture_fst clear_capture_ui_def cancel_all_done)
next
  case BrShutdown
  then show ?thesis
    by (simp add: handle_request_def Let_def retire_def held_at_most_def fail_post_state
        cancel_capture_fst clear_capture_ui_def cancel_all_done)
qed (use assms in \<open>simp_all add: handle_request_def Let_def\<close>)

lemma mode_update_held:
  "held_at_most l n s \<Longrightarrow> held_at_most l n (fst (on_mode_update m s))"
  by (cases "b_pending s"; cases "b_active s"; cases "b_restoring s")
    (auto simp: on_mode_update_def mode_settled_def Let_def held_at_most_def release_capture_ui_def)

lemma expire_held: "held_at_most l n s \<Longrightarrow> held_at_most l n (fst (expire_capture_lease s))"
  by (simp add: expire_capture_lease_def split_def cancel_held split: option.split)

lemma timer_held:
  assumes "held_at_most l n s"
  shows "held_at_most l (n - Suc 0) (fst (on_timer s))"
proof (cases "b_active s")
  case None
  then show ?thesis using assms by (simp add: on_timer_def held_at_most_def)
next
  case (Some a)
  let ?s = "s\<lparr>b_active := Some (a\<lparr>ac_ticks := saturating_dec (ac_ticks a)\<rparr>)\<rparr>"
  have "held_at_most l (n - Suc 0) ?s"
    using assms Some by (auto simp: held_at_most_def unat_dec)
  then show ?thesis using Some by (auto simp: on_timer_def Let_def intro!: expire_held)
qed

lemma held_mono: "held_at_most l n s \<Longrightarrow> n \<le> m \<Longrightarrow> held_at_most l m s"
  by (auto simp: held_at_most_def split: option.splits)

definition is_tick :: "bridge_input \<Rightarrow> bool" where
  "is_tick input \<longleftrightarrow> input = HostEvent TimerEvent"

lemma step_held:
  assumes "held_at_most l n s" "\<not> speaks_for api l input"
  shows "held_at_most l (if is_tick input then n - 1 else n) (fst (bridge_step api s (input, ans)))"
proof (cases rule: step_cases [where api = api and s = s and input = input and ans = ans])
  case (request cli r)
  have "held_at_most l n (note_request r s)"
    using assms(1) by (simp add: held_at_most_def note_request_def)
  moreover have "case rq_payload r of BrRenewCapture l' \<Rightarrow> l' \<noteq> l | BrBeginCapture l' _ \<Rightarrow> l' \<noteq> l | _ \<Rightarrow> True"
    using request(1) assms(2)
    by (auto simp: admitted_request_def speaks_for_def split: option.splits if_splits bridge_request.splits)
  ultimately have "held_at_most l n (fst (bridge_step api s (input, ans)))"
    unfolding request by (simp add: request_held)
  moreover have "\<not> is_tick input"
    using request(1) by (auto simp: is_tick_def admitted_request_def request_of_def)
  ultimately show ?thesis by simp
next
  case (subscription cli sub payload)
  have "\<not> is_tick input" using subscription(1) by (auto simp: is_tick_def subscription_of_def)
  then show ?thesis using subscription assms(1)
    by (simp add: subscribe_def held_at_most_def cancel_capture_fst clear_capture_ui_def cancel_all_done)
next
  case (host ev)
  have "held_at_most l n (fst (on_before_close s))"
    by (simp add: held_at_most_def on_before_close_def Let_def fail_post_state clear_capture_ui_def
        unload_capture_fst cancel_all_done)
  then show ?thesis using host assms(1)
    by (cases ev) (simp_all add: is_tick_def update_host_def mode_update_held timer_held)
qed (use assms(1) in \<open>auto simp: is_tick_def\<close>)

lemma run_held:
  assumes "held_at_most l n s" "list_all (\<lambda>x. \<not> speaks_for api l (fst x)) ys"
  shows "held_at_most l (n - length (filter (\<lambda>x. is_tick (fst x)) ys)) (fst (run (bridge_step api) s ys))"
  using assms
proof (induction ys arbitrary: s n)
  case (Cons y ys)
  obtain input ans where y: "y = (input, ans)" by (cases y)
  let ?n = "if is_tick input then n - 1 else n"
  have "held_at_most l ?n (fst (bridge_step api s y))"
    unfolding y using Cons.prems(2) y by (intro step_held [OF Cons.prems(1)]) simp
  then have "held_at_most l (?n - length (filter (\<lambda>x. is_tick (fst x)) ys))
      (fst (run (bridge_step api) (fst (bridge_step api s y)) ys))"
    using Cons.prems(2) by (intro Cons.IH) simp_all
  then show ?case by (cases "is_tick input") (simp_all add: run_Cons y del: run.simps(2))
qed simp

text \<open>
  C36: a silent broker cannot keep the host's input captured. From any reachable state with an
  active capture, after three timer events without a message that renews the capture or begins it
  again, whatever else arrives in between, the capture is no longer active.
\<close>

theorem silent_broker_loses_capture:
  assumes "s = fst (run (bridge_step api) new_bridge xs)" and "captured_by l s"
    and "list_all (\<lambda>x. \<not> speaks_for api l (fst x)) ys"
    and "3 \<le> length (filter (\<lambda>x. is_tick (fst x)) ys)"
  shows "\<not> captured_by l (fst (run (bridge_step api) s ys))"
proof -
  let ?s' = "fst (run (bridge_step api) s ys)"
  have iv: "capture_inv s" unfolding assms(1) by (rule reachable_capture_inv)
  obtain a where a: "b_active s = Some a" "ac_lease a = l"
    using assms(2) by (auto simp: captured_by_def split: option.splits)
  have "unat (ac_ticks a) \<le> 3"
    using iv a(1) by (simp add: capture_inv_def capture_view_def CAPTURE_LEASE_TICKS_def word_le_nat_alt)
  moreover have "b_pending s = None" using iv a(1) by (simp add: capture_inv_def capture_view_def)
  ultimately have "held_at_most l 3 s" using a by (simp add: held_at_most_def)
  then have "held_at_most l 0 ?s'" using run_held [OF _ assms(3)] assms(4) by (metis diff_is_0_eq)
  moreover have "capture_inv ?s'"
    unfolding assms(1) using reachable_capture_inv [of api "xs @ ys"] by (simp add: run_append)
  ultimately show ?thesis
    by (auto simp: captured_by_def held_at_most_def capture_inv_def capture_view_def word_less_nat_alt
        split: option.splits)
qed

text \<open>The last tick restores the mode and reports the loss, once.\<close>

lemma expiry_restores:
  assumes "capture_inv s" "b_active s = Some a" "ac_ticks a = 1"
  shows "snd (on_timer s) =
    (if b_pending_subscribe s \<and> b_gate s = GateGranted then [FxListClients] else [])
    @ emit_unsolicited EvHeartbeat s
    @ [FxSwitchMode (ac_prior a)]
    @ emit_unsolicited (EvCaptureLost (ac_lease a) LostBrokerLeaseExpired) s
    @ [FxArmTimer]"
  using assms
  by (simp add: on_timer_def expire_capture_lease_def cancel_capture_for_restore_def cancel_pending_def
      cancel_active_def capture_inv_def capture_view_def Let_def release_capture_ui_def lease_matches_def
      saturating_dec_def emit_unsolicited_def emit_def split: option.split)

section \<open>No guessed mode\<close>

definition switches :: "('a, 'k) host_effect list \<Rightarrow> input_mode set" where
  "switches fx = {n. FxSwitchMode n \<in> set fx}"

lemma switches_simps [simp]:
  "switches [] = {}" "switches (fx @ gx) = switches fx \<union> switches gx"
  "switches (e # fx) = (case e of FxSwitchMode n \<Rightarrow> {n} | _ \<Rightarrow> {}) \<union> switches fx"
  "switches (concat fxs) = (\<Union>fx \<in> set fxs. switches fx)"
  by (auto simp: switches_def split: host_effect.split)

lemma emit_switches [simp]: "switches (emit r g e s) = {}"
  by (simp add: emit_def split: option.split)

lemma frame_switches [simp]:
  "switches (emit_unsolicited ev s) = {}" "switches (emit_for_request r g resp s) = {}"
  "switches (release cli r g s) = {}" "switches (emit_completion r g x oc s) = {}"
  "switches (complete_actions d s ps) = {}" "switches (snd (fail_post_dismissals d s)) = {}"
  "switches (focus_replies cli r g x oc s) = {}"
  by (simp_all add: emit_unsolicited_def emit_for_request_def release_def emit_completion_def
      complete_actions_def fail_post_dismissals_def Let_def focus_replies_def)

lemma dispatch_post_switches [simp]: "switches (snd (dispatch_post_dismissal api ans p s)) = {}"
  by (simp add: dispatch_post_dismissal_def split: option.split sum.split ready_dispatch.split)

lemma post_loop_switches: "switches (snd (snd (snd (post_loop api ans ps s)))) = {}"
  by (induction ps arbitrary: s) (simp_all add: split_def)

lemma try_post_switches [simp]: "switches (snd (try_post_dismissals api ans s)) = {}"
  by (simp add: try_post_dismissals_def split_def post_loop_switches)

lemma try_register_switches [simp]: "switches (snd (try_register api ans s)) = {}"
  by (simp add: try_register_def Let_def split: option.split host_client_id.split sum.split)

lemma handler_switches [simp]:
  "switches (snd (on_list_clients api ans cs s)) = {}"
  "switches (snd (on_pane_update api ans m s)) = {}"
  "switches (snd (on_action_complete fl pane ctx s)) = {}"
  "switches (snd (load p c s)) = {}"
  "switches (snd (permission_result status s)) = {}"
  "switches (snd (dispatch_command api ans cli r g e c0 s)) = {}"
  "switches (snd (defer_post_dismissal api ans cli r g e up op c0 s)) = {}"
  "switches (snd (focus_by_index cli r g e i s)) = {}"
  "switches (snd (focus_neighbor cli r g e d s)) = {}"
  "switches (snd (request_origin api ans cli r g u pane_text s)) = {}"
  "switches (snd (renew_capture cli r g l s)) = {}"
  "switches (sequence_warning q s) = {}"
  by (simp_all add: on_list_clients_def on_pane_update_def on_action_complete_def load_def
      permission_result_def dispatch_command_def defer_post_dismissal_def focus_by_index_def
      focus_neighbor_def request_origin_def renew_capture_def sequence_warning_def
      completion_outcome_def Let_def split_def
      split: option.split permission_status.split sum.split ready_dispatch.split)

lemma cancel_switches:
  "capture_inv s \<Longrightarrow> n \<in> switches (fst (snd (cancel_capture_for_restore w s))) \<Longrightarrow> n = ModeLocked \<or> owed s = Some n"
  by (cases "b_pending s"; cases "b_active s")
    (auto simp: cancel_capture_for_restore_def cancel_pending_def cancel_active_def capture_inv_def
      capture_view_def Let_def release_capture_ui_def owed_def split: option.splits if_splits)

lemma begin_switches: "n \<in> switches (snd (begin_capture cli r g l s)) \<Longrightarrow> n = ModeLocked"
  by (auto simp: begin_capture_def Let_def split: option.splits if_splits)

lemma mode_update_switches: "n \<in> switches (snd (on_mode_update m s)) \<Longrightarrow> n = ModeLocked"
  by (auto simp: on_mode_update_def mode_settled_def Let_def split: option.splits if_splits)

lemma timer_switches:
  assumes "capture_inv s" "n \<in> switches (snd (on_timer s))"
  shows "n = ModeLocked \<or> owed s = Some n"
  using assms
  by (cases "b_pending s"; cases "b_active s")
    (auto simp: on_timer_def expire_capture_lease_def cancel_capture_for_restore_def cancel_pending_def
      cancel_active_def capture_inv_def capture_view_def Let_def release_capture_ui_def lease_matches_def
      owed_def split: if_splits)

lemma request_switches:
  assumes "capture_inv s" "n \<in> switches (snd (handle_request api ans cli r s))"
  shows "n = ModeLocked \<or> owed s = Some n"
proof (cases "rq_payload r")
  case (BrDispatch e d)
  then show ?thesis using assms by (cases d) (simp_all add: handle_request_def Let_def)
next
  case (BrBeginCapture l u)
  then show ?thesis using assms by (simp add: handle_request_def Let_def begin_switches)
next
  case (BrEndCapture l reason)
  have "capture_inv (release_capture_ui l s)" "owed (release_capture_ui l s) = owed s"
    using assms by (simp_all add: capture_inv_cong [of "release_capture_ui l s" s])
  then show ?thesis using BrEndCapture assms(2) cancel_switches [of "release_capture_ui l s" n "Some l"]
    by (simp add: handle_request_def Let_def end_capture_def cancel_capture_fst)
next
  case BrRetire
  then show ?thesis using assms(2) cancel_switches [OF assms(1), of n None]
    by (simp add: handle_request_def Let_def retire_def cancel_capture_fst)
next
  case BrShutdown
  then show ?thesis using assms(2) cancel_switches [OF assms(1), of n None]
    by (simp add: handle_request_def Let_def retire_def cancel_capture_fst)
qed (use assms in \<open>simp_all add: handle_request_def Let_def\<close>)

text \<open>
  Nothing is restored from a guess. Whenever a reachable bridge asks the host to change its
  input mode, it asks for Locked or for the mode it owes.
\<close>

theorem no_guessed_mode:
  assumes "s = fst (run (bridge_step api) new_bridge xs)"
    and "bridge_step api s (input, ans) = (s', fx)" and "FxSwitchMode n \<in> set fx"
  shows "n = ModeLocked \<or> owed s = Some n"
proof -
  have iv: "capture_inv s" unfolding assms(1) by (rule reachable_capture_inv)
  have n: "n \<in> switches (snd (bridge_step api s (input, ans)))"
    using assms(2,3) by (simp add: switches_def)
  show ?thesis
  proof (cases rule: step_cases [where api = api and s = s and input = input and ans = ans])
    case (request cli r)
    then show ?thesis using n request_switches [of "note_request r s" n api ans cli r] iv by simp
  next
    case (subscription cli sub payload)
    then show ?thesis using n cancel_switches [OF iv, of n None]
      by (simp add: subscribe_def cancel_capture_fst split: if_splits)
  next
    case (host ev)
    have "n = ModeLocked \<or> owed s = Some n" if "n \<in> switches (snd (on_before_close s))"
      using that cancel_switches [OF iv, of n None]
      by (auto simp: on_before_close_def unload_capture_def Let_def split_def split: option.splits if_splits)
    then show ?thesis using host n timer_switches [OF iv]
      by (cases ev) (auto simp: update_host_def mode_update_switches)
  qed (use n in auto)
qed

end
