(* ===== verification/Bridge_Requests.thy ===== *)
theory Bridge_Requests
  imports Bridge_Capture
begin

text \<open>
  The requests the Zellij bridge serves: what registration implies, and one release for every
  admitted frame on the pipe child that sent it.
\<close>

section \<open>Registration\<close>

text \<open>
  A registered bridge has an event channel, a verified client and the permission grant, and is not
  waiting to register; an unregistered one holds no capture and no unfinished command.
\<close>

definition registration_inv :: "('c, 'k) bridge \<Rightarrow> bool" where
  "registration_inv s \<longleftrightarrow>
     (if b_registration s = None
      then b_pending s = None \<and> b_active s = None \<and> b_actions s = [] \<and> b_post s = []
      else b_event_cli s \<noteq> None \<and> b_client_id s \<noteq> None \<and> b_generation s \<noteq> None
           \<and> b_gate s = GateGranted \<and> \<not> b_pending_subscribe s)
     \<and> (b_pending_subscribe s \<longrightarrow> b_event_cli s \<noteq> None \<and> b_generation s \<noteq> None)"

lemma registration_inv_new: "registration_inv new_bridge"
  by (simp add: registration_inv_def new_bridge_def)

text \<open>The fields the invariant reads, and the ones only the capture handlers change.\<close>

definition channel_view :: "('c, 'k) bridge \<Rightarrow>
    registration_id option \<times> str option \<times> host_client_id option \<times> channel_generation option
    \<times> permission_gate \<times> bool" where
  "channel_view s = (b_registration s, b_event_cli s, b_client_id s, b_generation s, b_gate s,
     b_pending_subscribe s)"

definition work_view :: "('c, 'k) bridge \<Rightarrow> (str, 'k pending_action) table \<times> 'c post_dismissal list" where
  "work_view s = (b_actions s, b_post s)"

lemma cancel_channel [simp]:
  "channel_view (fst (cancel_capture_for_restore w s)) = channel_view s"
  "work_view (fst (cancel_capture_for_restore w s)) = work_view s"
  "channel_view (fst (cancel_capture w s)) = channel_view s"
  "work_view (fst (cancel_capture w s)) = work_view s"
  by (simp_all add: cancel_capture_def cancel_capture_for_restore_def cancel_pending_def cancel_active_def
      channel_view_def work_view_def release_capture_ui_def Let_def split_def split: option.split)

lemma helper_channels [simp]:
  "channel_view (release_capture_ui l s) = channel_view s" "work_view (release_capture_ui l s) = work_view s"
  "channel_view (clear_capture_ui s) = channel_view s" "work_view (clear_capture_ui s) = work_view s"
  "channel_view (bind_capture_ui l s) = channel_view s" "work_view (bind_capture_ui l s) = work_view s"
  "channel_view (note_request r s) = channel_view s" "work_view (note_request r s) = work_view s"
  "channel_view (fst (try_post_dismissals api ans s)) = channel_view s"
  by (simp_all add: channel_view_def work_view_def release_capture_ui_def clear_capture_ui_def
      bind_capture_ui_def note_request_def Let_def split: option.split)

lemmas channel_fields [simp] = cancel_channel [unfolded channel_view_def work_view_def prod.inject]
  helper_channels [unfolded channel_view_def work_view_def prod.inject]

lemma begin_channels [simp]:
  "channel_view (fst (begin_capture cli r g l s)) = channel_view s"
  "work_view (fst (begin_capture cli r g l s)) = work_view s"
  by (simp_all add: begin_capture_def Let_def channel_view_def work_view_def split: option.split)

lemma request_channels [simp]:
  "channel_view (fst (end_capture cli r g l s)) = channel_view s"
  "work_view (fst (end_capture cli r g l s)) = work_view s"
  "channel_view (fst (renew_capture cli r g l s)) = channel_view s"
  "work_view (fst (renew_capture cli r g l s)) = work_view s"
  "channel_view (fst (request_origin api ans cli r g u pane_text s)) = channel_view s"
  "work_view (fst (request_origin api ans cli r g u pane_text s)) = work_view s"
  "channel_view (fst (focus_by_index cli r g e i s)) = channel_view s"
  "work_view (fst (focus_by_index cli r g e i s)) = work_view s"
  "channel_view (fst (focus_neighbor cli r g e d s)) = channel_view s"
  "work_view (fst (focus_neighbor cli r g e d s)) = work_view s"
  "channel_view (fst (dispatch_command api ans cli r g e c0 s)) = channel_view s"
  "channel_view (fst (defer_post_dismissal api ans cli r g e up op c0 s)) = channel_view s"
  "channel_view (fst (retire cli r g s)) = channel_view s"
  by (simp_all add: channel_view_def work_view_def end_capture_def renew_capture_def request_origin_def
      focus_by_index_def focus_neighbor_def dispatch_command_def defer_post_dismissal_def retire_def
      fail_post_state Let_def split: option.split sum.split ready_dispatch.split)

lemma expire_channels [simp]:
  "channel_view (fst (expire_capture_lease s)) = channel_view s"
  "work_view (fst (expire_capture_lease s)) = work_view s"
  "channel_view (fst (unload_capture s)) = channel_view s"
  "work_view (fst (unload_capture s)) = work_view s"
  by (simp_all add: expire_capture_lease_def unload_capture_def split_def Let_def split: option.split)

lemmas expire_fields [simp] = expire_channels [unfolded channel_view_def work_view_def prod.inject]

lemma event_channels [simp]:
  "channel_view (fst (on_before_close s)) = channel_view s"
  "channel_view (fst (on_mode_update m s)) = channel_view s"
  "work_view (fst (on_mode_update m s)) = work_view s"
  "channel_view (fst (on_timer s)) = channel_view s"
  "work_view (fst (on_timer s)) = work_view s"
  "channel_view (fst (on_pane_update api ans mf s)) = channel_view s"
  "channel_view (fst (on_action_complete fl pane ctx s)) = channel_view s"
  "channel_view (on_tab_update tabs s) = channel_view s" "work_view (on_tab_update tabs s) = work_view s"
  "channel_view (on_session_update ss s) = channel_view s" "work_view (on_session_update ss s) = work_view s"
  by (simp_all add: channel_view_def work_view_def on_before_close_def on_mode_update_def mode_settled_def
      on_timer_def on_pane_update_def on_action_complete_def on_tab_update_def on_session_update_def
      fail_post_state Let_def split_def split: option.split)

lemma registration_inv_live:
  assumes "registration_inv s" "channel_view s' = channel_view s" "b_registration s \<noteq> None"
  shows "registration_inv s'"
  using assms by (auto simp: registration_inv_def channel_view_def)

definition idle_view :: "('c, 'k) bridge \<Rightarrow> bool" where
  "idle_view s \<longleftrightarrow> b_pending s = None \<and> b_active s = None \<and> b_actions s = [] \<and> b_post s = []"

lemma registration_inv_idle:
  assumes "registration_inv s" "channel_view s' = channel_view s" "b_registration s = None" "idle_view s'"
  shows "registration_inv s'"
  using assms by (simp add: registration_inv_def channel_view_def idle_view_def)

lemma idle_try_post: "b_post s = [] \<Longrightarrow> fst (try_post_dismissals api ans s) = s"
  by (simp add: try_post_dismissals_def)

lemma try_register_inv:
  assumes "registration_inv s"
  shows "registration_inv (fst (try_register api ans s))"
  using assms
  by (cases "b_registration s"; cases "b_client_id s"; cases "an_random ans")
    (auto simp: try_register_def registration_inv_def Let_def split: host_client_id.splits sum.splits)

lemma census_inv: "registration_inv s \<Longrightarrow> registration_inv ((census c s)\<lparr>b_gate := GateGranted\<rparr>)"
  by (auto simp: registration_inv_def census_def Let_def split: if_splits)

lemma try_post_inv:
  assumes "registration_inv s"
  shows "registration_inv (fst (try_post_dismissals api ans s))"
proof (cases "b_registration s")
  case None
  then show ?thesis using assms idle_try_post [of s api ans] by (simp add: registration_inv_def)
next
  case (Some r)
  then show ?thesis using registration_inv_live [OF assms, of "fst (try_post_dismissals api ans s)"] by simp
qed

lemma on_list_clients_inv:
  "registration_inv s \<Longrightarrow> registration_inv (fst (on_list_clients api ans cs s))"
  by (simp add: on_list_clients_def try_post_inv try_register_inv census_inv split: option.split)

lemma permission_inv: "registration_inv s \<Longrightarrow> registration_inv (fst (permission_result st s))"
  by (auto simp: permission_result_def registration_inv_def split: permission_status.split if_splits)

lemma subscribe_registration_inv:
  "registration_inv s \<Longrightarrow> registration_inv (fst (subscribe api cli p s))"
  by (auto simp: subscribe_def registration_inv_def cancel_capture_fst cancel_all_done clear_capture_ui_def
      split: option.split)

lemma idle_handlers:
  assumes "idle_view s"
  shows "idle_view (fst (on_mode_update m s))" "idle_view (fst (on_timer s))"
    "idle_view (fst (on_pane_update api ans mf s))" "idle_view (fst (on_action_complete fl pane ctx s))"
    "idle_view (on_tab_update tabs s)" "idle_view (on_session_update ss s)"
  using assms
  by (auto simp: idle_view_def on_mode_update_def mode_settled_def on_timer_def on_pane_update_def
      on_action_complete_def on_tab_update_def on_session_update_def idle_try_post Let_def split: option.split)

lemma idle_before_close: "idle_view (fst (on_before_close s))"
  by (simp add: idle_view_def on_before_close_def Let_def fail_post_state unload_capture_fst
      clear_capture_ui_def cancel_all_done)

lemma host_registration_inv:
  assumes "registration_inv s"
  shows "registration_inv (fst (update_host api ans e s))"
proof (cases "b_registration s")
  case (Some r)
  then show ?thesis using assms
    by (cases e) (auto simp: update_host_def on_list_clients_inv permission_inv intro: registration_inv_live)
next
  case None
  then have "idle_view s" using assms by (simp add: registration_inv_def idle_view_def)
  then show ?thesis using assms None
    by (cases e)
      (auto simp: update_host_def on_list_clients_inv permission_inv idle_before_close
        intro: registration_inv_idle idle_handlers)
qed

lemma request_channel: "channel_view (fst (handle_request api ans cli r s)) = channel_view s"
  by (simp add: handle_request_def Let_def split: bridge_request.split zellij_dispatch.split)

lemma admitted_live:
  assumes "registration_inv s" "admitted_request api s input = Some (cli, r)"
  shows "b_registration s = Some (rq_registration r)" "b_generation s = Some (rq_generation r)"
    "b_event_cli s \<noteq> None"
  using assms
  by (auto simp: admitted_request_def admitted_def registration_inv_def split: option.splits if_splits)

lemma registration_inv_step:
  assumes "registration_inv s"
  shows "registration_inv (fst (bridge_step api s (input, ans)))"
proof (cases rule: step_cases [where api = api and s = s and input = input and ans = ans])
  case (request cli r)
  then show ?thesis using admitted_live(1) [OF assms request(1)]
    by (auto simp: request_channel intro: registration_inv_live [OF assms])
next
  case (load p c)
  then show ?thesis using assms by (simp add: load_def registration_inv_def)
qed (use assms in \<open>simp_all add: subscribe_registration_inv host_registration_inv\<close>)

lemma reachable_registration_inv: "registration_inv (fst (run (bridge_step api) new_bridge xs))"
  by (rule event_machine.run_inv [where inv = registration_inv and good = "\<lambda>_. True"])
    (unfold_locales, simp_all add: registration_inv_step registration_inv_new list_all_iff split_paired_all)

section \<open>Reading the host calls\<close>

definition collect :: "(('a, 'k) host_effect \<Rightarrow> 'b option) \<Rightarrow> ('a, 'k) host_effect list \<Rightarrow> 'b list" where
  "collect f fx = List.map_filter f fx"

lemma collect_simps [simp]:
  "collect f [] = []" "collect f (fx @ gx) = collect f fx @ collect f gx"
  "collect f (e # fx) = (case f e of None \<Rightarrow> [] | Some x \<Rightarrow> [x]) @ collect f fx"
  "collect f (concat fxs) = concat (map (collect f) fxs)"
  by (induction fxs) (auto simp: collect_def List.map_filter_def split: option.split)

fun unblock_of :: "('a, 'k) host_effect \<Rightarrow> str option" where
  "unblock_of (FxUnblockPipe cli) = Some cli"
| "unblock_of _ = None"

text \<open>What a solicited frame says, read off its request identity and response.\<close>

fun reply_of :: "(bridge_request_id \<Rightarrow> unit zellij_response \<Rightarrow> 'b option) \<Rightarrow> ('a, 'k) host_effect \<Rightarrow> 'b option" where
  "reply_of h (FxEmit _ f) =
     (case (ev_request_id f, ev_event f) of (Some r, OutResponse resp) \<Rightarrow> h r resp | _ \<Rightarrow> None)"
| "reply_of h _ = None"

fun is_release :: "bridge_request_id \<Rightarrow> unit zellij_response \<Rightarrow> bridge_request_id option" where
  "is_release r RequestReleased = Some r"
| "is_release r _ = None"

fun is_accept :: "bridge_request_id \<Rightarrow> unit zellij_response \<Rightarrow> (bridge_request_id \<times> wire_execution_id) option" where
  "is_accept r (DispatchAccepted e) = Some (r, e)"
| "is_accept r _ = None"

fun is_complete :: "bridge_request_id \<Rightarrow> unit zellij_response \<Rightarrow> (bridge_request_id \<times> wire_execution_id) option" where
  "is_complete r (DispatchCompleted e _) = Some (r, e)"
| "is_complete r _ = None"

abbreviation unblocked :: "('a, 'k) host_effect list \<Rightarrow> str list" where
  "unblocked \<equiv> collect unblock_of"

abbreviation released :: "('a, 'k) host_effect list \<Rightarrow> bridge_request_id list" where
  "released \<equiv> collect (reply_of is_release)"

abbreviation accepted_runs :: "('a, 'k) host_effect list \<Rightarrow> (bridge_request_id \<times> wire_execution_id) list" where
  "accepted_runs \<equiv> collect (reply_of is_accept)"

abbreviation completed_runs :: "('a, 'k) host_effect list \<Rightarrow> (bridge_request_id \<times> wire_execution_id) list" where
  "completed_runs \<equiv> collect (reply_of is_complete)"

definition live :: "('c, 'k) bridge \<Rightarrow> bool" where
  "live s \<longleftrightarrow> b_event_cli s \<noteq> None \<and> b_registration s \<noteq> None"

lemma live_update [simp]:
  "live (s\<lparr>b_actions := t\<rparr>) = live s" "live (s\<lparr>b_post := ps\<rparr>) = live s" "live (s\<lparr>b_active := x\<rparr>) = live s"
  "live (s\<lparr>b_pending := y\<rparr>) = live s" "live (s\<lparr>b_restoring := z\<rparr>) = live s"
  "live (s\<lparr>b_pending_ui := u, b_origin := v\<rparr>) = live s" "live (note_request q s) = live s"
  "live (release_capture_ui l s) = live s" "live (clear_capture_ui s) = live s" "live (bind_capture_ui l s) = live s"
  "live (fst (cancel_capture w s)) = live s" "live (fst (cancel_capture_for_restore w s)) = live s"
  by (simp_all add: live_def)

lemma emit_unblock [simp]: "unblocked (emit r g e s) = []"
  by (simp add: emit_def split: option.split)

lemma emit_request_reply [simp]:
  "collect (reply_of h) (emit_for_request r g resp s) =
     (if live s then (case h r resp of None \<Rightarrow> [] | Some x \<Rightarrow> [x]) else [])"
  by (auto simp: emit_for_request_def emit_def live_def split: option.split)

lemma emit_unsolicited_reply [simp]: "collect (reply_of h) (emit_unsolicited ev s) = []"
  by (simp add: emit_unsolicited_def emit_def split: option.split)

lemma frames_unblock [simp]:
  "unblocked (emit_unsolicited ev s) = []" "unblocked (emit_for_request r g resp s) = []"
  "unblocked (emit_completion r g x oc s) = []" "unblocked (release cli r g s) = [cli]"
  "unblocked (complete_actions d s ps) = []" "unblocked (snd (fail_post_dismissals d s)) = []"
  "unblocked (focus_replies cli r g x oc s) = [cli]"
  by (simp_all add: emit_unsolicited_def emit_for_request_def release_def emit_completion_def
      complete_actions_def fail_post_dismissals_def Let_def focus_replies_def comp_def)

lemma frames_release [simp]:
  "released (emit_completion r g x oc s) = []" "released (release cli r g s) = (if live s then [r] else [])"
  "released (complete_actions d s ps) = []" "released (snd (fail_post_dismissals d s)) = []"
  "released (focus_replies cli r g x oc s) = (if live s then [r] else [])"
  by (simp_all add: release_def emit_completion_def complete_actions_def fail_post_dismissals_def
      Let_def focus_replies_def comp_def)

lemma frames_accept [simp]:
  "accepted_runs (emit_completion r g x oc s) = []" "accepted_runs (release cli r g s) = []"
  "accepted_runs (complete_actions d s ps) = []" "accepted_runs (snd (fail_post_dismissals d s)) = []"
  "accepted_runs (focus_replies cli r g x oc s) = (if live s then [(r, x)] else [])"
  by (simp_all add: release_def emit_completion_def complete_actions_def fail_post_dismissals_def
      Let_def focus_replies_def comp_def)

definition action_run :: "'k pending_action \<Rightarrow> bridge_request_id \<times> wire_execution_id" where
  "action_run p = (pa_request_id p, pa_execution p)"

definition post_run :: "'c post_dismissal \<Rightarrow> bridge_request_id \<times> wire_execution_id" where
  "post_run p = (pd_request_id p, pd_execution p)"

lemma frames_complete [simp]:
  "completed_runs (emit_completion r g x oc s) = (if live s then [(r, x)] else [])"
  "completed_runs (release cli r g s) = []"
  "completed_runs (complete_actions d s ps) = (if live s then map action_run ps else [])"
  "completed_runs (snd (fail_post_dismissals d s)) = (if live s then map post_run (b_post s) else [])"
  "completed_runs (focus_replies cli r g x oc s) = (if live s then [(r, x)] else [])"
  by (simp_all add: release_def emit_completion_def complete_actions_def fail_post_dismissals_def
      Let_def focus_replies_def comp_def action_run_def post_run_def)

section \<open>One release per admitted frame\<close>

text \<open>No other host call or frame of the bridge releases a request.\<close>

definition releases_none :: "('a, 'k) host_effect list \<Rightarrow> bool" where
  "releases_none fx \<longleftrightarrow> unblocked fx = [] \<and> released fx = []"

lemma releases_none_simps [simp]:
  "releases_none []" "releases_none (fx @ gx) = (releases_none fx \<and> releases_none gx)"
  "releases_none (e # fx) = (unblock_of e = None \<and> reply_of is_release e = None \<and> releases_none fx)"
  by (auto simp: releases_none_def split: option.split)

lemma dispatch_post_releases [simp]: "releases_none (snd (dispatch_post_dismissal api ans p s))"
  by (simp add: dispatch_post_dismissal_def releases_none_def split: option.split sum.split ready_dispatch.split)

lemma post_loop_releases: "releases_none (snd (snd (snd (post_loop api ans ps s))))"
  by (induction ps arbitrary: s) (simp_all add: split_def)

lemma try_post_releases [simp]: "releases_none (snd (try_post_dismissals api ans s))"
  by (simp add: try_post_dismissals_def split_def post_loop_releases)

lemma event_releases [simp]:
  "releases_none (emit_unsolicited ev s)" "releases_none (emit_completion r g x oc s)"
  "releases_none (complete_actions d s ps)" "releases_none (snd (fail_post_dismissals d s))"
  by (simp_all add: releases_none_def)

lemma capture_ready_releases [simp]:
  "releases_none (emit_for_request r g (CaptureReady l st) s)"
  "releases_none (emit_for_request r g (DispatchAccepted x) s)"
  by (simp_all add: releases_none_def)

lemma cancel_releases [simp]:
  "releases_none (fst (snd (cancel_capture_for_restore w s)))" "releases_none (snd (cancel_capture w s))"
  by (simp_all add: cancel_capture_def cancel_capture_for_restore_def cancel_pending_def cancel_active_def
      Let_def split_def split: option.split)

lemma try_register_releases [simp]: "releases_none (snd (try_register api ans s))"
  by (simp add: try_register_def Let_def split: option.split host_client_id.split sum.split)

lemma host_releases: "releases_none (snd (update_host api ans e s))"
  by (cases e)
    (simp_all add: update_host_def on_list_clients_def on_mode_update_def mode_settled_def on_pane_update_def
      on_action_complete_def completion_outcome_def on_timer_def expire_capture_lease_def permission_result_def
      on_before_close_def unload_capture_def Let_def split_def split: option.split permission_status.split)

lemma subscribe_releases: "releases_none (snd (subscribe api cli p s))"
  by (simp add: subscribe_def split: option.split)

text \<open>Every admitted request is released once, on the child that sent it.\<close>

definition releases_one :: "str \<Rightarrow> bridge_request_id \<Rightarrow> ('a, 'k) host_effect list \<Rightarrow> bool" where
  "releases_one cli r fx \<longleftrightarrow> unblocked fx = [cli] \<and> released fx = [r]"

lemma releases_none_D: "releases_none fx \<Longrightarrow> unblocked fx = []" "releases_none fx \<Longrightarrow> released fx = []"
  by (simp_all add: releases_none_def)

lemmas none_releases [simp] = try_post_releases [THEN releases_none_D(1)] try_post_releases [THEN releases_none_D(2)]
  cancel_releases(2) [THEN releases_none_D(1)] cancel_releases(2) [THEN releases_none_D(2)]

lemma handler_releases:
  assumes "live s"
  shows "releases_one cli r (snd (dispatch_command api ans cli r g e c0 s))"
    "releases_one cli r (snd (defer_post_dismissal api ans cli r g e up op c0 s))"
    "releases_one cli r (snd (focus_by_index cli r g e i s))"
    "releases_one cli r (snd (focus_neighbor cli r g e d s))"
    "releases_one cli r (snd (begin_capture cli r g l s))"
    "releases_one cli r (snd (end_capture cli r g l s))"
    "releases_one cli r (snd (renew_capture cli r g l s))"
    "releases_one cli r (snd (request_origin api ans cli r g u pane_text s))"
    "releases_one cli r (snd (retire cli r g s))"
proof -
  obtain reg where reg: "b_registration s = Some reg" using assms by (auto simp: live_def)
  show "releases_one cli r (snd (dispatch_command api ans cli r g e c0 s))"
    using assms reg
    by (auto simp: releases_one_def dispatch_command_def Let_def split: sum.split ready_dispatch.split)
  show "releases_one cli r (snd (begin_capture cli r g l s))"
    using assms by (auto simp: releases_one_def begin_capture_def Let_def split: option.split)
  show "releases_one cli r (snd (renew_capture cli r g l s))"
    using assms by (auto simp: releases_one_def renew_capture_def Let_def split: option.split)
qed (use assms in \<open>auto simp: releases_one_def defer_post_dismissal_def focus_by_index_def
    focus_neighbor_def end_capture_def request_origin_def retire_def Let_def split: option.split\<close>)

lemma admitted_payload: "admitted_request api s input = Some (cli, r) \<Longrightarrow> validate_pipe_request r = Inr ()"
  by (auto simp: admitted_request_def request_of_def decode_request_line_def decode_line_def
      result_simps split: option.splits bridge_input.splits pipe_source.splits if_splits sum.splits)

lemma valid_not_host: "validate_pipe_request r = Inr () \<Longrightarrow> rq_payload r \<noteq> BrHost h"
  by (auto simp: validate_pipe_request_def result_simps invalid_def split: if_splits)

lemma request_releases:
  assumes "live s" "validate_pipe_request r = Inr ()"
  shows "releases_one cli (rq_request_id r) (snd (handle_request api ans cli r s))"
  by (simp add: handle_request_def Let_def handler_releases [OF assms(1)] valid_not_host [OF assms(2)]
      split: bridge_request.split zellij_dispatch.split)

lemma warning_releases [simp]: "releases_none (sequence_warning q s)"
  by (simp add: sequence_warning_def split: option.split)

text \<open>
  C14: in every reachable state, an admitted request unblocks exactly the pipe child that sent it
  and is acknowledged by exactly one release frame with its identity; no other input unblocks a
  child or acknowledges a request. In particular a line that does not decode, or names another
  client, registration or channel generation, is dropped without a release.
\<close>

theorem one_release:
  assumes "s = fst (run (bridge_step api) new_bridge xs)"
    and "bridge_step api s (input, ans) = (s', fx)"
  shows "case admitted_request api s input of
      Some (cli, r) \<Rightarrow> unblocked fx = [cli] \<and> released fx = [rq_request_id r]
    | None \<Rightarrow> unblocked fx = [] \<and> released fx = []"
proof -
  have iv: "registration_inv s" unfolding assms(1) by (rule reachable_registration_inv)
  have fx: "fx = snd (bridge_step api s (input, ans))" using assms(2) by simp
  show ?thesis
  proof (cases rule: step_cases [where api = api and s = s and input = input and ans = ans])
    case (request cli r)
    have "live (note_request r s)"
      using admitted_live [OF iv request(1)] by (simp add: live_def)
    from request_releases [OF this admitted_payload [OF request(1)], of cli api ans]
    show ?thesis unfolding fx request(2)
      using warning_releases [of r s] by (auto simp: request(1) releases_one_def releases_none_D)
  next
    case (subscription cli sub payload)
    have "admitted_request api s input = None"
      using subscription(1)
      by (auto simp: subscription_of_def admitted_request_def request_of_def
          split: bridge_input.splits option.splits pipe_source.splits if_splits)
    moreover have "releases_none fx" unfolding fx subscription(2) by (rule subscribe_releases)
    ultimately show ?thesis by (simp add: releases_none_def)
  next
    case (host ev)
    have "releases_none fx" unfolding fx host(2) by (rule host_releases)
    moreover have "admitted_request api s input = None"
      by (simp add: host(1) admitted_request_def request_of_def)
    ultimately show ?thesis by (simp add: releases_none_def)
  next
    case (load p c)
    then show ?thesis by (simp add: fx load_def admitted_request_def request_of_def)
  next
    case (ignored m)
    then show ?thesis by (simp add: fx)
  qed
qed

text \<open>Two bridges of different clients never both release one frame.\<close>

lemma one_bridge_admits:
  assumes "admitted r s" "admitted r t"
  shows "b_client_id s = b_client_id t" "b_registration s = b_registration t"
  using assms by (auto simp: admitted_def split: option.splits host_client_id.splits)

end
