(* ===== verification/Bridge_Account.thy ===== *)
theory Bridge_Account
  imports Bridge_Requests
begin

text \<open>
  The account of dispatched commands: every command the Zellij bridge accepts is filed or finished,
  and every filed command is completed by exactly one frame.
\<close>

section \<open>Every accepted command is completed once\<close>

definition action_runs :: "('c, 'k) bridge \<Rightarrow> (bridge_request_id \<times> wire_execution_id) list" where
  "action_runs s = map action_run (tab_vals (b_actions s))"

definition post_runs :: "'c post_dismissal list \<Rightarrow> (bridge_request_id \<times> wire_execution_id) list" where
  "post_runs ps = map post_run ps"

text \<open>The accepted commands whose completion is still to be reported.\<close>

definition unfinished :: "('c, 'k) bridge \<Rightarrow> (bridge_request_id \<times> wire_execution_id) list" where
  "unfinished s = action_runs s @ post_runs (b_post s)"

lemma request_number_inj: "request_number r = request_number q \<Longrightarrow> r = q"
  by (cases r; cases q) (simp add: word_unat_eq_iff)

lemma correlation_inj: "correlation_of api reg r = correlation_of api reg q \<Longrightarrow> r = q"
proof -
  assume "correlation_of api reg r = correlation_of api reg q"
  then have "decimal_text (request_number r) = decimal_text (request_number q)"
    by (simp add: correlation_of_def)
  then have "request_number r = request_number q" by (metis decimal_text_wf)
  then show ?thesis by (rule request_number_inj)
qed

text \<open>Actions are filed under the correlation of their own request.\<close>

definition actions_ok :: "('c, 'a, 'k) bridge_api \<Rightarrow> registration_id \<Rightarrow> ('c, 'k) bridge \<Rightarrow> bool" where
  "actions_ok api reg s \<longleftrightarrow> tab_ok (b_actions s)
     \<and> btree.indexed_by (\<lambda>p. correlation_of api reg (pa_request_id p)) (b_actions s)"

lemma actions_fresh:
  assumes "actions_ok api reg s" "r \<notin> set (map fst (action_runs s))"
  shows "tab_get (b_actions s) (correlation_of api reg r) = None"
proof (cases "tab_get (b_actions s) (correlation_of api reg r)")
  case (Some p)
  then have "correlation_of api reg r = correlation_of api reg (pa_request_id p)"
    using assms(1) by (auto simp: actions_ok_def btree.indexed_by_def)
  then have "r = pa_request_id p" by (rule correlation_inj)
  moreover have "p \<in> set (tab_vals (b_actions s))"
    using Some assms(1) tab_vals_get by (fastforce simp: actions_ok_def)
  ultimately show ?thesis using assms(2) by (force simp: action_runs_def action_run_def)
qed

lemma actions_insert:
  assumes "actions_ok api reg s" "r \<notin> set (map fst (action_runs s))" "pa_request_id p = r"
  shows "actions_ok api reg (s\<lparr>b_actions := tab_insert (correlation_of api reg r) p (b_actions s)\<rparr>)"
    "mset (action_runs (s\<lparr>b_actions := tab_insert (correlation_of api reg r) p (b_actions s)\<rparr>))
      = add_mset (action_run p) (mset (action_runs s))"
proof -
  note ok = assms(1) [unfolded actions_ok_def]
  show "actions_ok api reg (s\<lparr>b_actions := tab_insert (correlation_of api reg r) p (b_actions s)\<rparr>)"
    using ok assms(3) by (simp add: actions_ok_def tab_ok_insert btree.indexed_put)
  show "mset (action_runs (s\<lparr>b_actions := tab_insert (correlation_of api reg r) p (b_actions s)\<rparr>))
      = add_mset (action_run p) (mset (action_runs s))"
    using mset_vals_insert [OF actions_fresh [OF assms(1,2)], of p] by (simp add: action_runs_def)
qed

lemma prepare_correlated:
  "prepare_command api c x = Inr (ReadyAsync d k co) \<Longrightarrow> k = x"
  by (auto simp: prepare_command_def split: sum.splits validated_command.splits prod.splits)

lemma dispatch_post_conserves:
  assumes "live s" "b_registration s = Some reg" "actions_ok api reg s"
    and "pd_request_id p \<notin> set (map fst (action_runs s))"
    and "dispatch_post_dismissal api ans p s = (s', fx)"
  shows "actions_ok api reg s'" "accepted_runs fx = []"
    "mset (completed_runs fx) + mset (action_runs s') = add_mset (post_run p) (mset (action_runs s))"
proof -
  let ?id = "pd_request_id p"
  have "actions_ok api reg s' \<and> accepted_runs fx = []
    \<and> mset (completed_runs fx) + mset (action_runs s') = add_mset (post_run p) (mset (action_runs s))"
  proof (cases "prepare_command api (pd_command p) (correlation_of api reg ?id)")
    case (Inl message)
    have "s' = s \<and> completed_runs fx = [post_run p] \<and> accepted_runs fx = []"
      using assms(5) [symmetric] by (simp add: dispatch_post_dismissal_def assms(1,2) Inl post_run_def)
    then show ?thesis using assms(3) by simp
  next
    case (Inr ready)
    show ?thesis
    proof (cases ready)
      case (ReadySync d)
      then have "s' = s \<and> completed_runs fx = [post_run p] \<and> accepted_runs fx = []"
        using assms(5) [symmetric] by (simp add: dispatch_post_dismissal_def assms(1,2) Inr post_run_def)
      then show ?thesis using assms(3) by simp
    next
      case (ReadyAsync d k co)
      then have k: "k = correlation_of api reg ?id"
        using Inr prepare_correlated [of api "pd_command p" "correlation_of api reg ?id" d k co] by simp
      define act where "act = \<lparr>pa_request_id = ?id, pa_execution = pd_execution p,
        pa_generation = pd_generation p, pa_coordinates = co\<rparr>"
      have act: "pa_request_id act = ?id" "action_run act = post_run p"
        by (simp_all add: act_def action_run_def post_run_def)
      have "s' = s\<lparr>b_actions := tab_insert (correlation_of api reg ?id) act (b_actions s)\<rparr>" "fx = [FxDispatch d]"
        using assms(2,5) Inr ReadyAsync k by (simp_all add: dispatch_post_dismissal_def act_def)
      then show ?thesis using actions_insert [OF assms(3,4) act(1)] act(2) by simp
    qed
  qed
  then show "actions_ok api reg s'" "accepted_runs fx = []"
    "mset (completed_runs fx) + mset (action_runs s') = add_mset (post_run p) (mset (action_runs s))"
    by blast+
qed

lemma dispatch_post_live:
  assumes "dispatch_post_dismissal api ans p s = (s', fx)"
  shows "live s' = live s" "b_registration s' = b_registration s"
proof -
  obtain t where "s' = s\<lparr>b_actions := t\<rparr>"
    using dispatch_post_state [of api ans p s] assms by auto
  then show "live s' = live s" "b_registration s' = b_registration s" by simp_all
qed

lemma distinct_submultiset:
  assumes "mset xs \<subseteq># mset ys" "distinct (map f ys)"
  shows "distinct (map f xs)"
proof -
  have "mset (map f xs) \<subseteq># mset (map f ys)" using image_mset_subseteq_mono [OF assms(1), of f] by simp
  then obtain M where "mset (map f ys) = mset (map f xs) + M" by (metis subset_mset.add_diff_inverse)
  moreover obtain zs where "M = mset zs" using ex_mset by metis
  ultimately have "mset (map f ys) = mset (map f xs @ zs)" by simp
  then have "distinct (map f xs @ zs)" using assms(2) mset_eq_imp_distinct_iff by metis
  then show ?thesis by simp
qed

lemma post_loop_conserves:
  assumes "live s" "b_registration s = Some reg" "actions_ok api reg s"
    and "distinct (map fst (action_runs s @ post_runs ps))"
    and "post_loop api ans ps s = (s', kept, refresh, fx)"
  shows "actions_ok api reg s' \<and> accepted_runs fx = []
    \<and> mset (completed_runs fx) + mset (action_runs s' @ post_runs kept) = mset (action_runs s @ post_runs ps)"
  using assms
proof (induction ps arbitrary: s s' kept refresh fx)
  case Nil
  then show ?case by (simp add: post_runs_def)
next
  case (Cons p ps)
  have id: "pd_request_id p \<notin> set (map fst (action_runs s))" "fst (post_run p) = pd_request_id p"
    using Cons.prems(4) by (auto simp: post_runs_def post_run_def)
  have dps: "distinct (map fst (action_runs s @ post_runs ps))"
    using Cons.prems(4) by (simp add: post_runs_def)
  show ?case
  proof (cases "\<not> has_manifest (b_inventory s) \<or> ui_is_live s p \<or> pd_origin_pane p \<noteq> b_focused s")
    case True
    obtain kept' refresh' where "post_loop api ans ps s = (s', kept', refresh', fx)" "kept = p # kept'"
      using Cons.prems(5) True by (auto split: if_splits prod.splits)
    then show ?thesis using Cons.IH [OF Cons.prems(1-3) dps] by (simp add: post_runs_def)
  next
    case False
    obtain s1 fx1 where d: "dispatch_post_dismissal api ans p s = (s1, fx1)" by (cases "dispatch_post_dismissal api ans p s")
    obtain fx2 where l: "post_loop api ans ps s1 = (s', kept, refresh, fx2)" "fx = fx1 @ fx2"
      using Cons.prems(5) False d by (auto split: prod.splits)
    note c = dispatch_post_conserves [OF Cons.prems(1-3) id(1) d]
    have "mset (action_runs s1 @ post_runs ps) \<subseteq># mset (action_runs s @ post_runs (p # ps))"
    proof -
      have "mset (action_runs s1) \<subseteq># add_mset (post_run p) (mset (action_runs s))"
        using c(3) by (metis mset_subset_eq_add_right)
      then have "mset (action_runs s1) + mset (post_runs ps)
          \<subseteq># add_mset (post_run p) (mset (action_runs s)) + mset (post_runs ps)"
        by (rule subset_mset.add_right_mono)
      then show ?thesis by (simp add: post_runs_def)
    qed
    then have ds: "distinct (map fst (action_runs s1 @ post_runs ps))"
      using Cons.prems(4) by (rule distinct_submultiset)
    have "live s1" "b_registration s1 = Some reg" using dispatch_post_live [OF d] Cons.prems(1,2) by simp_all
    from Cons.IH [OF this c(1) ds l(1)] have "actions_ok api reg s' \<and> accepted_runs fx2 = []
      \<and> mset (completed_runs fx2) + mset (action_runs s' @ post_runs kept) = mset (action_runs s1 @ post_runs ps)"
      .
    then show ?thesis using c l(2) by (simp add: post_runs_def ac_simps)
  qed
qed

text \<open>Handlers that neither accept nor complete a command.\<close>

definition silent :: "('a, 'k) host_effect list \<Rightarrow> bool" where
  "silent fx \<longleftrightarrow> accepted_runs fx = [] \<and> completed_runs fx = []"

lemma silent_simps [simp]:
  "silent []" "silent (fx @ gx) = (silent fx \<and> silent gx)"
  "silent (e # fx) = (reply_of is_accept e = None \<and> reply_of is_complete e = None \<and> silent fx)"
  "silent (emit_unsolicited ev s)" "silent (release cli r g s)" "silent (sequence_warning q s)"
  "silent (emit_for_request r g (CaptureReady l st) s)" "silent (emit_for_request r g (OriginDeclined u) s)"
  "silent (emit_for_request r g (OriginSnapshot u z) s)"
  by (auto simp: silent_def sequence_warning_def split: option.split)

lemma cancel_silent [simp]:
  "silent (fst (snd (cancel_capture_for_restore w s)))" "silent (snd (cancel_capture w s))"
  by (simp_all add: cancel_capture_def cancel_capture_for_restore_def cancel_pending_def cancel_active_def
      Let_def split_def split: option.split)

lemma handlers_silent:
  "silent (snd (begin_capture cli r g l s))" "silent (snd (end_capture cli r g l s))"
  "silent (snd (renew_capture cli r g l s))" "silent (snd (request_origin api ans cli r g u pane_text s))"
  "silent (snd (on_mode_update m s))" "silent (snd (on_timer s))" "silent (snd (permission_result st s))"
  "silent (snd (load pl c s))" "silent (snd (subscribe api cli p s))" "silent (snd (unload_capture s))"
  "silent (snd (try_register api ans s))"
  by (simp_all add: begin_capture_def end_capture_def renew_capture_def request_origin_def on_mode_update_def
      mode_settled_def on_timer_def expire_capture_lease_def permission_result_def load_def subscribe_def
      unload_capture_def try_register_def Let_def split_def
      split: option.split permission_status.split sum.split host_client_id.split)

lemma silent_D: "silent fx \<Longrightarrow> accepted_runs fx = []" "silent fx \<Longrightarrow> completed_runs fx = []"
  by (simp_all add: silent_def)

lemmas silent_reads [simp] = cancel_silent(2) [THEN silent_D(1)] cancel_silent(2) [THEN silent_D(2)]
  handlers_silent(10) [THEN silent_D(1)] handlers_silent(10) [THEN silent_D(2)]
  silent_simps(6) [THEN silent_D(1)] silent_simps(6) [THEN silent_D(2)]

text \<open>
  The account of a step: what it accepts and what was unfinished is what it completes and what is
  left unfinished.
\<close>

definition balanced :: "('c, 'a, 'k) bridge_api \<Rightarrow> ('c, 'k) bridge \<Rightarrow> (bridge_request_id \<times> wire_execution_id) list
    \<Rightarrow> ('c, 'a, 'k) bridge_result \<Rightarrow> bool" where
  "balanced api s acc m \<longleftrightarrow>
     accepted_runs (snd m) = acc
     \<and> mset acc + mset (unfinished s) = mset (completed_runs (snd m)) + mset (unfinished (fst m))
     \<and> (\<forall>reg. b_registration s = Some reg \<longrightarrow> actions_ok api reg (fst m))"

definition filed :: "('c, 'a, 'k) bridge_api \<Rightarrow> ('c, 'k) bridge \<Rightarrow> bool" where
  "filed api s \<longleftrightarrow> (\<forall>reg. b_registration s = Some reg \<longrightarrow> actions_ok api reg s)
     \<and> distinct (map fst (unfinished s))"

lemma unfinished_view: "work_view s = work_view t \<Longrightarrow> unfinished s = unfinished t"
  by (simp add: work_view_def unfinished_def action_runs_def)

lemma actions_ok_view: "work_view s = work_view t \<Longrightarrow> actions_ok api reg s = actions_ok api reg t"
  by (simp add: work_view_def actions_ok_def)

lemma balanced_silent:
  assumes "filed api s" "work_view (fst m) = work_view s" "silent (snd m)"
  shows "balanced api s [] m"
  using assms unfinished_view [OF assms(2)] actions_ok_view [OF assms(2), of api]
  by (simp add: balanced_def filed_def silent_def)

lemma try_post_balanced:
  assumes "registration_inv s" "filed api s"
  shows "balanced api s [] (try_post_dismissals api ans s)"
proof (cases "b_registration s")
  case None
  then have "b_post s = []" using assms(1) by (simp add: registration_inv_def)
  then have "try_post_dismissals api ans s = (s, [])" by (simp add: try_post_dismissals_def)
  then show ?thesis using balanced_silent [OF assms(2), of "(s, [])"] by simp
next
  case (Some reg)
  let ?s = "s\<lparr>b_post := []\<rparr>"
  obtain s' kept refresh fx where l: "post_loop api ans (b_post s) ?s = (s', kept, refresh, fx)"
    by (metis prod_cases4)
  have a: "action_runs ?s = action_runs s" "actions_ok api reg ?s = actions_ok api reg s"
    by (simp_all add: action_runs_def actions_ok_def)
  have "live ?s" "b_registration ?s = Some reg" "actions_ok api reg ?s"
    "distinct (map fst (action_runs ?s @ post_runs (b_post s)))"
    using assms Some by (auto simp: live_def registration_inv_def filed_def unfinished_def a)
  from post_loop_conserves [OF this l] show ?thesis
    using l Some by (auto simp: try_post_dismissals_def balanced_def unfinished_def a actions_ok_def action_runs_def)
qed

lemma balanced_then_silent:
  assumes "silent fx" "balanced api s acc m"
  shows "balanced api s acc (fst m, fx @ snd m)"
  using assms by (simp add: balanced_def silent_def)

lemma dispatch_command_balanced:
  assumes "live s" "filed api s" "r \<notin> set (map fst (unfinished s))"
  shows "balanced api s [(r, e)] (dispatch_command api ans cli r g e c0 s)"
proof -
  obtain reg where reg: "b_registration s = Some reg" using assms(1) by (auto simp: live_def)
  have ok: "actions_ok api reg s" using assms(2) reg by (simp add: filed_def)
  show ?thesis
  proof (cases "prepare_command api c0 (correlation_of api reg r)")
    case (Inl message)
    then show ?thesis using assms(1) ok by (simp add: dispatch_command_def reg balanced_def)
  next
    case (Inr ready)
    show ?thesis
    proof (cases ready)
      case (ReadySync d)
      then show ?thesis using assms(1) ok Inr by (simp add: dispatch_command_def reg balanced_def)
    next
      case (ReadyAsync d k co)
      then have k: "k = correlation_of api reg r"
        using Inr prepare_correlated [of api c0 "correlation_of api reg r" d k co] by simp
      define act where "act = \<lparr>pa_request_id = r, pa_execution = e, pa_generation = g, pa_coordinates = co\<rparr>"
      have act: "pa_request_id act = r" "action_run act = (r, e)" by (simp_all add: act_def action_run_def)
      have fresh: "r \<notin> set (map fst (action_runs s))" using assms(3) by (simp add: unfinished_def)
      show ?thesis
        using Inr ReadyAsync assms(1) actions_insert [OF ok fresh act(1)] act(2)
        by (simp add: dispatch_command_def reg balanced_def k unfinished_def Let_def flip: act_def)
    qed
  qed
qed

lemma post_append_filed:
  assumes "filed api s" "pd_request_id p \<notin> set (map fst (unfinished s))"
  shows "filed api (s\<lparr>b_post := b_post s @ [p]\<rparr>)"
    "unfinished (s\<lparr>b_post := b_post s @ [p]\<rparr>) = unfinished s @ [post_run p]"
  using assms
  by (auto simp: filed_def unfinished_def action_runs_def post_runs_def post_run_def actions_ok_def)

lemma defer_balanced:
  assumes "registration_inv s" "live s" "filed api s" "r \<notin> set (map fst (unfinished s))"
  shows "balanced api s [(r, e)] (defer_post_dismissal api ans cli r g e up op c0 s)"
proof -
  define p where "p = \<lparr>pd_request_id = r, pd_generation = g, pd_execution = e, pd_ui_pane = up,
    pd_origin_pane = op, pd_command = c0\<rparr>"
  let ?s = "s\<lparr>b_post := b_post s @ [p]\<rparr>"
  have p: "pd_request_id p = r" "post_run p = (r, e)" by (simp_all add: p_def post_run_def)
  have f: "filed api ?s" "unfinished ?s = unfinished s @ [(r, e)]"
    using post_append_filed [OF assms(3), of p] assms(4) p by simp_all
  have "registration_inv ?s" using assms(1,2) by (simp add: registration_inv_def live_def)
  from try_post_balanced [OF this f(1), of ans] show ?thesis
    using assms(2) f(2)
    by (simp add: defer_post_dismissal_def balanced_def flip: p_def)
qed

lemma focus_balanced:
  assumes "live s" "filed api s"
  shows "balanced api s [(r, e)] (focus_by_index cli r g e i s)"
    "balanced api s [(r, e)] (focus_neighbor cli r g e d s)"
  using assms
  by (auto simp: focus_by_index_def focus_neighbor_def balanced_def filed_def split: option.split)

lemma ended_balanced:
  assumes "unfinished (fst m) = []" "b_actions (fst m) = []" "accepted_runs (snd m) = []"
    and "completed_runs (snd m) = map action_run (tab_vals (b_actions s)) @ map post_run (b_post s)"
  shows "balanced api s [] m"
  using assms
  by (simp add: balanced_def unfinished_def action_runs_def post_runs_def actions_ok_def
      btree.indexed_by_def)

lemma retire_balanced:
  assumes "live s"
  shows "balanced api s [] (retire cli r g s)"
  using assms
  by (intro ended_balanced)
    (simp_all add: retire_def Let_def fail_post_state unfinished_def action_runs_def post_runs_def)

lemma before_close_balanced:
  assumes "registration_inv s" "filed api s"
  shows "balanced api s [] (on_before_close s)"
proof (cases "b_registration s")
  case (Some reg)
  then have "live s" using assms(1) by (simp add: live_def registration_inv_def)
  then show ?thesis
    by (intro ended_balanced)
      (simp_all add: on_before_close_def Let_def fail_post_state unfinished_def action_runs_def post_runs_def
        live_def)
next
  case None
  then have e: "b_actions s = []" "b_post s = []" using assms(1) by (simp_all add: registration_inv_def)
  have "silent (snd (on_before_close s))"
    using e None
    by (simp add: on_before_close_def Let_def silent_def live_def)
  moreover have "work_view (fst (on_before_close s)) = work_view s"
    using e by (simp add: on_before_close_def Let_def fail_post_state work_view_def)
  ultimately show ?thesis by (intro balanced_silent [OF assms(2)])
qed

lemma action_complete_balanced:
  fixes api :: "('c, 'a, 'k) bridge_api"
  assumes "registration_inv s" "filed api s"
  shows "balanced api s [] (on_action_complete fl pane ctx s)"
proof (cases "Option.bind (completion_execution ctx) (tab_get (b_actions s))")
  case None
  then show ?thesis
    by (intro balanced_silent [OF assms(2)])
      (auto simp: on_action_complete_def split: option.split bind_splits)
next
  case (Some p)
  then obtain c where c: "completion_execution ctx = Some c" "tab_get (b_actions s) c = Some p"
    by (auto split: bind_splits)
  then have "b_registration s \<noteq> None" using assms(1) by (auto simp: registration_inv_def split: if_splits)
  then have l: "live s" using assms(1) by (auto simp: live_def registration_inv_def)
  then obtain reg where reg: "b_registration s = Some reg" by (auto simp: live_def)
  then have ok: "actions_ok api reg s" using assms(2) by (simp add: filed_def)
  obtain oc and fx :: "('a, 'k) host_effect list" where oc: "completion_outcome fl pane (pa_coordinates p) = (oc, fx)"
    by (cases "completion_outcome fl pane (pa_coordinates p) :: _ \<times> ('a, 'k) host_effect list")
  have q: "silent fx"
    using oc by (auto simp: completion_outcome_def split: option.splits if_splits)
  have "actions_ok api reg (s\<lparr>b_actions := tab_remove c (b_actions s)\<rparr>)"
    using ok by (simp add: actions_ok_def tab_ok_remove btree.indexed_drop)
  moreover have "mset (action_runs s) =
      add_mset (action_run p) (mset (action_runs (s\<lparr>b_actions := tab_remove c (b_actions s)\<rparr>)))"
    using ok mset_vals_remove [OF _ c(2)] by (simp add: actions_ok_def action_runs_def)
  ultimately show ?thesis
    using c oc q l reg
    by (simp add: on_action_complete_def balanced_def unfinished_def silent_def action_run_def Let_def)
qed

section \<open>The account of a step\<close>

definition requested_run :: "('c, unit) pipe_request \<Rightarrow> (bridge_request_id \<times> wire_execution_id) list" where
  "requested_run r = (case rq_payload r of BrDispatch x _ \<Rightarrow> [(rq_request_id r, x)] | _ \<Rightarrow> [])"

lemma request_balanced:
  assumes "registration_inv s" "live s" "filed api s" "rq_request_id r \<notin> set (map fst (unfinished s))"
  shows "balanced api s (requested_run r) (handle_request api ans cli r s)"
proof -
  note d = dispatch_command_balanced [OF assms(2-4)] defer_balanced [OF assms] focus_balanced [OF assms(2,3)]
    retire_balanced [OF assms(2)]
  show ?thesis
    by (cases "rq_payload r")
      (simp_all add: handle_request_def requested_run_def Let_def d handlers_silent
        balanced_silent [OF assms(3)] split: zellij_dispatch.split)
qed

lemma silent_then_balanced:
  assumes "work_view (fst m) = work_view s" "b_registration (fst m) = b_registration s" "silent (snd m)"
    and "balanced api (fst m) acc (f (fst m))"
  shows "balanced api s acc (fx_then m f)"
  using assms(2-4) unfinished_view [OF assms(1)] by (simp add: balanced_def silent_def)

text \<open>A bridge that is not registered holds no command, whatever it registers as.\<close>

lemma unregistered_balanced:
  assumes "registration_inv s" "b_registration s = None" "work_view (fst m) = work_view s" "silent (snd m)"
  shows "balanced api s [] m"
  using assms(1,2,4) unfinished_view [OF assms(3)]
  by (simp add: balanced_def silent_def)

lemma filed_unregistered:
  assumes "registration_inv s" "b_registration s = None" "work_view s' = work_view s"
  shows "filed api s'"
  using assms by (simp add: filed_def registration_inv_def work_view_def actions_ok_def unfinished_def
      action_runs_def post_runs_def btree.indexed_by_def)

lemma register_balanced:
  assumes "registration_inv s" "filed api s"
  shows "balanced api s [] (try_register api ans s)" "filed api (fst (try_register api ans s))"
proof -
  have w: "work_view (fst (try_register api ans s)) = work_view s"
    by (simp add: try_register_def work_view_def Let_def split: option.split host_client_id.split sum.split)
  show "balanced api s [] (try_register api ans s)"
    by (rule balanced_silent [OF assms(2) w]) (rule handlers_silent)
  show "filed api (fst (try_register api ans s))"
  proof (cases "b_pending_subscribe s")
    case True
    then have "b_registration s = None" using assms(1) by (auto simp: registration_inv_def split: if_splits)
    then show ?thesis by (rule filed_unregistered [OF assms(1) _ w])
  next
    case False
    then have "fst (try_register api ans s) = s" by (simp add: try_register_def)
    then show ?thesis using assms(2) by simp
  qed
qed

lemma census_work:
  "work_view ((census c s)\<lparr>b_gate := GateGranted\<rparr>) = work_view s"
  "b_registration ((census c s)\<lparr>b_gate := GateGranted\<rparr>) = b_registration s"
  by (simp_all add: census_def work_view_def Let_def)

lemma filed_view:
  "work_view s' = work_view s \<Longrightarrow> b_registration s' = b_registration s \<Longrightarrow> filed api s' = filed api s"
  using unfinished_view [of s' s] actions_ok_view [of s' s api] by (simp add: filed_def)

lemma balanced_silent_then:
  assumes "balanced api s [] m" "balanced api (fst m) [] (f (fst m))"
    and "b_registration s \<noteq> None \<Longrightarrow> b_registration (fst m) = b_registration s"
  shows "balanced api s [] (fx_then m f)"
  using assms by (auto simp: balanced_def)

lemma register_keeps: "b_registration s \<noteq> None \<Longrightarrow> registration_inv s
    \<Longrightarrow> b_registration (fst (try_register api ans s)) = b_registration s"
  by (auto simp: try_register_def registration_inv_def split: if_splits)

lemma list_clients_balanced:
  assumes "registration_inv s" "filed api s"
  shows "balanced api s [] (on_list_clients api ans cs s)"
proof (cases "own_client s cs")
  case None
  then show ?thesis using try_post_balanced [OF assms]
    by (simp add: on_list_clients_def fx_then_def split_def)
next
  case (Some c)
  let ?s = "(census c s)\<lparr>b_gate := GateGranted\<rparr>"
  have iv: "registration_inv ?s" using assms(1) by (rule census_inv)
  have f: "filed api ?s" using assms(2) filed_view [OF census_work, of api c s] by simp
  have "balanced api ?s [] (fx_then (try_register api ans ?s) (try_post_dismissals api ans))"
    using register_balanced [OF iv f] register_keeps [OF _ iv]
    by (intro balanced_silent_then try_post_balanced try_register_inv iv)
  then show ?thesis
    using Some census_work [of c s] unfinished_view [OF census_work(1), of c s]
    by (simp add: on_list_clients_def balanced_def)
qed

lemma pane_update_balanced:
  assumes "registration_inv s" "filed api s"
  shows "balanced api s [] (on_pane_update api ans mf s)"
proof -
  let ?s = "s\<lparr>b_inventory := set_manifest (manifest_table mf) (b_inventory s)\<rparr>"
  have "registration_inv ?s" "filed api ?s"
    using assms by (simp_all add: registration_inv_def filed_def unfinished_def action_runs_def actions_ok_def)
  then show ?thesis
    unfolding on_pane_update_def Let_def
    by (intro silent_then_balanced) (auto simp: work_view_def intro: try_post_balanced)
qed

lemma permission_work: "work_view (fst (permission_result st s)) = work_view s"
  by (simp add: permission_result_def work_view_def split: permission_status.split)

lemma host_balanced:
  assumes "registration_inv s" "filed api s"
  shows "balanced api s [] (update_host api ans e s)"
  by (cases e)
    (simp_all add: update_host_def list_clients_balanced [OF assms] pane_update_balanced [OF assms]
      before_close_balanced [OF assms] action_complete_balanced [OF assms] permission_work handlers_silent
      balanced_silent [OF assms(2)])

section \<open>Bridges served in sequence\<close>

text \<open>
  The requests the bridge admits have ascending identities on each channel, as the adapter's
  registry hands them out.
\<close>

definition in_sequence :: "('c, 'a, 'k) bridge_api \<Rightarrow> ('c, 'k) bridge \<Rightarrow> bridge_input \<Rightarrow> bool" where
  "in_sequence api s input \<longleftrightarrow>
     (case (admitted_request api s input, b_last_request s) of
        (Some (_, r), Some previous) \<Rightarrow> request_number previous < request_number (rq_request_id r)
      | _ \<Rightarrow> True)"

inductive served :: "('c, 'a, 'k) bridge_api \<Rightarrow> ('c, 'k) bridge \<Rightarrow> bool" for api where
  fresh: "served api new_bridge"
| next_step: "served api s \<Longrightarrow> in_sequence api s input \<Longrightarrow> served api (fst (bridge_step api s (input, ans)))"

definition numbered :: "('c, 'k) bridge \<Rightarrow> bool" where
  "numbered s \<longleftrightarrow> (\<forall>i \<in> set (map fst (unfinished s)).
     \<exists>last. b_last_request s = Some last \<and> request_number i \<le> request_number last)"

definition account_inv :: "('c, 'a, 'k) bridge_api \<Rightarrow> ('c, 'k) bridge \<Rightarrow> bool" where
  "account_inv api s \<longleftrightarrow> registration_inv s \<and> filed api s \<and> numbered s"

lemma balanced_left:
  assumes "balanced api s acc m"
  shows "mset (unfinished (fst m)) \<subseteq># mset (acc @ unfinished s)"
  using assms by (simp add: balanced_def)

lemma balanced_filed:
  assumes "balanced api s acc m" "distinct (map fst (acc @ unfinished s))"
    and "\<And>reg. b_registration (fst m) = Some reg \<Longrightarrow> b_registration s = Some reg \<or> unfinished (fst m) = [] \<and> b_actions (fst m) = []"
  shows "filed api (fst m)"
  unfolding filed_def
proof (intro conjI allI impI)
  fix reg assume "b_registration (fst m) = Some reg"
  then consider "b_registration s = Some reg" | "b_actions (fst m) = []" using assms(3) by blast
  then show "actions_ok api reg (fst m)"
  proof cases
    case 1 then show ?thesis using assms(1) by (simp add: balanced_def)
  next
    case 2 then show ?thesis by (simp add: actions_ok_def btree.indexed_by_def)
  qed
qed (rule distinct_submultiset [OF balanced_left [OF assms(1)] assms(2)])

text \<open>Only subscriptions and admitted requests change the last request.\<close>

lemma cancel_last [simp]:
  "b_last_request (fst (cancel_capture w s)) = b_last_request s"
  "b_last_request (fst (cancel_capture_for_restore w s)) = b_last_request s"
  "b_last_request (release_capture_ui l s) = b_last_request s"
  "b_last_request (clear_capture_ui s) = b_last_request s"
  "b_last_request (bind_capture_ui l s) = b_last_request s"
  by (simp_all add: cancel_capture_def cancel_capture_for_restore_def cancel_pending_def cancel_active_def
      release_capture_ui_def clear_capture_ui_def bind_capture_ui_def Let_def split_def split: option.split)

lemma post_loop_last: "b_last_request (fst (post_loop api ans ps s)) = b_last_request s"
proof (induction ps arbitrary: s)
  case (Cons p ps)
  have "b_last_request (fst (dispatch_post_dismissal api ans p s)) = b_last_request s"
    by (simp add: dispatch_post_dismissal_def split: option.split sum.split ready_dispatch.split)
  then show ?case using Cons by (simp add: split_def)
qed simp

lemma request_last: "b_last_request (fst (handle_request api ans cli r s)) = b_last_request s"
  by (simp add: handle_request_def dispatch_command_def defer_post_dismissal_def focus_by_index_def
      focus_neighbor_def begin_capture_def end_capture_def renew_capture_def request_origin_def retire_def
      try_post_dismissals_def post_loop_last fail_post_state Let_def split_def
      split: bridge_request.split zellij_dispatch.split option.split sum.split ready_dispatch.split)

lemma host_last: "b_last_request (fst (update_host api ans e s)) = b_last_request s"
  by (cases e)
    (simp_all add: update_host_def on_list_clients_def try_register_def census_def on_mode_update_def
      mode_settled_def on_pane_update_def on_tab_update_def on_session_update_def on_action_complete_def
      on_timer_def expire_capture_lease_def permission_result_def on_before_close_def unload_capture_def
      try_post_dismissals_def post_loop_last fail_post_state Let_def split_def
      split: option.split permission_status.split host_client_id.split sum.split)

lemma no_actions: "unfinished s = [] \<Longrightarrow> b_actions s = []"
  by (simp add: unfinished_def action_runs_def tab_vals_def)

lemmas event_fields = event_channels [unfolded channel_view_def work_view_def prod.inject]

lemma host_registration:
  assumes "registration_inv s" "b_registration s = Some reg"
  shows "b_registration (fst (update_host api ans e s)) = Some reg"
proof -
  have "b_registration (fst (on_list_clients api ans cs s)) = Some reg" for cs
    using assms(2)
    by (simp add: on_list_clients_def register_keeps [OF _ census_inv [OF assms(1)]]
        census_work(2) [simplified] split: option.split)
  moreover have "b_registration (fst (permission_result st s)) = Some reg" for st
    using assms(2) by (simp add: permission_result_def split: permission_status.split)
  ultimately show ?thesis using assms(2)
    by (cases e) (simp_all add: update_host_def event_fields)
qed

lemma host_account:
  assumes "account_inv api s"
  shows "account_inv api (fst (update_host api ans e s))"
proof -
  have iv: "registration_inv s" "filed api s" "numbered s" using assms by (simp_all add: account_inv_def)
  let ?m = "update_host api ans e s"
  note b = host_balanced [OF iv(1,2), of ans e]
  have left: "mset (unfinished (fst ?m)) \<subseteq># mset (unfinished s)" using balanced_left [OF b] by simp
  have "filed api (fst ?m)"
  proof (rule balanced_filed [OF b])
    show "distinct (map fst ([] @ unfinished s))" using iv(2) by (simp add: filed_def)
  next
    fix reg assume r: "b_registration (fst ?m) = Some reg"
    show "b_registration s = Some reg \<or> unfinished (fst ?m) = [] \<and> b_actions (fst ?m) = []"
    proof (cases "b_registration s")
      case None
      then have "unfinished s = []"
        using iv(1) by (simp add: registration_inv_def unfinished_def action_runs_def post_runs_def)
      then show ?thesis using left no_actions by (simp add: no_actions)
    next
      case (Some q)
      have "b_registration (fst ?m) = Some q" by (rule host_registration [OF iv(1) Some])
      then show ?thesis using Some r by simp
    qed
  qed
  moreover have "numbered (fst ?m)"
    using iv(3) set_mset_mono [OF left] by (auto simp: numbered_def host_last)
  ultimately show ?thesis using host_registration_inv [OF iv(1)] by (simp add: account_inv_def)
qed

lemma sequence_fresh:
  assumes "account_inv api s" "in_sequence api s input" "admitted_request api s input = Some (cli, r)"
  shows "rq_request_id r \<notin> set (map fst (unfinished s))"
    "i \<in> set (map fst (unfinished s)) \<Longrightarrow> request_number i \<le> request_number (rq_request_id r)"
  using assms by (force simp: account_inv_def numbered_def in_sequence_def)+

lemma note_view: "work_view (note_request r s) = work_view s" "b_registration (note_request r s) = b_registration s"
  by simp_all

lemma request_account:
  assumes "account_inv api s" "in_sequence api s input" "admitted_request api s input = Some (cli, r)"
  shows "balanced api s (requested_run r) (handle_request api ans cli r (note_request r s))"
    "account_inv api (fst (handle_request api ans cli r (note_request r s)))"
proof -
  let ?s = "note_request r s" and ?m = "handle_request api ans cli r (note_request r s)"
  note fresh = sequence_fresh [OF assms]
  have iv: "registration_inv s" "filed api s" using assms(1) by (simp_all add: account_inv_def)
  have reg: "b_registration s \<noteq> None" "live ?s"
    using admitted_live [OF iv(1) assms(3)] by (simp_all add: live_def)
  have iv': "registration_inv ?s" "filed api ?s" "unfinished ?s = unfinished s"
    using registration_inv_live [OF iv(1), of ?s] reg(1) iv(2) filed_view [OF note_view, of api r s]
      unfinished_view [OF note_view(1), of r s] by simp_all
  have b: "balanced api ?s (requested_run r) ?m"
    using request_balanced [OF iv'(1) reg(2) iv'(2)] fresh(1) iv'(3) by simp
  then show "balanced api s (requested_run r) ?m" using iv'(3) note_view(2) by (simp add: balanced_def)
  have ids: "set (map fst (requested_run r @ unfinished s)) \<subseteq> insert (rq_request_id r) (set (map fst (unfinished s)))"
    by (auto simp: requested_run_def split: bridge_request.split)
  have channel: "channel_view (fst ?m) = channel_view s" by (simp add: request_channel)
  have "filed api (fst ?m)"
  proof (rule balanced_filed [OF b])
    show "distinct (map fst (requested_run r @ unfinished ?s))"
      using fresh(1) iv(2) iv'(3) by (simp add: requested_run_def filed_def split: bridge_request.split)
  qed (use channel in \<open>simp add: channel_view_def\<close>)
  moreover have "numbered (fst ?m)"
    unfolding numbered_def
  proof
    fix i assume "i \<in> set (map fst (unfinished (fst ?m)))"
    then have "i \<in> set (map fst (requested_run r @ unfinished s))"
      using set_mset_mono [OF balanced_left [OF b]] iv'(3) by auto
    then have "request_number i \<le> request_number (rq_request_id r)" using subsetD [OF ids, of i] fresh(2) by blast
    then show "\<exists>last. b_last_request (fst ?m) = Some last \<and> request_number i \<le> request_number last"
      by (simp add: request_last note_request_def)
  qed
  ultimately show "account_inv api (fst ?m)"
    using registration_inv_live [OF iv(1) channel reg(1)] by (simp add: account_inv_def)
qed

lemma account_step:
  assumes "account_inv api s" "in_sequence api s input"
  shows "account_inv api (fst (bridge_step api s (input, ans)))"
proof (cases rule: step_cases [where api = api and s = s and input = input and ans = ans])
  case (request cli r)
  then show ?thesis using request_account(2) [OF assms request(1)] by simp
next
  case (subscription cli sub payload)
  have "unfinished (fst (subscribe api cli (Some payload) s)) = [] \<and> b_registration (fst (subscribe api cli (Some payload) s)) = None
    \<or> fst (subscribe api cli (Some payload) s) = s"
    by (auto simp: subscribe_def unfinished_def action_runs_def post_runs_def split: option.split)
  then have "filed api (fst (subscribe api cli (Some payload) s)) \<and> numbered (fst (subscribe api cli (Some payload) s))"
    using assms(1) by (elim disjE conjE) (simp_all add: filed_def numbered_def account_inv_def)
  then show ?thesis using assms(1) subscription
    by (simp add: account_inv_def subscribe_registration_inv)
next
  case (host ev)
  then show ?thesis using host_account [OF assms(1)] by simp
next
  case (load p c)
  have "registration_inv (fst (bridge_step api s (input, ans)))"
    using assms(1) registration_inv_step by (auto simp: account_inv_def)
  then show ?thesis using assms(1) load
    by (simp add: account_inv_def load_def filed_def numbered_def unfinished_def action_runs_def actions_ok_def)
next
  case (ignored m)
  then show ?thesis using assms(1) by simp
qed

lemma served_account: "served api s \<Longrightarrow> account_inv api s"
proof (induction rule: served.induct)
  case fresh
  show ?case
    using registration_inv_new
    by (simp add: account_inv_def filed_def numbered_def unfinished_def action_runs_def
        post_runs_def) (simp add: new_bridge_def)
qed (rule account_step)

text \<open>
  C1: commands are conserved. On a bridge whose requests come in sequence, every input but a new
  subscription (which drops the channel the answers would go to) accounts for every command: the
  step accepts exactly the command its admitted request asks for, and what was unfinished together
  with what it accepts is what it completes together with what is left unfinished, each command
  counted as often as it was accepted. So every accepted command is completed exactly once or is
  still filed, and nothing is completed that was not accepted.
\<close>

theorem dispatch_conserved:
  assumes "served api s" and "in_sequence api s input" and "subscription_of api input = None"
    and "bridge_step api s (input, ans) = (s', fx)"
  shows "accepted_runs fx = (case admitted_request api s input of Some (_, r) \<Rightarrow> requested_run r | None \<Rightarrow> [])
    \<and> mset (accepted_runs fx) + mset (unfinished s) = mset (completed_runs fx) + mset (unfinished s')"
proof -
  have iv: "account_inv api s" using assms(1) by (rule served_account)
  then have iv': "registration_inv s" "filed api s" by (simp_all add: account_inv_def)
  have e: "s' = fst (bridge_step api s (input, ans))" "fx = snd (bridge_step api s (input, ans))"
    using assms(4) by simp_all
  show ?thesis
  proof (cases rule: step_cases [where api = api and s = s and input = input and ans = ans])
    case (request cli r)
    then show ?thesis using request_account(1) [OF iv assms(2) request(1), of ans]
      by (simp add: e balanced_def)
  next
    case (host ev)
    have "admitted_request api s input = None" by (simp add: host(1) admitted_request_def request_of_def)
    then show ?thesis using host_balanced [OF iv', of ans ev] host(2) by (simp add: e balanced_def)
  next
    case (load p c)
    have "admitted_request api s input = None" by (simp add: load(1) admitted_request_def request_of_def)
    then show ?thesis using load(2) by (simp add: e load_def unfinished_def action_runs_def)
  qed (use assms(3) in \<open>simp_all add: e\<close>)
qed

lemma served_run:
  assumes "served api s" "list_all (\<lambda>x. request_of api (fst x) = None) xs"
  shows "served api (fst (run (bridge_step api) s xs))"
  using assms
proof (induction xs arbitrary: s)
  case (Cons x xs)
  have "in_sequence api s (fst x)"
    using Cons.prems(2) by (simp add: in_sequence_def admitted_request_def)
  then have "served api (fst (bridge_step api s (fst x, snd x)))" by (rule served.next_step [OF Cons.prems(1)])
  then show ?case using Cons by (simp add: run_Cons split_def Let_def del: run.simps)
qed simp

end
