(* ===== verification/Bridge_Sample.thy ===== *)
theory Bridge_Sample
  imports Bridge_Account
begin

text \<open>
  A session of the Zellij bridge: it loads, subscribes, registers with its first client census, and
  captures the keyboard for a menu. The witnesses of the bridge's properties run over it.
\<close>

definition sample_lease :: capture_lease_id where
  "sample_lease = CaptureLeaseId 5"

definition sample_frame :: "u64 \<Rightarrow> (u32, unit) zellij_request \<Rightarrow> (u32, unit) pipe_request" where
  "sample_frame n payload =
     \<lparr>rq_protocol = PROTOCOL_CURRENT, rq_request_id = BridgeRequestId n, rq_registration = RegistrationId 9,
      rq_generation = GENERATION_INITIAL, rq_target = BridgeTarget [49], rq_payload = payload\<rparr>"

text \<open>Each sample line is one character.\<close>

definition sample_json :: "str \<Rightarrow> str + (u32, unit) pipe_request" where
  "sample_json line =
     (if line = [98] then Inr (sample_frame 1 (BrBeginCapture sample_lease (UiSessionId [115])))
      else if line = [101] then Inr (sample_frame 2 (BrEndCapture sample_lease EndUiDismissed))
      else if line = [100] then Inr (sample_frame 3 (BrDispatch (WireExecutionId 6) (DispatchCommand 4)))
      else Inl [])"

definition sample_api :: "(u32, u32, u32) bridge_api" where
  "sample_api = \<lparr>api_request_json = sample_json,
     api_subscription_json = (\<lambda>_. Inr (new_subscription GENERATION_INITIAL)),
     api_registration_text = (\<lambda>_. [57]), api_pane_text = (\<lambda>_. [48]), api_pane_parse = (\<lambda>_. None),
     api_validate = (\<lambda>c. Inr (ValidRunAction c [])), api_take_coordinates = (\<lambda>a. (a, None)),
     api_identity = \<lparr>bi_muxe_version = [49], bi_source_revision = [50], bi_action_fingerprint = 1,
       bi_protocol_fingerprint = 1, bi_build_id = None\<rparr>\<rparr>"

definition sample_ans :: "u32 host_answers" where
  "sample_ans = \<lparr>an_random = Some 9, an_cwd = (\<lambda>_. None), an_return = (\<lambda>_. ReturnsValue)\<rparr>"

definition pipe_line :: "str \<Rightarrow> scalar \<Rightarrow> bridge_input" where
  "pipe_line name c = PipeInput \<lparr>pm_source = CliSource [99, c], pm_name = name, pm_payload = Some [c]\<rparr>"

definition sample_start :: "(bridge_input \<times> u32 host_answers) list" where
  "sample_start = map (\<lambda>i. (i, sample_ans))
     [LoadPlugin 3 1, HostEvent (PermissionResult PermissionGranted), pipe_line EVENT_PREFIX 115,
      HostEvent (ListClients [\<lparr>ci_client_id = 1, ci_pane = TerminalPane 2, ci_running_command = [],
        ci_is_current = True\<rparr>]),
      HostEvent (ModeUpdate ModeNormal)]"

definition sample_ready :: "(u32, u32) bridge" where
  "sample_ready = new_bridge\<lparr>b_client_id := Some (HostClientId [49]), b_plugin_id := Some 3,
     b_plugin_client := Some 1, b_focused := Some (TerminalPane 2), b_gate := GateGranted,
     b_event_cli := Some [99, 115], b_registration := Some (RegistrationId 9),
     b_generation := Some GENERATION_INITIAL, b_mode := Some ModeNormal,
     b_origin := \<lparr>co_confirmed = Some (TerminalPane 2), co_candidate = None, co_focus_base = Some (TerminalPane 2)\<rparr>\<rparr>"

lemma prefix_reads [simp]:
  "starts_with EVENT_PREFIX EVENT_PREFIX" "\<not> starts_with EVENT_PREFIX REQUEST_PREFIX"
  "starts_with REQUEST_PREFIX REQUEST_PREFIX"
  by (simp_all add: starts_with_def EVENT_PREFIX_def REQUEST_PREFIX_def lit_def)

lemma fst_run [simp]: "fst (run step s (x # xs)) = fst (run step (fst (step s x)) xs)" for s :: 's
  by (simp add: run_Cons split_def Let_def)

lemma one_text [simp]: "decimal_text (Suc 0) = [49]"
  by (simp add: decimal_text.simps)

lemmas bridge_eval = bridge_step_def load_def update_host_def permission_result_def pipe_in_def
  subscribe_def decode_event_subscription_def new_subscription_def protocol_is_current_def
  cancel_capture_def cancel_capture_for_restore_def cancel_pending_def cancel_active_def release_capture_ui_def
  clear_capture_ui_def on_list_clients_def own_client_def census_def
  is_muxe_running_command_def split_whitespace_def observe_def no_origin_def capture_idle_def
  try_register_def registration_from_random_def try_post_dismissals_def on_mode_update_def mode_settled_def
  on_timer_def new_bridge_def

lemma sample_ready_reached: "fst (run (bridge_step sample_api) new_bridge sample_start) = sample_ready"
  by (simp add: bridge_eval sample_start_def sample_ready_def pipe_line_def sample_api_def sample_ans_def
      Let_def del: run.simps(2))

text \<open>The menu asks for the keyboard; the host confirms Locked.\<close>

lemmas request_eval = on_request_def decode_request_line_def decode_line_def check_line_bound_def
  validate_pipe_request_def require_non_empty_def validate_session_def
  validate_common_def validate_nonce_def validate_identifier_def validate_text_def
  MAX_PIPE_LINE_LEN_def MAX_DETAIL_LEN_def encode_utf8_def is_whitespace_def is_control_def
  result_simps admitted_def handle_request_def begin_capture_def bind_capture_ui_def

definition sample_captured :: "(u32, u32) bridge" where
  "sample_captured = sample_ready\<lparr>b_last_request := Some (BridgeRequestId 1), b_mode := Some ModeLocked,
     b_active := Some \<lparr>ac_lease = sample_lease, ac_prior = ModeNormal, ac_ticks = CAPTURE_LEASE_TICKS\<rparr>\<rparr>"

definition sample_capture :: "(bridge_input \<times> u32 host_answers) list" where
  "sample_capture = sample_start @ map (\<lambda>i. (i, sample_ans))
     [pipe_line REQUEST_PREFIX 98, HostEvent (ModeUpdate ModeLocked)]"

lemma sample_begin: "decode_request_line sample_json [98]
    = Inr (sample_frame 1 (BrBeginCapture sample_lease (UiSessionId [115])))"
  by (simp add: sample_json_def request_eval sample_frame_def sample_lease_def)

lemma sample_end: "decode_request_line sample_json [101]
    = Inr (sample_frame 2 (BrEndCapture sample_lease EndUiDismissed))"
  by (simp add: sample_json_def request_eval sample_frame_def sample_lease_def)

lemma sample_dispatch: "decode_request_line sample_json [100]
    = Inr (sample_frame 3 (BrDispatch (WireExecutionId 6) (DispatchCommand 4)))"
  by (simp add: sample_json_def request_eval sample_frame_def)

lemma api_reads [simp]: "api_request_json sample_api = sample_json"
  by (simp add: sample_api_def)

lemmas sample_lines = sample_begin sample_end sample_dispatch

lemmas step_eval = bridge_eval on_request_def admitted_def handle_request_def begin_capture_def bind_capture_ui_def
  end_capture_def sample_frame_def pipe_line_def

lemma sample_captured_reached:
  "fst (run (bridge_step sample_api) new_bridge sample_capture) = sample_captured"
proof -
  have "fst (run (bridge_step sample_api) sample_ready (map (\<lambda>i. (i, sample_ans))
     [pipe_line REQUEST_PREFIX 98, HostEvent (ModeUpdate ModeLocked)])) = sample_captured"
    by (simp add: step_eval sample_lines sample_ready_def sample_captured_def Let_def del: run.simps(2))
  then show ?thesis by (simp add: sample_capture_def run_append sample_ready_reached del: run.simps)
qed

lemma sample_ended:
  "bridge_step sample_api sample_captured (pipe_line REQUEST_PREFIX 101, sample_ans) =
     (let s = sample_captured\<lparr>b_last_request := Some (BridgeRequestId 2), b_active := None,
                b_restoring := Some (RestoreBarrier True)\<rparr>
      in (s, FxSwitchMode ModeNormal # release [99, 101] (BridgeRequestId 2) GENERATION_INITIAL s))"
  by (simp add: step_eval sample_lines sample_ready_def sample_captured_def fx_then_def sequence_warning_def
      lease_matches_def tab_remove_def Let_def)

section \<open>The properties on the session\<close>

lemma sample_owed: "owed sample_captured = Some ModeNormal" "captured_by sample_lease sample_captured"
  by (simp_all add: owed_def captured_by_def sample_captured_def)

lemma sample_end_admitted: "admitted_request sample_api sample_captured (pipe_line REQUEST_PREFIX 101)
    = Some ([99, 101], sample_frame 2 (BrEndCapture sample_lease EndUiDismissed))"
  by (simp add: admitted_request_def request_of_def pipe_line_def sample_lines admitted_def sample_frame_def
      sample_captured_def sample_ready_def)

theorem mode_given_back_witness:
  "owed sample_captured = Some ModeNormal
   \<and> FxSwitchMode ModeNormal \<in> set (snd (bridge_step sample_api sample_captured (pipe_line REQUEST_PREFIX 101, sample_ans)))"
proof -
  let ?r = "bridge_step sample_api sample_captured (pipe_line REQUEST_PREFIX 101, sample_ans)"
  have "owed (fst ?r) = None"
    unfolding sample_ended Let_def fst_conv
    by (simp add: owed_def sample_captured_def sample_ready_def new_bridge_def)
  moreover have "\<nexists>n. pipe_line REQUEST_PREFIX 101 = HostEvent (ModeUpdate n)" by (simp add: pipe_line_def)
  ultimately show ?thesis
    using mode_given_back [OF sample_captured_reached [symmetric] sample_owed(1), of
        "pipe_line REQUEST_PREFIX 101" sample_ans "fst ?r" "snd ?r"]
    by (auto simp: sample_owed sample_end_admitted sample_frame_def)
qed

theorem no_guessed_mode_witness: "ModeNormal = ModeLocked \<or> owed sample_captured = Some ModeNormal"
  by (rule no_guessed_mode [OF sample_captured_reached [symmetric] sample_ended [unfolded Let_def]]) simp

theorem silent_broker_loses_capture_witness:
  "captured_by sample_lease sample_captured
   \<and> \<not> captured_by sample_lease
        (fst (run (bridge_step sample_api) sample_captured (replicate 3 (HostEvent TimerEvent, sample_ans))))"
  using silent_broker_loses_capture [OF sample_captured_reached [symmetric] sample_owed(2),
      of "replicate 3 (HostEvent TimerEvent, sample_ans)"]
  by (simp add: sample_owed speaks_for_def request_of_def is_tick_def numeral_3_eq_3)

theorem one_release_witness:
  "unblocked (snd (bridge_step sample_api sample_captured (pipe_line REQUEST_PREFIX 101, sample_ans))) = [[99, 101]]
   \<and> released (snd (bridge_step sample_api sample_captured (pipe_line REQUEST_PREFIX 101, sample_ans))) = [BridgeRequestId 2]"
  using one_release [OF sample_captured_reached [symmetric] sample_ended [unfolded Let_def]]
  by (simp add: sample_end_admitted sample_frame_def sample_ended Let_def)

text \<open>A command is dispatched: accepted now, completed later.\<close>

lemma sample_served: "served sample_api sample_ready"
  unfolding sample_ready_reached [symmetric]
  by (rule served_run [OF served.fresh])
    (simp add: sample_start_def request_of_def pipe_line_def)

definition sample_dispatched :: "(u32, u32) bridge" where
  "sample_dispatched = sample_ready\<lparr>b_last_request := Some (BridgeRequestId 3),
     b_actions := [([57, 58, 51], \<lparr>pa_request_id = BridgeRequestId 3, pa_execution = WireExecutionId 6,
       pa_generation = GENERATION_INITIAL, pa_coordinates = None\<rparr>)]\<rparr>"

lemma three_text: "decimal_text 3 = [51]"
  by (simp add: decimal_text.simps)

lemma sample_dispatch_state:
  "fst (bridge_step sample_api sample_ready (pipe_line REQUEST_PREFIX 100, sample_ans)) = sample_dispatched"
  by (simp add: step_eval sample_lines sample_ready_def sample_dispatched_def dispatch_command_def
      prepare_command_def correlation_of_def sample_api_def three_text lit_def Let_def)

lemma sample_dispatch_admitted: "admitted_request sample_api sample_ready (pipe_line REQUEST_PREFIX 100)
    = Some ([99, 100], sample_frame 3 (BrDispatch (WireExecutionId 6) (DispatchCommand 4)))"
  by (simp add: admitted_request_def request_of_def pipe_line_def sample_lines admitted_def sample_frame_def
      sample_ready_def)

theorem dispatch_conserved_witness:
  "accepted_runs (snd (bridge_step sample_api sample_ready (pipe_line REQUEST_PREFIX 100, sample_ans)))
     = [(BridgeRequestId 3, WireExecutionId 6)]
   \<and> completed_runs (snd (bridge_step sample_api sample_ready (pipe_line REQUEST_PREFIX 100, sample_ans))) = []
   \<and> unfinished sample_dispatched = [(BridgeRequestId 3, WireExecutionId 6)]"
proof -
  let ?i = "pipe_line REQUEST_PREFIX 100"
  let ?fx = "snd (bridge_step sample_api sample_ready (?i, sample_ans))"
  have seq: "in_sequence sample_api sample_ready ?i"
    by (simp add: in_sequence_def sample_ready_def new_bridge_def split: option.split)
  have sub: "subscription_of sample_api ?i = None"
    by (simp add: subscription_of_def pipe_line_def)
  have u: "unfinished sample_ready = []" "unfinished sample_dispatched = [(BridgeRequestId 3, WireExecutionId 6)]"
    by (simp_all add: unfinished_def action_runs_def post_runs_def action_run_def sample_dispatched_def
        sample_ready_def new_bridge_def tab_vals_def)
  have "bridge_step sample_api sample_ready (?i, sample_ans) = (sample_dispatched, ?fx)"
    by (simp add: prod_eq_iff sample_dispatch_state)
  note c = dispatch_conserved [OF sample_served seq sub this]
  have "accepted_runs ?fx = [(BridgeRequestId 3, WireExecutionId 6)]"
    using c by (simp add: sample_dispatch_admitted requested_run_def sample_frame_def)
  moreover from this have "mset (completed_runs ?fx) = {#}" using c [THEN conjunct2] u by simp
  ultimately show ?thesis using u by simp
qed

end
