(* ===== verification/Theme_Colors.thy ===== *)
theory Theme_Colors
  imports Ordered_Table
begin

text \<open>
  The colors of themes (\<open>muxe-core/src/theme.rs\<close>): the color syntax, color expressions with
  aliases, and the resolver that follows aliases through the palette and the semantic colors of an
  asset with a memo of what it has resolved and the set of names it is resolving.

  A \<open>ThemePairError\<close> is its message. Names are their texts.
\<close>

section \<open>Color syntax\<close>

datatype color = ColorInherit | ColorRgb u8 u8 u8

type_synonym theme_error = str

definition bytes_of :: "str \<Rightarrow> u8 list" where
  "bytes_of t = concat (map encode_utf8 t)"

definition is_ascii_hexdigit :: "u8 \<Rightarrow> bool" where
  "is_ascii_hexdigit b \<longleftrightarrow>
     (0x30 \<le> b \<and> b \<le> 0x39) \<or> (0x61 \<le> b \<and> b \<le> 0x66) \<or> (0x41 \<le> b \<and> b \<le> 0x46)"

definition color_digit :: "u8 \<Rightarrow> u8" where
  "color_digit b =
     (if 0x30 \<le> b \<and> b \<le> 0x39 then b - 0x30
      else if 0x61 \<le> b \<and> b \<le> 0x66 then b - 0x61 + 10
      else b - 0x41 + 10)"

text \<open>The index of the first element that satisfies the test (\<open>Iterator::position\<close>).\<close>

fun position :: "('a \<Rightarrow> bool) \<Rightarrow> 'a list \<Rightarrow> nat option" where
  "position f [] = None"
| "position f (x # xs) = (if f x then Some 0 else map_option Suc (position f xs))"

definition strip_hash :: "str \<Rightarrow> str option" where
  "strip_hash v = (case v of [] \<Rightarrow> None | c # t \<Rightarrow> if c = 0x23 then Some t else None)"

definition non_hex_message :: "nat \<Rightarrow> nat \<Rightarrow> theme_error" where
  "non_hex_message n index =
     (if n = 3 then lit ''color contains a non-hexadecimal character''
      else if index < 2 then lit ''color red channel must contain two hexadecimal digits''
      else if index < 4 then lit ''color green channel must contain two hexadecimal digits''
      else lit ''color blue channel must contain two hexadecimal digits'')"

definition color_of_digits :: "u8 list \<Rightarrow> color" where
  "color_of_digits b =
     (if length b = 3
      then ColorRgb (color_digit (b ! 0) * 17) (color_digit (b ! 1) * 17) (color_digit (b ! 2) * 17)
      else ColorRgb (color_digit (b ! 0) * 16 + color_digit (b ! 1))
             (color_digit (b ! 2) * 16 + color_digit (b ! 3))
             (color_digit (b ! 4) * 16 + color_digit (b ! 5)))"

definition color_parse :: "str \<Rightarrow> theme_error + color" where
  "color_parse v =
     rbind (ok_or (strip_hash v) (lit ''color must begin with `#`'')) (\<lambda>value.
       if str_len value \<noteq> 3 \<and> str_len value \<noteq> 6
       then Inl (lit ''color must use `#rgb` or `#rrggbb`'')
       else if \<not> list_all (\<lambda>b. b < 0x80) (bytes_of value)
       then Inl (lit ''color contains a non-hexadecimal character'')
       else case position (\<lambda>b. \<not> is_ascii_hexdigit b) (bytes_of value) of
              Some index \<Rightarrow> Inl (non_hex_message (str_len value) index)
            | None \<Rightarrow> Inr (color_of_digits (bytes_of value)))"

text \<open>\<open>{:02x}\<close> and the \<open>Display\<close> of a color.\<close>

definition hex_scalar :: "nat \<Rightarrow> scalar" where
  "hex_scalar n = (if n < 10 then 0x30 + of_nat n else 0x61 + of_nat (n - 10))"

definition hex_byte :: "u8 \<Rightarrow> str" where
  "hex_byte b = [hex_scalar (unat b div 16), hex_scalar (unat b mod 16)]"

fun color_text :: "color \<Rightarrow> str" where
  "color_text ColorInherit = lit ''inherit''"
| "color_text (ColorRgb r g b) = 0x23 # hex_byte r @ hex_byte g @ hex_byte b"

datatype color_expr = ExLiteral color | ExAlias str | ExInherit

definition parse_style :: "str \<Rightarrow> theme_error + color_expr" where
  "parse_style v =
     (if take 1 v = [0x23] then rbind (color_parse v) (\<lambda>c. Inr (ExLiteral c)) else Inr (ExAlias v))"

definition parse_wire :: "str \<Rightarrow> theme_error + color_expr" where
  "parse_wire v = (if v = lit ''inherit'' then Inr ExInherit else parse_style v)"

section \<open>Schemes and their graphs\<close>

record color_scheme =
  cs_title :: str
  cs_palette :: "(str, color) table"
  cs_colors :: "(str, color) table"

type_synonym deferred_color = "theme_error + color_expr"

record color_expressions =
  ce_palette :: "(str, deferred_color) table"
  ce_colors :: "(str, deferred_color) table"

definition no_expressions :: color_expressions where
  "no_expressions = \<lparr>ce_palette = [], ce_colors = []\<rparr>"

definition insert_first :: "str \<Rightarrow> 'v \<Rightarrow> (str, 'v) table \<Rightarrow> (str, 'v) table" where
  "insert_first k v t = (if tab_has t k then t else tab_insert k v t)"

definition insert_palette_first :: "str \<Rightarrow> deferred_color \<Rightarrow> color_expressions \<Rightarrow> color_expressions" where
  "insert_palette_first n v g = g\<lparr>ce_palette := insert_first n v (ce_palette g)\<rparr>"

definition insert_palette_last :: "str \<Rightarrow> deferred_color \<Rightarrow> color_expressions \<Rightarrow> color_expressions" where
  "insert_palette_last n v g = g\<lparr>ce_palette := tab_insert n v (ce_palette g)\<rparr>"

definition insert_semantic_first :: "str \<Rightarrow> deferred_color \<Rightarrow> color_expressions \<Rightarrow> color_expressions" where
  "insert_semantic_first n v g = g\<lparr>ce_colors := insert_first n v (ce_colors g)\<rparr>"

text \<open>\<open>a.get(k).or_else(|| b.get(k))\<close>\<close>

definition either_table :: "('k, 'v) table \<Rightarrow> ('k, 'v) table \<Rightarrow> 'k \<Rightarrow> 'v option" where
  "either_table a b k = (case tab_get a k of Some v \<Rightarrow> Some v | None \<Rightarrow> tab_get b k)"

definition unknown_color :: "str \<Rightarrow> theme_error" where
  "unknown_color name = lit ''unknown color `'' @ name @ lit ''`; no matching entry in `palette` or `colors`''"

definition cyclic_alias :: "str \<Rightarrow> theme_error" where
  "cyclic_alias name = lit ''color alias `'' @ name @ lit ''` refers back to itself through a cycle of aliases''"

definition scheme_resolve :: "color_scheme \<Rightarrow> str \<Rightarrow> theme_error + color" where
  "scheme_resolve s name = ok_or (either_table (cs_colors s) (cs_palette s) name) (unknown_color name)"

section \<open>The resolver\<close>

datatype color_source = SourceScheme color_scheme | SourceExpressions color_expressions

record resolver =
  rs_active :: "str set"
  rs_resolved :: "(str, color) table"

definition new_resolver :: resolver where
  "new_resolver = \<lparr>rs_active = {}, rs_resolved = []\<rparr>"

definition graph_lookup :: "color_expressions \<Rightarrow> str \<Rightarrow> deferred_color option" where
  "graph_lookup g = either_table (ce_colors g) (ce_palette g)"

definition graph_names :: "color_expressions \<Rightarrow> str set" where
  "graph_names g = set (map fst (ce_colors g) @ map fst (ce_palette g))"

lemma graph_lookup_name: "graph_lookup g n = Some e \<Longrightarrow> n \<in> graph_names g"
  by (auto simp: graph_lookup_def either_table_def graph_names_def tab_get_def split: option.splits
      dest!: map_of_SomeD intro: rev_image_eqI)

text \<open>
  \<open>settle\<close> is the end of \<open>resolve_name\<close>: the name leaves the active set, and a color is remembered.
\<close>

definition settle :: "str \<Rightarrow> (theme_error + color) \<times> resolver \<Rightarrow> (theme_error + color) \<times> resolver" where
  "settle key r =
     (case r of (result, s) \<Rightarrow>
        (let s1 = s\<lparr>rs_active := rs_active s - {key}\<rparr> in
         case result of
           Inr c \<Rightarrow> (result, s1\<lparr>rs_resolved := tab_insert key c (rs_resolved s1)\<rparr>)
         | Inl _ \<Rightarrow> (result, s1)))"

function graph_name :: "color_expressions \<Rightarrow> str \<Rightarrow> resolver \<Rightarrow> (theme_error + color) \<times> resolver" where
  "graph_name g name s =
     (case tab_get (rs_resolved s) name of
        Some c \<Rightarrow> (Inr c, s)
      | None \<Rightarrow>
          (case graph_lookup g name of
             None \<Rightarrow> (Inl (unknown_color name), s)
           | Some e \<Rightarrow>
               if name \<in> rs_active s then (Inl (cyclic_alias name), s)
               else
                 settle name
                   (case e of
                      Inl error \<Rightarrow> (Inl error, s\<lparr>rs_active := insert name (rs_active s)\<rparr>)
                    | Inr (ExLiteral c) \<Rightarrow> (Inr c, s\<lparr>rs_active := insert name (rs_active s)\<rparr>)
                    | Inr ExInherit \<Rightarrow> (Inr ColorInherit, s\<lparr>rs_active := insert name (rs_active s)\<rparr>)
                    | Inr (ExAlias next_name) \<Rightarrow>
                        graph_name g next_name (s\<lparr>rs_active := insert name (rs_active s)\<rparr>))))"
  by auto
termination
proof (relation "measure (\<lambda>(g, _, s). card (graph_names g - rs_active s))", goal_cases)
  case (2 g name s e expr next_name)
  then have "name \<in> graph_names g - rs_active s" using graph_lookup_name by blast
  moreover have "finite (graph_names g)" by (simp add: graph_names_def)
  ultimately have "card (graph_names g - insert name (rs_active s)) < card (graph_names g - rs_active s)"
    by (intro psubset_card_mono) auto
  then show ?case by simp
qed simp

declare graph_name.simps [simp del]

definition resolve_name :: "color_source \<Rightarrow> str \<Rightarrow> resolver \<Rightarrow> (theme_error + color) \<times> resolver" where
  "resolve_name source name s =
     (case source of
        SourceScheme scheme \<Rightarrow> (scheme_resolve scheme name, s)
      | SourceExpressions g \<Rightarrow> graph_name g name s)"

definition resolve :: "color_source \<Rightarrow> color_expr \<Rightarrow> resolver \<Rightarrow> (theme_error + color) \<times> resolver" where
  "resolve source e s =
     (case e of
        ExLiteral c \<Rightarrow> (Inr c, s)
      | ExInherit \<Rightarrow> (Inr ColorInherit, s)
      | ExAlias name \<Rightarrow> resolve_name source name s)"

text \<open>\<open>iter.map(f).collect::<Result<Vec<_>, _>>()\<close>: the state is threaded, the first error ends the loop.\<close>

fun collect_states :: "('x \<Rightarrow> 's \<Rightarrow> ('e + 'y) \<times> 's) \<Rightarrow> 'x list \<Rightarrow> 's \<Rightarrow> ('e + 'y list) \<times> 's" where
  "collect_states f [] s = (Inr [], s)"
| "collect_states f (x # xs) s =
     (case f x s of
        (Inl e, s1) \<Rightarrow> (Inl e, s1)
      | (Inr y, s1) \<Rightarrow>
          (case collect_states f xs s1 of
             (Inl e, s2) \<Rightarrow> (Inl e, s2)
           | (Inr ys, s2) \<Rightarrow> (Inr (y # ys), s2)))"

definition resolve_deferred :: "color_source \<Rightarrow> deferred_color \<Rightarrow> resolver \<Rightarrow> (theme_error + color) \<times> resolver" where
  "resolve_deferred source d s =
     (case d of Inl error \<Rightarrow> (Inl error, s) | Inr e \<Rightarrow> resolve source e s)"

definition resolve_all :: "color_expressions \<Rightarrow> str \<Rightarrow> theme_error + color_scheme" where
  "resolve_all g title =
     (case collect_states (resolve_deferred (SourceExpressions g)) (map snd (ce_palette g)) new_resolver of
        (Inl e, _) \<Rightarrow> Inl e
      | (Inr palette_values, s1) \<Rightarrow>
          (case collect_states (resolve_name (SourceExpressions g)) (map fst (ce_colors g)) s1 of
             (Inl e, _) \<Rightarrow> Inl e
           | (Inr color_values, _) \<Rightarrow>
               Inr \<lparr>cs_title = title, cs_palette = zip (map fst (ce_palette g)) palette_values,
                    cs_colors = zip (map fst (ce_colors g)) color_values\<rparr>))"

section \<open>What a color expression means\<close>

text \<open>
  The meaning, without memo and active set: an expression denotes a color when its chain of aliases
  ends in a color.
\<close>

inductive denotes :: "color_expressions \<Rightarrow> color_expr \<Rightarrow> color \<Rightarrow> bool" for g where
  of_literal: "denotes g (ExLiteral c) c"
| of_inherit: "denotes g ExInherit ColorInherit"
| of_alias: "graph_lookup g n = Some (Inr e) \<Longrightarrow> denotes g e c \<Longrightarrow> denotes g (ExAlias n) c"

inductive_simps denotes_simps [simp]: "denotes g (ExLiteral c) d" "denotes g ExInherit d"
inductive_simps denotes_alias: "denotes g (ExAlias n) d"

lemma denotes_unique: "denotes g e c \<Longrightarrow> denotes g e d \<Longrightarrow> c = d"
proof (induction arbitrary: d rule: denotes.induct)
  case (of_alias n e c)
  then show ?case by (auto simp: denotes_alias)
qed simp_all

definition points :: "color_expressions \<Rightarrow> (str \<times> str) set" where
  "points g = {(n, m). graph_lookup g n = Some (Inr (ExAlias m))}"

text \<open>A name on a cycle denotes nothing.\<close>

lemma step_then_cycle:
  assumes "(n, m) \<in> points g" "(n, n) \<in> (points g)\<^sup>+"
  shows "(m, m) \<in> (points g)\<^sup>+"
proof -
  obtain m' where m': "(n, m') \<in> points g" "(m', n) \<in> (points g)\<^sup>*"
    using assms(2) by (meson tranclD)
  then have "m' = m" using assms(1) by (simp add: points_def)
  then show ?thesis using m'(2) assms(1) by (meson rtrancl_into_trancl1)
qed

lemma denotes_no_cycle: "denotes g e c \<Longrightarrow> e = ExAlias n \<Longrightarrow> (n, n) \<notin> (points g)\<^sup>+"
proof (induction arbitrary: n rule: denotes.induct)
  case (of_alias m e c)
  then have m: "graph_lookup g n = Some (Inr e)" by simp
  show ?case
  proof
    assume cycle: "(n, n) \<in> (points g)\<^sup>+"
    then obtain k where "(n, k) \<in> points g" by (meson tranclD)
    then have "e = ExAlias k" using m by (simp add: points_def)
    moreover have "(k, k) \<in> (points g)\<^sup>+" by (rule step_then_cycle) fact+
    ultimately show False using of_alias.IH by blast
  qed
qed simp_all

text \<open>
  What goes wrong with an expression, without the memo: its chain of aliases, walked from the names in
  \<open>A\<close>, comes to an unknown name, to a malformed entry, or to a name it has met before.
\<close>

inductive walk_fails :: "color_expressions \<Rightarrow> str set \<Rightarrow> color_expr \<Rightarrow> theme_error \<Rightarrow> bool" for g where
  unknown: "graph_lookup g n = None \<Longrightarrow> walk_fails g A (ExAlias n) (unknown_color n)"
| cyclic: "graph_lookup g n = Some d \<Longrightarrow> n \<in> A \<Longrightarrow> walk_fails g A (ExAlias n) (cyclic_alias n)"
| malformed: "graph_lookup g n = Some (Inl err) \<Longrightarrow> n \<notin> A \<Longrightarrow> walk_fails g A (ExAlias n) err"
| chain: "graph_lookup g n = Some (Inr e) \<Longrightarrow> n \<notin> A \<Longrightarrow> walk_fails g (insert n A) e err \<Longrightarrow> walk_fails g A (ExAlias n) err"

inductive_simps walk_fails_simps [simp]: "walk_fails g A (ExLiteral c) err" "walk_fails g A ExInherit err"
inductive_simps walk_fails_alias: "walk_fails g A (ExAlias n) err"

lemma denotes_not_fails:
  "denotes g e c \<Longrightarrow> \<forall>n. e = ExAlias n \<longrightarrow> (\<forall>a \<in> A. (a, n) \<in> (points g)\<^sup>+) \<Longrightarrow> \<not> walk_fails g A e err"
proof (induction arbitrary: A rule: denotes.induct)
  case (of_alias n e c)
  have "n \<notin> A"
    using of_alias denotes_no_cycle [OF denotes.of_alias [OF of_alias(1,2)] refl] by auto
  moreover have "\<not> walk_fails g (insert n A) e err"
  proof (rule of_alias.IH, intro allI impI ballI)
    fix m a assume m: "e = ExAlias m" "a \<in> insert n A"
    with of_alias(1) have "(n, m) \<in> points g" by (simp add: points_def)
    with m of_alias.prems show "(a, m) \<in> (points g)\<^sup>+" by (auto intro: trancl_into_trancl)
  qed
  ultimately show ?case using of_alias(1) by (simp add: walk_fails_alias)
qed simp_all

section \<open>The resolver computes the meaning\<close>

definition memo_ok :: "color_expressions \<Rightarrow> resolver \<Rightarrow> bool" where
  "memo_ok g s \<longleftrightarrow> tab_ok (rs_resolved s)
     \<and> (\<forall>m c. tab_get (rs_resolved s) m = Some c \<longrightarrow> denotes g (ExAlias m) c)"

definition reached_from :: "color_expressions \<Rightarrow> resolver \<Rightarrow> str \<Rightarrow> bool" where
  "reached_from g s n \<longleftrightarrow> (\<forall>a \<in> rs_active s. (a, n) \<in> (points g)\<^sup>+)"

text \<open>
  \<open>exact\<close>: the result is the meaning or the error of the walk, the memo stays correct, and the active
  set is as before.
\<close>

definition exact :: "color_expressions \<Rightarrow> color_expr \<Rightarrow> resolver \<Rightarrow> (theme_error + color) \<times> resolver \<Rightarrow> bool" where
  "exact g e s r \<longleftrightarrow> memo_ok g (snd r) \<and> rs_active (snd r) = rs_active s
     \<and> (\<forall>c. fst r = Inr c \<longleftrightarrow> denotes g e c)
     \<and> (\<forall>err. fst r = Inl err \<longleftrightarrow> walk_fails g (rs_active s) e err)"

lemma settle_exact:
  assumes "memo_ok g s" "name \<notin> rs_active s" "graph_lookup g name = Some (Inr e)"
    and "exact g e (s\<lparr>rs_active := insert name (rs_active s)\<rparr>) r"
  shows "exact g (ExAlias name) s (settle name r)"
proof -
  obtain result s1 where r: "r = (result, s1)" by (cases r)
  have a: "rs_active s1 - {name} = rs_active s" using assms(2,4) r by (auto simp: exact_def)
  have d: "denotes g (ExAlias name) c \<longleftrightarrow> denotes g e c" for c
    using assms(3) by (auto simp: denotes_alias)
  have f: "walk_fails g (rs_active s) (ExAlias name) err \<longleftrightarrow> walk_fails g (insert name (rs_active s)) e err" for err
    using assms(2,3) by (auto simp: walk_fails_alias)
  have "memo_ok g (s1\<lparr>rs_active := rs_active s, rs_resolved := tab_insert name c (rs_resolved s1)\<rparr>)"
    if "result = Inr c" for c
    using assms(4) r d [of c] that
    by (auto simp: exact_def memo_ok_def tab_ok_insert tab_get_insert)
  then show ?thesis
    using assms(4) r d f a by (cases result) (auto simp: exact_def settle_def memo_ok_def Let_def)
qed

lemma graph_name_exact:
  assumes "memo_ok g s" "reached_from g s name"
  shows "exact g (ExAlias name) s (graph_name g name s)"
  using assms
proof (induction g name s rule: graph_name.induct)
  case (1 g name s)
  show ?case
  proof (cases "tab_get (rs_resolved s) name")
    case (Some c)
    then have den: "denotes g (ExAlias name) c" using 1(2) by (simp add: memo_ok_def)
    then have "\<not> walk_fails g (rs_active s) (ExAlias name) err" for err
      using 1(3) by (intro denotes_not_fails) (auto simp: reached_from_def)
    then show ?thesis using den Some 1(2) denotes_unique
      by (auto simp: graph_name.simps [of g name s] exact_def)
  next
    case None
    show ?thesis
    proof (cases "graph_lookup g name")
      case None2: None
      then show ?thesis using None 1(2)
        by (auto simp: graph_name.simps [of g name s] exact_def denotes_alias walk_fails_alias)
    next
      case (Some d)
      show ?thesis
      proof (cases "name \<in> rs_active s")
        case True
        then have "(name, name) \<in> (points g)\<^sup>+" using 1(3) by (simp add: reached_from_def)
        then have "\<not> denotes g (ExAlias name) c" for c using denotes_no_cycle by blast
        then show ?thesis using None Some True 1(2)
          by (auto simp: graph_name.simps [of g name s] exact_def walk_fails_alias)
      next
        case False
        let ?s = "s\<lparr>rs_active := insert name (rs_active s)\<rparr>"
        have memo: "memo_ok g ?s" using 1(2) by (simp add: memo_ok_def)
        show ?thesis
        proof (cases d)
          case (Inl error)
          then show ?thesis using None Some False 1(2)
            by (auto simp: graph_name.simps [of g name s] exact_def settle_def denotes_alias walk_fails_alias memo_ok_def Let_def)
        next
          case (Inr e)
          have lookup: "graph_lookup g name = Some (Inr e)" using Some Inr by simp
          show ?thesis
          proof (cases e)
            case (ExAlias m)
            have "(name, m) \<in> points g" using lookup ExAlias by (simp add: points_def)
            then have "reached_from g ?s m"
              using 1(3) by (auto simp: reached_from_def intro: trancl_into_trancl)
            from 1(1) [OF None Some False Inr ExAlias memo this] show ?thesis
              using settle_exact [OF 1(2) False lookup, of "graph_name g m ?s"] None Some False Inr ExAlias
              by (simp add: graph_name.simps [of g name s])
          next
            case (ExLiteral c)
            have "exact g e ?s (Inr c, ?s)" using memo ExLiteral by (auto simp: exact_def)
            from settle_exact [OF 1(2) False lookup this] show ?thesis
              using None Some False Inr ExLiteral by (simp add: graph_name.simps [of g name s])
          next
            case ExInherit
            have "exact g e ?s (Inr ColorInherit, ?s)" using memo ExInherit by (auto simp: exact_def)
            from settle_exact [OF 1(2) False lookup this] show ?thesis
              using None Some False Inr ExInherit by (simp add: graph_name.simps [of g name s])
          qed
        qed
      qed
    qed
  qed
qed

text \<open>Between two roots the active set is empty.\<close>

definition idle :: "color_expressions \<Rightarrow> resolver \<Rightarrow> bool" where
  "idle g s \<longleftrightarrow> memo_ok g s \<and> rs_active s = {}"

lemma idle_new: "idle g new_resolver"
  by (simp add: idle_def memo_ok_def new_resolver_def tab_get_def)

definition finds :: "color_expressions \<Rightarrow> ('x \<Rightarrow> color \<Rightarrow> bool) \<Rightarrow> ('x \<Rightarrow> theme_error \<Rightarrow> bool) \<Rightarrow>
    ('x \<Rightarrow> resolver \<Rightarrow> (theme_error + color) \<times> resolver) \<Rightarrow> bool" where
  "finds g means fails f \<longleftrightarrow> (\<forall>x s. idle g s \<longrightarrow> idle g (snd (f x s))
     \<and> (\<forall>c. fst (f x s) = Inr c \<longleftrightarrow> means x c) \<and> (\<forall>err. fst (f x s) = Inl err \<longleftrightarrow> fails x err))"

lemma resolve_name_finds:
  "finds g (\<lambda>n. denotes g (ExAlias n)) (\<lambda>n. walk_fails g {} (ExAlias n)) (resolve_name (SourceExpressions g))"
  using graph_name_exact [of g]
  by (fastforce simp: finds_def resolve_name_def exact_def idle_def reached_from_def)

lemma resolve_finds: "finds g (denotes g) (walk_fails g {}) (resolve (SourceExpressions g))"
  using resolve_name_finds [of g]
  by (auto simp: finds_def resolve_def split: color_expr.split)

text \<open>What an entry of a palette means, and what is wrong with it.\<close>

definition entry_means :: "color_expressions \<Rightarrow> deferred_color \<Rightarrow> color \<Rightarrow> bool" where
  "entry_means g d c \<longleftrightarrow> (\<exists>e. d = Inr e \<and> denotes g e c)"

definition entry_fails :: "color_expressions \<Rightarrow> deferred_color \<Rightarrow> theme_error \<Rightarrow> bool" where
  "entry_fails g d err \<longleftrightarrow> d = Inl err \<or> (\<exists>e. d = Inr e \<and> walk_fails g {} e err)"

lemma entry_expression [simp]:
  "entry_means g (Inr e) = denotes g e" "entry_fails g (Inr e) = walk_fails g {} e"
  by (intro ext, simp add: entry_means_def entry_fails_def)+

lemma resolve_deferred_finds: "finds g (entry_means g) (entry_fails g) (resolve_deferred (SourceExpressions g))"
  using resolve_finds [of g]
  by (auto simp: finds_def resolve_deferred_def entry_means_def entry_fails_def split: sum.split)

lemma findsD:
  assumes "finds g means fails f" "idle g s" "f x s = (r, s1)"
  shows "idle g s1" "r = Inr c \<longleftrightarrow> means x c" "r = Inl err \<longleftrightarrow> fails x err"
proof -
  have "idle g (snd (f x s)) \<and> (\<forall>c. fst (f x s) = Inr c \<longleftrightarrow> means x c) \<and> (\<forall>err. fst (f x s) = Inl err \<longleftrightarrow> fails x err)"
    using assms(1,2) unfolding finds_def by blast
  then show "idle g s1" "r = Inr c \<longleftrightarrow> means x c" "r = Inl err \<longleftrightarrow> fails x err" using assms(3) by simp_all
qed

text \<open>The error of the first entry that has one.\<close>

fun first_failure :: "('x \<Rightarrow> color \<Rightarrow> bool) \<Rightarrow> ('x \<Rightarrow> theme_error \<Rightarrow> bool) \<Rightarrow> 'x list \<Rightarrow> theme_error \<Rightarrow> bool" where
  "first_failure means fails [] err \<longleftrightarrow> False"
| "first_failure means fails (x # xs) err \<longleftrightarrow> fails x err \<or> (\<exists>c. means x c) \<and> first_failure means fails xs err"

lemma first_failure_iff:
  "first_failure means fails xs err \<longleftrightarrow>
     (\<exists>ys x zs. xs = ys @ x # zs \<and> (\<forall>y \<in> set ys. \<exists>c. means y c) \<and> fails x err)"
proof (induction xs)
  case (Cons x xs)
  show ?case
  proof
    assume "first_failure means fails (x # xs) err"
    then consider "fails x err" | c where "means x c" "first_failure means fails xs err" by auto
    then show "\<exists>ys y zs. x # xs = ys @ y # zs \<and> (\<forall>y \<in> set ys. \<exists>c. means y c) \<and> fails y err"
    proof cases
      case 1
      then show ?thesis by (intro exI [of _ "[]"]) auto
    next
      case 2
      with Cons.IH obtain ys y zs where "xs = ys @ y # zs" "\<forall>y \<in> set ys. \<exists>c. means y c" "fails y err" by blast
      with 2 show ?thesis by (intro exI [of _ "x # ys"]) auto
    qed
  next
    assume "\<exists>ys y zs. x # xs = ys @ y # zs \<and> (\<forall>y \<in> set ys. \<exists>c. means y c) \<and> fails y err"
    then obtain ys y zs where "x # xs = ys @ y # zs" "\<forall>y \<in> set ys. \<exists>c. means y c" "fails y err" by blast
    with Cons.IH show "first_failure means fails (x # xs) err" by (cases ys) auto
  qed
qed simp

lemma first_failure_append:
  "first_failure means fails (xs @ ys) err \<longleftrightarrow>
     first_failure means fails xs err \<or> (\<forall>x \<in> set xs. \<exists>c. means x c) \<and> first_failure means fails ys err"
  by (induction xs) auto

lemma first_failure_map: "first_failure means fails (map f xs) err = first_failure (\<lambda>x. means (f x)) (\<lambda>x. fails (f x)) xs err"
  by (induction xs) simp_all

lemma collect_finds:
  assumes "finds g means fails f" "idle g s"
  shows "idle g (snd (collect_states f xs s)) \<and> (\<forall>cs. fst (collect_states f xs s) = Inr cs \<longleftrightarrow> list_all2 means xs cs)
    \<and> (\<forall>err. fst (collect_states f xs s) = Inl err \<longleftrightarrow> first_failure means fails xs err)"
  using assms(2)
proof (induction xs arbitrary: s)
  case (Cons x xs)
  obtain r s1 where r: "f x s = (r, s1)" by (cases "f x s")
  note x = findsD [OF assms(1) Cons.prems r]
  obtain q s2 where q: "collect_states f xs s1 = (q, s2)" by (cases "collect_states f xs s1")
  have t: "idle g s2" "\<And>cs. q = Inr cs \<longleftrightarrow> list_all2 means xs cs" "\<And>err. q = Inl err \<longleftrightarrow> first_failure means fails xs err"
    using Cons.IH [OF x(1)] q by simp_all
  show ?case
  proof (cases r)
    case (Inl e)
    then have "\<not> means x c" "fails x err \<longleftrightarrow> err = e" for c err using x(2) [of c] x(3) [of err] by auto
    then show ?thesis using r x(1) Inl by (auto simp: list_all2_Cons1)
  next
    case (Inr c)
    then have c: "means x d \<longleftrightarrow> d = c" "\<not> fails x err" for d err using x(2) [of d] x(3) [of err] by auto
    show ?thesis
    proof (cases q)
      case (Inl e)
      have "first_failure means fails xs err \<longleftrightarrow> err = e" "\<not> list_all2 means xs cs" for err cs
        using t(2) [of cs] t(3) [of err] Inl by auto
      then show ?thesis using r q Inr Inl t(1) c by (auto simp: list_all2_Cons1)
    next
      case (Inr ds)
      have "\<not> first_failure means fails xs err" "list_all2 means xs cs \<longleftrightarrow> cs = ds" for err cs
        using t(2) [of cs] t(3) [of err] Inr by auto
      then show ?thesis using r q \<open>r = Inr c\<close> Inr t(1) c by (auto simp: list_all2_Cons1)
    qed
  qed
qed auto

lemma list_all2_some: "(\<exists>ys. list_all2 R xs ys) \<longleftrightarrow> (\<forall>x \<in> set xs. \<exists>y. R x y)"
  by (induction xs) (auto simp: list_all2_Cons1)

lemma list_all2_keyed:
  "list_all2 (\<lambda>(n, d) (m, c). n = m \<and> R n d c) xs ys \<longleftrightarrow>
     map fst ys = map fst xs \<and> list_all2 (\<lambda>(n, d) c. R n d c) xs (map snd ys)"
proof (induction xs arbitrary: ys)
  case (Cons x xs)
  then show ?case by (cases ys) auto
qed simp

lemma resolve_all_success:
  "resolve_all g title = Inr scheme \<longleftrightarrow>
     cs_title scheme = title
     \<and> list_all2 (\<lambda>(n, d) (m, c). n = m \<and> entry_means g d c) (ce_palette g) (cs_palette scheme)
     \<and> list_all2 (\<lambda>(n, d) (m, c). n = m \<and> denotes g (ExAlias n) c) (ce_colors g) (cs_colors scheme)"
  (is "?lhs \<longleftrightarrow> ?rhs")
proof -
  let ?f = "resolve_deferred (SourceExpressions g)" and ?h = "resolve_name (SourceExpressions g)"
  obtain p s1 where p: "collect_states ?f (map snd (ce_palette g)) new_resolver = (p, s1)"
    by (cases "collect_states ?f (map snd (ce_palette g)) new_resolver")
  obtain q s2 where q: "collect_states ?h (map fst (ce_colors g)) s1 = (q, s2)"
    by (cases "collect_states ?h (map fst (ce_colors g)) s1")
  have ps: "idle g s1" "\<And>cs. p = Inr cs \<longleftrightarrow> list_all2 (entry_means g) (map snd (ce_palette g)) cs"
    using collect_finds [OF resolve_deferred_finds idle_new, of g "map snd (ce_palette g)"] p by simp_all
  have qs: "q = Inr cs \<longleftrightarrow> list_all2 (\<lambda>n. denotes g (ExAlias n)) (map fst (ce_colors g)) cs" for cs
    using collect_finds [OF resolve_name_finds ps(1), of "map fst (ce_colors g)"] q by simp
  have e: "length ns = length cs \<Longrightarrow> ys = zip ns cs \<longleftrightarrow> map fst ys = ns \<and> map snd ys = cs"
    for ns :: "str list" and cs :: "color list" and ys by (metis map_fst_zip map_snd_zip zip_map_fst_snd)
  have "?rhs \<longleftrightarrow> cs_title scheme = title
     \<and> map fst (cs_palette scheme) = map fst (ce_palette g) \<and> p = Inr (map snd (cs_palette scheme))
     \<and> map fst (cs_colors scheme) = map fst (ce_colors g) \<and> q = Inr (map snd (cs_colors scheme))"
    unfolding ps(2) qs list_all2_keyed [where ?R = "\<lambda>_. entry_means g"]
      list_all2_keyed [where ?R = "\<lambda>n _ c. denotes g (ExAlias n) c"]
    by (simp add: list_all2_map1 list_all2_map2 case_prod_beta conj_ac)
  also have "\<dots> \<longleftrightarrow> ?lhs"
  proof (cases "\<exists>cs ds. p = Inr cs \<and> q = Inr ds")
    case True
    then obtain cs ds where pq: "p = Inr cs" "q = Inr ds" by blast
    have "length (map fst (ce_palette g)) = length cs" "length (map fst (ce_colors g)) = length ds"
      using ps(2) [of cs] qs [of ds] pq by (auto dest: list_all2_lengthD)
    note e = e [OF this(1)] e [OF this(2)]
    have "?lhs \<longleftrightarrow> scheme = \<lparr>cs_title = title, cs_palette = zip (map fst (ce_palette g)) cs,
        cs_colors = zip (map fst (ce_colors g)) ds\<rparr>"
      by (auto simp: resolve_all_def p q pq)
    also have "\<dots> \<longleftrightarrow> cs_title scheme = title \<and> cs_palette scheme = zip (map fst (ce_palette g)) cs
        \<and> cs_colors scheme = zip (map fst (ce_colors g)) ds"
      by (cases scheme) auto
    finally show ?thesis unfolding e pq by auto
  next
    case False
    then show ?thesis by (cases p; cases q) (auto simp: resolve_all_def p q)
  qed
  finally show ?thesis by simp
qed

text \<open>All that has to be resolved, in the order of the code: the palette, then the semantic names.\<close>

definition graph_entries :: "color_expressions \<Rightarrow> deferred_color list" where
  "graph_entries g = map snd (ce_palette g) @ map (\<lambda>(n, d). Inr (ExAlias n)) (ce_colors g)"

lemma resolve_all_failure:
  "resolve_all g title = Inl err \<longleftrightarrow> first_failure (entry_means g) (entry_fails g) (graph_entries g) err"
proof -
  let ?f = "resolve_deferred (SourceExpressions g)" and ?h = "resolve_name (SourceExpressions g)"
  obtain p s1 where p: "collect_states ?f (map snd (ce_palette g)) new_resolver = (p, s1)"
    by (cases "collect_states ?f (map snd (ce_palette g)) new_resolver")
  obtain q s2 where q: "collect_states ?h (map fst (ce_colors g)) s1 = (q, s2)"
    by (cases "collect_states ?h (map fst (ce_colors g)) s1")
  have ps: "idle g s1" "\<And>cs. p = Inr cs \<longleftrightarrow> list_all2 (entry_means g) (map snd (ce_palette g)) cs"
    "\<And>e. p = Inl e \<longleftrightarrow> first_failure (entry_means g) (entry_fails g) (map snd (ce_palette g)) e"
    using collect_finds [OF resolve_deferred_finds idle_new, of g "map snd (ce_palette g)"] p by simp_all
  have "q = Inl e \<longleftrightarrow> first_failure (\<lambda>n. denotes g (ExAlias n)) (\<lambda>n. walk_fails g {} (ExAlias n)) (map fst (ce_colors g)) e" for e
    using collect_finds [OF resolve_name_finds ps(1), of "map fst (ce_colors g)"] q by simp
  then have qs: "q = Inl e \<longleftrightarrow> first_failure (entry_means g) (entry_fails g) (map (\<lambda>(n, d). Inr (ExAlias n)) (ce_colors g)) e" for e
    by (simp add: first_failure_map case_prod_beta)
  have all: "(\<exists>cs. p = Inr cs) \<longleftrightarrow> (\<forall>d \<in> set (map snd (ce_palette g)). \<exists>c. entry_means g d c)"
    unfolding ps(2) by (rule list_all2_some)
  show ?thesis
    using all ps(3) [of err] qs [of err] by (cases p; cases q) (auto simp: resolve_all_def p q graph_entries_def first_failure_append)
qed

text \<open>
  C17: aliases of colors are resolved exactly. An asset is accepted just when every entry of its
  palette and of its semantic colors, used or not, has a well-formed expression whose chain of
  aliases ends in a color (none is unknown, malformed or on a cycle), and then the scheme maps each
  name to that color. Otherwise the error is that of the first entry that has none, the palette
  coming before the semantic colors: the entry's own parse error, or what the walk along its chain of
  aliases meets first - an unknown name, the parse error of a malformed entry, or a name it has met
  before. The memo of resolved names is unobservable.
\<close>

theorem resolve_all_exact:
  "(resolve_all g title = Inr scheme \<longleftrightarrow>
     cs_title scheme = title
     \<and> list_all2 (\<lambda>(n, d) (m, c). n = m \<and> entry_means g d c) (ce_palette g) (cs_palette scheme)
     \<and> list_all2 (\<lambda>(n, d) (m, c). n = m \<and> denotes g (ExAlias n) c) (ce_colors g) (cs_colors scheme))
   \<and> (resolve_all g title = Inl err \<longleftrightarrow>
     (\<exists>ys d zs. graph_entries g = ys @ d # zs \<and> list_all (\<lambda>y. \<exists>c. entry_means g y c) ys \<and> entry_fails g d err))"
  using resolve_all_success [of g title scheme] resolve_all_failure [of g title err]
  by (simp only: first_failure_iff list_all_iff)

section \<open>Printing and parsing colors\<close>

definition nibble_byte :: "nat \<Rightarrow> u8" where
  "nibble_byte n = (if n < 10 then 0x30 + of_nat n else 0x61 + of_nat (n - 10))"

lemma nibble:
  assumes "n < 16"
  shows "encode_utf8 (hex_scalar n) = [nibble_byte n]" "nibble_byte n < 0x80"
    "is_ascii_hexdigit (nibble_byte n)" "color_digit (nibble_byte n) = of_nat n"
proof -
  have "n \<in> {0, 1, 2, 3, 4, 5, 6, 7, 8, 9, 10, 11, 12, 13, 14, 15}"
    using assms by (simp only: insert_iff empty_iff) arith
  then show "encode_utf8 (hex_scalar n) = [nibble_byte n]" "nibble_byte n < 0x80"
    "is_ascii_hexdigit (nibble_byte n)" "color_digit (nibble_byte n) = of_nat n"
    by (elim insertE emptyE; simp add: hex_scalar_def nibble_byte_def encode_utf8_def is_ascii_hexdigit_def color_digit_def)+
qed

definition byte_digits :: "u8 \<Rightarrow> u8 list" where
  "byte_digits b = [nibble_byte (unat b div 16), nibble_byte (unat b mod 16)]"

lemma unat_byte: "unat (b :: u8) div 16 < 16"
  using unsigned_less [of b, where ?'a = nat] by simp

lemma byte_digits:
  "bytes_of (hex_byte b) = byte_digits b" "list_all (\<lambda>b. b < 0x80 \<and> is_ascii_hexdigit b) (byte_digits b)"
  "color_digit (byte_digits b ! 0) * 16 + color_digit (byte_digits b ! 1) = b"
proof -
  note n = nibble [OF unat_byte [of b]] nibble [of "unat b mod 16"]
  show "bytes_of (hex_byte b) = byte_digits b" "list_all (\<lambda>b. b < 0x80 \<and> is_ascii_hexdigit b) (byte_digits b)"
    by (simp_all add: bytes_of_def hex_byte_def byte_digits_def n)
  have "color_digit (byte_digits b ! 0) * 16 + color_digit (byte_digits b ! 1)
      = of_nat (unat b div 16) * 16 + of_nat (unat b mod 16)"
    by (simp add: byte_digits_def n)
  also have "\<dots> = of_nat (unat b div 16 * 16 + unat b mod 16)" by (simp only: of_nat_add of_nat_mult of_nat_numeral)
  also have "\<dots> = b" by (simp del: of_nat_add of_nat_mult)
  finally show "color_digit (byte_digits b ! 0) * 16 + color_digit (byte_digits b ! 1) = b" .
qed

lemma position_None: "position f xs = None \<longleftrightarrow> list_all (\<lambda>x. \<not> f x) xs"
  by (induction xs) auto

lemma str_len_bytes: "str_len t = length (bytes_of t)"
  by (simp add: str_len_def bytes_of_def length_concat comp_def)

text \<open>
  A printed color reads back. On the wire the text of a color parses to that color, and
  \<open>inherit\<close> to the inheriting expression.
\<close>

theorem color_round_trip:
  "parse_wire (color_text c) = Inr (if c = ColorInherit then ExInherit else ExLiteral c)"
proof (cases c)
  case (ColorRgb r g b)
  let ?d = "byte_digits r @ byte_digits g @ byte_digits b"
  have bytes: "bytes_of (hex_byte r @ hex_byte g @ hex_byte b) = ?d"
    using byte_digits(1) by (simp add: bytes_of_def)
  have len: "length ?d = 6" by (simp add: byte_digits_def)
  have all: "list_all (\<lambda>b. b < 0x80) ?d" "list_all is_ascii_hexdigit ?d"
    using byte_digits(2) [of r] byte_digits(2) [of g] byte_digits(2) [of b]
    by (simp_all add: list_all_iff ball_Un)
  have "color_of_digits ?d = c"
    using byte_digits(3) [of r] byte_digits(3) [of g] byte_digits(3) [of b] ColorRgb
    by (simp add: color_of_digits_def byte_digits_def)
  moreover have "position (\<lambda>b. \<not> is_ascii_hexdigit b) ?d = None"
    using all(2) by (simp add: position_None)
  ultimately have "color_parse (color_text c) = Inr c"
    using ColorRgb bytes len all(1)
    by (simp add: color_parse_def strip_hash_def str_len_bytes)
  moreover have "color_text c \<noteq> lit ''inherit''" using ColorRgb by (simp add: lit_def)
  ultimately show ?thesis using ColorRgb by (simp add: parse_wire_def parse_style_def)
qed (simp add: parse_wire_def)

end
