(* ===== verification/Theme_Compile.thy ===== *)
theory Theme_Compile
  imports Theme_Colors
begin

text \<open>
  Validation of a theme against a color scheme (\<open>muxe-core/src/theme.rs\<close>): styles with resolved
  colors, the checks of templates (loader-backed constructs, syntax, references to styles), the
  required component templates, and the catalog of parsed assets.

  The template engine is third-party: \<open>syntax_ok\<close> is its parser, an argument. So is \<open>alnum\<close>, the
  Unicode table behind \<open>char::is_alphanumeric\<close>. The scanner of loader-backed constructs walks the
  bytes of the template; it compares them with ASCII only, so the model walks the characters.
\<close>

section \<open>Styles\<close>

record 'c text_style =
  ts_foreground :: "'c option"
  ts_background :: "'c option"
  ts_bold :: bool
  ts_dim :: bool
  ts_italic :: bool
  ts_underline :: bool
  ts_strikethrough :: bool

type_synonym style = "deferred_color text_style"
type_synonym resolved_style = "color text_style"

text \<open>\<open>option.map(..).transpose()\<close>\<close>

definition resolve_optional ::
  "color_source \<Rightarrow> deferred_color option \<Rightarrow> resolver \<Rightarrow> (theme_error + color option) \<times> resolver" where
  "resolve_optional source d s =
     (case d of
        None \<Rightarrow> (Inr None, s)
      | Some e \<Rightarrow>
          (case resolve_deferred source e s of
             (Inl error, s') \<Rightarrow> (Inl error, s')
           | (Inr c, s') \<Rightarrow> (Inr (Some c), s')))"

definition style_resolve ::
  "color_source \<Rightarrow> style \<Rightarrow> resolver \<Rightarrow> (theme_error + resolved_style) \<times> resolver" where
  "style_resolve source st s =
     (case resolve_optional source (ts_foreground st) s of
        (Inl error, s1) \<Rightarrow> (Inl error, s1)
      | (Inr fg, s1) \<Rightarrow>
          (case resolve_optional source (ts_background st) s1 of
             (Inl error, s2) \<Rightarrow> (Inl error, s2)
           | (Inr bg, s2) \<Rightarrow>
               (Inr \<lparr>ts_foreground = fg, ts_background = bg, ts_bold = ts_bold st, ts_dim = ts_dim st,
                     ts_italic = ts_italic st, ts_underline = ts_underline st,
                     ts_strikethrough = ts_strikethrough st\<rparr>, s2)))"

record 'c theme_section =
  sec_styles :: "(str, 'c text_style) table"
  sec_templates :: "(str, str) table"

record 'c theme_of =
  th_common :: "'c theme_section"
  th_menu :: "'c theme_section"
  th_settings :: "(str, str) table"

type_synonym theme = "deferred_color theme_of"
type_synonym resolved_theme = "color theme_of"

record compiled_theme =
  ct_theme :: resolved_theme
  ct_scheme :: color_scheme

definition REQUIRED_COMPONENT_TEMPLATES :: "str list" where
  "REQUIRED_COMPONENT_TEMPLATES =
     [lit ''cell'', lit ''breadcrumbs'', lit ''pagination.full'', lit ''pagination.short'', lit ''status'']"

section \<open>Style tags of a template\<close>

definition is_ascii_alphanumeric :: "scalar \<Rightarrow> bool" where
  "is_ascii_alphanumeric c \<longleftrightarrow>
     (0x30 \<le> c \<and> c \<le> 0x39) \<or> (0x41 \<le> c \<and> c \<le> 0x5A) \<or> (0x61 \<le> c \<and> c \<le> 0x7A)"

definition is_tag_char :: "scalar \<Rightarrow> bool" where
  "is_tag_char c \<longleftrightarrow> is_ascii_alphanumeric c \<or> c = 0x2E \<or> c = 0x5F \<or> c = 0x2D"

text \<open>The text before the first separator, if there is one (\<open>split_once\<close>).\<close>

fun before :: "scalar \<Rightarrow> str \<Rightarrow> str option" where
  "before sep [] = None"
| "before sep (c # cs) = (if c = sep then Some [] else map_option ((#) c) (before sep cs))"

definition style_tag :: "str \<Rightarrow> str option" where
  "style_tag remainder =
     (case before 0x5D remainder of
        None \<Rightarrow> None
      | Some t \<Rightarrow>
          (let tag = (case t of c # t' \<Rightarrow> if c = 0x2F then t' else t | [] \<Rightarrow> t) in
           if tag \<noteq> [] \<and> list_all is_tag_char tag then Some tag else None))"

definition literal_style_tags :: "str \<Rightarrow> str list" where
  "literal_style_tags template = List.map_filter style_tag (drop 1 (split_by (\<lambda>c. c = 0x5B) template))"

section \<open>Loader-backed constructs\<close>

fun skip_verbatim_tag :: "scalar \<Rightarrow> scalar \<Rightarrow> str \<Rightarrow> str option" where
  "skip_verbatim_tag p q (x # y # t) = (if x = p \<and> y = q then Some t else skip_verbatim_tag p q (y # t))"
| "skip_verbatim_tag p q _ = None"

fun scan_close :: "scalar option \<Rightarrow> str \<Rightarrow> str option" where
  "scan_close (Some quote) (x # y # t) =
     (if x = 0x5C then scan_close (Some quote) t
      else if x = quote then scan_close None (y # t)
      else scan_close (Some quote) (y # t))"
| "scan_close None (x # y # t) =
     (if x = 0x22 \<or> x = 0x27 then scan_close (Some x) (y # t)
      else if x = 0x25 \<and> y = 0x7D then Some t
      else scan_close None (y # t))"
| "scan_close _ _ = None"

definition is_ascii_space :: "scalar \<Rightarrow> bool" where
  "is_ascii_space c \<longleftrightarrow> c = 0x20 \<or> c = 0x09 \<or> c = 0x0A \<or> c = 0x0C \<or> c = 0x0D"

definition LOADER_WORDS :: "str list" where
  "LOADER_WORDS = [lit ''extends'', lit ''include'', lit ''import'', lit ''from'']"

definition statement_head :: "str \<Rightarrow> str" where
  "statement_head t =
     (case dropWhile is_ascii_space t of
        [] \<Rightarrow> []
      | c # rest \<Rightarrow> if c = 0x2D \<or> c = 0x2B then dropWhile is_ascii_space rest else c # rest)"

definition scan_statement :: "(scalar \<Rightarrow> bool) \<Rightarrow> str \<Rightarrow> (bool \<times> str) option" where
  "scan_statement alnum t =
     (let head = statement_head t;
          word = find (\<lambda>w. take (length w) head = w) LOADER_WORDS;
          rest = (case word of None \<Rightarrow> head | Some w \<Rightarrow> drop (length w) head);
          is_loader = (word \<noteq> None \<and> (case rest of [] \<Rightarrow> True | c # _ \<Rightarrow> \<not> (c = 0x5F \<or> alnum c)))
      in case scan_close None rest of None \<Rightarrow> None | Some after \<Rightarrow> Some (is_loader, after))"

lemma skip_verbatim_shorter: "skip_verbatim_tag p q t = Some r \<Longrightarrow> length r < length t"
  by (induction p q t rule: skip_verbatim_tag.induct) (auto split: if_splits)

lemma scan_close_shorter: "scan_close m t = Some r \<Longrightarrow> length r < length t"
  by (induction m t rule: scan_close.induct) (auto split: if_splits)

lemma dropWhile_shorter: "length (dropWhile P t) \<le> length t"
  by (induction t) auto

lemma statement_head_shorter: "length (statement_head t) \<le> length t"
proof (cases "dropWhile is_ascii_space t")
  case (Cons c rest)
  then have "length rest < length t" using dropWhile_shorter [of is_ascii_space t] by simp
  then show ?thesis
    using Cons dropWhile_shorter [of is_ascii_space rest] by (simp add: statement_head_def)
next
  case Nil
  then show ?thesis unfolding statement_head_def Nil by simp
qed

lemma scan_statement_shorter: "scan_statement alnum t = Some (l, r) \<Longrightarrow> length r < length t"
  using statement_head_shorter [of t]
  by (fastforce simp: scan_statement_def Let_def dest: scan_close_shorter split: option.splits)

function has_loader_backed_construct :: "(scalar \<Rightarrow> bool) \<Rightarrow> str \<Rightarrow> bool" where
  "has_loader_backed_construct alnum (x # y # t) =
     (if x \<noteq> 0x7B then has_loader_backed_construct alnum (y # t)
      else if y = 0x23 then
        (case skip_verbatim_tag 0x23 0x7D t of None \<Rightarrow> False | Some r \<Rightarrow> has_loader_backed_construct alnum r)
      else if y = 0x7B then
        (case skip_verbatim_tag 0x7D 0x7D t of None \<Rightarrow> False | Some r \<Rightarrow> has_loader_backed_construct alnum r)
      else if y = 0x25 then
        (case scan_statement alnum t of
           None \<Rightarrow> False
         | Some (is_loader, r) \<Rightarrow> if is_loader then True else has_loader_backed_construct alnum r)
      else has_loader_backed_construct alnum (y # t))"
| "has_loader_backed_construct alnum [] = False"
| "has_loader_backed_construct alnum [x] = False"
  by pat_completeness auto
termination
  by (relation "measure (\<lambda>(_, t). length t)")
    (auto dest: skip_verbatim_shorter scan_statement_shorter)

section \<open>Compiling a pair\<close>

definition compile_style ::
  "color_source \<Rightarrow> str \<times> style \<Rightarrow> resolver \<Rightarrow> (theme_error + str \<times> resolved_style) \<times> resolver" where
  "compile_style source entry s =
     (case style_resolve source (snd entry) s of
        (Inl error, s') \<Rightarrow>
          (Inl (lit ''theme style `'' @ fst entry @ lit ''` has an invalid color: '' @ error), s')
      | (Inr st, s') \<Rightarrow> (Inr (fst entry, st), s'))"

definition check_template ::
  "(str \<Rightarrow> theme_error + unit) \<Rightarrow> (scalar \<Rightarrow> bool) \<Rightarrow> (str, resolved_style) table
   \<Rightarrow> color theme_section option \<Rightarrow> str \<times> str \<Rightarrow> theme_error + unit" where
  "check_template syntax_ok alnum styles fallback entry =
     (case entry of (name, template) \<Rightarrow>
        if has_loader_backed_construct alnum template
        then Inl (lit ''theme template `'' @ name @ lit ''` cannot load other templates; `include`, `import`, `from`, and `extends` are not supported'')
        else
          (case syntax_ok template of
             Inl error \<Rightarrow> Inl (lit ''cannot parse theme template `'' @ name @ lit ''`: '' @ error)
           | Inr _ \<Rightarrow>
               each_ok (\<lambda>tag.
                 if tab_has styles tag
                    \<or> (case fallback of None \<Rightarrow> False | Some common \<Rightarrow> tab_has (sec_styles common) tag)
                 then Inr ()
                 else Inl (lit ''theme template `'' @ name @ lit ''` references undefined style `'' @ tag @ lit ''`''))
               (literal_style_tags template)))"

definition compile_theme_section ::
  "(str \<Rightarrow> theme_error + unit) \<Rightarrow> (scalar \<Rightarrow> bool) \<Rightarrow> color_source \<Rightarrow> deferred_color theme_section
   \<Rightarrow> color theme_section option \<Rightarrow> resolver \<Rightarrow> (theme_error + color theme_section) \<times> resolver" where
  "compile_theme_section syntax_ok alnum source section0 fallback s =
     (case collect_states (compile_style source) (sec_styles section0) s of
        (Inl error, s') \<Rightarrow> (Inl error, s')
      | (Inr styles, s') \<Rightarrow>
          (rbind (each_ok (check_template syntax_ok alnum styles fallback) (sec_templates section0))
             (\<lambda>_. Inr \<lparr>sec_styles = styles, sec_templates = sec_templates section0\<rparr>), s'))"

definition compile_theme ::
  "(str \<Rightarrow> theme_error + unit) \<Rightarrow> (scalar \<Rightarrow> bool) \<Rightarrow> theme \<Rightarrow> color_scheme \<Rightarrow> theme_error + compiled_theme" where
  "compile_theme syntax_ok alnum theme scheme =
     (case compile_theme_section syntax_ok alnum (SourceScheme scheme) (th_common theme) None new_resolver of
        (Inl error, _) \<Rightarrow> Inl error
      | (Inr common, s) \<Rightarrow>
          (case compile_theme_section syntax_ok alnum (SourceScheme scheme) (th_menu theme) (Some common) s of
             (Inl error, _) \<Rightarrow> Inl error
           | (Inr menu, _) \<Rightarrow>
               rbind (each_ok (\<lambda>name.
                   if \<not> tab_has (sec_templates menu) name \<and> \<not> tab_has (sec_templates common) name
                   then Inl (lit ''selected theme has no `'' @ name @ lit ''` template'') else Inr ())
                 REQUIRED_COMPONENT_TEMPLATES)
               (\<lambda>_. Inr \<lparr>ct_theme = \<lparr>th_common = common, th_menu = menu, th_settings = th_settings theme\<rparr>,
                         ct_scheme = scheme\<rparr>)))"

definition style_of :: "compiled_theme \<Rightarrow> str \<Rightarrow> resolved_style option" where
  "style_of ct = either_table (sec_styles (th_menu (ct_theme ct))) (sec_styles (th_common (ct_theme ct)))"

section \<open>The catalog\<close>

text \<open>The type variables are the diagnostics of a parse and the source span of an asset.\<close>

record ('t, 'd, 's) theme_asset =
  as_parsed :: "'d + 't"
  as_span :: 's

record ('d, 's) theme_catalog =
  cat_themes :: "(str, (theme, 'd, 's) theme_asset) table"
  cat_schemes :: "(str, (color_scheme, 'd, 's) theme_asset) table"

datatype ('d, 's) theme_selection_error =
    UnknownTheme str
  | UnknownColorScheme str
  | InvalidTheme str 'd
  | InvalidColorScheme str 'd
  | InvalidPair str str theme_error 's
  | StaleResolution

fun extend_table :: "('k::linorder, 'v) table \<Rightarrow> ('k, 'v) table \<Rightarrow> ('k, 'v) table" where
  "extend_table t [] = t"
| "extend_table t ((k, v) # es) = extend_table (tab_insert k v t) es"

definition with_overrides :: "('d, 's) theme_catalog \<Rightarrow> ('d, 's) theme_catalog \<Rightarrow> ('d, 's) theme_catalog" where
  "with_overrides base over =
     base\<lparr>cat_themes := extend_table (cat_themes base) (cat_themes over),
          cat_schemes := extend_table (cat_schemes base) (cat_schemes over)\<rparr>"

fun map_error :: "('e \<Rightarrow> 'f) \<Rightarrow> 'e + 'a \<Rightarrow> 'f + 'a" where
  "map_error h (Inl e) = Inl (h e)"
| "map_error h (Inr a) = Inr a"

definition catalog_resolve ::
  "(str \<Rightarrow> theme_error + unit) \<Rightarrow> (scalar \<Rightarrow> bool) \<Rightarrow> ('d, 's) theme_catalog \<Rightarrow> str \<Rightarrow> str
   \<Rightarrow> ('d, 's) theme_selection_error + compiled_theme" where
  "catalog_resolve syntax_ok alnum cat theme_name scheme_name =
     rbind (ok_or (tab_get (cat_themes cat) theme_name) (UnknownTheme theme_name)) (\<lambda>theme_asset.
     rbind (map_error (InvalidTheme theme_name) (as_parsed theme_asset)) (\<lambda>theme.
     rbind (ok_or (tab_get (cat_schemes cat) scheme_name) (UnknownColorScheme scheme_name)) (\<lambda>scheme_asset.
     rbind (map_error (InvalidColorScheme scheme_name) (as_parsed scheme_asset)) (\<lambda>scheme.
       map_error (\<lambda>error. InvalidPair theme_name scheme_name error (as_span theme_asset))
         (compile_theme syntax_ok alnum theme scheme)))))"

section \<open>What an accepted pair is\<close>

fun scheme_color :: "color_scheme \<Rightarrow> color_expr \<Rightarrow> color option" where
  "scheme_color scheme (ExLiteral c) = Some c"
| "scheme_color scheme ExInherit = Some ColorInherit"
| "scheme_color scheme (ExAlias n) = either_table (cs_colors scheme) (cs_palette scheme) n"

definition color_ok :: "color_scheme \<Rightarrow> deferred_color option \<Rightarrow> bool" where
  "color_ok scheme d \<longleftrightarrow> (case d of Some (Inl _) \<Rightarrow> False | Some (Inr e) \<Rightarrow> scheme_color scheme e \<noteq> None | None \<Rightarrow> True)"

definition color_in :: "color_scheme \<Rightarrow> deferred_color option \<Rightarrow> color option" where
  "color_in scheme d = (case d of Some (Inr e) \<Rightarrow> scheme_color scheme e | _ \<Rightarrow> None)"

definition styled :: "color_scheme \<Rightarrow> style \<Rightarrow> resolved_style" where
  "styled scheme st =
     \<lparr>ts_foreground = color_in scheme (ts_foreground st), ts_background = color_in scheme (ts_background st),
      ts_bold = ts_bold st, ts_dim = ts_dim st, ts_italic = ts_italic st, ts_underline = ts_underline st,
      ts_strikethrough = ts_strikethrough st\<rparr>"

definition style_ok :: "color_scheme \<Rightarrow> style \<Rightarrow> bool" where
  "style_ok scheme st \<longleftrightarrow> color_ok scheme (ts_foreground st) \<and> color_ok scheme (ts_background st)"

definition names_of :: "(str, 'v) table \<Rightarrow> str set" where
  "names_of t = fst ` set t"

text \<open>A section is acceptable next to the style names of the section it falls back to.\<close>

definition section_ok ::
  "(str \<Rightarrow> theme_error + unit) \<Rightarrow> (scalar \<Rightarrow> bool) \<Rightarrow> color_scheme \<Rightarrow> str set \<Rightarrow> deferred_color theme_section \<Rightarrow> bool" where
  "section_ok syntax_ok alnum scheme inherited sec \<longleftrightarrow>
     list_all (\<lambda>e. style_ok scheme (snd e)) (sec_styles sec)
     \<and> list_all (\<lambda>e. \<not> has_loader_backed_construct alnum (snd e) \<and> syntax_ok (snd e) = Inr ()
          \<and> set (literal_style_tags (snd e)) \<subseteq> names_of (sec_styles sec) \<union> inherited) (sec_templates sec)"

definition styled_section :: "color_scheme \<Rightarrow> deferred_color theme_section \<Rightarrow> color theme_section" where
  "styled_section scheme sec =
     \<lparr>sec_styles = map (\<lambda>(n, st). (n, styled scheme st)) (sec_styles sec), sec_templates = sec_templates sec\<rparr>"

lemma tab_has_names: "tab_has t k \<longleftrightarrow> k \<in> names_of t"
  by (simp add: tab_has_def tab_get_def names_of_def map_of_eq_None_iff)

lemma resolve_optional_scheme:
  "resolve_optional (SourceScheme scheme) d s = (r, s') \<longleftrightarrow>
     s' = s \<and> (case r of Inr c \<Rightarrow> color_ok scheme d \<and> c = color_in scheme d | Inl _ \<Rightarrow> \<not> color_ok scheme d \<and> r = fst (resolve_optional (SourceScheme scheme) d s))"
  by (auto simp: resolve_optional_def resolve_deferred_def resolve_def resolve_name_def scheme_resolve_def
      color_ok_def color_in_def result_simps split: option.splits sum.splits color_expr.splits)

lemma style_resolve_scheme:
  "snd (style_resolve (SourceScheme scheme) st s) = s"
  "fst (style_resolve (SourceScheme scheme) st s) = Inr r \<longleftrightarrow> style_ok scheme st \<and> r = styled scheme st"
proof -
  obtain a sa where a: "resolve_optional (SourceScheme scheme) (ts_foreground st) s = (a, sa)"
    by (cases "resolve_optional (SourceScheme scheme) (ts_foreground st) s")
  obtain b sb where b: "resolve_optional (SourceScheme scheme) (ts_background st) s = (b, sb)"
    by (cases "resolve_optional (SourceScheme scheme) (ts_background st) s")
  have "sa = s" "sb = s" using a b resolve_optional_scheme by blast+
  then show "snd (style_resolve (SourceScheme scheme) st s) = s"
    "fst (style_resolve (SourceScheme scheme) st s) = Inr r \<longleftrightarrow> style_ok scheme st \<and> r = styled scheme st"
    using a [unfolded resolve_optional_scheme] b [unfolded resolve_optional_scheme] a b
    by (cases a; cases b; auto simp: style_resolve_def style_ok_def styled_def)+
qed

lemma collect_pure:
  assumes "\<And>x s. snd (f x s) = s" and "\<And>x s y. fst (f x s) = Inr y \<longleftrightarrow> P x \<and> y = h x"
  shows "snd (collect_states f xs s) = s"
    "fst (collect_states f xs s) = Inr ys \<longleftrightarrow> list_all P xs \<and> ys = map h xs"
proof -
  have "snd (collect_states f xs s) = s \<and> (\<forall>ys. fst (collect_states f xs s) = Inr ys \<longleftrightarrow> list_all P xs \<and> ys = map h xs)"
  proof (induction xs)
    case (Cons x xs)
    obtain r where r: "f x s = (r, s)" using assms(1) [of x s] by (cases "f x s") auto
    obtain q where q: "collect_states f xs s = (q, s)" using Cons by (cases "collect_states f xs s") auto
    have r': "r = Inr y \<longleftrightarrow> P x \<and> y = h x" for y using assms(2) [of x s y] r by simp
    have q': "q = Inr ys \<longleftrightarrow> list_all P xs \<and> ys = map h xs" for ys using Cons q by simp
    show ?case
    proof (cases r)
      case (Inl e)
      then show ?thesis using r' [of "h x"] r by simp
    next
      case (Inr y)
      then have x: "P x" "y = h x" using r' [of y] by simp_all
      show ?thesis
      proof (cases q)
        case (Inl e)
        then show ?thesis using q' [of "map h xs"] r q x Inr by simp
      next
        case q2: (Inr zs)
        then show ?thesis using q' [of zs] r q x Inr by auto
      qed
    qed
  qed auto
  then show "snd (collect_states f xs s) = s"
    "fst (collect_states f xs s) = Inr ys \<longleftrightarrow> list_all P xs \<and> ys = map h xs" by auto
qed

lemma compile_styles_scheme:
  "snd (collect_states (compile_style (SourceScheme scheme)) xs s) = s"
  "fst (collect_states (compile_style (SourceScheme scheme)) xs s) = Inr ys \<longleftrightarrow>
     list_all (\<lambda>e. style_ok scheme (snd e)) xs \<and> ys = map (\<lambda>(n, st). (n, styled scheme st)) xs"
proof -
  have f: "snd (compile_style (SourceScheme scheme) x s) = s
    \<and> (fst (compile_style (SourceScheme scheme) x s) = Inr y \<longleftrightarrow>
       style_ok scheme (snd x) \<and> y = (case x of (n, st) \<Rightarrow> (n, styled scheme st)))" for x s y
  proof -
    obtain r where r: "style_resolve (SourceScheme scheme) (snd x) s = (r, s)"
      using style_resolve_scheme(1) by (metis prod.collapse)
    note t = style_resolve_scheme(2) [of scheme "snd x" s, unfolded r fst_conv]
    show ?thesis
    proof (cases r)
      case (Inl e)
      then have "\<not> style_ok scheme (snd x)" using t [of "styled scheme (snd x)"] by simp
      then show ?thesis using r Inl by (simp add: compile_style_def)
    next
      case (Inr st)
      then show ?thesis using r t [of st] by (auto simp: compile_style_def split_def)
    qed
  qed
  note f = f [THEN conjunct1] f [THEN conjunct2]
  show "snd (collect_states (compile_style (SourceScheme scheme)) xs s) = s" by (rule collect_pure(1) [OF f])
  show "fst (collect_states (compile_style (SourceScheme scheme)) xs s) = Inr ys \<longleftrightarrow>
     list_all (\<lambda>e. style_ok scheme (snd e)) xs \<and> ys = map (\<lambda>(n, st). (n, styled scheme st)) xs"
    by (rule collect_pure(2) [OF f])
qed

lemma check_template_ok:
  "check_template syntax_ok alnum styles fallback e = Inr () \<longleftrightarrow>
     \<not> has_loader_backed_construct alnum (snd e) \<and> syntax_ok (snd e) = Inr ()
     \<and> set (literal_style_tags (snd e)) \<subseteq> names_of styles
         \<union> (case fallback of None \<Rightarrow> {} | Some common \<Rightarrow> names_of (sec_styles common))"
  by (cases fallback)
    (auto simp: check_template_def tab_has_names result_simps subset_iff split_def split: sum.split)

lemma section_scheme:
  "snd (compile_theme_section syntax_ok alnum (SourceScheme scheme) sec fallback s) = s"
  "fst (compile_theme_section syntax_ok alnum (SourceScheme scheme) sec fallback s) = Inr r \<longleftrightarrow>
     section_ok syntax_ok alnum scheme
       (case fallback of None \<Rightarrow> {} | Some common \<Rightarrow> names_of (sec_styles common)) sec
     \<and> r = styled_section scheme sec"
proof -
  let ?c = "collect_states (compile_style (SourceScheme scheme)) (sec_styles sec) s"
  obtain q where q: "?c = (q, s)" using compile_styles_scheme(1) by (metis prod.collapse)
  note t = compile_styles_scheme(2) [of scheme "sec_styles sec" s, unfolded q fst_conv]
  have names: "names_of (map (\<lambda>(n, st). (n, styled scheme st)) xs) = names_of xs" for xs
    by (force simp: names_of_def)
  have "snd (compile_theme_section syntax_ok alnum (SourceScheme scheme) sec fallback s) = s \<and>
    (fst (compile_theme_section syntax_ok alnum (SourceScheme scheme) sec fallback s) = Inr r \<longleftrightarrow>
     section_ok syntax_ok alnum scheme
       (case fallback of None \<Rightarrow> {} | Some common \<Rightarrow> names_of (sec_styles common)) sec
     \<and> r = styled_section scheme sec)"
  proof (cases q)
    case (Inl e)
    then have "\<not> list_all (\<lambda>e. style_ok scheme (snd e)) (sec_styles sec)"
      using t [of "map (\<lambda>(n, st). (n, styled scheme st)) (sec_styles sec)"] by simp
    then show ?thesis using q Inl by (simp add: compile_theme_section_def section_ok_def)
  next
    case (Inr styles)
    then have "list_all (\<lambda>e. style_ok scheme (snd e)) (sec_styles sec)"
      "styles = map (\<lambda>(n, st). (n, styled scheme st)) (sec_styles sec)" using t [of styles] by simp_all
    then show ?thesis using q Inr
      by (auto simp: compile_theme_section_def section_ok_def styled_section_def result_simps
          check_template_ok names list_all_iff)
  qed
  then show "snd (compile_theme_section syntax_ok alnum (SourceScheme scheme) sec fallback s) = s"
    "fst (compile_theme_section syntax_ok alnum (SourceScheme scheme) sec fallback s) = Inr r \<longleftrightarrow>
     section_ok syntax_ok alnum scheme
       (case fallback of None \<Rightarrow> {} | Some common \<Rightarrow> names_of (sec_styles common)) sec
     \<and> r = styled_section scheme sec" by blast+
qed

text \<open>
  C18: what an accepted theme is. A theme and a scheme compile just when every color of every style
  is a literal or a name of the scheme, every template is accepted by the engine and by the loader
  check and tags only styles of its own section or (in the menu section) of the common one, and each
  required template is in one of the two sections; the result keeps the templates and settings and
  has every style with the colors of the scheme.
\<close>

theorem compile_theme_iff:
  "compile_theme syntax_ok alnum theme scheme = Inr ct \<longleftrightarrow>
     section_ok syntax_ok alnum scheme {} (th_common theme)
     \<and> section_ok syntax_ok alnum scheme (names_of (sec_styles (th_common theme))) (th_menu theme)
     \<and> set REQUIRED_COMPONENT_TEMPLATES
         \<subseteq> names_of (sec_templates (th_menu theme)) \<union> names_of (sec_templates (th_common theme))
     \<and> ct = \<lparr>ct_theme = \<lparr>th_common = styled_section scheme (th_common theme),
                th_menu = styled_section scheme (th_menu theme), th_settings = th_settings theme\<rparr>,
             ct_scheme = scheme\<rparr>"
proof -
  let ?src = "SourceScheme scheme"
  obtain q where q: "compile_theme_section syntax_ok alnum ?src (th_common theme) None new_resolver = (q, new_resolver)"
    using section_scheme(1) by (metis prod.collapse)
  note t = section_scheme(2) [of syntax_ok alnum scheme "th_common theme" None new_resolver, unfolded q fst_conv]
  have names: "names_of (sec_styles (styled_section scheme sec)) = names_of (sec_styles sec)" for sec
    by (force simp: names_of_def styled_section_def)
  show ?thesis
  proof (cases q)
    case (Inl e)
    then have "\<not> section_ok syntax_ok alnum scheme {} (th_common theme)"
      using t [of "styled_section scheme (th_common theme)"] by simp
    then show ?thesis using q Inl by (simp add: compile_theme_def)
  next
    case (Inr common)
    then have c: "section_ok syntax_ok alnum scheme {} (th_common theme)"
      "common = styled_section scheme (th_common theme)" using t [of common] by simp_all
    obtain p where p: "compile_theme_section syntax_ok alnum ?src (th_menu theme) (Some common) new_resolver = (p, new_resolver)"
      using section_scheme(1) by (metis prod.collapse)
    note u = section_scheme(2) [of syntax_ok alnum scheme "th_menu theme" "Some common" new_resolver, unfolded p fst_conv]
    show ?thesis
    proof (cases p)
      case (Inl e)
      then show ?thesis using q Inr p c u [of "styled_section scheme (th_menu theme)"]
        by (simp add: compile_theme_def names)
    next
      case p2: (Inr menu)
      then have m: "section_ok syntax_ok alnum scheme (names_of (sec_styles (th_common theme))) (th_menu theme)"
        "menu = styled_section scheme (th_menu theme)" using u [of menu] c(2) by (simp_all add: names)
      show ?thesis using q Inr p p2 c m
        by (auto simp: compile_theme_def result_simps tab_has_names styled_section_def)
    qed
  qed
qed

section \<open>Reach of the loader check\<close>

text \<open>
  Expressions are skipped up to the first pair of closing braces, also inside a string literal of
  the expression. So a string that holds closing braces and the opening of a comment hides every
  statement that follows it in the template, which the engine reads as statements.
\<close>

definition hidden_include :: str where
  "hidden_include = lit ''{{ '' @ [0x22] @ lit ''}}{#'' @ [0x22] @ lit '' }}{% include x %}''"

lemma loader_check_misses:
  "has_loader_backed_construct alnum (lit ''{% include x %}'') = (\<not> alnum 0x20)"
  "\<not> has_loader_backed_construct alnum hidden_include"
  by (simp_all add: hidden_include_def lit_def scan_statement_def statement_head_def is_ascii_space_def
      LOADER_WORDS_def)

end
