(* ===== verification/Grid_Layout.thy ===== *)
theory Grid_Layout
  imports Muxe_Prelude
begin

text \<open>
  The arrangement of menu cells in a column-major grid of pages, \<open>muxe-ui/src/layout.rs\<close>.

  The display width of a text is third-party (\<open>unicode_width\<close>), the argument \<open>width_of\<close>. Terminal
  sizes are 16-bit and kept as words; \<open>usize\<close> quantities count cells and columns of texts in memory
  and are natural numbers. A slice out of range, a missing maximum and \<open>unreachable!\<close> are the
  values of \<open>layout_panic\<close>.
\<close>

section \<open>Types\<close>

record grid_rect =
  gr_width :: u16
  gr_rows :: u16

record grid_column =
  gc_offset :: u16
  gc_width :: u16

record grid_slot =
  gs_source_index :: nat
  gs_page :: nat
  gs_column :: u16
  gs_row :: u16

type_synonym grid_page = "grid_column list"

record grid_plan =
  gp_columns :: u16
  gp_row_gap :: u16
  gp_rows_per_page :: u16
  gp_page_count :: nat
  gp_has_pager :: bool
  gp_pages :: "grid_page list"
  gp_slots :: "grid_slot list"

datatype layout_panic = SliceRange | EmptyColumn | NoFallback

section \<open>Sixteen-bit arithmetic\<close>

definition u16_max :: u16 where
  "u16_max = - 1"

definition sat_add :: "u16 \<Rightarrow> u16 \<Rightarrow> u16" where
  "sat_add a b = (if unat a + unat b < 2 ^ 16 then a + b else u16_max)"

definition sat_sub :: "u16 \<Rightarrow> u16 \<Rightarrow> u16" where
  "sat_sub a b = (if b \<le> a then a - b else 0)"

definition sat_mul :: "u16 \<Rightarrow> u16 \<Rightarrow> u16" where
  "sat_mul a b = (if unat a * unat b < 2 ^ 16 then a * b else u16_max)"

text \<open>\<open>u16::try_from(n).unwrap_or(u16::MAX)\<close>\<close>

definition u16_from :: "nat \<Rightarrow> u16" where
  "u16_from n = (if n < 2 ^ 16 then of_nat n else u16_max)"

definition div_ceil :: "nat \<Rightarrow> nat \<Rightarrow> nat" where
  "div_ceil a b = a div b + (if a mod b = 0 then 0 else 1)"

section \<open>Offsets of rows\<close>

definition cell_row_offset :: "grid_plan \<Rightarrow> u16 \<Rightarrow> u16" where
  "cell_row_offset p row = sat_mul row (sat_add (gp_row_gap p) 1)"

definition pager_row_offset :: "grid_plan \<Rightarrow> u16" where
  "pager_row_offset p =
     (if gp_rows_per_page p = 0 then 0
      else sat_add (sat_mul (sat_sub (gp_rows_per_page p) 1) (sat_add (gp_row_gap p) 1)) 1)"

definition grid_page_at :: "grid_plan \<Rightarrow> nat \<Rightarrow> grid_page option" where
  "grid_page_at p i = (if i < length (gp_pages p) then Some (gp_pages p ! i) else None)"

section \<open>Single-line labels\<close>

text \<open>\<open>max_width\<close> columns of a label, with an ellipsis when something was cut.\<close>

definition sanitize_single_line :: "str \<Rightarrow> str" where
  "sanitize_single_line v = filter (\<lambda>c. \<not> is_control c) (takeWhile (\<lambda>c. \<not> (c = 0x0A \<or> c = 0x0D)) v)"

fun take_columns :: "(scalar \<Rightarrow> nat option) \<Rightarrow> nat \<Rightarrow> nat \<Rightarrow> str \<Rightarrow> str" where
  "take_columns char_width limit width [] = []"
| "take_columns char_width limit width (c # cs) =
     (let w = (case char_width c of Some n \<Rightarrow> n | None \<Rightarrow> 0) in
      if width + w > limit then [] else c # take_columns char_width limit (width + w) cs)"

definition ELLIPSIS :: scalar where
  "ELLIPSIS = 0x2026"

definition ellipsize :: "(str \<Rightarrow> nat) \<Rightarrow> (scalar \<Rightarrow> nat option) \<Rightarrow> str \<Rightarrow> nat \<Rightarrow> str" where
  "ellipsize width_of char_width value max_width =
     (let v = sanitize_single_line value in
      if width_of v \<le> max_width then v
      else if max_width = 0 then []
      else if max_width = 1 then [ELLIPSIS]
      else take_columns char_width (max_width - 1) 0 v @ [ELLIPSIS])"

section \<open>Planning\<close>

definition cell_rows_for_height :: "u16 \<Rightarrow> u16 \<Rightarrow> u16" where
  "cell_rows_for_height height between_rows =
     (if height = 0 then 0 else 1 + (height - 1) div sat_add between_rows 1)"

definition empty_plan :: "u16 \<Rightarrow> u16 \<Rightarrow> grid_plan" where
  "empty_plan rows row_gap =
     \<lparr>gp_columns = 0, gp_row_gap = row_gap, gp_rows_per_page = rows, gp_page_count = 1,
      gp_has_pager = False, gp_pages = [[]], gp_slots = []\<rparr>"

definition no_grid_plan :: "u16 \<Rightarrow> grid_plan" where
  "no_grid_plan row_gap = empty_plan 0 row_gap"

definition slice :: "'a list \<Rightarrow> nat \<Rightarrow> nat \<Rightarrow> layout_panic + 'a list" where
  "slice xs a b = (if a \<le> b \<and> b \<le> length xs then Inr (take (b - a) (drop a xs)) else Inl SliceRange)"

definition max_expect :: "nat list \<Rightarrow> layout_panic + nat" where
  "max_expect ws = (if ws = [] then Inl EmptyColumn else Inr (Max (set ws)))"

fun all_results :: "('a \<Rightarrow> 'e + 'b) \<Rightarrow> 'a list \<Rightarrow> 'e + 'b list" where
  "all_results f [] = Inr []"
| "all_results f (x # xs) = rbind (f x) (\<lambda>y. rbind (all_results f xs) (\<lambda>ys. Inr (y # ys)))"

text \<open>The display width of one column: \<open>start\<close> and \<open>stop\<close> bound the page.\<close>

definition column_width :: "nat list \<Rightarrow> nat \<Rightarrow> nat \<Rightarrow> nat \<Rightarrow> nat \<Rightarrow> layout_panic + nat" where
  "column_width cells start stop rows column =
     (let column_start = start + column * rows in
      rbind (slice cells column_start (min (column_start + rows) stop)) max_expect)"

fun page_columns :: "u16 \<Rightarrow> u16 \<Rightarrow> nat list \<Rightarrow> grid_column list" where
  "page_columns column_gap offset [] = []"
| "page_columns column_gap offset (w # ws) =
     (let width = u16_from (min w (unat u16_max)) in
      \<lparr>gc_offset = offset, gc_width = width\<rparr>
      # page_columns column_gap (sat_add (sat_add offset width) column_gap) ws)"

definition page_slot :: "nat \<Rightarrow> nat \<Rightarrow> u16 \<Rightarrow> nat \<Rightarrow> grid_slot" where
  "page_slot page start rows source_index =
     (let within = source_index - start in
      \<lparr>gs_source_index = source_index, gs_page = page,
       gs_column = u16_from (within div unat rows), gs_row = u16_from (within mod unat rows)\<rparr>)"

text \<open>One page; \<open>None\<close> when its columns do not fit.\<close>

definition plan_page ::
  "nat list \<Rightarrow> u16 \<Rightarrow> u16 \<Rightarrow> u16 \<Rightarrow> u16 \<Rightarrow> nat \<Rightarrow> layout_panic + (grid_page \<times> grid_slot list) option" where
  "plan_page cells available rows column_gap columns page =
     (let capacity = unat columns * unat rows;
          start = page * capacity;
          stop = min (start + capacity) (length cells);
          used = div_ceil (stop - start) (unat rows)
      in rbind (all_results (column_width cells start stop (unat rows)) [0..<used]) (\<lambda>widths.
           if sum_list widths + unat column_gap * (length widths - 1) > unat available \<and> columns > 1
           then Inr None
           else Inr (Some (page_columns column_gap 0 widths,
                           map (page_slot page start rows) [start..<stop]))))"

fun plan_pages ::
  "(nat \<Rightarrow> layout_panic + (grid_page \<times> grid_slot list) option) \<Rightarrow> nat list
   \<Rightarrow> layout_panic + (grid_page list \<times> grid_slot list) option" where
  "plan_pages f [] = Inr (Some ([], []))"
| "plan_pages f (p # ps) =
     rbind (f p) (\<lambda>r. case r of
         None \<Rightarrow> Inr None
       | Some (page, slots) \<Rightarrow>
           rbind (plan_pages f ps) (\<lambda>rest. case rest of
               None \<Rightarrow> Inr None
             | Some (pages, further) \<Rightarrow> Inr (Some (page # pages, slots @ further))))"

definition plan_for_columns ::
  "nat list \<Rightarrow> u16 \<Rightarrow> u16 \<Rightarrow> u16 \<Rightarrow> u16 \<Rightarrow> u16 \<Rightarrow> layout_panic + grid_plan option" where
  "plan_for_columns cells available rows row_gap column_gap columns =
     (let page_count = div_ceil (length cells) (unat columns * unat rows) in
      rbind (plan_pages (plan_page cells available rows column_gap columns) [0..<page_count]) (\<lambda>r.
        case r of
          None \<Rightarrow> Inr None
        | Some (pages, slots) \<Rightarrow>
            Inr (Some \<lparr>gp_columns = columns, gp_row_gap = row_gap, gp_rows_per_page = rows,
              gp_page_count = page_count, gp_has_pager = False, gp_pages = pages, gp_slots = slots\<rparr>)))"

fun first_plan :: "('c \<Rightarrow> layout_panic + grid_plan option) \<Rightarrow> 'c list \<Rightarrow> layout_panic + grid_plan" where
  "first_plan f [] = Inl NoFallback"
| "first_plan f (c # cs) =
     rbind (f c) (\<lambda>r. case r of Some plan \<Rightarrow> Inr plan | None \<Rightarrow> first_plan f cs)"

definition select_plan :: "nat list \<Rightarrow> u16 \<Rightarrow> u16 \<Rightarrow> u16 \<Rightarrow> u16 \<Rightarrow> layout_panic + grid_plan" where
  "select_plan cells width rows row_gap column_gap =
     (let max_columns = u16_from (div_ceil (length cells) (unat rows)) in
      first_plan (plan_for_columns cells width rows row_gap column_gap)
        (map of_nat (rev [1..<unat max_columns + 1])))"

definition arrange_widths :: "nat list \<Rightarrow> grid_rect \<Rightarrow> u16 \<Rightarrow> u16 \<Rightarrow> layout_panic + grid_plan" where
  "arrange_widths cells area between_rows between_columns =
     (let rows_without_pager = cell_rows_for_height (gr_rows area) between_rows in
      if cells = [] then Inr (empty_plan rows_without_pager between_rows)
      else if rows_without_pager = 0 then Inr (no_grid_plan between_rows)
      else rbind (select_plan cells (gr_width area) rows_without_pager between_rows between_columns)
        (\<lambda>without_pager.
          if gp_page_count without_pager = 1 then Inr without_pager
          else if gr_rows area \<le> 1 then Inr (no_grid_plan between_rows)
          else
            (let rows_with_pager = cell_rows_for_height (gr_rows area - 1) between_rows in
             if rows_with_pager = 0 then Inr (no_grid_plan between_rows)
             else rbind (select_plan cells (gr_width area) rows_with_pager between_rows between_columns)
                    (\<lambda>with_pager. Inr (with_pager\<lparr>gp_has_pager := True\<rparr>)))))"

definition arrange_cells :: "(str \<Rightarrow> nat) \<Rightarrow> str list \<Rightarrow> grid_rect \<Rightarrow> u16 \<Rightarrow> u16 \<Rightarrow> layout_panic + grid_plan" where
  "arrange_cells width_of cells = arrange_widths (map width_of cells)"

section \<open>What a page holds\<close>

lemma div_ceil_le: "0 < b \<Longrightarrow> div_ceil a b \<le> c \<longleftrightarrow> a \<le> c * b"
proof -
  assume b: "0 < b"
  have e: "a = a div b * b + a mod b" by simp
  show ?thesis
  proof (cases "a mod b = 0")
    case True
    then have "a = a div b * b" using e by simp
    then show ?thesis using b True by (metis add_0_right div_ceil_def mult_le_cancel2)
  next
    case False
    have m: "a mod b < b" using b by simp
    show ?thesis
    proof
      assume "div_ceil a b \<le> c"
      then have "(a div b + 1) * b \<le> c * b" using False by (intro mult_right_mono) (simp_all add: div_ceil_def)
      then have "a div b * b + b \<le> c * b" by simp
      then show "a \<le> c * b" using e m by linarith
    next
      assume "a \<le> c * b"
      then have "a div b * b < c * b" using e False by linarith
      then show "div_ceil a b \<le> c" using False by (simp add: div_ceil_def)
    qed
  qed
qed

lemma div_ceil_less: "0 < b \<Longrightarrow> c < div_ceil a b \<longleftrightarrow> c * b < a"
  using div_ceil_le [of b a c] by auto

text \<open>The cells of a column, and the widths of the columns of a page.\<close>

definition column_cells :: "'a list \<Rightarrow> nat \<Rightarrow> nat \<Rightarrow> nat \<Rightarrow> nat \<Rightarrow> 'a list" where
  "column_cells cells start stop rows column =
     (let a = start + column * rows in take (min (a + rows) stop - a) (drop a cells))"

definition page_start :: "nat \<Rightarrow> nat \<Rightarrow> nat \<Rightarrow> nat" where
  "page_start columns rows page = page * (columns * rows)"

definition page_stop :: "'a list \<Rightarrow> nat \<Rightarrow> nat \<Rightarrow> nat \<Rightarrow> nat" where
  "page_stop cells columns rows page = min (page_start columns rows page + columns * rows) (length cells)"

definition page_widths :: "nat list \<Rightarrow> nat \<Rightarrow> nat \<Rightarrow> nat \<Rightarrow> nat list" where
  "page_widths cells columns rows page =
     map (\<lambda>column. Max (set (column_cells cells (page_start columns rows page) (page_stop cells columns rows page) rows column)))
       [0..<div_ceil (page_stop cells columns rows page - page_start columns rows page) rows]"

definition required_width :: "u16 \<Rightarrow> nat list \<Rightarrow> nat" where
  "required_width column_gap widths = sum_list widths + unat column_gap * (length widths - 1)"

definition page_fits :: "nat list \<Rightarrow> u16 \<Rightarrow> u16 \<Rightarrow> nat \<Rightarrow> nat \<Rightarrow> nat \<Rightarrow> bool" where
  "page_fits cells available column_gap columns rows page \<longleftrightarrow>
     required_width column_gap (page_widths cells columns rows page) \<le> unat available"

lemma all_results_map: "(\<And>x. x \<in> set xs \<Longrightarrow> f x = Inr (g x)) \<Longrightarrow> all_results f xs = Inr (map g xs)"
  by (induction xs) simp_all

lemma column_width_ok:
  assumes "0 < rows" "start \<le> stop" "stop \<le> length cells" "column < div_ceil (stop - start) rows"
  shows "column_width cells start stop rows column = Inr (Max (set (column_cells cells start stop rows column)))"
    "column_cells cells start stop rows column \<noteq> []"
proof -
  have c: "start + column * rows < stop" using assms div_ceil_less [of rows column "stop - start"] by linarith
  then show ne: "column_cells cells start stop rows column \<noteq> []"
    using assms by (simp add: column_cells_def Let_def)
  show "column_width cells start stop rows column = Inr (Max (set (column_cells cells start stop rows column)))"
    using c ne assms(1,3) by (simp add: column_width_def column_cells_def slice_def max_expect_def Let_def)
qed

lemma plan_page_ok:
  assumes "0 < rows" "0 < columns" "page < div_ceil (length cells) (unat columns * unat rows)"
  shows "plan_page cells available rows column_gap columns page =
    Inr (if columns > 1 \<and> \<not> page_fits cells available column_gap (unat columns) (unat rows) page then None
         else Some (page_columns column_gap 0 (page_widths cells (unat columns) (unat rows) page),
           map (page_slot page (page_start (unat columns) (unat rows) page) rows)
             [page_start (unat columns) (unat rows) page..<page_stop cells (unat columns) (unat rows) page]))"
proof -
  have r: "0 < unat rows" "0 < unat columns" using assms(1,2) by (simp_all add: unat_gt_0 word_neq_0_conv)
  then have "page_start (unat columns) (unat rows) page < length cells"
    using assms(3) div_ceil_less [of "unat columns * unat rows" page "length cells"] by (simp add: page_start_def)
  then have b: "page_start (unat columns) (unat rows) page \<le> page_stop cells (unat columns) (unat rows) page"
    "page_stop cells (unat columns) (unat rows) page \<le> length cells" by (simp_all add: page_stop_def)
  have "all_results (column_width cells (page_start (unat columns) (unat rows) page)
      (page_stop cells (unat columns) (unat rows) page) (unat rows))
      [0..<div_ceil (page_stop cells (unat columns) (unat rows) page - page_start (unat columns) (unat rows) page) (unat rows)]
    = Inr (page_widths cells (unat columns) (unat rows) page)"
    unfolding page_widths_def using column_width_ok(1) [OF r(1) b] by (intro all_results_map) simp
  then show ?thesis
    by (auto simp: plan_page_def page_start_def page_stop_def page_fits_def required_width_def Let_def)
qed

text \<open>A plan with a given number of columns.\<close>

definition fits_columns :: "nat list \<Rightarrow> u16 \<Rightarrow> u16 \<Rightarrow> u16 \<Rightarrow> u16 \<Rightarrow> bool" where
  "fits_columns cells available rows column_gap columns \<longleftrightarrow>
     columns = 1 \<or> (\<forall>page < div_ceil (length cells) (unat columns * unat rows).
       page_fits cells available column_gap (unat columns) (unat rows) page)"

definition columns_plan :: "nat list \<Rightarrow> u16 \<Rightarrow> u16 \<Rightarrow> u16 \<Rightarrow> u16 \<Rightarrow> grid_plan" where
  "columns_plan cells rows row_gap column_gap columns =
     (let C = unat columns; R = unat rows; count = div_ceil (length cells) (C * R) in
      \<lparr>gp_columns = columns, gp_row_gap = row_gap, gp_rows_per_page = rows, gp_page_count = count,
       gp_has_pager = False,
       gp_pages = map (\<lambda>page. page_columns column_gap 0 (page_widths cells C R page)) [0..<count],
       gp_slots = concat (map (\<lambda>page. map (page_slot page (page_start C R page) rows)
         [page_start C R page..<page_stop cells C R page]) [0..<count])\<rparr>)"

lemma plan_pages_map:
  assumes "\<And>p. p \<in> set ps \<Longrightarrow> f p = Inr (if bad p then None else Some (g p, h p))"
  shows "plan_pages f ps = Inr (if \<exists>p \<in> set ps. bad p then None else Some (map g ps, concat (map h ps)))"
  using assms by (induction ps) auto

lemma plan_for_columns_ok:
  assumes "0 < rows" "0 < columns"
  shows "plan_for_columns cells available rows row_gap column_gap columns =
    Inr (if fits_columns cells available rows column_gap columns
         then Some (columns_plan cells rows row_gap column_gap columns) else None)"
proof -
  have one: "\<not> 1 < columns \<longleftrightarrow> columns = 1"
    using assms(2) by (auto simp: word_less_nat_alt word_unat_eq_iff)
  let ?n = "div_ceil (length cells) (unat columns * unat rows)"
  have "plan_pages (plan_page cells available rows column_gap columns) [0..<?n] =
    Inr (if \<exists>p \<in> set [0..<?n]. columns > 1 \<and> \<not> page_fits cells available column_gap (unat columns) (unat rows) p then None
         else Some (map (\<lambda>p. page_columns column_gap 0 (page_widths cells (unat columns) (unat rows) p)) [0..<?n],
           concat (map (\<lambda>p. map (page_slot p (page_start (unat columns) (unat rows) p) rows)
             [page_start (unat columns) (unat rows) p..<page_stop cells (unat columns) (unat rows) p]) [0..<?n])))"
    using plan_page_ok [OF assms] by (intro plan_pages_map) auto
  then show ?thesis
    using one by (auto simp: plan_for_columns_def columns_plan_def fits_columns_def Let_def)
qed

section \<open>The widest grid that fits\<close>

definition max_columns :: "nat list \<Rightarrow> u16 \<Rightarrow> u16" where
  "max_columns cells rows = u16_from (div_ceil (length cells) (unat rows))"

lemma unat_of_nat16: "n < 2 ^ 16 \<Longrightarrow> unat (of_nat n :: u16) = n"
  by (simp add: unsigned_of_nat take_bit_nat_eq_self)

lemma unat_u16_from: "unat (u16_from n) = min n 65535"
proof -
  have "unat (- 1 :: u16) = 65535" by (simp add: unsigned_minus_1_eq_mask mask_eq_exp_minus_1)
  then show ?thesis using unat_of_nat16 [of n] by (auto simp: u16_from_def u16_max_def)
qed

lemma div_ceil_pos: "0 < a \<Longrightarrow> 0 < b \<Longrightarrow> 0 < div_ceil a b"
  using div_ceil_less [of b 0 a] by simp

lemma select_plan_ok:
  assumes "0 < rows" "cells \<noteq> []"
  obtains columns where
    "select_plan cells width rows row_gap column_gap = Inr (columns_plan cells rows row_gap column_gap columns)"
    "0 < columns" "columns \<le> max_columns cells rows" "fits_columns cells width rows column_gap columns"
    "\<And>c. columns < c \<Longrightarrow> c \<le> max_columns cells rows \<Longrightarrow> \<not> fits_columns cells width rows column_gap c"
proof -
  let ?f = "plan_for_columns cells width rows row_gap column_gap"
  let ?good = "fits_columns cells width rows column_gap"
  have first: "first_plan ?f (map of_nat (rev [1..<Suc m])) = Inr (columns_plan cells rows row_gap column_gap c)"
    if "1 \<le> m" "m \<le> 65535" "\<And>d. unat d \<le> m \<Longrightarrow> ?good d \<Longrightarrow> d \<le> c" "?good c" "0 < c" "unat c \<le> m" for m c
    using that
  proof (induction m)
    case (Suc m)
    have u: "unat (of_nat (Suc m) :: u16) = Suc m" using Suc.prems(2) by (intro unat_of_nat16) simp
    then have p: "0 < (of_nat (Suc m) :: u16)" by (simp add: word_less_nat_alt)
    show ?case
    proof (cases "?good (of_nat (Suc m))")
      case True
      then have "of_nat (Suc m) \<le> c" using Suc.prems(3) u by simp
      then have "c = of_nat (Suc m)" using Suc.prems(6) u by (simp add: word_le_nat_alt word_unat_eq_iff)
      then show ?thesis using Suc.prems True plan_for_columns_ok [OF assms(1) p] u
        by (auto simp: word_le_nat_alt word_less_nat_alt simp del: of_nat_Suc)
    next
      case False
      then have ne: "unat c \<noteq> Suc m" using Suc.prems(4) by (metis u word_unat_eq_iff)
      then have "unat c \<le> m" "1 \<le> m" using Suc.prems(5,6) by (auto simp: word_less_nat_alt)
      from Suc.IH [OF this(2) _ _ Suc.prems(4,5) this(1)] Suc.prems
      have ih: "first_plan ?f (map of_nat (rev [1..<Suc m])) = Inr (columns_plan cells rows row_gap column_gap c)"
        by simp
      then show ?thesis using Suc.prems False plan_for_columns_ok [OF assms(1) p]
        by (auto simp: word_le_nat_alt word_less_nat_alt simp del: of_nat_Suc)
    qed
  qed simp
  let ?m = "unat (max_columns cells rows)"
  have m: "1 \<le> ?m" "?m \<le> 65535"
    using div_ceil_pos [of "length cells" "unat rows"] assms
    by (auto simp: max_columns_def unat_u16_from word_less_nat_alt)
  define c where "c = (of_nat (GREATEST k. k \<le> ?m \<and> 0 < k \<and> ?good (of_nat k)) :: u16)"
  have ex: "1 \<le> ?m \<and> 0 < (1::nat) \<and> ?good (of_nat 1)" using m by (simp add: fits_columns_def)
  note g = GreatestI_nat [of "\<lambda>k. k \<le> ?m \<and> 0 < k \<and> ?good (of_nat k)", OF ex, of ?m]
    Greatest_le_nat [of "\<lambda>k. k \<le> ?m \<and> 0 < k \<and> ?good (of_nat k)", of _ ?m]
  have uc: "unat c = (GREATEST k. k \<le> ?m \<and> 0 < k \<and> ?good (of_nat k))"
    using g(1) m(2) unfolding c_def by (intro unat_of_nat16) auto
  have c: "unat c \<le> ?m" "0 < c" "?good c"
    using g(1) uc by (auto simp: word_less_nat_alt c_def)
  have great: "d \<le> c" if "unat d \<le> ?m" "?good d" for d
  proof (cases "d = 0")
    case False
    then have "0 < unat d" by (simp add: unat_gt_0)
    then have "unat d \<le> unat c" using g(2) [of "unat d"] that uc by simp
    then show ?thesis by (simp add: word_le_nat_alt)
  qed simp
  have widest: "\<not> ?good d" if "c < d" "d \<le> max_columns cells rows" for d
    using great [of d] that by (auto simp: word_le_nat_alt word_less_nat_alt)
  from first [OF m great c(3) c(2) c(1)] show thesis
    using c widest by (intro that [of c])
      (simp_all add: select_plan_def max_columns_def [symmetric] word_le_nat_alt Let_def)
qed

section \<open>Every cell has its slot\<close>

definition slot_at :: "grid_plan \<Rightarrow> nat \<Rightarrow> grid_slot" where
  "slot_at plan i =
     (let R = unat (gp_rows_per_page plan); capacity = unat (gp_columns plan) * R in
      \<lparr>gs_source_index = i, gs_page = i div capacity,
       gs_column = of_nat (i mod capacity div R), gs_row = of_nat (i mod capacity mod R)\<rparr>)"

lemma intervals:
  assumes "0 < k"
  shows "concat (map (\<lambda>p. [p * k..<min (p * k + k) n]) [0..<m]) = [0..<min (m * k) n]"
proof (induction m)
  case (Suc m)
  have "[0..<min (m * k) n] @ [m * k..<min (m * k + k) n] = [0..<min (m * k + k) n]"
  proof (cases "m * k \<le> n")
    case True
    then show ?thesis using upt_add_eq_append [of 0 "m * k" "min (m * k + k) n - m * k"] by (simp add: min_def)
  qed simp
  then show ?case using Suc by (simp add: add.commute)
qed simp

lemma slots_all:
  assumes "0 < rows" "0 < columns"
  shows "gp_slots (columns_plan cells rows row_gap column_gap columns) =
    map (slot_at (columns_plan cells rows row_gap column_gap columns)) [0..<length cells]"
proof -
  let ?C = "unat columns" and ?R = "unat rows"
  let ?k = "?C * ?R" and ?plan = "columns_plan cells rows row_gap column_gap columns"
  have pos: "0 < ?R" "0 < ?C" using assms by (simp_all add: unat_gt_0 word_neq_0_conv)
  have slot: "page_slot p (page_start ?C ?R p) rows i = slot_at ?plan i"
    if "i \<in> set [p * ?k..<min (p * ?k + ?k) (length cells)]" for p i
  proof -
    have i: "p * ?k \<le> i" "i < p * ?k + ?k" using that by auto
    then have d: "i div ?k = p" using div_nat_eqI [of ?k p i] by (simp add: mult.commute add.commute)
    then have d: "i div ?k = p" "i mod ?k = i - p * ?k"
      by (simp_all add: modulo_nat_def mult.commute [of p])
    have m: "i mod ?k < ?k" using pos by simp
    then have "i mod ?k div ?R < ?C" using pos by (simp add: less_mult_imp_div_less)
    moreover have "?C < 2 ^ 16" "?R < 2 ^ 16" using unsigned_less [of columns] unsigned_less [of rows] by simp_all
    moreover have "i mod ?k mod ?R < ?R" using pos by simp
    ultimately show ?thesis using d
      by (simp add: page_slot_def slot_at_def page_start_def columns_plan_def u16_from_def Let_def del: mod_mult_self2)
  qed
  have "gp_slots ?plan = concat (map (\<lambda>p. map (page_slot p (page_start ?C ?R p) rows)
      [p * ?k..<min (p * ?k + ?k) (length cells)]) [0..<div_ceil (length cells) ?k])"
    by (simp add: columns_plan_def Let_def page_start_def page_stop_def)
  also have "\<dots> = concat (map (\<lambda>p. map (slot_at ?plan) [p * ?k..<min (p * ?k + ?k) (length cells)])
      [0..<div_ceil (length cells) ?k])"
    by (intro arg_cong [where f = concat] map_cong refl slot)
  also have "\<dots> = map (slot_at ?plan) (concat (map (\<lambda>p. [p * ?k..<min (p * ?k + ?k) (length cells)])
      [0..<div_ceil (length cells) ?k]))"
    by (simp add: map_concat comp_def)
  also have "\<dots> = map (slot_at ?plan) [0..<length cells]"
    using div_ceil_le [of ?k "length cells" "div_ceil (length cells) ?k"] pos by (simp add: intervals)
  finally show ?thesis .
qed

lemma cell_rows_pos: "cell_rows_for_height h g = 0 \<longleftrightarrow> h = 0"
proof (cases "h = 0")
  case False
  have "(h - 1) div sat_add g 1 \<noteq> - 1"
  proof
    assume m: "(h - 1) div sat_add g 1 = - 1"
    have "unat ((h - 1) div sat_add g 1) \<le> unat (h - 1)" by (simp add: unat_div)
    moreover have "unat (h - 1) < 65535"
      using False unsigned_less [of h, where ?'a = nat] by (simp add: unat_minus_one)
    ultimately show False using m by (simp add: unsigned_minus_1_eq_mask mask_eq_exp_minus_1)
  qed
  then show ?thesis using False by (simp add: cell_rows_for_height_def add_eq_0_iff)
qed (simp add: cell_rows_for_height_def)

text \<open>
  An area of two lines has room for any grid, with a pager if need be; one line only for a grid that
  needs no pager: all the cells side by side (or one cell, clipped).
\<close>

definition grid_has_room :: "nat list \<Rightarrow> grid_rect \<Rightarrow> u16 \<Rightarrow> bool" where
  "grid_has_room cells area between_columns \<longleftrightarrow>
     1 < gr_rows area
     \<or> gr_rows area = 1 \<and> length cells < 2 ^ 16
       \<and> (length cells = 1 \<or> sum_list cells + unat between_columns * (length cells - 1) \<le> unat (gr_width area))"

lemma one_line_widths: "page_widths cells (length cells) 1 0 = cells"
proof -
  have "column_cells cells 0 (length cells) 1 k = [cells ! k]" if "k < length cells" for k
    using that by (simp add: column_cells_def Let_def Cons_nth_drop_Suc [symmetric])
  then show ?thesis
    by (intro nth_equalityI) (simp_all add: page_widths_def page_start_def page_stop_def div_ceil_def)
qed

lemma one_row_fits:
  assumes "cells \<noteq> []" "unat c = length cells"
  shows "fits_columns cells width 1 gap c \<longleftrightarrow>
    length cells = 1 \<or> sum_list cells + unat gap * (length cells - 1) \<le> unat width"
proof -
  have "div_ceil (length cells) (length cells) = 1" using assms(1) by (simp add: div_ceil_def)
  moreover have "c = 1 \<longleftrightarrow> length cells = 1" using assms(2) by (metis unat_1 word_unat_eq_iff)
  ultimately show ?thesis
    using assms(2) one_line_widths [of cells] by (simp add: fits_columns_def page_fits_def required_width_def)
qed

lemma one_row_pages:
  assumes cells: "cells \<noteq> []" and c: "0 < c" "c \<le> max_columns cells 1" and fits: "fits_columns cells width 1 gap c"
    and widest: "\<And>d. c < d \<Longrightarrow> d \<le> max_columns cells 1 \<Longrightarrow> \<not> fits_columns cells width 1 gap d"
  shows "div_ceil (length cells) (unat c) = 1 \<longleftrightarrow>
    length cells < 2 ^ 16 \<and> (length cells = 1 \<or> sum_list cells + unat gap * (length cells - 1) \<le> unat width)"
proof -
  let ?n = "length cells"
  have m: "unat (max_columns cells 1) = min ?n (2 ^ 16 - 1)"
    by (simp add: max_columns_def div_ceil_def unat_u16_from u16_max_def unsigned_minus_1_eq_mask mask_eq_exp_minus_1)
  have pos: "0 < unat c" using c(1) by (simp add: word_less_nat_alt)
  have one: "div_ceil ?n (unat c) = 1 \<longleftrightarrow> ?n \<le> unat c"
    using div_ceil_le [OF pos, of ?n 1] div_ceil_less [OF pos, of 0 ?n] cells by auto
  have le: "unat c \<le> ?n" "unat c \<le> 2 ^ 16 - 1" using c(2) m by (simp_all add: word_le_nat_alt)
  show ?thesis
  proof (cases "?n \<le> unat c")
    case True
    with le have n: "unat c = ?n" by simp
    with le fits one_row_fits [OF cells n] one show ?thesis by simp
  next
    case False
    have "\<not> (?n < 2 ^ 16 \<and> (?n = 1 \<or> sum_list cells + unat gap * (?n - 1) \<le> unat width))"
    proof
      assume h: "?n < 2 ^ 16 \<and> (?n = 1 \<or> sum_list cells + unat gap * (?n - 1) \<le> unat width)"
      then have n: "unat (of_nat ?n :: u16) = ?n" by (simp add: unat_of_nat)
      with h one_row_fits [OF cells n] have "fits_columns cells width 1 gap (of_nat ?n)" by simp
      moreover have "c < of_nat ?n" "of_nat ?n \<le> max_columns cells 1"
        using False n m h by (simp_all add: word_less_nat_alt word_le_nat_alt)
      ultimately show False using widest by blast
    qed
    with False one show ?thesis by simp
  qed
qed

lemma one_row [simp]: "cell_rows_for_height 1 gap = 1"
  by (simp add: cell_rows_for_height_def)

text \<open>What \<open>arrange_cells\<close> returns.\<close>

lemma arrange_cases:
  obtains (no_cells) "cells = []"
      "arrange_widths cells area between_rows between_columns
         = Inr (empty_plan (cell_rows_for_height (gr_rows area) between_rows) between_rows)"
  | (too_small) "cells \<noteq> []" "\<not> grid_has_room cells area between_columns"
      "arrange_widths cells area between_rows between_columns = Inr (no_grid_plan between_rows)"
  | (grid) height rows columns pager where "cells \<noteq> []"
      "arrange_widths cells area between_rows between_columns
         = Inr ((columns_plan cells rows between_rows between_columns columns)\<lparr>gp_has_pager := pager\<rparr>)"
      "rows = cell_rows_for_height height between_rows" "0 < height" "0 < rows"
      "unat height + (if pager then 1 else 0) = unat (gr_rows area)"
      "\<not> pager \<Longrightarrow> div_ceil (length cells) (unat columns * unat rows) = 1"
      "0 < columns" "columns \<le> max_columns cells rows" "fits_columns cells (gr_width area) rows between_columns columns"
      "\<And>c. columns < c \<Longrightarrow> c \<le> max_columns cells rows
         \<Longrightarrow> \<not> fits_columns cells (gr_width area) rows between_columns c"
      "grid_has_room cells area between_columns"
proof -
  let ?rows = "cell_rows_for_height (gr_rows area) between_rows"
  let ?arrange = "arrange_widths cells area between_rows between_columns"
  consider "cells = []" | "cells \<noteq> []" "?rows = 0" | "cells \<noteq> []" "0 < ?rows"
    using word_neq_0_conv by blast
  then show thesis
  proof cases
    case 1
    then show thesis by (intro no_cells) (simp_all add: arrange_widths_def Let_def)
  next
    case 2
    have "gr_rows area = 0" using 2(2) cell_rows_pos [of "gr_rows area" between_rows] by auto
    with 2 show thesis by (intro too_small) (simp_all add: arrange_widths_def grid_has_room_def Let_def)
  next
    case 3
    then have h: "0 < gr_rows area" using cell_rows_pos [of "gr_rows area" between_rows] by (auto simp: word_neq_0_conv)
    from select_plan_ok [OF 3(2) 3(1)] obtain c where
      c: "select_plan cells (gr_width area) ?rows between_rows between_columns
            = Inr (columns_plan cells ?rows between_rows between_columns c)"
      "0 < c" "c \<le> max_columns cells ?rows" "fits_columns cells (gr_width area) ?rows between_columns c"
      "\<And>d. c < d \<Longrightarrow> d \<le> max_columns cells ?rows \<Longrightarrow> \<not> fits_columns cells (gr_width area) ?rows between_columns d"
      by blast
    have count: "gp_page_count (columns_plan cells ?rows between_rows between_columns c)
        = div_ceil (length cells) (unat c * unat ?rows)" by (simp add: columns_plan_def Let_def)
    have h1: "gr_rows area = 1 \<or> 1 < gr_rows area" using h by (auto simp: word_less_nat_alt word_unat_eq_iff)
    have room: "grid_has_room cells area between_columns \<longleftrightarrow> 1 < gr_rows area
        \<or> gp_page_count (columns_plan cells ?rows between_rows between_columns c) = 1"
    proof (cases "gr_rows area = 1")
      case True
      with one_row_pages [OF 3(1) c(2), of "gr_width area" between_columns] c(3-5) count show ?thesis
        by (simp add: grid_has_room_def)
    next
      case False
      with h1 show ?thesis by (simp add: grid_has_room_def)
    qed
    show thesis
    proof (cases "gp_page_count (columns_plan cells ?rows between_rows between_columns c) = 1")
      case True
      then have "?arrange = Inr ((columns_plan cells ?rows between_rows between_columns c)\<lparr>gp_has_pager := False\<rparr>)"
        using 3 c(1) by (simp add: arrange_widths_def columns_plan_def Let_def word_neq_0_conv)
      then show thesis using True count 3 c h room by (intro grid [where height = "gr_rows area" and rows = ?rows and columns = c and pager = False]) simp_all
    next
      case False
      show thesis
      proof (cases "gr_rows area \<le> 1")
        case True
        then show thesis using 3 c(1) False room
          by (intro too_small) (simp_all add: arrange_widths_def Let_def word_neq_0_conv not_le)
      next
        case big: False
        let ?h = "gr_rows area - 1"
        let ?rows' = "cell_rows_for_height ?h between_rows"
        have "unat ?h = unat (gr_rows area) - 1" using h by (intro unat_minus_one) auto
        then have u: "unat ?h + 1 = unat (gr_rows area)" "0 < ?h"
          using big h by (auto simp: word_less_nat_alt word_le_nat_alt)
        have "?rows' \<noteq> 0" using cell_rows_pos [of ?h between_rows] u(2) by auto
        then have r: "0 < ?rows'" by (simp only: word_neq_0_conv)
        from select_plan_ok [OF r 3(1)] obtain d where
          d: "select_plan cells (gr_width area) ?rows' between_rows between_columns
                = Inr (columns_plan cells ?rows' between_rows between_columns d)"
          "0 < d" "d \<le> max_columns cells ?rows'" "fits_columns cells (gr_width area) ?rows' between_columns d"
          "\<And>e. d < e \<Longrightarrow> e \<le> max_columns cells ?rows' \<Longrightarrow> \<not> fits_columns cells (gr_width area) ?rows' between_columns e"
          by blast
        have "?arrange = Inr ((columns_plan cells ?rows' between_rows between_columns d)\<lparr>gp_has_pager := True\<rparr>)"
          using 3 c(1) d(1) False big r by (simp add: arrange_widths_def Let_def word_neq_0_conv)
        moreover have "grid_has_room cells area between_columns" using room big by (simp add: not_le)
        ultimately show thesis using 3 d u r by (intro grid [where height = ?h and rows = ?rows' and columns = d and pager = True]) simp_all
      qed
    qed
  qed
qed

text \<open>
  C26: arranging never panics and shows every cell there is room for. Whatever the cells and the
  area, a plan is returned; it has as many pages as it says, at least one. An area of two lines or
  more has room for any cells, an area of one line for cells that fit side by side in it (or for a
  single cell), and an area with no line for none; when there is room the plan gives every cell
  exactly one slot, in column-major order within a page and page after page, and otherwise it shows
  nothing.
\<close>

theorem grid_complete:
  "\<exists>plan. arrange_cells width_of cells area between_rows between_columns = Inr plan
     \<and> gp_page_count plan = length (gp_pages plan) \<and> gp_pages plan \<noteq> []
     \<and> gp_slots plan = (if grid_has_room (map width_of cells) area between_columns
                        then map (slot_at plan) [0..<length cells] else [])"
proof -
  let ?cells = "map width_of cells"
  show ?thesis
  proof (cases rule: arrange_cases [of ?cells area between_rows between_columns])
    case no_cells
    then show ?thesis by (simp add: arrange_cells_def empty_plan_def)
  next
    case too_small
    then show ?thesis by (simp add: arrange_cells_def no_grid_plan_def empty_plan_def)
  next
    case (grid height rows columns pager)
    let ?plan = "columns_plan ?cells rows between_rows between_columns columns"
    have "0 < unat columns * unat rows"
      using grid(5,8) by (simp add: unat_gt_0 word_neq_0_conv)
    then have "gp_pages ?plan \<noteq> []"
      using grid(1) div_ceil_pos [of "length cells"] by (simp add: columns_plan_def Let_def)
    moreover have "slot_at (?plan\<lparr>gp_has_pager := pager\<rparr>) = slot_at ?plan"
      by (simp add: slot_at_def fun_eq_iff)
    moreover have "gp_page_count ?plan = length (gp_pages ?plan)" by (simp add: columns_plan_def Let_def)
    ultimately show ?thesis
      using grid(2) slots_all [OF grid(5,8), of ?cells between_rows between_columns] grid(12)
      by (simp add: arrange_cells_def)
  qed
qed

section \<open>Every slot is on the screen\<close>

lemma page_columns_length [simp]: "length (page_columns gap offset ws) = length ws"
  by (induction gap offset ws rule: page_columns.induct) (simp_all add: Let_def)

lemma unat_sat_add: "unat a + unat b < 2 ^ 16 \<Longrightarrow> unat (sat_add a b) = unat a + unat b"
  using unat_add_lem [of a b] by (simp add: sat_add_def)

lemma unat_sat_mul: "unat a * unat b < 2 ^ 16 \<Longrightarrow> unat (sat_mul a b) = unat a * unat b"
  using unat_mult_lem [of a b] by (simp add: sat_mul_def)

text \<open>Columns that fit are laid side by side, each as wide as its widest cell.\<close>

lemma page_columns_nth:
  assumes "unat offset + required_width gap ws < 2 ^ 16" "k < length ws"
  shows "unat (gc_offset (page_columns gap offset ws ! k)) = unat offset + sum_list (take k ws) + unat gap * k
    \<and> unat (gc_width (page_columns gap offset ws ! k)) = ws ! k"
  using assms
proof (induction ws arbitrary: offset k)
  case (Cons w ws)
  have w: "unat (u16_from (min w (unat u16_max))) = w"
  proof -
    have "w < 65536" using Cons.prems(1) by (simp add: required_width_def)
    moreover have "unat u16_max = 65535"
      by (simp add: u16_max_def unsigned_minus_1_eq_mask mask_eq_exp_minus_1)
    ultimately show ?thesis by (simp add: unat_u16_from)
  qed
  show ?case
  proof (cases k)
    case 0
    then show ?thesis using w by (simp add: Let_def)
  next
    case (Suc j)
    then have j: "j < length ws" "ws \<noteq> []" using Cons.prems(2) by auto
    let ?o = "sat_add (sat_add offset (u16_from (min w (unat u16_max)))) gap"
    have g: "unat gap * (length ws - 1) + unat gap = unat gap * length ws"
      using j(2) by (cases ws) (simp_all add: algebra_simps)
    have small: "unat offset + w + unat gap + required_width gap ws < 2 ^ 16"
      using Cons.prems(1) g by (simp add: required_width_def)
    have "unat (sat_add offset (u16_from (min w (unat u16_max)))) = unat offset + w"
      using small w by (subst unat_sat_add) simp_all
    moreover from this have o: "unat ?o = unat offset + w + unat gap" using small by (subst unat_sat_add) simp_all
    ultimately show ?thesis
      using Cons.IH [of ?o j] small j(1) Suc by (simp add: Let_def)
  qed
qed simp

lemma column_room:
  assumes "unat offset + required_width gap ws < 2 ^ 16" "k < length ws"
  shows "unat (gc_offset (page_columns gap offset ws ! k)) + unat (gc_width (page_columns gap offset ws ! k))
    \<le> unat offset + required_width gap ws"
proof -
  have "sum_list ws = sum_list (take k ws) + ws ! k + sum_list (drop (Suc k) ws)"
    by (metis add.assoc assms(2) id_take_nth_drop sum_list.Cons sum_list_append)
  moreover have "unat gap * k \<le> unat gap * (length ws - 1)" using assms(2) by (intro mult_left_mono) simp_all
  moreover note page_columns_nth [OF assms]
  ultimately show ?thesis unfolding required_width_def by linarith
qed

text \<open>The rows of a grid of the given height.\<close>

lemma row_room:
  assumes "0 < h" "row < cell_rows_for_height h g"
  shows "unat (sat_mul row (sat_add g 1)) < unat h"
proof -
  let ?g = "unat (sat_add g 1)"
  have u: "unat (h - 1) = unat h - 1" using assms(1) by (intro unat_minus_one) auto
  have "unat ((h - 1) div sat_add g 1) \<le> unat (h - 1)" by (simp add: unat_div)
  then have "unat (1 + (h - 1) div sat_add g 1) = 1 + unat ((h - 1) div sat_add g 1)"
    using u assms(1) unsigned_less [of h, where ?'a = nat]
    by (subst unat_add_lem [THEN iffD1]) (auto simp: word_less_nat_alt)
  moreover have "row < 1 + (h - 1) div sat_add g 1"
    using assms by (simp add: cell_rows_for_height_def split: if_splits)
  ultimately have "unat row \<le> unat (h - 1) div ?g"
    by (simp add: word_less_nat_alt unat_div)
  then have "unat row * ?g \<le> unat (h - 1)"
    by (metis div_times_less_eq_dividend le_trans mult_le_mono1)
  moreover have "unat (h - 1) < unat h" using u assms(1) by (simp add: word_less_nat_alt)
  ultimately show ?thesis using unat_sat_mul [of row "sat_add g 1"] unsigned_less [of h, where ?'a = nat] by simp
qed

lemma slot_place:
  assumes "i < length cells" "0 < columns" "0 < rows"
  shows "i div (columns * rows) < div_ceil (length cells) (columns * rows)"
    "i mod (columns * rows) div rows
      < div_ceil (page_stop cells columns rows (i div (columns * rows)) - page_start columns rows (i div (columns * rows))) rows"
    "cells ! i \<in> set (column_cells cells (page_start columns rows (i div (columns * rows)))
       (page_stop cells columns rows (i div (columns * rows))) rows (i mod (columns * rows) div rows))"
proof -
  let ?k = "columns * rows"
  let ?p = "i div ?k" and ?w = "i mod ?k"
  let ?start = "page_start columns rows ?p" and ?stop = "page_stop cells columns rows ?p"
  have k: "0 < ?k" using assms by simp
  have i: "i = ?start + ?w" unfolding page_start_def by (simp only: div_mult_mod_eq)
  have w: "?w < ?k" using k by simp
  have stop: "i < ?stop" using i w assms(1) unfolding page_stop_def by linarith
  have "?p * ?k \<le> i" by simp
  then show "?p < div_ceil (length cells) ?k" using assms(1) div_ceil_less [OF k] by (meson le_less_trans)
  have col: "?w div rows * rows \<le> ?w" by simp
  show "?w div rows < div_ceil (?stop - ?start) rows"
    unfolding div_ceil_less [OF assms(3)] using col stop i by linarith
  let ?a = "?start + ?w div rows * rows"
  have "?w mod rows < rows" using assms(3) by simp
  moreover have r: "i = ?a + ?w mod rows" using i by (metis add.assoc div_mult_mod_eq)
  ultimately have m: "?w mod rows < min (?a + rows) ?stop - ?a" using stop by linarith
  have "drop ?a cells ! (?w mod rows) = cells ! (?a + ?w mod rows)"
    using r assms(1) by (intro nth_drop) linarith
  then have "drop ?a cells ! (?w mod rows) = cells ! i" by (simp only: r [symmetric])
  then have "column_cells cells ?start ?stop rows (?w div rows) ! (?w mod rows) = cells ! i"
    using m by (simp add: column_cells_def Let_def)
  moreover have "?w mod rows < length cells - ?a" using r assms(1) by linarith
  then have "?w mod rows < length (column_cells cells ?start ?stop rows (?w div rows))"
    using m by (simp only: column_cells_def Let_def length_take length_drop min_less_iff_conj)
  ultimately show "cells ! i \<in> set (column_cells cells ?start ?stop rows (?w div rows))" by (metis nth_mem)
qed

definition slot_column :: "grid_plan \<Rightarrow> grid_slot \<Rightarrow> grid_column" where
  "slot_column plan slot = gp_pages plan ! gs_page slot ! unat (gs_column slot)"

text \<open>
  C27: what is shown is on the screen. Every slot of a plan names a page of the plan, a column of
  that page and a row of the grid; its line, with the line of the pager if there is one, is inside
  the area; and unless the grid was reduced to one clipped column, the column lies inside the width
  of the area and is wide enough for the whole cell.
\<close>

theorem grid_on_screen:
  assumes "arrange_cells width_of cells area between_rows between_columns = Inr plan"
    and "slot \<in> set (gp_slots plan)"
  shows "gs_page slot < length (gp_pages plan)
    \<and> unat (gs_column slot) < length (gp_pages plan ! gs_page slot)
    \<and> gs_row slot < gp_rows_per_page plan
    \<and> unat (cell_row_offset plan (gs_row slot)) + (if gp_has_pager plan then 1 else 0) < unat (gr_rows area)
    \<and> (gp_columns plan = 1 \<or>
      unat (gc_offset (slot_column plan slot)) + unat (gc_width (slot_column plan slot)) \<le> unat (gr_width area)
      \<and> width_of (cells ! gs_source_index slot) \<le> unat (gc_width (slot_column plan slot)))"
proof -
  let ?cells = "map width_of cells"
  note run = assms(1) [unfolded arrange_cells_def]
  show ?thesis
  proof (cases rule: arrange_cases [of ?cells area between_rows between_columns])
    case no_cells
    then show ?thesis using run assms(2) by (auto simp: empty_plan_def)
  next
    case too_small
    then show ?thesis using run assms(2) by (auto simp: no_grid_plan_def empty_plan_def)
  next
    case (grid height rows columns pager)
    let ?C = "unat columns" and ?R = "unat rows"
    let ?base = "columns_plan ?cells rows between_rows between_columns columns"
    have plan: "plan = ?base\<lparr>gp_has_pager := pager\<rparr>" using run grid(2) by simp
    have pos: "0 < ?C" "0 < ?R" using grid(5,8) by (simp_all add: word_less_nat_alt)
    have "slot \<in> set (map (slot_at ?base) [0..<length ?cells])"
      using assms(2) plan slots_all [OF grid(5,8), of ?cells between_rows between_columns] by simp
    then obtain i where i: "i < length ?cells" "slot = slot_at ?base i" by auto
    note place = slot_place [OF i(1) pos]
    let ?page = "i div (?C * ?R)" and ?col = "i mod (?C * ?R) div ?R"
    have base: "gp_columns ?base = columns" "gp_rows_per_page ?base = rows" "gp_row_gap ?base = between_rows"
      by (simp_all add: columns_plan_def Let_def)
    have "?col < ?C" using pos by (simp add: less_mult_imp_div_less)
    then have "unat (of_nat ?col :: u16) = ?col"
      using unsigned_less [of columns, where ?'a = nat] by (intro unat_of_nat16) simp
    moreover have "unat (of_nat (i mod (?C * ?R) mod ?R) :: u16) = i mod (?C * ?R) mod ?R"
      using pos unsigned_less [of rows, where ?'a = nat] less_trans [OF mod_less_divisor [OF pos(2)]]
      by (intro unat_of_nat16) simp
    ultimately have s: "gs_page slot = ?page" "unat (gs_column slot) = ?col" "gs_row slot < rows" "gs_source_index slot = i"
      using i(2) pos by (simp_all add: slot_at_def base Let_def word_less_nat_alt)
    have pages: "length (gp_pages plan) = div_ceil (length ?cells) (?C * ?R)"
      by (simp add: plan columns_plan_def Let_def)
    have page: "gp_pages plan ! ?page = page_columns between_columns 0 (page_widths ?cells ?C ?R ?page)"
      using place(1) by (simp add: plan columns_plan_def Let_def)
    have lw: "length (page_widths ?cells ?C ?R ?page)
        = div_ceil (page_stop ?cells ?C ?R ?page - page_start ?C ?R ?page) ?R"
      by (simp add: page_widths_def)
    have row: "unat (cell_row_offset plan (gs_row slot)) < unat height"
    proof -
      have "gp_row_gap plan = between_rows" by (simp add: plan base)
      then show ?thesis
        using row_room [OF grid(4) s(3) [unfolded grid(3)]] by (simp add: cell_row_offset_def)
    qed
    have fit: "unat (gc_offset (slot_column plan slot)) + unat (gc_width (slot_column plan slot)) \<le> unat (gr_width area)
      \<and> width_of (cells ! i) \<le> unat (gc_width (slot_column plan slot))" if "columns \<noteq> 1"
    proof -
      have r: "required_width between_columns (page_widths ?cells ?C ?R ?page) \<le> unat (gr_width area)"
        using grid(10) that place(1) by (simp add: fits_columns_def page_fits_def)
      then have small: "unat (0 :: u16) + required_width between_columns (page_widths ?cells ?C ?R ?page) < 2 ^ 16"
        using unsigned_less [of "gr_width area", where ?'a = nat] by simp
      have k: "?col < length (page_widths ?cells ?C ?R ?page)" using place(2) lw by simp
      have c: "slot_column plan slot = page_columns between_columns 0 (page_widths ?cells ?C ?R ?page) ! ?col"
        by (simp add: slot_column_def s page)
      have "page_widths ?cells ?C ?R ?page ! ?col = Max (set (column_cells ?cells (page_start ?C ?R ?page)
          (page_stop ?cells ?C ?R ?page) ?R ?col))"
        using k by (simp add: page_widths_def)
      then have "?cells ! i \<le> page_widths ?cells ?C ?R ?page ! ?col" using place(3) by simp
      then show ?thesis
        using column_room [OF small k] page_columns_nth [OF small k] r i(1) by (simp add: c)
    qed
    show ?thesis
      using place(1,2) pages page lw s row fit grid(6) i(1) by (auto simp: plan base)
  qed
qed

text \<open>
  C28: the grid is as wide as it can be. The number of columns of a shown grid fits, and no larger
  number of columns, up to one column for each line of cells, fits in the same rows; a plan
  without a pager has one page.
\<close>

theorem grid_widest:
  assumes "arrange_cells width_of cells area between_rows between_columns = Inr plan"
    and "gp_slots plan \<noteq> []"
  shows "fits_columns (map width_of cells) (gr_width area) (gp_rows_per_page plan) between_columns (gp_columns plan)
    \<and> (\<forall>c. gp_columns plan < c \<longrightarrow> c \<le> max_columns (map width_of cells) (gp_rows_per_page plan)
        \<longrightarrow> \<not> fits_columns (map width_of cells) (gr_width area) (gp_rows_per_page plan) between_columns c)
    \<and> (\<not> gp_has_pager plan \<longrightarrow> gp_page_count plan = 1)"
proof -
  let ?cells = "map width_of cells"
  note run = assms(1) [unfolded arrange_cells_def]
  show ?thesis
  proof (cases rule: arrange_cases [of ?cells area between_rows between_columns])
    case no_cells
    then show ?thesis using run assms(2) by (auto simp: empty_plan_def)
  next
    case too_small
    then show ?thesis using run assms(2) by (auto simp: no_grid_plan_def empty_plan_def)
  next
    case (grid height rows columns pager)
    have "plan = (columns_plan ?cells rows between_rows between_columns columns)\<lparr>gp_has_pager := pager\<rparr>"
      using run grid(2) by simp
    then have "gp_columns plan = columns" "gp_rows_per_page plan = rows" "gp_has_pager plan = pager"
      "gp_page_count plan = div_ceil (length ?cells) (unat columns * unat rows)"
      by (simp_all add: columns_plan_def Let_def)
    then show ?thesis using grid(7,10,11) by simp
  qed
qed

section \<open>Samples\<close>

definition pager_area :: grid_rect where
  "pager_area = \<lparr>gr_width = 12, gr_rows = 3\<rparr>"

text \<open>
  The converse fails: with one line less, cells may fall into columns that fit side by side, and the
  plan has a pager on its only page. Six cells of widths 1, 1, 10, 10, 1, 1 need two pages of one
  column in three rows, and one page of three columns in two.
\<close>

definition uneven_cells :: "nat list" where
  "uneven_cells = [1, 1, 10, 10, 1, 1]"

definition uneven_plan :: grid_plan where
  "uneven_plan = \<lparr>gp_columns = 3, gp_row_gap = 0, gp_rows_per_page = 2, gp_page_count = 1, gp_has_pager = True,
     gp_pages = [[\<lparr>gc_offset = 0, gc_width = 1\<rparr>, \<lparr>gc_offset = 1, gc_width = 10\<rparr>, \<lparr>gc_offset = 11, gc_width = 1\<rparr>]],
     gp_slots = [\<lparr>gs_source_index = 0, gs_page = 0, gs_column = 0, gs_row = 0\<rparr>,
       \<lparr>gs_source_index = 1, gs_page = 0, gs_column = 0, gs_row = 1\<rparr>,
       \<lparr>gs_source_index = 2, gs_page = 0, gs_column = 1, gs_row = 0\<rparr>,
       \<lparr>gs_source_index = 3, gs_page = 0, gs_column = 1, gs_row = 1\<rparr>,
       \<lparr>gs_source_index = 4, gs_page = 0, gs_column = 2, gs_row = 0\<rparr>,
       \<lparr>gs_source_index = 5, gs_page = 0, gs_column = 2, gs_row = 1\<rparr>]\<rparr>"

lemma uneven_widths:
  "page_widths uneven_cells 2 3 0 = [10, 10]" "page_widths uneven_cells (Suc 0) 3 0 = [10]" "page_widths uneven_cells (Suc 0) 3 (Suc 0) = [10]"
  "page_widths uneven_cells 3 2 0 = [1, 10, 1]"
  by code_simp+

lemma pager_on_one_page: "arrange_widths uneven_cells pager_area 0 0 = Inr uneven_plan"
proof -
  have r: "cell_rows_for_height 3 0 = 3" "cell_rows_for_height 2 0 = 2"
    by (simp_all add: cell_rows_for_height_def sat_add_def)
  have c: "fits_columns uneven_cells 12 3 0 2 = False" "fits_columns uneven_cells 12 2 0 3"
    "fits_columns uneven_cells 12 3 0 1"
    by (simp_all add: fits_columns_def page_fits_def required_width_def div_ceil_def uneven_widths
        uneven_cells_def [THEN arg_cong [where f = length]])
  have l: "length uneven_cells = 6" "uneven_cells \<noteq> []" by (simp_all add: uneven_cells_def)
  have p: "plan_for_columns uneven_cells 12 3 0 0 2 = Inr None"
    "plan_for_columns uneven_cells 12 3 0 0 1 = Inr (Some (columns_plan uneven_cells 3 0 0 1))"
    "plan_for_columns uneven_cells 12 2 0 0 3 = Inr (Some (columns_plan uneven_cells 2 0 0 3))"
    by (simp_all add: plan_for_columns_ok c)
  have s: "select_plan uneven_cells 12 3 0 0 = Inr (columns_plan uneven_cells 3 0 0 1)"
    "select_plan uneven_cells 12 2 0 0 = Inr (columns_plan uneven_cells 2 0 0 3)"
    by (simp_all add: select_plan_def div_ceil_def u16_from_def p l Let_def upt_rec)
  have m: "unat u16_max = 65535" by (simp add: u16_max_def unsigned_minus_1_eq_mask mask_eq_exp_minus_1)
  have "gp_page_count (columns_plan uneven_cells 3 0 0 1) = 2"
    by (simp add: columns_plan_def div_ceil_def l Let_def)
  moreover have "(columns_plan uneven_cells 2 0 0 3)\<lparr>gp_has_pager := True\<rparr> = uneven_plan"
    by (simp add: columns_plan_def div_ceil_def l m Let_def uneven_widths uneven_plan_def page_slot_def
        page_start_def page_stop_def u16_from_def sat_add_def upt_rec)
  moreover have "\<not> (3::u16) \<le> 1" by (simp add: word_le_nat_alt)
  ultimately show ?thesis
    by (simp add: arrange_widths_def pager_area_def r s l)
qed

text \<open>The same cells as texts of that many columns, one column for each scalar.\<close>

definition uneven_texts :: "str list" where
  "uneven_texts = map (\<lambda>n. replicate n 0x78) uneven_cells"

lemma uneven_texts_plan: "arrange_cells length uneven_texts pager_area 0 0 = Inr uneven_plan"
proof -
  have "map length uneven_texts = uneven_cells" by (simp add: uneven_texts_def comp_def)
  then show ?thesis by (simp add: arrange_cells_def pager_on_one_page)
qed

theorem grid_on_screen_witness:
  "unat (gc_offset (slot_column uneven_plan (gp_slots uneven_plan ! 3))) + unat (gc_width (slot_column uneven_plan (gp_slots uneven_plan ! 3))) \<le> 12
    \<and> length (uneven_texts ! 3) \<le> unat (gc_width (slot_column uneven_plan (gp_slots uneven_plan ! 3)))"
proof -
  have "gp_slots uneven_plan ! 3 \<in> set (gp_slots uneven_plan)" "gp_columns uneven_plan \<noteq> 1"
    "gs_source_index (gp_slots uneven_plan ! 3) = 3" "unat (gr_width pager_area) = 12"
    by (simp_all add: uneven_plan_def pager_area_def)
  then show ?thesis using grid_on_screen [OF uneven_texts_plan] by fastforce
qed

theorem grid_widest_witness:
  "fits_columns (map length uneven_texts) 12 2 0 3 \<and> gp_slots uneven_plan \<noteq> []"
proof -
  have "gp_slots uneven_plan \<noteq> []" "gr_width pager_area = 12" "gp_rows_per_page uneven_plan = 2" "gp_columns uneven_plan = 3"
    by (simp_all add: uneven_plan_def pager_area_def)
  then show ?thesis using grid_widest [OF uneven_texts_plan] by simp
qed

end
