(* ===== verification/Zellij_Registry.thy ===== *)
theory Zellij_Registry
  imports Bridge_Frame Ordered_Table
begin

text \<open>
  The registration table of the Zellij adapter, \<open>muxe-adapter-zellij/src/registry.rs\<close>: at most one
  active bridge registration for each client, heartbeat leases, retired registrations and the request
  numbers of a registration. Client, pane and version identities are texts; the clock is the argument
  \<open>now\<close> in milliseconds, 64 bits wide.
\<close>

section \<open>The table\<close>

definition HEARTBEAT_LEASE_MILLIS :: u64 where
  "HEARTBEAT_LEASE_MILLIS = 15000"

record bridge_record =
  rec_client :: str
  rec_registration :: registration_id
  rec_pane :: "str option"
  rec_version :: str
  rec_last_event :: u64
  rec_compatible :: bool
  rec_next_request :: bridge_request_id

datatype registry_error =
    StaleRegistration str
  | RequestIdExhausted str
  | IncompatibleBridge str
  | RetiredRegistration str

record zellij_registry =
  zr_records :: "(str, bridge_record) table"
  zr_retired :: "registration_id set"

definition new_registry :: zellij_registry where
  "new_registry = \<lparr>zr_records = [], zr_retired = {}\<rparr>"

definition saturating_sub_u64 :: "u64 \<Rightarrow> u64 \<Rightarrow> u64" where
  "saturating_sub_u64 a b = (if b \<le> a then a - b else 0)"

section \<open>Operations\<close>

definition register_bridge ::
  "str \<Rightarrow> registration_id \<Rightarrow> str option \<Rightarrow> str \<Rightarrow> bool \<Rightarrow> u64 \<Rightarrow> zellij_registry
   \<Rightarrow> zellij_registry \<times> (registry_error + registration_id option)" where
  "register_bridge client r pane version compatible now s =
     (let displaced = map_option rec_registration (tab_get (zr_records s) client) in
      if displaced = Some r
      then (case tab_get (zr_records s) client of
              Some old \<Rightarrow> (s\<lparr>zr_records := tab_insert client (old\<lparr>rec_last_event := now, rec_pane := pane\<rparr>) (zr_records s)\<rparr>, Inr None)
            | None \<Rightarrow> (s, Inr None))
      else if r \<in> zr_retired s then (s, Inl (RetiredRegistration client))
      else
        (let s1 = s\<lparr>zr_records := tab_insert client
               \<lparr>rec_client = client, rec_registration = r, rec_pane = pane, rec_version = version,
                rec_last_event = now, rec_compatible = compatible, rec_next_request = REQUEST_INITIAL\<rparr> (zr_records s)\<rparr>
         in (case displaced of None \<Rightarrow> s1 | Some d \<Rightarrow> s1\<lparr>zr_retired := insert d (zr_retired s1)\<rparr>, Inr displaced)))"

definition client_ids :: "zellij_registry \<Rightarrow> str list" where
  "client_ids s = map fst (zr_records s)"

definition heartbeat :: "str \<Rightarrow> registration_id \<Rightarrow> u64 \<Rightarrow> zellij_registry \<Rightarrow> zellij_registry \<times> (registry_error + unit)" where
  "heartbeat client r now s =
     (case tab_get (zr_records s) client of
        Some old \<Rightarrow>
          if rec_registration old = r
          then (s\<lparr>zr_records := tab_insert client (old\<lparr>rec_last_event := now\<rparr>) (zr_records s)\<rparr>, Inr ())
          else (s, Inl (StaleRegistration client))
      | None \<Rightarrow> (s, Inl (StaleRegistration client)))"

definition check_registration :: "str \<Rightarrow> registration_id \<Rightarrow> zellij_registry \<Rightarrow> registry_error + bridge_record" where
  "check_registration client r s =
     (case tab_get (zr_records s) client of
        Some old \<Rightarrow> if rec_registration old = r then Inr old else Inl (StaleRegistration client)
      | None \<Rightarrow> Inl (StaleRegistration client))"

definition allocate_request ::
  "str \<Rightarrow> zellij_registry \<Rightarrow> zellij_registry \<times> (registry_error + registration_id \<times> bridge_request_id)" where
  "allocate_request client s =
     (case tab_get (zr_records s) client of
        None \<Rightarrow> (s, Inl (StaleRegistration client))
      | Some old \<Rightarrow>
          if \<not> rec_compatible old then (s, Inl (IncompatibleBridge client))
          else (case request_id_next (rec_next_request old) of
                  Inl _ \<Rightarrow> (s, Inl (RequestIdExhausted client))
                | Inr n \<Rightarrow>
                    (s\<lparr>zr_records := tab_insert client (old\<lparr>rec_next_request := n\<rparr>) (zr_records s)\<rparr>,
                     Inr (rec_registration old, rec_next_request old))))"

definition registry_get :: "zellij_registry \<Rightarrow> str \<Rightarrow> bridge_record option" where
  "registry_get s client = tab_get (zr_records s) client"

definition client_for_registration :: "registration_id \<Rightarrow> zellij_registry \<Rightarrow> str option" where
  "client_for_registration r s =
     map_option rec_client (find (\<lambda>old. rec_registration old = r) (tab_vals (zr_records s)))"

definition client_for_pane :: "str \<Rightarrow> zellij_registry \<Rightarrow> bridge_record option" where
  "client_for_pane pane s =
     (case filter (\<lambda>old. rec_pane old = Some pane) (tab_vals (zr_records s)) of
        [] \<Rightarrow> None
      | first # further \<Rightarrow> if further = [] then Some first else None)"

text \<open>Expiry first lists the overdue clients, then removes them one after the other.\<close>

definition lease_expired :: "u64 \<Rightarrow> bridge_record \<Rightarrow> bool" where
  "lease_expired now old \<longleftrightarrow> HEARTBEAT_LEASE_MILLIS < saturating_sub_u64 now (rec_last_event old)"

fun expire_clients ::
  "str list \<Rightarrow> zellij_registry \<Rightarrow> zellij_registry \<times> (str \<times> registration_id) list" where
  "expire_clients [] s = (s, [])"
| "expire_clients (client # cs) s =
     (case tab_get (zr_records s) client of
        None \<Rightarrow> expire_clients cs s
      | Some old \<Rightarrow>
          (case expire_clients cs (s\<lparr>zr_records := tab_remove client (zr_records s),
                  zr_retired := insert (rec_registration old) (zr_retired s)\<rparr>) of
             (s', expired) \<Rightarrow> (s', (client, rec_registration old) # expired)))"

definition expire_leases :: "u64 \<Rightarrow> zellij_registry \<Rightarrow> zellij_registry \<times> (str \<times> registration_id) list" where
  "expire_leases now s = expire_clients (map fst (filter (\<lambda>e. lease_expired now (snd e)) (zr_records s))) s"

definition invalidate_all :: "zellij_registry \<Rightarrow> zellij_registry \<times> (str \<times> registration_id) list" where
  "invalidate_all s =
     (let displaced = map (\<lambda>old. (rec_client old, rec_registration old)) (tab_vals (zr_records s)) in
      (\<lparr>zr_records = [], zr_retired = zr_retired s \<union> set (map snd displaced)\<rparr>, displaced))"

definition remove_registration :: "str \<Rightarrow> registration_id \<Rightarrow> zellij_registry \<Rightarrow> zellij_registry \<times> bool" where
  "remove_registration client r s =
     (case tab_get (zr_records s) client of
        None \<Rightarrow> (s, False)
      | Some old \<Rightarrow>
          if rec_registration old \<noteq> r then (s, False)
          else (\<lparr>zr_records = tab_remove client (zr_records s),
                 zr_retired = insert (rec_registration old) (zr_retired s)\<rparr>, True))"

section \<open>Runs\<close>

datatype registry_call =
    CallRegister str registration_id "str option" str bool u64
  | CallHeartbeat str registration_id u64
  | CallAllocate str
  | CallExpire u64
  | CallInvalidateAll
  | CallRemove str registration_id

text \<open>A call changes the table; an allocation also hands out a request of a registration.\<close>

fun registry_step :: "zellij_registry \<Rightarrow> registry_call \<Rightarrow> zellij_registry \<times> (str \<times> registration_id \<times> bridge_request_id) list" where
  "registry_step s (CallRegister client r pane version compatible now) =
     (fst (register_bridge client r pane version compatible now s), [])"
| "registry_step s (CallHeartbeat client r now) = (fst (heartbeat client r now s), [])"
| "registry_step s (CallAllocate client) =
     (case allocate_request client s of
        (s', Inl _) \<Rightarrow> (s', [])
      | (s', Inr (r, n)) \<Rightarrow> (s', [(client, r, n)]))"
| "registry_step s (CallExpire now) = (fst (expire_leases now s), [])"
| "registry_step s CallInvalidateAll = (fst (invalidate_all s), [])"
| "registry_step s (CallRemove client r) = (fst (remove_registration client r s), [])"

fun registry_run ::
  "zellij_registry \<Rightarrow> registry_call list \<Rightarrow> zellij_registry \<times> (str \<times> registration_id \<times> bridge_request_id) list" where
  "registry_run s [] = (s, [])"
| "registry_run s (c # cs) =
     (case registry_step s c of (s1, out) \<Rightarrow>
      (case registry_run s1 cs of (s2, further) \<Rightarrow> (s2, out @ further)))"

definition active_for :: "zellij_registry \<Rightarrow> str \<Rightarrow> registration_id \<Rightarrow> bool" where
  "active_for s client r \<longleftrightarrow> map_option rec_registration (tab_get (zr_records s) client) = Some r"

section \<open>What a call does to a client\<close>

definition registry_ok :: "zellij_registry \<Rightarrow> bool" where
  "registry_ok s \<longleftrightarrow> tab_ok (zr_records s) \<and> btree.indexed_by rec_client (zr_records s)"

definition numbers_for :: "str \<Rightarrow> registration_id \<Rightarrow> (str \<times> registration_id \<times> bridge_request_id) list \<Rightarrow> nat list" where
  "numbers_for client r out =
     map (\<lambda>e. request_number (snd (snd e))) (filter (\<lambda>e. fst e = client \<and> fst (snd e) = r) out)"

lemma numbers_for_simps [simp]:
  "numbers_for client r [] = []"
  "numbers_for client r ((c, q, n) # out) =
     (if c = client \<and> q = r then request_number n # numbers_for client r out else numbers_for client r out)"
  "numbers_for client r (out @ further) = numbers_for client r out @ numbers_for client r further"
  by (simp_all add: numbers_for_def)

text \<open>
  From one table to the next, the record of a client is kept with its registration and the next
  numbers are handed out; or it goes and its registration is retired; or a registration never
  retired takes its place and starts to count.
\<close>

definition kept :: "bridge_record \<Rightarrow> bridge_record \<Rightarrow> nat list \<Rightarrow> bool" where
  "kept a b ns \<longleftrightarrow> rec_registration b = rec_registration a
     \<and> ns = [request_number (rec_next_request a)..<request_number (rec_next_request b)]
     \<and> request_number (rec_next_request a) \<le> request_number (rec_next_request b)"

definition client_change ::
  "zellij_registry \<Rightarrow> zellij_registry \<Rightarrow> (str \<times> registration_id \<times> bridge_request_id) list \<Rightarrow> str \<Rightarrow> bool" where
  "client_change s s' out c \<longleftrightarrow>
     (\<exists>a b. tab_get (zr_records s) c = Some a \<and> tab_get (zr_records s') c = Some b
        \<and> kept a b (numbers_for c (rec_registration a) out)
        \<and> (\<forall>r. r \<noteq> rec_registration a \<longrightarrow> numbers_for c r out = []))
     \<or> (\<forall>r. numbers_for c r out = [])
       \<and> (\<forall>a. tab_get (zr_records s) c = Some a \<longrightarrow> rec_registration a \<in> zr_retired s')
       \<and> (\<forall>b. tab_get (zr_records s') c = Some b \<longrightarrow>
            rec_registration b \<notin> zr_retired s \<and> rec_next_request b = REQUEST_INITIAL
            \<and> (\<forall>a. tab_get (zr_records s) c = Some a \<longrightarrow> rec_registration a \<noteq> rec_registration b))"

definition evolves :: "zellij_registry \<Rightarrow> zellij_registry \<Rightarrow> (str \<times> registration_id \<times> bridge_request_id) list \<Rightarrow> bool" where
  "evolves s s' out \<longleftrightarrow> registry_ok s' \<and> zr_retired s \<subseteq> zr_retired s' \<and> (\<forall>c. client_change s s' out c)"

lemma kept_same [simp]: "kept a a []"
  by (simp add: kept_def)

lemma same_client: "tab_get (zr_records s') c = tab_get (zr_records s) c \<Longrightarrow> (\<And>r. numbers_for c r out = []) \<Longrightarrow> client_change s s' out c"
  by (cases "tab_get (zr_records s) c") (auto simp: client_change_def)

lemma evolves_refl: "registry_ok s \<Longrightarrow> evolves s s []"
  by (simp add: evolves_def same_client)

lemma registry_put:
  assumes "registry_ok s" "rec_client new = client"
  shows "registry_ok (s\<lparr>zr_records := tab_insert client new (zr_records s)\<rparr>)"
    "tab_get (tab_insert client new (zr_records s)) c = (if c = client then Some new else tab_get (zr_records s) c)"
  using assms btree.indexed_put [of "zr_records s" rec_client new client]
  by (simp_all add: registry_ok_def tab_ok_insert tab_get_insert)

lemma registry_client: "registry_ok s \<Longrightarrow> tab_get (zr_records s) c = Some old \<Longrightarrow> rec_client old = c"
  by (simp add: registry_ok_def btree.indexed_by_def)

lemma registry_retired [simp]: "registry_ok (s\<lparr>zr_retired := x\<rparr>) = registry_ok s"
  by (simp add: registry_ok_def)

lemma update_evolves:
  assumes "registry_ok s" "tab_get (zr_records s) client = Some old" "rec_client new = client"
    and "\<And>c r. numbers_for c r out = (if c = client \<and> r = rec_registration old then ns else [])" "kept old new ns"
  shows "evolves s (s\<lparr>zr_records := tab_insert client new (zr_records s)\<rparr>) out"
proof -
  note put = registry_put [OF assms(1,3)]
  have "client_change s (s\<lparr>zr_records := tab_insert client new (zr_records s)\<rparr>) out c" for c
  proof (cases "c = client")
    case True
    then show ?thesis using put(2) assms(2,4,5) by (simp add: client_change_def)
  qed (simp add: same_client put(2) assms(4))
  then show ?thesis using put(1) by (simp add: evolves_def)
qed

lemma register_evolves:
  assumes "registry_ok s"
  shows "evolves s (fst (register_bridge client r pane version compatible now s)) []"
proof (cases "tab_get (zr_records s) client")
  case None
  show ?thesis
  proof (cases "r \<in> zr_retired s")
    case False
    then show ?thesis
      using None registry_put [OF assms, of _ client]
      by (auto simp: register_bridge_def Let_def evolves_def client_change_def split: option.splits)
  qed (use None assms in \<open>simp add: register_bridge_def evolves_refl\<close>)
next
  case (Some old)
  show ?thesis
  proof (cases "rec_registration old = r")
    case True
    then show ?thesis
      using Some assms registry_client [OF assms Some]
      by (auto simp: register_bridge_def Let_def kept_def intro!: update_evolves [where ns = "[]"])
  next
    case other: False
    show ?thesis
    proof (cases "r \<in> zr_retired s")
      case False
      let ?new = "\<lparr>rec_client = client, rec_registration = r, rec_pane = pane, rec_version = version,
                rec_last_event = now, rec_compatible = compatible, rec_next_request = REQUEST_INITIAL\<rparr>"
      note put = registry_put [OF assms, of ?new client, simplified]
      have "client_change s (s\<lparr>zr_records := tab_insert client ?new (zr_records s),
          zr_retired := insert (rec_registration old) (zr_retired s)\<rparr>) [] c" for c
        by (cases "c = client") (use put(2) Some False other in \<open>auto simp: client_change_def intro: same_client\<close>)
      then show ?thesis
        using Some False other put(1) by (simp add: register_bridge_def Let_def evolves_def subset_insertI)
    qed (use Some other assms in \<open>simp add: register_bridge_def evolves_refl\<close>)
  qed
qed

lemma heartbeat_evolves: "registry_ok s \<Longrightarrow> evolves s (fst (heartbeat client r now s)) []"
  by (auto simp: heartbeat_def evolves_refl kept_def registry_client split: option.split
      intro!: update_evolves [where ns = "[]"])

lemma allocate_evolves: "registry_ok s \<Longrightarrow> registry_step s (CallAllocate client) = (s', out) \<Longrightarrow> evolves s s' out"
  by (auto simp: allocate_request_def evolves_refl kept_def registry_client request_id_next_number
      split: option.splits sum.splits if_splits intro!: update_evolves)

text \<open>Records that go: their registrations are retired.\<close>

lemma drop_evolves:
  assumes "registry_ok s"
    and "\<And>c a. (c, a) \<in> set (zr_records s) \<Longrightarrow> \<not> P (c, a) \<Longrightarrow> rec_registration a \<in> gone"
  shows "evolves s \<lparr>zr_records = filter P (zr_records s), zr_retired = zr_retired s \<union> gone\<rparr> []"
proof -
  let ?t = "filter P (zr_records s)"
  have ok: "tab_ok (zr_records s)" "tab_ok ?t" using assms(1) tab_ok_filter by (auto simp: registry_ok_def)
  have get: "tab_get ?t c = Some b \<longleftrightarrow> tab_get (zr_records s) c = Some b \<and> P (c, b)" for c b
    using ok by (simp add: tab_get_in_set)
  have "client_change s \<lparr>zr_records = ?t, zr_retired = zr_retired s \<union> gone\<rparr> [] c" for c
  proof (cases "tab_get ?t c")
    case None
    then show ?thesis
      using get [of c] assms(2) by (fastforce simp: client_change_def tab_get_in_set [OF ok(1)])
  next
    case (Some b)
    then show ?thesis using get [of c b] by (simp add: same_client)
  qed
  moreover have "btree.indexed_by rec_client ?t"
    using assms(1) get by (simp add: registry_ok_def btree.indexed_by_def)
  ultimately show ?thesis using ok(2) by (simp add: evolves_def registry_ok_def)
qed

lemma expire_entries:
  "distinct (map fst es) \<Longrightarrow> (\<And>e. e \<in> set es \<Longrightarrow> tab_get (zr_records s) (fst e) = Some (snd e))
   \<Longrightarrow> expire_clients (map fst es) s =
     (\<lparr>zr_records = filter (\<lambda>e. fst e \<notin> fst ` set es) (zr_records s),
       zr_retired = zr_retired s \<union> (rec_registration \<circ> snd) ` set es\<rparr>,
      map (\<lambda>e. (fst e, rec_registration (snd e))) es)"
proof (induction es arbitrary: s)
  case (Cons e es)
  let ?s = "s\<lparr>zr_records := tab_remove (fst e) (zr_records s), zr_retired := insert (rec_registration (snd e)) (zr_retired s)\<rparr>"
  have "tab_get (zr_records ?s) (fst f) = Some (snd f)" if "f \<in> set es" for f
    using Cons.prems that by (auto simp: tab_get_remove rev_image_eqI)
  then have "expire_clients (map fst es) ?s =
     (\<lparr>zr_records = filter (\<lambda>e. fst e \<notin> fst ` set es) (zr_records ?s),
       zr_retired = zr_retired ?s \<union> (rec_registration \<circ> snd) ` set es\<rparr>,
      map (\<lambda>e. (fst e, rec_registration (snd e))) es)"
    using Cons.IH [of ?s] Cons.prems(1) by simp
  then show ?case
    using Cons.prems(2) [of e] by (auto simp: tab_remove_def intro!: filter_cong)
qed simp

text \<open>Expiry removes exactly the overdue clients, and lists them in their order.\<close>

lemma expire_leases_eq:
  assumes "registry_ok s"
  shows "expire_leases now s =
    (\<lparr>zr_records = filter (\<lambda>e. \<not> lease_expired now (snd e)) (zr_records s),
      zr_retired = zr_retired s \<union> (rec_registration \<circ> snd) ` set (filter (\<lambda>e. lease_expired now (snd e)) (zr_records s))\<rparr>,
     map (\<lambda>e. (fst e, rec_registration (snd e))) (filter (\<lambda>e. lease_expired now (snd e)) (zr_records s)))"
proof -
  let ?es = "filter (\<lambda>e. lease_expired now (snd e)) (zr_records s)"
  have ok: "tab_ok (zr_records s)" using assms by (simp add: registry_ok_def)
  have d: "distinct (map fst ?es)" using tab_ok_distinct [OF tab_ok_filter [OF ok]] .
  have run: "expire_clients (map fst ?es) s =
     (\<lparr>zr_records = filter (\<lambda>e. fst e \<notin> fst ` set ?es) (zr_records s),
       zr_retired = zr_retired s \<union> (rec_registration \<circ> snd) ` set ?es\<rparr>,
      map (\<lambda>e. (fst e, rec_registration (snd e))) ?es)"
    by (rule expire_entries [OF d]) (simp add: tab_get_in_set [OF ok])
  have "fst e \<in> fst ` set ?es \<longleftrightarrow> lease_expired now (snd e)" if "e \<in> set (zr_records s)" for e
  proof
    assume "fst e \<in> fst ` set ?es"
    then obtain f where "f \<in> set (zr_records s)" "lease_expired now (snd f)" "fst f = fst e" by auto
    then show "lease_expired now (snd e)"
      using that tab_get_in_set [OF ok, of "fst e"] by (metis option.inject prod.collapse)
  qed (use that in auto)
  then have "filter (\<lambda>e. fst e \<notin> fst ` set ?es) (zr_records s) = filter (\<lambda>e. \<not> lease_expired now (snd e)) (zr_records s)"
    by (intro filter_cong) auto
  then show ?thesis by (simp only: expire_leases_def run)
qed

lemma invalidate_all_eq:
  "registry_ok s \<Longrightarrow> invalidate_all s =
    (\<lparr>zr_records = [], zr_retired = zr_retired s \<union> (rec_registration \<circ> snd) ` set (zr_records s)\<rparr>,
     map (\<lambda>e. (fst e, rec_registration (snd e))) (zr_records s))"
  using registry_client by (fastforce simp: invalidate_all_def Let_def tab_vals_def registry_ok_def tab_get_in_set image_comp)

lemma step_evolves:
  assumes "registry_ok s" "registry_step s call = (s', out)"
  shows "evolves s s' out"
proof (cases call)
  case (CallRegister client r pane version compatible now)
  then show ?thesis using assms register_evolves by auto
next
  case (CallHeartbeat client r now)
  then show ?thesis using assms heartbeat_evolves by auto
next
  case (CallAllocate client)
  then show ?thesis using assms allocate_evolves by simp
next
  case (CallExpire now)
  have "evolves s (fst (expire_leases now s)) []"
    unfolding expire_leases_eq [OF assms(1)] fst_conv by (rule drop_evolves [OF assms(1)]) force
  then show ?thesis using assms(2) CallExpire by simp
next
  case CallInvalidateAll
  have "evolves s \<lparr>zr_records = filter (\<lambda>_. False) (zr_records s), zr_retired = zr_retired s \<union> (rec_registration \<circ> snd) ` set (zr_records s)\<rparr> []"
    by (rule drop_evolves [OF assms(1)]) force
  then show ?thesis using assms(2) CallInvalidateAll invalidate_all_eq [OF assms(1)] by simp
next
  case (CallRemove client r)
  have "evolves s (fst (remove_registration client r s)) []"
  proof (cases "tab_get (zr_records s) client")
    case (Some old)
    have "evolves s \<lparr>zr_records = tab_remove client (zr_records s), zr_retired = zr_retired s \<union> {rec_registration old}\<rparr> []"
      unfolding tab_remove_def
      using Some assms(1) by (intro drop_evolves) (auto simp: registry_ok_def tab_get_in_set [symmetric])
    then show ?thesis using Some assms(1) by (auto simp: remove_registration_def evolves_refl)
  qed (simp add: remove_registration_def evolves_refl assms(1))
  then show ?thesis using assms(2) CallRemove by simp
qed

section \<open>Registrations and request numbers over a run\<close>

lemma new_registry_ok: "registry_ok new_registry"
  by (simp add: registry_ok_def new_registry_def btree.indexed_by_def)

lemma active_iff: "active_for s c r \<longleftrightarrow> (\<exists>a. tab_get (zr_records s) c = Some a \<and> rec_registration a = r)"
  by (auto simp: active_for_def)

definition over :: "zellij_registry \<Rightarrow> str \<Rightarrow> registration_id \<Rightarrow> bool" where
  "over s c r \<longleftrightarrow> \<not> active_for s c r \<and> r \<in> zr_retired s"

lemma evolves_over: "evolves s s' out \<Longrightarrow> over s c r \<Longrightarrow> over s' c r \<and> numbers_for c r out = []"
  by (fastforce simp: evolves_def over_def active_iff client_change_def kept_def)

lemma evolves_active: "evolves s s' out \<Longrightarrow> active_for s c r \<Longrightarrow> active_for s' c r \<or> over s' c r"
  by (fastforce simp: evolves_def over_def active_iff client_change_def kept_def)

lemma evolves_silent: "evolves s s' out \<Longrightarrow> \<not> active_for s' c r \<Longrightarrow> numbers_for c r out = []"
  by (fastforce simp: evolves_def active_iff client_change_def kept_def)

lemma run_over:
  "registry_ok s \<Longrightarrow> registry_run s calls = (s', out) \<Longrightarrow> registry_ok s'
    \<and> (over s c r \<longrightarrow> over s' c r \<and> numbers_for c r out = [])
    \<and> (active_for s c r \<longrightarrow> active_for s' c r \<or> over s' c r)"
proof (induction calls arbitrary: s out)
  case (Cons call calls)
  obtain s1 o1 where step: "registry_step s call = (s1, o1)" by fastforce
  obtain o2 where run: "registry_run s1 calls = (s', o2)" and out: "out = o1 @ o2"
    using Cons.prems(2) step by (auto split: prod.splits)
  note ev = step_evolves [OF Cons.prems(1) step]
  then have "registry_ok s1" by (simp add: evolves_def)
  from Cons.IH [OF this run] show ?case
    using evolves_over [OF ev, of c r] evolves_active [OF ev, of c r] out by auto
qed simp

definition first_number :: "zellij_registry \<Rightarrow> str \<Rightarrow> registration_id \<Rightarrow> nat" where
  "first_number s c r =
     (case tab_get (zr_records s) c of
        Some a \<Rightarrow> if rec_registration a = r then request_number (rec_next_request a) else 1
      | None \<Rightarrow> 1)"

lemma evolves_numbers:
  assumes "evolves s s' out" "\<not> over s' c r"
  shows "first_number s c r \<le> first_number s' c r
    \<and> numbers_for c r out = [first_number s c r..<first_number s' c r]"
  using assms
  by (cases "tab_get (zr_records s) c"; cases "tab_get (zr_records s') c")
    (auto simp: evolves_def over_def active_iff client_change_def kept_def first_number_def REQUEST_INITIAL_def dest!: spec [of _ c])

lemma run_numbers:
  "registry_ok s \<Longrightarrow> registry_run s calls = (s', out)
   \<Longrightarrow> numbers_for c r out = [first_number s c r..<first_number s c r + length (numbers_for c r out)]"
proof (induction calls arbitrary: s out)
  case (Cons call calls)
  obtain s1 o1 where step: "registry_step s call = (s1, o1)" by fastforce
  obtain o2 where run: "registry_run s1 calls = (s', o2)" and out: "out = o1 @ o2"
    using Cons.prems(2) step by (auto split: prod.splits)
  note ev = step_evolves [OF Cons.prems(1) step]
  then have ok: "registry_ok s1" by (simp add: evolves_def)
  show ?case
  proof (cases "over s1 c r")
    case True
    then have "numbers_for c r o2 = []" using run_over [OF ok run] by blast
    then show ?thesis using evolves_silent [OF ev, of c r] out True by (simp add: over_def)
  next
    case False
    define k where "k = length (numbers_for c r o2)"
    from Cons.IH [OF ok run] have "numbers_for c r o2 = [first_number s1 c r..<first_number s1 c r + k]"
      by (simp add: k_def)
    moreover note evolves_numbers [OF ev False]
    ultimately have "numbers_for c r out = [first_number s c r..<first_number s1 c r + k]"
      using out upt_add_eq_append [of "first_number s c r" "first_number s1 c r" k] by simp
    then show ?thesis using evolves_numbers [OF ev False] by simp
  qed
qed simp

lemma registry_run_append:
  "registry_run s (a @ b) =
     (case registry_run s a of (s1, out) \<Rightarrow> case registry_run s1 b of (s2, further) \<Rightarrow> (s2, out @ further))"
  by (induction a arbitrary: s) (simp_all add: split_def)

lemma run_ok: "registry_ok (fst (registry_run new_registry calls))"
  using run_over [OF new_registry_ok, of calls] by (metis prod.collapse)

text \<open>
  C38: the request numbers of a registration. Over any run of the table the requests allocated to one
  registration of one client carry the numbers 1, 2, 3 and so on without a gap or a repetition,
  whatever is registered again, expires, is removed or is invalidated in between.
\<close>

theorem requests_numbered:
  "numbers_for client r (snd (registry_run new_registry calls))
     = [1..<1 + length (numbers_for client r (snd (registry_run new_registry calls)))]"
proof -
  have "first_number new_registry client r = 1" by (simp add: first_number_def new_registry_def)
  then show ?thesis using run_numbers [OF new_registry_ok, of calls] by (metis prod.collapse)
qed

text \<open>
  C39: a registration that ended does not come back. When a registration was active for a client and
  no longer is, because it was superseded, expired, removed or invalidated, no later call makes it
  active for that client again, and it is given no further request.
\<close>

theorem registration_not_reactivated:
  assumes "active_for (fst (registry_run new_registry past)) client r"
    and "\<not> active_for (fst (registry_run new_registry (past @ later))) client r"
  shows "\<not> active_for (fst (registry_run new_registry (past @ later @ rest))) client r
    \<and> numbers_for client r (snd (registry_run new_registry (past @ later @ rest)))
        = numbers_for client r (snd (registry_run new_registry (past @ later)))"
proof -
  obtain s1 o1 where r1: "registry_run new_registry past = (s1, o1)" by fastforce
  obtain s2 o2 where r2: "registry_run s1 later = (s2, o2)" by fastforce
  obtain s3 o3 where r3: "registry_run s2 rest = (s3, o3)" by fastforce
  have ok: "registry_ok s1" using run_ok [of past] by (simp add: r1)
  have "over s2 client r" using run_over [OF ok r2, of client r] assms by (auto simp: r1 r2 registry_run_append)
  then have "over s3 client r \<and> numbers_for client r o3 = []"
    using run_over [of s2 rest] run_over [OF ok r2] r3 by blast
  then show ?thesis by (simp add: r1 r2 r3 registry_run_append over_def)
qed

text \<open>
  Heartbeat leases are exact: expiry takes away just the records whose last event is more than
  fifteen seconds old, tells their clients and registrations in the order of the table, and leaves
  every other record as it is.
\<close>

theorem expire_leases_exact:
  assumes "s = fst (registry_run new_registry calls)" "expire_leases now s = (s', expired)"
  shows "registry_get s' client =
      (case registry_get s client of Some a \<Rightarrow> if lease_expired now a then None else Some a | None \<Rightarrow> None)
    \<and> ((client, r) \<in> set expired \<longleftrightarrow> (\<exists>a. registry_get s client = Some a \<and> lease_expired now a \<and> rec_registration a = r))
    \<and> sorted_wrt (<) (map fst expired)"
proof -
  have ok: "registry_ok s" and t: "tab_ok (zr_records s)" using run_ok [of calls] assms(1) by (auto simp: registry_ok_def)
  have s': "zr_records s' = tab_retain (\<lambda>a. \<not> lease_expired now a) (zr_records s)"
    and e: "expired = map (\<lambda>e. (fst e, rec_registration (snd e))) (filter (\<lambda>e. lease_expired now (snd e)) (zr_records s))"
    using assms(2) expire_leases_eq [OF ok, of now] by (auto simp: tab_retain_def)
  have "map fst expired = map fst (filter (\<lambda>e. lease_expired now (snd e)) (zr_records s))" by (simp add: e comp_def)
  then have "sorted_wrt (<) (map fst expired)" using tab_ok_filter [OF t] by (simp add: tab_ok_def)
  moreover have "registry_get s' client =
      (case registry_get s client of Some a \<Rightarrow> if lease_expired now a then None else Some a | None \<Rightarrow> None)"
    by (simp add: registry_get_def s' tab_get_retain [OF t] split: option.split)
  moreover have "(client, r) \<in> set expired \<longleftrightarrow>
      (\<exists>a. registry_get s client = Some a \<and> lease_expired now a \<and> rec_registration a = r)"
    by (auto simp: e registry_get_def tab_get_in_set [OF t] image_iff)
  ultimately show ?thesis by blast
qed

text \<open>A pane is resolved only when one active client claims it.\<close>

lemma filter_singleton: "distinct xs \<Longrightarrow> filter P xs = [x] \<longleftrightarrow> (\<forall>y. y \<in> set xs \<and> P y \<longleftrightarrow> y = x)"
proof
  assume d: "distinct xs" and all: "\<forall>y. y \<in> set xs \<and> P y \<longleftrightarrow> y = x"
  then have "set (filter P xs) = {x}" by auto
  moreover have "distinct (filter P xs)" using d by simp
  ultimately show "filter P xs = [x]" by (cases "filter P xs") (auto simp: subset_singleton_iff)
next
  assume "filter P xs = [x]"
  then have "set (filter P xs) = {x}" by simp
  then show "\<forall>y. y \<in> set xs \<and> P y \<longleftrightarrow> y = x" by auto
qed

lemma client_for_pane_unique:
  assumes "registry_ok s"
  shows "client_for_pane pane s = Some a \<longleftrightarrow>
     (\<forall>c b. registry_get s c = Some b \<and> rec_pane b = Some pane \<longleftrightarrow> c = rec_client a \<and> b = a)"
proof -
  let ?t = "zr_records s" and ?P = "\<lambda>e :: str \<times> bridge_record. rec_pane (snd e) = Some pane"
  have t: "tab_ok ?t" using assms by (simp add: registry_ok_def)
  have d: "distinct ?t" using tab_ok_distinct [OF t] by (simp add: distinct_map)
  have "client_for_pane pane s = Some a \<longleftrightarrow> map snd (filter ?P ?t) = [a]"
    by (auto simp: client_for_pane_def tab_vals_def filter_map comp_def split: list.split)
  also have "\<dots> \<longleftrightarrow> filter ?P ?t = [(rec_client a, a)]"
  proof
    assume "map snd (filter ?P ?t) = [a]"
    then obtain c where c: "filter ?P ?t = [(c, a)]" by (auto simp: map_eq_Cons_conv)
    then have "(c, a) \<in> set (filter ?P ?t)" by (simp only: list.set_intros)
    then have "(c, a) \<in> set ?t" by simp
    then show "filter ?P ?t = [(rec_client a, a)]"
      using c registry_client [OF assms, of c a] by (simp add: tab_get_in_set [OF t])
  qed simp
  also have "\<dots> \<longleftrightarrow> (\<forall>c b. (c, b) \<in> set ?t \<and> rec_pane b = Some pane \<longleftrightarrow> c = rec_client a \<and> b = a)"
    unfolding filter_singleton [OF d] by auto
  finally show ?thesis by (simp add: registry_get_def tab_get_in_set [OF t])
qed

section \<open>Samples\<close>

definition sample_calls :: "registry_call list" where
  "sample_calls = [CallRegister [0x61] (RegistrationId 1) None [] True 1000, CallAllocate [0x61], CallAllocate [0x61],
     CallRegister [0x61] (RegistrationId 2) None [] True 1000]"

theorem registration_not_reactivated_witness:
  "\<not> active_for (fst (registry_run new_registry (sample_calls @ [CallRegister [0x61] (RegistrationId 1) None [] True 2000]))) [0x61] (RegistrationId 1)"
proof -
  have "active_for (fst (registry_run new_registry (take 3 sample_calls))) [0x61] (RegistrationId 1)"
    "\<not> active_for (fst (registry_run new_registry (take 3 sample_calls @ drop 3 sample_calls))) [0x61] (RegistrationId 1)"
    by (simp_all add: sample_calls_def new_registry_def register_bridge_def allocate_request_def active_for_def
        tab_get_def REQUEST_INITIAL_def Let_def)
  from registration_not_reactivated [OF this, of "[CallRegister [0x61] (RegistrationId 1) None [] True 2000]"]
  show ?thesis by (simp add: sample_calls_def)
qed

end
