(* ===== verification/Zellij_Capture.thy ===== *)
theory Zellij_Capture
  imports Bridge_Frame Ordered_Table
begin

text \<open>
  The capture table of the Zellij adapter, \<open>muxe-adapter-zellij/src/capture.rs\<close>: for each client at
  most one menu owns or acquires the input capture.
\<close>

section \<open>The table\<close>

record capture_record =
  cr_ui_session :: ui_session_id
  cr_lease :: capture_lease_id
  cr_prior_mode :: str
  cr_ready :: bool

datatype client_capture =
    CaptureIdle
  | CaptureBeginning ui_session_id capture_lease_id
  | CaptureHeld capture_record

datatype capture_error = CaptureBusy | NotCaptured | StaleLease

type_synonym capture_table = "(str, client_capture) table"

definition capture_of :: "capture_table \<Rightarrow> str \<Rightarrow> client_capture" where
  "capture_of t client = (case tab_get t client of Some c \<Rightarrow> c | None \<Rightarrow> CaptureIdle)"

definition invalidate_client :: "str \<Rightarrow> capture_table \<Rightarrow> capture_table \<times> client_capture option" where
  "invalidate_client client t = (tab_remove client t, tab_get t client)"

definition invalidate_all_clients :: "capture_table \<Rightarrow> capture_table" where
  "invalidate_all_clients t = []"

definition captured_leases :: "capture_table \<Rightarrow> (str \<times> capture_lease_id) list" where
  "captured_leases t =
     List.map_filter (\<lambda>e. case snd e of CaptureHeld r \<Rightarrow> Some (fst e, cr_lease r) | _ \<Rightarrow> None) t"

definition capture_begin ::
  "str \<Rightarrow> ui_session_id \<Rightarrow> capture_lease_id \<Rightarrow> capture_table \<Rightarrow> capture_table \<times> (capture_error + unit)" where
  "capture_begin client ui lease t =
     (if capture_of t client \<noteq> CaptureIdle then (t, Inl CaptureBusy)
      else (tab_insert client (CaptureBeginning ui lease) t, Inr ()))"

definition capture_confirm ::
  "str \<Rightarrow> capture_lease_id \<Rightarrow> str \<Rightarrow> capture_table \<Rightarrow> capture_table \<times> (capture_error + unit)" where
  "capture_confirm client lease prior t =
     (case tab_get t client of
        Some (CaptureBeginning ui pending) \<Rightarrow>
          if pending = lease
          then (tab_insert client (CaptureHeld \<lparr>cr_ui_session = ui, cr_lease = lease, cr_prior_mode = prior, cr_ready = True\<rparr>) t, Inr ())
          else (t, Inl StaleLease)
      | Some (CaptureHeld _) \<Rightarrow> (t, Inl StaleLease)
      | _ \<Rightarrow> (t, Inl NotCaptured))"

definition capture_release ::
  "str \<Rightarrow> capture_lease_id \<Rightarrow> bool \<Rightarrow> capture_table \<Rightarrow> capture_table \<times> (capture_error + str option)" where
  "capture_release client lease still_locked t =
     (case tab_get t client of
        Some (CaptureHeld r) \<Rightarrow>
          if cr_lease r = lease
          then (tab_insert client CaptureIdle t, Inr (if still_locked then Some (cr_prior_mode r) else None))
          else (t, Inl StaleLease)
      | Some (CaptureBeginning ui pending) \<Rightarrow>
          if pending = lease then (tab_insert client CaptureIdle t, Inr None) else (t, Inl StaleLease)
      | _ \<Rightarrow> (t, Inl NotCaptured))"

section \<open>Runs\<close>

datatype capture_call =
    CallBegin str ui_session_id capture_lease_id
  | CallConfirm str capture_lease_id str
  | CallRelease str capture_lease_id bool
  | CallInvalidate str

text \<open>What a call did: a capture begun, confirmed, given back (with the mode to restore) or dropped.\<close>

datatype capture_note =
    Begun str capture_lease_id
  | Confirmed str capture_lease_id str
  | GivenBack str capture_lease_id "str option"
  | Dropped str

fun capture_step :: "capture_table \<Rightarrow> capture_call \<Rightarrow> capture_table \<times> capture_note list" where
  "capture_step t (CallBegin client ui lease) =
     (case capture_begin client ui lease t of (t', r) \<Rightarrow> (t', if r = Inr () then [Begun client lease] else []))"
| "capture_step t (CallConfirm client lease prior) =
     (case capture_confirm client lease prior t of (t', r) \<Rightarrow> (t', if r = Inr () then [Confirmed client lease prior] else []))"
| "capture_step t (CallRelease client lease still_locked) =
     (case capture_release client lease still_locked t of
        (t', Inr restore) \<Rightarrow> (t', [GivenBack client lease restore])
      | (t', Inl _) \<Rightarrow> (t', []))"
| "capture_step t (CallInvalidate client) = (fst (invalidate_client client t), [Dropped client])"

fun capture_run :: "capture_table \<Rightarrow> capture_call list \<Rightarrow> capture_table \<times> capture_note list" where
  "capture_run t [] = (t, [])"
| "capture_run t (c # cs) =
     (case capture_step t c of (t1, notes) \<Rightarrow>
      (case capture_run t1 cs of (t2, further) \<Rightarrow> (t2, notes @ further)))"

section \<open>The owner of a client\<close>

text \<open>
  The specification: what one client may see. A capture begins on a free client, is confirmed by its
  own lease, and ends by its own lease or by being dropped; a mode is given back only by the lease
  that was confirmed with it.
\<close>

datatype lease_owner = Free | Acquiring capture_lease_id | Owning capture_lease_id str

fun owner_of :: "client_capture \<Rightarrow> lease_owner" where
  "owner_of CaptureIdle = Free"
| "owner_of (CaptureBeginning ui lease) = Acquiring lease"
| "owner_of (CaptureHeld r) = Owning (cr_lease r) (cr_prior_mode r)"

fun note_client :: "capture_note \<Rightarrow> str" where
  "note_client (Begun c _) = c"
| "note_client (Confirmed c _ _) = c"
| "note_client (GivenBack c _ _) = c"
| "note_client (Dropped c) = c"

fun owner_step :: "lease_owner \<Rightarrow> capture_note \<Rightarrow> lease_owner option" where
  "owner_step Free (Begun _ lease) = Some (Acquiring lease)"
| "owner_step (Acquiring lease) (Confirmed _ l prior) = (if l = lease then Some (Owning lease prior) else None)"
| "owner_step (Acquiring lease) (GivenBack _ l None) = (if l = lease then Some Free else None)"
| "owner_step (Owning lease prior) (GivenBack _ l restore) =
     (if l = lease \<and> (restore = None \<or> restore = Some prior) then Some Free else None)"
| "owner_step _ (Dropped _) = Some Free"
| "owner_step _ _ = None"

fun owner_steps :: "lease_owner \<Rightarrow> capture_note list \<Rightarrow> lease_owner option" where
  "owner_steps w [] = Some w"
| "owner_steps w (n # ns) = (case owner_step w n of None \<Rightarrow> None | Some w' \<Rightarrow> owner_steps w' ns)"

lemma owner_steps_append:
  "owner_steps w (a @ b) = (case owner_steps w a of None \<Rightarrow> None | Some w' \<Rightarrow> owner_steps w' b)"
  by (induction a arbitrary: w) (simp_all split: option.split)

lemma capture_of_insert [simp]:
  "tab_ok t \<Longrightarrow> capture_of (tab_insert client c t) client' = (if client' = client then c else capture_of t client')"
  by (simp add: capture_of_def tab_get_insert)

lemma capture_of_remove [simp]:
  "capture_of (tab_remove client t) client' = (if client' = client then CaptureIdle else capture_of t client')"
  by (simp add: capture_of_def tab_get_remove)

lemma capture_step_ok: "tab_ok t \<Longrightarrow> tab_ok (fst (capture_step t c))"
  by (cases c) (simp_all add: capture_begin_def capture_confirm_def capture_release_def invalidate_client_def
      tab_ok_insert tab_ok_remove split: option.split client_capture.split)

lemma capture_step_owner:
  assumes "tab_ok t" "capture_step t call = (t', notes)"
  shows "owner_steps (owner_of (capture_of t client)) (filter (\<lambda>n. note_client n = client) notes)
    = Some (owner_of (capture_of t' client))"
  using assms
  by (cases call)
    (auto simp: capture_begin_def capture_confirm_def capture_release_def invalidate_client_def capture_of_def
      tab_get_insert tab_get_remove split: option.splits client_capture.splits if_splits)

text \<open>
  C40: one owner for each client. Whatever is asked of the table, what it does for each client is a
  run of the ownership specification, which ends in the owner the table shows: captures never
  overlap, only the lease that is being set up can be confirmed, only the current lease ends a
  capture, and a mode is given back at most once and only to the lease confirmed with it.
\<close>

theorem capture_refines_owner:
  "owner_steps Free (filter (\<lambda>n. note_client n = client) (snd (capture_run [] calls)))
    = Some (owner_of (capture_of (fst (capture_run [] calls)) client))"
proof -
  have "owner_steps (owner_of (capture_of t client)) (filter (\<lambda>n. note_client n = client) (snd (capture_run t calls)))
    = Some (owner_of (capture_of (fst (capture_run t calls)) client))" if "tab_ok t" for t
    using that
  proof (induction calls arbitrary: t)
    case (Cons call calls)
    obtain t1 ns where step: "capture_step t call = (t1, ns)" by fastforce
    have "tab_ok t1" using capture_step_ok [OF Cons.prems, of call] step by simp
    from Cons.IH [OF this] capture_step_owner [OF Cons.prems step, of client] show ?case
      by (simp add: step split_def owner_steps_append)
  qed simp
  from this [of "[]"] show ?thesis by (simp add: capture_of_def)
qed

text \<open>Leases to renew are those of the captures in force.\<close>

lemma captured_leases_iff:
  assumes "tab_ok t"
  shows "(client, lease) \<in> set (captured_leases t) \<longleftrightarrow> (\<exists>prior. owner_of (capture_of t client) = Owning lease prior)"
proof -
  have "(client, lease) \<in> set (captured_leases t) \<longleftrightarrow> (\<exists>r. tab_get t client = Some (CaptureHeld r) \<and> cr_lease r = lease)"
  proof
    assume "(client, lease) \<in> set (captured_leases t)"
    then obtain c where "(client, c) \<in> set t" "(case c of CaptureHeld r \<Rightarrow> Some (client, cr_lease r) | _ \<Rightarrow> None) = Some (client, lease)"
      by (auto simp: captured_leases_def List.map_filter_def split: client_capture.splits)
    then show "\<exists>r. tab_get t client = Some (CaptureHeld r) \<and> cr_lease r = lease"
      by (auto simp: tab_get_in_set [OF assms] split: client_capture.splits)
  next
    assume "\<exists>r. tab_get t client = Some (CaptureHeld r) \<and> cr_lease r = lease"
    then obtain r where "(client, CaptureHeld r) \<in> set t" "cr_lease r = lease"
      by (auto simp: tab_get_in_set [OF assms])
    then show "(client, lease) \<in> set (captured_leases t)"
      by (force simp: captured_leases_def List.map_filter_def)
  qed
  also have "\<dots> \<longleftrightarrow> (\<exists>prior. owner_of (capture_of t client) = Owning lease prior)"
    by (auto simp: capture_of_def split: option.splits elim!: owner_of.elims)
  finally show ?thesis .
qed

end
