(* ===== verification/Zellij_Execution.thy ===== *)
theory Zellij_Execution
  imports Zellij_Capture Menu_Session
begin

text \<open>
  Executions of the Zellij adapter, \<open>muxe-adapter-zellij/src/adapter.rs\<close>: an accepted execution and
  the host requests that settle it, the aggregate of their outcomes, and the terminal completion.
  Fixed diagnostic texts are the constructors of \<open>diagnostic\<close>; \<open>u64\<close> counts of the commands of an
  execution in memory are natural numbers.
\<close>

section \<open>Records\<close>

record request_provenance =
  pv_request_id :: bridge_request_id
  pv_registration :: registration_id

datatype outcome_rank = RankFailed | RankUnknown

datatype adapter_error_kind =
    KindUnavailable | KindInvalidRequest | KindContextUnavailable | KindIncompatible | KindDispatchFailed
  | KindOutcomeUnknown | KindCaptureLost | KindCancelUnsupported | KindUnsupported | KindShutdown

datatype diagnostic =
    DetailText str
  | NotSentConnectionChanged | NotSentNoPayload | NotSentEncoding | WriteFailed | NoReleaseInTime
  | EventPipeFailed | EventPipeFailedSent | ReplacedRegistration | HeartbeatExpired | HeartbeatSilence str
  | SubscriptionReplaced | SuspendedInFlight | SuspendedQueued | SuspendedSent | ResumedSent | ResumeFailedSent
  | ShutdownInFlight | ShutdownQueued | ShutdownSent | EventChannelChanged | CounterUsedUp | RestartFailed
  | QueuedNoPayload | BridgeIncompatible | TransportSuspended | ReservedExecution | NoCommands | TooManyCommands
  | AdapterSuspended | AdapterShutDown | NoActiveBridge str | IncompatibleClient str | StaleOrigin
  | NoCoverage | RoundChanged | RoundReplaced | NotCovered | HealthQueueFull | NoRandomness
  | CaptureTaken capture_error | CaptureLostInSetup | CaptureUnconfirmed | NotSuspended | LeaseInactive | LeaseOutdated

datatype adapter_error = AdapterError adapter_error_kind diagnostic

datatype dispatch_completion =
    CompletionSucceeded execution_id
  | CompletionFailed execution_id adapter_error
  | CompletionUnknown execution_id adapter_error

fun dispatch_completion_execution :: "dispatch_completion \<Rightarrow> execution_id" where
  "dispatch_completion_execution (CompletionSucceeded e) = e"
| "dispatch_completion_execution (CompletionFailed e _) = e"
| "dispatch_completion_execution (CompletionUnknown e _) = e"

text \<open>Identities are ordered by their numbers, as keys of the tables.\<close>

instantiation execution_id :: linorder
begin

fun less_eq_execution_id :: "execution_id \<Rightarrow> execution_id \<Rightarrow> bool" where
  "less_eq_execution_id (ExecutionId a) (ExecutionId b) = (a \<le> b)"

fun less_execution_id :: "execution_id \<Rightarrow> execution_id \<Rightarrow> bool" where
  "less_execution_id (ExecutionId a) (ExecutionId b) = (a < b)"

instance
proof
  fix x y z :: execution_id
  show "(x < y) = (x \<le> y \<and> \<not> y \<le> x)" by (cases x; cases y) auto
  show "x \<le> x" by (cases x) simp
  show "x \<le> y \<Longrightarrow> y \<le> z \<Longrightarrow> x \<le> z" by (cases x; cases y; cases z) simp
  show "x \<le> y \<Longrightarrow> y \<le> x \<Longrightarrow> x = y" by (cases x; cases y) simp
  show "x \<le> y \<or> y \<le> x" by (cases x; cases y) auto
qed

end

instantiation bridge_request_id :: linorder
begin

fun less_eq_bridge_request_id :: "bridge_request_id \<Rightarrow> bridge_request_id \<Rightarrow> bool" where
  "less_eq_bridge_request_id (BridgeRequestId a) (BridgeRequestId b) = (a \<le> b)"

fun less_bridge_request_id :: "bridge_request_id \<Rightarrow> bridge_request_id \<Rightarrow> bool" where
  "less_bridge_request_id (BridgeRequestId a) (BridgeRequestId b) = (a < b)"

instance
proof
  fix x y z :: bridge_request_id
  show "(x < y) = (x \<le> y \<and> \<not> y \<le> x)" by (cases x; cases y) auto
  show "x \<le> x" by (cases x) simp
  show "x \<le> y \<Longrightarrow> y \<le> z \<Longrightarrow> x \<le> z" by (cases x; cases y; cases z) simp
  show "x \<le> y \<Longrightarrow> y \<le> x \<Longrightarrow> x = y" by (cases x; cases y) simp
  show "x \<le> y \<or> y \<le> x" by (cases x; cases y) auto
qed

end

record execution_record =
  xr_execution :: execution_id
  xr_requests :: "(bridge_request_id, request_provenance option) table"
  xr_total :: nat
  xr_worst :: "(outcome_rank \<times> adapter_error) option"
  xr_settled :: nat

definition new_execution :: "execution_id \<Rightarrow> bridge_request_id list \<Rightarrow> execution_record" where
  "new_execution execution ids =
     \<lparr>xr_execution = execution, xr_requests = foldl (\<lambda>t n. tab_insert n None t) [] ids,
      xr_total = length ids, xr_worst = None, xr_settled = 0\<rparr>"

text \<open>Noting an outcome also tells whether it was the last one.\<close>

definition note_success :: "execution_record \<Rightarrow> execution_record \<times> bool" where
  "note_success x = (let x' = x\<lparr>xr_settled := xr_settled x + 1\<rparr> in (x', xr_settled x' = xr_total x'))"

definition note_failure :: "outcome_rank \<Rightarrow> adapter_error \<Rightarrow> execution_record \<Rightarrow> execution_record \<times> bool" where
  "note_failure rank error x =
     (let worse = (case xr_worst x of
                     None \<Rightarrow> True
                   | Some (RankFailed, _) \<Rightarrow> rank = RankUnknown
                   | Some (RankUnknown, _) \<Rightarrow> False);
          x' = (if worse then x\<lparr>xr_worst := Some (rank, error)\<rparr> else x)\<lparr>xr_settled := xr_settled x + 1\<rparr>
      in (x', xr_settled x' = xr_total x'))"

definition terminal_of :: "execution_record \<Rightarrow> dispatch_completion" where
  "terminal_of x =
     (case xr_worst x of
        None \<Rightarrow> CompletionSucceeded (xr_execution x)
      | Some (RankFailed, error) \<Rightarrow> CompletionFailed (xr_execution x) error
      | Some (RankUnknown, error) \<Rightarrow> CompletionUnknown (xr_execution x) error)"

definition note_outcome :: "(outcome_rank \<times> adapter_error) option \<Rightarrow> execution_record \<Rightarrow> execution_record \<times> bool" where
  "note_outcome outcome x = (case outcome of None \<Rightarrow> note_success x | Some (rank, error) \<Rightarrow> note_failure rank error x)"

type_synonym live_executions = "(execution_id, execution_record) table"

definition settle_slot ::
  "execution_id \<Rightarrow> bridge_request_id \<Rightarrow> (outcome_rank \<times> adapter_error) option \<Rightarrow> live_executions
   \<Rightarrow> live_executions \<times> dispatch_completion option" where
  "settle_slot execution slot outcome live =
     (case tab_get live execution of
        None \<Rightarrow> (live, None)
      | Some x \<Rightarrow>
          if \<not> tab_has (xr_requests x) slot then (live, None)
          else (case note_outcome outcome (x\<lparr>xr_requests := tab_remove slot (xr_requests x)\<rparr>) of
                  (x', done) \<Rightarrow>
                    if done then (tab_remove execution live, Some (terminal_of x'))
                    else (tab_insert execution x' live, None)))"

definition settle_any_slot ::
  "execution_id \<Rightarrow> (outcome_rank \<times> adapter_error) option \<Rightarrow> live_executions
   \<Rightarrow> live_executions \<times> dispatch_completion option" where
  "settle_any_slot execution outcome live =
     (case tab_get live execution of
        None \<Rightarrow> (live, None)
      | Some x \<Rightarrow> (case xr_requests x of [] \<Rightarrow> (live, None) | (slot, _) # _ \<Rightarrow> settle_slot execution slot outcome live))"

text \<open>All sent requests that match are settled as unknown, execution by execution.\<close>

fun note_unknown :: "nat \<Rightarrow> adapter_error \<Rightarrow> execution_record \<times> bool \<Rightarrow> execution_record \<times> bool" where
  "note_unknown 0 error r = r"
| "note_unknown (Suc n) error (x, _) = note_unknown n error (note_failure RankUnknown error x)"

definition settle_record ::
  "(request_provenance \<Rightarrow> bool) \<Rightarrow> adapter_error \<Rightarrow> execution_record \<Rightarrow> execution_record \<times> bool" where
  "settle_record matches error x =
     (let matched = map fst (filter (\<lambda>e. case snd e of None \<Rightarrow> False | Some p \<Rightarrow> matches p) (xr_requests x)) in
      (case note_unknown (length matched) error
              (x\<lparr>xr_requests := filter (\<lambda>e. fst e \<notin> set matched) (xr_requests x)\<rparr>, False) of
         (x', done) \<Rightarrow> (x', 0 < length matched \<and> done)))"

definition settle_matching ::
  "(request_provenance \<Rightarrow> bool) \<Rightarrow> adapter_error \<Rightarrow> live_executions \<Rightarrow> live_executions \<times> dispatch_completion list" where
  "settle_matching matches error live =
     (let settled = map (\<lambda>e. (fst e, settle_record matches error (snd e))) live in
      (map (\<lambda>e. (fst e, fst (snd e))) (filter (\<lambda>e. \<not> snd (snd e)) settled),
       map (\<lambda>e. terminal_of (fst (snd e))) (filter (\<lambda>e. snd (snd e)) settled)))"

end
