(* ===== verification/Zellij_Adapter.thy ===== *)
theory Zellij_Adapter
  imports Zellij_Registry Zellij_Capture Zellij_Execution
begin

text \<open>
  The dispatch side of the Zellij adapter, \<open>muxe-adapter-zellij/src/adapter.rs\<close>: the queue of each
  client, the single request in flight, and what happens to executions, captures and replies when a
  registration or the transport is lost; and the coverage rounds that make the adapter available.

  Every task of the adapter (event loop, dispatch, timers) is a handler over one state, and a handler
  is one step: the locks of the source make the parts of a handler that matter here exclusive. What
  the adapter sends and returns is appended to \<open>za_out\<close>. Results of host calls (pipes, the readiness
  gate, the health queue) are answers of the environment, asked for in order.
\<close>

section \<open>State\<close>

record coverage_owner =
  co_resume_epoch :: u64
  co_channel :: u64

record covered_incarnation =
  ci_owner :: coverage_owner
  ci_id :: nonce

record pending_coverage =
  pg_resume_epoch :: u64
  pg_channel :: u64
  pg_members :: "str list"

record 'c queued_item =
  qi_execution :: "execution_id option"
  qi_slot :: "bridge_request_id option"
  qi_incarnation :: "covered_incarnation option"
  qi_client :: str
  qi_payload :: "('c, unit) zellij_request option"

record in_flight =
  fl_request :: request_provenance
  fl_generation :: channel_generation
  fl_execution :: "execution_id option"
  fl_slot :: "bridge_request_id option"
  fl_settled :: bool

datatype 'c adapter_effect =
    OutLine "('c, unit) pipe_request" bool
  | OutCompleted dispatch_completion
  | OutWaiter dispatch_completion
  | OutUnhealthy "str option" adapter_error
  | OutHealthy nonce
  | OutCaptureLost "str option" capture_lease_id capture_lost_reason
  | OutOrigin ui_session_id "zellij_origin option"
  | OutCaptureReply capture_lease_id str
  | OutRespawnRequest | OutRespawnEvent channel_generation | OutPark
  | OutAccepted execution_id
  | OutRefused adapter_error

record 'c adapter =
  za_registry :: zellij_registry
  za_cursor :: "str option"
  za_pending_origin :: "(str, request_provenance option) table"
  za_captures :: capture_table
  za_queues :: "(str, 'c queued_item list) table"
  za_in_flight :: "in_flight option"
  za_live :: live_executions
  za_close_waiters :: "execution_id set"
  za_pending_capture :: "(nonce, str \<times> request_provenance option) table"
  za_pane_claims :: "(str, str) table"
  za_pending_leases :: "(str, str \<times> registration_id) table"
  za_snapshots :: "(str, zellij_origin) table"
  za_generation :: channel_generation
  za_next_local :: u64
  za_quiescing :: bool
  za_shutdown :: bool
  za_suspended :: bool
  za_resume_epoch :: u64
  za_register_epoch :: "(str, u64 \<times> u64) table"
  za_incarnation :: "covered_incarnation option"
  za_startup :: "nonce option"
  za_pending_coverage :: "pending_coverage option"
  za_success :: "str list option"
  za_calls :: nat
  za_out :: "'c adapter_effect list"

text \<open>
  What the environment answers during a step: the result of each host call, the install epoch of the
  event channel, the attached clients, random bytes and the clock; the JSON codec of the pipes and the
  identity this adapter was compiled with.
\<close>

record 'c environment =
  en_ok :: "nat \<Rightarrow> bool"
  en_epoch :: "u64 option"
  en_members :: "str list option"
  en_random :: "nonce option"
  en_now :: u64
  en_json :: "('c, unit) pipe_request \<Rightarrow> str + str"
  en_parse :: "str \<Rightarrow> str + unit pipe_event"
  en_identity :: bridge_identity

definition call_ok :: "'c environment \<Rightarrow> 'c adapter \<Rightarrow> bool \<times> 'c adapter" where
  "call_ok env s = (en_ok env (za_calls s), s\<lparr>za_calls := za_calls s + 1\<rparr>)"

definition out_now :: "'c adapter_effect \<Rightarrow> 'c adapter \<Rightarrow> 'c adapter" where
  "out_now fx s = s\<lparr>za_out := za_out s @ [fx]\<rparr>"

section \<open>Health events\<close>

definition LOCAL_EXECUTION_CEILING :: u64 where
  "LOCAL_EXECUTION_CEILING = push_bit 63 1"

fun is_local :: "execution_id \<Rightarrow> bool" where
  "is_local (ExecutionId n) \<longleftrightarrow> LOCAL_EXECUTION_CEILING \<le> n"

definition publish_event :: "'c adapter_effect \<Rightarrow> 'c adapter \<Rightarrow> 'c adapter" where
  "publish_event fx s = (if za_quiescing s then s else out_now fx s)"

definition emit_completed :: "dispatch_completion \<Rightarrow> 'c adapter \<Rightarrow> 'c adapter" where
  "emit_completed c s =
     (let e = dispatch_completion_execution c in
      if is_local e
      then (if e \<in> za_close_waiters s
            then out_now (OutWaiter c) (s\<lparr>za_close_waiters := za_close_waiters s - {e}\<rparr>)
            else s)
      else publish_event (OutCompleted c) s)"

definition emit_terminal :: "dispatch_completion option \<Rightarrow> 'c adapter \<Rightarrow> 'c adapter" where
  "emit_terminal t s = (case t of None \<Rightarrow> s | Some c \<Rightarrow> emit_completed c s)"

definition scope_for_client :: "str \<Rightarrow> str" where
  "scope_for_client client = lit ''zellij-client:'' @ client"

definition unhealthy :: "str option \<Rightarrow> adapter_error_kind \<Rightarrow> diagnostic \<Rightarrow> 'c adapter \<Rightarrow> 'c adapter" where
  "unhealthy client kind d = publish_event (OutUnhealthy (map_option scope_for_client client) (AdapterError kind d))"

definition mint_local_execution :: "'c adapter \<Rightarrow> execution_id \<times> 'c adapter" where
  "mint_local_execution s =
     (ExecutionId (LOCAL_EXECUTION_CEILING OR za_next_local s), s\<lparr>za_next_local := za_next_local s + 1\<rparr>)"

section \<open>Settling\<close>

definition settle_now ::
  "execution_id \<Rightarrow> bridge_request_id \<Rightarrow> (outcome_rank \<times> adapter_error) option \<Rightarrow> 'c adapter
   \<Rightarrow> dispatch_completion option \<times> 'c adapter" where
  "settle_now execution slot outcome s =
     (case settle_slot execution slot outcome (za_live s) of (live, t) \<Rightarrow> (t, s\<lparr>za_live := live\<rparr>))"

definition unknown_outcome :: "diagnostic \<Rightarrow> (outcome_rank \<times> adapter_error) option" where
  "unknown_outcome d = Some (RankUnknown, AdapterError KindOutcomeUnknown d)"

definition settle_and_emit ::
  "execution_id \<Rightarrow> bridge_request_id \<Rightarrow> (outcome_rank \<times> adapter_error) option \<Rightarrow> 'c adapter \<Rightarrow> 'c adapter" where
  "settle_and_emit execution slot outcome s =
     (case settle_now execution slot outcome s of (t, s') \<Rightarrow> emit_terminal t s')"

text \<open>The item in hand, when it belongs to an execution and has its slot.\<close>

definition settle_item :: "'c queued_item \<Rightarrow> diagnostic \<Rightarrow> 'c adapter \<Rightarrow> 'c adapter" where
  "settle_item item d s =
     (case (qi_execution item, qi_slot item) of
        (Some execution, Some slot) \<Rightarrow> settle_and_emit execution slot (unknown_outcome d) s
      | _ \<Rightarrow> s)"

text \<open>Taking the request in flight away settles its execution.\<close>

definition settle_in_flight :: "diagnostic \<Rightarrow> 'c adapter \<Rightarrow> 'c adapter" where
  "settle_in_flight d s =
     (let s1 = s\<lparr>za_in_flight := None\<rparr> in
      case za_in_flight s of
        None \<Rightarrow> s1
      | Some p \<Rightarrow>
          (case fl_execution p of
             None \<Rightarrow> s1
           | Some execution \<Rightarrow>
               if fl_settled p then s1
               else settle_and_emit execution
                      (case fl_slot p of Some slot \<Rightarrow> slot | None \<Rightarrow> pv_request_id (fl_request p)) (unknown_outcome d) s1))"

text \<open>
  \<open>settle_matching_unknown\<close> publishes the terminals of the executions of the broker and returns
  those of the adapter itself.
\<close>

definition settle_matching_unknown ::
  "(request_provenance \<Rightarrow> bool) \<Rightarrow> diagnostic \<Rightarrow> 'c adapter \<Rightarrow> dispatch_completion list \<times> 'c adapter" where
  "settle_matching_unknown matches d s =
     (case settle_matching matches (AdapterError KindOutcomeUnknown d) (za_live s) of
        (live, terminals) \<Rightarrow>
          (filter (\<lambda>c. is_local (dispatch_completion_execution c)) terminals,
           fold emit_completed (filter (\<lambda>c. \<not> is_local (dispatch_completion_execution c)) terminals) (s\<lparr>za_live := live\<rparr>)))"

definition settle_and_emit_matching :: "(request_provenance \<Rightarrow> bool) \<Rightarrow> diagnostic \<Rightarrow> 'c adapter \<Rightarrow> 'c adapter" where
  "settle_and_emit_matching matches d s =
     (case settle_matching_unknown matches d s of (locals, s') \<Rightarrow> fold emit_completed locals s')"

section \<open>Losing a registration\<close>

definition begins_capture :: "'c adapter \<Rightarrow> str \<Rightarrow> capture_lease_id option" where
  "begins_capture s client =
     (case capture_of (za_captures s) client of CaptureBeginning _ lease \<Rightarrow> Some lease | _ \<Rightarrow> None)"

fun lost_capture :: "client_capture option \<Rightarrow> capture_lease_id option" where
  "lost_capture (Some (CaptureBeginning _ lease)) = Some lease"
| "lost_capture (Some (CaptureHeld r)) = Some (cr_lease r)"
| "lost_capture _ = None"

text \<open>A reply that waits for a request of the registration is dropped.\<close>

definition asked_of :: "registration_id \<Rightarrow> request_provenance option \<Rightarrow> bool" where
  "asked_of r request \<longleftrightarrow> (case request of None \<Rightarrow> False | Some p \<Rightarrow> pv_registration p = r)"

definition keeps_capture_reply :: "str \<Rightarrow> registration_id \<Rightarrow> capture_lease_id option \<Rightarrow> nonce \<times> str \<times> request_provenance option \<Rightarrow> bool" where
  "keeps_capture_reply client r beginning e =
     (case e of (lease, owner, request) \<Rightarrow>
        \<not> asked_of r request \<and> (owner \<noteq> client \<or> request = None \<and> beginning = Some (CaptureLeaseId lease)))"

definition retire_registration_state :: "str \<Rightarrow> registration_id \<Rightarrow> diagnostic \<Rightarrow> 'c adapter \<Rightarrow> 'c adapter" where
  "retire_registration_state client r d s =
     (let s1 = (case za_in_flight s of
                  Some p \<Rightarrow> if pv_registration (fl_request p) = r then s\<lparr>za_in_flight := None\<rparr> else s
                | None \<Rightarrow> s);
          s2 = settle_and_emit_matching (\<lambda>p. pv_registration p = r) d s1;
          beginning = begins_capture s2 client;
          keeps = keeps_capture_reply client r beginning;
          preserve = list_ex (\<lambda>e. keeps e \<and> fst (snd e) = client) (za_pending_capture s2);
          s3 = s2\<lparr>za_pending_origin := filter (\<lambda>e. \<not> asked_of r (snd e)) (za_pending_origin s2),
                  za_pending_capture := filter keeps (za_pending_capture s2),
                  za_pending_leases := filter (\<lambda>e. snd (snd e) \<noteq> r) (za_pending_leases s2),
                  za_pane_claims := filter (\<lambda>e. snd e \<noteq> client) (za_pane_claims s2)\<rparr>
      in if preserve then s3
         else (case invalidate_client client (za_captures s3) of
                 (t, displaced) \<Rightarrow>
                   (case lost_capture displaced of
                      None \<Rightarrow> s3\<lparr>za_captures := t\<rparr>
                    | Some lease \<Rightarrow>
                        publish_event (OutCaptureLost (Some (scope_for_client client)) lease LostAdapterHealth)
                          (s3\<lparr>za_captures := t\<rparr>))))"

fun retire_all :: "diagnostic \<Rightarrow> (str \<times> registration_id) list \<Rightarrow> 'c adapter \<Rightarrow> 'c adapter" where
  "retire_all d [] s = s"
| "retire_all d ((client, r) # rest) s = retire_all d rest (retire_registration_state client r d s)"

definition invalidate_all_registrations :: "diagnostic \<Rightarrow> 'c adapter \<Rightarrow> 'c adapter" where
  "invalidate_all_registrations d s =
     (case invalidate_all (za_registry s) of
        (t, displaced) \<Rightarrow> retire_all d displaced (s\<lparr>za_registry := t\<rparr>))"

end
