(* ===== verification/Zellij_Pump.thy ===== *)
theory Zellij_Pump
  imports Zellij_Adapter
begin

text \<open>
  Queues and sending, \<open>muxe-adapter-zellij/src/adapter.rs\<close>: \<open>enqueue\<close>, the fair scheduler
  \<open>pump_all\<close>, \<open>pump_one\<close>, \<open>send_item\<close>, the loss of the transport \<open>restart_whole_pipe\<close>, the release
  deadline and the purge of the queues.
\<close>

section \<open>Queues\<close>

definition queue_of :: "'c adapter \<Rightarrow> str \<Rightarrow> 'c queued_item list" where
  "queue_of s client = (case tab_get (za_queues s) client of Some q \<Rightarrow> q | None \<Rightarrow> [])"

definition push_back :: "str \<Rightarrow> 'c queued_item \<Rightarrow> 'c adapter \<Rightarrow> 'c adapter" where
  "push_back client item s = s\<lparr>za_queues := tab_insert client (queue_of s client @ [item]) (za_queues s)\<rparr>"

definition push_front :: "str \<Rightarrow> 'c queued_item \<Rightarrow> 'c adapter \<Rightarrow> 'c adapter" where
  "push_front client item s = s\<lparr>za_queues := tab_insert client (item # queue_of s client) (za_queues s)\<rparr>"

definition pop_front :: "str \<Rightarrow> 'c adapter \<Rightarrow> ('c queued_item \<times> 'c adapter) option" where
  "pop_front client s =
     (case queue_of s client of
        [] \<Rightarrow> None
      | item # q \<Rightarrow> Some (item, s\<lparr>za_queues := tab_insert client q (za_queues s)\<rparr>))"

definition retain_items :: "('c queued_item \<Rightarrow> bool) \<Rightarrow> (str, 'c queued_item list) table \<Rightarrow> (str, 'c queued_item list) table" where
  "retain_items P t = map (\<lambda>e. (fst e, filter P (snd e))) t"

section \<open>Sending\<close>

datatype send_result = SendAccepted | SendContinue | SendStale "dispatch_completion option" | SendRestartWhole

fun is_dispatch :: "('c, 'h) zellij_request \<Rightarrow> bool" where
  "is_dispatch (BrDispatch _ _) = True"
| "is_dispatch _ = False"

text \<open>Replies that wait for this payload learn which request it became.\<close>

fun note_asked :: "request_provenance \<Rightarrow> ('c, unit) zellij_request \<Rightarrow> 'c adapter \<Rightarrow> 'c adapter" where
  "note_asked request (BrBeginCapture (CaptureLeaseId lease) _) s =
     (case tab_get (za_pending_capture s) lease of
        Some (owner, _) \<Rightarrow> s\<lparr>za_pending_capture := tab_insert lease (owner, Some request) (za_pending_capture s)\<rparr>
      | None \<Rightarrow> s)"
| "note_asked request (BrRequestOrigin (UiSessionId ui) _) s =
     (if tab_has (za_pending_origin s) ui
      then s\<lparr>za_pending_origin := tab_insert ui (Some request) (za_pending_origin s)\<rparr> else s)"
| "note_asked request _ s = s"

text \<open>The slot of an execution is renamed to the number of the request that carries it.\<close>

definition rename_slot ::
  "request_provenance \<Rightarrow> bridge_request_id option \<Rightarrow> execution_record \<Rightarrow> execution_record \<times> bridge_request_id" where
  "rename_slot request slot x =
     (let n = pv_request_id request in
      case slot of
        Some k \<Rightarrow>
          if k \<noteq> n \<and> tab_has (xr_requests x) k
          then (x\<lparr>xr_requests := tab_insert n (Some request) (tab_remove k (xr_requests x))\<rparr>, n)
          else (x\<lparr>xr_requests := tab_insert k (Some request) (xr_requests x)\<rparr>, k)
      | None \<Rightarrow> (x\<lparr>xr_requests := tab_insert n (Some request) (xr_requests x)\<rparr>, n))"

definition record_sent :: "request_provenance \<Rightarrow> 'c queued_item \<Rightarrow> 'c adapter \<Rightarrow> 'c queued_item \<times> 'c adapter" where
  "record_sent request item s =
     (case qi_execution item of
        None \<Rightarrow> (item, s)
      | Some execution \<Rightarrow>
          (case tab_get (za_live s) execution of
             None \<Rightarrow> (item, s)
           | Some x \<Rightarrow>
               (case rename_slot request (qi_slot item) x of
                  (x', k) \<Rightarrow> (item\<lparr>qi_slot := Some k\<rparr>, s\<lparr>za_live := tab_insert execution x' (za_live s)\<rparr>))))"

definition request_frame :: "'c adapter \<Rightarrow> request_provenance \<Rightarrow> str \<Rightarrow> ('c, unit) zellij_request \<Rightarrow> ('c, unit) pipe_request" where
  "request_frame s request client payload =
     \<lparr>rq_protocol = PROTOCOL_CURRENT, rq_request_id = pv_request_id request, rq_registration = pv_registration request,
      rq_generation = za_generation s, rq_target = BridgeTarget client, rq_payload = payload\<rparr>"

definition pipe_closed :: "'c adapter \<Rightarrow> bool" where
  "pipe_closed s \<longleftrightarrow> za_shutdown s \<or> za_quiescing s \<or> za_suspended s"

definition replace_request_child :: "'c environment \<Rightarrow> 'c adapter \<Rightarrow> bool \<times> 'c adapter" where
  "replace_request_child env s = (if pipe_closed s then (False, s) else call_ok env (out_now OutRespawnRequest s))"

text \<open>After a failed write: the request is unknown, and only lifecycle payloads are tried again.\<close>

definition write_failed ::
  "'c environment \<Rightarrow> str \<Rightarrow> request_provenance \<Rightarrow> ('c, unit) zellij_request \<Rightarrow> 'c queued_item \<Rightarrow> 'c adapter
   \<Rightarrow> send_result \<times> 'c adapter" where
  "write_failed env client request payload item s =
     (let s1 = (case za_in_flight s of
                  Some p \<Rightarrow> if fl_request p = request then s\<lparr>za_in_flight := None\<rparr> else s
                | None \<Rightarrow> s);
          s2 = (case qi_execution item of
                  Some execution \<Rightarrow>
                    settle_and_emit execution
                      (case qi_slot item of Some slot \<Rightarrow> slot | None \<Rightarrow> pv_request_id request)
                      (Some (RankUnknown, AdapterError KindUnavailable WriteFailed)) s1
                | None \<Rightarrow> if is_dispatch payload then unhealthy (Some client) KindOutcomeUnknown WriteFailed s1 else s1);
          s3 = (if is_dispatch payload then s2 else push_front client item s2)
      in case replace_request_child env s3 of
           (ok, s4) \<Rightarrow> (if ok then SendContinue else SendRestartWhole, s4))"

definition send_item ::
  "'c environment \<Rightarrow> str \<Rightarrow> request_provenance \<Rightarrow> 'c queued_item \<Rightarrow> 'c adapter \<Rightarrow> send_result \<times> 'c adapter" where
  "send_item env client request item s =
     (case qi_payload item of
        None \<Rightarrow>
          (SendContinue, settle_item item NotSentNoPayload (unhealthy (Some client) KindInvalidRequest QueuedNoPayload s))
      | Some payload \<Rightarrow>
          (let s1 = note_asked request payload s;
               frame = request_frame s1 request client payload in
           case encode_line (en_json env) frame of
             Inl _ \<Rightarrow> (SendContinue, settle_item item NotSentEncoding (unhealthy (Some client) KindInvalidRequest NotSentEncoding s1))
           | Inr line \<Rightarrow>
               (case record_sent request (item\<lparr>qi_client := client\<rparr>) s1 of
                  (item', s2) \<Rightarrow>
                    (let s3 = s2\<lparr>za_in_flight := Some \<lparr>fl_request = request, fl_generation = za_generation s1,
                                fl_execution = qi_execution item', fl_slot = qi_slot item', fl_settled = False\<rparr>\<rparr> in
                     case call_ok env s3 of
                       (ok, s4) \<Rightarrow>
                         (let s5 = out_now (OutLine frame ok) s4 in
                          if ok then (SendAccepted, s5) else write_failed env client request payload item' s5)))))"

text \<open>One client: at most two attempts, the second after the request child was replaced.\<close>

fun pump_tries :: "nat \<Rightarrow> 'c environment \<Rightarrow> str \<Rightarrow> 'c adapter \<Rightarrow> send_result \<times> 'c adapter" where
  "pump_tries 0 env client s = (SendContinue, s)"
| "pump_tries (Suc n) env client s =
     (case pop_front client s of
        None \<Rightarrow> (SendContinue, s)
      | Some (item, s1) \<Rightarrow>
          if qi_incarnation item \<noteq> None \<and> za_incarnation s1 \<noteq> qi_incarnation item
          then (case (qi_execution item, qi_slot item) of
                  (Some execution, Some slot) \<Rightarrow>
                    (case settle_now execution slot (unknown_outcome NotSentConnectionChanged) s1 of
                       (t, s2) \<Rightarrow> (SendStale t, s2))
                | _ \<Rightarrow> (SendStale None, s1))
          else (case allocate_request client (za_registry s1) of
                  (_, Inl _) \<Rightarrow> (SendContinue, push_front client item s1)
                | (t, Inr (r, n')) \<Rightarrow>
                    (case send_item env client \<lparr>pv_request_id = n', pv_registration = r\<rparr>
                            (if qi_execution item \<noteq> None \<and> qi_slot item = None then item\<lparr>qi_slot := Some n'\<rparr> else item)
                            (s1\<lparr>za_registry := t\<rparr>) of
                       (SendContinue, s2) \<Rightarrow> pump_tries n env client s2
                     | other \<Rightarrow> other)))"

definition pump_one :: "'c environment \<Rightarrow> str \<Rightarrow> 'c adapter \<Rightarrow> send_result \<times> 'c adapter" where
  "pump_one = pump_tries 2"

section \<open>Losing the transport\<close>

definition sorted_members :: "str list \<Rightarrow> str list" where
  "sorted_members ms = remdups_adj (sort ms)"

text \<open>
  \<open>readiness_write_guard_retry\<close> waits while the gate is only contended; a broken gate stops the
  adapter.
\<close>

definition with_gate :: "'c environment \<Rightarrow> ('c adapter \<Rightarrow> 'c adapter) \<Rightarrow> 'c adapter \<Rightarrow> 'c adapter" where
  "with_gate env f s =
     (case call_ok env s of (ok, s1) \<Rightarrow> if ok then f s1 else s1\<lparr>za_quiescing := True\<rparr>)"

definition install_coverage :: "'c environment \<Rightarrow> 'c adapter \<Rightarrow> 'c adapter" where
  "install_coverage env s =
     (case (en_epoch env, map_option sorted_members (en_members env)) of
        (Some channel, Some members) \<Rightarrow>
          s\<lparr>za_pending_coverage := Some \<lparr>pg_resume_epoch = za_resume_epoch s, pg_channel = channel, pg_members = members\<rparr>\<rparr>
      | _ \<Rightarrow> unhealthy None KindUnavailable RestartFailed s)"

definition restart_whole_pipe :: "'c environment \<Rightarrow> 'c adapter \<Rightarrow> 'c adapter" where
  "restart_whole_pipe env s =
     (if pipe_closed s then s
      else with_gate env (\<lambda>s.
        (let s1 = unhealthy None KindUnavailable EventChannelChanged
                    (s\<lparr>za_incarnation := None, za_pending_coverage := None, za_success := None, za_register_epoch := [],
                       za_resume_epoch := za_resume_epoch s + 1\<rparr>) in
         case generation_advance (za_generation s1) of
           Inl _ \<Rightarrow> unhealthy None KindUnavailable CounterUsedUp s1
         | Inr g \<Rightarrow>
             (let s2 = invalidate_all_registrations EventPipeFailedSent (settle_in_flight EventPipeFailed (s1\<lparr>za_generation := g\<rparr>));
                  s3 = s2\<lparr>za_captures := invalidate_all_clients (za_captures s2), za_pane_claims := [], za_snapshots := []\<rparr>
              in case call_ok env (out_now OutRespawnRequest s3) of
                   (request_ok, s4) \<Rightarrow>
                     (case call_ok env (out_now (OutRespawnEvent g) s4) of
                        (event_ok, s5) \<Rightarrow>
                          if request_ok \<and> event_ok then install_coverage env s5
                          else unhealthy None KindUnavailable RestartFailed s5)))) s)"

section \<open>The scheduler\<close>

text \<open>
  Clients with queued items in order, beginning after the one that was served last; \<open>order\<close> is
  rotated only when that client still has items.
\<close>

definition pump_order :: "'c adapter \<Rightarrow> str list" where
  "pump_order s =
     (let order = sort (map fst (filter (\<lambda>e. snd e \<noteq> []) (za_queues s))) in
      case za_cursor s of
        Some served \<Rightarrow>
          if served \<in> set order
          then rotate ((length (takeWhile (\<lambda>c. c \<noteq> served) order) + 1) mod length order) order else order
      | None \<Rightarrow> order)"

datatype round_result = RoundDone | RoundStale "dispatch_completion option" | RoundRestart

fun pump_round :: "'c environment \<Rightarrow> str list \<Rightarrow> 'c adapter \<Rightarrow> round_result \<times> 'c adapter" where
  "pump_round env [] s = (RoundDone, s)"
| "pump_round env (client # rest) s =
     (case pump_one env client s of
        (SendAccepted, s1) \<Rightarrow> (RoundDone, s1\<lparr>za_cursor := Some client\<rparr>)
      | (SendStale t, s1) \<Rightarrow> (RoundStale t, s1)
      | (SendRestartWhole, s1) \<Rightarrow> (RoundRestart, s1)
      | (SendContinue, s1) \<Rightarrow> pump_round env rest s1)"

definition queued :: "'c adapter \<Rightarrow> nat" where
  "queued s = (\<Sum>client \<in> fst ` set (za_queues s). length (queue_of s client))"

text \<open>The number of queued items: sending never adds one, and a stale item is gone.\<close>

lemma tab_get_insert_any: "tab_get (tab_insert k v t) k' = (if k' = k then Some v else tab_get t k')"
  by (induction k v t rule: tab_insert.induct) (auto simp: tab_get_def)

lemma queue_of_insert [simp]:
  "queue_of (s\<lparr>za_queues := tab_insert client q (za_queues t)\<rparr>) c = (if c = client then q else queue_of t c)"
  by (simp add: queue_of_def tab_get_insert_any)

lemma queue_of_absent: "client \<notin> fst ` set (za_queues s) \<Longrightarrow> queue_of s client = []"
  by (simp add: queue_of_def tab_get_def map_of_eq_None_iff [symmetric])

lemma queued_insert:
  "queued (s\<lparr>za_queues := tab_insert client q (za_queues s)\<rparr>) + length (queue_of s client) = queued s + length q"
proof -
  let ?K = "fst ` set (za_queues s)" and ?f = "\<lambda>c. length (if c = client then q else queue_of s c)"
  have "queued (s\<lparr>za_queues := tab_insert client q (za_queues s)\<rparr>) = (\<Sum>c \<in> insert client ?K. ?f c)"
    by (simp add: queued_def tab_keys_insert)
  also have "\<dots> = length q + (\<Sum>c \<in> ?K - {client}. length (queue_of s c))"
    by (simp add: sum.insert_remove)
  finally have a: "queued (s\<lparr>za_queues := tab_insert client q (za_queues s)\<rparr>)
    = length q + (\<Sum>c \<in> ?K - {client}. length (queue_of s c))" .
  have "queued s = (\<Sum>c \<in> insert client ?K. length (queue_of s c))"
    unfolding queued_def by (cases "client \<in> ?K") (simp_all add: insert_absorb queue_of_absent)
  then have "queued s = length (queue_of s client) + (\<Sum>c \<in> ?K - {client}. length (queue_of s c))"
    by (simp add: sum.insert_remove)
  then show ?thesis using a by simp
qed

lemma queued_push: "queued (push_front client item s) = Suc (queued s)" "queued (push_back client item s) = Suc (queued s)"
  using queued_insert [of client "item # queue_of s client" s] queued_insert [of client "queue_of s client @ [item]" s]
  by (simp_all add: push_front_def push_back_def)

lemma queued_pop: "pop_front client s = Some (item, s') \<Longrightarrow> queued s = Suc (queued s')"
  using queued_insert [of client "tl (queue_of s client)" s]
  by (auto simp: pop_front_def split: list.splits)

text \<open>Everything else leaves the queues alone.\<close>

lemma queued_cong: "za_queues s' = za_queues s \<Longrightarrow> queued s' = queued s" "za_queues s' = za_queues s \<Longrightarrow> queue_of s' = queue_of s"
  by (auto simp: queued_def queue_of_def fun_eq_iff)

named_theorems queues_kept

lemma emit_queues [queues_kept]:
  "za_queues (out_now fx s) = za_queues s" "za_queues (publish_event fx s) = za_queues s"
  "za_queues (emit_completed c s) = za_queues s" "za_queues (emit_terminal t s) = za_queues s"
  "za_queues (unhealthy client kind d s) = za_queues s" "za_queues (snd (call_ok env s)) = za_queues s"
  by (simp_all add: out_now_def publish_event_def emit_completed_def emit_terminal_def unhealthy_def call_ok_def Let_def
      split: option.split)

lemma settle_queues [queues_kept]:
  "za_queues (snd (settle_now e k out s)) = za_queues s" "za_queues (settle_and_emit e k out s) = za_queues s"
  "za_queues (settle_item item d s) = za_queues s"
  by (simp_all add: settle_now_def settle_and_emit_def settle_item_def split_def queues_kept split: option.split)

lemma note_asked_queues [queues_kept]: "za_queues (note_asked request payload s) = za_queues s"
  by (cases "(request, payload, s)" rule: note_asked.cases) (auto split: option.split)

lemma record_sent_queues [queues_kept]: "za_queues (snd (record_sent request item s)) = za_queues s"
  by (simp add: record_sent_def split_def split: option.split)

lemmas queued_kept = queues_kept [THEN queued_cong(1)]

lemma send_item_queued: "queued (snd (send_item env client request item s)) \<le> Suc (queued s)"
  and send_item_not_stale: "fst (send_item env client request item s) \<noteq> SendStale t"
proof -
  have k: "za_queues s' = za_queues s \<Longrightarrow> queued s' \<le> Suc (queued s)" for s' using queued_cong(1) [of s' s] by simp
  have w: "queued (snd (write_failed env client request payload item' s')) \<le> Suc (queued s)"
    if "za_queues s' = za_queues s" for payload item' s'
  proof -
    define s1 where "s1 = (case za_in_flight s' of
        Some p \<Rightarrow> if fl_request p = request then s'\<lparr>za_in_flight := None\<rparr> else s' | None \<Rightarrow> s')"
    define s2 where "s2 = (case qi_execution item' of
        Some execution \<Rightarrow> settle_and_emit execution (case qi_slot item' of Some slot \<Rightarrow> slot | None \<Rightarrow> pv_request_id request)
          (Some (RankUnknown, AdapterError KindUnavailable WriteFailed)) s1
      | None \<Rightarrow> if is_dispatch payload then unhealthy (Some client) KindOutcomeUnknown WriteFailed s1 else s1)"
    have "za_queues s2 = za_queues s"
      using that by (simp add: s2_def s1_def queues_kept split: option.split)
    then have "queued (if is_dispatch payload then s2 else push_front client item' s2) \<le> Suc (queued s)"
      by (simp add: queued_push queued_cong(1) [of s2 s])
    then show ?thesis
      unfolding write_failed_def s1_def [symmetric] s2_def [symmetric] Let_def
      by (simp add: replace_request_child_def split_def queued_kept)
  qed
  show "queued (snd (send_item env client request item s)) \<le> Suc (queued s)"
    by (auto simp: send_item_def Let_def split_def queues_kept intro!: k w split: option.split sum.split)
  show "fst (send_item env client request item s) \<noteq> SendStale t"
    by (auto simp: send_item_def write_failed_def Let_def split_def split: option.split sum.split)
qed

lemma pump_tries_queued:
  "queued (snd (pump_tries n env client s)) + (case fst (pump_tries n env client s) of SendStale _ \<Rightarrow> 1 | _ \<Rightarrow> 0) \<le> queued s"
proof (induction n arbitrary: s)
  case (Suc n)
  show ?case
  proof (cases "pop_front client s")
    case (Some p)
    obtain item s1 where p: "p = (item, s1)" by (cases p)
    have q: "queued s = Suc (queued s1)" using queued_pop Some p by simp
    show ?thesis
    proof (cases "qi_incarnation item \<noteq> None \<and> za_incarnation s1 \<noteq> qi_incarnation item")
      case True
      then show ?thesis
        using q Some p by (auto simp: split_def queued_kept split: option.split)
    next
      case False
      note fresh = False
      show ?thesis
      proof (cases "allocate_request client (za_registry s1)")
        case (Pair t a)
        show ?thesis
        proof (cases a)
          case (Inl x)
          then show ?thesis using q Some p fresh Pair by (auto simp: queued_push)
        next
          case (Inr rn)
          let ?item = "if qi_execution item \<noteq> None \<and> qi_slot item = None then item\<lparr>qi_slot := Some (snd rn)\<rparr> else item"
          obtain r s2 where send: "send_item env client \<lparr>pv_request_id = snd rn, pv_registration = fst rn\<rparr> ?item (s1\<lparr>za_registry := t\<rparr>) = (r, s2)"
            by fastforce
          have "queued (s1\<lparr>za_registry := t\<rparr>) = queued s1" by (rule queued_cong) simp
          then have le: "queued s2 \<le> queued s" and ns: "\<And>t. r \<noteq> SendStale t"
            using send_item_queued [of env client "\<lparr>pv_request_id = snd rn, pv_registration = fst rn\<rparr>" ?item "s1\<lparr>za_registry := t\<rparr>"]
              send_item_not_stale [of env client "\<lparr>pv_request_id = snd rn, pv_registration = fst rn\<rparr>" ?item "s1\<lparr>za_registry := t\<rparr>"] send q by auto
          have "pump_tries (Suc n) env client s = (case (r, s2) of (SendContinue, s2) \<Rightarrow> pump_tries n env client s2 | other \<Rightarrow> other)"
            using Some p fresh Pair Inr send by (cases rn) (auto split: send_result.split)
          then show ?thesis using Suc.IH [of s2] le ns by (cases r) (auto simp del: pump_tries.simps)
        qed
      qed
    qed
  qed simp
qed simp

lemma pump_round_queued: "pump_round env order s = (RoundStale t, s1) \<Longrightarrow> queued s1 < queued s"
proof (induction order arbitrary: s)
  case (Cons client order)
  have q: "queued (snd (pump_one env client s)) + (case fst (pump_one env client s) of SendStale _ \<Rightarrow> 1 | _ \<Rightarrow> 0) \<le> queued s"
    unfolding pump_one_def by (rule pump_tries_queued)
  obtain r s2 where r: "pump_one env client s = (r, s2)" by fastforce
  show ?case using Cons.prems Cons.IH [of s2] q r by (cases r) auto
qed simp

function pump_all :: "'c environment \<Rightarrow> 'c adapter \<Rightarrow> 'c adapter" where
  "pump_all env s =
     (if za_shutdown s \<or> za_suspended s \<or> za_in_flight s \<noteq> None then s
      else (case pump_round env (pump_order s) s of
              (RoundDone, s1) \<Rightarrow> s1
            | (RoundRestart, s1) \<Rightarrow> restart_whole_pipe env s1
            | (RoundStale t, s1) \<Rightarrow> pump_all env (emit_terminal t s1)))"
  by pat_completeness auto
termination
  by (relation "measure (\<lambda>(env, s). queued s)") (auto simp: queued_kept dest: pump_round_queued [OF sym])

declare pump_all.simps [simp del]

definition enqueue_item :: "'c environment \<Rightarrow> 'c queued_item \<Rightarrow> 'c adapter \<Rightarrow> 'c adapter" where
  "enqueue_item env item s = pump_all env (push_back (qi_client item) item s)"

definition enqueue_lifecycle :: "'c environment \<Rightarrow> str \<Rightarrow> ('c, unit) zellij_request \<Rightarrow> 'c adapter \<Rightarrow> 'c adapter" where
  "enqueue_lifecycle env client payload =
     enqueue_item env \<lparr>qi_execution = None, qi_slot = None, qi_incarnation = None, qi_client = client, qi_payload = Some payload\<rparr>"

section \<open>Release deadline and purge\<close>

text \<open>\<open>watch_release\<close>: the deadline of a request that is still in flight.\<close>

definition release_overdue :: "'c environment \<Rightarrow> request_provenance \<Rightarrow> channel_generation \<Rightarrow> 'c adapter \<Rightarrow> 'c adapter" where
  "release_overdue env request generation s =
     (case za_in_flight s of
        None \<Rightarrow> s
      | Some p \<Rightarrow>
          if fl_request p = request \<and> fl_generation p = generation
          then (let s1 = settle_in_flight NoReleaseInTime s in
                if pipe_closed s1 then s1 else pump_all env (snd (call_ok env (out_now OutRespawnRequest s1))))
          else s)"

fun settle_purged :: "diagnostic \<Rightarrow> (execution_id \<times> bridge_request_id option) list \<Rightarrow> live_executions
   \<Rightarrow> live_executions \<times> dispatch_completion list" where
  "settle_purged d [] live = (live, [])"
| "settle_purged d ((execution, slot) # rest) live =
     (case (case slot of
              Some k \<Rightarrow> settle_slot execution k (unknown_outcome d) live
            | None \<Rightarrow> settle_any_slot execution (unknown_outcome d) live) of
        (live1, t) \<Rightarrow>
          (case settle_purged d rest live1 of
             (live2, ts) \<Rightarrow> (live2, (case t of None \<Rightarrow> ts | Some c \<Rightarrow> c # ts))))"

text \<open>A waiter takes its terminal whatever its execution; the others go to the broker.\<close>

definition route_purged :: "dispatch_completion \<Rightarrow> 'c adapter \<Rightarrow> 'c adapter" where
  "route_purged c s =
     (let e = dispatch_completion_execution c in
      if e \<in> za_close_waiters s then out_now (OutWaiter c) (s\<lparr>za_close_waiters := za_close_waiters s - {e}\<rparr>)
      else emit_completed c s)"

definition drain_queued_requests :: "diagnostic \<Rightarrow> 'c adapter \<Rightarrow> 'c adapter" where
  "drain_queued_requests d s =
     (let items = concat (map snd (za_queues s));
          purged = List.map_filter (\<lambda>i. map_option (\<lambda>e. (e, qi_slot i)) (qi_execution i)) items in
      case settle_purged d purged (za_live s) of
        (live, ts) \<Rightarrow>
          fold route_purged ts (s\<lparr>za_queues := retain_items (\<lambda>_. False) (za_queues s), za_live := live\<rparr>))"

end
