(* ===== verification/Zellij_Coverage.thy ===== *)
theory Zellij_Coverage
  imports Zellij_Pump
begin

text \<open>
  When the Zellij adapter may be used, \<open>muxe-adapter-zellij/src/adapter.rs\<close>: registrations are stamped
  with the resume attempt and the event channel that delivered them, a round covers the attached
  clients when each has such a fresh, compatible registration, and only a covered round publishes a
  live incarnation. Suspension, resumption and shutdown take it back.

  A handler is one step, so the source's second look at the same flags before it publishes sees what
  the first look saw. The session name was validated by the configuration.
\<close>

section \<open>Registration\<close>

definition identity_matches :: "bridge_identity \<Rightarrow> bridge_identity \<Rightarrow> bool" where
  "identity_matches expected identity \<longleftrightarrow>
     bi_build_id identity = bi_build_id expected
     \<and> bi_source_revision identity = bi_source_revision expected
     \<and> bi_action_fingerprint identity = bi_action_fingerprint expected
     \<and> bi_protocol_fingerprint identity = bi_protocol_fingerprint expected
     \<and> bi_muxe_version identity = bi_muxe_version expected"

definition is_compatible :: "'c adapter \<Rightarrow> str \<Rightarrow> bool" where
  "is_compatible s client \<longleftrightarrow>
     (case registry_get (za_registry s) client of Some a \<Rightarrow> rec_compatible a | None \<Rightarrow> False)"

definition require_active :: "'c adapter \<Rightarrow> adapter_error + unit" where
  "require_active s =
     (if za_suspended s then Inl (AdapterError KindUnavailable AdapterSuspended)
      else if za_shutdown s then Inl (AdapterError KindShutdown AdapterShutDown)
      else Inr ())"

text \<open>Renewal of the leases of captures in force, one line for each.\<close>

definition renew_active_captures :: "'c environment \<Rightarrow> 'c adapter \<Rightarrow> 'c adapter" where
  "renew_active_captures env s =
     (if za_shutdown s \<or> za_suspended s then s
      else fold (\<lambda>(client, lease). enqueue_lifecycle env client (BrRenewCapture lease)) (captured_leases (za_captures s)) s)"

fun retire_expired :: "(str \<times> registration_id) list \<Rightarrow> 'c adapter \<Rightarrow> 'c adapter" where
  "retire_expired [] s = s"
| "retire_expired ((client, r) # rest) s =
     retire_expired rest
       (unhealthy (Some client) KindUnavailable (HeartbeatSilence client) (retire_registration_state client r HeartbeatExpired s))"

definition sweep_expired_clients :: "'c environment \<Rightarrow> 'c adapter \<Rightarrow> 'c adapter" where
  "sweep_expired_clients env s =
     (if za_shutdown s \<or> za_suspended s then s
      else with_gate env (\<lambda>s.
        case expire_leases (en_now env) (za_registry s) of
          (t, expired) \<Rightarrow> renew_active_captures env (retire_expired expired (s\<lparr>za_registry := t\<rparr>))) s)"

definition active_registration :: "'c environment \<Rightarrow> str \<Rightarrow> 'c adapter \<Rightarrow> (adapter_error + registration_id) \<times> 'c adapter" where
  "active_registration env client s =
     (let s1 = sweep_expired_clients env s in
      (case registry_get (za_registry s1) client of
         Some a \<Rightarrow> if rec_compatible a then Inr (rec_registration a) else Inl (AdapterError KindIncompatible (IncompatibleClient client))
       | None \<Rightarrow> Inl (AdapterError KindUnavailable (NoActiveBridge client)), s1))"

section \<open>Coverage\<close>

definition fresh_compatible :: "'c adapter \<Rightarrow> u64 \<Rightarrow> u64 \<Rightarrow> str \<Rightarrow> bool" where
  "fresh_compatible s epoch channel client \<longleftrightarrow>
     is_compatible s client \<and> tab_get (za_register_epoch s) client = Some (epoch, channel)"

definition covers :: "'c adapter \<Rightarrow> u64 \<Rightarrow> u64 \<Rightarrow> str list \<Rightarrow> bool" where
  "covers s epoch channel members \<longleftrightarrow>
     list_all (fresh_compatible s epoch channel) members
     \<and> list_all (\<lambda>(client, stamped). fst stamped = epoch \<longrightarrow> snd stamped = channel \<and> is_compatible s client) (za_register_epoch s)"

definition resume_covered :: "'c environment \<Rightarrow> u64 \<Rightarrow> u64 \<Rightarrow> str list \<Rightarrow> 'c adapter \<Rightarrow> bool \<times> 'c adapter" where
  "resume_covered env epoch channel members s =
     (let s1 = sweep_expired_clients env s in (covers s1 epoch channel members, s1))"

definition host_identity :: "'c adapter \<Rightarrow> adapter_error + nonce" where
  "host_identity s = (case za_incarnation s of Some c \<Rightarrow> Inr (ci_id c) | None \<Rightarrow> Inl (AdapterError KindUnavailable NoCoverage))"

definition take_pending :: "pending_coverage option \<Rightarrow> 'c adapter \<Rightarrow> 'c adapter" where
  "take_pending expected s =
     (if expected \<noteq> None \<and> za_pending_coverage s = expected then s\<lparr>za_pending_coverage := None\<rparr> else s)"

definition publish_new_incarnation ::
  "'c environment \<Rightarrow> coverage_owner \<Rightarrow> str list \<Rightarrow> pending_coverage option \<Rightarrow> bool \<Rightarrow> 'c adapter
   \<Rightarrow> (adapter_error + nonce) \<times> 'c adapter" where
  "publish_new_incarnation env owner members pending resume s =
     (case (case za_startup s of Some i \<Rightarrow> Some i | None \<Rightarrow> en_random env) of
        None \<Rightarrow> (Inl (AdapterError KindUnavailable NoRandomness), s)
      | Some i \<Rightarrow>
          (let s1 = s\<lparr>za_startup := Some i\<rparr> in
           if pending \<noteq> None \<and> za_pending_coverage s1 \<noteq> pending
           then (Inl (AdapterError KindUnavailable RoundReplaced), s1)
           else
             (let s2 = (take_pending pending s1)
                    \<lparr>za_incarnation := Some \<lparr>ci_owner = owner, ci_id = i\<rparr>, za_success := Some members,
                     za_suspended := (if resume then False else za_suspended s1)\<rparr>
              in case call_ok env s2 of
                   (ok, s3) \<Rightarrow>
                     if ok
                     then (Inr i, out_now (OutHealthy i) (s3\<lparr>za_startup := (if za_startup s3 = Some i then None else za_startup s3)\<rparr>))
                     else (Inl (AdapterError KindUnavailable HealthQueueFull),
                           s3\<lparr>za_incarnation := None, za_success := None,
                              za_suspended := (if resume then True else za_suspended s3),
                              za_pending_coverage := (if pending \<noteq> None then pending else za_pending_coverage s3)\<rparr>))))"

definition complete_covered_incarnation ::
  "'c environment \<Rightarrow> u64 \<Rightarrow> u64 \<Rightarrow> str list \<Rightarrow> pending_coverage option \<Rightarrow> bool \<Rightarrow> 'c adapter
   \<Rightarrow> (adapter_error + nonce) \<times> 'c adapter" where
  "complete_covered_incarnation env epoch channel members pending resume s0 =
     (case call_ok env s0 of (gate, s) \<Rightarrow>
      if \<not> gate then (Inl (AdapterError KindUnavailable RoundChanged), s)
      else if za_shutdown s \<or> za_quiescing s \<or> za_resume_epoch s \<noteq> epoch \<or> en_epoch env \<noteq> Some channel
              \<or> \<not> resume \<and> za_suspended s
      then (Inl (AdapterError KindUnavailable RoundChanged), s)
      else if pending \<noteq> None \<and> za_pending_coverage s \<noteq> pending
      then (Inl (AdapterError KindUnavailable RoundReplaced), s)
      else if \<not> covers s epoch channel members
      then (Inl (AdapterError KindUnavailable NotCovered), s)
      else
        (let owner = \<lparr>co_resume_epoch = epoch, co_channel = channel\<rparr> in
         case za_incarnation s of
           Some c \<Rightarrow>
             if ci_owner c = owner
             then (let s1 = (take_pending pending s)\<lparr>za_success := Some members,
                              za_suspended := (if resume then False else za_suspended s)\<rparr>
                   in (host_identity s1, s1))
             else publish_new_incarnation env owner members pending resume s
         | None \<Rightarrow> publish_new_incarnation env owner members pending resume s))"

definition try_complete_pending_coverage :: "'c environment \<Rightarrow> 'c adapter \<Rightarrow> 'c adapter" where
  "try_complete_pending_coverage env s =
     (case za_pending_coverage s of
        None \<Rightarrow> s
      | Some p \<Rightarrow>
          (case resume_covered env (pg_resume_epoch p) (pg_channel p) (pg_members p) s of
             (False, s1) \<Rightarrow> s1
           | (True, s1) \<Rightarrow>
               snd (complete_covered_incarnation env (pg_resume_epoch p) (pg_channel p) (pg_members p) (Some p) False s1)))"

definition on_register ::
  "'c environment \<Rightarrow> u64 \<Rightarrow> channel_generation \<Rightarrow> str \<Rightarrow> str option \<Rightarrow> registration_id \<Rightarrow> bridge_identity
   \<Rightarrow> 'c adapter \<Rightarrow> 'c adapter" where
  "on_register env channel generation client pane r identity =
     with_gate env (\<lambda>s.
       (let compatible = identity_matches (en_identity env) identity in
        if generation \<noteq> za_generation s \<or> en_epoch env \<noteq> Some channel then s
        else
          (case register_bridge client r pane (bi_muxe_version identity) compatible (en_now env) (za_registry s) of
             (_, Inl _) \<Rightarrow> s
           | (t, Inr displaced) \<Rightarrow>
               (let s1 = s\<lparr>za_registry := t\<rparr>;
                    s2 = (case displaced of Some d \<Rightarrow> retire_registration_state client d ReplacedRegistration s1 | None \<Rightarrow> s1);
                    epoch = za_resume_epoch s2;
                    s3 = s2\<lparr>za_register_epoch := tab_insert client (epoch, channel) (za_register_epoch s2)\<rparr>;
                    s4 = (if \<not> compatible then unhealthy (Some client) KindIncompatible BridgeIncompatible s3
                          else
                            (case za_incarnation s3 of
                               Some c \<Rightarrow> publish_event (OutHealthy (ci_id c)) s3
                             | None \<Rightarrow>
                                 (let s5 = try_complete_pending_coverage env s3 in
                                  if \<not> za_suspended s5 \<and> za_incarnation s5 = None \<and> za_pending_coverage s5 = None
                                  then (case map_option sorted_members (en_members env) of
                                          None \<Rightarrow> s5
                                        | Some members \<Rightarrow>
                                            (case resume_covered env epoch channel members s5 of
                                               (False, s6) \<Rightarrow> s6
                                             | (True, s6) \<Rightarrow> snd (complete_covered_incarnation env epoch channel members None False s6)))
                                  else s5)))
                in pump_all env s4))))"

section \<open>Suspension, resumption, shutdown\<close>

definition suspend_for_activation :: "'c environment \<Rightarrow> 'c adapter \<Rightarrow> 'c adapter" where
  "suspend_for_activation env s0 =
     (case call_ok env s0 of (gate, s) \<Rightarrow>
      if \<not> gate \<or> za_suspended s then s
      else
        (let s1 = settle_in_flight SuspendedInFlight
                    (s\<lparr>za_suspended := True, za_incarnation := None, za_pending_coverage := None\<rparr>);
             s2 = invalidate_all_registrations SuspendedSent (drain_queued_requests SuspendedQueued s1);
             s3 = s2\<lparr>za_register_epoch := [], za_success := None, za_captures := invalidate_all_clients (za_captures s2),
                     za_pane_claims := [], za_snapshots := []\<rparr>
         in unhealthy None KindUnavailable TransportSuspended (out_now OutPark s3)))"

definition fail_resume :: "'c environment \<Rightarrow> diagnostic \<Rightarrow> 'c adapter \<Rightarrow> 'c adapter" where
  "fail_resume env d s0 =
     (case call_ok env s0 of (gate, s) \<Rightarrow>
      if \<not> gate then s\<lparr>za_quiescing := True\<rparr>
      else
        (let s1 = invalidate_all_registrations ResumeFailedSent (s\<lparr>za_incarnation := None, za_pending_coverage := None\<rparr>)
         in unhealthy None KindUnavailable d (out_now OutPark (s1\<lparr>za_register_epoch := [], za_success := None\<rparr>))))"

text \<open>
  A resumption opens a new evidence generation and restarts the pipes; it then waits for
  registrations, so its end is a handler of its own.
\<close>

definition resume_begin :: "'c environment \<Rightarrow> 'c adapter \<Rightarrow> pending_coverage option \<times> 'c adapter" where
  "resume_begin env s0 =
     (if \<not> za_suspended s0 then (None, s0)
      else case call_ok env s0 of (gate, s) \<Rightarrow>
        if \<not> gate then (None, s)
        else
          (let s1 = invalidate_all_registrations ResumedSent
                      (s\<lparr>za_incarnation := None, za_pending_coverage := None, za_resume_epoch := za_resume_epoch s + 1\<rparr>);
               s2 = s1\<lparr>za_register_epoch := []\<rparr>
           in case generation_advance (za_generation s2) of
                Inl _ \<Rightarrow> (None, s2)
              | Inr g \<Rightarrow>
                  (case call_ok env (out_now OutRespawnRequest (s2\<lparr>za_generation := g\<rparr>)) of
                     (request_ok, s3) \<Rightarrow>
                       (case call_ok env (out_now (OutRespawnEvent g) s3) of
                          (event_ok, s4) \<Rightarrow>
                            (case (request_ok \<and> event_ok, en_epoch env, map_option sorted_members (en_members env)) of
                               (True, Some channel, Some members) \<Rightarrow>
                                 (Some \<lparr>pg_resume_epoch = za_resume_epoch s4, pg_channel = channel, pg_members = members\<rparr>, s4)
                             | _ \<Rightarrow> (None, fail_resume env RestartFailed s4))))))"

definition resume_end :: "'c environment \<Rightarrow> pending_coverage \<Rightarrow> 'c adapter \<Rightarrow> 'c adapter" where
  "resume_end env p s =
     (case (if za_shutdown s then (False, s) else resume_covered env (pg_resume_epoch p) (pg_channel p) (pg_members p) s) of
        (False, s1) \<Rightarrow> fail_resume env NotCovered s1
      | (True, s1) \<Rightarrow>
          (case complete_covered_incarnation env (pg_resume_epoch p) (pg_channel p) (pg_members p) None True s1 of
             (Inr _, s2) \<Rightarrow> s2
           | (Inl _, s2) \<Rightarrow> fail_resume env NotCovered s2))"

definition refresh_subscription :: "'c environment \<Rightarrow> 'c adapter \<Rightarrow> 'c adapter" where
  "refresh_subscription env s0 =
     (if za_shutdown s0 \<or> za_suspended s0 then s0
      else case call_ok env s0 of (gate, s) \<Rightarrow>
        if \<not> gate then s
        else
          (let s1 = s\<lparr>za_incarnation := None, za_pending_coverage := None, za_success := None\<rparr> in
           case generation_advance (za_generation s1) of
             Inl _ \<Rightarrow> s1
           | Inr g \<Rightarrow>
               (let s2 = invalidate_all_registrations SubscriptionReplaced (s1\<lparr>za_generation := g\<rparr>)
                in snd (call_ok env (out_now (OutRespawnEvent g) (s2\<lparr>za_register_epoch := []\<rparr>))))))"

definition shut_down :: "'c environment \<Rightarrow> 'c adapter \<Rightarrow> 'c adapter" where
  "shut_down env s0 =
     (case call_ok env s0 of (gate, s) \<Rightarrow>
      if \<not> gate \<or> za_shutdown s then s
      else
        (let s1 = settle_in_flight ShutdownInFlight
                    (s\<lparr>za_shutdown := True, za_incarnation := None, za_pending_coverage := None, za_success := None\<rparr>);
             s2 = settle_and_emit_matching (\<lambda>_. True) ShutdownSent (drain_queued_requests ShutdownQueued s1)
         in out_now OutPark (s2\<lparr>za_quiescing := True, za_pending_origin := [], za_pending_capture := []\<rparr>)))"

section \<open>Readiness\<close>

definition fresh_census_for :: "u64 \<Rightarrow> 'c adapter \<Rightarrow> str list" where
  "fresh_census_for as_of s =
     sort (map fst (filter (\<lambda>(client, stamped).
       fst stamped = za_resume_epoch s
       \<and> (case registry_get (za_registry s) client of
            Some a \<Rightarrow> rec_compatible a \<and> rec_last_event a \<le> as_of \<and> as_of - rec_last_event a \<le> HEARTBEAT_LEASE_MILLIS
          | None \<Rightarrow> False)) (za_register_epoch s)))"

definition MAX_READINESS_MEMBERS :: nat where
  "MAX_READINESS_MEMBERS = 1024"

definition canonical_member_set :: "str list \<Rightarrow> str list option" where
  "canonical_member_set ms = (if MAX_READINESS_MEMBERS < length ms then None else Some (sorted_members ms))"

definition readiness_snapshot_at :: "'c environment \<Rightarrow> u64 option \<Rightarrow> 'c adapter \<Rightarrow> (str list \<times> str list) option" where
  "readiness_snapshot_at env as_of s =
     (if za_suspended s \<or> za_quiescing s \<or> za_incarnation s = None
         \<or> (case as_of of Some at_tick \<Rightarrow> en_now env < at_tick | None \<Rightarrow> False)
      then None
      else case za_success s of
        None \<Rightarrow> None
      | Some snapshot \<Rightarrow>
          (case canonical_member_set snapshot of
             None \<Rightarrow> None
           | Some members \<Rightarrow>
               (let census = fresh_census_for (case as_of of Some at_tick \<Rightarrow> at_tick | None \<Rightarrow> en_now env) s in
                Some (filter (\<lambda>m. m \<in> set census) members, members))))"

end
