(* ===== verification/Zellij_Events.thy ===== *)
theory Zellij_Events
  imports Zellij_Coverage
begin

text \<open>
  Requests of the broker and lines of the bridges, \<open>muxe-adapter-zellij/src/adapter.rs\<close>: admission of
  a dispatch, the events a bridge reports, input captures, origins and pending panes, and one step of
  the adapter. A call that waits for a reply is the handler that asks and the handler that goes on.
  Which generated commands are valid, and the text of a registration, are arguments.
\<close>

section \<open>Dispatch\<close>

fun execution_to_common :: "execution_id \<Rightarrow> wire_execution_id" where
  "execution_to_common (ExecutionId n) = WireExecutionId (ucast n)"

fun common_to_core :: "wire_execution_id \<Rightarrow> execution_id option" where
  "common_to_core (WireExecutionId w) = (if drop_bit 64 w \<noteq> 0 then None else Some (ExecutionId (ucast w)))"

fun slots_for :: "nat \<Rightarrow> bridge_request_id \<Rightarrow> scalar_error + bridge_request_id list" where
  "slots_for 0 slot = Inr []"
| "slots_for (Suc n) slot = rbind (request_id_next slot) (\<lambda>after. rbind (slots_for n after) (\<lambda>slots. Inr (slot # slots)))"

definition refuse :: "adapter_error_kind \<Rightarrow> diagnostic \<Rightarrow> 'c adapter \<Rightarrow> 'c adapter" where
  "refuse kind d = out_now (OutRefused (AdapterError kind d))"

definition still_current :: "covered_incarnation option \<Rightarrow> str \<Rightarrow> 'c adapter \<Rightarrow> adapter_error + unit" where
  "still_current incarnation client s =
     (case incarnation of
        None \<Rightarrow> Inr ()
      | Some expected \<Rightarrow>
          (case za_incarnation s of
             None \<Rightarrow> Inl (AdapterError KindUnavailable NoCoverage)
           | Some current \<Rightarrow>
               if current \<noteq> expected
                 \<or> tab_get (za_register_epoch s) client \<noteq> Some (co_resume_epoch (ci_owner expected), co_channel (ci_owner expected))
               then Inl (AdapterError KindUnavailable StaleOrigin) else Inr ()))"

definition queue_commands ::
  "execution_id \<Rightarrow> str \<Rightarrow> covered_incarnation option \<Rightarrow> ('c, unit) zellij_request list \<Rightarrow> bridge_request_id list
   \<Rightarrow> 'c adapter \<Rightarrow> 'c adapter" where
  "queue_commands execution client incarnation payloads slots s =
     s\<lparr>za_live := tab_insert execution (new_execution execution slots) (za_live s),
       za_queues := tab_insert client
         (queue_of s client
          @ map (\<lambda>(payload, slot). \<lparr>qi_execution = Some execution, qi_slot = Some slot, qi_incarnation = incarnation,
                  qi_client = client, qi_payload = Some payload\<rparr>) (zip payloads slots)) (za_queues s)\<rparr>"

definition admit_dispatch ::
  "'c environment \<Rightarrow> execution_id \<Rightarrow> str \<Rightarrow> ('c, unit) zellij_request list \<Rightarrow> covered_incarnation option
   \<Rightarrow> 'c adapter \<Rightarrow> 'c adapter" where
  "admit_dispatch env execution client payloads incarnation s =
     (if is_local execution then refuse KindInvalidRequest ReservedExecution s
      else if payloads = [] then refuse KindInvalidRequest NoCommands s
      else case slots_for (length payloads) REQUEST_INITIAL of
        Inl _ \<Rightarrow> refuse KindInvalidRequest TooManyCommands s
      | Inr slots \<Rightarrow>
          (case require_active s of
             Inl error \<Rightarrow> out_now (OutRefused error) s
           | Inr _ \<Rightarrow>
               (case registry_get (za_registry s) client of
                  None \<Rightarrow> refuse KindUnavailable (NoActiveBridge client) s
                | Some a \<Rightarrow>
                    if \<not> rec_compatible a then refuse KindIncompatible (IncompatibleClient client) s
                    else (case still_current incarnation client s of
                            Inl error \<Rightarrow> out_now (OutRefused error) s
                          | Inr _ \<Rightarrow>
                              pump_all env (out_now (OutAccepted execution)
                                (queue_commands execution client incarnation payloads slots s))))))"

definition dispatch_to_client ::
  "'c environment \<Rightarrow> ('c \<Rightarrow> str + unit) \<Rightarrow> execution_id \<Rightarrow> str \<Rightarrow> 'c list \<Rightarrow> covered_incarnation option
   \<Rightarrow> 'c adapter \<Rightarrow> 'c adapter" where
  "dispatch_to_client env valid execution client commands incarnation s =
     (case each_ok valid commands of
        Inl error \<Rightarrow> refuse KindInvalidRequest (DetailText error) s
      | Inr _ \<Rightarrow> admit_dispatch env execution client
             (map (\<lambda>c. BrDispatch (execution_to_common execution) (DispatchCommand c)) commands) incarnation s)"

section \<open>Events of a bridge\<close>

definition on_released :: "'c environment \<Rightarrow> bridge_request_id \<Rightarrow> channel_generation \<Rightarrow> registration_id \<Rightarrow> 'c adapter \<Rightarrow> 'c adapter" where
  "on_released env n generation r s =
     (case za_in_flight s of
        None \<Rightarrow> s
      | Some p \<Rightarrow>
          if fl_request p = \<lparr>pv_request_id = n, pv_registration = r\<rparr> \<and> fl_generation p = generation
          then pump_all env (s\<lparr>za_in_flight := None\<rparr>) else s)"

fun reported_outcome :: "command_status \<Rightarrow> str \<Rightarrow> (outcome_rank \<times> adapter_error) option" where
  "reported_outcome StatusSucceeded detail = None"
| "reported_outcome StatusFailed detail = Some (RankFailed, AdapterError KindDispatchFailed (DetailText detail))"
| "reported_outcome StatusOutcomeUnknown detail = Some (RankUnknown, AdapterError KindOutcomeUnknown (DetailText detail))"

definition on_completed ::
  "bridge_request_id \<Rightarrow> registration_id \<Rightarrow> wire_execution_id \<Rightarrow> command_outcome \<Rightarrow> 'c adapter \<Rightarrow> 'c adapter" where
  "on_completed n r execution outcome s =
     (case common_to_core execution of
        None \<Rightarrow> s
      | Some e \<Rightarrow>
          (case tab_get (za_live s) e of
             None \<Rightarrow> s
           | Some x \<Rightarrow>
               (case tab_get (xr_requests x) n of
                  Some (Some p) \<Rightarrow>
                    if pv_registration p \<noteq> r then s
                    else (case note_outcome (reported_outcome (oc_status outcome) (oc_detail outcome))
                                 (x\<lparr>xr_requests := tab_remove n (xr_requests x)\<rparr>) of
                            (x', done) \<Rightarrow>
                              if done then emit_completed (terminal_of x') (s\<lparr>za_live := tab_remove e (za_live s)\<rparr>)
                              else s\<lparr>za_live := tab_insert e x' (za_live s)\<rparr>)
                | _ \<Rightarrow> s)))"

fun on_response ::
  "'c environment \<Rightarrow> bridge_request_id \<Rightarrow> registration_id \<Rightarrow> channel_generation \<Rightarrow> unit zellij_response \<Rightarrow> 'c adapter \<Rightarrow> 'c adapter" where
  "on_response env n r generation RequestReleased s = on_released env n generation r s"
| "on_response env n r generation (DispatchCompleted execution outcome) s = on_completed n r execution outcome s"
| "on_response env n r generation (OriginSnapshot (UiSessionId ui) origin) s =
     (if tab_get (za_pending_origin s) ui = Some (Some \<lparr>pv_request_id = n, pv_registration = r\<rparr>)
      then out_now (OutOrigin (UiSessionId ui) (Some origin)) (s\<lparr>za_pending_origin := tab_remove ui (za_pending_origin s)\<rparr>) else s)"
| "on_response env n r generation (OriginDeclined (UiSessionId ui)) s =
     (if tab_get (za_pending_origin s) ui = Some (Some \<lparr>pv_request_id = n, pv_registration = r\<rparr>)
      then out_now (OutOrigin (UiSessionId ui) None) (s\<lparr>za_pending_origin := tab_remove ui (za_pending_origin s)\<rparr>) else s)"
| "on_response env n r generation (CaptureReady (CaptureLeaseId lease) st) s =
     (case tab_get (za_pending_capture s) lease of
        Some (_, Some request) \<Rightarrow>
          if request = \<lparr>pv_request_id = n, pv_registration = r\<rparr>
          then out_now (OutCaptureReply (CaptureLeaseId lease) (prior_mode st))
                 (s\<lparr>za_pending_capture := tab_remove lease (za_pending_capture s)\<rparr>)
          else s
      | _ \<Rightarrow> s)"
| "on_response env n r generation _ s = s"

fun on_bridge_event :: "'c environment \<Rightarrow> str \<Rightarrow> registration_id \<Rightarrow> unit zellij_event \<Rightarrow> 'c adapter \<Rightarrow> 'c adapter" where
  "on_bridge_event env client r (EvCaptureLost (CaptureLeaseId lease) reason) s =
     publish_event (OutCaptureLost None (CaptureLeaseId lease) (if reason = LostBridgeUnloading then LostAdapterHealth else reason))
       (s\<lparr>za_pending_capture := tab_remove lease (za_pending_capture s)\<rparr>)"
| "on_bridge_event env client r EvHeartbeat s =
     with_gate env (\<lambda>s. s\<lparr>za_registry := fst (heartbeat client r (en_now env) (za_registry s))\<rparr>) s"
| "on_bridge_event env client r _ s = s"

text \<open>An unreadable line restarts the pipes; a line of an earlier channel generation is ignored.\<close>

definition handle_event_line :: "'c environment \<Rightarrow> u64 \<Rightarrow> str \<Rightarrow> 'c adapter \<Rightarrow> 'c adapter" where
  "handle_event_line env channel line s =
     (case decode_event_line (en_parse env) line of
        Inl _ \<Rightarrow> restart_whole_pipe env s
      | Inr frame \<Rightarrow>
          if ev_generation frame \<noteq> za_generation s then s
          else (case ev_event frame of
                  OutEvent (EvRegister details) \<Rightarrow>
                    on_register env channel (ev_generation frame) (zr_client_id details) (zr_current_pane details)
                      (ev_registration frame) (zr_identity details) s
                | event \<Rightarrow>
                    (case client_for_registration (ev_registration frame) (za_registry s) of
                       None \<Rightarrow> s
                     | Some client \<Rightarrow>
                         (case (event, ev_request_id frame) of
                            (OutResponse response, Some n) \<Rightarrow> on_response env n (ev_registration frame) (ev_generation frame) response s
                          | (OutResponse response, None) \<Rightarrow> s
                          | (OutEvent e, _) \<Rightarrow> on_bridge_event env client (ev_registration frame) e s))))"

section \<open>Captures\<close>

definition set_captures :: "capture_table \<Rightarrow> 'c adapter \<Rightarrow> 'c adapter" where
  "set_captures t s = s\<lparr>za_captures := t\<rparr>"

fun capture_start :: "'c environment \<Rightarrow> str \<Rightarrow> ui_session_id \<Rightarrow> capture_lease_id \<Rightarrow> 'c adapter \<Rightarrow> 'c adapter" where
  "capture_start env client ui (CaptureLeaseId lease) s =
     (case require_active s of
        Inl error \<Rightarrow> out_now (OutRefused error) s
      | Inr _ \<Rightarrow>
          (case active_registration env client s of
             (Inl error, s1) \<Rightarrow> out_now (OutRefused error) s1
           | (Inr _, s1) \<Rightarrow>
               (case capture_begin client ui (CaptureLeaseId lease) (za_captures s1) of
                  (_, Inl error) \<Rightarrow> refuse KindUnavailable (CaptureTaken error) s1
                | (t, Inr _) \<Rightarrow>
                    enqueue_lifecycle env client (BrBeginCapture (CaptureLeaseId lease) ui)
                      (s1\<lparr>za_captures := t, za_pending_capture := tab_insert lease (client, None) (za_pending_capture s1)\<rparr>))))"

definition capture_replied :: "str \<Rightarrow> capture_lease_id \<Rightarrow> str \<Rightarrow> 'c adapter \<Rightarrow> 'c adapter" where
  "capture_replied client lease prior s =
     (case capture_confirm client lease prior (za_captures s) of
        (t, Inr _) \<Rightarrow> set_captures t s
      | (t, Inl _) \<Rightarrow>
          refuse KindUnavailable CaptureLostInSetup (set_captures (fst (capture_release client lease False t)) s))"

fun begins_lease :: "nonce \<Rightarrow> 'c queued_item \<Rightarrow> bool" where
  "begins_lease lease item = (case qi_payload item of Some (BrBeginCapture (CaptureLeaseId l) _) \<Rightarrow> l = lease | _ \<Rightarrow> False)"

definition retain_for :: "str \<Rightarrow> ('c queued_item \<Rightarrow> bool) \<Rightarrow> 'c adapter \<Rightarrow> 'c adapter" where
  "retain_for client P s =
     (if tab_has (za_queues s) client
      then s\<lparr>za_queues := tab_insert client (filter P (queue_of s client)) (za_queues s)\<rparr> else s)"

fun capture_timeout :: "'c environment \<Rightarrow> str \<Rightarrow> capture_lease_id \<Rightarrow> 'c adapter \<Rightarrow> 'c adapter" where
  "capture_timeout env client (CaptureLeaseId lease) s =
     (let sent = (case tab_get (za_pending_capture s) lease of Some (_, Some _) \<Rightarrow> True | _ \<Rightarrow> False);
          s1 = s\<lparr>za_pending_capture := tab_remove lease (za_pending_capture s)\<rparr>;
          s2 = (if sent then s1 else retain_for client (\<lambda>item. \<not> begins_lease lease item) s1);
          s3 = set_captures (fst (capture_release client (CaptureLeaseId lease) False (za_captures s2))) s2;
          s4 = (if sent then enqueue_lifecycle env client (BrEndCapture (CaptureLeaseId lease) EndLeaseExpired) s3 else s3)
      in refuse KindUnavailable CaptureUnconfirmed s4)"

definition capture_stop :: "'c environment \<Rightarrow> str \<Rightarrow> capture_lease_id \<Rightarrow> capture_end_reason \<Rightarrow> 'c adapter \<Rightarrow> 'c adapter" where
  "capture_stop env client lease reason s =
     (case require_active s of
        Inl error \<Rightarrow> out_now (OutRefused error) s
      | Inr _ \<Rightarrow>
          (let s1 = set_captures (fst (capture_release client lease (reason = EndUiDismissed \<or> reason = EndReplaced) (za_captures s))) s in
           case active_registration env client s1 of
             (Inl _, s2) \<Rightarrow> s2
           | (Inr _, s2) \<Rightarrow> enqueue_lifecycle env client (BrEndCapture lease reason) s2))"

section \<open>Origins\<close>

fun origin_ask :: "'c environment \<Rightarrow> str \<Rightarrow> registration_id \<Rightarrow> ui_session_id \<Rightarrow> str \<Rightarrow> 'c adapter \<Rightarrow> 'c adapter" where
  "origin_ask env client r (UiSessionId ui) pane s =
     (case check_registration client r (za_registry s) of
        Inl _ \<Rightarrow> s
      | Inr _ \<Rightarrow>
          enqueue_lifecycle env client (BrRequestOrigin (UiSessionId ui) (OriginRequest pane))
            (s\<lparr>za_pending_origin := tab_insert ui None (za_pending_origin s)\<rparr>))"

fun asks_origin :: "str \<Rightarrow> 'c queued_item \<Rightarrow> bool" where
  "asks_origin ui item = (case qi_payload item of Some (BrRequestOrigin (UiSessionId u) _) \<Rightarrow> u = ui | _ \<Rightarrow> False)"

text \<open>The reply, or the end of the wait; a confirmed snapshot claims its pane for the client.\<close>

fun origin_done ::
  "str \<Rightarrow> registration_id \<Rightarrow> ui_session_id \<Rightarrow> str \<Rightarrow> zellij_origin option \<Rightarrow> 'c adapter \<Rightarrow> 'c adapter" where
  "origin_done client r (UiSessionId ui) pane answer s =
     (let s1 = retain_for client (\<lambda>item. \<not> asks_origin ui item) (s\<lparr>za_pending_origin := tab_remove ui (za_pending_origin s)\<rparr>) in
      case (answer, check_registration client r (za_registry s1)) of
        (Some origin, Inr _) \<Rightarrow>
          s1\<lparr>za_pane_claims := tab_insert pane client (za_pane_claims s1),
             za_snapshots := tab_insert pane origin (za_snapshots s1)\<rparr>
      | _ \<Rightarrow> s1)"

section \<open>Pending panes\<close>

definition zellij_register_pending_pane :: "'c environment \<Rightarrow> (registration_id \<Rightarrow> str) \<Rightarrow> str \<Rightarrow> 'c adapter \<Rightarrow> 'c adapter" where
  "zellij_register_pending_pane env text_of pane s =
     (case require_active s of
        Inl error \<Rightarrow> out_now (OutRefused error) s
      | Inr _ \<Rightarrow>
          (case client_for_pane pane (za_registry s) of
             None \<Rightarrow> refuse KindUnavailable (NoActiveBridge pane) s
           | Some a \<Rightarrow>
               (let client = rec_client a in
                case active_registration env client s of
                  (Inl error, s1) \<Rightarrow> out_now (OutRefused error) s1
                | (Inr r, s1) \<Rightarrow>
                    s1\<lparr>za_pending_leases := tab_insert
                         (lit ''zellij:'' @ client @ lit '':'' @ text_of r @ lit '':'' @ pane) (client, r) (za_pending_leases s1)\<rparr>)))"

definition close_pane :: "'c environment \<Rightarrow> 'c \<Rightarrow> str \<Rightarrow> 'c adapter \<Rightarrow> 'c adapter" where
  "close_pane env command lease s =
     (case require_active s of
        Inl error \<Rightarrow> out_now (OutRefused error) s
      | Inr _ \<Rightarrow>
          (case tab_get (za_pending_leases s) lease of
             None \<Rightarrow> refuse KindUnavailable LeaseInactive s
           | Some (client, r) \<Rightarrow>
               (case active_registration env client s of
                  (Inl error, s1) \<Rightarrow> out_now (OutRefused error) s1
                | (Inr current, s1) \<Rightarrow>
                    if current \<noteq> r then refuse KindUnavailable LeaseOutdated s1
                    else
                      (case mint_local_execution s1 of
                         (e, s2) \<Rightarrow>
                           enqueue_item env \<lparr>qi_execution = Some e, qi_slot = Some REQUEST_INITIAL, qi_incarnation = None,
                               qi_client = client, qi_payload = Some (BrDispatch (execution_to_common e) (DispatchCommand command))\<rparr>
                             (s2\<lparr>za_close_waiters := insert e (za_close_waiters s2),
                                 za_live := tab_insert e (new_execution e [REQUEST_INITIAL]) (za_live s2)\<rparr>)))))"

text \<open>The wait is over: an unsent close is taken back, and a confirmed one releases its lease.\<close>

definition close_done :: "execution_id \<Rightarrow> str \<Rightarrow> dispatch_completion option \<Rightarrow> 'c adapter \<Rightarrow> 'c adapter" where
  "close_done e lease answer s =
     (let keep = (\<lambda>item. qi_execution item \<noteq> Some e);
          unsent = list_ex (\<lambda>q. list_ex (\<lambda>item. \<not> keep item) (snd q)) (za_queues s);
          s1 = s\<lparr>za_queues := retain_items keep (za_queues s),
                 za_live := (if unsent then tab_remove e (za_live s) else za_live s),
                 za_close_waiters := za_close_waiters s - {e}\<rparr>
      in if \<not> unsent \<and> answer = Some (CompletionSucceeded e)
         then s1\<lparr>za_pending_leases := tab_remove lease (za_pending_leases s1)\<rparr> else s1)"

definition release_pending_pane :: "str \<Rightarrow> 'c adapter \<Rightarrow> 'c adapter" where
  "release_pending_pane lease s = s\<lparr>za_pending_leases := tab_remove lease (za_pending_leases s)\<rparr>"

section \<open>One step\<close>

datatype 'c adapter_input =
    InDispatch execution_id str "'c zellij_dispatch list" "covered_incarnation option"
  | InLine u64 str
  | InPipeFailed
  | InSweep
  | InReleaseOverdue request_provenance channel_generation
  | InCaptureStart str ui_session_id capture_lease_id
  | InCaptureReplied str capture_lease_id str
  | InCaptureTimeout str capture_lease_id
  | InCaptureStop str capture_lease_id capture_end_reason
  | InOriginAsk str registration_id ui_session_id str
  | InOriginDone str registration_id ui_session_id str "zellij_origin option"
  | InRegisterPane "registration_id \<Rightarrow> str" str
  | InClosePane 'c str
  | InCloseDone u64 str "dispatch_completion option"
  | InReleasePane str
  | InSuspend | InResumeBegin | InResumeEnd pending_coverage | InRefresh | InShutdown

fun adapter_step :: "'c adapter \<Rightarrow> 'c adapter_input \<times> 'c environment \<Rightarrow> 'c adapter" where
  "adapter_step s (InDispatch e client commands incarnation, env) =
     admit_dispatch env e client (map (BrDispatch (execution_to_common e)) commands) incarnation s"
| "adapter_step s (InLine channel line, env) = handle_event_line env channel line s"
| "adapter_step s (InPipeFailed, env) = restart_whole_pipe env s"
| "adapter_step s (InSweep, env) = sweep_expired_clients env s"
| "adapter_step s (InReleaseOverdue request generation, env) = release_overdue env request generation s"
| "adapter_step s (InCaptureStart client ui lease, env) = capture_start env client ui lease s"
| "adapter_step s (InCaptureReplied client lease prior, env) = capture_replied client lease prior s"
| "adapter_step s (InCaptureTimeout client lease, env) = capture_timeout env client lease s"
| "adapter_step s (InCaptureStop client lease reason, env) = capture_stop env client lease reason s"
| "adapter_step s (InOriginAsk client r ui pane, env) = origin_ask env client r ui pane s"
| "adapter_step s (InOriginDone client r ui pane answer, env) = origin_done client r ui pane answer s"
| "adapter_step s (InRegisterPane text_of pane, env) = zellij_register_pending_pane env text_of pane s"
| "adapter_step s (InClosePane command lease, env) = close_pane env command lease s"
| "adapter_step s (InCloseDone n lease answer, env) = close_done (ExecutionId (LOCAL_EXECUTION_CEILING OR n)) lease answer s"
| "adapter_step s (InReleasePane lease, env) = release_pending_pane lease s"
| "adapter_step s (InSuspend, env) = suspend_for_activation env s"
| "adapter_step s (InResumeBegin, env) = snd (resume_begin env s)"
| "adapter_step s (InResumeEnd p, env) = resume_end env p s"
| "adapter_step s (InRefresh, env) = refresh_subscription env s"
| "adapter_step s (InShutdown, env) = shut_down env s"

definition new_adapter :: "'c adapter" where
  "new_adapter =
     \<lparr>za_registry = new_registry, za_cursor = None, za_pending_origin = [], za_captures = [], za_queues = [],
      za_in_flight = None, za_live = [], za_close_waiters = {}, za_pending_capture = [], za_pane_claims = [],
      za_pending_leases = [], za_snapshots = [], za_generation = GENERATION_INITIAL, za_next_local = 1,
      za_quiescing = False, za_shutdown = False, za_suspended = False, za_resume_epoch = 0, za_register_epoch = [],
      za_incarnation = None, za_startup = None, za_pending_coverage = None, za_success = None, za_calls = 0, za_out = []\<rparr>"

definition adapter_run :: "('c adapter_input \<times> 'c environment) list \<Rightarrow> 'c adapter" where
  "adapter_run inputs = foldl adapter_step new_adapter inputs"

end
