(* ===== verification/Zellij_Account.thy ===== *)
theory Zellij_Account
  imports Zellij_Events
begin

text \<open>
  The bookkeeping of executions, apart from everything else the adapter does: which executions are
  live and which of their requests are open, which items are queued or in hand, which registrations
  are active, and what was told to the broker. Every handler of the adapter is a run of these moves
  (theory \<open>Zellij_Simulation\<close>); here are the invariants of the moves.
\<close>

section \<open>Moves\<close>

record 'c account =
  ac_live :: live_executions
  ac_items :: "'c queued_item multiset"
  ac_active :: "registration_id set"
  ac_lost :: "registration_id set"
  ac_waiters :: "execution_id set"
  ac_flying :: "execution_id option"
  ac_ledger :: "'c adapter_effect list"
  ac_quiescing :: bool

definition ac_emit :: "dispatch_completion \<Rightarrow> 'c account \<Rightarrow> 'c account" where
  "ac_emit c a =
     (if is_local (dispatch_completion_execution c)
      then a\<lparr>ac_waiters := ac_waiters a - {dispatch_completion_execution c}\<rparr>
      else if ac_quiescing a then a else a\<lparr>ac_ledger := ac_ledger a @ [OutCompleted c]\<rparr>)"

definition ac_terminal :: "dispatch_completion option \<Rightarrow> 'c account \<Rightarrow> 'c account" where
  "ac_terminal t a = (case t of None \<Rightarrow> a | Some c \<Rightarrow> ac_emit c a)"

text \<open>The argument tells whether every admitted execution has a single command.\<close>

inductive ledger_step :: "bool \<Rightarrow> 'c account \<Rightarrow> 'c account \<Rightarrow> bool" for single :: bool where
  item_added: "qi_execution i = None \<Longrightarrow> ledger_step single a (a\<lparr>ac_items := add_mset i (ac_items a)\<rparr>)"
| item_dropped: "ac_items a = add_mset i M \<Longrightarrow> qi_execution i = None \<Longrightarrow> ledger_step single a (a\<lparr>ac_items := M\<rparr>)"
| item_stamped: "ac_items a = add_mset i M \<Longrightarrow> qi_execution i \<noteq> None \<Longrightarrow> qi_slot i = None
    \<Longrightarrow> ledger_step single a (a\<lparr>ac_items := add_mset (i\<lparr>qi_slot := Some n\<rparr>) M\<rparr>)"
| item_relabelled: "ac_items a = add_mset i M \<Longrightarrow> qi_execution j = qi_execution i \<Longrightarrow> qi_slot j = qi_slot i
    \<Longrightarrow> ledger_step single a (a\<lparr>ac_items := add_mset j M\<rparr>)"
| item_forgotten: "ac_items a = add_mset i M \<Longrightarrow> qi_slot i = None \<Longrightarrow> ledger_step single a (a\<lparr>ac_items := M\<rparr>)"
| landed: "ledger_step single a (a\<lparr>ac_flying := None\<rparr>)"
| sent_unknown: "ac_items a = add_mset i M \<Longrightarrow> qi_execution i = Some e \<Longrightarrow> tab_get (ac_live a) e = None
    \<Longrightarrow> ledger_step single a (a\<lparr>ac_items := M, ac_flying := Some e\<rparr>)"
| sent: "ac_items a = add_mset i M \<Longrightarrow> qi_execution i = Some e \<Longrightarrow> tab_get (ac_live a) e = Some x
    \<Longrightarrow> rename_slot p (qi_slot i) x = (x', k) \<Longrightarrow> pv_registration p \<in> ac_active a
    \<Longrightarrow> ledger_step single a (a\<lparr>ac_items := M, ac_live := tab_insert e x' (ac_live a), ac_flying := Some e\<rparr>)"
| item_settled: "ac_items a = add_mset i M \<Longrightarrow> qi_execution i = Some e \<Longrightarrow> qi_slot i = Some k
    \<Longrightarrow> settle_slot e k out (ac_live a) = (live, t)
    \<Longrightarrow> ledger_step single a (ac_terminal t (a\<lparr>ac_items := M, ac_live := live\<rparr>))"
| any_settled: "ac_items a = add_mset i M \<Longrightarrow> qi_execution i = Some e \<Longrightarrow> qi_slot i = None
    \<Longrightarrow> settle_any_slot e out (ac_live a) = (live, t)
    \<Longrightarrow> ledger_step single a (ac_terminal t (a\<lparr>ac_items := M, ac_live := live\<rparr>))"
| flying_settled: "ac_flying a = Some e \<Longrightarrow> settle_slot e k out (ac_live a) = (live, t)
    \<Longrightarrow> ledger_step single a (ac_terminal t (a\<lparr>ac_live := live, ac_flying := None\<rparr>))"
| reported: "tab_get (ac_live a) e = Some x \<Longrightarrow> tab_get (xr_requests x) n = Some (Some p)
    \<Longrightarrow> settle_slot e n out (ac_live a) = (live, t) \<Longrightarrow> ledger_step single a (ac_terminal t (a\<lparr>ac_live := live\<rparr>))"
| matched: "settle_matching matches error (ac_live a) = (live, ts) \<Longrightarrow> mset us = mset ts
    \<Longrightarrow> (\<And>p. pv_registration p \<in> R \<Longrightarrow> matches p)
    \<Longrightarrow> ledger_step single a (fold ac_emit us (a\<lparr>ac_live := live, ac_lost := ac_lost a - R\<rparr>))"
| registry_changed: "ac_lost a \<subseteq> L \<Longrightarrow> ac_active a \<subseteq> A \<union> L \<Longrightarrow> ledger_step single a (a\<lparr>ac_active := A, ac_lost := L\<rparr>)"
| admitted: "\<not> is_local e \<Longrightarrow> slots_for n REQUEST_INITIAL = Inr slots \<Longrightarrow> 0 < n \<Longrightarrow> (single \<Longrightarrow> n = 1)
    \<Longrightarrow> map qi_execution items = replicate n (Some e) \<Longrightarrow> map qi_slot items = map Some slots
    \<Longrightarrow> ledger_step single a
      (a\<lparr>ac_live := tab_insert e (new_execution e slots) (ac_live a), ac_items := ac_items a + mset items,
         ac_ledger := ac_ledger a @ [OutAccepted e]\<rparr>)"
| close_opened: "is_local e \<Longrightarrow> qi_execution i = Some e
    \<Longrightarrow> ledger_step single a
      (a\<lparr>ac_live := tab_insert e (new_execution e [REQUEST_INITIAL]) (ac_live a), ac_items := add_mset i (ac_items a),
         ac_waiters := insert e (ac_waiters a)\<rparr>)"
| close_ended: "is_local e
    \<Longrightarrow> ledger_step single a
      (a\<lparr>ac_live := (if unsent then tab_remove e (ac_live a) else ac_live a),
         ac_items := filter_mset (\<lambda>i. qi_execution i \<noteq> Some e) (ac_items a), ac_waiters := ac_waiters a - {e}\<rparr>)"
| quiesced: "ledger_step single a (a\<lparr>ac_quiescing := True\<rparr>)"

section \<open>Settling one record\<close>

definition live_ok :: "live_executions \<Rightarrow> bool" where
  "live_ok live \<longleftrightarrow> tab_ok live \<and> btree.indexed_by xr_execution live"

lemma note_outcome_fields:
  "note_outcome out x = (x', done) \<Longrightarrow> xr_execution x' = xr_execution x \<and> xr_requests x' = xr_requests x
    \<and> xr_total x' = xr_total x \<and> xr_settled x' = Suc (xr_settled x) \<and> (done \<longleftrightarrow> Suc (xr_settled x) = xr_total x)"
  by (auto simp: note_outcome_def note_success_def note_failure_def Let_def split: option.splits prod.splits if_splits)

lemma terminal_execution [simp]: "dispatch_completion_execution (terminal_of x) = xr_execution x"
  by (simp add: terminal_of_def split: option.split outcome_rank.split)

text \<open>What settling a slot may do to an execution: nothing, note it, or end the execution.\<close>

lemma settle_slot_cases:
  assumes "settle_slot e k out live = (live', t)"
  obtains (absent) "live' = live" "t = None" "\<And>x. tab_get live e = Some x \<Longrightarrow> \<not> tab_has (xr_requests x) k"
  | (noted) x x' where "tab_get live e = Some x" "tab_has (xr_requests x) k" "live' = tab_insert e x' live" "t = None"
      "xr_execution x' = xr_execution x" "xr_requests x' = tab_remove k (xr_requests x)"
      "xr_total x' = xr_total x" "xr_settled x' = Suc (xr_settled x)" "xr_settled x' \<noteq> xr_total x'"
  | (ended) x c where "tab_get live e = Some x" "tab_has (xr_requests x) k" "live' = tab_remove e live" "t = Some c"
      "dispatch_completion_execution c = xr_execution x" "Suc (xr_settled x) = xr_total x"
  using assms
  by (auto simp: settle_slot_def split: option.splits if_splits prod.splits dest!: note_outcome_fields)

lemma settle_any_slot_is: "settle_any_slot e out live = (live', t) \<Longrightarrow>
    live' = live \<and> t = None \<or> (\<exists>k. settle_slot e k out live = (live', t))"
  by (auto simp: settle_any_slot_def split: option.splits list.splits prod.splits)

lemma live_get: "live_ok live \<Longrightarrow> tab_get live e = Some x \<Longrightarrow> xr_execution x = e"
  by (simp add: live_ok_def btree.indexed_by_def)

lemma live_insert: "live_ok live \<Longrightarrow> xr_execution x = e \<Longrightarrow> live_ok (tab_insert e x live)"
  by (simp add: live_ok_def tab_ok_insert btree.indexed_put)

lemma live_remove: "live_ok live \<Longrightarrow> live_ok (tab_remove e live)"
  by (simp add: live_ok_def tab_ok_remove btree.indexed_drop)

lemma live_tab: "live_ok live \<Longrightarrow> tab_ok live"
  by (simp add: live_ok_def)

lemma settle_slot_ok: "live_ok live \<Longrightarrow> settle_slot e k out live = (live', t) \<Longrightarrow> live_ok live'"
  by (erule settle_slot_cases) (auto intro!: live_insert live_remove dest: live_get)

lemma settle_any_ok: "live_ok live \<Longrightarrow> settle_any_slot e out live = (live', t) \<Longrightarrow> live_ok live'"
  by (auto dest: settle_any_slot_is intro: settle_slot_ok)

lemma rename_slot_fields:
  "rename_slot p slot x = (x', k) \<Longrightarrow> xr_execution x' = xr_execution x \<and> xr_total x' = xr_total x \<and> xr_settled x' = xr_settled x"
  by (auto simp: rename_slot_def Let_def split: option.splits if_splits)

section \<open>Settling all matching requests\<close>

lemma note_unknown_fields:
  "note_unknown n error (x, d) = (x', done) \<Longrightarrow> xr_execution x' = xr_execution x \<and> xr_requests x' = xr_requests x
    \<and> xr_total x' = xr_total x \<and> xr_settled x' = xr_settled x + n
    \<and> (0 < n \<longrightarrow> (done \<longleftrightarrow> xr_settled x' = xr_total x'))"
proof (induction n arbitrary: x d)
  case (Suc n)
  obtain y b where y: "note_failure RankUnknown error x = (y, b)" by fastforce
  have "note_outcome (Some (RankUnknown, error)) x = (y, b)" by (simp add: note_outcome_def y)
  from note_outcome_fields [OF this] Suc.IH [of y b] Suc.prems y show ?case by (cases n) auto
qed simp

definition matched_keys :: "(request_provenance \<Rightarrow> bool) \<Rightarrow> execution_record \<Rightarrow> bridge_request_id list" where
  "matched_keys matches x = map fst (filter (\<lambda>e. case snd e of None \<Rightarrow> False | Some p \<Rightarrow> matches p) (xr_requests x))"

lemma settle_record_fields:
  assumes "settle_record matches error x = (x', done)"
  shows "xr_execution x' = xr_execution x \<and> xr_total x' = xr_total x
    \<and> xr_requests x' = filter (\<lambda>e. fst e \<notin> set (matched_keys matches x)) (xr_requests x)
    \<and> xr_settled x' = xr_settled x + length (matched_keys matches x)
    \<and> (done \<longleftrightarrow> matched_keys matches x \<noteq> [] \<and> xr_settled x' = xr_total x')"
proof -
  let ?y = "x\<lparr>xr_requests := filter (\<lambda>e. fst e \<notin> set (matched_keys matches x)) (xr_requests x)\<rparr>"
  obtain y d where y: "note_unknown (length (matched_keys matches x)) error (?y, False) = (y, d)" by fastforce
  have x': "x' = y" "done = (0 < length (matched_keys matches x) \<and> d)"
    using assms y by (simp_all add: settle_record_def matched_keys_def [symmetric] Let_def)
  show ?thesis using note_unknown_fields [OF y] x' by auto
qed

definition ends_matching :: "(request_provenance \<Rightarrow> bool) \<Rightarrow> adapter_error \<Rightarrow> live_executions \<Rightarrow> execution_id \<Rightarrow> bool" where
  "ends_matching matches error live e \<longleftrightarrow> (\<exists>x. tab_get live e = Some x \<and> snd (settle_record matches error x))"

lemma settle_matching_get:
  assumes "live_ok live" "settle_matching matches error live = (live', ts)"
  shows "live_ok live'"
    and "tab_get live' e = (case tab_get live e of None \<Rightarrow> None
        | Some x \<Rightarrow> if snd (settle_record matches error x) then None else Some (fst (settle_record matches error x)))"
proof -
  let ?f = "\<lambda>e :: execution_id \<times> execution_record. (fst e, settle_record matches error (snd e))"
  have live': "live' = map (\<lambda>e. (fst e, fst (settle_record matches error (snd e)))) (filter (\<lambda>e. \<not> snd (settle_record matches error (snd e))) live)"
    using assms(2) by (auto simp: settle_matching_def Let_def filter_map comp_def)
  have t: "tab_ok live" "tab_ok live'"
    using live_tab [OF assms(1)] tab_ok_filter [of live] by (simp_all add: live' tab_ok_def comp_def)
  show get: "tab_get live' e = (case tab_get live e of None \<Rightarrow> None
        | Some x \<Rightarrow> if snd (settle_record matches error x) then None else Some (fst (settle_record matches error x)))" for e
  proof (cases "tab_get live e")
    case None
    then have "e \<notin> fst ` set live" by (simp add: tab_get_def map_of_eq_None_iff)
    then have "e \<notin> fst ` set live'" by (force simp: live')
    then have "tab_get live' e = None" by (simp add: tab_get_def map_of_eq_None_iff)
    then show ?thesis using None by simp
  next
    case (Some x)
    then have x: "(e, y) \<in> set live \<longleftrightarrow> y = x" for y using tab_get_in_set [OF t(1), of e y] by auto
    show ?thesis
    proof (cases "snd (settle_record matches error x)")
      case True
      then have "e \<notin> fst ` set live'" using x by (auto simp: live')
      then show ?thesis using Some True by (simp add: tab_get_def map_of_eq_None_iff)
    next
      case False
      then have "(e, fst (settle_record matches error x)) \<in> set live'" using x by (force simp: live')
      then show ?thesis using Some False by (simp add: tab_get_in_set [OF t(2)])
    qed
  qed
  have "xr_execution y = k" if "tab_get live' k = Some y" for k y
    using that get [of k] settle_record_fields [OF prod.collapse [symmetric]] live_get [OF assms(1)]
    by (auto split: option.splits if_splits)
  then show "live_ok live'" using t(2) by (simp add: live_ok_def btree.indexed_by_def)
qed

lemma settle_matching_terminals:
  assumes "live_ok live" "settle_matching matches error live = (live', ts)"
  shows "length (filter (\<lambda>c. dispatch_completion_execution c = e) ts) = (if ends_matching matches error live e then 1 else 0)"
proof -
  let ?done = "\<lambda>e :: execution_id \<times> execution_record. snd (settle_record matches error (snd e))"
  have ts: "ts = map (\<lambda>e. terminal_of (fst (settle_record matches error (snd e)))) (filter ?done live)"
    using assms(2) by (auto simp: settle_matching_def Let_def filter_map comp_def)
  have key: "xr_execution (fst (settle_record matches error x)) = k" if "(k, x) \<in> set live" for k x
    using that settle_record_fields [OF prod.collapse [symmetric]] live_get [OF assms(1)] tab_get_in_set [OF live_tab [OF assms(1)]]
    by metis
  have "filter (\<lambda>c. dispatch_completion_execution c = e) ts
    = map (\<lambda>e. terminal_of (fst (settle_record matches error (snd e)))) (filter (\<lambda>y. ?done y \<and> fst y = e) live)"
    unfolding ts filter_map filter_filter using key by (auto intro!: arg_cong [where f = "map _"] filter_cong)
  then have "length (filter (\<lambda>c. dispatch_completion_execution c = e) ts) = length (filter (\<lambda>y. ?done y \<and> fst y = e) live)"
    by simp
  also have "\<dots> = (if ends_matching matches error live e then 1 else 0)"
  proof (cases "tab_get live e")
    case None
    then have "filter (\<lambda>y. ?done y \<and> fst y = e) live = []"
      by (auto simp: filter_empty_conv tab_get_def map_of_eq_None_iff)
    then show ?thesis using None by (simp add: ends_matching_def)
  next
    case (Some x)
    have d: "distinct live" using tab_ok_distinct [OF live_tab [OF assms(1)]] by (simp add: distinct_map)
    have x: "(e, y) \<in> set live \<longleftrightarrow> y = x" for y
      using tab_get_in_set [OF live_tab [OF assms(1)], of e y] Some by auto
    show ?thesis
    proof (cases "snd (settle_record matches error x)")
      case True
      have "filter (\<lambda>y. ?done y \<and> fst y = e) live = [(e, x)]"
        using x True by (subst filter_singleton [OF d]) auto
      then show ?thesis using Some True by (simp add: ends_matching_def)
    next
      case False
      then have "filter (\<lambda>y. ?done y \<and> fst y = e) live = []" using x by (auto simp: filter_empty_conv)
      then show ?thesis using Some False by (simp add: ends_matching_def)
    qed
  qed
  finally show ?thesis .
qed

section \<open>Accepted, published, live\<close>

definition accepted :: "'c adapter_effect list \<Rightarrow> execution_id \<Rightarrow> nat" where
  "accepted out e = length (filter (\<lambda>fx. fx = OutAccepted e) out)"

definition published :: "'c adapter_effect list \<Rightarrow> execution_id \<Rightarrow> nat" where
  "published out e = length (filter (\<lambda>fx. case fx of OutCompleted c \<Rightarrow> dispatch_completion_execution c = e | _ \<Rightarrow> False) out)"

lemma ledger_simps [simp]:
  "accepted [] e = 0" "accepted (a @ b) e = accepted a e + accepted b e" "accepted (OutCompleted c # a) e = accepted a e"
  "accepted (OutAccepted e' # a) e = (if e' = e then 1 else 0) + accepted a e"
  "published [] e = 0" "published (a @ b) e = published a e + published b e"
  "published (OutCompleted c # a) e = (if dispatch_completion_execution c = e then 1 else 0) + published a e"
  "published (OutAccepted e' # a) e = published a e"
  by (simp_all add: accepted_def published_def)

lemma ac_emit_fields [simp]:
  "ac_live (ac_emit c a) = ac_live a" "ac_items (ac_emit c a) = ac_items a" "ac_active (ac_emit c a) = ac_active a"
  "ac_lost (ac_emit c a) = ac_lost a" "ac_flying (ac_emit c a) = ac_flying a" "ac_quiescing (ac_emit c a) = ac_quiescing a"
  "accepted (ac_ledger (ac_emit c a)) e = accepted (ac_ledger a) e"
  by (simp_all add: ac_emit_def)

lemma ac_emit_waiters: "ac_waiters (ac_emit c a) \<subseteq> ac_waiters a"
  by (auto simp: ac_emit_def)

lemma ac_emit_published:
  "\<not> is_local e \<Longrightarrow> \<not> ac_quiescing a \<Longrightarrow> published (ac_ledger (ac_emit c a)) e
    = published (ac_ledger a) e + (if dispatch_completion_execution c = e then 1 else 0)"
  by (auto simp: ac_emit_def)

lemma ac_terminal_fields [simp]:
  "ac_live (ac_terminal t a) = ac_live a" "ac_items (ac_terminal t a) = ac_items a" "ac_active (ac_terminal t a) = ac_active a"
  "ac_lost (ac_terminal t a) = ac_lost a" "ac_flying (ac_terminal t a) = ac_flying a" "ac_quiescing (ac_terminal t a) = ac_quiescing a"
  "accepted (ac_ledger (ac_terminal t a)) e = accepted (ac_ledger a) e"
  by (simp_all add: ac_terminal_def split: option.split)

lemma ac_terminal_waiters: "ac_waiters (ac_terminal t a) \<subseteq> ac_waiters a"
  using ac_emit_waiters by (auto simp: ac_terminal_def split: option.split)

lemma ac_terminal_published:
  "\<not> is_local e \<Longrightarrow> \<not> ac_quiescing a \<Longrightarrow> published (ac_ledger (ac_terminal t a)) e
    = published (ac_ledger a) e + (if map_option dispatch_completion_execution t = Some e then 1 else 0)"
  by (simp add: ac_terminal_def ac_emit_published split: option.split)

lemma fold_emit_fields [simp]:
  "ac_live (fold ac_emit us a) = ac_live a" "ac_items (fold ac_emit us a) = ac_items a" "ac_active (fold ac_emit us a) = ac_active a"
  "ac_lost (fold ac_emit us a) = ac_lost a" "ac_flying (fold ac_emit us a) = ac_flying a"
  "ac_quiescing (fold ac_emit us a) = ac_quiescing a" "accepted (ac_ledger (fold ac_emit us a)) e = accepted (ac_ledger a) e"
  by (induction us arbitrary: a) simp_all

lemma fold_emit_waiters: "ac_waiters (fold ac_emit us a) \<subseteq> ac_waiters a"
proof (induction us arbitrary: a)
  case (Cons c us)
  then show ?case using Cons.IH [of "ac_emit c a"] ac_emit_waiters [of c a] by auto
qed simp

lemma fold_emit_published:
  "\<not> is_local e \<Longrightarrow> \<not> ac_quiescing a \<Longrightarrow> published (ac_ledger (fold ac_emit us a)) e
    = published (ac_ledger a) e + length (filter (\<lambda>c. dispatch_completion_execution c = e) us)"
  by (induction us arbitrary: a) (simp_all add: ac_emit_published)

text \<open>
  Conservation. Each execution the broker had accepted is either still live or was published, once;
  the executions of the adapter itself never appear. Executions are accepted at most once, and
  nothing is published any more while the adapter quiesces.
\<close>

definition once :: "'c account \<Rightarrow> bool" where
  "once a \<longleftrightarrow> (\<forall>e. accepted (ac_ledger a) e \<le> 1)"

definition is_live :: "'c account \<Rightarrow> execution_id \<Rightarrow> bool" where
  "is_live a e \<longleftrightarrow> tab_get (ac_live a) e \<noteq> None"

definition conserved :: "'c account \<Rightarrow> bool" where
  "conserved a \<longleftrightarrow> live_ok (ac_live a) \<and> (\<forall>e \<in> ac_waiters a. is_local e)
     \<and> (\<forall>e. \<not> is_local e \<longrightarrow> is_live a e \<longrightarrow> 0 < accepted (ac_ledger a) e)
     \<and> (\<forall>e. is_local e \<longrightarrow> accepted (ac_ledger a) e = 0)
     \<and> (once a \<and> \<not> ac_quiescing a \<longrightarrow> (\<forall>e. \<not> is_local e \<longrightarrow>
          accepted (ac_ledger a) e = published (ac_ledger a) e + (if is_live a e then 1 else 0)))"

lemma conserved_kept:
  assumes "conserved a" "live_ok (ac_live b)" "ac_waiters b \<subseteq> ac_waiters a" "ac_quiescing b = ac_quiescing a"
    and "\<And>e. accepted (ac_ledger b) e = accepted (ac_ledger a) e"
    and "\<And>e. \<not> is_local e \<Longrightarrow> is_live b e \<Longrightarrow> is_live a e"
    and "\<And>e. \<not> is_local e \<Longrightarrow> \<not> ac_quiescing a \<Longrightarrow>
      published (ac_ledger b) e + (if is_live b e then 1 else 0) = published (ac_ledger a) e + (if is_live a e then 1 else 0)"
  shows "conserved b"
  using assms unfolding conserved_def once_def by fastforce

lemma settle_conserved:
  assumes "conserved a" "settle_slot e k out (ac_live a) = (live, t)"
    and "ac_live b = live" "ac_waiters b = ac_waiters a" "ac_quiescing b = ac_quiescing a" "ac_ledger b = ac_ledger a"
  shows "conserved (ac_terminal t b)"
proof (rule conserved_kept [OF assms(1)])
  have ok: "live_ok (ac_live a)" using assms(1) by (simp add: conserved_def)
  show "live_ok (ac_live (ac_terminal t b))" using settle_slot_ok [OF ok assms(2)] assms(3) by simp
  show "ac_waiters (ac_terminal t b) \<subseteq> ac_waiters a" using ac_terminal_waiters assms(4) by metis
  show "is_live (ac_terminal t b) f \<Longrightarrow> is_live a f" for f
    using assms(2) by (rule settle_slot_cases) (auto simp: is_live_def assms(3) tab_get_insert [OF live_tab [OF ok]] tab_get_remove split: if_splits)
  show "published (ac_ledger (ac_terminal t b)) f + (if is_live (ac_terminal t b) f then 1 else 0)
      = published (ac_ledger a) f + (if is_live a f then 1 else 0)" if "\<not> is_local f" "\<not> ac_quiescing a" for f
    using assms(2)
    by (rule settle_slot_cases)
      (use that in \<open>auto simp: is_live_def assms(3,5,6) ac_terminal_published tab_get_insert [OF live_tab [OF ok]] tab_get_remove dest: live_get [OF ok]\<close>)
qed (simp_all add: assms)

lemma once_back: "once b \<Longrightarrow> (\<And>e. accepted (ac_ledger a) e \<le> accepted (ac_ledger b) e) \<Longrightarrow> once a"
  unfolding once_def by (meson le_trans)

lemma account_conserved:
  assumes "ledger_step single a b" "conserved a"
  shows "conserved b"
  using assms(1)
proof cases
  case (item_settled i M e k out live t)
  then show ?thesis using settle_conserved [OF assms(2)] by simp
next
  case (any_settled i M e out live t)
  have "conserved (a\<lparr>ac_items := M\<rparr>)" using assms(2) by (simp add: conserved_def once_def is_live_def)
  then show ?thesis
    using any_settled settle_any_slot_is [OF any_settled(5)] settle_conserved [OF assms(2)]
    by (auto simp: ac_terminal_def)
next
  case (flying_settled e k out live t)
  then show ?thesis using settle_conserved [OF assms(2)] by simp
next
  case (reported e x n p out live t)
  then show ?thesis using settle_conserved [OF assms(2)] by simp
next
  case (sent i M e x p x' k)
  have ok: "live_ok (ac_live a)" using assms(2) by (simp add: conserved_def)
  have "live_ok (tab_insert e x' (ac_live a))"
    using sent ok rename_slot_fields live_get [OF ok] by (metis live_insert)
  then show ?thesis
    using sent by (intro conserved_kept [OF assms(2)]) (auto simp: is_live_def tab_get_insert [OF live_tab [OF ok]] split: if_splits)
next
  case (matched matches error live ts us R)
  have ok: "live_ok (ac_live a)" using assms(2) by (simp add: conserved_def)
  have count: "length (filter (\<lambda>c. dispatch_completion_execution c = e) us) = (if ends_matching matches error (ac_live a) e then 1 else 0)" for e
    using settle_matching_terminals [OF ok matched(2), of e] matched(3) by (metis mset_filter size_mset)
  show ?thesis
    unfolding matched(1)
  proof (rule conserved_kept [OF assms(2)])
    show "live_ok (ac_live (fold ac_emit us (a\<lparr>ac_live := live, ac_lost := ac_lost a - R\<rparr>)))"
      using settle_matching_get(1) [OF ok matched(2)] by simp
    show "ac_waiters (fold ac_emit us (a\<lparr>ac_live := live, ac_lost := ac_lost a - R\<rparr>)) \<subseteq> ac_waiters a"
      using fold_emit_waiters [of us "a\<lparr>ac_live := live, ac_lost := ac_lost a - R\<rparr>"] by simp
    fix e
    show "is_live (fold ac_emit us (a\<lparr>ac_live := live, ac_lost := ac_lost a - R\<rparr>)) e \<Longrightarrow> is_live a e"
      using settle_matching_get(2) [OF ok matched(2), of e] by (auto simp: is_live_def split: option.splits)
    assume "\<not> is_local e" "\<not> ac_quiescing a"
    then show "published (ac_ledger (fold ac_emit us (a\<lparr>ac_live := live, ac_lost := ac_lost a - R\<rparr>))) e
        + (if is_live (fold ac_emit us (a\<lparr>ac_live := live, ac_lost := ac_lost a - R\<rparr>)) e then 1 else 0)
      = published (ac_ledger a) e + (if is_live a e then 1 else 0)"
      using settle_matching_get(2) [OF ok matched(2), of e] count [of e]
      by (auto simp: fold_emit_published is_live_def ends_matching_def split: option.splits if_splits)
  qed simp_all
next
  case (admitted e n slots items)
  have ok: "live_ok (ac_live a)" using assms(2) by (simp add: conserved_def)
  have new: "xr_execution (new_execution e slots) = e" by (simp add: new_execution_def)
  have live: "is_live b f \<longleftrightarrow> f = e \<or> is_live a f" for f
    by (simp add: admitted(1) is_live_def tab_get_insert [OF live_tab [OF ok]])
  have "accepted (ac_ledger b) f = published (ac_ledger b) f + (if is_live b f then 1 else 0)"
    if h: "once b" "\<not> ac_quiescing b" "\<not> is_local f" for f
  proof -
    have "once a" using h(1) by (rule once_back) (simp add: admitted(1))
    then have old: "accepted (ac_ledger a) f = published (ac_ledger a) f + (if is_live a f then 1 else 0)"
      using assms(2) h(2,3) by (simp add: conserved_def admitted(1))
    have "f = e \<Longrightarrow> accepted (ac_ledger a) f = 0"
      using h(1) by (simp add: once_def admitted(1)) (metis Suc_le_mono add.commute le_zero_eq plus_1_eq_Suc One_nat_def)
    then show ?thesis using old live by (auto simp: admitted(1) split: if_splits)
  qed
  then show ?thesis
    using assms(2) live live_insert [OF ok new] admitted(2)
    unfolding conserved_def by (auto simp: admitted(1) is_live_def)
next
  case (close_opened e i)
  have ok: "live_ok (ac_live a)" using assms(2) by (simp add: conserved_def)
  have "xr_execution (new_execution e [REQUEST_INITIAL]) = e" by (simp add: new_execution_def)
  then have "live_ok (tab_insert e (new_execution e [REQUEST_INITIAL]) (ac_live a))" by (rule live_insert [OF ok])
  moreover have "is_live b f \<longleftrightarrow> is_live a f" if "\<not> is_local f" for f
    using that close_opened(2) by (auto simp: close_opened(1) is_live_def tab_get_insert [OF live_tab [OF ok]])
  ultimately show ?thesis
    using assms(2) close_opened(2) unfolding conserved_def once_def close_opened(1) by (auto simp: is_live_def)
next
  case (close_ended e unsent)
  have ok: "live_ok (ac_live a)" using assms(2) by (simp add: conserved_def)
  have "is_live b f \<longleftrightarrow> is_live a f" if "\<not> is_local f" for f
    using that close_ended(2) by (auto simp: close_ended(1) is_live_def tab_get_remove)
  then show ?thesis
    using assms(2) live_remove [OF ok] ok unfolding conserved_def once_def close_ended(1) by (auto simp: is_live_def)
qed (use assms(2) in \<open>auto simp: conserved_def once_def is_live_def\<close>)

section \<open>Sent requests belong to active registrations\<close>

definition owned :: "'c account \<Rightarrow> bool" where
  "owned a \<longleftrightarrow> (\<forall>e x k p. tab_get (ac_live a) e = Some x \<longrightarrow> (k, Some p) \<in> set (xr_requests x)
     \<longrightarrow> pv_registration p \<in> ac_active a \<union> ac_lost a)"

definition requests_of :: "live_executions \<Rightarrow> request_provenance set" where
  "requests_of live = {p. \<exists>e x k. tab_get live e = Some x \<and> (k, Some p) \<in> set (xr_requests x)}"

lemma owned_iff: "owned a \<longleftrightarrow> pv_registration ` requests_of (ac_live a) \<subseteq> ac_active a \<union> ac_lost a"
  unfolding owned_def requests_of_def by fast

lemma tab_insert_set: "set (tab_insert k v t) \<subseteq> insert (k, v) (set t)"
  by (induction k v t rule: tab_insert.induct) auto

lemma settle_requests:
  assumes "live_ok live" "settle_slot e k out live = (live', t)"
  shows "requests_of live' \<subseteq> requests_of live"
  using assms(2)
proof (cases rule: settle_slot_cases)
  case (noted x x')
  then show ?thesis
    by (fastforce simp: requests_of_def tab_get_insert [OF live_tab [OF assms(1)]] tab_remove_def split: if_splits)
next
  case ended
  then show ?thesis by (auto simp: requests_of_def tab_get_remove split: if_splits)
qed simp

lemma matching_requests:
  assumes "live_ok live" "settle_matching matches error live = (live', ts)"
  shows "requests_of live' \<subseteq> {p \<in> requests_of live. \<not> matches p}"
proof
  fix p
  assume "p \<in> requests_of live'"
  then obtain e x' k where x': "tab_get live' e = Some x'" "(k, Some p) \<in> set (xr_requests x')" by (auto simp: requests_of_def)
  then obtain x where x: "tab_get live e = Some x" "x' = fst (settle_record matches error x)"
    using settle_matching_get(2) [OF assms, of e] by (auto split: option.splits if_splits)
  have "xr_requests x' = filter (\<lambda>e. fst e \<notin> set (matched_keys matches x)) (xr_requests x)"
    using settle_record_fields [OF prod.collapse [symmetric]] x(2) by metis
  then have "(k, Some p) \<in> set (xr_requests x)" "k \<notin> set (matched_keys matches x)" using x'(2) by auto
  moreover from this have "\<not> matches p" by (force simp: matched_keys_def)
  ultimately show "p \<in> {p \<in> requests_of live. \<not> matches p}" using x(1) by (auto simp: requests_of_def)
qed

lemma rename_requests: "rename_slot p slot x = (x', k) \<Longrightarrow> set (xr_requests x') \<subseteq> insert (k, Some p) (set (xr_requests x))"
  using tab_insert_set by (fastforce simp: rename_slot_def Let_def tab_remove_def split: option.splits if_splits)

lemma insert_requests:
  "live_ok live \<Longrightarrow> (\<And>k p. (k, Some p) \<in> set (xr_requests x) \<Longrightarrow> p \<in> P) \<Longrightarrow> requests_of (tab_insert e x live) \<subseteq> P \<union> requests_of live"
  by (auto simp: requests_of_def tab_get_insert [OF live_tab] split: if_splits)

lemma new_requests: "(k, Some p) \<notin> set (xr_requests (new_execution e slots))"
proof -
  have "set (foldl (\<lambda>t n. tab_insert n None t) t slots) \<subseteq> set t \<union> {(k, None) | k. True}" for t :: "(bridge_request_id, request_provenance option) table"
  proof (induction slots arbitrary: t)
    case (Cons n slots)
    then show ?case using Cons.IH [of "tab_insert n None t"] tab_insert_set [of n None t] by fastforce
  qed simp
  from this [of "[]"] show ?thesis by (auto simp: new_execution_def)
qed

lemma account_owned:
  assumes "ledger_step single a b" "conserved a" "owned a"
  shows "owned b"
proof -
  have ok: "live_ok (ac_live a)" using assms(2) by (simp add: conserved_def)
  note own = assms(3) [unfolded owned_iff]
  show ?thesis
    using assms(1)
  proof cases
    case (item_settled i M e k out live t)
    then show ?thesis using settle_requests [OF ok item_settled(5)] own by (auto simp: owned_iff)
  next
    case (any_settled i M e out live t)
    then have "requests_of live \<subseteq> requests_of (ac_live a)" using settle_any_slot_is settle_requests [OF ok] by blast
    then show ?thesis using any_settled own by (auto simp: owned_iff)
  next
    case (flying_settled e k out live t)
    then show ?thesis using settle_requests [OF ok flying_settled(3)] own by (auto simp: owned_iff)
  next
    case (reported e x n p out live t)
    then show ?thesis using settle_requests [OF ok reported(4)] own by (auto simp: owned_iff)
  next
    case (sent i M e x p x' k)
    have "q = p \<or> q \<in> requests_of (ac_live a)" if "(j, Some q) \<in> set (xr_requests x')" for j q
      using rename_requests [OF sent(5)] that sent(4) by (auto simp: requests_of_def)
    then have "requests_of (tab_insert e x' (ac_live a)) \<subseteq> insert p (requests_of (ac_live a)) \<union> requests_of (ac_live a)"
      by (intro insert_requests [OF ok]) auto
    then show ?thesis using sent own by (auto simp: owned_iff)
  next
    case (matched matches error live ts us R)
    then show ?thesis using matching_requests [OF ok matched(2)] own by (fastforce simp: owned_iff)
  next
    case (admitted e n slots items)
    have "requests_of (tab_insert e (new_execution e slots) (ac_live a)) \<subseteq> {} \<union> requests_of (ac_live a)"
      by (rule insert_requests [OF ok]) (simp add: new_requests)
    then show ?thesis using admitted own by (auto simp: owned_iff)
  next
    case (close_opened e i)
    have "requests_of (tab_insert e (new_execution e [REQUEST_INITIAL]) (ac_live a)) \<subseteq> {} \<union> requests_of (ac_live a)"
      by (rule insert_requests [OF ok]) (simp add: new_requests)
    then show ?thesis using close_opened own by (auto simp: owned_iff)
  next
    case (close_ended e unsent)
    have "requests_of (tab_remove e (ac_live a)) \<subseteq> requests_of (ac_live a)"
      by (auto simp: requests_of_def tab_get_remove split: if_splits)
    then show ?thesis using close_ended own by (auto simp: owned_iff)
  qed (use own in \<open>auto simp: owned_iff\<close>)
qed

section \<open>Executions of one command\<close>

text \<open>
  With a single command in each execution, a live execution waits either for its only queued item or
  for its only sent request, which is filed under its own number.
\<close>

definition items_for :: "execution_id \<Rightarrow> 'c queued_item multiset \<Rightarrow> 'c queued_item multiset" where
  "items_for e items = filter_mset (\<lambda>i. qi_execution i = Some e) items"

definition waits :: "'c queued_item multiset \<Rightarrow> execution_record option \<Rightarrow> bool" where
  "waits items live \<longleftrightarrow>
     (case live of
        None \<Rightarrow> items = {#}
      | Some x \<Rightarrow> xr_total x = 1 \<and> xr_settled x = 0
          \<and> ((\<exists>i k. items = {#i#} \<and> qi_slot i = Some k \<and> xr_requests x = [(k, None)])
             \<or> (\<exists>p. items = {#} \<and> xr_requests x = [(pv_request_id p, Some p)])))"

definition tracked :: "'c account \<Rightarrow> bool" where
  "tracked a \<longleftrightarrow> (\<forall>e. \<not> is_local e \<longrightarrow>
     waits (items_for e (ac_items a)) (tab_get (ac_live a) e)
     \<and> (ac_flying a = Some e \<longrightarrow> items_for e (ac_items a) = {#} \<and> 0 < accepted (ac_ledger a) e))"

lemma items_for_simps [simp]:
  "items_for e {#} = {#}" "items_for e (add_mset i M) = (if qi_execution i = Some e then add_mset i (items_for e M) else items_for e M)"
  "items_for e (M + N) = items_for e M + items_for e N"
  by (simp_all add: items_for_def)

text \<open>Settling one of its slots ends a waiting execution.\<close>

lemma waits_settle:
  assumes "live_ok live" "settle_slot e k out live = (live', t)" "waits I (tab_get live e)"
  shows "tab_get live' f = (if f = e \<and> (\<exists>x. tab_get live e = Some x \<and> tab_has (xr_requests x) k) then None else tab_get live f)"
  using assms(2)
  by (rule settle_slot_cases)
    (use assms(3) in \<open>auto simp: waits_def tab_get_insert [OF live_tab [OF assms(1)]] tab_get_remove split: if_splits\<close>)

lemma has_singleton [simp]: "tab_has [(k, v)] n \<longleftrightarrow> n = k" "tab_get [(k, v)] n = (if n = k then Some v else None)"
  by (auto simp: tab_has_def tab_get_def)

lemma matched_singleton [simp]:
  "xr_requests x = [(k, None)] \<Longrightarrow> matched_keys matches x = []"
  "xr_requests x = [(k, Some p)] \<Longrightarrow> matched_keys matches x = (if matches p then [k] else [])"
  by (simp_all add: matched_keys_def)

lemma waits_matching:
  assumes "waits I (Some x)"
  shows "waits I (if snd (settle_record matches error x) then None else Some (fst (settle_record matches error x)))"
proof -
  obtain x' d where r: "settle_record matches error x = (x', d)" by fastforce
  show ?thesis
    using assms settle_record_fields [OF r] by (auto simp: waits_def r)
qed

lemma waits_item: "waits I live \<Longrightarrow> i \<in># I \<Longrightarrow> \<exists>x k. live = Some x \<and> I = {#i#} \<and> qi_slot i = Some k
    \<and> xr_requests x = [(k, None)] \<and> xr_total x = 1 \<and> xr_settled x = 0"
  by (auto simp: waits_def split: option.splits)

lemma rename_waiting:
  "xr_requests x = [(k, None)] \<Longrightarrow> rename_slot p (Some k) x = (x', k') \<Longrightarrow> xr_requests x' = [(pv_request_id p, Some p)]"
  by (auto simp: rename_slot_def Let_def tab_remove_def split: if_splits)

text \<open>Only execution \<open>e\<close> changes.\<close>

lemma tracked_update:
  assumes "tracked a"
    and "\<And>g. \<not> is_local g \<Longrightarrow> g \<noteq> e \<Longrightarrow> items_for g (ac_items b) = items_for g (ac_items a) \<and> tab_get (ac_live b) g = tab_get (ac_live a) g"
    and "\<not> is_local e \<Longrightarrow> waits (items_for e (ac_items b)) (tab_get (ac_live b) e)"
    and "\<And>g. ac_flying b = Some g \<Longrightarrow> \<not> is_local g \<Longrightarrow> g \<noteq> e \<and> ac_flying a = Some g \<or> g = e \<and> items_for g (ac_items b) = {#} \<and> 0 < accepted (ac_ledger b) g"
    and "\<And>g. accepted (ac_ledger a) g \<le> accepted (ac_ledger b) g"
  shows "tracked b"
  unfolding tracked_def
proof (intro allI impI conjI)
  fix g
  assume g: "\<not> is_local g"
  show "waits (items_for g (ac_items b)) (tab_get (ac_live b) g)"
    using assms(1-3) g by (cases "g = e") (auto simp: tracked_def)
  assume f: "ac_flying b = Some g"
  show "items_for g (ac_items b) = {#}" "0 < accepted (ac_ledger b) g"
    using assms(4) [OF f g] assms(1) assms(2) [OF g] assms(5) [of g] g by (auto simp: tracked_def)
qed

lemma account_tracked:
  assumes "ledger_step True a b" "conserved a" "tracked a" "once b"
  shows "tracked b"
proof -
  have ok: "live_ok (ac_live a)" using assms(2) by (simp add: conserved_def)
  note live = live_tab [OF ok]
  have w: "waits (items_for e (ac_items a)) (tab_get (ac_live a) e)" if "\<not> is_local e" for e
    using assms(3) that by (simp add: tracked_def)
  have f: "items_for e (ac_items a) = {#}" "0 < accepted (ac_ledger a) e" if "ac_flying a = Some e" "\<not> is_local e" for e
    using assms(3) that by (simp_all add: tracked_def)
  show ?thesis
    using assms(1)
  proof cases
    case (item_stamped i M n)
    have "is_local e" if "qi_execution i = Some e" for e
      using waits_item [OF w, of e i] item_stamped that by auto
    then show ?thesis using assms(3) item_stamped by (auto simp: tracked_def)
  next
    case (item_relabelled i M j)
    have "waits (items_for e (add_mset j M)) (tab_get (ac_live a) e)
        \<and> (items_for e (ac_items a) = {#} \<longrightarrow> items_for e (add_mset j M) = {#})" if l: "\<not> is_local e" for e
    proof (cases "qi_execution i = Some e")
      case True
      then show ?thesis using waits_item [OF w [OF l], of i] item_relabelled by (auto simp: waits_def)
    next
      case False
      then show ?thesis using w [OF l] item_relabelled by simp
    qed
    then show ?thesis using assms(3) item_relabelled(1) by (simp add: tracked_def)
  next
    case (item_forgotten i M)
    have "qi_execution i \<noteq> Some e" if "\<not> is_local e" for e
      using waits_item [OF w, of e i] item_forgotten that by auto
    then have "items_for e (ac_items a) = items_for e M" if "\<not> is_local e" for e
      using item_forgotten(2) that by simp
    then show ?thesis using assms(3) item_forgotten(1) by (simp add: tracked_def)
  next
    case (sent_unknown i M e)
    then have "is_local e" using waits_item [OF w, of e i] by auto
    then show ?thesis using sent_unknown by (intro tracked_update [OF assms(3), of e]) auto
  next
    case (sent i M e x p x' k)
    have e: "items_for e M = {#} \<and> waits (items_for e M) (Some x') \<and> 0 < accepted (ac_ledger a) e" if l: "\<not> is_local e"
    proof -
      obtain k0 where i: "items_for e (ac_items a) = {#i#}" "qi_slot i = Some k0" "xr_requests x = [(k0, None)]"
        "xr_total x = 1" "xr_settled x = 0"
        using waits_item [OF w [OF l], of i] sent by auto
      have "0 < accepted (ac_ledger a) e" using assms(2) sent(4) l by (auto simp: conserved_def is_live_def)
      moreover have "xr_requests x' = [(pv_request_id p, Some p)]" using rename_waiting i sent(5) by metis
      ultimately show ?thesis using i sent rename_slot_fields [OF sent(5)] by (auto simp: waits_def)
    qed
    show ?thesis
      using e sent by (intro tracked_update [OF assms(3), of e]) (auto simp: tab_get_insert [OF live])
  next
    case (item_settled i M e k out live' t)
    have "tracked (a\<lparr>ac_items := M, ac_live := live'\<rparr>)"
    proof (rule tracked_update [OF assms(3), of e])
      fix g
      assume "\<not> is_local g" "g \<noteq> e"
      moreover have "tab_get live' g = tab_get (ac_live a) g" if "g \<noteq> e"
        using item_settled(5) by (rule settle_slot_cases) (use that in \<open>auto simp: tab_get_insert [OF live] tab_get_remove\<close>)
      ultimately show "items_for g (ac_items (a\<lparr>ac_items := M, ac_live := live'\<rparr>)) = items_for g (ac_items a)
        \<and> tab_get (ac_live (a\<lparr>ac_items := M, ac_live := live'\<rparr>)) g = tab_get (ac_live a) g"
        using item_settled by auto
    next
      assume l: "\<not> is_local e"
      then obtain x where i: "tab_get (ac_live a) e = Some x" "items_for e (ac_items a) = {#i#}" "xr_requests x = [(k, None)]"
        using waits_item [OF w [OF l], of i] item_settled by auto
      then have "tab_get live' e = None" using waits_settle [OF ok item_settled(5) w [OF l], of e] by simp
      then show "waits (items_for e (ac_items (a\<lparr>ac_items := M, ac_live := live'\<rparr>))) (tab_get (ac_live (a\<lparr>ac_items := M, ac_live := live'\<rparr>)) e)"
        using i item_settled by (simp add: waits_def)
    next
      fix g
      assume "ac_flying (a\<lparr>ac_items := M, ac_live := live'\<rparr>) = Some g" "\<not> is_local g"
      moreover from this have "items_for g (ac_items a) = {#}" using f by simp
      ultimately show "g \<noteq> e \<and> ac_flying a = Some g \<or> g = e \<and> items_for g (ac_items (a\<lparr>ac_items := M, ac_live := live'\<rparr>)) = {#}
        \<and> 0 < accepted (ac_ledger (a\<lparr>ac_items := M, ac_live := live'\<rparr>)) g"
        using item_settled by auto
    qed simp
    then show ?thesis by (simp add: tracked_def item_settled)
  next
    case (any_settled i M e out live' t)
    then have e: "is_local e" using waits_item [OF w, of e i] by auto
    have "tab_get live' g = tab_get (ac_live a) g" if "\<not> is_local g" for g
      using settle_any_slot_is [OF any_settled(5)]
      by (auto elim!: settle_slot_cases simp: tab_get_insert [OF live] tab_get_remove) (use that e in auto)
    then show ?thesis using any_settled e by (intro tracked_update [OF assms(3), of e]) auto
  next
    case (flying_settled e k out live' t)
    have "waits (items_for g (ac_items a)) (tab_get live' g)" if "\<not> is_local g" for g
    proof (cases "g = e")
      case True
      then have "items_for g (ac_items a) = {#}" using f flying_settled that by simp
      then show ?thesis
        using waits_settle [OF ok flying_settled(3) w, of g] w [OF that] that True by (auto simp: waits_def)
    next
      case False
      have "tab_get live' g = tab_get (ac_live a) g"
        using flying_settled(3) by (rule settle_slot_cases) (use False in \<open>auto simp: tab_get_insert [OF live] tab_get_remove\<close>)
      then show ?thesis using w [OF that] by simp
    qed
    then show ?thesis by (simp add: tracked_def flying_settled)
  next
    case (reported e x n p out live' t)
    have "waits (items_for g (ac_items a)) (tab_get live' g)" if g: "\<not> is_local g" for g
    proof (cases "g = e")
      case True
      have "items_for g (ac_items a) = {#} \<and> tab_has (xr_requests x) n"
        using w [OF g] reported(2,3) True by (auto simp: waits_def tab_has_def split: if_splits)
      then show ?thesis using waits_settle [OF ok reported(4) w, of g] g True reported(2) by (simp add: waits_def)
    next
      case False
      have "tab_get live' g = tab_get (ac_live a) g"
        using reported(4) by (rule settle_slot_cases) (use False in \<open>auto simp: tab_get_insert [OF live] tab_get_remove\<close>)
      then show ?thesis using w [OF g] by simp
    qed
    then show ?thesis using assms(3) by (simp add: tracked_def reported)
  next
    case (matched matches error live' ts us R)
    have "waits (items_for g (ac_items a)) (tab_get live' g)" if g: "\<not> is_local g" for g
      using settle_matching_get(2) [OF ok matched(2), of g] w [OF g] waits_matching [of "items_for g (ac_items a)"]
      by (cases "tab_get (ac_live a) g") auto
    then show ?thesis using assms(3) by (simp add: tracked_def matched)
  next
    case (admitted e n slots items)
    have n: "n = 1" "slots = [REQUEST_INITIAL]" using admitted(3,5) by (auto simp: result_simps)
    then obtain i where i: "items = [i]" "qi_execution i = Some e" "qi_slot i = Some REQUEST_INITIAL"
      using admitted(6,7) by (cases items) auto
    have "accepted (ac_ledger b) e \<le> 1" using assms(4) by (simp add: once_def)
    then have a0: "accepted (ac_ledger a) e = 0" by (simp add: admitted(1))
    then have "tab_get (ac_live a) e = None" using assms(2) admitted(2) by (auto simp: conserved_def is_live_def)
    then have "items_for e (ac_items a) = {#}" using w [OF admitted(2)] by (simp add: waits_def)
    moreover have "ac_flying a \<noteq> Some e" using f admitted(2) a0 by auto
    ultimately show ?thesis
      using i n
      by (intro tracked_update [OF assms(3), of e])
        (auto simp: admitted(1) tab_get_insert [OF live] waits_def new_execution_def)
  next
    case (close_opened e i)
    then show ?thesis using assms(3) by (auto simp: tracked_def tab_get_insert [OF live])
  next
    case (close_ended e unsent)
    have "items_for g (filter_mset (\<lambda>i. qi_execution i \<noteq> Some e) (ac_items a)) = items_for g (ac_items a)" if "\<not> is_local g" for g
      using that close_ended(2) by (auto simp: items_for_def filter_filter_mset intro!: filter_mset_cong)
    then show ?thesis using assms(3) close_ended by (auto simp: tracked_def tab_get_remove)
  qed (use assms(3) in \<open>auto simp: tracked_def\<close>)
qed

section \<open>Runs of moves\<close>

abbreviation ledger_steps :: "bool \<Rightarrow> 'c account \<Rightarrow> 'c account \<Rightarrow> bool" where
  "ledger_steps single \<equiv> (ledger_step single)\<^sup>*\<^sup>*"

lemma accepted_grows: "ledger_step single a b \<Longrightarrow> accepted (ac_ledger a) e \<le> accepted (ac_ledger b) e"
  by (cases rule: ledger_step.cases) auto

lemma ledger_steps_invariants:
  assumes "ledger_steps single a b" "conserved a" "owned a"
  shows "conserved b \<and> owned b \<and> (single \<and> tracked a \<and> once b \<longrightarrow> tracked b)"
  using assms
proof (induction rule: rtranclp_induct)
  case (step b c)
  have "once c \<Longrightarrow> once b" using once_back accepted_grows [OF step(2)] by metis
  then show ?case
    using step account_conserved [OF step(2)] account_owned [OF step(2)] account_tracked [of b c] by (cases single) auto
qed simp

end
