(* ===== verification/Zellij_Simulation.thy ===== *)
theory Zellij_Simulation
  imports Zellij_Account
begin

text \<open>
  Every handler of the adapter is a run of the moves of \<open>Zellij_Account\<close>: the abstraction takes the
  executions, the queued items (and the item in hand), the active registrations and the ledger of
  accepted and published executions out of the state, and each handler is matched move by move.
\<close>

section \<open>The abstraction\<close>

definition queue_items :: "'c adapter \<Rightarrow> 'c queued_item multiset" where
  "queue_items s = (\<Sum>client \<in> fst ` set (za_queues s). mset (queue_of s client))"

fun is_entry :: "'c adapter_effect \<Rightarrow> bool" where
  "is_entry (OutCompleted _) = True"
| "is_entry (OutAccepted _) = True"
| "is_entry _ = False"

definition active_registrations :: "zellij_registry \<Rightarrow> registration_id set" where
  "active_registrations t = {r. \<exists>c. active_for t c r}"

definition account_of :: "'c queued_item multiset \<Rightarrow> registration_id set \<Rightarrow> 'c adapter \<Rightarrow> 'c account" where
  "account_of M L s =
     \<lparr>ac_live = za_live s, ac_items = M + queue_items s, ac_active = active_registrations (za_registry s), ac_lost = L,
      ac_waiters = za_close_waiters s, ac_flying = (case za_in_flight s of Some p \<Rightarrow> fl_execution p | None \<Rightarrow> None),
      ac_ledger = filter is_entry (za_out s), ac_quiescing = za_quiescing s\<rparr>"

text \<open>Only dispatches belong to executions.\<close>

definition item_ok :: "'c queued_item \<Rightarrow> bool" where
  "item_ok i \<longleftrightarrow> (qi_execution i \<noteq> None \<longrightarrow> (\<forall>p. qi_payload i = Some p \<longrightarrow> is_dispatch p))"

definition well_formed :: "'c adapter \<Rightarrow> bool" where
  "well_formed s \<longleftrightarrow> tab_ok (za_queues s) \<and> registry_ok (za_registry s) \<and> (\<forall>e \<in> za_close_waiters s. is_local e)
     \<and> (\<forall>i \<in># queue_items s. item_ok i)"

text \<open>A run from a state, with items in hand and registrations lost but not yet cleared, to another.\<close>

definition moves ::
  "bool \<Rightarrow> 'c queued_item multiset \<Rightarrow> registration_id set \<Rightarrow> 'c adapter
   \<Rightarrow> 'c queued_item multiset \<Rightarrow> registration_id set \<Rightarrow> 'c adapter \<Rightarrow> bool" where
  "moves single M L s M' L' s' \<longleftrightarrow>
     (well_formed s \<longrightarrow> well_formed s' \<and> ledger_steps single (account_of M L s) (account_of M' L' s'))"

lemma moves_refl [simp]: "moves single M L s M L s"
  by (simp add: moves_def)

lemma moves_trans: "moves single M L s M1 L1 s1 \<Longrightarrow> moves single M1 L1 s1 M2 L2 s2 \<Longrightarrow> moves single M L s M2 L2 s2"
  unfolding moves_def by (meson rtranclp_trans)

lemma moves_step:
  "(well_formed s \<Longrightarrow> well_formed s') \<Longrightarrow> (well_formed s \<Longrightarrow> ledger_step single (account_of M L s) (account_of M' L' s'))
   \<Longrightarrow> moves single M L s M' L' s'"
  by (auto simp: moves_def)

named_theorems unseen

lemma unseen_fields [unseen]:
  "account_of M L (s\<lparr>za_cursor := x1\<rparr>) = account_of M L s" "well_formed (s\<lparr>za_cursor := x1\<rparr>) = well_formed s"
  "account_of M L (s\<lparr>za_pending_origin := x2\<rparr>) = account_of M L s" "well_formed (s\<lparr>za_pending_origin := x2\<rparr>) = well_formed s"
  "account_of M L (s\<lparr>za_captures := x3\<rparr>) = account_of M L s" "well_formed (s\<lparr>za_captures := x3\<rparr>) = well_formed s"
  "account_of M L (s\<lparr>za_pending_capture := x4\<rparr>) = account_of M L s" "well_formed (s\<lparr>za_pending_capture := x4\<rparr>) = well_formed s"
  "account_of M L (s\<lparr>za_pane_claims := x5\<rparr>) = account_of M L s" "well_formed (s\<lparr>za_pane_claims := x5\<rparr>) = well_formed s"
  "account_of M L (s\<lparr>za_pending_leases := x6\<rparr>) = account_of M L s" "well_formed (s\<lparr>za_pending_leases := x6\<rparr>) = well_formed s"
  "account_of M L (s\<lparr>za_snapshots := x7\<rparr>) = account_of M L s" "well_formed (s\<lparr>za_snapshots := x7\<rparr>) = well_formed s"
  "account_of M L (s\<lparr>za_generation := x8\<rparr>) = account_of M L s" "well_formed (s\<lparr>za_generation := x8\<rparr>) = well_formed s"
  "account_of M L (s\<lparr>za_next_local := x9\<rparr>) = account_of M L s" "well_formed (s\<lparr>za_next_local := x9\<rparr>) = well_formed s"
  by (simp_all add: account_of_def queue_items_def queue_of_def well_formed_def)

lemma unseen_fields2 [unseen]:
  "account_of M L (s\<lparr>za_shutdown := y1\<rparr>) = account_of M L s" "well_formed (s\<lparr>za_shutdown := y1\<rparr>) = well_formed s"
  "account_of M L (s\<lparr>za_suspended := y1\<rparr>) = account_of M L s" "well_formed (s\<lparr>za_suspended := y1\<rparr>) = well_formed s"
  "account_of M L (s\<lparr>za_resume_epoch := y2\<rparr>) = account_of M L s" "well_formed (s\<lparr>za_resume_epoch := y2\<rparr>) = well_formed s"
  "account_of M L (s\<lparr>za_register_epoch := y3\<rparr>) = account_of M L s" "well_formed (s\<lparr>za_register_epoch := y3\<rparr>) = well_formed s"
  "account_of M L (s\<lparr>za_incarnation := y4\<rparr>) = account_of M L s" "well_formed (s\<lparr>za_incarnation := y4\<rparr>) = well_formed s"
  "account_of M L (s\<lparr>za_startup := y5\<rparr>) = account_of M L s" "well_formed (s\<lparr>za_startup := y5\<rparr>) = well_formed s"
  "account_of M L (s\<lparr>za_pending_coverage := y6\<rparr>) = account_of M L s" "well_formed (s\<lparr>za_pending_coverage := y6\<rparr>) = well_formed s"
  "account_of M L (s\<lparr>za_success := y7\<rparr>) = account_of M L s" "well_formed (s\<lparr>za_success := y7\<rparr>) = well_formed s"
  "account_of M L (s\<lparr>za_calls := y8\<rparr>) = account_of M L s" "well_formed (s\<lparr>za_calls := y8\<rparr>) = well_formed s"
  by (simp_all add: account_of_def queue_items_def queue_of_def well_formed_def)

lemma seen_fields:
  "account_of M L (s\<lparr>za_live := live\<rparr>) = (account_of M L s)\<lparr>ac_live := live\<rparr>"
  "account_of M L (s\<lparr>za_in_flight := fl\<rparr>) = (account_of M L s)\<lparr>ac_flying := (case fl of Some p \<Rightarrow> fl_execution p | None \<Rightarrow> None)\<rparr>"
  "account_of M L (s\<lparr>za_quiescing := q\<rparr>) = (account_of M L s)\<lparr>ac_quiescing := q\<rparr>"
  "account_of M L (s\<lparr>za_close_waiters := w\<rparr>) = (account_of M L s)\<lparr>ac_waiters := w\<rparr>"
  "account_of M L (s\<lparr>za_registry := t\<rparr>) = (account_of M L s)\<lparr>ac_active := active_registrations t\<rparr>"
  by (simp_all add: account_of_def queue_items_def queue_of_def)

lemma seen_well_formed [simp]:
  "well_formed (s\<lparr>za_live := live\<rparr>) = well_formed s" "well_formed (s\<lparr>za_in_flight := fl\<rparr>) = well_formed s"
  "well_formed (s\<lparr>za_quiescing := q\<rparr>) = well_formed s" "well_formed (out_now fx s) = well_formed s"
  by (simp_all add: well_formed_def out_now_def queue_items_def queue_of_def)

lemma account_of_out [unseen]: "\<not> is_entry fx \<Longrightarrow> account_of M L (out_now fx s) = account_of M L s"
  by (simp add: account_of_def out_now_def queue_items_def queue_of_def)

lemma unseen_events [unseen]:
  "\<not> is_entry fx \<Longrightarrow> account_of M L (publish_event fx s) = account_of M L s" "well_formed (publish_event fx s) = well_formed s"
  "account_of M L (unhealthy client kind d s) = account_of M L s" "well_formed (unhealthy client kind d s) = well_formed s"
  "account_of M L (snd (call_ok env s)) = account_of M L s" "well_formed (snd (call_ok env s)) = well_formed s"
  by (simp_all add: publish_event_def unhealthy_def call_ok_def unseen)

lemma account_of_emit: "account_of M L (emit_completed c s) = ac_emit c (account_of M L s)"
  by (auto simp: emit_completed_def ac_emit_def publish_event_def Let_def unseen seen_fields account_of_def out_now_def
      queue_items_def queue_of_def)

lemma well_formed_emit [simp]: "well_formed s \<Longrightarrow> well_formed (emit_completed c s)"
  by (auto simp: emit_completed_def Let_def unseen well_formed_def out_now_def publish_event_def queue_items_def queue_of_def)

lemma account_of_terminal: "account_of M L (emit_terminal t s) = ac_terminal t (account_of M L s)"
  by (simp add: emit_terminal_def ac_terminal_def account_of_emit split: option.split)

lemma well_formed_terminal [simp]: "well_formed s \<Longrightarrow> well_formed (emit_terminal t s)"
  by (simp add: emit_terminal_def split: option.split)

lemma account_of_fold_emit: "account_of M L (fold emit_completed cs s) = fold ac_emit cs (account_of M L s)"
  by (induction cs arbitrary: s) (simp_all add: account_of_emit)

lemma well_formed_fold [simp]: "well_formed s \<Longrightarrow> well_formed (fold emit_completed cs s)"
  by (induction cs arbitrary: s) simp_all

lemma moves_unseen: "account_of M L s' = account_of M L s \<Longrightarrow> well_formed s' = well_formed s \<Longrightarrow> moves single M L s M L s'"
  by (simp add: moves_def)

section \<open>Settling\<close>

lemma account_of_settle:
  "settle_slot e k out (za_live s) = (live, t) \<Longrightarrow>
    account_of M L (settle_and_emit e k out s) = ac_terminal t ((account_of M L s)\<lparr>ac_live := live\<rparr>)"
  by (simp add: settle_and_emit_def settle_now_def account_of_terminal seen_fields)

lemma settle_well_formed [simp]: "well_formed s \<Longrightarrow> well_formed (settle_and_emit e k out s)"
  by (simp add: settle_and_emit_def settle_now_def split_def)

lemma account_of_fields [simp]:
  "ac_live (account_of M L s) = za_live s" "ac_items (account_of M L s) = M + queue_items s" "ac_lost (account_of M L s) = L"
  "ac_active (account_of M L s) = active_registrations (za_registry s)" "ac_waiters (account_of M L s) = za_close_waiters s"
  by (simp_all add: account_of_def)

lemma account_of_hand: "account_of M L s = (account_of (add_mset i M) L s)\<lparr>ac_items := M + queue_items s\<rparr>"
  by (simp add: account_of_def)

lemma settle_item_moves: "moves single (add_mset item M) L s M L (settle_item item d s)"
proof (cases "qi_execution item")
  case None
  have "ledger_step single (account_of (add_mset item M) L s) (account_of M L s)"
    unfolding account_of_hand [of M L s item] by (rule item_dropped [where i = item]) (simp_all add: None)
  then show ?thesis using None by (auto simp: settle_item_def moves_def)
next
  case (Some e)
  show ?thesis
  proof (cases "qi_slot item")
    case slot: None
    have "ledger_step single (account_of (add_mset item M) L s) (account_of M L s)"
      unfolding account_of_hand [of M L s item] by (rule item_forgotten [where i = item]) (simp_all add: slot)
    then show ?thesis using slot Some by (auto simp: settle_item_def moves_def)
  next
    case k: (Some k)
    obtain live t where st: "settle_slot e k (unknown_outcome d) (za_live s) = (live, t)" by fastforce
    have "ledger_step single (account_of (add_mset item M) L s)
      (ac_terminal t ((account_of (add_mset item M) L s)\<lparr>ac_items := M + queue_items s, ac_live := live\<rparr>))"
      by (rule item_settled [of _ item _ e k "unknown_outcome d"]) (simp_all add: Some k st)
    also have "(account_of (add_mset item M) L s)\<lparr>ac_items := M + queue_items s, ac_live := live\<rparr>
      = (account_of M L s)\<lparr>ac_live := live\<rparr>"
      by (simp add: account_of_def)
    finally show ?thesis
      using Some k by (auto simp: settle_item_def moves_def account_of_settle [OF st])
  qed
qed

lemma settle_flying_moves:
  assumes "za_in_flight s = Some p" "fl_execution p = Some e"
  shows "moves single M L s M L (settle_and_emit e k out (s\<lparr>za_in_flight := None\<rparr>))"
proof (rule moves_step)
  obtain live t where st: "settle_slot e k out (za_live s) = (live, t)" by fastforce
  have "ledger_step single (account_of M L s) (ac_terminal t ((account_of M L s)\<lparr>ac_live := live, ac_flying := None\<rparr>))"
    by (rule flying_settled [of _ e k out]) (simp_all add: assms account_of_def st)
  also have "(account_of M L s)\<lparr>ac_live := live, ac_flying := None\<rparr> = (account_of M L (s\<lparr>za_in_flight := None\<rparr>))\<lparr>ac_live := live\<rparr>"
    by (simp add: seen_fields)
  finally show "ledger_step single (account_of M L s) (account_of M L (settle_and_emit e k out (s\<lparr>za_in_flight := None\<rparr>)))"
    using st by (simp add: account_of_settle)
qed simp

lemma landed_moves: "moves single M L s M L (s\<lparr>za_in_flight := None\<rparr>)"
  by (rule moves_step) (simp_all add: seen_fields landed)

lemma settle_in_flight_moves: "moves single M L s M L (settle_in_flight d s)"
  by (auto simp: settle_in_flight_def Let_def landed_moves settle_flying_moves split: option.split)

lemma matching_moves:
  assumes "\<And>p. pv_registration p \<in> R \<Longrightarrow> matches p"
  shows "moves single M L s M (L - R) (settle_and_emit_matching matches d s)"
proof (rule moves_step)
  obtain live ts where st: "settle_matching matches (AdapterError KindOutcomeUnknown d) (za_live s) = (live, ts)" by fastforce
  let ?loc = "\<lambda>c. is_local (dispatch_completion_execution c)"
  let ?us = "filter (\<lambda>c. \<not> ?loc c) ts @ filter ?loc ts"
  have out: "settle_and_emit_matching matches d s = fold emit_completed ?us (s\<lparr>za_live := live\<rparr>)"
    by (simp add: settle_and_emit_matching_def settle_matching_unknown_def st)
  show "well_formed s \<Longrightarrow> well_formed (settle_and_emit_matching matches d s)" by (simp add: out)
  have "ledger_step single (account_of M L s)
      (fold ac_emit ?us ((account_of M L s)\<lparr>ac_live := live, ac_lost := ac_lost (account_of M L s) - R\<rparr>))"
    by (rule matched [where matches = matches and error = "AdapterError KindOutcomeUnknown d" and ts = ts])
      (use st assms in \<open>simp_all add: multiset_partition [symmetric]\<close>)
  then show "ledger_step single (account_of M L s) (account_of M (L - R) (settle_and_emit_matching matches d s))"
    by (simp only: out account_of_fold_emit seen_fields) (simp add: account_of_def)
qed

section \<open>Queues\<close>

lemma queue_items_insert:
  "queue_items (s\<lparr>za_queues := tab_insert client q (za_queues s)\<rparr>) + mset (queue_of s client) = queue_items s + mset q"
proof -
  let ?K = "fst ` set (za_queues s)" and ?f = "\<lambda>c. mset (if c = client then q else queue_of s c)"
  have "queue_items (s\<lparr>za_queues := tab_insert client q (za_queues s)\<rparr>) = (\<Sum>c \<in> insert client ?K. ?f c)"
    by (simp add: queue_items_def tab_keys_insert)
  also have "\<dots> = mset q + (\<Sum>c \<in> ?K - {client}. mset (queue_of s c))"
    by (simp add: sum.insert_remove)
  finally have a: "queue_items (s\<lparr>za_queues := tab_insert client q (za_queues s)\<rparr>)
    = mset q + (\<Sum>c \<in> ?K - {client}. mset (queue_of s c))" .
  have "queue_items s = (\<Sum>c \<in> insert client ?K. mset (queue_of s c))"
    unfolding queue_items_def by (cases "client \<in> ?K") (simp_all add: insert_absorb queue_of_absent)
  then have "queue_items s = mset (queue_of s client) + (\<Sum>c \<in> ?K - {client}. mset (queue_of s c))"
    by (simp add: sum.insert_remove)
  then show ?thesis using a by (simp add: ac_simps)
qed

lemma queues_account:
  "account_of M L (s\<lparr>za_queues := tab_insert client q (za_queues s)\<rparr>)
    = (account_of M L s)\<lparr>ac_items := M + queue_items (s\<lparr>za_queues := tab_insert client q (za_queues s)\<rparr>)\<rparr>"
  by (simp add: account_of_def)

lemma queues_well_formed:
  assumes "well_formed s" "\<And>i. i \<in> set q \<Longrightarrow> item_ok i"
  shows "well_formed (s\<lparr>za_queues := tab_insert client q (za_queues s)\<rparr>)"
proof -
  have "i \<in># queue_items (s\<lparr>za_queues := tab_insert client q (za_queues s)\<rparr>) \<Longrightarrow> i \<in># queue_items s + mset q" for i
    using queue_items_insert [of client q s] by (metis union_iff)
  then show ?thesis using assms by (auto simp: well_formed_def tab_ok_insert)
qed

lemma queue_item_ok: "well_formed s \<Longrightarrow> i \<in> set (queue_of s client) \<Longrightarrow> item_ok i"
proof -
  assume "well_formed s" and i: "i \<in> set (queue_of s client)"
  have "i \<in># queue_items s"
    using queue_items_insert [of client "[]" s] i by (metis set_mset_mset union_iff add.right_neutral mset.simps(1))
  then show "item_ok i" using \<open>well_formed s\<close> by (simp add: well_formed_def)
qed

lemma push_front_account: "account_of M L (push_front client item s) = account_of (add_mset item M) L s"
  using queue_items_insert [of client "item # queue_of s client" s] queues_account [of M L client "item # queue_of s client" s]
  by (simp add: push_front_def account_of_def)

lemma push_back_account: "account_of M L (push_back client item s) = account_of (add_mset item M) L s"
  using queue_items_insert [of client "queue_of s client @ [item]" s] queues_account [of M L client "queue_of s client @ [item]" s]
  by (simp add: push_back_def account_of_def)

lemma push_well_formed [simp]:
  "well_formed s \<Longrightarrow> item_ok item \<Longrightarrow> well_formed (push_front client item s)"
  "well_formed s \<Longrightarrow> item_ok item \<Longrightarrow> well_formed (push_back client item s)"
  by (auto simp: push_front_def push_back_def intro!: queues_well_formed dest: queue_item_ok)

lemma pop_account:
  assumes "pop_front client s = Some (item, s')"
  shows "account_of M L s = account_of (add_mset item M) L s'" "well_formed s \<Longrightarrow> well_formed s' \<and> item_ok item"
proof -
  show "account_of M L s = account_of (add_mset item M) L s'"
    using assms queue_items_insert [of client "tl (queue_of s client)" s] queues_account [of "add_mset item M" L client "tl (queue_of s client)" s]
    by (auto simp: pop_front_def account_of_def split: list.splits)
  assume w: "well_formed s"
  have q: "queue_of s client = item # tl (queue_of s client)" "s' = s\<lparr>za_queues := tab_insert client (tl (queue_of s client)) (za_queues s)\<rparr>"
    using assms by (auto simp: pop_front_def split: list.splits)
  then have "item_ok item" "\<And>i. i \<in> set (tl (queue_of s client)) \<Longrightarrow> item_ok i"
    using queue_item_ok [OF w, of _ client] by (metis list.set_intros)+
  then show "well_formed s' \<and> item_ok item" using q(2) queues_well_formed [OF w] by simp
qed

lemma push_front_moves: "item_ok item \<Longrightarrow> moves single (add_mset item M) L s M L (push_front client item s)"
  by (simp add: moves_def push_front_account)

text \<open>A lifecycle item is added or dropped freely.\<close>

lemma push_back_moves: "qi_execution item = None \<Longrightarrow> moves single M L s M L (push_back client item s)"
proof (rule moves_step)
  assume none: "qi_execution item = None"
  from item_added [OF this, of single "account_of M L s"]
  show "ledger_step single (account_of M L s) (account_of M L (push_back client item s))"
    by (simp add: push_back_account) (simp add: account_of_def)
  show "well_formed s \<Longrightarrow> well_formed (push_back client item s)" using none by (simp add: item_ok_def)
qed

section \<open>Sending\<close>

lemma note_asked_unseen [unseen]:
  "account_of M L (note_asked request payload s) = account_of M L s" "well_formed (note_asked request payload s) = well_formed s"
  by (cases "(request, payload, s)" rule: note_asked.cases; auto simp: unseen split: option.split)+

text \<open>The item in hand becomes the request in flight.\<close>

lemma flight_moves:
  assumes "record_sent request item s = (item', s2)" "pv_registration request \<in> active_registrations (za_registry s)"
  shows "moves single (add_mset item M) L s M L
      (s2\<lparr>za_in_flight := Some \<lparr>fl_request = request, fl_generation = g, fl_execution = qi_execution item', fl_slot = qi_slot item', fl_settled = False\<rparr>\<rparr>)
    \<and> qi_execution item' = qi_execution item \<and> za_registry s2 = za_registry s"
proof (cases "qi_execution item")
  case None
  then have s2: "item' = item" "s2 = s" using assms(1) by (simp_all add: record_sent_def)
  let ?s = "s\<lparr>za_in_flight := Some \<lparr>fl_request = request, fl_generation = g, fl_execution = None, fl_slot = qi_slot item, fl_settled = False\<rparr>\<rparr>"
  have "ledger_step single (account_of (add_mset item M) L s) (account_of M L s)"
    unfolding account_of_hand [of M L s item] by (rule item_dropped [where i = item]) (simp_all add: None)
  moreover have "ledger_step single (account_of M L s) (account_of M L ?s)"
    using landed [of single "account_of M L s"] by (simp add: seen_fields)
  ultimately have "moves single (add_mset item M) L s M L ?s" by (auto simp: moves_def)
  then show ?thesis using None s2 by simp
next
  case (Some e)
  show ?thesis
  proof (cases "tab_get (za_live s) e")
    case live: None
    then have s2: "item' = item" "s2 = s" using assms(1) Some by (simp_all add: record_sent_def)
    let ?s = "s\<lparr>za_in_flight := Some \<lparr>fl_request = request, fl_generation = g, fl_execution = Some e, fl_slot = qi_slot item, fl_settled = False\<rparr>\<rparr>"
    have "ledger_step single (account_of (add_mset item M) L s)
        ((account_of (add_mset item M) L s)\<lparr>ac_items := M + queue_items s, ac_flying := Some e\<rparr>)"
      by (rule sent_unknown [where i = item]) (simp_all add: Some live)
    also have "(account_of (add_mset item M) L s)\<lparr>ac_items := M + queue_items s, ac_flying := Some e\<rparr> = account_of M L ?s"
      by (simp add: account_of_def queue_items_def queue_of_def)
    finally have "moves single (add_mset item M) L s M L ?s" by (auto simp: moves_def)
    then show ?thesis using Some s2 by simp
  next
    case live: (Some x)
    obtain x' k where r: "rename_slot request (qi_slot item) x = (x', k)" by fastforce
    then have s2: "item' = item\<lparr>qi_slot := Some k\<rparr>" "s2 = s\<lparr>za_live := tab_insert e x' (za_live s)\<rparr>"
      using assms(1) Some live by (simp_all add: record_sent_def)
    let ?s = "s2\<lparr>za_in_flight := Some \<lparr>fl_request = request, fl_generation = g, fl_execution = Some e, fl_slot = Some k, fl_settled = False\<rparr>\<rparr>"
    have "ledger_step single (account_of (add_mset item M) L s)
        ((account_of (add_mset item M) L s)\<lparr>ac_items := M + queue_items s, ac_live := tab_insert e x' (za_live s), ac_flying := Some e\<rparr>)"
      using sent [of "account_of (add_mset item M) L s" item "M + queue_items s" e x request x' k single] Some live r assms(2) by simp
    also have "(account_of (add_mset item M) L s)\<lparr>ac_items := M + queue_items s, ac_live := tab_insert e x' (za_live s), ac_flying := Some e\<rparr> = account_of M L ?s"
      by (simp add: account_of_def queue_items_def queue_of_def s2)
    finally have "moves single (add_mset item M) L s M L ?s" by (auto simp: moves_def s2)
    then show ?thesis using Some s2 by simp
  qed
qed

lemma replace_unseen [unseen]:
  "account_of M L (snd (replace_request_child env s)) = account_of M L s" "well_formed (snd (replace_request_child env s)) = well_formed s"
  by (simp_all add: replace_request_child_def unseen)

lemma write_failed_moves:
  assumes "za_in_flight s = Some p" "fl_request p = request" "fl_execution p = qi_execution item"
    and "qi_execution item \<noteq> None \<Longrightarrow> is_dispatch payload"
  shows "moves single M L s M L (snd (write_failed env client request payload item s))"
proof -
  let ?s1 = "s\<lparr>za_in_flight := None\<rparr>"
  define s2 where "s2 = (case qi_execution item of
        Some execution \<Rightarrow> settle_and_emit execution (case qi_slot item of Some slot \<Rightarrow> slot | None \<Rightarrow> pv_request_id request)
          (Some (RankUnknown, AdapterError KindUnavailable WriteFailed)) ?s1
      | None \<Rightarrow> if is_dispatch payload then unhealthy (Some client) KindOutcomeUnknown WriteFailed ?s1 else ?s1)"
  have w: "snd (write_failed env client request payload item s)
    = snd (replace_request_child env (if is_dispatch payload then s2 else push_front client item s2))"
    using assms(1,2) by (simp add: write_failed_def s2_def Let_def split_def)
  have m: "moves single M L s M L s2"
  proof (cases "qi_execution item")
    case None
    then have "account_of M L s2 = account_of M L ?s1 \<and> well_formed s2 = well_formed ?s1" by (simp add: s2_def unseen)
    then have "moves single M L ?s1 M L s2" by (simp add: moves_def)
    then show ?thesis using landed_moves moves_trans by blast
  next
    case (Some e)
    then show ?thesis using assms by (simp add: s2_def settle_flying_moves)
  qed
  have u: "moves single M L x M L (snd (replace_request_child env x))" for x by (simp add: moves_def unseen)
  show ?thesis
  proof (cases "is_dispatch payload")
    case True
    then show ?thesis using moves_trans [OF m u] by (simp add: w)
  next
    case False
    show ?thesis
    proof (cases "qi_execution item")
      case None
      have "moves single M L s2 M L (push_front client item s2)"
      proof (rule moves_step)
        show "well_formed s2 \<Longrightarrow> well_formed (push_front client item s2)" using None by (simp add: item_ok_def)
        show "ledger_step single (account_of M L s2) (account_of M L (push_front client item s2))"
          using item_added [OF None, of single "account_of M L s2"] by (simp add: push_front_account) (simp add: account_of_def)
      qed
      then show ?thesis using False moves_trans [OF moves_trans [OF m] u] by (simp add: w)
    qed (use False assms(4) in simp)
  qed
qed

lemma send_item_moves:
  assumes "item_ok item" "pv_registration request \<in> active_registrations (za_registry s)"
  shows "moves single (add_mset item M) L s M L (snd (send_item env client request item s))"
proof (cases "qi_payload item")
  case None
  have "moves single (add_mset item M) L s (add_mset item M) L (unhealthy (Some client) KindInvalidRequest QueuedNoPayload s)"
    by (simp add: moves_def unseen)
  from moves_trans [OF this settle_item_moves] None show ?thesis by (simp add: send_item_def)
next
  case (Some payload)
  define s1 where "s1 = note_asked request payload s"
  have u: "moves single (add_mset item M) L s (add_mset item M) L s1" by (simp add: s1_def moves_def unseen)
  have reg: "za_registry s1 = za_registry s"
    unfolding s1_def by (cases "(request, payload, s)" rule: note_asked.cases) (auto split: option.split)
  define frame where "frame = request_frame s1 request client payload"
  show ?thesis
  proof (cases "encode_line (en_json env) frame")
    case (Inl error)
    have "moves single (add_mset item M) L s1 (add_mset item M) L (unhealthy (Some client) KindInvalidRequest NotSentEncoding s1)"
      by (simp add: moves_def unseen)
    from moves_trans [OF u moves_trans [OF this settle_item_moves]] show ?thesis
      using Some Inl by (simp add: send_item_def s1_def [symmetric] frame_def [symmetric] Let_def)
  next
    case (Inr line)
    let ?item = "item\<lparr>qi_client := client\<rparr>"
    obtain item' s2 where r: "record_sent request ?item s1 = (item', s2)" by fastforce
    define s3 where "s3 = s2\<lparr>za_in_flight := Some \<lparr>fl_request = request, fl_generation = za_generation s1,
        fl_execution = qi_execution item', fl_slot = qi_slot item', fl_settled = False\<rparr>\<rparr>"
    have "pv_registration request \<in> active_registrations (za_registry s1)" using assms(2) reg by simp
    note f0 = flight_moves [OF r this, of single M L "za_generation s1"]
    have f: "moves single (add_mset ?item M) L s1 M L s3" "qi_execution item' = qi_execution item"
      unfolding s3_def using f0 by (blast, simp)
    obtain ok s4 where c: "call_ok env s3 = (ok, s4)" by fastforce
    define s5 where "s5 = out_now (OutLine frame ok) s4"
    have fl: "za_in_flight s5 = za_in_flight s3" using c by (auto simp: s5_def out_now_def call_ok_def)
    have "s4 = snd (call_ok env s3)" using c by simp
    then have "account_of M L s5 = account_of M L s3" "well_formed s5 = well_formed s3" by (simp_all add: s5_def unseen)
    then have m5: "moves single M L s3 M L s5" by (simp add: moves_def)
    have m: "moves single M L s5 M L (snd (if ok then (SendAccepted, s5) else write_failed env client request payload item' s5))"
    proof (cases ok)
      case False
      have "qi_execution item' \<noteq> None \<Longrightarrow> is_dispatch payload" using assms(1) Some f by (simp add: item_ok_def)
      moreover have "za_in_flight s5 = Some \<lparr>fl_request = request, fl_generation = za_generation s1,
        fl_execution = qi_execution item', fl_slot = qi_slot item', fl_settled = False\<rparr>" using fl by (simp add: s3_def)
      ultimately show ?thesis using False write_failed_moves [of s5] by simp
    qed simp
    have "snd (send_item env client request item s) = snd (if ok then (SendAccepted, s5) else write_failed env client request payload item' s5)"
      using Some Inr r c by (simp add: send_item_def s1_def [symmetric] frame_def [symmetric] s3_def [symmetric] s5_def Let_def)
    moreover have "moves single (add_mset item M) L s1 (add_mset ?item M) L s1"
    proof (rule moves_step)
      have "ledger_step single (account_of (add_mset item M) L s1)
          ((account_of (add_mset item M) L s1)\<lparr>ac_items := add_mset ?item (M + queue_items s1)\<rparr>)"
        by (rule item_relabelled [where i = item]) simp_all
      then show "ledger_step single (account_of (add_mset item M) L s1) (account_of (add_mset ?item M) L s1)"
        by (simp add: account_of_def)
    qed
    ultimately show ?thesis using moves_trans [OF u moves_trans [OF _ moves_trans [OF f(1) moves_trans [OF m5 m]]]] by metis
  qed
qed

text \<open>Allocating a request keeps the registrations, and hands out one of an active registration.\<close>

lemma allocate_active:
  assumes "registry_ok t" "allocate_request client t = (t', a)"
  shows "registry_ok t'" "active_registrations t' = active_registrations t" "a = Inr (r, n) \<Longrightarrow> r \<in> active_registrations t"
proof -
  have "\<exists>out. registry_step t (CallAllocate client) = (t', out)" using assms(2) by (cases a) auto
  then obtain out where "evolves t t' out" using allocate_evolves [OF assms(1)] by blast
  then show "registry_ok t'" by (simp add: evolves_def)
  have "tab_ok (zr_records t)" using assms(1) by (simp add: registry_ok_def)
  then have "active_for t' c q = active_for t c q" for c q
    using assms(2) by (auto simp: allocate_request_def active_iff tab_get_insert split: option.splits sum.splits if_splits)
  then show "active_registrations t' = active_registrations t" by (simp add: active_registrations_def)
  show "a = Inr (r, n) \<Longrightarrow> r \<in> active_registrations t"
    using assms(2) by (auto simp: allocate_request_def active_registrations_def active_iff split: option.splits sum.splits if_splits)
qed

lemma registry_kept_moves:
  "(well_formed s \<Longrightarrow> registry_ok t \<and> active_registrations t = active_registrations (za_registry s)) \<Longrightarrow> moves single M L s M L (s\<lparr>za_registry := t\<rparr>)"
  by (auto simp: moves_def account_of_def well_formed_def queue_items_def queue_of_def)

lemma moves_if: "(well_formed s \<Longrightarrow> moves single M L s M' L' s') \<Longrightarrow> moves single M L s M' L' s'"
  by (auto simp: moves_def)

text \<open>The terminal of a stale item is still to be emitted.\<close>

fun pending_terminal :: "send_result \<times> 'c adapter \<Rightarrow> 'c adapter" where
  "pending_terminal (SendStale t, s) = emit_terminal t s"
| "pending_terminal (_, s) = s"

lemma pump_tries_moves: "moves single M L s M L (pending_terminal (pump_tries n env client s))"
proof (induction n arbitrary: s)
  case (Suc n)
  show ?case
  proof (cases "pop_front client s")
    case (Some p)
    obtain item s1 where pop: "pop_front client s = Some (item, s1)" using Some by (cases p) simp
    note pa = pop_account [OF pop]
    have m1: "moves single M L s (add_mset item M) L s1" using pa(1) [of M L] pa(2) by (simp add: moves_def)
    show ?thesis
    proof (rule moves_if)
      assume wf: "well_formed s"
      have ok: "item_ok item" "registry_ok (za_registry s1)" using pa(2) [OF wf] by (auto simp: well_formed_def)
      show "moves single M L s M L (pending_terminal (pump_tries (Suc n) env client s))"
      proof (cases "qi_incarnation item \<noteq> None \<and> za_incarnation s1 \<noteq> qi_incarnation item")
        case True
        have "pending_terminal (pump_tries (Suc n) env client s) = settle_item item NotSentConnectionChanged s1"
          using True pop by (auto simp: settle_item_def settle_and_emit_def split_def split: option.split) (simp_all add: emit_terminal_def)
        then show ?thesis using moves_trans [OF m1 settle_item_moves] by metis
      next
        case fresh: False
        obtain t a where alloc: "allocate_request client (za_registry s1) = (t, a)" by fastforce
        show ?thesis
        proof (cases a)
          case (Inl error)
          then have "pending_terminal (pump_tries (Suc n) env client s) = push_front client item s1"
            using pop fresh alloc by auto
          then show ?thesis using moves_trans [OF m1 push_front_moves [OF ok(1)]] by metis
        next
          case (Inr rn)
          obtain r n' where rn: "rn = (r, n')" by fastforce
          let ?item = "if qi_execution item \<noteq> None \<and> qi_slot item = None then item\<lparr>qi_slot := Some n'\<rparr> else item"
          let ?s = "s1\<lparr>za_registry := t\<rparr>" and ?req = "\<lparr>pv_request_id = n', pv_registration = r\<rparr>"
          note al = allocate_active [OF ok(2) alloc]
          have m2: "moves single (add_mset item M) L s1 (add_mset item M) L ?s"
            using al(1,2) by (rule_tac registry_kept_moves) simp
          have m3: "moves single (add_mset item M) L ?s (add_mset ?item M) L ?s"
          proof (cases "qi_execution item \<noteq> None \<and> qi_slot item = None")
            case True
            have "ledger_step single (account_of (add_mset item M) L ?s)
                ((account_of (add_mset item M) L ?s)\<lparr>ac_items := add_mset (item\<lparr>qi_slot := Some n'\<rparr>) (M + queue_items ?s)\<rparr>)"
              by (rule item_stamped [where i = item]) (use True in simp_all)
            then have "ledger_step single (account_of (add_mset item M) L ?s) (account_of (add_mset ?item M) L ?s)"
              using True by (simp add: account_of_def)
            then show ?thesis by (auto simp: moves_def)
          next
            case False
            then show ?thesis by auto
          qed
          have "item_ok ?item" using ok(1) by (auto simp: item_ok_def)
          moreover have "pv_registration ?req \<in> active_registrations (za_registry ?s)" using al(2,3) Inr rn by simp
          ultimately have m4: "moves single (add_mset ?item M) L ?s M L (snd (send_item env client ?req ?item ?s))"
            by (rule send_item_moves)
          note m = moves_trans [OF m1 moves_trans [OF m2 moves_trans [OF m3 m4]]]
          obtain res s2 where send: "send_item env client ?req ?item ?s = (res, s2)" by fastforce
          then have m': "moves single M L s M L s2" using m by simp
          have ns: "\<And>t. res \<noteq> SendStale t" using send_item_not_stale [of env client ?req ?item ?s] send by simp
          have "pump_tries (Suc n) env client s = (case (res, s2) of (SendContinue, s2) \<Rightarrow> pump_tries n env client s2 | other \<Rightarrow> other)"
            using pop fresh alloc Inr rn send by (auto split: send_result.split)
          then show ?thesis
            using m' moves_trans [OF m' Suc.IH [of s2]] ns by (cases res) (auto simp del: pump_tries.simps)
        qed
      qed
    qed
  qed simp
qed simp

section \<open>Losing registrations\<close>

lemma retire_moves: "moves single M L s M (L - {r}) (retire_registration_state client r d s)"
proof -
  define s1 where "s1 = (case za_in_flight s of
      Some p \<Rightarrow> if pv_registration (fl_request p) = r then s\<lparr>za_in_flight := None\<rparr> else s | None \<Rightarrow> s)"
  define s2 where "s2 = settle_and_emit_matching (\<lambda>p. pv_registration p = r) d s1"
  have "moves single M L s M L s1" by (simp add: s1_def landed_moves split: option.split)
  moreover have "moves single M L s1 M (L - {r}) s2" unfolding s2_def by (rule matching_moves) simp
  ultimately have m: "moves single M L s M (L - {r}) s2" by (rule moves_trans)
  have "moves single M (L - {r}) s2 M (L - {r}) (retire_registration_state client r d s)"
    unfolding retire_registration_state_def s1_def [symmetric] s2_def [symmetric] Let_def
    by (rule moves_unseen) (simp_all add: unseen invalidate_client_def split: option.split)
  from moves_trans [OF m this] show ?thesis .
qed

lemma retire_all_moves: "moves single M L s M (L - snd ` set rs) (retire_all d rs s)"
proof (induction rs arbitrary: s L)
  case (Cons e rs)
  obtain c r where e: "e = (c, r)" by fastforce
  have "L - {r} - snd ` set rs = L - snd ` set (e # rs)" using e by auto
  then show ?case using moves_trans [OF retire_moves Cons.IH [of "L - {r}"]] e by (metis retire_all.simps(2))
qed simp

lemma retire_expired_moves: "moves single M L s M (L - snd ` set rs) (retire_expired rs s)"
proof (induction rs arbitrary: s L)
  case (Cons e rs)
  obtain c r where e: "e = (c, r)" by fastforce
  have "L - {r} - snd ` set rs = L - snd ` set (e # rs)" using e by auto
  moreover have "moves single M L s M (L - {r}) (unhealthy (Some c) KindUnavailable (HeartbeatSilence c) (retire_registration_state c r HeartbeatExpired s))"
    using retire_moves by (simp add: moves_def unseen)
  ultimately show ?case using moves_trans [OF _ Cons.IH [of "L - {r}"]] e by (metis retire_expired.simps(2))
qed simp

text \<open>A change of the table loses the registrations that are no longer active.\<close>

lemma registry_moves:
  assumes "registry_ok (za_registry s) \<Longrightarrow> registry_ok t"
    and "registry_ok (za_registry s) \<Longrightarrow> active_registrations (za_registry s) \<subseteq> active_registrations t \<union> R"
  shows "moves single M L s M (L \<union> R) (s\<lparr>za_registry := t\<rparr>)"
proof (rule moves_if)
  assume "well_formed s"
  then have ok: "registry_ok (za_registry s)" by (simp add: well_formed_def)
  have "ledger_step single (account_of M L s) ((account_of M L s)\<lparr>ac_active := active_registrations t, ac_lost := L \<union> R\<rparr>)"
    by (rule registry_changed) (use assms(2) [OF ok] in auto)
  then have "ledger_step single (account_of M L s) (account_of M (L \<union> R) (s\<lparr>za_registry := t\<rparr>))"
    by (simp add: account_of_def queue_items_def queue_of_def)
  then show "moves single M L s M (L \<union> R) (s\<lparr>za_registry := t\<rparr>)"
    using assms(1) by (auto simp: moves_def well_formed_def queue_items_def queue_of_def)
qed

lemma active_members: "registry_ok t \<Longrightarrow> active_registrations t = (rec_registration \<circ> snd) ` set (zr_records t)"
proof -
  assume "registry_ok t"
  then have "active_registrations t = {r. \<exists>c x. (c, x) \<in> set (zr_records t) \<and> rec_registration x = r}"
    by (auto simp: active_registrations_def active_iff registry_ok_def tab_get_in_set)
  also have "\<dots> = (rec_registration \<circ> snd) ` set (zr_records t)" by force
  finally show ?thesis .
qed

lemma invalidate_moves: "moves single M {} s M {} (invalidate_all_registrations d s)"
proof (rule moves_if)
  assume "well_formed s"
  then have ok: "registry_ok (za_registry s)" by (simp add: well_formed_def)
  obtain t displaced where i: "invalidate_all (za_registry s) = (t, displaced)" by fastforce
  then have td: "t = \<lparr>zr_records = [], zr_retired = zr_retired (za_registry s) \<union> active_registrations (za_registry s)\<rparr>"
    "displaced = map (\<lambda>e. (fst e, rec_registration (snd e))) (zr_records (za_registry s))"
    using invalidate_all_eq [OF ok] active_members [OF ok] by (simp_all add: comp_def)
  have d: "snd ` set displaced = active_registrations (za_registry s)"
    unfolding td active_members [OF ok] by force
  have "registry_ok t" by (simp add: td registry_ok_def btree.indexed_by_def)
  note d = d this
  have "moves single M {} s M ({} \<union> snd ` set displaced) (s\<lparr>za_registry := t\<rparr>)"
    by (rule registry_moves) (use d in auto)
  from moves_trans [OF this retire_all_moves [of single M _ _ displaced d]] show "moves single M {} s M {} (invalidate_all_registrations d s)"
    by (simp add: invalidate_all_registrations_def i)
qed

section \<open>The transport and the scheduler\<close>

lemma quiesced_moves: "moves single M L s M L (s\<lparr>za_quiescing := True\<rparr>)"
  by (rule moves_step) (simp_all add: seen_fields quiesced)

lemma call_moves: "call_ok env s = (ok, s') \<Longrightarrow> moves single M L s M L s'"
proof -
  assume "call_ok env s = (ok, s')"
  then have "s' = snd (call_ok env s)" by simp
  then show ?thesis by (simp add: moves_def unseen)
qed

lemma gate_moves:
  assumes "\<And>s. moves single M L s M L (f s)"
  shows "moves single M L s M L (with_gate env f s)"
proof -
  obtain ok s1 where c: "call_ok env s = (ok, s1)" by fastforce
  note m = call_moves [OF c, of single M L]
  show ?thesis
    using moves_trans [OF m assms [of s1]] moves_trans [OF m quiesced_moves [of single M L s1]] by (simp add: with_gate_def c)
qed

lemma install_unseen [unseen]:
  "account_of M L (install_coverage env s) = account_of M L s" "well_formed (install_coverage env s) = well_formed s"
  by (simp_all add: install_coverage_def unseen split: option.split)

lemma restart_moves: "moves single M {} s M {} (restart_whole_pipe env s)"
proof -
  have body: "moves single M {} s M {} ((\<lambda>s.
        (let s1 = unhealthy None KindUnavailable EventChannelChanged
                    (s\<lparr>za_incarnation := None, za_pending_coverage := None, za_success := None, za_register_epoch := [],
                       za_resume_epoch := za_resume_epoch s + 1\<rparr>) in
         case generation_advance (za_generation s1) of
           Inl _ \<Rightarrow> unhealthy None KindUnavailable CounterUsedUp s1
         | Inr g \<Rightarrow>
             (let s2 = invalidate_all_registrations EventPipeFailedSent (settle_in_flight EventPipeFailed (s1\<lparr>za_generation := g\<rparr>));
                  s3 = s2\<lparr>za_captures := invalidate_all_clients (za_captures s2), za_pane_claims := [], za_snapshots := []\<rparr>
              in case call_ok env (out_now OutRespawnRequest s3) of
                   (request_ok, s4) \<Rightarrow>
                     (case call_ok env (out_now (OutRespawnEvent g) s4) of
                        (event_ok, s5) \<Rightarrow>
                          if request_ok \<and> event_ok then install_coverage env s5
                          else unhealthy None KindUnavailable RestartFailed s5)))) s)" for s :: "'a adapter"
  proof -
    define s1 where "s1 = unhealthy None KindUnavailable EventChannelChanged
                    (s\<lparr>za_incarnation := None, za_pending_coverage := None, za_success := None, za_register_epoch := [],
                       za_resume_epoch := za_resume_epoch s + 1\<rparr>)"
    have m1: "moves single M {} s M {} s1" by (rule moves_unseen) (simp_all add: s1_def unseen)
    show ?thesis
    proof (cases "generation_advance (za_generation s1)")
      case (Inl e)
      have "moves single M {} s1 M {} (unhealthy None KindUnavailable CounterUsedUp s1)" by (rule moves_unseen) (simp_all add: unseen)
      from moves_trans [OF m1 this] show ?thesis using Inl by (simp add: s1_def [symmetric] Let_def)
    next
      case (Inr g)
      let ?g = "s1\<lparr>za_generation := g\<rparr>"
      define s2 where "s2 = invalidate_all_registrations EventPipeFailedSent (settle_in_flight EventPipeFailed ?g)"
      have "moves single M {} s1 M {} ?g" by (rule moves_unseen) (simp_all add: unseen)
      from moves_trans [OF this moves_trans [OF settle_in_flight_moves invalidate_moves]] have m2: "moves single M {} s1 M {} s2"
        by (simp add: s2_def)
      define s3 where "s3 = s2\<lparr>za_captures := invalidate_all_clients (za_captures s2), za_pane_claims := [], za_snapshots := []\<rparr>"
      define s4 where "s4 = snd (call_ok env (out_now OutRespawnRequest s3))"
      define s5 where "s5 = snd (call_ok env (out_now (OutRespawnEvent g) s4))"
      have "moves single M {} s2 M {} (if b then install_coverage env s5 else unhealthy None KindUnavailable RestartFailed s5)" for b
        by (rule moves_unseen) (simp_all add: unseen s3_def s4_def s5_def)
      from moves_trans [OF moves_trans [OF m1 m2] this]
      have m: "moves single M {} s M {} (if b then install_coverage env s5 else unhealthy None KindUnavailable RestartFailed s5)" for b .
      show ?thesis
        unfolding s1_def [symmetric] Let_def Inr sum.case s2_def [symmetric] s3_def [symmetric] split_def
          s4_def [symmetric] s5_def [symmetric]
        by (rule m)
    qed
  qed
  show ?thesis
    unfolding restart_whole_pipe_def using gate_moves [OF body] by simp
qed

lemma pump_round_moves:
  "moves single M L s M L (case pump_round env order s of (RoundStale t, s1) \<Rightarrow> emit_terminal t s1 | (_, s1) \<Rightarrow> s1)"
proof (induction order arbitrary: s)
  case (Cons client order)
  obtain r s1 where r: "pump_one env client s = (r, s1)" by fastforce
  have m: "moves single M L s M L (pending_terminal (r, s1))"
    using pump_tries_moves [of single M L s 2 env client] r by (simp add: pump_one_def)
  have c: "moves single M L s1 M L (s1\<lparr>za_cursor := Some client\<rparr>)" by (rule moves_unseen) (simp_all add: unseen)
  show ?case
    using m moves_trans [OF _ Cons.IH [of s1]] moves_trans [OF _ c] r by (cases r) auto
qed simp

lemma pump_all_moves: "moves single M {} s M {} (pump_all env s)"
proof (induction env s rule: pump_all.induct)
  case (1 env s)
  show ?case
  proof (cases "za_shutdown s \<or> za_suspended s \<or> za_in_flight s \<noteq> None")
    case False
    obtain r s1 where r: "pump_round env (pump_order s) s = (r, s1)" by fastforce
    note m = pump_round_moves [where single = single and M = M and L = "{}" and env = env and order = "pump_order s" and s = s, unfolded r]
    show ?thesis
    proof (cases r)
      case RoundDone
      then have "pump_all env s = s1" using False r by (subst pump_all.simps) simp
      then show ?thesis using m RoundDone by simp
    next
      case RoundRestart
      then have "pump_all env s = restart_whole_pipe env s1" using False r by (subst pump_all.simps) simp
      then show ?thesis using m RoundRestart moves_trans [OF _ restart_moves] by simp
    next
      case (RoundStale t)
      then have e: "pump_all env s = pump_all env (emit_terminal t s1)" using False r by (subst pump_all.simps) simp
      have "moves single M {} (emit_terminal t s1) M {} (pump_all env (emit_terminal t s1))"
        using 1 [OF False r [symmetric] RoundStale] by simp
      moreover have "moves single M {} s M {} (emit_terminal t s1)" using m RoundStale by simp
      ultimately show ?thesis unfolding e by (rule moves_trans [rotated])
    qed
  next
    case True
    then show ?thesis by (subst pump_all.simps) simp
  qed
qed

end
