(* ===== verification/Zellij_Handlers.thy ===== *)
theory Zellij_Handlers
  imports Zellij_Simulation
begin

text \<open>
  The handlers of the adapter as runs of the moves of \<open>Zellij_Account\<close>, down to one step of the adapter:
  the purge of the queues, registrations and coverage, suspension and shutdown, dispatches and their
  reports, captures, origins and pending panes.
\<close>

abbreviation moved :: "bool \<Rightarrow> 'c adapter \<Rightarrow> 'c adapter \<Rightarrow> bool" where
  "moved single s s' \<equiv> moves single {#} {} s {#} {} s'"

lemmas moves_chain [trans] = moves_trans

lemma unseen_moved: "account_of {#} {} s' = account_of {#} {} s \<Longrightarrow> well_formed s' = well_formed s \<Longrightarrow> moved single s s'"
  by (rule moves_unseen)

section \<open>The purge\<close>

lemma retained_items: "tab_ok (za_queues s) \<Longrightarrow>
    queue_items (s\<lparr>za_queues := retain_items P (za_queues s)\<rparr>) = filter_mset P (queue_items s)"
proof -
  assume ok: "tab_ok (za_queues s)"
  have get: "tab_get (retain_items P t) c = map_option (filter P) (tab_get t c)" for t :: "(str, 'a queued_item list) table" and c
    by (induction t) (auto simp: retain_items_def tab_get_def)
  have "queue_of (s\<lparr>za_queues := retain_items P (za_queues s)\<rparr>) c = filter P (queue_of s c)" for c
    by (simp add: queue_of_def get split: option.split)
  moreover have "fst ` set (retain_items P (za_queues s)) = fst ` set (za_queues s)"
    by (force simp: retain_items_def)
  moreover have "filter_mset P (\<Sum>c\<in>A. f c) = (\<Sum>c\<in>A. filter_mset P (f c))" if "finite A" for A :: "str set" and f
    using that by (induction A rule: finite_induct) simp_all
  ultimately show ?thesis by (simp add: queue_items_def)
qed

lemma retained_ok: "tab_ok t \<Longrightarrow> tab_ok (retain_items P t)"
  by (simp add: tab_ok_def retain_items_def comp_def)

lemma queue_items_concat: "tab_ok (za_queues s) \<Longrightarrow> queue_items s = mset (concat (map snd (za_queues s)))"
proof -
  assume ok: "tab_ok (za_queues s)"
  have q: "queue_of s (fst e) = snd e" if "e \<in> set (za_queues s)" for e
    using that tab_get_in_set [OF ok, of "fst e" "snd e"] by (simp add: queue_of_def)
  have "queue_items s = (\<Sum>c \<in> set (map fst (za_queues s)). mset (queue_of s c))"
    by (simp add: queue_items_def)
  also have "\<dots> = sum_list (map (\<lambda>c. mset (queue_of s c)) (map fst (za_queues s)))"
    by (rule sum.distinct_set_conv_list) (rule tab_ok_distinct [OF ok])
  also have "map (\<lambda>c. mset (queue_of s c)) (map fst (za_queues s)) = map (\<lambda>e. mset (snd e)) (za_queues s)"
    by (auto simp: q)
  also have "sum_list (map (\<lambda>e. mset (snd e)) t) = mset (concat (map snd t))" for t :: "(str, 'a queued_item list) table"
    by (induction t) simp_all
  finally show ?thesis .
qed

lemma waiters_commute: "ac_emit c (a\<lparr>ac_items := N, ac_live := live\<rparr>) = (ac_emit c a)\<lparr>ac_items := N, ac_live := live\<rparr>"
  by (simp add: ac_emit_def)

definition purged_of :: "'c queued_item list \<Rightarrow> (execution_id \<times> bridge_request_id option) list" where
  "purged_of items = List.map_filter (\<lambda>i. map_option (\<lambda>e. (e, qi_slot i)) (qi_execution i)) items"

lemma purged_of_simps [simp]:
  "purged_of [] = []"
  "purged_of (i # items) = (case qi_execution i of None \<Rightarrow> purged_of items | Some e \<Rightarrow> (e, qi_slot i) # purged_of items)"
  by (simp_all add: purged_of_def List.map_filter_simps split: option.split)

lemma purge_account:
  "settle_purged d (purged_of items) (ac_live a) = (live, ts) \<Longrightarrow> ac_items a = mset items + N
    \<Longrightarrow> ledger_steps single a (fold ac_emit ts (a\<lparr>ac_items := N, ac_live := live\<rparr>))"
proof (induction items arbitrary: a live ts)
  case Nil
  then have "fold ac_emit ts (a\<lparr>ac_items := N, ac_live := live\<rparr>) = a" by (cases a) auto
  then show ?case by simp
next
  case (Cons i items)
  show ?case
  proof (cases "qi_execution i")
    case None
    let ?b = "a\<lparr>ac_items := mset items + N\<rparr>"
    have "ledger_step single a ?b" by (rule item_dropped [where i = i]) (use Cons.prems None in simp_all)
    moreover have "ledger_steps single ?b (fold ac_emit ts (?b\<lparr>ac_items := N, ac_live := live\<rparr>))"
      by (rule Cons.IH) (use Cons.prems None in simp_all)
    ultimately show ?thesis by simp
  next
    case (Some e)
    obtain live1 t where t: "(case qi_slot i of
              Some k \<Rightarrow> settle_slot e k (unknown_outcome d) (ac_live a)
            | None \<Rightarrow> settle_any_slot e (unknown_outcome d) (ac_live a)) = (live1, t)" by fastforce
    obtain ts' where ts: "settle_purged d (purged_of items) live1 = (live, ts')" "ts = (case t of None \<Rightarrow> ts' | Some c \<Rightarrow> c # ts')"
      using Cons.prems(1) Some t by (auto split: prod.splits)
    let ?b = "ac_terminal t (a\<lparr>ac_items := mset items + N, ac_live := live1\<rparr>)"
    have "ledger_step single a ?b"
    proof (cases "qi_slot i")
      case None
      show ?thesis by (rule any_settled [of a i _ e "unknown_outcome d"]) (use Cons.prems Some None t in simp_all)
    next
      case (Some k)
      show ?thesis by (rule item_settled [of a i _ e k "unknown_outcome d"]) (use Cons.prems \<open>qi_execution i = Some e\<close> Some t in simp_all)
    qed
    moreover have "ledger_steps single ?b (fold ac_emit ts' (?b\<lparr>ac_items := N, ac_live := live\<rparr>))"
      by (rule Cons.IH) (use ts in simp_all)
    moreover have "fold ac_emit ts' (?b\<lparr>ac_items := N, ac_live := live\<rparr>) = fold ac_emit ts (a\<lparr>ac_items := N, ac_live := live\<rparr>)"
      by (cases t) (simp_all add: ts ac_terminal_def waiters_commute [symmetric])
    ultimately show ?thesis by simp
  qed
qed

lemma route_emits: "well_formed s \<Longrightarrow> route_purged c s = emit_completed c s"
  by (auto simp: route_purged_def emit_completed_def well_formed_def Let_def)

lemma fold_route: "well_formed s \<Longrightarrow> fold route_purged ts s = fold emit_completed ts s"
  by (induction ts arbitrary: s) (simp_all add: route_emits)

lemma drain_moved: "moved single s (drain_queued_requests d s)"
proof (rule moves_if)
  assume wf: "well_formed s"
  then have ok: "tab_ok (za_queues s)" by (simp add: well_formed_def)
  let ?items = "concat (map snd (za_queues s))"
  obtain live ts where p: "settle_purged d (purged_of ?items) (za_live s) = (live, ts)" by fastforce
  let ?s = "s\<lparr>za_queues := retain_items (\<lambda>_. False) (za_queues s), za_live := live\<rparr>"
  have q: "queue_items ?s = {#}" using retained_items [OF ok, of "\<lambda>_. False"] by (simp add: queue_items_def queue_of_def)
  then have wf': "well_formed ?s" using wf by (simp add: well_formed_def retained_ok)
  have d: "drain_queued_requests d s = fold emit_completed ts ?s"
    using p fold_route [OF wf'] by (simp add: drain_queued_requests_def purged_of_def Let_def)
  have "ledger_steps single (account_of {#} {} s) (fold ac_emit ts ((account_of {#} {} s)\<lparr>ac_items := {#}, ac_live := live\<rparr>))"
    by (rule purge_account [of d ?items]) (use p queue_items_concat [OF ok] in simp_all)
  also have "(account_of {#} {} s)\<lparr>ac_items := {#}, ac_live := live\<rparr> = account_of {#} {} ?s"
    using q by (simp add: account_of_def)
  finally show "moved single s (drain_queued_requests d s)"
    using wf' by (simp add: d moves_def account_of_fold_emit)
qed

section \<open>Registrations\<close>

lemma expire_moved: "moved single s (case expire_leases now (za_registry s) of (t, expired) \<Rightarrow> retire_expired expired (s\<lparr>za_registry := t\<rparr>))"
proof (rule moves_if)
  assume "well_formed s"
  then have ok: "registry_ok (za_registry s)" by (simp add: well_formed_def)
  obtain t expired where e: "expire_leases now (za_registry s) = (t, expired)" by fastforce
  have t: "registry_ok t"
    using step_evolves [OF ok, of "CallExpire now" t "[]"] e by (simp add: evolves_def)
  have "active_registrations (za_registry s) \<subseteq> active_registrations t \<union> snd ` set expired"
    using e unfolding active_members [OF ok] active_members [OF t] expire_leases_eq [OF ok] by force
  then have "moved single s s \<and> moves single {#} {} s {#} ({} \<union> snd ` set expired) (s\<lparr>za_registry := t\<rparr>)"
    using registry_moves [of s t "snd ` set expired" single "{#}" "{}"] t by simp
  from moves_trans [OF conjunct2 [OF this] retire_expired_moves [of single _ _ _ expired]]
  show "moved single s (case expire_leases now (za_registry s) of (t, expired) \<Rightarrow> retire_expired expired (s\<lparr>za_registry := t\<rparr>))"
    by (simp add: e)
qed

lemma enqueue_item_moved: "qi_execution item = None \<Longrightarrow> moved single s (enqueue_item env item s)"
  unfolding enqueue_item_def by (rule moves_trans [OF push_back_moves pump_all_moves])

lemma enqueue_lifecycle_moved: "moved single s (enqueue_lifecycle env client payload s)"
  by (simp add: enqueue_lifecycle_def enqueue_item_moved)

lemma renew_moved: "moved single s (renew_active_captures env s)"
proof -
  have "moved single s (fold (\<lambda>(client, lease). enqueue_lifecycle env client (BrRenewCapture lease)) ls s)" for ls
    by (induction ls arbitrary: s) (auto intro: moves_trans enqueue_lifecycle_moved)
  then show ?thesis by (simp add: renew_active_captures_def)
qed

lemma sweep_moved: "moved single s (sweep_expired_clients env s)"
proof -
  have "moved single s (case expire_leases (en_now env) (za_registry s) of
          (t, expired) \<Rightarrow> renew_active_captures env (retire_expired expired (s\<lparr>za_registry := t\<rparr>)))" for s :: "'a adapter"
    using moves_trans [OF expire_moved renew_moved] by (simp add: split_def)
  then show ?thesis by (simp add: sweep_expired_clients_def gate_moves)
qed

lemma active_registration_moved: "active_registration env client s = (r, s') \<Longrightarrow> moved single s s'"
  using sweep_moved by (auto simp: active_registration_def Let_def)

lemma resume_covered_moved: "resume_covered env epoch channel members s = (b, s') \<Longrightarrow> moved single s s'"
  using sweep_moved by (auto simp: resume_covered_def Let_def)

lemma take_pending_unseen [unseen]:
  "account_of M L (take_pending p s) = account_of M L s" "well_formed (take_pending p s) = well_formed s"
  by (simp_all add: take_pending_def unseen)

lemma publish_new_unseen:
  "account_of M L (snd (publish_new_incarnation env owner members pending resume s)) = account_of M L s
    \<and> well_formed (snd (publish_new_incarnation env owner members pending resume s)) = well_formed s"
  by (auto simp: publish_new_incarnation_def Let_def split_def unseen simp del: split_paired_All split: option.split)

lemma complete_moved: "moved single s (snd (complete_covered_incarnation env epoch channel members pending resume s))"
proof -
  obtain gate s1 where c: "call_ok env s = (gate, s1)" by fastforce
  have "account_of {#} {} (snd (complete_covered_incarnation env epoch channel members pending resume s)) = account_of {#} {} s1
    \<and> well_formed (snd (complete_covered_incarnation env epoch channel members pending resume s)) = well_formed s1"
    by (auto simp: complete_covered_incarnation_def c Let_def unseen publish_new_unseen split: option.split)
  then show ?thesis using call_moves [OF c, of single "{#}" "{}"] by (simp add: moves_def)
qed

lemma try_complete_moved: "moved single s (try_complete_pending_coverage env s)"
proof (cases "za_pending_coverage s")
  case (Some p)
  obtain b s1 where r: "resume_covered env (pg_resume_epoch p) (pg_channel p) (pg_members p) s = (b, s1)" by fastforce
  show ?thesis
    using Some r moves_trans [OF resume_covered_moved [OF r] complete_moved] resume_covered_moved [OF r]
    by (cases b) (simp_all add: try_complete_pending_coverage_def)
qed (simp add: try_complete_pending_coverage_def)

lemma register_lost:
  assumes "registry_ok t" "register_bridge client r pane version compatible now t = (t', Inr displaced)"
  shows "registry_ok t'" "active_registrations t \<subseteq> active_registrations t' \<union> set_option displaced"
proof -
  have e: "evolves t t' []" using register_evolves [OF assms(1), of client r pane version compatible now] assms(2) by simp
  then show t': "registry_ok t'" by (simp add: evolves_def)
  have ok: "tab_ok (zr_records t)" using assms(1) by (simp add: registry_ok_def)
  have "active_for t c q \<Longrightarrow> active_for t' c q \<or> c = client \<and> displaced = Some q" for c q
    using assms(2) by (auto simp: register_bridge_def Let_def active_iff tab_get_insert [OF ok] split: option.splits if_splits)
  then show "active_registrations t \<subseteq> active_registrations t' \<union> set_option displaced"
    unfolding active_registrations_def by fastforce
qed

lemma register_moved:
  assumes "register_bridge client r pane version compatible now (za_registry s) = (t, Inr displaced)"
  shows "moved single s (case displaced of Some d \<Rightarrow> retire_registration_state client d ReplacedRegistration (s\<lparr>za_registry := t\<rparr>)
    | None \<Rightarrow> s\<lparr>za_registry := t\<rparr>)"
proof -
  have m: "moves single {#} {} s {#} ({} \<union> set_option displaced) (s\<lparr>za_registry := t\<rparr>)"
    by (rule registry_moves) (simp_all add: register_lost [OF _ assms])
  show ?thesis
  proof (cases displaced)
    case (Some d)
    have "moves single {#} {d} (s\<lparr>za_registry := t\<rparr>) {#} ({d} - {d}) (retire_registration_state client d ReplacedRegistration (s\<lparr>za_registry := t\<rparr>))"
      by (rule retire_moves)
    then show ?thesis using m Some moves_trans by simp blast
  qed (use m in simp)
qed

lemma unhealthy_moved: "moved single s (unhealthy client kind d s)"
  by (rule unseen_moved) (simp_all add: unseen)

lemma publish_moved: "\<not> is_entry fx \<Longrightarrow> moved single s (publish_event fx s)"
  by (rule unseen_moved) (simp_all add: unseen)

definition register_coverage :: "'c environment \<Rightarrow> u64 \<Rightarrow> u64 \<Rightarrow> 'c adapter \<Rightarrow> 'c adapter" where
  "register_coverage env epoch channel s3 =
     (let s5 = try_complete_pending_coverage env s3 in
      if \<not> za_suspended s5 \<and> za_incarnation s5 = None \<and> za_pending_coverage s5 = None
      then (case map_option sorted_members (en_members env) of
              None \<Rightarrow> s5
            | Some members \<Rightarrow>
                (case resume_covered env epoch channel members s5 of
                   (False, s6) \<Rightarrow> s6
                 | (True, s6) \<Rightarrow> snd (complete_covered_incarnation env epoch channel members None False s6)))
      else s5)"

lemma register_coverage_moved: "moved single s (register_coverage env epoch channel s)"
proof -
  define s5 where "s5 = try_complete_pending_coverage env s"
  have m5: "moved single s s5" unfolding s5_def by (rule try_complete_moved)
  have "moved single s5 (case resume_covered env epoch channel members s5 of
                   (False, s6) \<Rightarrow> s6
                 | (True, s6) \<Rightarrow> snd (complete_covered_incarnation env epoch channel members None False s6))" for members
  proof -
    obtain b s6 where r: "resume_covered env epoch channel members s5 = (b, s6)" by fastforce
    show ?thesis using r resume_covered_moved [OF r] moves_trans [OF resume_covered_moved [OF r] complete_moved] by (cases b) simp_all
  qed
  from moves_trans [OF m5 this] m5 show ?thesis
    by (auto simp: register_coverage_def s5_def [symmetric] Let_def split: option.split)
qed

lemma on_register_moved: "moved single s (on_register env channel generation client pane r identity s)"
  unfolding on_register_def register_coverage_def [symmetric]
proof (rule gate_moves, goal_cases)
  case (1 s)
  let ?compatible = "identity_matches (en_identity env) identity"
  obtain t a where reg: "register_bridge client r pane (bi_muxe_version identity) ?compatible (en_now env) (za_registry s) = (t, a)"
    by fastforce
  show ?case
  proof (cases a)
    case (Inl e)
    then show ?thesis using reg by (simp add: Let_def)
  next
    case (Inr displaced)
    define s2 where "s2 = (case displaced of Some d \<Rightarrow> retire_registration_state client d ReplacedRegistration (s\<lparr>za_registry := t\<rparr>)
      | None \<Rightarrow> s\<lparr>za_registry := t\<rparr>)"
    define s3 where "s3 = s2\<lparr>za_register_epoch := tab_insert client (za_resume_epoch s2, channel) (za_register_epoch s2)\<rparr>"
    have m2: "moved single s s2" unfolding s2_def by (rule register_moved) (use reg Inr in simp)
    have m3: "moved single s2 s3" by (rule unseen_moved) (simp_all add: s3_def unseen)
    let ?s4 = "if \<not> ?compatible then unhealthy (Some client) KindIncompatible BridgeIncompatible s3
                          else
                            (case za_incarnation s3 of
                               Some c \<Rightarrow> publish_event (OutHealthy (ci_id c)) s3
                             | None \<Rightarrow> register_coverage env (za_resume_epoch s2) channel s3)"
    have m4: "moved single s3 ?s4"
      by (simp add: unhealthy_moved publish_moved register_coverage_moved split: option.split)
    have "moved single s (pump_all env ?s4)"
      by (rule moves_trans [OF m2 moves_trans [OF m3 moves_trans [OF m4 pump_all_moves]]])
    then show ?thesis
      unfolding Let_def reg Inr prod.case sum.case s2_def [symmetric] s3_def [symmetric] by simp
  qed
qed

section \<open>Suspension, resumption, shutdown\<close>

lemma out_moved: "\<not> is_entry fx \<Longrightarrow> moved single s (out_now fx s)"
  by (rule unseen_moved) (simp_all add: unseen)

lemma suspend_moved: "moved single s (suspend_for_activation env s)"
proof -
  obtain gate s0 where c: "call_ok env s = (gate, s0)" by fastforce
  note m = call_moves [OF c]
  have m0: "moved single s0 (s0\<lparr>za_suspended := True, za_incarnation := None, za_pending_coverage := None\<rparr>)"
    by (rule unseen_moved) (simp_all add: unseen)
  note m1 = moves_trans [OF moves_trans [OF m m0] moves_trans [OF settle_in_flight_moves moves_trans [OF drain_moved invalidate_moves]]]
  show ?thesis
    using m by (auto simp: suspend_for_activation_def c Let_def intro!: moves_trans [OF m1 unseen_moved] simp: unseen)
qed

lemma fail_resume_moved: "moved single s (fail_resume env d s)"
proof -
  obtain gate s0 where c: "call_ok env s = (gate, s0)" by fastforce
  note m = call_moves [OF c]
  have m0: "moved single s0 (s0\<lparr>za_incarnation := None, za_pending_coverage := None\<rparr>)"
    by (rule unseen_moved) (simp_all add: unseen)
  note m1 = moves_trans [OF moves_trans [OF m m0] invalidate_moves]
  show ?thesis
    using moves_trans [OF m quiesced_moves]
    by (auto simp: fail_resume_def c Let_def intro!: moves_trans [OF m1 unseen_moved] simp: unseen)
qed

lemma resume_begin_moved: "moved single s (snd (resume_begin env s))"
proof (cases "za_suspended s")
  case True
  obtain gate s0 where c: "call_ok env s = (gate, s0)" by fastforce
  note m = call_moves [OF c]
  let ?s0 = "s0\<lparr>za_incarnation := None, za_pending_coverage := None, za_resume_epoch := za_resume_epoch s0 + 1\<rparr>"
  have m0: "moved single s0 ?s0" by (rule unseen_moved) (simp_all add: unseen)
  define s2 where "s2 = (invalidate_all_registrations ResumedSent ?s0)\<lparr>za_register_epoch := []\<rparr>"
  have m2: "moved single s s2"
    unfolding s2_def by (rule moves_trans [OF moves_trans [OF m m0] moves_trans [OF invalidate_moves unseen_moved]]) (simp_all add: unseen)
  show ?thesis
  proof (cases "generation_advance (za_generation s2)")
    case (Inl e)
    then show ?thesis using True m m2 unfolding resume_begin_def c Let_def prod.case s2_def [symmetric] Inl sum.case by simp
  next
    case (Inr g)
    obtain request_ok s3 where c3: "call_ok env (out_now OutRespawnRequest (s2\<lparr>za_generation := g\<rparr>)) = (request_ok, s3)"
      by fastforce
    obtain event_ok s4 where c4: "call_ok env (out_now (OutRespawnEvent g) s3) = (event_ok, s4)" by fastforce
    have "moved single s2 (out_now OutRespawnRequest (s2\<lparr>za_generation := g\<rparr>))" "moved single s3 (out_now (OutRespawnEvent g) s3)"
      by (rule unseen_moved; simp add: unseen)+
    from moves_trans [OF moves_trans [OF m2 this(1)] call_moves [OF c3]] moves_trans [OF this(2) call_moves [OF c4]]
    have m4: "moved single s s4" by (rule moves_trans)
    have "moved single s (snd (case (b, channel, members) of
          (True, Some channel, Some members) \<Rightarrow>
            (Some \<lparr>pg_resume_epoch = za_resume_epoch s4, pg_channel = channel, pg_members = members\<rparr>, s4)
        | _ \<Rightarrow> (None, fail_resume env RestartFailed s4)))" for b channel members
      using m4 moves_trans [OF m4 fail_resume_moved] by (cases b; cases channel; cases members) simp_all
    then show ?thesis
      using True m unfolding resume_begin_def c Let_def prod.case s2_def [symmetric] Inr sum.case c3 c4 by simp
  qed
qed (simp add: resume_begin_def)

lemma resume_end_moved: "moved single s (resume_end env p s)"
proof -
  obtain b s1 where r: "(if za_shutdown s then (False, s) else resume_covered env (pg_resume_epoch p) (pg_channel p) (pg_members p) s) = (b, s1)"
    by fastforce
  have m1: "moved single s s1"
    using r resume_covered_moved [of env "pg_resume_epoch p" "pg_channel p" "pg_members p" s b s1] by (auto split: if_splits)
  obtain a s2 where k: "complete_covered_incarnation env (pg_resume_epoch p) (pg_channel p) (pg_members p) None True s1 = (a, s2)"
    by fastforce
  have m2: "moved single s s2" using moves_trans [OF m1 complete_moved] k by (metis snd_conv)
  show ?thesis
    using moves_trans [OF m1 fail_resume_moved] m2 moves_trans [OF m2 fail_resume_moved]
    by (cases b; cases a) (simp_all add: resume_end_def r k)
qed

lemma refresh_moved: "moved single s (refresh_subscription env s)"
proof -
  obtain gate s0 where c: "call_ok env s = (gate, s0)" by fastforce
  note m = call_moves [OF c]
  define s1 where "s1 = s0\<lparr>za_incarnation := None, za_pending_coverage := None, za_success := None\<rparr>"
  have m1: "moved single s s1" unfolding s1_def by (rule moves_trans [OF m unseen_moved]) (simp_all add: unseen)
  have m2: "moved single s (snd (call_ok env (out_now (OutRespawnEvent g)
      ((invalidate_all_registrations SubscriptionReplaced (s1\<lparr>za_generation := g\<rparr>))\<lparr>za_register_epoch := []\<rparr>))))" for g
  proof -
    have "moved single s1 (s1\<lparr>za_generation := g\<rparr>)" by (rule unseen_moved) (simp_all add: unseen)
    from moves_trans [OF m1 moves_trans [OF this invalidate_moves]]
    show ?thesis by (rule moves_trans) (rule unseen_moved, simp_all add: unseen)
  qed
  show ?thesis
    using m m1 m2 by (simp add: refresh_subscription_def c Let_def s1_def [symmetric] split: sum.split)
qed

lemma shut_down_moved: "moved single s (shut_down env s)"
proof -
  obtain gate s0 where c: "call_ok env s = (gate, s0)" by fastforce
  note m = call_moves [OF c]
  have m0: "moved single s0 (s0\<lparr>za_shutdown := True, za_incarnation := None, za_pending_coverage := None, za_success := None\<rparr>)"
    by (rule unseen_moved) (simp_all add: unseen)
  have e: "moved single s (settle_and_emit_matching (\<lambda>_. True) ShutdownSent s)" for s :: "'a adapter"
    using matching_moves [where R = "{}" and matches = "\<lambda>_. True" and M = "{#}" and L = "{}"] by simp
  note m1 = moves_trans [OF moves_trans [OF m m0] moves_trans [OF settle_in_flight_moves moves_trans [OF drain_moved e]]]
  have q: "moved single s (out_now OutPark (s\<lparr>za_quiescing := True, za_pending_origin := [], za_pending_capture := []\<rparr>))" for s :: "'a adapter"
    by (rule moves_trans [OF quiesced_moves unseen_moved]) (simp_all add: unseen)
  show ?thesis
    using m moves_trans [OF m1 q] by (simp add: shut_down_def c Let_def)
qed

section \<open>Dispatch\<close>

lemma slots_for_length: "slots_for n slot = Inr slots \<Longrightarrow> length slots = n"
  by (induction n arbitrary: slot slots) (auto simp: result_simps)

lemma refuse_moved: "moved single s (refuse kind d s)"
  by (simp add: refuse_def out_moved)

lemma queue_commands_moved:
  assumes "\<not> is_local e" "slots_for (length payloads) REQUEST_INITIAL = Inr slots" "payloads \<noteq> []"
    and "single \<Longrightarrow> length payloads = 1" "\<And>p. p \<in> set payloads \<Longrightarrow> is_dispatch p"
  shows "moved single s (out_now (OutAccepted e) (queue_commands e client incarnation payloads slots s))"
proof -
  let ?items = "map (\<lambda>(payload, slot). \<lparr>qi_execution = Some e, qi_slot = Some slot, qi_incarnation = incarnation,
                  qi_client = client, qi_payload = Some payload\<rparr>) (zip payloads slots)"
  let ?q = "s\<lparr>za_queues := tab_insert client (queue_of s client @ ?items) (za_queues s)\<rparr>"
  have len: "length slots = length payloads" using slots_for_length [OF assms(2)] .
  have ok: "item_ok i" if "i \<in> set ?items" for i
    using that assms(5) by (auto simp: item_ok_def dest: set_zip_leftD)
  have items: "queue_items ?q = queue_items s + mset ?items"
    using queue_items_insert [of client "queue_of s client @ ?items" s] by (simp add: ac_simps)
  have qc: "queue_commands e client incarnation payloads slots s = ?q\<lparr>za_live := tab_insert e (new_execution e slots) (za_live s)\<rparr>"
    by (simp add: queue_commands_def)
  show ?thesis
  proof (rule moves_step)
    assume wf: "well_formed s"
    have "well_formed ?q" by (rule queues_well_formed [OF wf]) (use ok queue_item_ok [OF wf] in auto)
    then show "well_formed (out_now (OutAccepted e) (queue_commands e client incarnation payloads slots s))" by (simp add: qc)
  next
    have m1: "map qi_execution ?items = replicate (length payloads) (Some e)"
      using len by (simp add: comp_def split_def map_replicate_const)
    have m2: "map qi_slot ?items = map Some slots"
    proof -
      have "map qi_slot ?items = map Some (map snd (zip payloads slots))" by (simp add: comp_def split_def)
      then show ?thesis using len by simp
    qed
    have "ledger_step single (account_of {#} {} s)
      ((account_of {#} {} s)\<lparr>ac_live := tab_insert e (new_execution e slots) (za_live s), ac_items := queue_items s + mset ?items,
         ac_ledger := filter is_entry (za_out s) @ [OutAccepted e]\<rparr>)"
      using admitted [of e "length payloads" slots single ?items "account_of {#} {} s"] assms m1 m2
      by (simp add: account_of_def)
    also have "(account_of {#} {} s)\<lparr>ac_live := tab_insert e (new_execution e slots) (za_live s), ac_items := queue_items s + mset ?items,
         ac_ledger := filter is_entry (za_out s) @ [OutAccepted e]\<rparr>
      = account_of {#} {} (out_now (OutAccepted e) (queue_commands e client incarnation payloads slots s))"
      using items by (simp add: qc account_of_def out_now_def queue_items_def queue_of_def)
    finally show "ledger_step single (account_of {#} {} s)
      (account_of {#} {} (out_now (OutAccepted e) (queue_commands e client incarnation payloads slots s)))" .
  qed
qed

lemma admit_moved:
  assumes "single \<Longrightarrow> length payloads \<le> 1" "\<And>p. p \<in> set payloads \<Longrightarrow> is_dispatch p"
  shows "moved single s (admit_dispatch env e client payloads incarnation s)"
proof -
  have "moved single s (pump_all env (out_now (OutAccepted e) (queue_commands e client incarnation payloads slots s)))"
    if "\<not> is_local e" "slots_for (length payloads) REQUEST_INITIAL = Inr slots" "payloads \<noteq> []" for slots
    by (rule moves_trans [OF queue_commands_moved pump_all_moves])
      (use that assms in \<open>auto simp: le_Suc_eq\<close>)
  then show ?thesis
    by (auto simp: admit_dispatch_def refuse_moved out_moved split: sum.split option.split)
qed

section \<open>Events of a bridge\<close>

lemma on_released_moved: "moved single s (on_released env n generation r s)"
  using moves_trans [OF landed_moves pump_all_moves, of single "{#}" s env] by (simp add: on_released_def split: option.split)

lemma on_completed_is:
  assumes "common_to_core execution = Some e" "tab_get (za_live s) e = Some x" "tab_get (xr_requests x) n = Some (Some p)"
    and "pv_registration p = r"
  shows "on_completed n r execution outcome s
    = settle_and_emit e n (reported_outcome (oc_status outcome) (oc_detail outcome)) s"
  using assms
  by (simp add: on_completed_def settle_and_emit_def settle_now_def settle_slot_def tab_has_def emit_terminal_def split: prod.split)

lemma on_completed_moved: "moved single s (on_completed n r execution outcome s)"
proof (cases "\<exists>e x p. common_to_core execution = Some e \<and> tab_get (za_live s) e = Some x
    \<and> tab_get (xr_requests x) n = Some (Some p) \<and> pv_registration p = r")
  case True
  then obtain e x p where x: "common_to_core execution = Some e" "tab_get (za_live s) e = Some x"
    "tab_get (xr_requests x) n = Some (Some p)" "pv_registration p = r" by blast
  let ?out = "reported_outcome (oc_status outcome) (oc_detail outcome)"
  obtain live t where st: "settle_slot e n ?out (za_live s) = (live, t)" by fastforce
  have "ledger_step single (account_of {#} {} s) (ac_terminal t ((account_of {#} {} s)\<lparr>ac_live := live\<rparr>))"
    by (rule reported [of _ e x n p ?out]) (simp_all add: x st)
  then show ?thesis
    unfolding on_completed_is [OF x] by (intro moves_step) (simp_all add: account_of_settle [OF st])
next
  case False
  then have "on_completed n r execution outcome s = s"
    by (auto simp: on_completed_def split: option.splits)
  then show ?thesis by simp
qed

lemma on_response_moved: "moved single s (on_response env n r generation response s)"
proof (cases "(env, n, r, generation, response, s)" rule: on_response.cases)
  case (1 env' n' r' g' s')
  then show ?thesis by (simp add: on_released_moved)
next
  case (2 env' n' r' g' execution outcome s')
  then show ?thesis by (simp add: on_completed_moved)
qed (auto intro!: unseen_moved simp: unseen split: option.split)

lemma heartbeat_moved: "moved single s (s\<lparr>za_registry := fst (heartbeat client r now (za_registry s))\<rparr>)"
proof (rule registry_kept_moves)
  assume "well_formed s"
  then have ok: "registry_ok (za_registry s)" by (simp add: well_formed_def)
  then have t: "tab_ok (zr_records (za_registry s))" by (simp add: registry_ok_def)
  have "registry_ok (fst (heartbeat client r now (za_registry s)))"
    using heartbeat_evolves [OF ok] by (simp add: evolves_def)
  moreover have "active_for (fst (heartbeat client r now (za_registry s))) c q = active_for (za_registry s) c q" for c q
    by (auto simp: heartbeat_def active_iff tab_get_insert [OF t] split: option.split)
  ultimately show "registry_ok (fst (heartbeat client r now (za_registry s)))
    \<and> active_registrations (fst (heartbeat client r now (za_registry s))) = active_registrations (za_registry s)"
    by (simp add: active_registrations_def)
qed

lemma on_bridge_event_moved: "moved single s (on_bridge_event env client r e s)"
proof (cases "(env, client, r, e, s)" rule: on_bridge_event.cases)
  case (2 env' client' r' s')
  then show ?thesis by (simp add: gate_moves heartbeat_moved)
qed (auto intro!: unseen_moved simp: unseen)

lemma handle_event_line_moved: "moved single s (handle_event_line env channel line s)"
  by (auto simp: handle_event_line_def restart_moves on_register_moved on_response_moved on_bridge_event_moved
      simp del: on_response.simps on_bridge_event.simps split: sum.split bridge_output.split bridge_event.split option.split)

section \<open>Captures, origins and panes\<close>

lemma set_captures_unseen [unseen]:
  "account_of M L (set_captures t s) = account_of M L s" "well_formed (set_captures t s) = well_formed s"
  by (simp_all add: set_captures_def unseen)

lemma capture_start_moved: "moved single s (capture_start env client ui lease s)"
proof (cases lease)
  case (CaptureLeaseId l)
  obtain a s1 where r: "active_registration env client s = (a, s1)" by fastforce
  note m1 = active_registration_moved [OF r]
  have "moved single s1 (enqueue_lifecycle env client payload
      (s1\<lparr>za_captures := t, za_pending_capture := p\<rparr>))" for payload t p
    by (rule moves_trans [OF unseen_moved enqueue_lifecycle_moved]) (simp_all add: unseen)
  note m2 = moves_trans [OF m1 this]
  show ?thesis
    using m1 m2 by (auto simp: CaptureLeaseId r out_moved intro: moves_trans [OF m1 out_moved] moves_trans [OF m1 refuse_moved]
        split: sum.split prod.split)
qed

lemma capture_replied_moved: "moved single s (capture_replied client lease prior s)"
proof -
  have m: "moved single s (set_captures t s)" for t by (rule unseen_moved) (simp_all add: unseen)
  show ?thesis
    using m moves_trans [OF m refuse_moved] by (simp add: capture_replied_def split: prod.split sum.split)
qed

lemma items_dropped:
  "ac_items a = R + N \<Longrightarrow> (\<And>i. i \<in># R \<Longrightarrow> qi_execution i = None) \<Longrightarrow> ledger_steps single a (a\<lparr>ac_items := N\<rparr>)"
proof (induction R arbitrary: a)
  case empty
  then have "a\<lparr>ac_items := N\<rparr> = a" by (cases a) simp
  then show ?case by simp
next
  case (add i R)
  let ?b = "a\<lparr>ac_items := R + N\<rparr>"
  have "ledger_step single a ?b" by (rule item_dropped [where i = i]) (use add.prems in simp_all)
  moreover have "ledger_steps single ?b (?b\<lparr>ac_items := N\<rparr>)" by (rule add.IH) (use add.prems in simp_all)
  ultimately show ?case by simp
qed

lemma multiset_rest: "B + (F + R) = A + F \<Longrightarrow> A = R + (B :: 'a multiset)"
  by (simp add: ac_simps)

text \<open>Only lifecycle items are taken out of a queue by their payload.\<close>

lemma retain_moved:
  assumes "\<And>i p. qi_payload i = Some p \<Longrightarrow> \<not> P i \<Longrightarrow> \<not> is_dispatch p" "\<And>i. qi_payload i = None \<Longrightarrow> P i"
  shows "moved single s (retain_for client P s)"
proof (rule moves_if)
  assume wf: "well_formed s"
  let ?s = "s\<lparr>za_queues := tab_insert client (filter P (queue_of s client)) (za_queues s)\<rparr>"
  let ?R = "mset (filter (\<lambda>i. \<not> P i) (queue_of s client))"
  have "mset (queue_of s client) = mset (filter P (queue_of s client)) + ?R"
    by (metis mset_filter multiset_partition)
  then have "queue_items ?s + (mset (filter P (queue_of s client)) + ?R) = queue_items s + mset (filter P (queue_of s client))"
    using queue_items_insert [of client "filter P (queue_of s client)" s] by metis
  then have q: "queue_items s = ?R + queue_items ?s" by (rule multiset_rest)
  have "qi_execution i = None" if "i \<in># ?R" for i
    using that queue_item_ok [OF wf, of i client] assms by (cases "qi_payload i") (auto simp: item_ok_def)
  then have "ledger_steps single (account_of {#} {} s) ((account_of {#} {} s)\<lparr>ac_items := queue_items ?s\<rparr>)"
    by (intro items_dropped [of _ ?R]) (use q in simp_all)
  also have "(account_of {#} {} s)\<lparr>ac_items := queue_items ?s\<rparr> = account_of {#} {} ?s"
    by (simp add: account_of_def)
  finally have "ledger_steps single (account_of {#} {} s) (account_of {#} {} ?s)" .
  moreover have "well_formed ?s" by (rule queues_well_formed [OF wf]) (use queue_item_ok [OF wf] in auto)
  ultimately show "moved single s (retain_for client P s)" by (simp add: retain_for_def moves_def)
qed

lemma begins_lease_dispatch: "qi_payload i = Some p \<Longrightarrow> begins_lease lease i \<Longrightarrow> \<not> is_dispatch p"
  by (cases p) simp_all

lemma asks_origin_dispatch: "qi_payload i = Some p \<Longrightarrow> asks_origin ui i \<Longrightarrow> \<not> is_dispatch p"
  by (cases p) simp_all

lemma capture_timeout_moved: "moved single s (capture_timeout env client lease s)"
proof (cases lease)
  case (CaptureLeaseId l)
  define sent where "sent = (case tab_get (za_pending_capture s) l of Some (_, Some _) \<Rightarrow> True | _ \<Rightarrow> False)"
  define s1 where "s1 = s\<lparr>za_pending_capture := tab_remove l (za_pending_capture s)\<rparr>"
  define s2 where "s2 = (if sent then s1 else retain_for client (\<lambda>item. \<not> begins_lease l item) s1)"
  define s3 where "s3 = set_captures (fst (capture_release client (CaptureLeaseId l) False (za_captures s2))) s2"
  have m1: "moved single s s1" by (rule unseen_moved) (simp_all add: s1_def unseen)
  have m2: "moved single s1 s2"
  proof -
    have "moved single s1 (retain_for client (\<lambda>item. \<not> begins_lease l item) s1)"
      by (rule retain_moved) (use begins_lease_dispatch in \<open>auto simp del: begins_lease.simps\<close>, simp)
    then show ?thesis by (simp add: s2_def)
  qed
  have m3: "moved single s2 s3" by (rule unseen_moved) (simp_all add: s3_def unseen)
  have m4: "moved single s3 (refuse KindUnavailable CaptureUnconfirmed
      (if sent then enqueue_lifecycle env client (BrEndCapture (CaptureLeaseId l) EndLeaseExpired) s3 else s3))"
    by (simp add: moves_trans [OF enqueue_lifecycle_moved refuse_moved] refuse_moved)
  show ?thesis
    using moves_trans [OF m1 moves_trans [OF m2 moves_trans [OF m3 m4]]]
    unfolding CaptureLeaseId capture_timeout.simps Let_def sent_def [symmetric] s1_def [symmetric] s2_def [symmetric]
      s3_def [symmetric] .
qed

lemma capture_stop_moved: "moved single s (capture_stop env client lease reason s)"
proof -
  define s1 where "s1 = set_captures (fst (capture_release client lease (reason = EndUiDismissed \<or> reason = EndReplaced) (za_captures s))) s"
  have m1: "moved single s s1" by (rule unseen_moved) (simp_all add: s1_def unseen)
  obtain a s2 where r: "active_registration env client s1 = (a, s2)" by fastforce
  note m2 = moves_trans [OF m1 active_registration_moved [OF r]]
  show ?thesis
    using m2 moves_trans [OF m2 enqueue_lifecycle_moved]
    by (simp add: capture_stop_def Let_def s1_def [symmetric] r out_moved split: sum.split)
qed

lemma origin_ask_moved: "moved single s (origin_ask env client r ui pane s)"
proof (cases ui)
  case (UiSessionId u)
  have "moved single s (enqueue_lifecycle env client payload (s\<lparr>za_pending_origin := p\<rparr>))" for payload p
    by (rule moves_trans [OF unseen_moved enqueue_lifecycle_moved]) (simp_all add: unseen)
  then show ?thesis by (simp add: UiSessionId split: sum.split)
qed

lemma origin_done_moved: "moved single s (origin_done client r ui pane answer s)"
proof (cases ui)
  case (UiSessionId u)
  define s1 where "s1 = retain_for client (\<lambda>item. \<not> asks_origin u item) (s\<lparr>za_pending_origin := tab_remove u (za_pending_origin s)\<rparr>)"
  have m0: "moved single s (s\<lparr>za_pending_origin := tab_remove u (za_pending_origin s)\<rparr>)" by (rule unseen_moved) (simp_all add: unseen)
  have m1: "moved single s s1"
    unfolding s1_def by (rule moves_trans [OF m0 retain_moved])
      (use asks_origin_dispatch in \<open>auto simp del: asks_origin.simps\<close>, simp)
  have "moved single s1 (s1\<lparr>za_pane_claims := p, za_snapshots := q\<rparr>)" for p q
    by (rule unseen_moved) (simp_all add: unseen)
  note m2 = moves_trans [OF m1 this]
  show ?thesis
    unfolding UiSessionId origin_done.simps Let_def s1_def [symmetric] by (simp add: m1 m2 split: option.split sum.split)
qed

lemma register_pane_moved: "moved single s (zellij_register_pending_pane env text_of pane s)"
proof -
  have "moved single s (case active_registration env client s of
      (Inl error, s1) \<Rightarrow> out_now (OutRefused error) s1
    | (Inr r, s1) \<Rightarrow> s1\<lparr>za_pending_leases := f r s1\<rparr>)" for client f
  proof -
    obtain a s1 where r: "active_registration env client s = (a, s1)" by fastforce
    note m1 = active_registration_moved [OF r]
    have "moved single s1 (s1\<lparr>za_pending_leases := p\<rparr>)" for p by (rule unseen_moved) (simp_all add: unseen)
    note m2 = moves_trans [OF m1 this]
    show ?thesis by (cases a) (simp_all add: r m2 moves_trans [OF m1 out_moved])
  qed
  then show ?thesis by (simp add: zellij_register_pending_pane_def Let_def out_moved refuse_moved split: sum.split option.split)
qed

lemma local_bit: "is_local (ExecutionId (LOCAL_EXECUTION_CEILING OR n))"
  by (simp add: le_word_or2)

lemma close_opened_moved:
  assumes "is_local e" "qi_execution item = Some e" "item_ok item"
  shows "moved single s (push_back client item (s\<lparr>za_close_waiters := insert e (za_close_waiters s),
      za_live := tab_insert e (new_execution e [REQUEST_INITIAL]) (za_live s)\<rparr>))"
proof (rule moves_step)
  let ?s = "s\<lparr>za_close_waiters := insert e (za_close_waiters s), za_live := tab_insert e (new_execution e [REQUEST_INITIAL]) (za_live s)\<rparr>"
  have q: "queue_items ?s = queue_items s" by (simp add: queue_items_def queue_of_def)
  assume "well_formed s"
  then have "well_formed ?s" using assms(1) by (auto simp: well_formed_def q)
  then show "well_formed (push_back client item ?s)" using assms(3) by simp
next
  let ?s = "s\<lparr>za_close_waiters := insert e (za_close_waiters s), za_live := tab_insert e (new_execution e [REQUEST_INITIAL]) (za_live s)\<rparr>"
  have q: "queue_items ?s = queue_items s" by (simp add: queue_items_def queue_of_def)
  have "account_of {#} {} (push_back client item ?s)
    = (account_of {#} {} s)\<lparr>ac_live := tab_insert e (new_execution e [REQUEST_INITIAL]) (za_live s),
         ac_items := add_mset item (queue_items s), ac_waiters := insert e (za_close_waiters s)\<rparr>"
    unfolding push_back_account by (simp add: account_of_def q)
  then show "ledger_step single (account_of {#} {} s) (account_of {#} {} (push_back client item ?s))"
    using close_opened [OF assms(1,2), of single "account_of {#} {} s"] by simp
qed

lemma close_pane_moved: "moved single s (close_pane env command lease s)"
proof -
  have "moved single s (case active_registration env client s of
                  (Inl error, s1) \<Rightarrow> out_now (OutRefused error) s1
                | (Inr current, s1) \<Rightarrow>
                    if current \<noteq> r then refuse KindUnavailable LeaseOutdated s1
                    else
                      (case mint_local_execution s1 of
                         (e, s2) \<Rightarrow>
                           enqueue_item env \<lparr>qi_execution = Some e, qi_slot = Some REQUEST_INITIAL, qi_incarnation = None,
                               qi_client = client, qi_payload = Some (BrDispatch (execution_to_common e) (DispatchCommand command))\<rparr>
                             (s2\<lparr>za_close_waiters := insert e (za_close_waiters s2),
                                 za_live := tab_insert e (new_execution e [REQUEST_INITIAL]) (za_live s2)\<rparr>)))" for client r
  proof -
    obtain a s1 where ar: "active_registration env client s = (a, s1)" by fastforce
    note m1 = active_registration_moved [OF ar]
    obtain e s2 where mint: "mint_local_execution s1 = (e, s2)" by fastforce
    then have e: "is_local e" and m2: "moved single s1 s2"
      by (auto simp: mint_local_execution_def local_bit simp del: is_local.simps intro!: unseen_moved simp: unseen)
    let ?item = "\<lparr>qi_execution = Some e, qi_slot = Some REQUEST_INITIAL, qi_incarnation = None,
                               qi_client = client, qi_payload = Some (BrDispatch (execution_to_common e) (DispatchCommand command))\<rparr>"
    have "item_ok ?item" by (simp add: item_ok_def)
    from close_opened_moved [OF e _ this] have "moved single s2 (enqueue_item env ?item
        (s2\<lparr>za_close_waiters := insert e (za_close_waiters s2), za_live := tab_insert e (new_execution e [REQUEST_INITIAL]) (za_live s2)\<rparr>))"
      unfolding enqueue_item_def by (intro moves_trans [OF _ pump_all_moves]) simp
    from moves_trans [OF m1 moves_trans [OF m2 this]]
    show ?thesis
      by (cases a) (simp_all add: ar mint moves_trans [OF m1 out_moved] moves_trans [OF m1 refuse_moved])
  qed
  then show ?thesis by (simp add: close_pane_def out_moved refuse_moved split: sum.split option.split)
qed

lemma close_done_moved:
  assumes "is_local e"
  shows "moved single s (close_done e lease answer s)"
proof -
  define unsent where "unsent = list_ex (\<lambda>q. list_ex (\<lambda>item. \<not> qi_execution item \<noteq> Some e) (snd q)) (za_queues s)"
  define s1 where "s1 = s\<lparr>za_queues := retain_items (\<lambda>item. qi_execution item \<noteq> Some e) (za_queues s),
                 za_live := (if unsent then tab_remove e (za_live s) else za_live s), za_close_waiters := za_close_waiters s - {e}\<rparr>"
  have m1: "moved single s s1"
  proof (rule moves_if)
    assume wf: "well_formed s"
    then have ok: "tab_ok (za_queues s)" by (simp add: well_formed_def)
    have q: "queue_items s1 = filter_mset (\<lambda>i. qi_execution i \<noteq> Some e) (queue_items s)"
      using retained_items [OF ok] by (simp add: s1_def queue_items_def queue_of_def)
    have "well_formed s1" using wf unfolding well_formed_def q by (auto simp: s1_def retained_ok)
    moreover have "account_of {#} {} s1 = (account_of {#} {} s)\<lparr>ac_live := (if unsent then tab_remove e (za_live s) else za_live s),
        ac_items := filter_mset (\<lambda>i. qi_execution i \<noteq> Some e) (queue_items s), ac_waiters := za_close_waiters s - {e}\<rparr>"
      by (simp add: account_of_def q) (simp add: s1_def)
    then have "ledger_step single (account_of {#} {} s) (account_of {#} {} s1)"
      using close_ended [OF assms, of single "account_of {#} {} s" unsent] unfolding account_of_fields by simp
    ultimately show "moved single s s1" by (auto simp: moves_def)
  qed
  moreover have "moved single s1 (s1\<lparr>za_pending_leases := p\<rparr>)" for p by (rule unseen_moved) (simp_all add: unseen)
  ultimately show ?thesis
    using moves_trans [OF m1] unfolding close_done_def Let_def unsent_def [symmetric] s1_def [symmetric] by simp
qed

lemma release_overdue_moved: "moved single s (release_overdue env request generation s)"
proof -
  have m1: "moved single s (settle_in_flight NoReleaseInTime s)" by (rule settle_in_flight_moves)
  have "moved single t (pump_all env (snd (call_ok env (out_now OutRespawnRequest t))))" for t :: "'a adapter"
    by (rule moves_trans [OF unseen_moved pump_all_moves]) (simp_all add: unseen)
  from m1 moves_trans [OF m1 this] show ?thesis
    by (simp add: release_overdue_def Let_def split: option.split)
qed

section \<open>One step\<close>

definition single_command :: "'c adapter_input \<Rightarrow> bool" where
  "single_command input = (case input of InDispatch _ _ commands _ \<Rightarrow> length commands \<le> 1 | _ \<Rightarrow> True)"

theorem step_moved:
  assumes "single \<Longrightarrow> single_command (fst input)"
  shows "moved single s (adapter_step s input)"
proof (cases "(s, input)" rule: adapter_step.cases)
  case (1 s e client commands incarnation env)
  have "moved single s (admit_dispatch env e client (map (BrDispatch (execution_to_common e)) commands) incarnation s)"
    by (rule admit_moved) (use assms 1 in \<open>auto simp: single_command_def\<close>)
  then show ?thesis using 1 by simp
next
  case (14 s n lease answer env)
  then show ?thesis using close_done_moved [OF local_bit] by simp
next
  case (15 s lease env)
  then show ?thesis by (simp add: release_pending_pane_def) (rule unseen_moved, simp_all add: unseen)
qed (simp_all add: handle_event_line_moved restart_moves sweep_moved release_overdue_moved capture_start_moved
    capture_replied_moved capture_timeout_moved capture_stop_moved origin_ask_moved origin_done_moved register_pane_moved
    close_pane_moved suspend_moved resume_begin_moved resume_end_moved refresh_moved shut_down_moved)

end
