(* ===== verification/Zellij_Dispatch.thy ===== *)
theory Zellij_Dispatch
  imports Zellij_Handlers
begin

text \<open>
  What the adapter owes the broker, over every run: each dispatch it accepted ends in exactly one
  terminal, an unfinished dispatch always has something left that can end it, and taking the adapter
  down ends them all. The runs of \<open>Zellij_Handlers\<close> carry the invariants of \<open>Zellij_Account\<close>.
\<close>

section \<open>Runs\<close>

definition accepted_once :: "'c adapter \<Rightarrow> bool" where
  "accepted_once s \<longleftrightarrow> (\<forall>e. accepted (za_out s) e \<le> 1)"

lemma entries_ledger [simp]:
  "accepted (filter is_entry out) e = accepted out e" "published (filter is_entry out) e = published out e"
proof -
  have "filter (\<lambda>fx. fx = OutAccepted e) (filter is_entry out) = filter (\<lambda>fx. fx = OutAccepted e) out"
    by (induction out) auto
  then show "accepted (filter is_entry out) e = accepted out e" by (simp add: accepted_def)
  have "filter (\<lambda>fx. case fx of OutCompleted c \<Rightarrow> dispatch_completion_execution c = e | _ \<Rightarrow> False) (filter is_entry out)
    = filter (\<lambda>fx. case fx of OutCompleted c \<Rightarrow> dispatch_completion_execution c = e | _ \<Rightarrow> False) out"
    by (induction out) (auto split: adapter_effect.splits)
  then show "published (filter is_entry out) e = published out e" by (simp add: published_def)
qed

lemma account_ledger: "ac_ledger (account_of M L s) = filter is_entry (za_out s)"
  "ac_quiescing (account_of M L s) = za_quiescing s"
  by (simp_all add: account_of_def)

lemma new_account:
  "well_formed new_adapter" "conserved (account_of {#} {} new_adapter)" "owned (account_of {#} {} new_adapter)"
  "tracked (account_of {#} {} new_adapter)"
  by (simp_all add: well_formed_def new_adapter_def new_registry_ok account_of_def conserved_def owned_def tracked_def
      queue_items_def waits_def items_for_def live_ok_def btree.indexed_by_def is_live_def)

lemma run_moved:
  assumes "single \<Longrightarrow> list_all (\<lambda>i. single_command (fst i)) inputs"
  shows "moved single new_adapter (adapter_run inputs)"
  using assms
proof (induction inputs rule: rev_induct)
  case (snoc i inputs)
  have "moved single (adapter_run inputs) (adapter_step (adapter_run inputs) i)"
    by (rule step_moved) (use snoc.prems in simp)
  moreover have "moved single new_adapter (adapter_run inputs)" using snoc by simp
  ultimately show ?case unfolding adapter_run_def foldl_append using moves_trans by (simp add: adapter_run_def) blast
qed (simp add: adapter_run_def)

lemma run_account:
  assumes "single \<Longrightarrow> list_all (\<lambda>i. single_command (fst i)) inputs"
  defines "a \<equiv> account_of {#} {} (adapter_run inputs)"
  shows "well_formed (adapter_run inputs)" "conserved a" "owned a" "single \<Longrightarrow> accepted_once (adapter_run inputs) \<Longrightarrow> tracked a"
proof -
  have m: "well_formed (adapter_run inputs)" "ledger_steps single (account_of {#} {} new_adapter) a"
    using run_moved [of single inputs] assms(1) new_account(1) by (auto simp: moves_def a_def)
  show "well_formed (adapter_run inputs)" by (rule m(1))
  note i = ledger_steps_invariants [OF m(2) new_account(2,3)]
  show "conserved a" "owned a" using i by simp_all
  show "tracked a" if "single" "accepted_once (adapter_run inputs)"
  proof -
    have "tracked (account_of {#} {} new_adapter :: 'a account)" by (rule new_account(4))
    then show ?thesis using i that by (simp add: once_def accepted_once_def a_def account_ledger)
  qed
qed

lemma queue_items_member: "i \<in># queue_items s \<Longrightarrow> \<exists>client. i \<in> set (queue_of s client)"
proof -
  assume "i \<in># queue_items s"
  moreover have "i \<in># (\<Sum>c\<in>A. f c) \<longrightarrow> (\<exists>c. i \<in># f c)" if "finite A" for A :: "str set" and f :: "str \<Rightarrow> 'a queued_item multiset"
    using that by (induction A rule: finite_induct) auto
  from this [of "fst ` set (za_queues s)" "\<lambda>c. mset (queue_of s c)"]
  have "i \<in># queue_items s \<longrightarrow> (\<exists>client. i \<in># mset (queue_of s client))"
    unfolding queue_items_def by simp
  ultimately show ?thesis by simp
qed

section \<open>One terminal for each dispatch\<close>

lemma terminals_balance:
  assumes "accepted_once (adapter_run inputs)" "\<not> za_quiescing (adapter_run inputs)" "\<not> is_local e"
  shows "accepted (za_out (adapter_run inputs)) e
    = published (za_out (adapter_run inputs)) e + (if tab_get (za_live (adapter_run inputs)) e = None then 0 else 1)"
proof -
  have "conserved (account_of {#} {} (adapter_run inputs))" using run_account(2) [of False] by simp
  then have "once (account_of {#} {} (adapter_run inputs)) \<and> \<not> ac_quiescing (account_of {#} {} (adapter_run inputs))
    \<longrightarrow> (\<forall>e. \<not> is_local e \<longrightarrow> accepted (ac_ledger (account_of {#} {} (adapter_run inputs))) e
      = published (ac_ledger (account_of {#} {} (adapter_run inputs))) e + (if is_live (account_of {#} {} (adapter_run inputs)) e then 1 else 0))"
    unfolding conserved_def by blast
  then show ?thesis
    using assms by (simp add: once_def accepted_once_def account_ledger is_live_def)
qed

text \<open>
  C2: The adapter publishes exactly one terminal outcome for each dispatch it accepted. After any
  sequence of requests, bridge lines, pipe failures, timeouts, expiries and coverage changes, an
  execution of the broker has been accepted as often as its terminal was published, plus one while it
  is still live. The broker gives each execution to the adapter once, and the adapter is not shutting
  down.
\<close>

theorem terminals_exactly_once:
  assumes "accepted_once (adapter_run inputs)" "\<not> za_quiescing (adapter_run inputs)" "\<not> is_local e"
  shows "accepted (za_out (adapter_run inputs)) e
    = published (za_out (adapter_run inputs)) e + (if tab_get (za_live (adapter_run inputs)) e = None then 0 else 1)"
  by (rule terminals_balance [OF assms])

text \<open>
  C11: A live dispatch of one command is never stuck: either its command still waits, unsent, in the
  queue of a client, or its one slot holds the number of a request it was sent under, and the
  registration that request went to is still registered. A registration that is replaced, expires or is
  invalidated therefore always takes the dispatches sent to it along. (Runs in which every dispatch has
  at most one command and no execution is accepted twice; the adapter's own executions are left out.)
\<close>

theorem live_dispatch_waits:
  assumes "list_all (\<lambda>i. single_command (fst i)) inputs" "accepted_once (adapter_run inputs)"
    and "\<not> is_local e" "tab_get (za_live (adapter_run inputs)) e = Some x"
  shows "(\<exists>client item. item \<in> set (queue_of (adapter_run inputs) client) \<and> qi_execution item = Some e
        \<and> (\<exists>k. qi_slot item = Some k \<and> xr_requests x = [(k, None)]))
    \<or> (\<exists>client p. xr_requests x = [(pv_request_id p, Some p)] \<and> active_for (za_registry (adapter_run inputs)) client (pv_registration p))"
proof -
  let ?s = "adapter_run inputs" and ?a = "account_of {#} {} (adapter_run inputs)"
  have "tracked ?a" "owned ?a" using run_account [of True inputs] assms by simp_all
  then have "waits (items_for e (queue_items ?s)) (Some x)"
    using assms(3,4) by (metis account_of_fields(1,2) add_0 tracked_def)
  then consider (queued) i k where "items_for e (queue_items ?s) = {#i#}" "qi_slot i = Some k" "xr_requests x = [(k, None)]"
    | (sent) p where "xr_requests x = [(pv_request_id p, Some p)]" by (auto simp: waits_def)
  then show ?thesis
  proof cases
    case queued
    then have "i \<in># items_for e (queue_items ?s)" by simp
    then have "i \<in># queue_items ?s" "qi_execution i = Some e" by (simp_all add: items_for_def)
    then obtain client where "i \<in> set (queue_of ?s client)" using queue_items_member by blast
    then show ?thesis using queued \<open>qi_execution i = Some e\<close> by blast
  next
    case sent
    then have "pv_registration p \<in> ac_active ?a \<union> ac_lost ?a"
      using \<open>owned ?a\<close> assms(4) unfolding owned_def by (metis account_of_fields(1) list.set_intros(1))
    then show ?thesis using sent by (auto simp: active_registrations_def)
  qed
qed

section \<open>Suspension\<close>

lemma drain_queues: "\<forall>client. queue_of (drain_queued_requests d s) client = []"
proof -
  have r: "za_queues (fold route_purged ts s) = za_queues s" for ts and s :: "'a adapter"
    by (induction ts arbitrary: s) (simp_all add: route_purged_def Let_def emit_queues out_now_def)
  have get: "tab_get (retain_items (\<lambda>_. False) t) c = map_option (\<lambda>_. []) (tab_get t c)" for t :: "(str, 'a queued_item list) table" and c
    by (induction t) (auto simp: retain_items_def tab_get_def)
  have "queue_of (drain_queued_requests d s) c = []" for c
    by (simp add: drain_queued_requests_def Let_def split_def queue_of_def r get split: option.split)
  then show ?thesis ..
qed

lemma retire_keeps:
  "za_queues (retire_registration_state client r d s) = za_queues s" "za_registry (retire_registration_state client r d s) = za_registry s"
proof -
  have e: "za_queues (fold emit_completed ts s) = za_queues s" "za_registry (fold emit_completed ts s) = za_registry s"
    for ts and s :: "'a adapter"
    by (induction ts arbitrary: s)
      (simp_all add: emit_queues, simp add: emit_completed_def publish_event_def out_now_def Let_def)
  have m: "za_queues (settle_and_emit_matching f d s) = za_queues s" "za_registry (settle_and_emit_matching f d s) = za_registry s"
    for f and s :: "'a adapter"
    by (simp_all add: settle_and_emit_matching_def settle_matching_unknown_def split_def e)
  show "za_queues (retire_registration_state client r d s) = za_queues s" "za_registry (retire_registration_state client r d s) = za_registry s"
    by (simp_all add: retire_registration_state_def Let_def split_def m publish_event_def out_now_def split: option.split)
qed

lemma invalidate_keeps:
  "za_queues (invalidate_all_registrations d s) = za_queues s" "zr_records (za_registry (invalidate_all_registrations d s)) = []"
proof -
  have m: "za_queues (retire_all d rs s) = za_queues s" "za_registry (retire_all d rs s) = za_registry s" for rs and s :: "'a adapter"
    by (induction rs arbitrary: s) (auto simp: retire_keeps)
  show "za_queues (invalidate_all_registrations d s) = za_queues s" "zr_records (za_registry (invalidate_all_registrations d s)) = []"
    by (simp_all add: invalidate_all_registrations_def invalidate_all_def Let_def m)
qed

lemma suspended_bare:
  assumes "fst (call_ok env s)" "\<not> za_suspended s"
  shows "queue_of (suspend_for_activation env s) client = []" "\<not> active_for (za_registry (suspend_for_activation env s)) c r"
proof -
  obtain s0 where c: "call_ok env s = (True, s0)" using assms(1) by (cases "call_ok env s") simp
  then have "\<not> za_suspended s0" using assms(2) by (auto simp: call_ok_def)
  then have q: "za_queues (suspend_for_activation env s) = za_queues (drain_queued_requests SuspendedQueued (settle_in_flight SuspendedInFlight
      (s0\<lparr>za_suspended := True, za_incarnation := None, za_pending_coverage := None\<rparr>)))"
    and r: "zr_records (za_registry (suspend_for_activation env s)) = []"
    by (simp_all add: suspend_for_activation_def c Let_def emit_queues invalidate_keeps)
      (simp add: unhealthy_def publish_event_def out_now_def invalidate_keeps)
  show "queue_of (suspend_for_activation env s) client = []" using drain_queues unfolding queue_of_def q by blast
  show "\<not> active_for (za_registry (suspend_for_activation env s)) c r" by (simp add: active_iff r)
qed

lemma suspend_accepts: "accepted (za_out (suspend_for_activation env s)) e = accepted (za_out s) e"
proof -
  have o: "accepted (za_out (out_now fx s)) e = accepted (za_out s) e" if "fx \<noteq> OutAccepted e" for fx and s :: "'a adapter"
    using that by (simp add: out_now_def accepted_def)
  have p: "accepted (za_out (publish_event fx s)) e = accepted (za_out s) e" if "fx \<noteq> OutAccepted e" for fx and s :: "'a adapter"
    using o [OF that] by (simp add: publish_event_def)
  have c: "accepted (za_out (emit_completed t s)) e = accepted (za_out s) e" for t and s :: "'a adapter"
    by (simp add: emit_completed_def Let_def p o)
  have f: "accepted (za_out (fold emit_completed ts s)) e = accepted (za_out s) e" for ts and s :: "'a adapter"
    by (induction ts arbitrary: s) (simp_all add: c)
  have m: "accepted (za_out (settle_and_emit_matching g d s)) e = accepted (za_out s) e" for g d and s :: "'a adapter"
    by (simp add: settle_and_emit_matching_def settle_matching_unknown_def split_def f)
  have r: "accepted (za_out (retire_registration_state client r d s)) e = accepted (za_out s) e" for client r d and s :: "'a adapter"
    by (simp add: retire_registration_state_def Let_def split_def p m split: option.split)
  have a: "accepted (za_out (retire_all d rs s)) e = accepted (za_out s) e" for d rs and s :: "'a adapter"
    by (induction rs arbitrary: s) (auto simp: r)
  have i: "accepted (za_out (invalidate_all_registrations d s)) e = accepted (za_out s) e" for d and s :: "'a adapter"
    by (simp add: invalidate_all_registrations_def split_def a)
  have u: "accepted (za_out (fold route_purged ts s)) e = accepted (za_out s) e" for ts and s :: "'a adapter"
    by (induction ts arbitrary: s) (simp_all add: route_purged_def Let_def c o)
  have d: "accepted (za_out (drain_queued_requests d s)) e = accepted (za_out s) e" for d and s :: "'a adapter"
    by (simp add: drain_queued_requests_def Let_def split_def u)
  have t: "accepted (za_out (settle_in_flight d s)) e = accepted (za_out s) e" for d and s :: "'a adapter"
    by (simp add: settle_in_flight_def Let_def settle_and_emit_def settle_now_def emit_terminal_def split_def c split: option.split)
  show ?thesis
    by (simp add: suspend_for_activation_def Let_def split_def call_ok_def unhealthy_def p o i d t)
qed

text \<open>
  C12: In a run whose dispatches have at most one command each and whose execution numbers are accepted
  at most once, suspending the adapter for an activation of Muxe settles everything the broker is
  waiting for: when the adapter was not suspended before and the suspension went through, no dispatch of
  the broker is live any more, and when the adapter is not shutting down each of them had its terminal
  published as often as it was accepted. (Executions of the adapter itself are left out. A dispatch of
  several commands may be left without a slot, see \<open>renamed_slot_lost\<close>, so the bound on the commands is
  needed.)
\<close>

theorem suspension_settles:
  assumes "list_all (\<lambda>i. single_command (fst i)) inputs" "accepted_once (adapter_run inputs)"
    and "fst (call_ok env (adapter_run inputs))" "\<not> za_suspended (adapter_run inputs)" "\<not> is_local e"
  shows "tab_get (za_live (adapter_run (inputs @ [(InSuspend, env)]))) e = None
    \<and> (\<not> za_quiescing (adapter_run (inputs @ [(InSuspend, env)]))
        \<longrightarrow> published (za_out (adapter_run (inputs @ [(InSuspend, env)]))) e = accepted (za_out (adapter_run inputs)) e)"
proof -
  let ?is = "inputs @ [(InSuspend, env)]"
  have run: "adapter_run ?is = suspend_for_activation env (adapter_run inputs)" by (simp add: adapter_run_def)
  have single: "list_all (\<lambda>i. single_command (fst i)) ?is" using assms(1) by (simp add: single_command_def)
  have acc: "accepted (za_out (adapter_run ?is)) f = accepted (za_out (adapter_run inputs)) f" for f
    unfolding run by (rule suspend_accepts)
  then have once: "accepted_once (adapter_run ?is)" using assms(2) by (simp add: accepted_once_def)
  have a: "tracked (account_of {#} {} (adapter_run ?is))" "owned (account_of {#} {} (adapter_run ?is))"
    "conserved (account_of {#} {} (adapter_run ?is))" using run_account [of True ?is] single once by simp_all
  have bare: "queue_items (adapter_run ?is) = {#}" "\<And>c r. \<not> active_for (za_registry (adapter_run ?is)) c r"
    unfolding run using suspended_bare [OF assms(3,4)] by (simp_all add: queue_items_def)
  have "tab_get (za_live (adapter_run ?is)) e = None"
  proof (rule ccontr)
    assume "tab_get (za_live (adapter_run ?is)) e \<noteq> None"
    then obtain x where x: "tab_get (za_live (adapter_run ?is)) e = Some x" by blast
    have "waits (items_for e (ac_items (account_of {#} {} (adapter_run ?is)))) (tab_get (ac_live (account_of {#} {} (adapter_run ?is))) e)"
      using a(1) assms(5) unfolding tracked_def by blast
    then obtain p where p: "xr_requests x = [(pv_request_id p, Some p)]" by (auto simp: x bare(1) waits_def)
    then have "pv_registration p \<in> active_registrations (za_registry (adapter_run ?is)) \<union> {}"
      using a(2) x by (auto simp: owned_def)
    then show False using bare(2) by (simp add: active_registrations_def)
  qed
  moreover have "\<not> za_quiescing (adapter_run ?is) \<longrightarrow> published (za_out (adapter_run ?is)) e = accepted (za_out (adapter_run inputs)) e"
  proof
    assume q: "\<not> za_quiescing (adapter_run ?is)"
    have "accepted (za_out (adapter_run ?is)) e = published (za_out (adapter_run ?is)) e"
      using terminals_balance [OF once q assms(5)] calculation by simp
    then show "published (za_out (adapter_run ?is)) e = accepted (za_out (adapter_run inputs)) e" using acc by simp
  qed
  ultimately show ?thesis ..
qed

section \<open>Batches\<close>

text \<open>
  With more than one command, sending under a number that another command of the batch still waits
  under overwrites that slot: here the batch of slots 1 and 2 is sent under the numbers 2 and 3. Once
  request 2 was reported, the second command finds no slot of its own: the report of request 3 settles
  nothing, and the execution stays one outcome short for ever. The portable and native
  actions of today map to one command each, so no such batch is dispatched.
\<close>

lemma renamed_slot_lost:
  "let n = \<lambda>k. BridgeRequestId k;
       x1 = fst (rename_slot \<lparr>pv_request_id = n 2, pv_registration = r\<rparr> (Some (n 1)) (new_execution e [n 1, n 2]));
       (live, t) = settle_slot e (n 2) (Some failure) [(e, x1)];
       x2 = fst (rename_slot \<lparr>pv_request_id = n 3, pv_registration = r\<rparr> (Some (n 2)) (snd (hd live)))
   in t = None \<and> xr_total x2 = 2 \<and> xr_settled x2 = 1 \<and> settle_slot e (n 3) outcome [(e, x2)] = ([(e, x2)], None)"
  by (simp add: rename_slot_def new_execution_def settle_slot_def note_outcome_def note_failure_def tab_get_def tab_has_def
      tab_remove_def Let_def split: option.splits)

section \<open>A sample run\<close>

text \<open>
  A client registers its bridge, the broker dispatches one command to it, and the bridge reports it
  done.
\<close>

definition exchange_identity :: bridge_identity where
  "exchange_identity = \<lparr>bi_muxe_version = [49], bi_source_revision = [50], bi_action_fingerprint = 1,
     bi_protocol_fingerprint = 1, bi_build_id = None\<rparr>"

definition exchange_env :: "unit pipe_event_kind \<Rightarrow> bridge_request_id option \<Rightarrow> u32 environment" where
  "exchange_env event n =
     \<lparr>en_ok = (\<lambda>_. True), en_epoch = Some 1, en_members = Some [[97]], en_random = Some 5, en_now = 0,
      en_json = (\<lambda>_. Inr [120]),
      en_parse = (\<lambda>_. Inr \<lparr>ev_protocol = PROTOCOL_CURRENT, ev_request_id = n, ev_registration = RegistrationId 9,
                            ev_generation = GENERATION_INITIAL, ev_event = event\<rparr>),
      en_identity = exchange_identity\<rparr>"

definition quiet_env :: "u32 environment" where
  "quiet_env = exchange_env (OutEvent EvHeartbeat) None"

definition exchange_register :: "u32 adapter_input \<times> u32 environment" where
  "exchange_register = (InLine 1 [120], exchange_env (OutEvent (EvRegister
     \<lparr>zr_client_id = [97], zr_current_pane = None, zr_plugin_id = None, zr_identity = exchange_identity\<rparr>)) None)"

definition exchange_request :: "u32 adapter_input \<times> u32 environment" where
  "exchange_request = (InDispatch (ExecutionId 7) [97] [DispatchCommand 4] None, quiet_env)"

definition exchange_record :: bridge_record where
  "exchange_record = \<lparr>rec_client = [97], rec_registration = RegistrationId 9, rec_pane = None, rec_version = [49],
     rec_last_event = 0, rec_compatible = True, rec_next_request = REQUEST_INITIAL\<rparr>"

definition exchange_registered :: "u32 adapter" where
  "exchange_registered = adapter_run [exchange_register]"

lemmas exchange_line_eval = handle_event_line_def decode_event_line_def decode_line_def check_line_bound_def
  MAX_PIPE_LINE_LEN_def validate_pipe_event_def require_non_empty_def MAX_DETAIL_LEN_def validate_identity_def
  encode_utf8_def result_simps

definition exchange_ready :: "u32 adapter" where
  "exchange_ready = new_adapter\<lparr>za_registry := \<lparr>zr_records = [([97], exchange_record)], zr_retired = {}\<rparr>,
     za_register_epoch := [([97], 0, 1)], za_incarnation := Some \<lparr>ci_owner = \<lparr>co_resume_epoch = 0, co_channel = 1\<rparr>, ci_id = 5\<rparr>,
     za_success := Some [[97]], za_calls := 4, za_out := [OutHealthy 5]\<rparr>"

definition exchange_sent :: "u32 adapter" where
  "exchange_sent =
     (let p = \<lparr>pv_request_id = REQUEST_INITIAL, pv_registration = RegistrationId 9\<rparr> in
      exchange_ready\<lparr>za_registry := \<lparr>zr_records = [([97], exchange_record\<lparr>rec_next_request := BridgeRequestId 2\<rparr>)], zr_retired = {}\<rparr>,
        za_cursor := Some [97], za_queues := [([97], [])],
        za_in_flight := Some \<lparr>fl_request = p, fl_generation = GENERATION_INITIAL, fl_execution = Some (ExecutionId 7),
          fl_slot = Some REQUEST_INITIAL, fl_settled = False\<rparr>,
        za_live := [(ExecutionId 7, \<lparr>xr_execution = ExecutionId 7, xr_requests = [(REQUEST_INITIAL, Some p)],
          xr_total = 1, xr_worst = None, xr_settled = 0\<rparr>)],
        za_calls := 5,
        za_out := [OutHealthy 5, OutAccepted (ExecutionId 7),
          OutLine \<lparr>rq_protocol = PROTOCOL_CURRENT, rq_request_id = REQUEST_INITIAL, rq_registration = RegistrationId 9,
            rq_generation = GENERATION_INITIAL, rq_target = BridgeTarget [97],
            rq_payload = BrDispatch (execution_to_common (ExecutionId 7)) (DispatchCommand 4)\<rparr> True]\<rparr>)"

lemmas exchange_eval = exchange_env_def on_register_def with_gate_def call_ok_def identity_matches_def register_bridge_def
  try_complete_pending_coverage_def sorted_members_def resume_covered_def sweep_expired_clients_def expire_leases_def
  lease_expired_def HEARTBEAT_LEASE_MILLIS_def saturating_sub_u64_def renew_active_captures_def captured_leases_def
  covers_def fresh_compatible_def is_compatible_def registry_get_def complete_covered_incarnation_def
  publish_new_incarnation_def take_pending_def out_now_def pump_order_def exchange_record_def
  new_adapter_def new_registry_def tab_get_def tab_has_def

lemma exchange_registers: "adapter_run [exchange_register] = exchange_ready"
  by (simp add: adapter_run_def exchange_register_def exchange_ready_def exchange_line_eval exchange_identity_def exchange_eval Let_def
     pump_all.simps)

lemma pump_two: "pump_one env client s = pump_tries (Suc (Suc 0)) env client s"
  by (simp add: pump_one_def numeral_2_eq_2)

lemmas exchange_send_eval = admit_dispatch_def require_active_def still_current_def queue_commands_def new_execution_def
  queue_of_def pump_two pop_front_def allocate_request_def send_item_def
  request_frame_def encode_line_def record_sent_def rename_slot_def

lemma exchange_numbers: "\<not> LOCAL_EXECUTION_CEILING \<le> 7" "request_id_next REQUEST_INITIAL = Inr (BridgeRequestId 2)"
  by (simp_all add: LOCAL_EXECUTION_CEILING_def REQUEST_INITIAL_def)

lemma exchange_sends: "adapter_step exchange_ready exchange_request = exchange_sent"
  by (simp add: exchange_request_def quiet_env_def exchange_sent_def exchange_ready_def exchange_line_eval exchange_eval
      exchange_send_eval exchange_numbers Let_def pump_all.simps)

text \<open>The report of the bridge.\<close>

definition exchange_report :: "u32 adapter_input \<times> u32 environment" where
  "exchange_report = (InLine 1 [120], exchange_env (OutResponse (DispatchCompleted (WireExecutionId 7) outcome_succeeded)) (Some REQUEST_INITIAL))"

lemma exchange_reported: "adapter_step exchange_sent exchange_report
    = exchange_sent\<lparr>za_live := [], za_out := za_out exchange_sent @ [OutCompleted (CompletionSucceeded (ExecutionId 7))]\<rparr>"
  by (simp add: exchange_report_def exchange_sent_def exchange_ready_def exchange_line_eval exchange_eval outcome_succeeded_def
      client_for_registration_def tab_vals_def tab_remove_def on_completed_def note_outcome_def note_success_def
      terminal_of_def emit_completed_def publish_event_def exchange_numbers validate_common_def validate_nonce_def Let_def)

definition exchange_dispatched :: "(u32 adapter_input \<times> u32 environment) list" where
  "exchange_dispatched = [exchange_register, exchange_request]"

lemma exchange_runs: "adapter_run exchange_dispatched = exchange_sent"
  "adapter_run (exchange_dispatched @ [exchange_report])
    = exchange_sent\<lparr>za_live := [], za_out := za_out exchange_sent @ [OutCompleted (CompletionSucceeded (ExecutionId 7))]\<rparr>"
  using exchange_registers exchange_sends exchange_reported by (simp_all add: adapter_run_def exchange_dispatched_def)

lemma exchange_once: "accepted_once exchange_sent" "\<not> za_quiescing exchange_sent" "\<not> za_suspended exchange_sent"
  by (auto simp: accepted_once_def accepted_def exchange_sent_def exchange_ready_def new_adapter_def Let_def)

lemma exchange_single: "list_all (\<lambda>i. single_command (fst i)) exchange_dispatched"
  by (simp add: exchange_dispatched_def exchange_register_def exchange_request_def single_command_def)

section \<open>Witnesses\<close>

text \<open>After the report, the one accepted dispatch was published and is no longer live.\<close>

theorem terminals_exactly_once_witness:
  "accepted (za_out (adapter_run (exchange_dispatched @ [exchange_report]))) (ExecutionId 7)
    = published (za_out (adapter_run (exchange_dispatched @ [exchange_report]))) (ExecutionId 7) + 0"
proof -
  let ?s = "adapter_run (exchange_dispatched @ [exchange_report])"
  have "accepted_once ?s" "\<not> za_quiescing ?s" "tab_get (za_live ?s) (ExecutionId 7) = None"
    using exchange_once by (auto simp: exchange_runs accepted_once_def accepted_def)
  then show ?thesis
    using terminals_exactly_once [of "exchange_dispatched @ [exchange_report]" "ExecutionId 7"] exchange_numbers by simp
qed

theorem live_dispatch_waits_witness:
  "\<exists>x. tab_get (za_live (adapter_run exchange_dispatched)) (ExecutionId 7) = Some x
    \<and> (\<exists>client p. xr_requests x = [(pv_request_id p, Some p)]
        \<and> active_for (za_registry (adapter_run exchange_dispatched)) client (pv_registration p))"
proof -
  obtain x where x: "tab_get (za_live (adapter_run exchange_dispatched)) (ExecutionId 7) = Some x"
    "\<And>k. xr_requests x \<noteq> [(k, None)]"
    by (auto simp: exchange_runs exchange_sent_def tab_get_def Let_def)
  then show ?thesis
    using live_dispatch_waits [OF exchange_single _ _ x(1)] exchange_once exchange_numbers by (auto simp: exchange_runs)
qed

theorem suspension_settles_witness:
  "tab_get (za_live (adapter_run (exchange_dispatched @ [(InSuspend, quiet_env)]))) (ExecutionId 7) = None"
  using suspension_settles [OF exchange_single, of quiet_env "ExecutionId 7"] exchange_once exchange_numbers
  by (simp add: exchange_runs call_ok_def quiet_env_def exchange_env_def)

end
