(* ===== verification/Activation_Record.thy ===== *)
theory Activation_Record
  imports Wire_Types Ordered_Table
begin

text \<open>
  The activation record (\<open>muxe/src/lifecycle/journal.rs\<close>): the file in which the coordinator of an
  upgrade announces every step before it takes it, with the validator that guards every write and
  every read. One record belongs to one unit, a single Herdr broker or all Zellij brokers that share
  a bridge; each of its members is a pair of an old broker and its replacement.

  A path is the list of the components \<open>Path::components\<close> yields. Identities that wrap a string are
  strings. SHA-256, the JSON serializer and the user id are arguments, the record \<open>activation_api\<close>;
  the process identities are those of the Linux build.
\<close>

section \<open>Identities\<close>

datatype path_part = RootDir | CurDir | ParentDir | NormalPart str

type_synonym path = "path_part list"

definition is_absolute :: "path \<Rightarrow> bool" where
  "is_absolute p \<longleftrightarrow> (case p of RootDir # _ \<Rightarrow> True | _ \<Rightarrow> False)"

definition has_file_name :: "path \<Rightarrow> bool" where
  "has_file_name p \<longleftrightarrow> p \<noteq> [] \<and> (case last p of NormalPart _ \<Rightarrow> True | _ \<Rightarrow> False)"

definition is_normalized :: "path \<Rightarrow> bool" where
  "is_normalized p \<longleftrightarrow> ParentDir \<notin> set p \<and> CurDir \<notin> set p"

type_synonym schema_fingerprint = "256 word"
type_synonym bridge_unit_id = "256 word"
type_synonym handoff_id = nonce
type_synonym activation_id = nonce
type_synonym broker_registration_id = nonce
type_synonym readiness_epoch = nonce
type_synonym member_name = str
type_synonym member_transaction_id = str
type_synonym sha256_digest = str

datatype unit_kind = UnitHerdr str | UnitZellij bridge_unit_id

fun is_zellij_unit :: "unit_kind \<Rightarrow> bool" where
  "is_zellij_unit (UnitZellij _) \<longleftrightarrow> True"
| "is_zellij_unit (UnitHerdr _) \<longleftrightarrow> False"

record bridge_location =
  bl_directory :: path
  bl_unit :: bridge_unit_id

record process_identity =
  pi_boot :: str
  pi_namespace :: "u64 \<times> u64"
  pi_process :: u32
  pi_start :: u64

definition authorizes_stored_peer :: "process_identity \<Rightarrow> bool" where
  "authorizes_stored_peer i \<longleftrightarrow> False"

record endpoint_identity =
  ei_path :: path
  ei_device :: u64
  ei_inode :: u64
  ei_owner :: u32
  ei_mode :: u32

record broker_entry =
  be_host_kind :: str
  be_discovery_key :: str
  be_socket :: path
  be_server_pid :: u32
  be_started_at :: u64
  be_registration_id :: "broker_registration_id option"
  be_process_identity :: "process_identity option"
  be_bridge_identity :: "bridge_location option"
  be_bridge_member :: "str option"
  be_handoff_id :: "handoff_id option"
  be_live_server :: "str option"

definition parsed_host_kind :: "broker_entry \<Rightarrow> str + host_kind" where
  "parsed_host_kind e =
     (if be_host_kind e = lit ''herdr'' then Inr HostHerdr
      else if be_host_kind e = lit ''zellij'' then Inr HostZellij
      else Inl (be_host_kind e))"

record zellij_compatibility =
  zc_source_revision :: str
  zc_action_fingerprint :: schema_fingerprint
  zc_protocol_fingerprint :: schema_fingerprint
  zc_build_id :: "schema_fingerprint option"

record herdr_compatibility =
  hc_protocol_version :: u32
  hc_schema_version :: u32
  hc_schema_fingerprint :: schema_fingerprint

record compatibility_record =
  cr_muxe_version :: str
  cr_target_triple :: str
  cr_schema_fingerprint :: schema_fingerprint
  cr_zellij :: "zellij_compatibility option"
  cr_herdr :: "herdr_compatibility option"

record bridge_receipt_record =
  br_bridge_identity :: bridge_location
  br_installed_version :: str
  br_installed_digest :: sha256_digest
  br_previous_digest :: "sha256_digest option"
  br_bridge_compat :: "zellij_compatibility option"

section \<open>Errors\<close>

text \<open>The texts of an inconsistency; texts that differ in the refused detail only share a constructor.\<close>

datatype inconsistency =
    InvalidMemberName | InvalidEndpoint | ZeroHandoff | ZeroProcess | InvalidServerId
  | NoSavedRegistration | ForeignRegistration | InvalidStoppedSocket | ForeignStopRequest
  | UnknownHostKind str | BindingJson | NoReadinessIdentity | IncompleteReadiness
  | NoMembers | InvalidMember | NoForcedIdentity | ForeignForcedStop | NotCooperative
  | NoStopRequest | UnexpectedStopRequest | ForeignBridgeUnit | InvalidBridgeMember
  | ForeignCensus | NoBridgeProgress | ForeignArtifacts | ForeignReload | IncompleteRestore
  | InvalidHerdrUnit | InvalidReadinessRecord | ConflictingProgress
  | ForeignAuthority | HerdrWithBridge | UnknownBroker | AlreadyDecided | ForeignAcknowledgement
  | RegistrationNotAllowed | UnauthorizedTarget

datatype journal_error =
    JournalFs
  | JournalCorrupt
  | UnsupportedVersion u32
  | Inconsistent inconsistency
  | MissingZellijAuthority

section \<open>Authority of a stop\<close>

datatype retirement_authority = OwnedProcess u32 | RemoteServer server_id

fun server_id_text :: "server_id \<Rightarrow> str" where
  "server_id_text (ServerId t) = t"

definition target_process_id :: "u32 \<Rightarrow> journal_error + u32" where
  "target_process_id v = (if v = 0 then Inl (Inconsistent ZeroProcess) else Inr v)"

fun validate_authority :: "retirement_authority \<Rightarrow> journal_error + unit" where
  "validate_authority (OwnedProcess p) = rbind (target_process_id p) (\<lambda>_. Inr ())"
| "validate_authority (RemoteServer s) =
     (if server_id_text s = [] \<or> list_ex is_control (server_id_text s) then Inl (Inconsistent InvalidServerId) else Inr ())"

record launch_authority =
  la_member :: member_name
  la_endpoint :: path
  la_handoff_id :: handoff_id

record retirement_binding =
  rb_activation_id :: activation_id
  rb_member_id :: member_transaction_id
  rb_launch_authority :: launch_authority
  rb_target_record :: compatibility_record
  rb_authority :: retirement_authority
  rb_registration :: "broker_entry option"
  rb_endpoint :: "endpoint_identity option"

record activation_api =
  ap_sha256 :: "u8 list \<Rightarrow> u8 list"
  ap_binding_json :: "retirement_binding \<Rightarrow> u8 list option"
  ap_current_uid :: u32

definition digest_digit :: "u8 \<Rightarrow> scalar" where
  "digest_digit d = (if d < 10 then 0x30 + ucast d else 0x57 + ucast d)"

definition sha256_hex :: "activation_api \<Rightarrow> u8 list \<Rightarrow> str" where
  "sha256_hex api bytes = concat (map (\<lambda>b. [digest_digit (drop_bit 4 b), digest_digit (b AND 0xF)]) (ap_sha256 api bytes))"

definition is_lower_hex :: "str \<Rightarrow> bool" where
  "is_lower_hex t \<longleftrightarrow> list_all (\<lambda>c. (0x30 \<le> c \<and> c \<le> 0x39) \<or> (0x61 \<le> c \<and> c \<le> 0x66)) t"

text \<open>Checks of 64 lowercase hexadecimal digits; none but ASCII text passes the second half.\<close>

definition hex_id_is_valid :: "str \<Rightarrow> bool" where
  "hex_id_is_valid t \<longleftrightarrow> str_len t = 64 \<and> is_lower_hex t"

definition nonce_bytes :: "nonce \<Rightarrow> u8 list" where
  "nonce_bytes n = map (\<lambda>i. ucast (drop_bit (8 * (15 - i)) n)) [0..<16]"

definition derive_member_id :: "activation_api \<Rightarrow> activation_id \<Rightarrow> member_name \<Rightarrow> member_transaction_id" where
  "derive_member_id api a member = sha256_hex api (nonce_bytes a @ concat (map encode_utf8 member))"

definition derive_receipt_id :: "activation_api \<Rightarrow> retirement_binding \<Rightarrow> journal_error + str" where
  "derive_receipt_id api b =
     (case ap_binding_json api b of None \<Rightarrow> Inl (Inconsistent BindingJson) | Some bytes \<Rightarrow> Inr (sha256_hex api bytes))"

record retirement_intent =
  ri_receipt_id :: str
  ri_authority :: retirement_authority
  ri_registration :: "broker_entry option"
  ri_endpoint :: "endpoint_identity option"

section \<open>Members\<close>

datatype old_progress =
    OldPending | OldPrepareIntent | OldDrained | OldCommitIntent | OldCommitted
  | OldResumeIntent | OldResumed | OldForceStopIntent | OldForceStopped

datatype target_progress =
    TargetAbsent | TargetSpawnIntent | TargetGated | TargetReady | TargetCommitIntent
  | TargetCommitted | TargetRetireIntent | TargetRetired

datatype stop_proof = CooperativeRetirement | ProcessExited

record forced_stop =
  fs_process :: process_identity
  fs_endpoint :: "endpoint_identity option"
  fs_hard_stop_intent :: bool
  fs_proof :: "stop_proof option"

record transaction_member =
  tm_id :: member_transaction_id
  tm_authority :: launch_authority
  tm_old_record :: "compatibility_record option"
  tm_old :: old_progress
  tm_target :: target_progress
  tm_target_retirement :: "retirement_intent option"
  tm_forced_stop :: "forced_stop option"

definition tm_member :: "transaction_member \<Rightarrow> member_name" where
  "tm_member m = la_member (tm_authority m)"

definition tm_endpoint :: "transaction_member \<Rightarrow> path" where
  "tm_endpoint m = la_endpoint (tm_authority m)"

definition tm_handoff :: "transaction_member \<Rightarrow> handoff_id" where
  "tm_handoff m = la_handoff_id (tm_authority m)"

definition new_member ::
  "activation_api \<Rightarrow> activation_id \<Rightarrow> member_name \<Rightarrow> path \<Rightarrow> handoff_id \<Rightarrow> compatibility_record option
   \<Rightarrow> journal_error + transaction_member" where
  "new_member api a member endpoint handoff old =
     (if handoff = 0 then Inl (Inconsistent ZeroHandoff)
      else Inr \<lparr>tm_id = derive_member_id api a member,
                tm_authority = \<lparr>la_member = member, la_endpoint = endpoint, la_handoff_id = handoff\<rparr>,
                tm_old_record = old, tm_old = OldPending, tm_target = TargetAbsent,
                tm_target_retirement = None, tm_forced_stop = None\<rparr>)"

definition activation_member_id :: "str \<Rightarrow> journal_error + member_name" where
  "activation_member_id value =
     (if value = [] \<or> list_ex is_control value then Inl (Inconsistent InvalidMemberName) else Inr value)"

definition member_endpoint :: "path \<Rightarrow> journal_error + path" where
  "member_endpoint p =
     (if \<not> is_absolute p \<or> p = [] \<or> \<not> is_normalized p then Inl (Inconsistent InvalidEndpoint) else Inr p)"

definition bridge_member_id :: "str \<Rightarrow> journal_error + str" where
  "bridge_member_id value =
     (if value = [] \<or> 0 \<in> set value then Inl (Inconsistent InvalidBridgeMember) else Inr value)"

definition valid_recorded :: "activation_api \<Rightarrow> endpoint_identity \<Rightarrow> bool" where
  "valid_recorded api e \<longleftrightarrow>
     is_absolute (ei_path e) \<and> has_file_name (ei_path e) \<and> is_normalized (ei_path e)
     \<and> ei_owner e = ap_current_uid api \<and> ei_mode e = 0x180 \<and> ei_device e \<noteq> 0 \<and> ei_inode e \<noteq> 0"

section \<open>The bridge\<close>

datatype artifact_role = ArtifactOld | ArtifactTarget

record bridge_artifact_id =
  ba_activation :: activation_id
  ba_role :: artifact_role

record bridge_artifacts =
  bx_old :: bridge_artifact_id
  bx_target :: bridge_artifact_id
  bx_old_digest :: sha256_digest
  bx_target_digest :: sha256_digest
  bx_receipt_preimage :: bridge_receipt_record
  bx_receipt_target :: bridge_receipt_record
  bx_receipt_rollback :: bridge_receipt_record

datatype bridge_progress =
    ArtifactsPending | ArtifactsReady
  | TargetInstallIntent | TargetInstalled
  | TargetReloading "member_transaction_id option" "member_transaction_id list"
  | TargetReloaded
  | PreviousPublishIntent | PreviousPublished | ReceiptIntent | ReceiptPublished
  | OldInstallIntent | OldInstalled | TargetPreviousIntent | TargetPreviousPublished
  | OldReceiptIntent | OldReceiptPublished
  | OldReloading "member_transaction_id option" "member_transaction_id list"
  | Restored "member_transaction_id list"

fun reload_coverage :: "bridge_progress \<Rightarrow> (member_transaction_id option \<times> member_transaction_id list) option" where
  "reload_coverage (TargetReloading active completed) = Some (active, completed)"
| "reload_coverage (OldReloading active completed) = Some (active, completed)"
| "reload_coverage _ = None"

fun restored_coverage :: "bridge_progress \<Rightarrow> member_transaction_id list option" where
  "restored_coverage (Restored reloaded) = Some reloaded"
| "restored_coverage _ = None"

record bridge_transaction =
  bt_artifacts :: bridge_artifacts
  bt_progress :: bridge_progress

section \<open>The record\<close>

record ready_member_proof =
  rm_member_id :: member_transaction_id
  rm_entry :: broker_entry
  rm_server_id :: server_id

record ready_proof =
  rp_epoch :: "readiness_epoch option"
  rp_bridge_unit :: "bridge_unit_id option"
  rp_member_ids :: "member_transaction_id list"
  rp_as_of :: "u64 option"
  rp_incarnations :: "ready_member_proof list"

record transaction_progress =
  tp_members :: "transaction_member list"
  tp_bridge :: "bridge_transaction option"
  tp_ready_proof :: "ready_proof option"

datatype transaction_phase =
    Preparing transaction_progress
  | Activating transaction_progress
  | ReadyPhase transaction_progress
  | Committing transaction_progress
  | RollingBack str transaction_progress
  | Committed transaction_progress
  | ForcedRetry str transaction_progress
  | RolledBack transaction_progress

datatype transaction_directive =
    DirectPrepare | DirectActivate | DirectCommit | DirectRollBack
  | DirectCleanupCommitted | DirectCleanupRolledBack | DirectRetryForce

fun phase_progress :: "transaction_phase \<Rightarrow> transaction_progress" where
  "phase_progress (Preparing p) = p"
| "phase_progress (Activating p) = p"
| "phase_progress (ReadyPhase p) = p"
| "phase_progress (Committing p) = p"
| "phase_progress (RollingBack r p) = p"
| "phase_progress (Committed p) = p"
| "phase_progress (ForcedRetry r p) = p"
| "phase_progress (RolledBack p) = p"

fun with_progress :: "transaction_phase \<Rightarrow> transaction_progress \<Rightarrow> transaction_phase" where
  "with_progress (Preparing _) p = Preparing p"
| "with_progress (Activating _) p = Activating p"
| "with_progress (ReadyPhase _) p = ReadyPhase p"
| "with_progress (Committing _) p = Committing p"
| "with_progress (RollingBack r _) p = RollingBack r p"
| "with_progress (Committed _) p = Committed p"
| "with_progress (ForcedRetry r _) p = ForcedRetry r p"
| "with_progress (RolledBack _) p = RolledBack p"

fun phase_directive :: "transaction_phase \<Rightarrow> transaction_directive" where
  "phase_directive (Preparing _) = DirectPrepare"
| "phase_directive (Activating _) = DirectActivate"
| "phase_directive (ReadyPhase _) = DirectCommit"
| "phase_directive (Committing _) = DirectCommit"
| "phase_directive (RollingBack _ _) = DirectRollBack"
| "phase_directive (Committed _) = DirectCleanupCommitted"
| "phase_directive (ForcedRetry _ _) = DirectRetryForce"
| "phase_directive (RolledBack _) = DirectCleanupRolledBack"

record activation_journal =
  aj_schema_version :: u32
  aj_activation_id :: activation_id
  aj_unit :: unit_kind
  aj_bridge_identity :: "bridge_location option"
  aj_member_census :: "str list option"
  aj_target_record :: compatibility_record
  aj_old_registry :: "broker_entry list"
  aj_transaction :: transaction_phase
  aj_recovery_deadline :: u64

definition JOURNAL_SCHEMA_VERSION :: u32 where "JOURNAL_SCHEMA_VERSION = 5"
definition FORCED_JOURNAL_SCHEMA_VERSION :: u32 where "FORCED_JOURNAL_SCHEMA_VERSION = 6"
definition RECOVERY_DEADLINE_SECS :: u64 where "RECOVERY_DEADLINE_SECS = 600"

definition aj_progress :: "activation_journal \<Rightarrow> transaction_progress" where
  "aj_progress j = phase_progress (aj_transaction j)"

definition aj_members :: "activation_journal \<Rightarrow> transaction_member list" where
  "aj_members j = tp_members (aj_progress j)"

definition aj_bridge :: "activation_journal \<Rightarrow> bridge_transaction option" where
  "aj_bridge j = tp_bridge (aj_progress j)"

definition directive :: "activation_journal \<Rightarrow> transaction_directive" where
  "directive j = phase_directive (aj_transaction j)"

definition is_forced :: "activation_journal \<Rightarrow> bool" where
  "is_forced j \<longleftrightarrow> aj_schema_version j = FORCED_JOURNAL_SCHEMA_VERSION"

definition set_progress :: "(transaction_progress \<Rightarrow> transaction_progress) \<Rightarrow> activation_journal \<Rightarrow> activation_journal" where
  "set_progress f j = j\<lparr>aj_transaction := with_progress (aj_transaction j) (f (aj_progress j))\<rparr>"

text \<open>Assignments through \<open>members_mut\<close> and \<open>bridge_mut\<close>.\<close>

definition update_member :: "nat \<Rightarrow> (transaction_member \<Rightarrow> transaction_member) \<Rightarrow> activation_journal \<Rightarrow> activation_journal" where
  "update_member i f = set_progress (\<lambda>p. p\<lparr>tp_members := (tp_members p)[i := f (tp_members p ! i)]\<rparr>)"

definition set_old :: "nat \<Rightarrow> old_progress \<Rightarrow> activation_journal \<Rightarrow> activation_journal" where
  "set_old i o' = update_member i (\<lambda>m. m\<lparr>tm_old := o'\<rparr>)"

definition set_target :: "nat \<Rightarrow> target_progress \<Rightarrow> activation_journal \<Rightarrow> activation_journal" where
  "set_target i t = update_member i (\<lambda>m. m\<lparr>tm_target := t\<rparr>)"

definition set_bridge :: "bridge_progress \<Rightarrow> activation_journal \<Rightarrow> activation_journal" where
  "set_bridge b = set_progress (\<lambda>p. p\<lparr>tp_bridge := map_option (\<lambda>t. t\<lparr>bt_progress := b\<rparr>) (tp_bridge p)\<rparr>)"

definition enter :: "transaction_phase \<Rightarrow> activation_journal \<Rightarrow> activation_journal" where
  "enter ph j = j\<lparr>aj_transaction := ph\<rparr>"

definition enter_activating :: "activation_journal \<Rightarrow> activation_journal" where
  "enter_activating j = enter (Activating (aj_progress j)) j"

definition enter_ready :: "ready_proof option \<Rightarrow> activation_journal \<Rightarrow> activation_journal" where
  "enter_ready proof j = enter (ReadyPhase ((aj_progress j)\<lparr>tp_ready_proof := proof\<rparr>)) j"

definition enter_committing :: "activation_journal \<Rightarrow> activation_journal" where
  "enter_committing j = enter (Committing (aj_progress j)) j"

definition enter_rollback :: "str \<Rightarrow> activation_journal \<Rightarrow> activation_journal" where
  "enter_rollback reason j = enter (RollingBack reason (aj_progress j)) j"

definition enter_committed :: "activation_journal \<Rightarrow> activation_journal" where
  "enter_committed j = enter (Committed (aj_progress j)) j"

definition enter_rolled_back :: "activation_journal \<Rightarrow> activation_journal" where
  "enter_rolled_back j =
     (let p = (aj_progress j)\<lparr>tp_ready_proof := None\<rparr> in
      enter (if is_forced j
             then ForcedRetry (case aj_transaction j of RollingBack reason _ \<Rightarrow> reason
                               | _ \<Rightarrow> lit ''forced replacement did not complete'') p
             else RolledBack p) j)"

end
