(* ===== verification/Activation_Validate.thy ===== *)
theory Activation_Validate
  imports Activation_Record
begin

text \<open>
  The consistency of an activation record, \<open>ActivationJournal::validate\<close> of
  \<open>muxe/src/lifecycle/journal.rs\<close>: identities, saved stop requests, the bridge and its artifacts, the
  readiness proof, and which progress of members and bridge each phase admits. \<open>write_journal\<close>
  refuses to write and \<open>read_journal\<close> refuses to read what fails here.
\<close>

section \<open>Saved stop requests\<close>

definition journal_binding ::
  "activation_journal \<Rightarrow> transaction_member \<Rightarrow> retirement_authority \<Rightarrow> broker_entry option \<Rightarrow> endpoint_identity option
   \<Rightarrow> retirement_binding" where
  "journal_binding j m authority registration endpoint =
     \<lparr>rb_activation_id = aj_activation_id j, rb_member_id = tm_id m, rb_launch_authority = tm_authority m,
      rb_target_record = aj_target_record j, rb_authority = authority, rb_registration = registration,
      rb_endpoint = endpoint\<rparr>"

definition new_retirement_intent ::
  "activation_api \<Rightarrow> activation_journal \<Rightarrow> transaction_member \<Rightarrow> retirement_authority \<Rightarrow> journal_error + retirement_intent" where
  "new_retirement_intent api j m authority =
     rbind (validate_authority authority) (\<lambda>_.
     rbind (derive_receipt_id api (journal_binding j m authority None None)) (\<lambda>receipt.
     Inr \<lparr>ri_receipt_id = receipt, ri_authority = authority, ri_registration = None, ri_endpoint = None\<rparr>))"

definition same_place :: "transaction_member \<Rightarrow> broker_entry \<Rightarrow> bool" where
  "same_place m row \<longleftrightarrow> be_socket row = tm_endpoint m \<and> be_discovery_key row = tm_member m"

definition host_of :: "broker_entry \<Rightarrow> journal_error + host_kind" where
  "host_of row = (case parsed_host_kind row of Inl k \<Rightarrow> Inl (Inconsistent (UnknownHostKind k)) | Inr h \<Rightarrow> Inr h)"

definition stopped_registration_exact ::
  "activation_journal \<Rightarrow> transaction_member \<Rightarrow> retirement_intent \<Rightarrow> broker_entry \<Rightarrow> broker_entry \<Rightarrow> bool \<Rightarrow> bool" where
  "stopped_registration_exact j m intent row old same_host \<longleftrightarrow>
     is_forced j \<and> same_host \<and> same_place m row
     \<and> be_bridge_identity row = be_bridge_identity old \<and> be_bridge_member row = be_bridge_member old
     \<and> be_handoff_id row = map_option (\<lambda>_. tm_handoff m) (aj_bridge_identity j)
     \<and> (case be_registration_id row of None \<Rightarrow> False | Some i \<Rightarrow> i \<noteq> 0)
     \<and> be_started_at row \<noteq> 0
     \<and> (case be_live_server row of None \<Rightarrow> False | Some t \<Rightarrow> t \<noteq> [])
     \<and> ri_authority intent = OwnedProcess (be_server_pid row)"

definition validate_registration ::
  "activation_journal \<Rightarrow> transaction_member \<Rightarrow> retirement_intent \<Rightarrow> broker_entry \<Rightarrow> journal_error + unit" where
  "validate_registration j m intent row =
     (case find (same_place m) (aj_old_registry j) of
        None \<Rightarrow> Inl (Inconsistent NoSavedRegistration)
      | Some old \<Rightarrow>
          rbind (host_of row) (\<lambda>h. rbind (host_of old) (\<lambda>h'.
          ensure (stopped_registration_exact j m intent row old (h = h')) (Inconsistent ForeignRegistration))))"

definition stopped_endpoint_ok :: "activation_api \<Rightarrow> retirement_intent \<Rightarrow> bool" where
  "stopped_endpoint_ok api intent \<longleftrightarrow>
     (case ri_endpoint intent of
        None \<Rightarrow> True
      | Some e \<Rightarrow> valid_recorded api e
          \<and> (case ri_registration intent of None \<Rightarrow> False | Some row \<Rightarrow> ei_path e = be_socket row))"

definition validate_intent ::
  "activation_api \<Rightarrow> activation_journal \<Rightarrow> transaction_member \<Rightarrow> retirement_intent \<Rightarrow> journal_error + unit" where
  "validate_intent api j m intent =
     rbind (validate_authority (ri_authority intent)) (\<lambda>_.
     rbind (opt_ok (validate_registration j m intent) (ri_registration intent)) (\<lambda>_.
     rbind (ensure (stopped_endpoint_ok api intent) (Inconsistent InvalidStoppedSocket)) (\<lambda>_.
     rbind (ensure (hex_id_is_valid (ri_receipt_id intent)) (Inconsistent ForeignStopRequest)) (\<lambda>_.
     rbind (derive_receipt_id api
              (journal_binding j m (ri_authority intent) (ri_registration intent) (ri_endpoint intent))) (\<lambda>receipt.
     ensure (ri_receipt_id intent = receipt) (Inconsistent ForeignStopRequest))))))"

definition bind_stopped_registration ::
  "activation_api \<Rightarrow> activation_journal \<Rightarrow> transaction_member \<Rightarrow> broker_entry \<Rightarrow> endpoint_identity option
   \<Rightarrow> retirement_intent \<Rightarrow> journal_error + retirement_intent" where
  "bind_stopped_registration api j m row endpoint intent =
     rbind (derive_receipt_id api (journal_binding j m (ri_authority intent) (Some row) endpoint)) (\<lambda>receipt.
     let intent' = intent\<lparr>ri_receipt_id := receipt, ri_registration := Some row, ri_endpoint := endpoint\<rparr> in
     rbind (validate_intent api j m intent') (\<lambda>_. Inr intent'))"

definition retirement_intent_of :: "transaction_member \<Rightarrow> journal_error + retirement_intent" where
  "retirement_intent_of m =
     (if tm_target m \<notin> {TargetRetireIntent, TargetRetired} then Inl (Inconsistent NoStopRequest)
      else ok_or (tm_target_retirement m) (Inconsistent NoStopRequest))"

section \<open>Members\<close>

definition member_identity_ok :: "activation_api \<Rightarrow> activation_journal \<Rightarrow> transaction_member \<Rightarrow> bool" where
  "member_identity_ok api j m \<longleftrightarrow>
     activation_member_id (tm_member m) = Inr (tm_member m)
     \<and> member_endpoint (tm_endpoint m) = Inr (tm_endpoint m)
     \<and> hex_id_is_valid (tm_id m)
     \<and> tm_id m = derive_member_id api (aj_activation_id j) (tm_member m)
     \<and> tm_handoff m \<noteq> 0"

definition forced_endpoint_ok :: "activation_api \<Rightarrow> transaction_member \<Rightarrow> forced_stop \<Rightarrow> bool" where
  "forced_endpoint_ok api m stop \<longleftrightarrow>
     (case fs_endpoint stop of None \<Rightarrow> True | Some e \<Rightarrow> ei_path e = tm_endpoint m \<and> valid_recorded api e)"

definition forced_row_ok :: "forced_stop \<Rightarrow> broker_entry \<Rightarrow> bool" where
  "forced_row_ok stop row \<longleftrightarrow>
     be_server_pid row = pi_process (fs_process stop)
     \<and> (case be_process_identity row of None \<Rightarrow> True | Some i \<Rightarrow> i = fs_process stop)
     \<and> (fs_endpoint stop = None \<longrightarrow> be_process_identity row = Some (fs_process stop))"

definition forced_stop_ok :: "activation_api \<Rightarrow> activation_journal \<Rightarrow> transaction_member \<Rightarrow> forced_stop \<Rightarrow> bool" where
  "forced_stop_ok api j m stop \<longleftrightarrow>
     forced_endpoint_ok api m stop
     \<and> (case filter (same_place m) (aj_old_registry j) of [row] \<Rightarrow> forced_row_ok stop row | _ \<Rightarrow> False)
     \<and> \<not> (fs_endpoint stop = None \<and> fs_proof stop = None \<and> \<not> authorizes_stored_peer (fs_process stop))
     \<and> (tm_old m = OldForceStopped) = (fs_proof stop \<noteq> None)
     \<and> tm_old m \<in> {OldPending, OldForceStopIntent, OldForceStopped}"

definition check_stop_kind :: "activation_api \<Rightarrow> activation_journal \<Rightarrow> transaction_member \<Rightarrow> journal_error + unit" where
  "check_stop_kind api j m =
     (if is_forced j
      then (case tm_forced_stop m of
              None \<Rightarrow> Inl (Inconsistent NoForcedIdentity)
            | Some stop \<Rightarrow> ensure (forced_stop_ok api j m stop) (Inconsistent ForeignForcedStop))
      else ensure (tm_old_record m \<noteq> None \<and> tm_forced_stop m = None
                   \<and> tm_old m \<notin> {OldForceStopIntent, OldForceStopped}) (Inconsistent NotCooperative))"

definition check_retirement :: "activation_api \<Rightarrow> activation_journal \<Rightarrow> transaction_member \<Rightarrow> journal_error + unit" where
  "check_retirement api j m =
     (if tm_target m \<in> {TargetRetireIntent, TargetRetired}
      then (case tm_target_retirement m of
              None \<Rightarrow> Inl (Inconsistent NoStopRequest)
            | Some intent \<Rightarrow> validate_intent api j m intent)
      else ensure (tm_target_retirement m = None) (Inconsistent UnexpectedStopRequest))"

fun check_members ::
  "activation_api \<Rightarrow> activation_journal \<Rightarrow> member_name list \<Rightarrow> handoff_id list \<Rightarrow> transaction_member list \<Rightarrow> journal_error + unit" where
  "check_members api j names handoffs [] = Inr ()"
| "check_members api j names handoffs (m # ms) =
     rbind (ensure (member_identity_ok api j m \<and> tm_member m \<notin> set names \<and> tm_handoff m \<notin> set handoffs)
              (Inconsistent InvalidMember)) (\<lambda>_.
     rbind (check_stop_kind api j m) (\<lambda>_.
     rbind (check_retirement api j m) (\<lambda>_.
     check_members api j (tm_member m # names) (tm_handoff m # handoffs) ms)))"

section \<open>The unit and its bridge\<close>

text \<open>\<open>MemberCensus::from_entries\<close>; the error carries the refused entry's session.\<close>

fun census_members :: "bridge_location \<Rightarrow> broker_entry list \<Rightarrow> str + str list" where
  "census_members identity [] = Inr []"
| "census_members identity (e # es) =
     (if be_bridge_identity e \<noteq> Some identity then Inl (be_discovery_key e)
      else case be_bridge_member e of
             None \<Rightarrow> Inl (be_discovery_key e)
           | Some m \<Rightarrow>
               if m \<noteq> be_discovery_key e then Inl (be_discovery_key e)
               else rbind (census_members identity es) (\<lambda>ms. Inr (m # ms)))"

definition census_from_entries :: "bridge_location \<Rightarrow> broker_entry list \<Rightarrow> str + str list" where
  "census_from_entries identity es =
     rbind (census_members identity es) (\<lambda>ms.
     let members = remdups_adj (sort ms) in if length members \<noteq> length (sort ms) then Inl [] else Inr members)"

fun bridge_member_ids :: "transaction_member list \<Rightarrow> journal_error + str list" where
  "bridge_member_ids [] = Inr []"
| "bridge_member_ids (m # ms) =
     rbind (bridge_member_id (tm_member m)) (\<lambda>b. rbind (bridge_member_ids ms) (\<lambda>bs. Inr (b # bs)))"

definition artifacts_ok :: "activation_journal \<Rightarrow> bridge_location \<Rightarrow> bridge_artifacts \<Rightarrow> bool" where
  "artifacts_ok j identity x \<longleftrightarrow>
     ba_activation (bx_old x) = aj_activation_id j \<and> ba_activation (bx_target x) = aj_activation_id j
     \<and> ba_role (bx_old x) = ArtifactOld \<and> ba_role (bx_target x) = ArtifactTarget
     \<and> br_bridge_identity (bx_receipt_preimage x) = identity
     \<and> br_installed_digest (bx_receipt_preimage x) = bx_old_digest x
     \<and> br_bridge_identity (bx_receipt_target x) = identity
     \<and> br_installed_digest (bx_receipt_target x) = bx_target_digest x
     \<and> br_previous_digest (bx_receipt_target x) = Some (bx_old_digest x)
     \<and> br_installed_version (bx_receipt_target x) = cr_muxe_version (aj_target_record j)
     \<and> br_bridge_compat (bx_receipt_target x) = cr_zellij (aj_target_record j)
     \<and> bx_receipt_rollback x = (bx_receipt_preimage x)\<lparr>br_previous_digest := Some (bx_target_digest x)\<rparr>"

definition reload_ok :: "member_transaction_id list \<Rightarrow> bridge_progress \<Rightarrow> bool" where
  "reload_ok ids b \<longleftrightarrow>
     (case reload_coverage b of
        None \<Rightarrow> True
      | Some (active, completed) \<Rightarrow>
          set_option active \<union> set completed \<subseteq> set ids
          \<and> set_option active \<inter> set completed = {} \<and> distinct completed)"

definition all_unmutated :: "transaction_member list \<Rightarrow> bool" where
  "all_unmutated ms \<longleftrightarrow> list_all (\<lambda>m. tm_old m = OldPending \<and> tm_target m = TargetAbsent) ms"

definition restored_ok :: "transaction_member list \<Rightarrow> bridge_progress \<Rightarrow> bool" where
  "restored_ok ms b \<longleftrightarrow>
     (case restored_coverage b of
        None \<Rightarrow> True
      | Some reloaded \<Rightarrow>
          (reloaded = [] \<and> all_unmutated ms)
          \<or> (length reloaded = length ms \<and> list_all (\<lambda>m. length (filter (\<lambda>i. i = tm_id m) reloaded) = 1) ms))"

definition check_zellij :: "activation_journal \<Rightarrow> bridge_unit_id \<Rightarrow> journal_error + unit" where
  "check_zellij j unit =
     rbind (ok_or (aj_bridge_identity j) MissingZellijAuthority) (\<lambda>identity.
     rbind (ok_or (aj_member_census j) MissingZellijAuthority) (\<lambda>census.
     rbind (ensure (bl_unit identity = unit) (Inconsistent ForeignBridgeUnit)) (\<lambda>_.
     rbind (bridge_member_ids (aj_members j)) (\<lambda>members.
     rbind (ensure (census = members) (Inconsistent ForeignCensus)) (\<lambda>_.
     rbind (ensure (census_from_entries identity (aj_old_registry j) = Inr census) (Inconsistent ForeignCensus)) (\<lambda>_.
     rbind (ok_or (aj_bridge j) (Inconsistent NoBridgeProgress)) (\<lambda>bridge.
     rbind (ensure (artifacts_ok j identity (bt_artifacts bridge)) (Inconsistent ForeignArtifacts)) (\<lambda>_.
     rbind (ensure (reload_ok (map tm_id (aj_members j)) (bt_progress bridge)) (Inconsistent ForeignReload)) (\<lambda>_.
     ensure (restored_ok (aj_members j) (bt_progress bridge)) (Inconsistent IncompleteRestore))))))))))"

definition herdr_unit_ok :: "str \<Rightarrow> bool" where
  "herdr_unit_ok host_hash \<longleftrightarrow> str_len host_hash = 32 \<and> is_lower_hex host_hash"

definition check_unit :: "activation_journal \<Rightarrow> journal_error + unit" where
  "check_unit j =
     (case aj_unit j of
        UnitZellij unit \<Rightarrow> check_zellij j unit
      | UnitHerdr host_hash \<Rightarrow>
          ensure (herdr_unit_ok host_hash \<and> aj_bridge_identity j = None \<and> aj_member_census j = None \<and> aj_bridge j = None)
            (Inconsistent InvalidHerdrUnit))"

section \<open>Progress and phase\<close>

fun old_fits :: "transaction_phase \<Rightarrow> old_progress set" where
  "old_fits (Preparing _) = {OldPending, OldPrepareIntent, OldDrained, OldForceStopIntent, OldForceStopped}"
| "old_fits (Activating _) = {OldDrained, OldForceStopped}"
| "old_fits (ReadyPhase _) = {OldDrained, OldForceStopped}"
| "old_fits (Committing _) = {OldDrained, OldCommitIntent, OldCommitted, OldForceStopped}"
| "old_fits (RollingBack _ _) = - {OldCommitIntent, OldCommitted}"
| "old_fits (Committed _) = {OldCommitted, OldForceStopped}"
| "old_fits (RolledBack _) = {OldPending, OldResumed}"
| "old_fits (ForcedRetry _ _) = {OldPending, OldForceStopped}"

fun target_fits :: "transaction_phase \<Rightarrow> target_progress set" where
  "target_fits (Preparing _) = {TargetAbsent}"
| "target_fits (Activating _) = {TargetAbsent, TargetSpawnIntent, TargetGated, TargetReady}"
| "target_fits (ReadyPhase _) = {TargetReady}"
| "target_fits (Committing _) = {TargetReady, TargetCommitIntent, TargetCommitted}"
| "target_fits (RollingBack _ _) = UNIV"
| "target_fits (Committed _) = {TargetCommitted}"
| "target_fits (RolledBack _) = {TargetAbsent, TargetRetired}"
| "target_fits (ForcedRetry _ _) = {TargetAbsent, TargetRetired}"

definition members_fit :: "activation_journal \<Rightarrow> bool" where
  "members_fit j \<longleftrightarrow>
     list_all (\<lambda>m. tm_old m \<in> old_fits (aj_transaction j) \<and> tm_target m \<in> target_fits (aj_transaction j)) (aj_members j)
     \<and> (phase_directive (aj_transaction j) = DirectRetryForce \<longrightarrow> is_forced j)"

definition targets_retired :: "activation_journal \<Rightarrow> bool" where
  "targets_retired j \<longleftrightarrow> list_all (\<lambda>m. tm_target m \<in> {TargetAbsent, TargetRetired}) (aj_members j)"

definition any_resuming :: "activation_journal \<Rightarrow> bool" where
  "any_resuming j \<longleftrightarrow> list_ex (\<lambda>m. tm_old m \<in> {OldResumeIntent, OldResumed}) (aj_members j)"

fun is_restored :: "bridge_progress \<Rightarrow> bool" where
  "is_restored (Restored _) \<longleftrightarrow> True"
| "is_restored _ \<longleftrightarrow> False"

fun restore_started :: "bridge_progress \<Rightarrow> bool" where
  "restore_started OldInstallIntent \<longleftrightarrow> True"
| "restore_started OldInstalled \<longleftrightarrow> True"
| "restore_started TargetPreviousIntent \<longleftrightarrow> True"
| "restore_started TargetPreviousPublished \<longleftrightarrow> True"
| "restore_started OldReceiptIntent \<longleftrightarrow> True"
| "restore_started OldReceiptPublished \<longleftrightarrow> True"
| "restore_started (OldReloading _ _) \<longleftrightarrow> True"
| "restore_started (Restored _) \<longleftrightarrow> True"
| "restore_started _ \<longleftrightarrow> False"

fun is_target_reloading :: "bridge_progress \<Rightarrow> bool" where
  "is_target_reloading (TargetReloading _ _) \<longleftrightarrow> True"
| "is_target_reloading _ \<longleftrightarrow> False"

definition bridge_fits :: "activation_journal \<Rightarrow> bridge_progress \<Rightarrow> bool" where
  "bridge_fits j b \<longleftrightarrow>
     (case aj_transaction j of
        Preparing _ \<Rightarrow> b = ArtifactsPending \<or> b = ArtifactsReady
      | Activating _ \<Rightarrow> b \<in> {ArtifactsReady, TargetInstallIntent, TargetInstalled, TargetReloaded} \<or> is_target_reloading b
      | ReadyPhase _ \<Rightarrow> b = TargetReloaded
      | Committing _ \<Rightarrow> b \<in> {TargetReloaded, PreviousPublishIntent, PreviousPublished, ReceiptIntent, ReceiptPublished}
      | RollingBack _ _ \<Rightarrow> (restore_started b \<longrightarrow> targets_retired j) \<and> (any_resuming j \<longrightarrow> is_restored b)
      | Committed _ \<Rightarrow> b = ReceiptPublished
      | RolledBack _ \<Rightarrow> is_restored b
      | ForcedRetry _ _ \<Rightarrow> is_restored b)"

definition rollback_barrier :: "activation_journal \<Rightarrow> bool" where
  "rollback_barrier j \<longleftrightarrow>
     (case aj_transaction j of RollingBack _ _ \<Rightarrow> targets_retired j \<or> \<not> any_resuming j | _ \<Rightarrow> True)"

definition progress_fits :: "activation_journal \<Rightarrow> bool" where
  "progress_fits j \<longleftrightarrow>
     members_fit j
     \<and> (case aj_bridge j of None \<Rightarrow> True | Some bridge \<Rightarrow> bridge_fits j (bt_progress bridge))
     \<and> rollback_barrier j"

section \<open>The readiness proof\<close>

definition incarnation_ok :: "activation_api \<Rightarrow> activation_journal \<Rightarrow> transaction_member \<Rightarrow> ready_member_proof \<Rightarrow> bool" where
  "incarnation_ok api j m p \<longleftrightarrow>
     (let zellij = is_zellij_unit (aj_unit j); e = rm_entry p in
      rm_member_id p = tm_id m \<and> rm_member_id p = derive_member_id api (aj_activation_id j) (tm_member m)
      \<and> (case be_registration_id e of None \<Rightarrow> False | Some i \<Rightarrow> i \<noteq> 0)
      \<and> be_server_pid e \<noteq> 0 \<and> be_started_at e \<noteq> 0
      \<and> be_host_kind e = lit (if zellij then ''zellij'' else ''herdr'')
      \<and> same_place m e
      \<and> be_handoff_id e = (if zellij then Some (tm_handoff m) else None)
      \<and> be_live_server e = Some (server_id_text (rm_server_id p)) \<and> server_id_text (rm_server_id p) \<noteq> []
      \<and> be_bridge_identity e = aj_bridge_identity j
      \<and> be_bridge_member e = (if zellij then Some (tm_member m) else None)
      \<and> (zellij \<longrightarrow> aj_bridge_identity j \<noteq> None))"

definition proof_unit_ok :: "activation_journal \<Rightarrow> ready_proof \<Rightarrow> bool" where
  "proof_unit_ok j p \<longleftrightarrow>
     (case aj_unit j of
        UnitZellij unit \<Rightarrow>
          rp_bridge_unit p = Some unit
          \<and> (case rp_epoch p of None \<Rightarrow> False | Some e \<Rightarrow> e \<noteq> 0)
          \<and> (case rp_as_of p of None \<Rightarrow> False | Some t \<Rightarrow> t \<noteq> 0)
          \<and> (case aj_bridge_identity j of None \<Rightarrow> False | Some i \<Rightarrow> bl_unit i = unit)
      | UnitHerdr _ \<Rightarrow> rp_bridge_unit p = None \<and> rp_epoch p = None \<and> rp_as_of p = None)"

definition expected_ids :: "activation_journal \<Rightarrow> member_transaction_id list" where
  "expected_ids j = sort (map tm_id (aj_members j))"

definition proof_ok :: "activation_api \<Rightarrow> activation_journal \<Rightarrow> ready_proof \<Rightarrow> bool" where
  "proof_ok api j p \<longleftrightarrow>
     proof_unit_ok j p \<and> rp_member_ids p = expected_ids j
     \<and> sort (map rm_member_id (rp_incarnations p)) = expected_ids j
     \<and> length (rp_incarnations p) = length (expected_ids j)
     \<and> list_all (\<lambda>q. case find (\<lambda>m. tm_id m = rm_member_id q) (aj_members j) of
                       None \<Rightarrow> False | Some m \<Rightarrow> incarnation_ok api j m q) (rp_incarnations p)"

definition proof_ok_legacy :: "activation_journal \<Rightarrow> ready_proof \<Rightarrow> bool" where
  "proof_ok_legacy j p \<longleftrightarrow>
     (case aj_unit j of
        UnitHerdr _ \<Rightarrow> False
      | UnitZellij unit \<Rightarrow>
          (case rp_epoch p of None \<Rightarrow> False | Some e \<Rightarrow> e \<noteq> 0)
          \<and> (case rp_as_of p of None \<Rightarrow> False | Some t \<Rightarrow> t \<noteq> 0)
          \<and> rp_bridge_unit p = Some unit \<and> rp_member_ids p = expected_ids j \<and> rp_incarnations p = [])"

definition new_ready_proof ::
  "activation_api \<Rightarrow> activation_journal \<Rightarrow> (readiness_epoch \<times> u64) option \<Rightarrow> ready_member_proof list
   \<Rightarrow> journal_error + ready_proof" where
  "new_ready_proof api j as_of incarnations =
     (let p = \<lparr>rp_epoch = map_option fst as_of,
               rp_bridge_unit = (case aj_unit j of UnitZellij unit \<Rightarrow> Some unit | UnitHerdr _ \<Rightarrow> None),
               rp_member_ids = expected_ids j, rp_as_of = map_option snd as_of, rp_incarnations = incarnations\<rparr>
      in if proof_ok api j p then Inr p else Inl (Inconsistent IncompleteReadiness))"

fun proof_phase :: "transaction_phase \<Rightarrow> bool" where
  "proof_phase (ReadyPhase _) \<longleftrightarrow> True"
| "proof_phase (Committing _) \<longleftrightarrow> True"
| "proof_phase (Committed _) \<longleftrightarrow> True"
| "proof_phase _ \<longleftrightarrow> False"

definition proof_fits :: "activation_api \<Rightarrow> activation_journal \<Rightarrow> bool" where
  "proof_fits api j \<longleftrightarrow>
     (let v = aj_schema_version j; phase = proof_phase (aj_transaction j) in
      case tp_ready_proof (aj_progress j) of
        Some p \<Rightarrow>
          if (v = 5 \<or> v = 6) \<and> phase then proof_ok api j p
          else v = 4 \<and> phase \<and> proof_ok_legacy j p
      | None \<Rightarrow>
          ((v = 5 \<or> v = 6) \<and> \<not> phase) \<or> (v = 4 \<and> (\<not> phase \<or> \<not> is_zellij_unit (aj_unit j))) \<or> v = 3)"

definition has_commit_certificate :: "activation_api \<Rightarrow> activation_journal \<Rightarrow> bool" where
  "has_commit_certificate api j \<longleftrightarrow>
     (aj_schema_version j = 5 \<or> aj_schema_version j = 6)
     \<and> (case tp_ready_proof (aj_progress j) of None \<Rightarrow> False | Some p \<Rightarrow> proof_ok api j p)"

section \<open>The validator\<close>

definition validate :: "activation_api \<Rightarrow> activation_journal \<Rightarrow> journal_error + unit" where
  "validate api j =
     rbind (ensure (aj_schema_version j \<in> {3, 4, JOURNAL_SCHEMA_VERSION, FORCED_JOURNAL_SCHEMA_VERSION})
              (UnsupportedVersion (aj_schema_version j))) (\<lambda>_.
     rbind (ensure (aj_members j \<noteq> []) (Inconsistent NoMembers)) (\<lambda>_.
     rbind (check_members api j [] [] (aj_members j)) (\<lambda>_.
     rbind (check_unit j) (\<lambda>_.
     rbind (ensure (proof_fits api j) (Inconsistent InvalidReadinessRecord)) (\<lambda>_.
     ensure (progress_fits j) (Inconsistent ConflictingProgress))))))"

definition valid_journal :: "activation_api \<Rightarrow> activation_journal \<Rightarrow> bool" where
  "valid_journal api j \<longleftrightarrow> validate api j = Inr ()"

section \<open>Construction and acknowledgements\<close>

definition new_journal ::
  "u64 \<Rightarrow> activation_id \<Rightarrow> unit_kind \<Rightarrow> compatibility_record \<Rightarrow> transaction_member list \<Rightarrow> journal_error + activation_journal" where
  "new_journal now activation unit target members =
     (if members = [] then Inl (Inconsistent NoMembers)
      else Inr \<lparr>aj_schema_version = JOURNAL_SCHEMA_VERSION, aj_activation_id = activation, aj_unit = unit,
                aj_bridge_identity = None, aj_member_census = None, aj_target_record = target,
                aj_old_registry = [],
                aj_transaction = Preparing \<lparr>tp_members = members, tp_bridge = None, tp_ready_proof = None\<rparr>,
                aj_recovery_deadline = now + RECOVERY_DEADLINE_SECS\<rparr>)"

definition bind_zellij_authority ::
  "bridge_location \<Rightarrow> str list \<Rightarrow> bridge_artifacts \<Rightarrow> activation_journal \<Rightarrow> journal_error + activation_journal" where
  "bind_zellij_authority identity census x j =
     (case aj_unit j of
        UnitHerdr _ \<Rightarrow> Inl (Inconsistent HerdrWithBridge)
      | UnitZellij unit \<Rightarrow>
          if unit \<noteq> bl_unit identity then Inl (Inconsistent ForeignBridgeUnit)
          else if ba_activation (bx_old x) \<noteq> aj_activation_id j \<or> ba_activation (bx_target x) \<noteq> aj_activation_id j
                  \<or> ba_role (bx_old x) \<noteq> ArtifactOld \<or> ba_role (bx_target x) \<noteq> ArtifactTarget
                  \<or> br_bridge_identity (bx_receipt_preimage x) \<noteq> identity
               then Inl (Inconsistent ForeignAuthority)
          else Inr (set_progress (\<lambda>p. p\<lparr>tp_bridge := Some \<lparr>bt_artifacts = x, bt_progress = ArtifactsPending\<rparr>\<rparr>)
                      (j\<lparr>aj_bridge_identity := Some identity, aj_member_census := Some census\<rparr>)))"

datatype recovery_ack = AckResumed | AckTargetRetired | AckOldCommitted | AckTargetCommitted

fun member_index :: "(transaction_member \<Rightarrow> bool) \<Rightarrow> transaction_member list \<Rightarrow> nat option" where
  "member_index P [] = None"
| "member_index P (x # xs) = (if P x then Some 0 else map_option Suc (member_index P xs))"

definition acknowledge_broker ::
  "member_name \<Rightarrow> handoff_id \<Rightarrow> recovery_ack \<Rightarrow> activation_journal \<Rightarrow> journal_error + activation_journal" where
  "acknowledge_broker key handoff ack j =
     (if directive j \<in> {DirectCleanupCommitted, DirectCleanupRolledBack} then Inl (Inconsistent AlreadyDecided)
      else case member_index (\<lambda>m. tm_member m = key \<and> tm_handoff m = handoff) (aj_members j) of
             None \<Rightarrow> Inl (Inconsistent UnknownBroker)
           | Some i \<Rightarrow>
               (case (directive j, ack) of
                  (DirectRollBack, AckResumed) \<Rightarrow>
                    if tm_old (aj_members j ! i) \<in> {OldResumeIntent, OldResumed} then Inr (set_old i OldResumed j)
                    else Inl (Inconsistent ForeignAcknowledgement)
                | (DirectCommit, AckOldCommitted) \<Rightarrow> Inr (set_old i OldCommitted j)
                | (DirectCommit, AckTargetCommitted) \<Rightarrow> Inr (set_target i TargetCommitted j)
                | _ \<Rightarrow> Inl (Inconsistent ForeignAcknowledgement)))"

section \<open>Permission to register\<close>

record registration_capability =
  rc_identity :: bridge_location
  rc_member :: str
  rc_endpoint :: path
  rc_discovery_key :: str
  rc_handoff_id :: handoff_id
  rc_admit_absent :: bool

definition names_member :: "str \<Rightarrow> path \<Rightarrow> handoff_id \<Rightarrow> transaction_member \<Rightarrow> bool" where
  "names_member key endpoint handoff m \<longleftrightarrow> tm_member m = key \<and> tm_endpoint m = endpoint \<and> tm_handoff m = handoff"

definition target_restore_capability ::
  "activation_api \<Rightarrow> str \<Rightarrow> path \<Rightarrow> handoff_id \<Rightarrow> activation_journal \<Rightarrow> journal_error + registration_capability" where
  "target_restore_capability api key endpoint handoff j =
     rbind (validate api j) (\<lambda>_.
     rbind (ok_or (aj_bridge_identity j) MissingZellijAuthority) (\<lambda>identity.
     rbind (bridge_member_id key) (\<lambda>member.
     rbind (ok_or (aj_member_census j) MissingZellijAuthority) (\<lambda>census.
     rbind (ensure (member \<in> set census \<and> list_ex (names_member key endpoint handoff) (aj_members j))
              (Inconsistent UnauthorizedTarget)) (\<lambda>_.
     Inr \<lparr>rc_identity = identity, rc_member = member, rc_endpoint = endpoint, rc_discovery_key = key,
          rc_handoff_id = handoff, rc_admit_absent = False\<rparr>)))))"

definition ended_by_force :: "str \<Rightarrow> path \<Rightarrow> handoff_id \<Rightarrow> transaction_member \<Rightarrow> bool" where
  "ended_by_force key endpoint handoff m \<longleftrightarrow>
     names_member key endpoint handoff m \<and> tm_old m = OldForceStopped
     \<and> (case tm_forced_stop m of None \<Rightarrow> False | Some stop \<Rightarrow> fs_proof stop \<noteq> None)"

definition target_registration_capability ::
  "activation_api \<Rightarrow> str \<Rightarrow> path \<Rightarrow> handoff_id \<Rightarrow> activation_journal \<Rightarrow> journal_error + registration_capability" where
  "target_registration_capability api key endpoint handoff j =
     (if directive j \<notin> {DirectPrepare, DirectActivate} then Inl (Inconsistent RegistrationNotAllowed)
      else rbind (target_restore_capability api key endpoint handoff j) (\<lambda>c.
        Inr (if is_forced j \<and> list_ex (ended_by_force key endpoint handoff) (aj_members j)
             then c\<lparr>rc_admit_absent := True\<rparr> else c)))"

end
