(* ===== verification/Activation_World.thy ===== *)
theory Activation_World
  imports Activation_Validate
begin

text \<open>
  What an activation works on (\<open>muxe/src/lifecycle/activate.rs\<close>): the record in memory and on disk,
  the child processes the coordinator owns, the answers of the outside world, and what the status of
  a broker proves.

  An operation maps a state to a result and a state. What the outside world says (sockets, files,
  processes) is a \<open>tx_env\<close>, asked in order: answer \<open>n\<close> is the one given to question \<open>n\<close>. The trace
  keeps every record that reached the disk, every external effect, and every refusal of the world.
  Texts of errors are left out; the texts that get into a record come from the environment.
\<close>

section \<open>States, answers and traces\<close>

datatype lifecycle_state = LifeRunning | LifePreparing | LifeDraining | LifeSupervisorOnly | LifeRetired

datatype activation_phase =
    PhLegacy | PhOrdinary | PhPreparing | PhDraining | PhSupervisorOnly | PhTargetGated | PhTargetCommitted | PhRetired

record activation_status =
  as_lifecycle :: lifecycle_state
  as_phase :: activation_phase
  as_live_server :: live_server_identity
  as_current :: compatibility_record
  as_target :: "compatibility_record option"
  as_handoff_id :: "handoff_id option"
  as_supports_handoff :: bool
  as_registration :: "(broker_registration_id \<times> u64) option"
  as_bridge_unit :: "bridge_unit_id option"

datatype activate_step =
    StepPreflightDone | StepJournalWritten | StepArtifactsReady | StepOldPrepared | StepTargetSpawned
  | StepBridgeSwapped | StepOldInstallApplied | StepReloadIssued | StepReadyVerified | StepReadinessRecorded
  | StepReceiptUpdated | StepTerminalWritten | StepTerminalCleaned | StepCommitted

datatype unit_failure =
    OutsideFailed | StatusMismatch | StaleReceipt | ProcessMissing | AuthorityMismatch | NotReloading
  | ForeignAction | MissingLocation | MissingArtifacts | UnresolvedForcedStop | RowsNotRestored
  | NotTerminal | MissingSession | RecordChanged | CommitRefused | NoCertificate | ReceiptMissing
  | Unfinished | NotAuthenticated

datatype activate_error =
    ErrJournal journal_error
  | ErrFault activate_step
  | ErrUnit unit_failure
  | ErrPanic

datatype tx_effect =
    EnsureArtifacts
  | PrepareOld member_transaction_id
  | RetireForced member_transaction_id
  | KillForced member_transaction_id
  | RemoveSocket member_transaction_id
  | SpawnTarget member_transaction_id
  | InstallTarget
  | ReloadTarget member_transaction_id
  | CommitOld member_transaction_id
  | CommitTarget member_transaction_id
  | PublishPrevious
  | PublishReceipt
  | StopTarget member_transaction_id
  | WriteStopReceipt member_transaction_id
  | InstallOld
  | PublishTargetPrevious
  | RestoreReceipt
  | ReloadOld member_transaction_id
  | RestoreRow member_transaction_id
  | ResumeOld member_transaction_id
  | RemoveReceipt member_transaction_id
  | RemoveArtifacts

datatype tx_event = Saved activation_journal | Did tx_effect | Removed | Refused

datatype write_answer = WriteDone | WriteLost | WriteUnsynced

record stop_receipt =
  sr_schema_version :: u32
  sr_binding :: "activation_id \<times> member_transaction_id \<times> launch_authority \<times> compatibility_record"
  sr_retirement :: retirement_intent

datatype receipt_file = ReceiptAbsent | ReceiptUnreadable | ReceiptCorrupt | ReceiptRead stop_receipt

record verified_status =
  vs_process :: u32
  vs_socket :: endpoint_identity
  vs_status :: activation_status

record tx_env =
  ev_api :: activation_api
  ev_write :: "nat \<Rightarrow> write_answer"
  ev_read :: "nat \<Rightarrow> bool"
  ev_ok :: "nat \<Rightarrow> bool"
  ev_status :: "nat \<Rightarrow> activation_status option"
  ev_reply :: "nat \<Rightarrow> activation_status option"
  ev_receipt :: "nat \<Rightarrow> receipt_file"
  ev_exists :: "nat \<Rightarrow> bool option"
  ev_publication :: "nat \<Rightarrow> broker_entry list option"
  ev_verified :: "nat \<Rightarrow> verified_status option"
  ev_old_receipt :: "nat \<Rightarrow> bool option"
  ev_reason :: "nat \<Rightarrow> str"
  ev_hook :: "activate_step option"

record owned_target =
  ot_member :: member_transaction_id
  ot_process :: u32
  ot_exit_observed :: bool
  ot_gated :: "(broker_entry \<times> endpoint_identity) option"

record tx_state =
  tx_journal :: activation_journal
  tx_disk :: "activation_journal option"
  tx_trace :: "tx_event list"
  tx_asked :: nat
  tx_scope :: unit_kind
  tx_owned :: "owned_target list"

type_synonym 'a tx = "tx_state \<Rightarrow> (activate_error + 'a) \<times> tx_state"

definition tret :: "'a \<Rightarrow> 'a tx" where
  "tret a s = (Inr a, s)"

definition tfail :: "activate_error \<Rightarrow> 'a tx" where
  "tfail e s = (Inl e, s)"

definition tbind :: "'a tx \<Rightarrow> ('a \<Rightarrow> 'b tx) \<Rightarrow> 'b tx" where
  "tbind m f s = (case m s of (Inl e, s') \<Rightarrow> (Inl e, s') | (Inr a, s') \<Rightarrow> f a s')"

definition tget :: "(tx_state \<Rightarrow> 'a) \<Rightarrow> 'a tx" where
  "tget f s = (Inr (f s), s)"

definition tmod :: "(tx_state \<Rightarrow> tx_state) \<Rightarrow> unit tx" where
  "tmod f s = (Inr (), f s)"

definition ask :: "(nat \<Rightarrow> 'a) \<Rightarrow> 'a tx" where
  "ask q s = (Inr (q (tx_asked s)), s\<lparr>tx_asked := tx_asked s + 1\<rparr>)"

definition log_event :: "tx_event \<Rightarrow> unit tx" where
  "log_event e = tmod (\<lambda>s. s\<lparr>tx_trace := tx_trace s @ [e]\<rparr>)"

text \<open>An error that comes from outside leaves a mark in the trace.\<close>

definition refuse_with :: "activate_error \<Rightarrow> 'a tx" where
  "refuse_with e = tbind (log_event Refused) (\<lambda>_. tfail e)"

definition tlift :: "journal_error + 'a \<Rightarrow> 'a tx" where
  "tlift r = (case r of Inl e \<Rightarrow> tfail (ErrJournal e) | Inr a \<Rightarrow> tret a)"

definition expect :: "'a option \<Rightarrow> activate_error \<Rightarrow> 'a tx" where
  "expect m e = (case m of None \<Rightarrow> tfail e | Some a \<Rightarrow> tret a)"

definition answered :: "'a option \<Rightarrow> activate_error \<Rightarrow> 'a tx" where
  "answered m e = (case m of None \<Rightarrow> refuse_with e | Some a \<Rightarrow> tret a)"

definition tcheck :: "bool \<Rightarrow> activate_error \<Rightarrow> unit tx" where
  "tcheck b e = (if b then tret () else tfail e)"

definition demand :: "bool \<Rightarrow> activate_error \<Rightarrow> unit tx" where
  "demand b e = (if b then tret () else refuse_with e)"

fun teach :: "('a \<Rightarrow> unit tx) \<Rightarrow> 'a list \<Rightarrow> unit tx" where
  "teach f [] = tret ()"
| "teach f (x # xs) = tbind (f x) (\<lambda>_. teach f xs)"

definition on_journal :: "(activation_journal \<Rightarrow> activation_journal) \<Rightarrow> unit tx" where
  "on_journal f = tmod (\<lambda>s. s\<lparr>tx_journal := f (tx_journal s)\<rparr>)"

section \<open>The record on disk\<close>

definition installed :: "tx_state \<Rightarrow> tx_state" where
  "installed s = s\<lparr>tx_disk := Some (tx_journal s), tx_trace := tx_trace s @ [Saved (tx_journal s)]\<rparr>"

definition write_journal :: "tx_env \<Rightarrow> unit tx" where
  "write_journal env =
     tbind (tget tx_journal) (\<lambda>j.
     tbind (tlift (validate (ev_api env) j)) (\<lambda>_.
     tbind (ask (ev_write env)) (\<lambda>answer.
     case answer of
       WriteDone \<Rightarrow> tmod installed
     | WriteLost \<Rightarrow> refuse_with (ErrJournal JournalFs)
     | WriteUnsynced \<Rightarrow> tbind (tmod installed) (\<lambda>_. refuse_with (ErrJournal JournalFs)))))"

text \<open>One external effect that either succeeds or is refused.\<close>

definition effect :: "tx_env \<Rightarrow> activate_error \<Rightarrow> tx_effect \<Rightarrow> unit tx" where
  "effect env e x = tbind (log_event (Did x)) (\<lambda>_. tbind (ask (ev_ok env)) (\<lambda>ok. demand ok e))"

definition hook :: "tx_env \<Rightarrow> activate_step \<Rightarrow> unit tx" where
  "hook env step = (if ev_hook env = Some step then refuse_with (ErrFault step) else tret ())"

definition TARGET_RECEIPT_SCHEMA_VERSION :: u32 where "TARGET_RECEIPT_SCHEMA_VERSION = 1"

definition expected_receipt :: "activation_journal \<Rightarrow> transaction_member \<Rightarrow> retirement_intent \<Rightarrow> stop_receipt" where
  "expected_receipt j m intent =
     \<lparr>sr_schema_version = TARGET_RECEIPT_SCHEMA_VERSION,
      sr_binding = (aj_activation_id j, tm_id m, tm_authority m, aj_target_record j),
      sr_retirement = intent\<rparr>"

definition has_stop_receipt :: "tx_env \<Rightarrow> activation_journal \<Rightarrow> transaction_member \<Rightarrow> bool tx" where
  "has_stop_receipt env j m =
     tbind (tlift (retirement_intent_of m)) (\<lambda>intent.
     tbind (ask (ev_receipt env)) (\<lambda>file.
     case file of
       ReceiptAbsent \<Rightarrow> tret False
     | ReceiptUnreadable \<Rightarrow> refuse_with (ErrJournal JournalFs)
     | ReceiptCorrupt \<Rightarrow> refuse_with (ErrJournal JournalCorrupt)
     | ReceiptRead receipt \<Rightarrow>
         tbind (tlift (validate_intent (ev_api env) j m intent)) (\<lambda>_.
         if receipt = expected_receipt j m intent then tret True
         else refuse_with (ErrJournal (Inconsistent ForeignStopRequest)))))"

definition write_stop_receipt :: "tx_env \<Rightarrow> activation_journal \<Rightarrow> transaction_member \<Rightarrow> unit tx" where
  "write_stop_receipt env j m =
     tbind (tlift (retirement_intent_of m)) (\<lambda>intent.
     tbind (tlift (validate_intent (ev_api env) j m intent)) (\<lambda>_.
     effect env (ErrJournal JournalFs) (WriteStopReceipt (tm_id m))))"

section \<open>What a status proves\<close>

definition status_attests_journal :: "activation_status \<Rightarrow> activation_journal \<Rightarrow> bool" where
  "status_attests_journal status j \<longleftrightarrow>
     (case (aj_unit j, aj_bridge_identity j) of
        (UnitZellij unit, Some identity) \<Rightarrow> bl_unit identity = unit \<and> as_bridge_unit status = Some unit
      | (UnitHerdr _, None) \<Rightarrow> as_bridge_unit status = None
      | _ \<Rightarrow> False)"

definition accepts_new_activation :: "activation_status \<Rightarrow> bool" where
  "accepts_new_activation status \<longleftrightarrow>
     as_lifecycle status = LifeRunning \<and> as_target status = None
     \<and> (case as_phase status of
          PhTargetCommitted \<Rightarrow> as_handoff_id status \<noteq> None
        | PhOrdinary \<Rightarrow> as_handoff_id status = None
        | PhLegacy \<Rightarrow> as_handoff_id status = None
        | _ \<Rightarrow> False)"

definition drains_for :: "activation_status \<Rightarrow> transaction_member \<Rightarrow> activation_journal \<Rightarrow> bool" where
  "drains_for status m j \<longleftrightarrow>
     as_lifecycle status = LifeDraining \<and> as_target status = Some (aj_target_record j)
     \<and> as_handoff_id status = Some (tm_handoff m)"

datatype prepare_resolution = ResolvedPending | ResolvedDrained
datatype resume_evidence = AlreadyResumed | NeedsResume

definition attests_member :: "activation_status \<Rightarrow> transaction_member \<Rightarrow> activation_journal \<Rightarrow> bool" where
  "attests_member status m j \<longleftrightarrow>
     ls_discovery_key (as_live_server status) = tm_member m \<and> status_attests_journal status j"

definition classify_prepare_status ::
  "activation_status \<Rightarrow> transaction_member \<Rightarrow> activation_journal \<Rightarrow> prepare_resolution option" where
  "classify_prepare_status status m j =
     (if \<not> attests_member status m j then None
      else if accepts_new_activation status \<and> tm_old_record m = Some (as_current status) then Some ResolvedPending
      else if drains_for status m j \<and> tm_old_record m = Some (as_current status) then Some ResolvedDrained
      else None)"

definition classify_target_status :: "activation_status \<Rightarrow> transaction_member \<Rightarrow> activation_journal \<Rightarrow> bool" where
  "classify_target_status status m j \<longleftrightarrow>
     attests_member status m j \<and> as_current status = aj_target_record j \<and> as_lifecycle status = LifeRunning
     \<and> as_target status = None \<and> as_handoff_id status = Some (tm_handoff m)"

definition classify_resume_status ::
  "activation_status \<Rightarrow> transaction_member \<Rightarrow> activation_journal \<Rightarrow> resume_evidence option" where
  "classify_resume_status status m j =
     (if \<not> attests_member status m j \<or> tm_old_record m \<noteq> Some (as_current status) then None
      else if accepts_new_activation status then Some AlreadyResumed
      else if drains_for status m j then Some NeedsResume
      else None)"

section \<open>The receipt of a stopped old broker\<close>

definition old_retirement_entry :: "activation_journal \<Rightarrow> transaction_member \<Rightarrow> journal_error + broker_entry" where
  "old_retirement_entry j m =
     (case filter (same_place m) (aj_old_registry j) of
        [row] \<Rightarrow>
          if (case be_registration_id row of None \<Rightarrow> True | Some i \<Rightarrow> i = 0) \<or> be_server_pid row = 0
             \<or> (case be_live_server row of None \<Rightarrow> True | Some t \<Rightarrow> t = [])
          then Inl (Inconsistent NoSavedRegistration) else Inr row
      | _ \<Rightarrow> Inl (Inconsistent NoSavedRegistration))"

definition has_old_receipt :: "tx_env \<Rightarrow> activation_journal \<Rightarrow> transaction_member \<Rightarrow> bool tx" where
  "has_old_receipt env j m =
     tbind (tlift (old_retirement_entry j m)) (\<lambda>_.
     tbind (ask (ev_old_receipt env)) (\<lambda>present. answered present (ErrJournal JournalFs)))"

section \<open>The end of a transaction\<close>

definition remove_stop_receipt :: "tx_env \<Rightarrow> activation_journal \<Rightarrow> transaction_member \<Rightarrow> unit tx" where
  "remove_stop_receipt env j m =
     tbind (has_stop_receipt env j m) (\<lambda>_. effect env (ErrJournal JournalFs) (RemoveReceipt (tm_id m)))"

definition remove_old_receipt :: "tx_env \<Rightarrow> activation_journal \<Rightarrow> transaction_member \<Rightarrow> unit tx" where
  "remove_old_receipt env j m =
     tbind (has_old_receipt env j m) (\<lambda>_. effect env (ErrJournal JournalFs) (RemoveReceipt (tm_id m)))"

definition removed :: "tx_state \<Rightarrow> tx_state" where
  "removed s = s\<lparr>tx_disk := None, tx_trace := tx_trace s @ [Removed]\<rparr>"

definition remove_journal :: "tx_env \<Rightarrow> unit tx" where
  "remove_journal env =
     tbind (ask (ev_write env)) (\<lambda>answer.
     case answer of
       WriteDone \<Rightarrow> tmod removed
     | WriteLost \<Rightarrow> refuse_with (ErrJournal JournalFs)
     | WriteUnsynced \<Rightarrow> tbind (tmod removed) (\<lambda>_. refuse_with (ErrJournal JournalFs)))"

definition outside :: activate_error where "outside = ErrUnit OutsideFailed"

definition cleanup_terminal :: "tx_env \<Rightarrow> unit tx" where
  "cleanup_terminal env =
     tbind (tget tx_journal) (\<lambda>j.
     tbind (tcheck (directive j \<in> {DirectCleanupCommitted, DirectCleanupRolledBack}) (ErrUnit NotTerminal)) (\<lambda>_.
     tbind (teach (remove_stop_receipt env j) (filter (\<lambda>m. tm_target m = TargetRetired) (aj_members j))) (\<lambda>_.
     tbind (teach (remove_old_receipt env j) (filter (\<lambda>m. tm_old m = OldCommitted) (aj_members j))) (\<lambda>_.
     tbind (if aj_bridge_identity j \<noteq> None \<and> aj_bridge j \<noteq> None then effect env outside RemoveArtifacts else tret ()) (\<lambda>_.
     remove_journal env)))))"

end
