(* ===== verification/Activation_Rollback.thy ===== *)
theory Activation_Rollback
  imports Activation_World
begin

text \<open>
  The rollback interpreter of an activation, \<open>muxe/src/lifecycle/activate.rs\<close>: the next action read
  off the record, the two actors that carry it out (the coordinator with its own child processes, and
  recovery over control sockets), the restoration of the bridge, and the loop that drives a record
  to its end.
\<close>

section \<open>The actors\<close>

record prepared_member =
  pm_socket :: path
  pm_handoff :: handoff_id
  pm_has_session :: bool

datatype actor =
    NormalActor "prepared_member list"
  | RecoveryActor "member_name option" "activation_status option" bool

text \<open>The test hooks belong to the coordinator's inputs; recovery has none.\<close>

fun actor_hook :: "tx_env \<Rightarrow> actor \<Rightarrow> activate_step \<Rightarrow> unit tx" where
  "actor_hook env (NormalActor _) step = hook env step"
| "actor_hook env (RecoveryActor _ _ _) step = tret ()"

fun can_resume :: "actor \<Rightarrow> transaction_member \<Rightarrow> bool" where
  "can_resume (NormalActor _) m \<longleftrightarrow> True"
| "can_resume (RecoveryActor local_member local_status local_can_resume) m \<longleftrightarrow>
     (case local_member of None \<Rightarrow> True | Some key \<Rightarrow> local_can_resume \<and> tm_member m = key)"

definition connect :: "tx_env \<Rightarrow> unit tx" where
  "connect env = tbind (ask (ev_ok env)) (\<lambda>ok. demand ok outside)"

definition query_status :: "tx_env \<Rightarrow> activation_status tx" where
  "query_status env = tbind (ask (ev_status env)) (\<lambda>st. answered st outside)"

definition fetch_status :: "tx_env \<Rightarrow> activation_status tx" where
  "fetch_status env = tbind (connect env) (\<lambda>_. query_status env)"

text \<open>A request that is sent and answered with a status.\<close>

definition request :: "tx_env \<Rightarrow> tx_effect \<Rightarrow> activation_status tx" where
  "request env x = tbind (log_event (Did x)) (\<lambda>_. tbind (ask (ev_reply env)) (\<lambda>st. answered st outside))"

definition mismatch :: activate_error where "mismatch = ErrUnit StatusMismatch"

definition prepared_for :: "transaction_member \<Rightarrow> prepared_member list \<Rightarrow> prepared_member option" where
  "prepared_for m = find (\<lambda>p. pm_socket p = tm_endpoint m)"

fun prepare_status :: "tx_env \<Rightarrow> actor \<Rightarrow> transaction_member \<Rightarrow> activation_status tx" where
  "prepare_status env (NormalActor prepared) m =
     (case prepared_for m prepared of
        Some p \<Rightarrow> if pm_has_session p then query_status env else tfail ErrPanic
      | None \<Rightarrow> fetch_status env)"
| "prepare_status env (RecoveryActor local_member local_status r) m =
     (if local_member = Some (tm_member m) then answered local_status (ErrUnit MissingSession)
      else fetch_status env)"

definition resolve_prepare :: "tx_env \<Rightarrow> actor \<Rightarrow> transaction_member \<Rightarrow> activation_journal \<Rightarrow> prepare_resolution tx" where
  "resolve_prepare env actor m j =
     tbind (prepare_status env actor m) (\<lambda>st. answered (classify_prepare_status st m j) mismatch)"

definition owned_of :: "member_transaction_id \<Rightarrow> owned_target list \<Rightarrow> owned_target option" where
  "owned_of i = find (\<lambda>t. ot_member t = i)"

definition check_scope :: "activation_journal \<Rightarrow> unit tx" where
  "check_scope j = tbind (tget tx_scope) (\<lambda>unit. tcheck (unit = aj_unit j) (ErrUnit AuthorityMismatch))"

definition owned_process :: "member_transaction_id \<Rightarrow> u32 option tx" where
  "owned_process i =
     tbind (tget tx_owned) (\<lambda>targets.
     case owned_of i targets of
       None \<Rightarrow> tret None
     | Some t \<Rightarrow> tbind (tlift (target_process_id (ot_process t))) (\<lambda>p. tret (Some p)))"

fun target_retirement_authority ::
  "tx_env \<Rightarrow> actor \<Rightarrow> transaction_member \<Rightarrow> activation_journal \<Rightarrow> retirement_authority tx" where
  "target_retirement_authority env (NormalActor _) m j =
     tbind (check_scope j) (\<lambda>_.
     tbind (owned_process (tm_id m)) (\<lambda>p.
     case p of None \<Rightarrow> tfail (ErrUnit ProcessMissing) | Some i \<Rightarrow> tret (OwnedProcess i)))"
| "target_retirement_authority env (RecoveryActor _ _ _) m j =
     tbind (fetch_status env) (\<lambda>st.
     tbind (demand (classify_target_status st m j) mismatch) (\<lambda>_.
     tret (RemoteServer (ls_server_id (as_live_server st)))))"

text \<open>\<open>None\<close>: there is no target; otherwise what may stop it.\<close>

fun resolve_target_spawn ::
  "tx_env \<Rightarrow> actor \<Rightarrow> transaction_member \<Rightarrow> activation_journal \<Rightarrow> retirement_authority option tx" where
  "resolve_target_spawn env (NormalActor _) m j =
     tbind (check_scope j) (\<lambda>_.
     tbind (owned_process (tm_id m)) (\<lambda>p. tret (map_option OwnedProcess p)))"
| "resolve_target_spawn env (RecoveryActor l st r) m j =
     tbind (target_retirement_authority env (RecoveryActor l st r) m j) (\<lambda>a. tret (Some a))"

definition observe_exit :: "member_transaction_id \<Rightarrow> unit tx" where
  "observe_exit i =
     tmod (\<lambda>s. s\<lparr>tx_owned := map (\<lambda>t. if ot_member t = i then t\<lparr>ot_exit_observed := True\<rparr> else t) (tx_owned s)\<rparr>)"

definition stop_owned :: "tx_env \<Rightarrow> member_transaction_id \<Rightarrow> u32 \<Rightarrow> unit tx" where
  "stop_owned env i p =
     tbind (tget tx_owned) (\<lambda>targets.
     tbind (expect (owned_of i targets) (ErrUnit ProcessMissing)) (\<lambda>t.
     tbind (tcheck (ot_process t = p) (ErrUnit AuthorityMismatch)) (\<lambda>_.
     tbind (effect env outside (StopTarget i)) (\<lambda>_. observe_exit i))))"

definition confirms_retired :: "activation_status \<Rightarrow> server_id \<Rightarrow> transaction_member \<Rightarrow> activation_journal \<Rightarrow> bool" where
  "confirms_retired st server m j \<longleftrightarrow>
     attests_member st m j \<and> ls_server_id (as_live_server st) = server \<and> as_current st = aj_target_record j
     \<and> as_lifecycle st = LifeRetired \<and> as_target st = None \<and> as_handoff_id st = None"

fun retire_target ::
  "tx_env \<Rightarrow> actor \<Rightarrow> transaction_member \<Rightarrow> activation_journal \<Rightarrow> retirement_authority \<Rightarrow> unit tx" where
  "retire_target env (NormalActor _) m j authority =
     tbind (check_scope j) (\<lambda>_.
     case authority of
       RemoteServer _ \<Rightarrow> tfail (ErrUnit AuthorityMismatch)
     | OwnedProcess p \<Rightarrow> stop_owned env (tm_id m) p)"
| "retire_target env (RecoveryActor _ _ _) m j authority =
     (case authority of
        OwnedProcess _ \<Rightarrow> tfail (ErrUnit AuthorityMismatch)
      | RemoteServer server \<Rightarrow>
          tbind (fetch_status env) (\<lambda>st.
          tbind (demand (classify_target_status st m j \<and> ls_server_id (as_live_server st) = server) mismatch) (\<lambda>_.
          tbind (request env (StopTarget (tm_id m))) (\<lambda>st'.
          demand (confirms_retired st' server m j) mismatch))))"

fun remove_first :: "('a \<Rightarrow> bool) \<Rightarrow> 'a list \<Rightarrow> 'a list" where
  "remove_first P [] = []"
| "remove_first P (x # xs) = (if P x then xs else x # remove_first P xs)"

fun release_retired_target :: "actor \<Rightarrow> transaction_member \<Rightarrow> unit tx" where
  "release_retired_target (NormalActor _) m =
     tbind (tget tx_owned) (\<lambda>targets.
     tbind (expect (owned_of (tm_id m) targets) (ErrUnit ProcessMissing)) (\<lambda>_.
     tmod (\<lambda>s. s\<lparr>tx_owned := remove_first (\<lambda>t. ot_member t = tm_id m) (tx_owned s)\<rparr>)))"
| "release_retired_target (RecoveryActor _ _ _) m = tret ()"

fun can_snapshot :: "actor \<Rightarrow> transaction_member \<Rightarrow> owned_target list \<Rightarrow> bool" where
  "can_snapshot (NormalActor _) m targets \<longleftrightarrow>
     list_ex (\<lambda>t. ot_member t = tm_id m \<and> (\<not> ot_exit_observed t \<or> ot_gated t \<noteq> None)) targets"
| "can_snapshot (RecoveryActor _ _ _) m targets \<longleftrightarrow> False"

definition verified_matches :: "verified_status \<Rightarrow> owned_target \<Rightarrow> transaction_member \<Rightarrow> broker_entry \<Rightarrow> bool" where
  "verified_matches v t m row \<longleftrightarrow>
     (let st = vs_status v in
      vs_process v = ot_process t \<and> be_server_pid row = ot_process t
      \<and> (case as_registration st of
           None \<Rightarrow> False
         | Some (i, started) \<Rightarrow> Some i = be_registration_id row \<and> started = be_started_at row)
      \<and> as_phase st = PhTargetGated \<and> as_handoff_id st = Some (tm_handoff m)
      \<and> ls_discovery_key (as_live_server st) = be_discovery_key row
      \<and> be_live_server row = Some (server_id_text (ls_server_id (as_live_server st)))
      \<and> as_bridge_unit st = map_option bl_unit (be_bridge_identity row))"

definition target_registration_endpoint ::
  "tx_env \<Rightarrow> transaction_member \<Rightarrow> broker_entry \<Rightarrow> endpoint_identity option tx" where
  "target_registration_endpoint env m row =
     tbind (tget tx_owned) (\<lambda>targets.
     tbind (expect (owned_of (tm_id m) targets) ErrPanic) (\<lambda>t.
     case ot_gated t of
       Some (entry, endpoint) \<Rightarrow> tbind (demand (entry = row) mismatch) (\<lambda>_. tret (Some endpoint))
     | None \<Rightarrow>
         if ot_exit_observed t then tret None
         else tbind (ask (ev_verified env)) (\<lambda>observed.
              case observed of
                None \<Rightarrow> tret None
              | Some v \<Rightarrow> tbind (demand (verified_matches v t m row) mismatch) (\<lambda>_. tret (Some (vs_socket v))))))"

datatype resume_disposition = ResumeCompleted | ResumeDeferred

definition resume_over_session ::
  "tx_env \<Rightarrow> transaction_member \<Rightarrow> activation_journal \<Rightarrow> resume_disposition tx" where
  "resume_over_session env m j =
     tbind (query_status env) (\<lambda>before.
     tbind (answered (classify_resume_status before m j) mismatch) (\<lambda>evidence.
     case evidence of
       AlreadyResumed \<Rightarrow> tret ResumeCompleted
     | NeedsResume \<Rightarrow>
         tbind (request env (ResumeOld (tm_id m))) (\<lambda>after.
         tbind (demand (classify_resume_status after m j = Some AlreadyResumed) mismatch) (\<lambda>_.
         tret ResumeCompleted))))"

fun resume_old :: "tx_env \<Rightarrow> actor \<Rightarrow> transaction_member \<Rightarrow> activation_journal \<Rightarrow> resume_disposition tx" where
  "resume_old env (NormalActor prepared) m j =
     (case prepared_for m prepared of
        None \<Rightarrow> tfail (ErrUnit MissingSession)
      | Some p \<Rightarrow> if pm_has_session p then resume_over_session env m j else tfail ErrPanic)"
| "resume_old env (RecoveryActor local_member local_status r) m j =
     (if local_member = Some (tm_member m)
      then tbind (answered local_status (ErrUnit MissingSession)) (\<lambda>st.
           tbind (answered (classify_resume_status st m j) mismatch) (\<lambda>evidence.
           case evidence of AlreadyResumed \<Rightarrow> tret ResumeCompleted | NeedsResume \<Rightarrow> tret ResumeDeferred))
      else tbind (connect env) (\<lambda>_. resume_over_session env m j))"

section \<open>The next action\<close>

datatype rollback_action =
    ResolvePrepare nat
  | ResolveTargetSpawn nat
  | RetireTarget nat
  | MarkBridgeRestored
  | InstallOldBridge
  | PublishTargetPreviousCopy
  | RestoreOldReceipt
  | BeginOldReload
  | ReloadOldBridge nat
  | CompleteBridgeRestore
  | ResumeOldBroker nat
  | AwaitingPeer
  | FinishRollback

fun member_action :: "nat \<Rightarrow> transaction_member list \<Rightarrow> rollback_action option" where
  "member_action i [] = None"
| "member_action i (m # ms) =
     (if tm_old m = OldPrepareIntent then Some (ResolvePrepare i)
      else if tm_target m = TargetSpawnIntent then Some (ResolveTargetSpawn i)
      else if tm_target m \<in> {TargetGated, TargetReady, TargetCommitIntent, TargetCommitted, TargetRetireIntent}
      then Some (RetireTarget i)
      else member_action (Suc i) ms)"

definition is_settled :: "old_progress \<Rightarrow> bool" where
  "is_settled o' \<longleftrightarrow> o' \<in> {OldPending, OldResumed, OldForceStopped}"

definition resume_action :: "actor \<Rightarrow> transaction_member list \<Rightarrow> rollback_action" where
  "resume_action actor ms =
     (case member_index (\<lambda>m. \<not> is_settled (tm_old m) \<and> can_resume actor m) ms of
        Some i \<Rightarrow> ResumeOldBroker i
      | None \<Rightarrow> if list_ex (\<lambda>m. \<not> is_settled (tm_old m)) ms then AwaitingPeer else FinishRollback)"

definition reload_action ::
  "transaction_member list \<Rightarrow> member_transaction_id option \<Rightarrow> member_transaction_id list \<Rightarrow> rollback_action" where
  "reload_action ms active completed =
     (case (case active of None \<Rightarrow> None | Some i \<Rightarrow> member_index (\<lambda>m. tm_id m = i) ms) of
        Some n \<Rightarrow> ReloadOldBridge n
      | None \<Rightarrow>
          (case member_index (\<lambda>m. tm_id m \<notin> set completed) ms of
             Some n \<Rightarrow> ReloadOldBridge n
           | None \<Rightarrow> CompleteBridgeRestore))"

definition bridge_action :: "actor \<Rightarrow> transaction_member list \<Rightarrow> bridge_progress \<Rightarrow> rollback_action" where
  "bridge_action actor ms b =
     (case b of
        ArtifactsPending \<Rightarrow> if all_unmutated ms then MarkBridgeRestored else InstallOldBridge
      | Restored _ \<Rightarrow> resume_action actor ms
      | OldInstalled \<Rightarrow> PublishTargetPreviousCopy
      | TargetPreviousIntent \<Rightarrow> PublishTargetPreviousCopy
      | TargetPreviousPublished \<Rightarrow> RestoreOldReceipt
      | OldReceiptIntent \<Rightarrow> RestoreOldReceipt
      | OldReceiptPublished \<Rightarrow> BeginOldReload
      | OldReloading active completed \<Rightarrow> reload_action ms active completed
      | _ \<Rightarrow> InstallOldBridge)"

definition next_rollback_action :: "actor \<Rightarrow> activation_journal \<Rightarrow> rollback_action" where
  "next_rollback_action actor j =
     (case member_action 0 (aj_members j) of
        Some a \<Rightarrow> a
      | None \<Rightarrow>
          (case aj_bridge j of
             Some bridge \<Rightarrow> bridge_action actor (aj_members j) (bt_progress bridge)
           | None \<Rightarrow> resume_action actor (aj_members j)))"

end
