(* ===== verification/Activation_Drive.thy ===== *)
theory Activation_Drive
  imports Activation_Rollback
begin

text \<open>
  Carrying the rollback out, \<open>muxe/src/lifecycle/activate.rs\<close>: each action writes its intent, acts, and
  writes what came of it; \<open>drive_rollback\<close> repeats that until the record is terminal, somebody else
  has to act, or something fails.
\<close>

section \<open>Restoring the bridge\<close>

definition save_bridge :: "tx_env \<Rightarrow> bridge_progress \<Rightarrow> unit tx" where
  "save_bridge env b = tbind (on_journal (set_bridge b)) (\<lambda>_. write_journal env)"

definition bridge_progress_of :: "activation_journal \<Rightarrow> bridge_progress option" where
  "bridge_progress_of j = map_option bt_progress (aj_bridge j)"

definition start_reload :: "member_transaction_id \<Rightarrow> activation_journal \<Rightarrow> activation_journal" where
  "start_reload i j =
     (case bridge_progress_of j of
        Some (OldReloading active completed) \<Rightarrow> set_bridge (OldReloading (Some i) completed) j
      | _ \<Rightarrow> j)"

definition finish_reload :: "member_transaction_id \<Rightarrow> activation_journal \<Rightarrow> activation_journal" where
  "finish_reload i j =
     (case bridge_progress_of j of
        Some (OldReloading active completed) \<Rightarrow>
          set_bridge (OldReloading None (if i \<in> set completed then completed else completed @ [i])) j
      | _ \<Rightarrow> j)"

definition reload_old_bridge :: "tx_env \<Rightarrow> nat \<Rightarrow> unit tx" where
  "reload_old_bridge env n =
     tbind (tget tx_journal) (\<lambda>j.
     let i = tm_id (aj_members j ! n) in
     tbind (on_journal (start_reload i)) (\<lambda>_.
     tbind (write_journal env) (\<lambda>_.
     tbind (effect env outside (ReloadOld i)) (\<lambda>_.
     tbind (on_journal (finish_reload i)) (\<lambda>_.
     write_journal env)))))"

definition complete_bridge_restore :: "tx_env \<Rightarrow> unit tx" where
  "complete_bridge_restore env =
     tbind (tget tx_journal) (\<lambda>j.
     case bridge_progress_of j of
       Some (OldReloading active completed) \<Rightarrow> save_bridge env (Restored completed)
     | _ \<Rightarrow> tfail (ErrUnit NotReloading))"

fun apply_bridge_action :: "tx_env \<Rightarrow> actor \<Rightarrow> rollback_action \<Rightarrow> unit tx" where
  "apply_bridge_action env actor MarkBridgeRestored = save_bridge env (Restored [])"
| "apply_bridge_action env actor InstallOldBridge =
     tbind (save_bridge env OldInstallIntent) (\<lambda>_.
     tbind (effect env outside InstallOld) (\<lambda>_.
     tbind (actor_hook env actor StepOldInstallApplied) (\<lambda>_.
     save_bridge env OldInstalled)))"
| "apply_bridge_action env actor PublishTargetPreviousCopy =
     tbind (save_bridge env TargetPreviousIntent) (\<lambda>_.
     tbind (effect env outside PublishTargetPrevious) (\<lambda>_.
     save_bridge env TargetPreviousPublished))"
| "apply_bridge_action env actor RestoreOldReceipt =
     tbind (save_bridge env OldReceiptIntent) (\<lambda>_.
     tbind (effect env outside RestoreReceipt) (\<lambda>_.
     save_bridge env OldReceiptPublished))"
| "apply_bridge_action env actor BeginOldReload = save_bridge env (OldReloading None [])"
| "apply_bridge_action env actor (ReloadOldBridge n) = reload_old_bridge env n"
| "apply_bridge_action env actor CompleteBridgeRestore = complete_bridge_restore env"
| "apply_bridge_action env actor _ = tfail (ErrUnit ForeignAction)"

definition apply_bridge_rollback_action :: "tx_env \<Rightarrow> actor \<Rightarrow> rollback_action \<Rightarrow> unit tx" where
  "apply_bridge_rollback_action env actor action =
     tbind (tget tx_journal) (\<lambda>j.
     tbind (tcheck (aj_bridge_identity j \<noteq> None) (ErrUnit MissingLocation)) (\<lambda>_.
     tbind (tcheck (aj_bridge j \<noteq> None) (ErrUnit MissingArtifacts)) (\<lambda>_.
     apply_bridge_action env actor action)))"

section \<open>Retiring a target\<close>

text \<open>\<open>Registry::hold_target_publication\<close> on the rows of the registry; \<open>None\<close> is a conflict.\<close>

definition publication_entry :: "launch_authority \<Rightarrow> u32 \<Rightarrow> broker_entry list \<Rightarrow> broker_entry option option" where
  "publication_entry authority p rows =
     (case filter (\<lambda>row. be_socket row = la_endpoint authority) rows of
        [] \<Rightarrow> Some None
      | [row] \<Rightarrow>
          if be_server_pid row \<noteq> p then Some None
          else if be_discovery_key row \<noteq> la_member authority then None
          else Some (Some row)
      | _ \<Rightarrow> None)"

text \<open>A check of what came from outside.\<close>

definition outside_result :: "journal_error + 'a \<Rightarrow> 'a tx" where
  "outside_result r = (case r of Inl e \<Rightarrow> refuse_with (ErrJournal e) | Inr a \<Rightarrow> tret a)"

definition snapshot_owned ::
  "tx_env \<Rightarrow> activation_journal \<Rightarrow> transaction_member \<Rightarrow> u32 \<Rightarrow> retirement_intent \<Rightarrow> retirement_intent tx" where
  "snapshot_owned env j m p intent =
     tbind (ask (ev_publication env)) (\<lambda>answer.
     tbind (answered answer outside) (\<lambda>rows.
     tbind (answered (publication_entry (tm_authority m) p rows) outside) (\<lambda>entry.
     case entry of
       None \<Rightarrow> tret intent
     | Some row \<Rightarrow>
         tbind (target_registration_endpoint env m row) (\<lambda>endpoint.
         outside_result (bind_stopped_registration (ev_api env) j m row endpoint intent)))))"

definition build_intent ::
  "tx_env \<Rightarrow> actor \<Rightarrow> activation_journal \<Rightarrow> transaction_member \<Rightarrow> retirement_authority \<Rightarrow> retirement_intent tx" where
  "build_intent env actor j m authority =
     tbind (outside_result (new_retirement_intent (ev_api env) j m authority)) (\<lambda>intent.
     tbind (tget tx_owned) (\<lambda>targets.
     case authority of
       OwnedProcess p \<Rightarrow>
         if is_forced j \<and> can_snapshot actor m targets then snapshot_owned env j m p intent else tret intent
     | RemoteServer _ \<Rightarrow> tret intent))"

definition no_receipt_yet :: "tx_env \<Rightarrow> unit tx" where
  "no_receipt_yet env =
     tbind (ask (ev_exists env)) (\<lambda>answer.
     tbind (answered answer (ErrJournal JournalFs)) (\<lambda>exists. demand (\<not> exists) (ErrUnit StaleReceipt)))"

definition declare_intent ::
  "tx_env \<Rightarrow> actor \<Rightarrow> nat \<Rightarrow> retirement_authority option \<Rightarrow> activation_journal \<Rightarrow> retirement_intent tx" where
  "declare_intent env actor n prepared j =
     tbind (case prepared of Some a \<Rightarrow> tret a | None \<Rightarrow> target_retirement_authority env actor (aj_members j ! n) j) (\<lambda>authority.
     tbind (build_intent env actor j (aj_members j ! n) authority) (\<lambda>intent.
     tbind (no_receipt_yet env) (\<lambda>_. tret intent)))"

definition set_intent :: "nat \<Rightarrow> target_progress \<Rightarrow> retirement_intent option \<Rightarrow> activation_journal \<Rightarrow> activation_journal" where
  "set_intent n t intent = update_member n (\<lambda>m. m\<lparr>tm_target := t, tm_target_retirement := intent\<rparr>)"

text \<open>The write of the intent; when it fails the record in memory is put back.\<close>

definition write_intent :: "tx_env \<Rightarrow> nat \<Rightarrow> retirement_intent \<Rightarrow> unit tx" where
  "write_intent env n intent =
     (\<lambda>s. let prior = tm_target (aj_members (tx_journal s) ! n) in
          case tbind (on_journal (set_intent n TargetRetireIntent (Some intent))) (\<lambda>_. write_journal env) s of
            (Inr u, s') \<Rightarrow> (Inr u, s')
          | (Inl e, s') \<Rightarrow> (Inl e, s'\<lparr>tx_journal := set_intent n prior None (tx_journal s')\<rparr>))"

definition execute_stop_on :: "tx_env \<Rightarrow> actor \<Rightarrow> activation_journal \<Rightarrow> transaction_member \<Rightarrow> bool \<Rightarrow> unit tx" where
  "execute_stop_on env actor j m replaying =
     tbind (has_stop_receipt env j m) (\<lambda>present.
     if present then demand replaying (ErrUnit StaleReceipt)
     else tbind (expect (tm_target_retirement m) ErrPanic) (\<lambda>intent.
          tbind (retire_target env actor m j (ri_authority intent)) (\<lambda>_.
          tbind (write_stop_receipt env j m) (\<lambda>_.
          release_retired_target actor m))))"

definition execute_stop :: "tx_env \<Rightarrow> actor \<Rightarrow> nat \<Rightarrow> bool \<Rightarrow> unit tx" where
  "execute_stop env actor n replaying =
     tbind (tget tx_journal) (\<lambda>j. execute_stop_on env actor j (aj_members j ! n) replaying)"

definition complete_target_retirement ::
  "tx_env \<Rightarrow> actor \<Rightarrow> nat \<Rightarrow> retirement_authority option \<Rightarrow> unit tx" where
  "complete_target_retirement env actor n prepared =
     tbind (tget tx_journal) (\<lambda>j.
     let replaying = (tm_target (aj_members j ! n) = TargetRetireIntent) in
     tbind (if replaying then tret ()
            else tbind (declare_intent env actor n prepared j) (write_intent env n)) (\<lambda>_.
     tbind (execute_stop env actor n replaying) (\<lambda>_.
     tbind (on_journal (set_target n TargetRetired)) (\<lambda>_.
     write_journal env))))"

section \<open>Registry rows and the end\<close>

definition restore_row :: "tx_env \<Rightarrow> activation_journal \<Rightarrow> transaction_member \<Rightarrow> unit tx" where
  "restore_row env j m =
     (case target_restore_capability (ev_api env) (tm_member m) (tm_endpoint m) (tm_handoff m) j of
        Inl e \<Rightarrow> tfail (ErrUnit RowsNotRestored)
      | Inr _ \<Rightarrow>
          tbind (expect (find (same_place m) (aj_old_registry j)) (ErrUnit RowsNotRestored)) (\<lambda>_.
          effect env (ErrUnit RowsNotRestored) (RestoreRow (tm_id m))))"

definition restore_old_registry_rows :: "tx_env \<Rightarrow> unit tx" where
  "restore_old_registry_rows env =
     tbind (tget tx_journal) (\<lambda>j.
     if is_forced j \<or> \<not> is_zellij_unit (aj_unit j) then tret ()
     else tbind (ask (ev_ok env)) (\<lambda>opened.
          tbind (demand opened (ErrUnit RowsNotRestored)) (\<lambda>_.
          teach (restore_row env j) (aj_members j))))"

datatype drive_outcome = DriveComplete | DriveResumeRequired | DriveAwaitingPeer

definition finish_rollback :: "tx_env \<Rightarrow> actor \<Rightarrow> drive_outcome tx" where
  "finish_rollback env actor =
     tbind (on_journal enter_rolled_back) (\<lambda>_.
     tbind (write_journal env) (\<lambda>_.
     tbind (actor_hook env actor StepTerminalWritten) (\<lambda>_.
     tbind (tget tx_journal) (\<lambda>j.
     if is_forced j then tret DriveComplete
     else tbind (cleanup_terminal env) (\<lambda>_.
          tbind (actor_hook env actor StepTerminalCleaned) (\<lambda>_. tret DriveComplete))))))"

section \<open>The loop\<close>

datatype loop_result = Continue bool | Stop drive_outcome

definition resolve_prepare_step :: "tx_env \<Rightarrow> actor \<Rightarrow> nat \<Rightarrow> unit tx" where
  "resolve_prepare_step env actor n =
     tbind (tget tx_journal) (\<lambda>j.
     tbind (resolve_prepare env actor (aj_members j ! n) j) (\<lambda>r.
     tbind (on_journal (set_old n (case r of ResolvedPending \<Rightarrow> OldPending | ResolvedDrained \<Rightarrow> OldDrained))) (\<lambda>_.
     write_journal env)))"

definition resolve_spawn_step :: "tx_env \<Rightarrow> actor \<Rightarrow> nat \<Rightarrow> unit tx" where
  "resolve_spawn_step env actor n =
     tbind (tget tx_journal) (\<lambda>j.
     tbind (resolve_target_spawn env actor (aj_members j ! n) j) (\<lambda>r.
     case r of
       None \<Rightarrow> tbind (on_journal (set_intent n TargetAbsent None)) (\<lambda>_. write_journal env)
     | Some authority \<Rightarrow> complete_target_retirement env actor n (Some authority)))"

definition resume_step :: "tx_env \<Rightarrow> actor \<Rightarrow> nat \<Rightarrow> bool \<Rightarrow> loop_result tx" where
  "resume_step env actor n restored =
     tbind (tget tx_journal) (\<lambda>j.
     tbind (if tm_old (aj_members j ! n) \<noteq> OldResumeIntent
            then tbind (on_journal (set_old n OldResumeIntent)) (\<lambda>_. write_journal env) else tret ()) (\<lambda>_.
     tbind (tget tx_journal) (\<lambda>j'.
     tbind (resume_old env actor (aj_members j' ! n) j') (\<lambda>r.
     case r of
       ResumeCompleted \<Rightarrow>
         tbind (on_journal (set_old n OldResumed)) (\<lambda>_. tbind (write_journal env) (\<lambda>_. tret (Continue restored)))
     | ResumeDeferred \<Rightarrow> tret (Stop DriveResumeRequired)))))"

fun perform_action :: "tx_env \<Rightarrow> actor \<Rightarrow> bool \<Rightarrow> rollback_action \<Rightarrow> loop_result tx" where
  "perform_action env actor r (ResolvePrepare n) = tbind (resolve_prepare_step env actor n) (\<lambda>_. tret (Continue r))"
| "perform_action env actor r (ResolveTargetSpawn n) = tbind (resolve_spawn_step env actor n) (\<lambda>_. tret (Continue r))"
| "perform_action env actor r (RetireTarget n) =
     tbind (complete_target_retirement env actor n None) (\<lambda>_. tret (Continue r))"
| "perform_action env actor r (ResumeOldBroker n) = resume_step env actor n r"
| "perform_action env actor r AwaitingPeer = tret (Stop DriveAwaitingPeer)"
| "perform_action env actor r FinishRollback = tbind (finish_rollback env actor) (\<lambda>out. tret (Stop out))"
| "perform_action env actor r a = tbind (apply_bridge_rollback_action env actor a) (\<lambda>_. tret (Continue r))"

fun needs_rows :: "rollback_action \<Rightarrow> bool" where
  "needs_rows (ResumeOldBroker _) \<longleftrightarrow> True"
| "needs_rows FinishRollback \<longleftrightarrow> True"
| "needs_rows AwaitingPeer \<longleftrightarrow> True"
| "needs_rows _ \<longleftrightarrow> False"

definition rollback_step :: "tx_env \<Rightarrow> actor \<Rightarrow> bool \<Rightarrow> loop_result tx" where
  "rollback_step env actor restored =
     tbind (tget tx_journal) (\<lambda>j.
     let action = next_rollback_action actor j in
     if needs_rows action \<and> \<not> restored
     then tbind (restore_old_registry_rows env) (\<lambda>_. perform_action env actor True action)
     else perform_action env actor restored action)"

end
