(* ===== verification/Activation_Loop.thy ===== *)
theory Activation_Loop
  imports Activation_Drive
begin

text \<open>
  The rollback loop terminates whatever the world answers: every turn that goes on has settled a
  member or moved the bridge one stage nearer to its restoration. The weakest preconditions of the
  operations are here too; the later proofs are runs of the simplifier over them.
\<close>

section \<open>Weakest preconditions\<close>

named_theorems wp_simps \<open>weakest preconditions of the operations\<close>

definition wp :: "'a tx \<Rightarrow> ('a \<Rightarrow> tx_state \<Rightarrow> bool) \<Rightarrow> (activate_error \<Rightarrow> tx_state \<Rightarrow> bool) \<Rightarrow> tx_state \<Rightarrow> bool" where
  "wp m Q E s = (case m s of (Inr a, s') \<Rightarrow> Q a s' | (Inl e, s') \<Rightarrow> E e s')"

lemma wp_mono: "wp m Q E s \<Longrightarrow> (\<And>a t. Q a t \<Longrightarrow> Q' a t) \<Longrightarrow> (\<And>e t. E e t \<Longrightarrow> E' e t) \<Longrightarrow> wp m Q' E' s"
  by (auto simp: wp_def split: prod.splits sum.splits)

lemma wp_conj: "wp m Q E s \<Longrightarrow> wp m Q' E' s \<Longrightarrow> wp m (\<lambda>a t. Q a t \<and> Q' a t) (\<lambda>e t. E e t \<and> E' e t) s"
  by (auto simp: wp_def split: prod.splits sum.splits)

lemma wp_result: "wp m Q E s \<Longrightarrow> m s = (Inr a, t) \<Longrightarrow> Q a t"
  by (simp add: wp_def)

lemma wp_error: "wp m Q E s \<Longrightarrow> m s = (Inl e, t) \<Longrightarrow> E e t"
  by (simp add: wp_def)

lemma wp_ret [wp_simps]: "wp (tret a) Q E s = Q a s"
  by (simp add: wp_def tret_def)

lemma wp_fail [wp_simps]: "wp (tfail e) Q E s = E e s"
  by (simp add: wp_def tfail_def)

lemma wp_bind [wp_simps]: "wp (tbind m f) Q E s = wp m (\<lambda>a. wp (f a) Q E) E s"
  by (simp add: wp_def tbind_def split: prod.splits sum.splits)

lemma wp_get [wp_simps]: "wp (tget f) Q E s = Q (f s) s"
  by (simp add: wp_def tget_def)

lemma wp_mod [wp_simps]: "wp (tmod f) Q E s = Q () (f s)"
  by (simp add: wp_def tmod_def)

lemma wp_ask [wp_simps]: "wp (ask q) Q E s = Q (q (tx_asked s)) (s\<lparr>tx_asked := tx_asked s + 1\<rparr>)"
  by (simp add: wp_def ask_def)

lemma wp_log [wp_simps]: "wp (log_event e) Q E s = Q () (s\<lparr>tx_trace := tx_trace s @ [e]\<rparr>)"
  by (simp add: log_event_def wp_simps)

lemma wp_refuse [wp_simps]: "wp (refuse_with e) Q E s = E e (s\<lparr>tx_trace := tx_trace s @ [Refused]\<rparr>)"
  by (simp add: refuse_with_def wp_simps)

lemma wp_lift [wp_simps]: "wp (tlift r) Q E s = (case r of Inl e \<Rightarrow> E (ErrJournal e) s | Inr a \<Rightarrow> Q a s)"
  by (simp add: tlift_def wp_simps split: sum.splits)

lemma wp_expect [wp_simps]: "wp (expect m e) Q E s = (case m of None \<Rightarrow> E e s | Some a \<Rightarrow> Q a s)"
  by (simp add: expect_def wp_simps split: option.splits)

lemma wp_answered [wp_simps]:
  "wp (answered m e) Q E s = (case m of None \<Rightarrow> E e (s\<lparr>tx_trace := tx_trace s @ [Refused]\<rparr>) | Some a \<Rightarrow> Q a s)"
  by (simp add: answered_def wp_simps split: option.splits)

lemma wp_check [wp_simps]: "wp (tcheck b e) Q E s = (if b then Q () s else E e s)"
  by (simp add: tcheck_def wp_simps)

lemma wp_demand [wp_simps]:
  "wp (demand b e) Q E s = (if b then Q () s else E e (s\<lparr>tx_trace := tx_trace s @ [Refused]\<rparr>))"
  by (simp add: demand_def wp_simps)

lemma wp_journal [wp_simps]: "wp (on_journal f) Q E s = Q () (s\<lparr>tx_journal := f (tx_journal s)\<rparr>)"
  by (simp add: on_journal_def wp_simps)

lemma wp_if [wp_simps]: "wp (if b then m else n) Q E s = (if b then wp m Q E s else wp n Q E s)"
  by simp

text \<open>A loop keeps what each of its rounds keeps.\<close>

lemma wp_each:
  assumes "\<And>x t. x \<in> set xs \<Longrightarrow> I t \<Longrightarrow> wp (f x) (\<lambda>_. I) E t" and "I s"
  shows "wp (teach f xs) (\<lambda>_. I) E s"
  using assms
proof (induction xs arbitrary: s)
  case (Cons x xs)
  have "wp (f x) (\<lambda>_. I) E s" using Cons.prems by simp
  then show ?case
    unfolding teach.simps wp_simps
  proof (rule wp_mono)
    fix a t assume "I t"
    with Cons.prems(1) show "wp (teach f xs) (\<lambda>_. I) E t" by (intro Cons.IH) simp_all
  qed
qed (simp add: wp_simps)

section \<open>Operations that leave the record alone\<close>

text \<open>
  \<open>leaves A m\<close>: whatever \<open>m\<close> does, the records in memory and on disk stay, and what it adds to the
  trace are refusals and effects of \<open>A\<close>.
\<close>

definition leaves :: "tx_effect set \<Rightarrow> 'a tx \<Rightarrow> bool" where
  "leaves A m \<longleftrightarrow>
     (\<forall>s. let t = snd (m s) in
       tx_journal t = tx_journal s \<and> tx_disk t = tx_disk s \<and> tx_scope t = tx_scope s
       \<and> (\<exists>es. tx_trace t = tx_trace s @ es \<and> set es \<subseteq> insert Refused (Did ` A)))"

named_theorems leaves_intros \<open>rules for \<open>leaves\<close>\<close>

lemma leaves_ret [leaves_intros]: "leaves A (tret a)"
  by (simp add: leaves_def tret_def)

lemma leaves_fail [leaves_intros]: "leaves A (tfail e)"
  by (simp add: leaves_def tfail_def)

lemma leaves_get [leaves_intros]: "leaves A (tget f)"
  by (simp add: leaves_def tget_def)

lemma leaves_ask [leaves_intros]: "leaves A (ask q)"
  by (simp add: leaves_def ask_def Let_def)

lemma leaves_bind [leaves_intros]:
  assumes "leaves A m" and "\<And>a. leaves A (f a)"
  shows "leaves A (tbind m f)"
  unfolding leaves_def Let_def
proof (intro allI)
  fix s
  obtain r t where m: "m s = (r, t)" by (cases "m s")
  from assms(1) [unfolded leaves_def Let_def, rule_format, of s] m
  obtain es where t: "tx_journal t = tx_journal s" "tx_disk t = tx_disk s" "tx_scope t = tx_scope s"
    "tx_trace t = tx_trace s @ es" "set es \<subseteq> insert Refused (Did ` A)" by auto
  show "tx_journal (snd (tbind m f s)) = tx_journal s \<and> tx_disk (snd (tbind m f s)) = tx_disk s
    \<and> tx_scope (snd (tbind m f s)) = tx_scope s
    \<and> (\<exists>es. tx_trace (snd (tbind m f s)) = tx_trace s @ es \<and> set es \<subseteq> insert Refused (Did ` A))"
  proof (cases r)
    case (Inl e)
    with m t show ?thesis by (auto simp: tbind_def)
  next
    case (Inr a)
    from assms(2) [of a, unfolded leaves_def Let_def, rule_format, of t] m t Inr
    show ?thesis by (auto simp: tbind_def)
  qed
qed

lemma leaves_log: "e = Refused \<or> e \<in> Did ` A \<Longrightarrow> leaves A (log_event e)"
  by (auto simp: leaves_def log_event_def tmod_def Let_def)

lemma leaves_refuse [leaves_intros]: "leaves A (refuse_with e)"
  unfolding refuse_with_def by (intro leaves_bind leaves_log leaves_fail) simp

lemma leaves_lift [leaves_intros]: "leaves A (tlift r)"
  by (cases r) (simp_all add: tlift_def leaves_intros)

lemma leaves_expect [leaves_intros]: "leaves A (expect m e)"
  by (cases m) (simp_all add: expect_def leaves_intros)

lemma leaves_answered [leaves_intros]: "leaves A (answered m e)"
  by (cases m) (simp_all add: answered_def leaves_intros)

lemma leaves_check [leaves_intros]: "leaves A (tcheck b e)"
  by (simp add: tcheck_def leaves_intros)

lemma leaves_demand [leaves_intros]: "leaves A (demand b e)"
  by (simp add: demand_def leaves_intros)

lemma leaves_effect [leaves_intros]: "x \<in> A \<Longrightarrow> leaves A (effect env e x)"
  unfolding effect_def by (intro leaves_bind leaves_log leaves_intros) auto

lemma leaves_request [leaves_intros]: "x \<in> A \<Longrightarrow> leaves A (request env x)"
  unfolding request_def by (intro leaves_bind leaves_log leaves_intros) auto

lemma leaves_hook [leaves_intros]: "leaves A (hook env step)"
  by (simp add: hook_def leaves_intros)

lemma leaves_actor_hook [leaves_intros]: "leaves A (actor_hook env actor step)"
  by (cases actor) (simp_all add: leaves_intros)

lemma leaves_teach [leaves_intros]: "(\<And>x. x \<in> set xs \<Longrightarrow> leaves A (f x)) \<Longrightarrow> leaves A (teach f xs)"
  by (induction xs) (auto intro!: leaves_intros)

lemma leaves_owned [leaves_intros]: "leaves A (tmod (\<lambda>s. s\<lparr>tx_owned := f (tx_owned s)\<rparr>))"
  by (simp add: leaves_def tmod_def Let_def)

lemma wp_leaves:
  assumes "leaves A m"
    and "\<And>t es. tx_journal t = tx_journal s \<Longrightarrow> tx_disk t = tx_disk s \<Longrightarrow> tx_scope t = tx_scope s
          \<Longrightarrow> tx_trace t = tx_trace s @ es \<Longrightarrow> set es \<subseteq> insert Refused (Did ` A) \<Longrightarrow> I t"
  shows "wp m (\<lambda>_. I) (\<lambda>_. I) s"
proof -
  obtain r t where m: "m s = (r, t)" by (cases "m s")
  have "I t" using assms(1) [unfolded leaves_def Let_def, rule_format, of s] assms(2) [of t] m by auto
  with m show ?thesis by (simp add: wp_def split: sum.splits)
qed

lemma leaves_connect [leaves_intros]: "leaves A (connect env)" "leaves A (query_status env)" "leaves A (fetch_status env)"
  by (simp_all add: connect_def query_status_def fetch_status_def leaves_intros)

lemma leaves_has_receipt [leaves_intros]: "leaves A (has_stop_receipt env j m)"
  unfolding has_stop_receipt_def
  by (intro leaves_intros) (auto split: receipt_file.split intro!: leaves_intros)

lemma leaves_has_old [leaves_intros]: "leaves A (has_old_receipt env j m)"
  unfolding has_old_receipt_def by (intro leaves_intros)

lemma leaves_write_receipt [leaves_intros]: "WriteStopReceipt (tm_id m) \<in> A \<Longrightarrow> leaves A (write_stop_receipt env j m)"
  unfolding write_stop_receipt_def by (intro leaves_intros)

lemma leaves_prepare_status [leaves_intros]: "leaves A (prepare_status env actor m)"
  by (cases actor) (auto intro!: leaves_intros split: option.split)

lemma leaves_resolve_prepare [leaves_intros]: "leaves A (resolve_prepare env actor m j)"
  unfolding resolve_prepare_def by (intro leaves_intros)

lemma leaves_scope [leaves_intros]: "leaves A (check_scope j)"
  unfolding check_scope_def by (intro leaves_intros)

lemma leaves_owned_process [leaves_intros]: "leaves A (owned_process i)"
  unfolding owned_process_def by (intro leaves_intros) (auto intro!: leaves_intros split: option.split)

lemma leaves_authority [leaves_intros]: "leaves A (target_retirement_authority env actor m j)"
  by (cases actor) (auto intro!: leaves_intros split: option.split)

lemma leaves_spawn [leaves_intros]: "leaves A (resolve_target_spawn env actor m j)"
  by (cases actor) (auto intro!: leaves_intros simp del: target_retirement_authority.simps)

lemma leaves_stop_owned [leaves_intros]: "StopTarget i \<in> A \<Longrightarrow> leaves A (stop_owned env i p)"
  unfolding stop_owned_def observe_exit_def by (intro leaves_intros)

lemma leaves_retire [leaves_intros]: "StopTarget (tm_id m) \<in> A \<Longrightarrow> leaves A (retire_target env actor m j authority)"
  by (cases actor; cases authority) (auto intro!: leaves_intros)

lemma leaves_release [leaves_intros]: "leaves A (release_retired_target actor m)"
  by (cases actor) (auto intro!: leaves_intros)

lemma leaves_endpoint [leaves_intros]: "leaves A (target_registration_endpoint env m row)"
  unfolding target_registration_endpoint_def
  by (intro leaves_intros) (auto intro!: leaves_intros split: option.split)

lemma leaves_resume_session [leaves_intros]: "ResumeOld (tm_id m) \<in> A \<Longrightarrow> leaves A (resume_over_session env m j)"
  unfolding resume_over_session_def
  by (intro leaves_intros) (auto intro!: leaves_intros split: resume_evidence.split)

lemma leaves_resume [leaves_intros]: "ResumeOld (tm_id m) \<in> A \<Longrightarrow> leaves A (resume_old env actor m j)"
  by (cases actor) (auto intro!: leaves_intros split: option.split resume_evidence.split)

lemma leaves_outside [leaves_intros]: "leaves A (outside_result r)"
  by (cases r) (simp_all add: outside_result_def leaves_intros)

lemma leaves_snapshot [leaves_intros]: "leaves A (snapshot_owned env j m p intent)"
  unfolding snapshot_owned_def
  by (intro leaves_intros) (auto intro!: leaves_intros split: option.split sum.split)

lemma leaves_build [leaves_intros]: "leaves A (build_intent env actor j m authority)"
  unfolding build_intent_def
  by (intro leaves_intros) (auto intro!: leaves_intros split: retirement_authority.split)

lemma leaves_declare [leaves_intros]: "leaves A (declare_intent env actor n prepared j)"
  unfolding declare_intent_def no_receipt_yet_def
  by (intro leaves_intros) (auto intro!: leaves_intros split: option.split)

lemma leaves_execute [leaves_intros]:
  "(\<And>i. StopTarget i \<in> A) \<Longrightarrow> (\<And>i. WriteStopReceipt i \<in> A) \<Longrightarrow> leaves A (execute_stop env actor n replaying)"
  unfolding execute_stop_def execute_stop_on_def by (intro leaves_intros) (auto intro!: leaves_intros)

lemma leaves_restore_row [leaves_intros]: "RestoreRow (tm_id m) \<in> A \<Longrightarrow> leaves A (restore_row env j m)"
  unfolding restore_row_def by (auto intro!: leaves_intros split: sum.split)

lemma leaves_restore_rows [leaves_intros]: "(\<And>i. RestoreRow i \<in> A) \<Longrightarrow> leaves A (restore_old_registry_rows env)"
  unfolding restore_old_registry_rows_def by (intro leaves_intros) (auto intro!: leaves_intros)

section \<open>The measure of the work left\<close>

fun old_work :: "old_progress \<Rightarrow> nat" where
  "old_work OldPending = 0"
| "old_work OldResumed = 0"
| "old_work OldForceStopped = 0"
| "old_work OldPrepareIntent = 2"
| "old_work _ = 1"

definition target_work :: "target_progress \<Rightarrow> nat" where
  "target_work t = (if t \<in> {TargetAbsent, TargetRetired} then 0 else 1)"

definition unloaded :: "transaction_member list \<Rightarrow> member_transaction_id list \<Rightarrow> nat" where
  "unloaded ms completed = length (filter (\<lambda>m. tm_id m \<notin> set completed) ms)"

definition bridge_work :: "transaction_member list \<Rightarrow> bridge_progress \<Rightarrow> nat" where
  "bridge_work ms b =
     (case b of
        Restored _ \<Rightarrow> 0
      | OldReloading active completed \<Rightarrow> 1 + 2 * unloaded ms completed + (if active = None then 0 else 1)
      | OldReceiptPublished \<Rightarrow> 3 + 2 * length ms
      | TargetPreviousPublished \<Rightarrow> 4 + 2 * length ms
      | OldReceiptIntent \<Rightarrow> 4 + 2 * length ms
      | OldInstalled \<Rightarrow> 5 + 2 * length ms
      | TargetPreviousIntent \<Rightarrow> 5 + 2 * length ms
      | _ \<Rightarrow> 6 + 2 * length ms)"

definition member_work :: "transaction_member \<Rightarrow> nat" where
  "member_work m = old_work (tm_old m) + target_work (tm_target m)"

definition rollback_work :: "activation_journal \<Rightarrow> nat" where
  "rollback_work j =
     sum_list (map member_work (aj_members j))
     + (case bridge_progress_of j of None \<Rightarrow> 0 | Some b \<Rightarrow> bridge_work (aj_members j) b)"

section \<open>How the record changes\<close>

lemma progress_with [simp]: "phase_progress (with_progress ph p) = p"
  by (cases ph) simp_all

lemma aj_progress_set [simp]: "aj_progress (set_progress f j) = f (aj_progress j)"
  by (simp add: aj_progress_def set_progress_def)

lemma aj_members_update [simp]: "aj_members (update_member i f j) = (aj_members j)[i := f (aj_members j ! i)]"
  by (simp add: aj_members_def update_member_def)

lemma aj_bridge_update [simp]: "aj_bridge (update_member i f j) = aj_bridge j"
  by (simp add: aj_bridge_def update_member_def)

lemma aj_members_bridge [simp]: "aj_members (set_bridge b j) = aj_members j"
  by (simp add: aj_members_def set_bridge_def)

lemma aj_bridge_set [simp]: "aj_bridge (set_bridge b j) = map_option (\<lambda>t. t\<lparr>bt_progress := b\<rparr>) (aj_bridge j)"
  by (simp add: aj_bridge_def set_bridge_def)

lemma bridge_progress_update [simp]: "bridge_progress_of (update_member i f j) = bridge_progress_of j"
  by (simp add: bridge_progress_of_def)

lemma bridge_progress_set [simp]:
  "bridge_progress_of (set_bridge b j) = (if aj_bridge j = None then None else Some b)"
  by (cases "aj_bridge j") (simp_all add: bridge_progress_of_def)

lemmas member_setters = set_old_def set_target_def set_intent_def

lemma sum_work_update:
  "i < length ms \<Longrightarrow> member_work m' < member_work (ms ! i)
   \<Longrightarrow> sum_list (map member_work (ms[i := m'])) < sum_list (map member_work ms)"
proof (induction ms arbitrary: i)
  case (Cons m ms)
  then show ?case by (cases i) auto
qed simp

lemma unloaded_update: "tm_id m' = tm_id (ms ! i) \<Longrightarrow> unloaded (ms[i := m']) completed = unloaded ms completed"
  unfolding unloaded_def
proof (induction ms arbitrary: i)
  case (Cons m ms)
  then show ?case by (cases i) auto
qed simp

lemma bridge_work_update: "tm_id m' = tm_id (ms ! i) \<Longrightarrow> bridge_work (ms[i := m']) b = bridge_work ms b"
  by (simp add: bridge_work_def unloaded_update split: bridge_progress.split)

lemma work_update:
  assumes "i < length (aj_members j)" and "tm_id (f (aj_members j ! i)) = tm_id (aj_members j ! i)"
    and "member_work (f (aj_members j ! i)) < member_work (aj_members j ! i)"
  shows "rollback_work (update_member i f j) < rollback_work j"
  using sum_work_update [OF assms(1,3)] bridge_work_update [of "f (aj_members j ! i)" "aj_members j" i] assms(2)
  by (simp add: rollback_work_def split: option.split)

lemma work_bridge:
  assumes "bridge_progress_of j = Some b" and "bridge_work (aj_members j) b' < bridge_work (aj_members j) b"
  shows "rollback_work (set_bridge b' j) < rollback_work j"
proof -
  from assms(1) have "aj_bridge j \<noteq> None" by (auto simp: bridge_progress_of_def)
  with assms show ?thesis by (simp add: rollback_work_def)
qed

section \<open>What the next action tells\<close>

lemma member_index_Some: "member_index P ms = Some n \<Longrightarrow> n < length ms \<and> P (ms ! n)"
proof (induction ms arbitrary: n)
  case (Cons m ms)
  then show ?case by (cases n) (auto split: if_splits)
qed simp

lemma member_index_None: "member_index P ms = None \<longleftrightarrow> (\<forall>m \<in> set ms. \<not> P m)"
  by (induction ms) auto

definition unretired :: "target_progress \<Rightarrow> bool" where
  "unretired t \<longleftrightarrow> t \<in> {TargetGated, TargetReady, TargetCommitIntent, TargetCommitted, TargetRetireIntent}"

lemma target_work_zero: "target_work t = 0 \<longleftrightarrow> t \<in> {TargetAbsent, TargetRetired}"
  by (simp add: target_work_def)

lemma unretired_iff: "unretired t \<longleftrightarrow> t \<noteq> TargetSpawnIntent \<and> t \<notin> {TargetAbsent, TargetRetired}"
  by (cases t) (simp_all add: unretired_def)

lemma member_action_Some:
  "member_action k ms = Some a \<Longrightarrow> \<exists>n < length ms.
     (a = ResolvePrepare (k + n) \<and> tm_old (ms ! n) = OldPrepareIntent)
     \<or> (a = ResolveTargetSpawn (k + n) \<and> tm_target (ms ! n) = TargetSpawnIntent)
     \<or> (a = RetireTarget (k + n) \<and> unretired (tm_target (ms ! n)))"
proof (induction ms arbitrary: k)
  case (Cons m ms)
  show ?case
  proof (cases "tm_old m = OldPrepareIntent \<or> tm_target m = TargetSpawnIntent \<or> unretired (tm_target m)")
    case True
    with Cons.prems show ?thesis by (intro exI [of _ 0]) (auto simp: unretired_def split: if_splits)
  next
    case False
    then have "member_action (Suc k) ms = Some a" using Cons.prems by (auto simp: unretired_def split: if_splits)
    from Cons.IH [OF this] show ?thesis by (metis Suc_less_eq add_Suc_right add_Suc length_Cons nth_Cons_Suc)
  qed
qed simp

lemma member_action_None:
  "member_action k ms = None \<longleftrightarrow>
     (\<forall>m \<in> set ms. tm_old m \<noteq> OldPrepareIntent \<and> tm_target m \<in> {TargetAbsent, TargetRetired})"
proof (induction ms arbitrary: k)
  case (Cons m ms)
  have "member_action k (m # ms) = None \<longleftrightarrow>
    tm_old m \<noteq> OldPrepareIntent \<and> tm_target m \<in> {TargetAbsent, TargetRetired} \<and> member_action (Suc k) ms = None"
    by (cases "tm_target m") simp_all
  then show ?case by (simp only: Cons.IH [of "Suc k"]) simp
qed simp

text \<open>What holds when the interpreter chooses an action.\<close>

fun chosen_for :: "actor \<Rightarrow> activation_journal \<Rightarrow> rollback_action \<Rightarrow> bool" where
  "chosen_for actor j (ResolvePrepare n) \<longleftrightarrow> n < length (aj_members j) \<and> tm_old (aj_members j ! n) = OldPrepareIntent"
| "chosen_for actor j (ResolveTargetSpawn n) \<longleftrightarrow>
     n < length (aj_members j) \<and> tm_target (aj_members j ! n) = TargetSpawnIntent"
| "chosen_for actor j (RetireTarget n) \<longleftrightarrow> n < length (aj_members j) \<and> unretired (tm_target (aj_members j ! n))"
| "chosen_for actor j (ResumeOldBroker n) \<longleftrightarrow>
     n < length (aj_members j) \<and> \<not> is_settled (tm_old (aj_members j ! n)) \<and> can_resume actor (aj_members j ! n)
     \<and> (\<forall>b. bridge_progress_of j = Some b \<longrightarrow> is_restored b)"
| "chosen_for actor j AwaitingPeer \<longleftrightarrow>
     (\<forall>m \<in> set (aj_members j). can_resume actor m \<longrightarrow> is_settled (tm_old m))
     \<and> (\<exists>m \<in> set (aj_members j). \<not> is_settled (tm_old m)) \<and> (\<forall>b. bridge_progress_of j = Some b \<longrightarrow> is_restored b)"
| "chosen_for actor j FinishRollback \<longleftrightarrow>
     (\<forall>m \<in> set (aj_members j). is_settled (tm_old m)) \<and> (\<forall>b. bridge_progress_of j = Some b \<longrightarrow> is_restored b)"
| "chosen_for actor j MarkBridgeRestored \<longleftrightarrow>
     bridge_progress_of j = Some ArtifactsPending \<and> all_unmutated (aj_members j)"
| "chosen_for actor j InstallOldBridge \<longleftrightarrow>
     (\<exists>b. bridge_progress_of j = Some b \<and> \<not> is_restored b \<and> (restore_started b \<longrightarrow> b = OldInstallIntent))"
| "chosen_for actor j PublishTargetPreviousCopy \<longleftrightarrow>
     bridge_progress_of j \<in> {Some OldInstalled, Some TargetPreviousIntent}"
| "chosen_for actor j RestoreOldReceipt \<longleftrightarrow>
     bridge_progress_of j \<in> {Some TargetPreviousPublished, Some OldReceiptIntent}"
| "chosen_for actor j BeginOldReload \<longleftrightarrow> bridge_progress_of j = Some OldReceiptPublished"
| "chosen_for actor j (ReloadOldBridge n) \<longleftrightarrow>
     n < length (aj_members j) \<and> (\<exists>active completed. bridge_progress_of j = Some (OldReloading active completed)
       \<and> (active = Some (tm_id (aj_members j ! n)) \<or> tm_id (aj_members j ! n) \<notin> set completed))"
| "chosen_for actor j CompleteBridgeRestore \<longleftrightarrow>
     (\<exists>active completed. bridge_progress_of j = Some (OldReloading active completed)
       \<and> (\<forall>m \<in> set (aj_members j). tm_id m \<in> set completed))"

fun about_member :: "rollback_action \<Rightarrow> bool" where
  "about_member (ResolvePrepare _) \<longleftrightarrow> True"
| "about_member (ResolveTargetSpawn _) \<longleftrightarrow> True"
| "about_member (RetireTarget _) \<longleftrightarrow> True"
| "about_member _ \<longleftrightarrow> False"

lemma resume_action_chosen:
  "(\<forall>b. bridge_progress_of j = Some b \<longrightarrow> is_restored b) \<Longrightarrow> chosen_for actor j (resume_action actor (aj_members j))"
  by (auto simp: resume_action_def member_index_None list_ex_iff split: option.split dest: member_index_Some)

lemma reload_action_chosen:
  assumes "bridge_progress_of j = Some (OldReloading active completed)"
  shows "chosen_for actor j (reload_action (aj_members j) active completed)"
proof (cases "case active of None \<Rightarrow> None | Some i \<Rightarrow> member_index (\<lambda>m. tm_id m = i) (aj_members j)")
  case None
  with assms show ?thesis
    by (auto simp: reload_action_def member_index_None split: option.split dest: member_index_Some)
next
  case (Some n)
  then obtain i where "active = Some i" "member_index (\<lambda>m. tm_id m = i) (aj_members j) = Some n"
    by (auto split: option.splits)
  with assms show ?thesis using member_index_Some [of _ "aj_members j" n] by (force simp: reload_action_def)
qed

lemma bridge_action_chosen:
  assumes "bridge_progress_of j = Some b"
  shows "chosen_for actor j (bridge_action actor (aj_members j) b)"
  using assms resume_action_chosen [of j actor] reload_action_chosen [of j _ _ actor]
  by (cases b) (simp_all add: bridge_action_def)

lemma next_action_chosen: "chosen_for actor j (next_rollback_action actor j)"
proof (cases "member_action 0 (aj_members j)")
  case (Some a)
  from member_action_Some [OF this] Some show ?thesis by (auto simp: next_rollback_action_def)
next
  case None
  then show ?thesis
    using resume_action_chosen [of j actor] bridge_action_chosen [of j _ actor]
    by (cases "aj_bridge j") (simp_all add: next_rollback_action_def bridge_progress_of_def)
qed

lemma resume_action_cases:
  "resume_action actor ms \<in> range ResumeOldBroker \<union> {AwaitingPeer, FinishRollback}"
  by (auto simp: resume_action_def split: option.split)

lemma next_action_barrier:
  assumes "\<not> about_member (next_rollback_action actor j)"
  shows "targets_retired j" and "\<forall>m \<in> set (aj_members j). tm_old m \<noteq> OldPrepareIntent"
proof -
  have "member_action 0 (aj_members j) = None"
  proof (rule ccontr)
    assume "member_action 0 (aj_members j) \<noteq> None"
    then obtain a where "member_action 0 (aj_members j) = Some a" by auto
    with member_action_Some [OF this] assms show False by (auto simp: next_rollback_action_def)
  qed
  then show "targets_retired j" "\<forall>m \<in> set (aj_members j). tm_old m \<noteq> OldPrepareIntent"
    by (auto simp: member_action_None targets_retired_def list_all_iff)
qed

section \<open>Every turn makes progress\<close>

text \<open>The record in memory after a successful operation, from the one before it.\<close>

definition yields :: "'a tx \<Rightarrow> activation_journal \<Rightarrow> ('a \<Rightarrow> activation_journal \<Rightarrow> bool) \<Rightarrow> bool" where
  "yields m j P \<longleftrightarrow> (\<forall>s. tx_journal s = j \<longrightarrow> wp m (\<lambda>a t. P a (tx_journal t)) (\<lambda>_ _. True) s)"

lemma yields_bind:
  assumes "yields m j R" and "\<And>a k. R a k \<Longrightarrow> yields (f a) k P"
  shows "yields (tbind m f) j P"
  unfolding yields_def wp_simps
proof (intro allI impI)
  fix s :: tx_state assume "tx_journal s = j"
  with assms(1) have "wp m (\<lambda>a t. R a (tx_journal t)) (\<lambda>_ _. True) s" by (simp add: yields_def)
  then show "wp m (\<lambda>a. wp (f a) (\<lambda>a t. P a (tx_journal t)) (\<lambda>_ _. True)) (\<lambda>_ _. True) s"
    by (rule wp_mono) (use assms(2) in \<open>auto simp: yields_def\<close>)
qed

lemma yields_mono: "yields m j P \<Longrightarrow> (\<And>a k. P a k \<Longrightarrow> Q a k) \<Longrightarrow> yields m j Q"
  unfolding yields_def by (auto elim!: wp_mono)

lemma yields_get: "yields (f j) j P \<Longrightarrow> yields (tbind (tget tx_journal) f) j P"
  by (simp add: yields_def wp_simps)

lemma yields_ret: "P a j \<Longrightarrow> yields (tret a) j P"
  by (simp add: yields_def wp_simps)

lemma yields_fail: "yields (tfail e) j P"
  by (simp add: yields_def wp_simps)

lemma yields_set: "yields (on_journal f) j (\<lambda>_ k. k = f j)"
  by (simp add: yields_def wp_simps)

lemma yields_write: "yields (write_journal env) j (\<lambda>_ k. k = j)"
  by (simp add: yields_def write_journal_def wp_simps installed_def split: sum.split write_answer.split)

lemma yields_leaves:
  assumes "leaves A m" shows "yields m j (\<lambda>_ k. k = j)"
  unfolding yields_def
proof (intro allI impI)
  fix s :: tx_state assume "tx_journal s = j"
  then have "wp m (\<lambda>_ t. tx_journal t = j) (\<lambda>_ t. tx_journal t = j) s" by (intro wp_leaves [OF assms]) simp
  then show "wp m (\<lambda>_ t. tx_journal t = j) (\<lambda>_ _. True) s" by (rule wp_mono) simp_all
qed

lemma yields_save_bridge: "yields (save_bridge env b) j (\<lambda>_ k. k = set_bridge b j)"
  unfolding save_bridge_def
  by (rule yields_bind [OF yields_set], rule yields_mono [OF yields_write]) simp

abbreviation lighter :: "activation_journal \<Rightarrow> 'a \<Rightarrow> activation_journal \<Rightarrow> bool" where
  "lighter j \<equiv> \<lambda>_ k. rollback_work k < rollback_work j"

lemma set_bridge_twice [simp]: "set_bridge b (set_bridge b' j) = set_bridge b j"
  by (cases "aj_transaction j"; cases "aj_bridge j")
     (simp_all add: set_bridge_def set_progress_def aj_progress_def aj_bridge_def option.map_comp comp_def)

lemma save_twice_lighter:
  assumes "leaves A m" and "rollback_work (set_bridge b' j) < rollback_work j"
  shows "yields (tbind (save_bridge env b) (\<lambda>_. tbind m (\<lambda>_. save_bridge env b'))) j (lighter j)"
  by (rule yields_bind [OF yields_save_bridge], rule yields_bind [OF yields_leaves [OF assms(1)]],
      rule yields_mono [OF yields_save_bridge]) (simp add: assms(2))

lemma unloaded_add:
  "m \<in> set ms \<Longrightarrow> tm_id m \<notin> set completed \<Longrightarrow> unloaded ms (completed @ [tm_id m]) < unloaded ms completed"
  unfolding unloaded_def
proof (induction ms)
  case (Cons x xs)
  have "length (filter (\<lambda>y. tm_id y \<notin> set (completed @ [tm_id m])) xs) \<le> length (filter (\<lambda>y. tm_id y \<notin> set completed) xs)"
    by (induction xs) auto
  with Cons show ?case by (cases "tm_id x = tm_id m") auto
qed simp

lemma reload_lighter:
  assumes "chosen_for actor j (ReloadOldBridge n)"
  shows "yields (reload_old_bridge env n) j (lighter j)"
proof -
  let ?i = "tm_id (aj_members j ! n)"
  from assms obtain active completed where n: "n < length (aj_members j)"
    and b: "bridge_progress_of j = Some (OldReloading active completed)"
    and a: "active = Some ?i \<or> ?i \<notin> set completed" by auto
  from b have some: "aj_bridge j \<noteq> None" by (auto simp: bridge_progress_of_def)
  have start: "start_reload ?i j = set_bridge (OldReloading (Some ?i) completed) j"
    using b by (simp add: start_reload_def)
  let ?c = "if ?i \<in> set completed then completed else completed @ [?i]"
  have finish: "finish_reload ?i (start_reload ?i j) = set_bridge (OldReloading None ?c) j"
    using some by (auto simp: start finish_reload_def)
  have "rollback_work (set_bridge (OldReloading None ?c) j) < rollback_work j"
    using a unloaded_add [of "aj_members j ! n" "aj_members j" completed] n
    by (intro work_bridge [OF b]) (auto simp: bridge_work_def)
  then show ?thesis
    unfolding reload_old_bridge_def Let_def
    by (intro yields_get yields_bind [OF yields_set] yields_bind [OF yields_write]
          yields_bind [OF yields_leaves [OF leaves_effect [of "ReloadOld ?i" UNIV]]] yields_mono [OF yields_write])
       (simp_all add: finish)
qed

lemma complete_lighter:
  assumes "chosen_for actor j CompleteBridgeRestore"
  shows "yields (complete_bridge_restore env) j (lighter j)"
proof -
  from assms obtain active completed where b: "bridge_progress_of j = Some (OldReloading active completed)" by auto
  have "rollback_work (set_bridge (Restored completed) j) < rollback_work j"
    by (rule work_bridge [OF b]) (simp add: bridge_work_def)
  then show ?thesis
    unfolding complete_bridge_restore_def
    by (intro yields_get) (simp add: b yields_mono [OF yields_save_bridge])
qed

lemma bridge_lighter:
  assumes "chosen_for actor j a" and "\<not> about_member a" and "\<not> needs_rows a"
  shows "yields (apply_bridge_rollback_action env actor a) j (lighter j)"
proof -
  have w: "rollback_work (set_bridge b' j) < rollback_work j"
    if "bridge_progress_of j = Some b" "bridge_work (aj_members j) b' < bridge_work (aj_members j) b" for b b'
    using that by (rule work_bridge)
  have "yields (apply_bridge_action env actor a) j (lighter j)"
  proof (cases a)
    case MarkBridgeRestored
    then show ?thesis using assms(1) w by (simp add: yields_mono [OF yields_save_bridge] bridge_work_def)
  next
    case InstallOldBridge
    then obtain b where b: "bridge_progress_of j = Some b" "\<not> is_restored b" "restore_started b \<longrightarrow> b = OldInstallIntent"
      using assms(1) by auto
    then have "bridge_work (aj_members j) OldInstalled < bridge_work (aj_members j) b"
      by (cases b) (simp_all add: bridge_work_def)
    from w [OF b(1) this] InstallOldBridge show ?thesis
      by (simp, intro yields_bind [OF yields_save_bridge]
            yields_bind [OF yields_leaves [OF leaves_effect [of _ UNIV]]]
            yields_bind [OF yields_leaves [OF leaves_actor_hook [of UNIV]]] yields_mono [OF yields_save_bridge]) simp_all
  next
    case PublishTargetPreviousCopy
    then show ?thesis using assms(1) w
      by (auto intro!: save_twice_lighter leaves_effect [of _ UNIV] simp: bridge_work_def)
  next
    case RestoreOldReceipt
    then show ?thesis using assms(1) w
      by (auto intro!: save_twice_lighter leaves_effect [of _ UNIV] simp: bridge_work_def)
  next
    case BeginOldReload
    then show ?thesis using assms(1) w
      by (simp add: yields_mono [OF yields_save_bridge] bridge_work_def unloaded_def)
  next
    case (ReloadOldBridge n)
    then show ?thesis using assms(1) reload_lighter by simp
  next
    case CompleteBridgeRestore
    then show ?thesis using assms(1) complete_lighter by simp
  qed (use assms in simp_all)
  then show ?thesis
    unfolding apply_bridge_rollback_action_def
    by (intro yields_get yields_bind [OF yields_leaves [OF leaves_check [of UNIV]]]) simp
qed

lemma old_work_positive: "\<not> is_settled o' \<Longrightarrow> 0 < old_work o'"
  by (cases o') (simp_all add: is_settled_def)

lemma target_update_lighter:
  assumes "n < length (aj_members j)" and "target_work (tm_target (aj_members j ! n)) = 1" and "target_work t = 0"
  shows "rollback_work (set_intent n t i j) < rollback_work j" and "rollback_work (set_target n t j) < rollback_work j"
  unfolding set_intent_def set_target_def using assms by (auto intro!: work_update simp: member_work_def)

lemma member_updates_swap:
  "(m :: transaction_member)\<lparr>tm_target_retirement := i, tm_target := t\<rparr> = m\<lparr>tm_target := t, tm_target_retirement := i\<rparr>"
  by simp

lemma set_target_twice:
  "n < length (aj_members j) \<Longrightarrow> set_target n t (set_intent n t' i j) = set_intent n t i j"
  unfolding set_target_def set_intent_def update_member_def
  by (cases "aj_transaction j") (simp_all add: set_progress_def aj_progress_def aj_members_def member_updates_swap)

lemma yields_write_intent: "yields (write_intent env n i) j (\<lambda>_ k. k = set_intent n TargetRetireIntent (Some i) j)"
  unfolding yields_def
proof (intro allI impI)
  fix s :: tx_state assume "tx_journal s = j"
  then have "wp (tbind (on_journal (set_intent n TargetRetireIntent (Some i))) (\<lambda>_. write_journal env))
      (\<lambda>_ t. tx_journal t = set_intent n TargetRetireIntent (Some i) j) (\<lambda>_ _. True) s"
    using yields_write [of env, unfolded yields_def] by (simp add: wp_simps)
  then show "wp (write_intent env n i) (\<lambda>_ t. tx_journal t = set_intent n TargetRetireIntent (Some i) j) (\<lambda>_ _. True) s"
    by (simp add: wp_def write_intent_def Let_def split: prod.splits sum.splits)
qed

lemma retirement_lighter:
  assumes n: "n < length (aj_members j)" and w: "target_work (tm_target (aj_members j ! n)) = 1"
  shows "yields (complete_target_retirement env actor n prepared) j (lighter j)"
proof -
  let ?R = "\<lambda>(_ :: unit) k. k = j \<or> (\<exists>i. k = set_intent n TargetRetireIntent (Some i) j)"
  have first: "yields (if tm_target (aj_members j ! n) = TargetRetireIntent then tret ()
      else tbind (declare_intent env actor n prepared j) (write_intent env n)) j ?R"
    by (simp add: yields_ret) (intro impI yields_bind [OF yields_leaves [OF leaves_declare [of UNIV]]]
        yields_mono [OF yields_write_intent], auto)
  have last: "rollback_work (set_target n TargetRetired k) < rollback_work j" if "?R () k" for k
    using that target_update_lighter [OF n w, of TargetRetired] by (auto simp: set_target_twice [OF n] target_work_def)
  show ?thesis
    unfolding complete_target_retirement_def Let_def
    by (intro yields_get yields_bind [OF first] yields_bind [OF yields_leaves [OF leaves_execute [of UNIV]]]
          yields_bind [OF yields_set] yields_mono [OF yields_write]) (use last in auto)
qed

lemma resolve_prepare_lighter:
  assumes "chosen_for actor j (ResolvePrepare n)"
  shows "yields (resolve_prepare_step env actor n) j (lighter j)"
proof -
  have "rollback_work (set_old n (case r of ResolvedPending \<Rightarrow> OldPending | ResolvedDrained \<Rightarrow> OldDrained) j) < rollback_work j" for r
    unfolding set_old_def using assms by (intro work_update) (auto simp: member_work_def split: prepare_resolution.split)
  then show ?thesis
    unfolding resolve_prepare_step_def
    by (intro yields_get yields_bind [OF yields_leaves [OF leaves_resolve_prepare [of UNIV]]]
          yields_bind [OF yields_set] yields_mono [OF yields_write]) auto
qed

lemma resolve_spawn_lighter:
  assumes "chosen_for actor j (ResolveTargetSpawn n)"
  shows "yields (resolve_spawn_step env actor n) j (lighter j)"
proof -
  from assms have n: "n < length (aj_members j)" and w: "target_work (tm_target (aj_members j ! n)) = 1"
    by (simp_all add: target_work_def)
  have absent: "yields (tbind (on_journal (set_intent n TargetAbsent None)) (\<lambda>_. write_journal env)) j (lighter j)"
    using target_update_lighter(1) [OF n w, of TargetAbsent None]
    by (intro yields_bind [OF yields_set] yields_mono [OF yields_write]) (simp add: target_work_def)
  show ?thesis
    unfolding resolve_spawn_step_def
    by (intro yields_get yields_bind [OF yields_leaves [OF leaves_spawn [of UNIV]]])
       (auto split: option.split intro: absent retirement_lighter [OF n w])
qed

abbreviation goes_on :: "activation_journal \<Rightarrow> loop_result \<Rightarrow> activation_journal \<Rightarrow> bool" where
  "goes_on j \<equiv> \<lambda>r k. (\<exists>b. r = Continue b) \<longrightarrow> rollback_work k < rollback_work j"

lemma set_old_twice: "n < length (aj_members j) \<Longrightarrow> set_old n o' (set_old n o'' j) = set_old n o' j"
  unfolding set_old_def update_member_def
  by (cases "aj_transaction j") (simp_all add: set_progress_def aj_progress_def aj_members_def)

lemma resume_lighter:
  assumes "chosen_for actor j (ResumeOldBroker n)"
  shows "yields (resume_step env actor n r) j (goes_on j)"
proof -
  from assms have n: "n < length (aj_members j)" by simp
  have less: "rollback_work (set_old n OldResumed j) < rollback_work j"
    unfolding set_old_def using assms old_work_positive by (intro work_update) (auto simp: member_work_def)
  have first: "yields (if tm_old (aj_members j ! n) \<noteq> OldResumeIntent
       then tbind (on_journal (set_old n OldResumeIntent)) (\<lambda>_. write_journal env) else tret ()) j
       (\<lambda>_ k. k = j \<or> k = set_old n OldResumeIntent j)"
    by (auto intro!: yields_ret yields_bind [OF yields_set] yields_mono [OF yields_write])
  have tail: "yields (case d of ResumeCompleted \<Rightarrow>
         tbind (on_journal (set_old n OldResumed)) (\<lambda>_. tbind (write_journal env) (\<lambda>_. tret (Continue r)))
       | ResumeDeferred \<Rightarrow> tret (Stop DriveResumeRequired)) k (goes_on j)"
    if "k = j \<or> k = set_old n OldResumeIntent j" for d k
    using that less
    by (cases d) (auto intro!: yields_bind [OF yields_set] yields_bind [OF yields_write] yields_ret simp: set_old_twice [OF n])
  show ?thesis
    unfolding resume_step_def
    by (intro yields_get yields_bind [OF first] yields_get yields_bind [OF yields_leaves [OF leaves_resume [of _ UNIV]]])
       (use tail in auto)
qed

lemma perform_lighter:
  assumes "chosen_for actor j a"
  shows "yields (perform_action env actor r a) j (goes_on j)"
proof -
  have after: "yields (tbind m (\<lambda>_. tret (Continue r))) j (goes_on j)" if "yields m j (lighter j)" for m :: "unit tx"
    by (rule yields_bind [OF that], rule yields_ret) simp
  have stop: "yields (tbind m (\<lambda>out. tret (Stop out))) j (goes_on j)" for m :: "drive_outcome tx"
    by (rule yields_bind [where R = "\<lambda>_ _. True"]) (auto intro: yields_ret simp: yields_def wp_def tret_def split: prod.split sum.split)
  show ?thesis
  proof (cases a)
    case (RetireTarget n)
    with assms have "target_work (tm_target (aj_members j ! n)) = 1"
      by (simp add: unretired_iff target_work_def)
    with RetireTarget assms show ?thesis by (simp add: after retirement_lighter)
  next
    case (ResumeOldBroker n)
    with assms show ?thesis using resume_lighter by simp
  next
    case AwaitingPeer
    then show ?thesis by (simp add: yields_ret)
  next
    case FinishRollback
    then show ?thesis using stop by simp
  qed (use assms in \<open>simp_all add: after resolve_prepare_lighter resolve_spawn_lighter bridge_lighter\<close>)
qed

lemma rollback_step_decreases:
  assumes "rollback_step env actor r s = (Inr (Continue r'), t)"
  shows "rollback_work (tx_journal t) < rollback_work (tx_journal s)"
proof -
  let ?j = "tx_journal s"
  have "yields (rollback_step env actor r) ?j (goes_on ?j)"
    unfolding rollback_step_def Let_def
    by (intro yields_get)
       (auto intro!: perform_lighter next_action_chosen yields_bind [OF yields_leaves [OF leaves_restore_rows [of UNIV]]])
  then have "wp (rollback_step env actor r) (\<lambda>b t. goes_on ?j b (tx_journal t)) (\<lambda>_ _. True) s"
    by (simp add: yields_def)
  from wp_result [OF this assms] show ?thesis by simp
qed

section \<open>The loop\<close>

function rollback_loop :: "tx_env \<Rightarrow> actor \<Rightarrow> bool \<Rightarrow> tx_state \<Rightarrow> (activate_error + drive_outcome) \<times> tx_state" where
  "rollback_loop env actor restored s =
     (case rollback_step env actor restored s of
        (Inl e, t) \<Rightarrow> (Inl e, t)
      | (Inr (Stop out), t) \<Rightarrow> (Inr out, t)
      | (Inr (Continue r), t) \<Rightarrow> rollback_loop env actor r t)"
  by pat_completeness auto

termination
  by (relation "measure (\<lambda>(env, actor, r, s). rollback_work (tx_journal s))")
     (auto intro: rollback_step_decreases [OF sym])

declare rollback_loop.simps [simp del]

definition drive_rollback :: "tx_env \<Rightarrow> actor \<Rightarrow> drive_outcome tx" where
  "drive_rollback env actor =
     tbind (tget tx_journal) (\<lambda>j.
     tbind (tcheck (\<forall>m \<in> set (aj_members j). tm_old m \<noteq> OldForceStopIntent) (ErrUnit UnresolvedForcedStop)) (\<lambda>_.
     rollback_loop env actor False))"

end
