(* ===== verification/Activation_Invariant.thy ===== *)
theory Activation_Invariant
  imports Activation_Loop
begin

text \<open>
  What keeps an activation record valid: the validator in terms of each member, the parts of the
  record no step changes (its frame), and the validity of every record the rollback writes.
\<close>

section \<open>The validator, member by member\<close>

definition ids_ok :: "activation_api \<Rightarrow> activation_journal \<Rightarrow> bool" where
  "ids_ok api j \<longleftrightarrow>
     (\<forall>m \<in> set (aj_members j). member_identity_ok api j m)
     \<and> distinct (map tm_member (aj_members j)) \<and> distinct (map tm_handoff (aj_members j))"

lemma check_members_iff:
  "check_members api j names handoffs ms = Inr () \<longleftrightarrow>
     (\<forall>m \<in> set ms. member_identity_ok api j m \<and> check_stop_kind api j m = Inr () \<and> check_retirement api j m = Inr ())
     \<and> distinct (map tm_member ms) \<and> distinct (map tm_handoff ms)
     \<and> tm_member ` set ms \<inter> set names = {} \<and> tm_handoff ` set ms \<inter> set handoffs = {}"
  by (induction ms arbitrary: names handoffs) (auto simp: result_simps)

lemma valid_iff:
  "valid_journal api j \<longleftrightarrow>
     aj_schema_version j \<in> {3, 4, 5, 6} \<and> aj_members j \<noteq> [] \<and> ids_ok api j
     \<and> (\<forall>m \<in> set (aj_members j). check_stop_kind api j m = Inr () \<and> check_retirement api j m = Inr ())
     \<and> check_unit j = Inr () \<and> proof_fits api j \<and> progress_fits j"
  unfolding valid_journal_def validate_def
  by (auto simp: result_simps check_members_iff ids_ok_def JOURNAL_SCHEMA_VERSION_def FORCED_JOURNAL_SCHEMA_VERSION_def)

section \<open>The frame\<close>

definition frame where
  "frame j = (aj_schema_version j, aj_activation_id j, aj_unit j, aj_bridge_identity j, aj_member_census j,
     aj_target_record j, aj_old_registry j)"

lemma frame_set [simp]: "frame (set_progress f j) = frame j" "frame (enter ph j) = frame j"
  by (simp_all add: frame_def set_progress_def enter_def)

lemma frame_update [simp]:
  "frame (update_member i f j) = frame j" "frame (set_bridge b j) = frame j"
  by (simp_all add: update_member_def set_bridge_def)

lemma frame_setters [simp]:
  "frame (set_old i o' j) = frame j" "frame (set_target i t j) = frame j" "frame (set_intent i t r j) = frame j"
  by (simp_all add: member_setters)

lemma frame_enter [simp]:
  "frame (enter_rollback r j) = frame j" "frame (enter_rolled_back j) = frame j" "frame (enter_activating j) = frame j"
  "frame (enter_committing j) = frame j" "frame (enter_committed j) = frame j" "frame (enter_ready p j) = frame j"
  by (simp_all add: enter_rollback_def enter_rolled_back_def enter_activating_def enter_committing_def
      enter_committed_def enter_ready_def Let_def)

lemma frameD:
  assumes "frame j = frame k"
  shows "aj_schema_version j = aj_schema_version k" "aj_activation_id j = aj_activation_id k" "aj_unit j = aj_unit k"
    "aj_bridge_identity j = aj_bridge_identity k" "aj_member_census j = aj_member_census k"
    "aj_target_record j = aj_target_record k" "aj_old_registry j = aj_old_registry k" "is_forced j = is_forced k"
  using assms by (simp_all add: frame_def is_forced_def)

text \<open>Two states of one member.\<close>

definition same_member :: "transaction_member \<Rightarrow> transaction_member \<Rightarrow> bool" where
  "same_member m m' \<longleftrightarrow> tm_id m = tm_id m' \<and> tm_authority m = tm_authority m' \<and> tm_old_record m = tm_old_record m'"

lemma same_memberD:
  assumes "same_member m m'"
  shows "tm_id m = tm_id m'" "tm_authority m = tm_authority m'" "tm_old_record m = tm_old_record m'"
    "tm_member m = tm_member m'" "tm_endpoint m = tm_endpoint m'" "tm_handoff m = tm_handoff m'"
  using assms by (simp_all add: same_member_def tm_member_def tm_endpoint_def tm_handoff_def)

lemma same_place_same: "same_member m m' \<Longrightarrow> same_place m = same_place m'"
  by (intro ext) (simp add: same_place_def same_memberD)

lemma member_identity_frame:
  "frame j = frame k \<Longrightarrow> same_member m m' \<Longrightarrow> member_identity_ok api j m = member_identity_ok api k m'"
  by (simp add: member_identity_ok_def frameD [of j k] same_memberD [of m m'])

lemma binding_frame:
  "frame j = frame k \<Longrightarrow> same_member m m' \<Longrightarrow> journal_binding j m = journal_binding k m'"
  by (intro ext) (simp add: journal_binding_def frameD [of j k] same_memberD [of m m'])

lemma validate_registration_frame:
  "frame j = frame k \<Longrightarrow> same_member m m' \<Longrightarrow> validate_registration j m i = validate_registration k m' i"
  by (intro ext)
     (simp add: validate_registration_def stopped_registration_exact_def frameD [of j k] same_memberD [of m m']
        same_place_same [of m m'] split: option.split)

lemma validate_intent_frame:
  "frame j = frame k \<Longrightarrow> same_member m m' \<Longrightarrow> validate_intent api j m i = validate_intent api k m' i"
  by (simp add: validate_intent_def binding_frame [of j k m m'] validate_registration_frame [of j k m m'])

lemma stop_kind_frame:
  assumes "frame j = frame k" and "same_member m m'" and "tm_forced_stop m = tm_forced_stop m'" and "tm_old m = tm_old m'"
  shows "check_stop_kind api j m = check_stop_kind api k m'"
  using assms
  by (simp add: check_stop_kind_def forced_stop_ok_def forced_endpoint_ok_def frameD [of j k] same_memberD [of m m']
      same_place_same [of m m'] split: option.split)

lemma retirement_frame:
  assumes "frame j = frame k" and "same_member m m'" and "tm_target m = tm_target m'"
    and "tm_target_retirement m = tm_target_retirement m'"
  shows "check_retirement api j m = check_retirement api k m'"
  using assms by (simp add: check_retirement_def validate_intent_frame [of j k m m'] split: option.split)

section \<open>Validity under a change of one member\<close>

lemma list_update_all:
  "(\<forall>x \<in> set xs. P x) \<Longrightarrow> P y \<Longrightarrow> \<forall>x \<in> set (xs[i := y]). P x"
  by (auto dest!: set_update_subset_insert [THEN subsetD])

lemma map_update_same: "i < length xs \<Longrightarrow> f y = f (xs ! i) \<Longrightarrow> map f (xs[i := y]) = map f xs"
  by (simp add: map_update list_update_same_conv)

lemma bridge_member_ids_cong: "map tm_member ms = map tm_member ms' \<Longrightarrow> bridge_member_ids ms = bridge_member_ids ms'"
proof (induction ms arbitrary: ms')
  case (Cons m ms)
  then obtain m' ms'' where "ms' = m' # ms''" by (cases ms') auto
  with Cons show ?case by simp
qed simp

lemma check_unit_change:
  assumes "check_unit j = Inr ()" and "frame k = frame j"
    and "map tm_member (aj_members k) = map tm_member (aj_members j)"
    and "map_option bt_artifacts (aj_bridge k) = map_option bt_artifacts (aj_bridge j)"
    and "\<And>b. bridge_progress_of k = Some b \<Longrightarrow> reload_ok (map tm_id (aj_members k)) b \<and> restored_ok (aj_members k) b"
  shows "check_unit k = Inr ()"
proof (cases "aj_unit j")
  case (UnitHerdr h)
  with assms(1,2,4) show ?thesis
    by (auto simp: check_unit_def result_simps frameD [OF assms(2)])
next
  case (UnitZellij unit)
  with assms(1) have z: "check_zellij j unit = Inr ()" by (simp add: check_unit_def)
  then obtain bj where bj: "aj_bridge j = Some bj" by (auto simp: check_zellij_def result_simps)
  with assms(4) obtain bk where bk: "aj_bridge k = Some bk" and art: "bt_artifacts bk = bt_artifacts bj" by auto
  have "artifacts_ok k i x = artifacts_ok j i x" for i x
    by (simp add: artifacts_ok_def frameD [OF assms(2)])
  moreover have "bridge_member_ids (aj_members k) = bridge_member_ids (aj_members j)"
    by (rule bridge_member_ids_cong) (rule assms(3))
  ultimately have "check_zellij k unit = Inr ()"
    using z bj bk art assms(5) [of "bt_progress bk"]
    by (auto simp: check_zellij_def result_simps frameD [OF assms(2)] bridge_progress_of_def)
  with UnitZellij show ?thesis by (simp add: check_unit_def frameD [OF assms(2)])
qed

lemma progress_proof_update [simp]:
  "tp_ready_proof (aj_progress (update_member i f j)) = tp_ready_proof (aj_progress j)"
  "tp_ready_proof (aj_progress (set_bridge b j)) = tp_ready_proof (aj_progress j)"
  by (simp_all add: update_member_def set_bridge_def)

fun phase_name :: "transaction_phase \<Rightarrow> nat \<times> str" where
  "phase_name (Preparing _) = (0, [])"
| "phase_name (Activating _) = (1, [])"
| "phase_name (ReadyPhase _) = (2, [])"
| "phase_name (Committing _) = (3, [])"
| "phase_name (RollingBack r _) = (4, r)"
| "phase_name (Committed _) = (5, [])"
| "phase_name (ForcedRetry r _) = (6, r)"
| "phase_name (RolledBack _) = (7, [])"

definition same_phase :: "activation_journal \<Rightarrow> activation_journal \<Rightarrow> bool" where
  "same_phase j k \<longleftrightarrow> phase_name (aj_transaction j) = phase_name (aj_transaction k)"

lemma phase_name_with [simp]: "phase_name (with_progress ph p) = phase_name ph"
  by (cases ph) simp_all

lemma same_phase_set [simp]:
  "same_phase (update_member i f j) j" "same_phase (set_bridge b j) j"
  by (simp_all add: same_phase_def update_member_def set_bridge_def set_progress_def)

lemma same_phaseD:
  assumes "same_phase j k"
  shows "old_fits (aj_transaction j) = old_fits (aj_transaction k)"
    "target_fits (aj_transaction j) = target_fits (aj_transaction k)"
    "proof_phase (aj_transaction j) = proof_phase (aj_transaction k)"
    "directive j = directive k"
  using assms unfolding same_phase_def directive_def
  by (cases "aj_transaction j"; cases "aj_transaction k"; simp)+

section \<open>Validity while rolling back\<close>

fun rolling_phase :: "transaction_phase \<Rightarrow> bool" where
  "rolling_phase (RollingBack _ _) \<longleftrightarrow> True"
| "rolling_phase _ \<longleftrightarrow> False"

definition rolling :: "activation_journal \<Rightarrow> bool" where
  "rolling j \<longleftrightarrow> rolling_phase (aj_transaction j)"

lemma rolling_iff: "rolling j \<longleftrightarrow> directive j = DirectRollBack"
  by (cases "aj_transaction j") (simp_all add: rolling_def directive_def)

lemma rolling_same [simp]: "rolling (update_member i f j) = rolling j" "rolling (set_bridge b j) = rolling j"
  using same_phaseD(4) [OF same_phase_set(1), of i f j] same_phaseD(4) [OF same_phase_set(2), of b j]
  by (simp_all add: rolling_iff)

lemma rolling_fits:
  assumes "rolling j"
  shows "progress_fits j \<longleftrightarrow>
     (\<forall>m \<in> set (aj_members j). tm_old m \<notin> {OldCommitIntent, OldCommitted})
     \<and> (\<forall>b. bridge_progress_of j = Some b \<longrightarrow>
          (restore_started b \<longrightarrow> targets_retired j) \<and> (any_resuming j \<longrightarrow> is_restored b))
     \<and> (targets_retired j \<or> \<not> any_resuming j)"
  using assms unfolding rolling_def
  by (cases "aj_transaction j"; cases "aj_bridge j")
     (auto simp: progress_fits_def members_fit_def rollback_barrier_def bridge_fits_def bridge_progress_of_def list_all_iff)

lemma valid_bridge_facts:
  assumes "valid_journal api j" and "bridge_progress_of j = Some b"
  shows "reload_ok (map tm_id (aj_members j)) b" and "restored_ok (aj_members j) b"
    and "aj_bridge_identity j \<noteq> None" and "is_zellij_unit (aj_unit j)"
  using assms
  by (cases "aj_unit j"; auto simp: valid_iff check_unit_def check_zellij_def bridge_progress_of_def result_simps)+

text \<open>The members of a record and of one that follows it.\<close>

lemma same_members_maps:
  assumes "list_all2 same_member ms ms'"
  shows "map tm_id ms = map tm_id ms'" "map tm_member ms = map tm_member ms'" "map tm_handoff ms = map tm_handoff ms'"
    "length ms = length ms'"
  using assms by (induction rule: list_all2_induct) (simp_all add: same_memberD)

lemma same_members_update:
  assumes "same_member (f (aj_members j ! i)) (aj_members j ! i)"
  shows "list_all2 same_member (aj_members (update_member i f j)) (aj_members j)"
  unfolding aj_members_update list_all2_conv_all_nth
  using assms by (auto simp: same_member_def) (metis nth_list_update_eq nth_list_update_neq)+

lemma same_members_refl [simp]: "list_all2 same_member ms ms"
  by (simp add: list_all2_same same_member_def)

lemma find_same_member:
  assumes "list_all2 same_member ms ms'"
  shows "rel_option same_member (find (\<lambda>m. tm_id m = i) ms) (find (\<lambda>m. tm_id m = i) ms')"
  using assms by (induction rule: list_all2_induct) (auto simp: same_memberD)

lemma incarnation_frame:
  "frame k = frame j \<Longrightarrow> same_member m m' \<Longrightarrow> incarnation_ok api k m p = incarnation_ok api j m' p"
  by (simp add: incarnation_ok_def Let_def frameD [of k j] same_memberD [of m m'] same_place_same [of m m'])

lemma proof_ok_frame:
  assumes "frame k = frame j" and ms: "list_all2 same_member (aj_members k) (aj_members j)"
  shows "proof_ok api k p = proof_ok api j p" and "proof_ok_legacy k p = proof_ok_legacy j p"
proof -
  have "expected_ids k = expected_ids j" by (simp add: expected_ids_def same_members_maps(1) [OF ms])
  moreover have "(case find (\<lambda>m. tm_id m = i) (aj_members k) of None \<Rightarrow> False | Some m \<Rightarrow> incarnation_ok api k m q)
      = (case find (\<lambda>m. tm_id m = i) (aj_members j) of None \<Rightarrow> False | Some m \<Rightarrow> incarnation_ok api j m q)" for i q
    using find_same_member [OF ms, of i] incarnation_frame [OF assms(1)] by (cases rule: option.rel_cases) auto
  moreover have "proof_unit_ok k p = proof_unit_ok j p" by (simp only: proof_unit_ok_def frameD [OF assms(1)])
  ultimately show "proof_ok api k p = proof_ok api j p" "proof_ok_legacy k p = proof_ok_legacy j p"
    by (simp_all add: proof_ok_def proof_ok_legacy_def frameD [OF assms(1)] cong: unit_kind.case_cong)
qed

lemma proof_fits_same:
  assumes "frame k = frame j" and "list_all2 same_member (aj_members k) (aj_members j)"
    and "tp_ready_proof (aj_progress k) = tp_ready_proof (aj_progress j)"
    and "proof_phase (aj_transaction k) = proof_phase (aj_transaction j)"
  shows "proof_fits api k = proof_fits api j"
  by (simp add: proof_fits_def Let_def assms proof_ok_frame [OF assms(1,2)] frameD [OF assms(1)] split: option.split)

text \<open>A record that keeps the frame and the members of a valid one is valid if its progress fits.\<close>

lemma valid_change:
  assumes v: "valid_journal api j" and fr: "frame k = frame j" and ms: "list_all2 same_member (aj_members k) (aj_members j)"
    and members: "\<forall>m \<in> set (aj_members k). check_stop_kind api j m = Inr () \<and> check_retirement api j m = Inr ()"
    and artifacts: "map_option bt_artifacts (aj_bridge k) = map_option bt_artifacts (aj_bridge j)"
    and cover: "\<And>b. bridge_progress_of k = Some b \<Longrightarrow> reload_ok (map tm_id (aj_members k)) b \<and> restored_ok (aj_members k) b"
    and proof': "proof_fits api k" and fits: "progress_fits k"
  shows "valid_journal api k"
proof -
  have members': "\<forall>m \<in> set (aj_members k). check_stop_kind api k m = Inr () \<and> check_retirement api k m = Inr ()"
  proof -
    have "check_stop_kind api k m = check_stop_kind api j m" "check_retirement api k m = check_retirement api j m" for m
      by (rule stop_kind_frame [OF fr] retirement_frame [OF fr]; simp add: same_member_def)+
    with members show ?thesis by simp
  qed
  have unit: "check_unit k = Inr ()"
    by (rule check_unit_change [of j]) (use v cover in \<open>simp_all add: valid_iff fr artifacts same_members_maps [OF ms]\<close>)
  have "ids_ok api k"
  proof -
    have "member_identity_ok api k m" if m: "m \<in> set (aj_members k)" for m
    proof -
      from ms m obtain m' where m': "m' \<in> set (aj_members j)" "same_member m m'"
        unfolding list_all2_conv_all_nth in_set_conv_nth by metis
      then have "member_identity_ok api j m'" using v by (simp add: valid_iff ids_ok_def)
      then show ?thesis using member_identity_frame [OF fr m'(2)] by simp
    qed
    with v show ?thesis by (simp add: valid_iff ids_ok_def same_members_maps [OF ms])
  qed
  moreover have "aj_members k \<noteq> []" using v same_members_maps(4) [OF ms] by (auto simp: valid_iff)
  ultimately show ?thesis
    using v members' unit proof' fits unfolding valid_iff frameD(1) [OF fr] by blast
qed

lemma valid_update_member:
  assumes v: "valid_journal api j" and i: "i < length (aj_members j)"
    and same: "same_member (f (aj_members j ! i)) (aj_members j ! i)"
    and stop: "check_stop_kind api j (f (aj_members j ! i)) = Inr ()"
    and ret: "check_retirement api j (f (aj_members j ! i)) = Inr ()"
    and restored: "\<And>b. bridge_progress_of j = Some b \<Longrightarrow> restored_ok (aj_members (update_member i f j)) b"
    and fits: "progress_fits (update_member i f j)"
  shows "valid_journal api (update_member i f j)"
proof -
  note ms = same_members_update [of f j i, OF same]
  show ?thesis
  proof (rule valid_change [OF v _ ms _ _ _ _ fits])
    show "\<forall>m \<in> set (aj_members (update_member i f j)). check_stop_kind api j m = Inr () \<and> check_retirement api j m = Inr ()"
      unfolding aj_members_update by (intro list_update_all) (use v stop ret in \<open>simp_all add: valid_iff\<close>)
    show "reload_ok (map tm_id (aj_members (update_member i f j))) b \<and> restored_ok (aj_members (update_member i f j)) b"
      if "bridge_progress_of (update_member i f j) = Some b" for b
      using that valid_bridge_facts(1) [OF v, of b] restored [of b] by (simp only: same_members_maps(1) [OF ms] bridge_progress_update)
    show "proof_fits api (update_member i f j)"
      using v by (subst proof_fits_same [OF _ ms]) (simp_all add: valid_iff same_phaseD(3) [OF same_phase_set(1)])
  qed simp_all
qed

lemma stop_kind_cases:
  assumes "check_stop_kind api j m = Inr ()"
  shows "is_forced j \<Longrightarrow> tm_old m \<in> {OldPending, OldForceStopIntent, OldForceStopped}"
    and "\<not> is_forced j \<Longrightarrow> tm_old m \<notin> {OldForceStopIntent, OldForceStopped}"
  using assms by (auto simp: check_stop_kind_def forced_stop_ok_def result_simps split: option.splits if_splits)

lemma valid_member:
  assumes "valid_journal api j" and "i < length (aj_members j)"
  shows "check_stop_kind api j (aj_members j ! i) = Inr ()" and "check_retirement api j (aj_members j ! i) = Inr ()"
  using assms by (simp_all add: valid_iff)

text \<open>A cooperative member may take any cooperative progress.\<close>

lemma cooperative_stop:
  assumes "check_stop_kind api j m = Inr ()" and "tm_old m \<notin> {OldPending, OldForceStopIntent, OldForceStopped}"
    and "o' \<notin> {OldForceStopIntent, OldForceStopped}"
  shows "check_stop_kind api j (m\<lparr>tm_old := o'\<rparr>) = Inr ()"
proof -
  have "\<not> is_forced j" using stop_kind_cases(1) [OF assms(1)] assms(2) by auto
  with assms show ?thesis by (simp add: check_stop_kind_def result_simps)
qed

lemma restored_complete:
  assumes "restored_ok ms (Restored reloaded)" and "\<not> all_unmutated ms" and "map tm_id ms' = map tm_id ms"
  shows "restored_ok ms' (Restored reloaded)"
proof -
  have "length ms' = length ms" using assms(3) by (metis length_map)
  have "list_all (\<lambda>m. P (tm_id m)) ms' = list_all (\<lambda>m. P (tm_id m)) ms" for P
  proof -
    have "list_all P (map tm_id ms') = list_all P (map tm_id ms)" by (simp only: assms(3))
    then show ?thesis unfolding list.pred_map comp_def .
  qed
  from this [of "\<lambda>x. length (filter (\<lambda>i. i = x) reloaded) = 1"] \<open>length ms' = length ms\<close> show ?thesis
    using assms(1,2) by (simp add: restored_ok_def)
qed

lemma restored_ok_trivial: "\<not> is_restored b \<Longrightarrow> restored_ok ms b"
  by (cases b) (simp_all add: restored_ok_def)

lemma is_restored_iff: "is_restored b \<longleftrightarrow> (\<exists>r. b = Restored r)"
  by (cases b) simp_all

lemma restored_after_update:
  assumes "restored_ok (aj_members j) b" and "i < length (aj_members j)"
    and "is_restored b \<Longrightarrow> \<not> all_unmutated (aj_members j)"
    and "tm_id (f (aj_members j ! i)) = tm_id (aj_members j ! i)"
  shows "restored_ok (aj_members (update_member i f j)) b"
proof (cases "is_restored b")
  case True
  then obtain r where b: "b = Restored r" unfolding is_restored_iff by blast
  have ids: "map tm_id (aj_members (update_member i f j)) = map tm_id (aj_members j)"
    using map_update_same [of i "aj_members j" tm_id, OF assms(2) assms(4)] by simp
  from assms(1) have "restored_ok (aj_members j) (Restored r)" unfolding b .
  from restored_complete [OF this assms(3) [OF True] ids] show ?thesis unfolding b .
qed (simp add: restored_ok_trivial)

lemma mutated_if:
  assumes "i < length (aj_members j)" and "tm_old (aj_members j ! i) \<noteq> OldPending \<or> tm_target (aj_members j ! i) \<noteq> TargetAbsent"
  shows "\<not> all_unmutated (aj_members j)"
  using assms(2) nth_mem [OF assms(1)] unfolding all_unmutated_def list_all_iff by blast

lemma any_resuming_update:
  assumes "i < length (aj_members j)" and "any_resuming (update_member i f j)"
    and "tm_old (f (aj_members j ! i)) \<notin> {OldResumeIntent, OldResumed}"
  shows "any_resuming j"
  using assms by (auto simp: any_resuming_def list_ex_iff dest!: set_update_subset_insert [THEN subsetD])

lemma targets_retired_same:
  assumes "map tm_target (aj_members k) = map tm_target (aj_members j)"
  shows "targets_retired k = targets_retired j"
proof -
  have "list_all (\<lambda>t. t \<in> {TargetAbsent, TargetRetired}) (map tm_target (aj_members k))
      = list_all (\<lambda>t. t \<in> {TargetAbsent, TargetRetired}) (map tm_target (aj_members j))" by (simp only: assms)
  then show ?thesis unfolding targets_retired_def list.pred_map comp_def .
qed

lemma fits_old:
  assumes "rolling j" and "progress_fits j" and "m \<in> set (aj_members j)"
  shows "tm_old m \<notin> {OldCommitIntent, OldCommitted}"
  using assms rolling_fits [of j] by blast

text \<open>The records the interpreter writes about members.\<close>

lemma valid_resolved:
  assumes v: "valid_journal api j" and r: "rolling j" and n: "n < length (aj_members j)"
    and old: "tm_old (aj_members j ! n) = OldPrepareIntent" and o': "o' \<in> {OldPending, OldDrained}"
  shows "valid_journal api (set_old n o' j)"
  unfolding set_old_def
proof (rule valid_update_member [OF v n])
  let ?k = "update_member n (\<lambda>m. m\<lparr>tm_old := o'\<rparr>) j"
  show "check_stop_kind api j ((aj_members j ! n)\<lparr>tm_old := o'\<rparr>) = Inr ()"
    by (rule cooperative_stop [OF valid_member(1) [OF v n]]) (use old o' in auto)
  show "check_retirement api j ((aj_members j ! n)\<lparr>tm_old := o'\<rparr>) = Inr ()"
    using valid_member(2) [OF v n] by (subst retirement_frame [of j j _ "aj_members j ! n"]) (simp_all add: same_member_def)
  show "restored_ok (aj_members ?k) b" if "bridge_progress_of j = Some b" for b
    using valid_bridge_facts(2) [OF v that] n mutated_if [OF n] old by (intro restored_after_update) simp_all
  have "any_resuming ?k \<Longrightarrow> any_resuming j" by (rule any_resuming_update [OF n]) (use o' in auto)
  moreover have "targets_retired ?k = targets_retired j"
    by (rule targets_retired_same) (simp add: map_update_same n)
  moreover have "\<forall>m \<in> set (aj_members ?k). tm_old m \<notin> {OldCommitIntent, OldCommitted}"
    unfolding aj_members_update
    by (rule list_update_all) (use v r o' rolling_fits [OF r] in \<open>auto simp: valid_iff\<close>)
  ultimately show "progress_fits ?k"
    using v r rolling_fits [OF r] rolling_fits [of ?k] by (auto simp: valid_iff)
qed (simp add: same_member_def)

lemma not_retired:
  assumes "n < length (aj_members j)" and "tm_target (aj_members j ! n) \<notin> {TargetAbsent, TargetRetired}"
  shows "\<not> targets_retired j"
  using assms(2) nth_mem [OF assms(1)] unfolding targets_retired_def list_all_iff by blast

text \<open>A member whose target is not retired yet: nobody resumes and the bridge is not being restored.\<close>

lemma before_barrier:
  assumes "valid_journal api j" and "rolling j" and "\<not> targets_retired j"
  shows "\<not> any_resuming j" and "bridge_progress_of j = Some b \<Longrightarrow> \<not> restore_started b"
  using assms rolling_fits [OF assms(2)] by (auto simp: valid_iff)

lemma restore_started_restored: "is_restored b \<Longrightarrow> restore_started b"
  by (cases b) simp_all

lemma valid_target_step:
  assumes v: "valid_journal api j" and r: "rolling j" and n: "n < length (aj_members j)"
    and before: "\<not> targets_retired j"
    and ret: "check_retirement api j ((aj_members j ! n)\<lparr>tm_target := t, tm_target_retirement := i\<rparr>) = Inr ()"
  shows "valid_journal api (set_intent n t i j)"
  unfolding set_intent_def
proof (rule valid_update_member [OF v n])
  let ?f = "\<lambda>m. m\<lparr>tm_target := t, tm_target_retirement := i\<rparr>"
  let ?k = "update_member n ?f j"
  show "check_stop_kind api j (?f (aj_members j ! n)) = Inr ()"
    using valid_member(1) [OF v n] by (subst stop_kind_frame [of j j _ "aj_members j ! n"]) (simp_all add: same_member_def)
  show "check_retirement api j (?f (aj_members j ! n)) = Inr ()" by (rule ret)
  have b: "\<not> restore_started b" if "bridge_progress_of j = Some b" for b
    by (rule before_barrier(2) [OF v r before that])
  show "restored_ok (aj_members ?k) b" if "bridge_progress_of j = Some b" for b
    using b [OF that] restore_started_restored by (intro restored_ok_trivial) blast
  have old: "map tm_old (aj_members ?k) = map tm_old (aj_members j)" by (simp add: map_update_same n)
  have "any_resuming ?k = any_resuming j"
  proof -
    have "list_ex (\<lambda>o'. o' \<in> {OldResumeIntent, OldResumed}) (map tm_old (aj_members ?k))
        = list_ex (\<lambda>o'. o' \<in> {OldResumeIntent, OldResumed}) (map tm_old (aj_members j))" by (simp only: old)
    then show ?thesis unfolding any_resuming_def list_ex_iff by simp
  qed
  with before_barrier(1) [OF v r before] have "\<not> any_resuming ?k" by simp
  moreover have "\<forall>m \<in> set (aj_members ?k). tm_old m \<notin> {OldCommitIntent, OldCommitted}"
    unfolding aj_members_update
    by (rule list_update_all) (use v r n rolling_fits [OF r] in \<open>auto simp: valid_iff\<close>)
  ultimately show "progress_fits ?k"
    using r b rolling_fits [of ?k] by auto
qed (simp add: same_member_def)

lemma valid_retire_intent:
  assumes "valid_journal api j" and "rolling j" and "n < length (aj_members j)"
    and "tm_target (aj_members j ! n) \<notin> {TargetAbsent, TargetRetired}"
    and "validate_intent api j (aj_members j ! n) i = Inr ()"
  shows "valid_journal api (set_intent n TargetRetireIntent (Some i) j)"
proof (rule valid_target_step [OF assms(1-3) not_retired [OF assms(3,4)]])
  have "validate_intent api j ((aj_members j ! n)\<lparr>tm_target := TargetRetireIntent, tm_target_retirement := Some i\<rparr>) i
      = validate_intent api j (aj_members j ! n) i"
    by (rule validate_intent_frame) (simp_all add: same_member_def)
  with assms(5) show "check_retirement api j
      ((aj_members j ! n)\<lparr>tm_target := TargetRetireIntent, tm_target_retirement := Some i\<rparr>) = Inr ()"
    by (simp add: check_retirement_def)
qed

lemma valid_absent:
  assumes "valid_journal api j" and "rolling j" and "n < length (aj_members j)"
    and "tm_target (aj_members j ! n) = TargetSpawnIntent"
  shows "valid_journal api (set_intent n TargetAbsent None j)"
  by (rule valid_target_step [OF assms(1-3) not_retired [OF assms(3)]])
     (simp_all add: assms(4) check_retirement_def result_simps)

lemma set_target_as_intent:
  "set_target n t j = set_intent n t (tm_target_retirement (aj_members j ! n)) j"
proof -
  have "(aj_members j)[n := (aj_members j ! n)\<lparr>tm_target := t\<rparr>]
      = (aj_members j)[n := (aj_members j ! n)\<lparr>tm_target := t, tm_target_retirement := tm_target_retirement (aj_members j ! n)\<rparr>]"
    by simp
  then show ?thesis
    unfolding set_target_def set_intent_def update_member_def set_progress_def aj_members_def by simp
qed

lemma valid_retired:
  assumes "valid_journal api j" and "rolling j" and "n < length (aj_members j)"
    and "tm_target (aj_members j ! n) = TargetRetireIntent"
  shows "valid_journal api (set_target n TargetRetired j)"
  unfolding set_target_as_intent
proof (rule valid_target_step [OF assms(1-3) not_retired [OF assms(3)]])
  let ?m = "aj_members j ! n"
  let ?m' = "?m\<lparr>tm_target := TargetRetired, tm_target_retirement := tm_target_retirement ?m\<rparr>"
  have "validate_intent api j ?m' i = validate_intent api j ?m i" for i
    by (rule validate_intent_frame) (simp_all add: same_member_def)
  with valid_member(2) [OF assms(1,3)] assms(4) show "check_retirement api j ?m' = Inr ()"
    by (auto simp: check_retirement_def split: option.splits)
qed (simp add: assms(4))

lemma valid_resume:
  assumes v: "valid_journal api j" and r: "rolling j" and n: "n < length (aj_members j)"
    and old: "tm_old (aj_members j ! n) \<in> {OldDrained, OldResumeIntent}"
    and o': "o' \<in> {OldResumeIntent, OldResumed}"
    and ret: "targets_retired j" and b: "\<And>b. bridge_progress_of j = Some b \<Longrightarrow> is_restored b"
  shows "valid_journal api (set_old n o' j)"
  unfolding set_old_def
proof (rule valid_update_member [OF v n])
  let ?k = "update_member n (\<lambda>m. m\<lparr>tm_old := o'\<rparr>) j"
  show "check_stop_kind api j ((aj_members j ! n)\<lparr>tm_old := o'\<rparr>) = Inr ()"
    by (rule cooperative_stop [OF valid_member(1) [OF v n]]) (use old o' in auto)
  show "check_retirement api j ((aj_members j ! n)\<lparr>tm_old := o'\<rparr>) = Inr ()"
    using valid_member(2) [OF v n] by (subst retirement_frame [of j j _ "aj_members j ! n"]) (simp_all add: same_member_def)
  show "restored_ok (aj_members ?k) b" if "bridge_progress_of j = Some b" for b
    using valid_bridge_facts(2) [OF v that] n mutated_if [OF n] old by (intro restored_after_update) auto
  have "targets_retired ?k = targets_retired j"
    by (rule targets_retired_same) (simp add: map_update_same n)
  moreover have "\<forall>m \<in> set (aj_members ?k). tm_old m \<notin> {OldCommitIntent, OldCommitted}"
    unfolding aj_members_update
    by (rule list_update_all) (use v r o' rolling_fits [OF r] in \<open>auto simp: valid_iff\<close>)
  ultimately show "progress_fits ?k"
    using r ret b rolling_fits [of ?k] by auto
qed (simp add: same_member_def)

lemma settle_cases:
  assumes "valid_journal api j" and "rolling j" and "m \<in> set (aj_members j)"
    and "\<not> is_settled (tm_old m)" and "tm_old m \<notin> {OldPrepareIntent, OldForceStopIntent}"
  shows "tm_old m \<in> {OldDrained, OldResumeIntent}"
proof -
  have "tm_old m \<notin> {OldCommitIntent, OldCommitted}"
    using assms(1-3) fits_old by (auto simp: valid_iff)
  with assms(4,5) show ?thesis by (cases "tm_old m") (simp_all add: is_settled_def)
qed

text \<open>The records it writes about the bridge.\<close>

lemma members_set_bridge_facts [simp]:
  "any_resuming (set_bridge b j) = any_resuming j" "targets_retired (set_bridge b j) = targets_retired j"
  by (simp_all add: any_resuming_def targets_retired_def)

lemma valid_set_bridge:
  assumes v: "valid_journal api j" and cover: "reload_ok (map tm_id (aj_members j)) b'" "restored_ok (aj_members j) b'"
    and fits: "progress_fits (set_bridge b' j)"
  shows "valid_journal api (set_bridge b' j)"
proof (rule valid_change [OF v _ _ _ _ _ _ fits])
  show "proof_fits api (set_bridge b' j)"
    using v by (subst proof_fits_same [of _ j]) (simp_all add: valid_iff same_phaseD(3) [OF same_phase_set(2)])
  show "reload_ok (map tm_id (aj_members (set_bridge b' j))) b \<and> restored_ok (aj_members (set_bridge b' j)) b"
    if "bridge_progress_of (set_bridge b' j) = Some b" for b
    using that cover by (simp split: if_splits)
qed (use v in \<open>simp_all add: valid_iff option.map_comp comp_def\<close>)

lemma valid_bridge_step:
  assumes v: "valid_journal api j" and r: "rolling j" and b: "bridge_progress_of j = Some b"
    and ret: "targets_retired j" and nr: "any_resuming j \<Longrightarrow> is_restored b'"
    and cover: "reload_ok (map tm_id (aj_members j)) b'" "restored_ok (aj_members j) b'"
  shows "valid_journal api (set_bridge b' j)"
proof (rule valid_set_bridge [OF v cover])
  from b have "aj_bridge j \<noteq> None" by (auto simp: bridge_progress_of_def)
  then show "progress_fits (set_bridge b' j)"
    using v r ret nr rolling_fits [OF r] rolling_fits [of "set_bridge b' j"] by (auto simp: valid_iff)
qed

lemma valid_bridge_plain:
  assumes "valid_journal api j" and "rolling j" and "bridge_progress_of j = Some b" and "targets_retired j"
    and "\<not> is_restored b" and "reload_coverage b' = None" and "\<not> is_restored b'"
  shows "valid_journal api (set_bridge b' j)"
proof (rule valid_bridge_step [OF assms(1-4)])
  show "is_restored b'" if "any_resuming j"
    using that assms rolling_fits [OF assms(2)] by (auto simp: valid_iff)
  show "reload_ok (map tm_id (aj_members j)) b'" using assms(6) by (simp add: reload_ok_def)
  show "restored_ok (aj_members j) b'" using assms(7) by (rule restored_ok_trivial)
qed

text \<open>The terminal record.\<close>

lemma rolled_back_progress [simp]:
  "aj_members (enter_rolled_back j) = aj_members j" "aj_bridge (enter_rolled_back j) = aj_bridge j"
  "tp_ready_proof (aj_progress (enter_rolled_back j)) = None"
  "directive (enter_rolled_back j) = (if is_forced j then DirectRetryForce else DirectCleanupRolledBack)"
  by (simp_all add: enter_rolled_back_def enter_def aj_members_def aj_bridge_def aj_progress_def directive_def Let_def)

lemma rolled_back_phase:
  "\<not> proof_phase (aj_transaction (enter_rolled_back j))"
  "old_fits (aj_transaction (enter_rolled_back j)) = {OldPending, if is_forced j then OldForceStopped else OldResumed}"
  "target_fits (aj_transaction (enter_rolled_back j)) = {TargetAbsent, TargetRetired}"
  by (auto simp: enter_rolled_back_def enter_def Let_def)

lemma valid_rolled_back:
  assumes v: "valid_journal api j" and r: "rolling j" and settled: "\<forall>m \<in> set (aj_members j). is_settled (tm_old m)"
    and ret: "targets_retired j" and b: "\<And>b. bridge_progress_of j = Some b \<Longrightarrow> is_restored b"
  shows "valid_journal api (enter_rolled_back j)"
proof -
  let ?k = "enter_rolled_back j"
  have fits: "progress_fits ?k"
  proof -
    have "tm_old m \<in> old_fits (aj_transaction ?k)" if "m \<in> set (aj_members j)" for m
    proof -
      from v that have "check_stop_kind api j m = Inr ()" by (simp add: valid_iff)
      from stop_kind_cases [OF this] settled that show ?thesis
        by (auto simp: rolled_back_phase is_settled_def)
    qed
    moreover have "is_forced ?k = is_forced j" by (rule frameD(8)) simp
    moreover have "bridge_fits ?k c" if "is_restored c" for c
      using that by (simp add: bridge_fits_def enter_rolled_back_def enter_def Let_def)
    moreover have "rollback_barrier ?k"
      by (simp add: rollback_barrier_def enter_rolled_back_def enter_def Let_def)
    moreover have "bt_progress y \<in> Collect is_restored" if "aj_bridge j = Some y" for y
      using b that by (simp add: bridge_progress_of_def)
    moreover have "phase_directive (aj_transaction ?k) = DirectRetryForce \<longrightarrow> is_forced j"
      by (simp add: enter_rolled_back_def enter_def Let_def)
    ultimately show ?thesis
      using ret by (auto simp: progress_fits_def members_fit_def rolled_back_phase targets_retired_def list_all_iff
          split: option.split)
  qed
  have "aj_schema_version ?k = aj_schema_version j" by (rule frameD(1)) simp
  then have "proof_fits api ?k"
    using v rolled_back_phase(1) [of j] by (auto simp: proof_fits_def Let_def valid_iff)
  with v fits show ?thesis
    by (rule_tac valid_change [of api j]) (use v valid_bridge_facts(1,2) [OF v] in \<open>auto simp: valid_iff bridge_progress_of_def\<close>)
qed

end
