(* ===== verification/Activation_Audit.thy ===== *)
theory Activation_Audit
  imports Activation_Invariant
begin

text \<open>
  The write-ahead discipline of an activation: what the record on disk must say before an effect may
  be attempted, which record may follow which, and the proof that the rollback interpreter keeps to
  both. A run that is cut off leaves a prefix of its trace, so the audit of a trace covers every crash.
\<close>

section \<open>What a record permits\<close>

definition member_with :: "activation_journal \<Rightarrow> member_transaction_id \<Rightarrow> (transaction_member \<Rightarrow> bool) \<Rightarrow> bool" where
  "member_with j i P \<longleftrightarrow> (\<exists>m \<in> set (aj_members j). tm_id m = i \<and> P m)"

definition bridge_at :: "activation_journal \<Rightarrow> bridge_progress set \<Rightarrow> bool" where
  "bridge_at j bs \<longleftrightarrow> (\<exists>b \<in> bs. bridge_progress_of j = Some b)"

definition bridge_done :: "activation_journal \<Rightarrow> bool" where
  "bridge_done j \<longleftrightarrow> (\<forall>b. bridge_progress_of j = Some b \<longrightarrow> is_restored b)"

definition all_committed :: "activation_journal \<Rightarrow> bool" where
  "all_committed j \<longleftrightarrow>
     (\<forall>m \<in> set (aj_members j). tm_old m \<in> {OldCommitted, OldForceStopped} \<and> tm_target m = TargetCommitted)"

definition committing :: "activation_api \<Rightarrow> activation_journal \<Rightarrow> bool" where
  "committing api j \<longleftrightarrow> (\<exists>p. aj_transaction j = Committing p) \<and> has_commit_certificate api j"

fun permits :: "activation_api \<Rightarrow> activation_journal \<Rightarrow> tx_effect \<Rightarrow> bool" where
  "permits api j EnsureArtifacts \<longleftrightarrow> directive j = DirectPrepare \<and> bridge_at j {ArtifactsPending}"
| "permits api j (PrepareOld i) \<longleftrightarrow> directive j = DirectPrepare \<and> member_with j i (\<lambda>m. tm_old m = OldPrepareIntent)"
| "permits api j (RetireForced i) \<longleftrightarrow> directive j = DirectPrepare \<and> member_with j i (\<lambda>m. tm_old m = OldForceStopIntent)"
| "permits api j (KillForced i) \<longleftrightarrow> directive j = DirectPrepare
     \<and> member_with j i (\<lambda>m. tm_old m = OldForceStopIntent \<and> map_option fs_hard_stop_intent (tm_forced_stop m) = Some True)"
| "permits api j (RemoveSocket i) \<longleftrightarrow> directive j = DirectPrepare \<and> member_with j i (\<lambda>m. tm_old m = OldForceStopped)"
| "permits api j (SpawnTarget i) \<longleftrightarrow> directive j = DirectActivate \<and> member_with j i (\<lambda>m. tm_target m = TargetSpawnIntent)"
| "permits api j InstallTarget \<longleftrightarrow> directive j = DirectActivate \<and> bridge_at j {TargetInstallIntent}"
| "permits api j (ReloadTarget i) \<longleftrightarrow> directive j = DirectActivate \<and> bridge_at j (range (TargetReloading (Some i)))"
| "permits api j (CommitOld i) \<longleftrightarrow> committing api j \<and> member_with j i (\<lambda>m. tm_old m = OldCommitIntent)"
| "permits api j (CommitTarget i) \<longleftrightarrow> committing api j \<and> member_with j i (\<lambda>m. tm_target m = TargetCommitIntent)
     \<and> (\<forall>m \<in> set (aj_members j). tm_old m \<in> {OldCommitted, OldForceStopped})"
| "permits api j PublishPrevious \<longleftrightarrow> committing api j \<and> bridge_at j {PreviousPublishIntent, ReceiptPublished} \<and> all_committed j"
| "permits api j PublishReceipt \<longleftrightarrow> committing api j \<and> bridge_at j {ReceiptIntent, ReceiptPublished} \<and> all_committed j"
| "permits api j (StopTarget i) \<longleftrightarrow> rolling j
     \<and> member_with j i (\<lambda>m. tm_target m = TargetRetireIntent \<and> tm_target_retirement m \<noteq> None)"
| "permits api j (WriteStopReceipt i) \<longleftrightarrow> rolling j
     \<and> member_with j i (\<lambda>m. tm_target m = TargetRetireIntent \<and> tm_target_retirement m \<noteq> None)"
| "permits api j InstallOld \<longleftrightarrow> rolling j \<and> targets_retired j \<and> bridge_at j {OldInstallIntent}"
| "permits api j PublishTargetPrevious \<longleftrightarrow> rolling j \<and> targets_retired j \<and> bridge_at j {TargetPreviousIntent}"
| "permits api j RestoreReceipt \<longleftrightarrow> rolling j \<and> targets_retired j \<and> bridge_at j {OldReceiptIntent}"
| "permits api j (ReloadOld i) \<longleftrightarrow> rolling j \<and> targets_retired j \<and> bridge_at j (range (OldReloading (Some i)))"
| "permits api j (RestoreRow i) \<longleftrightarrow> rolling j \<and> targets_retired j \<and> bridge_done j"
| "permits api j (ResumeOld i) \<longleftrightarrow> rolling j \<and> targets_retired j \<and> bridge_done j
     \<and> member_with j i (\<lambda>m. tm_old m = OldResumeIntent)"
| "permits api j (RemoveReceipt i) \<longleftrightarrow> directive j \<in> {DirectCleanupCommitted, DirectCleanupRolledBack}"
| "permits api j RemoveArtifacts \<longleftrightarrow> directive j \<in> {DirectCleanupCommitted, DirectCleanupRolledBack}"

section \<open>Which record follows which\<close>

fun phase_follows :: "transaction_phase \<Rightarrow> transaction_phase \<Rightarrow> bool" where
  "phase_follows (Preparing _) ph \<longleftrightarrow> phase_directive ph \<in> {DirectPrepare, DirectActivate, DirectRollBack}"
| "phase_follows (Activating _) ph \<longleftrightarrow>
     phase_directive ph \<in> {DirectActivate, DirectRollBack} \<or> (\<exists>p. ph = ReadyPhase p)"
| "phase_follows (ReadyPhase _) ph \<longleftrightarrow> phase_directive ph = DirectCommit"
| "phase_follows (Committing _) ph \<longleftrightarrow> (\<exists>p. ph = Committing p \<or> ph = Committed p)"
| "phase_follows (RollingBack _ _) ph \<longleftrightarrow>
     phase_directive ph \<in> {DirectRollBack, DirectCleanupRolledBack, DirectRetryForce}"
| "phase_follows _ ph \<longleftrightarrow> False"

text \<open>A trace is that of one transaction: once its record is gone, no record follows.\<close>

definition follows :: "activation_journal option \<Rightarrow> activation_journal \<Rightarrow> bool" where
  "follows d j \<longleftrightarrow>
     (case d of
        None \<Rightarrow> False
      | Some k \<Rightarrow> frame j = frame k \<and> map tm_id (aj_members j) = map tm_id (aj_members k)
          \<and> phase_follows (aj_transaction k) (aj_transaction j))"

fun disk_after :: "activation_journal option \<Rightarrow> tx_event list \<Rightarrow> activation_journal option" where
  "disk_after d [] = d"
| "disk_after d (Saved j # es) = disk_after (Some j) es"
| "disk_after d (Removed # es) = disk_after None es"
| "disk_after d (_ # es) = disk_after d es"

fun audit :: "activation_api \<Rightarrow> activation_journal option \<Rightarrow> tx_event list \<Rightarrow> bool" where
  "audit api d [] \<longleftrightarrow> True"
| "audit api d (Saved j # es) \<longleftrightarrow> valid_journal api j \<and> follows d j \<and> audit api (Some j) es"
| "audit api d (Did x # es) \<longleftrightarrow> (\<exists>j. d = Some j \<and> permits api j x) \<and> audit api d es"
| "audit api d (Removed # es) \<longleftrightarrow>
     (\<exists>j. d = Some j \<and> directive j \<in> {DirectCleanupCommitted, DirectCleanupRolledBack}) \<and> audit api None es"
| "audit api d (Refused # es) \<longleftrightarrow> audit api d es"

lemma disk_append [simp]: "disk_after d (xs @ ys) = disk_after (disk_after d xs) ys"
  by (induction d xs rule: disk_after.induct) simp_all

lemma audit_append [simp]: "audit api d (xs @ ys) \<longleftrightarrow> audit api d xs \<and> audit api (disk_after d xs) ys"
  by (induction api d xs rule: audit.induct) auto

lemma audit_quiet:
  assumes "set es \<subseteq> insert Refused (Did ` A)" and "\<And>x. x \<in> A \<Longrightarrow> \<exists>j. d = Some j \<and> permits api j x"
  shows "audit api d es" and "disk_after d es = d"
  using assms by (induction es; fastforce)+

section \<open>States of a run\<close>

text \<open>The trace so far is in order, and the record on disk is the last one it saved.\<close>

definition sound :: "activation_api \<Rightarrow> activation_journal option \<Rightarrow> tx_state \<Rightarrow> bool" where
  "sound api d s \<longleftrightarrow> audit api d (tx_trace s) \<and> tx_disk s = disk_after d (tx_trace s)"

text \<open>\<open>blames\<close>: an error of the operation comes from outside.\<close>

definition blames :: "'a tx \<Rightarrow> bool" where
  "blames m \<longleftrightarrow> (\<forall>s e t. m s = (Inl e, t) \<longrightarrow> Refused \<in> set (tx_trace t))"

named_theorems blames_intros \<open>rules for \<open>blames\<close>\<close>

lemma blames_simple [blames_intros]:
  "blames (tret a)" "blames (tget f)" "blames (tmod g)" "blames (ask q)" "blames (log_event x)" "blames (on_journal h)"
  by (simp_all add: blames_def tret_def tget_def tmod_def ask_def log_event_def on_journal_def)

lemma blames_refuse [blames_intros]: "blames (refuse_with e)"
  by (simp add: blames_def refuse_with_def tbind_def log_event_def tmod_def tfail_def)

lemma blames_bind [blames_intros]: "blames m \<Longrightarrow> (\<And>a. blames (f a)) \<Longrightarrow> blames (tbind m f)"
  by (auto simp: blames_def tbind_def split: prod.splits sum.splits)

lemma blames_answered [blames_intros]: "blames (answered m e)"
  by (cases m) (simp_all add: answered_def blames_intros)

lemma blames_demand [blames_intros]: "blames (demand b e)"
  by (simp add: demand_def blames_intros)

lemma blames_lift [blames_intros]: "r = Inr a \<Longrightarrow> blames (tlift r)"
  by (simp add: tlift_def blames_intros)

lemma blames_expect [blames_intros]: "m = Some a \<Longrightarrow> blames (expect m e)"
  by (simp add: expect_def blames_intros)

lemma blames_outside [blames_intros]: "blames (outside_result r)"
  by (cases r) (simp_all add: outside_result_def blames_intros)

lemma blames_effect [blames_intros]: "blames (effect env e x)"
  unfolding effect_def by (intro blames_intros)

lemma blames_request [blames_intros]: "blames (request env x)"
  unfolding request_def by (intro blames_intros)

lemma blames_connect [blames_intros]: "blames (connect env)" "blames (query_status env)" "blames (fetch_status env)"
  unfolding fetch_status_def connect_def query_status_def by (intro blames_intros)+

lemma blames_hook [blames_intros]: "blames (hook env step)"
  by (simp add: hook_def blames_intros)

lemma blames_actor_hook [blames_intros]: "blames (actor_hook env actor step)"
  by (cases actor) (simp_all add: blames_intros)

lemma blames_teach [blames_intros]: "(\<And>x. x \<in> set xs \<Longrightarrow> blames (f x)) \<Longrightarrow> blames (teach f xs)"
  by (induction xs) (auto intro!: blames_intros)

lemma blames_resume_session [blames_intros]: "blames (resume_over_session env m j)"
  unfolding resume_over_session_def
  by (intro blames_intros) (auto intro!: blames_intros split: resume_evidence.split)

text \<open>Recovery has no operation that can go wrong by itself.\<close>

fun recovering :: "actor \<Rightarrow> bool" where
  "recovering (RecoveryActor _ _ _) \<longleftrightarrow> True"
| "recovering (NormalActor _) \<longleftrightarrow> False"

lemma blames_resolve [blames_intros]: "recovering actor \<Longrightarrow> blames (resolve_prepare env actor m j)"
  unfolding resolve_prepare_def by (cases actor) (auto intro!: blames_intros)

lemma blames_authority [blames_intros]: "recovering actor \<Longrightarrow> blames (target_retirement_authority env actor m j)"
  by (cases actor) (auto intro!: blames_intros)

lemma blames_spawn [blames_intros]: "recovering actor \<Longrightarrow> blames (resolve_target_spawn env actor m j)"
  by (cases actor) (auto intro!: blames_intros simp del: target_retirement_authority.simps)

lemma blames_retire [blames_intros]:
  "recovering actor \<Longrightarrow> authority = RemoteServer server \<Longrightarrow> blames (retire_target env actor m j authority)"
  by (cases actor) (auto intro!: blames_intros)

lemma blames_release [blames_intros]: "recovering actor \<Longrightarrow> blames (release_retired_target actor m)"
  by (cases actor) (auto intro!: blames_intros)

lemma blames_resume [blames_intros]: "recovering actor \<Longrightarrow> blames (resume_old env actor m j)"
  by (cases actor) (auto intro!: blames_intros split: resume_evidence.split)

lemma no_snapshot: "recovering actor \<Longrightarrow> \<not> can_snapshot actor m targets"
  by (cases actor) simp_all

lemma blames_build [blames_intros]: "recovering actor \<Longrightarrow> blames (build_intent env actor j m authority)"
  unfolding build_intent_def
  by (intro blames_intros) (auto intro!: blames_intros simp: no_snapshot split: retirement_authority.split)

lemma blames_declare [blames_intros]: "recovering actor \<Longrightarrow> blames (declare_intent env actor n prepared j)"
  unfolding declare_intent_def no_receipt_yet_def
  by (intro blames_intros) (auto intro!: blames_intros split: option.split)

lemma bind_lift_ok [simp]: "tbind (tlift (Inr a)) f = f a"
  by (intro ext) (simp add: tbind_def tlift_def tret_def)

lemma bind_expect_ok [simp]: "tbind (expect (Some a) e) f = f a"
  by (intro ext) (simp add: tbind_def expect_def tret_def)

lemma blames_has_receipt [blames_intros]:
  assumes "retirement_intent_of m = Inr i" and "validate_intent (ev_api env) j m i = Inr ()"
  shows "blames (has_stop_receipt env j m)"
  unfolding has_stop_receipt_def
  by (auto simp: assms intro!: blames_intros split: receipt_file.split)

lemma blames_write_receipt [blames_intros]:
  assumes "retirement_intent_of m = Inr i" and "validate_intent (ev_api env) j m i = Inr ()"
  shows "blames (write_stop_receipt env j m)"
  unfolding write_stop_receipt_def by (simp add: assms blames_intros)

section \<open>Preconditions over the trace\<close>

text \<open>
  \<open>quiet\<close> states are those an operation of \<open>leaves\<close> may reach; a rule for each kind of operation
  turns a goal about it into goals about records.
\<close>

definition settled_error :: "activation_api \<Rightarrow> activation_journal option \<Rightarrow> bool \<Rightarrow> activate_error \<Rightarrow> tx_state \<Rightarrow> bool" where
  "settled_error api d G e t \<longleftrightarrow> sound api d t \<and> (G \<longrightarrow> Refused \<in> set (tx_trace t))"

lemma wp_quiet:
  assumes "sound api d s" and "leaves A m" and "G \<Longrightarrow> blames m"
    and "\<And>x. x \<in> A \<Longrightarrow> \<exists>j. tx_disk s = Some j \<and> permits api j x"
    and "\<And>a t. m s = (Inr a, t) \<Longrightarrow> sound api d t \<Longrightarrow> tx_journal t = tx_journal s \<Longrightarrow> tx_disk t = tx_disk s
          \<Longrightarrow> tx_scope t = tx_scope s \<Longrightarrow> Q a t"
  shows "wp m Q (settled_error api d G) s"
proof -
  obtain r t where m: "m s = (r, t)" by (cases "m s")
  from assms(2) [unfolded leaves_def Let_def, rule_format, of s] m
  obtain es where t: "tx_journal t = tx_journal s" "tx_disk t = tx_disk s" "tx_scope t = tx_scope s"
    "tx_trace t = tx_trace s @ es" and es: "set es \<subseteq> insert Refused (Did ` A)" by auto
  from assms(1) have d: "tx_disk s = disk_after d (tx_trace s)" by (simp add: sound_def)
  from audit_quiet [OF es, of "tx_disk s" api] assms(4)
  have "audit api (tx_disk s) es" "disk_after (tx_disk s) es = tx_disk s" by blast+
  with assms(1) t d have sound: "sound api d t" by (simp add: sound_def)
  show ?thesis
  proof (cases r)
    case (Inl e)
    with m assms(3) sound show ?thesis by (auto simp: wp_def settled_error_def blames_def)
  next
    case (Inr a)
    with m t sound assms(5) show ?thesis by (auto simp: wp_def)
  qed
qed

text \<open>A write that the validator accepts either reaches the disk, or is refused.\<close>

definition synced :: "tx_state \<Rightarrow> bool" where
  "synced s \<longleftrightarrow> tx_disk s = Some (tx_journal s)"

lemma wp_write:
  assumes "sound (ev_api env) d s" and "valid_journal (ev_api env) (tx_journal s)" and "follows (tx_disk s) (tx_journal s)"
    and "\<And>t. sound (ev_api env) d t \<Longrightarrow> synced t \<Longrightarrow> tx_journal t = tx_journal s \<Longrightarrow> tx_scope t = tx_scope s \<Longrightarrow> Q () t"
  shows "wp (write_journal env) Q (settled_error (ev_api env) d G) s"
proof -
  have d: "tx_disk s = disk_after d (tx_trace s)" and a: "audit (ev_api env) d (tx_trace s)"
    using assms(1) by (simp_all add: sound_def)
  have "audit (ev_api env) (disk_after d (tx_trace s)) [Saved (tx_journal s)]"
    using assms(2,3) d by simp
  with a assms d show ?thesis
    by (simp add: write_journal_def wp_simps valid_journal_def settled_error_def sound_def synced_def installed_def
        split: write_answer.split)
qed

end
