(* ===== verification/Activation_Recovery.thy ===== *)
theory Activation_Recovery
  imports Activation_Audit
begin

text \<open>
  The rollback interpreter keeps the discipline of \<open>Activation_Audit\<close>, turn by turn, and what a drive
  ends with: the terminal record, a step that is left to somebody else, or an error.
\<close>

section \<open>A rollback under way\<close>

definition steady :: "activation_api \<Rightarrow> activation_journal \<Rightarrow> bool" where
  "steady api j \<longleftrightarrow>
     valid_journal api j \<and> rolling j \<and> (\<forall>m \<in> set (aj_members j). tm_old m \<noteq> OldForceStopIntent)
     \<and> distinct (map tm_id (aj_members j))"

text \<open>
  When recovery can only be held up from outside: the stop requests it finds are its own to execute,
  and the rows to restore were saved.
\<close>

definition remote_stops :: "activation_journal \<Rightarrow> bool" where
  "remote_stops j \<longleftrightarrow>
     (\<forall>m \<in> set (aj_members j). tm_target m = TargetRetireIntent
        \<longrightarrow> (\<exists>i server. tm_target_retirement m = Some i \<and> ri_authority i = RemoteServer server))"

definition rows_saved :: "activation_journal \<Rightarrow> bool" where
  "rows_saved j \<longleftrightarrow> (\<forall>m \<in> set (aj_members j). find (same_place m) (aj_old_registry j) \<noteq> None)"

definition careful :: "actor \<Rightarrow> activation_journal \<Rightarrow> bool" where
  "careful actor j \<longleftrightarrow> recovering actor \<and> remote_stops j \<and> rows_saved j"

definition under_way :: "activation_api \<Rightarrow> activation_journal option \<Rightarrow> actor \<Rightarrow> bool \<Rightarrow> tx_state \<Rightarrow> bool" where
  "under_way api d actor G s \<longleftrightarrow>
     sound api d s \<and> synced s \<and> steady api (tx_journal s) \<and> (G \<longrightarrow> careful actor (tx_journal s))"

lemma sound_journal [simp]: "sound api d (s\<lparr>tx_journal := j\<rparr>) = sound api d s"
  by (simp add: sound_def)

lemma rolling_follows:
  assumes "rolling k" and "frame j = frame k" and "map tm_id (aj_members j) = map tm_id (aj_members k)"
    and "directive j \<in> {DirectRollBack, DirectCleanupRolledBack, DirectRetryForce}"
  shows "follows (Some k) j"
  using assms by (cases "aj_transaction k") (simp_all add: follows_def rolling_def directive_def)

lemma wp_save:
  assumes "sound (ev_api env) d t" and "tx_disk t = Some k" and "rolling k" and "steady (ev_api env) j"
    and "frame j = frame k" and "map tm_id (aj_members j) = map tm_id (aj_members k)" and "G \<Longrightarrow> careful actor j"
  shows "wp (write_journal env) (\<lambda>_. under_way (ev_api env) d actor G) (settled_error (ev_api env) d G') (t\<lparr>tx_journal := j\<rparr>)"
proof (rule wp_write)
  show "follows (tx_disk (t\<lparr>tx_journal := j\<rparr>)) (tx_journal (t\<lparr>tx_journal := j\<rparr>))"
    using assms by (simp add: rolling_follows steady_def rolling_iff)
qed (use assms in \<open>auto simp: steady_def under_way_def\<close>)

lemma steady_update:
  assumes "steady api j" and "n < length (aj_members j)" and "valid_journal api (update_member n f j)"
    and "tm_id (f (aj_members j ! n)) = tm_id (aj_members j ! n)" and "tm_old (f (aj_members j ! n)) \<noteq> OldForceStopIntent"
  shows "steady api (update_member n f j)"
  unfolding steady_def
proof (intro conjI)
  show "\<forall>m \<in> set (aj_members (update_member n f j)). tm_old m \<noteq> OldForceStopIntent"
    unfolding aj_members_update by (rule list_update_all) (use assms in \<open>simp_all add: steady_def\<close>)
  show "distinct (map tm_id (aj_members (update_member n f j)))"
    using assms by (simp add: map_update_same steady_def)
qed (use assms in \<open>simp_all add: steady_def\<close>)

lemma steady_bridge:
  "steady api j \<Longrightarrow> valid_journal api (set_bridge b j) \<Longrightarrow> steady api (set_bridge b j)"
  by (simp add: steady_def)

lemma careful_update:
  assumes "careful actor j" and "n < length (aj_members j)"
    and "same_place (f (aj_members j ! n)) = same_place (aj_members j ! n)"
    and "tm_target (f (aj_members j ! n)) = TargetRetireIntent
      \<Longrightarrow> \<exists>i server. tm_target_retirement (f (aj_members j ! n)) = Some i \<and> ri_authority i = RemoteServer server"
  shows "careful actor (update_member n f j)"
proof -
  have "aj_old_registry (update_member n f j) = aj_old_registry j" by (rule frameD(7)) simp
  moreover have "\<forall>m \<in> set ((aj_members j)[n := f (aj_members j ! n)]). find (same_place m) (aj_old_registry j) \<noteq> None"
    by (rule list_update_all) (use assms in \<open>auto simp: careful_def rows_saved_def\<close>)
  moreover have "\<forall>m \<in> set ((aj_members j)[n := f (aj_members j ! n)]). tm_target m = TargetRetireIntent
      \<longrightarrow> (\<exists>i server. tm_target_retirement m = Some i \<and> ri_authority i = RemoteServer server)"
    by (rule list_update_all) (use assms in \<open>auto simp: careful_def remote_stops_def\<close>)
  ultimately show ?thesis
    using assms(1) unfolding careful_def rows_saved_def remote_stops_def aj_members_update by simp
qed

lemma careful_bridge: "careful actor (set_bridge b j) = careful actor j"
  using frameD(7) [of "set_bridge b j" j] by (simp add: careful_def rows_saved_def remote_stops_def)

lemma same_place_id: "tm_authority m = tm_authority m' \<Longrightarrow> same_place m = same_place m'"
  by (intro ext) (simp add: same_place_def tm_endpoint_def tm_member_def)

lemma careful_old:
  assumes "careful actor j" and "n < length (aj_members j)"
  shows "careful actor (set_old n o' j)"
  unfolding set_old_def
proof (rule careful_update [OF assms])
  assume "tm_target ((aj_members j ! n)\<lparr>tm_old := o'\<rparr>) = TargetRetireIntent"
  with assms nth_mem [OF assms(2)] show "\<exists>i server. tm_target_retirement ((aj_members j ! n)\<lparr>tm_old := o'\<rparr>) = Some i
      \<and> ri_authority i = RemoteServer server"
    by (simp add: careful_def remote_stops_def)
qed (rule same_place_id, simp)

section \<open>Members\<close>

lemma resolve_prepare_sound:
  assumes u: "under_way (ev_api env) d actor G s" and c: "chosen_for actor (tx_journal s) (ResolvePrepare n)"
  shows "wp (resolve_prepare_step env actor n) (\<lambda>_. under_way (ev_api env) d actor G) (settled_error (ev_api env) d G) s"
  unfolding resolve_prepare_step_def wp_simps
proof (rule wp_quiet [where A = "{}"])
  let ?j = "tx_journal s"
  show "blames (resolve_prepare env actor (aj_members ?j ! n) ?j)" if G
    using that u by (intro blames_intros) (simp add: under_way_def careful_def)
  fix a t assume t: "sound (ev_api env) d t" "tx_journal t = ?j" "tx_disk t = tx_disk s"
  let ?o = "case a of ResolvedPending \<Rightarrow> OldPending | ResolvedDrained \<Rightarrow> OldDrained"
  have o': "?o \<in> {OldPending, OldDrained}" by (cases a) simp_all
  from u have st: "steady (ev_api env) ?j" by (simp add: under_way_def)
  have "valid_journal (ev_api env) (set_old n ?o ?j)"
    using st c o' by (intro valid_resolved) (simp_all add: steady_def)
  then have "steady (ev_api env) (set_old n ?o ?j)"
    unfolding set_old_def using st c o' by (intro steady_update) auto
  then show "wp (write_journal env) (\<lambda>_. under_way (ev_api env) d actor G) (settled_error (ev_api env) d G)
      (t\<lparr>tx_journal := set_old n ?o (tx_journal t)\<rparr>)"
    unfolding t(2) using t u c st
    by (intro wp_save [where k = ?j])
       (auto simp: under_way_def synced_def steady_def set_old_def map_update_same
          intro: careful_old [unfolded set_old_def])
qed (use u in \<open>auto simp: under_way_def intro: leaves_intros\<close>)

text \<open>A declared intent is valid for the member it is declared for.\<close>

lemma length_hex_text: "length (concat (map (\<lambda>b. [f b, g b]) bs)) = 2 * length bs"
  by (induction bs) simp_all

lemma digest_digit_ok:
  assumes "d < 16"
  shows "(0x30 \<le> digest_digit d \<and> digest_digit d \<le> 0x39) \<or> (0x61 \<le> digest_digit d \<and> digest_digit d \<le> 0x66)"
proof -
  from assms have lt: "unat d < 16" by (simp add: word_less_nat_alt)
  then have "unat (ucast d :: 32 word) = unat d" by (simp add: unsigned_ucast_eq take_bit_nat_eq_self)
  with lt show ?thesis
    by (auto simp: digest_digit_def word_le_nat_alt word_less_nat_alt unat_word_ariths)
qed

lemma hex_text_valid:
  assumes "length bs = 32"
  shows "hex_id_is_valid (concat (map (\<lambda>b. [digest_digit (drop_bit 4 b), digest_digit (b AND 0xF)]) bs))" (is "hex_id_is_valid ?t")
proof -
  have low: "b AND 0xF < 16" for b :: u8
  proof -
    have "b AND 0xF = take_bit 4 b" by (simp add: take_bit_eq_mask mask_eq_exp_minus_1)
    then have "unat (b AND 0xF) = take_bit 4 (unat b)" by (simp only: unat_take_bit)
    moreover have "take_bit 4 (unat b) < 16" by (simp add: take_bit_eq_mod)
    ultimately show ?thesis by (simp add: word_less_nat_alt)
  qed
  have high: "drop_bit 4 b < 16" for b :: u8
  proof -
    have "unat (drop_bit 4 b) = drop_bit 4 (take_bit 8 (unat b))" using unsigned_drop_bit_eq [of 4 b] by (simp del: drop_bit_eq_div)
    then show ?thesis by (simp add: word_less_nat_alt drop_bit_eq_div take_bit_eq_mod)
  qed
  have "list_all (\<lambda>c. (0x30 \<le> c \<and> c \<le> 0x39) \<or> (0x61 \<le> c \<and> c \<le> 0x66)) ?t"
    using digest_digit_ok low high by (auto simp: list_all_iff)
  then have hex: "is_lower_hex ?t" by (simp add: is_lower_hex_def)
  have "length (encode_utf8 c) = 1" if "c \<in> set ?t" for c
  proof -
    from that hex have "c < 0x80" by (auto simp: is_lower_hex_def list_all_iff word_less_nat_alt word_le_nat_alt)
    then show ?thesis by (simp add: encode_utf8_def)
  qed
  then have "str_len ?t = sum_list (map (\<lambda>_. 1) ?t)"
    unfolding str_len_def by (intro arg_cong [of _ _ sum_list] map_cong) simp_all
  then have "str_len ?t = length ?t" by (simp add: sum_list_triv)
  with hex assms show ?thesis by (simp add: hex_id_is_valid_def length_hex_text)
qed

text \<open>What is known of the result of an operation.\<close>

definition gives :: "'a tx \<Rightarrow> ('a \<Rightarrow> bool) \<Rightarrow> bool" where
  "gives m R \<longleftrightarrow> (\<forall>s a t. m s = (Inr a, t) \<longrightarrow> R a)"

lemma gives_any: "gives m (\<lambda>_. True)"
  by (simp add: gives_def)

lemma gives_bind: "gives m R \<Longrightarrow> (\<And>a. R a \<Longrightarrow> gives (f a) S) \<Longrightarrow> gives (tbind m f) S"
  unfolding gives_def tbind_def by (fastforce split: prod.splits sum.splits)

lemma gives_after: "(\<And>a. gives (f a) S) \<Longrightarrow> gives (tbind m f) S"
  by (rule gives_bind [OF gives_any])

lemma gives_ret: "R a \<Longrightarrow> gives (tret a) R"
  by (simp add: gives_def tret_def)

lemma gives_fail: "gives (tfail e) R" "gives (refuse_with e) R"
  by (simp_all add: gives_def tfail_def refuse_with_def tbind_def log_event_def tmod_def)

lemma gives_outside: "(\<And>a. r = Inr a \<Longrightarrow> R a) \<Longrightarrow> gives (outside_result r) R"
  by (cases r) (simp_all add: outside_result_def gives_ret gives_fail)

lemma gives_demand: "gives (demand b e) (\<lambda>_. b)"
  by (simp add: demand_def gives_ret gives_fail)

fun is_remote :: "retirement_authority \<Rightarrow> bool" where
  "is_remote (RemoteServer _) \<longleftrightarrow> True"
| "is_remote (OwnedProcess _) \<longleftrightarrow> False"

lemma authority_remote: "recovering actor \<Longrightarrow> gives (target_retirement_authority env actor m j) is_remote"
  by (cases actor) (auto intro!: gives_after gives_ret)

lemma spawn_remote: "recovering actor \<Longrightarrow> gives (resolve_target_spawn env actor m j) (\<lambda>r. \<forall>a. r = Some a \<longrightarrow> is_remote a)"
  by (cases actor) (auto intro!: gives_bind [OF authority_remote] gives_ret simp del: target_retirement_authority.simps)

definition sound_digests :: "activation_api \<Rightarrow> bool" where
  "sound_digests api \<longleftrightarrow> (\<forall>bytes. length (ap_sha256 api bytes) = 32)"

lemma receipt_id_valid: "sound_digests api \<Longrightarrow> derive_receipt_id api b = Inr r \<Longrightarrow> hex_id_is_valid r"
  by (auto simp: derive_receipt_id_def sha256_hex_def sound_digests_def hex_text_valid split: option.splits)

lemma new_intent_valid:
  assumes "sound_digests api" and "new_retirement_intent api j m a = Inr i"
  shows "validate_intent api j m i = Inr ()" and "ri_authority i = a"
  using assms by (auto simp: new_retirement_intent_def validate_intent_def stopped_endpoint_ok_def result_simps
      intro: receipt_id_valid)

lemma bound_intent_valid:
  assumes "bind_stopped_registration api j m row endpoint i0 = Inr i"
  shows "validate_intent api j m i = Inr ()" and "ri_authority i = ri_authority i0"
  using assms by (auto simp: bind_stopped_registration_def Let_def result_simps)

lemma snapshot_valid:
  assumes "validate_intent (ev_api env) j m i = Inr ()"
  shows "gives (snapshot_owned env j m p i) (\<lambda>i'. validate_intent (ev_api env) j m i' = Inr () \<and> ri_authority i' = ri_authority i)"
  unfolding snapshot_owned_def
  by (intro gives_after) (auto intro!: gives_after gives_ret gives_outside simp: assms bound_intent_valid split: option.split)

definition intent_fits :: "tx_env \<Rightarrow> activation_journal \<Rightarrow> transaction_member \<Rightarrow> bool \<Rightarrow> retirement_intent \<Rightarrow> bool" where
  "intent_fits env j m G i \<longleftrightarrow> validate_intent (ev_api env) j m i = Inr () \<and> (G \<longrightarrow> is_remote (ri_authority i))"

lemma build_fits:
  assumes api: "sound_digests (ev_api env)" and a: "G \<longrightarrow> is_remote a"
  shows "gives (build_intent env actor j m a) (intent_fits env j m G)"
  unfolding build_intent_def
proof (rule gives_bind [where R = "\<lambda>i. validate_intent (ev_api env) j m i = Inr () \<and> ri_authority i = a"])
  show "gives (outside_result (new_retirement_intent (ev_api env) j m a))
      (\<lambda>i. validate_intent (ev_api env) j m i = Inr () \<and> ri_authority i = a)"
    using new_intent_valid [OF api] by (intro gives_outside) blast
  fix i assume i: "validate_intent (ev_api env) j m i = Inr () \<and> ri_authority i = a"
  have "gives (snapshot_owned env j m p i) (intent_fits env j m G)" for p
    using snapshot_valid [of env j m i p] i a by (auto simp: gives_def intent_fits_def)
  then show "gives (tbind (tget tx_owned) (\<lambda>targets. case a of
       OwnedProcess p \<Rightarrow> if is_forced j \<and> can_snapshot actor m targets then snapshot_owned env j m p i else tret i
     | RemoteServer _ \<Rightarrow> tret i)) (intent_fits env j m G)"
    using i a by (intro gives_after) (auto intro!: gives_ret simp: intent_fits_def split: retirement_authority.split)
qed

lemma declare_fits:
  assumes api: "sound_digests (ev_api env)"
    and remote: "G \<Longrightarrow> recovering actor \<and> (\<forall>a. prepared = Some a \<longrightarrow> is_remote a)"
  shows "gives (declare_intent env actor n prepared j) (intent_fits env j (aj_members j ! n) G)"
  unfolding declare_intent_def
proof (rule gives_bind [where R = "\<lambda>a. G \<longrightarrow> is_remote a"])
  show "gives (case prepared of Some a \<Rightarrow> tret a | None \<Rightarrow> target_retirement_authority env actor (aj_members j ! n) j)
      (\<lambda>a. G \<longrightarrow> is_remote a)"
    using remote authority_remote [of actor env "aj_members j ! n" j]
    by (cases prepared) (auto simp: gives_def tret_def)
next
  fix a assume a: "G \<longrightarrow> is_remote a"
  show "gives (tbind (build_intent env actor j (aj_members j ! n) a) (\<lambda>intent. tbind (no_receipt_yet env) (\<lambda>_. tret intent)))
      (intent_fits env j (aj_members j ! n) G)"
    by (rule gives_bind [OF build_fits [OF api a]], rule gives_after, rule gives_ret)
qed

section \<open>Retiring a target\<close>

text \<open>The record while the stop of member \<open>n\<close> is executed.\<close>

definition stopping :: "nat \<Rightarrow> activation_journal \<Rightarrow> bool" where
  "stopping n j \<longleftrightarrow> n < length (aj_members j) \<and> tm_target (aj_members j ! n) = TargetRetireIntent"

lemma write_intent_sound:
  assumes u: "under_way (ev_api env) d actor G t" and n: "n < length (aj_members (tx_journal t))"
    and target: "tm_target (aj_members (tx_journal t) ! n) \<notin> {TargetAbsent, TargetRetired}"
    and i: "intent_fits env (tx_journal t) (aj_members (tx_journal t) ! n) G i"
  shows "wp (write_intent env n i) (\<lambda>_ u. under_way (ev_api env) d actor G u \<and> stopping n (tx_journal u))
      (settled_error (ev_api env) d G) t"
proof -
  let ?j = "tx_journal t" let ?k = "set_intent n TargetRetireIntent (Some i) (tx_journal t)"
  from u have st: "steady (ev_api env) ?j" and so: "sound (ev_api env) d t" and d: "tx_disk t = Some ?j"
    and care: "G \<Longrightarrow> careful actor ?j" by (simp_all add: under_way_def synced_def)
  have "valid_journal (ev_api env) ?k"
    using st n target i by (intro valid_retire_intent) (auto simp: steady_def intent_fits_def)
  then have st': "steady (ev_api env) ?k"
    unfolding set_intent_def using st n by (intro steady_update) (auto simp: steady_def)
  have care': "careful actor ?k" if G
    unfolding set_intent_def using care [OF that] n
  proof (rule careful_update)
    show "\<exists>i' server. tm_target_retirement ((aj_members ?j ! n)\<lparr>tm_target := TargetRetireIntent, tm_target_retirement := Some i\<rparr>) = Some i'
        \<and> ri_authority i' = RemoteServer server"
      using i that by (cases "ri_authority i") (auto simp: intent_fits_def)
  qed (rule same_place_id, simp)
  have "wp (write_journal env) (\<lambda>_. under_way (ev_api env) d actor G) (settled_error (ev_api env) d G) (t\<lparr>tx_journal := ?k\<rparr>)"
    by (rule wp_save [OF so d _ st']) (use st n care' in \<open>auto simp: steady_def set_intent_def map_update_same\<close>)
  moreover have "wp (write_journal env) (\<lambda>_ u. tx_journal u = ?k) (\<lambda>_ _. True) (t\<lparr>tx_journal := ?k\<rparr>)"
    using yields_write [of env ?k] by (simp add: yields_def)
  ultimately have "wp (write_journal env) (\<lambda>_ u. under_way (ev_api env) d actor G u \<and> tx_journal u = ?k)
      (settled_error (ev_api env) d G) (t\<lparr>tx_journal := ?k\<rparr>)"
    by (rule wp_conj [THEN wp_mono]) simp_all
  then have "wp (tbind (on_journal (set_intent n TargetRetireIntent (Some i))) (\<lambda>_. write_journal env))
      (\<lambda>_ u. under_way (ev_api env) d actor G u \<and> stopping n (tx_journal u)) (settled_error (ev_api env) d G) t"
    unfolding wp_simps by (rule wp_mono) (use n in \<open>auto simp: stopping_def set_intent_def\<close>)
  then show ?thesis
    by (auto simp: wp_def write_intent_def Let_def settled_error_def sound_def split: prod.splits sum.splits)
qed

lemma stopping_intent:
  assumes "steady api j" and "stopping n j"
  obtains i where "tm_target_retirement (aj_members j ! n) = Some i"
    and "retirement_intent_of (aj_members j ! n) = Inr i"
    and "validate_intent api j (aj_members j ! n) i = Inr ()"
proof -
  from assms have "check_retirement api j (aj_members j ! n) = Inr ()"
    by (intro valid_member) (simp_all add: steady_def stopping_def)
  with assms(2) that show ?thesis
    by (auto simp: check_retirement_def stopping_def retirement_intent_of_def split: option.splits)
qed

lemma execute_stop_sound:
  assumes u: "under_way (ev_api env) d actor G t" and n: "stopping n (tx_journal t)"
  shows "wp (execute_stop env actor n replaying) (\<lambda>_ v. under_way (ev_api env) d actor G v \<and> tx_journal v = tx_journal t)
      (settled_error (ev_api env) d G) t"
proof -
  let ?j = "tx_journal t" let ?m = "aj_members (tx_journal t) ! n"
  from u have st: "steady (ev_api env) ?j" and so: "sound (ev_api env) d t" and d: "tx_disk t = Some ?j"
    and care: "G \<Longrightarrow> careful actor ?j" by (simp_all add: under_way_def synced_def)
  from stopping_intent [OF st n] obtain i where i: "tm_target_retirement ?m = Some i"
    "retirement_intent_of ?m = Inr i" "validate_intent (ev_api env) ?j ?m i = Inr ()" .
  have in_set: "?m \<in> set (aj_members ?j)" using n by (simp add: stopping_def)
  have remote: "\<exists>server. ri_authority i = RemoteServer server" if G
    using care [OF that] n i in_set by (auto simp: careful_def remote_stops_def stopping_def)
  have rec: "recovering actor" if G using care [OF that] by (simp add: careful_def)
  have blame: "blames (execute_stop_on env actor ?j ?m replaying)" if G
    using remote [OF that] rec [OF that] i
    unfolding execute_stop_on_def by (auto intro!: blames_intros)
  have "wp (execute_stop_on env actor ?j ?m replaying)
      (\<lambda>_ v. under_way (ev_api env) d actor G v \<and> tx_journal v = ?j) (settled_error (ev_api env) d G) t"
  proof (rule wp_quiet [OF so, where A = "{StopTarget (tm_id ?m), WriteStopReceipt (tm_id ?m)}"])
    show "leaves {StopTarget (tm_id ?m), WriteStopReceipt (tm_id ?m)} (execute_stop_on env actor ?j ?m replaying)"
      unfolding execute_stop_on_def by (intro leaves_intros) (auto intro!: leaves_intros)
    fix x assume "x \<in> {StopTarget (tm_id ?m), WriteStopReceipt (tm_id ?m)}"
    then show "\<exists>j. tx_disk t = Some j \<and> permits (ev_api env) j x"
      using st d n i in_set by (auto simp: steady_def member_with_def stopping_def intro!: bexI [of _ ?m])
  qed (use blame u d in \<open>auto simp: under_way_def synced_def\<close>)
  then show ?thesis by (simp add: execute_stop_def wp_simps)
qed


lemma mark_retired_sound:
  assumes u: "under_way (ev_api env) d actor G t" and n: "stopping n (tx_journal t)"
  shows "wp (tbind (on_journal (set_target n TargetRetired)) (\<lambda>_. write_journal env))
      (\<lambda>_. under_way (ev_api env) d actor G) (settled_error (ev_api env) d G) t"
proof -
  let ?j = "tx_journal t" let ?k = "set_target n TargetRetired (tx_journal t)"
  from u have st: "steady (ev_api env) ?j" and so: "sound (ev_api env) d t" and d: "tx_disk t = Some ?j"
    and care: "G \<Longrightarrow> careful actor ?j" by (simp_all add: under_way_def synced_def)
  from n have len: "n < length (aj_members ?j)" by (simp add: stopping_def)
  have "valid_journal (ev_api env) ?k"
    using st n by (intro valid_retired) (auto simp: steady_def stopping_def)
  then have st': "steady (ev_api env) ?k"
    unfolding set_target_def using st len by (intro steady_update) (auto simp: steady_def)
  have care': "careful actor ?k" if G
    unfolding set_target_def using care [OF that] len
    by (rule careful_update) (rule same_place_id, simp_all)
  show ?thesis
    unfolding wp_simps
    by (rule wp_save [OF so d _ st']) (use st len care' in \<open>auto simp: steady_def set_target_def map_update_same\<close>)
qed

lemma stop_and_mark_sound:
  assumes "under_way (ev_api env) d actor G t" and "stopping n (tx_journal t)"
  shows "wp (tbind (execute_stop env actor n replaying) (\<lambda>_.
        tbind (on_journal (set_target n TargetRetired)) (\<lambda>_. write_journal env)))
      (\<lambda>_. under_way (ev_api env) d actor G) (settled_error (ev_api env) d G) t"
  unfolding wp_bind [of "execute_stop env actor n replaying"]
proof (rule wp_mono [OF execute_stop_sound [OF assms]])
  fix a v assume v: "under_way (ev_api env) d actor G v \<and> tx_journal v = tx_journal t"
  with assms(2) show "wp (tbind (on_journal (set_target n TargetRetired)) (\<lambda>_. write_journal env))
      (\<lambda>_. under_way (ev_api env) d actor G) (settled_error (ev_api env) d G) v"
    by (intro mark_retired_sound) simp_all
qed

lemma retirement_sound:
  assumes api: "sound_digests (ev_api env)" and u: "under_way (ev_api env) d actor G t"
    and n: "n < length (aj_members (tx_journal t))"
    and target: "tm_target (aj_members (tx_journal t) ! n) \<notin> {TargetAbsent, TargetRetired}"
    and prepared: "G \<Longrightarrow> \<forall>a. prepared = Some a \<longrightarrow> is_remote a"
  shows "wp (complete_target_retirement env actor n prepared)
      (\<lambda>_. under_way (ev_api env) d actor G) (settled_error (ev_api env) d G) t"
proof -
  let ?j = "tx_journal t"
  let ?announce = "declare_intent env actor n prepared ?j"
  from u have rec: "G \<Longrightarrow> recovering actor" by (simp add: under_way_def careful_def)
  show ?thesis
  proof (cases "tm_target (aj_members ?j ! n) = TargetRetireIntent")
    case True
    with n have "stopping n ?j" by (simp add: stopping_def)
    from stop_and_mark_sound [OF u this, of True] True show ?thesis
      by (simp add: complete_target_retirement_def wp_get wp_bind wp_ret Let_def)
  next
    case False
    have "wp ?announce (\<lambda>i. wp (write_intent env n i) (\<lambda>_ v. under_way (ev_api env) d actor G v \<and> stopping n (tx_journal v))
        (settled_error (ev_api env) d G)) (settled_error (ev_api env) d G) t"
    proof (rule wp_quiet [where A = "{}"])
      fix i v
      assume run: "?announce t = (Inr i, v)" and v: "sound (ev_api env) d v" "tx_journal v = ?j" "tx_disk v = tx_disk t"
      have "gives ?announce (intent_fits env ?j (aj_members ?j ! n) G)"
        using rec prepared by (intro declare_fits [OF api]) auto
      with run have "intent_fits env ?j (aj_members ?j ! n) G i" by (auto simp: gives_def)
      moreover from u v have "under_way (ev_api env) d actor G v" by (simp add: under_way_def synced_def)
      ultimately show "wp (write_intent env n i) (\<lambda>_ v. under_way (ev_api env) d actor G v \<and> stopping n (tx_journal v))
          (settled_error (ev_api env) d G) v"
        using v n target by (intro write_intent_sound) simp_all
    qed (use u rec in \<open>auto simp: under_way_def intro: leaves_intros blames_intros\<close>)
    then have "wp (tbind ?announce (write_intent env n)) (\<lambda>_ v. under_way (ev_api env) d actor G v \<and> stopping n (tx_journal v))
        (settled_error (ev_api env) d G) t" by (simp add: wp_bind)
    then have "wp (tbind ?announce (write_intent env n)) (\<lambda>_. wp (tbind (execute_stop env actor n False) (\<lambda>_.
        tbind (on_journal (set_target n TargetRetired)) (\<lambda>_. write_journal env)))
        (\<lambda>_. under_way (ev_api env) d actor G) (settled_error (ev_api env) d G)) (settled_error (ev_api env) d G) t"
      by (rule wp_mono) (use stop_and_mark_sound in auto)
    with False show ?thesis
      by (simp add: complete_target_retirement_def wp_get wp_bind Let_def)
  qed
qed

lemma resolve_spawn_sound:
  assumes api: "sound_digests (ev_api env)" and u: "under_way (ev_api env) d actor G s"
    and c: "chosen_for actor (tx_journal s) (ResolveTargetSpawn n)"
  shows "wp (resolve_spawn_step env actor n) (\<lambda>_. under_way (ev_api env) d actor G) (settled_error (ev_api env) d G) s"
proof -
  let ?j = "tx_journal s" let ?k = "set_intent n TargetAbsent None (tx_journal s)"
  let ?ask = "resolve_target_spawn env actor (aj_members (tx_journal s) ! n) (tx_journal s)"
  from u have st: "steady (ev_api env) ?j" and so: "sound (ev_api env) d s" and d: "tx_disk s = Some ?j"
    and care: "G \<Longrightarrow> careful actor ?j" by (simp_all add: under_way_def synced_def)
  from care have rec: "G \<Longrightarrow> recovering actor" by (simp add: careful_def)
  from c have n: "n < length (aj_members ?j)" and t: "tm_target (aj_members ?j ! n) = TargetSpawnIntent" by simp_all
  have st': "steady (ev_api env) ?k"
    unfolding set_intent_def using st n valid_absent [OF _ _ n t, of "ev_api env"]
    by (intro steady_update) (auto simp: steady_def set_intent_def)
  have care': "careful actor ?k" if G
    unfolding set_intent_def using care [OF that] n by (rule careful_update) (rule same_place_id, simp_all)
  have "wp ?ask (\<lambda>r. wp (case r of
       None \<Rightarrow> tbind (on_journal (set_intent n TargetAbsent None)) (\<lambda>_. write_journal env)
     | Some authority \<Rightarrow> complete_target_retirement env actor n (Some authority))
     (\<lambda>_. under_way (ev_api env) d actor G) (settled_error (ev_api env) d G)) (settled_error (ev_api env) d G) s"
  proof (rule wp_quiet [OF so, where A = "{}"])
    fix r v assume run: "?ask s = (Inr r, v)"
      and v: "sound (ev_api env) d v" "tx_journal v = ?j" "tx_disk v = tx_disk s"
    show "wp (case r of
       None \<Rightarrow> tbind (on_journal (set_intent n TargetAbsent None)) (\<lambda>_. write_journal env)
     | Some authority \<Rightarrow> complete_target_retirement env actor n (Some authority))
     (\<lambda>_. under_way (ev_api env) d actor G) (settled_error (ev_api env) d G) v"
    proof (cases r)
      case None
      have "wp (write_journal env) (\<lambda>_. under_way (ev_api env) d actor G) (settled_error (ev_api env) d G)
          (v\<lparr>tx_journal := ?k\<rparr>)"
        by (rule wp_save [OF v(1) _ _ st', where k = ?j])
           (use st n d v care' in \<open>auto simp: steady_def set_intent_def map_update_same\<close>)
      with None v(2) show ?thesis by (simp add: wp_simps)
    next
      case (Some a)
      from u v have "under_way (ev_api env) d actor G v" by (simp add: under_way_def synced_def)
      moreover have "is_remote a" if G
        using spawn_remote [OF rec [OF that], of env "aj_members ?j ! n" ?j] run Some unfolding gives_def by blast
      ultimately show ?thesis using Some n t v(2) by (simp add: retirement_sound [OF api])
    qed
  qed (use rec in \<open>auto intro: leaves_intros blames_intros\<close>)
  then show ?thesis by (simp add: resolve_spawn_step_def wp_get wp_bind)
qed

end
