(* ===== verification/Activation_Outcome.thy ===== *)
theory Activation_Outcome
  imports Activation_Recovery
begin

text \<open>
  The second half of the rollback: the old bridge put back, the old brokers resumed, the registry rows
  restored, the record ended; and what a whole drive comes to.
\<close>

lemma under_way_same:
  "under_way api d actor G s \<Longrightarrow> sound api d t \<Longrightarrow> tx_journal t = tx_journal s \<Longrightarrow> tx_disk t = tx_disk s
   \<Longrightarrow> under_way api d actor G t"
  by (simp add: under_way_def synced_def)

section \<open>The bridge\<close>

lemma save_bridge_sound:
  assumes u: "under_way (ev_api env) d actor G t" and v: "valid_journal (ev_api env) (set_bridge b (tx_journal t))"
  shows "wp (save_bridge env b) (\<lambda>_ v. under_way (ev_api env) d actor G v \<and> tx_journal v = set_bridge b (tx_journal t))
      (settled_error (ev_api env) d G) t"
proof -
  let ?k = "set_bridge b (tx_journal t)"
  have "wp (write_journal env) (\<lambda>_. under_way (ev_api env) d actor G) (settled_error (ev_api env) d G) (t\<lparr>tx_journal := ?k\<rparr>)"
    by (rule wp_save [where k = "tx_journal t"])
       (use u v steady_bridge careful_bridge in \<open>auto simp: under_way_def synced_def steady_def\<close>)
  moreover have "wp (write_journal env) (\<lambda>_ v. tx_journal v = ?k) (\<lambda>_ _. True) (t\<lparr>tx_journal := ?k\<rparr>)"
    using yields_write [of env ?k] by (simp add: yields_def)
  ultimately show ?thesis
    unfolding save_bridge_def wp_simps by (rule wp_conj [THEN wp_mono]) simp_all
qed

text \<open>A stage of the restoration: the intent, the effect it permits, the result.\<close>

lemma bridge_stage_sound:
  assumes u: "under_way (ev_api env) d actor G t" and leaves: "leaves {x} act" and blames: "blames act"
    and first: "valid_journal (ev_api env) (set_bridge b (tx_journal t))"
    and permitted: "permits (ev_api env) (set_bridge b (tx_journal t)) x"
    and next': "valid_journal (ev_api env) (set_bridge b' (tx_journal t))"
  shows "wp (tbind (save_bridge env b) (\<lambda>_. tbind act (\<lambda>_. save_bridge env b')))
      (\<lambda>_. under_way (ev_api env) d actor G) (settled_error (ev_api env) d G) t"
  unfolding wp_bind
proof (rule wp_mono [OF save_bridge_sound [OF u first]])
  fix a v assume v: "under_way (ev_api env) d actor G v \<and> tx_journal v = set_bridge b (tx_journal t)"
  show "wp act (\<lambda>_. wp (save_bridge env b') (\<lambda>_. under_way (ev_api env) d actor G) (settled_error (ev_api env) d G))
      (settled_error (ev_api env) d G) v"
  proof (rule wp_quiet [OF _ leaves])
    fix a w assume w: "sound (ev_api env) d w" "tx_journal w = tx_journal v" "tx_disk w = tx_disk v"
    from v have "under_way (ev_api env) d actor G w" by (intro under_way_same [OF _ w]) simp
    then show "wp (save_bridge env b') (\<lambda>_. under_way (ev_api env) d actor G) (settled_error (ev_api env) d G) w"
      by (rule wp_mono [OF save_bridge_sound]) (use w v next' in auto)
  qed (use v blames permitted in \<open>auto simp: under_way_def synced_def\<close>)
qed simp

lemma steady_plain:
  assumes "steady api j" and "targets_retired j" and "bridge_progress_of j = Some b" and "\<not> is_restored b"
    and "reload_coverage b' = None" and "\<not> is_restored b'"
  shows "valid_journal api (set_bridge b' j)"
  using assms by (intro valid_bridge_plain) (auto simp: steady_def)

lemma rolling_bridge_at:
  assumes "bridge_progress_of j \<noteq> None"
  shows "bridge_at (set_bridge b j) bs \<longleftrightarrow> b \<in> bs"
  using assms by (auto simp: bridge_at_def bridge_progress_of_def)

lemma count_once: "distinct xs \<Longrightarrow> x \<in> set xs \<Longrightarrow> length (filter (\<lambda>y. y = x) xs) = 1"
  by (induction xs) (auto simp: filter_empty_conv)

lemma complete_restored_ok:
  assumes "distinct (map tm_id ms)" and "distinct completed" and "set completed \<subseteq> tm_id ` set ms"
    and "\<forall>m \<in> set ms. tm_id m \<in> set completed"
  shows "restored_ok ms (Restored completed)"
proof -
  from assms(3,4) have "set completed = set (map tm_id ms)" by auto
  with assms(1,2) have "length completed = length ms" by (metis distinct_card length_map)
  moreover have "\<forall>m \<in> set ms. length (filter (\<lambda>i. i = tm_id m) completed) = 1"
    using count_once [OF assms(2)] assms(4) by blast
  ultimately show ?thesis by (simp add: restored_ok_def list_all_iff)
qed

lemma reload_sound:
  assumes u: "under_way (ev_api env) d actor G t" and ret: "targets_retired (tx_journal t)"
    and c: "chosen_for actor (tx_journal t) (ReloadOldBridge n)"
  shows "wp (reload_old_bridge env n) (\<lambda>_. under_way (ev_api env) d actor G) (settled_error (ev_api env) d G) t"
proof -
  let ?j = "tx_journal t" let ?i = "tm_id (aj_members (tx_journal t) ! n)"
  from c obtain active completed where n: "n < length (aj_members ?j)"
    and b: "bridge_progress_of ?j = Some (OldReloading active completed)"
    and a: "active = Some ?i \<or> ?i \<notin> set completed" by auto
  from u have st: "steady (ev_api env) ?j" by (simp add: under_way_def)
  then have v: "valid_journal (ev_api env) ?j" "rolling ?j" by (simp_all add: steady_def)
  from valid_bridge_facts(1) [OF v(1) b] a
  have facts: "?i \<notin> set completed" "set completed \<subseteq> tm_id ` set (aj_members ?j)" "distinct completed"
    by (auto simp: reload_ok_def)
  have member: "?i \<in> tm_id ` set (aj_members ?j)" using n by simp
  have some: "aj_bridge ?j \<noteq> None" using b by (auto simp: bridge_progress_of_def)
  have resuming: "\<not> any_resuming ?j" using v b rolling_fits [OF v(2)] by (auto simp: valid_iff)
  let ?start = "OldReloading (Some ?i) completed" let ?fin = "OldReloading None (completed @ [?i])"
  have "valid_journal (ev_api env) (set_bridge b' ?j)" if "b' \<in> {?start, ?fin}" for b'
    using v b ret
  proof (rule valid_bridge_step)
    show "reload_ok (map tm_id (aj_members ?j)) b'" using that facts member by (auto simp: reload_ok_def)
    show "restored_ok (aj_members ?j) b'" using that by (intro restored_ok_trivial) auto
  qed (use resuming in simp)
  then have stage: "wp (tbind (save_bridge env ?start) (\<lambda>_. tbind (effect env outside (ReloadOld ?i)) (\<lambda>_. save_bridge env ?fin)))
      (\<lambda>_. under_way (ev_api env) d actor G) (settled_error (ev_api env) d G) t"
    using v ret b
    by (intro bridge_stage_sound [OF u, where x = "ReloadOld ?i"])
       (auto intro: leaves_intros blames_intros simp: rolling_bridge_at)
  have "start_reload ?i ?j = set_bridge ?start ?j" using b by (simp add: start_reload_def)
  moreover have "finish_reload ?i (set_bridge ?start ?j) = set_bridge ?fin (set_bridge ?start ?j)"
    using facts(1) some by (auto simp: finish_reload_def)
  ultimately have "wp (reload_old_bridge env n) Q E t
      = wp (tbind (save_bridge env ?start) (\<lambda>_. tbind (effect env outside (ReloadOld ?i)) (\<lambda>_. save_bridge env ?fin))) Q E t"
    for Q E
    by (simp add: reload_old_bridge_def save_bridge_def wp_simps Let_def effect_def write_journal_def installed_def
        split: sum.split write_answer.split)
  with stage show ?thesis by simp
qed

lemma tbind_assoc: "tbind (tbind m f) g = tbind m (\<lambda>a. tbind (f a) g)"
  by (intro ext) (simp add: tbind_def split: prod.split sum.split)

lemma bridge_sound:
  assumes u: "under_way (ev_api env) d actor G t" and c: "chosen_for actor (tx_journal t) a"
    and ret: "targets_retired (tx_journal t)" and a: "\<not> about_member a" "\<not> needs_rows a"
  shows "wp (apply_bridge_rollback_action env actor a) (\<lambda>_. under_way (ev_api env) d actor G) (settled_error (ev_api env) d G) t"
proof -
  let ?j = "tx_journal t"
  let ?Q = "\<lambda>_ :: unit. under_way (ev_api env) d actor G" let ?E = "settled_error (ev_api env) d G"
  from u have st: "steady (ev_api env) ?j" by (simp add: under_way_def)
  then have v: "valid_journal (ev_api env) ?j" "rolling ?j" by (simp_all add: steady_def)
  have plain: "valid_journal (ev_api env) (set_bridge b' ?j)"
    if "bridge_progress_of ?j = Some b" "\<not> is_restored b" "reload_coverage b' = None" "\<not> is_restored b'" for b b'
    using that by (intro steady_plain [OF st ret])
  have stage: "wp (tbind (save_bridge env b) (\<lambda>_. tbind act (\<lambda>_. save_bridge env b'))) ?Q ?E t"
    if "bridge_progress_of ?j = Some b0" "\<not> is_restored b0" "b \<in> {OldInstallIntent, TargetPreviousIntent, OldReceiptIntent}"
      "b' \<in> {OldInstalled, TargetPreviousPublished, OldReceiptPublished}" "leaves {x} act" "blames act"
      "permits (ev_api env) (set_bridge b ?j) x" for b0 b b' act x
    using that by (intro bridge_stage_sound [OF u, where x = x]) (auto intro!: plain [of b0])
  have last: "wp (save_bridge env b) ?Q ?E t" if "valid_journal (ev_api env) (set_bridge b ?j)" for b
    by (rule wp_mono [OF save_bridge_sound [OF u that]]) simp_all
  have at: "permits (ev_api env) (set_bridge b ?j) x"
    if "bridge_progress_of ?j \<noteq> None" "(x, b) \<in> {(InstallOld, OldInstallIntent), (PublishTargetPrevious, TargetPreviousIntent),
        (RestoreReceipt, OldReceiptIntent)}" for x b
    using that v ret by (auto simp: rolling_bridge_at)
  have "bridge_progress_of ?j \<noteq> None" using c a by (cases a) auto
  then obtain b0 where b0: "bridge_progress_of ?j = Some b0" by auto
  then have some: "aj_bridge ?j \<noteq> None" by (auto simp: bridge_progress_of_def)
  have "wp (apply_bridge_action env actor a) ?Q ?E t"
  proof (cases a)
    case MarkBridgeRestored
    with c v ret b0 have "valid_journal (ev_api env) (set_bridge (Restored []) ?j)"
      by (intro valid_bridge_step) (auto simp: reload_ok_def restored_ok_def)
    with MarkBridgeRestored last show ?thesis by simp
  next
    case InstallOldBridge
    have "leaves {InstallOld} (tbind (effect env outside InstallOld) (\<lambda>_. actor_hook env actor StepOldInstallApplied))"
      "blames (tbind (effect env outside InstallOld) (\<lambda>_. actor_hook env actor StepOldInstallApplied))"
      by (intro leaves_intros blames_intros; simp)+
    from stage [OF b0 _ _ _ this at, of OldInstallIntent OldInstalled] InstallOldBridge c b0 show ?thesis
      by (simp add: tbind_assoc)
  next
    case PublishTargetPreviousCopy
    have "wp (tbind (save_bridge env TargetPreviousIntent) (\<lambda>_. tbind (effect env outside PublishTargetPrevious) (\<lambda>_. save_bridge env TargetPreviousPublished))) ?Q ?E t"
      by (rule stage [OF b0]) (use PublishTargetPreviousCopy c b0 at in \<open>auto intro: leaves_intros blames_intros\<close>)
    with PublishTargetPreviousCopy show ?thesis by simp
  next
    case RestoreOldReceipt
    have "wp (tbind (save_bridge env OldReceiptIntent) (\<lambda>_. tbind (effect env outside RestoreReceipt) (\<lambda>_. save_bridge env OldReceiptPublished))) ?Q ?E t"
      by (rule stage [OF b0]) (use RestoreOldReceipt c b0 at in \<open>auto intro: leaves_intros blames_intros\<close>)
    with RestoreOldReceipt show ?thesis by simp
  next
    case BeginOldReload
    with c v ret b0 have "valid_journal (ev_api env) (set_bridge (OldReloading None []) ?j)"
      using rolling_fits [OF v(2)]
      by (intro valid_bridge_step) (auto simp: reload_ok_def restored_ok_def valid_iff)
    with BeginOldReload last show ?thesis by simp
  next
    case (ReloadOldBridge n)
    with reload_sound [OF u ret] c show ?thesis by simp
  next
    case CompleteBridgeRestore
    with c obtain active completed where b: "bridge_progress_of ?j = Some (OldReloading active completed)"
      and all: "\<forall>m \<in> set (aj_members ?j). tm_id m \<in> set completed" by auto
    have "restored_ok (aj_members ?j) (Restored completed)"
      using valid_bridge_facts(1) [OF v(1) b] st all
      by (intro complete_restored_ok) (auto simp: reload_ok_def steady_def)
    with v ret b have "valid_journal (ev_api env) (set_bridge (Restored completed) ?j)"
      by (intro valid_bridge_step) (auto simp: reload_ok_def)
    with CompleteBridgeRestore last b show ?thesis by (simp add: complete_bridge_restore_def wp_bind wp_get)
  qed (use a in simp_all)
  with some valid_bridge_facts(3) [OF v(1) b0] show ?thesis
    by (simp add: apply_bridge_rollback_action_def wp_simps)
qed


section \<open>Registry rows\<close>

lemma bridge_member_ids_mem:
  "bridge_member_ids ms = Inr bs \<Longrightarrow> m \<in> set ms \<Longrightarrow> \<exists>b \<in> set bs. bridge_member_id (tm_member m) = Inr b"
  by (induction ms arbitrary: bs) (auto simp: result_simps)

lemma restore_capability:
  assumes "valid_journal api j" and "is_zellij_unit (aj_unit j)" and "m \<in> set (aj_members j)"
  shows "\<exists>c. target_restore_capability api (tm_member m) (tm_endpoint m) (tm_handoff m) j = Inr c"
proof -
  from assms(2) obtain unit where unit: "aj_unit j = UnitZellij unit" by (cases "aj_unit j") simp_all
  with assms(1) have z: "check_zellij j unit = Inr ()" by (simp add: valid_iff check_unit_def)
  then obtain identity census where z': "aj_bridge_identity j = Some identity" "aj_member_census j = Some census"
    "bridge_member_ids (aj_members j) = Inr census"
    by (auto simp: check_zellij_def result_simps)
  from bridge_member_ids_mem [OF z'(3) assms(3)] obtain b where "b \<in> set census" "bridge_member_id (tm_member m) = Inr b"
    by auto
  moreover have "list_ex (names_member (tm_member m) (tm_endpoint m) (tm_handoff m)) (aj_members j)"
    using assms(3) by (auto simp: list_ex_iff names_member_def)
  ultimately show ?thesis
    using assms(1) z' by (auto simp: target_restore_capability_def valid_journal_def result_simps)
qed

lemma blames_restore_row:
  assumes "valid_journal (ev_api env) j" and "is_zellij_unit (aj_unit j)" and "m \<in> set (aj_members j)" and "rows_saved j"
  shows "blames (restore_row env j m)"
proof -
  from restore_capability [OF assms(1-3)] obtain c
    where "target_restore_capability (ev_api env) (tm_member m) (tm_endpoint m) (tm_handoff m) j = Inr c" ..
  moreover from assms(3,4) obtain row where "find (same_place m) (aj_old_registry j) = Some row"
    by (auto simp: rows_saved_def)
  ultimately show ?thesis by (auto simp: restore_row_def intro!: blames_intros)
qed

definition past_bridge :: "activation_journal \<Rightarrow> bool" where
  "past_bridge j \<longleftrightarrow> targets_retired j \<and> bridge_done j"

lemma restore_rows_sound:
  assumes u: "under_way (ev_api env) d actor G t" and past: "past_bridge (tx_journal t)"
  shows "wp (restore_old_registry_rows env) (\<lambda>_ v. under_way (ev_api env) d actor G v \<and> tx_journal v = tx_journal t)
      (settled_error (ev_api env) d G) t"
proof -
  let ?j = "tx_journal t"
  from u have st: "steady (ev_api env) ?j" and so: "sound (ev_api env) d t" and d: "tx_disk t = Some ?j"
    and care: "G \<Longrightarrow> careful actor ?j" by (simp_all add: under_way_def synced_def)
  let ?m = "tbind (ask (ev_ok env)) (\<lambda>opened. tbind (demand opened (ErrUnit RowsNotRestored)) (\<lambda>_. teach (restore_row env ?j) (aj_members ?j)))"
  have "wp ?m (\<lambda>_ v. under_way (ev_api env) d actor G v \<and> tx_journal v = ?j) (settled_error (ev_api env) d G) t"
    if z: "is_zellij_unit (aj_unit ?j)"
  proof (rule wp_quiet [OF so, where A = "range RestoreRow"])
    show "blames ?m" if G
      using blames_restore_row [OF _ z] st care [OF that]
      by (intro blames_intros) (auto simp: steady_def careful_def)
    fix x assume "x \<in> range RestoreRow"
    with st d past show "\<exists>j. tx_disk t = Some j \<and> permits (ev_api env) j x"
      by (auto simp: steady_def past_bridge_def)
  next
    fix a v assume "sound (ev_api env) d v" "tx_journal v = ?j" "tx_disk v = tx_disk t"
    then show "under_way (ev_api env) d actor G v \<and> tx_journal v = ?j" using under_way_same [OF u] by simp
  qed (intro leaves_intros; simp)
  with u show ?thesis
    unfolding restore_old_registry_rows_def wp_bind [of "tget tx_journal"] wp_get wp_if wp_ret by simp
qed

section \<open>Resuming an old broker\<close>

definition awaits_local :: "actor \<Rightarrow> bool" where
  "awaits_local actor \<longleftrightarrow> (\<exists>key status able. actor = RecoveryActor (Some key) status able)"

lemma deferred_local:
  "gives (resume_old env actor m j) (\<lambda>r. r = ResumeDeferred \<longrightarrow> awaits_local actor)"
  by (cases actor)
     (auto simp: awaits_local_def resume_over_session_def intro!: gives_after gives_ret gives_fail
        split: option.split resume_evidence.split)

lemma old_step_sound:
  assumes u: "under_way (ev_api env) d actor G t" and n: "n < length (aj_members (tx_journal t))"
    and old: "tm_old (aj_members (tx_journal t) ! n) \<in> {OldDrained, OldResumeIntent}"
    and o': "o' \<in> {OldResumeIntent, OldResumed}" and past: "past_bridge (tx_journal t)"
  shows "wp (tbind (on_journal (set_old n o')) (\<lambda>_. write_journal env))
      (\<lambda>_ v. under_way (ev_api env) d actor G v \<and> tx_journal v = set_old n o' (tx_journal t))
      (settled_error (ev_api env) d G) t"
proof -
  let ?j = "tx_journal t" let ?k = "set_old n o' (tx_journal t)"
  from u have st: "steady (ev_api env) ?j" and so: "sound (ev_api env) d t" and d: "tx_disk t = Some ?j"
    and care: "G \<Longrightarrow> careful actor ?j" by (simp_all add: under_way_def synced_def)
  have "valid_journal (ev_api env) ?k"
    using st n old o' past by (intro valid_resume) (auto simp: steady_def past_bridge_def bridge_done_def)
  then have st': "steady (ev_api env) ?k"
    unfolding set_old_def using st n o' by (intro steady_update) auto
  have "wp (write_journal env) (\<lambda>_. under_way (ev_api env) d actor G) (settled_error (ev_api env) d G) (t\<lparr>tx_journal := ?k\<rparr>)"
    by (rule wp_save [OF so d _ st'])
       (use st n care careful_old in \<open>auto simp: steady_def set_old_def map_update_same\<close>)
  moreover have "wp (write_journal env) (\<lambda>_ v. tx_journal v = ?k) (\<lambda>_ _. True) (t\<lparr>tx_journal := ?k\<rparr>)"
    using yields_write [of env ?k] by (simp add: yields_def)
  ultimately show ?thesis
    unfolding wp_simps by (rule wp_conj [THEN wp_mono]) simp_all
qed

lemma past_bridge_old: "past_bridge (set_old n o' j) = past_bridge j"
proof (cases "n < length (aj_members j)")
  case True
  then have "targets_retired (set_old n o' j) = targets_retired j"
    unfolding set_old_def by (intro targets_retired_same) (simp add: map_update_same)
  then show ?thesis by (simp add: past_bridge_def bridge_done_def set_old_def)
next
  case False
  then show ?thesis by (simp add: past_bridge_def bridge_done_def set_old_def targets_retired_def list_update_beyond)
qed


text \<open>The rules of \<open>wp\<close> before the state is given.\<close>

lemma wp_fun:
  "wp (tbind m f) Q E = wp m (\<lambda>a. wp (f a) Q E) E" "wp (tret a) Q E = Q a"
  by (intro ext, simp add: wp_bind wp_ret)+

text \<open>How a turn of the loop may end well.\<close>

definition ended :: "activation_api \<Rightarrow> activation_journal option \<Rightarrow> tx_state \<Rightarrow> bool" where
  "ended api d t \<longleftrightarrow>
     sound api d t
     \<and> directive (tx_journal t) = (if is_forced (tx_journal t) then DirectRetryForce else DirectCleanupRolledBack)
     \<and> tx_disk t = (if is_forced (tx_journal t) then Some (tx_journal t) else None)"

fun outcome_fits :: "activation_api \<Rightarrow> activation_journal option \<Rightarrow> actor \<Rightarrow> bool \<Rightarrow> drive_outcome \<Rightarrow> tx_state \<Rightarrow> bool" where
  "outcome_fits api d actor G DriveComplete t \<longleftrightarrow> ended api d t"
| "outcome_fits api d actor G DriveResumeRequired t \<longleftrightarrow> under_way api d actor G t \<and> awaits_local actor"
| "outcome_fits api d actor G DriveAwaitingPeer t \<longleftrightarrow> under_way api d actor G t \<and> awaits_local actor"

fun turn_fits :: "activation_api \<Rightarrow> activation_journal option \<Rightarrow> actor \<Rightarrow> bool \<Rightarrow> loop_result \<Rightarrow> tx_state \<Rightarrow> bool" where
  "turn_fits api d actor G (Continue r) t \<longleftrightarrow> under_way api d actor G t"
| "turn_fits api d actor G (Stop out) t \<longleftrightarrow> outcome_fits api d actor G out t"

lemma member_old_at: "n < length (aj_members j) \<Longrightarrow> tm_old (aj_members (set_old n o' j) ! n) = o'"
  by (simp add: set_old_def)

lemma members_old_length [simp]: "length (aj_members (set_old n o' j)) = length (aj_members j)"
  by (simp add: set_old_def)

lemma resume_sound:
  assumes u: "under_way (ev_api env) d actor G s" and c: "chosen_for actor (tx_journal s) (ResumeOldBroker n)"
    and past: "past_bridge (tx_journal s)"
    and fresh: "\<forall>m \<in> set (aj_members (tx_journal s)). tm_old m \<noteq> OldPrepareIntent"
  shows "wp (resume_step env actor n r) (turn_fits (ev_api env) d actor G) (settled_error (ev_api env) d G) s"
proof -
  let ?j = "tx_journal s" and ?U = "under_way (ev_api env) d actor G" and ?E = "settled_error (ev_api env) d G"
  let ?ready = "\<lambda>v. ?U v \<and> past_bridge (tx_journal v) \<and> n < length (aj_members (tx_journal v))
      \<and> tm_old (aj_members (tx_journal v) ! n) = OldResumeIntent"
  from c have n: "n < length (aj_members ?j)" and unsettled: "\<not> is_settled (tm_old (aj_members ?j ! n))" by simp_all
  have old: "tm_old (aj_members ?j ! n) \<in> {OldDrained, OldResumeIntent}"
    using u n unsettled fresh by (intro settle_cases [of "ev_api env" ?j]) (auto simp: under_way_def steady_def)
  have intent: "wp (if tm_old (aj_members ?j ! n) \<noteq> OldResumeIntent
      then tbind (on_journal (set_old n OldResumeIntent)) (\<lambda>_. write_journal env) else tret ()) (\<lambda>_. ?ready) ?E s"
  proof (cases "tm_old (aj_members ?j ! n) = OldResumeIntent")
    case True
    with u past n show ?thesis by (simp add: wp_ret)
  next
    case False
    have "wp (tbind (on_journal (set_old n OldResumeIntent)) (\<lambda>_. write_journal env)) (\<lambda>_. ?ready) ?E s"
      by (rule wp_mono [OF old_step_sound [OF u n old _ past, of OldResumeIntent]])
         (use n past in \<open>auto simp: past_bridge_old member_old_at\<close>)
    with False show ?thesis by simp
  qed
  have finish: "wp (case x of
         ResumeCompleted \<Rightarrow> tbind (on_journal (set_old n OldResumed)) (\<lambda>_. tbind (write_journal env) (\<lambda>_. tret (Continue r)))
       | ResumeDeferred \<Rightarrow> tret (Stop DriveResumeRequired)) (turn_fits (ev_api env) d actor G) ?E v"
    if v: "?ready v" and x: "x = ResumeDeferred \<longrightarrow> awaits_local actor" for x v
  proof (cases x)
    case ResumeCompleted
    have "wp (tbind (on_journal (set_old n OldResumed)) (\<lambda>_. write_journal env)) (\<lambda>_. ?U) ?E v"
      by (rule wp_mono [OF old_step_sound [of env d actor G v n OldResumed]]) (use v in auto)
    with ResumeCompleted show ?thesis by (simp add: wp_fun)
  next
    case ResumeDeferred
    with v x show ?thesis by (simp add: wp_ret)
  qed
  have ask: "wp (resume_old env actor (aj_members (tx_journal v) ! n) (tx_journal v))
      (\<lambda>x. wp (case x of
         ResumeCompleted \<Rightarrow> tbind (on_journal (set_old n OldResumed)) (\<lambda>_. tbind (write_journal env) (\<lambda>_. tret (Continue r)))
       | ResumeDeferred \<Rightarrow> tret (Stop DriveResumeRequired)) (turn_fits (ev_api env) d actor G) ?E) ?E v"
    if v: "?ready v" for v
  proof (rule wp_quiet [where A = "{ResumeOld (tm_id (aj_members (tx_journal v) ! n))}"])
    let ?m = "aj_members (tx_journal v) ! n"
    show "\<exists>j. tx_disk v = Some j \<and> permits (ev_api env) j x" if "x \<in> {ResumeOld (tm_id ?m)}" for x
      using v that by (auto simp: under_way_def synced_def steady_def past_bridge_def member_with_def intro!: bexI [of _ ?m])
    fix x w assume run: "resume_old env actor ?m (tx_journal v) v = (Inr x, w)"
      and w: "sound (ev_api env) d w" "tx_journal w = tx_journal v" "tx_disk w = tx_disk v"
    have "x = ResumeDeferred \<longrightarrow> awaits_local actor"
      using deferred_local [of env actor ?m "tx_journal v"] run unfolding gives_def by blast
    moreover have "?U w" using v by (intro under_way_same [OF _ w]) simp
    ultimately show "wp (case x of
         ResumeCompleted \<Rightarrow> tbind (on_journal (set_old n OldResumed)) (\<lambda>_. tbind (write_journal env) (\<lambda>_. tret (Continue r)))
       | ResumeDeferred \<Rightarrow> tret (Stop DriveResumeRequired)) (turn_fits (ev_api env) d actor G) ?E w"
      using v w(2) by (intro finish) simp_all
  qed (use v in \<open>auto simp: under_way_def careful_def intro!: leaves_intros blames_intros\<close>)
  show ?thesis
    unfolding resume_step_def wp_bind wp_get
    by (rule wp_mono [OF intent]) (use ask in auto)
qed


section \<open>The end of a rollback\<close>

definition cleaning :: "activation_journal \<Rightarrow> bool" where
  "cleaning j \<longleftrightarrow> directive j \<in> {DirectCleanupCommitted, DirectCleanupRolledBack}"

lemma leaves_remove_stop [leaves_intros]: "RemoveReceipt (tm_id m) \<in> A \<Longrightarrow> leaves A (remove_stop_receipt env j m)"
  unfolding remove_stop_receipt_def by (intro leaves_intros)

lemma leaves_remove_old [leaves_intros]: "RemoveReceipt (tm_id m) \<in> A \<Longrightarrow> leaves A (remove_old_receipt env j m)"
  unfolding remove_old_receipt_def by (intro leaves_intros)

lemma retired_intent:
  assumes "check_retirement api j m = Inr ()" and "tm_target m = TargetRetired"
  obtains i where "retirement_intent_of m = Inr i" and "validate_intent api j m i = Inr ()"
  using assms by (auto simp: check_retirement_def retirement_intent_of_def split: option.splits)

text \<open>Everything of the cleanup that comes before the record goes.\<close>

definition clear_receipts :: "tx_env \<Rightarrow> activation_journal \<Rightarrow> unit tx" where
  "clear_receipts env j =
     tbind (teach (remove_stop_receipt env j) (filter (\<lambda>m. tm_target m = TargetRetired) (aj_members j))) (\<lambda>_.
     tbind (teach (remove_old_receipt env j) (filter (\<lambda>m. tm_old m = OldCommitted) (aj_members j))) (\<lambda>_.
     if aj_bridge_identity j \<noteq> None \<and> aj_bridge j \<noteq> None then effect env outside RemoveArtifacts else tret ()))"

lemma cleanup_split:
  "cleanup_terminal env =
     tbind (tget tx_journal) (\<lambda>j. tbind (tcheck (directive j \<in> {DirectCleanupCommitted, DirectCleanupRolledBack}) (ErrUnit NotTerminal)) (\<lambda>_.
     tbind (clear_receipts env j) (\<lambda>_. remove_journal env)))"
  by (simp add: cleanup_terminal_def clear_receipts_def tbind_assoc)

lemma leaves_clear: "leaves (insert RemoveArtifacts (range RemoveReceipt)) (clear_receipts env j)"
  unfolding clear_receipts_def by (intro leaves_intros) (auto intro: leaves_intros)

lemma blames_clear:
  assumes "valid_journal (ev_api env) j" and "\<forall>m \<in> set (aj_members j). tm_old m \<noteq> OldCommitted"
  shows "blames (clear_receipts env j)"
proof -
  have "blames (remove_stop_receipt env j m)" if m: "m \<in> set (aj_members j)" "tm_target m = TargetRetired" for m
  proof -
    have "check_retirement (ev_api env) j m = Inr ()" using assms(1) m by (simp add: valid_iff)
    from retired_intent [OF this m(2)] obtain i where "retirement_intent_of m = Inr i" "validate_intent (ev_api env) j m i = Inr ()" .
    then show ?thesis unfolding remove_stop_receipt_def by (intro blames_intros)
  qed
  moreover have "filter (\<lambda>m. tm_old m = OldCommitted) (aj_members j) = []" using assms(2) by (simp add: filter_empty_conv)
  ultimately show ?thesis
    unfolding clear_receipts_def by (intro blames_intros) (auto intro: blames_intros)
qed

lemma wp_remove:
  assumes "sound api d t" and "tx_disk t = Some j" and "cleaning j"
    and "\<And>v. sound api d v \<Longrightarrow> tx_journal v = tx_journal t \<Longrightarrow> tx_disk v = None \<Longrightarrow> Q () v"
  shows "wp (remove_journal env) Q (settled_error api d G) t"
proof -
  have d: "disk_after d (tx_trace t) = Some j" and a: "audit api d (tx_trace t)" using assms(1,2) by (simp_all add: sound_def)
  then show ?thesis
    using assms(2-4) by (simp add: remove_journal_def wp_simps settled_error_def sound_def removed_def cleaning_def
        split: write_answer.split)
qed

lemma cleanup_sound:
  assumes so: "sound (ev_api env) d t" and sy: "synced t" and clean: "cleaning (tx_journal t)"
    and v: "valid_journal (ev_api env) (tx_journal t)"
    and old: "G \<Longrightarrow> \<forall>m \<in> set (aj_members (tx_journal t)). tm_old m \<noteq> OldCommitted"
  shows "wp (cleanup_terminal env) (\<lambda>_ v. sound (ev_api env) d v \<and> tx_journal v = tx_journal t \<and> tx_disk v = None)
      (settled_error (ev_api env) d G) t"
proof -
  let ?j = "tx_journal t"
  have "wp (clear_receipts env ?j) (\<lambda>_. wp (remove_journal env)
       (\<lambda>_ v. sound (ev_api env) d v \<and> tx_journal v = ?j \<and> tx_disk v = None) (settled_error (ev_api env) d G))
     (settled_error (ev_api env) d G) t"
  proof (rule wp_quiet [OF so leaves_clear])
    show "blames (clear_receipts env ?j)" if G by (rule blames_clear [OF v old [OF that]])
    show "\<exists>j. tx_disk t = Some j \<and> permits (ev_api env) j x" if "x \<in> insert RemoveArtifacts (range RemoveReceipt)" for x
      using sy clean that by (auto simp: synced_def cleaning_def)
    show "wp (remove_journal env) (\<lambda>_ v. sound (ev_api env) d v \<and> tx_journal v = ?j \<and> tx_disk v = None)
        (settled_error (ev_api env) d G) w"
      if "sound (ev_api env) d w" "tx_journal w = ?j" "tx_disk w = tx_disk t" for w
      using that sy clean by (intro wp_remove [where j = ?j]) (simp_all add: synced_def)
  qed
  with clean show ?thesis by (simp add: cleanup_split wp_bind wp_get wp_check cleaning_def)
qed

lemma finish_sound:
  assumes u: "under_way (ev_api env) d actor G s" and c: "chosen_for actor (tx_journal s) FinishRollback"
    and past: "past_bridge (tx_journal s)"
  shows "wp (finish_rollback env actor) (\<lambda>out. outcome_fits (ev_api env) d actor G out) (settled_error (ev_api env) d G) s"
proof -
  let ?j = "tx_journal s" and ?k = "enter_rolled_back (tx_journal s)" and ?E = "settled_error (ev_api env) d G"
  from u have st: "steady (ev_api env) ?j" and so: "sound (ev_api env) d s" and d: "tx_disk s = Some ?j"
    by (simp_all add: under_way_def synced_def)
  have settled: "\<forall>m \<in> set (aj_members ?j). is_settled (tm_old m)" using c by simp
  have v: "valid_journal (ev_api env) ?k"
    using st past c by (intro valid_rolled_back) (auto simp: steady_def past_bridge_def bridge_done_def)
  have forced: "is_forced ?k = is_forced ?j" by (rule frameD(8)) simp
  have hook: "wp (actor_hook env actor step) (\<lambda>_. Q) ?E t"
    if "sound (ev_api env) d t" "\<And>w. sound (ev_api env) d w \<Longrightarrow> tx_journal w = tx_journal t \<Longrightarrow> tx_disk w = tx_disk t \<Longrightarrow> Q w"
    for step Q t
    by (rule wp_quiet [OF that(1), where A = "{}"]) (use that(2) in \<open>auto intro: leaves_intros blames_intros\<close>)
  let ?tail = "tbind (actor_hook env actor StepTerminalWritten) (\<lambda>_.
     tbind (tget tx_journal) (\<lambda>j.
     if is_forced j then tret DriveComplete
     else tbind (cleanup_terminal env) (\<lambda>_.
          tbind (actor_hook env actor StepTerminalCleaned) (\<lambda>_. tret DriveComplete))))"
  have tail: "wp ?tail (\<lambda>out. outcome_fits (ev_api env) d actor G out) ?E t"
    if t: "sound (ev_api env) d t" "synced t" "tx_journal t = ?k" for t
    unfolding wp_bind wp_get
  proof (rule hook [OF t(1)])
    fix w assume w: "sound (ev_api env) d w" "tx_journal w = tx_journal t" "tx_disk w = tx_disk t"
    show "wp (if is_forced (tx_journal w) then tret DriveComplete else tbind (cleanup_terminal env) (\<lambda>_.
          tbind (actor_hook env actor StepTerminalCleaned) (\<lambda>_. tret DriveComplete)))
        (outcome_fits (ev_api env) d actor G) ?E w"
    proof (cases "is_forced ?j")
      case True
      with w t forced show ?thesis by (simp add: wp_ret ended_def synced_def)
    next
      case False
      have "wp (cleanup_terminal env) (\<lambda>_ v. sound (ev_api env) d v \<and> tx_journal v = tx_journal w \<and> tx_disk v = None) ?E w"
        by (rule cleanup_sound) (use w t v False settled in \<open>auto simp: synced_def cleaning_def is_settled_def\<close>)
      then have "wp (cleanup_terminal env) (\<lambda>_. wp (actor_hook env actor StepTerminalCleaned)
          (\<lambda>_. ended (ev_api env) d) ?E) ?E w"
        by (rule wp_mono) (use w t forced False in \<open>auto intro!: hook simp: ended_def\<close>)
      with w t forced False show ?thesis by (simp add: wp_fun)
    qed
  qed
  have "wp (write_journal env) (\<lambda>_. wp ?tail (\<lambda>out. outcome_fits (ev_api env) d actor G out) ?E) ?E (s\<lparr>tx_journal := ?k\<rparr>)"
  proof (rule wp_write)
    show "follows (tx_disk (s\<lparr>tx_journal := ?k\<rparr>)) (tx_journal (s\<lparr>tx_journal := ?k\<rparr>))"
      using st d rolling_follows [of ?j ?k] by (auto simp: steady_def)
  qed (use so v tail in auto)
  then show ?thesis by (simp add: finish_rollback_def wp_fun wp_journal)
qed


section \<open>A turn and a drive\<close>

lemma chosen_past:
  assumes "chosen_for actor j a" and "needs_rows a" and "targets_retired j"
  shows "past_bridge j"
  using assms by (cases a) (auto simp: past_bridge_def bridge_done_def)

lemma peers_local:
  assumes "chosen_for actor j AwaitingPeer" shows "awaits_local actor"
proof -
  from assms obtain m where "\<not> can_resume actor m" by auto
  then show ?thesis by (cases actor) (auto simp: awaits_local_def split: option.splits)
qed

lemma perform_sound:
  assumes api: "sound_digests (ev_api env)" and u: "under_way (ev_api env) d actor G s"
    and c: "chosen_for actor (tx_journal s) a"
    and barrier: "\<not> about_member a \<Longrightarrow> targets_retired (tx_journal s)
      \<and> (\<forall>m \<in> set (aj_members (tx_journal s)). tm_old m \<noteq> OldPrepareIntent)"
  shows "wp (perform_action env actor r a) (turn_fits (ev_api env) d actor G) (settled_error (ev_api env) d G) s"
proof -
  let ?U = "under_way (ev_api env) d actor G" and ?E = "settled_error (ev_api env) d G"
  have on: "wp (tbind m (\<lambda>_. tret (Continue r))) (turn_fits (ev_api env) d actor G) ?E s"
    if "wp m (\<lambda>_. ?U) ?E s" for m :: "unit tx"
    unfolding wp_fun by (rule wp_mono [OF that]) simp_all
  have bridge: "wp (apply_bridge_rollback_action env actor a) (\<lambda>_. ?U) ?E s" if "\<not> about_member a" "\<not> needs_rows a"
    using that barrier by (intro bridge_sound [OF u c]) simp_all
  show ?thesis
  proof (cases a)
    case (ResolvePrepare n)
    with c on resolve_prepare_sound [OF u] show ?thesis by simp
  next
    case (ResolveTargetSpawn n)
    with c on resolve_spawn_sound [OF api u] show ?thesis by simp
  next
    case (RetireTarget n)
    with c have "wp (complete_target_retirement env actor n None) (\<lambda>_. ?U) ?E s"
      by (intro retirement_sound [OF api u]) (auto simp: unretired_def)
    with RetireTarget on show ?thesis by simp
  next
    case (ResumeOldBroker n)
    with c u barrier chosen_past [OF c] show ?thesis by (simp add: resume_sound)
  next
    case AwaitingPeer
    with c u peers_local [of actor "tx_journal s"] show ?thesis by (simp add: wp_ret)
  next
    case FinishRollback
    have "wp (finish_rollback env actor) (outcome_fits (ev_api env) d actor G) ?E s"
      using FinishRollback c u barrier chosen_past [OF c] by (intro finish_sound) simp_all
    with FinishRollback show ?thesis by (auto simp: wp_fun elim: wp_mono)
  qed (use on bridge in simp_all)
qed

lemma step_sound:
  assumes api: "sound_digests (ev_api env)" and u: "under_way (ev_api env) d actor G s"
  shows "wp (rollback_step env actor r) (turn_fits (ev_api env) d actor G) (settled_error (ev_api env) d G) s"
proof -
  let ?a = "next_rollback_action actor (tx_journal s)"
  have c: "chosen_for actor (tx_journal s) ?a" by (rule next_action_chosen)
  have barrier: "targets_retired (tx_journal s) \<and> (\<forall>m \<in> set (aj_members (tx_journal s)). tm_old m \<noteq> OldPrepareIntent)"
    if "\<not> about_member ?a" using next_action_barrier [OF that] by simp
  show ?thesis
  proof (cases "needs_rows ?a \<and> \<not> r")
    case True
    then have "\<not> about_member ?a" by (cases ?a) simp_all
    with True barrier chosen_past [OF c] have "past_bridge (tx_journal s)" by simp
    from restore_rows_sound [OF u this]
    have "wp (restore_old_registry_rows env) (\<lambda>_. wp (perform_action env actor True ?a)
        (turn_fits (ev_api env) d actor G) (settled_error (ev_api env) d G)) (settled_error (ev_api env) d G) s"
      by (rule wp_mono) (use c barrier in \<open>auto intro!: perform_sound [OF api]\<close>)
    with True show ?thesis by (simp add: rollback_step_def wp_bind wp_get Let_def)
  next
    case False
    with perform_sound [OF api u c barrier] show ?thesis by (auto simp: rollback_step_def wp_bind wp_get Let_def)
  qed
qed

lemma loop_sound:
  assumes "sound_digests (ev_api env)" and "under_way (ev_api env) d actor G s"
  shows "wp (rollback_loop env actor r) (outcome_fits (ev_api env) d actor G) (settled_error (ev_api env) d G) s"
  using assms
proof (induction env actor r s rule: rollback_loop.induct)
  case (1 env actor r s)
  obtain x t where run: "rollback_step env actor r s = (x, t)" by (cases "rollback_step env actor r s")
  from step_sound [OF 1(2,3), of r] run
  have fits: "case x of Inl e \<Rightarrow> settled_error (ev_api env) d G e t | Inr a \<Rightarrow> turn_fits (ev_api env) d actor G a t"
    by (simp add: wp_def)
  show ?case
  proof (cases x)
    case (Inl e)
    with fits run show ?thesis by (simp add: wp_def rollback_loop.simps [of env actor r s])
  next
    case (Inr y)
    show ?thesis
    proof (cases y)
      case (Continue r')
      from 1(1) [OF run [symmetric] Inr Continue 1(2)] fits Inr Continue
      have "wp (rollback_loop env actor r') (outcome_fits (ev_api env) d actor G) (settled_error (ev_api env) d G) t" by simp
      with run Inr Continue show ?thesis by (simp add: wp_def rollback_loop.simps [of env actor r s])
    next
      case (Stop out)
      with fits run Inr show ?thesis by (simp add: wp_def rollback_loop.simps [of env actor r s])
    qed
  qed
qed

lemma drive_sound:
  assumes "sound_digests (ev_api env)" and "under_way (ev_api env) d actor G s"
  shows "wp (drive_rollback env actor) (outcome_fits (ev_api env) d actor G) (settled_error (ev_api env) d G) s"
proof -
  from assms(2) have "\<forall>m \<in> set (aj_members (tx_journal s)). tm_old m \<noteq> OldForceStopIntent"
    by (simp add: under_way_def steady_def)
  with loop_sound [OF assms, of False] show ?thesis by (simp add: drive_rollback_def wp_bind wp_get wp_check)
qed

end
