(* ===== verification/Activation_Commit.thy ===== *)
theory Activation_Commit
  imports Activation_Loop
begin

text \<open>
  Recovery of a saved activation, \<open>muxe/src/lifecycle/activate.rs\<close>: what is finished once every broker
  has acknowledged the commit, the replay of a saved commit against the brokers its readiness proof
  names, and \<open>recover_one\<close>, which takes whatever phase the record was left in to its end.
\<close>

section \<open>Publishing\<close>

definition publish_stage :: "tx_env \<Rightarrow> bridge_progress \<Rightarrow> unit tx \<Rightarrow> bridge_progress \<Rightarrow> unit tx" where
  "publish_stage env b act b' =
     tbind (tget tx_journal) (\<lambda>j.
     if bridge_progress_of j = Some b then tbind act (\<lambda>_. save_bridge env b') else tret ())"

definition publish_commit_artifacts :: "tx_env \<Rightarrow> unit tx" where
  "publish_commit_artifacts env =
     tbind (tget tx_journal) (\<lambda>j.
     case bridge_progress_of j of
       None \<Rightarrow> tret ()
     | Some b \<Rightarrow>
         tbind (tcheck (aj_bridge_identity j \<noteq> None) (ErrUnit MissingLocation)) (\<lambda>_.
         tbind (publish_stage env TargetReloaded (tret ()) PreviousPublishIntent) (\<lambda>_.
         tbind (publish_stage env PreviousPublishIntent (effect env outside PublishPrevious) PreviousPublished) (\<lambda>_.
         tbind (publish_stage env PreviousPublished (tret ()) ReceiptIntent) (\<lambda>_.
         tbind (publish_stage env ReceiptIntent (effect env outside PublishReceipt) ReceiptPublished) (\<lambda>_.
         tbind (tget tx_journal) (\<lambda>j'.
         tbind (tcheck (bridge_progress_of j' = Some ReceiptPublished) (ErrUnit Unfinished)) (\<lambda>_.
         if b = ReceiptPublished
         then tbind (effect env outside PublishPrevious) (\<lambda>_. effect env outside PublishReceipt)
         else tret ()))))))))"

section \<open>Finishing an acknowledged commit\<close>

definition is_committing :: "activation_journal \<Rightarrow> bool" where
  "is_committing j \<longleftrightarrow> (case aj_transaction j of Committing _ \<Rightarrow> True | _ \<Rightarrow> False)"

definition acknowledged :: "transaction_member \<Rightarrow> bool" where
  "acknowledged m \<longleftrightarrow> tm_old m \<in> {OldCommitted, OldForceStopped} \<and> tm_target m = TargetCommitted"

definition needs_old_receipt :: "tx_env \<Rightarrow> activation_journal \<Rightarrow> transaction_member \<Rightarrow> unit tx" where
  "needs_old_receipt env j m =
     tbind (has_old_receipt env j m) (\<lambda>present. demand present (ErrUnit ReceiptMissing))"

definition finish_acknowledged_commit :: "tx_env \<Rightarrow> bool tx" where
  "finish_acknowledged_commit env =
     tbind (tget tx_journal) (\<lambda>j.
     tbind (tcheck (is_committing j \<and> has_commit_certificate (ev_api env) j) (ErrUnit NoCertificate)) (\<lambda>_.
     if \<not> list_all acknowledged (aj_members j) then tret False
     else
       tbind (teach (needs_old_receipt env j) (filter (\<lambda>m. tm_old m \<noteq> OldForceStopped) (aj_members j))) (\<lambda>_.
       tbind (publish_commit_artifacts env) (\<lambda>_.
       tbind (on_journal enter_committed) (\<lambda>_.
       tbind (write_journal env) (\<lambda>_.
       tbind (cleanup_terminal env) (\<lambda>_.
       tret True)))))))"

section \<open>Replaying a commit\<close>

definition proof_member :: "activation_journal \<Rightarrow> member_transaction_id \<Rightarrow> ready_member_proof option" where
  "proof_member j i =
     (case tp_ready_proof (aj_progress j) of
        None \<Rightarrow> None
      | Some p \<Rightarrow> find (\<lambda>q. rm_member_id q = i) (rp_incarnations p))"

definition proof_matches :: "ready_member_proof \<Rightarrow> broker_entry \<Rightarrow> server_id \<Rightarrow> bool" where
  "proof_matches p row server \<longleftrightarrow> rm_entry p = row \<and> rm_server_id p = server"

text \<open>The live broker, its row in the registry and the readiness proof are one incarnation.\<close>

definition certified_target :: "activation_status \<Rightarrow> broker_entry list \<Rightarrow> transaction_member \<Rightarrow> activation_journal \<Rightarrow> bool" where
  "certified_target st rows m j \<longleftrightarrow>
     status_attests_journal st j \<and> as_handoff_id st = Some (tm_handoff m) \<and> as_current st = aj_target_record j
     \<and> ls_discovery_key (as_live_server st) = tm_member m
     \<and> ls_host (as_live_server st) = (if is_zellij_unit (aj_unit j) then HostZellij else HostHerdr)
     \<and> as_lifecycle st = LifeRunning \<and> as_target st = None
     \<and> (case (filter (\<lambda>row. be_socket row = tm_endpoint m) rows, proof_member j (tm_id m)) of
          ([row], Some p) \<Rightarrow> proof_matches p row (ls_server_id (as_live_server st))
        | _ \<Rightarrow> False)"

definition certified_target_session :: "tx_env \<Rightarrow> activation_journal \<Rightarrow> transaction_member \<Rightarrow> unit tx" where
  "certified_target_session env j m =
     tbind (tcheck (has_commit_certificate (ev_api env) j) (ErrUnit NoCertificate)) (\<lambda>_.
     tbind (fetch_status env) (\<lambda>st.
     tbind (ask (ev_publication env)) (\<lambda>answer.
     tbind (answered answer outside) (\<lambda>rows.
     demand (certified_target st rows m j) mismatch))))"

definition confirm_old :: "tx_env \<Rightarrow> nat \<Rightarrow> unit tx" where
  "confirm_old env n =
     tbind (tget tx_journal) (\<lambda>j.
     let m = aj_members j ! n in
     if tm_old m = OldForceStopped then tret ()
     else
       tbind (tcheck (tm_old m \<in> {OldCommitIntent, OldCommitted}) (ErrUnit ReceiptMissing)) (\<lambda>_.
       tbind (needs_old_receipt env j m) (\<lambda>_.
       if tm_old m = OldCommitIntent
       then tbind (on_journal (set_old n OldCommitted)) (\<lambda>_. write_journal env)
       else tret ())))"

definition commit_target :: "tx_env \<Rightarrow> nat \<times> transaction_member \<Rightarrow> unit tx" where
  "commit_target env snapshot =
     (let n = fst snapshot; m = snd snapshot in
      tbind (tget tx_journal) (\<lambda>j.
      tbind (certified_target_session env j m) (\<lambda>_.
      if tm_target m = TargetCommitted then tret ()
      else
        tbind (on_journal (set_target n TargetCommitIntent)) (\<lambda>_.
        tbind (write_journal env) (\<lambda>_.
        tbind (effect env outside (CommitTarget (tm_id m))) (\<lambda>_.
        tbind (on_journal (set_target n TargetCommitted)) (\<lambda>_.
        write_journal env)))))))"

definition recover_commit :: "tx_env \<Rightarrow> unit tx" where
  "recover_commit env =
     tbind (tget tx_journal) (\<lambda>j.
     tbind (if directive j = DirectCommit \<and> \<not> is_committing j
            then tbind (on_journal enter_committing) (\<lambda>_. write_journal env) else tret ()) (\<lambda>_.
     tbind (teach (confirm_old env) [0..<length (aj_members j)]) (\<lambda>_.
     tbind (tget tx_journal) (\<lambda>j'.
     tbind (teach (commit_target env) (enumerate 0 (aj_members j'))) (\<lambda>_.
     tbind (finish_acknowledged_commit env) (\<lambda>finished.
     tcheck finished (ErrUnit Unfinished)))))))"

section \<open>The coordinator's rollback\<close>

text \<open>
  \<open>rollback_transaction\<close> of the coordinator, from the decision on: a failed write of the decision is
  tried once more with a longer reason, and a drive that ends with an error of the record file is
  started once more with the record in memory. Its diagnostics are left out.
\<close>

definition save_rollback :: "tx_env \<Rightarrow> str \<Rightarrow> unit tx" where
  "save_rollback env reason s =
     (case tbind (on_journal (enter_rollback reason)) (\<lambda>_. write_journal env) s of
        (Inr u, t) \<Rightarrow> (Inr u, t)
      | (Inl e, t) \<Rightarrow>
          tbind (ask (ev_reason env)) (\<lambda>longer.
          tbind (on_journal (enter_rollback longer)) (\<lambda>_. write_journal env)) t)"

definition drive_twice :: "tx_env \<Rightarrow> actor \<Rightarrow> drive_outcome tx" where
  "drive_twice env actor s =
     (case drive_rollback env actor s of
        (Inl (ErrJournal e), t) \<Rightarrow> drive_rollback env actor t
      | r \<Rightarrow> r)"

definition rollback_transaction :: "tx_env \<Rightarrow> prepared_member list \<Rightarrow> str \<Rightarrow> drive_outcome tx" where
  "rollback_transaction env prepared reason =
     tbind (save_rollback env reason) (\<lambda>_. drive_twice env (NormalActor prepared))"

section \<open>Recovering one record\<close>

text \<open>The actor of recovery outside any broker: it is nobody's local broker.\<close>

definition recovery_actor :: actor where
  "recovery_actor = RecoveryActor None None False"

definition recover_rollback :: "tx_env \<Rightarrow> unit tx" where
  "recover_rollback env =
     tbind (drive_rollback env recovery_actor) (\<lambda>out. tcheck (out = DriveComplete) (ErrUnit Unfinished))"

datatype recovery_outcome = RecoveredCommitted | RecoveredRolledBack | RecoveredPreserved

definition recovery_reason :: str where
  "recovery_reason = lit ''recovery is restoring the previous brokers because the activation readiness decision was not saved''"

definition abandon :: "tx_env \<Rightarrow> recovery_outcome tx" where
  "abandon env =
     tbind (on_journal (enter_rollback recovery_reason)) (\<lambda>_.
     tbind (write_journal env) (\<lambda>_.
     tbind (recover_rollback env) (\<lambda>_. tret RecoveredRolledBack)))"

definition recover_transaction :: "tx_env \<Rightarrow> recovery_outcome tx" where
  "recover_transaction env =
     tbind (tget tx_journal) (\<lambda>j.
     case directive j of
       DirectCleanupCommitted \<Rightarrow> tbind (cleanup_terminal env) (\<lambda>_. tret RecoveredCommitted)
     | DirectCleanupRolledBack \<Rightarrow> tbind (cleanup_terminal env) (\<lambda>_. tret RecoveredRolledBack)
     | DirectPrepare \<Rightarrow> abandon env
     | DirectActivate \<Rightarrow> abandon env
     | DirectRollBack \<Rightarrow> tbind (recover_rollback env) (\<lambda>_. tret RecoveredRolledBack)
     | DirectCommit \<Rightarrow>
         if has_commit_certificate (ev_api env) j then tbind (recover_commit env) (\<lambda>_. tret RecoveredCommitted)
         else tfail (ErrUnit NoCertificate)
     | DirectRetryForce \<Rightarrow> tfail (ErrUnit Unfinished))"

definition recover_one :: "tx_env \<Rightarrow> tx_state \<Rightarrow> recovery_outcome \<times> tx_state" where
  "recover_one env s =
     (let (r, t) = recover_transaction env s; j = tx_journal t in
      if is_forced j \<and> directive j = DirectRetryForce then (RecoveredPreserved, t)
      else (case r of Inl _ \<Rightarrow> RecoveredPreserved | Inr out \<Rightarrow> out, t))"

end
