(* ===== verification/Activation_Certified.thy ===== *)
theory Activation_Certified
  imports Activation_Outcome Activation_Commit
begin

text \<open>
  Recovery keeps the discipline of \<open>Activation_Audit\<close> whatever phase it finds the record in, however
  often it is cut off and started again, and a transaction that was decided one way never does an
  effect of the other.
\<close>

section \<open>A commit under way\<close>

abbreviation commit_error :: "tx_env \<Rightarrow> activation_journal option \<Rightarrow> activate_error \<Rightarrow> tx_state \<Rightarrow> bool" where
  "commit_error env d \<equiv> settled_error (ev_api env) d False"

definition confirmed :: "activation_api \<Rightarrow> activation_journal option \<Rightarrow> tx_state \<Rightarrow> bool" where
  "confirmed api d t \<longleftrightarrow>
     sound api d t \<and> synced t \<and> valid_journal api (tx_journal t) \<and> committing api (tx_journal t)"

lemma confirmed_same:
  "confirmed api d s \<Longrightarrow> sound api d t \<Longrightarrow> tx_journal t = tx_journal s \<Longrightarrow> tx_disk t = tx_disk s \<Longrightarrow> confirmed api d t"
  by (simp add: confirmed_def synced_def)

lemma committing_iff: "committing api j \<longleftrightarrow> is_committing j \<and> has_commit_certificate api j"
  by (auto simp: committing_def is_committing_def split: transaction_phase.splits)

lemma certificate_frame:
  assumes "frame k = frame j" and "list_all2 same_member (aj_members k) (aj_members j)"
    and "tp_ready_proof (aj_progress k) = tp_ready_proof (aj_progress j)"
  shows "has_commit_certificate api k = has_commit_certificate api j"
  by (simp add: has_commit_certificate_def assms(3) proof_ok_frame(1) [OF assms(1,2)] frameD(1) [OF assms(1)]
      split: option.split)

lemma committing_phase:
  "committing api j \<Longrightarrow> directive j = DirectCommit"
  by (auto simp: committing_def directive_def)

lemma is_committing_set [simp]:
  "is_committing (update_member n f j) = is_committing j" "is_committing (set_bridge b j) = is_committing j"
  by (cases "aj_transaction j"; simp add: is_committing_def update_member_def set_bridge_def set_progress_def)+

lemma committing_fits:
  assumes "is_committing j"
  shows "progress_fits j \<longleftrightarrow>
     (\<forall>m \<in> set (aj_members j). tm_old m \<in> {OldDrained, OldCommitIntent, OldCommitted, OldForceStopped}
        \<and> tm_target m \<in> {TargetReady, TargetCommitIntent, TargetCommitted})
     \<and> (\<forall>b. bridge_progress_of j = Some b \<longrightarrow>
          b \<in> {TargetReloaded, PreviousPublishIntent, PreviousPublished, ReceiptIntent, ReceiptPublished})"
  using assms unfolding is_committing_def
  by (cases "aj_transaction j"; cases "aj_bridge j")
     (auto simp: progress_fits_def members_fit_def rollback_barrier_def bridge_fits_def bridge_progress_of_def list_all_iff)

lemma wp_commit_save:
  assumes "sound (ev_api env) d t" and "tx_disk t = Some k" and "directive k = DirectCommit"
    and "valid_journal (ev_api env) j" and "committing (ev_api env) j"
    and "frame j = frame k" and "map tm_id (aj_members j) = map tm_id (aj_members k)"
  shows "wp (write_journal env) (\<lambda>_ v. confirmed (ev_api env) d v \<and> tx_journal v = j) (commit_error env d) (t\<lparr>tx_journal := j\<rparr>)"
proof (rule wp_write)
  show "follows (tx_disk (t\<lparr>tx_journal := j\<rparr>)) (tx_journal (t\<lparr>tx_journal := j\<rparr>))"
    using assms(2,3,5-7) by (cases "aj_transaction k") (auto simp: follows_def directive_def committing_def)
qed (use assms in \<open>auto simp: confirmed_def\<close>)

text \<open>The records a replay writes are valid and still certified.\<close>

lemma commit_member_update:
  assumes v: "valid_journal api j" and c: "committing api j" and n: "n < length (aj_members j)"
    and same: "same_member (f (aj_members j ! n)) (aj_members j ! n)"
    and stop: "check_stop_kind api j (f (aj_members j ! n)) = Inr ()"
    and ret: "check_retirement api j (f (aj_members j ! n)) = Inr ()"
    and old: "tm_old (f (aj_members j ! n)) \<in> {OldDrained, OldCommitIntent, OldCommitted, OldForceStopped}"
    and target: "tm_target (f (aj_members j ! n)) \<in> {TargetReady, TargetCommitIntent, TargetCommitted}"
  shows "valid_journal api (update_member n f j)" and "committing api (update_member n f j)"
proof -
  let ?k = "update_member n f j"
  from c have p: "is_committing j" by (simp add: committing_iff)
  have fits: "progress_fits j" using v by (simp add: valid_iff)
  have b: "\<not> is_restored b" if "bridge_progress_of j = Some b" for b
    using fits that committing_fits [OF p] by auto
  have "\<forall>m \<in> set (aj_members ?k). tm_old m \<in> {OldDrained, OldCommitIntent, OldCommitted, OldForceStopped}
      \<and> tm_target m \<in> {TargetReady, TargetCommitIntent, TargetCommitted}"
    unfolding aj_members_update
    by (rule list_update_all) (use fits committing_fits [OF p] old target in simp_all)
  then have "progress_fits ?k" using fits committing_fits [OF p] committing_fits [of ?k] p by simp
  then show "valid_journal api ?k"
    using b by (intro valid_update_member [of api j n f, OF v n same stop ret]) (simp_all add: restored_ok_trivial)
  have "has_commit_certificate api ?k = has_commit_certificate api j"
    by (rule certificate_frame) (simp_all only: frame_update progress_proof_update same_members_update [of f j n, OF same])
  with c show "committing api ?k" by (simp add: committing_iff)
qed

lemma commit_old_update:
  assumes v: "valid_journal api j" and c: "committing api j" and n: "n < length (aj_members j)"
    and old: "tm_old (aj_members j ! n) = OldCommitIntent"
  shows "valid_journal api (set_old n OldCommitted j)" and "committing api (set_old n OldCommitted j)"
proof -
  let ?m = "aj_members j ! n" and ?f = "\<lambda>m. m\<lparr>tm_old := OldCommitted\<rparr>"
  have "progress_fits j" "is_committing j" using v c by (simp_all add: valid_iff committing_iff)
  with n have target: "tm_target (?f ?m) \<in> {TargetReady, TargetCommitIntent, TargetCommitted}"
    by (simp add: committing_fits)
  have stop: "check_stop_kind api j (?f ?m) = Inr ()"
    by (rule cooperative_stop [OF valid_member(1) [OF v n]]) (simp_all add: old)
  have ret: "check_retirement api j (?f ?m) = Inr ()"
    using valid_member(2) [OF v n] by (subst retirement_frame [of j j _ ?m]) (simp_all add: same_member_def)
  show "valid_journal api (set_old n OldCommitted j)" "committing api (set_old n OldCommitted j)"
    unfolding set_old_def
    by (rule commit_member_update [of api j n ?f, OF v c n _ stop ret _ target]; simp add: same_member_def)+
qed

lemma commit_target_update:
  assumes v: "valid_journal api j" and c: "committing api j" and n: "n < length (aj_members j)"
    and t: "t \<in> {TargetCommitIntent, TargetCommitted}"
  shows "valid_journal api (set_target n t j)" and "committing api (set_target n t j)"
proof -
  let ?m = "aj_members j ! n" and ?f = "\<lambda>m. m\<lparr>tm_target := t\<rparr>"
  have "progress_fits j" "is_committing j" using v c by (simp_all add: valid_iff committing_iff)
  with n have fits: "tm_old ?m \<in> {OldDrained, OldCommitIntent, OldCommitted, OldForceStopped}"
    "tm_target ?m \<in> {TargetReady, TargetCommitIntent, TargetCommitted}" by (simp_all add: committing_fits)
  have stop: "check_stop_kind api j (?f ?m) = Inr ()"
    using valid_member(1) [OF v n] by (subst stop_kind_frame [of j j _ ?m]) (simp_all add: same_member_def)
  have "tm_target_retirement ?m = None"
    using valid_member(2) [OF v n] fits(2) by (auto simp: check_retirement_def result_simps)
  then have ret: "check_retirement api j (?f ?m) = Inr ()" using t by (auto simp: check_retirement_def result_simps)
  show "valid_journal api (set_target n t j)" "committing api (set_target n t j)"
    unfolding set_target_def
    by (rule commit_member_update [of api j n ?f, OF v c n _ stop ret]; use fits(1) t in \<open>simp add: same_member_def\<close>)+
qed

lemma commit_bridge_update:
  assumes v: "valid_journal api j" and c: "committing api j" and b: "bridge_progress_of j = Some b"
    and b': "b' \<in> {TargetReloaded, PreviousPublishIntent, PreviousPublished, ReceiptIntent, ReceiptPublished}"
  shows "valid_journal api (set_bridge b' j)" and "committing api (set_bridge b' j)"
proof -
  from c have p: "is_committing j" by (simp add: committing_iff)
  have fits: "progress_fits j" using v by (simp add: valid_iff)
  from b have "aj_bridge j \<noteq> None" by (auto simp: bridge_progress_of_def)
  then have "progress_fits (set_bridge b' j)"
    using fits committing_fits [OF p] committing_fits [of "set_bridge b' j"] p b' by simp
  then show "valid_journal api (set_bridge b' j)"
    using b' by (intro valid_set_bridge [OF v]) (auto simp: reload_ok_def restored_ok_def)
  have "has_commit_certificate api (set_bridge b' j) = has_commit_certificate api j"
    by (rule certificate_frame) simp_all
  with c show "committing api (set_bridge b' j)" by (simp add: committing_iff)
qed


section \<open>Replaying the old brokers\<close>

text \<open>A loop in which each round establishes something that the later rounds keep.\<close>

lemma wp_each_grow:
  assumes "\<And>x t. x \<in> set xs \<Longrightarrow> I t \<Longrightarrow> wp (f x) (\<lambda>_ u. I u \<and> P x u \<and> (\<forall>y. P y t \<longrightarrow> P y u)) E t" and "I s"
  shows "wp (teach f xs) (\<lambda>_ u. I u \<and> (\<forall>x \<in> set xs. P x u) \<and> (\<forall>y. P y s \<longrightarrow> P y u)) E s"
  using assms
proof (induction xs arbitrary: s)
  case (Cons x xs)
  have "wp (f x) (\<lambda>_ u. I u \<and> P x u \<and> (\<forall>y. P y s \<longrightarrow> P y u)) E s" using Cons.prems by simp
  then show ?case
    unfolding teach.simps wp_bind
  proof (rule wp_mono)
    fix a t assume t: "I t \<and> P x t \<and> (\<forall>y. P y s \<longrightarrow> P y t)"
    with Cons.prems(1) have "wp (teach f xs) (\<lambda>_ u. I u \<and> (\<forall>x \<in> set xs. P x u) \<and> (\<forall>y. P y t \<longrightarrow> P y u)) E t"
      by (intro Cons.IH) simp_all
    with t show "wp (teach f xs) (\<lambda>_ u. I u \<and> (\<forall>x \<in> set (x # xs). P x u) \<and> (\<forall>y. P y s \<longrightarrow> P y u)) E t"
      by (elim wp_mono) auto
  qed
qed (simp add: wp_ret)

lemma leaves_needs_old [leaves_intros]: "leaves A (needs_old_receipt env j m)"
  unfolding needs_old_receipt_def by (intro leaves_intros)

definition ended_old :: "nat \<Rightarrow> tx_state \<Rightarrow> bool" where
  "ended_old n t \<longleftrightarrow>
     (n < length (aj_members (tx_journal t)) \<longrightarrow> tm_old (aj_members (tx_journal t) ! n) \<in> {OldCommitted, OldForceStopped})"

text \<open>The replay of one record: its identities stay those of the record it began with.\<close>

definition replaying :: "activation_api \<Rightarrow> activation_journal option \<Rightarrow> member_transaction_id list \<Rightarrow> tx_state \<Rightarrow> bool" where
  "replaying api d ids t \<longleftrightarrow> confirmed api d t \<and> map tm_id (aj_members (tx_journal t)) = ids"

lemma replaying_same:
  "replaying api d ids s \<Longrightarrow> sound api d t \<Longrightarrow> tx_journal t = tx_journal s \<Longrightarrow> tx_disk t = tx_disk s \<Longrightarrow> replaying api d ids t"
  using confirmed_same [of api d s t] by (simp add: replaying_def)

lemma replaying_save:
  assumes r: "replaying (ev_api env) d ids t" and j: "valid_journal (ev_api env) j" "committing (ev_api env) j"
    and "frame j = frame (tx_journal t)" and "map tm_id (aj_members j) = map tm_id (aj_members (tx_journal t))"
  shows "wp (write_journal env) (\<lambda>_ v. replaying (ev_api env) d ids v \<and> tx_journal v = j) (commit_error env d) (t\<lparr>tx_journal := j\<rparr>)"
proof -
  from r have "sound (ev_api env) d t" "tx_disk t = Some (tx_journal t)" "directive (tx_journal t) = DirectCommit"
    using committing_phase by (auto simp: replaying_def confirmed_def synced_def)
  from wp_commit_save [OF this j assms(4,5)] show ?thesis
    by (rule wp_mono) (use r assms(5) in \<open>auto simp: replaying_def\<close>)
qed

lemma ids_update: "tm_id (f (aj_members j ! n)) = tm_id (aj_members j ! n)
  \<Longrightarrow> map tm_id (aj_members (update_member n f j)) = map tm_id (aj_members j)"
  by (cases "n < length (aj_members j)") (simp_all add: map_update_same list_update_beyond)

lemma confirm_old_sound:
  assumes r: "replaying (ev_api env) d ids t" and n: "n < length ids"
  shows "wp (confirm_old env n) (\<lambda>_ u. replaying (ev_api env) d ids u \<and> ended_old n u \<and> (\<forall>y. ended_old y t \<longrightarrow> ended_old y u))
      (commit_error env d) t"
proof -
  let ?j = "tx_journal t" and ?m = "aj_members (tx_journal t) ! n"
  let ?Q = "\<lambda>_ :: unit. \<lambda>u. replaying (ev_api env) d ids u \<and> ended_old n u \<and> (\<forall>y. ended_old y t \<longrightarrow> ended_old y u)"
  from r n have len: "n < length (aj_members ?j)" by (auto simp: replaying_def)
  from r have so: "sound (ev_api env) d t" and v: "valid_journal (ev_api env) ?j" and c: "committing (ev_api env) ?j"
    by (simp_all add: replaying_def confirmed_def)
  have mark: "wp (if tm_old ?m = OldCommitIntent then tbind (on_journal (set_old n OldCommitted)) (\<lambda>_. write_journal env) else tret ())
      ?Q (commit_error env d) u"
    if u: "replaying (ev_api env) d ids u" "tx_journal u = ?j" and old: "tm_old ?m \<in> {OldCommitIntent, OldCommitted}" for u
  proof (cases "tm_old ?m = OldCommitIntent")
    case True
    have "wp (write_journal env) (\<lambda>_ v. replaying (ev_api env) d ids v \<and> tx_journal v = set_old n OldCommitted ?j)
        (commit_error env d) (u\<lparr>tx_journal := set_old n OldCommitted ?j\<rparr>)"
      by (rule replaying_save [OF u(1)]) (use commit_old_update [OF v c len True] u(2) ids_update in \<open>simp_all add: set_old_def\<close>)
    then have "wp (write_journal env) ?Q (commit_error env d) (u\<lparr>tx_journal := set_old n OldCommitted ?j\<rparr>)"
      by (rule wp_mono) (use len in \<open>auto simp: ended_old_def set_old_def nth_list_update\<close>)
    with True u(2) show ?thesis by (simp add: wp_bind wp_journal)
  next
    case False
    with u old show ?thesis by (auto simp: wp_ret ended_old_def)
  qed
  show ?thesis
  proof (cases "tm_old ?m = OldForceStopped")
    case True
    with r show ?thesis by (simp add: confirm_old_def wp_bind wp_get Let_def wp_ret ended_old_def)
  next
    case False
    have "wp (needs_old_receipt env ?j ?m) (\<lambda>_. wp (if tm_old ?m = OldCommitIntent
        then tbind (on_journal (set_old n OldCommitted)) (\<lambda>_. write_journal env) else tret ()) ?Q (commit_error env d))
        (commit_error env d) t" if old: "tm_old ?m \<in> {OldCommitIntent, OldCommitted}"
    proof (rule wp_quiet [OF so, where A = "{}"])
      fix a u assume "sound (ev_api env) d u" "tx_journal u = ?j" "tx_disk u = tx_disk t"
      with mark [OF replaying_same [OF r]] old show "wp (if tm_old ?m = OldCommitIntent
        then tbind (on_journal (set_old n OldCommitted)) (\<lambda>_. write_journal env) else tret ()) ?Q (commit_error env d) u" by simp
    qed (auto intro: leaves_intros)
    with False so show ?thesis
      by (auto simp: confirm_old_def wp_bind wp_get wp_check Let_def settled_error_def)
  qed
qed

section \<open>Replaying the replacements\<close>

lemma leaves_certified [leaves_intros]: "leaves A (certified_target_session env j m)"
  unfolding certified_target_session_def by (intro leaves_intros)

definition old_ended :: "activation_journal \<Rightarrow> bool" where
  "old_ended j \<longleftrightarrow> (\<forall>m \<in> set (aj_members j). tm_old m \<in> {OldCommitted, OldForceStopped})"

lemma old_ended_target: "old_ended j \<Longrightarrow> n < length (aj_members j) \<Longrightarrow> old_ended (set_target n t j)"
  unfolding old_ended_def set_target_def aj_members_update by (rule list_update_all) simp_all

lemma commit_target_sound:
  assumes r: "replaying (ev_api env) d ids t" and old: "old_ended (tx_journal t)"
    and n: "n < length ids" "tm_id m = ids ! n"
  shows "wp (commit_target env (n, m)) (\<lambda>_ u. replaying (ev_api env) d ids u \<and> old_ended (tx_journal u)) (commit_error env d) t"
proof -
  let ?j = "tx_journal t"
  let ?Q = "\<lambda>u. replaying (ev_api env) d ids u \<and> old_ended (tx_journal u)"
  let ?k = "set_target n TargetCommitIntent ?j"
  from r n have len: "n < length (aj_members ?j)" and mid: "tm_id (aj_members ?j ! n) = tm_id m"
    by (auto simp: replaying_def)
  have save: "wp (write_journal env) (\<lambda>_ v. ?Q v \<and> tx_journal v = set_target n x (tx_journal u)) (commit_error env d)
      (u\<lparr>tx_journal := set_target n x (tx_journal u)\<rparr>)"
    if u: "?Q u" "n < length (aj_members (tx_journal u))" and x: "x \<in> {TargetCommitIntent, TargetCommitted}" for u x
  proof -
    from u have "valid_journal (ev_api env) (tx_journal u)" "committing (ev_api env) (tx_journal u)"
      by (simp_all add: replaying_def confirmed_def)
    from commit_target_update [OF this u(2) x] u
    have "wp (write_journal env) (\<lambda>_ v. replaying (ev_api env) d ids v \<and> tx_journal v = set_target n x (tx_journal u))
        (commit_error env d) (u\<lparr>tx_journal := set_target n x (tx_journal u)\<rparr>)"
      by (intro replaying_save) (simp_all add: set_target_def map_update_same)
    then show ?thesis by (rule wp_mono) (use u old_ended_target in auto)
  qed
  have act: "wp (effect env outside (CommitTarget (tm_id m)))
      (\<lambda>_. wp (tbind (on_journal (set_target n TargetCommitted)) (\<lambda>_. write_journal env)) (\<lambda>_. ?Q) (commit_error env d))
      (commit_error env d) v"
    if v: "?Q v" "tx_journal v = ?k" for v
  proof (rule wp_quiet [where A = "{CommitTarget (tm_id m)}"])
    show "\<exists>j. tx_disk v = Some j \<and> permits (ev_api env) j x" if "x \<in> {CommitTarget (tm_id m)}" for x
    proof -
      have "aj_members ?k ! n \<in> set (aj_members ?k)" using len by (intro nth_mem) (simp add: set_target_def)
      moreover have "tm_id (aj_members ?k ! n) = tm_id m \<and> tm_target (aj_members ?k ! n) = TargetCommitIntent"
        using len mid by (simp add: set_target_def)
      ultimately have "member_with ?k (tm_id m) (\<lambda>m. tm_target m = TargetCommitIntent)"
        unfolding member_with_def by blast
      with v that show ?thesis by (auto simp: replaying_def confirmed_def synced_def old_ended_def)
    qed
    fix a w assume w: "sound (ev_api env) d w" "tx_journal w = tx_journal v" "tx_disk w = tx_disk v"
    with v replaying_same [OF _ w] have "?Q w" by auto
    moreover have "n < length (aj_members (tx_journal w))" using w v len by (simp add: set_target_def)
    ultimately have "wp (write_journal env) (\<lambda>_ v. ?Q v \<and> tx_journal v = set_target n TargetCommitted (tx_journal w))
        (commit_error env d) (w\<lparr>tx_journal := set_target n TargetCommitted (tx_journal w)\<rparr>)" by (intro save) simp_all
    then have "wp (write_journal env) (\<lambda>_. ?Q) (commit_error env d) (w\<lparr>tx_journal := set_target n TargetCommitted (tx_journal w)\<rparr>)"
      by (rule wp_mono) blast+
    then show "wp (tbind (on_journal (set_target n TargetCommitted)) (\<lambda>_. write_journal env)) (\<lambda>_. ?Q) (commit_error env d) w"
      by (simp add: wp_bind wp_journal)
  qed (use v in \<open>auto simp: replaying_def confirmed_def intro: leaves_intros\<close>)
  let ?tail = "tbind (on_journal (set_target n TargetCommitIntent)) (\<lambda>_.
        tbind (write_journal env) (\<lambda>_.
        tbind (effect env outside (CommitTarget (tm_id m))) (\<lambda>_.
        tbind (on_journal (set_target n TargetCommitted)) (\<lambda>_.
        write_journal env))))"
  have tail: "wp ?tail (\<lambda>_. ?Q) (commit_error env d) u" if u: "?Q u" "tx_journal u = ?j" for u
  proof -
    have "wp (write_journal env) (\<lambda>_ v. ?Q v \<and> tx_journal v = ?k) (commit_error env d) (u\<lparr>tx_journal := ?k\<rparr>)"
      using save [OF u(1), of TargetCommitIntent] u len by simp
    then have "wp (write_journal env) (\<lambda>_. wp (tbind (effect env outside (CommitTarget (tm_id m))) (\<lambda>_.
        tbind (on_journal (set_target n TargetCommitted)) (\<lambda>_. write_journal env))) (\<lambda>_. ?Q) (commit_error env d))
        (commit_error env d) (u\<lparr>tx_journal := ?k\<rparr>)"
      by (rule wp_mono) (use act in \<open>auto simp: wp_bind\<close>)
    with u(2) show ?thesis by (simp add: wp_bind [of "on_journal f" for f] wp_journal wp_bind [of "write_journal env"])
  qed
  have "wp (certified_target_session env ?j m) (\<lambda>_. wp (if tm_target m = TargetCommitted then tret () else ?tail)
      (\<lambda>_. ?Q) (commit_error env d)) (commit_error env d) t"
  proof (rule wp_quiet [where A = "{}"])
    fix a u assume u: "sound (ev_api env) d u" "tx_journal u = ?j" "tx_disk u = tx_disk t"
    with r old have "?Q u" using replaying_same [OF r u] by simp
    with tail u(2) show "wp (if tm_target m = TargetCommitted then tret () else ?tail) (\<lambda>_. ?Q) (commit_error env d) u"
      by (simp add: wp_ret)
  qed (use r in \<open>auto simp: replaying_def confirmed_def intro: leaves_intros\<close>)
  then show ?thesis by (simp add: commit_target_def wp_bind [of "tget f" for f] wp_get wp_bind [of "certified_target_session env j m" for j])
qed


section \<open>Publishing and finishing\<close>

definition publishing :: "activation_api \<Rightarrow> activation_journal option \<Rightarrow> tx_state \<Rightarrow> bool" where
  "publishing api d t \<longleftrightarrow> confirmed api d t \<and> all_committed (tx_journal t)"

lemma publishing_same:
  "publishing api d s \<Longrightarrow> sound api d t \<Longrightarrow> tx_journal t = tx_journal s \<Longrightarrow> tx_disk t = tx_disk s \<Longrightarrow> publishing api d t"
  using confirmed_same [of api d s t] by (simp add: publishing_def)

lemma publish_stage_sound:
  assumes p: "publishing (ev_api env) d t" and leaves: "leaves A act"
    and permitted: "\<And>x. bridge_progress_of (tx_journal t) = Some b \<Longrightarrow> x \<in> A \<Longrightarrow> permits (ev_api env) (tx_journal t) x"
    and b': "b' \<in> {TargetReloaded, PreviousPublishIntent, PreviousPublished, ReceiptIntent, ReceiptPublished}"
  shows "wp (publish_stage env b act b') (\<lambda>_. publishing (ev_api env) d) (commit_error env d) t"
proof (cases "bridge_progress_of (tx_journal t) = Some b")
  case True
  let ?j = "tx_journal t"
  from p have so: "sound (ev_api env) d t" and v: "valid_journal (ev_api env) ?j" and c: "committing (ev_api env) ?j"
    and d: "tx_disk t = Some ?j" and all: "all_committed ?j"
    by (simp_all add: publishing_def confirmed_def synced_def)
  have "wp act (\<lambda>_. wp (save_bridge env b') (\<lambda>_. publishing (ev_api env) d) (commit_error env d)) (commit_error env d) t"
  proof (rule wp_quiet [OF so leaves])
    fix a u assume u: "sound (ev_api env) d u" "tx_journal u = ?j" "tx_disk u = tx_disk t"
    have "wp (write_journal env) (\<lambda>_ v. confirmed (ev_api env) d v \<and> tx_journal v = set_bridge b' ?j) (commit_error env d)
        (u\<lparr>tx_journal := set_bridge b' ?j\<rparr>)"
      by (rule wp_commit_save [OF u(1) _ committing_phase [OF c] commit_bridge_update [OF v c True b']]) (use u d in simp_all)
    then have "wp (write_journal env) (\<lambda>_. publishing (ev_api env) d) (commit_error env d) (u\<lparr>tx_journal := set_bridge b' ?j\<rparr>)"
      by (rule wp_mono) (use all in \<open>auto simp: publishing_def all_committed_def\<close>)
    with u(2) show "wp (save_bridge env b') (\<lambda>_. publishing (ev_api env) d) (commit_error env d) u"
      by (simp add: save_bridge_def wp_bind wp_journal)
  qed (use permitted True d in auto)
  with True show ?thesis by (simp add: publish_stage_def wp_bind wp_get)
next
  case False
  with p show ?thesis by (simp add: publish_stage_def wp_bind wp_get wp_ret)
qed

lemma publishing_bridge:
  assumes "publishing api d t" and "bridge_progress_of (tx_journal t) = Some b"
  shows "b = PreviousPublishIntent \<or> b = ReceiptPublished \<Longrightarrow> permits api (tx_journal t) PublishPrevious"
    and "b = ReceiptIntent \<or> b = ReceiptPublished \<Longrightarrow> permits api (tx_journal t) PublishReceipt"
  using assms by (auto simp: publishing_def confirmed_def bridge_at_def)

lemma publish_sound:
  assumes p: "publishing (ev_api env) d t"
  shows "wp (publish_commit_artifacts env)
      (\<lambda>_ u. publishing (ev_api env) d u \<and> (\<forall>b. bridge_progress_of (tx_journal u) = Some b \<longrightarrow> b = ReceiptPublished))
      (commit_error env d) t"
proof -
  let ?Q = "\<lambda>_ :: unit. \<lambda>u. publishing (ev_api env) d u \<and> (\<forall>b. bridge_progress_of (tx_journal u) = Some b \<longrightarrow> b = ReceiptPublished)"
  let ?E = "commit_error env d"
  have stage: "wp (tbind (publish_stage env b act b') (\<lambda>_. m)) ?Q ?E u"
    if "publishing (ev_api env) d u" "leaves A act"
      "\<And>x. bridge_progress_of (tx_journal u) = Some b \<Longrightarrow> x \<in> A \<Longrightarrow> permits (ev_api env) (tx_journal u) x"
      "b' \<in> {TargetReloaded, PreviousPublishIntent, PreviousPublished, ReceiptIntent, ReceiptPublished}"
      "\<And>v. publishing (ev_api env) d v \<Longrightarrow> wp m ?Q ?E v" for b act b' A u and m :: "unit tx"
    unfolding wp_bind [of "publish_stage env b act b'"]
    by (rule wp_mono [OF publish_stage_sound [OF that(1-4)]]) (use that(5) in auto)
  show ?thesis
  proof (cases "bridge_progress_of (tx_journal t)")
    case None
    with p show ?thesis by (simp add: publish_commit_artifacts_def wp_bind wp_get wp_ret)
  next
    case (Some b)
    let ?last = "if b = ReceiptPublished then tbind (effect env outside PublishPrevious) (\<lambda>_. effect env outside PublishReceipt) else tret ()"
    have last: "wp ?last ?Q ?E v" if v: "publishing (ev_api env) d v" "bridge_progress_of (tx_journal v) = Some ReceiptPublished" for v
    proof (rule wp_quiet [where A = "{PublishPrevious, PublishReceipt}"])
      show "leaves {PublishPrevious, PublishReceipt} ?last" by (auto intro!: leaves_intros)
      show "\<exists>j. tx_disk v = Some j \<and> permits (ev_api env) j x" if "x \<in> {PublishPrevious, PublishReceipt}" for x
        using that v publishing_bridge [OF v] by (auto simp: publishing_def confirmed_def synced_def)
      show "?Q a w" if "sound (ev_api env) d w" "tx_journal w = tx_journal v" "tx_disk w = tx_disk v" for a w
        using publishing_same [OF v(1) that] that(2) v(2) by simp
    qed (use v in \<open>simp_all add: publishing_def confirmed_def\<close>)
    let ?check = "tbind (tget tx_journal) (\<lambda>j'. tbind (tcheck (bridge_progress_of j' = Some ReceiptPublished) (ErrUnit Unfinished)) (\<lambda>_. ?last))"
    have check: "wp ?check ?Q ?E v" if v: "publishing (ev_api env) d v" for v
      using last [OF v] v
      by (simp add: wp_bind [of "tget f" for f] wp_get wp_bind [of "tcheck q e" for q e] wp_check settled_error_def publishing_def confirmed_def)
    let ?four = "tbind (publish_stage env ReceiptIntent (effect env outside PublishReceipt) ReceiptPublished) (\<lambda>_. ?check)"
    have four: "wp ?four ?Q ?E v" if v: "publishing (ev_api env) d v" for v
      by (rule stage [OF v leaves_effect [of _ "{PublishReceipt}"] _ _ check]) (use publishing_bridge [OF v] in auto)
    let ?three = "tbind (publish_stage env PreviousPublished (tret ()) ReceiptIntent) (\<lambda>_. ?four)"
    have three: "wp ?three ?Q ?E v" if v: "publishing (ev_api env) d v" for v
      by (rule stage [OF v leaves_ret [of "{}"] _ _ four]) auto
    let ?two = "tbind (publish_stage env PreviousPublishIntent (effect env outside PublishPrevious) PreviousPublished) (\<lambda>_. ?three)"
    have two: "wp ?two ?Q ?E v" if v: "publishing (ev_api env) d v" for v
      by (rule stage [OF v leaves_effect [of _ "{PublishPrevious}"] _ _ three]) (use publishing_bridge [OF v] in auto)
    have one: "wp (tbind (publish_stage env TargetReloaded (tret ()) PreviousPublishIntent) (\<lambda>_. ?two)) ?Q ?E t"
      by (rule stage [OF p leaves_ret [of "{}"] _ _ two]) auto
    have "aj_bridge_identity (tx_journal t) \<noteq> None"
      using p Some valid_bridge_facts(3) by (auto simp: publishing_def confirmed_def)
    with one Some show ?thesis
      by (simp add: publish_commit_artifacts_def wp_bind [of "tget f" for f] wp_get wp_bind [of "tcheck q e" for q e] wp_check)
  qed
qed


lemma committed_phase [simp]:
  "directive (enter_committed j) = DirectCleanupCommitted" "aj_members (enter_committed j) = aj_members j"
  "aj_bridge (enter_committed j) = aj_bridge j" "aj_progress (enter_committed j) = aj_progress j"
  by (simp_all add: enter_committed_def enter_def aj_members_def aj_bridge_def aj_progress_def directive_def)

lemma valid_committed:
  assumes v: "valid_journal api j" and c: "committing api j" and all: "list_all acknowledged (aj_members j)"
    and b: "\<And>b. bridge_progress_of j = Some b \<Longrightarrow> b = ReceiptPublished"
  shows "valid_journal api (enter_committed j)"
proof (rule valid_change [OF v])
  have "proof_phase (aj_transaction j)" using c by (auto simp: committing_def)
  moreover have "proof_phase (aj_transaction (enter_committed j))" by (simp add: enter_committed_def enter_def)
  ultimately show "proof_fits api (enter_committed j)"
    using v by (subst proof_fits_same [of _ j]) (simp_all add: valid_iff)
  show "progress_fits (enter_committed j)"
    using all b
    by (auto simp: progress_fits_def members_fit_def rollback_barrier_def bridge_fits_def bridge_progress_of_def list_all_iff
        acknowledged_def enter_committed_def enter_def aj_members_def aj_bridge_def aj_progress_def split: option.split)
  show "reload_ok (map tm_id (aj_members (enter_committed j))) x \<and> restored_ok (aj_members (enter_committed j)) x"
    if "bridge_progress_of (enter_committed j) = Some x" for x
    using that b [of x] by (simp add: bridge_progress_of_def reload_ok_def restored_ok_def)
qed (use v in \<open>simp_all add: valid_iff\<close>)

definition recovered :: "activation_api \<Rightarrow> activation_journal option \<Rightarrow> tx_state \<Rightarrow> bool" where
  "recovered api d t \<longleftrightarrow> sound api d t \<and> tx_disk t = None \<and> directive (tx_journal t) = DirectCleanupCommitted"

definition ack_fits :: "activation_api \<Rightarrow> activation_journal option \<Rightarrow> bool \<Rightarrow> tx_state \<Rightarrow> bool" where
  "ack_fits api d finished u \<longleftrightarrow> (if finished then recovered api d u else sound api d u)"

lemma acknowledge_sound:
  assumes p: "confirmed (ev_api env) d t"
  shows "wp (finish_acknowledged_commit env) (ack_fits (ev_api env) d)
      (commit_error env d) t"
proof -
  let ?j = "tx_journal t" and ?E = "commit_error env d"
  let ?Q = "ack_fits (ev_api env) d"
  from p have so: "sound (ev_api env) d t" and c: "committing (ev_api env) ?j" and d: "tx_disk t = Some ?j"
    by (simp_all add: confirmed_def synced_def)
  let ?fin = "tbind (on_journal enter_committed) (\<lambda>_. tbind (write_journal env) (\<lambda>_. tbind (cleanup_terminal env) (\<lambda>_. tret True)))"
  have finish: "wp ?fin ?Q ?E u"
    if u: "publishing (ev_api env) d u" "\<And>b. bridge_progress_of (tx_journal u) = Some b \<Longrightarrow> b = ReceiptPublished" for u
  proof -
    let ?k = "enter_committed (tx_journal u)"
    from u have v: "valid_journal (ev_api env) (tx_journal u)" and cu: "committing (ev_api env) (tx_journal u)"
      by (simp_all add: publishing_def confirmed_def)
    have "list_all acknowledged (aj_members (tx_journal u))"
      using u(1) by (auto simp: publishing_def all_committed_def acknowledged_def list_all_iff)
    from valid_committed [OF v cu this u(2)] have vk: "valid_journal (ev_api env) ?k" .
    have "wp (write_journal env) (\<lambda>_. wp (tbind (cleanup_terminal env) (\<lambda>_. tret True)) ?Q ?E) ?E (u\<lparr>tx_journal := ?k\<rparr>)"
    proof (rule wp_write)
      show "follows (tx_disk (u\<lparr>tx_journal := ?k\<rparr>)) (tx_journal (u\<lparr>tx_journal := ?k\<rparr>))"
        using u cu by (auto simp: publishing_def confirmed_def synced_def follows_def committing_def enter_committed_def enter_def
            aj_members_def aj_progress_def frame_def)
      fix w assume w: "sound (ev_api env) d w" "synced w" "tx_journal w = tx_journal (u\<lparr>tx_journal := ?k\<rparr>)"
      have "wp (cleanup_terminal env) (\<lambda>_ v. sound (ev_api env) d v \<and> tx_journal v = tx_journal w \<and> tx_disk v = None) ?E w"
        by (rule cleanup_sound) (use w vk in \<open>simp_all add: cleaning_def\<close>)
      then show "wp (tbind (cleanup_terminal env) (\<lambda>_. tret True)) ?Q ?E w"
        unfolding wp_fun by (rule wp_mono) (use w(3) in \<open>simp_all add: recovered_def ack_fits_def\<close>)
    qed (use u vk in \<open>simp_all add: publishing_def confirmed_def\<close>)
    then show ?thesis by (simp add: wp_bind [of "on_journal f" for f] wp_journal wp_bind [of "write_journal env"])
  qed
  let ?receipts = "teach (needs_old_receipt env ?j) (filter (\<lambda>m. tm_old m \<noteq> OldForceStopped) (aj_members ?j))"
  have "wp ?receipts (\<lambda>_. wp (publish_commit_artifacts env) (\<lambda>_. wp ?fin ?Q ?E) ?E) ?E t" if all: "list_all acknowledged (aj_members ?j)"
  proof (rule wp_quiet [OF so, where A = "{}"])
    fix a u assume u: "sound (ev_api env) d u" "tx_journal u = ?j" "tx_disk u = tx_disk t"
    have "publishing (ev_api env) d u"
      using confirmed_same [OF p u] all u(2) by (auto simp: publishing_def all_committed_def acknowledged_def list_all_iff)
    from publish_sound [OF this] show "wp (publish_commit_artifacts env) (\<lambda>_. wp ?fin ?Q ?E) ?E u"
      by (rule wp_mono) (use finish in auto)
  qed (auto intro!: leaves_intros)
  with so c show ?thesis
    by (auto simp: finish_acknowledged_commit_def wp_bind [of "tget f" for f] wp_get wp_bind [of "tcheck q e" for q e] wp_check
        wp_bind [of "teach f xs" for f xs] wp_fun(1) [of "publish_commit_artifacts env"] wp_ret committing_iff
        ack_fits_def [of _ _ False])
qed

section \<open>Recovering a commit\<close>

lemma entering_commit:
  assumes v: "valid_journal api j" and c: "has_commit_certificate api j" and d: "directive j = DirectCommit"
  shows "valid_journal api (enter_committing j)" and "committing api (enter_committing j)"
    and "aj_members (enter_committing j) = aj_members j" and "frame (enter_committing j) = frame j"
proof -
  have same [simp]: "aj_members (enter_committing j) = aj_members j" "aj_bridge (enter_committing j) = aj_bridge j"
    "aj_progress (enter_committing j) = aj_progress j"
    by (simp_all add: enter_committing_def enter_def aj_members_def aj_bridge_def aj_progress_def)
  show "aj_members (enter_committing j) = aj_members j" "frame (enter_committing j) = frame j" by simp_all
  have phases: "proof_phase (aj_transaction j)" "proof_phase (aj_transaction (enter_committing j))"
    using d by (cases "aj_transaction j"; simp add: directive_def enter_committing_def enter_def)+
  show "valid_journal api (enter_committing j)"
  proof (rule valid_change [OF v])
    show "proof_fits api (enter_committing j)"
      using v phases by (subst proof_fits_same [of _ j]) (simp_all add: valid_iff)
    have com: "is_committing (enter_committing j)" by (simp add: is_committing_def enter_committing_def enter_def)
    have "progress_fits j" using v by (simp add: valid_iff)
    then show "progress_fits (enter_committing j)"
      unfolding committing_fits [OF com] using d
      by (cases "aj_transaction j"; cases "aj_bridge j")
         (auto simp: directive_def progress_fits_def members_fit_def bridge_fits_def bridge_progress_of_def list_all_iff)
    show "reload_ok (map tm_id (aj_members (enter_committing j))) x \<and> restored_ok (aj_members (enter_committing j)) x"
      if "bridge_progress_of (enter_committing j) = Some x" for x
      using that valid_bridge_facts(1,2) [OF v, of x] by (simp add: bridge_progress_of_def)
  qed (use v in \<open>simp_all add: valid_iff\<close>)
  have "has_commit_certificate api (enter_committing j) = has_commit_certificate api j"
    by (rule certificate_frame) simp_all
  with c show "committing api (enter_committing j)"
    by (simp add: committing_iff is_committing_def enter_committing_def enter_def)
qed

lemma recover_commit_sound:
  assumes so: "sound (ev_api env) d t" and sy: "synced t" and v: "valid_journal (ev_api env) (tx_journal t)"
    and c: "has_commit_certificate (ev_api env) (tx_journal t)" and dir: "directive (tx_journal t) = DirectCommit"
  shows "wp (recover_commit env) (\<lambda>_. recovered (ev_api env) d) (commit_error env d) t"
proof -
  let ?j = "tx_journal t" and ?E = "commit_error env d" and ?Q = "\<lambda>_ :: unit. recovered (ev_api env) d"
  let ?ids = "map tm_id (aj_members (tx_journal t))"
  note enter = entering_commit [OF v c dir]
  have start: "wp (if directive ?j = DirectCommit \<and> \<not> is_committing ?j
      then tbind (on_journal enter_committing) (\<lambda>_. write_journal env) else tret ()) (\<lambda>_. replaying (ev_api env) d ?ids) ?E t"
  proof (cases "is_committing ?j")
    case True
    with so sy v c show ?thesis by (simp add: wp_ret replaying_def confirmed_def committing_iff)
  next
    case False
    have "wp (write_journal env) (\<lambda>_ u. confirmed (ev_api env) d u \<and> tx_journal u = enter_committing ?j) ?E
        (t\<lparr>tx_journal := enter_committing ?j\<rparr>)"
      by (rule wp_commit_save [OF so _ dir enter(1,2)]) (use sy enter in \<open>simp_all add: synced_def\<close>)
    then have "wp (write_journal env) (\<lambda>_. replaying (ev_api env) d ?ids) ?E (t\<lparr>tx_journal := enter_committing ?j\<rparr>)"
      by (rule wp_mono) (use enter(3) in \<open>auto simp: replaying_def\<close>)
    with False dir show ?thesis by (simp add: wp_bind wp_journal)
  qed
  have commit: "wp (teach (commit_target env) (enumerate 0 (aj_members (tx_journal u)))) (\<lambda>_ w. replaying (ev_api env) d ?ids w \<and> old_ended (tx_journal w)) ?E u"
    if u: "replaying (ev_api env) d ?ids u" "old_ended (tx_journal u)" for u
  proof (rule wp_each)
    fix x w assume x: "x \<in> set (enumerate 0 (aj_members (tx_journal u)))" and w: "replaying (ev_api env) d ?ids w \<and> old_ended (tx_journal w)"
    from x obtain n where n: "n < length (aj_members (tx_journal u))" "x = (n, aj_members (tx_journal u) ! n)"
      by (auto simp: in_set_enumerate_eq set_zip enumerate_eq_zip)
    have ids: "map tm_id (aj_members (tx_journal u)) = ?ids" using u(1) by (simp add: replaying_def)
    then have "n < length ?ids" using n(1) by (metis length_map)
    moreover have "tm_id (aj_members (tx_journal u) ! n) = ?ids ! n" using n(1) ids by (metis nth_map)
    ultimately show "wp (commit_target env x) (\<lambda>_ w. replaying (ev_api env) d ?ids w \<and> old_ended (tx_journal w)) ?E w"
      using w unfolding n(2) by (intro commit_target_sound) simp_all
  qed (use u in simp)
  have confirm: "wp (teach (confirm_old env) [0..<length ?ids]) (\<lambda>_ w. replaying (ev_api env) d ?ids w \<and> old_ended (tx_journal w)) ?E u"
    if u: "replaying (ev_api env) d ?ids u" for u
  proof -
    have "wp (teach (confirm_old env) [0..<length ?ids]) (\<lambda>_ w. replaying (ev_api env) d ?ids w
        \<and> (\<forall>n \<in> set [0..<length ?ids]. ended_old n w) \<and> (\<forall>y. ended_old y u \<longrightarrow> ended_old y w)) ?E u"
      by (rule wp_each_grow [where I = "replaying (ev_api env) d ?ids"]) (use u confirm_old_sound in auto)
    then show ?thesis
    proof (rule wp_mono)
      fix a w assume w: "replaying (ev_api env) d ?ids w \<and> (\<forall>n \<in> set [0..<length ?ids]. ended_old n w) \<and> (\<forall>y. ended_old y u \<longrightarrow> ended_old y w)"
      then have "length (aj_members (tx_journal w)) = length ?ids" unfolding replaying_def by (metis length_map)
      with w show "replaying (ev_api env) d ?ids w \<and> old_ended (tx_journal w)"
        by (fastforce simp: ended_old_def old_ended_def in_set_conv_nth)
    qed simp
  qed
  have acknowledge: "wp (tbind (finish_acknowledged_commit env) (\<lambda>finished. tcheck finished (ErrUnit Unfinished))) ?Q ?E u"
    if "replaying (ev_api env) d ?ids u" for u
    unfolding wp_bind
    by (rule wp_mono [OF acknowledge_sound]) (use that in \<open>auto simp: replaying_def wp_check settled_error_def ack_fits_def split: if_splits\<close>)
  let ?rest = "tbind (tget tx_journal) (\<lambda>j'. tbind (teach (commit_target env) (enumerate 0 (aj_members j'))) (\<lambda>_.
     tbind (finish_acknowledged_commit env) (\<lambda>finished. tcheck finished (ErrUnit Unfinished))))"
  have rest: "wp ?rest ?Q ?E u" if u: "replaying (ev_api env) d ?ids u \<and> old_ended (tx_journal u)" for u
    unfolding wp_bind [of "tget f" for f] wp_get wp_bind [of "teach f xs" for f xs]
    by (rule wp_mono [OF commit]) (use u acknowledge in auto)
  have "wp (teach (confirm_old env) [0..<length (aj_members ?j)]) (\<lambda>_. wp ?rest ?Q ?E) ?E u"
    if "replaying (ev_api env) d ?ids u" for u
    by (rule wp_mono [OF confirm [OF that, unfolded length_map]]) (use rest in auto)
  then have "wp (if directive ?j = DirectCommit \<and> \<not> is_committing ?j
      then tbind (on_journal enter_committing) (\<lambda>_. write_journal env) else tret ())
      (\<lambda>_. wp (teach (confirm_old env) [0..<length (aj_members ?j)]) (\<lambda>_. wp ?rest ?Q ?E) ?E) ?E t"
    by (intro wp_mono [OF start]) auto
  then show ?thesis
    unfolding recover_commit_def wp_bind [of "tget f" for f] wp_get wp_bind [of "if q then a else b" for q a b]
      wp_bind [of "teach (confirm_old env) xs" for xs] .
qed


section \<open>The decision to roll back\<close>

lemma rollback_entered [simp]:
  "aj_members (enter_rollback r j) = aj_members j" "aj_bridge (enter_rollback r j) = aj_bridge j"
  "aj_progress (enter_rollback r j) = aj_progress j" "bridge_progress_of (enter_rollback r j) = bridge_progress_of j"
  "rolling (enter_rollback r j)" "directive (enter_rollback r j) = DirectRollBack"
  by (simp_all add: enter_rollback_def enter_def aj_members_def aj_bridge_def aj_progress_def directive_def
      bridge_progress_of_def rolling_def)

lemma undecided_fits:
  assumes "directive j \<in> {DirectPrepare, DirectActivate}" and "progress_fits j"
  shows "m \<in> set (aj_members j) \<Longrightarrow> tm_old m \<in> {OldPending, OldPrepareIntent, OldDrained, OldForceStopIntent, OldForceStopped}
      \<and> tm_target m \<in> {TargetAbsent, TargetSpawnIntent, TargetGated, TargetReady}"
    and "bridge_progress_of j = Some b \<Longrightarrow> \<not> restore_started b"
  using assms
  by (cases "aj_transaction j"; cases b;
      auto simp: directive_def progress_fits_def members_fit_def bridge_fits_def bridge_progress_of_def list_all_iff)+

lemma valid_rollback_decision:
  assumes v: "valid_journal api j" and d: "directive j \<in> {DirectPrepare, DirectActivate}"
  shows "valid_journal api (enter_rollback r j)"
proof (rule valid_change [OF v])
  have fits: "progress_fits j" using v by (simp add: valid_iff)
  have "\<not> proof_phase (aj_transaction j)" "\<not> proof_phase (aj_transaction (enter_rollback r j))"
    using d by (cases "aj_transaction j"; simp add: directive_def enter_rollback_def enter_def)+
  then show "proof_fits api (enter_rollback r j)" using v by (subst proof_fits_same [of _ j]) (simp_all add: valid_iff)
  have "\<not> any_resuming (enter_rollback r j)"
    using undecided_fits(1) [OF d fits] by (force simp: any_resuming_def list_ex_iff)
  moreover have "\<forall>m \<in> set (aj_members j). tm_old m \<notin> {OldCommitIntent, OldCommitted}"
    using undecided_fits(1) [OF d fits] by force
  ultimately show "progress_fits (enter_rollback r j)"
    using undecided_fits(2) [OF d fits] rolling_fits [of "enter_rollback r j"] by simp
  show "reload_ok (map tm_id (aj_members (enter_rollback r j))) x \<and> restored_ok (aj_members (enter_rollback r j)) x"
    if "bridge_progress_of (enter_rollback r j) = Some x" for x
    using that valid_bridge_facts(1,2) [OF v, of x] by simp
qed (use v in \<open>simp_all add: valid_iff\<close>)

section \<open>Recovering a record, whatever its phase\<close>

definition distinct_ids :: "activation_journal \<Rightarrow> bool" where
  "distinct_ids j \<longleftrightarrow> distinct (map tm_id (aj_members j))"

definition forced_end :: "activation_journal \<Rightarrow> bool" where
  "forced_end j \<longleftrightarrow> is_forced j \<and> directive j = DirectRetryForce"

definition settled :: "activation_api \<Rightarrow> activation_journal option \<Rightarrow> tx_state \<Rightarrow> bool" where
  "settled api d t \<longleftrightarrow>
     sound api d t \<and> tx_disk t = (if forced_end (tx_journal t) then Some (tx_journal t) else None)"

lemma not_local: "\<not> awaits_local recovery_actor"
  by (simp add: awaits_local_def recovery_actor_def)

lemma recover_rollback_sound:
  assumes api: "sound_digests (ev_api env)" and so: "sound (ev_api env) d t" and sy: "synced t"
    and v: "valid_journal (ev_api env) (tx_journal t)" and r: "rolling (tx_journal t)" and ids: "distinct_ids (tx_journal t)"
    and G: "G \<Longrightarrow> remote_stops (tx_journal t) \<and> rows_saved (tx_journal t)
      \<and> (\<forall>m \<in> set (aj_members (tx_journal t)). tm_old m \<noteq> OldForceStopIntent)"
  shows "wp (recover_rollback env) (\<lambda>_. settled (ev_api env) d) (settled_error (ev_api env) d G) t"
proof (cases "\<forall>m \<in> set (aj_members (tx_journal t)). tm_old m \<noteq> OldForceStopIntent")
  case True
  with assms have "under_way (ev_api env) d recovery_actor G t"
    by (auto simp: under_way_def steady_def distinct_ids_def careful_def recovery_actor_def)
  from drive_sound [OF api this]
  show ?thesis
    unfolding recover_rollback_def wp_bind
  proof (rule wp_mono)
    fix out u assume fits: "outcome_fits (ev_api env) d recovery_actor G out u"
    then have "out = DriveComplete" using not_local by (cases out) simp_all
    with fits show "wp (tcheck (out = DriveComplete) (ErrUnit Unfinished)) (\<lambda>_. settled (ev_api env) d) (settled_error (ev_api env) d G) u"
      by (auto simp: wp_check ended_def settled_def forced_end_def)
  qed
next
  case False
  with G have "\<not> G" by blast
  with False so show ?thesis
    by (auto simp: recover_rollback_def drive_rollback_def wp_bind wp_get wp_check settled_error_def)
qed

lemma abandon_sound:
  assumes api: "sound_digests (ev_api env)" and so: "sound (ev_api env) d t" and sy: "synced t"
    and v: "valid_journal (ev_api env) (tx_journal t)" and dir: "directive (tx_journal t) \<in> {DirectPrepare, DirectActivate}"
    and ids: "distinct_ids (tx_journal t)"
    and G: "G \<Longrightarrow> rows_saved (tx_journal t) \<and> (\<forall>m \<in> set (aj_members (tx_journal t)). tm_old m \<noteq> OldForceStopIntent)"
  shows "wp (abandon env) (\<lambda>out u. out = RecoveredRolledBack \<and> settled (ev_api env) d u) (settled_error (ev_api env) d G) t"
proof -
  let ?j = "tx_journal t" and ?k = "enter_rollback recovery_reason (tx_journal t)"
  have "remote_stops ?k"
    using undecided_fits(1) [OF dir] v by (force simp: remote_stops_def valid_iff)
  moreover have "rows_saved ?k = rows_saved ?j"
    using frameD(7) [of ?k ?j] by (simp add: rows_saved_def)
  ultimately have care: "remote_stops ?k \<and> rows_saved ?k \<and> (\<forall>m \<in> set (aj_members ?k). tm_old m \<noteq> OldForceStopIntent)" if G
    using G [OF that] by simp
  have "wp (write_journal env) (\<lambda>_. wp (recover_rollback env) (\<lambda>_. settled (ev_api env) d) (settled_error (ev_api env) d G))
      (settled_error (ev_api env) d G) (t\<lparr>tx_journal := ?k\<rparr>)"
  proof (rule wp_write)
    show "valid_journal (ev_api env) (tx_journal (t\<lparr>tx_journal := ?k\<rparr>))" using valid_rollback_decision [OF v dir] by simp
    show "follows (tx_disk (t\<lparr>tx_journal := ?k\<rparr>)) (tx_journal (t\<lparr>tx_journal := ?k\<rparr>))"
      using sy dir rollback_entered(6) [of recovery_reason ?j, unfolded directive_def]
      by (cases "aj_transaction ?j") (auto simp: synced_def follows_def directive_def)
    fix u assume u: "sound (ev_api env) d u" "synced u" "tx_journal u = tx_journal (t\<lparr>tx_journal := ?k\<rparr>)"
    with ids care valid_rollback_decision [OF v dir]
    show "wp (recover_rollback env) (\<lambda>_. settled (ev_api env) d) (settled_error (ev_api env) d G) u"
      by (intro recover_rollback_sound [OF api]) (simp_all add: distinct_ids_def)
  qed (use so in simp)
  then show ?thesis by (simp add: abandon_def wp_fun wp_journal)
qed

lemma recover_transaction_sound:
  assumes api: "sound_digests (ev_api env)" and so: "sound (ev_api env) d t" and sy: "synced t"
    and v: "valid_journal (ev_api env) (tx_journal t)" and ids: "distinct_ids (tx_journal t)"
  shows "wp (recover_transaction env) (\<lambda>_. settled (ev_api env) d) (commit_error env d) t"
proof -
  let ?Q = "\<lambda>_ :: recovery_outcome. settled (ev_api env) d" and ?E = "commit_error env d"
  have cleanup: "wp (tbind (cleanup_terminal env) (\<lambda>_. tret out)) ?Q ?E t" if "cleaning (tx_journal t)" for out
    unfolding wp_fun by (rule wp_mono [OF cleanup_sound [OF so sy that v]]) (use that in \<open>auto simp: settled_def forced_end_def cleaning_def\<close>)
  have abandon: "wp (abandon env) ?Q ?E t" if "directive (tx_journal t) \<in> {DirectPrepare, DirectActivate}"
    by (rule wp_mono [OF abandon_sound [OF api so sy v that ids]]) simp_all
  have rollback: "wp (tbind (recover_rollback env) (\<lambda>_. tret out)) ?Q ?E t" if "directive (tx_journal t) = DirectRollBack" for out
    unfolding wp_fun by (rule recover_rollback_sound [OF api so sy v _ ids]) (simp_all add: that rolling_iff)
  have commit: "wp (tbind (recover_commit env) (\<lambda>_. tret out)) ?Q ?E t"
    if "directive (tx_journal t) = DirectCommit" "has_commit_certificate (ev_api env) (tx_journal t)" for out
    unfolding wp_fun by (rule wp_mono [OF recover_commit_sound [OF so sy v that(2,1)]]) (simp_all add: settled_def recovered_def forced_end_def)
  show ?thesis
    using cleanup abandon rollback commit so
    by (cases "directive (tx_journal t)")
       (simp_all add: recover_transaction_def wp_bind [of "tget f" for f] wp_get cleaning_def wp_fail settled_error_def)
qed

lemma recover_one_sound:
  assumes "sound_digests (ev_api env)" and "sound (ev_api env) d s" and "synced s"
    and "valid_journal (ev_api env) (tx_journal s)" and "distinct_ids (tx_journal s)"
    and "recover_one env s = (out, t)"
  shows "sound (ev_api env) d t" and "out \<noteq> RecoveredPreserved \<Longrightarrow> tx_disk t = None"
proof -
  obtain r u where r: "recover_transaction env s = (r, u)" by (cases "recover_transaction env s")
  with recover_transaction_sound [OF assms(1-5)]
  have fits: "case r of Inl e \<Rightarrow> sound (ev_api env) d u | Inr x \<Rightarrow> settled (ev_api env) d u"
    by (simp add: wp_def settled_error_def split: sum.splits)
  from assms(6) r have t: "t = u" "out = (if forced_end (tx_journal u) then RecoveredPreserved
      else case r of Inl _ \<Rightarrow> RecoveredPreserved | Inr out \<Rightarrow> out)"
    by (auto simp: recover_one_def Let_def forced_end_def split: if_splits)
  with fits show "sound (ev_api env) d t" "out \<noteq> RecoveredPreserved \<Longrightarrow> tx_disk t = None"
    by (auto simp: settled_def split: sum.splits if_splits)
qed

end
