(* ===== verification/Activation_Sample.thy ===== *)
theory Activation_Sample
  imports Activation_Commit
begin

text \<open>A record of one Herdr broker whose replacement never started, for the witnesses.\<close>

definition sample_activation_api :: activation_api where
  "sample_activation_api = \<lparr>ap_sha256 = (\<lambda>_. replicate 32 0), ap_binding_json = (\<lambda>_. Some []), ap_current_uid = 7\<rparr>"

definition sample_compat :: "nat \<Rightarrow> compatibility_record" where
  "sample_compat n =
     \<lparr>cr_muxe_version = [of_nat n], cr_target_triple = [], cr_schema_fingerprint = 0, cr_zellij = None, cr_herdr = None\<rparr>"

definition sample_socket :: path where
  "sample_socket = [RootDir, NormalPart (lit ''s'')]"

definition sample_member :: transaction_member where
  "sample_member =
     \<lparr>tm_id = derive_member_id sample_activation_api 1 (lit ''m''),
      tm_authority = \<lparr>la_member = lit ''m'', la_endpoint = sample_socket, la_handoff_id = 5\<rparr>,
      tm_old_record = Some (sample_compat 1), tm_old = OldDrained, tm_target = TargetAbsent,
      tm_target_retirement = None, tm_forced_stop = None\<rparr>"

definition sample_row :: broker_entry where
  "sample_row =
     \<lparr>be_host_kind = lit ''herdr'', be_discovery_key = lit ''m'', be_socket = sample_socket, be_server_pid = 3,
      be_started_at = 1, be_registration_id = Some 1, be_process_identity = None, be_bridge_identity = None,
      be_bridge_member = None, be_handoff_id = None, be_live_server = Some (lit ''x'')\<rparr>"

definition sample_record :: activation_journal where
  "sample_record =
     \<lparr>aj_schema_version = 5, aj_activation_id = 1, aj_unit = UnitHerdr (replicate 32 0x30), aj_bridge_identity = None,
      aj_member_census = None, aj_target_record = sample_compat 2, aj_old_registry = [sample_row],
      aj_transaction = RollingBack [] \<lparr>tp_members = [sample_member], tp_bridge = None, tp_ready_proof = None\<rparr>,
      aj_recovery_deadline = 600\<rparr>"

text \<open>The old broker drains for this activation and resumes when it is asked to.\<close>

definition sample_status :: "bool \<Rightarrow> activation_status" where
  "sample_status resumed =
     \<lparr>as_lifecycle = (if resumed then LifeRunning else LifeDraining), as_phase = (if resumed then PhOrdinary else PhDraining),
      as_live_server = \<lparr>ls_host = HostHerdr, ls_discovery_key = lit ''m'', ls_server_id = ServerId (lit ''x'')\<rparr>,
      as_current = sample_compat 1, as_target = (if resumed then None else Some (sample_compat 2)),
      as_handoff_id = (if resumed then None else Some 5), as_supports_handoff = True, as_registration = None,
      as_bridge_unit = None\<rparr>"

definition sample_env :: "bool \<Rightarrow> tx_env" where
  "sample_env first_lost =
     \<lparr>ev_api = sample_activation_api, ev_write = (\<lambda>n. if first_lost \<and> n = 0 then WriteLost else WriteDone), ev_read = (\<lambda>_. True),
      ev_ok = (\<lambda>_. True), ev_status = (\<lambda>_. Some (sample_status False)), ev_reply = (\<lambda>_. Some (sample_status True)),
      ev_receipt = (\<lambda>_. ReceiptAbsent), ev_exists = (\<lambda>_. Some False), ev_publication = (\<lambda>_. Some []),
      ev_verified = (\<lambda>_. None), ev_old_receipt = (\<lambda>_. Some True), ev_reason = (\<lambda>_. []), ev_hook = None\<rparr>"

lemma sample_valid: "validate sample_activation_api sample_record = Inr ()"
  by code_simp

end
