(* ===== verification/Activation_Replay.thy ===== *)
theory Activation_Replay
  imports Activation_Certified Activation_Sample
begin

text \<open>
  Recovery under crashes. A process that dies leaves a prefix of what it was doing, and the next one
  starts from the record on disk; a recovery history is any number of such runs. Every history keeps
  the write-ahead discipline, and none mixes the effects of a commit with those of a rollback.
\<close>

section \<open>Histories\<close>

definition start_state :: "activation_journal \<Rightarrow> tx_state" where
  "start_state j =
     \<lparr>tx_journal = j, tx_disk = Some j, tx_trace = [], tx_asked = 0, tx_scope = aj_unit j, tx_owned = []\<rparr>"

inductive recovers :: "activation_api \<Rightarrow> activation_journal \<Rightarrow> tx_event list \<Rightarrow> bool" for api j0 where
  nothing_yet: "recovers api j0 []"
| next_run: "recovers api j0 es \<Longrightarrow> disk_after (Some j0) es = Some j \<Longrightarrow> ev_api env = api
    \<Longrightarrow> recover_one env (start_state j) = (out, t) \<Longrightarrow> tx_trace t = done @ lost \<Longrightarrow> recovers api j0 (es @ done)"

definition recoverable :: "activation_api \<Rightarrow> activation_journal \<Rightarrow> bool" where
  "recoverable api j \<longleftrightarrow> sound_digests api \<and> valid_journal api j \<and> distinct_ids j"

lemma audit_none: "audit api None es \<Longrightarrow> disk_after None es = None"
proof (induction es)
  case (Cons e es)
  then show ?case by (cases e) (auto simp: follows_def)
qed simp

lemma audit_disk:
  "audit api (Some j) es \<Longrightarrow> valid_journal api j \<Longrightarrow> distinct_ids j
   \<Longrightarrow> disk_after (Some j) es = Some k \<Longrightarrow> valid_journal api k \<and> distinct_ids k"
proof (induction es arbitrary: j)
  case (Cons e es)
  then show ?case
  proof (cases e)
    case (Saved i)
    with Cons.prems have "distinct_ids i" by (auto simp: follows_def distinct_ids_def)
    with Saved Cons.prems show ?thesis by (intro Cons.IH [of i]) simp_all
  next
    case Removed
    with Removed Cons.prems audit_none [of api es] show ?thesis by auto
  next
    case (Did x)
    with Cons.prems Cons.IH [of j] show ?thesis by simp
  next
    case Refused
    with Cons.prems Cons.IH [of j] show ?thesis by simp
  qed
qed simp

lemma run_audited:
  assumes "recoverable (ev_api env) j" and "recover_one env (start_state j) = (out, t)"
  shows "audit (ev_api env) (Some j) (tx_trace t)" and "out \<noteq> RecoveredPreserved \<Longrightarrow> tx_disk t = None"
proof -
  have "sound (ev_api env) (Some j) (start_state j)" "synced (start_state j)" "tx_journal (start_state j) = j"
    by (simp_all add: sound_def synced_def start_state_def)
  with recover_one_sound [of env "Some j" "start_state j" out t] assms
  show "audit (ev_api env) (Some j) (tx_trace t)" "out \<noteq> RecoveredPreserved \<Longrightarrow> tx_disk t = None"
    by (simp_all add: recoverable_def sound_def)
qed

lemma history_audited:
  assumes "recovers api j0 es" and "recoverable api j0"
  shows "audit api (Some j0) es"
  using assms
proof (induction rule: recovers.induct)
  case (next_run es j env out t d lost)
  then have a: "audit api (Some j0) es" by blast
  with next_run have "recoverable api j" using audit_disk [OF a] by (simp add: recoverable_def)
  with next_run have "audit api (Some j) (d @ lost)" using run_audited(1) [of env j out t] by simp
  with a next_run show ?case by simp
qed simp

section \<open>One fate\<close>

text \<open>Which decision an effect, and a record, belongs to.\<close>

fun effect_fate :: "tx_effect \<Rightarrow> bool option" where
  "effect_fate (CommitOld _) = Some True"
| "effect_fate (CommitTarget _) = Some True"
| "effect_fate PublishPrevious = Some True"
| "effect_fate PublishReceipt = Some True"
| "effect_fate (StopTarget _) = Some False"
| "effect_fate (WriteStopReceipt _) = Some False"
| "effect_fate InstallOld = Some False"
| "effect_fate PublishTargetPrevious = Some False"
| "effect_fate RestoreReceipt = Some False"
| "effect_fate (ReloadOld _) = Some False"
| "effect_fate (RestoreRow _) = Some False"
| "effect_fate (ResumeOld _) = Some False"
| "effect_fate _ = None"

definition record_fate :: "activation_journal \<Rightarrow> bool option" where
  "record_fate j =
     (if directive j \<in> {DirectCommit, DirectCleanupCommitted} then Some True
      else if directive j \<in> {DirectRollBack, DirectCleanupRolledBack, DirectRetryForce} then Some False
      else None)"

lemma fate_permitted: "permits api j x \<Longrightarrow> effect_fate x = Some b \<Longrightarrow> record_fate j = Some b"
  by (cases x) (auto simp: record_fate_def rolling_iff dest: committing_phase)

lemma fate_follows: "follows (Some k) j \<Longrightarrow> record_fate k = Some b \<Longrightarrow> record_fate j = Some b"
  by (cases "aj_transaction k"; cases "aj_transaction j") (auto simp: follows_def record_fate_def directive_def)

lemma audit_gone: "audit api None es \<Longrightarrow> Did x \<notin> set es"
proof (induction es)
  case (Cons e es)
  then show ?case by (cases e) (auto simp: follows_def)
qed simp

lemma decided_fate:
  assumes "audit api (Some j) es" and "record_fate j = Some b" and "Did x \<in> set es"
  shows "effect_fate x \<noteq> Some (\<not> b)"
  using assms
proof (induction es arbitrary: j)
  case (Cons e es)
  then show ?case
  proof (cases e)
    case (Saved i)
    with Cons.prems have "record_fate i = Some b" by (auto intro: fate_follows)
    with Saved Cons.prems show ?thesis by (intro Cons.IH [of i]) auto
  next
    case (Did y)
    with Cons.prems fate_permitted [of api j y] show ?thesis by (auto dest: Cons.IH)
  next
    case Removed
    with Cons.prems audit_gone [of api es x] show ?thesis by simp
  next
    case Refused
    with Cons.prems Cons.IH [of j] show ?thesis by simp
  qed
qed simp

lemma one_fate:
  assumes "audit api (Some j) es" and "Did x \<in> set es" and "Did y \<in> set es" and "effect_fate x = Some b"
  shows "effect_fate y \<noteq> Some (\<not> b)"
  using assms
proof (induction es arbitrary: j)
  case (Cons e es)
  then show ?case
  proof (cases e)
    case (Saved i)
    with Cons.prems show ?thesis by (intro Cons.IH [of i]) auto
  next
    case (Did z)
    show ?thesis
    proof (cases "effect_fate z")
      case None
      with Did Cons.prems Cons.IH [of j] show ?thesis by (cases "y = z") auto
    next
      case (Some c)
      with Did Cons.prems fate_permitted [of api j z c] have "record_fate j = Some c" by auto
      from decided_fate [OF Cons.prems(1) this Cons.prems(2)] decided_fate [OF Cons.prems(1) this Cons.prems(3)] Cons.prems(4)
      show ?thesis by (cases b; cases c) auto
    qed
  next
    case Removed
    with Cons.prems audit_gone [of api es x] show ?thesis by simp
  next
    case Refused
    with Cons.prems Cons.IH [of j] show ?thesis by simp
  qed
qed simp


section \<open>Recovery of a rollback comes to an end\<close>

text \<open>
  Records whose rollback recovery can finish by itself: the decision is not a commit, no forced stop
  is pending, the stop requests saved in it are for servers, and every member has its saved row.
\<close>

definition finishable :: "activation_journal \<Rightarrow> bool" where
  "finishable j \<longleftrightarrow>
     directive j \<in> {DirectPrepare, DirectActivate, DirectRollBack} \<and> \<not> is_forced j
     \<and> (\<forall>m \<in> set (aj_members j). tm_old m \<noteq> OldForceStopIntent) \<and> remote_stops j \<and> rows_saved j"

lemma audit_frame: "audit api (Some j) es \<Longrightarrow> disk_after (Some j) es = Some k \<Longrightarrow> frame k = frame j"
proof (induction es arbitrary: j)
  case (Cons e es)
  have gone: "disk_after None es = None" if "audit api None es" using that by (rule audit_none)
  show ?case
  proof (cases e)
    case (Saved i)
    with Cons.prems Cons.IH [of i] show ?thesis by (auto simp: follows_def)
  qed (use Cons.prems Cons.IH [of j] gone in auto)
qed simp

lemma rollback_finishes:
  assumes rec: "recoverable (ev_api env) j" and fin: "finishable j" and run: "recover_one env (start_state j) = (out, t)"
    and free: "Refused \<notin> set (tx_trace t)"
  shows "out = RecoveredRolledBack \<and> tx_disk t = None"
proof -
  let ?s = "start_state j" and ?E = "settled_error (ev_api env) (Some j) True"
  let ?Q = "\<lambda>out u. out = RecoveredRolledBack \<and> settled (ev_api env) (Some j) u"
  have s: "sound (ev_api env) (Some j) ?s" "synced ?s" "tx_journal ?s = j"
    by (simp_all add: sound_def synced_def start_state_def)
  from rec have api: "sound_digests (ev_api env)" and v: "valid_journal (ev_api env) j" and ids: "distinct_ids j"
    by (simp_all add: recoverable_def)
  have "wp (recover_transaction env) ?Q ?E ?s"
  proof (cases "directive j = DirectRollBack")
    case True
    have "wp (recover_rollback env) (\<lambda>_. settled (ev_api env) (Some j)) ?E ?s"
      by (rule recover_rollback_sound [OF api s(1,2)]) (use v ids True fin s(3) in \<open>simp_all add: rolling_iff finishable_def\<close>)
    then have "wp (recover_rollback env) (\<lambda>_. ?Q RecoveredRolledBack) ?E ?s" by simp
    with True s(3) show ?thesis by (simp add: recover_transaction_def wp_fun wp_get)
  next
    case False
    with fin have "directive j \<in> {DirectPrepare, DirectActivate}" by (simp add: finishable_def)
    moreover from this have "wp (abandon env) ?Q ?E ?s"
      by (intro abandon_sound [OF api s(1,2)]) (use v ids fin s(3) in \<open>simp_all add: finishable_def\<close>)
    ultimately show ?thesis using s(3) by (auto simp: recover_transaction_def wp_bind [of "tget f" for f] wp_get)
  qed
  moreover obtain r u where r: "recover_transaction env ?s = (r, u)" by (cases "recover_transaction env ?s")
  ultimately have fits: "case r of Inl e \<Rightarrow> ?E e u | Inr x \<Rightarrow> ?Q x u" by (simp add: wp_def)
  from run r have t: "t = u" by (auto simp: recover_one_def Let_def split: if_splits)
  with fits free obtain x where x: "r = Inr x" "x = RecoveredRolledBack" "settled (ev_api env) (Some j) u"
    by (cases r) (simp_all add: settled_error_def)
  have "\<not> forced_end (tx_journal u)"
  proof
    assume f: "forced_end (tx_journal u)"
    with x(3) have "disk_after (Some j) (tx_trace u) = Some (tx_journal u)" "audit (ev_api env) (Some j) (tx_trace u)"
      by (auto simp: settled_def sound_def)
    then have "frame (tx_journal u) = frame j" by (intro audit_frame)
    from frameD(8) [OF this] f fin show False by (simp add: finishable_def forced_end_def)
  qed
  with x(3) have "tx_disk u = None" "\<not> (is_forced (tx_journal u) \<and> directive (tx_journal u) = DirectRetryForce)"
    by (simp_all add: settled_def forced_end_def)
  with run r t x show ?thesis by (simp add: recover_one_def Let_def)
qed

section \<open>The property\<close>

text \<open>
  C9: recovery of an interrupted activation is crash safe. Take a consistent activation record and any
  recovery history: any number of runs of recovery, each with arbitrary answers of the outside world,
  each cut off anywhere and followed by the next from the record then on disk. Then every record that
  reached the disk is consistent and is a legal successor of the one before it, every external effect
  was attempted only while the record on disk announced it, the record is removed only in a terminal
  phase and nothing follows; and no history contains an effect of the commit together with an effect
  of the rollback. Moreover a run from an undecided or rolling-back record of a cooperative activation,
  whose saved stop requests are for servers and whose members all have their saved registry row,
  restores the old brokers and removes the record, unless something outside refused. The hypotheses
  are that SHA-256 gives 32 bytes and that the members of the record have different identities.
\<close>

theorem recovery_crash_safe:
  assumes "recoverable api j0" and "recovers api j0 es"
  shows "audit api (Some j0) es
    \<and> \<not> (\<exists>x y. Did x \<in> set es \<and> Did y \<in> set es \<and> effect_fate x = Some True \<and> effect_fate y = Some False)
    \<and> (\<forall>j env out t. disk_after (Some j0) es = Some j \<and> ev_api env = api \<and> finishable j
        \<and> recover_one env (start_state j) = (out, t) \<and> Refused \<notin> set (tx_trace t)
        \<longrightarrow> out = RecoveredRolledBack \<and> tx_disk t = None)"
proof (intro conjI allI impI notI)
  show a: "audit api (Some j0) es" by (rule history_audited [OF assms(2,1)])
  show False if "\<exists>x y. Did x \<in> set es \<and> Did y \<in> set es \<and> effect_fate x = Some True \<and> effect_fate y = Some False"
    using that one_fate [OF a, of _ _ True] by auto
  fix j env out t
  assume h: "disk_after (Some j0) es = Some j \<and> ev_api env = api \<and> finishable j
    \<and> recover_one env (start_state j) = (out, t) \<and> Refused \<notin> set (tx_trace t)"
  with assms(1) audit_disk [OF a] have "recoverable (ev_api env) j" by (simp add: recoverable_def)
  with h rollback_finishes [of env j out t] show "out = RecoveredRolledBack" "tx_disk t = None" by simp_all
qed

lemma sample_recoverable: "recoverable sample_activation_api sample_record"
proof -
  have "distinct_ids sample_record" by code_simp
  then show ?thesis
    using sample_valid by (simp add: recoverable_def sound_digests_def valid_journal_def) (simp add: sample_activation_api_def)
qed

text \<open>A run that is cut off after the old broker was asked to resume, and the record it leaves.\<close>

definition sample_run :: tx_state where
  "sample_run = snd (recover_one (sample_env False) (start_state sample_record))"

definition sample_left :: activation_journal where
  "sample_left = set_old 0 OldResumeIntent sample_record"

lemma sample_cut: "recovers sample_activation_api sample_record (take 2 (tx_trace sample_run))"
proof -
  obtain out t where run: "recover_one (sample_env False) (start_state sample_record) = (out, t)"
    by (cases "recover_one (sample_env False) (start_state sample_record)")
  have "recovers sample_activation_api sample_record ([] @ take 2 (tx_trace t))"
    by (rule next_run [OF nothing_yet _ _ run append_take_drop_id [symmetric]]) (simp_all add: sample_env_def)
  with run show ?thesis by (simp add: sample_run_def)
qed

lemma sample_evaluated:
  "Did (ResumeOld (tm_id sample_member)) \<in> set (take 2 (tx_trace sample_run))"
  "disk_after (Some sample_record) (take 2 (tx_trace sample_run)) = Some sample_left"
  "Refused \<notin> set (tx_trace (snd (recover_one (sample_env False) (start_state sample_left))))"
  by code_simp+

lemma sample_finishable: "finishable sample_left"
proof -
  have "directive sample_left = DirectRollBack" "\<not> is_forced sample_left" by code_simp+
  moreover have "list_all (\<lambda>m. tm_old m \<noteq> OldForceStopIntent \<and> tm_target m \<noteq> TargetRetireIntent
      \<and> find (same_place m) (aj_old_registry sample_left) \<noteq> None) (aj_members sample_left)" by code_simp
  ultimately show ?thesis by (auto simp: finishable_def remote_stops_def rows_saved_def list_all_iff)
qed

theorem recovery_crash_safe_witness:
  "Did (ResumeOld (tm_id sample_member)) \<in> set (take 2 (tx_trace sample_run))
   \<and> audit sample_activation_api (Some sample_record) (take 2 (tx_trace sample_run))
   \<and> fst (recover_one (sample_env False) (start_state sample_left)) = RecoveredRolledBack
   \<and> tx_disk (snd (recover_one (sample_env False) (start_state sample_left))) = None"
proof -
  obtain out t where run: "recover_one (sample_env False) (start_state sample_left) = (out, t)"
    by (cases "recover_one (sample_env False) (start_state sample_left)")
  have "ev_api (sample_env False) = sample_activation_api" by (simp add: sample_env_def)
  with recovery_crash_safe [OF sample_recoverable sample_cut] sample_evaluated sample_finishable run
  show ?thesis by auto
qed

section \<open>A retry that acts unannounced\<close>

text \<open>
  The coordinator's second drive starts from the record in memory. When the write of a resume intent
  fails, that record already holds the intent, so the second drive does not write it: the old broker
  is resumed while the record on disk still says that it drains.
\<close>

lemma retry_resumes_unannounced:
  "let prepared = \<lparr>pm_socket = sample_socket, pm_handoff = 5, pm_has_session = True\<rparr>;
       (r, t) = drive_twice (sample_env True) (NormalActor [prepared]) (start_state sample_record)
   in Did (ResumeOld (tm_id sample_member)) \<in> set (tx_trace t)
      \<and> hd (tx_trace t) = Refused \<and> tx_trace t ! 1 = Did (ResumeOld (tm_id sample_member))
      \<and> \<not> member_with sample_record (tm_id sample_member) (\<lambda>m. tm_old m = OldResumeIntent)"
  by code_simp

end
