(* ===== verification/Spec2Isabelle.thy ===== *)
theory Spec2Isabelle
  imports Condition_Wire Terminal_Stream Menu_Session Launch_Gate Frame_Language Key_Input Bridge_Sample Theme_Compile Grid_Layout Zellij_Dispatch Activation_Replay
begin

text \<open>
  A verification library for muxe, a menu for terminal multiplexers.

  The program. A broker (\<open>crates/muxe-broker\<close>) serves one multiplexer. It opens a menu in a floating
  pane, runs there the user interface (\<open>crates/muxe-ui\<close>), and sends the chosen action to the host
  through an adapter: \<open>crates/muxe-adapter-zellij\<close> talks over pipes to a plugin inside Zellij
  (\<open>crates/muxe-zellij-wasm\<close>), \<open>crates/muxe-adapter-herdr\<close> to the API of Herdr. Broker and interface
  speak a binary protocol (\<open>crates/muxe-protocol\<close>), adapter and plugin a line protocol
  (\<open>crates/muxe-zellij-protocol\<close>). Menus, keys and themes are compiled from a configuration
  (\<open>crates/muxe-core\<close>), conditions are evaluated by \<open>crates/muxe-condition\<close>, keys are read from the
  terminal by \<open>crates/muxe-terminal-input\<close>. The command \<open>muxe\<close> (\<open>crates/muxe\<close>) starts brokers and
  replaces the running ones by those of a new release, an activation.

  Conventions. Integers keep their width as words; \<open>usize\<close> is a natural number where it counts things
  in memory, and a 32-bit word in the plugin, which is built for \<open>wasm32\<close>. Text is a list of Unicode
  scalar values. A \<open>Result\<close> is a sum with the error on the left, an \<open>Option\<close> an \<open>option\<close>; a panic is
  an error value. A \<open>BTreeMap\<close> is the sorted list of its entries. State is passed explicitly, and the
  calls a handler makes to the outside are listed in their order. \<open>Muxe_Prelude\<close> holds this
  vocabulary and the interface \<open>event_machine\<close> (a step function with an invariant and checked
  outputs), which the terminal parser, the frame decoder and the menu session are instances of;
  \<open>Ordered_Table\<close> holds the table and the interface \<open>keyed_store\<close>.
\<close>

text \<open>
  The theories and the code they model.

  \<^item> Conditions. \<open>Condition\<close>: \<open>muxe-condition/src/lib.rs\<close>, the evaluator and the type checker over the
    interface \<open>condition_node\<close>; soundness of the types, and agreement with unbounded integers.
    \<open>Condition_Wire\<close>: the wire form of \<open>muxe-protocol/src/wire.rs\<close>, the lowering of the broker, the
    reconstruction of the interface.
  \<^item> Terminal input, \<open>muxe-terminal-input/src/lib.rs\<close>. \<open>Terminal_Types\<close>, \<open>Terminal_Csi\<close>,
    \<open>Terminal_Parser\<close>: events, parameters of a CSI sequence, the byte machine. \<open>Terminal_Facts\<close>: its
    invariant. \<open>Terminal_Utf8\<close>, \<open>Terminal_Kitty\<close>, \<open>Terminal_Stream\<close>: text, Kitty sequences,
    resynchronisation.
  \<^item> Keys. \<open>Key\<close>, \<open>Key_Syntax\<close>: \<open>muxe-core/src/key.rs\<close>, the syntax with its round trip, matching, the
    projection to a VT100 terminal. \<open>Key_Input\<close>: \<open>muxe-ui/src/input.rs\<close>, and the path from bytes to a
    binding.
  \<^item> Menus. \<open>Menu_Ids\<close>, \<open>Menu_Session\<close>: \<open>muxe-core/src/menu.rs\<close> and \<open>session.rs\<close>, the state machine of
    an open menu: its stack, its deadline, its pending action. \<open>Grid_Layout\<close>:
    \<open>muxe-ui/src/layout.rs\<close>, the arrangement of the cells. \<open>Theme_Colors\<close>, \<open>Theme_Compile\<close>:
    \<open>muxe-core/src/theme.rs\<close>, the resolver of color aliases and the compilation of a theme.
  \<^item> The broker. \<open>Launch_Gate\<close>: \<open>muxe-broker/src/gate.rs\<close>, the reservation of scopes for menus.
  \<^item> The protocol, \<open>muxe-protocol/src/wire.rs\<close> and \<open>frame.rs\<close>. \<open>Wire_Ids\<close>, \<open>Wire_Types\<close>: messages.
    \<open>Wire_Validate\<close>, \<open>Wire_Archived\<close>: the validators of sender and receiver; \<open>Wire_Twins\<close> compares
    them over the interface \<open>message_gate\<close> and characterises the accepted menus and conversations.
    \<open>Frame\<close>, \<open>Frame_Stream\<close>, \<open>Frame_Language\<close>: preludes, frames, the streaming decoder and the
    streams it accepts.
  \<^item> The Zellij plugin. \<open>Bridge_Frame\<close>: the frames of \<open>muxe-zellij-protocol/src/pipe.rs\<close> and
    \<open>muxe-protocol/src/bridge.rs\<close>. \<open>Bridge_Focus\<close>: \<open>focus.rs\<close>. \<open>Bridge_State\<close>, \<open>Zellij_Bridge\<close>: the
    state and every handler of \<open>muxe-zellij-wasm/src/bridge.rs\<close>. \<open>Bridge_Account\<close>, \<open>Bridge_Requests\<close>,
    \<open>Bridge_Capture\<close>: completions, releases of requests, the captured keyboard. \<open>Bridge_Sample\<close>: the
    session the witnesses run.
  \<^item> The Zellij adapter, \<open>muxe-adapter-zellij/src\<close>. \<open>Zellij_Registry\<close>: \<open>registry.rs\<close>.
    \<open>Zellij_Capture\<close>: \<open>capture.rs\<close>, with an ownership specification it refines. \<open>Zellij_Execution\<close>,
    \<open>Zellij_Adapter\<close>, \<open>Zellij_Pump\<close>, \<open>Zellij_Events\<close>, \<open>Zellij_Coverage\<close>: \<open>adapter.rs\<close>, the executions,
    queues, sending, reports and lifecycle. \<open>Zellij_Account\<close> is an abstract ledger of executions and
    requests, \<open>Zellij_Simulation\<close> and \<open>Zellij_Handlers\<close> show that every handler is a run of its moves,
    and \<open>Zellij_Dispatch\<close> draws the consequences for the broker.
  \<^item> Activation, \<open>muxe/src/lifecycle\<close>. \<open>Activation_Record\<close>, \<open>Activation_Validate\<close>: \<open>journal.rs\<close>, the saved
    record and its validator. \<open>Activation_World\<close>, \<open>Activation_Rollback\<close>, \<open>Activation_Drive\<close>,
    \<open>Activation_Loop\<close>, \<open>Activation_Commit\<close>: \<open>activate.rs\<close>, the rollback interpreter, the replay of a
    commit and the recovery of a record. \<open>Activation_Invariant\<close>: every record these write is valid.
    \<open>Activation_Audit\<close>: the write-ahead discipline as a check of a trace. \<open>Activation_Recovery\<close>,
    \<open>Activation_Outcome\<close>, \<open>Activation_Certified\<close>: the operations keep it. \<open>Activation_Replay\<close>: any
    number of recovery runs that are cut off anywhere. \<open>Activation_Sample\<close>: a record for witnesses.
\<close>

text \<open>
  Arguments of the model. What is not in the repository, or comes from outside the program, is an
  argument of the definitions that use it:

  \<^item> the archive serializer and its depth-bounded checker (rkyv), the JSON serializer, SHA-256, the
    template parser (minijinja) and the display width of a text;
  \<^item> the generated inventory of Zellij commands, as type variables and conversion functions;
  \<^item> the answers of a host, a transport, a file, a process or a control socket: one value for each
    question, asked in the order of the code, and free to fail; the clock, random tokens, and the
    order in which a hash table yields its entries.

  What a property assumes of them is a hypothesis of its theorem, and its witness discharges it on
  concrete functions.

  Loops. Recursion that is not structural has a termination proof: the sums of remaining bytes,
  queued items or unresolved names are the measures, and \<open>rollback_work\<close> for the rollback, whose
  every turn settles a member or moves the bridge, whatever the answers are. The frame decoder's loop
  is a \<open>partial_function\<close>; \<open>frame_chunk_independent\<close> includes that it returns on every input. The
  two attempts of \<open>pump_tries\<close> are the code's own bound; no other definition has fuel.

  Not modelled: the command line, the configuration compiler with its diagnostics, drawing, the Herdr
  adapter, the sockets, files and tasks of the broker, the process queries, the integration into the
  configuration of Zellij (for the most part calls to the system and to third-party libraries), and
  the forward run of an activation (preflight, preparation, spawning and readiness). The byte layout
  of archives and the text of errors are left out; errors keep their kind. In the adapter, the
  construction of the pipe children and the translation of portable actions are left out. Locks make
  each handler one step.

  Where the code does something else than its comments or its purpose say, a lemma shows it: for
  instance \<open>Zellij_Dispatch.renamed_slot_lost\<close>, \<open>Theme_Compile.loader_check_misses\<close>,
  \<open>Grid_Layout.pager_on_one_page\<close> and \<open>Activation_Replay.retry_resumes_unannounced\<close>.
\<close>

end
